(* ===== verification/Sf_Prelude.thy ===== *)
theory Sf_Prelude
  imports Complex_Main "HOL-Library.Word"
begin

text \<open>
  Shared vocabulary of the development: names for the machine types the library computes with,
  the rounding modes of \<open>include/soft_fp64/rounding_mode.h\<close>, and the lemmas that read a
  word operation as arithmetic on natural numbers (collection \<open>to_nat\<close>), on which every
  component proof rests.
\<close>

unbundle bit_operations_syntax

type_synonym u8 = "8 word"
type_synonym u16 = "16 word"
type_synonym u32 = "32 word"
type_synonym u64 = "64 word"

text \<open>
  A C++ \<open>double\<close> is carried as its 64 bits: \<open>bits_of\<close> and \<open>from_bits\<close> copy the object
  representation, so they are the identity here.  A \<open>float\<close> is its 32 bits.
\<close>

type_synonym f64 = "64 word"
type_synonym f32 = "32 word"

datatype sf64_rounding_mode = SF64_RNE | SF64_RTZ | SF64_RUP | SF64_RDN | SF64_RNA

text \<open>The exception flags of \<open>include/soft_fp64/soft_f64.h\<close>.\<close>

definition SF64_FE_INVALID :: u32 where "SF64_FE_INVALID = push_bit 0 1"
definition SF64_FE_DIVBYZERO :: u32 where "SF64_FE_DIVBYZERO = push_bit 1 1"
definition SF64_FE_OVERFLOW :: u32 where "SF64_FE_OVERFLOW = push_bit 2 1"
definition SF64_FE_UNDERFLOW :: u32 where "SF64_FE_UNDERFLOW = push_bit 3 1"
definition SF64_FE_INEXACT :: u32 where "SF64_FE_INEXACT = push_bit 4 1"

lemmas fe_flag_defs = SF64_FE_INVALID_def SF64_FE_DIVBYZERO_def SF64_FE_OVERFLOW_def
  SF64_FE_UNDERFLOW_def SF64_FE_INEXACT_def

named_theorems to_nat \<open>reading word operations as arithmetic on nat\<close>

section \<open>Words as natural numbers\<close>

lemma unat_drop_bit [to_nat]: "unat (drop_bit n w) = unat w div 2 ^ n"
  for w :: "'a::len word"
  by (metis unat_drop_bit_eq drop_bit_eq_div)

lemma unat_push_bit [to_nat]: "unat (push_bit n w) = (unat w * 2 ^ n) mod 2 ^ LENGTH('a)"
  for w :: "'a::len word"
proof -
  have "unat (push_bit n w) = unat (w * of_nat (2 ^ n))"
    by (simp add: push_bit_eq_mult)
  also have "\<dots> = (unat w * (2 ^ n mod 2 ^ LENGTH('a))) mod 2 ^ LENGTH('a)"
    by (simp only: unat_word_ariths unat_of_nat)
  finally show ?thesis by (simp add: mod_mult_right_eq)
qed

lemma unat_push_bit_lt: "unat w * 2 ^ n < 2 ^ LENGTH('a) \<Longrightarrow> unat (push_bit n w) = unat w * 2 ^ n"
  for w :: "'a::len word"
  by (simp add: unat_push_bit)

lemma unat_and_mask [to_nat]: "unat (w AND mask n) = unat w mod 2 ^ n"
  for w :: "'a::len word"
proof -
  have "w AND mask n = take_bit n w" by (simp add: take_bit_eq_mask)
  then show ?thesis by (metis unsigned_take_bit_eq take_bit_eq_mod)
qed

lemma unat_and_1 [to_nat]: "unat (w AND 1) = unat w mod 2"
  for w :: "'a::len word"
proof -
  have "(1::'a word) = mask 1" by (simp add: mask_Suc_0)
  then show ?thesis using unat_and_mask [of w 1] by simp
qed

lemma and_1_neq_0_iff [to_nat]: "w AND 1 \<noteq> 0 \<longleftrightarrow> odd (unat w)"
  for w :: "'a::len word"
proof -
  have "w AND 1 = 0 \<longleftrightarrow> unat (w AND 1) = 0" by (simp only: unat_eq_zero)
  then show ?thesis by (simp add: unat_and_1 even_iff_mod_2_eq_zero)
qed

lemma word_neq_0_unat: "w \<noteq> 0 \<longleftrightarrow> unat w \<noteq> 0"
  for w :: "'a::len word"
  by (simp add: unat_eq_zero)

lemma unat_ucast [to_nat]: "unat (ucast w :: 'b::len word) = unat w mod 2 ^ LENGTH('b)"
  for w :: "'a::len word"
  by (simp add: unsigned_ucast_eq take_bit_eq_mod)

lemma unat_ucast_lt: "unat w < 2 ^ LENGTH('b) \<Longrightarrow> unat (ucast w :: 'b::len word) = unat w"
  for w :: "'a::len word"
  by (simp add: unat_ucast)

lemma nat_or_disjoint: "m mod 2 ^ n = 0 \<Longrightarrow> v < 2 ^ n \<Longrightarrow> m OR v = m + v" for m v n :: nat
proof -
  assume m: "m mod 2 ^ n = 0" and v: "v < 2 ^ n"
  have m': "take_bit n m = 0" using m by (simp add: take_bit_eq_mod)
  have v': "take_bit n v = v" using v by (simp add: take_bit_nat_eq_self)
  have "m AND v = 0"
  proof (rule bit_eqI)
    fix i
    have "bit m i \<Longrightarrow> \<not> i < n" using m' by (metis bit_take_bit_iff bit_0_eq bot_apply bot_bool_def)
    moreover have "bit v i \<Longrightarrow> i < n" using v' by (metis bit_take_bit_iff)
    ultimately show "bit (m AND v) i = bit 0 i" by (auto simp: bit_and_iff)
  qed
  then show ?thesis by (simp add: disjunctive_add_eq_or)
qed

lemma unat_or_disjoint:
  "unat w mod 2 ^ n = 0 \<Longrightarrow> unat v < 2 ^ n \<Longrightarrow> unat (w OR v) = unat w + unat v"
  for w v :: "'a::len word"
  by (simp add: unsigned_or_eq nat_or_disjoint)

lemma nat_or_1: "n OR 1 = (if even n then n + 1 else n)" for n :: nat
  by (metis or_one_eq of_bool_eq add.right_neutral)

lemma unat_or_1 [to_nat]: "unat (w OR 1) = (if even (unat w) then unat w + 1 else unat w)"
  for w :: "'a::len word"
  by (simp add: unsigned_or_eq or_Suc_0_eq)

lemma mod_split: "(n::nat) mod 2 ^ (a + b) = n mod 2 ^ a + 2 ^ a * (n div 2 ^ a mod 2 ^ b)"
  by (simp add: power_add mod_mult2_eq)

lemma odd_mod_neq_0: "(n::nat) mod 2 = Suc 0 \<longleftrightarrow> odd n"
  by (simp add: odd_iff_mod_2_eq_one)

lemma unat_lt64: "unat (w :: 64 word) < 18446744073709551616"
  using unsigned_less [of w] by simp

lemma unat_lt32: "unat (w :: 32 word) < 4294967296"
  using unsigned_less [of w] by simp

lemma unat_add_lt: "unat a + unat b < 2 ^ LENGTH('a) \<Longrightarrow> unat (a + b) = unat a + unat b"
  for a b :: "'a::len word"
  by (simp add: unat_word_ariths)

lemma unat_sub_le: "unat b \<le> unat a \<Longrightarrow> unat (a - b) = unat a - unat b"
  for a b :: "'a::len word"
  by (simp add: unat_sub word_le_nat_alt)

lemma unat_mult_lt: "unat a * unat b < 2 ^ LENGTH('a) \<Longrightarrow> unat (a * b) = unat a * unat b"
  for a b :: "'a::len word"
  by (simp add: unat_word_ariths)

lemma word_eq_unatI: "unat a = unat b \<Longrightarrow> a = b" for a b :: "'a::len word"
  by (rule unsigned_word_eqI)

lemma unat_word_of_int: "0 \<le> i \<Longrightarrow> i < 2 ^ LENGTH('a) \<Longrightarrow> unat (word_of_int i :: 'a::len word) = nat i"
  by (simp add: unsigned_of_int take_bit_int_eq_self)

lemma odd_div_pow_iff: "2 ^ k \<le> n \<Longrightarrow> n < 2 ^ Suc k \<Longrightarrow> odd (n div 2 ^ k)" for n :: nat
proof -
  assume "2 ^ k \<le> n" "n < 2 ^ Suc k"
  then have "n div 2 ^ k = 1" by (intro div_nat_eqI) simp_all
  then show ?thesis by simp
qed

lemma top_bit_iff: "n < 2 ^ Suc k \<Longrightarrow> odd (n div 2 ^ k) \<longleftrightarrow> 2 ^ k \<le> n" for n :: nat
  by (metis odd_div_pow_iff div_less even_zero not_le)

section \<open>Limbs\<close>

lemma limb_mod: "l < B \<Longrightarrow> (h * B + l) mod (B * C) = (h mod C) * B + l" for l B C h :: nat
  by (cases "B = 0") (simp_all add: mod_mult2_eq)

lemma limb_less_iff:
  assumes "l < B" "m < (B::nat)" shows "h * B + l < k * B + m \<longleftrightarrow> h < k \<or> (h = k \<and> l < m)"
proof (cases h k rule: linorder_cases)
  case less
  then have "(h + 1) * B \<le> k * B" by (intro mult_right_mono) simp_all
  then show ?thesis using assms less by simp
next
  case greater
  then have "(k + 1) * B \<le> h * B" by (intro mult_right_mono) simp_all
  then show ?thesis using assms greater by simp
qed simp

lemma limb_bound:
  assumes "h < C" "l < (B::nat)" shows "h * B + l < C * B"
proof -
  have "(h + 1) * B \<le> C * B" using assms by (intro mult_right_mono) simp_all
  then show ?thesis using assms by simp
qed

end
