(* ===== verification/Sf_Spec.thy ===== *)
theory Sf_Spec
  imports Sf_Prelude
begin

text \<open>
  The abstract specification of rounding, independent of the code: a binary format is given by
  the number \<open>p\<close> of its fraction bits and the exponent \<open>qmin\<close> of its smallest subnormal
  (binary64: 52 and -1074).  A positive real is rounded to an integer multiple of its quantum
  (\<open>quantum\<close>) by one of the five IEEE rounding attributes (\<open>rnd_int\<close>), and the multiple is
  written as the magnitude bits of the format (\<open>round_mag\<close>).  The relation \<open>same_cell\<close> is the
  meaning of guard and sticky bits: two reals in the same cell of the grid of multiples of
  \<open>2 ^ k\<close> round alike at every coarser position.
\<close>

section \<open>Powers of two and binades\<close>

lemma powi2_pos [simp]: "0 < (2::real) powi e"
  by simp

lemma powi2_add: "(2::real) powi (a + b) = 2 powi a * 2 powi b"
  by (simp add: power_int_add)

lemma powi2_diff: "(2::real) powi (a - b) = 2 powi a / 2 powi b"
  by (simp add: power_int_diff)

lemma powi2_nat: "0 \<le> e \<Longrightarrow> (2::real) powi e = 2 ^ nat e"
  by (simp add: power_int_nonneg_exp)

lemma powi2_mono: "a \<le> b \<Longrightarrow> (2::real) powi a \<le> 2 powi b"
  by (rule power_int_increasing) auto

lemma powi2_strict_mono: "a < b \<Longrightarrow> (2::real) powi a < 2 powi b"
  by (rule power_int_strict_increasing) auto

lemma powi2_less_iff [simp]: "(2::real) powi a < 2 powi b \<longleftrightarrow> a < b"
  using powi2_mono powi2_strict_mono by (meson linorder_not_le)

lemma powi2_le_iff [simp]: "(2::real) powi a \<le> 2 powi b \<longleftrightarrow> a \<le> b"
  using powi2_mono powi2_strict_mono by (meson linorder_not_le)

lemma floor_log2_eq: "0 < x \<Longrightarrow> \<lfloor>log 2 x\<rfloor> = e \<longleftrightarrow> 2 powi e \<le> x \<and> x < 2 powi (e + 1)"
  using floor_log_eq_powr_iff [of x 2 e] powr_real_of_int' [of 2 e] powr_real_of_int' [of 2 "e + 1"]
  by simp

lemma floor_log2_eqI: "2 powi e \<le> x \<Longrightarrow> x < 2 powi (e + 1) \<Longrightarrow> \<lfloor>log 2 x\<rfloor> = e"
proof -
  assume a: "2 powi e \<le> x" "x < 2 powi (e + 1)"
  have "(0::real) < 2 powi e" by simp
  then have "0 < x" using a by linarith
  then show ?thesis using floor_log2_eq a by blast
qed

lemma floor_log2_bounds:
  assumes "0 < (x::real)"
  shows "2 powi \<lfloor>log 2 x\<rfloor> \<le> x" "x < 2 powi (\<lfloor>log 2 x\<rfloor> + 1)"
  using floor_log2_eq [OF assms] by blast+

lemma floor_log2_less_iff: "0 < x \<Longrightarrow> \<lfloor>log 2 x\<rfloor> < e \<longleftrightarrow> x < 2 powi e"
proof -
  assume x: "0 < x"
  show ?thesis
  proof
    assume "\<lfloor>log 2 x\<rfloor> < e"
    then have "(2::real) powi (\<lfloor>log 2 x\<rfloor> + 1) \<le> 2 powi e" by simp
    then show "x < 2 powi e" using floor_log2_bounds [OF x] by linarith
  next
    assume "x < 2 powi e"
    then have "(2::real) powi \<lfloor>log 2 x\<rfloor> < 2 powi e" using floor_log2_bounds [OF x] by linarith
    then show "\<lfloor>log 2 x\<rfloor> < e" by simp
  qed
qed

section \<open>Cells of a grid\<close>

definition same_cell :: "nat \<Rightarrow> real \<Rightarrow> real \<Rightarrow> bool" where
  "same_cell k x y \<longleftrightarrow> \<lfloor>x / 2 ^ k\<rfloor> = \<lfloor>y / 2 ^ k\<rfloor> \<and> \<lceil>x / 2 ^ k\<rceil> = \<lceil>y / 2 ^ k\<rceil>"

lemma same_cell_refl [simp]: "same_cell k x x"
  by (simp add: same_cell_def)

lemma same_cell_sym: "same_cell k x y \<Longrightarrow> same_cell k y x"
  by (simp add: same_cell_def)

lemma same_cell_trans: "same_cell k x y \<Longrightarrow> same_cell k y z \<Longrightarrow> same_cell k x z"
  by (simp add: same_cell_def)

lemma floor_div_pow2: "\<lfloor>x / 2 ^ (k + j)\<rfloor> = \<lfloor>x / 2 ^ k\<rfloor> div 2 ^ j" for x :: real
proof -
  have "x / 2 ^ (k + j) = (x / 2 ^ k) / real_of_int (2 ^ j)" by (simp add: power_add)
  then show ?thesis by (metis floor_divide_real_eq_div zero_le_numeral zero_le_power)
qed

lemma ceiling_div_pow2: "\<lceil>x / 2 ^ (k + j)\<rceil> = - (- \<lceil>x / 2 ^ k\<rceil> div 2 ^ j)" for x :: real
  using floor_div_pow2 [of "- x" k j] by (simp add: ceiling_def)

lemma same_cell_mono: "same_cell k x y \<Longrightarrow> k \<le> l \<Longrightarrow> same_cell l x y"
proof -
  assume s: "same_cell k x y" and kl: "k \<le> l"
  obtain j where l: "l = k + j" using kl by (metis le_add_diff_inverse)
  show ?thesis using s by (simp add: same_cell_def l floor_div_pow2 ceiling_div_pow2)
qed

lemma same_cell_scale: "same_cell k x y \<Longrightarrow> same_cell (k + j) (x * 2 ^ j) (y * 2 ^ j)"
  by (simp add: same_cell_def power_add)

lemma same_cell_unscale: "same_cell (k + j) x y \<Longrightarrow> same_cell k (x / 2 ^ j) (y / 2 ^ j)"
  by (simp add: same_cell_def power_add field_simps)

lemma same_cell_add: "same_cell k x y \<Longrightarrow> same_cell k (real_of_int m * 2 ^ k + x) (real_of_int m * 2 ^ k + y)"
  by (simp add: same_cell_def add_divide_distrib add.commute [of "real_of_int m"])

lemma same_cell_minus: "same_cell k x y \<Longrightarrow> same_cell k (- x) (- y)"
  by (simp add: same_cell_def ceiling_def)

lemma same_cell_diff:
  assumes "same_cell k x y"
  shows "same_cell k (real_of_int m * 2 ^ k - x) (real_of_int m * 2 ^ k - y)"
  using same_cell_add [OF same_cell_minus [OF assms], of m] by simp

lemma same_cell_le_iff:
  assumes "same_cell k x y" shows "real_of_int m * 2 ^ k \<le> x \<longleftrightarrow> real_of_int m * 2 ^ k \<le> y"
proof -
  have "real_of_int m * 2 ^ k \<le> x \<longleftrightarrow> m \<le> \<lfloor>x / 2 ^ k\<rfloor>" for x :: real
    by (simp add: le_floor_iff field_simps)
  then show ?thesis using assms by (simp add: same_cell_def)
qed

lemma same_cell_less_iff:
  assumes "same_cell k x y" shows "x < real_of_int m * 2 ^ k \<longleftrightarrow> y < real_of_int m * 2 ^ k"
  using same_cell_le_iff [OF assms, of m] by linarith

lemma same_cell_eq_iff:
  assumes "same_cell k x y" shows "x = real_of_int m * 2 ^ k \<longleftrightarrow> y = real_of_int m * 2 ^ k"
proof -
  have "x = real_of_int m * 2 ^ k \<longleftrightarrow> \<lfloor>x / 2 ^ k\<rfloor> = m \<and> \<lceil>x / 2 ^ k\<rceil> = m" for x :: real
  proof
    assume "x = real_of_int m * 2 ^ k"
    then show "\<lfloor>x / 2 ^ k\<rfloor> = m \<and> \<lceil>x / 2 ^ k\<rceil> = m" by simp
  next
    assume a: "\<lfloor>x / 2 ^ k\<rfloor> = m \<and> \<lceil>x / 2 ^ k\<rceil> = m"
    then have "x / 2 ^ k = real_of_int m"
      by (metis ceiling_correct dual_order.antisym floor_correct)
    then show "x = real_of_int m * 2 ^ k" by (simp add: field_simps)
  qed
  then show ?thesis using assms by (simp add: same_cell_def)
qed

text \<open>Shifting right while folding the lost bits into bit 0 stays in the cell.\<close>

definition jam :: "nat \<Rightarrow> nat \<Rightarrow> nat" where
  "jam n c = (if n mod 2 ^ c \<noteq> 0 then n div 2 ^ c OR 1 else n div 2 ^ c)"

lemma jam_0 [simp]: "jam n 0 = n"
  by (simp add: jam_def)

lemma jam_le: "jam n c \<le> n div 2 ^ c + 1"
  by (simp add: jam_def or_Suc_0_eq)

lemma jam_ge: "n div 2 ^ c \<le> jam n c"
  by (simp add: jam_def or_Suc_0_eq)

lemma frac_cell_one:
  assumes "0 < f" "f < (1::real)"
  shows "same_cell 1 (real (d OR 1)) (real d + f)"
proof -
  obtain e b where d: "d = 2 * e + b" "b < 2" by (metis div_mod_decomp mod_less_divisor mult.commute pos2)
  have o: "real (d OR 1) / 2 = real e + 1 / 2"
    using d by (auto simp: or_Suc_0_eq less_2_cases_iff)
  have "\<lfloor>(real d + f) / 2\<rfloor> = int e" "\<lceil>(real d + f) / 2\<rceil> = int e + 1"
    using d assms by (auto simp: floor_eq_iff ceiling_eq_iff less_2_cases_iff)
  moreover have "\<lfloor>real e + 1 / 2\<rfloor> = int e" "\<lceil>real e + 1 / 2\<rceil> = int e + 1"
    by (auto simp: floor_eq_iff ceiling_eq_iff)
  ultimately show ?thesis unfolding same_cell_def power_one_right o by metis
qed

lemma jam_cell:
  assumes "1 \<le> k" shows "same_cell k (real (jam n c)) (real n / 2 ^ c)"
proof -
  let ?d = "n div 2 ^ c" and ?r = "n mod 2 ^ c"
  have n: "n = ?d * 2 ^ c + ?r" by (rule div_mult_mod_eq [symmetric])
  have q: "real n / 2 ^ c = real ?d + real ?r / 2 ^ c"
    by (subst n) (simp add: add_divide_distrib del: div_mult_mod_eq)
  have "same_cell 1 (real (jam n c)) (real n / 2 ^ c)"
  proof (cases "?r = 0")
    case True then show ?thesis using q by (simp add: jam_def)
  next
    case False
    have "?r < 2 ^ c" by simp
    then have "real ?r < 2 ^ c" by (metis of_nat_less_iff of_nat_numeral of_nat_power)
    then have "real ?r / 2 ^ c < 1" "0 < real ?r / 2 ^ c" using False by auto
    then show ?thesis using False q frac_cell_one [of "real ?r / 2 ^ c" ?d] by (simp add: jam_def)
  qed
  then show ?thesis by (rule same_cell_mono) (rule assms)
qed

lemma jam_same_cell:
  assumes "same_cell (k + c) (real n) y" "1 \<le> k"
  shows "same_cell k (real (jam n c)) (y / 2 ^ c)"
  using jam_cell [OF assms(2)] same_cell_unscale [OF assms(1)] by (rule same_cell_trans)

section \<open>Rounding to an integer\<close>

text \<open>The five rounding attributes on a non-negative magnitude whose sign is \<open>s\<close>.\<close>

definition rnd_int :: "sf64_rounding_mode \<Rightarrow> bool \<Rightarrow> real \<Rightarrow> int" where
  "rnd_int m s y = (case m of
      SF64_RTZ \<Rightarrow> \<lfloor>y\<rfloor>
    | SF64_RUP \<Rightarrow> (if s then \<lfloor>y\<rfloor> else \<lceil>y\<rceil>)
    | SF64_RDN \<Rightarrow> (if s then \<lceil>y\<rceil> else \<lfloor>y\<rfloor>)
    | SF64_RNA \<Rightarrow> \<lfloor>y + 1 / 2\<rfloor>
    | SF64_RNE \<Rightarrow>
        (if y - \<lfloor>y\<rfloor> < 1 / 2 \<or> (y - \<lfloor>y\<rfloor> = 1 / 2 \<and> even \<lfloor>y\<rfloor>) then \<lfloor>y\<rfloor> else \<lfloor>y\<rfloor> + 1))"

text \<open>The same decision on the guard bit, the sticky bit and the last kept bit.\<close>

definition round_up_dec :: "bool \<Rightarrow> bool \<Rightarrow> bool \<Rightarrow> bool \<Rightarrow> sf64_rounding_mode \<Rightarrow> bool" where
  "round_up_dec s rb st lsb m = (case m of
      SF64_RTZ \<Rightarrow> False
    | SF64_RUP \<Rightarrow> \<not> s \<and> (rb \<or> st)
    | SF64_RDN \<Rightarrow> s \<and> (rb \<or> st)
    | SF64_RNA \<Rightarrow> rb
    | SF64_RNE \<Rightarrow> rb \<and> (st \<or> lsb))"

lemma rnd_int_of_int [simp]: "rnd_int m s (real_of_int i) = i"
proof -
  have "\<lfloor>real_of_int i + 1 / 2\<rfloor> = i" by linarith
  then show ?thesis by (cases m) (simp_all add: rnd_int_def)
qed

lemma rnd_int_nonneg: "0 \<le> y \<Longrightarrow> 0 \<le> rnd_int m s y"
proof (cases m)
  case SF64_RNA
  assume "0 \<le> y" then show ?thesis using SF64_RNA by (simp add: rnd_int_def)
qed (auto simp: rnd_int_def)

lemma rnd_int_floor_or_ceiling: "rnd_int m s y = \<lfloor>y\<rfloor> \<or> rnd_int m s y = \<lceil>y\<rceil>"
proof (cases "y = real_of_int \<lfloor>y\<rfloor>")
  case True
  then have "rnd_int m s y = \<lfloor>y\<rfloor>" by (metis rnd_int_of_int)
  then show ?thesis ..
next
  case False
  then have c: "\<lceil>y\<rceil> = \<lfloor>y\<rfloor> + 1" by (metis ceiling_altdef)
  have "\<lfloor>y + 1 / 2\<rfloor> = \<lfloor>y\<rfloor> \<or> \<lfloor>y + 1 / 2\<rfloor> = \<lfloor>y\<rfloor> + 1" by linarith
  then show ?thesis by (cases m) (auto simp: rnd_int_def c)
qed

lemma rnd_int_bounds: "\<lfloor>y\<rfloor> \<le> rnd_int m s y" "rnd_int m s y \<le> \<lceil>y\<rceil>"
  using rnd_int_floor_or_ceiling [of m s y] floor_le_ceiling [of y] by linarith+

lemma rnd_int_exact_iff: "real_of_int (rnd_int m s y) = y \<longleftrightarrow> \<lceil>y\<rceil> = \<lfloor>y\<rfloor>"
proof
  assume "real_of_int (rnd_int m s y) = y"
  then show "\<lceil>y\<rceil> = \<lfloor>y\<rfloor>" by (metis ceiling_of_int floor_of_int)
next
  assume "\<lceil>y\<rceil> = \<lfloor>y\<rfloor>"
  then have "y = real_of_int \<lfloor>y\<rfloor>" by (metis ceiling_correct dual_order.antisym floor_correct)
  then show "real_of_int (rnd_int m s y) = y" by (metis rnd_int_of_int)
qed

text \<open>Rounding to nearest even is odd in its argument.\<close>

lemma rne_minus: "rnd_int SF64_RNE s (- y) = - rnd_int SF64_RNE s y"
proof (cases "y = real_of_int \<lfloor>y\<rfloor>")
  case True
  then have "- y = real_of_int (- \<lfloor>y\<rfloor>)" by simp
  then show ?thesis using True by (metis rnd_int_of_int)
next
  case False
  define f where "f = \<lfloor>y\<rfloor>"
  have b: "real_of_int f < y" "y < real_of_int f + 1" using False floor_correct [of y] unfolding f_def by linarith+
  have g: "\<lfloor>- y\<rfloor> = - f - 1" using b by (simp add: floor_eq_iff)
  consider "y - f < 1 / 2" | "y - f = 1 / 2" | "1 / 2 < y - f" by linarith
  then show ?thesis
    by cases (use b in \<open>auto simp: rnd_int_def g f_def [symmetric]\<close>)
qed

text \<open>Rounding reads only the half-unit cell of its argument.\<close>

lemma rnd_int_by_halves:
  fixes y :: real
  defines "f \<equiv> \<lfloor>2 * y\<rfloor>" and "c \<equiv> \<lceil>2 * y\<rceil>"
  shows "rnd_int m s y = f div 2 + of_bool (round_up_dec s (odd f) (c \<noteq> f) (odd (f div 2)) m)"
proof -
  have fl: "\<lfloor>y\<rfloor> = f div 2"
    using floor_div_pow2 [of "2 * y" 0 1] by (simp add: f_def)
  have ce: "\<lceil>y\<rceil> = - (- c div 2)"
    using ceiling_div_pow2 [of "2 * y" 0 1] by (simp add: c_def)
  have c: "c = f \<and> 2 * y = real_of_int f \<or> c = f + 1 \<and> real_of_int f < 2 * y \<and> 2 * y < real_of_int f + 1"
    unfolding f_def c_def by (cases "2 * y = real_of_int \<lfloor>2 * y\<rfloor>") (simp_all add: ceiling_altdef, linarith)
  obtain k b where f: "f = 2 * k + b" "b = 0 \<or> b = 1"
    by (metis add.right_neutral evenE oddE)
  then have fd: "f div 2 = k" and od: "odd f \<longleftrightarrow> b = 1" by auto
  have half: "\<lfloor>y + 1 / 2\<rfloor> = (f + 1) div 2"
    using floor_div_pow2 [of "2 * y + 1" 0 1] by (simp add: f_def add_divide_distrib)
  have ry: "y - real_of_int k < 1 / 2 \<longleftrightarrow> b = 0" "y - real_of_int k = 1 / 2 \<longleftrightarrow> b = 1 \<and> c = f"
    using c f by auto
  have ce': "\<lceil>y\<rceil> = k + of_bool (b = 1 \<or> c \<noteq> f)"
    unfolding ce using c f by auto
  have half': "\<lfloor>y + 1 / 2\<rfloor> = k + of_bool (b = 1)" unfolding half using f by auto
  show ?thesis
    unfolding rnd_int_def round_up_dec_def fl fd od ce' half' ry using f(2) by (cases m) auto
qed

lemma rnd_int_same_cell:
  assumes "same_cell k x y"
  shows "rnd_int m s (x / 2 ^ Suc k) = rnd_int m s (y / 2 ^ Suc k)"
    and "\<lceil>x / 2 ^ Suc k\<rceil> = \<lfloor>x / 2 ^ Suc k\<rfloor> \<longleftrightarrow> \<lceil>y / 2 ^ Suc k\<rceil> = \<lfloor>y / 2 ^ Suc k\<rfloor>"
proof -
  have "2 * (x / 2 ^ Suc k) = x / 2 ^ k" "2 * (y / 2 ^ Suc k) = y / 2 ^ k" by simp_all
  then show "rnd_int m s (x / 2 ^ Suc k) = rnd_int m s (y / 2 ^ Suc k)"
    using assms by (simp only: rnd_int_by_halves same_cell_def)
  show "\<lceil>x / 2 ^ Suc k\<rceil> = \<lfloor>x / 2 ^ Suc k\<rfloor> \<longleftrightarrow> \<lceil>y / 2 ^ Suc k\<rceil> = \<lfloor>y / 2 ^ Suc k\<rfloor>"
    using same_cell_mono [OF assms, of "Suc k"] by (simp add: same_cell_def)
qed

text \<open>Rounding the integer \<open>n\<close> at bit \<open>Suc k\<close>: the quotient plus the decision on its bits.\<close>

lemma floor_nat_div: "\<lfloor>real n / 2 ^ k\<rfloor> = int (n div 2 ^ k)"
  using floor_divide_of_nat_eq [of n "2 ^ k"] by simp

lemma ceiling_nat_div: "\<lceil>real n / 2 ^ k\<rceil> = int (n div 2 ^ k) + of_bool (n mod 2 ^ k \<noteq> 0)"
proof (cases "n mod 2 ^ k = 0")
  case True
  then obtain j where "n = 2 ^ k * j" by (metis mod_eq_0_iff_dvd dvdE)
  then show ?thesis by simp
next
  case False
  have "real n / 2 ^ k \<noteq> real_of_int \<lfloor>real n / 2 ^ k\<rfloor>"
  proof
    assume "real n / 2 ^ k = real_of_int \<lfloor>real n / 2 ^ k\<rfloor>"
    then have "real n = real (n div 2 ^ k * 2 ^ k)" unfolding floor_nat_div by (simp add: field_simps)
    then have "n = n div 2 ^ k * 2 ^ k" by (simp only: of_nat_eq_iff)
    then have "n mod 2 ^ k = 0" by (metis mod_mult_self2_is_0)
    then show False using False by simp
  qed
  then show ?thesis using False by (simp add: ceiling_altdef floor_nat_div)
qed

lemma rnd_int_nat:
  "rnd_int m s (real n / 2 ^ Suc k) = int (n div 2 ^ Suc k
     + of_bool (round_up_dec s (odd (n div 2 ^ k)) (n mod 2 ^ k \<noteq> 0) (odd (n div 2 ^ Suc k)) m))"
proof -
  have e: "2 * (real n / 2 ^ Suc k) = real n / 2 ^ k" by simp
  have d: "int (n div 2 ^ k) div 2 = int (n div 2 ^ Suc k)"
    by (simp add: zdiv_int zdiv_zmult2_eq mult.commute [of 2])
  have o: "odd (int (n div 2 ^ k)) \<longleftrightarrow> odd (n div 2 ^ k)" "odd (int (n div 2 ^ Suc k)) \<longleftrightarrow> odd (n div 2 ^ Suc k)"
    by simp_all
  show ?thesis
    unfolding rnd_int_by_halves e floor_nat_div ceiling_nat_div d o by simp
qed

section \<open>Formats: magnitude bits and their values\<close>

text \<open>The value of the magnitude bits \<open>n\<close> (exponent field above \<open>p\<close> fraction bits).\<close>

definition mag_val :: "nat \<Rightarrow> int \<Rightarrow> nat \<Rightarrow> real" where
  "mag_val p qmin n =
     (if n div 2 ^ p = 0 then real n * 2 powi qmin
      else real (n mod 2 ^ p + 2 ^ p) * 2 powi (qmin + int (n div 2 ^ p) - 1))"

lemma mag_val_0 [simp]: "mag_val p qmin 0 = 0"
  by (simp add: mag_val_def)

lemma mag_val_encode:
  assumes k: "k \<le> 2 ^ Suc p" and d: "0 < d \<Longrightarrow> 2 ^ p \<le> k"
  shows "mag_val p qmin (d * 2 ^ p + k) = real k * 2 powi (qmin + int d)"
proof -
  consider (sub) "k < 2 ^ p" | (normal) "2 ^ p \<le> k" "k < 2 ^ Suc p" | (carry) "k = 2 ^ Suc p"
    using k by linarith
  then show ?thesis
  proof cases
    case sub
    then have "d = 0" using d by (metis gr_zeroI linorder_not_le)
    then show ?thesis using sub by (simp add: mag_val_def)
  next
    case normal
    then obtain r where r: "k = 2 ^ p + r" "r < 2 ^ p"
      by (metis add_less_cancel_left le_Suc_ex mult_2 power_Suc)
    have n: "d * 2 ^ p + k = r + Suc d * 2 ^ p" by (simp add: r)
    have "(d * 2 ^ p + k) div 2 ^ p = Suc d" "(d * 2 ^ p + k) mod 2 ^ p = r"
      unfolding n by (simp_all only: div_mult_self1 mod_mult_self1 r(2) div_less mod_less add_0
          power_not_zero zero_neq_numeral not_False_eq_True)
    then show ?thesis by (simp add: mag_val_def r)
  next
    case carry
    have n: "d * 2 ^ p + k = 0 + (d + 2) * 2 ^ p" by (simp add: carry)
    have dm: "(d * 2 ^ p + k) div 2 ^ p = d + 2" "(d * 2 ^ p + k) mod 2 ^ p = 0"
      unfolding n by simp_all
    have "(2::real) powi (qmin + int (d + 2) - 1) = 2 * 2 powi (qmin + int d)"
      using powi2_add [of 1 "qmin + int d"] by (simp add: algebra_simps)
    then show ?thesis using dm by (simp add: mag_val_def carry)
  qed
qed

lemma mag_decompose:
  obtains d k where "n = d * 2 ^ p + k" "k < 2 ^ Suc p" "0 < d \<Longrightarrow> 2 ^ p \<le> (k::nat)"
proof (cases "n div 2 ^ p = 0")
  case True
  then have "n < 2 ^ p" by (simp add: div_eq_0_iff)
  then show ?thesis using that [of 0 n] by simp
next
  case False
  then obtain d where d: "n div 2 ^ p = Suc d" by (metis not0_implies_Suc)
  have "n = d * 2 ^ p + (n mod 2 ^ p + 2 ^ p)"
    using div_mult_mod_eq [of n "2 ^ p"] by (simp add: d)
  moreover have "n mod 2 ^ p + 2 ^ p < 2 ^ Suc p" by simp
  ultimately show ?thesis using that [of d "n mod 2 ^ p + 2 ^ p"] by simp
qed

lemma mag_val_less_Suc: "mag_val p qmin n < mag_val p qmin (Suc n)"
proof -
  obtain d k where n: "n = d * 2 ^ p + k" "k < 2 ^ Suc p" "0 < d \<Longrightarrow> 2 ^ p \<le> k"
    using mag_decompose [of n p] by metis
  have "mag_val p qmin n = real k * 2 powi (qmin + int d)"
    using n mag_val_encode [of k p d] by simp
  moreover have "mag_val p qmin (Suc n) = real (Suc k) * 2 powi (qmin + int d)"
    using n mag_val_encode [of "Suc k" p d] by (simp add: Suc_le_eq le_SucI)
  ultimately show ?thesis by simp
qed

lemma mag_val_less_iff [simp]: "mag_val p qmin m < mag_val p qmin n \<longleftrightarrow> m < n"
  using strict_mono_less [OF strict_mono_Suc_iff [THEN iffD2]] mag_val_less_Suc by blast

lemma mag_val_le_iff [simp]: "mag_val p qmin m \<le> mag_val p qmin n \<longleftrightarrow> m \<le> n"
  using mag_val_less_iff [of p qmin n m] by linarith

lemma mag_val_eq_iff [simp]: "mag_val p qmin m = mag_val p qmin n \<longleftrightarrow> m = n"
  by (metis mag_val_le_iff order_antisym order_refl)

lemma mag_val_nonneg [simp]: "0 \<le> mag_val p qmin n"
  using mag_val_le_iff [of p qmin 0 n] by simp

lemma mag_val_pos_iff [simp]: "0 < mag_val p qmin n \<longleftrightarrow> 0 < n"
  using mag_val_less_iff [of p qmin 0 n] by simp

section \<open>Rounding to a format\<close>

definition quantum :: "nat \<Rightarrow> int \<Rightarrow> real \<Rightarrow> int" where
  "quantum p qmin x = max (\<lfloor>log 2 x\<rfloor> - int p) qmin"

definition round_mag :: "nat \<Rightarrow> int \<Rightarrow> sf64_rounding_mode \<Rightarrow> bool \<Rightarrow> real \<Rightarrow> nat" where
  "round_mag p qmin m s x =
     (let q = quantum p qmin x
      in nat (q - qmin) * 2 ^ p + nat (rnd_int m s (x / 2 powi q)))"

lemma quantum_scaled_bounds:
  assumes "0 < x"
  shows "x / 2 powi quantum p qmin x < 2 ^ Suc p"
    and "qmin < quantum p qmin x \<Longrightarrow> 2 ^ p \<le> x / 2 powi quantum p qmin x"
proof -
  let ?e = "\<lfloor>log 2 x\<rfloor>" and ?q = "quantum p qmin x"
  have "?e + 1 \<le> ?q + int (Suc p)" by (simp add: quantum_def)
  then have "(2::real) powi (?e + 1) \<le> 2 powi (?q + int (Suc p))" by (rule powi2_mono)
  then have "x < 2 powi ?q * 2 ^ Suc p"
    using floor_log2_bounds(2) [OF assms] unfolding powi2_add power_int_of_nat by linarith
  then show "x / 2 powi ?q < 2 ^ Suc p" by (simp add: field_simps)
  assume "qmin < ?q"
  then have "?q + int p = ?e" by (simp add: quantum_def)
  then have "2 powi ?q * 2 ^ p \<le> x"
    using floor_log2_bounds(1) [OF assms] by (metis powi2_add power_int_of_nat)
  then show "2 ^ p \<le> x / 2 powi ?q" by (simp add: field_simps)
qed

lemma pow2_floor_bounds:
  assumes "(y::real) < 2 ^ n" shows "\<lceil>y\<rceil> \<le> 2 ^ n" "\<lfloor>y\<rfloor> < 2 ^ n"
  using assms by (simp_all add: ceiling_le_iff floor_less_iff)

lemma round_mag_encode:
  fixes m s p qmin x
  defines "q \<equiv> quantum p qmin x"
  defines "k \<equiv> nat (rnd_int m s (x / 2 powi q))" and "f \<equiv> nat \<lfloor>x / 2 powi q\<rfloor>"
  assumes "0 < x"
  shows "k \<le> 2 ^ Suc p" "0 < nat (q - qmin) \<Longrightarrow> 2 ^ p \<le> k" "f < 2 ^ Suc p"
    "0 < nat (q - qmin) \<Longrightarrow> 2 ^ p \<le> f" "k = f \<or> k = Suc f" "qmin + int (nat (q - qmin)) = q"
    "real f \<le> x / 2 powi q" "x / 2 powi q < real f + 1"
proof -
  let ?y = "x / 2 powi q"
  have y0: "0 \<le> ?y" using assms(4) by simp
  note b = quantum_scaled_bounds [OF assms(4), where p = p and qmin = qmin, folded q_def]
  have f: "int f = \<lfloor>?y\<rfloor>" using y0 by (simp add: f_def)
  have k: "int k = rnd_int m s ?y" using rnd_int_nonneg [OF y0, of m s] by (simp add: k_def)
  have "rnd_int m s ?y \<le> 2 ^ Suc p" using rnd_int_bounds(2) pow2_floor_bounds(1) [OF b(1)] by (rule order_trans)
  then have "int k \<le> int (2 ^ Suc p)" unfolding k by simp
  then show "k \<le> 2 ^ Suc p" by (simp only: of_nat_le_iff)
  have "int f < int (2 ^ Suc p)" using pow2_floor_bounds(2) [OF b(1)] unfolding f by simp
  then show "f < 2 ^ Suc p" by (simp only: of_nat_less_iff)
  show pf: "2 ^ p \<le> f" if "0 < nat (q - qmin)"
  proof -
    have "2 ^ p \<le> ?y" using b(2) that by simp
    then have "int (2 ^ p) \<le> int f" unfolding f by (simp add: le_floor_iff)
    then show ?thesis by (simp only: of_nat_le_iff)
  qed
  have "int k = int f \<or> int k = int f + 1"
    unfolding k f using rnd_int_floor_or_ceiling [of m s ?y] by (auto simp: ceiling_altdef split: if_splits)
  then show kf: "k = f \<or> k = Suc f" by linarith
  show "2 ^ p \<le> k" if "0 < nat (q - qmin)" using kf pf [OF that] by auto
  show "qmin + int (nat (q - qmin)) = q" by (simp add: q_def quantum_def)
  have "real f = real_of_int \<lfloor>?y\<rfloor>" by (metis f of_int_of_nat_eq)
  then show "real f \<le> ?y" "?y < real f + 1" by linarith+
qed

lemma round_mag_value:
  assumes "0 < x"
  shows "mag_val p qmin (round_mag p qmin m s x)
       = real_of_int (rnd_int m s (x / 2 powi quantum p qmin x)) * 2 powi quantum p qmin x"
proof -
  note e1 = round_mag_encode(1) [OF assms, where p = p and qmin = qmin and m = m and s = s]
  note e2 = round_mag_encode(2) [OF assms, where p = p and qmin = qmin and m = m and s = s]
  note e6 = round_mag_encode(6) [OF assms, where p = p and qmin = qmin]
  have "0 \<le> rnd_int m s (x / 2 powi quantum p qmin x)" using assms by (intro rnd_int_nonneg) simp
  then show ?thesis
    unfolding round_mag_def Let_def using mag_val_encode [OF e1 e2, where qmin = qmin] e6 by simp
qed

text \<open>The truncated encoding and its successor bracket the value; every mode picks one of the two.\<close>

definition trunc_mag :: "nat \<Rightarrow> int \<Rightarrow> real \<Rightarrow> nat" where
  "trunc_mag p qmin x = round_mag p qmin SF64_RTZ False x"

lemma trunc_mag_eq:
  "trunc_mag p qmin x = nat (quantum p qmin x - qmin) * 2 ^ p + nat \<lfloor>x / 2 powi quantum p qmin x\<rfloor>"
  by (simp add: trunc_mag_def round_mag_def rnd_int_def Let_def)

lemma trunc_mag_bounds:
  assumes "0 < x"
  shows "mag_val p qmin (trunc_mag p qmin x) \<le> x" "x < mag_val p qmin (Suc (trunc_mag p qmin x))"
proof -
  let ?q = "quantum p qmin x"
  let ?f = "nat \<lfloor>x / 2 powi ?q\<rfloor>" and ?d = "nat (?q - qmin)"
  note f3 = round_mag_encode(3) [OF assms, where p = p and qmin = qmin]
  note f4 = round_mag_encode(4) [OF assms, where p = p and qmin = qmin]
  note f6 = round_mag_encode(6) [OF assms, where p = p and qmin = qmin]
  note f7 = round_mag_encode(7) [OF assms, where p = p and qmin = qmin]
  note f8 = round_mag_encode(8) [OF assms, where p = p and qmin = qmin]
  have "mag_val p qmin (?d * 2 ^ p + ?f) = real ?f * 2 powi ?q"
    using mag_val_encode [of ?f p ?d qmin] f3 f4 f6 by simp
  then show "mag_val p qmin (trunc_mag p qmin x) \<le> x"
    unfolding trunc_mag_eq using f7 by (simp add: field_simps)
  have "mag_val p qmin (?d * 2 ^ p + Suc ?f) = real (Suc ?f) * 2 powi ?q"
    using mag_val_encode [of "Suc ?f" p ?d qmin] f3 f4 f6 by (simp add: Suc_le_eq le_SucI)
  then show "x < mag_val p qmin (Suc (trunc_mag p qmin x))"
    unfolding trunc_mag_eq add_Suc_right [symmetric] using f8 by (simp add: field_simps)
qed

lemma trunc_mag_le_iff: "0 < x \<Longrightarrow> n \<le> trunc_mag p qmin x \<longleftrightarrow> mag_val p qmin n \<le> x"
proof -
  assume x: "0 < x"
  note b = trunc_mag_bounds [OF x, of p qmin]
  show ?thesis
  proof
    assume "n \<le> trunc_mag p qmin x"
    then have "mag_val p qmin n \<le> mag_val p qmin (trunc_mag p qmin x)" by simp
    then show "mag_val p qmin n \<le> x" using b by linarith
  next
    assume "mag_val p qmin n \<le> x"
    then have "mag_val p qmin n < mag_val p qmin (Suc (trunc_mag p qmin x))" using b by linarith
    then show "n \<le> trunc_mag p qmin x" by simp
  qed
qed

lemma trunc_mag_mag_val: "0 < n \<Longrightarrow> trunc_mag p qmin (mag_val p qmin n) = n"
  by (meson mag_val_le_iff mag_val_pos_iff order_antisym order_refl trunc_mag_le_iff)

lemma round_mag_split:
  assumes "0 < x"
  shows "round_mag p qmin m s x = trunc_mag p qmin x
       + nat (rnd_int m s (x / 2 powi quantum p qmin x) - \<lfloor>x / 2 powi quantum p qmin x\<rfloor>)"
proof -
  let ?y = "x / 2 powi quantum p qmin x"
  have "0 \<le> \<lfloor>?y\<rfloor>" using assms by simp
  moreover have "\<lfloor>?y\<rfloor> \<le> rnd_int m s ?y" by (rule rnd_int_bounds)
  ultimately show ?thesis by (simp add: round_mag_def trunc_mag_eq Let_def nat_diff_distrib)
qed

lemma trunc_mag_exact_iff:
  assumes "0 < x"
  shows "mag_val p qmin (trunc_mag p qmin x) = x
    \<longleftrightarrow> \<lceil>x / 2 powi quantum p qmin x\<rceil> = \<lfloor>x / 2 powi quantum p qmin x\<rfloor>"
proof -
  let ?y = "x / 2 powi quantum p qmin x"
  have "mag_val p qmin (trunc_mag p qmin x) = real_of_int (rnd_int SF64_RTZ False ?y) * 2 powi quantum p qmin x"
    unfolding trunc_mag_def by (rule round_mag_value [OF assms])
  then have "mag_val p qmin (trunc_mag p qmin x) = x \<longleftrightarrow> real_of_int (rnd_int SF64_RTZ False ?y) = ?y"
    by (simp add: field_simps)
  then show ?thesis by (simp only: rnd_int_exact_iff)
qed

lemma round_mag_exact_iff:
  assumes "0 < x"
  shows "mag_val p qmin (round_mag p qmin m s x) = x
    \<longleftrightarrow> \<lceil>x / 2 powi quantum p qmin x\<rceil> = \<lfloor>x / 2 powi quantum p qmin x\<rfloor>"
proof -
  let ?y = "x / 2 powi quantum p qmin x"
  have "mag_val p qmin (round_mag p qmin m s x) = x \<longleftrightarrow> real_of_int (rnd_int m s ?y) = ?y"
    using round_mag_value [OF assms, of p qmin m s] by (simp add: field_simps)
  then show ?thesis by (simp only: rnd_int_exact_iff)
qed

lemma round_mag_cases:
  assumes "0 < x"
  obtains (down) "round_mag p qmin m s x = trunc_mag p qmin x"
    | (up) "round_mag p qmin m s x = Suc (trunc_mag p qmin x)" "mag_val p qmin (trunc_mag p qmin x) < x"
proof -
  let ?y = "x / 2 powi quantum p qmin x"
  show ?thesis
  proof (cases "rnd_int m s ?y = \<lfloor>?y\<rfloor>")
    case True
    then show ?thesis using down round_mag_split [OF assms, of p qmin m s] by simp
  next
    case False
    then have c: "rnd_int m s ?y = \<lceil>?y\<rceil>" "\<lceil>?y\<rceil> \<noteq> \<lfloor>?y\<rfloor>" using rnd_int_floor_or_ceiling by metis+
    then have "\<lceil>?y\<rceil> = \<lfloor>?y\<rfloor> + 1" by (auto simp: ceiling_altdef split: if_splits)
    then have "round_mag p qmin m s x = Suc (trunc_mag p qmin x)"
      using round_mag_split [OF assms, of p qmin m s] c by simp
    moreover have "mag_val p qmin (trunc_mag p qmin x) \<noteq> x" using trunc_mag_exact_iff [OF assms] c by simp
    ultimately show ?thesis using up trunc_mag_bounds [OF assms, of p qmin] by simp
  qed
qed

lemma round_mag_mag_val: "0 < n \<Longrightarrow> round_mag p qmin m s (mag_val p qmin n) = n"
  by (metis mag_val_less_iff mag_val_pos_iff order_less_irrefl round_mag_cases trunc_mag_mag_val)

section \<open>What the rounding attributes promise\<close>

definition rounds_down :: "sf64_rounding_mode \<Rightarrow> bool \<Rightarrow> bool" where
  "rounds_down m s \<longleftrightarrow> m = SF64_RTZ \<or> (m = SF64_RUP \<and> s) \<or> (m = SF64_RDN \<and> \<not> s)"

definition rounds_up :: "sf64_rounding_mode \<Rightarrow> bool \<Rightarrow> bool" where
  "rounds_up m s \<longleftrightarrow> (m = SF64_RUP \<and> \<not> s) \<or> (m = SF64_RDN \<and> s)"

definition rounds_nearest :: "sf64_rounding_mode \<Rightarrow> bool" where
  "rounds_nearest m \<longleftrightarrow> m = SF64_RNE \<or> m = SF64_RNA"

lemma rounding_direction: "rounds_down m s \<or> rounds_up m s \<or> rounds_nearest m"
  by (cases m) (auto simp: rounds_down_def rounds_up_def rounds_nearest_def)

lemma round_mag_down: "0 < x \<Longrightarrow> rounds_down m s \<Longrightarrow> round_mag p qmin m s x = trunc_mag p qmin x"
  by (auto simp: round_mag_split rounds_down_def rnd_int_def)

lemma round_mag_down_iff:
  "0 < x \<Longrightarrow> rounds_down m s \<Longrightarrow> n \<le> round_mag p qmin m s x \<longleftrightarrow> mag_val p qmin n \<le> x"
  by (simp add: round_mag_down trunc_mag_le_iff)

lemma round_mag_up:
  assumes "0 < x" "rounds_up m s"
  shows "round_mag p qmin m s x
       = (if mag_val p qmin (trunc_mag p qmin x) = x then trunc_mag p qmin x else Suc (trunc_mag p qmin x))"
proof -
  let ?y = "x / 2 powi quantum p qmin x"
  have r: "rnd_int m s ?y = \<lceil>?y\<rceil>" using assms(2) by (auto simp: rounds_up_def rnd_int_def)
  show ?thesis
    unfolding round_mag_split [OF assms(1)] r trunc_mag_exact_iff [OF assms(1)]
    by (auto simp: ceiling_altdef)
qed

lemma round_mag_up_iff:
  assumes "0 < x" "rounds_up m s"
  shows "round_mag p qmin m s x \<le> n \<longleftrightarrow> x \<le> mag_val p qmin n"
proof -
  note b = trunc_mag_bounds [OF assms(1), of p qmin]
  have t: "n \<le> trunc_mag p qmin x \<longleftrightarrow> mag_val p qmin n \<le> x" by (rule trunc_mag_le_iff [OF assms(1)])
  show ?thesis
  proof (cases "mag_val p qmin (trunc_mag p qmin x) = x")
    case True
    then show ?thesis using round_mag_up [OF assms, of p qmin] by (metis mag_val_le_iff)
  next
    case False
    then have "Suc (trunc_mag p qmin x) \<le> n \<longleftrightarrow> x < mag_val p qmin n" using t by (metis linorder_not_le not_less_eq_eq)
    moreover have "x \<noteq> mag_val p qmin n"
      using False trunc_mag_mag_val [of n p qmin] assms(1) by (metis mag_val_pos_iff)
    ultimately show ?thesis using False round_mag_up [OF assms, of p qmin] by auto
  qed
qed

text \<open>Distance of the two neighbours, in quanta.\<close>

lemma neighbour_values:
  fixes p :: nat and qmin :: int
  assumes "0 < x"
  defines "q \<equiv> quantum p qmin x" and "t \<equiv> trunc_mag p qmin x"
  shows "mag_val p qmin t = real_of_int \<lfloor>x / 2 powi q\<rfloor> * 2 powi q"
    and "mag_val p qmin (Suc t) = (real_of_int \<lfloor>x / 2 powi q\<rfloor> + 1) * 2 powi q"
proof -
  let ?f = "nat \<lfloor>x / 2 powi q\<rfloor>" and ?d = "nat (q - qmin)"
  note f3 = round_mag_encode(3) [OF assms(1), where p = p and qmin = qmin, folded q_def]
  note f4 = round_mag_encode(4) [OF assms(1), where p = p and qmin = qmin, folded q_def]
  note f6 = round_mag_encode(6) [OF assms(1), where p = p and qmin = qmin, folded q_def]
  have t: "t = ?d * 2 ^ p + ?f" unfolding t_def q_def by (rule trunc_mag_eq)
  have r: "real ?f = real_of_int \<lfloor>x / 2 powi q\<rfloor>" using assms(1) by simp
  show "mag_val p qmin t = real_of_int \<lfloor>x / 2 powi q\<rfloor> * 2 powi q"
    unfolding t r [symmetric] using mag_val_encode [of ?f p ?d qmin] f3 f4 f6 by simp
  have "mag_val p qmin (?d * 2 ^ p + Suc ?f) = real (Suc ?f) * 2 powi q"
    using mag_val_encode [of "Suc ?f" p ?d qmin] f3 f4 f6 by (simp add: Suc_le_eq le_SucI)
  then show "mag_val p qmin (Suc t) = (real_of_int \<lfloor>x / 2 powi q\<rfloor> + 1) * 2 powi q"
    unfolding t add_Suc_right [symmetric] r [symmetric] by (simp add: add.commute)
qed

lemma rnd_int_near:
  assumes "rounds_nearest m"
  shows "\<bar>real_of_int (rnd_int m s y) - y\<bar> \<le> 1 / 2"
proof (cases m)
  case SF64_RNE
  have "real_of_int \<lfloor>y\<rfloor> \<le> y" "y < real_of_int \<lfloor>y\<rfloor> + 1" by linarith+
  then show ?thesis using SF64_RNE by (simp add: rnd_int_def abs_le_iff)
next
  case SF64_RNA
  have "real_of_int \<lfloor>y + 1 / 2\<rfloor> \<le> y + 1 / 2" "y + 1 / 2 < real_of_int \<lfloor>y + 1 / 2\<rfloor> + 1" by linarith+
  moreover have "rnd_int m s y = \<lfloor>y + 1 / 2\<rfloor>" using SF64_RNA by (simp add: rnd_int_def)
  ultimately show ?thesis by linarith
qed (use assms in \<open>auto simp: rounds_nearest_def\<close>)

lemma round_mag_half:
  fixes p :: nat and qmin :: int
  assumes "0 < x" "rounds_nearest m"
  defines "t \<equiv> trunc_mag p qmin x"
  shows "round_mag p qmin m s x = t \<Longrightarrow> x - mag_val p qmin t \<le> mag_val p qmin (Suc t) - x"
    and "round_mag p qmin m s x = Suc t \<Longrightarrow> mag_val p qmin (Suc t) - x \<le> x - mag_val p qmin t"
proof -
  let ?q = "quantum p qmin x"
  let ?y = "x / 2 powi ?q"
  have x: "x = ?y * 2 powi ?q" by simp
  note nv = neighbour_values [OF assms(1), of p qmin, folded t_def]
  have dist: "x - mag_val p qmin t = (?y - real_of_int \<lfloor>?y\<rfloor>) * 2 powi ?q"
    "mag_val p qmin (Suc t) - x = (real_of_int \<lfloor>?y\<rfloor> + 1 - ?y) * 2 powi ?q"
    unfolding nv by (simp_all add: algebra_simps)
  have split: "round_mag p qmin m s x = t + nat (rnd_int m s ?y - \<lfloor>?y\<rfloor>)"
    unfolding t_def by (rule round_mag_split [OF assms(1)])
  have "rnd_int m s ?y = \<lfloor>?y\<rfloor> \<or> rnd_int m s ?y = \<lfloor>?y\<rfloor> + 1"
    using rnd_int_floor_or_ceiling [of m s ?y] by (auto simp: ceiling_altdef split: if_splits)
  then have lo: "round_mag p qmin m s x = t \<Longrightarrow> rnd_int m s ?y = \<lfloor>?y\<rfloor>"
    and hi: "round_mag p qmin m s x = Suc t \<Longrightarrow> rnd_int m s ?y = \<lfloor>?y\<rfloor> + 1"
    using split by auto
  have near: "rnd_int m s ?y = \<lfloor>?y\<rfloor> \<Longrightarrow> ?y - real_of_int \<lfloor>?y\<rfloor> \<le> 1 / 2"
    "rnd_int m s ?y = \<lfloor>?y\<rfloor> + 1 \<Longrightarrow> 1 / 2 \<le> ?y - real_of_int \<lfloor>?y\<rfloor>"
    using rnd_int_near [OF assms(2), of s ?y] by (simp_all only: of_int_add of_int_1)
  show "x - mag_val p qmin t \<le> mag_val p qmin (Suc t) - x" if "round_mag p qmin m s x = t"
    unfolding dist using near(1) [OF lo [OF that]] by (intro mult_right_mono) (linarith, simp)
  show "mag_val p qmin (Suc t) - x \<le> x - mag_val p qmin t" if "round_mag p qmin m s x = Suc t"
    unfolding dist using near(2) [OF hi [OF that]] by (intro mult_right_mono) (linarith, simp)
qed

lemma round_mag_nearest:
  assumes "0 < x" "rounds_nearest m"
  shows "\<bar>mag_val p qmin (round_mag p qmin m s x) - x\<bar> \<le> \<bar>mag_val p qmin n - x\<bar>"
proof -
  let ?t = "trunc_mag p qmin x"
  note b = trunc_mag_bounds [OF assms(1), of p qmin]
  have n: "mag_val p qmin n \<le> mag_val p qmin ?t \<or> mag_val p qmin (Suc ?t) \<le> mag_val p qmin n"
    by (simp add: not_less_eq_eq [symmetric])
  show ?thesis
  proof (rule round_mag_cases [OF assms(1), of p qmin m s])
    assume r: "round_mag p qmin m s x = ?t"
    show ?thesis using n b round_mag_half(1) [OF assms r] unfolding r by linarith
  next
    assume r: "round_mag p qmin m s x = Suc ?t"
    show ?thesis using n b round_mag_half(2) [OF assms r] unfolding r by linarith
  qed
qed

text \<open>A tie goes to the even encoding under RNE and to the larger magnitude under RNA.\<close>

lemma rnd_int_tie:
  assumes "y - real_of_int \<lfloor>y\<rfloor> = 1 / 2"
  shows "even (rnd_int SF64_RNE s y)" "rnd_int SF64_RNA s y = \<lfloor>y\<rfloor> + 1"
proof -
  have "\<lfloor>y + 1 / 2\<rfloor> = \<lfloor>y\<rfloor> + 1" using assms by linarith
  then show "even (rnd_int SF64_RNE s y)" "rnd_int SF64_RNA s y = \<lfloor>y\<rfloor> + 1"
    using assms by (simp_all add: rnd_int_def)
qed

lemma round_mag_tie:
  fixes p :: nat and qmin :: int
  assumes "0 < x"
  defines "t \<equiv> trunc_mag p qmin x"
  assumes tie: "x - mag_val p qmin t = mag_val p qmin (Suc t) - x"
  shows "0 < p \<Longrightarrow> even (round_mag p qmin SF64_RNE s x)" and "round_mag p qmin SF64_RNA s x = Suc t"
proof -
  let ?q = "quantum p qmin x"
  let ?y = "x / 2 powi ?q"
  note nv = neighbour_values [OF assms(1), of p qmin, folded t_def]
  have "x = ?y * 2 powi ?q" by simp
  then have "(?y - real_of_int \<lfloor>?y\<rfloor>) * 2 powi ?q = (real_of_int \<lfloor>?y\<rfloor> + 1 - ?y) * 2 powi ?q"
    using tie unfolding nv by (simp add: algebra_simps)
  then have "?y - real_of_int \<lfloor>?y\<rfloor> = real_of_int \<lfloor>?y\<rfloor> + 1 - ?y"
    by (metis mult_cancel_right powi2_pos order_less_irrefl)
  then have h: "?y - real_of_int \<lfloor>?y\<rfloor> = 1 / 2" by linarith
  have r: "0 \<le> rnd_int SF64_RNE s ?y" using assms(1) by (intro rnd_int_nonneg) simp
  show "even (round_mag p qmin SF64_RNE s x)" if "0 < p"
    using rnd_int_tie(1) [OF h, of s] r that by (simp add: round_mag_def Let_def even_nat_iff)
  show "round_mag p qmin SF64_RNA s x = Suc t"
    using round_mag_split [OF assms(1), of p qmin SF64_RNA s] rnd_int_tie(2) [OF h, of s]
    by (simp add: t_def)
qed

section \<open>Rounding with overflow and flags\<close>

definition overflow_mag :: "nat \<Rightarrow> nat \<Rightarrow> sf64_rounding_mode \<Rightarrow> bool \<Rightarrow> nat" where
  "overflow_mag p einf m s = (if rounds_down m s then einf * 2 ^ p - 1 else einf * 2 ^ p)"

text \<open>
  The rounded magnitude bits of the positive real \<open>x\<close> with sign \<open>s\<close>, and the flags raised:
  overflow when the rounded value reaches the first encoding of the all-ones exponent
  \<open>einf\<close>, underflow when \<open>x\<close> is below the smallest normal and the result is inexact
  (tininess before rounding).
\<close>

definition ieee_round :: "nat \<Rightarrow> int \<Rightarrow> nat \<Rightarrow> sf64_rounding_mode \<Rightarrow> bool \<Rightarrow> real \<Rightarrow> nat \<times> u32" where
  "ieee_round p qmin einf m s x =
     (let n = round_mag p qmin m s x
      in if einf * 2 ^ p \<le> n then (overflow_mag p einf m s, SF64_FE_OVERFLOW OR SF64_FE_INEXACT)
         else (n, if mag_val p qmin n = x then 0
                  else if x < 2 powi (qmin + int p) then SF64_FE_UNDERFLOW OR SF64_FE_INEXACT
                  else SF64_FE_INEXACT))"

lemma ieee_round_mag_le:
  assumes "0 < x" shows "fst (ieee_round p qmin einf m s x) \<le> einf * 2 ^ p"
  by (simp add: ieee_round_def overflow_mag_def Let_def)

section \<open>Rounding computed on a jammed integer\<close>

text \<open>
  The form every rounding step of the library has: an integer \<open>S\<close> in the same cell as the exact
  scaled value, its guard bit at \<open>k\<close>, and the exponent field \<open>d\<close> the result is built on.
\<close>

definition round_bits :: "sf64_rounding_mode \<Rightarrow> bool \<Rightarrow> nat \<Rightarrow> nat \<Rightarrow> nat" where
  "round_bits m s k S = S div 2 ^ Suc k
     + of_bool (round_up_dec s (odd (S div 2 ^ k)) (S mod 2 ^ k \<noteq> 0) (odd (S div 2 ^ Suc k)) m)"

lemma rnd_int_round_bits: "rnd_int m s (real n / 2 ^ Suc k) = int (round_bits m s k n)"
  unfolding rnd_int_nat round_bits_def ..

lemma round_bits_le: "S < 2 ^ (n + Suc k) \<Longrightarrow> round_bits m s k S \<le> 2 ^ n"
proof -
  assume "S < 2 ^ (n + Suc k)"
  then have "S div 2 ^ Suc k < 2 ^ n" by (simp add: div_less_iff_less_mult power_add)
  then show ?thesis by (simp add: round_bits_def)
qed

lemma round_bits_ge: "2 ^ (n + Suc k) \<le> S \<Longrightarrow> 2 ^ n \<le> round_bits m s k S"
proof -
  assume "2 ^ (n + Suc k) \<le> S"
  then have "2 ^ n \<le> S div 2 ^ Suc k" by (simp add: less_eq_div_iff_mult_less_eq power_add)
  then show ?thesis by (simp add: round_bits_def)
qed

lemma round_bits_exact: "S mod 2 ^ Suc k = 0 \<Longrightarrow> round_bits m s k S = S div 2 ^ Suc k"
proof -
  assume "S mod 2 ^ Suc k = 0"
  then obtain j where "S = 2 ^ k * (2 * j)" by (metis mod_eq_0_iff_dvd dvdE power_Suc2 mult.assoc)
  then have "even (S div 2 ^ k)" "S mod 2 ^ k = 0" by simp_all
  then show ?thesis by (cases m) (auto simp: round_bits_def round_up_dec_def)
qed

lemma ieee_round_cell:
  assumes x: "0 < x" and q: "quantum p qmin x = qmin + int d"
    and c: "same_cell k (real S) (x / 2 powi (qmin + int d) * 2 ^ Suc k)"
  shows "ieee_round p qmin einf m s x =
    (let n = d * 2 ^ p + round_bits m s k S
     in if einf * 2 ^ p \<le> n then (overflow_mag p einf m s, SF64_FE_OVERFLOW OR SF64_FE_INEXACT)
        else (n, if S mod 2 ^ Suc k = 0 then 0
                 else if x < 2 powi (qmin + int p) then SF64_FE_UNDERFLOW OR SF64_FE_INEXACT
                 else SF64_FE_INEXACT))"
proof -
  let ?y = "x / 2 powi (qmin + int d)"
  have y: "?y * 2 ^ Suc k / 2 ^ Suc k = ?y" by simp
  have r: "rnd_int m s ?y = int (round_bits m s k S)"
    using rnd_int_same_cell(1) [OF c, of m s] unfolding y rnd_int_round_bits by simp
  have n: "round_mag p qmin m s x = d * 2 ^ p + round_bits m s k S"
    by (simp add: round_mag_def q r)
  have "\<lceil>?y\<rceil> = \<lfloor>?y\<rfloor> \<longleftrightarrow> S mod 2 ^ Suc k = 0"
    using rnd_int_same_cell(2) [OF c] unfolding y ceiling_nat_div floor_nat_div by auto
  then have e: "mag_val p qmin (d * 2 ^ p + round_bits m s k S) = x \<longleftrightarrow> S mod 2 ^ Suc k = 0"
    using round_mag_exact_iff [OF x, of p qmin m s] by (simp add: n q)
  show ?thesis unfolding ieee_round_def n Let_def e ..
qed

end
