(* ===== verification/Sf_Internal.thy ===== *)
theory Sf_Internal
  imports Sf_Spec
begin

text \<open>
  \<open>src/internal.h\<close>: field extraction and packing of binary64, classification, the jamming
  shift, leading-zero counts, the two-limb \<open>U128\<close> with its operators, the Knuth division, the
  canonical result builders and the rounding decision.  A C++ \<open>int\<close> (shift counts, exponents)
  is an \<open>int\<close> here; every one of them stays far inside its width.
\<close>

section \<open>Constants and field access\<close>

definition kSignMask :: u64 where "kSignMask = 0x8000000000000000"
definition kExpMask :: u64 where "kExpMask = 0x7FF0000000000000"
definition kFracMask :: u64 where "kFracMask = 0x000FFFFFFFFFFFFF"
definition kImplicitBit :: u64 where "kImplicitBit = 0x0010000000000000"
definition kQuietNaNBit :: u64 where "kQuietNaNBit = 0x0008000000000000"
definition kPositiveInf :: u64 where "kPositiveInf = 0x7FF0000000000000"
definition kNegativeInf :: u64 where "kNegativeInf = 0xFFF0000000000000"
definition kCanonicalNaN :: u64 where "kCanonicalNaN = 0x7FF8000000000000"
definition kExpBias :: int where "kExpBias = 1023"
definition kExpMax :: u32 where "kExpMax = 0x7FF"
definition kFracBits :: int where "kFracBits = 52"

definition extract_exp :: "u64 \<Rightarrow> u32" where
  "extract_exp b = ucast (drop_bit 52 b AND 0x7FF)"

definition extract_frac :: "u64 \<Rightarrow> u64" where
  "extract_frac b = b AND kFracMask"

definition extract_sign :: "u64 \<Rightarrow> u32" where
  "extract_sign b = ucast (drop_bit 63 b)"

definition pack :: "u32 \<Rightarrow> u32 \<Rightarrow> u64 \<Rightarrow> u64" where
  "pack sign ex fr =
     (push_bit 63 (ucast (sign AND 1)) OR push_bit 52 (ucast (ex AND 0x7FF))) OR (fr AND kFracMask)"

section \<open>Classification\<close>

definition is_nan_bits :: "u64 \<Rightarrow> bool" where
  "is_nan_bits b \<longleftrightarrow> extract_exp b = kExpMax \<and> extract_frac b \<noteq> 0"

definition is_snan_bits :: "u64 \<Rightarrow> bool" where
  "is_snan_bits b \<longleftrightarrow> is_nan_bits b \<and> b AND kQuietNaNBit = 0"

definition is_inf_bits :: "u64 \<Rightarrow> bool" where
  "is_inf_bits b \<longleftrightarrow> extract_exp b = kExpMax \<and> extract_frac b = 0"

definition is_zero_bits :: "u64 \<Rightarrow> bool" where
  "is_zero_bits b \<longleftrightarrow> b AND NOT kSignMask = 0"

definition is_subnormal_bits :: "u64 \<Rightarrow> bool" where
  "is_subnormal_bits b \<longleftrightarrow> extract_exp b = 0 \<and> extract_frac b \<noteq> 0"

definition is_finite_bits :: "u64 \<Rightarrow> bool" where
  "is_finite_bits b \<longleftrightarrow> extract_exp b \<noteq> kExpMax"

section \<open>Shifts and leading zeros\<close>

definition shift_right_jamming :: "u64 \<Rightarrow> int \<Rightarrow> u64" where
  "shift_right_jamming x count =
     (if count = 0 then x
      else if 64 \<le> count then (if x \<noteq> 0 then 1 else 0)
      else let lost = push_bit (nat count) 1 - 1
           in drop_bit (nat count) x OR (if x AND lost \<noteq> 0 then 1 else 0))"

definition shift_left :: "u64 \<Rightarrow> int \<Rightarrow> u64" where
  "shift_left x count = push_bit (nat count) x"

text \<open>One \<open>if\<close> of the scan: when the top bits are clear, count them and shift them out.\<close>

definition clz_stage :: "nat \<Rightarrow> nat \<Rightarrow> int \<times> 'a::len word \<Rightarrow> int \<times> 'a word" where
  "clz_stage d n = (\<lambda>(count, x). if drop_bit d x = 0 then (count + int n, push_bit n x) else (count, x))"

definition clz64 :: "u64 \<Rightarrow> int" where
  "clz64 x = (if x = 0 then 64 else
     (case clz_stage 62 2 (clz_stage 60 4 (clz_stage 56 8 (clz_stage 48 16 (clz_stage 32 32 (0, x))))) of
        (count, x) \<Rightarrow> if drop_bit 63 x = 0 then count + 1 else count))"

definition clz32 :: "u32 \<Rightarrow> int" where
  "clz32 x = (if x = 0 then 32 else
     (case clz_stage 30 2 (clz_stage 28 4 (clz_stage 24 8 (clz_stage 16 16 (0, x)))) of
        (count, x) \<Rightarrow> if drop_bit 31 x = 0 then count + 1 else count))"

section \<open>Two-limb 128-bit integers\<close>

record U128 =
  u_hi :: u64
  u_lo :: u64

definition mul64x64_to_128 :: "u64 \<Rightarrow> u64 \<Rightarrow> U128" where
  "mul64x64_to_128 a b =
     (let a_lo = ucast a :: u32; a_hi = ucast (drop_bit 32 a) :: u32;
          b_lo = ucast b :: u32; b_hi = ucast (drop_bit 32 b) :: u32;
          ll = ucast a_lo * ucast b_lo :: u64;
          hl = ucast a_hi * ucast b_lo :: u64;
          lh = ucast a_lo * ucast b_hi :: u64;
          hh = ucast a_hi * ucast b_hi :: u64;
          mid = hl + lh;
          mid_carry = (if mid < hl then push_bit 32 1 else 0);
          h = hh + mid_carry + drop_bit 32 mid;
          mid_lo = push_bit 32 mid;
          l = ll + mid_lo
      in \<lparr>u_hi = (if l < mid_lo then h + 1 else h), u_lo = l\<rparr>)"

definition u128_of :: "u64 \<Rightarrow> U128" where
  "u128_of v = \<lparr>u_hi = 0, u_lo = v\<rparr>"

definition u128_nonzero :: "U128 \<Rightarrow> bool" where
  "u128_nonzero a \<longleftrightarrow> u_hi a \<noteq> 0 \<or> u_lo a \<noteq> 0"

definition u128_eq :: "U128 \<Rightarrow> U128 \<Rightarrow> bool" where
  "u128_eq a b \<longleftrightarrow> u_hi a = u_hi b \<and> u_lo a = u_lo b"

definition u128_lt :: "U128 \<Rightarrow> U128 \<Rightarrow> bool" where
  "u128_lt a b \<longleftrightarrow> u_hi a < u_hi b \<or> (u_hi a = u_hi b \<and> u_lo a < u_lo b)"

definition u128_ge :: "U128 \<Rightarrow> U128 \<Rightarrow> bool" where
  "u128_ge a b \<longleftrightarrow> \<not> u128_lt a b"

definition u128_or :: "U128 \<Rightarrow> U128 \<Rightarrow> U128" where
  "u128_or a b = \<lparr>u_hi = u_hi a OR u_hi b, u_lo = u_lo a OR u_lo b\<rparr>"

definition u128_and :: "U128 \<Rightarrow> U128 \<Rightarrow> U128" where
  "u128_and a b = \<lparr>u_hi = u_hi a AND u_hi b, u_lo = u_lo a AND u_lo b\<rparr>"

definition u128_add :: "U128 \<Rightarrow> U128 \<Rightarrow> U128" where
  "u128_add a b =
     (let l = u_lo a + u_lo b
      in \<lparr>u_hi = u_hi a + u_hi b + (if l < u_lo a then 1 else 0), u_lo = l\<rparr>)"

definition u128_sub :: "U128 \<Rightarrow> U128 \<Rightarrow> U128" where
  "u128_sub a b =
     (let borrow = (if u_lo a < u_lo b then 1 else 0)
      in \<lparr>u_hi = u_hi a - u_hi b - borrow, u_lo = u_lo a - u_lo b\<rparr>)"

definition u128_shl :: "U128 \<Rightarrow> int \<Rightarrow> U128" where
  "u128_shl a shift =
     (if shift \<le> 0 then a
      else if 128 \<le> shift then \<lparr>u_hi = 0, u_lo = 0\<rparr>
      else if 64 \<le> shift then \<lparr>u_hi = push_bit (nat (shift - 64)) (u_lo a), u_lo = 0\<rparr>
      else \<lparr>u_hi = push_bit (nat shift) (u_hi a) OR drop_bit (nat (64 - shift)) (u_lo a),
            u_lo = push_bit (nat shift) (u_lo a)\<rparr>)"

definition u128_shr :: "U128 \<Rightarrow> int \<Rightarrow> U128" where
  "u128_shr a shift =
     (if shift \<le> 0 then a
      else if 128 \<le> shift then \<lparr>u_hi = 0, u_lo = 0\<rparr>
      else if 64 \<le> shift then \<lparr>u_hi = 0, u_lo = drop_bit (nat (shift - 64)) (u_hi a)\<rparr>
      else \<lparr>u_hi = drop_bit (nat shift) (u_hi a),
            u_lo = drop_bit (nat shift) (u_lo a) OR push_bit (nat (64 - shift)) (u_hi a)\<rparr>)"

definition u128_mul :: "U128 \<Rightarrow> U128 \<Rightarrow> U128" where
  "u128_mul a b =
     (let low_product = mul64x64_to_128 (u_lo a) (u_lo b)
      in \<lparr>u_hi = u_hi low_product + u_hi a * u_lo b + u_lo a * u_hi b, u_lo = u_lo low_product\<rparr>)"

definition highest_bit :: "U128 \<Rightarrow> int" where
  "highest_bit v =
     (if u_hi v \<noteq> 0 then 127 - clz64 (u_hi v) else if u_lo v \<noteq> 0 then 63 - clz64 (u_lo v) else - 1)"

text \<open>
  One quotient digit of the normalized base-\<open>2 ^ 32\<close> division: the correction loop decrements
  the estimate until it fits, and leaves early once the partial remainder reaches the base.
\<close>

function divmod_digit :: "u64 \<Rightarrow> u64 \<Rightarrow> u64 \<Rightarrow> u64 \<Rightarrow> u64 \<Rightarrow> u64" where
  "divmod_digit denominator_hi denominator_lo digit q r_hat =
     (if push_bit 32 1 \<le> q
          \<or> push_bit 32 1 * r_hat + digit < q * denominator_lo
      then (if push_bit 32 1 \<le> r_hat + denominator_hi then q - 1
            else divmod_digit denominator_hi denominator_lo digit (q - 1) (r_hat + denominator_hi))
      else q)"
  by pat_completeness auto
termination
proof (relation "measure (\<lambda>(_, _, _, q, _). unat q)")
  fix dh dl n q r :: u64
  assume g: "push_bit 32 1 \<le> q \<or> push_bit 32 1 * r + n < q * dl"
  have "q \<noteq> 0" using g by (auto simp: push_bit_eq_mult)
  then show "((dh, dl, n, q - 1, r + dh), dh, dl, n, q, r) \<in> measure (\<lambda>(_, _, _, q, _). unat q)"
    by (simp add: measure_unat)
qed simp

declare divmod_digit.simps [simp del]

definition divmod_u128_u64 :: "U128 \<Rightarrow> u64 \<Rightarrow> u64 \<times> u64" where
  "divmod_u128_u64 numerator denominator =
     (let base = push_bit 32 1; low = base - 1;
          shift = nat (clz64 denominator);
          normalized_denominator = push_bit shift denominator;
          denominator_hi = drop_bit 32 normalized_denominator;
          denominator_lo = normalized_denominator AND low;
          numerator_hi = push_bit shift (u_hi numerator) OR drop_bit (64 - shift) (u_lo numerator);
          numerator_lo = push_bit shift (u_lo numerator);
          numerator_digit1 = drop_bit 32 numerator_lo;
          numerator_digit0 = numerator_lo AND low;
          quotient_hi = numerator_hi div denominator_hi;
          quotient_hi = divmod_digit denominator_hi denominator_lo numerator_digit1
              quotient_hi (numerator_hi - quotient_hi * denominator_hi);
          middle = numerator_hi * base + numerator_digit1 - quotient_hi * normalized_denominator;
          quotient_lo = middle div denominator_hi;
          quotient_lo = divmod_digit denominator_hi denominator_lo numerator_digit0
              quotient_lo (middle - quotient_lo * denominator_hi);
          remainder = drop_bit shift (middle * base + numerator_digit0 - quotient_lo * normalized_denominator)
      in (quotient_hi * base + quotient_lo, remainder))"

section \<open>Result builders and the rounding decision\<close>

definition make_signed_zero :: "u32 \<Rightarrow> f64" where
  "make_signed_zero sign = push_bit 63 (ucast (sign AND 1))"

definition make_signed_inf :: "u32 \<Rightarrow> f64" where
  "make_signed_inf sign = pack sign kExpMax 0"

definition propagate_nan :: "u64 \<Rightarrow> u64 \<Rightarrow> f64" where
  "propagate_nan a_bits b_bits =
     (let a_is_nan = is_nan_bits a_bits; b_is_nan = is_nan_bits b_bits
      in if a_is_nan \<and> b_is_nan then a_bits OR kQuietNaNBit
         else if a_is_nan then a_bits OR kQuietNaNBit
         else if b_is_nan then b_bits OR kQuietNaNBit
         else kCanonicalNaN)"

definition canonical_nan :: f64 where "canonical_nan = kCanonicalNaN"

definition sf64_internal_should_round_up ::
    "u32 \<Rightarrow> bool \<Rightarrow> bool \<Rightarrow> bool \<Rightarrow> sf64_rounding_mode \<Rightarrow> bool" where
  "sf64_internal_should_round_up sign round_bit sticky lsb mode = (case mode of
      SF64_RTZ \<Rightarrow> False
    | SF64_RUP \<Rightarrow> sign = 0 \<and> (round_bit \<or> sticky)
    | SF64_RDN \<Rightarrow> sign \<noteq> 0 \<and> (round_bit \<or> sticky)
    | SF64_RNA \<Rightarrow> round_bit
    | SF64_RNE \<Rightarrow> round_bit \<and> (sticky \<or> lsb))"

section \<open>Reading an encoding as sign, magnitude and value\<close>

definition sgn64 :: "u64 \<Rightarrow> bool" where "sgn64 b \<longleftrightarrow> 2 ^ 63 \<le> unat b"

definition mag64 :: "u64 \<Rightarrow> nat" where "mag64 b = unat b mod 2 ^ 63"

definition enc64 :: "bool \<Rightarrow> nat \<Rightarrow> u64" where
  "enc64 s n = word_of_nat ((if s then 2 ^ 63 else 0) + n)"

text \<open>The first magnitude whose exponent field is all ones: the encoding of infinity.\<close>

definition inf64 :: nat where "inf64 = 2047 * 2 ^ 52"

text \<open>
  The value of a finite encoding; an infinity reads as \<open>2 ^ 1024\<close> with its sign, just beyond
  every finite value; on NaNs the number is meaningless.
\<close>

definition val64 :: "u64 \<Rightarrow> real" where
  "val64 b = (if sgn64 b then - mag_val 52 (- 1074) (mag64 b) else mag_val 52 (- 1074) (mag64 b))"

lemma mag64_less [simp]: "mag64 b < 2 ^ 63"
  by (simp add: mag64_def)

lemma unat_split64: "unat b = (if sgn64 b then 2 ^ 63 else 0) + mag64 b"
proof (cases "sgn64 b")
  case True
  then have "unat b mod 2 ^ 63 = (unat b - 2 ^ 63) mod 2 ^ 63"
    unfolding sgn64_def by (rule le_mod_geq)
  also have "\<dots> = unat b - 2 ^ 63"
  proof (rule mod_less)
    have "unat b < 18446744073709551616" by (rule unat_lt64)
    then have "unat b - 9223372036854775808 < 9223372036854775808" by arith
    then show "unat b - 2 ^ 63 < 2 ^ 63" by simp
  qed
  finally show ?thesis using True by (simp add: mag64_def sgn64_def)
next
  case False
  then show ?thesis by (simp add: mag64_def sgn64_def)
qed

lemma unat_enc64: "n < 2 ^ 63 \<Longrightarrow> unat (enc64 s n) = (if s then 2 ^ 63 else 0) + n"
  unfolding enc64_def unat_of_nat by simp

lemma sgn64_enc64: "n < 2 ^ 63 \<Longrightarrow> sgn64 (enc64 s n) = s"
  by (simp add: sgn64_def unat_enc64)

lemma mag64_enc64: "n < 2 ^ 63 \<Longrightarrow> mag64 (enc64 s n) = n"
  by (simp add: mag64_def unat_enc64)

lemma enc64_sgn_mag [simp]: "enc64 (sgn64 b) (mag64 b) = b"
  by (rule word_eq_unatI) (simp only: unat_enc64 [OF mag64_less] unat_split64 [of b])

lemma f64_eq_iff: "a = b \<longleftrightarrow> sgn64 a = sgn64 b \<and> mag64 a = mag64 b"
proof
  assume "sgn64 a = sgn64 b \<and> mag64 a = mag64 b"
  then have "unat a = unat b" by (simp only: unat_split64 [of a] unat_split64 [of b])
  then show "a = b" by (rule word_eq_unatI)
qed simp

lemma val64_enc64: "n < 2 ^ 63 \<Longrightarrow>
    val64 (enc64 s n) = (if s then - mag_val 52 (- 1074) n else mag_val 52 (- 1074) n)"
  by (simp add: val64_def sgn64_enc64 mag64_enc64)

lemma abs_val64: "\<bar>val64 b\<bar> = mag_val 52 (- 1074) (mag64 b)"
  by (simp add: val64_def)

lemma field_masks:
  "kFracMask = mask 52" "(0x7FF :: u64) = mask 11" "(0x7FF :: u32) = mask 11" "NOT kSignMask = mask 63"
  by (simp_all add: kFracMask_def kSignMask_def mask_eq_exp_minus_1)

lemma unat_extract_exp: "unat (extract_exp b) = unat b div 2 ^ 52 mod 2 ^ 11"
  by (simp add: extract_exp_def field_masks to_nat)

lemma unat_extract_frac: "unat (extract_frac b) = unat b mod 2 ^ 52"
  by (simp add: extract_frac_def field_masks to_nat)

lemma unat_extract_sign: "unat (extract_sign b) = of_bool (sgn64 b)"
proof -
  have "unat b div 2 ^ 63 = of_bool (sgn64 b)"
    unfolding sgn64_def by (subst div_nat_eqI [where q = "of_bool (2 ^ 63 \<le> unat b)"])
      (use unat_lt64 [of b] in auto)
  then show ?thesis by (simp add: extract_sign_def to_nat)
qed

lemma extract_sign_cases: "extract_sign b = of_bool (sgn64 b)"
  by (rule word_eq_unatI) (simp add: unat_extract_sign)

lemma mag64_fields: "mag64 b = unat (extract_exp b) * 2 ^ 52 + unat (extract_frac b)"
proof -
  have "unat b mod 2 ^ (52 + 11) = unat b mod 2 ^ 52 + 2 ^ 52 * (unat b div 2 ^ 52 mod 2 ^ 11)"
    by (rule mod_split)
  then show ?thesis by (simp add: mag64_def unat_extract_exp unat_extract_frac)
qed

lemma extract_frac_less: "unat (extract_frac b) < 2 ^ 52"
  by (simp add: unat_extract_frac)

lemma extract_exp_less: "unat (extract_exp b) < 2 ^ 11"
  by (simp add: unat_extract_exp)

lemma unat_extract_exp_mag: "unat (extract_exp b) = mag64 b div 2 ^ 52"
  and unat_extract_frac_mag: "unat (extract_frac b) = mag64 b mod 2 ^ 52"
  using extract_frac_less [of b] by (simp_all add: mag64_fields)

lemma unat_pack:
  "unat (pack s e f) = unat s mod 2 * 2 ^ 63 + (unat e mod 2 ^ 11 * 2 ^ 52 + unat f mod 2 ^ 52)"
proof -
  let ?S = "push_bit 63 (ucast (s AND 1)) :: u64" and ?E = "push_bit 52 (ucast (e AND 0x7FF)) :: u64"
  let ?F = "f AND kFracMask"
  have S: "unat ?S = unat s mod 2 * 2 ^ 63" by (simp add: to_nat)
  have "unat e mod 2 ^ 11 * 2 ^ 52 < 2 ^ 11 * 2 ^ 52" by (intro mult_strict_right_mono) simp_all
  then have E: "unat ?E = unat e mod 2 ^ 11 * 2 ^ 52" "unat ?E < 2 ^ 63"
    by (simp_all add: to_nat field_masks)
  have F: "unat ?F = unat f mod 2 ^ 52" "unat ?F < 2 ^ 52" by (simp_all add: to_nat field_masks)
  have SE: "unat (?S OR ?E) = unat s mod 2 * 2 ^ 63 + unat e mod 2 ^ 11 * 2 ^ 52"
    using unat_or_disjoint [of ?S 63 ?E] E S by simp
  have "(unat s mod 2 * 2 ^ 63 + unat e mod 2 ^ 11 * 2 ^ 52) mod 2 ^ 52
      = ((unat s mod 2 * 2 ^ 11 + unat e mod 2 ^ 11) * 2 ^ 52) mod 2 ^ 52"
    by (simp add: algebra_simps)
  then have "unat (?S OR ?E) mod 2 ^ 52 = 0" unfolding SE by simp
  then show ?thesis
    unfolding pack_def using unat_or_disjoint [of "?S OR ?E" 52 ?F] F SE by simp
qed

lemma enc_mag_less: "unat (e::u32) mod 2 ^ 11 * 2 ^ 52 + unat (f::u64) mod 2 ^ 52 < 2 ^ 63"
proof -
  have "unat e mod 2 ^ 11 * 2 ^ 52 \<le> (2 ^ 11 - 1) * 2 ^ 52"
    by (intro mult_right_mono) (simp_all add: less_Suc_eq_le [symmetric])
  moreover have "unat f mod 2 ^ 52 < 2 ^ 52" by simp
  ultimately have "unat e mod 2 ^ 11 * 2 ^ 52 + unat f mod 2 ^ 52 < (2 ^ 11 - 1) * 2 ^ 52 + 2 ^ 52"
    by (rule add_le_less_mono)
  then show ?thesis by simp
qed

lemma pack_enc64: "pack s e f = enc64 (odd (unat s)) (unat e mod 2 ^ 11 * 2 ^ 52 + unat f mod 2 ^ 52)"
proof (rule word_eq_unatI)
  have "unat s mod 2 * 2 ^ 63 = (if odd (unat s) then 2 ^ 63 else 0)"
    by (simp add: odd_iff_mod_2_eq_one even_iff_mod_2_eq_zero)
  then show "unat (pack s e f) = unat (enc64 (odd (unat s)) (unat e mod 2 ^ 11 * 2 ^ 52 + unat f mod 2 ^ 52))"
    unfolding unat_pack unat_enc64 [OF enc_mag_less] by simp
qed

section \<open>Classification by magnitude\<close>

lemma kExpMax_iff: "extract_exp b = kExpMax \<longleftrightarrow> inf64 \<le> mag64 b"
proof -
  have "extract_exp b = kExpMax \<longleftrightarrow> unat (extract_exp b) = 2047"
    by (simp add: kExpMax_def word_unat_eq_iff)
  also have "\<dots> \<longleftrightarrow> 2047 \<le> unat (extract_exp b)" using extract_exp_less [of b] by auto
  also have "\<dots> \<longleftrightarrow> inf64 \<le> mag64 b"
    using extract_frac_less [of b] by (auto simp: mag64_fields inf64_def)
  finally show ?thesis .
qed

lemma is_finite_bits_iff: "is_finite_bits b \<longleftrightarrow> mag64 b < inf64"
  by (simp add: is_finite_bits_def kExpMax_iff not_le)

lemma extract_frac_0_iff: "extract_frac b = 0 \<longleftrightarrow> mag64 b mod 2 ^ 52 = 0"
  using unat_extract_frac_mag [of b] by (metis unat_eq_zero)

lemma is_inf_bits_iff: "is_inf_bits b \<longleftrightarrow> mag64 b = inf64"
proof -
  have "inf64 \<le> mag64 b \<Longrightarrow> mag64 b mod 2 ^ 52 = 0 \<longleftrightarrow> mag64 b = inf64"
  proof -
    assume "inf64 \<le> mag64 b"
    then obtain r where r: "mag64 b = r + 2047 * 2 ^ 52" by (metis inf64_def le_iff_add add.commute)
    then have "r < 2 ^ 52" using mag64_less [of b] by simp
    then have "mag64 b mod 2 ^ 52 = r" unfolding r mod_mult_self1 by simp
    then show ?thesis by (simp add: r inf64_def)
  qed
  then show ?thesis by (auto simp: is_inf_bits_def kExpMax_iff extract_frac_0_iff)
qed

lemma is_nan_bits_iff: "is_nan_bits b \<longleftrightarrow> inf64 < mag64 b"
proof -
  have "is_nan_bits b \<longleftrightarrow> inf64 \<le> mag64 b \<and> \<not> is_inf_bits b"
    by (auto simp: is_nan_bits_def is_inf_bits_def kExpMax_iff)
  then show ?thesis by (auto simp: is_inf_bits_iff)
qed

lemma is_zero_bits_iff: "is_zero_bits b \<longleftrightarrow> mag64 b = 0"
proof -
  have "unat (b AND NOT kSignMask) = mag64 b" by (simp add: field_masks(4) unat_and_mask mag64_def)
  then show ?thesis by (metis is_zero_bits_def unat_eq_zero)
qed

lemma extract_exp_0_iff: "extract_exp b = 0 \<longleftrightarrow> mag64 b < 2 ^ 52"
  using unat_extract_exp_mag [of b] by (simp add: word_unat_eq_iff div_eq_0_iff)

lemma is_subnormal_bits_iff: "is_subnormal_bits b \<longleftrightarrow> 0 < mag64 b \<and> mag64 b < 2 ^ 52"
  by (auto simp: is_subnormal_bits_def extract_exp_0_iff extract_frac_0_iff)

lemmas class_iff = is_finite_bits_iff is_inf_bits_iff is_nan_bits_iff is_zero_bits_iff
  is_subnormal_bits_iff kExpMax_iff

lemma val64_eq_0_iff: "val64 b = 0 \<longleftrightarrow> is_zero_bits b"
  using mag_val_eq_iff [of 52 "- 1074" "mag64 b" 0] by (simp add: val64_def is_zero_bits_iff)

lemma make_signed_zero_enc64: "make_signed_zero s = enc64 (odd (unat s)) 0"
proof (rule word_eq_unatI)
  show "unat (make_signed_zero s) = unat (enc64 (odd (unat s)) 0)"
    by (subst unat_enc64)
      (simp_all add: make_signed_zero_def to_nat odd_iff_mod_2_eq_one even_iff_mod_2_eq_zero)
qed

lemma make_signed_inf_enc64: "make_signed_inf s = enc64 (odd (unat s)) inf64"
  by (simp add: make_signed_inf_def pack_enc64 kExpMax_def inf64_def)

lemma sign_word_cases: "s = 0 \<or> s = 1 \<Longrightarrow> odd (unat (s::u32)) \<longleftrightarrow> s \<noteq> 0"
  by auto

lemma should_round_up_eq:
  "sf64_internal_should_round_up s rb st lsb m = round_up_dec (s \<noteq> 0) rb st lsb m"
  by (cases m) (auto simp: sf64_internal_should_round_up_def round_up_dec_def)

section \<open>Jamming and leading zeros\<close>

lemma mask_pow: "push_bit n 1 - 1 = (mask n :: 'a::len word)"
  by (simp add: mask_eq_exp_minus_1 push_bit_eq_mult)

lemma and_mask_neq_0: "w AND mask n \<noteq> 0 \<longleftrightarrow> unat w mod 2 ^ n \<noteq> 0" for w :: "'a::len word"
  by (simp add: word_neq_0_unat unat_and_mask)

lemma unat_shift_right_jamming [to_nat]:
  assumes "0 \<le> c" shows "unat (shift_right_jamming x c) = jam (unat x) (nat c)"
proof (cases "64 \<le> c")
  case True
  have "(2::nat) ^ 64 \<le> 2 ^ nat c" using True by (intro power_increasing) auto
  then have "unat x < 2 ^ nat c" by (intro order_less_le_trans [OF unat_lt64]) simp
  then show ?thesis using True
    by (auto simp: shift_right_jamming_def jam_def unat_eq_zero)
next
  case False
  then have "shift_right_jamming x c
      = drop_bit (nat c) x OR (if unat x mod 2 ^ nat c \<noteq> 0 then 1 else 0)"
    using assms unfolding shift_right_jamming_def Let_def mask_pow and_mask_neq_0
    by (cases "c = 0") simp_all
  then show ?thesis by (simp add: jam_def unat_or_1 unat_drop_bit or_Suc_0_eq)
qed

lemma nat_lt_pow_drop: "drop_bit n w = 0 \<longleftrightarrow> unat w < 2 ^ n" for w :: "'a::len word"
  using unat_drop_bit [of n w] by (simp add: word_unat_eq_iff div_eq_0_iff)

text \<open>The scan keeps \<open>y = x * 2 ^ c\<close> with at most \<open>n - 1\<close> leading zeros left.\<close>

definition clz_inv :: "nat \<Rightarrow> 'a::len word \<Rightarrow> int \<times> 'a word \<Rightarrow> bool" where
  "clz_inv n x st = (case st of (c, y) \<Rightarrow>
     0 \<le> c \<and> c + int n \<le> int LENGTH('a) \<and> unat y = unat x * 2 ^ nat c \<and> 2 ^ (LENGTH('a) - n) \<le> unat y)"

lemma clz_inv_start: "x \<noteq> 0 \<Longrightarrow> clz_inv LENGTH('a) x (0, x)" for x :: "'a::len word"
  by (simp add: clz_inv_def Suc_le_eq unat_gt_0)

lemma clz_inv_step:
  fixes x :: "'a::len word"
  assumes "clz_inv (2 * j) x (c, y)" "2 * j \<le> LENGTH('a)" "d = LENGTH('a) - j"
  shows "clz_inv j x (if drop_bit d y = 0 then (c + int j, push_bit j y) else (c, y))"
proof (cases "drop_bit d y = 0")
  case False
  then have "2 ^ d \<le> unat y" by (simp add: nat_lt_pow_drop)
  then show ?thesis using assms False by (auto simp: clz_inv_def)
next
  case True
  then have "unat y < 2 ^ d" by (simp add: nat_lt_pow_drop)
  then have "unat y * 2 ^ j < 2 ^ d * 2 ^ j" by simp
  also have "2 ^ d * 2 ^ j = (2::nat) ^ LENGTH('a)" using assms by (simp flip: power_add)
  finally have p: "unat (push_bit j y) = unat y * 2 ^ j" by (rule unat_push_bit_lt)
  have "(2::nat) ^ (LENGTH('a) - j) = 2 ^ (LENGTH('a) - 2 * j) * 2 ^ j"
    using assms(2) by (simp flip: power_add)
  then have "2 ^ (LENGTH('a) - j) \<le> unat (push_bit j y)" using assms(1) by (simp add: p clz_inv_def)
  moreover have "unat (push_bit j y) = unat x * 2 ^ nat (c + int j)"
    using assms(1) by (simp add: p clz_inv_def nat_add_distrib power_add)
  ultimately show ?thesis using True assms by (simp add: clz_inv_def)
qed

lemma clz_inv_final:
  fixes x :: "'a::len word"
  assumes "clz_inv (Suc 0) x (c, y)"
  shows "0 \<le> c" "c < int LENGTH('a)" "2 ^ (LENGTH('a) - 1) \<le> unat x * 2 ^ nat c" "unat x * 2 ^ nat c < 2 ^ LENGTH('a)"
proof -
  have y: "unat y = unat x * 2 ^ nat c" using assms by (simp add: clz_inv_def)
  show "unat x * 2 ^ nat c < 2 ^ LENGTH('a)" unfolding y [symmetric] by simp
qed (use assms in \<open>auto simp: clz_inv_def\<close>)

lemma clz_inv_stage:
  fixes x :: "'a::len word"
  assumes "clz_inv n x s" "n = 2 * j" "n \<le> LENGTH('a)" "d = LENGTH('a) - j"
  shows "clz_inv j x (clz_stage d j s)"
proof -
  obtain c y where "s = (c, y)" by (cases s)
  then show ?thesis using clz_inv_step [of j x c y d] assms by (simp add: clz_stage_def)
qed

lemma clz64_inv:
  assumes "x \<noteq> 0" shows "\<exists>y. clz_inv (Suc 0) x (clz64 x, y)"
proof -
  define s where "s = clz_stage 62 2 (clz_stage 60 4 (clz_stage 56 8 (clz_stage 48 16 (clz_stage 32 32 (0, x)))))"
  have "clz_inv 64 x (0, x)" using clz_inv_start [OF assms] by simp
  then have "clz_inv 32 x (clz_stage 32 32 (0, x))" by (rule clz_inv_stage) simp_all
  then have "clz_inv 16 x (clz_stage 48 16 (clz_stage 32 32 (0, x)))" by (rule clz_inv_stage) simp_all
  then have "clz_inv 8 x (clz_stage 56 8 (clz_stage 48 16 (clz_stage 32 32 (0, x))))"
    by (rule clz_inv_stage) simp_all
  then have "clz_inv 4 x (clz_stage 60 4 (clz_stage 56 8 (clz_stage 48 16 (clz_stage 32 32 (0, x)))))"
    by (rule clz_inv_stage) simp_all
  then have "clz_inv 2 x s" unfolding s_def by (rule clz_inv_stage) simp_all
  then have "clz_inv 1 x (clz_stage 63 1 s)" by (rule clz_inv_stage) simp_all
  moreover have "clz64 x = fst (clz_stage 63 1 s)"
    using assms unfolding clz64_def s_def [symmetric] by (cases s) (simp add: clz_stage_def)
  ultimately show ?thesis by (metis One_nat_def prod.collapse)
qed

lemma clz32_inv:
  assumes "x \<noteq> 0" shows "\<exists>y. clz_inv (Suc 0) x (clz32 x, y)"
proof -
  define s where "s = clz_stage 30 2 (clz_stage 28 4 (clz_stage 24 8 (clz_stage 16 16 (0, x))))"
  have "clz_inv 32 x (0, x)" using clz_inv_start [OF assms] by simp
  then have "clz_inv 16 x (clz_stage 16 16 (0, x))" by (rule clz_inv_stage) simp_all
  then have "clz_inv 8 x (clz_stage 24 8 (clz_stage 16 16 (0, x)))" by (rule clz_inv_stage) simp_all
  then have "clz_inv 4 x (clz_stage 28 4 (clz_stage 24 8 (clz_stage 16 16 (0, x))))"
    by (rule clz_inv_stage) simp_all
  then have "clz_inv 2 x s" unfolding s_def by (rule clz_inv_stage) simp_all
  then have "clz_inv 1 x (clz_stage 31 1 s)" by (rule clz_inv_stage) simp_all
  moreover have "clz32 x = fst (clz_stage 31 1 s)"
    using assms unfolding clz32_def s_def [symmetric] by (cases s) (simp add: clz_stage_def)
  ultimately show ?thesis by (metis One_nat_def prod.collapse)
qed

lemma clz64_bounds:
  assumes "x \<noteq> 0"
  shows "0 \<le> clz64 x" "clz64 x < 64" "2 ^ 63 \<le> unat x * 2 ^ nat (clz64 x)" "unat x * 2 ^ nat (clz64 x) < 2 ^ 64"
  using clz64_inv [OF assms] clz_inv_final by fastforce+

lemma clz64_0 [simp]: "clz64 0 = 64"
  by (simp add: clz64_def)

lemma clz32_bounds:
  assumes "x \<noteq> 0"
  shows "0 \<le> clz32 x" "clz32 x < 32" "2 ^ 31 \<le> unat x * 2 ^ nat (clz32 x)" "unat x * 2 ^ nat (clz32 x) < 2 ^ 32"
  using clz32_inv [OF assms] clz_inv_final by fastforce+

text \<open>The leading-zero count from the binade of the value.\<close>

lemma clz64_eqI:
  assumes "2 ^ k \<le> unat x" "unat x < 2 ^ Suc k" "k < 64"
  shows "clz64 x = 63 - int k"
proof -
  have x: "x \<noteq> 0" using assms(1) by (auto simp: unat_eq_zero)
  note b = clz64_bounds [OF x]
  define c where "c = nat (clz64 x)"
  have "2 ^ k * 2 ^ c \<le> unat x * 2 ^ c" using assms(1) by simp
  then have "(2::nat) ^ (k + c) < 2 ^ 64" using b(4) unfolding c_def power_add by (rule order_le_less_trans)
  then have 1: "k + c < 64" by (rule power_less_imp_less_exp [rotated]) simp
  have "unat x * 2 ^ c < 2 ^ Suc k * 2 ^ c" using assms(2) by simp
  then have "(2::nat) ^ 63 < 2 ^ (Suc k + c)" using b(3) by (simp only: c_def power_add)
  then have "63 < Suc k + c" by (rule power_less_imp_less_exp [rotated]) simp
  with 1 have "c = 63 - k" by simp
  then show ?thesis using b(1) assms(3) by (simp add: c_def)
qed

section \<open>The two-limb integer refines the naturals below \<open>2 ^ 128\<close>\<close>

definition u128_val :: "U128 \<Rightarrow> nat" where
  "u128_val a = unat (u_hi a) * 2 ^ 64 + unat (u_lo a)"

lemma u128_val_less: "u128_val a < 2 ^ 128"
  using limb_bound [of "unat (u_hi a)" "2 ^ 64" "unat (u_lo a)" "2 ^ 64"] unat_lt64 [of "u_hi a"] unat_lt64 [of "u_lo a"]
  by (simp add: u128_val_def)

lemma u128_val_of [simp]: "u128_val (u128_of v) = unat v"
  by (simp add: u128_val_def u128_of_def)

lemma u128_val_inj: "u128_val a = u128_val b \<longleftrightarrow> a = b"
proof
  assume e: "u128_val a = u128_val b"
  have "u128_val x div 2 ^ 64 = unat (u_hi x)" "u128_val x mod 2 ^ 64 = unat (u_lo x)" for x
    using unat_lt64 [of "u_lo x"] by (simp_all add: u128_val_def)
  then have "unat (u_hi a) = unat (u_hi b)" "unat (u_lo a) = unat (u_lo b)" using e by metis+
  then show "a = b" by (simp add: word_unat_eq_iff)
qed simp

lemma u_lo_val: "unat (u_lo a) = u128_val a mod 2 ^ 64"
  and u_hi_val: "unat (u_hi a) = u128_val a div 2 ^ 64"
  using unat_lt64 [of "u_lo a"] by (simp_all add: u128_val_def)

lemma u128_nonzero_iff: "u128_nonzero a \<longleftrightarrow> u128_val a \<noteq> 0"
  by (auto simp: u128_nonzero_def u128_val_def unat_eq_zero)

lemma u128_eq_iff: "u128_eq a b \<longleftrightarrow> u128_val a = u128_val b"
  unfolding u128_val_inj by (auto simp: u128_eq_def)

lemma u128_lt_iff: "u128_lt a b \<longleftrightarrow> u128_val a < u128_val b"
proof -
  have h: "unat x * 2 ^ 64 + unat l < unat y * 2 ^ 64 + unat m \<longleftrightarrow> x < y \<or> (x = y \<and> l < m)" for x y l m :: u64
    using limb_less_iff [of "unat l" "2 ^ 64" "unat m" "unat x" "unat y"] unat_lt64 [of l] unat_lt64 [of m]
    unfolding word_less_nat_alt word_unat_eq_iff by simp
  show ?thesis unfolding u128_val_def h by (simp add: u128_lt_def)
qed

lemma u128_ge_iff: "u128_ge a b \<longleftrightarrow> u128_val b \<le> u128_val a"
  by (simp add: u128_ge_def u128_lt_iff not_less)

lemma unat_add_carry: "unat (a + b) + (if a + b < a then 2 ^ 64 else 0) = unat a + unat b" for a b :: u64
proof (cases "unat a + unat b < 2 ^ 64")
  case True
  then show ?thesis by (simp add: word_less_nat_alt unat_add_lt)
next
  case False
  then have "unat (a + b) = unat a + unat b - 2 ^ 64"
    using unat_lt64 [of a] unat_lt64 [of b] by (simp add: unat_plus_if')
  moreover from this have "unat (a + b) < unat a" using False unat_lt64 [of b] by simp
  ultimately show ?thesis using False by (simp add: word_less_nat_alt)
qed

lemma u128_val_add: "u128_val (u128_add a b) = (u128_val a + u128_val b) mod 2 ^ 128"
proof -
  let ?l = "u_lo a + u_lo b"
  let ?c = "(if ?l < u_lo a then 1 else 0) :: nat"
  let ?h = "unat (u_hi a) + unat (u_hi b) + ?c"
  have l: "unat ?l + ?c * 2 ^ 64 = unat (u_lo a) + unat (u_lo b)"
    using unat_add_carry [of "u_lo a" "u_lo b"] by auto
  have h: "unat (u_hi (u128_add a b)) = ?h mod 2 ^ 64"
    by (simp add: u128_add_def Let_def unat_word_ariths mod_simps)
  have "u128_val a + u128_val b = ?h * 2 ^ 64 + unat ?l"
    using l by (simp add: u128_val_def algebra_simps)
  moreover have "(?h * 2 ^ 64 + unat ?l) mod (2 ^ 64 * 2 ^ 64) = (?h mod 2 ^ 64) * 2 ^ 64 + unat ?l"
    by (rule limb_mod) (use unat_lt64 [of ?l] in simp)
  moreover have "u128_val (u128_add a b) = (?h mod 2 ^ 64) * 2 ^ 64 + unat ?l"
    unfolding u128_val_def h by (simp add: u128_add_def Let_def)
  ultimately show ?thesis by simp
qed

lemma u128_val_add_lt: "u128_val a + u128_val b < 2 ^ 128 \<Longrightarrow> u128_val (u128_add a b) = u128_val a + u128_val b"
  unfolding u128_val_add by (rule mod_less)

lemma u128_sub_add: "u128_add (u128_sub a b) b = a"
proof -
  have lo: "u_lo a - u_lo b + u_lo b = u_lo a" by simp
  have "u_lo a - u_lo b + u_lo b < u_lo a - u_lo b \<longleftrightarrow> u_lo a < u_lo b"
    using unat_lt64 [of "u_lo b"] unat_lt64 [of "u_lo a"]
    by (auto simp: word_less_nat_alt unat_sub_if')
  then show ?thesis by (cases a) (simp add: u128_add_def u128_sub_def Let_def)
qed

lemma u128_val_sub:
  assumes "u128_val b \<le> u128_val a"
  shows "u128_val (u128_sub a b) = u128_val a - u128_val b"
proof -
  let ?s = "u128_val (u128_sub a b)"
  have m: "(?s + u128_val b) mod 2 ^ 128 = u128_val a"
    using u128_val_add [of "u128_sub a b" b] by (simp add: u128_sub_add)
  show ?thesis
  proof (cases "?s + u128_val b < 2 ^ 128")
    case True
    then show ?thesis using m by simp
  next
    case False
    then have "(?s + u128_val b) mod 2 ^ 128 = ?s + u128_val b - 2 ^ 128"
      using u128_val_less [of "u128_sub a b"] u128_val_less [of b] by (simp add: le_mod_geq)
    then have "u128_val a < u128_val b" using m False u128_val_less [of "u128_sub a b"] by simp
    then show ?thesis using assms by simp
  qed
qed

lemma limb_bit: "l < 2 ^ k \<Longrightarrow> bit (h * 2 ^ k + l) i = (if i < k then bit l i else bit h (i - k))" for h l :: nat
proof -
  assume l: "l < 2 ^ k"
  have "h * 2 ^ k + l = push_bit k h OR l"
    using nat_or_disjoint [of "push_bit k h" k l] l by (simp add: push_bit_eq_mult)
  moreover have "bit l i \<Longrightarrow> i < k"
    using l by (metis bit_take_bit_iff take_bit_nat_eq_self)
  ultimately show ?thesis by (auto simp: bit_or_iff bit_push_bit_iff)
qed

lemma u128_val_bit: "bit (u128_val a) i = (if i < 64 then bit (u_lo a) i else bit (u_hi a) (i - 64))"
  unfolding u128_val_def using unat_lt64 [of "u_lo a"] by (subst limb_bit) (simp_all add: bit_unsigned_iff)

lemma u128_val_and: "u128_val (u128_and a b) = u128_val a AND u128_val b"
  by (rule bit_eqI) (simp add: u128_val_bit bit_and_iff u128_and_def)

lemma u128_val_or: "u128_val (u128_or a b) = u128_val a OR u128_val b"
  by (rule bit_eqI) (simp add: u128_val_bit bit_or_iff u128_or_def)

lemma word64_bit_less: "bit (w::u64) i \<Longrightarrow> i < 64"
  using bit_imp_le_length [of w i] by simp

lemma u128_val_shl_bits:
  "u128_val (u128_shl a (int j)) = take_bit 128 (push_bit j (u128_val a))"
proof (rule bit_eqI)
  fix i
  consider "j = 0" | (small) "0 < j" "j < 64" | (mid) "64 \<le> j" "j < 128" | (big) "128 \<le> j" by linarith
  then show "bit (u128_val (u128_shl a (int j))) i = bit (take_bit 128 (push_bit j (u128_val a))) i"
  proof cases
    case 1
    then show ?thesis by (auto simp: u128_shl_def u128_val_bit bit_take_bit_iff dest: word64_bit_less)
  next
    case small
    then have "nat (64 - int j) = 64 - j" by (simp add: nat_diff_distrib')
    then show ?thesis using small
      by (auto simp: u128_shl_def u128_val_bit bit_take_bit_iff bit_push_bit_iff bit_drop_bit_eq
            bit_or_iff add.commute [of j 64] not_le not_less dest: word64_bit_less)
  next
    case mid
    then have "nat (int j - 64) = j - 64" by (simp add: nat_diff_distrib')
    then show ?thesis using mid
      by (auto simp: u128_shl_def u128_val_bit bit_take_bit_iff bit_push_bit_iff not_le not_less dest: word64_bit_less)
  next
    case big
    then show ?thesis
      by (auto simp: u128_shl_def u128_val_bit bit_take_bit_iff bit_push_bit_iff)
  qed
qed


lemma u128_val_shl:
  assumes "0 \<le> n" shows "u128_val (u128_shl a n) = u128_val a * 2 ^ nat n mod 2 ^ 128"
  using u128_val_shl_bits [of a "nat n"] assms by (simp add: take_bit_eq_mod push_bit_eq_mult)

lemma u128_val_shl_lt:
  "0 \<le> n \<Longrightarrow> u128_val a * 2 ^ nat n < 2 ^ 128 \<Longrightarrow> u128_val (u128_shl a n) = u128_val a * 2 ^ nat n"
  by (simp only: u128_val_shl mod_less)

lemma u128_val_shr_bits: "u128_val (u128_shr a (int j)) = drop_bit j (u128_val a)"
proof (rule bit_eqI)
  fix i
  consider "j = 0" | (small) "0 < j" "j < 64" | (mid) "64 \<le> j" "j < 128" | (big) "128 \<le> j" by linarith
  then show "bit (u128_val (u128_shr a (int j))) i = bit (drop_bit j (u128_val a)) i"
  proof cases
    case 1
    then show ?thesis by (simp add: u128_shr_def)
  next
    case small
    then have "nat (64 - int j) = 64 - j" by (simp add: nat_diff_distrib')
    then show ?thesis using small
      by (auto simp: u128_shr_def u128_val_bit bit_push_bit_iff bit_drop_bit_eq
            bit_or_iff add.commute [of j] not_le not_less dest: word64_bit_less)
  next
    case mid
    then have "nat (int j - 64) = j - 64" by (simp add: nat_diff_distrib')
    then show ?thesis using mid
      by (auto simp: u128_shr_def u128_val_bit bit_drop_bit_eq not_le not_less add.commute [of j] dest: word64_bit_less)
  next
    case big
    then show ?thesis
      by (auto simp: u128_shr_def u128_val_bit bit_drop_bit_eq dest: word64_bit_less)
  qed
qed

lemma u128_val_shr: "0 \<le> n \<Longrightarrow> u128_val (u128_shr a n) = u128_val a div 2 ^ nat n"
  using u128_val_shr_bits [of a "nat n"] by (simp add: drop_bit_eq_div)

text \<open>The low mask \<open>(1 << n) - 1\<close> and the single bit \<open>1 << n\<close>, as the callers test them.\<close>

lemma u128_val_pow: "0 \<le> n \<Longrightarrow> n < 128 \<Longrightarrow> u128_val (u128_shl (u128_of 1) n) = 2 ^ nat n"
proof -
  assume n: "0 \<le> n" "n < 128"
  then have "(2::nat) ^ nat n < 2 ^ 128" by (intro power_strict_increasing) auto
  then show ?thesis using n by (simp add: u128_val_shl)
qed

lemma u128_val_low_mask:
  "0 \<le> n \<Longrightarrow> n < 128 \<Longrightarrow> u128_val (u128_sub (u128_shl (u128_of 1) n) (u128_of 1)) = 2 ^ nat n - 1"
  by (subst u128_val_sub) (simp_all add: u128_val_pow)

lemma u128_low_mask_test:
  assumes "0 \<le> n" "n < 128"
  shows "u128_nonzero (u128_and a (u128_sub (u128_shl (u128_of 1) n) (u128_of 1))) \<longleftrightarrow> u128_val a mod 2 ^ nat n \<noteq> 0"
proof -
  have "u128_val a AND (2 ^ nat n - 1) = u128_val a mod 2 ^ nat n"
    by (metis mask_eq_exp_minus_1 take_bit_eq_mask take_bit_eq_mod)
  then show ?thesis by (simp add: u128_nonzero_iff u128_val_and u128_val_low_mask [OF assms])
qed

lemma u128_bit_test:
  assumes "0 \<le> n" "n < 128"
  shows "u128_nonzero (u128_and a (u128_shl (u128_of 1) n)) \<longleftrightarrow> odd (u128_val a div 2 ^ nat n)"
  using and_exp_eq_0_iff_not_bit [of "u128_val a" "nat n"]
  by (simp add: u128_nonzero_iff u128_val_and u128_val_pow [OF assms] bit_iff_odd)

lemma clz64_binade:
  assumes "x \<noteq> 0"
  shows "2 ^ nat (63 - clz64 x) \<le> unat x" "unat x < 2 ^ Suc (nat (63 - clz64 x))" "0 \<le> 63 - clz64 x" "63 - clz64 x < 64"
proof -
  note b = clz64_bounds [OF assms]
  let ?c = "nat (clz64 x)" and ?k = "nat (63 - clz64 x)"
  have k: "?k + ?c = 63" using b by simp
  have "2 ^ ?k * 2 ^ ?c \<le> unat x * 2 ^ ?c" using b(3) k by (simp flip: power_add)
  then show "2 ^ ?k \<le> unat x" by simp
  have "unat x * 2 ^ ?c < 2 ^ Suc ?k * 2 ^ ?c" using b(4) k by (simp only: power_add [symmetric]) simp
  then show "unat x < 2 ^ Suc ?k" by simp
  show "0 \<le> 63 - clz64 x" "63 - clz64 x < 64" using b by simp_all
qed

lemma highest_bit_binade:
  assumes "u128_val v \<noteq> 0"
  shows "2 ^ nat (highest_bit v) \<le> u128_val v" "u128_val v < 2 ^ Suc (nat (highest_bit v))"
    "0 \<le> highest_bit v" "highest_bit v < 128"
proof -
  let ?h = "unat (u_hi v)" and ?l = "unat (u_lo v)"
  have "2 ^ nat (highest_bit v) \<le> u128_val v \<and> u128_val v < 2 ^ Suc (nat (highest_bit v))
      \<and> 0 \<le> highest_bit v \<and> highest_bit v < 128"
  proof (cases "u_hi v = 0")
    case True
    then have "u_lo v \<noteq> 0" "u128_val v = ?l" using assms by (auto simp: u128_val_def unat_eq_zero)
    then show ?thesis using True clz64_binade [of "u_lo v"] by (simp add: highest_bit_def)
  next
    case False
    note b = clz64_binade [OF False]
    let ?k = "nat (63 - clz64 (u_hi v))"
    have k: "nat (highest_bit v) = ?k + 64" "highest_bit v = 127 - clz64 (u_hi v)"
      using False b(3) by (simp_all add: highest_bit_def)
    have "2 ^ ?k * 2 ^ 64 \<le> ?h * 2 ^ 64" using b(1) by (rule mult_right_mono) simp
    then have 1: "2 ^ (?k + 64) \<le> u128_val v" by (simp add: u128_val_def power_add)
    have "?h * 2 ^ 64 + ?l < 2 ^ Suc ?k * 2 ^ 64" using b(2) unat_lt64 [of "u_lo v"] by (intro limb_bound) simp_all
    then have "u128_val v < 2 ^ Suc (?k + 64)" by (simp add: u128_val_def power_add)
    then show ?thesis using 1 k b by simp
  qed
  then show "2 ^ nat (highest_bit v) \<le> u128_val v" "u128_val v < 2 ^ Suc (nat (highest_bit v))"
    "0 \<le> highest_bit v" "highest_bit v < 128" by blast+
qed

section \<open>The 64x64 product and the Knuth division\<close>

lemma half_word_split: "unat (a::u64) = unat (ucast (drop_bit 32 a) :: u32) * 2 ^ 32 + unat (ucast a :: u32)"
proof -
  have "unat a div 2 ^ 32 < 2 ^ 32" using unat_lt64 [of a] by (simp add: div_less_iff_less_mult)
  then show ?thesis by (simp add: unat_ucast unat_drop_bit)
qed

lemma half_product:
  fixes x y :: u32
  shows "unat (ucast x * ucast y :: u64) = unat x * unat y" "unat x * unat y \<le> (2 ^ 32 - 1) * (2 ^ 32 - 1)"
proof -
  show p: "unat x * unat y \<le> (2 ^ 32 - 1) * (2 ^ 32 - 1)"
    using unat_lt32 [of x] unat_lt32 [of y] by (intro mult_le_mono) simp_all
  have "unat (ucast x :: u64) = unat x" for x :: u32
    using unat_lt32 [of x] by (subst unat_ucast_lt) simp_all
  then show "unat (ucast x * ucast y :: u64) = unat x * unat y"
    using p by (subst unat_mult_lt) simp_all
qed

lemma u128_val_mul64x64: "u128_val (mul64x64_to_128 a b) = unat a * unat b"
proof -
  define a0 a1 b0 b1 where d: "a0 = (ucast a :: u32)" "a1 = (ucast (drop_bit 32 a) :: u32)"
    "b0 = (ucast b :: u32)" "b1 = (ucast (drop_bit 32 b) :: u32)"
  define ll hl lh hh :: u64 where p: "ll = ucast a0 * ucast b0" "hl = ucast a1 * ucast b0"
    "lh = ucast a0 * ucast b1" "hh = ucast a1 * ucast b1"
  define mid where "mid = hl + lh"
  define c1 :: nat where "c1 = (if mid < hl then 1 else 0)"
  define mid_lo where "mid_lo = push_bit 32 mid"
  define l where "l = ll + mid_lo"
  define c2 :: nat where "c2 = (if l < mid_lo then 1 else 0)"
  note pv = half_product [of a0 b0] half_product [of a1 b0] half_product [of a0 b1] half_product [of a1 b1]
  have A: "unat a = unat a1 * 2 ^ 32 + unat a0" and B: "unat b = unat b1 * 2 ^ 32 + unat b0"
    unfolding d by (rule half_word_split)+
  have mid: "unat mid + c1 * 2 ^ 64 = unat hl + unat lh"
    using unat_add_carry [of hl lh] by (simp add: mid_def c1_def split: if_splits)
  have mid_split: "unat mid_lo = unat mid mod 2 ^ 32 * 2 ^ 32"
    unfolding mid_lo_def unat_push_bit using mult_mod_left [of "unat mid" "2 ^ 32" "2 ^ 32"] by simp
  have lo: "unat l + c2 * 2 ^ 64 = unat ll + unat mid_lo"
    using unat_add_carry [of mid_lo ll] by (simp add: l_def c2_def add.commute split: if_splits)
  define H where "H = unat hh + c1 * 2 ^ 32 + unat mid div 2 ^ 32 + c2"
  define dm mm where dm: "dm = unat mid div 2 ^ 32" "mm = unat mid mod 2 ^ 32"
  have mid_dm: "unat mid = dm * 2 ^ 32 + mm" unfolding dm by (rule div_mult_mod_eq [symmetric])
  have "H * 2 ^ 64 + unat l = unat hh * 2 ^ 64 + (c1 * 2 ^ 64 + unat mid) * 2 ^ 32 + unat ll"
    using lo [unfolded mid_split, folded dm] unfolding H_def dm(1) [symmetric] unfolding mid_dm
    by (simp add: algebra_simps)
  also have "\<dots> = unat hh * 2 ^ 64 + (unat hl + unat lh) * 2 ^ 32 + unat ll"
    unfolding mid [symmetric] by (simp add: add.commute)
  also have "\<dots> = unat a * unat b" unfolding A B p pv by (simp add: algebra_simps)
  finally have total: "H * 2 ^ 64 + unat l = unat a * unat b" .
  have "unat a * unat b < 2 ^ 64 * 2 ^ 64"
    using unat_lt64 [of a] unat_lt64 [of b] by (intro mult_strict_mono) simp_all
  then have "H * 2 ^ 64 < 2 ^ 64 * 2 ^ 64" using total by linarith
  then have H: "H < 2 ^ 64" by simp
  have hi: "unat (hh + (if mid < hl then push_bit 32 1 else 0) + drop_bit 32 mid + (if l < mid_lo then 1 else 0)) = H mod 2 ^ 64"
    unfolding H_def c1_def c2_def by (simp add: unat_word_ariths unat_drop_bit mod_simps)
  have "u_hi (mul64x64_to_128 a b)
      = hh + (if mid < hl then push_bit 32 1 else 0) + drop_bit 32 mid + (if l < mid_lo then 1 else 0)"
    "u_lo (mul64x64_to_128 a b) = l"
    unfolding mul64x64_to_128_def Let_def d [symmetric] p [symmetric] mid_def [symmetric]
      mid_lo_def [symmetric] l_def [symmetric] by simp_all
  then show ?thesis unfolding u128_val_def using hi H total by simp
qed

lemma u128_val_mul_of: "u128_val (u128_mul (u128_of a) (u128_of b)) = unat a * unat b"
  using u128_val_mul64x64 [of a b] by (simp add: u128_val_def u128_mul_def u128_of_def Let_def)

text \<open>
  One quotient digit: for a normalized divisor \<open>d = dh * B + dl\<close> and a numerator
  \<open>nh * B + n\<close> with \<open>nh < d\<close>, the corrected estimate is the true quotient digit.
\<close>

lemma divmod_digit_correct:
  fixes dh dl n q r :: u64 and nh :: nat
  assumes "2 ^ 31 \<le> unat dh" "unat dh < 2 ^ 32" "unat dl < 2 ^ 32" "unat n < 2 ^ 32"
    and "nh < unat dh * 2 ^ 32 + unat dl" "unat q * unat dh + unat r = nh" "unat q \<le> 2 ^ 32 + 1"
    and "unat r < 2 ^ 32" "(nh * 2 ^ 32 + unat n) div (unat dh * 2 ^ 32 + unat dl) \<le> unat q"
  shows "unat (divmod_digit dh dl n q r) = (nh * 2 ^ 32 + unat n) div (unat dh * 2 ^ 32 + unat dl)"
  using assms
proof (induction dh dl n q r rule: divmod_digit.induct)
  case (1 dh dl n q r)
  define B :: nat where "B = 2 ^ 32"
  define D where "D = unat dh * B + unat dl"
  define N where "N = nh * B + unat n"
  note bounds = "1.prems" [folded B_def, folded D_def N_def]
  have B2: "B * B = 2 ^ 64" by (simp add: B_def)
  have D: "0 < D" using bounds(1) by (simp add: D_def B_def)
  have base: "push_bit 32 1 \<le> w \<longleftrightarrow> B \<le> unat w" for w :: u64
    by (simp add: word_le_nat_alt B_def unat_push_bit)
  have "B * unat r \<le> B * (B - 1)" using bounds(8) by (intro mult_left_mono) simp_all
  then have "B * unat r + unat n < B * B" using bounds(4) by (simp add: B_def)
  then have lhs: "unat (push_bit 32 1 * r + n) = B * unat r + unat n"
    by (subst unat_add_lt; subst unat_mult_lt) (simp_all add: unat_push_bit B_def)
  have "unat q * unat dl \<le> (B + 1) * (B - 1)" using bounds(3,7) by (intro mult_le_mono) simp_all
  then have rhs: "unat (q * dl) = unat q * unat dl" by (intro unat_mult_lt) (simp add: B_def)
  have guard: "push_bit 32 1 \<le> q \<or> push_bit 32 1 * r + n < q * dl
      \<longleftrightarrow> B \<le> unat q \<or> B * unat r + unat n < unat q * unat dl"
    unfolding base word_less_nat_alt lhs rhs ..
  have fit: "k * unat dh + s = nh \<Longrightarrow> k * D \<le> N \<longleftrightarrow> k * unat dl \<le> B * s + unat n" for k s
    unfolding D_def N_def by (auto simp: algebra_simps)
  have "N < (nh + 1) * B" using bounds(4) by (simp add: N_def)
  also have "\<dots> \<le> D * B" using bounds(5) by (intro mult_right_mono) simp_all
  finally have QB: "N div D < B" by (simp add: div_less_iff_less_mult D mult.commute)
  have below: "k * D \<le> N \<longleftrightarrow> k \<le> N div D" for k using D by (simp add: less_eq_div_iff_mult_less_eq)
  show ?case
  proof (cases "B \<le> unat q \<or> B * unat r + unat n < unat q * unat dl")
    case False
    then have "unat q \<le> N div D" using fit [OF bounds(6)] below by simp
    moreover have "divmod_digit dh dl n q r = q"
      using False guard by (subst divmod_digit.simps) simp
    ultimately show ?thesis using bounds(9) by (simp add: D_def N_def B_def)
  next
    case True
    then have less: "N div D < unat q" using fit [OF bounds(6)] below QB by (meson linorder_not_le order_less_le_trans)
    then have q1: "unat (q - 1) = unat q - 1" by (metis gr_implies_not0 unat_minus_one unat_0)
    have rd: "unat (r + dh) = unat r + unat dh"
      using bounds(2,8) by (intro unat_add_lt) (simp add: B_def)
    have inv: "unat (q - 1) * unat dh + unat (r + dh) = nh"
      using bounds(6) less unfolding q1 rd by (cases "unat q") simp_all
    show ?thesis
    proof (cases "B \<le> unat (r + dh)")
      case out: True
      have "unat (q - 1) * unat dl \<le> B * unat (r + dh)"
        using bounds(3,7) out unfolding q1 by (intro mult_le_mono) simp_all
      then have "unat (q - 1) \<le> N div D" using fit [OF inv] below by simp
      moreover have "divmod_digit dh dl n q r = q - 1"
        using True guard out base by (subst divmod_digit.simps) simp
      ultimately show ?thesis using less q1 by (simp add: D_def N_def B_def)
    next
      case again: False
      have "divmod_digit dh dl n q r = divmod_digit dh dl n (q - 1) (r + dh)"
        using True guard again base by (subst divmod_digit.simps) simp
      moreover have "unat (divmod_digit dh dl n (q - 1) (r + dh)) = (nh * 2 ^ 32 + unat n) div (unat dh * 2 ^ 32 + unat dl)"
      proof (rule "1.IH")
        show "push_bit 32 1 \<le> q \<or> push_bit 32 1 * r + n < q * dl" using True guard by simp
        show "\<not> push_bit 32 1 \<le> r + dh" using again base by simp
        show "unat (q - 1) \<le> 2 ^ 32 + 1" using "1.prems"(7) q1 by simp
        show "unat (r + dh) < 2 ^ 32" using again by (simp add: B_def)
        show "(nh * 2 ^ 32 + unat n) div (unat dh * 2 ^ 32 + unat dl) \<le> unat (q - 1)"
          using less q1 by (simp add: D_def N_def B_def)
      qed (use "1.prems" inv in simp_all)
      ultimately show ?thesis by simp
    qed
  qed
qed


text \<open>
  The whole division: for a divisor of at least \<open>2 ^ 32\<close> whose top bit is clear (the callers
  pass a significand) and a numerator whose high limb is below it, quotient and remainder are
  those of the naturals.
\<close>

lemma div_digit_estimate:
  fixes nh n dh dl B :: nat
  assumes "0 < dh" "n < B"
  shows "(nh * B + n) div (dh * B + dl) \<le> nh div dh"
proof -
  have "(nh * B + n) div (dh * B + dl) \<le> (nh * B + n) div (dh * B)"
    using assms by (intro div_le_mono2) simp_all
  also have "\<dots> = (nh * B + n) div B div dh" by (simp add: div_mult2_eq mult.commute [of dh])
  also have "\<dots> = nh div dh" using assms by simp
  finally show ?thesis .
qed

lemma div_digit_small:
  fixes nh dh dl B :: nat
  assumes "nh < dh * B + dl" "B \<le> 2 * dh" "dl < B" 
  shows "nh div dh \<le> B + 1"
proof -
  have "nh < dh * (B + 2)" using assms by (simp add: algebra_simps)
  then have "nh div dh < B + 2" using assms by (simp add: div_less_iff_less_mult mult.commute)
  then show ?thesis by simp
qed

lemma divmod_digit_div:
  fixes dh dl n m :: u64
  assumes "2 ^ 31 \<le> unat dh" "unat dh < 2 ^ 32" "unat dl < 2 ^ 32" "unat n < 2 ^ 32"
    and "unat m < unat dh * 2 ^ 32 + unat dl"
  shows "unat (divmod_digit dh dl n (m div dh) (m - m div dh * dh))
       = (unat m * 2 ^ 32 + unat n) div (unat dh * 2 ^ 32 + unat dl)"
proof (rule divmod_digit_correct [where nh = "unat m"])
  have q: "unat (m div dh) = unat m div unat dh" by (rule unat_div)
  have qd: "unat (m div dh * dh) = unat m div unat dh * unat dh"
    using q unat_lt64 [of m] by (subst unat_mult_lt) (simp_all add: order_le_less_trans [OF div_times_less_eq_dividend])
  have r: "unat (m - m div dh * dh) = unat m mod unat dh"
    by (subst unat_sub_le) (simp_all add: qd minus_div_mult_eq_mod)
  show "unat (m div dh) * unat dh + unat (m - m div dh * dh) = unat m"
    unfolding q r by (rule div_mult_mod_eq)
  show "unat (m div dh) \<le> 2 ^ 32 + 1"
    unfolding q using assms by (intro div_digit_small [where dl = "unat dl"]) simp_all
  show "unat (m - m div dh * dh) < 2 ^ 32"
    unfolding r using assms(1,2) by (intro order_less_trans [OF mod_less_divisor]) simp_all
  show "(unat m * 2 ^ 32 + unat n) div (unat dh * 2 ^ 32 + unat dl) \<le> unat (m div dh)"
    unfolding q using assms by (intro div_digit_estimate) simp_all
qed (use assms in simp_all)

lemma base_pair:
  fixes h l :: u64
  assumes "unat l < 2 ^ 32"
  shows "unat (h * push_bit 32 1 + l) = (unat h * 2 ^ 32 + unat l) mod 2 ^ 64"
  by (simp add: unat_word_ariths unat_push_bit mod_simps)

lemma unat_sub_mod: "unat (a - b) = (x - y) mod 2 ^ 64"
  if "unat a = x mod 2 ^ 64" "unat b = y mod 2 ^ 64" "y \<le> x" for a b :: u64
proof -
  have "a = word_of_nat x" "b = word_of_nat y"
    using that by (auto intro!: word_eq_unatI simp: unat_of_nat)
  then have "a - b = word_of_nat (x - y)" using that(3) by simp
  then show ?thesis by (simp only: unat_of_nat) simp
qed

lemma divmod_u128_u64_correct:
  assumes "u_hi num < d" "2 ^ 32 \<le> unat d" "unat d < 2 ^ 63"
  shows "unat (fst (divmod_u128_u64 num d)) = u128_val num div unat d"
    and "unat (snd (divmod_u128_u64 num d)) = u128_val num mod unat d"
proof -
  define sh where "sh = nat (clz64 d)"
  have d0: "d \<noteq> 0" using assms(2) by auto
  note clz = clz64_bounds [OF d0]
  have sh: "1 \<le> sh" "sh < 32"
  proof -
    have "\<not> sh = 0" using clz(3) assms(3) by (intro notI) (simp add: sh_def)
    then show "1 \<le> sh" by simp
    show "sh < 32"
    proof (rule ccontr)
      assume "\<not> sh < 32"
      then have "(2::nat) ^ 32 \<le> 2 ^ sh" by (intro power_increasing) simp_all
      then have "2 ^ 32 * 2 ^ 32 \<le> unat d * 2 ^ sh" using assms(2) by (intro mult_le_mono) simp_all
      then show False using clz(4) by (simp add: sh_def)
    qed
  qed
  define D where "D = unat d * 2 ^ sh"
  define N where "N = u128_val num * 2 ^ sh"
  have D: "2 ^ 63 \<le> D" "D < 2 ^ 64" using clz unfolding D_def sh_def by auto
  define nd where "nd = push_bit sh d"
  have nd: "unat nd = D" using D(2) unfolding nd_def D_def by (intro unat_push_bit_lt) simp
  define dh dl where dhl: "dh = drop_bit 32 nd" "dl = nd AND (push_bit 32 1 - 1)"
  have m32: "push_bit 32 1 - 1 = (mask 32 :: u64)" by (simp add: mask_eq_exp_minus_1)
  have dh: "unat dh = D div 2 ^ 32" and dl: "unat dl = D mod 2 ^ 32"
    unfolding dhl m32 by (simp_all only: to_nat nd)
  have Dsplit: "unat dh * 2 ^ 32 + unat dl = D" unfolding dh dl by (rule div_mult_mod_eq)
  have dhb: "2 ^ 31 \<le> unat dh" "unat dh < 2 ^ 32" "unat dl < 2 ^ 32"
    using D unfolding dh dl by (simp_all add: div_less_iff_less_mult less_eq_div_iff_mult_less_eq)
  have modD: "x mod D mod 2 ^ 64 = x mod D" for x
    using D by (intro mod_less order_less_trans [OF mod_less_divisor]) simp_all
  define sn where "sn = u128_shl num (int sh)"
  have "u128_val num < unat d * 2 ^ 64"
    unfolding u128_val_def using assms(1) unat_lt64 [of "u_lo num"]
    by (intro limb_bound) (simp_all add: word_less_nat_alt)
  then have "N < unat d * 2 ^ 64 * 2 ^ sh" unfolding N_def by simp
  then have N: "N < D * 2 ^ 64" by (simp add: D_def mult.commute mult.left_commute)
  have sn: "u128_val sn = N"
    using N D(2) u128_val_shl_lt [of "int sh" num] by (simp add: sn_def N_def)
  have limbs: "push_bit sh (u_hi num) OR drop_bit (64 - sh) (u_lo num) = u_hi sn" "push_bit sh (u_lo num) = u_lo sn"
    using sh by (simp_all add: sn_def u128_shl_def nat_diff_distrib')
  define d1 d0 where d10: "d1 = drop_bit 32 (u_lo sn)" "d0 = u_lo sn AND (push_bit 32 1 - 1)"
  define A where "A = N div 2 ^ 64"
  have A: "unat (u_hi sn) = A" "A < D" using N by (simp_all add: u_hi_val sn A_def div_less_iff_less_mult)
  have d1: "unat d1 = N mod 2 ^ 64 div 2 ^ 32" "unat d1 < 2 ^ 32"
    unfolding d10 by (simp_all add: to_nat u_lo_val sn div_less_iff_less_mult)
  have d0: "unat d0 = N mod 2 ^ 32" "unat d0 < 2 ^ 32"
    unfolding d10 m32 by (simp_all add: to_nat u_lo_val sn mod_mod_cancel)
  have AN: "(A * 2 ^ 32 + unat d1) * 2 ^ 32 + unat d0 = N"
  proof -
    have "unat d0 = N mod 2 ^ 64 mod 2 ^ 32" unfolding d0 by (simp add: mod_mod_cancel)
    then have "unat d1 * 2 ^ 32 + unat d0 = N mod 2 ^ 64" unfolding d1 by (simp only: div_mult_mod_eq)
    then have "A * 2 ^ 64 + (unat d1 * 2 ^ 32 + unat d0) = N" unfolding A_def by (simp only: div_mult_mod_eq)
    then show ?thesis by (simp add: algebra_simps)
  qed
  define q1 where "q1 = divmod_digit dh dl d1 (u_hi sn div dh) (u_hi sn - u_hi sn div dh * dh)"
  define mid where "mid = u_hi sn * push_bit 32 1 + d1 - q1 * nd"
  define q0 where "q0 = divmod_digit dh dl d0 (mid div dh) (mid - mid div dh * dh)"
  have q1: "unat q1 = (A * 2 ^ 32 + unat d1) div D"
    unfolding q1_def using dhb d1(2) A Dsplit by (subst divmod_digit_div) simp_all
  have mid: "unat mid = (A * 2 ^ 32 + unat d1) mod D"
  proof -
    have "unat mid = (A * 2 ^ 32 + unat d1 - (A * 2 ^ 32 + unat d1) div D * D) mod 2 ^ 64"
      unfolding mid_def
      by (rule unat_sub_mod) (simp_all add: base_pair d1 A unat_word_ariths q1 nd mod_simps)
    then show ?thesis unfolding minus_div_mult_eq_mod using modD by simp
  qed
  have midD: "unat mid < D" unfolding mid using D by simp
  have q0: "unat q0 = (unat mid * 2 ^ 32 + unat d0) div D"
    unfolding q0_def using dhb d0(2) midD Dsplit by (subst divmod_digit_div) simp_all
  define rm where "rm = mid * push_bit 32 1 + d0 - q0 * nd"
  have rm: "unat rm = (unat mid * 2 ^ 32 + unat d0) mod D"
  proof -
    have "unat rm = (unat mid * 2 ^ 32 + unat d0 - (unat mid * 2 ^ 32 + unat d0) div D * D) mod 2 ^ 64"
      unfolding rm_def
      by (rule unat_sub_mod) (simp_all add: base_pair d0 unat_word_ariths q0 nd mod_simps)
    then show ?thesis unfolding minus_div_mult_eq_mod using modD by simp
  qed
  have result: "divmod_u128_u64 num d = (q1 * push_bit 32 1 + q0, drop_bit sh rm)"
    unfolding divmod_u128_u64_def Let_def sh_def [symmetric] nd_def [symmetric] dhl [symmetric]
      limbs d10 [symmetric] q1_def [symmetric] mid_def [symmetric] q0_def [symmetric] rm_def [symmetric] ..
  have q0B: "unat q0 < 2 ^ 32"
    unfolding q0 using D midD d0(2) limb_bound [of "unat mid" D "unat d0" "2 ^ 32"]
    by (simp add: div_less_iff_less_mult mult.commute)
  have q1B: "unat q1 < 2 ^ 32"
    unfolding q1 using D A(2) d1(2) limb_bound [of A D "unat d1" "2 ^ 32"]
    by (simp add: div_less_iff_less_mult mult.commute)
  have "N = (unat q1 * 2 ^ 32 + unat q0) * D + unat rm"
  proof -
    have "N = ((unat q1 * D + unat mid) * 2 ^ 32 + unat d0)"
      unfolding q1 mid using AN by (simp only: div_mult_mod_eq)
    also have "\<dots> = unat q1 * 2 ^ 32 * D + (unat mid * 2 ^ 32 + unat d0)" by (simp add: algebra_simps)
    also have "unat mid * 2 ^ 32 + unat d0 = unat q0 * D + unat rm" unfolding q0 rm by (simp only: div_mult_mod_eq)
    finally show ?thesis by (simp add: algebra_simps)
  qed
  moreover have "unat rm < D" unfolding rm using D by simp
  ultimately have ND: "N div D = unat q1 * 2 ^ 32 + unat q0" "N mod D = unat rm" by simp_all
  have scale: "N div D = u128_val num div unat d" "N mod D = u128_val num mod unat d * 2 ^ sh"
    unfolding N_def D_def by (simp_all add: mod_mult_mult2)
  have "unat q1 * 2 ^ 32 + unat q0 < 2 ^ 32 * 2 ^ 32" using q1B q0B by (rule limb_bound)
  then have "unat (q1 * push_bit 32 1 + q0) = unat q1 * 2 ^ 32 + unat q0"
    unfolding base_pair [OF q0B] by simp
  then show "unat (fst (divmod_u128_u64 num d)) = u128_val num div unat d"
    using ND scale by (simp add: result)
  show "unat (snd (divmod_u128_u64 num d)) = u128_val num mod unat d"
    unfolding result snd_conv unat_drop_bit ND(2) [symmetric] scale(2) by simp
qed

lemma divmod_digit_turns:
  fixes dh dl n m :: u64
  assumes "2 ^ 31 \<le> unat dh" "unat dh < 2 ^ 32" "unat dl < 2 ^ 32" "unat n < 2 ^ 32"
    and "unat m < unat dh * 2 ^ 32 + unat dl"
  shows "unat (m div dh) \<le> unat (divmod_digit dh dl n (m div dh) (m - m div dh * dh)) + 2"
proof -
  define D where "D = unat dh * 2 ^ 32 + unat dl"
  define q where "q = (unat m * 2 ^ 32 + unat n) div D"
  define e where "e = unat m div unat dh"
  have D: "0 < D" using assms(1) by (simp add: D_def)
  have "unat m * 2 ^ 32 + unat n < D * 2 ^ 32"
    using assms(5) unfolding D_def by (intro limb_bound assms(4))
  then have qB: "q < 2 ^ 32" unfolding q_def by (simp only: div_less_iff_less_mult [OF D] mult.commute)
  have "unat m * 2 ^ 32 + unat n < (q + 1) * D"
    unfolding q_def using D dividend_less_times_div [of D "unat m * 2 ^ 32 + unat n"] by (simp add: algebra_simps)
  moreover have "e * unat dh * 2 ^ 32 \<le> unat m * 2 ^ 32" unfolding e_def by simp
  ultimately have "e * unat dh * 2 ^ 32 < (q + 1) * (unat dh * 2 ^ 32 + unat dl)" unfolding D_def by linarith
  moreover have "(q + 1) * unat dl \<le> (q + 1) * 2 ^ 32" using assms(3) by (intro mult_left_mono) simp_all
  ultimately have "e * unat dh * 2 ^ 32 < ((q + 1) * unat dh + (q + 1)) * 2 ^ 32" by (simp add: algebra_simps)
  then have lt: "e * unat dh < (q + 1) * unat dh + (q + 1)" by (simp only: mult_less_cancel2)
  have "e \<le> q + 2"
  proof (rule ccontr)
    assume "\<not> e \<le> q + 2"
    then have "(q + 3) * unat dh \<le> e * unat dh" by (intro mult_right_mono) simp_all
    then have "2 * unat dh < q + 1" using lt by (simp add: algebra_simps)
    then show False using qB assms(1) by simp
  qed
  then show ?thesis
    unfolding divmod_digit_div [OF assms] unat_div e_def q_def D_def .
qed

text \<open>
  C32: The Knuth division terminates quickly and is right: each of its correction loops turns at most twice
  (every turn, the one that leaves early included, lowers the digit by one) when the denominator has been
  normalised, and for a quotient that fits a limb the result is the quotient and the remainder of the
  128-bit numerator.
\<close>

theorem knuth_division_terminates:
  fixes dh dl n m d :: u64
  shows "(2 ^ 31 \<le> unat dh \<and> unat dh < 2 ^ 32 \<and> unat dl < 2 ^ 32 \<and> unat n < 2 ^ 32 \<and> unat m < unat dh * 2 ^ 32 + unat dl \<longrightarrow>
      unat (m div dh) \<le> unat (divmod_digit dh dl n (m div dh) (m - m div dh * dh)) + 2)
    \<and> (u_hi num < d \<and> 2 ^ 32 \<le> unat d \<and> unat d < 2 ^ 63 \<longrightarrow>
      unat (fst (divmod_u128_u64 num d)) = u128_val num div unat d
      \<and> unat (snd (divmod_u128_u64 num d)) = u128_val num mod unat d)"
  using divmod_digit_turns [of dh dl n m] divmod_u128_u64_correct [of num d] by blast

lemma knuth_division_terminates_witness:
  "unat ((0x8000000000000000 :: u64) div 0x80000000)
      \<le> unat (divmod_digit 0x80000000 0xFFFFFFFF 0 (0x8000000000000000 div 0x80000000) (0x8000000000000000 - 0x8000000000000000 div 0x80000000 * 0x80000000)) + 2
   \<and> unat (fst (divmod_u128_u64 \<lparr>u_hi = 1, u_lo = 5\<rparr> 0x200000000)) = u128_val \<lparr>u_hi = 1, u_lo = 5\<rparr> div 0x200000000"
proof -
  have "unat (0x80000000 :: u64) = 0x80000000" "unat (0xFFFFFFFF :: u64) = 0xFFFFFFFF" "unat (0 :: u64) = 0"
    "unat (0x8000000000000000 :: u64) = 0x8000000000000000" "unat (0x200000000 :: u64) = 0x200000000" by simp_all
  then show ?thesis
    using knuth_division_terminates [of "0x80000000" "0xFFFFFFFF" 0 "0x8000000000000000" "\<lparr>u_hi = 1, u_lo = 5\<rparr>" "0x200000000"]
    by (simp del: unat_numeral)
qed

end
