(* ===== verification/Sf_Fenv.thy ===== *)
theory Sf_Fenv
  imports Sf_Internal
begin

text \<open>
  \<open>src/internal_fenv.h\<close> and \<open>src/fenv.cpp\<close>: the exception-flag plumbing in its three build
  modes.  The state of the world is one sticky bag per thread (the \<open>thread_local\<close>
  \<open>sf64_internal_fe_flags\<close>) and the caller-owned \<open>sf64_fe_state_t\<close> objects, a memory from
  addresses to their \<open>flags\<close> word; a pointer is an optional address, \<open>None\<close> the null pointer.
  The accumulator class, the TLS surface and the \<open>_ex\<close> surface are functions on that world, and
  a step relation on it interleaves the calls of any number of threads.
\<close>

section \<open>Build modes, the accumulator and the stores\<close>

text \<open>\<open>SOFT_FP64_FENV_MODE\<close> 0, 1 and 2.\<close>

datatype fenv_mode = Fenv_Disabled | Fenv_Tls | Fenv_Explicit

type_synonym tid = nat
type_synonym state_ptr = "nat option"

record fenv_world =
  tls_flags :: "tid \<Rightarrow> u32"
  state_flags :: "nat \<Rightarrow> u32"

definition put_tls :: "tid \<Rightarrow> u32 \<Rightarrow> fenv_world \<Rightarrow> fenv_world" where
  "put_tls t v w = w\<lparr>tls_flags := (tls_flags w)(t := v)\<rparr>"

definition put_state :: "nat \<Rightarrow> u32 \<Rightarrow> fenv_world \<Rightarrow> fenv_world" where
  "put_state p v w = w\<lparr>state_flags := (state_flags w)(p := v)\<rparr>"

record fe_acc =
  acc_state :: state_ptr
  acc_bits :: u32
  acc_explicit :: bool

text \<open>The two constructors; disabled builds have no members and explicit builds no third one.\<close>

definition acc_default :: fe_acc where
  "acc_default = \<lparr>acc_state = None, acc_bits = 0, acc_explicit = False\<rparr>"

definition acc_of_state :: "state_ptr \<Rightarrow> fe_acc" where
  "acc_of_state state = \<lparr>acc_state = state, acc_bits = 0, acc_explicit = True\<rparr>"

definition acc_raise :: "fenv_mode \<Rightarrow> u32 \<Rightarrow> fe_acc \<Rightarrow> fe_acc" where
  "acc_raise m bits acc = (case m of
      Fenv_Tls \<Rightarrow> acc\<lparr>acc_bits := acc_bits acc OR bits\<rparr>
    | Fenv_Explicit \<Rightarrow> if acc_state acc \<noteq> None then acc\<lparr>acc_bits := acc_bits acc OR bits\<rparr> else acc
    | Fenv_Disabled \<Rightarrow> acc)"

definition acc_flush :: "fenv_mode \<Rightarrow> tid \<Rightarrow> fe_acc \<Rightarrow> fenv_world \<Rightarrow> fenv_world" where
  "acc_flush m t acc w = (case m of
      Fenv_Tls \<Rightarrow>
        if acc_bits acc = 0 then w
        else if acc_explicit acc then
          (case acc_state acc of
             Some p \<Rightarrow> put_state p (state_flags w p OR acc_bits acc) w
           | None \<Rightarrow> w)
        else put_tls t (tls_flags w t OR acc_bits acc) w
    | Fenv_Explicit \<Rightarrow>
        (case acc_state acc of
           Some p \<Rightarrow> if acc_bits acc \<noteq> 0 then put_state p (state_flags w p OR acc_bits acc) w else w
         | None \<Rightarrow> w)
    | Fenv_Disabled \<Rightarrow> w)"

text \<open>\<open>SF64_FE_RAISE(bits)\<close>: the direct store of the cold paths.\<close>

definition fe_raise_direct :: "fenv_mode \<Rightarrow> tid \<Rightarrow> u32 \<Rightarrow> fenv_world \<Rightarrow> fenv_world" where
  "fe_raise_direct m t bits w = (case m of
      Fenv_Tls \<Rightarrow> put_tls t (tls_flags w t OR bits) w
    | Fenv_Explicit \<Rightarrow> w
    | Fenv_Disabled \<Rightarrow> w)"

text \<open>
  A public entry declares an accumulator, lets the operation raise \<open>bits\<close> into it, and flushes.
\<close>

definition entry_default :: "fenv_mode \<Rightarrow> tid \<Rightarrow> 'r \<times> u32 \<Rightarrow> fenv_world \<Rightarrow> 'r \<times> fenv_world" where
  "entry_default m t r w = (fst r, acc_flush m t (acc_raise m (snd r) acc_default) w)"

definition entry_ex :: "fenv_mode \<Rightarrow> tid \<Rightarrow> state_ptr \<Rightarrow> 'r \<times> u32 \<Rightarrow> fenv_world \<Rightarrow> 'r \<times> fenv_world" where
  "entry_ex m t state r w = (fst r, acc_flush m t (acc_raise m (snd r) (acc_of_state state)) w)"

section \<open>The public surface of \<open>fenv.cpp\<close>\<close>

definition sf64_fe_getall :: "fenv_mode \<Rightarrow> tid \<Rightarrow> fenv_world \<Rightarrow> u32" where
  "sf64_fe_getall m t w = (if m = Fenv_Tls then tls_flags w t else 0)"

definition sf64_fe_test :: "fenv_mode \<Rightarrow> tid \<Rightarrow> u32 \<Rightarrow> fenv_world \<Rightarrow> int" where
  "sf64_fe_test m t msk w = (if m = Fenv_Tls then (if tls_flags w t AND msk \<noteq> 0 then 1 else 0) else 0)"

definition sf64_fe_raise :: "fenv_mode \<Rightarrow> tid \<Rightarrow> u32 \<Rightarrow> fenv_world \<Rightarrow> fenv_world" where
  "sf64_fe_raise m t msk w = (if m = Fenv_Tls then put_tls t (tls_flags w t OR msk) w else w)"

definition sf64_fe_clear :: "fenv_mode \<Rightarrow> tid \<Rightarrow> u32 \<Rightarrow> fenv_world \<Rightarrow> fenv_world" where
  "sf64_fe_clear m t msk w = (if m = Fenv_Tls then put_tls t (tls_flags w t AND NOT msk) w else w)"

definition sf64_fe_save :: "fenv_mode \<Rightarrow> tid \<Rightarrow> state_ptr \<Rightarrow> fenv_world \<Rightarrow> fenv_world" where
  "sf64_fe_save m t out w = (case out of
      None \<Rightarrow> w
    | Some p \<Rightarrow> put_state p (if m = Fenv_Tls then tls_flags w t else 0) w)"

definition sf64_fe_restore :: "fenv_mode \<Rightarrow> tid \<Rightarrow> state_ptr \<Rightarrow> fenv_world \<Rightarrow> fenv_world" where
  "sf64_fe_restore m t src w = (case src of
      None \<Rightarrow> w
    | Some p \<Rightarrow> if m = Fenv_Tls then put_tls t (state_flags w p) w else w)"

definition sf64_fe_getall_ex :: "state_ptr \<Rightarrow> fenv_world \<Rightarrow> u32" where
  "sf64_fe_getall_ex state w = (case state of Some p \<Rightarrow> state_flags w p | None \<Rightarrow> 0)"

definition sf64_fe_test_ex :: "state_ptr \<Rightarrow> u32 \<Rightarrow> fenv_world \<Rightarrow> int" where
  "sf64_fe_test_ex state msk w = (case state of
      None \<Rightarrow> 0
    | Some p \<Rightarrow> if state_flags w p AND msk \<noteq> 0 then 1 else 0)"

definition sf64_fe_raise_ex :: "state_ptr \<Rightarrow> u32 \<Rightarrow> fenv_world \<Rightarrow> fenv_world" where
  "sf64_fe_raise_ex state msk w = (case state of
      None \<Rightarrow> w
    | Some p \<Rightarrow> put_state p (state_flags w p OR msk) w)"

definition sf64_fe_clear_ex :: "state_ptr \<Rightarrow> u32 \<Rightarrow> fenv_world \<Rightarrow> fenv_world" where
  "sf64_fe_clear_ex state msk w = (case state of
      None \<Rightarrow> w
    | Some p \<Rightarrow> put_state p (state_flags w p AND NOT msk) w)"

definition sf64_fe_save_ex :: "state_ptr \<Rightarrow> state_ptr \<Rightarrow> fenv_world \<Rightarrow> fenv_world" where
  "sf64_fe_save_ex state out w = (case out of
      None \<Rightarrow> w
    | Some q \<Rightarrow> put_state q (case state of Some p \<Rightarrow> state_flags w p | None \<Rightarrow> 0) w)"

definition sf64_fe_restore_ex :: "state_ptr \<Rightarrow> state_ptr \<Rightarrow> fenv_world \<Rightarrow> fenv_world" where
  "sf64_fe_restore_ex state src w = (case (state, src) of
      (Some p, Some q) \<Rightarrow> put_state p (state_flags w q) w
    | _ \<Rightarrow> w)"

lemma fenv_world_get_put [simp]:
  "tls_flags (put_tls t v w) u = (if u = t then v else tls_flags w u)"
  "state_flags (put_tls t v w) = state_flags w"
  "tls_flags (put_state p v w) = tls_flags w"
  "state_flags (put_state p v w) q = (if q = p then v else state_flags w q)"
  by (simp_all add: put_tls_def put_state_def)

lemma put_put [simp]:
  "put_tls t v (put_tls t u w) = put_tls t v w"
  "put_state p v (put_state p u w) = put_state p v w"
  "put_tls t (tls_flags w t) w = w"
  "put_state p (state_flags w p) w = w"
  by (simp_all add: put_tls_def put_state_def)

lemmas fe_acc_simps = acc_default_def acc_of_state_def acc_raise_def acc_flush_def fe_raise_direct_def

section \<open>The interface of a flag sink\<close>

text \<open>
  What the operations rely on: raises compose by \<open>OR\<close>, an accumulator nothing was raised into
  leaves the world alone, and the flush delivers exactly the raised bits to the observed word.
\<close>

locale flag_sink =
  fixes raise :: "u32 \<Rightarrow> 'a \<Rightarrow> 'a"
    and flush :: "'a \<Rightarrow> 'w \<Rightarrow> 'w"
    and observed :: "'w \<Rightarrow> u32"
    and init :: 'a
  assumes raise_raise: "raise c (raise b a) = raise (b OR c) a"
    and raise_0: "raise 0 init = init"
    and flush_init: "flush init w = w"
    and flush_raise: "observed (flush (raise b init) w) = observed w OR b"
begin

lemma fold_raise: "fold raise bs (raise b init) = raise (fold (OR) bs b) init"
  by (induction bs arbitrary: b) (simp_all add: raise_raise or.commute)

lemma deferred: "observed (flush (fold raise bs init) w) = observed w OR fold (OR) bs 0"
  using fold_raise [of bs 0] by (simp add: raise_0 flush_raise)

lemma sticky: "observed w AND observed (flush (fold raise bs init) w) = observed w"
  unfolding deferred by (simp add: bit_eq_iff bit_and_iff bit_or_iff)

end

interpretation tls_sink: flag_sink "acc_raise Fenv_Tls" "acc_flush Fenv_Tls t" "\<lambda>w. tls_flags w t" acc_default for t
  by unfold_locales (auto simp: fe_acc_simps or.assoc)

interpretation tls_state_sink: flag_sink "acc_raise Fenv_Tls" "acc_flush Fenv_Tls t"
    "\<lambda>w. state_flags w p" "acc_of_state (Some p)" for t p
  by unfold_locales (auto simp: fe_acc_simps or.assoc)

interpretation explicit_sink: flag_sink "acc_raise Fenv_Explicit" "acc_flush Fenv_Explicit t"
    "\<lambda>w. state_flags w p" "acc_of_state (Some p)" for t p
  by unfold_locales (auto simp: fe_acc_simps or.assoc)

text \<open>In every mode raises compose, so an operation may collect its bits in one word first.\<close>

lemma acc_raise_raise: "acc_raise m c (acc_raise m b a) = acc_raise m (b OR c) a"
  by (cases m) (auto simp: acc_raise_def or.assoc)

lemma acc_raise_0 [simp]: "acc_raise m 0 a = a"
  by (cases m) (auto simp: acc_raise_def)


lemma entry_default_simps:
  "entry_default Fenv_Tls t r w = (fst r, put_tls t (tls_flags w t OR snd r) w)"
  "entry_default Fenv_Explicit t r w = (fst r, w)"
  "entry_default Fenv_Disabled t r w = (fst r, w)"
  by (auto simp: entry_default_def fe_acc_simps)

lemma entry_ex_simps:
  "entry_ex m t None r w = (fst r, w)"
  "entry_ex Fenv_Disabled t s r w = (fst r, w)"
  "m \<noteq> Fenv_Disabled \<Longrightarrow> entry_ex m t (Some p) r w = (fst r, put_state p (state_flags w p OR snd r) w)"
  by (cases m; auto simp: entry_ex_def fe_acc_simps)+

lemma fold_raise_direct:
  "fold (fe_raise_direct Fenv_Tls t) bs w = put_tls t (tls_flags w t OR fold (OR) bs 0) w"
proof -
  have "fold (fe_raise_direct Fenv_Tls t) bs (put_tls t (tls_flags w t OR b) w)
      = put_tls t (tls_flags w t OR fold (OR) bs b) w" for b
  proof (induction bs arbitrary: b)
    case (Cons a bs)
    from Cons [of "a OR b"] show ?case by (simp add: fe_raise_direct_def or.assoc or.commute or.left_commute)
  qed simp
  from this [of 0] show ?thesis by simp
qed

section \<open>Threads calling the library\<close>

text \<open>
  One step is one call: a public operation whose body raised \<open>b\<close> (default or \<open>_ex\<close> entry), a
  direct raise of a cold path, or an entry of \<open>fenv.cpp\<close>.  The label names the calling thread
  and the call.
\<close>

datatype fenv_call =
    Call_op u32 | Call_op_ex state_ptr u32 | Call_direct u32
  | Call_raise u32 | Call_clear u32 | Call_save state_ptr | Call_restore state_ptr
  | Call_raise_ex state_ptr u32 | Call_clear_ex state_ptr u32
  | Call_save_ex state_ptr state_ptr | Call_restore_ex state_ptr state_ptr

inductive fenv_step :: "fenv_mode \<Rightarrow> tid \<times> fenv_call \<Rightarrow> fenv_world \<Rightarrow> fenv_world \<Rightarrow> bool" for m :: fenv_mode where
  op: "fenv_step m (t, Call_op b) w (acc_flush m t (acc_raise m b acc_default) w)"
| op_ex: "fenv_step m (t, Call_op_ex p b) w (acc_flush m t (acc_raise m b (acc_of_state p)) w)"
| direct: "fenv_step m (t, Call_direct b) w (fe_raise_direct m t b w)"
| fe_raise: "fenv_step m (t, Call_raise b) w (sf64_fe_raise m t b w)"
| fe_clear: "fenv_step m (t, Call_clear b) w (sf64_fe_clear m t b w)"
| fe_save: "fenv_step m (t, Call_save p) w (sf64_fe_save m t p w)"
| fe_restore: "fenv_step m (t, Call_restore p) w (sf64_fe_restore m t p w)"
| fe_raise_ex: "fenv_step m (t, Call_raise_ex p b) w (sf64_fe_raise_ex p b w)"
| fe_clear_ex: "fenv_step m (t, Call_clear_ex p b) w (sf64_fe_clear_ex p b w)"
| fe_save_ex: "fenv_step m (t, Call_save_ex p q) w (sf64_fe_save_ex p q w)"
| fe_restore_ex: "fenv_step m (t, Call_restore_ex p q) w (sf64_fe_restore_ex p q w)"

code_pred fenv_step .

inductive_cases fenv_stepE: "fenv_step m tc w w'"

inductive fenv_run :: "fenv_mode \<Rightarrow> (tid \<times> fenv_call) list \<Rightarrow> fenv_world \<Rightarrow> fenv_world \<Rightarrow> bool" for m :: fenv_mode where
  nil: "fenv_run m [] w w"
| cons: "fenv_step m c w w' \<Longrightarrow> fenv_run m cs w' w'' \<Longrightarrow> fenv_run m (c # cs) w w''"

inductive_cases fenv_run_consE: "fenv_run m (c # cs) w w'"
inductive_cases fenv_run_nilE: "fenv_run m [] w w'"

text \<open>The calls that can take a bit out of the bag of the calling thread.\<close>

fun lowers_tls :: "fenv_call \<Rightarrow> bool" where
  "lowers_tls (Call_clear b) \<longleftrightarrow> True"
| "lowers_tls (Call_restore p) \<longleftrightarrow> True"
| "lowers_tls c \<longleftrightarrow> False"

lemmas fenv_defs = fe_acc_simps sf64_fe_raise_def sf64_fe_clear_def sf64_fe_save_def sf64_fe_restore_def
  sf64_fe_raise_ex_def sf64_fe_clear_ex_def sf64_fe_save_ex_def sf64_fe_restore_ex_def

lemma step_other_thread: "fenv_step m (t, c) w w' \<Longrightarrow> u \<noteq> t \<Longrightarrow> tls_flags w' u = tls_flags w u"
  by (erule fenv_stepE) (auto simp: fenv_defs split: fenv_mode.splits option.splits)

lemma step_no_tls: "fenv_step m (t, c) w w' \<Longrightarrow> m \<noteq> Fenv_Tls \<Longrightarrow> tls_flags w' u = tls_flags w u"
  by (erule fenv_stepE) (auto simp: fenv_defs split: fenv_mode.splits option.splits)

lemma bit_or_keeps: "bit (a :: u32) i \<Longrightarrow> bit (a OR b) i"
  by (simp add: bit_or_iff)

lemma step_sticky:
  "fenv_step m (t, c) w w' \<Longrightarrow> \<not> lowers_tls c \<Longrightarrow> bit (tls_flags w t) i \<Longrightarrow> bit (tls_flags w' t) i"
  by (erule fenv_stepE) (auto simp: fenv_defs bit_or_keeps split: fenv_mode.splits option.splits)

lemma run_other_threads:
  "fenv_run m cs w w' \<Longrightarrow> \<forall>c\<in>set cs. fst c \<noteq> u \<Longrightarrow> tls_flags w' u = tls_flags w u"
proof (induction rule: fenv_run.induct)
  case (cons c w w' cs w'')
  then show ?case using step_other_thread [of m "fst c" "snd c" w w' u] by simp
qed simp

lemma run_sticky:
  "fenv_run m cs w w' \<Longrightarrow> \<forall>c\<in>set cs. fst c = t \<longrightarrow> \<not> lowers_tls (snd c)
     \<Longrightarrow> bit (tls_flags w t) i \<Longrightarrow> bit (tls_flags w' t) i"
proof (induction rule: fenv_run.induct)
  case (cons c w w' cs w'')
  obtain u k where c: "c = (u, k)" by (cases c)
  have "bit (tls_flags w' t) i"
  proof (cases "u = t")
    case True
    then show ?thesis using cons.prems cons.hyps(1) c by (auto intro: step_sticky)
  next
    case False
    then show ?thesis using cons.prems(2) step_other_thread [OF cons.hyps(1) [unfolded c]] by metis
  qed
  then show ?case using cons.IH cons.prems(1) by simp
qed simp

lemma run_no_tls: "fenv_run m cs w w' \<Longrightarrow> m \<noteq> Fenv_Tls \<Longrightarrow> tls_flags w' u = tls_flags w u"
  by (induction rule: fenv_run.induct) (auto dest: step_no_tls)


section \<open>Properties\<close>

text \<open>
  C23: Deferring the store is unobservable: raising any sequence of flags into a default
  accumulator and flushing once at the end of the operation leaves the same world as storing each
  raise in the thread's bag at once, in every build mode.
\<close>

theorem deferred_flush_is_direct:
  "acc_flush m t (fold (acc_raise m) bs acc_default) w = fold (fe_raise_direct m t) bs w"
proof (cases m)
  case Fenv_Tls
  have "fold (acc_raise m) bs acc_default = acc_raise m (fold (OR) bs 0) acc_default"
    using tls_sink.fold_raise [of bs 0] Fenv_Tls by simp
  then show ?thesis using Fenv_Tls by (simp add: fold_raise_direct fe_acc_simps)
next
  case Fenv_Explicit
  then have "fold (acc_raise m) bs acc_default = acc_default" "fold (fe_raise_direct m t) bs w = w"
    by (induction bs) (simp_all add: fe_acc_simps)
  then show ?thesis using Fenv_Explicit by (simp add: fe_acc_simps)
next
  case Fenv_Disabled
  then have "fold (acc_raise m) bs acc_default = acc_default" "fold (fe_raise_direct m t) bs w = w"
    by (induction bs) (simp_all add: fe_acc_simps)
  then show ?thesis using Fenv_Disabled by (simp add: fe_acc_simps)
qed

text \<open>
  C24: The bags are thread-local and sticky: along any interleaving of calls by any threads, a flag
  once set in a thread's bag stays set until that thread itself clears or restores, whatever the
  other threads call.
\<close>

theorem flags_sticky_until_cleared:
  assumes "fenv_run m cs w w'" and "bit (sf64_fe_getall m t w) i"
    and "\<forall>c\<in>set cs. fst c = t \<longrightarrow> \<not> lowers_tls (snd c)"
  shows "bit (sf64_fe_getall m t w') i"
  using assms run_sticky [OF assms(1), of t i] by (auto simp: sf64_fe_getall_def split: if_splits)

lemma flags_sticky_until_cleared_witness:
  "bit (sf64_fe_getall Fenv_Tls 1
     (sf64_fe_clear Fenv_Tls 2 31 (sf64_fe_raise Fenv_Tls 1 16 \<lparr>tls_flags = (\<lambda>_. 0), state_flags = (\<lambda>_. 0)\<rparr>))) 4"
proof (rule flags_sticky_until_cleared)
  let ?w = "sf64_fe_raise Fenv_Tls 1 16 \<lparr>tls_flags = (\<lambda>_. 0), state_flags = (\<lambda>_. 0)\<rparr>"
  show "fenv_run Fenv_Tls [(2, Call_clear 31)] ?w (sf64_fe_clear Fenv_Tls 2 31 ?w)"
    by (rule fenv_run.cons, rule fenv_step.fe_clear, rule fenv_run.nil)
  show "bit (sf64_fe_getall Fenv_Tls 1 ?w) 4"
    by (simp add: sf64_fe_getall_def sf64_fe_raise_def)
qed simp

text \<open>
  C25: Isolation and the explicit mode: calls of other threads never change what a thread reads, and
  in a build without thread-local storage no call at all changes any bag, so the default surface
  always reports 0.
\<close>

theorem flags_isolated:
  assumes "fenv_run m cs w w'"
  shows "((\<forall>c\<in>set cs. fst c \<noteq> t) \<longrightarrow> sf64_fe_getall m t w' = sf64_fe_getall m t w)
    \<and> (m \<noteq> Fenv_Tls \<longrightarrow> tls_flags w' = tls_flags w \<and> sf64_fe_getall m t w' = 0 \<and> sf64_fe_test m t k w' = 0)"
  using run_other_threads [OF assms, of t] run_no_tls [OF assms]
  by (auto simp: sf64_fe_getall_def sf64_fe_test_def)

lemma flags_isolated_witness:
  "sf64_fe_getall Fenv_Tls 1 (fe_raise_direct Fenv_Tls 2 1 \<lparr>tls_flags = (\<lambda>_. 0), state_flags = (\<lambda>_. 0)\<rparr>) = 0"
proof -
  let ?w = "\<lparr>tls_flags = (\<lambda>_. 0), state_flags = (\<lambda>_. 0)\<rparr>"
  have "fenv_run Fenv_Tls [(2, Call_direct 1)] ?w (fe_raise_direct Fenv_Tls 2 1 ?w)"
    by (rule fenv_run.cons, rule fenv_step.direct, rule fenv_run.nil)
  from flags_isolated [OF this, of 1] show ?thesis by (simp add: sf64_fe_getall_def)
qed

text \<open>The calls that write a given state object.\<close>

fun writes_state :: "nat \<Rightarrow> fenv_call \<Rightarrow> bool" where
  "writes_state p (Call_op_ex q b) \<longleftrightarrow> q = Some p"
| "writes_state p (Call_save q) \<longleftrightarrow> q = Some p"
| "writes_state p (Call_raise_ex q b) \<longleftrightarrow> q = Some p"
| "writes_state p (Call_clear_ex q b) \<longleftrightarrow> q = Some p"
| "writes_state p (Call_save_ex q r) \<longleftrightarrow> r = Some p"
| "writes_state p (Call_restore_ex q r) \<longleftrightarrow> q = Some p"
| "writes_state p c \<longleftrightarrow> False"

lemma step_state_kept:
  "fenv_step m (t, c) w w' \<Longrightarrow> \<not> writes_state p c \<Longrightarrow> state_flags w' p = state_flags w p"
  by (erule fenv_stepE) (auto simp: fenv_defs split: fenv_mode.splits option.splits)

lemma run_state_kept:
  "fenv_run m cs w w' \<Longrightarrow> \<forall>c\<in>set cs. \<not> writes_state p (snd c) \<Longrightarrow> state_flags w' p = state_flags w p"
proof (induction rule: fenv_run.induct)
  case (cons c w w' cs w'')
  then show ?case using step_state_kept [of m "fst c" "snd c" w w' p] by simp
qed simp

text \<open>
  Save and restore are inverse: saving the bag, running any calls of any threads that do not
  write the saved state object, and restoring gives back the flags of the moment of the save.
\<close>

theorem save_restore_roundtrip:
  assumes "fenv_run m cs (sf64_fe_save m t (Some p) w) w'"
    and "\<forall>c\<in>set cs. \<not> writes_state p (snd c)"
  shows "sf64_fe_getall m t (sf64_fe_restore m t (Some p) w') = sf64_fe_getall m t w"
  using run_state_kept [OF assms]
  by (simp add: sf64_fe_getall_def sf64_fe_restore_def sf64_fe_save_def)

lemma save_restore_roundtrip_witness:
  "sf64_fe_getall Fenv_Tls 1 (sf64_fe_restore Fenv_Tls 1 (Some 9)
     (sf64_fe_clear Fenv_Tls 1 31 (sf64_fe_save Fenv_Tls 1 (Some 9) \<lparr>tls_flags = (\<lambda>_. 5), state_flags = (\<lambda>_. 0)\<rparr>))) = 5"
proof -
  let ?w = "\<lparr>tls_flags = (\<lambda>_. 5), state_flags = (\<lambda>_. 0)\<rparr>"
  have "fenv_run Fenv_Tls [(1, Call_clear 31)] (sf64_fe_save Fenv_Tls 1 (Some 9) ?w)
      (sf64_fe_clear Fenv_Tls 1 31 (sf64_fe_save Fenv_Tls 1 (Some 9) ?w))"
    by (rule fenv_run.cons, rule fenv_step.fe_clear, rule fenv_run.nil)
  from save_restore_roundtrip [OF this] show ?thesis by (simp add: sf64_fe_getall_def)
qed

text \<open>
  C27: A caller that passes a null state to an \<open>_ex\<close> entry drops the flags in every build mode
  (the thread's bag is not a fallback, in the TLS build either), and with a state object the bag
  is never touched.
\<close>

theorem ex_entry_never_touches_tls:
  "entry_ex m t None r w = (fst r, w) \<and> tls_flags (snd (entry_ex m t s r w)) = tls_flags w"
  by (cases s; cases m; simp add: entry_ex_simps)

end
