(* ===== verification/Sf_Arith.thy ===== *)
theory Sf_Arith
  imports Sf_Fenv
begin

text \<open>
  \<open>src/arithmetic.cpp\<close> and the add/sub/mul/div part of \<open>src/internal_arith.h\<close>: the
  mode-parametric bodies, their round-to-nearest-even specializations and the remainder.  A body
  takes the bits its accumulator holds (\<open>fe\<close>) and returns the result with the bits after it;
  \<open>fe.raise(b)\<close> is \<open>fe OR b\<close>.  The public entries run a body on an empty accumulator and flush
  it into the world of \<open>Sf_Fenv\<close>.
\<close>

section \<open>Rounding and unpacking\<close>

definition overflow_result :: "u32 \<Rightarrow> sf64_rounding_mode \<Rightarrow> f64" where
  "overflow_result s m = (case m of
      SF64_RTZ \<Rightarrow> pack s 0x7FE kFracMask
    | SF64_RUP \<Rightarrow> if s = 0 then pack 0 0x7FF 0 else pack 1 0x7FE kFracMask
    | SF64_RDN \<Rightarrow> if s \<noteq> 0 then pack 1 0x7FF 0 else pack 0 0x7FE kFracMask
    | SF64_RNE \<Rightarrow> pack s 0x7FF 0
    | SF64_RNA \<Rightarrow> pack s 0x7FF 0)"

definition round_and_pack :: "u32 \<Rightarrow> int \<Rightarrow> u64 \<Rightarrow> sf64_rounding_mode \<Rightarrow> u32 \<Rightarrow> f64 \<times> u32" where
  "round_and_pack sign ex sig mode fe =
     (if 0x7FF \<le> ex then (overflow_result sign mode, fe OR (SF64_FE_OVERFLOW OR SF64_FE_INEXACT))
      else
        let was_tiny_before_rounding = (ex \<le> 0);
            sig = (if was_tiny_before_rounding then shift_right_jamming sig (1 - ex) else sig);
            ex = (if was_tiny_before_rounding then 0 else ex);
            round_bit = (drop_bit 8 sig AND 1 \<noteq> 0);
            sticky = (sig AND 0xFF \<noteq> 0);
            lsb = (drop_bit 9 sig AND 1 \<noteq> 0);
            inexact = (round_bit \<or> sticky);
            rounded = (if sf64_internal_should_round_up sign round_bit sticky lsb mode
                       then sig + push_bit 9 1 else sig);
            carry = (drop_bit 62 rounded AND 1 \<noteq> 0);
            rounded = (if carry then shift_right_jamming rounded 1 else rounded);
            ex = (if carry then ex + 1 else ex)
        in if carry \<and> 0x7FF \<le> ex
           then (overflow_result sign mode, fe OR (SF64_FE_OVERFLOW OR SF64_FE_INEXACT))
           else
             let mantissa = drop_bit 9 rounded AND kFracMask;
                 implicit_set = (drop_bit 61 rounded AND 1 \<noteq> 0);
                 final_exp = (if ex = 0 then (if implicit_set then 1 else 0)
                              else (if \<not> implicit_set \<and> mantissa = 0 then 0 else word_of_int ex));
                 fe = (if inexact
                       then (if was_tiny_before_rounding then fe OR (SF64_FE_UNDERFLOW OR SF64_FE_INEXACT)
                             else fe OR SF64_FE_INEXACT)
                       else fe)
             in (pack sign final_exp mantissa, fe))"

record NormalisedSubnormal =
  ns_sig :: u64
  ns_shift :: int

definition normalise_subnormal :: "u64 \<Rightarrow> NormalisedSubnormal" where
  "normalise_subnormal fr =
     (let lz = clz64 fr; shift = lz - 11
      in \<lparr>ns_sig = push_bit (nat shift) fr, ns_shift = shift\<rparr>)"

record Unpacked =
  up_sign :: u32
  up_exp :: int
  up_sig :: u64

definition unpack_finite_nonzero :: "u64 \<Rightarrow> Unpacked" where
  "unpack_finite_nonzero bits =
     (let raw_exp = extract_exp bits; fr = extract_frac bits
      in if raw_exp = 0
         then (let n = normalise_subnormal fr
               in \<lparr>up_sign = extract_sign bits, up_exp = 1 - ns_shift n, up_sig = push_bit 9 (ns_sig n)\<rparr>)
         else \<lparr>up_sign = extract_sign bits, up_exp = uint raw_exp, up_sig = push_bit 9 (fr OR kImplicitBit)\<rparr>)"

section \<open>The magnitude operations\<close>

definition add_magnitudes :: "u32 \<Rightarrow> u64 \<Rightarrow> u64 \<Rightarrow> sf64_rounding_mode \<Rightarrow> u32 \<Rightarrow> f64 \<times> u32" where
  "add_magnitudes sign a_bits b_bits mode fe =
     (let a = unpack_finite_nonzero a_bits; b = unpack_finite_nonzero b_bits;
          exp_diff = up_exp a - up_exp b;
          (sig_a, sig_b, ex) =
            (if 0 < exp_diff then (up_sig a, shift_right_jamming (up_sig b) exp_diff, up_exp a)
             else if exp_diff < 0 then (shift_right_jamming (up_sig a) (- exp_diff), up_sig b, up_exp b)
             else (up_sig a, up_sig b, up_exp a));
          sum = sig_a + sig_b
      in if drop_bit 62 sum AND 1 \<noteq> 0
         then round_and_pack sign (ex + 1) (shift_right_jamming sum 1) mode fe
         else round_and_pack sign ex sum mode fe)"

definition sub_magnitudes ::
    "u32 \<Rightarrow> u64 \<Rightarrow> u64 \<Rightarrow> u32 \<Rightarrow> sf64_rounding_mode \<Rightarrow> u32 \<Rightarrow> f64 \<times> u32" where
  "sub_magnitudes a_sign a_bits b_bits zero_sign mode fe =
     (let a = unpack_finite_nonzero a_bits; b = unpack_finite_nonzero b_bits;
          exp_diff = up_exp a - up_exp b
      in if exp_diff = 0 \<and> up_sig a = up_sig b then (make_signed_zero zero_sign, fe)
         else
           let (sig_a, sig_b, ex, sign) =
                 (if 0 < exp_diff
                  then (up_sig a, shift_right_jamming (up_sig b) exp_diff, up_exp a, a_sign)
                  else if exp_diff < 0
                  then (up_sig b, shift_right_jamming (up_sig a) (- exp_diff), up_exp b, a_sign XOR 1)
                  else if up_sig b < up_sig a then (up_sig a, up_sig b, up_exp a, a_sign)
                  else (up_sig b, up_sig a, up_exp a, a_sign XOR 1));
               diff = sig_a - sig_b
           in if diff = 0 then (make_signed_zero zero_sign, fe)
              else
                let lz = clz64 diff; norm_shift = lz - 2
                in round_and_pack sign (ex - norm_shift) (push_bit (nat norm_shift) diff) mode fe)"

definition mul_impl :: "u64 \<Rightarrow> u64 \<Rightarrow> u32 \<Rightarrow> sf64_rounding_mode \<Rightarrow> u32 \<Rightarrow> f64 \<times> u32" where
  "mul_impl ab bb r_sign mode fe =
     (let ua = unpack_finite_nonzero ab; ub = unpack_finite_nonzero bb;
          sig_a = drop_bit 9 (up_sig ua); sig_b = drop_bit 9 (up_sig ub);
          product = u128_mul (u128_of sig_a) (u128_of sig_b);
          exp_r = up_exp ua + up_exp ub - kExpBias
      in if u128_nonzero (u128_and (u128_shr product 105) (u128_of 1))
         then
           let shift = 44;
               lost_mask = u128_sub (u128_shl (u128_of 1) shift) (u128_of 1);
               sticky = u128_nonzero (u128_and product lost_mask);
               sig = u_lo (u128_shr product shift);
               sig = (if sticky then sig OR 1 else sig)
           in round_and_pack r_sign (exp_r + 1) sig mode fe
         else
           let shift = 43;
               lost_mask = u128_sub (u128_shl (u128_of 1) shift) (u128_of 1);
               sticky = u128_nonzero (u128_and product lost_mask);
               sig = u_lo (u128_shr product shift);
               sig = (if sticky then sig OR 1 else sig)
           in round_and_pack r_sign exp_r sig mode fe)"

definition div_impl :: "u64 \<Rightarrow> u64 \<Rightarrow> u32 \<Rightarrow> sf64_rounding_mode \<Rightarrow> u32 \<Rightarrow> f64 \<times> u32" where
  "div_impl ab bb r_sign mode fe =
     (let ua = unpack_finite_nonzero ab; ub = unpack_finite_nonzero bb;
          sig_a = drop_bit 9 (up_sig ua); sig_b = drop_bit 9 (up_sig ub);
          exp_r = up_exp ua - up_exp ub + kExpBias;
          (sig_a, exp_r) = (if sig_a < sig_b then (push_bit 1 sig_a, exp_r - 1) else (sig_a, exp_r));
          num = u128_shl (u128_of sig_a) 55;
          (quotient, remainder) = divmod_u128_u64 num sig_b;
          sig = push_bit 6 quotient;
          sig = (if remainder \<noteq> 0 then sig OR 1 else sig)
      in if drop_bit 62 sig AND 1 \<noteq> 0
         then round_and_pack r_sign (exp_r + 1) (shift_right_jamming sig 1) mode fe
         else round_and_pack r_sign exp_r sig mode fe)"

section \<open>The operations\<close>

definition sf64_neg :: "f64 \<Rightarrow> f64" where
  "sf64_neg a = a XOR kSignMask"

text \<open>The NaN dispatch every two-operand body opens with.\<close>

definition nan_dispatch :: "f64 \<Rightarrow> f64 \<Rightarrow> u32 \<Rightarrow> f64 \<times> u32" where
  "nan_dispatch ab bb fe =
     (propagate_nan ab bb, if is_snan_bits ab \<or> is_snan_bits bb then fe OR SF64_FE_INVALID else fe)"

definition add_r_impl :: "f64 \<Rightarrow> f64 \<Rightarrow> sf64_rounding_mode \<Rightarrow> u32 \<Rightarrow> f64 \<times> u32" where
  "add_r_impl a b mode fe =
     (let a_exp = extract_exp a; b_exp = extract_exp b;
          a_sign = extract_sign a; b_sign = extract_sign b
      in if is_nan_bits a \<or> is_nan_bits b then nan_dispatch a b fe
         else if a_exp = kExpMax \<or> b_exp = kExpMax then
           (let a_inf = (a_exp = kExpMax); b_inf = (b_exp = kExpMax)
            in if a_inf \<and> b_inf then
                 (if a_sign = b_sign then (make_signed_inf a_sign, fe)
                  else (canonical_nan, fe OR SF64_FE_INVALID))
               else (if a_inf then make_signed_inf a_sign else make_signed_inf b_sign, fe))
         else
           let a_zero = is_zero_bits a; b_zero = is_zero_bits b
           in if a_zero \<and> b_zero then
                (if a_sign = b_sign then (make_signed_zero a_sign, fe)
                 else (make_signed_zero (if mode = SF64_RDN then 1 else 0), fe))
              else if a_zero then (b, fe)
              else if b_zero then (a, fe)
              else if a_sign = b_sign then add_magnitudes a_sign a b mode fe
              else sub_magnitudes a_sign a b (if mode = SF64_RDN then 1 else 0) mode fe)"

text \<open>\<open>SOFT_FP64_SNAN_PROPAGATE\<close> is a build option, the first argument.\<close>

definition sub_r_impl :: "bool \<Rightarrow> f64 \<Rightarrow> f64 \<Rightarrow> sf64_rounding_mode \<Rightarrow> u32 \<Rightarrow> f64 \<times> u32" where
  "sub_r_impl snan_propagate a b mode fe =
     (if snan_propagate \<and> (is_nan_bits a \<or> is_nan_bits b) then nan_dispatch a b fe
      else add_r_impl a (sf64_neg b) mode fe)"

definition mul_r_impl :: "f64 \<Rightarrow> f64 \<Rightarrow> sf64_rounding_mode \<Rightarrow> u32 \<Rightarrow> f64 \<times> u32" where
  "mul_r_impl a b mode fe =
     (let r_sign = extract_sign a XOR extract_sign b;
          a_exp = extract_exp a; b_exp = extract_exp b
      in if is_nan_bits a \<or> is_nan_bits b then nan_dispatch a b fe
         else if a_exp = kExpMax \<or> b_exp = kExpMax then
           (if is_zero_bits a \<or> is_zero_bits b then (canonical_nan, fe OR SF64_FE_INVALID)
            else (make_signed_inf r_sign, fe))
         else if is_zero_bits a \<or> is_zero_bits b then (make_signed_zero r_sign, fe)
         else mul_impl a b r_sign mode fe)"

definition div_r_impl :: "f64 \<Rightarrow> f64 \<Rightarrow> sf64_rounding_mode \<Rightarrow> u32 \<Rightarrow> f64 \<times> u32" where
  "div_r_impl a b mode fe =
     (let r_sign = extract_sign a XOR extract_sign b;
          a_exp = extract_exp a; b_exp = extract_exp b
      in if is_nan_bits a \<or> is_nan_bits b then nan_dispatch a b fe
         else
           let a_inf = (a_exp = kExpMax); b_inf = (b_exp = kExpMax)
           in if a_inf \<and> b_inf then (canonical_nan, fe OR SF64_FE_INVALID)
              else if a_inf then (make_signed_inf r_sign, fe)
              else if b_inf then (make_signed_zero r_sign, fe)
              else
                let a_zero = is_zero_bits a; b_zero = is_zero_bits b
                in if a_zero \<and> b_zero then (canonical_nan, fe OR SF64_FE_INVALID)
                   else if b_zero then (make_signed_inf r_sign, fe OR SF64_FE_DIVBYZERO)
                   else if a_zero then (make_signed_zero r_sign, fe)
                   else div_impl a b r_sign mode fe)"

text \<open>
  The remainder loop from \<open>k\<close> down to 0: subtract the divisor when it fits; a zero residual ends
  it early, otherwise the residual moves to the next position.
\<close>

fun rem_loop :: "nat \<Rightarrow> u64 \<Rightarrow> u64 \<Rightarrow> u64" where
  "rem_loop 0 sig_a sig_b = (if sig_b \<le> sig_a then sig_a - sig_b else sig_a)"
| "rem_loop (Suc k) sig_a sig_b =
     (let sig_a = (if sig_b \<le> sig_a then sig_a - sig_b else sig_a)
      in if sig_a = 0 then 0 else rem_loop k (push_bit 1 sig_a) sig_b)"

definition rem_impl :: "f64 \<Rightarrow> f64 \<Rightarrow> u32 \<Rightarrow> f64 \<times> u32" where
  "rem_impl a b fe =
     (let a_exp = extract_exp a; b_exp = extract_exp b
      in if is_nan_bits a \<or> is_nan_bits b then nan_dispatch a b fe
         else if a_exp = kExpMax then (canonical_nan, fe OR SF64_FE_INVALID)
         else if is_zero_bits b then (canonical_nan, fe OR SF64_FE_INVALID)
         else if b_exp = kExpMax then (a, fe)
         else if is_zero_bits a then (a, fe)
         else
           let a_sign = extract_sign a;
               ua = unpack_finite_nonzero a; ub = unpack_finite_nonzero b;
               sig_a = drop_bit 9 (up_sig ua); sig_b = drop_bit 9 (up_sig ub);
               exp_a = up_exp ua; exp_b = up_exp ub
           in if exp_a < exp_b \<or> (exp_a = exp_b \<and> sig_a < sig_b) then (a, fe)
              else
                let sig_a = rem_loop (nat (exp_a - exp_b)) sig_a sig_b
                in if sig_a = 0 then (make_signed_zero a_sign, fe)
                   else
                     let shift = (63 - clz64 sig_a) - 52;
                         (sig_r, exp_r) =
                           (if 0 < shift then (drop_bit (nat shift) sig_a, exp_b + shift)
                            else (push_bit (nat (- shift)) sig_a, exp_b - (- shift)))
                     in round_and_pack a_sign exp_r (push_bit 9 sig_r) SF64_RNE fe)"

section \<open>The round-to-nearest-even specializations\<close>

definition arith_unpack_finite_nonzero :: "u64 \<Rightarrow> Unpacked" where
  "arith_unpack_finite_nonzero bits =
     (let raw_exp = extract_exp bits; fr = extract_frac bits
      in if raw_exp = 0
         then (let lz = clz64 fr; shift = lz - 11
               in \<lparr>up_sign = extract_sign bits, up_exp = 1 - shift,
                   up_sig = push_bit 9 (push_bit (nat shift) fr)\<rparr>)
         else \<lparr>up_sign = extract_sign bits, up_exp = uint raw_exp, up_sig = push_bit 9 (fr OR kImplicitBit)\<rparr>)"

definition arith_round_and_pack_rne :: "u32 \<Rightarrow> int \<Rightarrow> u64 \<Rightarrow> u32 \<Rightarrow> f64 \<times> u32" where
  "arith_round_and_pack_rne sign ex sig fe =
     (if 0x7FF \<le> ex then (pack sign 0x7FF 0, fe OR (SF64_FE_OVERFLOW OR SF64_FE_INEXACT))
      else
        let was_tiny_before_rounding = (ex \<le> 0);
            sig = (if was_tiny_before_rounding then shift_right_jamming sig (1 - ex) else sig);
            ex = (if was_tiny_before_rounding then 0 else ex);
            round_bit = (drop_bit 8 sig AND 1 \<noteq> 0);
            sticky = (sig AND 0xFF \<noteq> 0);
            lsb = (drop_bit 9 sig AND 1 \<noteq> 0);
            inexact = (round_bit \<or> sticky);
            rounded = (if round_bit \<and> (sticky \<or> lsb) then sig + push_bit 9 1 else sig);
            carry = (drop_bit 62 rounded AND 1 \<noteq> 0);
            rounded = (if carry then shift_right_jamming rounded 1 else rounded);
            ex = (if carry then ex + 1 else ex)
        in if carry \<and> 0x7FF \<le> ex
           then (pack sign 0x7FF 0, fe OR (SF64_FE_OVERFLOW OR SF64_FE_INEXACT))
           else
             let mantissa = drop_bit 9 rounded AND kFracMask;
                 implicit_set = (drop_bit 61 rounded AND 1 \<noteq> 0);
                 final_exp = (if ex = 0 then (if implicit_set then 1 else 0)
                              else (if \<not> implicit_set \<and> mantissa = 0 then 0 else word_of_int ex));
                 fe = (if inexact
                       then (if was_tiny_before_rounding then fe OR (SF64_FE_UNDERFLOW OR SF64_FE_INEXACT)
                             else fe OR SF64_FE_INEXACT)
                       else fe)
             in (pack sign final_exp mantissa, fe))"

definition arith_add_magnitudes_rne :: "u32 \<Rightarrow> u64 \<Rightarrow> u64 \<Rightarrow> u32 \<Rightarrow> f64 \<times> u32" where
  "arith_add_magnitudes_rne sign a_bits b_bits fe =
     (let a = arith_unpack_finite_nonzero a_bits; b = arith_unpack_finite_nonzero b_bits;
          exp_diff = up_exp a - up_exp b;
          (sig_a, sig_b, ex) =
            (if 0 < exp_diff then (up_sig a, shift_right_jamming (up_sig b) exp_diff, up_exp a)
             else if exp_diff < 0 then (shift_right_jamming (up_sig a) (- exp_diff), up_sig b, up_exp b)
             else (up_sig a, up_sig b, up_exp a));
          sum = sig_a + sig_b
      in if drop_bit 62 sum AND 1 \<noteq> 0
         then arith_round_and_pack_rne sign (ex + 1) (shift_right_jamming sum 1) fe
         else arith_round_and_pack_rne sign ex sum fe)"

definition arith_sub_magnitudes_rne :: "u32 \<Rightarrow> u64 \<Rightarrow> u64 \<Rightarrow> u32 \<Rightarrow> f64 \<times> u32" where
  "arith_sub_magnitudes_rne a_sign a_bits b_bits fe =
     (let a = arith_unpack_finite_nonzero a_bits; b = arith_unpack_finite_nonzero b_bits;
          exp_diff = up_exp a - up_exp b
      in if exp_diff = 0 \<and> up_sig a = up_sig b then (make_signed_zero 0, fe)
         else
           let (sig_a, sig_b, ex, sign) =
                 (if 0 < exp_diff
                  then (up_sig a, shift_right_jamming (up_sig b) exp_diff, up_exp a, a_sign)
                  else if exp_diff < 0
                  then (up_sig b, shift_right_jamming (up_sig a) (- exp_diff), up_exp b, a_sign XOR 1)
                  else if up_sig b < up_sig a then (up_sig a, up_sig b, up_exp a, a_sign)
                  else (up_sig b, up_sig a, up_exp a, a_sign XOR 1));
               diff = sig_a - sig_b
           in if diff = 0 then (make_signed_zero 0, fe)
              else
                let lz = clz64 diff; norm_shift = lz - 2
                in arith_round_and_pack_rne sign (ex - norm_shift) (push_bit (nat norm_shift) diff) fe)"

definition arith_mul_core_rne :: "u64 \<Rightarrow> u64 \<Rightarrow> u32 \<Rightarrow> u32 \<Rightarrow> f64 \<times> u32" where
  "arith_mul_core_rne ab bb r_sign fe =
     (let ua = arith_unpack_finite_nonzero ab; ub = arith_unpack_finite_nonzero bb;
          sig_a = drop_bit 9 (up_sig ua); sig_b = drop_bit 9 (up_sig ub);
          product = u128_mul (u128_of sig_a) (u128_of sig_b);
          exp_r = up_exp ua + up_exp ub - kExpBias
      in if u128_nonzero (u128_and (u128_shr product 105) (u128_of 1))
         then
           let shift = 44;
               lost_mask = u128_sub (u128_shl (u128_of 1) shift) (u128_of 1);
               sticky = u128_nonzero (u128_and product lost_mask);
               sig = u_lo (u128_shr product shift);
               sig = (if sticky then sig OR 1 else sig)
           in arith_round_and_pack_rne r_sign (exp_r + 1) sig fe
         else
           let shift = 43;
               lost_mask = u128_sub (u128_shl (u128_of 1) shift) (u128_of 1);
               sticky = u128_nonzero (u128_and product lost_mask);
               sig = u_lo (u128_shr product shift);
               sig = (if sticky then sig OR 1 else sig)
           in arith_round_and_pack_rne r_sign exp_r sig fe)"

definition arith_div_core_rne :: "u64 \<Rightarrow> u64 \<Rightarrow> u32 \<Rightarrow> u32 \<Rightarrow> f64 \<times> u32" where
  "arith_div_core_rne ab bb r_sign fe =
     (let ua = arith_unpack_finite_nonzero ab; ub = arith_unpack_finite_nonzero bb;
          sig_a = drop_bit 9 (up_sig ua); sig_b = drop_bit 9 (up_sig ub);
          exp_r = up_exp ua - up_exp ub + kExpBias;
          (sig_a, exp_r) = (if sig_a < sig_b then (push_bit 1 sig_a, exp_r - 1) else (sig_a, exp_r));
          num = u128_shl (u128_of sig_a) 55;
          (quotient, remainder) = divmod_u128_u64 num sig_b;
          sig = push_bit 6 quotient;
          sig = (if remainder \<noteq> 0 then sig OR 1 else sig)
      in if drop_bit 62 sig AND 1 \<noteq> 0
         then arith_round_and_pack_rne r_sign (exp_r + 1) (shift_right_jamming sig 1) fe
         else arith_round_and_pack_rne r_sign exp_r sig fe)"

definition sf64_internal_add_rne :: "f64 \<Rightarrow> f64 \<Rightarrow> u32 \<Rightarrow> f64 \<times> u32" where
  "sf64_internal_add_rne a b fe =
     (let a_exp = extract_exp a; b_exp = extract_exp b;
          a_sign = extract_sign a; b_sign = extract_sign b
      in if is_nan_bits a \<or> is_nan_bits b then nan_dispatch a b fe
         else if a_exp = kExpMax \<or> b_exp = kExpMax then
           (let a_inf = (a_exp = kExpMax); b_inf = (b_exp = kExpMax)
            in if a_inf \<and> b_inf then
                 (if a_sign = b_sign then (make_signed_inf a_sign, fe)
                  else (canonical_nan, fe OR SF64_FE_INVALID))
               else (if a_inf then make_signed_inf a_sign else make_signed_inf b_sign, fe))
         else
           let a_zero = is_zero_bits a; b_zero = is_zero_bits b
           in if a_zero \<and> b_zero then
                (if a_sign = b_sign then (make_signed_zero a_sign, fe) else (make_signed_zero 0, fe))
              else if a_zero then (b, fe)
              else if b_zero then (a, fe)
              else if a_sign = b_sign then arith_add_magnitudes_rne a_sign a b fe
              else arith_sub_magnitudes_rne a_sign a b fe)"

definition sf64_internal_sub_rne :: "bool \<Rightarrow> f64 \<Rightarrow> f64 \<Rightarrow> u32 \<Rightarrow> f64 \<times> u32" where
  "sf64_internal_sub_rne snan_propagate a b fe =
     (if snan_propagate \<and> (is_nan_bits a \<or> is_nan_bits b) then nan_dispatch a b fe
      else sf64_internal_add_rne a (b XOR kSignMask) fe)"

definition sf64_internal_mul_rne :: "f64 \<Rightarrow> f64 \<Rightarrow> u32 \<Rightarrow> f64 \<times> u32" where
  "sf64_internal_mul_rne a b fe =
     (let r_sign = extract_sign a XOR extract_sign b;
          a_exp = extract_exp a; b_exp = extract_exp b
      in if is_nan_bits a \<or> is_nan_bits b then nan_dispatch a b fe
         else if a_exp = kExpMax \<or> b_exp = kExpMax then
           (if is_zero_bits a \<or> is_zero_bits b then (canonical_nan, fe OR SF64_FE_INVALID)
            else (make_signed_inf r_sign, fe))
         else if is_zero_bits a \<or> is_zero_bits b then (make_signed_zero r_sign, fe)
         else arith_mul_core_rne a b r_sign fe)"

definition sf64_internal_div_rne :: "f64 \<Rightarrow> f64 \<Rightarrow> u32 \<Rightarrow> f64 \<times> u32" where
  "sf64_internal_div_rne a b fe =
     (let r_sign = extract_sign a XOR extract_sign b;
          a_exp = extract_exp a; b_exp = extract_exp b
      in if is_nan_bits a \<or> is_nan_bits b then nan_dispatch a b fe
         else
           let a_inf = (a_exp = kExpMax); b_inf = (b_exp = kExpMax)
           in if a_inf \<and> b_inf then (canonical_nan, fe OR SF64_FE_INVALID)
              else if a_inf then (make_signed_inf r_sign, fe)
              else if b_inf then (make_signed_zero r_sign, fe)
              else
                let a_zero = is_zero_bits a; b_zero = is_zero_bits b
                in if a_zero \<and> b_zero then (canonical_nan, fe OR SF64_FE_INVALID)
                   else if b_zero then (make_signed_inf r_sign, fe OR SF64_FE_DIVBYZERO)
                   else if a_zero then (make_signed_zero r_sign, fe)
                   else arith_div_core_rne a b r_sign fe)"

definition sf64_internal_neg :: "f64 \<Rightarrow> f64" where
  "sf64_internal_neg a = a XOR kSignMask"

section \<open>The public entries\<close>

type_synonym 'r entry = "fenv_mode \<Rightarrow> tid \<Rightarrow> fenv_world \<Rightarrow> 'r \<times> fenv_world"

definition sf64_add :: "f64 \<Rightarrow> f64 \<Rightarrow> f64 entry" where
  "sf64_add a b m t = entry_default m t (sf64_internal_add_rne a b 0)"

definition sf64_add_r :: "sf64_rounding_mode \<Rightarrow> f64 \<Rightarrow> f64 \<Rightarrow> f64 entry" where
  "sf64_add_r mode a b m t = entry_default m t (add_r_impl a b mode 0)"

definition sf64_sub :: "bool \<Rightarrow> f64 \<Rightarrow> f64 \<Rightarrow> f64 entry" where
  "sf64_sub snan a b m t = entry_default m t (sf64_internal_sub_rne snan a b 0)"

definition sf64_sub_r :: "bool \<Rightarrow> sf64_rounding_mode \<Rightarrow> f64 \<Rightarrow> f64 \<Rightarrow> f64 entry" where
  "sf64_sub_r snan mode a b m t = entry_default m t (sub_r_impl snan a b mode 0)"

definition sf64_mul :: "f64 \<Rightarrow> f64 \<Rightarrow> f64 entry" where
  "sf64_mul a b m t = entry_default m t (sf64_internal_mul_rne a b 0)"

definition sf64_mul_r :: "sf64_rounding_mode \<Rightarrow> f64 \<Rightarrow> f64 \<Rightarrow> f64 entry" where
  "sf64_mul_r mode a b m t = entry_default m t (mul_r_impl a b mode 0)"

definition sf64_div :: "f64 \<Rightarrow> f64 \<Rightarrow> f64 entry" where
  "sf64_div a b m t = entry_default m t (sf64_internal_div_rne a b 0)"

definition sf64_div_r :: "sf64_rounding_mode \<Rightarrow> f64 \<Rightarrow> f64 \<Rightarrow> f64 entry" where
  "sf64_div_r mode a b m t = entry_default m t (div_r_impl a b mode 0)"

definition sf64_rem :: "f64 \<Rightarrow> f64 \<Rightarrow> f64 entry" where
  "sf64_rem a b m t = entry_default m t (rem_impl a b 0)"

definition sf64_add_ex :: "f64 \<Rightarrow> f64 \<Rightarrow> state_ptr \<Rightarrow> f64 entry" where
  "sf64_add_ex a b state m t = entry_ex m t state (sf64_internal_add_rne a b 0)"

definition sf64_add_r_ex :: "sf64_rounding_mode \<Rightarrow> f64 \<Rightarrow> f64 \<Rightarrow> state_ptr \<Rightarrow> f64 entry" where
  "sf64_add_r_ex mode a b state m t = entry_ex m t state (add_r_impl a b mode 0)"

definition sf64_sub_ex :: "bool \<Rightarrow> f64 \<Rightarrow> f64 \<Rightarrow> state_ptr \<Rightarrow> f64 entry" where
  "sf64_sub_ex snan a b state m t = entry_ex m t state (sf64_internal_sub_rne snan a b 0)"

definition sf64_sub_r_ex :: "bool \<Rightarrow> sf64_rounding_mode \<Rightarrow> f64 \<Rightarrow> f64 \<Rightarrow> state_ptr \<Rightarrow> f64 entry" where
  "sf64_sub_r_ex snan mode a b state m t = entry_ex m t state (sub_r_impl snan a b mode 0)"

definition sf64_mul_ex :: "f64 \<Rightarrow> f64 \<Rightarrow> state_ptr \<Rightarrow> f64 entry" where
  "sf64_mul_ex a b state m t = entry_ex m t state (sf64_internal_mul_rne a b 0)"

definition sf64_mul_r_ex :: "sf64_rounding_mode \<Rightarrow> f64 \<Rightarrow> f64 \<Rightarrow> state_ptr \<Rightarrow> f64 entry" where
  "sf64_mul_r_ex mode a b state m t = entry_ex m t state (mul_r_impl a b mode 0)"

definition sf64_div_ex :: "f64 \<Rightarrow> f64 \<Rightarrow> state_ptr \<Rightarrow> f64 entry" where
  "sf64_div_ex a b state m t = entry_ex m t state (sf64_internal_div_rne a b 0)"

definition sf64_div_r_ex :: "sf64_rounding_mode \<Rightarrow> f64 \<Rightarrow> f64 \<Rightarrow> state_ptr \<Rightarrow> f64 entry" where
  "sf64_div_r_ex mode a b state m t = entry_ex m t state (div_r_impl a b mode 0)"

section \<open>The specializations are the generic bodies at nearest-even\<close>

lemma arith_unpack_eq: "arith_unpack_finite_nonzero = unpack_finite_nonzero"
  by (rule ext) (simp add: arith_unpack_finite_nonzero_def unpack_finite_nonzero_def normalise_subnormal_def Let_def)

lemma arith_round_and_pack_eq: "arith_round_and_pack_rne sign ex sig fe = round_and_pack sign ex sig SF64_RNE fe"
  unfolding arith_round_and_pack_rne_def round_and_pack_def overflow_result_def
    sf64_internal_should_round_up_def sf64_rounding_mode.case ..

lemmas arith_eqs = arith_unpack_eq arith_round_and_pack_eq

lemma arith_add_magnitudes_eq: "arith_add_magnitudes_rne s a b fe = add_magnitudes s a b SF64_RNE fe"
  unfolding arith_add_magnitudes_rne_def add_magnitudes_def arith_eqs ..

lemma arith_sub_magnitudes_eq: "arith_sub_magnitudes_rne s a b fe = sub_magnitudes s a b 0 SF64_RNE fe"
  unfolding arith_sub_magnitudes_rne_def sub_magnitudes_def arith_eqs ..

lemma arith_mul_core_eq: "arith_mul_core_rne a b s fe = mul_impl a b s SF64_RNE fe"
  unfolding arith_mul_core_rne_def mul_impl_def arith_eqs ..

lemma arith_div_core_eq: "arith_div_core_rne a b s fe = div_impl a b s SF64_RNE fe"
  unfolding arith_div_core_rne_def div_impl_def arith_eqs ..

lemma internal_add_rne_eq: "sf64_internal_add_rne a b fe = add_r_impl a b SF64_RNE fe"
  unfolding sf64_internal_add_rne_def add_r_impl_def arith_add_magnitudes_eq arith_sub_magnitudes_eq by simp

lemma internal_sub_rne_eq: "sf64_internal_sub_rne snan a b fe = sub_r_impl snan a b SF64_RNE fe"
  unfolding sf64_internal_sub_rne_def sub_r_impl_def internal_add_rne_eq sf64_neg_def ..

lemma internal_mul_rne_eq: "sf64_internal_mul_rne a b fe = mul_r_impl a b SF64_RNE fe"
  unfolding sf64_internal_mul_rne_def mul_r_impl_def arith_mul_core_eq ..

lemma internal_div_rne_eq: "sf64_internal_div_rne a b fe = div_r_impl a b SF64_RNE fe"
  unfolding sf64_internal_div_rne_def div_r_impl_def arith_div_core_eq ..

end
