(* ===== verification/Sf_Round.thy ===== *)
theory Sf_Round
  imports Sf_Arith
begin

text \<open>
  What the bodies of \<open>Sf_Arith\<close> compute: \<open>round_and_pack\<close> is correct rounding to binary64
  (\<open>round_and_pack_correct\<close>), unpacking reads the value, and add, subtract, multiply, divide and
  remainder of finite operands are the exact real operation rounded once.  The specification of a
  rounded result, \<open>round64\<close>, is shared by every component that rounds.
\<close>

section \<open>Rounding and packing is correct rounding\<close>

lemma overflow_result_enc64:
  assumes "s = 0 \<or> s = 1"
  shows "overflow_result s m = enc64 (s \<noteq> 0) (overflow_mag 52 2047 m (s \<noteq> 0))"
  using assms by (cases m)
    (auto simp: overflow_result_def overflow_mag_def rounds_down_def pack_enc64 kFracMask_def)

lemma unat_incremented:
  fixes w :: u64
  assumes "unat w < 2 ^ 62"
  shows "unat (if b then w + push_bit 9 1 else w) = unat w + 512 * of_bool b"
  using assms by (auto simp: unat_add_lt unat_push_bit)

lemma round_and_pack_nat:
  fixes S n :: nat and m :: sf64_rounding_mode
  assumes s: "s = 0 \<or> s = 1" and sig: "2 ^ 61 \<le> unat sig" "unat sig < 2 ^ 62" and ex: "ex < 2047"
  defines "S \<equiv> (if ex \<le> 0 then jam (unat sig) (nat (1 - ex)) else unat sig)"
  defines "n \<equiv> nat (ex - 1) * 2 ^ 52 + round_bits m (s \<noteq> 0) 8 S"
  shows "round_and_pack s ex sig m fe =
    (if 2047 * 2 ^ 52 \<le> n then (overflow_result s m, fe OR (SF64_FE_OVERFLOW OR SF64_FE_INEXACT))
     else (enc64 (s \<noteq> 0) n, fe OR (if S mod 2 ^ 9 = 0 then 0
             else if ex \<le> 0 then SF64_FE_UNDERFLOW OR SF64_FE_INEXACT else SF64_FE_INEXACT)))"
proof -
  define tiny where "tiny \<longleftrightarrow> ex \<le> 0"
  define sg where "sg = (if tiny then shift_right_jamming sig (1 - ex) else sig)"
  define e0 where "e0 = (if tiny then 0 else ex)"
  have S: "unat sg = S" by (simp add: sg_def S_def tiny_def unat_shift_right_jamming)
  have Sb: "S < 2 ^ 62" "tiny \<Longrightarrow> S \<le> 2 ^ 61" "\<not> tiny \<Longrightarrow> 2 ^ 61 \<le> S"
  proof -
    show t: "S \<le> 2 ^ 61" if "tiny"
    proof -
      have "(2::nat) ^ 1 \<le> 2 ^ nat (1 - ex)" using that by (intro power_increasing) (auto simp: tiny_def)
      then have "unat sig < 2 ^ 61 * 2 ^ nat (1 - ex)" using sig(2) by simp
      then have "unat sig div 2 ^ nat (1 - ex) < 2 ^ 61" by (simp add: div_less_iff_less_mult)
      then show ?thesis using jam_le [of "unat sig" "nat (1 - ex)"] that by (simp add: S_def tiny_def)
    qed
    show "S < 2 ^ 62" using t sig by (cases tiny) (simp_all add: S_def tiny_def)
    show "2 ^ 61 \<le> S" if "\<not> tiny" using that sig by (simp add: S_def tiny_def)
  qed
  define rb where "rb \<longleftrightarrow> drop_bit 8 sg AND 1 \<noteq> 0"
  define st where "st \<longleftrightarrow> sg AND 0xFF \<noteq> 0"
  define lsb where "lsb \<longleftrightarrow> drop_bit 9 sg AND 1 \<noteq> 0"
  have m8: "(0xFF :: u64) = mask 8" by (simp add: mask_eq_exp_minus_1)
  have bits: "rb \<longleftrightarrow> odd (S div 2 ^ 8)" "st \<longleftrightarrow> S mod 2 ^ 8 \<noteq> 0" "lsb \<longleftrightarrow> odd (S div 2 ^ Suc 8)"
    unfolding rb_def st_def lsb_def m8 by (simp_all add: and_1_neq_0_iff and_mask_neq_0 unat_drop_bit S)
  define inc where "inc \<longleftrightarrow> sf64_internal_should_round_up s rb st lsb m"
  define r where "r = (if inc then sg + push_bit 9 1 else sg)"
  define K where "K = round_bits m (s \<noteq> 0) 8 S"
  have r: "unat r = S + 512 * of_bool inc"
    unfolding r_def using unat_incremented [of sg inc] Sb(1) by (simp add: S)
  have K: "unat r div 2 ^ 9 = K"
    unfolding r K_def round_bits_def inc_def should_round_up_eq bits by simp
  have inexact: "rb \<or> st \<longleftrightarrow> S mod 2 ^ 9 \<noteq> 0"
  proof -
    have "S mod 2 ^ (8 + 1) = S mod 2 ^ 8 + 2 ^ 8 * (S div 2 ^ 8 mod 2 ^ 1)" by (rule mod_split)
    then show ?thesis unfolding bits by (auto simp: odd_iff_mod_2_eq_one)
  qed
  have rb63: "unat r < 2 ^ 63" using r Sb(1) by simp
  have carry: "drop_bit 62 r AND 1 \<noteq> 0 \<longleftrightarrow> 2 ^ 53 \<le> K"
  proof -
    have "drop_bit 62 r AND 1 \<noteq> 0 \<longleftrightarrow> 2 ^ 62 \<le> unat r"
      unfolding and_1_neq_0_iff unat_drop_bit using rb63 by (intro top_bit_iff) simp
    also have "\<dots> \<longleftrightarrow> 2 ^ 53 \<le> unat r div 2 ^ 9" by (simp add: less_eq_div_iff_mult_less_eq)
    finally show ?thesis unfolding K .
  qed
  have step: "round_and_pack s ex sig m fe =
     (let rounded = (if 2 ^ 53 \<le> K then shift_right_jamming r 1 else r);
          e1 = (if 2 ^ 53 \<le> K then e0 + 1 else e0)
      in if 2 ^ 53 \<le> K \<and> 0x7FF \<le> e1
         then (overflow_result s m, fe OR (SF64_FE_OVERFLOW OR SF64_FE_INEXACT))
         else
             let mantissa = drop_bit 9 rounded AND kFracMask;
                 implicit_set = (drop_bit 61 rounded AND 1 \<noteq> 0);
                 final_exp = (if e1 = 0 then (if implicit_set then 1 else 0)
                              else (if \<not> implicit_set \<and> mantissa = 0 then 0 else word_of_int e1));
                 fe = (if S mod 2 ^ 9 \<noteq> 0
                       then (if tiny then fe OR (SF64_FE_UNDERFLOW OR SF64_FE_INEXACT)
                             else fe OR SF64_FE_INEXACT)
                       else fe)
             in (pack s final_exp mantissa, fe))"
    using ex unfolding round_and_pack_def tiny_def [symmetric] Let_def
    unfolding sg_def [symmetric] e0_def [symmetric] rb_def [symmetric] st_def [symmetric] lsb_def [symmetric]
    unfolding inc_def [symmetric] r_def [symmetric] carry inexact by simp
  have Kb: "K \<le> 2 ^ 53" "tiny \<Longrightarrow> K \<le> 2 ^ 52" "\<not> tiny \<Longrightarrow> 2 ^ 52 \<le> K"
  proof -
    show "K \<le> 2 ^ 53" unfolding K_def using Sb(1) by (intro round_bits_le) simp
    show "2 ^ 52 \<le> K" if "\<not> tiny" unfolding K_def using Sb(3) [OF that] by (intro round_bits_ge) simp
    show "K \<le> 2 ^ 52" if tiny
    proof (cases "S = 2 ^ 61")
      case True
      then show ?thesis unfolding K_def by (subst round_bits_exact) simp_all
    next
      case False
      then show ?thesis unfolding K_def using Sb(2) [OF that] by (intro round_bits_le) simp
    qed
  qed
  have nK: "n = nat (ex - 1) * 2 ^ 52 + K" by (simp add: n_def K_def)
  have sodd: "odd (unat s) \<longleftrightarrow> s \<noteq> 0" using s by (rule sign_word_cases)
  show ?thesis
  proof (cases "2 ^ 53 \<le> K")
    case True
    then have K53: "K = 2 ^ 53" and nt: "\<not> tiny" using Kb by auto
    have ex1: "1 \<le> ex" using nt by (simp add: tiny_def)
    define r1 where "r1 = shift_right_jamming r 1"
    have rr: "2 ^ 62 \<le> unat r" "unat r < 2 ^ 62 + 512"
      using K K53 div_times_less_eq_dividend [of "unat r" "2 ^ 9"] dividend_less_div_times [of "2 ^ 9" "unat r"]
      by simp_all
    have r1: "unat r1 = jam (unat r) 1" by (simp add: r1_def unat_shift_right_jamming)
    have "2 ^ 61 \<le> unat r1" "unat r1 \<le> 2 ^ 61 + 256"
      using rr jam_ge [of "unat r" 1] jam_le [of "unat r" 1] unfolding r1 by simp_all
    then have "unat r1 div 2 ^ 9 = 2 ^ 52" "odd (unat r1 div 2 ^ 61)"
      using odd_div_pow_iff [of 61 "unat r1"] by (simp_all add: div_nat_eqI)
    then have mant: "unat (drop_bit 9 r1 AND kFracMask) = 0" and impl: "drop_bit 61 r1 AND 1 \<noteq> 0"
      by (simp_all add: field_masks and_1_neq_0_iff to_nat)
    have e: "unat (word_of_int (ex + 1) :: u32) = nat (ex + 1)" using ex ex1
      by (subst unat_word_of_int) simp_all
    have n: "n = nat (ex + 1) * 2 ^ 52" using ex1 by (simp add: nK K53 nat_diff_distrib' nat_add_distrib)
    show ?thesis
      using True ex1 nt impl mant ex e sodd unfolding step n r1_def [symmetric]
      by (auto simp: e0_def tiny_def [symmetric] pack_enc64 Let_def mod_less)
  next
    case False
    have final: "unat (if e0 = 0 then (if drop_bit 61 r AND 1 \<noteq> 0 then 1 else 0)
        else (if \<not> drop_bit 61 r AND 1 \<noteq> 0 \<and> drop_bit 9 r AND kFracMask = 0 then 0 else word_of_int e0) :: u32)
        mod 2 ^ 11 * 2 ^ 52 + unat (drop_bit 9 r AND kFracMask) mod 2 ^ 52 = n"
    proof -
      have "unat r div 2 ^ 9 < 2 ^ 53" using K False by simp
      then have "unat r < 2 ^ Suc 61" by (simp add: div_less_iff_less_mult)
      then have "drop_bit 61 r AND 1 \<noteq> 0 \<longleftrightarrow> 2 ^ 61 \<le> unat r"
        unfolding and_1_neq_0_iff unat_drop_bit by (rule top_bit_iff)
      also have "\<dots> \<longleftrightarrow> 2 ^ 52 \<le> unat r div 2 ^ 9" by (simp add: less_eq_div_iff_mult_less_eq)
      finally have impl: "drop_bit 61 r AND 1 \<noteq> 0 \<longleftrightarrow> 2 ^ 52 \<le> K" unfolding K .
      have mant: "unat (drop_bit 9 r AND kFracMask) = K mod 2 ^ 52"
        by (simp only: field_masks unat_and_mask unat_drop_bit K)
      show ?thesis
      proof (cases tiny)
        case True
        then have "n = K" "e0 = 0" by (simp_all add: nK e0_def tiny_def)
        then show ?thesis using Kb(2) [OF True] unfolding impl mant by (auto simp: le_less)
      next
        case nt: False
        then have e0: "e0 = ex" "1 \<le> ex" by (simp_all add: e0_def tiny_def)
        have "unat (word_of_int ex :: u32) = nat ex" using ex e0 by (subst unat_word_of_int) simp_all
        moreover have "K mod 2 ^ 52 = K - 2 ^ 52"
          using Kb(3) [OF nt] False by (simp add: le_mod_geq)
        moreover have "nat ex mod 2 ^ 11 = nat ex" using ex by simp
        ultimately show ?thesis using Kb(3) [OF nt] e0 unfolding impl mant nK
          by (simp add: nat_diff_distrib' algebra_simps)
      qed
    qed
    have small: "\<not> 2047 * 2 ^ 52 \<le> n"
    proof (cases tiny)
      case True
      then show ?thesis using Kb(2) by (simp add: nK tiny_def)
    next
      case nt: False
      have "nat (ex - 1) * 2 ^ 52 \<le> 2045 * 2 ^ 52" using ex by (intro mult_right_mono) simp_all
      then show ?thesis using False by (simp add: nK)
    qed
    show ?thesis
      unfolding step Let_def if_not_P [OF False] pack_enc64 final sodd
      using False small by (simp add: tiny_def [symmetric])
  qed
qed


text \<open>
  The main lemma: a normalized significand in the same cell as the exact scaled value \<open>y\<close> is
  rounded and packed to the correctly rounded encoding of \<open>x = y * 2 powi (ex - 1084)\<close>, with its
  flags, in every mode and for every exponent.
\<close>

lemma normalized_log:
  assumes "2 ^ 61 \<le> y" "y < 2 ^ 62" "x = y * 2 powi (ex - 1084)"
  shows "0 < x" "\<lfloor>log 2 x\<rfloor> = ex - 1023"
proof -
  show "0 < x" using assms by (simp add: zero_less_mult_iff order_less_le_trans [of 0 "2 ^ 61"])
  have p: "(2::real) powi (ex - 1023) = 2 ^ 61 * 2 powi (ex - 1084)"
    "(2::real) powi (ex - 1023 + 1) = 2 ^ 62 * 2 powi (ex - 1084)"
    using powi2_add [of 61 "ex - 1084"] powi2_add [of 62 "ex - 1084"] by (simp_all add: powi2_nat)
  show "\<lfloor>log 2 x\<rfloor> = ex - 1023"
    using assms by (intro floor_log2_eqI; unfold p assms(3)) (simp_all add: mult_strict_right_mono)
qed

lemma round_and_pack_correct:
  assumes s: "s = 0 \<or> s = 1" and sig: "2 ^ 61 \<le> unat sig" "unat sig < 2 ^ 62"
    and c: "same_cell 8 (real (unat sig)) y" and x: "x = y * 2 powi (ex - 1084)"
  shows "round_and_pack s ex sig m fe =
    (enc64 (s \<noteq> 0) (fst (ieee_round 52 (- 1074) 2047 m (s \<noteq> 0) x)),
     fe OR snd (ieee_round 52 (- 1074) 2047 m (s \<noteq> 0) x))"
proof -
  have y: "2 ^ 61 \<le> y" "y < 2 ^ 62"
  proof -
    have p: "real_of_int (2 ^ 53) * 2 ^ 8 = real (2 ^ 61)" "real_of_int (2 ^ 54) * 2 ^ 8 = real (2 ^ 62)"
      by simp_all
    have "real (2 ^ 61) \<le> y"
      using same_cell_le_iff [OF c, of "2 ^ 53"] sig(1) unfolding p of_nat_le_iff by (rule iffD1)
    then show "2 ^ 61 \<le> y" by simp
    have "y < real (2 ^ 62)"
      using same_cell_less_iff [OF c, of "2 ^ 54"] sig(2) unfolding p of_nat_less_iff by (rule iffD1)
    then show "y < 2 ^ 62" by simp
  qed
  note lg = normalized_log [OF y x]
  define d where "d = nat (ex - 1)"
  define S where "S = (if ex \<le> 0 then jam (unat sig) (nat (1 - ex)) else unat sig)"
  have q: "quantum 52 (- 1074) x = - 1074 + int d"
    by (auto simp: quantum_def lg d_def max_def)
  have cell: "same_cell 8 (real S) (x / 2 powi (- 1074 + int d) * 2 ^ Suc 8)"
  proof (cases "ex \<le> 0")
    case True
    have "same_cell (8 + nat (1 - ex)) (real (unat sig)) y" by (rule same_cell_mono [OF c]) simp
    then have "same_cell 8 (real S) (y / 2 ^ nat (1 - ex))"
      unfolding S_def using True by (simp add: jam_same_cell)
    moreover have "x / 2 powi (- 1074 + int d) * 2 ^ Suc 8 = y / 2 ^ nat (1 - ex)"
    proof -
      have "(2::real) powi (ex - 1084) * 2 powi (1 - ex) * 2 powi 9 = 2 powi (- 1074)"
        unfolding powi2_add [symmetric] by simp
      then show ?thesis using True by (simp add: x d_def powi2_nat [of "1 - ex", symmetric] field_simps)
    qed
    ultimately show ?thesis by simp
  next
    case False
    have "(2::real) powi (ex - 1084) * 2 powi 9 = 2 powi (- 1074 + int d)"
      unfolding powi2_add [symmetric] using False by (simp add: d_def)
    then have "x / 2 powi (- 1074 + int d) * 2 ^ Suc 8 = y" by (simp add: x field_simps)
    then show ?thesis using c False by (simp add: S_def)
  qed
  have tiny: "x < 2 powi (- 1074 + int 52) \<longleftrightarrow> ex \<le> 0"
    using floor_log2_less_iff [OF lg(1), of "- 1022"] lg(2) by auto
  note R = ieee_round_cell [OF lg(1) q cell, where m = m and s = "s \<noteq> 0" and einf = 2047, unfolded Let_def tiny]
  show ?thesis
  proof (cases "ex < 2047")
    case True
    show ?thesis
      unfolding R round_and_pack_nat [OF s sig True] d_def S_def
      by (auto simp: overflow_result_enc64 [OF s])
  next
    case False
    have "2 ^ 52 \<le> round_bits m (s \<noteq> 0) 8 S"
      using False sig(1) by (intro round_bits_ge) (simp add: S_def)
    moreover have "2046 * 2 ^ 52 \<le> d * 2 ^ 52" using False by (intro mult_right_mono) (simp_all add: d_def)
    ultimately have "2047 * 2 ^ 52 \<le> d * 2 ^ 52 + round_bits m (s \<noteq> 0) 8 S" by simp
    then show ?thesis
      using False unfolding R by (simp add: round_and_pack_def overflow_result_enc64 [OF s])
  qed
qed

section \<open>Unpacking\<close>

lemma unpack_finite_nonzero_correct:
  assumes "is_finite_bits b" "\<not> is_zero_bits b"
  obtains M where "unat (up_sig (unpack_finite_nonzero b)) = M * 2 ^ 9" "2 ^ 52 \<le> M" "M < 2 ^ 53"
    "unat (drop_bit 9 (up_sig (unpack_finite_nonzero b))) = M"
    "\<bar>val64 b\<bar> = real M * 2 powi (up_exp (unpack_finite_nonzero b) - 1075)"
    "up_sign (unpack_finite_nonzero b) = extract_sign b"
    "- 51 \<le> up_exp (unpack_finite_nonzero b)" "up_exp (unpack_finite_nonzero b) \<le> 2046"
proof -
  let ?u = "unpack_finite_nonzero b" and ?e = "unat (extract_exp b)" and ?f = "unat (extract_frac b)"
  have f: "?f < 2 ^ 52" by (rule extract_frac_less)
  have e: "?e < 2047" using assms(1) unfolding class_iff by (simp add: unat_extract_exp_mag inf64_def div_less_iff_less_mult)
  have mag: "\<bar>val64 b\<bar> = mag_val 52 (- 1074) (?e * 2 ^ 52 + ?f)"
    by (simp only: abs_val64 mag64_fields)
  have fin: "\<exists>M. unat (up_sig ?u) = M * 2 ^ 9 \<and> 2 ^ 52 \<le> M \<and> M < 2 ^ 53
    \<and> \<bar>val64 b\<bar> = real M * 2 powi (up_exp ?u - 1075) \<and> up_sign ?u = extract_sign b
    \<and> - 51 \<le> up_exp ?u \<and> up_exp ?u \<le> 2046"
  proof (cases "extract_exp b = 0")
    case True
    define c where "c = clz64 (extract_frac b) - 11"
    have f0: "extract_frac b \<noteq> 0"
      using assms(2) True unfolding is_zero_bits_iff mag64_fields by auto
    note clz = clz64_bounds [OF f0]
    have c0: "1 \<le> c" "c \<le> 52"
    proof -
      have "2 ^ 63 < 2 ^ 52 * (2::nat) ^ nat (clz64 (extract_frac b))"
        using clz(3) f by (meson mult_less_mono1 order_le_less_trans zero_less_numeral zero_less_power)
      then have "(2::nat) ^ 63 < 2 ^ (52 + nat (clz64 (extract_frac b)))" by (simp only: power_add)
      then have "63 < 52 + nat (clz64 (extract_frac b))" by (rule power_less_imp_less_exp [rotated]) simp
      then show "1 \<le> c" by (simp add: c_def)
      show "c \<le> 52" using clz(2) by (simp add: c_def)
    qed
    have n: "nat (clz64 (extract_frac b)) = nat c + 11" using c0 by (simp add: c_def)
    have M: "2 ^ 52 \<le> ?f * 2 ^ nat c" "?f * 2 ^ nat c < 2 ^ 53"
      using clz(3,4) unfolding n power_add by simp_all
    have "unat (push_bit (nat c) (extract_frac b)) = ?f * 2 ^ nat c"
      using M(2) by (intro unat_push_bit_lt) simp
    then have "unat (push_bit 9 (push_bit (nat c) (extract_frac b))) = ?f * 2 ^ nat c * 2 ^ 9"
      using M(2) by (subst unat_push_bit_lt) simp_all
    then have u: "unat (up_sig ?u) = ?f * 2 ^ nat c * 2 ^ 9" "up_exp ?u = 1 - c" "up_sign ?u = extract_sign b"
      using True by (simp_all add: unpack_finite_nonzero_def normalise_subnormal_def Let_def c_def)
    have "\<bar>val64 b\<bar> = real ?f * 2 powi (- 1074)"
      unfolding mag using True f by (simp add: mag_val_def)
    also have "\<dots> = real (?f * 2 ^ nat c) * 2 powi (up_exp ?u - 1075)"
    proof -
      have "(2::real) powi c * 2 powi (1 - c - 1075) = 2 powi (- 1074)" unfolding powi2_add [symmetric] by simp
      then show ?thesis using c0 by (simp add: u powi2_nat)
    qed
    finally show ?thesis using M c0 u by auto
  next
    case False
    have "unat (extract_frac b OR kImplicitBit) = 2 ^ 52 + ?f"
      using unat_or_disjoint [of kImplicitBit 52 "extract_frac b"] f
      by (simp add: kImplicitBit_def or.commute)
    then have "unat (push_bit 9 (extract_frac b OR kImplicitBit)) = (2 ^ 52 + ?f) * 2 ^ 9"
      using f by (subst unat_push_bit_lt) simp_all
    then have u: "unat (up_sig ?u) = (2 ^ 52 + ?f) * 2 ^ 9" "up_exp ?u = int ?e" "up_sign ?u = extract_sign b"
      using False by (simp_all add: unpack_finite_nonzero_def Let_def)
    have "?e \<noteq> 0" using False by (simp add: unat_eq_zero)
    then have "\<bar>val64 b\<bar> = real (2 ^ 52 + ?f) * 2 powi (up_exp ?u - 1075)"
      unfolding mag u using f by (simp add: mag_val_def algebra_simps)
    moreover have "- 51 \<le> up_exp ?u" "up_exp ?u \<le> 2046" unfolding u using e by linarith+
    ultimately show ?thesis using u(1,3) f by (intro exI [of _ "2 ^ 52 + ?f"]) auto
  qed
  then show ?thesis using that by (auto simp: unat_drop_bit)
qed

lemma jam_less:
  assumes "n < 2 ^ (k + c)" "1 \<le> k" shows "jam n c < 2 ^ k"
proof -
  have q: "n div 2 ^ c < 2 ^ k" using assms(1) by (simp add: div_less_iff_less_mult power_add)
  have "even ((2::nat) ^ k)" using assms(2) by simp
  then have "even (n div 2 ^ c) \<Longrightarrow> n div 2 ^ c + 1 < 2 ^ k" using q by (metis Suc_eq_plus1 Suc_lessI even_Suc)
  then show ?thesis using q unfolding jam_def nat_or_1 by simp
qed

section \<open>The specification of a rounded result\<close>

text \<open>The correctly rounded binary64 result of a real, its zero sign given, with its flags.\<close>

definition ieee64 :: "sf64_rounding_mode \<Rightarrow> bool \<Rightarrow> real \<Rightarrow> u32 \<Rightarrow> f64 \<times> u32" where
  "ieee64 m s x fe =
     (enc64 s (fst (ieee_round 52 (- 1074) 2047 m s x)), fe OR snd (ieee_round 52 (- 1074) 2047 m s x))"

definition round64 :: "sf64_rounding_mode \<Rightarrow> bool \<Rightarrow> real \<Rightarrow> u32 \<Rightarrow> f64 \<times> u32" where
  "round64 m zero_sign x fe = (if x = 0 then (enc64 zero_sign 0, fe) else ieee64 m (x < 0) \<bar>x\<bar> fe)"

lemma round64_pos: "0 < x \<Longrightarrow> round64 m z x fe = ieee64 m False x fe"
  and round64_neg: "x < 0 \<Longrightarrow> round64 m z x fe = ieee64 m True (- x) fe"
  by (simp_all add: round64_def)

lemma round_and_pack_ieee64:
  "\<lbrakk>s = 0 \<or> s = 1; 2 ^ 61 \<le> unat sig; unat sig < 2 ^ 62; same_cell 8 (real (unat sig)) y;
    x = y * 2 powi (ex - 1084)\<rbrakk> \<Longrightarrow> round_and_pack s ex sig m fe = ieee64 m (s \<noteq> 0) x fe"
  unfolding ieee64_def by (rule round_and_pack_correct)

text \<open>A value that is an encoding rounds to itself and raises nothing.\<close>

lemma ieee64_mag_val:
  assumes "0 < n" "n < inf64"
  shows "ieee64 m s (mag_val 52 (- 1074) n) fe = (enc64 s n, fe)"
  using assms by (simp add: ieee64_def ieee_round_def round_mag_mag_val Let_def inf64_def)

lemma val64_sgn: "mag64 b \<noteq> 0 \<Longrightarrow> val64 b < 0 \<longleftrightarrow> sgn64 b"
  using mag_val_nonneg [of 52 "- 1074" "mag64 b"] mag_val_pos_iff [of 52 "- 1074" "mag64 b"]
  by (auto simp: val64_def not_less)

lemma round64_val64:
  assumes "is_finite_bits b" "\<not> is_zero_bits b"
  shows "round64 m z (val64 b) fe = (b, fe)"
proof -
  have "0 < mag64 b" "mag64 b < inf64" using assms by (simp_all add: class_iff)
  then show ?thesis
    unfolding round64_def abs_val64 using assms by (simp add: val64_eq_0_iff val64_sgn ieee64_mag_val)
qed

lemma round_and_pack_carried:
  assumes s: "s = 0 \<or> s = 1" and sig: "2 ^ 61 \<le> unat sig" "unat sig < 2 ^ 63"
    and c: "same_cell 8 (real (unat sig)) y" and x: "x = y * 2 powi (ex - 1084)"
  shows "(if drop_bit 62 sig AND 1 \<noteq> 0 then round_and_pack s (ex + 1) (shift_right_jamming sig 1) m fe
          else round_and_pack s ex sig m fe) = ieee64 m (s \<noteq> 0) x fe"
proof -
  have bit: "drop_bit 62 sig AND 1 \<noteq> 0 \<longleftrightarrow> 2 ^ 62 \<le> unat sig"
    unfolding and_1_neq_0_iff unat_drop_bit using sig(2) by (intro top_bit_iff) simp
  show ?thesis
  proof (cases "2 ^ 62 \<le> unat sig")
    case True
    have u: "unat (shift_right_jamming sig 1) = jam (unat sig) 1" by (simp add: unat_shift_right_jamming)
    have "same_cell (8 + 1) (real (unat sig)) y" using c by (rule same_cell_mono) simp
    then have "same_cell 8 (real (jam (unat sig) 1)) (y / 2 ^ 1)" by (rule jam_same_cell) simp
    moreover have "jam (unat sig) 1 \<le> unat sig div 2 + 1" "unat sig div 2 \<le> jam (unat sig) 1"
      using jam_le [of "unat sig" 1] jam_ge [of "unat sig" 1] by simp_all
    moreover have "jam (unat sig) 1 < 2 ^ 62"
      using sig(2) by (intro jam_less) simp_all
    moreover have "x = y / 2 ^ 1 * 2 powi (ex + 1 - 1084)"
      using powi2_add [of 1 "ex - 1084"] by (simp add: x)
    ultimately show ?thesis using True bit s
      by (simp only: if_True) (intro round_and_pack_ieee64 [where y = "y / 2 ^ 1"]; simp add: u)
  next
    case False
    then show ?thesis using bit s sig c x by (simp only: if_False) (intro round_and_pack_ieee64, simp_all)
  qed
qed

section \<open>Addition and subtraction of magnitudes\<close>

lemma aligned_sum_cell:
  assumes "A = M * 2 ^ 9"
  shows "same_cell 8 (real (A + jam B c)) (real A + real B / 2 ^ c)"
proof -
  have "same_cell 8 (real (jam B c)) (real B / 2 ^ c)" by (rule jam_cell) simp
  from same_cell_add [OF this, of "int (2 * M)"] show ?thesis by (simp add: assms mult.commute)
qed

text \<open>The larger exponent first; \<open>x\<close> is the exact sum of the magnitudes.\<close>

lemma significand_bounds: "2 ^ 52 \<le> M \<Longrightarrow> M < 2 ^ 53 \<Longrightarrow> unat A = M * 2 ^ 9 \<Longrightarrow> 2 ^ 61 \<le> unat A \<and> unat A < 2 ^ 62"
  for A :: u64
  by simp

lemma add_aligned_correct:
  fixes A B w :: u64
  assumes s: "s = 0 \<or> s = 1"
    and A: "unat A = M * 2 ^ 9" "2 ^ 52 \<le> M" "M < 2 ^ 53"
    and B: "unat B = N * 2 ^ 9" "2 ^ 52 \<le> N" "N < 2 ^ 53"
    and e: "eb \<le> ea" and x: "x = real M * 2 powi (ea - 1075) + real N * 2 powi (eb - 1075)"
    and w: "w = A + shift_right_jamming B (ea - eb)"
  shows "(if drop_bit 62 w AND 1 \<noteq> 0 then round_and_pack s (ea + 1) (shift_right_jamming w 1) m fe
          else round_and_pack s ea w m fe) = ieee64 m (s \<noteq> 0) x fe"
proof (rule round_and_pack_carried [OF s, where y = "real (unat A) + real (unat B) / 2 ^ nat (ea - eb)"])
  let ?c = "nat (ea - eb)"
  note bA = significand_bounds [OF A(2,3,1)] and bB = significand_bounds [OF B(2,3,1)]
  have J: "unat (shift_right_jamming B (ea - eb)) = jam (unat B) ?c" using e by (simp add: unat_shift_right_jamming)
  have "(2::nat) ^ 62 \<le> 2 ^ (62 + ?c)" by (intro power_increasing) simp_all
  then have "unat B < 2 ^ (62 + ?c)" using bB by linarith
  then have jB: "jam (unat B) ?c < 2 ^ 62" by (rule jam_less) simp
  then have w': "unat w = unat A + jam (unat B) ?c" unfolding w J [symmetric] using bA by (intro unat_add_lt) (simp add: J)
  show "2 ^ 61 \<le> unat w" "unat w < 2 ^ 63" using w' bA jB by simp_all
  show "same_cell 8 (real (unat w)) (real (unat A) + real (unat B) / 2 ^ ?c)"
    unfolding w' by (rule aligned_sum_cell [OF A(1)])
  have p: "(2::real) powi (ea - 1075) = 2 ^ 9 * 2 powi (ea - 1084)"
    using powi2_add [of 9 "ea - 1084"] by (simp add: powi2_nat)
  have q: "(2::real) powi (eb - 1075) * 2 ^ ?c = 2 ^ 9 * 2 powi (ea - 1084)"
    using e powi2_add [of "eb - 1075" "ea - eb"] unfolding p [symmetric] by (simp add: powi2_nat)
  show "x = (real (unat A) + real (unat B) / 2 ^ ?c) * 2 powi (ea - 1084)"
    unfolding x A(1) B(1) p using q by (simp add: field_simps)
qed

lemma add_magnitudes_correct:
  assumes s: "s = 0 \<or> s = 1"
    and a: "is_finite_bits a" "\<not> is_zero_bits a" and b: "is_finite_bits b" "\<not> is_zero_bits b"
  shows "add_magnitudes s a b m fe = ieee64 m (s \<noteq> 0) (\<bar>val64 a\<bar> + \<bar>val64 b\<bar>) fe"
proof -
  let ?a = "unpack_finite_nonzero a" and ?b = "unpack_finite_nonzero b"
  let ?ea = "up_exp ?a" and ?eb = "up_exp ?b"
  obtain M where A: "unat (up_sig ?a) = M * 2 ^ 9" "2 ^ 52 \<le> M" "M < 2 ^ 53" "\<bar>val64 a\<bar> = real M * 2 powi (?ea - 1075)"
    using unpack_finite_nonzero_correct [OF a] by metis
  obtain N where B: "unat (up_sig ?b) = N * 2 ^ 9" "2 ^ 52 \<le> N" "N < 2 ^ 53" "\<bar>val64 b\<bar> = real N * 2 powi (?eb - 1075)"
    using unpack_finite_nonzero_correct [OF b] by metis
  show ?thesis
  proof (cases "?eb \<le> ?ea")
    case True
    have "shift_right_jamming w 0 = w" for w by (simp add: shift_right_jamming_def)
    then have "add_magnitudes s a b m fe = (let w = up_sig ?a + shift_right_jamming (up_sig ?b) (?ea - ?eb)
        in if drop_bit 62 w AND 1 \<noteq> 0 then round_and_pack s (?ea + 1) (shift_right_jamming w 1) m fe
           else round_and_pack s ?ea w m fe)"
      using True by (cases "?ea = ?eb") (simp_all add: add_magnitudes_def Let_def)
    then show ?thesis
      unfolding Let_def A(4) B(4) add_aligned_correct [OF s A(1-3) B(1-3) True refl refl] .
  next
    case False
    then have "add_magnitudes s a b m fe = (let w = up_sig ?b + shift_right_jamming (up_sig ?a) (?eb - ?ea)
        in if drop_bit 62 w AND 1 \<noteq> 0 then round_and_pack s (?eb + 1) (shift_right_jamming w 1) m fe
           else round_and_pack s ?eb w m fe)"
      by (simp add: add_magnitudes_def Let_def add.commute)
    moreover have "?ea \<le> ?eb" using False by simp
    ultimately show ?thesis
      unfolding Let_def A(4) B(4) add_aligned_correct [OF s B(1-3) A(1-3) \<open>?ea \<le> ?eb\<close> refl refl]
      by (simp only: add.commute)
  qed
qed

lemma aligned_scale:
  assumes "eb \<le> (ea::int)"
  shows "real N * 2 powi (eb - 1075) = real (N * 2 ^ 9) / 2 ^ nat (ea - eb) * 2 powi (ea - 1084)"
proof -
  have "(2::real) powi (eb - 1075) * 2 ^ nat (ea - eb) = 2 ^ 9 * 2 powi (ea - 1084)"
    using assms powi2_add [of "eb - 1075" "ea - eb"] powi2_add [of 9 "ea - 1084"] by (simp add: powi2_nat)
  then show ?thesis by (simp add: field_simps)
qed

lemma jam_exact: "N * 2 ^ k = n \<Longrightarrow> c \<le> k \<Longrightarrow> jam n c = N * 2 ^ (k - c) \<and> real (jam n c) = real n / 2 ^ c"
proof -
  assume n: "N * 2 ^ k = n" and c: "c \<le> k"
  have "n = N * 2 ^ (k - c) * 2 ^ c" using c by (simp add: n [symmetric] mult.assoc flip: power_add)
  then show ?thesis by (simp add: jam_def)
qed

lemma sub_aligned_correct:
  fixes A B w :: u64
  assumes s: "s = 0 \<or> s = 1"
    and A: "unat A = M * 2 ^ 9" "2 ^ 52 \<le> M" "M < 2 ^ 53"
    and B: "unat B = N * 2 ^ 9" "2 ^ 52 \<le> N" "N < 2 ^ 53"
    and e: "eb \<le> ea" "ea = eb \<Longrightarrow> N < M"
    and x: "x = real M * 2 powi (ea - 1075) - real N * 2 powi (eb - 1075)"
    and w: "w = A - shift_right_jamming B (ea - eb)"
  shows "w \<noteq> 0" "round_and_pack s (ea - (clz64 w - 2)) (push_bit (nat (clz64 w - 2)) w) m fe = ieee64 m (s \<noteq> 0) x fe"
proof -
  define c where "c = nat (ea - eb)"
  define y where "y = real (unat A) - real (unat B) / 2 ^ c"
  note bA = significand_bounds [OF A(2,3,1)] and bB = significand_bounds [OF B(2,3,1)]
  have J: "unat (shift_right_jamming B (ea - eb)) = jam (unat B) c" using e by (simp add: unat_shift_right_jamming c_def)
  have small: "jam (unat B) c \<le> 2 ^ 60" if "2 \<le> c"
  proof -
    have "(2::nat) ^ 62 \<le> 2 ^ (60 + c)" using that by (intro power_increasing) simp_all
    then have "unat B div 2 ^ c < 2 ^ 60" using bB by (simp add: div_less_iff_less_mult power_add)
    then show ?thesis using jam_le [of "unat B" c] by simp
  qed
  have exact: "jam (unat B) c = N * 2 ^ (9 - c)" "real (jam (unat B) c) = real (unat B) / 2 ^ c" if "c < 2"
    using jam_exact [OF B(1) [symmetric], of c] that by auto
  have less: "jam (unat B) c < unat A"
  proof (cases "c < 2")
    case True
    then consider "c = 0" | "c = 1" by linarith
    then show ?thesis
    proof cases
      case 1
      then show ?thesis using e exact A(1) by (simp add: c_def)
    next
      case 2
      then show ?thesis using exact A(1,2) B(3) by simp
    qed
  qed (use small bA in simp)
  have w': "unat w = unat A - jam (unat B) c" unfolding w J [symmetric] using less by (intro unat_sub_le) (simp add: J)
  show w0: "w \<noteq> 0" using w' less by auto
  note clz = clz64_bounds [OF w0]
  define ns where "ns = nat (clz64 w - 2)"
  have "unat w \<le> unat A" using w' by simp
  then have w62: "unat w < 2 ^ 62" using bA by simp
  have ns: "int ns = clz64 w - 2"
  proof -
    have "unat w * 2 ^ nat (clz64 w) < 2 ^ 62 * 2 ^ nat (clz64 w)" using w62 by simp
    then have "(2::nat) ^ 63 < 2 ^ (62 + nat (clz64 w))"
      using clz(3) unfolding power_add by (rule order_le_less_trans [rotated])
    then have "63 < 62 + nat (clz64 w)" by (rule power_less_imp_less_exp [rotated]) simp
    then show ?thesis by (simp add: ns_def)
  qed
  have n: "nat (clz64 w) = ns + 2" using ns by simp
  have sig: "2 ^ 61 \<le> unat w * 2 ^ ns" "unat w * 2 ^ ns < 2 ^ 62"
    using clz(3,4) unfolding n power_add by simp_all
  then have u: "unat (push_bit ns w) = unat w * 2 ^ ns" by (intro unat_push_bit_lt) simp
  have cell: "same_cell 8 (real (unat w * 2 ^ ns)) (y * 2 ^ ns)"
  proof (cases "c < 2")
    case True
    then have "real (unat w) = y" using exact less by (simp add: w' y_def of_nat_diff)
    then show ?thesis by simp
  next
    case False
    have "jam (unat B) c \<le> 2 ^ 60" using small False by simp
    moreover have "unat w + jam (unat B) c = unat A" using less w' by simp
    ultimately have "2 ^ 60 \<le> unat w" using bA by simp
    then have "2 ^ 60 * 2 ^ ns \<le> unat w * 2 ^ ns" by simp
    then have "2 ^ 60 * 2 ^ ns < (2::nat) ^ 62" using sig(2) by (rule order_le_less_trans)
    then have "(2::nat) ^ (60 + ns) < 2 ^ 62" by (simp only: power_add)
    then have "60 + ns < 62" by (rule power_less_imp_less_exp [rotated]) simp
    then have ns8: "7 + ns \<le> 8" by simp
    have "same_cell 7 (real (jam (unat B) c)) (real (unat B) / 2 ^ c)" by (rule jam_cell) simp
    from same_cell_diff [OF this, of "int (4 * M)"] have "same_cell 7 (real (unat w)) y"
      using less by (simp add: w' y_def A(1) of_nat_diff mult.commute)
    from same_cell_mono [OF same_cell_scale [OF this, of ns] ns8] show ?thesis by simp
  qed
  have "x = y * 2 ^ ns * 2 powi (ea - int ns - 1084)"
  proof -
    have "(2::real) ^ ns * 2 powi (ea - int ns - 1084) = 2 powi (ea - 1084)"
      using powi2_add [of "int ns" "ea - int ns - 1084"] by simp
    moreover have "x = y * 2 powi (ea - 1084)"
      unfolding x y_def aligned_scale [OF order_refl, of M ea] aligned_scale [OF e(1)] A(1) B(1)
      by (simp add: c_def left_diff_distrib)
    ultimately show ?thesis by (simp only: mult.assoc)
  qed
  then show "round_and_pack s (ea - (clz64 w - 2)) (push_bit (nat (clz64 w - 2)) w) m fe = ieee64 m (s \<noteq> 0) x fe"
    unfolding ns [symmetric] nat_int using s sig cell
    by (intro round_and_pack_ieee64) (simp_all only: u)
qed

lemma normalized_less:
  assumes "2 ^ 52 \<le> M" "N < 2 ^ 53" "eb < ea"
  shows "real N * 2 powi (eb - 1075) < real M * 2 powi (ea - 1075)"
proof -
  have "real N < 2 ^ 53" using assms(2) by (metis of_nat_less_iff of_nat_numeral of_nat_power)
  then have "real N * 2 powi (eb - 1075) < 2 ^ 53 * 2 powi (eb - 1075)" by (rule mult_strict_right_mono) simp
  also have "\<dots> = 2 ^ 52 * 2 powi (eb + 1 - 1075)"
    using powi2_add [of 1 "eb - 1075"] by (simp add: algebra_simps)
  also have "\<dots> \<le> real M * 2 powi (ea - 1075)"
  proof (rule mult_mono)
    show "2 ^ 52 \<le> real M" using assms(1) by (metis of_nat_le_iff of_nat_numeral of_nat_power)
  qed (use assms(3) in simp_all)
  finally show ?thesis .
qed

lemma sub_magnitudes_correct:
  assumes s: "s = 0 \<or> s = 1"
    and a: "is_finite_bits a" "\<not> is_zero_bits a" and b: "is_finite_bits b" "\<not> is_zero_bits b"
  shows "sub_magnitudes s a b z m fe =
    (if \<bar>val64 a\<bar> = \<bar>val64 b\<bar> then (make_signed_zero z, fe)
     else if \<bar>val64 b\<bar> < \<bar>val64 a\<bar> then ieee64 m (s \<noteq> 0) (\<bar>val64 a\<bar> - \<bar>val64 b\<bar>) fe
     else ieee64 m (s = 0) (\<bar>val64 b\<bar> - \<bar>val64 a\<bar>) fe)"
proof -
  let ?a = "unpack_finite_nonzero a" and ?b = "unpack_finite_nonzero b"
  let ?ea = "up_exp ?a" and ?eb = "up_exp ?b"
  obtain M where A: "unat (up_sig ?a) = M * 2 ^ 9" "2 ^ 52 \<le> M" "M < 2 ^ 53" "\<bar>val64 a\<bar> = real M * 2 powi (?ea - 1075)"
    using unpack_finite_nonzero_correct [OF a] by metis
  obtain N where B: "unat (up_sig ?b) = N * 2 ^ 9" "2 ^ 52 \<le> N" "N < 2 ^ 53" "\<bar>val64 b\<bar> = real N * 2 powi (?eb - 1075)"
    using unpack_finite_nonzero_correct [OF b] by metis
  have s': "s XOR 1 = 0 \<or> s XOR 1 = 1" "s XOR 1 \<noteq> 0 \<longleftrightarrow> s = 0" using s by auto
  have j0: "shift_right_jamming w 0 = w" for w by (simp add: shift_right_jamming_def)
  have sig: "up_sig ?b < up_sig ?a \<longleftrightarrow> N < M" "up_sig ?a = up_sig ?b \<longleftrightarrow> M = N"
    by (simp_all add: word_less_nat_alt word_unat_eq_iff A(1) B(1))
  consider (gt) "?eb < ?ea" | (lt) "?ea < ?eb" | (eq) "?ea = ?eb" "M = N"
    | (eqgt) "?ea = ?eb" "N < M" | (eqlt) "?ea = ?eb" "M < N" by linarith
  then show ?thesis
  proof cases
    case gt
    have "\<bar>val64 b\<bar> < \<bar>val64 a\<bar>" unfolding A(4) B(4) by (rule normalized_less [OF A(2) B(3) gt])
    moreover note sub_aligned_correct [OF s A(1-3) B(1-3) less_imp_le [OF gt] _ refl refl]
    ultimately show ?thesis using gt by (simp add: sub_magnitudes_def Let_def A(4) B(4))
  next
    case lt
    have "\<bar>val64 a\<bar> < \<bar>val64 b\<bar>" unfolding A(4) B(4) by (rule normalized_less [OF B(2) A(3) lt])
    moreover note sub_aligned_correct [OF s'(1) B(1-3) A(1-3) less_imp_le [OF lt] _ refl refl]
    ultimately show ?thesis using lt s' by (simp add: sub_magnitudes_def Let_def A(4) B(4))
  next
    case eq
    then show ?thesis by (simp add: sub_magnitudes_def Let_def A(4) B(4) sig)
  next
    case eqgt
    moreover note sub_aligned_correct [OF s A(1-3) B(1-3) order_refl eqgt(2) refl refl, unfolded diff_self j0]
    ultimately show ?thesis by (simp add: sub_magnitudes_def Let_def A(4) B(4) sig j0)
  next
    case eqlt
    moreover note sub_aligned_correct [OF s'(1) B(1-3) A(1-3) order_refl eqlt(2) refl refl, unfolded diff_self j0]
    ultimately show ?thesis using s' by (simp add: sub_magnitudes_def Let_def A(4) B(4) sig j0)
  qed
qed

section \<open>Addition and subtraction on finite operands\<close>

lemma extract_sign_01: "extract_sign b = 0 \<or> extract_sign b = 1"
  by (simp add: extract_sign_cases)

lemma extract_sign_simps [simp]: "extract_sign b \<noteq> 0 \<longleftrightarrow> sgn64 b" "extract_sign b = 0 \<longleftrightarrow> \<not> sgn64 b"
  "extract_sign a = extract_sign b \<longleftrightarrow> (sgn64 a \<longleftrightarrow> sgn64 b)"
  by (auto simp: extract_sign_cases)

lemma make_signed_zero_sign: "make_signed_zero (extract_sign b) = enc64 (sgn64 b) 0"
  by (simp add: make_signed_zero_enc64 extract_sign_cases)

lemma make_signed_zero_if: "make_signed_zero (if p then 1 else 0) = enc64 p 0"
  by (simp add: make_signed_zero_enc64)

lemma is_zero_enc64: "is_zero_bits b \<Longrightarrow> b = enc64 (sgn64 b) 0"
  using enc64_sgn_mag [of b] by (simp add: is_zero_bits_iff)

lemma val64_signed: "val64 b = (if sgn64 b then - \<bar>val64 b\<bar> else \<bar>val64 b\<bar>)"
  using abs_val64 [of b] by (simp add: val64_def)

lemma finite_not_special: "is_finite_bits b \<Longrightarrow> \<not> is_nan_bits b \<and> extract_exp b \<noteq> kExpMax"
  by (auto simp: class_iff)

lemma signed_round64: "0 < x \<Longrightarrow> round64 m z (if s then - x else x) fe = ieee64 m s x fe"
  by (cases s) (simp_all add: round64_def)

lemma signed_difference:
  "round64 m z (if s then - (x - y) else x - y) fe =
    (if x = y then (enc64 z 0, fe) else if y < x then ieee64 m s (x - y) fe else ieee64 m (\<not> s) (y - x) fe)"
proof (cases x y rule: linorder_cases)
  case less
  then show ?thesis using signed_round64 [of "y - x" m z "\<not> s" fe] by (cases s) simp_all
next
  case greater
  then show ?thesis using signed_round64 [of "x - y" m z s fe] by simp
qed (simp add: round64_def)

lemma add_r_impl_finite:
  assumes "is_finite_bits a" "is_finite_bits b"
  shows "add_r_impl a b m fe = round64 m
    (if is_zero_bits a \<and> is_zero_bits b \<and> (sgn64 a \<longleftrightarrow> sgn64 b) then sgn64 a else m = SF64_RDN)
    (val64 a + val64 b) fe"
proof -
  note fin = finite_not_special [OF assms(1)] finite_not_special [OF assms(2)]
  consider (zz) "is_zero_bits a" "is_zero_bits b" | (za) "is_zero_bits a" "\<not> is_zero_bits b"
    | (zb) "\<not> is_zero_bits a" "is_zero_bits b" | (nz) "\<not> is_zero_bits a" "\<not> is_zero_bits b" by blast
  then show ?thesis
  proof cases
    case zz
    then show ?thesis using fin
      by (simp add: add_r_impl_def round64_def val64_eq_0_iff [THEN iffD2] make_signed_zero_sign make_signed_zero_if)
  next
    case za
    then show ?thesis using fin assms
      by (simp add: add_r_impl_def round64_val64 val64_eq_0_iff [THEN iffD2])
  next
    case zb
    then show ?thesis using fin assms
      by (simp add: add_r_impl_def round64_val64 val64_eq_0_iff [THEN iffD2])
  next
    case nz
    have pos: "0 < \<bar>val64 a\<bar>" "0 < \<bar>val64 b\<bar>" using nz by (simp_all add: val64_eq_0_iff)
    note sm = add_magnitudes_correct [OF extract_sign_01 assms(1) nz(1) assms(2) nz(2)]
    note sb = sub_magnitudes_correct [OF extract_sign_01 assms(1) nz(1) assms(2) nz(2)]
    show ?thesis
    proof (cases "sgn64 a \<longleftrightarrow> sgn64 b")
      case True
      have "add_r_impl a b m fe = ieee64 m (sgn64 a) (\<bar>val64 a\<bar> + \<bar>val64 b\<bar>) fe"
        using True nz fin by (simp add: add_r_impl_def sm)
      moreover have "val64 a + val64 b = (if sgn64 a then - (\<bar>val64 a\<bar> + \<bar>val64 b\<bar>) else \<bar>val64 a\<bar> + \<bar>val64 b\<bar>)"
        using True by (subst (1 2) val64_signed) simp
      ultimately show ?thesis using pos by (simp add: signed_round64 add_pos_pos)
    next
      case False
      have "add_r_impl a b m fe = sub_magnitudes (extract_sign a) a b (if m = SF64_RDN then 1 else 0) m fe"
        using False nz fin by (simp add: add_r_impl_def)
      moreover have "val64 a + val64 b = (if sgn64 a then - (\<bar>val64 a\<bar> - \<bar>val64 b\<bar>) else \<bar>val64 a\<bar> - \<bar>val64 b\<bar>)"
        using False by (subst (1 2) val64_signed) simp
      ultimately show ?thesis using nz
        unfolding sb by (simp add: make_signed_zero_if signed_difference)
    qed
  qed
qed

lemma sgn64_bit: "sgn64 b \<longleftrightarrow> bit b 63"
proof -
  have "unat b < 2 ^ Suc 63" using unat_lt64 [of b] by simp
  then show ?thesis unfolding sgn64_def bit_iff_odd_drop_bit [of b] by (metis top_bit_iff unat_drop_bit and_1_neq_0_iff odd_iff_mod_2_eq_one and_one_eq even_iff_mod_2_eq_zero mod_0_imp_dvd zero_neq_one)
qed

lemma mag64_mask: "mag64 b = unat (b AND mask 63)"
  by (simp add: mag64_def unat_and_mask)

lemma bit_kSignMask: "bit kSignMask i \<longleftrightarrow> i = 63"
proof -
  have k: "kSignMask = push_bit 63 1" by (simp add: kSignMask_def)
  show ?thesis unfolding k bit_push_bit_iff by (auto simp: bit_1_iff)
qed

lemma sf64_neg_fields [simp]: "sgn64 (sf64_neg b) \<longleftrightarrow> \<not> sgn64 b" "mag64 (sf64_neg b) = mag64 b"
proof -
  show "sgn64 (sf64_neg b) \<longleftrightarrow> \<not> sgn64 b"
    by (simp add: sgn64_bit sf64_neg_def bit_xor_iff bit_kSignMask)
  have "sf64_neg b AND mask 63 = b AND mask 63"
    by (rule bit_eqI) (auto simp: sf64_neg_def bit_and_iff bit_xor_iff bit_mask_iff bit_kSignMask)
  then show "mag64 (sf64_neg b) = mag64 b" by (simp add: mag64_mask)
qed

lemma sf64_neg_class [simp]: "is_finite_bits (sf64_neg b) = is_finite_bits b" "is_nan_bits (sf64_neg b) = is_nan_bits b"
  "is_zero_bits (sf64_neg b) = is_zero_bits b" "is_inf_bits (sf64_neg b) = is_inf_bits b"
  "val64 (sf64_neg b) = - val64 b"
  by (simp_all add: class_iff val64_def)

lemma sub_r_impl_finite:
  assumes "is_finite_bits a" "is_finite_bits b"
  shows "sub_r_impl snan a b m fe = round64 m
    (if is_zero_bits a \<and> is_zero_bits b \<and> sgn64 a \<noteq> sgn64 b then sgn64 a else m = SF64_RDN)
    (val64 a - val64 b) fe"
  using add_r_impl_finite [of a "sf64_neg b"] assms finite_not_special
  by (auto simp: sub_r_impl_def)

section \<open>Multiplication\<close>

lemma same_cell_open:
  assumes "real m * 2 ^ k < x" "x < (real m + 1) * 2 ^ k" "real m * 2 ^ k < y" "y < (real m + 1) * 2 ^ k"
  shows "same_cell k x y"
proof -
  have "\<lfloor>z / 2 ^ k\<rfloor> = int m \<and> \<lceil>z / 2 ^ k\<rceil> = int m + 1" if "real m * 2 ^ k < z" "z < (real m + 1) * 2 ^ k" for z
  proof -
    have "real m < z / 2 ^ k" "z / 2 ^ k < real m + 1" using that by (simp_all add: field_simps)
    then show ?thesis by (simp add: floor_eq_iff ceiling_eq_iff)
  qed
  then show ?thesis using assms by (simp add: same_cell_def)
qed

text \<open>Extracting a significand from a 128-bit magnitude: shift, and jam what falls off.\<close>

lemma u128_extract_jam:
  assumes "0 \<le> k" "k < 128" "u128_val p div 2 ^ nat k < 2 ^ 64"
  shows "unat (if u128_nonzero (u128_and p (u128_sub (u128_shl (u128_of 1) k) (u128_of 1)))
     then u_lo (u128_shr p k) OR 1 else u_lo (u128_shr p k)) = jam (u128_val p) (nat k)"
  using assms by (simp add: u128_low_mask_test unat_or_1 u_lo_val u128_val_shr jam_def or_Suc_0_eq)

lemma mul_impl_correct:
  assumes s: "s = 0 \<or> s = 1"
    and a: "is_finite_bits a" "\<not> is_zero_bits a" and b: "is_finite_bits b" "\<not> is_zero_bits b"
  shows "mul_impl a b s m fe = ieee64 m (s \<noteq> 0) (\<bar>val64 a\<bar> * \<bar>val64 b\<bar>) fe"
proof -
  let ?a = "unpack_finite_nonzero a" and ?b = "unpack_finite_nonzero b"
  let ?ea = "up_exp ?a" and ?eb = "up_exp ?b"
  let ?A = "drop_bit 9 (up_sig ?a)" and ?B = "drop_bit 9 (up_sig ?b)"
  obtain M where A: "unat ?A = M" "2 ^ 52 \<le> M" "M < 2 ^ 53" "\<bar>val64 a\<bar> = real M * 2 powi (?ea - 1075)"
    using unpack_finite_nonzero_correct [OF a] by metis
  obtain N where B: "unat ?B = N" "2 ^ 52 \<le> N" "N < 2 ^ 53" "\<bar>val64 b\<bar> = real N * 2 powi (?eb - 1075)"
    using unpack_finite_nonzero_correct [OF b] by metis
  define p where "p = u128_mul (u128_of ?A) (u128_of ?B)"
  define P where "P = M * N"
  have p: "u128_val p = P" by (simp add: p_def P_def u128_val_mul_of A(1) B(1))
  have "2 ^ 52 * 2 ^ 52 \<le> P" "P < 2 ^ 53 * 2 ^ 53"
    unfolding P_def by (intro mult_le_mono A B, intro mult_strict_mono A B) simp_all
  then have P: "2 ^ 104 \<le> P" "P < 2 ^ 106" by simp_all
  have x: "\<bar>val64 a\<bar> * \<bar>val64 b\<bar> = real P * 2 powi (?ea + ?eb - 2150)"
    using powi2_add [of "?ea - 1075" "?eb - 1075"] by (simp add: A(4) B(4) P_def)
  have bit: "u128_nonzero (u128_and (u128_shr p 105) (u128_of 1)) \<longleftrightarrow> 2 ^ 105 \<le> P"
  proof -
    have "u128_nonzero (u128_and (u128_shr p 105) (u128_of 1)) \<longleftrightarrow> odd (P div 2 ^ 105)"
      by (simp add: u128_nonzero_iff u128_val_and u128_val_shr p and_one_eq odd_iff_mod_2_eq_one)
    moreover have "odd (P div 2 ^ 105) \<longleftrightarrow> 2 ^ 105 \<le> P" using P(2) by (intro top_bit_iff) simp
    ultimately show ?thesis by blast
  qed
  have core: "round_and_pack s (?ea + ?eb - 1023 + int k)
      (if u128_nonzero (u128_and p (u128_sub (u128_shl (u128_of 1) (43 + int k)) (u128_of 1)))
       then u_lo (u128_shr p (43 + int k)) OR 1 else u_lo (u128_shr p (43 + int k))) m fe
      = ieee64 m (s \<noteq> 0) (\<bar>val64 a\<bar> * \<bar>val64 b\<bar>) fe"
    if k: "k \<le> 1" "2 ^ (104 + k) \<le> P" "P < 2 ^ (105 + k)" for k
  proof -
    have d: "2 ^ 61 \<le> P div 2 ^ (43 + k)" "P div 2 ^ (43 + k) < 2 ^ 62"
      using k(2,3) unfolding less_eq_div_iff_mult_less_eq [OF zero_less_power [OF pos2]]
        div_less_iff_less_mult [OF zero_less_power [OF pos2]] power_add [symmetric] by simp_all
    have n: "nat (43 + int k) = 43 + k" by simp
    have u: "unat (if u128_nonzero (u128_and p (u128_sub (u128_shl (u128_of 1) (43 + int k)) (u128_of 1)))
       then u_lo (u128_shr p (43 + int k)) OR 1 else u_lo (u128_shr p (43 + int k))) = jam P (43 + k)"
      using u128_extract_jam [of "43 + int k" p] d(2) k(1) by (simp add: n p)
    show ?thesis
    proof (rule round_and_pack_ieee64 [OF s], unfold u)
      show "2 ^ 61 \<le> jam P (43 + k)" using d(1) jam_ge by (rule order_trans)
      show "jam P (43 + k) < 2 ^ 62" using k(3) by (intro jam_less) simp_all
      show "same_cell 8 (real (jam P (43 + k))) (real P / 2 ^ (43 + k))" by (rule jam_cell) simp
      show "\<bar>val64 a\<bar> * \<bar>val64 b\<bar> = real P / 2 ^ (43 + k) * 2 powi (?ea + ?eb - 1023 + int k - 1084)"
      proof -
        have "(2::real) powi (?ea + ?eb - 1023 + int k - 1084) = 2 powi (?ea + ?eb - 2150) * 2 ^ (43 + k)"
          using powi2_add [of "?ea + ?eb - 2150" "int (43 + k)"] unfolding power_int_of_nat by (simp add: algebra_simps)
        then show ?thesis unfolding x by simp
      qed
    qed
  qed
  have k01: "43 + int 0 = 43" "43 + int 1 = 44" by simp_all
  show ?thesis
  proof (cases "2 ^ 105 \<le> P")
    case True
    then show ?thesis using core [of 1, unfolded k01] P unfolding mul_impl_def Let_def p_def [symmetric] bit
      by (simp add: kExpBias_def)
  next
    case False
    then show ?thesis using core [of 0, unfolded k01] P unfolding mul_impl_def Let_def p_def [symmetric] bit
      by (simp add: kExpBias_def)
  qed
qed


lemma val64_mult_sign:
  assumes "\<not> is_zero_bits a" "\<not> is_zero_bits b"
  shows "val64 a * val64 b = (if sgn64 a \<noteq> sgn64 b then - (\<bar>val64 a\<bar> * \<bar>val64 b\<bar>) else \<bar>val64 a\<bar> * \<bar>val64 b\<bar>)"
    and "val64 a / val64 b = (if sgn64 a \<noteq> sgn64 b then - (\<bar>val64 a\<bar> / \<bar>val64 b\<bar>) else \<bar>val64 a\<bar> / \<bar>val64 b\<bar>)"
  by (subst (1 2) val64_signed; simp)+

lemma sign_xor_01: "extract_sign a XOR extract_sign b = 0 \<or> extract_sign a XOR extract_sign b = 1"
  and sign_xor_iff: "extract_sign a XOR extract_sign b \<noteq> 0 \<longleftrightarrow> sgn64 a \<noteq> sgn64 b"
  and odd_sign_xor: "odd (unat (extract_sign a XOR extract_sign b)) \<longleftrightarrow> sgn64 a \<noteq> sgn64 b"
  by (auto simp: extract_sign_cases)

lemma mul_r_impl_finite:
  assumes "is_finite_bits a" "is_finite_bits b"
  shows "mul_r_impl a b m fe = round64 m (sgn64 a \<noteq> sgn64 b) (val64 a * val64 b) fe"
proof -
  note fin = finite_not_special [OF assms(1)] finite_not_special [OF assms(2)]
  show ?thesis
  proof (cases "is_zero_bits a \<or> is_zero_bits b")
    case True
    then have "val64 a * val64 b = 0" by (auto simp: val64_eq_0_iff)
    then show ?thesis using True fin
      by (simp add: mul_r_impl_def round64_def make_signed_zero_enc64 odd_sign_xor)
  next
    case False
    then have "0 < \<bar>val64 a\<bar> * \<bar>val64 b\<bar>" by (simp add: val64_eq_0_iff)
    moreover have "mul_r_impl a b m fe = ieee64 m (sgn64 a \<noteq> sgn64 b) (\<bar>val64 a\<bar> * \<bar>val64 b\<bar>) fe"
      using False fin mul_impl_correct [OF sign_xor_01 assms(1) _ assms(2), of a b]
      by (simp add: mul_r_impl_def sign_xor_iff)
    ultimately show ?thesis using False by (simp add: val64_mult_sign signed_round64)
  qed
qed

section \<open>Division\<close>

lemma powi2_shift: "(2::real) powi e * 2 ^ n = 2 powi (e + int n)"
  by (simp add: powi2_add)

text \<open>A quotient whose remainder is recorded in the lowest of the \<open>k\<close> bits shifted in.\<close>

lemma quotient_cell:
  assumes "0 < N" "1 \<le> k"
  shows "same_cell k (real (X div N * 2 ^ k + of_bool (X mod N \<noteq> 0))) (real X * 2 ^ k / real N)"
proof -
  have X: "real X = real (X div N) * real N + real (X mod N)"
    by (metis div_mult_mod_eq of_nat_add of_nat_mult)
  have y: "real X * 2 ^ k / real N = real (X div N) * 2 ^ k + real (X mod N) * 2 ^ k / real N"
    unfolding X using assms(1) by (simp add: field_simps)
  show ?thesis
  proof (cases "X mod N = 0")
    case False
    have "(2::real) ^ 1 \<le> 2 ^ k" using assms(2) by (intro power_increasing) simp_all
    moreover have "real (X mod N) * 2 ^ k / real N < 2 ^ k"
      using assms(1) by (simp add: divide_less_eq)
    ultimately show ?thesis
      unfolding y using assms(1) False by (intro same_cell_open [where m = "X div N"]) (simp_all add: distrib_right)
  qed (simp add: y)
qed

lemma div_impl_correct:
  assumes s: "s = 0 \<or> s = 1"
    and a: "is_finite_bits a" "\<not> is_zero_bits a" and b: "is_finite_bits b" "\<not> is_zero_bits b"
  shows "div_impl a b s m fe = ieee64 m (s \<noteq> 0) (\<bar>val64 a\<bar> / \<bar>val64 b\<bar>) fe"
proof -
  let ?a = "unpack_finite_nonzero a" and ?b = "unpack_finite_nonzero b"
  let ?ea = "up_exp ?a" and ?eb = "up_exp ?b"
  let ?A = "drop_bit 9 (up_sig ?a)" and ?B = "drop_bit 9 (up_sig ?b)"
  obtain M where A: "unat ?A = M" "2 ^ 52 \<le> M" "M < 2 ^ 53" "\<bar>val64 a\<bar> = real M * 2 powi (?ea - 1075)"
    using unpack_finite_nonzero_correct [OF a] by metis
  obtain N where B: "unat ?B = N" "2 ^ 52 \<le> N" "N < 2 ^ 53" "\<bar>val64 b\<bar> = real N * 2 powi (?eb - 1075)"
    using unpack_finite_nonzero_correct [OF b] by metis
  define j :: nat where "j = of_bool (M < N)"
  define A' where "A' = push_bit j ?A"
  have A': "unat A' = M * 2 ^ j" "N \<le> M * 2 ^ j" "M * 2 ^ j < 2 * N"
  proof -
    show "unat A' = M * 2 ^ j"
      unfolding A'_def using A(1,3) by (subst unat_push_bit_lt) (simp_all add: j_def)
    show "N \<le> M * 2 ^ j" "M * 2 ^ j < 2 * N" using A(2,3) B(2,3) by (auto simp: j_def)
  qed
  have lt: "?A < ?B \<longleftrightarrow> M < N" by (simp add: word_less_nat_alt A(1) B(1))
  define num where "num = u128_shl (u128_of A') 55"
  have num: "u128_val num = M * 2 ^ j * 2 ^ 55"
    unfolding num_def using A'(1,3) B(3) by (subst u128_val_shl_lt) simp_all
  have pre: "u_hi num < ?B"
  proof -
    have "M * 2 ^ j * 2 ^ 55 div 2 ^ 64 < N" using A'(3) B(2) by (simp add: div_less_iff_less_mult)
    then show ?thesis unfolding word_less_nat_alt u_hi_val num B(1) .
  qed
  obtain q r where qr: "divmod_u128_u64 num ?B = (q, r)" by (cases "divmod_u128_u64 num ?B")
  have q: "unat q = M * 2 ^ j * 2 ^ 55 div N" and r: "unat r = M * 2 ^ j * 2 ^ 55 mod N"
    using divmod_u128_u64_correct [OF pre] B by (simp_all add: qr num)
  have qb: "2 ^ 55 \<le> unat q" "unat q < 2 ^ 56"
    unfolding q using A' B(2) by (simp_all add: less_eq_div_iff_mult_less_eq div_less_iff_less_mult)
  define sig where "sig = (if r \<noteq> 0 then push_bit 6 q OR 1 else push_bit 6 q)"
  have sig: "unat sig = unat q * 2 ^ 6 + of_bool (unat r \<noteq> 0)"
  proof -
    have "unat (push_bit 6 q) = unat q * 2 ^ 6" using qb by (intro unat_push_bit_lt) simp
    then show ?thesis by (simp add: sig_def unat_or_1 unat_eq_zero)
  qed
  define y where "y = real (M * 2 ^ j) * 2 ^ 61 / real N"
  have cell: "same_cell 8 (real (unat sig)) y"
  proof -
    have "y = real (M * 2 ^ j * 2 ^ 55) * 2 ^ 6 / real N" by (simp add: y_def)
    moreover have "same_cell 6 (real (unat sig)) (real (M * 2 ^ j * 2 ^ 55) * 2 ^ 6 / real N)"
      unfolding sig q r using B(2) by (intro quotient_cell) simp_all
    ultimately show ?thesis by (auto intro: same_cell_mono)
  qed
  have x: "\<bar>val64 a\<bar> / \<bar>val64 b\<bar> = y * 2 powi (?ea - ?eb + 1023 - int j - 1084)"
  proof -
    have "(2::real) powi (?ea - ?eb + 1023 - int j - 1084) * 2 ^ j * 2 ^ 61 = 2 powi (?ea - ?eb)"
      unfolding powi2_shift by simp
    moreover have "(2::real) powi (?ea - 1075) = 2 powi (?ea - ?eb) * 2 powi (?eb - 1075)"
      using powi2_add [of "?ea - ?eb" "?eb - 1075"] by simp
    ultimately show ?thesis using B(2) by (simp add: A(4) B(4) y_def field_simps)
  qed
  have step: "div_impl a b s m fe =
    (let ex = ?ea - ?eb + 1023 - int j
     in if drop_bit 62 sig AND 1 \<noteq> 0 then round_and_pack s (ex + 1) (shift_right_jamming sig 1) m fe
        else round_and_pack s ex sig m fe)"
    using qr unfolding div_impl_def Let_def
    by (cases "M < N") (simp_all add: lt j_def A'_def num_def sig_def kExpBias_def)
  show ?thesis
    unfolding step Let_def using qb sig
    by (intro round_and_pack_carried [OF s _ _ cell x]) simp_all
qed

lemma div_r_impl_finite:
  assumes "is_finite_bits a" "is_finite_bits b" "\<not> is_zero_bits b"
  shows "div_r_impl a b m fe = round64 m (sgn64 a \<noteq> sgn64 b) (val64 a / val64 b) fe"
proof -
  note fin = finite_not_special [OF assms(1)] finite_not_special [OF assms(2)]
  show ?thesis
  proof (cases "is_zero_bits a")
    case True
    then have "val64 a / val64 b = 0" by (simp add: val64_eq_0_iff)
    then show ?thesis using True assms(3) fin
      by (simp add: div_r_impl_def round64_def make_signed_zero_enc64 odd_sign_xor)
  next
    case False
    then have "0 < \<bar>val64 a\<bar> / \<bar>val64 b\<bar>" using assms(3) by (simp add: val64_eq_0_iff)
    moreover have "div_r_impl a b m fe = ieee64 m (sgn64 a \<noteq> sgn64 b) (\<bar>val64 a\<bar> / \<bar>val64 b\<bar>) fe"
      using False assms(3) fin div_impl_correct [OF sign_xor_01 assms(1) _ assms(2), of a b]
      by (simp add: div_r_impl_def sign_xor_iff)
    ultimately show ?thesis using False assms(3) by (simp add: val64_mult_sign signed_round64)
  qed
qed

section \<open>Remainder\<close>

lemma rem_loop_mod:
  assumes "unat A < 2 * unat B" "unat B < 2 ^ 62"
  shows "unat (rem_loop k A B) = unat A * 2 ^ k mod unat B"
  using assms
proof (induction k A B rule: rem_loop.induct)
  case (1 A B)
  then show ?case by (auto simp: word_le_nat_alt unat_sub_le le_mod_geq)
next
  case (2 k A B)
  define A' where "A' = (if B \<le> A then A - B else A)"
  have A': "unat A' = unat A mod unat B"
    using "2.prems" by (auto simp: A'_def word_le_nat_alt unat_sub_le le_mod_geq)
  have B0: "0 < unat B" using "2.prems"(1) by simp
  have rest: "unat A' mod unat B * 2 ^ Suc k mod unat B = unat A * 2 ^ Suc k mod unat B"
    unfolding A' by (metis mod_mod_trivial mod_mult_left_eq)
  show ?case
  proof (cases "A' = 0")
    case True
    then have "unat A mod unat B = 0" using A' by simp
    then have "unat A * 2 ^ Suc k mod unat B = 0" by (metis mod_0 mod_mult_left_eq mult_zero_left)
    then show ?thesis using True by (simp add: A'_def Let_def del: power_Suc)
  next
    case False
    have lt: "unat A' < unat B" unfolding A' using B0 by (rule mod_less_divisor)
    have d: "unat (push_bit 1 A') = unat A' * 2"
      using lt "2.prems"(2) by (subst unat_push_bit_lt) simp_all
    have "unat (rem_loop k (push_bit 1 A') B) = unat (push_bit 1 A') * 2 ^ k mod unat B"
      using "2.IH" [OF A'_def False] d lt "2.prems"(2) by simp
    also have "\<dots> = unat A * 2 ^ Suc k mod unat B"
      using rest unfolding d mod_less [OF lt] by (simp add: mult.assoc)
    finally show ?thesis using False by (simp add: A'_def [symmetric] Let_def del: power_Suc)
  qed
qed

text \<open>Every value on the grid of a binade with at most 53 significant bits is an encoding.\<close>

lemma representable:
  assumes "0 < K" "K < 2 ^ 53" "- 1074 \<le> q" "q \<le> 971"
  obtains n where "0 < n" "n < inf64" "mag_val 52 (- 1074) n = real K * 2 powi q"
proof -
  obtain j where j: "2 ^ j \<le> K" "K < 2 ^ Suc j"
    using ex_power_ivl1 [of 2 K] assms(1) by auto
  have "(2::nat) ^ j < 2 ^ 53" using j(1) assms(2) by (rule order_le_less_trans)
  then have "j < 53" by (rule power_less_imp_less_exp [rotated]) simp
  define c where "c = min (52 - j) (nat (q + 1074))"
  define d where "d = nat (q + 1074) - c"
  have q: "q = - 1074 + int d + int c" using assms(3) by (simp add: d_def c_def)
  have "K * 2 ^ c < 2 ^ Suc j * 2 ^ c" using j(2) by simp
  also have "\<dots> \<le> 2 ^ 53" unfolding power_add [symmetric] using \<open>j < 53\<close> by (intro power_increasing) (simp_all add: c_def)
  finally have K1: "K * 2 ^ c < 2 ^ 53" .
  have K2: "2 ^ 52 \<le> K * 2 ^ c" if "0 < d"
  proof -
    have "c = 52 - j" using that by (simp add: d_def c_def)
    then have "(2::nat) ^ 52 = 2 ^ j * 2 ^ c" using \<open>j < 53\<close> by (simp flip: power_add)
    moreover have "2 ^ j * 2 ^ c \<le> K * 2 ^ c" using j(1) by (rule mult_right_mono) simp
    ultimately show ?thesis by simp
  qed
  show ?thesis
  proof (rule that)
    show "0 < d * 2 ^ 52 + K * 2 ^ c" using assms(1) by simp
    have "d * 2 ^ 52 \<le> 2045 * 2 ^ 52" using assms(3,4) by (intro mult_right_mono) (simp_all add: d_def)
    then show "d * 2 ^ 52 + K * 2 ^ c < inf64" using K1 by (simp add: inf64_def)
    have "mag_val 52 (- 1074) (d * 2 ^ 52 + K * 2 ^ c) = real (K * 2 ^ c) * 2 powi (- 1074 + int d)"
      using K1 K2 by (intro mag_val_encode) simp_all
    then show "mag_val 52 (- 1074) (d * 2 ^ 52 + K * 2 ^ c) = real K * 2 powi q"
      unfolding q by (simp add: powi2_add mult_ac)
  qed
qed

lemma val64_grid: "\<exists>K. \<bar>val64 b\<bar> = real K * 2 powi (- 1074)"
proof -
  obtain d k where n: "mag64 b = d * 2 ^ 52 + k" "k < 2 ^ Suc 52" "0 < d \<Longrightarrow> 2 ^ 52 \<le> k"
    using mag_decompose [of "mag64 b" 52] by blast
  have "mag_val 52 (- 1074) (d * 2 ^ 52 + k) = real k * 2 powi (- 1074 + int d)"
    using n mag_val_encode [of k 52 d "- 1074"] by simp
  also have "\<dots> = real (k * 2 ^ d) * 2 powi (- 1074)"
    by (simp only: powi2_shift [symmetric] of_nat_mult of_nat_power of_nat_numeral mult_ac)
  finally show ?thesis unfolding abs_val64 n(1) by blast
qed


text \<open>The real remainder with the quotient truncated towards zero.\<close>

definition trunc_real :: "real \<Rightarrow> int" where
  "trunc_real x = (if x < 0 then - \<lfloor>- x\<rfloor> else \<lfloor>x\<rfloor>)"

definition fmod_real :: "real \<Rightarrow> real \<Rightarrow> real" where
  "fmod_real x y = x - y * real_of_int (trunc_real (x / y))"

lemma trunc_real_signed: "0 \<le> x \<Longrightarrow> trunc_real (if s then - x else x) = (if s then - \<lfloor>x\<rfloor> else \<lfloor>x\<rfloor>)"
  by (auto simp: trunc_real_def)

lemma fmod_real_abs:
  assumes "b \<noteq> 0"
  shows "fmod_real a b = (if a < 0 then - (\<bar>a\<bar> - \<bar>b\<bar> * real_of_int \<lfloor>\<bar>a\<bar> / \<bar>b\<bar>\<rfloor>) else \<bar>a\<bar> - \<bar>b\<bar> * real_of_int \<lfloor>\<bar>a\<bar> / \<bar>b\<bar>\<rfloor>)"
proof -
  have "a / b = (if (a < 0) \<noteq> (b < 0) then - (\<bar>a\<bar> / \<bar>b\<bar>) else \<bar>a\<bar> / \<bar>b\<bar>)" by auto
  then have "trunc_real (a / b) = (if (a < 0) \<noteq> (b < 0) then - \<lfloor>\<bar>a\<bar> / \<bar>b\<bar>\<rfloor> else \<lfloor>\<bar>a\<bar> / \<bar>b\<bar>\<rfloor>)"
    using trunc_real_signed [of "\<bar>a\<bar> / \<bar>b\<bar>" "(a < 0) \<noteq> (b < 0)"] by simp
  then show ?thesis by (auto simp: fmod_real_def)
qed

lemma scaled_fmod:
  assumes "0 < N" "0 < (u::real)"
  shows "real M * u - real N * u * real_of_int \<lfloor>real M * u / (real N * u)\<rfloor> = real (M mod N) * u"
proof -
  have "\<lfloor>real M * u / (real N * u)\<rfloor> = int (M div N)"
    using assms(2) by (simp add: floor_divide_of_nat_eq)
  moreover have "real M = real N * real (M div N) + real (M mod N)"
    by (metis mult_div_mod_eq of_nat_add of_nat_mult)
  ultimately show ?thesis by (simp add: algebra_simps)
qed

lemma round_and_pack_exact:
  assumes s: "s = 0 \<or> s = 1" and sig: "2 ^ 61 \<le> unat sig" "unat sig < 2 ^ 62"
    and n: "0 < n" "n < inf64" "mag_val 52 (- 1074) n = real (unat sig) * 2 powi (ex - 1084)"
  shows "round_and_pack s ex sig m fe = (enc64 (s \<noteq> 0) n, fe)"
  using round_and_pack_ieee64 [OF s sig same_cell_refl refl, of ex m fe] ieee64_mag_val [OF n(1,2)]
  by (simp only: n(3) [symmetric])

lemma grid_remainder:
  assumes R: "0 < R" "R < N" "R = X mod N" and N: "N < 2 ^ 53" and e: "e \<le> 971"
    and X: "real X * 2 powi e = real KX * 2 powi (- 1074)" and Y: "real N * 2 powi e = real KN * 2 powi (- 1074)"
  obtains n where "0 < n" "n < inf64" "mag_val 52 (- 1074) n = real R * 2 powi e"
proof (cases "- 1074 \<le> e")
  case True
  show ?thesis using representable [OF R(1) _ True e] R(2) N that by auto
next
  case False
  define K where "K = int KX - int (X div N) * int KN"
  have "real X = real (X div N) * real N + real R"
    unfolding R(3) by (metis div_mult_mod_eq of_nat_add of_nat_mult)
  then have "real R * 2 powi e = real X * 2 powi e - real (X div N) * (real N * 2 powi e)"
    by (simp add: algebra_simps)
  also have "\<dots> = real_of_int K * 2 powi (- 1074)" unfolding X Y by (simp add: K_def algebra_simps)
  finally have RK: "real R * 2 powi e = real_of_int K * 2 powi (- 1074)" .
  have "0 < real R * 2 powi e" using R(1) by simp
  then have K0: "0 < K" unfolding RK by (simp add: zero_less_mult_iff)
  have "real R * 2 powi e \<le> real R * 2 powi (- 1074)" using False by (intro mult_left_mono powi2_mono) simp_all
  then have "real_of_int K \<le> real_of_int (int R)" unfolding RK by simp
  then have "K \<le> int R" by (simp only: of_int_le_iff)
  then have "0 < nat K" "nat K < 2 ^ 53" using K0 R(2) N by simp_all
  from representable [OF this, of "- 1074"] show ?thesis using that K0 by (auto simp: RK)
qed

text \<open>Packing a residual \<open>R\<close> below \<open>2 ^ 53\<close>, scaled by the divisor's exponent.\<close>

lemma rem_pack:
  fixes A :: u64 and eb :: int
  defines "shift \<equiv> (63 - clz64 A) - 52"
  defines "se \<equiv> (if 0 < shift then (drop_bit (nat shift) A, eb + shift) else (push_bit (nat (- shift)) A, eb - (- shift)))"
  assumes s: "s = 0 \<or> s = 1" and A: "A \<noteq> 0" "unat A < 2 ^ 53"
    and n: "0 < n" "n < inf64" "mag_val 52 (- 1074) n = real (unat A) * 2 powi (eb - 1075)"
  shows "round_and_pack s (snd se) (push_bit 9 (fst se)) m fe = (enc64 (s \<noteq> 0) n, fe)"
proof -
  note clz = clz64_bounds [OF A(1)]
  have "unat A * 2 ^ nat (clz64 A) < 2 ^ 53 * 2 ^ nat (clz64 A)" using A(2) by simp
  then have "(2::nat) ^ 63 < 2 ^ (53 + nat (clz64 A))"
    using clz(3) unfolding power_add by (rule order_le_less_trans [rotated])
  then have "63 < 53 + nat (clz64 A)" by (rule power_less_imp_less_exp [rotated]) simp
  then have sh: "shift \<le> 0" by (simp add: shift_def)
  define l where "l = nat (- shift)"
  have se: "se = (push_bit l A, eb - int l)" using sh by (simp add: se_def l_def)
  have c: "nat (clz64 A) = l + 11" using sh by (simp add: l_def shift_def)
  have b: "2 ^ 52 \<le> unat A * 2 ^ l" "unat A * 2 ^ l < 2 ^ 53" using clz(3,4) unfolding c power_add by simp_all
  define P where "P = push_bit 9 (push_bit l A)"
  have "unat (push_bit l A) = unat A * 2 ^ l" using b by (intro unat_push_bit_lt) simp
  then have u: "unat P = unat A * 2 ^ l * 2 ^ 9"
    unfolding P_def using b by (subst unat_push_bit_lt) simp_all
  have "real (unat A) * 2 powi (eb - 1075) = real (unat P) * 2 powi (eb - int l - 1084)"
    unfolding u using powi2_shift [of "eb - int l - 1084" "l + 9"] by (simp add: power_add mult_ac)
  then show ?thesis
    using b n unfolding se fst_conv snd_conv P_def [symmetric]
    by (intro round_and_pack_exact [OF s]) (simp_all only: u, simp_all)
qed

lemma rem_impl_finite:
  assumes a: "is_finite_bits a" and b: "is_finite_bits b" "\<not> is_zero_bits b"
  shows "\<exists>r. rem_impl a b fe = (r, fe) \<and> is_finite_bits r \<and> (sgn64 r \<longleftrightarrow> sgn64 a)
    \<and> val64 r = fmod_real (val64 a) (val64 b)"
proof (cases "is_zero_bits a")
  case True
  then show ?thesis using a b finite_not_special
    by (simp add: rem_impl_def fmod_real_def trunc_real_def val64_eq_0_iff [THEN iffD2])
next
  case a0: False
  note fin = finite_not_special [OF a] finite_not_special [OF b(1)]
  let ?a = "unpack_finite_nonzero a" and ?b = "unpack_finite_nonzero b"
  let ?ea = "up_exp ?a" and ?eb = "up_exp ?b"
  let ?A = "drop_bit 9 (up_sig ?a)" and ?B = "drop_bit 9 (up_sig ?b)"
  obtain M where A: "unat ?A = M" "2 ^ 52 \<le> M" "M < 2 ^ 53" "\<bar>val64 a\<bar> = real M * 2 powi (?ea - 1075)"
    using unpack_finite_nonzero_correct [OF a a0] by metis
  obtain N where B: "unat ?B = N" "2 ^ 52 \<le> N" "N < 2 ^ 53" "\<bar>val64 b\<bar> = real N * 2 powi (?eb - 1075)"
      "?eb \<le> 2046"
    using unpack_finite_nonzero_correct [OF b] by metis
  have bne: "val64 b \<noteq> 0" using b by (simp add: val64_eq_0_iff)
  have less: "?A < ?B \<longleftrightarrow> M < N" by (simp add: word_less_nat_alt A(1) B(1))
  show ?thesis
  proof (cases "?ea < ?eb \<or> (?ea = ?eb \<and> M < N)")
    case True
    have "\<bar>val64 a\<bar> < \<bar>val64 b\<bar>"
      using True normalized_less [OF B(2) A(3), of ?ea ?eb] unfolding A(4) B(4) by (auto simp: mult_strict_right_mono)
    then have fl: "\<lfloor>\<bar>val64 a\<bar> / \<bar>val64 b\<bar>\<rfloor> = 0" using bne by (simp add: floor_eq_iff)
    have "fmod_real (val64 a) (val64 b) = val64 a" unfolding fmod_real_abs [OF bne] fl by simp
    moreover have "rem_impl a b fe = (a, fe)" using True a0 b fin by (simp add: rem_impl_def less)
    ultimately show ?thesis using a by simp
  next
    case ge: False
    define k where "k = nat (?ea - ?eb)"
    define R where "R = M * 2 ^ k mod N"
    define u where "u = (2::real) powi (?eb - 1075)"
    have u: "0 < u" by (simp add: u_def)
    have av: "\<bar>val64 a\<bar> = real (M * 2 ^ k) * u"
      using ge powi2_shift [of "?eb - 1075" k] by (simp add: A(4) u_def k_def mult_ac)
    have bv: "\<bar>val64 b\<bar> = real N * u" by (simp add: B(4) u_def)
    have f: "fmod_real (val64 a) (val64 b) = (if sgn64 a then - (real R * u) else real R * u)"
      using a0 scaled_fmod [of N u "M * 2 ^ k"] u B(2)
      by (simp add: fmod_real_abs [OF bne] val64_sgn is_zero_bits_iff av bv R_def)
    have R: "unat (rem_loop (nat (?ea - ?eb)) ?A ?B) = R" "R < N"
      using rem_loop_mod [of ?A ?B k] A B by (simp_all add: R_def k_def)
    show ?thesis
    proof (cases "R = 0")
      case True
      then have "rem_loop (nat (?ea - ?eb)) ?A ?B = 0" using R(1) by (simp add: unat_eq_zero)
      then have "rem_impl a b fe = (enc64 (sgn64 a) 0, fe)"
        using ge a0 b fin by (auto simp: rem_impl_def less Let_def make_signed_zero_sign)
      then show ?thesis using True f by (simp add: class_iff mag64_enc64 sgn64_enc64 val64_enc64 inf64_def)
    next
      case False
      obtain KX where "\<bar>val64 a\<bar> = real KX * 2 powi (- 1074)" using val64_grid by blast
      moreover obtain KN where "\<bar>val64 b\<bar> = real KN * 2 powi (- 1074)" using val64_grid by blast
      ultimately obtain n where n: "0 < n" "n < inf64" "mag_val 52 (- 1074) n = real R * u"
        using grid_remainder [OF _ R(2) R_def B(3), of "?eb - 1075" KX KN] False B(5)
        unfolding av bv u_def by auto
      define L where "L = rem_loop (nat (?ea - ?eb)) ?A ?B"
      have L: "unat L = R" "L \<noteq> 0" using R(1) False by (auto simp: L_def)
      have "rem_impl a b fe =
        (let shift = (63 - clz64 L) - 52;
             se = (if 0 < shift then (drop_bit (nat shift) L, ?eb + shift)
                   else (push_bit (nat (- shift)) L, ?eb - (- shift)))
         in round_and_pack (extract_sign a) (snd se) (push_bit 9 (fst se)) SF64_RNE fe)"
        using ge a0 b fin L(2) by (auto simp: rem_impl_def less L_def [symmetric] Let_def)
      moreover have "unat L < 2 ^ 53" using L(1) R(2) B(3) by simp
      moreover have "mag_val 52 (- 1074) n = real (unat L) * 2 powi (?eb - 1075)"
        unfolding L(1) n(3) u_def ..
      ultimately have "rem_impl a b fe = (enc64 (sgn64 a) n, fe)"
        unfolding Let_def using rem_pack [OF extract_sign_01 L(2) _ n(1,2)] by (simp only: extract_sign_simps not_not)
      moreover have "n < 2 ^ 63" using n(2) by (simp add: inf64_def)
      ultimately show ?thesis using n f
        by (simp add: class_iff mag64_enc64 sgn64_enc64 val64_enc64)
    qed
  qed
qed

section \<open>The operations of IEEE 754, stated on the reals\<close>

text \<open>
  The reference: NaN operands are quieted and passed on (the first one that is a NaN), a signaling
  one raises INVALID; the invalid operations return the canonical NaN; every other operation on
  finite operands is the exact real result rounded once.
\<close>

definition quiet :: "f64 \<Rightarrow> f64" where
  "quiet b = b OR kQuietNaNBit"

definition nan_of :: "f64 \<Rightarrow> f64 \<Rightarrow> u32 \<Rightarrow> f64 \<times> u32" where
  "nan_of a b fe = (if is_nan_bits a then quiet a else quiet b,
     if is_snan_bits a \<or> is_snan_bits b then fe OR SF64_FE_INVALID else fe)"

definition ieee_add :: "sf64_rounding_mode \<Rightarrow> f64 \<Rightarrow> f64 \<Rightarrow> u32 \<Rightarrow> f64 \<times> u32" where
  "ieee_add m a b fe =
     (if is_nan_bits a \<or> is_nan_bits b then nan_of a b fe
      else if is_inf_bits a \<and> is_inf_bits b \<and> sgn64 a \<noteq> sgn64 b then (kCanonicalNaN, fe OR SF64_FE_INVALID)
      else if is_inf_bits a then (a, fe)
      else if is_inf_bits b then (b, fe)
      else round64 m (if is_zero_bits a \<and> is_zero_bits b \<and> (sgn64 a \<longleftrightarrow> sgn64 b) then sgn64 a else m = SF64_RDN)
             (val64 a + val64 b) fe)"

definition ieee_sub :: "sf64_rounding_mode \<Rightarrow> f64 \<Rightarrow> f64 \<Rightarrow> u32 \<Rightarrow> f64 \<times> u32" where
  "ieee_sub m a b fe =
     (if is_nan_bits a \<or> is_nan_bits b then nan_of a b fe
      else if is_inf_bits a \<and> is_inf_bits b \<and> (sgn64 a \<longleftrightarrow> sgn64 b) then (kCanonicalNaN, fe OR SF64_FE_INVALID)
      else if is_inf_bits a then (a, fe)
      else if is_inf_bits b then (enc64 (\<not> sgn64 b) inf64, fe)
      else round64 m (if is_zero_bits a \<and> is_zero_bits b \<and> sgn64 a \<noteq> sgn64 b then sgn64 a else m = SF64_RDN)
             (val64 a - val64 b) fe)"

definition ieee_mul :: "sf64_rounding_mode \<Rightarrow> f64 \<Rightarrow> f64 \<Rightarrow> u32 \<Rightarrow> f64 \<times> u32" where
  "ieee_mul m a b fe =
     (if is_nan_bits a \<or> is_nan_bits b then nan_of a b fe
      else if (is_inf_bits a \<and> is_zero_bits b) \<or> (is_zero_bits a \<and> is_inf_bits b)
      then (kCanonicalNaN, fe OR SF64_FE_INVALID)
      else if is_inf_bits a \<or> is_inf_bits b then (enc64 (sgn64 a \<noteq> sgn64 b) inf64, fe)
      else round64 m (sgn64 a \<noteq> sgn64 b) (val64 a * val64 b) fe)"

definition ieee_div :: "sf64_rounding_mode \<Rightarrow> f64 \<Rightarrow> f64 \<Rightarrow> u32 \<Rightarrow> f64 \<times> u32" where
  "ieee_div m a b fe =
     (if is_nan_bits a \<or> is_nan_bits b then nan_of a b fe
      else if (is_inf_bits a \<and> is_inf_bits b) \<or> (is_zero_bits a \<and> is_zero_bits b)
      then (kCanonicalNaN, fe OR SF64_FE_INVALID)
      else if is_inf_bits a then (enc64 (sgn64 a \<noteq> sgn64 b) inf64, fe)
      else if is_inf_bits b then (enc64 (sgn64 a \<noteq> sgn64 b) 0, fe)
      else if is_zero_bits b then (enc64 (sgn64 a \<noteq> sgn64 b) inf64, fe OR SF64_FE_DIVBYZERO)
      else round64 m (sgn64 a \<noteq> sgn64 b) (val64 a / val64 b) fe)"

lemma nan_dispatch_eq: "is_nan_bits a \<or> is_nan_bits b \<Longrightarrow> nan_dispatch a b fe = nan_of a b fe"
  by (auto simp: nan_dispatch_def nan_of_def propagate_nan_def quiet_def Let_def)

lemma class64_cases:
  obtains (nan) "is_nan_bits b" "\<not> is_inf_bits b" "\<not> is_finite_bits b" "\<not> is_zero_bits b" "extract_exp b = kExpMax"
  | (inf) "is_inf_bits b" "\<not> is_nan_bits b" "\<not> is_finite_bits b" "\<not> is_zero_bits b" "extract_exp b = kExpMax"
  | (finite) "is_finite_bits b" "\<not> is_nan_bits b" "\<not> is_inf_bits b" "extract_exp b \<noteq> kExpMax"
proof (cases "mag64 b" inf64 rule: linorder_cases)
  case less
  then show ?thesis using finite by (simp add: class_iff)
next
  case equal
  then show ?thesis using inf by (simp add: class_iff inf64_def)
next
  case greater
  then show ?thesis using nan by (simp add: class_iff inf64_def)
qed

lemma is_inf_enc64: "is_inf_bits b \<Longrightarrow> b = enc64 (sgn64 b) inf64"
  using enc64_sgn_mag [of b] by (simp add: is_inf_bits_iff)

lemma make_signed_inf_sign: "make_signed_inf (extract_sign b) = enc64 (sgn64 b) inf64"
  by (simp add: make_signed_inf_enc64 extract_sign_cases)

lemma odd_extract_sign: "odd (unat (extract_sign b)) \<longleftrightarrow> sgn64 b"
  by (simp add: extract_sign_cases)

lemma is_snan_neg [simp]: "is_snan_bits (sf64_neg b) = is_snan_bits b"
proof -
  have "sf64_neg b AND kQuietNaNBit = b AND kQuietNaNBit"
    by (simp add: sf64_neg_def kSignMask_def kQuietNaNBit_def bit.conj_xor_distrib2)
  then show ?thesis by (simp add: is_snan_bits_def)
qed

lemma enc64_inf_eq: "is_inf_bits b \<Longrightarrow> enc64 s inf64 = b \<longleftrightarrow> s = sgn64 b"
proof -
  assume "is_inf_bits b"
  then have m: "mag64 b = inf64" by (simp add: is_inf_bits_iff)
  have "inf64 < 2 ^ 63" by (simp add: inf64_def)
  then show ?thesis unfolding f64_eq_iff m by (simp add: sgn64_enc64 mag64_enc64)
qed

lemma inf_eq_iff: "is_inf_bits a \<Longrightarrow> is_inf_bits b \<Longrightarrow> a = b \<longleftrightarrow> sgn64 a = sgn64 b"
  by (simp add: f64_eq_iff is_inf_bits_iff)

lemmas special_simps = enc64_inf_eq inf_eq_iff odd_extract_sign nan_dispatch_eq make_signed_inf_sign make_signed_inf_enc64 make_signed_zero_enc64
  odd_sign_xor canonical_nan_def is_inf_enc64 [symmetric]

lemma add_r_impl_sound: "add_r_impl a b m fe = ieee_add m a b fe"
proof (cases a rule: class64_cases)
  case nan
  then show ?thesis by (simp add: add_r_impl_def ieee_add_def nan_dispatch_eq)
next
  case inf
  then show ?thesis by (cases b rule: class64_cases) (auto simp: add_r_impl_def ieee_add_def special_simps)
next
  case a: finite
  then show ?thesis
    by (cases b rule: class64_cases)
      (auto simp: add_r_impl_finite ieee_add_def, auto simp: add_r_impl_def special_simps)
qed

lemma mul_r_impl_sound: "mul_r_impl a b m fe = ieee_mul m a b fe"
proof (cases a rule: class64_cases)
  case nan
  then show ?thesis by (simp add: mul_r_impl_def ieee_mul_def nan_dispatch_eq)
next
  case inf
  then show ?thesis by (cases b rule: class64_cases) (auto simp: mul_r_impl_def ieee_mul_def special_simps)
next
  case a: finite
  then show ?thesis
    by (cases b rule: class64_cases)
      (auto simp: mul_r_impl_finite ieee_mul_def, auto simp: mul_r_impl_def special_simps)
qed

lemma div_r_impl_sound: "div_r_impl a b m fe = ieee_div m a b fe"
proof (cases a rule: class64_cases)
  case nan
  then show ?thesis by (simp add: div_r_impl_def ieee_div_def nan_dispatch_eq)
next
  case inf
  then show ?thesis by (cases b rule: class64_cases) (auto simp: div_r_impl_def ieee_div_def special_simps)
next
  case a: finite
  then show ?thesis
    by (cases b rule: class64_cases; cases "is_zero_bits b")
      (auto simp: div_r_impl_finite ieee_div_def, auto simp: div_r_impl_def special_simps)
qed

lemma sub_r_impl_sound:
  assumes "snan \<or> \<not> is_nan_bits b \<or> is_nan_bits a"
  shows "sub_r_impl snan a b m fe = ieee_sub m a b fe"
proof (cases "is_nan_bits a \<or> is_nan_bits b")
  case True
  then show ?thesis using assms
    by (cases snan) (auto simp: sub_r_impl_def ieee_sub_def nan_dispatch_eq add_r_impl_def nan_of_def)
next
  case False
  then have "sub_r_impl snan a b m fe = add_r_impl a (sf64_neg b) m fe" by (simp add: sub_r_impl_def)
  also have "\<dots> = ieee_sub m a b fe"
  proof (cases a rule: class64_cases)
    case inf
    then show ?thesis using False
      by (cases b rule: class64_cases) (auto simp: add_r_impl_def ieee_sub_def special_simps kExpMax_iff)
  next
    case a: finite
    then show ?thesis using False
      by (cases b rule: class64_cases)
        (auto simp: add_r_impl_finite ieee_sub_def, auto simp: add_r_impl_def special_simps kExpMax_iff)
  qed (use False in simp)
  finally show ?thesis .
qed

end
