(* ===== verification/Sf_Arith_Props.thy ===== *)
theory Sf_Arith_Props
  imports Sf_Round
begin

text \<open>
  The properties of the arithmetic component: each operation against its IEEE 754 specification on
  all operands, what the rounding modes promise about a result, the nearest-even specializations
  and what a public entry does to the flag stores.
\<close>

section \<open>Properties\<close>

text \<open>
  C1: Addition (every rounding mode, every pair of operands) is the IEEE 754 operation: the
  exact real sum rounded once, with the right sign of an exact zero, the right special results and
  exactly the right flags.  A NaN operand comes back quieted with its own sign and payload, as
  \<open>tests/test_snan_payload.cpp\<close> checks; \<open>soft_f64.h\<close> announces the canonical quiet NaN for every NaN
  operand, and the code does not do that.
\<close>

theorem add_r_impl_correct: "add_r_impl a b m fe = ieee_add m a b fe"
  by (rule add_r_impl_sound)

text \<open>
  Subtraction likewise, in the default build (\<open>SOFT_FP64_SNAN_PROPAGATE\<close> off) for operands
  that are not NaN and in the propagating build for all operands.
\<close>

theorem sub_r_impl_correct:
  assumes "snan \<or> \<not> is_nan_bits b \<or> is_nan_bits a"
  shows "sub_r_impl snan a b m fe = ieee_sub m a b fe"
  using assms by (rule sub_r_impl_sound)

lemma sub_r_impl_correct_witness:
  "sub_r_impl False 0x7FF0000000000001 0x3FF0000000000000 SF64_RNE 0 = (0x7FF8000000000001, SF64_FE_INVALID)"
proof -
  have n: "is_nan_bits 0x7FF0000000000001" "is_snan_bits 0x7FF0000000000001"
    by code_simp+
  then have "sub_r_impl False 0x7FF0000000000001 0x3FF0000000000000 SF64_RNE 0
      = ieee_sub SF64_RNE 0x7FF0000000000001 0x3FF0000000000000 0"
    by (intro sub_r_impl_correct) simp
  then show ?thesis using n by (simp add: ieee_sub_def nan_of_def quiet_def kQuietNaNBit_def)
qed

text \<open>
  C2: Multiplication is the exact real product rounded once, with IEEE 754 special cases and flags.  A NaN
  operand comes back quieted with its own sign and payload, not as the canonical quiet NaN that
  \<open>soft_f64.h\<close> announces.
\<close>

theorem mul_r_impl_correct: "mul_r_impl a b m fe = ieee_mul m a b fe"
  by (rule mul_r_impl_sound)

text \<open>
  C3: Division is the exact real quotient rounded once, with IEEE 754 special cases (division by
  zero included) and flags.  A NaN operand comes back quieted with its own sign and payload, not as the
  canonical quiet NaN that \<open>soft_f64.h\<close> announces.
\<close>

theorem div_r_impl_correct: "div_r_impl a b m fe = ieee_div m a b fe"
  by (rule div_r_impl_sound)

text \<open>
  C6: The remainder is exact: for finite operands and a nonzero divisor the result is the real
  \<open>a - b * trunc (a / b)\<close> with the sign of \<open>a\<close>, and no flag is raised; an infinite dividend or a
  zero divisor is invalid, an infinite divisor returns the dividend.  A NaN operand comes back quieted
  with its own sign and payload (\<open>nan_of\<close>), not as the canonical quiet NaN that \<open>soft_f64.h\<close> announces.
\<close>

theorem rem_impl_correct:
  "if is_nan_bits a \<or> is_nan_bits b then rem_impl a b fe = nan_of a b fe
   else if is_inf_bits a \<or> is_zero_bits b then rem_impl a b fe = (kCanonicalNaN, fe OR SF64_FE_INVALID)
   else if is_inf_bits b then rem_impl a b fe = (a, fe)
   else snd (rem_impl a b fe) = fe \<and> is_finite_bits (fst (rem_impl a b fe))
     \<and> (sgn64 (fst (rem_impl a b fe)) \<longleftrightarrow> sgn64 a)
     \<and> val64 (fst (rem_impl a b fe)) = fmod_real (val64 a) (val64 b)"
proof (cases a rule: class64_cases)
  case nan
  then show ?thesis by (simp add: rem_impl_def nan_dispatch_eq)
next
  case inf
  then show ?thesis by (cases b rule: class64_cases) (auto simp: rem_impl_def nan_dispatch_eq canonical_nan_def)
next
  case a: finite
  then show ?thesis
    using rem_impl_finite [of a b fe]
    by (cases b rule: class64_cases; cases "is_zero_bits b") (auto simp: rem_impl_def nan_dispatch_eq canonical_nan_def)
qed

text \<open>
  C39: The round-to-nearest-even specializations of the header and of the default entries are
  the generic bodies at \<open>SF64_RNE\<close>: same bits, same flags, for every input and build.
\<close>

theorem rne_specializations:
  "sf64_add a b m t w = sf64_add_r SF64_RNE a b m t w
   \<and> sf64_sub snan a b m t w = sf64_sub_r snan SF64_RNE a b m t w
   \<and> sf64_mul a b m t w = sf64_mul_r SF64_RNE a b m t w
   \<and> sf64_div a b m t w = sf64_div_r SF64_RNE a b m t w
   \<and> sf64_add_ex a b p m t w = sf64_add_r_ex SF64_RNE a b p m t w
   \<and> sf64_sub_ex snan a b p m t w = sf64_sub_r_ex snan SF64_RNE a b p m t w
   \<and> sf64_mul_ex a b p m t w = sf64_mul_r_ex SF64_RNE a b p m t w
   \<and> sf64_div_ex a b p m t w = sf64_div_r_ex SF64_RNE a b p m t w"
  by (simp_all add: sf64_add_def sf64_add_r_def sf64_sub_def sf64_sub_r_def sf64_mul_def sf64_mul_r_def
      sf64_div_def sf64_div_r_def sf64_add_ex_def sf64_add_r_ex_def sf64_sub_ex_def sf64_sub_r_ex_def
      sf64_mul_ex_def sf64_mul_r_ex_def sf64_div_ex_def sf64_div_r_ex_def
      internal_add_rne_eq internal_sub_rne_eq internal_mul_rne_eq internal_div_rne_eq)

section \<open>What the rounding direction means for a result\<close>

lemma abs_val64_mag: "is_finite_bits c \<Longrightarrow> \<bar>val64 c\<bar> = mag_val 52 (- 1074) (mag64 c)"
  by (rule abs_val64)

text \<open>The magnitude of a rounded result that did not overflow.\<close>

lemma ieee64_finite:
  assumes "0 < x" "is_finite_bits (fst (ieee64 m s x fe))" 
    and "rounds_nearest m"
  shows "fst (ieee64 m s x fe) = enc64 s (round_mag 52 (- 1074) m s x)" "round_mag 52 (- 1074) m s x < inf64"
proof -
  let ?n = "round_mag 52 (- 1074) m s x"
  have "overflow_mag 52 2047 m s = inf64" using assms(3) by (auto simp: overflow_mag_def rounds_down_def rounds_nearest_def inf64_def)
  then have *: "inf64 \<le> ?n \<Longrightarrow> fst (ieee64 m s x fe) = enc64 s inf64"
    by (simp add: ieee64_def ieee_round_def Let_def inf64_def)
  have "mag64 (enc64 s inf64) = inf64" by (simp add: mag64_enc64 inf64_def)
  then show n: "?n < inf64" using * assms(2) by (cases "inf64 \<le> ?n") (auto simp: is_finite_bits_iff)
  then show "fst (ieee64 m s x fe) = enc64 s ?n"
    by (simp add: ieee64_def ieee_round_def Let_def inf64_def)
qed

lemma nearest_signed:
  assumes "\<And>n. \<bar>mag_val 52 (- 1074) N - x\<bar> \<le> \<bar>mag_val 52 (- 1074) n - x\<bar>" "N < 2 ^ 63" "0 < x"
  shows "\<bar>val64 (enc64 s N) - (if s then - x else x)\<bar> \<le> \<bar>val64 c - (if s then - x else x)\<bar>"
proof -
  have "\<bar>val64 (enc64 s N) - (if s then - x else x)\<bar> = \<bar>mag_val 52 (- 1074) N - x\<bar>"
    by (simp add: val64_enc64 [OF assms(2)] abs_minus_commute)
  also have "\<dots> \<le> \<bar>mag_val 52 (- 1074) (mag64 c) - x\<bar>" by (rule assms(1))
  also have "\<dots> \<le> \<bar>val64 c - (if s then - x else x)\<bar>"
    using assms(3) mag_val_nonneg [of 52 "- 1074" "mag64 c"]
    by (cases s; cases "sgn64 c"; simp only: val64_def if_True if_False; linarith)
  finally show ?thesis .
qed

lemma round64_nearest:
  assumes "rounds_nearest m" "is_finite_bits (fst (round64 m z x fe))"
  shows "\<bar>val64 (fst (round64 m z x fe)) - x\<bar> \<le> \<bar>val64 c - x\<bar>"
proof (cases "x = 0")
  case True
  then show ?thesis by (simp add: round64_def val64_enc64)
next
  case False
  define s where "s \<longleftrightarrow> x < 0"
  have x: "x = (if s then - \<bar>x\<bar> else \<bar>x\<bar>)" and r: "round64 m z x fe = ieee64 m s \<bar>x\<bar> fe"
    using False by (auto simp: s_def round64_def)
  have f: "is_finite_bits (fst (ieee64 m s \<bar>x\<bar> fe))" using assms(2) r by simp
  note e = ieee64_finite [OF _ f assms(1)]
  have "round_mag 52 (- 1074) m s \<bar>x\<bar> < 2 ^ 63" using e(2) False by (simp add: inf64_def)
  then have "\<bar>val64 (enc64 s (round_mag 52 (- 1074) m s \<bar>x\<bar>)) - (if s then - \<bar>x\<bar> else \<bar>x\<bar>)\<bar>
      \<le> \<bar>val64 c - (if s then - \<bar>x\<bar> else \<bar>x\<bar>)\<bar>"
    using False assms(1) by (intro nearest_signed round_mag_nearest) simp_all
  then show ?thesis using e(1) False x r by simp
qed


lemma ieee64_down:
  assumes "0 < x" "rounds_down m s"
  obtains n where "n < inf64" "fst (ieee64 m s x fe) = enc64 s n" "\<And>k. k < inf64 \<Longrightarrow> k \<le> n \<longleftrightarrow> mag_val 52 (- 1074) k \<le> x"
proof -
  let ?n = "round_mag 52 (- 1074) m s x"
  have k: "k \<le> ?n \<longleftrightarrow> mag_val 52 (- 1074) k \<le> x" for k by (rule round_mag_down_iff [OF assms])
  show ?thesis
  proof (cases "inf64 \<le> ?n")
    case True
    then have "fst (ieee64 m s x fe) = enc64 s (inf64 - 1)"
      using assms(2) by (simp add: ieee64_def ieee_round_def overflow_mag_def inf64_def)
    moreover have "k \<le> inf64 - 1 \<longleftrightarrow> mag_val 52 (- 1074) k \<le> x" if "k < inf64" for k
      using k [of k] True that by simp
    ultimately show ?thesis using that [of "inf64 - 1"] by (simp add: inf64_def)
  next
    case False
    then have "fst (ieee64 m s x fe) = enc64 s ?n" by (simp add: ieee64_def ieee_round_def Let_def inf64_def)
    moreover have "?n < inf64" using False by (simp only: not_le)
    ultimately show ?thesis using k by (intro that [of ?n])
  qed
qed

lemma ieee64_up:
  assumes "0 < x" "rounds_up m s" "is_finite_bits (fst (ieee64 m s x fe))"
  obtains n where "n < inf64" "fst (ieee64 m s x fe) = enc64 s n" "\<And>k. n \<le> k \<longleftrightarrow> x \<le> mag_val 52 (- 1074) k"
proof -
  let ?n = "round_mag 52 (- 1074) m s x"
  have nd: "\<not> rounds_down m s" using assms(2) by (auto simp: rounds_up_def rounds_down_def)
  have i: "mag64 (enc64 s inf64) = inf64" by (simp add: mag64_enc64 inf64_def)
  have "?n < inf64"
  proof (rule ccontr)
    assume "\<not> ?n < inf64"
    then have "fst (ieee64 m s x fe) = enc64 s inf64"
      using nd by (simp add: ieee64_def ieee_round_def overflow_mag_def inf64_def)
    then show False using assms(3) i by (simp add: is_finite_bits_iff)
  qed
  moreover from this have "fst (ieee64 m s x fe) = enc64 s ?n"
    by (simp add: ieee64_def ieee_round_def Let_def inf64_def)
  ultimately show ?thesis using that round_mag_up_iff [OF assms(1,2)] by blast
qed

lemma val64_nonneg_cases: "val64 c = (if sgn64 c then - mag_val 52 (- 1074) (mag64 c) else mag_val 52 (- 1074) (mag64 c))"
  by (rule val64_def)

text \<open>Round-down gives the largest finite value below the exact result, round-up the smallest above.\<close>

definition greatest_below :: "f64 \<Rightarrow> real \<Rightarrow> bool" where
  "greatest_below r x \<longleftrightarrow> val64 r \<le> x \<and> (\<forall>c. is_finite_bits c \<and> val64 c \<le> x \<longrightarrow> val64 c \<le> val64 r)"

definition least_above :: "f64 \<Rightarrow> real \<Rightarrow> bool" where
  "least_above r x \<longleftrightarrow> x \<le> val64 r \<and> (\<forall>c. is_finite_bits c \<and> x \<le> val64 c \<longrightarrow> val64 r \<le> val64 c)"

lemma down_enc64:
  assumes "n < inf64" "\<And>k. k < inf64 \<Longrightarrow> k \<le> n \<longleftrightarrow> mag_val 52 (- 1074) k \<le> x" "0 < x"
  shows "greatest_below (enc64 False n) x" "least_above (enc64 True n) (- x)"
proof -
  have n: "n < 2 ^ 63" using assms(1) by (simp add: inf64_def)
  have c: "mag_val 52 (- 1074) (mag64 c) \<le> mag_val 52 (- 1074) n"
    if "is_finite_bits c" "mag_val 52 (- 1074) (mag64 c) \<le> x" for c
    using assms(2) [of "mag64 c"] that by (simp add: is_finite_bits_iff)
  have nx: "mag_val 52 (- 1074) n \<le> x" using assms(2) [OF assms(1)] by simp
  note nn = mag_val_nonneg [of 52 "- 1074"]
  show "greatest_below (enc64 False n) x"
    unfolding greatest_below_def val64_enc64 [OF n] using nx c nn
    by (auto simp: val64_def) (smt (verit) nn)
  show "least_above (enc64 True n) (- x)"
    unfolding least_above_def val64_enc64 [OF n] using nx c nn
    by (auto simp: val64_def) (smt (verit) nn)
qed

lemma up_enc64:
  assumes "n < inf64" "\<And>k. n \<le> k \<longleftrightarrow> x \<le> mag_val 52 (- 1074) k" "0 < x"
  shows "least_above (enc64 False n) x" "greatest_below (enc64 True n) (- x)"
proof -
  have n: "n < 2 ^ 63" using assms(1) by (simp add: inf64_def)
  have c: "mag_val 52 (- 1074) n \<le> mag_val 52 (- 1074) (mag64 c)" if "x \<le> mag_val 52 (- 1074) (mag64 c)" for c
    using assms(2) [of "mag64 c"] that by simp
  have nx: "x \<le> mag_val 52 (- 1074) n" using assms(2) [of n] by simp
  have neg: "\<not> x \<le> - mag_val 52 (- 1074) k" for k using mag_val_nonneg [of 52 "- 1074" k] assms(3) by linarith
  show "least_above (enc64 False n) x"
    unfolding least_above_def val64_enc64 [OF n] using nx c neg by (auto simp: val64_def)
  have neg': "\<not> mag_val 52 (- 1074) k \<le> - x" for k using mag_val_nonneg [of 52 "- 1074" k] assms(3) by linarith
  show "greatest_below (enc64 True n) (- x)"
    unfolding greatest_below_def val64_enc64 [OF n] using nx c neg' by (auto simp: val64_def)
qed

lemma round64_directed:
  assumes "is_finite_bits (fst (round64 m z x fe))"
  shows "m = SF64_RDN \<Longrightarrow> greatest_below (fst (round64 m z x fe)) x"
    "m = SF64_RUP \<Longrightarrow> least_above (fst (round64 m z x fe)) x"
    "m = SF64_RTZ \<Longrightarrow> (if 0 \<le> x then greatest_below else least_above) (fst (round64 m z x fe)) x"
proof -
  have zero: "greatest_below (enc64 z 0) 0 \<and> least_above (enc64 z 0) 0"
    by (simp add: greatest_below_def least_above_def val64_enc64)
  show "m = SF64_RDN \<Longrightarrow> greatest_below (fst (round64 m z x fe)) x"
  proof (cases x "0 :: real" rule: linorder_cases)
    case less
    assume m: "m = SF64_RDN"
    from m less obtain n where "n < inf64" "fst (ieee64 m True (- x) fe) = enc64 True n"
      "\<And>k. n \<le> k \<longleftrightarrow> - x \<le> mag_val 52 (- 1074) k"
      using assms ieee64_up [of "- x" m True fe] by (auto simp: round64_neg rounds_up_def)
    with less show ?thesis using up_enc64(2) [of n "- x"] by (simp add: round64_neg)
  next
    case greater
    assume m: "m = SF64_RDN"
    from m greater obtain n where "n < inf64" "fst (ieee64 m False x fe) = enc64 False n"
      "\<And>k. k < inf64 \<Longrightarrow> k \<le> n \<longleftrightarrow> mag_val 52 (- 1074) k \<le> x"
      using ieee64_down [of x m False fe] by (auto simp: rounds_down_def)
    with greater show ?thesis using down_enc64(1) [of n x] by (simp add: round64_pos)
  qed (use zero in \<open>simp add: round64_def\<close>)
  show "m = SF64_RUP \<Longrightarrow> least_above (fst (round64 m z x fe)) x"
  proof (cases x "0 :: real" rule: linorder_cases)
    case less
    assume m: "m = SF64_RUP"
    from m less obtain n where "n < inf64" "fst (ieee64 m True (- x) fe) = enc64 True n"
      "\<And>k. k < inf64 \<Longrightarrow> k \<le> n \<longleftrightarrow> mag_val 52 (- 1074) k \<le> - x"
      using ieee64_down [of "- x" m True fe] by (auto simp: rounds_down_def)
    with less show ?thesis using down_enc64(2) [of n "- x"] by (simp add: round64_neg)
  next
    case greater
    assume m: "m = SF64_RUP"
    from m greater obtain n where "n < inf64" "fst (ieee64 m False x fe) = enc64 False n"
      "\<And>k. n \<le> k \<longleftrightarrow> x \<le> mag_val 52 (- 1074) k"
      using assms ieee64_up [of x m False fe] by (auto simp: round64_pos rounds_up_def)
    with greater show ?thesis using up_enc64(1) [of n x] by (simp add: round64_pos)
  qed (use zero in \<open>simp add: round64_def\<close>)
  show "m = SF64_RTZ \<Longrightarrow> (if 0 \<le> x then greatest_below else least_above) (fst (round64 m z x fe)) x"
  proof (cases x "0 :: real" rule: linorder_cases)
    case less
    assume m: "m = SF64_RTZ"
    from m less obtain n where "n < inf64" "fst (ieee64 m True (- x) fe) = enc64 True n"
      "\<And>k. k < inf64 \<Longrightarrow> k \<le> n \<longleftrightarrow> mag_val 52 (- 1074) k \<le> - x"
      using ieee64_down [of "- x" m True fe] by (auto simp: rounds_down_def)
    with less show ?thesis using down_enc64(2) [of n "- x"] by (simp add: round64_neg)
  next
    case greater
    assume m: "m = SF64_RTZ"
    from m greater obtain n where "n < inf64" "fst (ieee64 m False x fe) = enc64 False n"
      "\<And>k. k < inf64 \<Longrightarrow> k \<le> n \<longleftrightarrow> mag_val 52 (- 1074) k \<le> x"
      using ieee64_down [of x m False fe] by (auto simp: rounds_down_def)
    with greater show ?thesis using down_enc64(1) [of n x] by (simp add: round64_pos)
  qed (use zero in \<open>simp add: round64_def\<close>)
qed


text \<open>
  C30: In the nearest modes every finite result of the four operations is optimal: no double is
  closer to the exact real result.
\<close>

theorem nearest_modes_optimal:
  assumes "rounds_nearest m" "is_finite_bits a" "is_finite_bits b"
  shows "(is_finite_bits (fst (add_r_impl a b m fe)) \<longrightarrow>
      \<bar>val64 (fst (add_r_impl a b m fe)) - (val64 a + val64 b)\<bar> \<le> \<bar>val64 c - (val64 a + val64 b)\<bar>)
    \<and> (is_finite_bits (fst (sub_r_impl snan a b m fe)) \<longrightarrow>
      \<bar>val64 (fst (sub_r_impl snan a b m fe)) - (val64 a - val64 b)\<bar> \<le> \<bar>val64 c - (val64 a - val64 b)\<bar>)
    \<and> (is_finite_bits (fst (mul_r_impl a b m fe)) \<longrightarrow>
      \<bar>val64 (fst (mul_r_impl a b m fe)) - (val64 a * val64 b)\<bar> \<le> \<bar>val64 c - (val64 a * val64 b)\<bar>)
    \<and> (\<not> is_zero_bits b \<and> is_finite_bits (fst (div_r_impl a b m fe)) \<longrightarrow>
      \<bar>val64 (fst (div_r_impl a b m fe)) - val64 a / val64 b\<bar> \<le> \<bar>val64 c - val64 a / val64 b\<bar>)"
  using assms(1)
  by (auto simp: add_r_impl_finite sub_r_impl_finite mul_r_impl_finite div_r_impl_finite
      assms(2,3) round64_nearest)

lemma nearest_modes_optimal_witness:
  "\<bar>val64 (fst (add_r_impl 0x3FF0000000000000 0x3CA0000000000001 SF64_RNE 0)) - (val64 0x3FF0000000000000 + val64 0x3CA0000000000001)\<bar>
     \<le> \<bar>val64 0x3FF0000000000000 - (val64 0x3FF0000000000000 + val64 0x3CA0000000000001)\<bar>"
proof -
  have "rounds_nearest SF64_RNE" by (simp add: rounds_nearest_def)
  moreover have "is_finite_bits 0x3FF0000000000000" "is_finite_bits 0x3CA0000000000001" by code_simp+
  moreover have "is_finite_bits (fst (add_r_impl 0x3FF0000000000000 0x3CA0000000000001 SF64_RNE 0))" by code_simp
  ultimately show ?thesis by (blast dest: nearest_modes_optimal)
qed


definition directed :: "sf64_rounding_mode \<Rightarrow> f64 \<Rightarrow> real \<Rightarrow> bool" where
  "directed m r x \<longleftrightarrow> (m = SF64_RDN \<longrightarrow> greatest_below r x) \<and> (m = SF64_RUP \<longrightarrow> least_above r x)
     \<and> (m = SF64_RTZ \<longrightarrow> (if 0 \<le> x then greatest_below r x else least_above r x))"

lemma round64_directed_mode:
  "is_finite_bits (fst (round64 m z x fe)) \<Longrightarrow> directed m (fst (round64 m z x fe)) x"
  using round64_directed [of m z x fe] by (auto simp: directed_def split: if_splits)

text \<open>
  C29: The directed modes bracket: a finite round-down result is the greatest double not above
  the exact real result, a finite round-up result the least one not below it, and a finite
  round-to-zero result the one of the two that is not farther from zero than the exact result.
\<close>

theorem directed_modes_bracket:
  assumes "is_finite_bits a" "is_finite_bits b"
  shows "(is_finite_bits (fst (add_r_impl a b m fe)) \<longrightarrow>
      directed m (fst (add_r_impl a b m fe)) (val64 a + val64 b))
    \<and> (is_finite_bits (fst (sub_r_impl snan a b m fe)) \<longrightarrow>
      directed m (fst (sub_r_impl snan a b m fe)) (val64 a - val64 b))
    \<and> (is_finite_bits (fst (mul_r_impl a b m fe)) \<longrightarrow>
      directed m (fst (mul_r_impl a b m fe)) (val64 a * val64 b))
    \<and> (\<not> is_zero_bits b \<and> is_finite_bits (fst (div_r_impl a b m fe)) \<longrightarrow>
      directed m (fst (div_r_impl a b m fe)) (val64 a / val64 b))"
  by (auto simp: add_r_impl_finite sub_r_impl_finite mul_r_impl_finite div_r_impl_finite
      assms round64_directed_mode)

lemma directed_modes_bracket_witness:
  "directed SF64_RDN (fst (div_r_impl 0x3FF0000000000000 0x4008000000000000 SF64_RDN 0))
     (val64 0x3FF0000000000000 / val64 0x4008000000000000)"
proof -
  have "is_finite_bits 0x3FF0000000000000" "is_finite_bits 0x4008000000000000"
    "\<not> is_zero_bits 0x4008000000000000" by code_simp+
  moreover have "is_finite_bits (fst (div_r_impl 0x3FF0000000000000 0x4008000000000000 SF64_RDN 0))" by code_simp
  ultimately show ?thesis by (blast dest: directed_modes_bracket)
qed

text \<open>
  What a public entry does to the world: in the TLS build it returns the IEEE 754 result and
  ors exactly that operation's flags into the calling thread's bag; the \<open>_ex\<close> entry with a state
  object puts them there instead; in a disabled build the value is the same and no store changes.
\<close>

theorem entry_semantics:
  "sf64_add_r mode a b Fenv_Tls t w =
     (fst (ieee_add mode a b 0), put_tls t (tls_flags w t OR snd (ieee_add mode a b 0)) w)
   \<and> sf64_mul_r mode a b Fenv_Tls t w =
     (fst (ieee_mul mode a b 0), put_tls t (tls_flags w t OR snd (ieee_mul mode a b 0)) w)
   \<and> sf64_div_r mode a b Fenv_Tls t w =
     (fst (ieee_div mode a b 0), put_tls t (tls_flags w t OR snd (ieee_div mode a b 0)) w)
   \<and> sf64_add_r_ex mode a b (Some p) m t w = (fst (ieee_add mode a b 0),
     if m = Fenv_Disabled then w else put_state p (state_flags w p OR snd (ieee_add mode a b 0)) w)
   \<and> sf64_mul_r_ex mode a b (Some p) m t w = (fst (ieee_mul mode a b 0),
     if m = Fenv_Disabled then w else put_state p (state_flags w p OR snd (ieee_mul mode a b 0)) w)
   \<and> sf64_div_r_ex mode a b (Some p) m t w = (fst (ieee_div mode a b 0),
     if m = Fenv_Disabled then w else put_state p (state_flags w p OR snd (ieee_div mode a b 0)) w)
   \<and> sf64_add_r mode a b Fenv_Disabled t w = (fst (ieee_add mode a b 0), w)
   \<and> sf64_add_r mode a b Fenv_Explicit t w = (fst (ieee_add mode a b 0), w)"
  by (simp add: sf64_add_r_def sf64_mul_r_def sf64_div_r_def sf64_add_r_ex_def sf64_mul_r_ex_def
      sf64_div_r_ex_def entry_default_simps entry_ex_simps add_r_impl_sound mul_r_impl_sound div_r_impl_sound)

end
