(* ===== verification/Sf_Sqrt.thy ===== *)
theory Sf_Sqrt
  imports Sf_Round
begin

text \<open>
  The square root of \<open>src/sqrt_fma.cpp\<close> and its nearest-even specialization in
  \<open>src/internal_arith.h\<close>: digit-by-digit extraction on two-limb integers, rounding, the public
  entries and \<open>rsqrt\<close>.  The digit loop is shown to return the integer square root with its
  remainder, the operation to be correctly rounded in every mode.
\<close>

section \<open>The code\<close>

record IntSqrtResult =
  isr_root :: u64
  isr_remainder :: u64
  isr_remainder_nonzero :: bool

text \<open>The loop body and the loop over the result bits; the state is \<open>(rem, root, rad)\<close>.\<close>

definition isqrt_step :: "U128 \<times> U128 \<times> U128 \<Rightarrow> U128 \<times> U128 \<times> U128" where
  "isqrt_step = (\<lambda>(rm, root, rad).
     let next_pair = u128_and (u128_shr rad 126) (u128_of 3);
         rad = u128_shl rad 2;
         rm = u128_or (u128_shl rm 2) next_pair;
         test = u128_or (u128_shl root 2) (u128_of 1)
     in if u128_ge rm test then (u128_sub rm test, u128_or (u128_shl root 1) (u128_of 1), rad)
        else (rm, u128_shl root 1, rad))"

fun isqrt_loop :: "nat \<Rightarrow> U128 \<times> U128 \<times> U128 \<Rightarrow> U128 \<times> U128 \<times> U128" where
  "isqrt_loop 0 st = st"
| "isqrt_loop (Suc n) st = isqrt_loop n (isqrt_step st)"

definition isqrt_bits :: "u64 \<Rightarrow> u64 \<Rightarrow> int \<Rightarrow> IntSqrtResult" where
  "isqrt_bits radicand_hi radicand_lo num_result_bits =
     (let rad = \<lparr>u_hi = radicand_hi, u_lo = radicand_lo\<rparr>;
          total_radicand_bits = num_result_bits * 2;
          rad = (if total_radicand_bits < 128 then u128_shl rad (128 - total_radicand_bits) else rad);
          (rm, root, _) = isqrt_loop (nat num_result_bits) (u128_of 0, u128_of 0, rad)
      in \<lparr>isr_root = u_lo root, isr_remainder = u_lo rm, isr_remainder_nonzero = u128_nonzero rm\<rparr>)"

text \<open>The normalization shared by the square root and the fused operation: mantissa, exponent.\<close>

definition normalise :: "u32 \<Rightarrow> u64 \<Rightarrow> u64 \<times> int" where
  "normalise exp_biased fr =
     (if exp_biased = 0
      then (let shift = clz64 fr - (63 - kFracBits)
            in (push_bit (nat shift) fr, (1 - kExpBias) - shift))
      else (fr OR kImplicitBit, uint exp_biased - kExpBias))"

definition sqrt_r_impl :: "f64 \<Rightarrow> sf64_rounding_mode \<Rightarrow> u32 \<Rightarrow> f64 \<times> u32" where
  "sqrt_r_impl x mode fe =
     (let sign = extract_sign x; exp_biased = extract_exp x; fr = extract_frac x
      in if exp_biased = kExpMax then
           (if fr \<noteq> 0 then (x OR kQuietNaNBit, if is_snan_bits x then fe OR SF64_FE_INVALID else fe)
            else if sign \<noteq> 0 then (canonical_nan, fe OR SF64_FE_INVALID)
            else (x, fe))
         else if is_zero_bits x then (x, fe)
         else if sign \<noteq> 0 then (canonical_nan, fe OR SF64_FE_INVALID)
         else
           let (mantissa, unbiased_exp) = normalise exp_biased fr;
               exp_odd = odd unbiased_exp;
               new_unbiased_exp = (if exp_odd then (unbiased_exp - 1) div 2 else unbiased_exp div 2);
               shift = (if exp_odd then 55 else 54) :: int;
               (radicand_hi, radicand_lo) =
                 (if 64 \<le> shift then (push_bit (nat (shift - 64)) mantissa, 0)
                  else (drop_bit (nat (64 - shift)) mantissa, push_bit (nat shift) mantissa));
               isr = isqrt_bits radicand_hi radicand_lo 54;
               root = isr_root isr;
               guard_bit = root AND 1;
               root53 = drop_bit 1 root;
               sticky = isr_remainder_nonzero isr;
               rounded = (if sf64_internal_should_round_up 0 (guard_bit \<noteq> 0) sticky (root53 AND 1 \<noteq> 0) mode
                          then root53 + 1 else root53);
               fe = (if guard_bit \<noteq> 0 \<or> sticky then fe OR SF64_FE_INEXACT else fe);
               biased_new_exp = new_unbiased_exp + kExpBias;
               (rounded, biased_new_exp) =
                 (if rounded AND push_bit 53 1 \<noteq> 0 then (drop_bit 1 rounded, biased_new_exp + 1)
                  else (rounded, biased_new_exp))
           in if uint kExpMax \<le> biased_new_exp then (kPositiveInf, fe)
              else if biased_new_exp \<le> 0 then (0, fe)
              else (pack 0 (word_of_int biased_new_exp) (rounded AND kFracMask), fe))"

definition arith_isqrt_bits :: "u64 \<Rightarrow> u64 \<Rightarrow> int \<Rightarrow> IntSqrtResult" where
  "arith_isqrt_bits radicand_hi radicand_lo num_result_bits =
     (let rad = \<lparr>u_hi = radicand_hi, u_lo = radicand_lo\<rparr>;
          total_radicand_bits = num_result_bits * 2;
          rad = (if total_radicand_bits < 128 then u128_shl rad (128 - total_radicand_bits) else rad);
          (rm, root, _) = isqrt_loop (nat num_result_bits) (u128_of 0, u128_of 0, rad)
      in \<lparr>isr_root = u_lo root, isr_remainder = u_lo rm, isr_remainder_nonzero = u128_nonzero rm\<rparr>)"

definition sf64_internal_sqrt_rne :: "f64 \<Rightarrow> u32 \<Rightarrow> f64 \<times> u32" where
  "sf64_internal_sqrt_rne x fe =
     (let sign = extract_sign x; exp_biased = extract_exp x; fr = extract_frac x
      in if exp_biased = kExpMax then
           (if fr \<noteq> 0 then (x OR kQuietNaNBit, if is_snan_bits x then fe OR SF64_FE_INVALID else fe)
            else if sign \<noteq> 0 then (canonical_nan, fe OR SF64_FE_INVALID)
            else (x, fe))
         else if is_zero_bits x then (x, fe)
         else if sign \<noteq> 0 then (canonical_nan, fe OR SF64_FE_INVALID)
         else
           let (mantissa, unbiased_exp) = normalise exp_biased fr;
               exp_odd = odd unbiased_exp;
               new_unbiased_exp = (if exp_odd then (unbiased_exp - 1) div 2 else unbiased_exp div 2);
               shift = (if exp_odd then 55 else 54) :: int;
               (radicand_hi, radicand_lo) =
                 (if 64 \<le> shift then (push_bit (nat (shift - 64)) mantissa, 0)
                  else (drop_bit (nat (64 - shift)) mantissa, push_bit (nat shift) mantissa));
               isr = arith_isqrt_bits radicand_hi radicand_lo 54;
               root = isr_root isr;
               guard_bit = root AND 1;
               root53 = drop_bit 1 root;
               sticky = isr_remainder_nonzero isr;
               lsb = (root53 AND 1 \<noteq> 0);
               rounded = (if guard_bit \<noteq> 0 \<and> (sticky \<or> lsb) then root53 + 1 else root53);
               fe = (if guard_bit \<noteq> 0 \<or> sticky then fe OR SF64_FE_INEXACT else fe);
               biased_new_exp = new_unbiased_exp + kExpBias;
               (rounded, biased_new_exp) =
                 (if rounded AND push_bit 53 1 \<noteq> 0 then (drop_bit 1 rounded, biased_new_exp + 1)
                  else (rounded, biased_new_exp))
           in if uint kExpMax \<le> biased_new_exp then (kPositiveInf, fe)
              else if biased_new_exp \<le> 0 then (0, fe)
              else (pack 0 (word_of_int biased_new_exp) (rounded AND kFracMask), fe))"

definition sf64_sqrt :: "f64 \<Rightarrow> f64 entry" where
  "sf64_sqrt x m t = entry_default m t (sf64_internal_sqrt_rne x 0)"

definition sf64_sqrt_r :: "sf64_rounding_mode \<Rightarrow> f64 \<Rightarrow> f64 entry" where
  "sf64_sqrt_r mode x m t = entry_default m t (sqrt_r_impl x mode 0)"

definition sf64_sqrt_ex :: "f64 \<Rightarrow> state_ptr \<Rightarrow> f64 entry" where
  "sf64_sqrt_ex x state m t = entry_ex m t state (sf64_internal_sqrt_rne x 0)"

definition sf64_sqrt_r_ex :: "sf64_rounding_mode \<Rightarrow> f64 \<Rightarrow> state_ptr \<Rightarrow> f64 entry" where
  "sf64_sqrt_r_ex mode x state m t = entry_ex m t state (sqrt_r_impl x mode 0)"

text \<open>Two public calls in sequence: both flush.\<close>

definition sf64_rsqrt :: "f64 \<Rightarrow> f64 entry" where
  "sf64_rsqrt x m t w =
     (let (sq, w) = sf64_sqrt x m t w; one = 0x3FF0000000000000
      in sf64_div one sq m t w)"

lemma sqrt_rne_eq: "sf64_internal_sqrt_rne x fe = sqrt_r_impl x SF64_RNE fe"
  unfolding sf64_internal_sqrt_rne_def sqrt_r_impl_def arith_isqrt_bits_def isqrt_bits_def
    sf64_internal_should_round_up_def sf64_rounding_mode.case by (simp only: Let_def)

section \<open>The digit loop computes the integer square root\<close>

text \<open>
  After some steps, with \<open>n\<close> to go on a radicand \<open>R\<close>: the root and remainder are those of the
  consumed prefix \<open>R div 4 ^ n\<close>, and \<open>rad\<close> holds the rest at its top.
\<close>

definition isqrt_inv :: "nat \<Rightarrow> nat \<Rightarrow> U128 \<times> U128 \<times> U128 \<Rightarrow> bool" where
  "isqrt_inv R n = (\<lambda>(rm, root, rad).
     u128_val rm + u128_val root * u128_val root = R div 4 ^ n
     \<and> u128_val rm \<le> 2 * u128_val root
     \<and> u128_val rad = R mod 4 ^ n * 2 ^ (128 - 2 * n))"

lemma four_pow: "(4::nat) ^ n = 2 ^ (2 * n)"
  by (simp add: power_mult)

lemma u128_or_low: "u128_val a mod 2 ^ k = 0 \<Longrightarrow> u128_val b < 2 ^ k \<Longrightarrow> u128_val (u128_or a b) = u128_val a + u128_val b"
  unfolding u128_val_or by (rule nat_or_disjoint)

lemma next_pair:
  assumes "n < 64" "u128_val rad = R mod 4 ^ Suc n * 2 ^ (128 - 2 * Suc n)"
  shows "u128_val (u128_and (u128_shr rad 126) (u128_of 3)) = R div 4 ^ n mod 4"
    and "u128_val (u128_shl rad 2) = R mod 4 ^ n * 2 ^ (128 - 2 * n)"
proof -
  define Q where "Q = R mod 4 ^ Suc n"
  have Q: "Q < 4 ^ n * 4" by (simp add: Q_def mult.commute [of "4 ^ n"])
  have split: "Q = R div 4 ^ n mod 4 * 4 ^ n + R mod 4 ^ n"
    using mod_split [of R "2 * n" 2] by (simp add: Q_def four_pow mult.commute)
  have e: "128 - 2 * Suc n = 126 - 2 * n" by simp
  have "(2::nat) ^ 126 = 4 ^ n * 2 ^ (126 - 2 * n)"
    using assms(1) by (simp add: four_pow flip: power_add)
  then have "Q * 2 ^ (126 - 2 * n) div 2 ^ 126 = Q div 4 ^ n" by (metis div_mult_mult2 power_not_zero zero_neq_numeral)
  also have "\<dots> = R div 4 ^ n mod 4" unfolding split by simp
  finally have h: "u128_val rad div 2 ^ 126 = R div 4 ^ n mod 4" unfolding assms(2) e Q_def [symmetric] .
  have "x AND 3 = x" if "x < 4" for x :: nat
  proof -
    have "x AND mask 2 = x" using that by (simp add: take_bit_nat_eq_self flip: take_bit_eq_mask)
    then show ?thesis by (simp add: mask_eq_exp_minus_1)
  qed
  then show "u128_val (u128_and (u128_shr rad 126) (u128_of 3)) = R div 4 ^ n mod 4"
    using h by (simp add: u128_val_and u128_val_shr)
  have "u128_val rad * 4 = Q * 2 ^ (128 - 2 * n)"
  proof -
    have "(2::nat) ^ (128 - 2 * n) = 2 ^ (126 - 2 * n) * 4"
    proof -
      have "128 - 2 * n = Suc (Suc (126 - 2 * n))" using assms(1) by simp
      then show ?thesis by simp
    qed
    then show ?thesis unfolding assms(2) e Q_def [symmetric] by simp
  qed
  also have "\<dots> = R div 4 ^ n mod 4 * 2 ^ 128 + R mod 4 ^ n * 2 ^ (128 - 2 * n)"
  proof -
    have "(4::nat) ^ n * 2 ^ (128 - 2 * n) = 2 ^ 128" using assms(1) by (simp add: four_pow flip: power_add)
    then show ?thesis unfolding split by (simp add: distrib_right mult.assoc)
  qed
  also have "\<dots> mod 2 ^ 128 = R mod 4 ^ n * 2 ^ (128 - 2 * n)"
  proof -
    have "R mod 4 ^ n * 2 ^ (128 - 2 * n) < 4 ^ n * 2 ^ (128 - 2 * n)" by simp
    also have "\<dots> = 2 ^ 128" using assms(1) by (simp add: four_pow flip: power_add)
    finally show ?thesis by simp
  qed
  finally show "u128_val (u128_shl rad 2) = R mod 4 ^ n * 2 ^ (128 - 2 * n)"
    by (simp add: u128_val_shl)
qed


text \<open>One step of the schoolbook square root on naturals.\<close>

lemma isqrt_digit:
  fixes r s p q :: nat
  assumes "r + s * s = p" "r \<le> 2 * s" "q < 4"
  defines "m \<equiv> r * 4 + q" and "t \<equiv> s * 4 + 1"
  shows "t \<le> m \<Longrightarrow> (m - t) + (2 * s + 1) * (2 * s + 1) = 4 * p + q \<and> m - t \<le> 2 * (2 * s + 1)"
    and "m < t \<Longrightarrow> m + (2 * s) * (2 * s) = 4 * p + q \<and> m \<le> 2 * (2 * s)"
  using assms by (auto simp: algebra_simps)

lemma isqrt_step_inv:
  assumes "isqrt_inv R (Suc n) st" "R < 2 ^ 108" "n < 64"
  shows "isqrt_inv R n (isqrt_step st)"
proof -
  obtain rm root rad where st: "st = (rm, root, rad)" by (cases st)
  note inv = assms(1) [unfolded st isqrt_inv_def prod.case]
  define r s q where rsq: "r = u128_val rm" "s = u128_val root" "q = R div 4 ^ n mod 4"
  have P: "r + s * s = R div 4 ^ Suc n" and rs: "r \<le> 2 * s" using inv by (simp_all add: rsq)
  note np = next_pair [OF assms(3), of rad R, folded rsq(3)]
  have q4: "q < 4" by (simp add: rsq)
  have pq: "4 * (R div 4 ^ Suc n) + q = R div 4 ^ n"
  proof -
    have "R div 4 ^ Suc n = R div 4 ^ n div 4" by (simp only: power_Suc2 div_mult2_eq)
    then show ?thesis unfolding rsq(3) by simp
  qed
  have "s * s \<le> R" using P div_le_dividend [of R "4 ^ Suc n"] by linarith
  then have "s * s < 2 ^ 54 * 2 ^ 54" using assms(2) by simp
  then have s: "s < 2 ^ 54" by (meson mult_le_mono not_le)
  define pr where "pr = u128_and (u128_shr rad 126) (u128_of 3)"
  have pr: "u128_val pr = q" using np(1) inv by (simp add: pr_def)
  define m t where mt: "m = u128_or (u128_shl rm 2) pr" "t = u128_or (u128_shl root 2) (u128_of 1)"
  have m: "u128_val m = r * 4 + q"
  proof -
    have "u128_val (u128_shl rm 2) = r * 4" using rs s by (subst u128_val_shl_lt) (simp_all add: rsq(1) [symmetric])
    then show ?thesis using q4 unfolding mt by (subst u128_or_low [where k = 2]) (simp_all add: pr)
  qed
  have t: "u128_val t = s * 4 + 1"
  proof -
    have "u128_val (u128_shl root 2) = s * 4" using s by (subst u128_val_shl_lt) (simp_all add: rsq(2) [symmetric])
    then show ?thesis unfolding mt by (subst u128_or_low [where k = 2]) simp_all
  qed
  have root0: "u128_val (u128_shl root 1) = 2 * s"
    using s by (subst u128_val_shl_lt) (simp_all add: rsq(2) [symmetric])
  then have root1: "u128_val (u128_or (u128_shl root 1) (u128_of 1)) = 2 * s + 1"
    by (subst u128_or_low [where k = 1]) simp_all
  note dig = isqrt_digit [OF P rs q4]
  have step: "isqrt_step st = (if u128_ge m t then (u128_sub m t, u128_or (u128_shl root 1) (u128_of 1), u128_shl rad 2)
      else (m, u128_shl root 1, u128_shl rad 2))"
    by (simp add: st isqrt_step_def Let_def mt pr_def)
  have rad: "u128_val (u128_shl rad 2) = R mod 4 ^ n * 2 ^ (128 - 2 * n)" using np(2) inv by simp
  show ?thesis
  proof (cases "u128_val t \<le> u128_val m")
    case True
    then have "isqrt_step st = (u128_sub m t, u128_or (u128_shl root 1) (u128_of 1), u128_shl rad 2)"
      using step by (simp add: u128_ge_iff)
    moreover have "u128_val (u128_sub m t) = r * 4 + q - (s * 4 + 1)"
      using True by (simp add: u128_val_sub m t)
    ultimately show ?thesis
      using dig(1) True unfolding m t by (simp only: isqrt_inv_def prod.case root1 rad pq)
  next
    case False
    then have "isqrt_step st = (m, u128_shl root 1, u128_shl rad 2)"
      using step by (simp add: u128_ge_iff)
    then show ?thesis
      using dig(2) False unfolding m t by (simp only: isqrt_inv_def prod.case root0 rad pq m not_le)
  qed
qed

lemma isqrt_loop_inv:
  "isqrt_inv R n st \<Longrightarrow> R < 2 ^ 108 \<Longrightarrow> n \<le> 64 \<Longrightarrow> isqrt_inv R 0 (isqrt_loop n st)"
proof (induction n st rule: isqrt_loop.induct)
  case (2 n st)
  then show ?case using isqrt_step_inv [of R n st] by simp
qed simp

lemma isqrt_bits_correct:
  assumes "u128_val \<lparr>u_hi = h, u_lo = l\<rparr> < 2 ^ 108"
  defines "R \<equiv> u128_val \<lparr>u_hi = h, u_lo = l\<rparr>" and "r \<equiv> isqrt_bits h l 54"
  shows "unat (isr_root r) * unat (isr_root r) \<le> R"
    and "R < (unat (isr_root r) + 1) * (unat (isr_root r) + 1)"
    and "isr_remainder_nonzero r \<longleftrightarrow> unat (isr_root r) * unat (isr_root r) \<noteq> R"
    and "unat (isr_remainder r) = R - unat (isr_root r) * unat (isr_root r)"
proof -
  define rad where "rad = u128_shl \<lparr>u_hi = h, u_lo = l\<rparr> 20"
  have R: "R < 2 ^ 108" using assms by simp
  have rad: "u128_val rad = R * 2 ^ 20"
    unfolding rad_def R_def using assms(1) by (subst u128_val_shl_lt) simp_all
  have R4: "R < 4 ^ 54" using R by (simp add: four_pow)
  obtain rm root rd where fin: "isqrt_loop 54 (u128_of 0, u128_of 0, rad) = (rm, root, rd)"
    by (cases "isqrt_loop 54 (u128_of 0, u128_of 0, rad)")
  have "isqrt_inv R 54 (u128_of 0, u128_of 0, rad)"
    using R4 by (simp add: isqrt_inv_def rad)
  then have "isqrt_inv R 0 (isqrt_loop 54 (u128_of 0, u128_of 0, rad))" using R by (rule isqrt_loop_inv) simp
  then have "isqrt_inv R 0 (rm, root, rd)" by (simp only: fin)
  then have inv: "u128_val rm + u128_val root * u128_val root = R" "u128_val rm \<le> 2 * u128_val root"
    by (simp_all add: isqrt_inv_def)
  then have "u128_val root * u128_val root < 2 ^ 54 * 2 ^ 54" using R by simp
  then have s: "u128_val root < 2 ^ 54" by (meson mult_le_mono not_le)
  have r: "r = \<lparr>isr_root = u_lo root, isr_remainder = u_lo rm, isr_remainder_nonzero = u128_nonzero rm\<rparr>"
    unfolding r_def isqrt_bits_def Let_def using fin by (simp add: rad_def [symmetric])
  have lo: "unat (u_lo root) = u128_val root" "unat (u_lo rm) = u128_val rm"
    using s inv(2) by (simp_all add: u_lo_val)
  show "unat (isr_root r) * unat (isr_root r) \<le> R" using inv(1) by (simp add: r lo)
  show "R < (unat (isr_root r) + 1) * (unat (isr_root r) + 1)" using inv by (simp add: r lo algebra_simps)
  show "isr_remainder_nonzero r \<longleftrightarrow> unat (isr_root r) * unat (isr_root r) \<noteq> R"
    using inv(1) by (auto simp: r lo u128_nonzero_iff)
  show "unat (isr_remainder r) = R - unat (isr_root r) * unat (isr_root r)" using inv(1) by (simp add: r lo)
qed

section \<open>Correct rounding of the square root\<close>

lemma subnormal_shift:
  assumes "f \<noteq> 0" "unat f < 2 ^ 52"
  defines "c \<equiv> clz64 f - 11"
  shows "1 \<le> c" "c \<le> 52" "unat (push_bit (nat c) f) = unat f * 2 ^ nat c"
    "2 ^ 52 \<le> unat f * 2 ^ nat c" "unat f * 2 ^ nat c < 2 ^ 53"
proof -
  note clz = clz64_bounds [OF assms(1)]
  have "unat f * 2 ^ nat (clz64 f) < 2 ^ 52 * 2 ^ nat (clz64 f)" using assms(2) by simp
  then have "(2::nat) ^ 63 < 2 ^ (52 + nat (clz64 f))"
    using clz(3) unfolding power_add by (rule order_le_less_trans [rotated])
  then have "63 < 52 + nat (clz64 f)" by (rule power_less_imp_less_exp [rotated]) simp
  then show c1: "1 \<le> c" by (simp add: c_def)
  show "c \<le> 52" using clz(2) by (simp add: c_def)
  have n: "nat (clz64 f) = nat c + 11" using c1 by (simp add: c_def)
  show "2 ^ 52 \<le> unat f * 2 ^ nat c" "unat f * 2 ^ nat c < 2 ^ 53"
    using clz(3,4) unfolding n power_add by simp_all
  then show "unat (push_bit (nat c) f) = unat f * 2 ^ nat c" by (intro unat_push_bit_lt) simp
qed

lemma normalise_correct:
  assumes "is_finite_bits b" "\<not> is_zero_bits b"
  obtains mnt e where "normalise (extract_exp b) (extract_frac b) = (mnt, e)"
    "2 ^ 52 \<le> unat mnt" "unat mnt < 2 ^ 53" "\<bar>val64 b\<bar> = real (unat mnt) * 2 powi (e - 52)"
    "- 1074 \<le> e" "e \<le> 1023"
proof -
  let ?e = "unat (extract_exp b)" and ?f = "unat (extract_frac b)"
  have f: "?f < 2 ^ 52" by (rule extract_frac_less)
  have e: "?e < 2047" using assms(1) unfolding class_iff by (simp add: unat_extract_exp_mag inf64_def div_less_iff_less_mult)
  have mag: "\<bar>val64 b\<bar> = mag_val 52 (- 1074) (?e * 2 ^ 52 + ?f)"
    by (simp only: abs_val64 mag64_fields)
  show ?thesis
  proof (cases "extract_exp b = 0")
    case True
    have f0: "extract_frac b \<noteq> 0"
      using assms(2) True unfolding is_zero_bits_iff mag64_fields by auto
    define c where "c = clz64 (extract_frac b) - 11"
    note sh = subnormal_shift [OF f0 f, folded c_def]
    have "\<bar>val64 b\<bar> = real ?f * 2 powi (- 1074)"
      unfolding mag using True f by (simp add: mag_val_def)
    also have "\<dots> = real (?f * 2 ^ nat c) * 2 powi (- 1022 - c - 52)"
      using powi2_shift [of "- 1022 - c - 52" "nat c"] sh(1) by (simp add: mult.commute)
    finally have v: "\<bar>val64 b\<bar> = real (unat (push_bit (nat c) (extract_frac b))) * 2 powi (- 1022 - c - 52)"
      unfolding sh(3) .
    have "normalise (extract_exp b) (extract_frac b) = (push_bit (nat c) (extract_frac b), - 1022 - c)"
      by (simp add: normalise_def True c_def kFracBits_def kExpBias_def)
    then show ?thesis using that v sh by simp
  next
    case False
    have u: "unat (extract_frac b OR kImplicitBit) = 2 ^ 52 + ?f"
      using unat_or_disjoint [of kImplicitBit 52 "extract_frac b"] f
      by (simp add: kImplicitBit_def or.commute)
    have "?e \<noteq> 0" using False by (simp add: unat_eq_zero)
    then have v: "\<bar>val64 b\<bar> = real (2 ^ 52 + ?f) * 2 powi (int ?e - 1023 - 52)"
      unfolding mag using f by (simp add: mag_val_def algebra_simps)
    have "normalise (extract_exp b) (extract_frac b) = (extract_frac b OR kImplicitBit, int ?e - 1023)"
      using False by (simp add: normalise_def kExpBias_def)
    moreover have "- 1074 \<le> int ?e - 1023" "int ?e - 1023 \<le> 1023" using e by linarith+
    ultimately show ?thesis
    proof (intro that)
      show "\<bar>val64 b\<bar> = real (unat (extract_frac b OR kImplicitBit)) * 2 powi (int ?e - 1023 - 52)"
        unfolding u by (rule v)
    qed (use u f in simp_all)
  qed
qed


text \<open>The rounding step: the 54-bit root with its remainder bit, packed.\<close>

lemma bit_unat: "bit w n \<longleftrightarrow> odd (unat w div 2 ^ n)" for w :: "'a::len word"
proof -
  have "bit (unat w) n \<longleftrightarrow> bit w n" by (simp add: bit_unsigned_iff)
  then show ?thesis by (simp only: bit_iff_odd)
qed

lemma single_bit_test: "w AND push_bit n 1 \<noteq> 0 \<longleftrightarrow> odd (unat w div 2 ^ n)" for w :: "'a::len word"
proof -
  have "w AND push_bit n 1 = 0 \<longleftrightarrow> \<not> bit w n"
    using and_exp_eq_0_iff_not_bit [of w n] by (simp add: push_bit_eq_mult)
  then show ?thesis by (simp add: bit_unat)
qed
lemma sqrt_round:
  fixes root :: u64 and m :: sf64_rounding_mode and ne :: int
  assumes R: "2 ^ 106 \<le> R" "R < 2 ^ 108" "unat root * unat root \<le> R" "R < (unat root + 1) * (unat root + 1)"
    and st: "st \<longleftrightarrow> unat root * unat root \<noteq> R"
    and x: "0 < x" "x = sqrt (real R) * 2 powi (ne - 53)" and ne: "- 540 \<le> ne" "ne \<le> 511"
  defines "root53 \<equiv> drop_bit 1 root"
  defines "rounded \<equiv> (if sf64_internal_should_round_up 0 (root AND 1 \<noteq> 0) st (root53 AND 1 \<noteq> 0) m then root53 + 1 else root53)"
  defines "re \<equiv> (if rounded AND push_bit 53 1 \<noteq> 0 then (drop_bit 1 rounded, ne + 1023 + 1) else (rounded, ne + 1023))"
  shows "(if 2047 \<le> snd re then (kPositiveInf, fe') else if snd re \<le> 0 then (0, fe')
      else (pack 0 (word_of_int (snd re)) (fst re AND kFracMask), fe')) = (fst (ieee64 m False x fe), fe')"
    and "snd (ieee64 m False x fe) = (if root AND 1 \<noteq> 0 \<or> st then fe OR SF64_FE_INEXACT else fe)"
proof -
  define s where "s = unat root"
  have s: "2 ^ 53 \<le> s" "s < 2 ^ 54"
  proof -
    have "2 ^ 53 * 2 ^ 53 < (s + 1) * (s + 1)" 
      using order_le_less_trans [OF R(1,4)] by (simp add: s_def)
    then have "2 ^ 53 < s + 1" by (meson mult_le_mono not_le)
    then show "2 ^ 53 \<le> s" by simp
    have "s * s < 2 ^ 54 * 2 ^ 54" using R(2,3) by (simp add: s_def)
    then show "s < 2 ^ 54" by (meson mult_le_mono not_le)
  qed
  define y where "y = sqrt (real R)"
  have y: "real s \<le> y" "y < real s + 1" "y = real s \<longleftrightarrow> \<not> st"
  proof -
    have "real (s * s) \<le> real R" unfolding of_nat_le_iff s_def by (rule R(3))
    then have "real s * real s \<le> real R" by (simp only: of_nat_mult)
    then show "real s \<le> y" unfolding y_def by (intro real_le_rsqrt) (simp add: power2_eq_square)
    have "real R < real ((s + 1) * (s + 1))" unfolding of_nat_less_iff s_def by (rule R(4))
    then have "real R < (real s + 1) * (real s + 1)" by (simp only: of_nat_mult of_nat_add of_nat_1)
    then show "y < real s + 1" unfolding y_def by (intro real_less_lsqrt) (simp_all add: power2_eq_square)
    have "y = real s \<longleftrightarrow> real R = real s * real s"
      unfolding y_def using real_sqrt_eq_iff [of "real R" "real s * real s"] by simp
    also have "\<dots> \<longleftrightarrow> R = s * s" unfolding of_nat_mult [symmetric] of_nat_eq_iff ..
    finally show "y = real s \<longleftrightarrow> \<not> st" using st by (auto simp: s_def)
  qed
  define S where "S = 2 * s + of_bool st"
  have yb: "2 ^ 53 \<le> y" "y < 2 ^ 54"
  proof -
    have "real (2 ^ 53) \<le> real s" "real (s + 1) \<le> real (2 ^ 54)" using s unfolding of_nat_le_iff by simp_all
    then show "2 ^ 53 \<le> y" "y < 2 ^ 54" using y by simp_all
  qed
  have p: "(2::real) powi ne = 2 ^ 53 * 2 powi (ne - 53)" "(2::real) powi (ne + 1) = 2 ^ 54 * 2 powi (ne - 53)"
    using powi2_shift [of "ne - 53" 53] powi2_shift [of "ne - 53" 54] by (simp_all add: mult.commute algebra_simps)
  have lg: "\<lfloor>log 2 x\<rfloor> = ne"
    unfolding x(2) using yb by (intro floor_log2_eqI; unfold p y_def [symmetric]) (simp_all add: mult_strict_right_mono)
  define d where "d = nat (ne + 1022)"
  have q: "quantum 52 (- 1074) x = - 1074 + int d"
    using ne by (simp add: quantum_def lg d_def)
  have sc: "x / 2 powi (- 1074 + int d) * 2 ^ Suc 1 = 2 * y"
  proof -
    have "- 1074 + int d = ne - 52" using ne by (simp add: d_def)
    moreover have "(2::real) powi (ne - 52) = 2 * 2 powi (ne - 53)" using powi2_shift [of "ne - 53" 1] by simp
    ultimately show ?thesis by (simp add: x(2) y_def)
  qed
  have cell: "same_cell 1 (real S) (x / 2 powi (- 1074 + int d) * 2 ^ Suc 1)"
  proof (cases st)
    case True
    then have "real s < y" using y by (simp add: less_le) 
    then show ?thesis unfolding sc using True y(2) by (intro same_cell_open [where m = s]) (simp_all add: S_def)
  next
    case False
    then show ?thesis unfolding sc using y(3) by (simp add: S_def)
  qed
  define K where "K = round_bits m False 1 S"
  have bits: "root AND 1 \<noteq> 0 \<longleftrightarrow> odd s" "root53 AND 1 \<noteq> 0 \<longleftrightarrow> odd (s div 2)" "unat root53 = s div 2"
    by (simp_all add: root53_def and_1_neq_0_iff unat_drop_bit s_def)
  have S: "S div 2 = s" "S mod 2 = of_bool st"
    by (simp_all add: S_def)
  then have S4: "S div 4 = s div 2" using div_mult2_eq [of S 2 2] by simp
  have r: "unat rounded = K"
  proof -
    have "unat (root53 + 1) = unat root53 + 1" using s bits(3) using unat_add_lt [of root53 1] by simp
    then show ?thesis
      unfolding rounded_def K_def round_bits_def should_round_up_eq bits using S S4 bits(3) by simp
  qed
  have Kb: "2 ^ 52 \<le> K" "K \<le> 2 ^ 53"
    unfolding K_def using s by (intro round_bits_ge round_bits_le; simp add: S_def)+
  have carry: "rounded AND push_bit 53 1 \<noteq> 0 \<longleftrightarrow> K = 2 ^ 53"
  proof -
    have "rounded AND push_bit 53 1 \<noteq> 0 \<longleftrightarrow> odd (unat rounded div 2 ^ 53)" by (rule single_bit_test)
    also have "\<dots> \<longleftrightarrow> 2 ^ 53 \<le> K" unfolding r using Kb(2) by (intro top_bit_iff) simp
    finally show ?thesis using Kb(2) by simp
  qed
  have tiny: "\<not> x < 2 powi (- 1074 + int 52)"
    using floor_log2_less_iff [OF x(1), of "- 1022"] ne lg by simp
  have small: "d * 2 ^ 52 + K < 2047 * 2 ^ 52"
  proof -
    have "d * 2 ^ 52 \<le> 1533 * 2 ^ 52" using ne by (intro mult_right_mono) (simp_all add: d_def)
    then show ?thesis using Kb(2) by simp
  qed
  note R = ieee_round_cell [OF x(1) q cell, where m = m and s = False and einf = 2047, folded K_def, unfolded Let_def]
  have mod4: "S mod 4 = 0 \<longleftrightarrow> even s \<and> \<not> st"
  proof -
    have "S mod 2 ^ (1 + 1) = S mod 2 ^ 1 + 2 ^ 1 * (S div 2 ^ 1 mod 2 ^ 1)" by (rule mod_split)
    then show ?thesis using S by (auto simp: even_iff_mod_2_eq_zero)
  qed
  show "snd (ieee64 m False x fe) = (if root AND 1 \<noteq> 0 \<or> st then fe OR SF64_FE_INEXACT else fe)"
    unfolding ieee64_def R using small tiny by (simp add: mod4 bits)
  have fst_r: "fst (ieee64 m False x fe) = enc64 False (d * 2 ^ 52 + K)"
    unfolding ieee64_def R using small by simp
  show "(if 2047 \<le> snd re then (kPositiveInf, fe') else if snd re \<le> 0 then (0, fe')
      else (pack 0 (word_of_int (snd re)) (fst re AND kFracMask), fe')) = (fst (ieee64 m False x fe), fe')"
  proof -
    have pk: "pack 0 (word_of_int e) f = enc64 False (nat e * 2 ^ 52 + unat f mod 2 ^ 52)"
      if "0 \<le> e" "e < 2048" for e f
    proof -
      have "unat (word_of_int e :: u32) = nat e" using that by (subst unat_word_of_int) simp_all
      then show ?thesis using that by (simp add: pack_enc64)
    qed
    have msk: "unat (w AND kFracMask) = unat w mod 2 ^ 52" for w by (simp only: field_masks unat_and_mask)
    have sr: "snd re = ne + 1023 + of_bool (K = 2 ^ 53)" unfolding re_def carry by simp
    have fr: "unat (fst re) mod 2 ^ 52 = K - 2 ^ 52 - of_bool (K = 2 ^ 53) * 2 ^ 52"
    proof (cases "K = 2 ^ 53")
      case True
      then show ?thesis unfolding re_def carry by (simp add: unat_drop_bit r)
    next
      case False
      then have "K mod 2 ^ 52 = K - 2 ^ 52" using Kb by (simp add: le_mod_geq)
      then show ?thesis using False unfolding re_def carry by (simp add: r)
    qed
    have "nat (snd re) * 2 ^ 52 + unat (fst re AND kFracMask) mod 2 ^ 52 = d * 2 ^ 52 + K"
    proof -
      have "nat (snd re) = d + 1 + of_bool (K = 2 ^ 53)" 
      proof -
        have "ne = int d - 1022" using ne by (simp add: d_def)
        then show ?thesis by (cases "K = 2 ^ 53") (simp_all add: sr nat_add_distrib)
      qed
      then show ?thesis using Kb unfolding msk mod_mod_trivial fr by auto
    qed
    moreover have "0 < snd re" "snd re < 2047" using ne by (simp_all add: sr)
    ultimately show ?thesis using pk [of "snd re" "fst re AND kFracMask"] fst_r by simp
  qed
qed


text \<open>The IEEE 754 square root.\<close>

definition ieee_sqrt :: "sf64_rounding_mode \<Rightarrow> f64 \<Rightarrow> u32 \<Rightarrow> f64 \<times> u32" where
  "ieee_sqrt m x fe =
     (if is_nan_bits x then (quiet x, if is_snan_bits x then fe OR SF64_FE_INVALID else fe)
      else if is_zero_bits x then (x, fe)
      else if sgn64 x then (kCanonicalNaN, fe OR SF64_FE_INVALID)
      else if is_inf_bits x then (x, fe)
      else round64 m False (sqrt (val64 x)) fe)"

lemma radicand:
  assumes "unat mnt < 2 ^ 53" "j < 64" 
  shows "u128_val \<lparr>u_hi = drop_bit (nat (64 - int j)) mnt, u_lo = push_bit j mnt\<rparr> = unat mnt * 2 ^ j"
proof (cases "j = 0")
  case True
  then show ?thesis using assms unat_lt64 [of mnt] by (simp add: u128_val_def unat_drop_bit)
next
  case False
  have "unat mnt < 2 ^ 64" using assms(1) by simp
  then have "unat mnt * 2 ^ j < 2 ^ 64 * 2 ^ j" by simp
  also have "\<dots> \<le> 2 ^ 128" unfolding power_add [symmetric] using assms(2) by (intro power_increasing) simp_all
  finally have "u128_val (u128_shl (u128_of mnt) (int j)) = unat mnt * 2 ^ j"
    by (subst u128_val_shl_lt) simp_all
  moreover have "u128_shl (u128_of mnt) (int j) = \<lparr>u_hi = drop_bit (nat (64 - int j)) mnt, u_lo = push_bit j mnt\<rparr>"
    using False assms(2) by (simp add: u128_shl_def u128_of_def)
  ultimately show ?thesis by simp
qed

lemma sqrt_finite:
  assumes "is_finite_bits x" "\<not> is_zero_bits x" "\<not> sgn64 x"
  shows "sqrt_r_impl x m fe = ieee64 m False (sqrt (val64 x)) fe"
proof -
  have xpos: "\<bar>val64 x\<bar> = val64 x" "0 < val64 x"
    using assms val64_eq_0_iff [of x] by (auto simp: val64_def is_zero_bits_iff)
  obtain mnt e where n: "normalise (extract_exp x) (extract_frac x) = (mnt, e)"
    "2 ^ 52 \<le> unat mnt" "unat mnt < 2 ^ 53" "val64 x = real (unat mnt) * 2 powi (e - 52)" "- 1074 \<le> e" "e \<le> 1023"
    using normalise_correct [OF assms(1,2)] unfolding xpos(1) by metis
  define j :: nat where "j = (if odd e then 55 else 54)"
  define ne where "ne = (if odd e then (e - 1) div 2 else e div 2)"
  have ne: "e = 2 * ne + int j - 54" unfolding ne_def j_def by auto
  have neb: "- 540 \<le> ne" "ne \<le> 511" using ne n(5,6) by (auto simp: j_def split: if_splits)
  have j64: "j < 64" by (simp add: j_def)
  define hi lo where hl: "hi = drop_bit (nat (64 - int j)) mnt" "lo = push_bit j mnt"
  define R where "R = unat mnt * 2 ^ j"
  have R: "u128_val \<lparr>u_hi = hi, u_lo = lo\<rparr> = R" unfolding hl R_def using n(3) j64 by (rule radicand)
  have Rb: "2 ^ 106 \<le> R" "R < 2 ^ 108" using n(2,3) by (auto simp: R_def j_def)
  define isr where "isr = isqrt_bits hi lo 54"
  note isq = isqrt_bits_correct [of hi lo, folded isr_def, unfolded R, OF Rb(2)]
  have y: "sqrt (val64 x) = sqrt (real R) * 2 powi (ne - 53)"
  proof -
    have "(2::real) powi (e - 52) = 2 ^ j * (2 powi (ne - 53) * 2 powi (ne - 53))"
    proof -
      have e': "e - 52 = (2 * ne - 106) + int j" using ne by simp
      show ?thesis unfolding e' powi2_shift [symmetric] powi2_add [symmetric] by (simp add: mult.commute)
    qed
    then have "val64 x = real R * (2 powi (ne - 53))\<^sup>2" unfolding n(4) R_def by (simp add: power2_eq_square)
    then show ?thesis by (simp add: real_sqrt_mult)
  qed
  define rounded where "rounded = (if sf64_internal_should_round_up 0 (isr_root isr AND 1 \<noteq> 0) (isr_remainder_nonzero isr)
    (drop_bit 1 (isr_root isr) AND 1 \<noteq> 0) m then drop_bit 1 (isr_root isr) + 1 else drop_bit 1 (isr_root isr))"
  define re where "re = (if rounded AND push_bit 53 1 \<noteq> 0 then (drop_bit 1 rounded, ne + 1023 + 1) else (rounded, ne + 1023))"
  note sr = sqrt_round [OF Rb isq(1,2,3) _ y neb, where m = m, folded rounded_def, folded re_def]
  have nk: "extract_exp x \<noteq> kExpMax" using assms(1) by (auto simp: class_iff)
  have pos: "0 < sqrt (val64 x)" using xpos(2) by simp
  have sg: "\<not> extract_sign x \<noteq> 0" using assms(3) by simp
  have sh: "(if 64 \<le> (if odd e then 55 else 54 :: int)
      then (push_bit (nat ((if odd e then 55 else 54) - 64)) mnt, 0)
      else (drop_bit (nat (64 - (if odd e then 55 else 54))) mnt, push_bit (nat (if odd e then 55 else 54)) mnt)) = (hi, lo)"
    by (simp add: hl j_def)
  have kb: "uint kExpMax = 2047" "kExpBias = 1023" by (simp_all add: kExpMax_def kExpBias_def)
  have "sqrt_r_impl x m fe =
    (let fe' = (if isr_root isr AND 1 \<noteq> 0 \<or> isr_remainder_nonzero isr then fe OR SF64_FE_INEXACT else fe)
     in (if 2047 \<le> snd re then (kPositiveInf, fe') else if snd re \<le> 0 then (0, fe')
      else (pack 0 (word_of_int (snd re)) (fst re AND kFracMask), fe')))"
    unfolding sqrt_r_impl_def Let_def if_not_P [OF nk] if_not_P [OF assms(2)] if_not_P [OF sg] n(1) prod.case
    unfolding sh prod.case
    unfolding isr_def [symmetric] ne_def [symmetric] kb
    unfolding rounded_def [symmetric]
    unfolding re_def [symmetric] case_prod_beta ..
  then have "sqrt_r_impl x m fe = (fst (ieee64 m False (sqrt (val64 x)) fe),
      if isr_root isr AND 1 \<noteq> 0 \<or> isr_remainder_nonzero isr then fe OR SF64_FE_INEXACT else fe)"
    unfolding Let_def sr(1) [OF pos, where fe = fe] .
  then show ?thesis unfolding sr(2) [OF pos, where fe = fe, symmetric] by simp
qed

lemma sqrt_r_impl_sound: "sqrt_r_impl x m fe = ieee_sqrt m x fe"
proof (cases x rule: class64_cases)
  case nan
  then have "extract_frac x \<noteq> 0" by (simp add: is_nan_bits_def)
  then show ?thesis using nan by (simp add: sqrt_r_impl_def ieee_sqrt_def quiet_def)
next
  case inf
  then have "extract_frac x = 0" by (simp add: is_inf_bits_def)
  then show ?thesis using inf by (simp add: sqrt_r_impl_def ieee_sqrt_def canonical_nan_def)
next
  case finite
  show ?thesis
  proof (cases "\<not> is_zero_bits x \<and> \<not> sgn64 x")
    case True
    then have "0 < val64 x" using val64_eq_0_iff [of x] by (auto simp: val64_def is_zero_bits_iff)
    then show ?thesis using finite True sqrt_finite [of x m fe]
      by (simp add: ieee_sqrt_def round64_pos)
  next
    case False
    then show ?thesis using finite
      by (auto simp: sqrt_r_impl_def ieee_sqrt_def canonical_nan_def)
  qed
qed

text \<open>
  C5: The square root is the correctly rounded real square root in every rounding mode, inexact
  exactly when the root is not a double, and invalid exactly on negative nonzero operands and
  signaling NaNs; zeros keep their sign.  A NaN comes back quieted with its own sign and payload, not as
  the canonical quiet NaN that \<open>soft_f64.h\<close> announces.
\<close>

theorem sqrt_r_impl_correct: "sqrt_r_impl x m fe = ieee_sqrt m x fe"
  by (rule sqrt_r_impl_sound)

text \<open>
  The digit-by-digit loop returns the integer square root of any radicand below \<open>2 ^ 108\<close>: the
  largest integer whose square does not exceed it, the exact remainder, and the sticky bit.
\<close>

theorem isqrt_bits_floor:
  assumes "u128_val \<lparr>u_hi = h, u_lo = l\<rparr> < 2 ^ 108"
  shows "unat (isr_root (isqrt_bits h l 54)) = nat \<lfloor>sqrt (u128_val \<lparr>u_hi = h, u_lo = l\<rparr>)\<rfloor>
    \<and> unat (isr_remainder (isqrt_bits h l 54))
        = u128_val \<lparr>u_hi = h, u_lo = l\<rparr> - (nat \<lfloor>sqrt (u128_val \<lparr>u_hi = h, u_lo = l\<rparr>)\<rfloor>)\<^sup>2
    \<and> (isr_remainder_nonzero (isqrt_bits h l 54) \<longleftrightarrow> isr_remainder (isqrt_bits h l 54) \<noteq> 0)"
proof -
  define R where "R = u128_val \<lparr>u_hi = h, u_lo = l\<rparr>"
  define s where "s = unat (isr_root (isqrt_bits h l 54))"
  note c = isqrt_bits_correct [OF assms, folded R_def s_def]
  have "real (s * s) \<le> real R" "real R < real ((s + 1) * (s + 1))"
    using c(1,2) unfolding of_nat_le_iff of_nat_less_iff .
  then have l: "real s * real s \<le> real R" and g: "real R < (real s + 1) * (real s + 1)"
    by (simp_all only: of_nat_mult of_nat_add of_nat_1)
  have "real s \<le> sqrt (real R)" using l by (intro real_le_rsqrt) (simp add: power2_eq_square)
  moreover have "sqrt (real R) < real s + 1" using g by (intro real_less_lsqrt) (simp_all add: power2_eq_square)
  ultimately have "\<lfloor>sqrt (real R)\<rfloor> = int s" by (intro floor_unique) simp_all
  then have s: "nat \<lfloor>sqrt (real R)\<rfloor> = s" by simp
  have z: "isr_remainder (isqrt_bits h l 54) \<noteq> 0 \<longleftrightarrow> R - s * s \<noteq> 0"
    unfolding c(4) [symmetric] by (simp add: unat_eq_zero)
  show ?thesis unfolding R_def [symmetric] s s_def [symmetric] z
    using c by (auto simp: power2_eq_square)
qed

lemma isqrt_bits_floor_witness:
  "unat (isr_root (isqrt_bits 0 10 54)) = nat \<lfloor>sqrt (u128_val \<lparr>u_hi = 0, u_lo = 10\<rparr>)\<rfloor>"
  using isqrt_bits_floor [of 0 10] by (simp add: u128_val_def)

text \<open>
  The reciprocal square root is the composition of two correctly rounded nearest-even
  operations, and the thread's bag collects the flags of both; the \<open>_r\<close> entry at nearest-even is
  the default entry.
\<close>

theorem rsqrt_two_roundings:
  "sf64_rsqrt x Fenv_Tls t w =
     (let s = ieee_sqrt SF64_RNE x 0; d = ieee_div SF64_RNE 0x3FF0000000000000 (fst s) 0
      in (fst d, put_tls t (tls_flags w t OR snd s OR snd d) w))
   \<and> sf64_sqrt x m t w = sf64_sqrt_r SF64_RNE x m t w
   \<and> sf64_sqrt_ex x p m t w = sf64_sqrt_r_ex SF64_RNE x p m t w"
  by (simp add: sf64_rsqrt_def sf64_sqrt_def sf64_sqrt_r_def sf64_sqrt_ex_def sf64_sqrt_r_ex_def sf64_div_def
      sqrt_rne_eq sqrt_r_impl_sound internal_div_rne_eq div_r_impl_sound entry_default_simps Let_def or.assoc)

end
