(* ===== verification/Sf_Fma.thy ===== *)
theory Sf_Fma
  imports Sf_Sqrt
begin

text \<open>
  The fused multiply-add of \<open>src/sqrt_fma.cpp\<close> and its nearest-even specialization in
  \<open>src/internal_arith.h\<close>: the exact 106-bit product, alignment of both operands in a 128-bit
  frame with jamming, and one rounding step for normal, subnormal and overflowing results.
\<close>

section \<open>The code\<close>

definition overflow_inf :: "u32 \<Rightarrow> sf64_rounding_mode \<Rightarrow> f64" where
  "overflow_inf sign mode = (case mode of
      SF64_RTZ \<Rightarrow> pack sign (kExpMax - 1) kFracMask
    | SF64_RUP \<Rightarrow> if sign = 0 then make_signed_inf 0 else pack 1 (kExpMax - 1) kFracMask
    | SF64_RDN \<Rightarrow> if sign \<noteq> 0 then make_signed_inf 1 else pack 0 (kExpMax - 1) kFracMask
    | SF64_RNE \<Rightarrow> make_signed_inf sign
    | SF64_RNA \<Rightarrow> make_signed_inf sign)"

text \<open>\<open>round_and_pack\<close> of \<open>sqrt_fma.cpp\<close>: the value is \<open>mag * 2 ^ frame_exp\<close>.\<close>

definition fma_round_and_pack :: "u32 \<Rightarrow> U128 \<Rightarrow> int \<Rightarrow> sf64_rounding_mode \<Rightarrow> u32 \<Rightarrow> f64 \<times> u32" where
  "fma_round_and_pack sign mag frame_exp mode fe =
     (if \<not> u128_nonzero mag then (make_signed_zero sign, fe)
      else
        let msb = highest_bit mag;
            unbiased = frame_exp + msb;
            biased = unbiased + kExpBias
        in if uint kExpMax \<le> biased
           then (overflow_inf sign mode, fe OR (SF64_FE_OVERFLOW OR SF64_FE_INEXACT))
           else
             let output_subnormal = \<not> 1 \<le> biased;
                 target_lsb = (if 1 \<le> biased then msb - 52 else - 1074 - frame_exp)
             in if 128 \<le> target_lsb then
                  (if u128_nonzero mag then
                     (if (mode = SF64_RUP \<and> sign = 0) \<or> (mode = SF64_RDN \<and> sign \<noteq> 0)
                      then (pack sign 0 1, fe OR (SF64_FE_UNDERFLOW OR SF64_FE_INEXACT))
                      else (make_signed_zero sign, fe OR (SF64_FE_UNDERFLOW OR SF64_FE_INEXACT)))
                   else (make_signed_zero sign, fe))
                else
                  let (rounded_mant, round_inexact) =
                        (if target_lsb \<le> 0
                         then (if target_lsb < 0 then push_bit (nat (- target_lsb)) (u_lo mag) else u_lo mag, False)
                         else
                           let round_bit_val = u128_shl (u128_of 1) (target_lsb - 1);
                               round_bit = u128_nonzero (u128_and mag round_bit_val);
                               sticky = (if 2 \<le> target_lsb
                                         then u128_nonzero (u128_and mag (u128_sub round_bit_val (u128_of 1)))
                                         else False);
                               trunc = u128_shr mag target_lsb;
                               rounded_mant = u_lo trunc;
                               lsb = (rounded_mant AND 1 \<noteq> 0)
                           in (if sf64_internal_should_round_up sign round_bit sticky lsb mode
                               then rounded_mant + 1 else rounded_mant, round_bit \<or> sticky))
                  in if output_subnormal then
                       (let fe = (if round_inexact then fe OR (SF64_FE_UNDERFLOW OR SF64_FE_INEXACT) else fe)
                        in if rounded_mant AND kImplicitBit \<noteq> 0
                           then (pack sign 1 (rounded_mant AND kFracMask), fe)
                           else (pack sign 0 rounded_mant, fe))
                     else
                       let fe = (if round_inexact then fe OR SF64_FE_INEXACT else fe)
                       in if rounded_mant AND push_bit 53 1 \<noteq> 0
                          then (if uint kExpMax \<le> biased + 1
                                then (overflow_inf sign mode, fe OR (SF64_FE_OVERFLOW OR SF64_FE_INEXACT))
                                else (pack sign (word_of_int (biased + 1)) (drop_bit 1 rounded_mant AND kFracMask), fe))
                          else (pack sign (word_of_int biased) (rounded_mant AND kFracMask), fe))"

text \<open>Placing a magnitude at \<open>shift\<close> in the frame: exact to the left, jammed to the right.\<close>

definition frame_place :: "U128 \<Rightarrow> int \<Rightarrow> U128" where
  "frame_place v shift =
     (if 0 \<le> shift then u128_shl v shift
      else
        let rshift = - shift
        in if 128 \<le> rshift then (if u128_nonzero v then u128_of 1 else u128_of 0)
           else
             let msk = u128_sub (u128_shl (u128_of 1) rshift) (u128_of 1);
                 lost = u128_nonzero (u128_and v msk)
             in if lost then u128_or (u128_shr v rshift) (u128_of 1) else u128_shr v rshift)"

definition fma_r_impl :: "f64 \<Rightarrow> f64 \<Rightarrow> f64 \<Rightarrow> sf64_rounding_mode \<Rightarrow> u32 \<Rightarrow> f64 \<times> u32" where
  "fma_r_impl a b c mode fe =
     (let sa = extract_sign a; sb = extract_sign b; sc = extract_sign c;
          ea = extract_exp a; eb = extract_exp b; ec = extract_exp c;
          fa = extract_frac a; fb = extract_frac b; fc = extract_frac c;
          a_nan = (ea = kExpMax \<and> fa \<noteq> 0); b_nan = (eb = kExpMax \<and> fb \<noteq> 0); c_nan = (ec = kExpMax \<and> fc \<noteq> 0);
          a_inf = (ea = kExpMax \<and> fa = 0); b_inf = (eb = kExpMax \<and> fb = 0); c_inf = (ec = kExpMax \<and> fc = 0);
          a_zero = is_zero_bits a; b_zero = is_zero_bits b;
          sign_ab = sa XOR sb
      in if (a_inf \<and> b_zero) \<or> (a_zero \<and> b_inf) then (canonical_nan, fe OR SF64_FE_INVALID)
         else if a_nan \<or> b_nan \<or> c_nan then
           (if a_nan then a OR kQuietNaNBit else if b_nan then b OR kQuietNaNBit else c OR kQuietNaNBit,
            if is_snan_bits a \<or> is_snan_bits b \<or> is_snan_bits c then fe OR SF64_FE_INVALID else fe)
         else if a_inf \<or> b_inf then
           (if c_inf then (if sign_ab = sc then (make_signed_inf sign_ab, fe) else (canonical_nan, fe OR SF64_FE_INVALID))
            else (make_signed_inf sign_ab, fe))
         else if c_inf then (make_signed_inf sc, fe)
         else if a_zero \<or> b_zero then
           (if is_zero_bits c then
              (if sign_ab = sc then (make_signed_zero sign_ab, fe)
               else (make_signed_zero (if mode = SF64_RDN then 1 else 0), fe))
            else (c, fe))
         else
           let (ma, expa) = normalise ea fa;
               (mb, expb) = normalise eb fb;
               prod = mul64x64_to_128 ma mb;
               prod_exp = expa + expb - 104
           in if is_zero_bits c then fma_round_and_pack sign_ab prod prod_exp mode fe
              else
                let (mc, expc) = normalise ec fc;
                    prod_msb_local = highest_bit prod;
                    prod_true_msb = prod_exp + prod_msb_local;
                    c_true_msb = expc;
                    frame_top = (if c_true_msb < prod_true_msb then prod_true_msb else c_true_msb) + 2;
                    E = frame_top - 127;
                    prod_frame = frame_place prod (prod_exp - E);
                    c_frame = frame_place (u128_of mc) ((expc - 52) - E)
                in if sign_ab = sc then fma_round_and_pack sign_ab (u128_add prod_frame c_frame) E mode fe
                   else
                     let (mag, result_sign) =
                           (if u128_ge prod_frame c_frame then (u128_sub prod_frame c_frame, sign_ab)
                            else (u128_sub c_frame prod_frame, sc))
                     in if \<not> u128_nonzero mag then (make_signed_zero (if mode = SF64_RDN then 1 else 0), fe)
                        else fma_round_and_pack result_sign mag E mode fe)"

definition arith_fma_round_and_pack_rne :: "u32 \<Rightarrow> U128 \<Rightarrow> int \<Rightarrow> u32 \<Rightarrow> f64 \<times> u32" where
  "arith_fma_round_and_pack_rne sign mag frame_exp fe =
     (if \<not> u128_nonzero mag then (make_signed_zero sign, fe)
      else
        let msb = highest_bit mag;
            unbiased = frame_exp + msb;
            biased = unbiased + kExpBias
        in if uint kExpMax \<le> biased
           then (make_signed_inf sign, fe OR (SF64_FE_OVERFLOW OR SF64_FE_INEXACT))
           else
             let output_subnormal = \<not> 1 \<le> biased;
                 target_lsb = (if 1 \<le> biased then msb - 52 else - 1074 - frame_exp)
             in if 128 \<le> target_lsb then
                  (if u128_nonzero mag then (make_signed_zero sign, fe OR (SF64_FE_UNDERFLOW OR SF64_FE_INEXACT))
                   else (make_signed_zero sign, fe))
                else
                  let (rounded_mant, round_inexact) =
                        (if target_lsb \<le> 0
                         then (if target_lsb < 0 then push_bit (nat (- target_lsb)) (u_lo mag) else u_lo mag, False)
                         else
                           let round_bit_val = u128_shl (u128_of 1) (target_lsb - 1);
                               round_bit = u128_nonzero (u128_and mag round_bit_val);
                               sticky = (if 2 \<le> target_lsb
                                         then u128_nonzero (u128_and mag (u128_sub round_bit_val (u128_of 1)))
                                         else False);
                               trunc = u128_shr mag target_lsb;
                               rounded_mant = u_lo trunc;
                               lsb = (rounded_mant AND 1 \<noteq> 0)
                           in (if round_bit \<and> (sticky \<or> lsb) then rounded_mant + 1 else rounded_mant,
                               round_bit \<or> sticky))
                  in if output_subnormal then
                       (let fe = (if round_inexact then fe OR (SF64_FE_UNDERFLOW OR SF64_FE_INEXACT) else fe)
                        in if rounded_mant AND kImplicitBit \<noteq> 0
                           then (pack sign 1 (rounded_mant AND kFracMask), fe)
                           else (pack sign 0 rounded_mant, fe))
                     else
                       let fe = (if round_inexact then fe OR SF64_FE_INEXACT else fe)
                       in if rounded_mant AND push_bit 53 1 \<noteq> 0
                          then (if uint kExpMax \<le> biased + 1
                                then (make_signed_inf sign, fe OR (SF64_FE_OVERFLOW OR SF64_FE_INEXACT))
                                else (pack sign (word_of_int (biased + 1)) (drop_bit 1 rounded_mant AND kFracMask), fe))
                          else (pack sign (word_of_int biased) (rounded_mant AND kFracMask), fe))"

definition sf64_internal_fma_rne :: "f64 \<Rightarrow> f64 \<Rightarrow> f64 \<Rightarrow> u32 \<Rightarrow> f64 \<times> u32" where
  "sf64_internal_fma_rne a b c fe =
     (let sa = extract_sign a; sb = extract_sign b; sc = extract_sign c;
          ea = extract_exp a; eb = extract_exp b; ec = extract_exp c;
          fa = extract_frac a; fb = extract_frac b; fc = extract_frac c;
          a_nan = (ea = kExpMax \<and> fa \<noteq> 0); b_nan = (eb = kExpMax \<and> fb \<noteq> 0); c_nan = (ec = kExpMax \<and> fc \<noteq> 0);
          a_inf = (ea = kExpMax \<and> fa = 0); b_inf = (eb = kExpMax \<and> fb = 0); c_inf = (ec = kExpMax \<and> fc = 0);
          a_zero = is_zero_bits a; b_zero = is_zero_bits b;
          sign_ab = sa XOR sb
      in if (a_inf \<and> b_zero) \<or> (a_zero \<and> b_inf) then (canonical_nan, fe OR SF64_FE_INVALID)
         else if a_nan \<or> b_nan \<or> c_nan then
           (if a_nan then a OR kQuietNaNBit else if b_nan then b OR kQuietNaNBit else c OR kQuietNaNBit,
            if is_snan_bits a \<or> is_snan_bits b \<or> is_snan_bits c then fe OR SF64_FE_INVALID else fe)
         else if a_inf \<or> b_inf then
           (if c_inf then (if sign_ab = sc then (make_signed_inf sign_ab, fe) else (canonical_nan, fe OR SF64_FE_INVALID))
            else (make_signed_inf sign_ab, fe))
         else if c_inf then (make_signed_inf sc, fe)
         else if a_zero \<or> b_zero then
           (if is_zero_bits c then
              (if sign_ab = sc then (make_signed_zero sign_ab, fe) else (make_signed_zero 0, fe))
            else (c, fe))
         else
           let (ma, expa) = normalise ea fa;
               (mb, expb) = normalise eb fb;
               prod = mul64x64_to_128 ma mb;
               prod_exp = expa + expb - 104
           in if is_zero_bits c then arith_fma_round_and_pack_rne sign_ab prod prod_exp fe
              else
                let (mc, expc) = normalise ec fc;
                    prod_msb_local = highest_bit prod;
                    prod_true_msb = prod_exp + prod_msb_local;
                    c_true_msb = expc;
                    frame_top = (if c_true_msb < prod_true_msb then prod_true_msb else c_true_msb) + 2;
                    E = frame_top - 127;
                    prod_frame = frame_place prod (prod_exp - E);
                    c_frame = frame_place (u128_of mc) ((expc - 52) - E)
                in if sign_ab = sc then arith_fma_round_and_pack_rne sign_ab (u128_add prod_frame c_frame) E fe
                   else
                     let (mag, result_sign) =
                           (if u128_ge prod_frame c_frame then (u128_sub prod_frame c_frame, sign_ab)
                            else (u128_sub c_frame prod_frame, sc))
                     in if \<not> u128_nonzero mag then (make_signed_zero 0, fe)
                        else arith_fma_round_and_pack_rne result_sign mag E fe)"

definition sf64_fma :: "f64 \<Rightarrow> f64 \<Rightarrow> f64 \<Rightarrow> f64 entry" where
  "sf64_fma a b c m t = entry_default m t (sf64_internal_fma_rne a b c 0)"

definition sf64_fma_r :: "sf64_rounding_mode \<Rightarrow> f64 \<Rightarrow> f64 \<Rightarrow> f64 \<Rightarrow> f64 entry" where
  "sf64_fma_r mode a b c m t = entry_default m t (fma_r_impl a b c mode 0)"

definition sf64_fma_ex :: "f64 \<Rightarrow> f64 \<Rightarrow> f64 \<Rightarrow> state_ptr \<Rightarrow> f64 entry" where
  "sf64_fma_ex a b c state m t = entry_ex m t state (sf64_internal_fma_rne a b c 0)"

definition sf64_fma_r_ex :: "sf64_rounding_mode \<Rightarrow> f64 \<Rightarrow> f64 \<Rightarrow> f64 \<Rightarrow> state_ptr \<Rightarrow> f64 entry" where
  "sf64_fma_r_ex mode a b c state m t = entry_ex m t state (fma_r_impl a b c mode 0)"

lemma overflow_inf_rne: "overflow_inf sign SF64_RNE = make_signed_inf sign"
  by (simp add: overflow_inf_def)

lemma arith_fma_round_and_pack_eq:
  "arith_fma_round_and_pack_rne sign mag frame_exp fe = fma_round_and_pack sign mag frame_exp SF64_RNE fe"
proof -
  have r: "sf64_internal_should_round_up sign rb st lsb SF64_RNE \<longleftrightarrow> rb \<and> (st \<or> lsb)" for rb st lsb
    by (simp add: sf64_internal_should_round_up_def)
  have d: "(SF64_RNE = SF64_RUP \<and> sign = 0) \<or> (SF64_RNE = SF64_RDN \<and> sign \<noteq> 0) \<longleftrightarrow> False" by simp
  show ?thesis
    unfolding arith_fma_round_and_pack_rne_def fma_round_and_pack_def overflow_inf_rne r d if_False ..
qed

lemma internal_fma_rne_eq: "sf64_internal_fma_rne a b c fe = fma_r_impl a b c SF64_RNE fe"
proof -
  have d: "(if SF64_RNE = SF64_RDN then 1 else 0) = (0 :: u32)" by simp
  show ?thesis
    unfolding sf64_internal_fma_rne_def fma_r_impl_def arith_fma_round_and_pack_eq d ..
qed

section \<open>Rounding a 128-bit magnitude\<close>

lemma pack_nat:
  assumes "s = 0 \<or> s = 1" "0 \<le> e" "e < 2048"
  shows "pack s (word_of_int e) f = enc64 (s \<noteq> 0) (nat e * 2 ^ 52 + unat f mod 2 ^ 52)"
proof -
  have "unat (word_of_int e :: u32) = nat e" using assms by (subst unat_word_of_int) simp_all
  then show ?thesis using assms by (simp add: pack_enc64 sign_word_cases)
qed

lemma overflow_inf_enc64:
  assumes "s = 0 \<or> s = 1"
  shows "overflow_inf s m = enc64 (s \<noteq> 0) (overflow_mag 52 2047 m (s \<noteq> 0))"
  using assms by (cases m)
    (auto simp: overflow_inf_def overflow_mag_def rounds_down_def make_signed_inf_enc64 inf64_def pack_enc64
      kFracMask_def kExpMax_def)

text \<open>The last steps, once the kept bits \<open>K\<close> and the inexact signal are known.\<close>

lemma fma_pack_subnormal:
  assumes s: "s = 0 \<or> s = 1" and r: "unat r = K" "K \<le> 2 ^ 52"
  shows "(if r AND kImplicitBit \<noteq> 0 then (pack s 1 (r AND kFracMask), fe) else (pack s 0 r, fe)) = (enc64 (s \<noteq> 0) K, fe)"
proof -
  have k: "kImplicitBit = push_bit 52 1" by (simp add: kImplicitBit_def)
  have "r AND kImplicitBit \<noteq> 0 \<longleftrightarrow> odd (K div 2 ^ 52)" unfolding k by (simp only: single_bit_test r(1))
  also have "\<dots> \<longleftrightarrow> 2 ^ 52 \<le> K" using r(2) by (intro top_bit_iff) simp
  finally have b: "r AND kImplicitBit \<noteq> 0 \<longleftrightarrow> 2 ^ 52 \<le> K" .
  have msk: "unat (r AND kFracMask) = K mod 2 ^ 52" by (simp only: field_masks unat_and_mask r(1))
  show ?thesis
  proof (cases "2 ^ 52 \<le> K")
    case True
    then have "K = 2 ^ 52" using r(2) by simp
    then show ?thesis using b True msk pack_nat [OF s, of 1 "r AND kFracMask"] by simp
  next
    case False
    then show ?thesis using b r(1) pack_nat [OF s, of 0 r] by simp
  qed
qed

lemma fma_pack_normal:
  assumes s: "s = 0 \<or> s = 1" and r: "unat r = K" "2 ^ 52 \<le> K" "K \<le> 2 ^ 53" and e: "1 \<le> e" "e < 2047"
  shows "(if r AND push_bit 53 1 \<noteq> 0
      then (if 2047 \<le> e + 1 then (overflow_inf s m, fo) else (pack s (word_of_int (e + 1)) (drop_bit 1 r AND kFracMask), fe))
      else (pack s (word_of_int e) (r AND kFracMask), fe))
    = (if 2047 * 2 ^ 52 \<le> nat (e - 1) * 2 ^ 52 + K then (enc64 (s \<noteq> 0) (overflow_mag 52 2047 m (s \<noteq> 0)), fo)
       else (enc64 (s \<noteq> 0) (nat (e - 1) * 2 ^ 52 + K), fe))"
proof -
  obtain d where d: "e = int d + 1" using e(1) by (metis add.commute le_add_diff_inverse nonneg_int_cases diff_ge_0_iff_ge)
  have db: "d \<le> 2045" using e(2) d by simp
  have "r AND push_bit 53 1 \<noteq> 0 \<longleftrightarrow> odd (K div 2 ^ 53)" by (simp only: single_bit_test r(1))
  also have "\<dots> \<longleftrightarrow> 2 ^ 53 \<le> K" using r(3) by (intro top_bit_iff) simp
  finally have b: "r AND push_bit 53 1 \<noteq> 0 \<longleftrightarrow> K = 2 ^ 53" using r(3) by auto
  show ?thesis
  proof (cases "K = 2 ^ 53")
    case True
    have c: "2047 * 2 ^ 52 \<le> nat (e - 1) * 2 ^ 52 + K \<longleftrightarrow> 2047 \<le> e + 1" by (auto simp: True d)
    have "unat (drop_bit 1 r AND kFracMask) = K div 2 mod 2 ^ 52"
      by (simp only: field_masks unat_and_mask unat_drop_bit r(1)) simp
    then have z: "unat (drop_bit 1 r AND kFracMask) = 0" by (simp add: True)
    have "nat (e + 1) = d + 2" by (simp add: d nat_add_distrib)
    then have "nat (e + 1) * 2 ^ 52 = nat (e - 1) * 2 ^ 52 + K" by (simp add: True d)
    then show ?thesis
      using pack_nat [OF s, of "e + 1" "drop_bit 1 r AND kFracMask"] e z
      unfolding c b using True by (simp add: overflow_inf_enc64 [OF s])
  next
    case False
    have msk: "unat (r AND kFracMask) = K - 2 ^ 52"
      using False r by (simp only: field_masks unat_and_mask r(1)) (simp add: le_mod_geq)
    have c: "\<not> 2047 * 2 ^ 52 \<le> nat (e - 1) * 2 ^ 52 + K"
    proof -
      have "d * 2 ^ 52 \<le> 2045 * 2 ^ 52" using db by (intro mult_right_mono) simp_all
      then show ?thesis using False r(3) by (simp add: d)
    qed
    have "nat e = d + 1" by (simp add: d nat_add_distrib)
    then have eq: "nat e * 2 ^ 52 + unat (r AND kFracMask) mod 2 ^ 52 = nat (e - 1) * 2 ^ 52 + K"
      using False r by (simp add: d msk)
    have "0 \<le> e" "e < 2048" using e by simp_all
    note p = pack_nat [OF s this, of "r AND kFracMask", unfolded eq]
    show ?thesis unfolding if_not_P [OF c] b if_not_P [OF False] p ..
  qed
qed


text \<open>The bits kept and dropped at \<open>T\<close>, when at least one bit is dropped.\<close>

lemma u128_round_bits:
  fixes s :: u32 and m :: sf64_rounding_mode
  assumes T: "1 \<le> T" "T < 128" and div: "u128_val mag div 2 ^ nat T < 2 ^ 63"
  defines "rb \<equiv> u128_nonzero (u128_and mag (u128_shl (u128_of 1) (T - 1)))"
  defines "st \<equiv> (if 2 \<le> T then u128_nonzero (u128_and mag (u128_sub (u128_shl (u128_of 1) (T - 1)) (u128_of 1))) else False)"
  defines "r0 \<equiv> u_lo (u128_shr mag T)"
  defines "r \<equiv> (if sf64_internal_should_round_up s rb st (r0 AND 1 \<noteq> 0) m then r0 + 1 else r0)"
  shows "unat r = round_bits m (s \<noteq> 0) (nat T - 1) (u128_val mag)"
    and "rb \<or> st \<longleftrightarrow> u128_val mag mod 2 ^ nat T \<noteq> 0"
proof -
  define S where "S = u128_val mag"
  define k where "k = nat (T - 1)"
  have k: "nat T = Suc k" "T = int k + 1" using T(1) by (simp_all add: k_def)
  have rb: "rb \<longleftrightarrow> odd (S div 2 ^ k)"
    unfolding rb_def S_def using T k by (subst u128_bit_test) simp_all
  have st: "st \<longleftrightarrow> S mod 2 ^ k \<noteq> 0"
  proof (cases "2 \<le> T")
    case True
    then show ?thesis unfolding st_def S_def using T k by (subst u128_low_mask_test) simp_all
  next
    case False
    then have "k = 0" using k by simp
    then show ?thesis using False by (simp add: st_def)
  qed
  have r0: "unat r0 = S div 2 ^ Suc k"
  proof -
    have "u128_val (u128_shr mag T) = S div 2 ^ Suc k"
      using u128_val_shr [of T mag] T(1) unfolding k(1) S_def by simp
    moreover have "S div 2 ^ Suc k < 2 ^ 64" using div unfolding k(1) S_def [symmetric] by simp
    ultimately show ?thesis by (simp only: r0_def u_lo_val mod_less)
  qed
  have lsb: "r0 AND 1 \<noteq> 0 \<longleftrightarrow> odd (S div 2 ^ Suc k)" by (simp add: and_1_neq_0_iff r0)
  have "unat r0 < 2 ^ 63" using div unfolding r0 k(1) S_def [symmetric] .
  then have "unat (r0 + 1) = unat r0 + 1" using unat_add_lt [of r0 1] by simp
  then have "unat r = S div 2 ^ Suc k + of_bool (sf64_internal_should_round_up s rb st (r0 AND 1 \<noteq> 0) m)"
    by (simp add: r_def r0)
  then show "unat r = round_bits m (s \<noteq> 0) (nat T - 1) (u128_val mag)"
    unfolding should_round_up_eq rb st lsb round_bits_def S_def [symmetric] k(1) diff_Suc_1 .
  have "S mod 2 ^ (k + 1) = S mod 2 ^ k + 2 ^ k * (S div 2 ^ k mod 2 ^ 1)" by (rule mod_split)
  then show "rb \<or> st \<longleftrightarrow> u128_val mag mod 2 ^ nat T \<noteq> 0"
    unfolding rb st k(1) S_def [symmetric] by (auto simp: odd_iff_mod_2_eq_one simp del: power_Suc)
qed

text \<open>The cell and the exponent of the exact value, for whatever position the rounding falls on.\<close>

lemma fma_frame_cell:
  fixes fr :: int and k :: nat and y :: real
  assumes S: "2 ^ k \<le> S" "S < 2 ^ Suc k"
    and y: "same_cell 1 (real S) y" "2 ^ 54 \<le> S \<or> real S = y" and x: "x = y * 2 powi fr"
  defines "T \<equiv> (if 1 \<le> fr + int k + 1023 then int k - 52 else - 1074 - fr)"
  defines "S' \<equiv> (if 1 \<le> T then S else S * 2 ^ nat (1 - T))"
  shows "0 < x" "\<lfloor>log 2 x\<rfloor> = fr + int k"
    "quantum 52 (- 1074) x = - 1074 + int (nat (fr + int k + 1022))"
    "same_cell (nat (T - 1)) (real S') (x / 2 powi (- 1074 + int (nat (fr + int k + 1022))) * 2 ^ Suc (nat (T - 1)))"
    "T \<le> 0 \<Longrightarrow> real S = y"
proof -
  have yb: "2 ^ k \<le> y \<and> y < 2 ^ Suc k"
  proof (cases "real S = y")
    case True
    have "real (2 ^ k) \<le> real S" "real S < real (2 ^ Suc k)" using S unfolding of_nat_le_iff of_nat_less_iff .
    then show ?thesis using True by simp
  next
    case False
    then have "(2::nat) ^ 54 < 2 ^ Suc k" using y(2) S(2) by simp
    then have "54 < Suc k" by (rule power_less_imp_less_exp [rotated]) simp
    then obtain j where k: "k = Suc j" by (cases k) simp_all
    have e: "real_of_int (2 ^ j) * 2 ^ 1 = real (2 ^ k)" "real_of_int (2 ^ k) * 2 ^ 1 = real (2 ^ Suc k)"
      by (simp_all add: k)
    have "real (2 ^ k) \<le> y"
      using same_cell_le_iff [OF y(1), of "2 ^ j"] S(1) unfolding e of_nat_le_iff by (rule iffD1)
    moreover have "y < real (2 ^ Suc k)"
      using same_cell_less_iff [OF y(1), of "2 ^ k"] S(2) unfolding e of_nat_less_iff by (rule iffD1)
    ultimately show ?thesis by simp
  qed
  have "(0::real) < 2 ^ k" by simp
  then have ypos: "0 < y" using yb by linarith
  then show x0: "0 < x" by (simp add: x)
  have p: "(2::real) powi (fr + int k) = 2 ^ k * 2 powi fr" "(2::real) powi (fr + int k + 1) = 2 ^ Suc k * 2 powi fr"
    using powi2_shift [of fr k] powi2_shift [of fr "Suc k"] by (simp_all add: mult.commute algebra_simps)
  show lg: "\<lfloor>log 2 x\<rfloor> = fr + int k"
    using yb by (intro floor_log2_eqI; unfold p x) (simp_all add: mult_strict_right_mono)
  show "quantum 52 (- 1074) x = - 1074 + int (nat (fr + int k + 1022))"
    by (auto simp: quantum_def lg)
  have q: "- 1074 + int (nat (fr + int k + 1022)) = fr + T"
    by (auto simp: T_def)
  have big: "real S = y \<or> 2 \<le> T"
  proof (cases "real S = y")
    case False
    then have "(2::nat) ^ 54 < 2 ^ Suc k" using y(2) S(2) by simp
    then have "54 < Suc k" by (rule power_less_imp_less_exp [rotated]) simp
    then show ?thesis by (auto simp: T_def)
  qed simp
  then show "T \<le> 0 \<Longrightarrow> real S = y" by auto
  show "same_cell (nat (T - 1)) (real S') (x / 2 powi (- 1074 + int (nat (fr + int k + 1022))) * 2 ^ Suc (nat (T - 1)))"
  proof (cases "1 \<le> T")
    case True
    then have n: "Suc (nat (T - 1)) = nat T" by simp
    have "(2::real) powi (fr + T) = 2 powi fr * 2 ^ nat T" using True powi2_shift [of fr "nat T"] by simp
    then have e: "x / 2 powi (fr + T) * 2 ^ nat T = y" by (simp add: x)
    have "same_cell (nat (T - 1)) (real S) y" using big y(1) by (auto intro: same_cell_mono)
    then show ?thesis unfolding q n e S'_def using True by simp
  next
    case False
    then have SY: "real S = y" using big by auto
    have n: "Suc (nat (T - 1)) = 1" "nat (T - 1) = 0" using False by simp_all
    have "(2::real) powi (fr + T) * 2 ^ nat (- T) = 2 powi fr" using False powi2_shift [of "fr + T" "nat (- T)"] by simp
    moreover have "(2::real) ^ nat (1 - T) = 2 ^ nat (- T) * 2"
    proof -
      have "nat (1 - T) = Suc (nat (- T))" using False by simp
      then show ?thesis by simp
    qed
    ultimately have "x / 2 powi (fr + T) * 2 ^ 1 = real (S * 2 ^ nat (1 - T))"
      by (simp add: x SY [symmetric] field_simps)
    then show ?thesis unfolding q n S'_def using False by simp
  qed
qed

lemma fma_frame_bounds:
  fixes fr :: int and k S :: nat
  assumes S: "2 ^ k \<le> S" "S < 2 ^ Suc k"
  defines "T \<equiv> (if 1 \<le> fr + int k + 1023 then int k - 52 else - 1074 - fr)"
  defines "S' \<equiv> (if 1 \<le> T then S else S * 2 ^ nat (1 - T))"
  shows "1 \<le> fr + int k + 1023 \<Longrightarrow> 2 ^ (52 + Suc (nat (T - 1))) \<le> S' \<and> S' < 2 ^ (53 + Suc (nat (T - 1)))"
    and "\<not> 1 \<le> fr + int k + 1023 \<Longrightarrow> S' < 2 ^ (52 + Suc (nat (T - 1)))"
    and "T \<le> 0 \<Longrightarrow> S < 2 ^ 64 \<and> S * 2 ^ nat (- T) < 2 ^ 64 \<and> S' = 2 * (S * 2 ^ nat (- T))"
proof -
  have up: "S' < 2 ^ (k + Suc (nat (1 - T)))" "T \<le> 0 \<Longrightarrow> 2 ^ (k + nat (1 - T)) \<le> S'" "1 \<le> T \<Longrightarrow> S' = S"
  proof -
    show "1 \<le> T \<Longrightarrow> S' = S" by (simp add: S'_def)
    have "S * 2 ^ nat (1 - T) < 2 ^ Suc k * 2 ^ nat (1 - T)" using S(2) by simp
    then show "S' < 2 ^ (k + Suc (nat (1 - T)))" using S(2) by (cases "1 \<le> T") (simp_all add: S'_def power_add)
    show "T \<le> 0 \<Longrightarrow> 2 ^ (k + nat (1 - T)) \<le> S'" using S(1) by (simp add: S'_def power_add)
  qed
  have less: "S' < 2 ^ n" if "k + Suc (nat (1 - T)) \<le> n" for n
  proof -
    have "(2::nat) ^ (k + Suc (nat (1 - T))) \<le> 2 ^ n" using that by (intro power_increasing) simp_all
    then show ?thesis using up(1) by (rule order_less_le_trans [rotated])
  qed
  show "2 ^ (52 + Suc (nat (T - 1))) \<le> S' \<and> S' < 2 ^ (53 + Suc (nat (T - 1)))" if b: "1 \<le> fr + int k + 1023"
  proof
    have T: "T = int k - 52" using b by (simp add: T_def)
    show "S' < 2 ^ (53 + Suc (nat (T - 1)))" by (rule less) (simp add: T)
    show "2 ^ (52 + Suc (nat (T - 1))) \<le> S'"
    proof (cases "1 \<le> T")
      case True
      then have "52 + Suc (nat (T - 1)) = k" by (simp add: T)
      then show ?thesis using up(3) [OF True] S(1) by simp
    next
      case False
      then have "52 + Suc (nat (T - 1)) = k + nat (1 - T)" by (simp add: T)
      then show ?thesis using up(2) False by simp
    qed
  qed
  show "S' < 2 ^ (52 + Suc (nat (T - 1)))" if "\<not> 1 \<le> fr + int k + 1023"
    using that by (intro less) (simp add: T_def)
  show "S < 2 ^ 64 \<and> S * 2 ^ nat (- T) < 2 ^ 64 \<and> S' = 2 * (S * 2 ^ nat (- T))" if T: "T \<le> 0"
  proof -
    have n: "nat (1 - T) = Suc (nat (- T))" using T by simp
    have e: "S' = 2 * (S * 2 ^ nat (- T))" using T by (simp add: S'_def n)
    have "S' < 2 ^ 64" using T by (intro less) (auto simp: T_def split: if_splits)
    then have "S * 2 ^ nat (- T) < 2 ^ 64" using e by simp
    moreover have "S \<le> S * 2 ^ nat (- T)" by simp
    ultimately show ?thesis using e by (blast intro: order_le_less_trans)
  qed
qed

lemma fma_tiny_bits:
  assumes "S \<noteq> 0" "S < 2 ^ 127" "127 \<le> j"
  shows "round_bits m s j S = of_bool (rounds_up m s)"
proof -
  have "(2::nat) ^ 127 \<le> 2 ^ j" using assms(3) by (intro power_increasing) simp_all
  then have j: "S < 2 ^ j" using assms(2) by simp
  then have "S < 2 ^ Suc j" by simp
  then show ?thesis using j assms(1)
    by (cases m) (simp_all add: round_bits_def round_up_dec_def rounds_up_def del: power_Suc)
qed

text \<open>The kept bits and the inexact signal, for the rounding position \<open>T\<close>.\<close>

definition kept_bits :: "u32 \<Rightarrow> U128 \<Rightarrow> sf64_rounding_mode \<Rightarrow> int \<Rightarrow> u64 \<times> bool" where
  "kept_bits s mag m T = (if T \<le> 0
     then (if T < 0 then push_bit (nat (- T)) (u_lo mag) else u_lo mag, False)
     else (if sf64_internal_should_round_up s (u128_nonzero (u128_and mag (u128_shl (u128_of 1) (T - 1))))
             (if 2 \<le> T then u128_nonzero (u128_and mag (u128_sub (u128_shl (u128_of 1) (T - 1)) (u128_of 1))) else False)
             (u_lo (u128_shr mag T) AND 1 \<noteq> 0) m
           then u_lo (u128_shr mag T) + 1 else u_lo (u128_shr mag T),
           u128_nonzero (u128_and mag (u128_shl (u128_of 1) (T - 1)))
           \<or> (if 2 \<le> T then u128_nonzero (u128_and mag (u128_sub (u128_shl (u128_of 1) (T - 1)) (u128_of 1))) else False)))"

lemma kept_bits_left:
  assumes T: "T \<le> 0" and S: "u128_val mag < 2 ^ 64" "u128_val mag * 2 ^ nat (- T) < 2 ^ 64"
  shows "unat (fst (kept_bits s mag m T)) = u128_val mag * 2 ^ nat (- T)" "\<not> snd (kept_bits s mag m T)"
proof -
  have lo: "unat (u_lo mag) = u128_val mag" using S(1) by (simp add: u_lo_val)
  have "unat (push_bit (nat (- T)) (u_lo mag)) = u128_val mag * 2 ^ nat (- T)"
    using S(2) unfolding lo [symmetric] by (intro unat_push_bit_lt) simp
  then show "unat (fst (kept_bits s mag m T)) = u128_val mag * 2 ^ nat (- T)" "\<not> snd (kept_bits s mag m T)"
    using T lo by (auto simp: kept_bits_def)
qed

lemma kept_bits_right:
  assumes T: "1 \<le> T" "T < 128" and S: "u128_val mag < 2 ^ (53 + nat T)"
  shows "unat (fst (kept_bits s mag m T)) = round_bits m (s \<noteq> 0) (nat T - 1) (u128_val mag)"
    "snd (kept_bits s mag m T) \<longleftrightarrow> u128_val mag mod 2 ^ nat T \<noteq> 0"
proof -
  have "u128_val mag div 2 ^ nat T < 2 ^ 53" using S by (simp add: div_less_iff_less_mult power_add)
  then have dv: "u128_val mag div 2 ^ nat T < 2 ^ 63" by simp
  have f: "\<not> T \<le> 0" using T by simp
  note rb = u128_round_bits(1) [OF T dv, of s m] u128_round_bits(2) [OF T dv]
  show "unat (fst (kept_bits s mag m T)) = round_bits m (s \<noteq> 0) (nat T - 1) (u128_val mag)"
    unfolding kept_bits_def if_not_P [OF f] fst_conv rb(1) ..
  show "snd (kept_bits s mag m T) \<longleftrightarrow> u128_val mag mod 2 ^ nat T \<noteq> 0"
    unfolding kept_bits_def if_not_P [OF f] snd_conv rb(2) ..
qed

text \<open>The body of the code once zero, the early overflow and the far shift are dealt with.\<close>

lemma fma_round_and_pack_kept:
  fixes fr :: int and k :: nat
  assumes "u128_val mag \<noteq> 0" "highest_bit mag = int k" "\<not> 2047 \<le> fr + int k + 1023"
    and "\<not> 128 \<le> (if 1 \<le> fr + int k + 1023 then int k - 52 else - 1074 - fr)"
  shows "fma_round_and_pack s mag fr m fe =
    (case kept_bits s mag m (if 1 \<le> fr + int k + 1023 then int k - 52 else - 1074 - fr) of (r, ri) \<Rightarrow>
      if \<not> 1 \<le> fr + int k + 1023
      then (if r AND kImplicitBit \<noteq> 0
            then (pack s 1 (r AND kFracMask), if ri then fe OR (SF64_FE_UNDERFLOW OR SF64_FE_INEXACT) else fe)
            else (pack s 0 r, if ri then fe OR (SF64_FE_UNDERFLOW OR SF64_FE_INEXACT) else fe))
      else if r AND push_bit 53 1 \<noteq> 0
      then (if 2047 \<le> fr + int k + 1023 + 1
            then (overflow_inf s m, (if ri then fe OR SF64_FE_INEXACT else fe) OR (SF64_FE_OVERFLOW OR SF64_FE_INEXACT))
            else (pack s (word_of_int (fr + int k + 1023 + 1)) (drop_bit 1 r AND kFracMask),
                  if ri then fe OR SF64_FE_INEXACT else fe))
      else (pack s (word_of_int (fr + int k + 1023)) (r AND kFracMask), if ri then fe OR SF64_FE_INEXACT else fe))"
proof -
  have mx: "uint (2047 :: u32) = 2047" by simp
  define T where "T = (if 1 \<le> fr + int k + 1023 then int k - 52 else - 1074 - fr)"
  have T: "\<not> 128 \<le> T" using assms(4) unfolding T_def .
  show ?thesis
    unfolding fma_round_and_pack_def Let_def assms(2) kExpBias_def kExpMax_def kept_bits_def T_def [symmetric]
    by (simp only: assms(1,3) T not_not if_False simp_thms if_True mx u128_nonzero_iff)
qed

lemma inexact_once: "(if ri then fe OR SF64_FE_INEXACT else fe) OR (SF64_FE_OVERFLOW OR SF64_FE_INEXACT)
    = fe OR (SF64_FE_OVERFLOW OR SF64_FE_INEXACT)"
  by (rule bit_eqI) (auto simp: bit_or_iff)

lemma ieee64_cell:
  assumes "0 < x" "quantum 52 (- 1074) x = - 1074 + int d"
    and "same_cell k (real S) (x / 2 powi (- 1074 + int d) * 2 ^ Suc k)"
  shows "ieee64 m s x fe =
    (if 2047 * 2 ^ 52 \<le> d * 2 ^ 52 + round_bits m s k S
     then (enc64 s (overflow_mag 52 2047 m s), fe OR (SF64_FE_OVERFLOW OR SF64_FE_INEXACT))
     else (enc64 s (d * 2 ^ 52 + round_bits m s k S),
           fe OR (if S mod 2 ^ Suc k = 0 then 0
                  else if x < 2 powi (- 1022) then SF64_FE_UNDERFLOW OR SF64_FE_INEXACT else SF64_FE_INEXACT)))"
  unfolding ieee64_def ieee_round_cell [OF assms] Let_def by simp

lemma fma_pack_tiny:
  assumes s: "s = 0 \<or> s = 1" and S: "0 < u128_val mag" "u128_val mag < 2 ^ 127"
    and k: "highest_bit mag = int k" "k < 128" and T: "128 \<le> (if 1 \<le> fr + int k + 1023 then int k - 52 else - 1074 - fr)"
  shows "fma_round_and_pack s mag fr m fe =
    (enc64 (s \<noteq> 0) (of_bool (rounds_up m (s \<noteq> 0))), fe OR (SF64_FE_UNDERFLOW OR SF64_FE_INEXACT))"
proof -
  have b: "\<not> 1 \<le> fr + int k + 1023" and T': "128 \<le> - 1074 - fr" using T k(2) by (auto split: if_splits)
  have o: "\<not> 2047 \<le> fr + int k + 1023" using b by simp
  have mx: "uint (2047 :: u32) = 2047" by simp
  have nz: "u128_val mag \<noteq> 0" using S(1) by simp
  have dir: "(m = SF64_RUP \<and> s = 0) \<or> (m = SF64_RDN \<and> s \<noteq> 0) \<longleftrightarrow> rounds_up m (s \<noteq> 0)"
    by (simp add: rounds_up_def)
  have one: "pack s 0 1 = enc64 (s \<noteq> 0) 1" using pack_nat [OF s, of 0 1] by simp
  have zero: "make_signed_zero s = enc64 (s \<noteq> 0) 0" using s by (auto simp: make_signed_zero_enc64)
  show ?thesis
    unfolding fma_round_and_pack_def Let_def k(1) kExpBias_def kExpMax_def mx u128_nonzero_iff
      if_not_P [OF b] if_P [OF T'] if_not_P [OF o] dir one zero
    using nz by simp
qed

lemma fma_pack_correct:
  assumes s: "s = 0 \<or> s = 1" and S: "0 < u128_val mag" "u128_val mag < 2 ^ 127"
    and y: "same_cell 1 (real (u128_val mag)) y" "2 ^ 54 \<le> u128_val mag \<or> real (u128_val mag) = y"
    and x: "x = y * 2 powi fr"
  shows "fma_round_and_pack s mag fr m fe = ieee64 m (s \<noteq> 0) x fe"
proof -
  define S where "S = u128_val mag"
  define k where "k = nat (highest_bit mag)"
  have nz: "u128_val mag \<noteq> 0" using S(1) by simp
  note hb = highest_bit_binade [OF nz, folded k_def S_def]
  have hk: "highest_bit mag = int k" using hb(3) by (simp add: k_def)
  define T where "T = (if 1 \<le> fr + int k + 1023 then int k - 52 else - 1074 - fr)"
  define S' where "S' = (if 1 \<le> T then S else S * 2 ^ nat (1 - T))"
  define j where "j = nat (T - 1)"
  define d where "d = nat (fr + int k + 1022)"
  define K where "K = round_bits m (s \<noteq> 0) j S'"
  note cell = fma_frame_cell [OF hb(1,2) y [folded S_def] x, folded T_def, folded S'_def, folded j_def d_def]
  note bnd = fma_frame_bounds [OF hb(1,2), of fr, folded T_def, folded S'_def, folded j_def]
  note spec = ieee64_cell [OF cell(1,3,4), of m "s \<noteq> 0", folded K_def]
  have xs: "x < 2 powi (- 1022) \<longleftrightarrow> \<not> 1 \<le> fr + int k + 1023"
    using floor_log2_less_iff [OF cell(1), of "- 1022"] unfolding cell(2) by auto
  consider (over) "2047 \<le> fr + int k + 1023" | (tiny) "\<not> 2047 \<le> fr + int k + 1023" "128 \<le> T"
    | (kept) "\<not> 2047 \<le> fr + int k + 1023" "\<not> 128 \<le> T" by blast
  then show ?thesis
  proof cases
    case over
    have "2 ^ 52 \<le> K" using bnd(1) over unfolding K_def by (intro round_bits_ge) simp
    moreover have "2046 \<le> d" using over by (simp add: d_def)
    ultimately have "2047 * 2 ^ 52 \<le> d * 2 ^ 52 + K" by simp
    then show ?thesis unfolding spec
      using over hk nz by (simp add: fma_round_and_pack_def u128_nonzero_iff overflow_inf_enc64 [OF s] kExpMax_def kExpBias_def)
  next
    case tiny
    have d: "d = 0" using tiny hb(4) hk by (auto simp: T_def d_def split: if_splits)
    have S': "S' = S" and j: "127 \<le> j" using tiny(2) by (simp_all add: S'_def j_def)
    have K: "K = of_bool (rounds_up m (s \<noteq> 0))"
      unfolding K_def S' using S j by (intro fma_tiny_bits) (simp_all add: S_def)
    have "(2::nat) ^ 127 \<le> 2 ^ Suc j" using j by (intro power_increasing) simp_all
    then have "S < 2 ^ Suc j" using S(2) unfolding S_def by (rule order_less_le_trans [rotated])
    then have "S' mod 2 ^ Suc j \<noteq> 0" using S(1) unfolding S' by (simp add: S_def)
    moreover have "\<not> 1 \<le> fr + int k + 1023" using tiny hb(4) hk by (auto simp: T_def split: if_splits)
    moreover have "k < 128" using hb(4) hk by simp
    ultimately show ?thesis
      unfolding spec fma_pack_tiny [OF s S hk \<open>k < 128\<close> tiny(2) [unfolded T_def]] xs d K by simp
  next
    case kept
    obtain r ri where R: "kept_bits s mag m T = (r, ri)" by (cases "kept_bits s mag m T")
    have "unat (fst (kept_bits s mag m T)) = K \<and> (snd (kept_bits s mag m T) \<longleftrightarrow> S' mod 2 ^ Suc j \<noteq> 0)"
    proof (cases "T \<le> 0")
      case True
      have j: "j = 0" using True by (simp add: j_def)
      have "S' mod 2 ^ Suc 0 = 0" using bnd(3) [OF True] by simp
      then show ?thesis
        using bnd(3) [OF True] kept_bits_left [OF True, of mag s m] round_bits_exact [of S' 0 m "s \<noteq> 0"]
        by (simp add: K_def S_def j)
    next
      case False
      have S': "S' = S" and nT: "nat T = Suc j" using False by (simp_all add: S'_def j_def)
      have "S' < 2 ^ (53 + Suc j)"
        using bnd(1,2) by (cases "1 \<le> fr + int k + 1023") (auto intro: order_less_le_trans power_increasing)
      then have "u128_val mag < 2 ^ (53 + nat T)" unfolding nT S' S_def .
      then show ?thesis
        using kept_bits_right [of T mag s m] False kept(2) unfolding nT diff_Suc_1 K_def S' S_def by simp
    qed
    then have rk: "unat r = K" "ri \<longleftrightarrow> S' mod 2 ^ Suc j \<noteq> 0" unfolding R by simp_all
    note code = fma_round_and_pack_kept [OF nz hk kept(1) kept(2) [unfolded T_def], of s m fe, folded T_def, unfolded R prod.case]
    show ?thesis
    proof (cases "1 \<le> fr + int k + 1023")
      case True
      then have e: "d = nat (fr + int k + 1023 - 1)" "fr + int k + 1023 < 2047" using kept(1) by (simp_all add: d_def)
      have Kb: "2 ^ 52 \<le> K" "K \<le> 2 ^ 53"
        using bnd(1) [OF True] unfolding K_def by (blast intro: round_bits_ge round_bits_le)+
      show ?thesis
        unfolding code spec xs if_not_P [of "\<not> 1 \<le> fr + int k + 1023", unfolded not_not, OF True] inexact_once
          fma_pack_normal [OF s rk(1) Kb True e(2)] e(1) [symmetric]
        using rk(2) True by simp
    next
      case False
      have Kb: "K \<le> 2 ^ 52" using bnd(2) [OF False] unfolding K_def by (rule round_bits_le)
      have d: "d = 0" using False by (simp add: d_def)
      show ?thesis
        unfolding code spec xs if_P [OF False] d fma_pack_subnormal [OF s rk(1) Kb]
        using rk False Kb by simp
    qed
  qed
qed

section \<open>Aligning the operands in the frame\<close>

lemma jam_eq_0_iff: "jam n c = 0 \<longleftrightarrow> n = 0"
proof -
  have "n \<noteq> 0 \<Longrightarrow> n mod 2 ^ c = 0 \<Longrightarrow> n div 2 ^ c \<noteq> 0" by (metis mod_eq_self_iff_div_eq_0)
  then show ?thesis by (auto simp: jam_def or_Suc_0_eq)
qed

lemma frame_place_left:
  "0 \<le> shift \<Longrightarrow> u128_val v * 2 ^ nat shift < 2 ^ 128 \<Longrightarrow> u128_val (frame_place v shift) = u128_val v * 2 ^ nat shift"
  by (simp only: frame_place_def if_True u128_val_shl_lt)

lemma frame_place_right:
  assumes "shift < 0"
  shows "u128_val (frame_place v shift) = jam (u128_val v) (nat (- shift))"
proof (cases "128 \<le> - shift")
  case True
  then have "(2::nat) ^ 128 \<le> 2 ^ nat (- shift)" by (intro power_increasing) simp_all
  then have "u128_val v < 2 ^ nat (- shift)" using u128_val_less [of v] by (rule order_less_le_trans [rotated])
  then show ?thesis using True by (simp add: frame_place_def u128_nonzero_iff jam_def)
next
  case False
  have low: "u128_val (u128_or w (u128_of 1)) = u128_val w OR 1" for w by (simp add: u128_val_or)
  show ?thesis
    using False assms u128_low_mask_test [of "- shift" v]
    by (simp add: frame_place_def Let_def u128_val_shr low jam_def del: One_nat_def)
qed

definition dominant :: "nat \<Rightarrow> real \<Rightarrow> bool" where
  "dominant F y \<longleftrightarrow> real F = y \<and> even F \<and> 2 ^ 125 \<le> F \<and> F < 2 ^ 126"

definition placed :: "nat \<Rightarrow> real \<Rightarrow> bool" where
  "placed F y \<longleftrightarrow> 0 < F \<and> F < 2 ^ 126 \<and> same_cell 1 (real F) y \<and> (real F = y \<or> F < 2 ^ 106)"

lemma dominant_placed: "dominant F y \<Longrightarrow> placed F y"
  by (auto simp: dominant_def placed_def intro: order_less_le_trans)

lemma placed_dominant:
  assumes v: "2 ^ h \<le> u128_val v" "u128_val v < 2 ^ Suc h" "h \<le> 105" and E: "E = e + int h - 125"
  shows "dominant (u128_val (frame_place v (e - E))) (real (u128_val v) * 2 powi (e - E))"
proof -
  have n: "nat (e - E) = Suc (124 - h)" "0 \<le> e - E" using v(3) E by simp_all
  let ?F = "u128_val v * 2 ^ Suc (124 - h)"
  have "2 ^ h * 2 ^ Suc (124 - h) \<le> ?F" "?F < 2 ^ Suc h * 2 ^ Suc (124 - h)" using v(1,2) by simp_all
  then have b: "2 ^ 125 \<le> ?F" "?F < 2 ^ 126" using v(3) by (simp_all only: power_add [symmetric]) simp_all
  then have "?F < 2 ^ 128" by simp
  then have F: "u128_val (frame_place v (e - E)) = ?F" using frame_place_left [OF n(2), of v] unfolding n(1) by simp
  have "(2::real) powi (e - E) = 2 ^ Suc (124 - h)" unfolding powi2_nat [OF n(2)] n(1) ..
  then show ?thesis unfolding dominant_def F using b by simp
qed

lemma placed_place:
  assumes v: "2 ^ h \<le> u128_val v" "u128_val v < 2 ^ Suc h" "h \<le> 105" and E: "e + int h - 125 \<le> E"
  shows "placed (u128_val (frame_place v (e - E))) (real (u128_val v) * 2 powi (e - E))"
proof (cases "0 \<le> e - E")
  case True
  let ?F = "u128_val v * 2 ^ nat (e - E)"
  have "?F < 2 ^ Suc h * 2 ^ nat (e - E)" using v(2) by simp
  also have "\<dots> = 2 ^ (Suc h + nat (e - E))" by (simp add: power_add)
  also have "\<dots> \<le> 2 ^ 126" using E True by (intro power_increasing) simp_all
  finally have b: "?F < 2 ^ 126" .
  have v0: "0 < u128_val v" using v(1) by (metis gr0I not_less power_not_zero zero_less_power pos2)
  have F: "u128_val (frame_place v (e - E)) = ?F" using frame_place_left [OF True, of v] b by simp
  have "(2::real) powi (e - E) = 2 ^ nat (e - E)" by (rule powi2_nat [OF True])
  then show ?thesis unfolding placed_def F using b v0 by simp
next
  case False
  let ?c = "nat (- (e - E))"
  have F: "u128_val (frame_place v (e - E)) = jam (u128_val v) ?c" using False by (intro frame_place_right) simp
  have c1: "1 \<le> ?c" using False by simp
  have "(2::real) powi (e - E) * 2 ^ ?c = 1" using powi2_shift [of "e - E" ?c] False by simp
  then have y: "real (u128_val v) * 2 powi (e - E) = real (u128_val v) / 2 ^ ?c" by (simp add: field_simps)
  have v0: "u128_val v \<noteq> 0" using v(1) by (metis not_less power_not_zero zero_less_power pos2 neq0_conv)
  have "jam (u128_val v) ?c \<le> u128_val v div 2 ^ ?c + 1" by (rule jam_le)
  also have "u128_val v div 2 ^ ?c \<le> u128_val v div 2 ^ 1"
    using c1 by (intro div_le_mono2 power_increasing) simp_all
  also have "u128_val v div 2 ^ 1 < 2 ^ h" using v(2) by (simp add: div_less_iff_less_mult)
  finally have "jam (u128_val v) ?c < 2 ^ h + 1" by simp
  also have "\<dots> \<le> 2 ^ 105 + 1" using v(3) by (intro add_right_mono power_increasing) simp_all
  finally have "jam (u128_val v) ?c < 2 ^ 106" by simp
  moreover from this have "jam (u128_val v) ?c < 2 ^ 126" by simp
  moreover have "0 < jam (u128_val v) ?c" using v0 jam_eq_0_iff [of "u128_val v" ?c] by simp
  ultimately show ?thesis unfolding placed_def F y using jam_cell [of 1 "u128_val v" ?c] by blast
qed

text \<open>Sum and difference of two placed operands, one of which dominates.\<close>

lemma dominant_half: "dominant F y \<Longrightarrow> \<exists>k. real F = real_of_int k * 2 ^ 1 \<and> y = real_of_int k * 2 ^ 1"
  unfolding dominant_def by (metis evenE mult.commute of_int_of_nat_eq of_nat_mult of_nat_numeral power_one_right)

lemma frame_sum:
  assumes "placed F y" "placed G z" "dominant F y \<or> dominant G z"
  shows "same_cell 1 (real (F + G)) (y + z)" "2 ^ 54 \<le> F + G" "F + G < 2 ^ 127"
proof -
  have *: "same_cell 1 (real (F + G)) (y + z)" if "dominant F y" "placed G z" for F G y z
    using dominant_half [OF that(1)] that(2) same_cell_add [of 1 "real G" z] by (auto simp: placed_def)
  show "same_cell 1 (real (F + G)) (y + z)"
    using assms(3) * [OF _ assms(2), of F y] * [OF _ assms(1), of G z]
    unfolding add.commute [of G F] add.commute [of z y] by blast
  show "2 ^ 54 \<le> F + G" "F + G < 2 ^ 127" using assms by (auto simp: dominant_def placed_def)
qed

lemma gap: "a + b \<le> c \<Longrightarrow> c \<le> F \<Longrightarrow> G < b \<Longrightarrow> a \<le> F - G" for a b c F G :: nat
  by linarith

lemma frame_diff:
  assumes "placed F y" "placed G z" "dominant F y \<or> dominant G z" "G < F"
  shows "same_cell 1 (real (F - G)) (y - z)" "2 ^ 54 \<le> F - G \<or> real (F - G) = y - z" "z < y"
proof -
  have "same_cell 1 (real (F - G)) (y - z) \<and> (2 ^ 54 \<le> F - G \<or> real (F - G) = y - z)"
  proof (cases "real G = z \<and> real F = y")
    case True
    then show ?thesis using assms(4) by (simp add: of_nat_diff)
  next
    case False
    have F: "dominant F y" and G: "G < 2 ^ 106"
      using False assms by (auto simp: dominant_def placed_def)
    have "same_cell 1 (real F - real G) (y - z)"
      using dominant_half [OF F] assms(2) same_cell_diff [of 1 "real G" z] by (auto simp: placed_def)
    moreover have "2 ^ 125 \<le> F" using F by (simp add: dominant_def)
    then have "2 ^ 54 \<le> F - G" using G by (intro gap [of "2 ^ 54" "2 ^ 106" "2 ^ 125"]) simp_all
    ultimately show ?thesis using assms(4) by (simp add: of_nat_diff)
  qed
  then show c: "same_cell 1 (real (F - G)) (y - z)" and o: "2 ^ 54 \<le> F - G \<or> real (F - G) = y - z" by blast+
  show "z < y"
  proof (cases "real (F - G) = y - z")
    case True
    then show ?thesis using assms(4) by linarith
  next
    case False
    then have "2 ^ 54 \<le> F - G" using o by simp
    then have "real_of_int 1 * 2 ^ 1 \<le> real (F - G)" using of_nat_le_iff [of 2 "F - G", where 'a = real] by simp
    then have "real_of_int 1 * 2 ^ 1 \<le> y - z" using same_cell_le_iff [OF c, of 1] by blast
    then show ?thesis by simp
  qed
qed

lemma frame_equal:
  assumes "placed F y" "placed F z" "dominant F y \<or> dominant F z" shows "y = z"
  using assms by (auto simp: dominant_def placed_def)

text \<open>The combination step of the code, on operands given by value and exponent.\<close>

definition fma_combine :: "u32 \<Rightarrow> u32 \<Rightarrow> U128 \<Rightarrow> U128 \<Rightarrow> int \<Rightarrow> sf64_rounding_mode \<Rightarrow> u32 \<Rightarrow> f64 \<times> u32" where
  "fma_combine sp sc F G E m fe =
     (if sp = sc then fma_round_and_pack sp (u128_add F G) E m fe
      else case (if u128_ge F G then (u128_sub F G, sp) else (u128_sub G F, sc)) of (mag, s) \<Rightarrow>
        if \<not> u128_nonzero mag then (make_signed_zero (if m = SF64_RDN then 1 else 0), fe)
        else fma_round_and_pack s mag E m fe)"

lemma fma_combine_correct:
  assumes s: "sp = 0 \<or> sp = 1" "sc = 0 \<or> sc = 1"
    and F: "placed (u128_val F) y" and G: "placed (u128_val G) z"
    and D: "dominant (u128_val F) y \<or> dominant (u128_val G) z"
  shows "fma_combine sp sc F G E m fe =
    (if sp = sc then ieee64 m (sp \<noteq> 0) (y * 2 powi E + z * 2 powi E) fe
     else if y = z then (enc64 (m = SF64_RDN) 0, fe)
     else if z < y then ieee64 m (sp \<noteq> 0) (y * 2 powi E - z * 2 powi E) fe
     else ieee64 m (sc \<noteq> 0) (z * 2 powi E - y * 2 powi E) fe)"
proof (cases "sp = sc")
  case True
  note fs = frame_sum [OF F G D]
  have v: "u128_val (u128_add F G) = u128_val F + u128_val G" using fs(3) by (intro u128_val_add_lt) simp
  have "0 < u128_val F" using F by (simp add: placed_def)
  then have "fma_round_and_pack sp (u128_add F G) E m fe = ieee64 m (sp \<noteq> 0) (y * 2 powi E + z * 2 powi E) fe"
    using fs by (intro fma_pack_correct [OF s(1), where y = "y + z"]) (simp_all only: v, simp_all add: algebra_simps)
  then show ?thesis using True by (simp add: fma_combine_def)
next
  case False
  have bnd: "u128_val F < 2 ^ 126" "u128_val G < 2 ^ 126" using F G by (simp_all add: placed_def)
  have D': "dominant (u128_val G) z \<or> dominant (u128_val F) y" using D by blast
  consider (eq) "u128_val F = u128_val G" | (gt) "u128_val G < u128_val F" | (lt) "u128_val F < u128_val G" by linarith
  then show ?thesis
  proof cases
    case eq
    have "y = z" using F G D unfolding eq by (rule frame_equal)
    moreover have "u128_val (u128_sub F G) = 0" using eq by (subst u128_val_sub) simp_all
    ultimately show ?thesis using False eq
      by (simp add: fma_combine_def u128_ge_iff u128_nonzero_iff make_signed_zero_if)
  next
    case gt
    note fd = frame_diff [OF F G D gt]
    have v: "u128_val (u128_sub F G) = u128_val F - u128_val G" using gt by (intro u128_val_sub) simp
    have "fma_round_and_pack sp (u128_sub F G) E m fe = ieee64 m (sp \<noteq> 0) (y * 2 powi E - z * 2 powi E) fe"
      using fd gt bnd by (intro fma_pack_correct [OF s(1), where y = "y - z"]) (simp_all only: v, simp_all add: algebra_simps)
    then show ?thesis using False gt fd(3) v by (simp add: fma_combine_def u128_ge_iff u128_nonzero_iff)
  next
    case lt
    note fd = frame_diff [OF G F D' lt]
    have v: "u128_val (u128_sub G F) = u128_val G - u128_val F" using lt by (intro u128_val_sub) simp
    have "fma_round_and_pack sc (u128_sub G F) E m fe = ieee64 m (sc \<noteq> 0) (z * 2 powi E - y * 2 powi E) fe"
      using fd lt bnd by (intro fma_pack_correct [OF s(2), where y = "z - y"]) (simp_all only: v, simp_all add: algebra_simps)
    then show ?thesis using False lt fd(3) v by (simp add: fma_combine_def u128_ge_iff u128_nonzero_iff)
  qed
qed

text \<open>Both placements, for the frame the code chooses.\<close>

lemma fma_frame_placed:
  fixes pe ec :: int
  assumes P: "2 ^ hp \<le> u128_val P" "u128_val P < 2 ^ Suc hp" "hp \<le> 105"
    and C: "2 ^ 52 \<le> u128_val C" "u128_val C < 2 ^ 53"
  defines "E \<equiv> (if ec < pe + int hp then pe + int hp else ec) + 2 - 127"
  shows "placed (u128_val (frame_place P (pe - E))) (real (u128_val P) * 2 powi (pe - E))"
    and "placed (u128_val (frame_place C (ec - 52 - E))) (real (u128_val C) * 2 powi (ec - 52 - E))"
    and "dominant (u128_val (frame_place P (pe - E))) (real (u128_val P) * 2 powi (pe - E))
       \<or> dominant (u128_val (frame_place C (ec - 52 - E))) (real (u128_val C) * 2 powi (ec - 52 - E))"
proof -
  have C': "u128_val C < 2 ^ Suc 52" using C(2) by simp
  show "placed (u128_val (frame_place P (pe - E))) (real (u128_val P) * 2 powi (pe - E))"
    by (rule placed_place [OF P]) (simp add: E_def)
  show "placed (u128_val (frame_place C (ec - 52 - E))) (real (u128_val C) * 2 powi (ec - 52 - E))"
    by (rule placed_place [OF C(1) C']) (simp_all add: E_def)
  show "dominant (u128_val (frame_place P (pe - E))) (real (u128_val P) * 2 powi (pe - E))
      \<or> dominant (u128_val (frame_place C (ec - 52 - E))) (real (u128_val C) * 2 powi (ec - 52 - E))"
  proof (cases "ec < pe + int hp")
    case True
    then show ?thesis using placed_dominant [OF P, of E pe] by (simp add: E_def)
  next
    case False
    then show ?thesis using placed_dominant [OF C(1) C', of E "ec - 52"] by (simp add: E_def)
  qed
qed

lemma fma_product:
  assumes a: "is_finite_bits a" "\<not> is_zero_bits a" and b: "is_finite_bits b" "\<not> is_zero_bits b"
  obtains ma ea mb eb where "normalise (extract_exp a) (extract_frac a) = (ma, ea)"
    "normalise (extract_exp b) (extract_frac b) = (mb, eb)"
    "2 ^ 104 \<le> u128_val (mul64x64_to_128 ma mb)" "u128_val (mul64x64_to_128 ma mb) < 2 ^ 106"
    "\<bar>val64 a * val64 b\<bar> = real (u128_val (mul64x64_to_128 ma mb)) * 2 powi (ea + eb - 104)"
proof -
  obtain ma ea where A: "normalise (extract_exp a) (extract_frac a) = (ma, ea)"
    "2 ^ 52 \<le> unat ma" "unat ma < 2 ^ 53" "\<bar>val64 a\<bar> = real (unat ma) * 2 powi (ea - 52)"
    using normalise_correct [OF a] by metis
  obtain mb eb where B: "normalise (extract_exp b) (extract_frac b) = (mb, eb)"
    "2 ^ 52 \<le> unat mb" "unat mb < 2 ^ 53" "\<bar>val64 b\<bar> = real (unat mb) * 2 powi (eb - 52)"
    using normalise_correct [OF b] by metis
  have P: "u128_val (mul64x64_to_128 ma mb) = unat ma * unat mb" by (rule u128_val_mul64x64)
  have "2 ^ 52 * 2 ^ 52 \<le> unat ma * unat mb" using A(2) B(2) by (rule mult_le_mono)
  moreover have "unat ma * unat mb < 2 ^ 53 * 2 ^ 53" using A(3) B(3) by (intro mult_strict_mono) simp_all
  moreover have e: "(2::real) powi (ea + eb - 104) = 2 powi (ea - 52) * 2 powi (eb - 52)"
    unfolding powi2_add [symmetric] by simp
  have "\<bar>val64 a * val64 b\<bar> = real (unat ma * unat mb) * 2 powi (ea + eb - 104)"
    unfolding abs_mult A(4) B(4) of_nat_mult e by (simp only: mult.assoc mult.left_commute)
  ultimately show thesis using that [OF A(1) B(1)] unfolding P by simp
qed

lemma fma_combine_code:
  "(if sp = sc then fma_round_and_pack sp (u128_add F G) E m fe
    else case if u128_ge F G then (u128_sub F G, sp) else (u128_sub G F, sc) of
      (mag, s) \<Rightarrow> if \<not> u128_nonzero mag then (make_signed_zero (if m = SF64_RDN then 1 else 0), fe)
                 else fma_round_and_pack s mag E m fe) = fma_combine sp sc F G E m fe"
  by (simp only: fma_combine_def)

lemma signed_sum:
  assumes "0 < x" "0 < y"
  shows "round64 m z ((if s then - x else x) + (if t then - y else y)) fe =
    (if s = t then ieee64 m s (x + y) fe
     else if x = y then (enc64 z 0, fe)
     else if y < x then ieee64 m s (x - y) fe else ieee64 m t (y - x) fe)"
proof (cases "s = t")
  case True
  then show ?thesis using signed_round64 [of "x + y" m z t fe] assms by (cases t) simp_all
next
  case False
  then have t: "t = (\<not> s)" by blast
  show ?thesis unfolding t using signed_difference [of m z s x y fe] by (cases s) simp_all
qed

lemma fma_r_impl_nonzero:
  assumes a: "is_finite_bits a" "\<not> is_zero_bits a" and b: "is_finite_bits b" "\<not> is_zero_bits b"
    and c: "is_finite_bits c" "\<not> is_zero_bits c"
  shows "fma_r_impl a b c m fe = round64 m (m = SF64_RDN) (val64 a * val64 b + val64 c) fe"
proof -
  note fin = finite_not_special [OF a(1)] finite_not_special [OF b(1)] finite_not_special [OF c(1)]
  obtain ma ea mb eb where P: "normalise (extract_exp a) (extract_frac a) = (ma, ea)"
    "normalise (extract_exp b) (extract_frac b) = (mb, eb)"
    "2 ^ 104 \<le> u128_val (mul64x64_to_128 ma mb)" "u128_val (mul64x64_to_128 ma mb) < 2 ^ 106"
    "\<bar>val64 a * val64 b\<bar> = real (u128_val (mul64x64_to_128 ma mb)) * 2 powi (ea + eb - 104)"
    using fma_product [OF a b] by metis
  obtain mc ec where C: "normalise (extract_exp c) (extract_frac c) = (mc, ec)"
    "2 ^ 52 \<le> unat mc" "unat mc < 2 ^ 53" "\<bar>val64 c\<bar> = real (unat mc) * 2 powi (ec - 52)"
    using normalise_correct [OF c] by metis
  define Q where "Q = mul64x64_to_128 ma mb"
  define h where "h = nat (highest_bit Q)"
  have "u128_val Q \<noteq> 0" using P(3) unfolding Q_def by (metis not_less power_not_zero zero_less_power pos2 neq0_conv)
  note hb = highest_bit_binade [OF this]
  have h: "2 ^ h \<le> u128_val Q" "u128_val Q < 2 ^ Suc h" "highest_bit Q = int h" using hb by (simp_all add: h_def)
  have h105: "h \<le> 105"
  proof (rule ccontr)
    assume "\<not> h \<le> 105"
    then have "(2::nat) ^ 106 \<le> 2 ^ h" by (intro power_increasing) simp_all
    then show False using h(1) P(4) unfolding Q_def by simp
  qed
  define E where "E = (if ec < ea + eb - 104 + int h then ea + eb - 104 + int h else ec) + 2 - 127"
  have c2: "2 ^ 52 \<le> u128_val (u128_of mc)" "u128_val (u128_of mc) < 2 ^ 53" using C(2,3) by simp_all
  note pl = fma_frame_placed [OF h(1,2) h105 c2, where pe = "ea + eb - 104" and ec = ec, folded E_def]
  define y z where yz: "y = real (u128_val Q) * 2 powi (ea + eb - 104 - E)"
    "z = real (u128_val (u128_of mc)) * 2 powi (ec - 52 - E)"
  have Y: "y * 2 powi E = \<bar>val64 a * val64 b\<bar>"
    unfolding yz P(5) Q_def [symmetric] mult.assoc powi2_add [symmetric] by simp
  have Z: "z * 2 powi E = \<bar>val64 c\<bar>"
    unfolding yz C(4) mult.assoc powi2_add [symmetric] by simp
  let ?sp = "extract_sign a XOR extract_sign b" and ?sc = "extract_sign c"
  have code: "fma_r_impl a b c m fe = fma_combine ?sp ?sc
      (frame_place Q (ea + eb - 104 - E)) (frame_place (u128_of mc) (ec - 52 - E)) E m fe"
    unfolding fma_combine_code [symmetric] fma_r_impl_def Let_def P(1,2) C(1) prod.case Q_def [symmetric] h(3) E_def [symmetric]
    using fin a b c by simp
  have yz_order: "y = z \<longleftrightarrow> \<bar>val64 a * val64 b\<bar> = \<bar>val64 c\<bar>" "z < y \<longleftrightarrow> \<bar>val64 c\<bar> < \<bar>val64 a * val64 b\<bar>"
    unfolding Y [symmetric] Z [symmetric] by simp_all
  have pos: "0 < \<bar>val64 a * val64 b\<bar>" "0 < \<bar>val64 c\<bar>" using a(2) b(2) c(2) by (simp_all add: val64_eq_0_iff)
  have sg: "?sp = ?sc \<longleftrightarrow> (sgn64 a \<noteq> sgn64 b) = sgn64 c" by (auto simp: extract_sign_cases)
  have v: "val64 a * val64 b + val64 c = (if sgn64 a \<noteq> sgn64 b then - \<bar>val64 a * val64 b\<bar> else \<bar>val64 a * val64 b\<bar>)
      + (if sgn64 c then - \<bar>val64 c\<bar> else \<bar>val64 c\<bar>)"
    unfolding val64_signed [of c, symmetric] abs_mult unfolding val64_mult_sign(1) [OF a(2) b(2)] ..
  show ?thesis
    unfolding code fma_combine_correct [OF sign_xor_01 extract_sign_01 pl [folded yz]] Y Z yz_order sg
      sign_xor_iff extract_sign_simps(1) v signed_sum [OF pos] ..
qed

text \<open>The IEEE 754 fused multiply-add, with the sign of a zero product that \<open>c\<close> does not override.\<close>

definition ieee_fma :: "sf64_rounding_mode \<Rightarrow> f64 \<Rightarrow> f64 \<Rightarrow> f64 \<Rightarrow> u32 \<Rightarrow> f64 \<times> u32" where
  "ieee_fma m a b c fe =
     (if (is_inf_bits a \<and> is_zero_bits b) \<or> (is_zero_bits a \<and> is_inf_bits b) then (kCanonicalNaN, fe OR SF64_FE_INVALID)
      else if is_nan_bits a \<or> is_nan_bits b \<or> is_nan_bits c then
        (if is_nan_bits a then quiet a else if is_nan_bits b then quiet b else quiet c,
         if is_snan_bits a \<or> is_snan_bits b \<or> is_snan_bits c then fe OR SF64_FE_INVALID else fe)
      else if is_inf_bits a \<or> is_inf_bits b then
        (if is_inf_bits c \<and> sgn64 c \<noteq> (sgn64 a \<noteq> sgn64 b) then (kCanonicalNaN, fe OR SF64_FE_INVALID)
         else (enc64 (sgn64 a \<noteq> sgn64 b) inf64, fe))
      else if is_inf_bits c then (c, fe)
      else round64 m (if (is_zero_bits a \<or> is_zero_bits b) \<and> is_zero_bits c \<and> (sgn64 c \<longleftrightarrow> (sgn64 a \<noteq> sgn64 b)) then sgn64 c
                      else m = SF64_RDN)
             (val64 a * val64 b + val64 c) fe)"

lemma fma_r_impl_finite:
  assumes a: "is_finite_bits a" and b: "is_finite_bits b" and c: "is_finite_bits c"
  shows "fma_r_impl a b c m fe = ieee_fma m a b c fe"
proof -
  note fin = finite_not_special [OF a] finite_not_special [OF b] finite_not_special [OF c]
  have ni: "\<not> is_inf_bits a" "\<not> is_inf_bits b" "\<not> is_inf_bits c" using a b c by (auto simp: class_iff)
  consider (pz) "is_zero_bits a \<or> is_zero_bits b" | (cz) "\<not> is_zero_bits a" "\<not> is_zero_bits b" "is_zero_bits c"
    | (nz) "\<not> is_zero_bits a" "\<not> is_zero_bits b" "\<not> is_zero_bits c" by blast
  then show ?thesis
  proof cases
    case pz
    then have z: "val64 a * val64 b = 0" by (auto simp: val64_eq_0_iff)
    show ?thesis
    proof (cases "is_zero_bits c")
      case True
      have sg: "extract_sign a XOR extract_sign b = extract_sign c \<longleftrightarrow> (sgn64 c \<longleftrightarrow> (sgn64 a \<noteq> sgn64 b))"
        by (auto simp: extract_sign_cases)
      show ?thesis using pz True fin ni
        by (auto simp: fma_r_impl_def ieee_fma_def z round64_def val64_eq_0_iff [THEN iffD2] sg make_signed_zero_if
            make_signed_zero_enc64 odd_sign_xor)
    next
      case False
      then show ?thesis using pz fin ni c
        by (auto simp: fma_r_impl_def ieee_fma_def z round64_val64)
    qed
  next
    case cz
    obtain ma ea mb eb where P: "normalise (extract_exp a) (extract_frac a) = (ma, ea)"
      "normalise (extract_exp b) (extract_frac b) = (mb, eb)"
      "2 ^ 104 \<le> u128_val (mul64x64_to_128 ma mb)" "u128_val (mul64x64_to_128 ma mb) < 2 ^ 106"
      "\<bar>val64 a * val64 b\<bar> = real (u128_val (mul64x64_to_128 ma mb)) * 2 powi (ea + eb - 104)"
      using fma_product [OF a cz(1) b cz(2)] by metis
    define Q where "Q = mul64x64_to_128 ma mb"
    have code: "fma_r_impl a b c m fe = fma_round_and_pack (extract_sign a XOR extract_sign b) Q (ea + eb - 104) m fe"
      unfolding fma_r_impl_def Let_def P(1,2) prod.case Q_def [symmetric] using fin cz by simp
    have "0 < u128_val Q \<and> u128_val Q < 2 ^ 127"
      using P(3,4) unfolding Q_def by (auto intro: order_less_le_trans)
    then have r: "fma_r_impl a b c m fe = ieee64 m (sgn64 a \<noteq> sgn64 b) \<bar>val64 a * val64 b\<bar> fe"
      unfolding code using fma_pack_correct [OF sign_xor_01 _ _ same_cell_refl _ P(5) [folded Q_def]] by (simp add: sign_xor_iff)
    have "0 < \<bar>val64 a * val64 b\<bar>" using cz by (simp add: val64_eq_0_iff)
    moreover have "val64 a * val64 b + val64 c = (if sgn64 a \<noteq> sgn64 b then - \<bar>val64 a * val64 b\<bar> else \<bar>val64 a * val64 b\<bar>)"
      unfolding abs_mult val64_mult_sign(1) [OF cz(1,2)] val64_eq_0_iff [THEN iffD2, OF cz(3)] by simp
    ultimately show ?thesis using fin ni cz unfolding r
      by (simp add: ieee_fma_def signed_round64)
  next
    case nz
    then show ?thesis using fin ni fma_r_impl_nonzero [OF a nz(1) b nz(2) c nz(3), of m fe]
      by (simp add: ieee_fma_def)
  qed
qed

lemma special_bits: "extract_exp b = kExpMax \<and> extract_frac b \<noteq> 0 \<longleftrightarrow> is_nan_bits b"
  "extract_exp b = kExpMax \<and> extract_frac b = 0 \<longleftrightarrow> is_inf_bits b"
  by (simp_all add: is_nan_bits_def is_inf_bits_def)

lemma fma_r_impl_sound: "fma_r_impl a b c m fe = ieee_fma m a b c fe"
proof (cases "is_finite_bits a \<and> is_finite_bits b \<and> is_finite_bits c")
  case True
  then show ?thesis using fma_r_impl_finite by blast
next
  case False
  have sg: "extract_sign a XOR extract_sign b = extract_sign c \<longleftrightarrow> (sgn64 c \<longleftrightarrow> (sgn64 a \<noteq> sgn64 b))"
    by (auto simp: extract_sign_cases)
  have "is_nan_bits a \<or> is_nan_bits b \<or> is_nan_bits c \<or> is_inf_bits a \<or> is_inf_bits b \<or> is_inf_bits c"
    using False by (metis class64_cases)
  then show ?thesis
    unfolding fma_r_impl_def ieee_fma_def Let_def special_bits sg
    by (auto simp: quiet_def canonical_nan_def make_signed_inf_enc64 odd_extract_sign odd_sign_xor make_signed_inf_sign is_inf_enc64 [symmetric])
qed

section \<open>Properties\<close>

text \<open>
  C4: The fused multiply-add rounds the exact real \<open>a * b + c\<close> once, in every mode and for every
  input: the result and the exception flags are those of the IEEE 754 operation, subnormal and
  overflowing results, exact cancellation, infinities, zeros and NaNs included.  A NaN operand comes back
  quieted with its own sign and payload, not as the canonical quiet NaN that \<open>soft_f64.h\<close> announces.
\<close>
theorem fma_r_impl_correct: "fma_r_impl a b c m fe = ieee_fma m a b c fe"
  by (rule fma_r_impl_sound)

text \<open>
  The nearest-even copies of the square root and of the fused multiply-add in the internal
  header, which the mode-free entries call, compute the generic bodies at \<open>SF64_RNE\<close>.
\<close>
theorem sqrt_fma_rne_specializations:
  "sf64_internal_sqrt_rne x fe = sqrt_r_impl x SF64_RNE fe
   \<and> sf64_internal_fma_rne a b c fe = fma_r_impl a b c SF64_RNE fe
   \<and> sf64_sqrt x = sf64_sqrt_r SF64_RNE x \<and> sf64_fma a b c = sf64_fma_r SF64_RNE a b c"
  unfolding sqrt_rne_eq internal_fma_rne_eq
  by (simp add: fun_eq_iff sf64_sqrt_def sf64_sqrt_r_def sf64_fma_def sf64_fma_r_def sqrt_rne_eq internal_fma_rne_eq)

end
