(* ===== verification/Sf_Compare.thy ===== *)
theory Sf_Compare
  imports Sf_Round
begin

text \<open>
  The comparison component: \<open>src/compare.cpp\<close> (the sixteen LLVM predicates, the IEEE 754-2008
  minimum and maximum) and the comparison half of \<open>src/internal_classify.h\<close>.  All of it
  is integer code on the encodings.  The interface \<open>value_order\<close> states what a less-than on
  encodings promises; every less-than of the library is an instance of it.
\<close>

section \<open>The code of \<open>compare.cpp\<close>\<close>

text \<open>The two's-complement image of a sign-magnitude encoding, read as a signed 64-bit integer.\<close>

definition ordered_image :: "u64 \<Rightarrow> u64" where
  "ordered_image a = a XOR (signed_drop_bit 63 a AND 0x7FFFFFFFFFFFFFFF)"

definition ordered_lt :: "u64 \<Rightarrow> u64 \<Rightarrow> bool" where
  "ordered_lt a b =
     (if is_zero_bits a \<and> is_zero_bits b then False
      else sint (ordered_image a) < sint (ordered_image b))"

definition ordered_eq :: "u64 \<Rightarrow> u64 \<Rightarrow> bool" where
  "ordered_eq a b = (if a = b then True else is_zero_bits a \<and> is_zero_bits b)"

definition fcmp_impl :: "f64 \<Rightarrow> f64 \<Rightarrow> int \<Rightarrow> int" where
  "fcmp_impl a b pred =
     (let nan = is_nan_bits a \<or> is_nan_bits b
      in if pred = 0 then 0
         else if pred = 1 then (if \<not> nan \<and> ordered_eq a b then 1 else 0)
         else if pred = 2 then (if \<not> nan \<and> ordered_lt b a then 1 else 0)
         else if pred = 3 then (if \<not> nan \<and> \<not> ordered_lt a b then 1 else 0)
         else if pred = 4 then (if \<not> nan \<and> ordered_lt a b then 1 else 0)
         else if pred = 5 then (if \<not> nan \<and> \<not> ordered_lt b a then 1 else 0)
         else if pred = 6 then (if \<not> nan \<and> \<not> ordered_eq a b then 1 else 0)
         else if pred = 7 then (if \<not> nan then 1 else 0)
         else if pred = 8 then (if nan then 1 else 0)
         else if pred = 9 then (if nan \<or> ordered_eq a b then 1 else 0)
         else if pred = 10 then (if nan \<or> ordered_lt b a then 1 else 0)
         else if pred = 11 then (if nan \<or> \<not> ordered_lt a b then 1 else 0)
         else if pred = 12 then (if nan \<or> ordered_lt a b then 1 else 0)
         else if pred = 13 then (if nan \<or> \<not> ordered_lt b a then 1 else 0)
         else if pred = 14 then (if nan \<or> \<not> ordered_eq a b then 1 else 0)
         else if pred = 15 then 1
         else 0)"

definition fmin_precise_impl :: "f64 \<Rightarrow> f64 \<Rightarrow> f64" where
  "fmin_precise_impl a b =
     (if is_nan_bits a \<or> is_nan_bits b then propagate_nan a b
      else if is_zero_bits a \<and> is_zero_bits b then
        (let any_negative = ((a OR b) AND kSignMask \<noteq> 0) in if any_negative then kSignMask else 0)
      else if ordered_lt a b then a else b)"

definition fmax_precise_impl :: "f64 \<Rightarrow> f64 \<Rightarrow> f64" where
  "fmax_precise_impl a b =
     (if is_nan_bits a \<or> is_nan_bits b then propagate_nan a b
      else if is_zero_bits a \<and> is_zero_bits b then
        (let any_positive = (a AND kSignMask = 0 \<or> b AND kSignMask = 0) in if any_positive then 0 else kSignMask)
      else if ordered_lt a b then b else a)"

definition sf64_fcmp :: "f64 \<Rightarrow> f64 \<Rightarrow> int \<Rightarrow> int" where
  "sf64_fcmp a b pred = fcmp_impl a b pred"

definition sf64_fmin_precise :: "f64 \<Rightarrow> f64 \<Rightarrow> f64" where
  "sf64_fmin_precise a b = fmin_precise_impl a b"

definition sf64_fmax_precise :: "f64 \<Rightarrow> f64 \<Rightarrow> f64" where
  "sf64_fmax_precise a b = fmax_precise_impl a b"

section \<open>The comparison half of \<open>internal_classify.h\<close>\<close>

definition sf64_internal_fabs :: "f64 \<Rightarrow> f64" where
  "sf64_internal_fabs x = x AND NOT kSignMask"

definition sf64_internal_fcmp_ordered_lt :: "u64 \<Rightarrow> u64 \<Rightarrow> bool" where
  "sf64_internal_fcmp_ordered_lt a b =
     (if is_zero_bits a \<and> is_zero_bits b then False
      else sint (a XOR (signed_drop_bit 63 a AND 0x7FFFFFFFFFFFFFFF))
         < sint (b XOR (signed_drop_bit 63 b AND 0x7FFFFFFFFFFFFFFF)))"

definition sf64_internal_fcmp_ordered_eq :: "u64 \<Rightarrow> u64 \<Rightarrow> bool" where
  "sf64_internal_fcmp_ordered_eq a b = (if a = b then True else is_zero_bits a \<and> is_zero_bits b)"

definition sf64_internal_fcmp :: "f64 \<Rightarrow> f64 \<Rightarrow> int \<Rightarrow> int" where
  "sf64_internal_fcmp a b pred =
     (let nan = is_nan_bits a \<or> is_nan_bits b
      in if pred = 0 then 0
         else if pred = 1 then (if \<not> nan \<and> sf64_internal_fcmp_ordered_eq a b then 1 else 0)
         else if pred = 2 then (if \<not> nan \<and> sf64_internal_fcmp_ordered_lt b a then 1 else 0)
         else if pred = 3 then (if \<not> nan \<and> \<not> sf64_internal_fcmp_ordered_lt a b then 1 else 0)
         else if pred = 4 then (if \<not> nan \<and> sf64_internal_fcmp_ordered_lt a b then 1 else 0)
         else if pred = 5 then (if \<not> nan \<and> \<not> sf64_internal_fcmp_ordered_lt b a then 1 else 0)
         else if pred = 6 then (if \<not> nan \<and> \<not> sf64_internal_fcmp_ordered_eq a b then 1 else 0)
         else if pred = 7 then (if \<not> nan then 1 else 0)
         else if pred = 8 then (if nan then 1 else 0)
         else if pred = 9 then (if nan \<or> sf64_internal_fcmp_ordered_eq a b then 1 else 0)
         else if pred = 10 then (if nan \<or> sf64_internal_fcmp_ordered_lt b a then 1 else 0)
         else if pred = 11 then (if nan \<or> \<not> sf64_internal_fcmp_ordered_lt a b then 1 else 0)
         else if pred = 12 then (if nan \<or> sf64_internal_fcmp_ordered_lt a b then 1 else 0)
         else if pred = 13 then (if nan \<or> \<not> sf64_internal_fcmp_ordered_lt b a then 1 else 0)
         else if pred = 14 then (if nan \<or> \<not> sf64_internal_fcmp_ordered_eq a b then 1 else 0)
         else if pred = 15 then 1
         else 0)"

section \<open>The order on encodings\<close>

text \<open>
  The key of an encoding in the total order the integer images follow: \<open>-0\<close> sits just below
  \<open>+0\<close>, and the infinities just beyond the largest finite values.
\<close>

definition ord_key :: "f64 \<Rightarrow> int" where
  "ord_key b = (if sgn64 b then - int (mag64 b) - 1 else int (mag64 b))"

lemma ord_key_inj [simp]: "ord_key a = ord_key b \<longleftrightarrow> a = b"
  by (auto simp: ord_key_def f64_eq_iff split: if_splits)

lemma ord_key_zero: "is_zero_bits b \<longleftrightarrow> ord_key b = 0 \<or> ord_key b = - 1"
  by (auto simp: ord_key_def is_zero_bits_iff)

lemma val64_key: "val64 a < val64 b \<longleftrightarrow> ord_key a < ord_key b \<and> \<not> (is_zero_bits a \<and> is_zero_bits b)"
proof -
  let ?m = "mag_val 52 (- 1074)"
  have neg: "- ?m p < - ?m q \<longleftrightarrow> q < p" "- ?m p < ?m q \<longleftrightarrow> 0 < p \<or> 0 < q" "\<not> ?m p < - ?m q" for p q
    using mag_val_nonneg [of 52 "- 1074" p] mag_val_nonneg [of 52 "- 1074" q]
      mag_val_pos_iff [of 52 "- 1074" p] mag_val_pos_iff [of 52 "- 1074" q]
    by (auto simp del: mag_val_pos_iff)
  show ?thesis
    by (cases "sgn64 a"; cases "sgn64 b") (auto simp: val64_def ord_key_def is_zero_bits_iff neg)
qed

lemma val64_eq_key: "val64 a = val64 b \<longleftrightarrow> a = b \<or> (is_zero_bits a \<and> is_zero_bits b)"
proof -
  have "val64 a = val64 b \<longleftrightarrow> \<not> val64 a < val64 b \<and> \<not> val64 b < val64 a" by auto
  then show ?thesis unfolding val64_key using ord_key_inj [of a b] by auto
qed

lemma unat_not64: "unat (NOT w) = 2 ^ 64 - 1 - unat w" for w :: u64
proof -
  have "NOT w = - 1 - w" by (simp add: not_eq_complement)
  moreover have "unat (- 1 :: u64) = 2 ^ 64 - 1" by (simp add: unsigned_minus_1_eq_mask mask_eq_exp_minus_1)
  moreover have "unat w \<le> 2 ^ 64 - 1" using unat_lt64 [of w] by simp
  ultimately show ?thesis by (simp only: unat_sub_le)
qed

lemma sint64: "sint w = (if sgn64 w then int (mag64 w) - 2 ^ 63 else int (mag64 w))"
proof -
  have w: "uint w = (if sgn64 w then 2 ^ 63 else 0) + int (mag64 w)"
    unfolding uint_nat unat_split64 [of w] by simp
  have "int (mag64 w) < int (2 ^ 63)" unfolding of_nat_less_iff by (rule mag64_less)
  then have m: "0 \<le> int (mag64 w)" "int (mag64 w) < 2 ^ 63" by simp_all
  have "sint (word_of_int (uint w) :: u64) = (uint w + 2 ^ 63) mod 2 ^ 64 - 2 ^ 63"
    unfolding int_word_sint by simp
  moreover have "(uint w + 2 ^ 63) mod 2 ^ 64 = (if sgn64 w then int (mag64 w) else int (mag64 w) + 2 ^ 63)"
  proof (cases "sgn64 w")
    case True
    then have "uint w + 2 ^ 63 = int (mag64 w) + 2 ^ 64" using w by simp
    then show ?thesis using True m by simp
  next
    case False
    then show ?thesis using w m by simp
  qed
  ultimately show ?thesis by simp
qed

lemma signed_image: "sint (ordered_image a) = ord_key a"
proof -
  have m: "(0x7FFFFFFFFFFFFFFF :: u64) = mask 63" by (simp add: mask_eq_exp_minus_1)
  have sd: "bit (signed_drop_bit 63 a AND mask 63) i \<longleftrightarrow> i < 63 \<and> sgn64 a" for i
    by (cases i) (auto simp: bit_simps sgn64_bit min_def)
  show ?thesis
  proof (cases "sgn64 a")
    case False
    then have "ordered_image a = a" unfolding ordered_image_def m by (intro bit_eqI) (simp add: bit_xor_iff sd)
    then show ?thesis using False by (simp add: sint64 ord_key_def)
  next
    case True
    have "ordered_image a = NOT (sf64_neg a)"
      unfolding ordered_image_def m
      by (rule bit_eqI) (auto simp: bit_xor_iff bit_not_iff sd True sf64_neg_def bit_kSignMask)
    then have u: "unat (ordered_image a) = 2 ^ 64 - 1 - mag64 a"
      using True unat_split64 [of "sf64_neg a"] by (simp add: unat_not64)
    then have "sgn64 (ordered_image a)" unfolding sgn64_def using mag64_less [of a] by simp
    moreover from this have "mag64 (ordered_image a) = 2 ^ 63 - 1 - mag64 a"
      using u unat_split64 [of "ordered_image a"] mag64_less [of a] by simp
    ultimately show ?thesis using True mag64_less [of a] by (simp add: sint64 ord_key_def of_nat_diff)
  qed
qed

section \<open>The interface of a less-than on encodings\<close>

text \<open>
  What a client may rely on: on the encodings that are not NaN the less-than is the order of a
  key.  The key is the real value for the IEEE order and \<open>ord_key\<close> for the total order.
\<close>

locale value_order =
  fixes less :: "f64 \<Rightarrow> f64 \<Rightarrow> bool" and key :: "f64 \<Rightarrow> 'k::linorder"
  assumes less_key: "\<not> is_nan_bits a \<Longrightarrow> \<not> is_nan_bits b \<Longrightarrow> less a b \<longleftrightarrow> key a < key b"
begin

lemma less_trans: "\<not> is_nan_bits a \<Longrightarrow> \<not> is_nan_bits b \<Longrightarrow> \<not> is_nan_bits c \<Longrightarrow> less a b \<Longrightarrow> less b c \<Longrightarrow> less a c"
  by (auto simp: less_key)

lemma trichotomy: "\<not> is_nan_bits a \<Longrightarrow> \<not> is_nan_bits b \<Longrightarrow> less a b \<or> less b a \<or> key a = key b"
  by (auto simp: less_key)

text \<open>Selecting the smaller, respectively the larger operand.\<close>

lemma pick_min: "\<not> is_nan_bits a \<Longrightarrow> \<not> is_nan_bits b \<Longrightarrow> key (if less a b then a else b) = min (key a) (key b)"
  by (auto simp: less_key min_def)

lemma pick_max: "\<not> is_nan_bits a \<Longrightarrow> \<not> is_nan_bits b \<Longrightarrow> key (if less a b then b else a) = max (key a) (key b)"
  by (auto simp: less_key max_def)

end

lemma ordered_lt_val: "ordered_lt a b \<longleftrightarrow> val64 a < val64 b"
  unfolding ordered_lt_def signed_image val64_key by auto

lemma ordered_eq_val: "ordered_eq a b \<longleftrightarrow> val64 a = val64 b"
  unfolding ordered_eq_def val64_eq_key by auto

lemma internal_lt_eq: "sf64_internal_fcmp_ordered_lt = ordered_lt"
  by (simp add: fun_eq_iff sf64_internal_fcmp_ordered_lt_def ordered_lt_def ordered_image_def)

lemma internal_eq_eq: "sf64_internal_fcmp_ordered_eq = ordered_eq"
  by (simp add: fun_eq_iff sf64_internal_fcmp_ordered_eq_def ordered_eq_def)

lemma internal_fcmp_eq: "sf64_internal_fcmp = fcmp_impl"
  by (intro ext) (simp only: sf64_internal_fcmp_def fcmp_impl_def internal_lt_eq internal_eq_eq)

interpretation ord_val: value_order ordered_lt val64
  by unfold_locales (rule ordered_lt_val)

interpretation int_val: value_order sf64_internal_fcmp_ordered_lt val64
  by unfold_locales (simp only: internal_lt_eq ordered_lt_val)

section \<open>The predicates\<close>

text \<open>
  LLVM numbers the predicates so that bit 0 asks for equal, bit 1 for greater, bit 2 for less and
  bit 3 for unordered: a predicate holds when the relation of the operands is among its bits.
\<close>

definition fcmp_holds :: "int \<Rightarrow> f64 \<Rightarrow> f64 \<Rightarrow> bool" where
  "fcmp_holds pred a b =
     (if is_nan_bits a \<or> is_nan_bits b then bit pred 3
      else if val64 a < val64 b then bit pred 2
      else if val64 b < val64 a then bit pred 1
      else bit pred 0)"

lemma pred_cases:
  fixes p :: int
  assumes "0 \<le> p \<and> p < 16"
  obtains "p = 0" | "p = 1" | "p = 2" | "p = 3" | "p = 4" | "p = 5" | "p = 6" | "p = 7"
    | "p = 8" | "p = 9" | "p = 10" | "p = 11" | "p = 12" | "p = 13" | "p = 14" | "p = 15"
proof -
  have "p \<in> {0..15}" using assms by simp
  also have "{0..15::int} = set [0,1,2,3,4,5,6,7,8,9,10,11,12,13,14,15]" by (simp add: simp_from_to)
  finally have "p = 0 \<or> p = 1 \<or> p = 2 \<or> p = 3 \<or> p = 4 \<or> p = 5 \<or> p = 6 \<or> p = 7
    \<or> p = 8 \<or> p = 9 \<or> p = 10 \<or> p = 11 \<or> p = 12 \<or> p = 13 \<or> p = 14 \<or> p = 15" by simp
  then show thesis by (elim disjE) (rule that; assumption)+
qed

lemma fcmp_impl_sound: "fcmp_impl a b pred = of_bool (0 \<le> pred \<and> pred < 16 \<and> fcmp_holds pred a b)"
proof (cases "0 \<le> pred \<and> pred < 16")
  case True
  define L G N where LG: "L = ordered_lt a b" "G = ordered_lt b a" "N = (is_nan_bits a \<or> is_nan_bits b)"
  have Q: "ordered_eq a b \<longleftrightarrow> \<not> L \<and> \<not> G" and X: "\<not> (L \<and> G)" unfolding LG ordered_eq_val ordered_lt_val by auto
  have H: "fcmp_holds pred a b \<longleftrightarrow> (if N then bit pred 3 else if L then bit pred 2 else if G then bit pred 1 else bit pred 0)"
    unfolding fcmp_holds_def LG ordered_lt_val ..
  note code = fcmp_impl_def [of a b, unfolded Let_def Q, folded LG]
  from True show ?thesis
    unfolding H by (rule pred_cases; hypsubst; unfold code; use X in \<open>cases N; cases L; cases G; simp add: bit_iff_odd\<close>)
next
  case False
  then have "pred \<noteq> k" if "0 \<le> k" "k \<le> 15" for k using that by auto
  moreover have "\<not> (0 \<le> pred \<and> pred < 16 \<and> fcmp_holds pred a b)" using False by blast
  ultimately show ?thesis by (simp add: fcmp_impl_def)
qed

section \<open>Minimum and maximum\<close>

text \<open>Both selections take the operand with the smaller, respectively larger, total-order key.\<close>

definition key_min :: "f64 \<Rightarrow> f64 \<Rightarrow> f64" where "key_min a b = (if ord_key a \<le> ord_key b then a else b)"
definition key_max :: "f64 \<Rightarrow> f64 \<Rightarrow> f64" where "key_max a b = (if ord_key a \<le> ord_key b then b else a)"

lemma kSignMask_enc: "kSignMask = enc64 True 0"
  by (simp add: kSignMask_def enc64_def)

lemma zero_enc: "0 = enc64 False 0"
  by (simp add: enc64_def)

lemma sign_test: "w AND kSignMask \<noteq> 0 \<longleftrightarrow> sgn64 w"
proof -
  have "kSignMask = push_bit 63 1" by (simp add: kSignMask_def)
  then have "w AND kSignMask \<noteq> 0 \<longleftrightarrow> bit w 63"
    by (metis and_exp_eq_0_iff_not_bit push_bit_eq_mult mult_1)
  then show ?thesis by (simp add: sgn64_bit)
qed

lemma sgn64_or: "sgn64 (a OR b) \<longleftrightarrow> sgn64 a \<or> sgn64 b"
  by (simp add: sgn64_bit bit_or_iff)

lemma fmin_precise_sound: "\<not> is_nan_bits a \<Longrightarrow> \<not> is_nan_bits b \<Longrightarrow> fmin_precise_impl a b = key_min a b"
proof (cases "is_zero_bits a \<and> is_zero_bits b")
  case True
  then show "\<not> is_nan_bits a \<Longrightarrow> \<not> is_nan_bits b \<Longrightarrow> fmin_precise_impl a b = key_min a b"
    using is_zero_enc64 [of a] is_zero_enc64 [of b]
    by (cases "sgn64 a"; cases "sgn64 b")
      (simp_all add: fmin_precise_impl_def key_min_def sign_test sgn64_or ord_key_def is_zero_bits_iff kSignMask_enc [symmetric] zero_enc [symmetric])
next
  case False
  then show "\<not> is_nan_bits a \<Longrightarrow> \<not> is_nan_bits b \<Longrightarrow> fmin_precise_impl a b = key_min a b"
    using ord_key_inj [of a b] by (auto simp: fmin_precise_impl_def key_min_def ordered_lt_val val64_key)
qed

lemma fmax_precise_sound: "\<not> is_nan_bits a \<Longrightarrow> \<not> is_nan_bits b \<Longrightarrow> fmax_precise_impl a b = key_max a b"
proof (cases "is_zero_bits a \<and> is_zero_bits b")
  case True
  then show "\<not> is_nan_bits a \<Longrightarrow> \<not> is_nan_bits b \<Longrightarrow> fmax_precise_impl a b = key_max a b"
    using is_zero_enc64 [of a] is_zero_enc64 [of b] sign_test [of a] sign_test [of b]
    by (cases "sgn64 a"; cases "sgn64 b")
      (simp_all add: fmax_precise_impl_def key_max_def ord_key_def is_zero_bits_iff kSignMask_enc [symmetric] zero_enc [symmetric])
next
  case False
  then show "\<not> is_nan_bits a \<Longrightarrow> \<not> is_nan_bits b \<Longrightarrow> fmax_precise_impl a b = key_max a b"
    using ord_key_inj [of a b] by (auto simp: fmax_precise_impl_def key_max_def ordered_lt_val val64_key)
qed

section \<open>Properties\<close>

text \<open>
  Every one of the sixteen LLVM predicates, and every integer that is none, is answered as IEEE
  754 prescribes: a number from 0 to 15 asks whether the relation of the operands (unordered when
  one is a NaN, else less, greater or equal as real numbers, infinities beyond every finite value
  and both zeros equal) is among its bits; any other number gives 0.  The header copy used by the
  elementary functions agrees on all inputs.
\<close>
theorem fcmp_correct:
  "sf64_fcmp a b pred = of_bool (0 \<le> pred \<and> pred < 16 \<and> fcmp_holds pred a b)
   \<and> sf64_internal_fcmp a b pred = sf64_fcmp a b pred"
  unfolding sf64_fcmp_def internal_fcmp_eq fcmp_impl_sound by simp

end
