(* ===== verification/Sf_Classify.thy ===== *)
theory Sf_Classify
  imports Sf_Compare Sf_Sqrt
begin

text \<open>
  \<open>src/classify.cpp\<close>: classification, sign manipulation, the NaN-flushing minimum and maximum,
  the magnitude selections, the positive difference, the neighbour of a value, and the scaled
  hypotenuse.  The last two families call the arithmetic entries, so they are state passing: each
  call flushes its flags into the bag of the thread.
\<close>

section \<open>The code\<close>

definition sf64_isnan :: "f64 \<Rightarrow> int" where
  "sf64_isnan x = (if extract_exp x = kExpMax \<and> extract_frac x \<noteq> 0 then 1 else 0)"

definition sf64_isinf :: "f64 \<Rightarrow> int" where
  "sf64_isinf x = (if extract_exp x = kExpMax \<and> extract_frac x = 0 then 1 else 0)"

definition sf64_isfinite :: "f64 \<Rightarrow> int" where
  "sf64_isfinite x = (if extract_exp x \<noteq> kExpMax then 1 else 0)"

definition sf64_isnormal :: "f64 \<Rightarrow> int" where
  "sf64_isnormal x = (let e = extract_exp x in if e \<noteq> 0 \<and> e \<noteq> kExpMax then 1 else 0)"

definition sf64_signbit :: "f64 \<Rightarrow> int" where
  "sf64_signbit x = uint (drop_bit 63 x)"

definition sf64_fabs :: "f64 \<Rightarrow> f64" where
  "sf64_fabs x = x AND NOT kSignMask"

definition sf64_copysign :: "f64 \<Rightarrow> f64 \<Rightarrow> f64" where
  "sf64_copysign x y = (x AND NOT kSignMask) OR (y AND kSignMask)"

definition bit_less_nonan :: "f64 \<Rightarrow> f64 \<Rightarrow> bool" where
  "bit_less_nonan a b =
     (let ak = (if drop_bit 63 a \<noteq> 0 then NOT a else a OR kSignMask);
          bk = (if drop_bit 63 b \<noteq> 0 then NOT b else b OR kSignMask)
      in ak < bk)"

definition sf64_fmin :: "f64 \<Rightarrow> f64 \<Rightarrow> f64" where
  "sf64_fmin a b =
     (if sf64_isnan a \<noteq> 0 then b
      else if sf64_isnan b \<noteq> 0 then a
      else if is_zero_bits a \<and> is_zero_bits b then
        (if (a OR b) AND kSignMask \<noteq> 0 then (if a AND kSignMask \<noteq> 0 then a else b) else a)
      else if bit_less_nonan a b then a else b)"

definition sf64_fmax :: "f64 \<Rightarrow> f64 \<Rightarrow> f64" where
  "sf64_fmax a b =
     (if sf64_isnan a \<noteq> 0 then b
      else if sf64_isnan b \<noteq> 0 then a
      else if is_zero_bits a \<and> is_zero_bits b then (if a AND kSignMask = 0 then a else b)
      else if bit_less_nonan a b then b else a)"

definition sf64_fdim :: "bool \<Rightarrow> f64 \<Rightarrow> f64 \<Rightarrow> f64 entry" where
  "sf64_fdim snan a b m t w =
     (if sf64_isnan a \<noteq> 0 \<or> sf64_isnan b \<noteq> 0 then (canonical_nan, w)
      else if bit_less_nonan b a then sf64_sub snan a b m t w
      else (0, w))"

definition sf64_maxmag :: "f64 \<Rightarrow> f64 \<Rightarrow> f64" where
  "sf64_maxmag a b =
     (if sf64_isnan a \<noteq> 0 then b
      else if sf64_isnan b \<noteq> 0 then a
      else let aa = sf64_fabs a; ab = sf64_fabs b
           in if bit_less_nonan ab aa then a
              else if bit_less_nonan aa ab then b
              else sf64_fmax a b)"

definition sf64_minmag :: "f64 \<Rightarrow> f64 \<Rightarrow> f64" where
  "sf64_minmag a b =
     (if sf64_isnan a \<noteq> 0 then b
      else if sf64_isnan b \<noteq> 0 then a
      else let aa = sf64_fabs a; ab = sf64_fabs b
           in if bit_less_nonan aa ab then a
              else if bit_less_nonan ab aa then b
              else sf64_fmin a b)"

definition sf64_nextafter :: "f64 \<Rightarrow> f64 \<Rightarrow> f64" where
  "sf64_nextafter x y =
     (if sf64_isnan x \<noteq> 0 \<or> sf64_isnan y \<noteq> 0 then canonical_nan
      else
        let x_is_zero = is_zero_bits x; y_is_zero = is_zero_bits y
        in if x_is_zero \<and> y_is_zero then y
           else if x = y then y
           else if x_is_zero then pack (extract_sign y) 0 1
           else
             let x_positive = (extract_sign x = 0);
                 y_greater_than_x = bit_less_nonan x y;
                 move_up = (x_positive = y_greater_than_x)
             in if move_up then x + 1 else x - 1)"

definition sf64_hypot :: "f64 \<Rightarrow> f64 \<Rightarrow> f64 entry" where
  "sf64_hypot a b m t w =
     (if sf64_isinf a \<noteq> 0 \<or> sf64_isinf b \<noteq> 0 then (kPositiveInf, w)
      else if sf64_isnan a \<noteq> 0 \<or> sf64_isnan b \<noteq> 0 then (canonical_nan, w)
      else
        let ax = sf64_fabs a; ay = sf64_fabs b
        in if is_zero_bits ax \<and> is_zero_bits ay then (0, w)
           else
             let ax_lt_ay = bit_less_nonan ax ay;
                 s = (if ax_lt_ay then ay else ax);
                 u = (if ax_lt_ay then ax else ay)
             in if is_zero_bits s then (0, w)
                else
                  let (r, w) = sf64_div u s m t w;
                      (r2, w) = sf64_mul r r m t w;
                      (one_plus_r2, w) = sf64_add 0x3FF0000000000000 r2 m t w;
                      (sq, w) = sf64_sqrt one_plus_r2 m t w
                  in sf64_mul s sq m t w)"

section \<open>Classification and signs\<close>

lemma isnan_iff: "sf64_isnan x \<noteq> 0 \<longleftrightarrow> is_nan_bits x"
  by (simp add: sf64_isnan_def is_nan_bits_def)

lemma isinf_iff: "sf64_isinf x \<noteq> 0 \<longleftrightarrow> is_inf_bits x"
  by (simp add: sf64_isinf_def is_inf_bits_def)

lemma isnormal_iff: "sf64_isnormal x \<noteq> 0 \<longleftrightarrow> is_finite_bits x \<and> \<not> is_zero_bits x \<and> \<not> is_subnormal_bits x"
  by (auto simp: sf64_isnormal_def Let_def extract_exp_0_iff is_finite_bits_def is_zero_bits_iff is_subnormal_bits_iff)

lemma fabs_fields [simp]: "\<not> sgn64 (sf64_fabs x)" "mag64 (sf64_fabs x) = mag64 x"
proof -
  have b: "bit (sf64_fabs x) i \<longleftrightarrow> bit x i \<and> i \<noteq> 63" for i
    using bit_imp_le_length [of x i] by (auto simp: sf64_fabs_def bit_and_iff bit_not_iff bit_kSignMask)
  show "\<not> sgn64 (sf64_fabs x)" by (simp add: sgn64_bit b)
  have "sf64_fabs x AND mask 63 = x AND mask 63" by (rule bit_eqI) (auto simp: bit_and_iff bit_mask_iff b)
  then show "mag64 (sf64_fabs x) = mag64 x" by (simp only: mag64_mask)
qed

lemma fabs_enc: "sf64_fabs x = enc64 False (mag64 x)"
  using enc64_sgn_mag [of "sf64_fabs x"] by simp

lemma copysign_enc: "sf64_copysign x y = enc64 (sgn64 y) (mag64 x)"
proof -
  have b: "bit (sf64_copysign x y) i \<longleftrightarrow> (if i = 63 then bit y 63 else bit x i)" for i
    using bit_imp_le_length [of x i] by (auto simp: sf64_copysign_def bit_and_iff bit_or_iff bit_not_iff bit_kSignMask)
  have "sf64_copysign x y AND mask 63 = x AND mask 63" by (rule bit_eqI) (auto simp: bit_and_iff bit_mask_iff b)
  then have "mag64 (sf64_copysign x y) = mag64 x" by (simp only: mag64_mask)
  moreover have "sgn64 (sf64_copysign x y) = sgn64 y" by (simp add: sgn64_bit b)
  ultimately show ?thesis using enc64_sgn_mag [of "sf64_copysign x y"] by simp
qed

lemma signbit_eq: "sf64_signbit x = of_bool (sgn64 x)"
proof -
  have "unat (drop_bit 63 x) = of_bool (sgn64 x)"
    using unat_extract_sign [of x] unat_lt64 [of x] by (simp add: extract_sign_def to_nat)
  then show ?thesis by (simp add: sf64_signbit_def uint_nat)
qed

section \<open>The total order of the encodings\<close>

lemma sign_drop: "drop_bit 63 a \<noteq> 0 \<longleftrightarrow> sgn64 a"
  using nat_lt_pow_drop [of 63 a] by (simp add: sgn64_def not_less)

lemma bit_less_key: "bit_less_nonan a b \<longleftrightarrow> ord_key a < ord_key b"
proof -
  have key: "int (unat (if drop_bit 63 a \<noteq> 0 then NOT a else a OR kSignMask)) = ord_key a + 2 ^ 63" for a
  proof (cases "sgn64 a")
    case True
    then show ?thesis using unat_split64 [of a] mag64_less [of a]
      by (simp add: sign_drop unat_not64 ord_key_def of_nat_diff)
  next
    case False
    have "unat (kSignMask OR a) = unat kSignMask + unat a"
      using False unat_split64 [of a] mag64_less [of a] by (intro unat_or_disjoint [of _ 63]) (simp_all add: kSignMask_def)
    then show ?thesis using False unat_split64 [of a]
      by (simp add: sign_drop ord_key_def kSignMask_def or.commute)
  qed
  show ?thesis unfolding bit_less_nonan_def Let_def word_less_nat_alt of_nat_less_iff [symmetric, where 'a = int] key by simp
qed

interpretation tot_key: value_order bit_less_nonan ord_key
  by unfold_locales (rule bit_less_key)

text \<open>
  The comment above the helper says it treats the two zeros as equal; it orders them.  Every caller
  handles a pair of zeros before it asks.
\<close>

lemma bit_less_separates_zeros: "bit_less_nonan kSignMask 0"
  by code_simp

lemma val64_key_min: "val64 (key_min a b) = min (val64 a) (val64 b)"
  and val64_key_max: "val64 (key_max a b) = max (val64 a) (val64 b)"
  using val64_key [of a b] val64_key [of b a] val64_eq_key [of a b]
  by (auto simp: key_min_def key_max_def min_def max_def not_less)

lemma fmin_sound: "sf64_fmin a b = (if is_nan_bits a then b else if is_nan_bits b then a else key_min a b)"
proof -
  have "is_zero_bits a \<Longrightarrow> is_zero_bits b \<Longrightarrow>
      (if (a OR b) AND kSignMask \<noteq> 0 then (if a AND kSignMask \<noteq> 0 then a else b) else a) = key_min a b"
    using is_zero_enc64 [of a] is_zero_enc64 [of b]
    by (cases "sgn64 a"; cases "sgn64 b") (simp_all add: sign_test sgn64_or key_min_def ord_key_def is_zero_bits_iff)
  moreover have "(if bit_less_nonan a b then a else b) = key_min a b"
    using ord_key_inj [of a b] by (auto simp: bit_less_key key_min_def)
  ultimately show ?thesis by (simp add: sf64_fmin_def isnan_iff)
qed

lemma fmax_sound: "sf64_fmax a b = (if is_nan_bits a then b else if is_nan_bits b then a else key_max a b)"
proof -
  have "is_zero_bits a \<Longrightarrow> is_zero_bits b \<Longrightarrow> (if a AND kSignMask = 0 then a else b) = key_max a b"
    using is_zero_enc64 [of a] is_zero_enc64 [of b] sign_test [of a]
    by (cases "sgn64 a"; cases "sgn64 b") (simp_all add: key_max_def ord_key_def is_zero_bits_iff)
  moreover have "(if bit_less_nonan a b then b else a) = key_max a b"
    using ord_key_inj [of a b] by (auto simp: bit_less_key key_max_def)
  ultimately show ?thesis by (simp add: sf64_fmax_def isnan_iff)
qed

lemma abs_key: "bit_less_nonan (sf64_fabs a) (sf64_fabs b) \<longleftrightarrow> \<bar>val64 a\<bar> < \<bar>val64 b\<bar>"
  by (simp add: bit_less_key ord_key_def abs_val64)

section \<open>The neighbour of a value\<close>

definition next_up :: "f64 \<Rightarrow> f64 \<Rightarrow> bool" where
  "next_up x r \<longleftrightarrow> \<not> is_nan_bits r \<and> val64 x < val64 r \<and> (\<forall>z. \<not> is_nan_bits z \<and> val64 x < val64 z \<longrightarrow> val64 r \<le> val64 z)"

definition next_down :: "f64 \<Rightarrow> f64 \<Rightarrow> bool" where
  "next_down x r \<longleftrightarrow> \<not> is_nan_bits r \<and> val64 r < val64 x \<and> (\<forall>z. \<not> is_nan_bits z \<and> val64 z < val64 x \<longrightarrow> val64 z \<le> val64 r)"

lemma encoding_succ:
  assumes "mag64 x + 1 < 2 ^ 63" shows "x + 1 = enc64 (sgn64 x) (mag64 x + 1)"
proof (rule word_eq_unatI)
  have "unat (x + 1) = unat x + 1" using unat_split64 [of x] assms by (intro trans [OF unat_add_lt]) auto
  then show "unat (x + 1) = unat (enc64 (sgn64 x) (mag64 x + 1))"
    unfolding unat_enc64 [OF assms] unat_split64 [of x] by simp
qed

lemma encoding_pred:
  assumes "0 < mag64 x" shows "x - 1 = enc64 (sgn64 x) (mag64 x - 1)"
proof (rule word_eq_unatI)
  have b: "mag64 x - 1 < 2 ^ 63" using mag64_less [of x] by linarith
  have "unat (x - 1) = unat x - 1" using unat_split64 [of x] assms by (intro trans [OF unat_sub_le]) auto
  then show "unat (x - 1) = unat (enc64 (sgn64 x) (mag64 x - 1))"
    unfolding unat_enc64 [OF b] unat_split64 [of x] using assms by simp
qed

lemma neighbour_pos:
  assumes "\<not> sgn64 x" "mag64 x < inf64"
  shows "next_up x (enc64 False (mag64 x + 1))"
proof -
  have b: "mag64 x + 1 < 2 ^ 63" using assms(2) by (simp add: inf64_def)
  have "mag_val 52 (- 1074) (mag64 x + 1) \<le> val64 z" if "val64 x < val64 z" for z
  proof -
    have "0 \<le> val64 x" using assms(1) by (simp add: val64_def)
    moreover have "sgn64 z \<Longrightarrow> val64 z \<le> 0" by (simp add: val64_def)
    ultimately have "\<not> sgn64 z" using that by linarith
    then show ?thesis using that assms(1) by (simp add: val64_def Suc_le_eq)
  qed
  moreover have "val64 (enc64 False (mag64 x + 1)) = mag_val 52 (- 1074) (mag64 x + 1)"
    by (simp only: val64_enc64 [OF b] if_False)
  moreover have "val64 x = mag_val 52 (- 1074) (mag64 x)" using assms(1) by (simp only: val64_def if_False)
  moreover have "\<not> is_nan_bits (enc64 False (mag64 x + 1))"
    unfolding is_nan_bits_iff mag64_enc64 [OF b] using assms(2) by simp
  ultimately show ?thesis unfolding next_up_def by simp
qed

lemma neighbour_neg:
  assumes "sgn64 x" "0 < mag64 x" "mag64 x \<le> inf64"
  shows "next_up x (enc64 True (mag64 x - 1))"
proof -
  have b: "mag64 x - 1 < 2 ^ 63" using assms(3) by (simp add: inf64_def)
  have "- mag_val 52 (- 1074) (mag64 x - 1) \<le> val64 z" if "val64 x < val64 z" for z
  proof (cases "sgn64 z")
    case True
    then have "mag64 z \<le> mag64 x - 1" using that assms(1) by (simp add: val64_def)
    then show ?thesis using True by (simp add: val64_def)
  next
    case False
    have "- mag_val 52 (- 1074) (mag64 x - 1) \<le> 0" by simp
    also have "0 \<le> val64 z" using False by (simp add: val64_def)
    finally show ?thesis .
  qed
  moreover have "val64 (enc64 True (mag64 x - 1)) = - mag_val 52 (- 1074) (mag64 x - 1)"
    by (simp only: val64_enc64 [OF b] if_True)
  moreover have "val64 x = - mag_val 52 (- 1074) (mag64 x)" using assms(1) by (simp only: val64_def if_True)
  moreover have "\<not> is_nan_bits (enc64 True (mag64 x - 1))"
    unfolding is_nan_bits_iff mag64_enc64 [OF b] using assms(3) by simp
  ultimately show ?thesis using assms(2) unfolding next_up_def by simp
qed

lemma neighbour_zero:
  assumes "is_zero_bits x" shows "next_up x (enc64 False 1)"
  using assms neighbour_pos [of "enc64 False 0"] val64_eq_0_iff [of x] val64_enc64 [of 0 False]
  by (simp add: next_up_def sgn64_enc64 mag64_enc64 inf64_def)

lemma neg_neg [simp]: "sf64_neg (sf64_neg x) = x"
  by (simp add: f64_eq_iff)

lemma next_down_neg: "next_up x r \<Longrightarrow> next_down (sf64_neg x) (sf64_neg r)"
proof -
  assume a: "next_up x r"
  have "val64 z \<le> - val64 r" if "\<not> is_nan_bits z" "val64 z < - val64 x" for z
    using a that unfolding next_up_def by (metis neg_le_iff_le neg_less_iff_less minus_minus sf64_neg_class(2) sf64_neg_class(5))
  then show ?thesis using a by (simp add: next_down_def next_up_def)
qed

lemma neg_enc64: "n < 2 ^ 63 \<Longrightarrow> sf64_neg (enc64 s n) = enc64 (\<not> s) n"
  by (simp add: f64_eq_iff sgn64_enc64 mag64_enc64)

lemma val64_sign: "sgn64 b \<Longrightarrow> val64 b \<le> 0" "\<not> sgn64 b \<Longrightarrow> 0 \<le> val64 b"
  by (simp_all add: val64_def)

lemma nextafter_up:
  assumes x: "\<not> is_nan_bits x" and y: "\<not> is_nan_bits y" and less: "val64 x < val64 y"
  shows "next_up x (sf64_nextafter x y)"
proof -
  have xy: "x \<noteq> y" "\<not> (is_zero_bits x \<and> is_zero_bits y)" "bit_less_nonan x y"
    using less by (auto simp: val64_key bit_less_key)
  have mx: "mag64 x \<le> inf64" "mag64 y \<le> inf64" using x y by (simp_all add: is_nan_bits_iff)
  consider (z) "is_zero_bits x" | (p) "\<not> is_zero_bits x" "\<not> sgn64 x" | (n) "\<not> is_zero_bits x" "sgn64 x" by blast
  then show ?thesis
  proof cases
    case z
    then have "val64 x = 0" by (simp add: val64_eq_0_iff)
    then have "\<not> sgn64 y" using less val64_sign(1) [of y] by linarith
    then have "sf64_nextafter x y = enc64 False 1"
      using z xy x y by (simp add: sf64_nextafter_def isnan_iff pack_enc64 unat_extract_sign)
    then show ?thesis using neighbour_zero [OF z] by simp
  next
    case p
    have "\<not> sgn64 y" using less val64_sign(1) [of y] val64_sign(2) [OF p(2)] by linarith
    then have "mag64 x < mag64 y" using less p by (simp add: val64_def)
    then have m: "mag64 x < inf64" using mx by simp
    then have "sf64_nextafter x y = enc64 False (mag64 x + 1)"
      using p xy x y encoding_succ [of x] by (simp add: sf64_nextafter_def isnan_iff inf64_def)
    then show ?thesis using neighbour_pos [OF p(2) m] by simp
  next
    case n
    then have "0 < mag64 x" by (simp add: is_zero_bits_iff)
    then have "sf64_nextafter x y = enc64 True (mag64 x - 1)"
      using n xy x y encoding_pred [of x] by (simp add: sf64_nextafter_def isnan_iff)
    then show ?thesis using neighbour_neg [OF n(2) \<open>0 < mag64 x\<close> mx(1)] by simp
  qed
qed

lemma nextafter_neg:
  assumes "\<not> is_nan_bits x" "\<not> is_nan_bits y" "val64 x \<noteq> val64 y"
  shows "sf64_nextafter (sf64_neg x) (sf64_neg y) = sf64_neg (sf64_nextafter x y)"
proof -
  have mx: "mag64 x < 2 ^ 63 - 1" using assms(1) by (simp add: is_nan_bits_iff inf64_def)
  have ne: "x \<noteq> y" "\<not> (is_zero_bits x \<and> is_zero_bits y)" using assms(3) by (auto simp: val64_eq_key)
  have cmp: "\<not> is_zero_bits x \<Longrightarrow> bit_less_nonan (sf64_neg x) (sf64_neg y) \<longleftrightarrow> \<not> bit_less_nonan x y"
    using assms(3) ne by (auto simp: bit_less_key ord_key_def is_zero_bits_iff f64_eq_iff split: if_splits)
  have z: "is_zero_bits (sf64_neg w) = is_zero_bits w" "sf64_neg x = sf64_neg y \<longleftrightarrow> x = y" for w
    by (simp add: is_zero_bits_iff) (metis neg_neg)
  have p: "pack (extract_sign (sf64_neg y)) 0 1 = sf64_neg (pack (extract_sign y) 0 1)"
    by (simp add: pack_enc64 odd_extract_sign neg_enc64)
  have "x \<noteq> 0 \<Longrightarrow> sf64_neg x + 1 = sf64_neg (x + 1)"
    using mx encoding_succ [of x] encoding_succ [of "sf64_neg x"] by (simp add: neg_enc64)
  moreover have "\<not> is_zero_bits x \<Longrightarrow> sf64_neg x - 1 = sf64_neg (x - 1)"
    using encoding_pred [of x] encoding_pred [of "sf64_neg x"] mag64_less [of x] by (simp add: neg_enc64 is_zero_bits_iff)
  moreover have "\<not> is_zero_bits x \<Longrightarrow> x \<noteq> 0" by (auto simp: is_zero_bits_def)
  ultimately show ?thesis
    using assms ne cmp by (auto simp: sf64_nextafter_def isnan_iff z p)
qed

lemma nextafter_down:
  assumes "\<not> is_nan_bits x" "\<not> is_nan_bits y" "val64 y < val64 x"
  shows "next_down x (sf64_nextafter x y)"
proof -
  have "next_up (sf64_neg x) (sf64_nextafter (sf64_neg x) (sf64_neg y))"
    using assms by (intro nextafter_up) simp_all
  then have "next_down (sf64_neg (sf64_neg x)) (sf64_neg (sf64_nextafter (sf64_neg x) (sf64_neg y)))"
    by (rule next_down_neg)
  then show ?thesis using assms nextafter_neg [of x y] by simp
qed

section \<open>Properties\<close>

text \<open>
  The minimum and the maximum, in the NaN-flushing and in the NaN-propagating variant, select
  the operand with the smaller (larger) value, a negative zero counting as smaller than a positive
  one.  One NaN yields the other operand in the flushing variant; in the propagating variant any
  NaN yields the first NaN operand made quiet.
\<close>
theorem fmin_fmax_correct:
  "sf64_fmin a b = (if is_nan_bits a then b else if is_nan_bits b then a else key_min a b)
   \<and> sf64_fmax a b = (if is_nan_bits a then b else if is_nan_bits b then a else key_max a b)
   \<and> sf64_fmin_precise a b = (if is_nan_bits a \<or> is_nan_bits b then fst (nan_of a b 0) else key_min a b)
   \<and> sf64_fmax_precise a b = (if is_nan_bits a \<or> is_nan_bits b then fst (nan_of a b 0) else key_max a b)
   \<and> val64 (key_min a b) = min (val64 a) (val64 b) \<and> val64 (key_max a b) = max (val64 a) (val64 b)"
proof -
  have "is_nan_bits a \<or> is_nan_bits b \<Longrightarrow> propagate_nan a b = fst (nan_of a b 0)"
    using nan_dispatch_eq [of a b 0] by (simp add: nan_dispatch_def nan_of_def)
  moreover have "\<not> is_nan_bits a \<Longrightarrow> \<not> is_nan_bits b \<Longrightarrow> sf64_fmin_precise a b = key_min a b \<and> sf64_fmax_precise a b = key_max a b"
    by (simp add: sf64_fmin_precise_def sf64_fmax_precise_def fmin_precise_sound fmax_precise_sound)
  ultimately show ?thesis
    by (auto simp: fmin_sound fmax_sound val64_key_min val64_key_max sf64_fmin_precise_def sf64_fmax_precise_def
        fmin_precise_impl_def fmax_precise_impl_def)
qed

text \<open>
  The magnitude selections return the operand of larger (smaller) absolute value and fall back to
  the maximum (minimum) when the absolute values agree; one NaN yields the other operand.
\<close>
theorem magnitude_selection_correct:
  "sf64_maxmag a b = (if is_nan_bits a then b else if is_nan_bits b then a
      else if \<bar>val64 b\<bar> < \<bar>val64 a\<bar> then a else if \<bar>val64 a\<bar> < \<bar>val64 b\<bar> then b else key_max a b)
   \<and> sf64_minmag a b = (if is_nan_bits a then b else if is_nan_bits b then a
      else if \<bar>val64 a\<bar> < \<bar>val64 b\<bar> then a else if \<bar>val64 b\<bar> < \<bar>val64 a\<bar> then b else key_min a b)"
  by (simp add: sf64_maxmag_def sf64_minmag_def Let_def isnan_iff abs_key fmin_sound fmax_sound)

text \<open>
  The positive difference is the correctly rounded \<open>a - b\<close> with its flags when \<open>a\<close> exceeds
  \<open>b\<close>, and \<open>+0\<close> without a flag otherwise; a NaN operand gives the canonical NaN and raises nothing.
\<close>
theorem fdim_correct:
  "sf64_fdim snan a b Fenv_Tls t w =
     (if is_nan_bits a \<or> is_nan_bits b then (kCanonicalNaN, w)
      else if val64 b < val64 a
      then (fst (ieee_sub SF64_RNE a b 0), put_tls t (tls_flags w t OR snd (ieee_sub SF64_RNE a b 0)) w)
      else (0, w))"
proof (cases "is_nan_bits a \<or> is_nan_bits b")
  case True
  then show ?thesis by (auto simp: sf64_fdim_def isnan_iff canonical_nan_def)
next
  case False
  then have sub: "sf64_sub snan a b Fenv_Tls t w
      = (fst (ieee_sub SF64_RNE a b 0), put_tls t (tls_flags w t OR snd (ieee_sub SF64_RNE a b 0)) w)"
    by (simp add: sf64_sub_def internal_sub_rne_eq sub_r_impl_sound entry_default_simps)
  have z: "ieee_sub SF64_RNE a b 0 = (0, 0)" if "is_zero_bits a" "is_zero_bits b" "bit_less_nonan b a"
  proof -
    have "\<not> sgn64 a" using that by (auto simp: bit_less_key ord_key_def is_zero_bits_iff split: if_splits)
    then show ?thesis using that False
      by (simp add: ieee_sub_def round64_def val64_eq_0_iff [THEN iffD2] zero_enc [symmetric] class_iff inf64_def)
  qed
  show ?thesis using False z by (auto simp: sf64_fdim_def isnan_iff sub val64_key bit_less_key)
qed

text \<open>
  The hypotenuse: an infinity wins over a NaN; two zeros give \<open>+0\<close>; otherwise, with \<open>s\<close> the larger
  and \<open>u\<close> the smaller magnitude, it is \<open>s * sqrt (1 + (u / s) * (u / s))\<close> with every operation
  correctly rounded to nearest even and the flags of all five collected.  It is symmetric, and
  neither result nor flags depend on the signs.
\<close>
theorem hypot_scaled:
  "sf64_hypot a b Fenv_Tls t w =
     (if is_inf_bits a \<or> is_inf_bits b then (kPositiveInf, w)
      else if is_nan_bits a \<or> is_nan_bits b then (kCanonicalNaN, w)
      else if is_zero_bits a \<and> is_zero_bits b then (0, w)
      else let s = key_max (sf64_fabs a) (sf64_fabs b); u = key_min (sf64_fabs a) (sf64_fabs b);
               r = ieee_div SF64_RNE u s 0; r2 = ieee_mul SF64_RNE (fst r) (fst r) 0;
               o1 = ieee_add SF64_RNE 0x3FF0000000000000 (fst r2) 0; q = ieee_sqrt SF64_RNE (fst o1) 0;
               z = ieee_mul SF64_RNE s (fst q) 0
           in (fst z, put_tls t (tls_flags w t OR snd r OR snd r2 OR snd o1 OR snd q OR snd z) w))
   \<and> sf64_hypot a b m t w = sf64_hypot b a m t w
   \<and> sf64_hypot (sf64_neg a) b m t w = sf64_hypot a b m t w"
proof -
  have fz: "is_zero_bits (sf64_fabs x) = is_zero_bits x" for x by (simp add: is_zero_bits_iff)
  have sel: "(if bit_less_nonan x y then y else x) = key_max x y" "(if bit_less_nonan x y then x else y) = key_min x y" for x y
    using ord_key_inj [of x y] by (auto simp: bit_less_key key_max_def key_min_def)
  have nz: "is_zero_bits (key_max (sf64_fabs a) (sf64_fabs b)) \<longleftrightarrow> is_zero_bits a \<and> is_zero_bits b"
    by (auto simp: key_max_def fz ord_key_def is_zero_bits_iff)
  have comm: "key_max x y = key_max y x" "key_min x y = key_min y x" for x y
    using ord_key_inj [of x y] by (auto simp: key_max_def key_min_def)
  have "sf64_fabs (sf64_neg a) = sf64_fabs a" by (simp add: fabs_enc)
  then have 3: "sf64_hypot (sf64_neg a) b m t w = sf64_hypot a b m t w"
    by (simp add: sf64_hypot_def isinf_iff isnan_iff)
  have 2: "sf64_hypot a b m t w = sf64_hypot b a m t w"
    unfolding sf64_hypot_def isinf_iff isnan_iff sel Let_def comm [of "sf64_fabs b"]
    by (simp only: conj_commute disj_commute)
  show ?thesis
    using 2 3 nz unfolding sf64_hypot_def isinf_iff isnan_iff sel Let_def fz
    by (simp add: sf64_div_def sf64_mul_def sf64_add_def sf64_sqrt_def internal_div_rne_eq internal_mul_rne_eq internal_add_rne_eq
        sqrt_rne_eq div_r_impl_sound mul_r_impl_sound add_r_impl_sound sqrt_r_impl_sound entry_default_simps or.assoc
        canonical_nan_def)
qed

text \<open>
  The neighbour of \<open>x\<close> towards \<open>y\<close> is adjacent to \<open>x\<close> on the side of \<open>y\<close>: no double lies
  strictly between.  The step crosses binades, enters and leaves the subnormals, goes from the
  largest finite value to infinity and back, and passes zero; on equal operands it is \<open>y\<close>.
\<close>
theorem nextafter_adjacent:
  assumes "\<not> is_nan_bits x" "\<not> is_nan_bits y"
  shows "if val64 x = val64 y then sf64_nextafter x y = y
     else if val64 x < val64 y then next_up x (sf64_nextafter x y) else next_down x (sf64_nextafter x y)"
  using assms nextafter_up [of x y] nextafter_down [of x y]
  by (auto simp: sf64_nextafter_def isnan_iff val64_eq_key not_less le_less Let_def)

lemma nextafter_adjacent_witness:
  "if val64 0 = val64 0x8000000000000001 then sf64_nextafter 0 0x8000000000000001 = 0x8000000000000001
   else if val64 0 < val64 0x8000000000000001 then next_up 0 (sf64_nextafter 0 0x8000000000000001)
   else next_down 0 (sf64_nextafter 0 0x8000000000000001)"
proof -
  have "\<not> is_nan_bits 0" "\<not> is_nan_bits 0x8000000000000001" by code_simp+
  then show ?thesis by (rule nextafter_adjacent)
qed

end
