(* ===== verification/Sf_Rounding.thy ===== *)
theory Sf_Rounding
  imports Sf_Compare Sf_Fma
begin

text \<open>
  \<open>src/rounding.cpp\<close> and the exponent half of \<open>src/internal_classify.h\<close>: rounding to an integer
  in the five modes, fraction and integer part, scaling by a power of two, and the extraction of
  exponents.  Only \<open>fract\<close> and \<open>modf\<close> call an arithmetic entry and pass the flag state on; an
  output pointer is a truth value (is it non-null) with the stored value in the result.
\<close>

section \<open>The code\<close>

definition is_exp_max :: "u64 \<Rightarrow> bool" where
  "is_exp_max b \<longleftrightarrow> extract_exp b = kExpMax"

definition trunc_bits :: "f64 \<Rightarrow> f64" where
  "trunc_bits x =
     (let e = extract_exp x
      in if e = kExpMax then x
         else
           let unbiased = uint e - kExpBias
           in if unbiased < 0 then make_signed_zero (extract_sign x)
              else if kFracBits \<le> unbiased then x
              else x AND NOT (drop_bit (nat unbiased) kFracMask))"

definition has_fractional_part :: "u64 \<Rightarrow> bool" where
  "has_fractional_part b =
     (let e = extract_exp b
      in if e = kExpMax then False
         else
           let unbiased = uint e - kExpBias
           in if kFracBits \<le> unbiased then False
              else if unbiased < 0 then b AND NOT kSignMask \<noteq> 0
              else b AND drop_bit (nat unbiased) kFracMask \<noteq> 0)"

definition next_integer_away :: "f64 \<Rightarrow> u32 \<Rightarrow> f64" where
  "next_integer_away x_trunc direction_sign =
     (let b = x_trunc; sign = extract_sign b
      in if b AND NOT kSignMask = 0 then pack direction_sign (word_of_int kExpBias) 0
         else
           let moving_away = (sign = direction_sign);
               e = extract_exp b;
               unbiased = uint e - kExpBias;
               ulp_shift = kFracBits - unbiased;
               one_ulp = push_bit (nat ulp_shift) 1
           in if moving_away then b + one_ulp else b - one_ulp)"

definition sf64_trunc :: "f64 \<Rightarrow> f64" where
  "sf64_trunc x = trunc_bits x"

definition sf64_floor :: "f64 \<Rightarrow> f64" where
  "sf64_floor x =
     (if is_exp_max x then x
      else let t = trunc_bits x
           in if \<not> has_fractional_part x then t
              else if extract_sign x = 0 then t
              else next_integer_away t 1)"

definition sf64_ceil :: "f64 \<Rightarrow> f64" where
  "sf64_ceil x =
     (if is_exp_max x then x
      else let t = trunc_bits x
           in if \<not> has_fractional_part x then t
              else if extract_sign x = 1 then t
              else next_integer_away t 0)"

definition sf64_round :: "f64 \<Rightarrow> f64" where
  "sf64_round x =
     (if is_exp_max x then x
      else
        let e = extract_exp x; unbiased = uint e - kExpBias; sign = extract_sign x
        in if unbiased < 0 then
             (if unbiased = - 1 \<and> x AND kFracMask = 0 then pack sign (word_of_int kExpBias) 0
              else if unbiased = - 1 then pack sign (word_of_int kExpBias) 0
              else make_signed_zero sign)
           else if kFracBits \<le> unbiased then x
           else
             let half_bit_pos = kFracBits - unbiased - 1;
                 half_mask = push_bit (nat half_bit_pos) 1;
                 below_half_mask = half_mask - 1;
                 frac_mask = drop_bit (nat unbiased) kFracMask
             in if x AND frac_mask = 0 then x
                else
                  let t = trunc_bits x;
                      half_set = (x AND half_mask \<noteq> 0);
                      below_half_set = (x AND below_half_mask \<noteq> 0)
                  in if half_set \<or> below_half_set
                     then (if half_set then next_integer_away t sign else t)
                     else t)"

definition sf64_rint :: "f64 \<Rightarrow> f64" where
  "sf64_rint x =
     (if is_exp_max x then x
      else
        let e = extract_exp x; unbiased = uint e - kExpBias; sign = extract_sign x
        in if unbiased < 0 then
             (if unbiased = - 1 \<and> x AND kFracMask = 0 then make_signed_zero sign
              else if unbiased = - 1 then pack sign (word_of_int kExpBias) 0
              else make_signed_zero sign)
           else if kFracBits \<le> unbiased then x
           else
             let half_bit_pos = kFracBits - unbiased - 1;
                 half_mask = push_bit (nat half_bit_pos) 1;
                 below_half_mask = half_mask - 1;
                 frac_mask = drop_bit (nat unbiased) kFracMask
             in if x AND frac_mask = 0 then x
                else
                  let t = trunc_bits x;
                      half_set = (x AND half_mask \<noteq> 0);
                      below_half_set = (x AND below_half_mask \<noteq> 0)
                  in if \<not> half_set then t
                     else if below_half_set then next_integer_away t sign
                     else
                       let int_lsb_pos = kFracBits - unbiased;
                           int_lsb_val = (if int_lsb_pos = kFracBits then 1
                                          else drop_bit (nat int_lsb_pos) t AND 1)
                       in if int_lsb_val = 0 then t else next_integer_away t sign)"

definition sf64_rint_r :: "sf64_rounding_mode \<Rightarrow> f64 \<Rightarrow> f64" where
  "sf64_rint_r mode x = (case mode of
      SF64_RTZ \<Rightarrow> sf64_trunc x
    | SF64_RUP \<Rightarrow> sf64_ceil x
    | SF64_RDN \<Rightarrow> sf64_floor x
    | SF64_RNA \<Rightarrow> sf64_round x
    | SF64_RNE \<Rightarrow> sf64_rint x)"

definition sf64_fract :: "bool \<Rightarrow> f64 \<Rightarrow> f64 entry" where
  "sf64_fract snan x m t w =
     (if is_nan_bits x then (x OR kQuietNaNBit, w)
      else if is_inf_bits x then (canonical_nan, w)
      else
        let f = sf64_floor x
        in if f = x then (0, w)
           else
             let (r, w) = sf64_sub snan x f m t w
             in if r AND NOT kSignMask = 0 then (0, w) else (r, w))"

definition sf64_modf :: "bool \<Rightarrow> f64 \<Rightarrow> bool \<Rightarrow> (f64 \<times> f64 option) entry" where
  "sf64_modf snan x iptr m t w =
     (if is_nan_bits x then
        let nan_q = x OR kQuietNaNBit in ((nan_q, if iptr then Some nan_q else None), w)
      else if is_inf_bits x then ((x AND kSignMask, if iptr then Some x else None), w)
      else
        let i = trunc_bits x;
            stored = (if iptr then Some i else None);
            (fr, w) = sf64_sub snan x i m t w
        in if fr AND NOT kSignMask = 0
           then (((fr AND NOT kSignMask) OR (x AND kSignMask), stored), w)
           else ((fr, stored), w))"

text \<open>The normalization that \<open>ldexp\<close> and \<open>frexp\<close> open with: fraction bits and exponent.\<close>

definition split_exponent :: "u64 \<Rightarrow> u64 \<times> int" where
  "split_exponent b =
     (let fr = extract_frac b
      in if extract_exp b = 0 then
           (let lz = clz64 fr; shift = lz - (63 - kFracBits)
            in (push_bit (nat shift) fr AND kFracMask, 1 - kExpBias - shift))
         else (fr, uint (extract_exp b) - kExpBias))"

definition sf64_ldexp :: "f64 \<Rightarrow> int \<Rightarrow> f64" where
  "sf64_ldexp x n =
     (if is_nan_bits x then x OR kQuietNaNBit
      else if is_inf_bits x \<or> is_zero_bits x then x
      else
        let sign = extract_sign x;
            n = (if n > 2100 then 2100 else n);
            n = (if n < - 2100 then - 2100 else n);
            (fr, exp_unbiased) = split_exponent x;
            new_exp_unbiased = exp_unbiased + n
        in if new_exp_unbiased > 1023 then make_signed_inf sign
           else if - 1022 \<le> new_exp_unbiased then pack sign (word_of_int (new_exp_unbiased + kExpBias)) fr
           else
             let rshift = - 1022 - new_exp_unbiased
             in if 64 \<le> rshift then make_signed_zero sign
                else
                  let full_mant = kImplicitBit OR fr;
                      (retained, shifted_out) =
                        (if rshift = 0 then (full_mant, 0)
                         else (drop_bit (nat rshift) full_mant, full_mant AND (push_bit (nat rshift) 1 - 1)));
                      (round_bit, sticky_bit) =
                        (if 0 < rshift
                         then (drop_bit (nat (rshift - 1)) shifted_out AND 1,
                               let sticky_mask = (if 2 \<le> rshift then push_bit (nat (rshift - 1)) 1 - 1 else 0)
                               in if shifted_out AND sticky_mask \<noteq> 0 then 1 else 0)
                         else (0 :: u64, 0 :: u64));
                      retained = (if round_bit \<noteq> 0 \<and> (sticky_bit \<noteq> 0 \<or> retained AND 1 \<noteq> 0)
                                  then retained + 1 else retained)
                  in if retained AND kImplicitBit \<noteq> 0
                     then pack sign 1 (retained AND kFracMask)
                     else pack sign 0 (retained AND kFracMask))"

definition sf64_frexp :: "f64 \<Rightarrow> bool \<Rightarrow> f64 \<times> int option" where
  "sf64_frexp x ex =
     (if is_nan_bits x then (x OR kQuietNaNBit, if ex then Some 0 else None)
      else if is_inf_bits x then (x, if ex then Some 0 else None)
      else if is_zero_bits x then (x, if ex then Some 0 else None)
      else
        let sign = extract_sign x; (fr, exp_unbiased) = split_exponent x
        in (pack sign (word_of_int (kExpBias - 1)) fr, if ex then Some (exp_unbiased + 1) else None))"

definition INT_MIN :: int where "INT_MIN = - 2147483648"
definition INT_MAX :: int where "INT_MAX = 2147483647"

definition sf64_ilogb :: "f64 \<Rightarrow> int" where
  "sf64_ilogb x =
     (if is_zero_bits x then INT_MIN
      else if is_nan_bits x then INT_MAX
      else if is_inf_bits x then INT_MAX
      else
        let e = extract_exp x
        in if e = 0 then
             (let fr = extract_frac x; lz = clz64 fr; shift = lz - (63 - kFracBits) in 1 - kExpBias - shift)
           else uint e - kExpBias)"

section \<open>The copies in \<open>internal_classify.h\<close>\<close>

definition sf64_internal_trunc :: "f64 \<Rightarrow> f64" where
  "sf64_internal_trunc x =
     (let e = extract_exp x
      in if e = kExpMax then x
         else
           let unbiased = uint e - kExpBias
           in if unbiased < 0 then make_signed_zero (extract_sign x)
              else if kFracBits \<le> unbiased then x
              else x AND NOT (drop_bit (nat unbiased) kFracMask))"

definition sf64_internal_ldexp :: "f64 \<Rightarrow> int \<Rightarrow> f64" where
  "sf64_internal_ldexp x n =
     (if is_nan_bits x then x OR kQuietNaNBit
      else if is_inf_bits x \<or> is_zero_bits x then x
      else
        let sign = extract_sign x;
            n = (if n > 2100 then 2100 else n);
            n = (if n < - 2100 then - 2100 else n);
            fr = extract_frac x;
            (fr, exp_unbiased) =
              (if extract_exp x = 0
               then (let shift = clz64 fr - (63 - kFracBits) in (push_bit (nat shift) fr AND kFracMask, 1 - kExpBias - shift))
               else (fr, uint (extract_exp x) - kExpBias));
            new_exp_unbiased = exp_unbiased + n
        in if new_exp_unbiased > 1023 then make_signed_inf sign
           else if - 1022 \<le> new_exp_unbiased then pack sign (word_of_int (new_exp_unbiased + kExpBias)) fr
           else
             let rshift = - 1022 - new_exp_unbiased
             in if 64 \<le> rshift then make_signed_zero sign
                else
                  let full_mant = kImplicitBit OR fr;
                      (retained, shifted_out) =
                        (if rshift = 0 then (full_mant, 0)
                         else (drop_bit (nat rshift) full_mant, full_mant AND (push_bit (nat rshift) 1 - 1)));
                      (round_bit, sticky_bit) =
                        (if 0 < rshift
                         then (drop_bit (nat (rshift - 1)) shifted_out AND 1,
                               let sticky_mask = (if 2 \<le> rshift then push_bit (nat (rshift - 1)) 1 - 1 else 0)
                               in if shifted_out AND sticky_mask \<noteq> 0 then 1 else 0)
                         else (0 :: u64, 0 :: u64));
                      retained = (if round_bit \<noteq> 0 \<and> (sticky_bit \<noteq> 0 \<or> retained AND 1 \<noteq> 0)
                                  then retained + 1 else retained)
                  in if retained AND kImplicitBit \<noteq> 0
                     then pack sign 1 (retained AND kFracMask)
                     else pack sign 0 (retained AND kFracMask))"

definition sf64_internal_frexp :: "f64 \<Rightarrow> bool \<Rightarrow> f64 \<times> int option" where
  "sf64_internal_frexp x exp_out =
     (if is_nan_bits x then (x OR kQuietNaNBit, if exp_out then Some 0 else None)
      else if is_inf_bits x then (x, if exp_out then Some 0 else None)
      else if is_zero_bits x then (x, if exp_out then Some 0 else None)
      else
        let sign = extract_sign x;
            fr = extract_frac x;
            (fr, exp_unbiased) =
              (if extract_exp x = 0
               then (let shift = clz64 fr - (63 - kFracBits) in (push_bit (nat shift) fr AND kFracMask, 1 - kExpBias - shift))
               else (fr, uint (extract_exp x) - kExpBias))
        in (pack sign (word_of_int (kExpBias - 1)) fr, if exp_out then Some (exp_unbiased + 1) else None))"

lemma internal_trunc_eq: "sf64_internal_trunc = sf64_trunc"
  by (intro ext) (simp only: sf64_internal_trunc_def sf64_trunc_def trunc_bits_def)

lemma internal_ldexp_eq: "sf64_internal_ldexp = sf64_ldexp"
  by (intro ext) (simp only: sf64_internal_ldexp_def sf64_ldexp_def split_exponent_def Let_def)

lemma internal_frexp_eq: "sf64_internal_frexp = sf64_frexp"
  by (intro ext) (simp only: sf64_internal_frexp_def sf64_frexp_def split_exponent_def Let_def)

section \<open>Rounding to an integer\<close>

lemma and_not_mask: "w AND NOT (mask n) = push_bit n (drop_bit n w)" for w :: "'a::len word"
proof (rule bit_eqI)
  fix i
  assume "possible_bit TYPE('a word) i"
  then have "i < LENGTH('a)" by simp
  then show "bit (w AND NOT (mask n)) i \<longleftrightarrow> bit (push_bit n (drop_bit n w)) i"
    by (cases "n \<le> i") (simp_all add: bit_and_iff bit_not_iff bit_mask_iff bit_push_bit_iff bit_drop_bit_eq not_le)
qed

lemma unat_and_not_mask: "unat (w AND NOT (mask n)) = unat w - unat w mod 2 ^ n" for w :: "'a::len word"
proof -
  have "unat w div 2 ^ n * 2 ^ n < 2 ^ LENGTH('a)"
    by (rule order_le_less_trans [OF div_times_less_eq_dividend unsigned_less])
  then have "unat (push_bit n (drop_bit n w)) = unat w div 2 ^ n * 2 ^ n"
    unfolding unat_push_bit unat_drop_bit by (rule mod_less)
  then show ?thesis unfolding and_not_mask minus_mod_eq_div_mult .
qed

lemma uint_exp: "uint (extract_exp x) - kExpBias = int (unat (extract_exp x)) - 1023"
  by (simp add: kExpBias_def)

lemma exp_not_max: "is_finite_bits x \<Longrightarrow> extract_exp x \<noteq> kExpMax"
  by (simp add: is_finite_bits_def)

text \<open>
  A value of at least one with a fraction: exponent field \<open>e\<close>, significand \<open>M\<close>, and the integer
  point at bit \<open>k\<close>.
\<close>

definition int_enc :: "bool \<Rightarrow> nat \<Rightarrow> nat \<Rightarrow> nat \<Rightarrow> f64" where
  "int_enc s e k q = enc64 s ((e - 1) * 2 ^ 52 + q * 2 ^ k)"

definition int_point :: "f64 \<Rightarrow> nat \<Rightarrow> nat \<Rightarrow> nat \<Rightarrow> bool" where
  "int_point x e M k \<longleftrightarrow> unat (extract_exp x) = e \<and> 1023 \<le> e \<and> e < 1075
     \<and> M = 2 ^ 52 + unat (extract_frac x) \<and> k = 1075 - e"

lemma ip_e: "int_point x e M k \<Longrightarrow> unat (extract_exp x) = e" "int_point x e M k \<Longrightarrow> 1023 \<le> e" "int_point x e M k \<Longrightarrow> e < 1075"
  and ip_M: "int_point x e M k \<Longrightarrow> M = 2 ^ 52 + unat (extract_frac x)"
  and ip_k: "int_point x e M k \<Longrightarrow> k = 1075 - e"
  by (simp_all add: int_point_def)

lemma ip_kb:
  assumes ip: "int_point x e M k"
  shows "1 \<le> k" "k \<le> 52" "Suc (k - 1) = k"
  using ip_e [OF ip] ip_k [OF ip] by simp_all

lemma ip_Mb:
  assumes ip: "int_point x e M k"
  shows "2 ^ 52 \<le> M" "M < 2 ^ 53"
  using extract_frac_less [of x] by (simp_all add: ip_M [OF ip])

lemma ip_finite_x:
  assumes ip: "int_point x e M k"
  shows "extract_exp x \<noteq> kExpMax" "\<not> is_exp_max x" "\<not> is_zero_bits x"
proof -
  note e = ip_e [OF ip]
  have "unat kExpMax = 2047" by (simp add: kExpMax_def)
  then show "extract_exp x \<noteq> kExpMax" "\<not> is_exp_max x" using e by (auto simp: is_exp_max_def)
  show "\<not> is_zero_bits x" using e unat_extract_exp_mag [of x] by (auto simp: is_zero_bits_iff)
qed

lemma ip_mag:
  assumes ip: "int_point x e M k"
  shows "mag64 x = (e - 1) * 2 ^ 52 + M"
proof -
  note e = ip_e [OF ip] and M = ip_M [OF ip]
  have "e = Suc (e - 1)" using e by simp
  then have "e * 2 ^ 52 = (e - 1) * 2 ^ 52 + 2 ^ 52" by (metis add.commute mult_Suc)
  then show ?thesis unfolding mag64_fields e(1) M by simp
qed

lemma ip_low_bits:
  assumes ip: "int_point x e M k" and j: "j \<le> 52"
  shows "unat x mod 2 ^ j = M mod 2 ^ j"
proof -
  note M = ip_M [OF ip]
  have d: "(2::nat) ^ j dvd 2 ^ 52" using j by (rule le_imp_power_dvd)
  have "unat x mod 2 ^ j = unat x mod 2 ^ 52 mod 2 ^ j" by (rule mod_mod_cancel [OF d, symmetric])
  also have "\<dots> = (2 ^ 52 + unat (extract_frac x)) mod 2 ^ j"
    unfolding unat_extract_frac [symmetric] using d by (metis dvd_imp_mod_0 mod_add_left_eq add_0)
  finally show ?thesis by (simp only: M)
qed

lemma ip_odd_low:
  assumes ip: "int_point x e M k" and jl: "j < 52"
  shows "odd (unat x div 2 ^ j) \<longleftrightarrow> odd (M div 2 ^ j)"
proof -
  note low_bits = ip_low_bits [OF ip]
  have "unat x mod 2 ^ (j + 1) = M mod 2 ^ (j + 1)" "unat x mod 2 ^ j = M mod 2 ^ j"
    using jl by (intro low_bits; simp)+
  then have "2 ^ j * (unat x div 2 ^ j mod 2 ^ 1) = 2 ^ j * (M div 2 ^ j mod 2 ^ 1)"
    unfolding mod_split [of _ j 1] by simp
  then show ?thesis by (simp add: odd_iff_mod_2_eq_one)
qed

lemma ip_abs_value:
  assumes ip: "int_point x e M k"
  shows "\<bar>val64 x\<bar> = real M / 2 ^ Suc (k - 1)"
proof -
  note e = ip_e [OF ip] and k = ip_k [OF ip] and kb = ip_kb [OF ip] and Mb = ip_Mb [OF ip] and mag = ip_mag [OF ip]
  have "\<bar>val64 x\<bar> = real M * 2 powi (- 1074 + int (e - 1))"
    unfolding abs_val64 mag using Mb by (intro mag_val_encode) simp_all
  moreover have "(2::real) powi (- 1074 + int (e - 1)) * 2 ^ k = 1"
    using powi2_shift [of "- 1074 + int (e - 1)" k] e k by simp
  ultimately show ?thesis unfolding kb(3) by (simp add: field_simps)
qed

lemma ip_kept:
  assumes ip: "int_point x e M k"
  shows "(e - 1) * 2 ^ 52 + M - M mod 2 ^ k = (e - 1) * 2 ^ 52 + (M div 2 ^ k) * 2 ^ k"
proof -
  have "M mod 2 ^ k \<le> M" by simp
  then show ?thesis unfolding minus_mod_eq_div_mult [symmetric] by (rule diff_add_assoc)
qed

lemma ip_quotient_bounds:
  assumes ip: "int_point x e M k"
  shows "2 ^ (52 - k) \<le> M div 2 ^ k" "M div 2 ^ k < 2 ^ (53 - k)"
proof -
  note kb = ip_kb [OF ip] and Mb = ip_Mb [OF ip]
  have "2 ^ (52 - k) * 2 ^ k = (2::nat) ^ 52" "2 ^ (53 - k) * 2 ^ k = (2::nat) ^ 53"
    unfolding power_add [symmetric] using kb by simp_all
  then show "2 ^ (52 - k) \<le> M div 2 ^ k" "M div 2 ^ k < 2 ^ (53 - k)"
    using Mb by (simp_all add: less_eq_div_iff_mult_less_eq div_less_iff_less_mult)
qed

lemma ip_encoded:
  assumes ip: "int_point x e M k" and "q \<le> 2 ^ (53 - k)" "2 ^ (52 - k) \<le> q"
  shows "mag64 (int_enc s e k q) = (e - 1) * 2 ^ 52 + q * 2 ^ k" "sgn64 (int_enc s e k q) = s"
    "\<bar>val64 (int_enc s e k q)\<bar> = real q"
proof -
  note e = ip_e [OF ip] and k = ip_k [OF ip] and kb = ip_kb [OF ip]
  have p: "2 ^ (52 - k) * 2 ^ k = (2::nat) ^ 52" "2 ^ (53 - k) * 2 ^ k = (2::nat) ^ 53"
    unfolding power_add [symmetric] using kb by simp_all
  have "q * 2 ^ k \<le> 2 ^ (53 - k) * 2 ^ k" using assms(2) by simp
  then have hi: "q * 2 ^ k \<le> 2 ^ 53" unfolding p .
  have "2 ^ (52 - k) * 2 ^ k \<le> q * 2 ^ k" using assms(3) by simp
  then have lo: "2 ^ 52 \<le> q * 2 ^ k" unfolding p .
  have "(e - 1) * 2 ^ 52 \<le> 1073 * 2 ^ 52" using e by (intro mult_right_mono) simp_all
  then have b: "(e - 1) * 2 ^ 52 + q * 2 ^ k < 2 ^ 63" using hi by simp
  show m: "mag64 (int_enc s e k q) = (e - 1) * 2 ^ 52 + q * 2 ^ k" "sgn64 (int_enc s e k q) = s"
    unfolding int_enc_def using b by (simp_all only: mag64_enc64 sgn64_enc64)
  have "mag_val 52 (- 1074) ((e - 1) * 2 ^ 52 + q * 2 ^ k) = real (q * 2 ^ k) * 2 powi (- 1074 + int (e - 1))"
    using hi lo by (intro mag_val_encode) simp_all
  moreover have "(2::real) powi (- 1074 + int (e - 1)) * 2 ^ k = 1"
    using powi2_shift [of "- 1074 + int (e - 1)" k] e k by simp
  ultimately show "\<bar>val64 (int_enc s e k q)\<bar> = real q" unfolding abs_val64 m by (simp add: mult.commute mult.left_commute)
qed

lemma ip_trunc_encoded:
  assumes ip: "int_point x e M k"
  shows "mag64 (int_enc s e k (M div 2 ^ k)) = (e - 1) * 2 ^ 52 + M div 2 ^ k * 2 ^ k"
    "sgn64 (int_enc s e k (M div 2 ^ k)) = s" "\<bar>val64 (int_enc s e k (M div 2 ^ k))\<bar> = real (M div 2 ^ k)"
  using ip_encoded [OF ip less_imp_le [OF ip_quotient_bounds(2) [OF ip]] ip_quotient_bounds(1) [OF ip]] by simp_all

lemma ip_unbiased:
  assumes ip: "int_point x e M k"
  shows "uint (extract_exp x) - kExpBias = int e - 1023" "\<not> int e - 1023 < 0" "\<not> 52 \<le> int e - 1023"
  "nat (int e - 1023) = e - 1023" "kFracBits - (int e - 1023) = int k" "nat (int k) = k"
  using ip_e [OF ip] ip_k [OF ip] unfolding uint_exp ip_e(1) [OF ip] by (simp_all add: kFracBits_def)

lemma ip_frac_mask:
  assumes ip: "int_point x e M k"
  shows "drop_bit (e - 1023) kFracMask = mask k"
proof (rule bit_eqI)
  note e = ip_e [OF ip] and k = ip_k [OF ip]
  fix i
  assume "possible_bit TYPE(64 word) i"
  then show "bit (drop_bit (e - 1023) kFracMask) i = bit (mask k :: u64) i"
    using e k by (auto simp: field_masks bit_drop_bit_eq bit_mask_iff)
qed

lemma ip_trunc:
  assumes ip: "int_point x e M k"
  shows "trunc_bits x = int_enc (sgn64 x) e k (M div 2 ^ k)"
proof -
  note kb = ip_kb [OF ip] and finite_x = ip_finite_x [OF ip] and mag = ip_mag [OF ip] and low_bits = ip_low_bits [OF ip] and kept = ip_kept [OF ip] and trunc_encoded = ip_trunc_encoded [OF ip] and unbiased = ip_unbiased [OF ip] and frac_mask = ip_frac_mask [OF ip]
  have c: "trunc_bits x = x AND NOT (mask k)"
    unfolding trunc_bits_def Let_def unbiased kFracBits_def frac_mask using finite_x unbiased by simp
  have "M mod 2 ^ k \<le> mag64 x" unfolding mag by (simp add: trans_le_add2)
  then have "unat (trunc_bits x) = (if sgn64 x then 2 ^ 63 else 0) + (mag64 x - M mod 2 ^ k)"
    unfolding c unat_and_not_mask low_bits [OF kb(2)] using unat_split64 [of x] by simp
  also have "\<dots> = unat (int_enc (sgn64 x) e k (M div 2 ^ k))"
    unfolding unat_split64 [of "int_enc (sgn64 x) e k (M div 2 ^ k)"] trunc_encoded mag kept ..
  finally show ?thesis by (rule word_eq_unatI)
qed

lemma ip_fractional:
  assumes ip: "int_point x e M k"
  shows "has_fractional_part x \<longleftrightarrow> M mod 2 ^ k \<noteq> 0"
  unfolding has_fractional_part_def Let_def ip_unbiased [OF ip] kFracBits_def ip_frac_mask [OF ip]
  using ip_finite_x [OF ip] ip_unbiased [OF ip] ip_low_bits [OF ip ip_kb(2) [OF ip]] by (simp add: and_mask_neq_0)

lemma ip_away:
  assumes ip: "int_point x e M k"
  shows "next_integer_away (trunc_bits x) (extract_sign x) = int_enc (sgn64 x) e k (M div 2 ^ k + 1)"
proof -
  note e = ip_e [OF ip] and kb = ip_kb [OF ip] and quotient_bounds = ip_quotient_bounds [OF ip] and encoded = ip_encoded [OF ip] and trunc_encoded = ip_trunc_encoded [OF ip] and unbiased = ip_unbiased [OF ip] and trunc = ip_trunc [OF ip]
  let ?t = "int_enc (sgn64 x) e k (M div 2 ^ k)"
  have q1: "M div 2 ^ k + 1 \<le> 2 ^ (53 - k)" "2 ^ (52 - k) \<le> M div 2 ^ k + 1" using quotient_bounds by simp_all
  have s: "extract_sign ?t = extract_sign x" by (simp add: trunc_encoded)
  have p: "2 ^ (52 - k) * 2 ^ k = (2::nat) ^ 52" "2 ^ (53 - k) * 2 ^ k = (2::nat) ^ 53"
    unfolding power_add [symmetric] using kb by simp_all
  have lo: "2 ^ 52 \<le> M div 2 ^ k * 2 ^ k" "M div 2 ^ k * 2 ^ k < 2 ^ 53"
    using quotient_bounds unfolding p [symmetric] by simp_all
  have et: "unat (extract_exp ?t) = e"
  proof -
    have "e = Suc (e - 1)" using e by simp
    moreover obtain r where r: "M div 2 ^ k * 2 ^ k = 2 ^ 52 + r" "r < 2 ^ 52"
      using lo by (metis le_Suc_ex mult_2 nat_add_left_cancel_less numeral_eq_Suc power_Suc pred_numeral_simps(3) semiring_norm(26))
    have "(e - 1) * 2 ^ 52 + M div 2 ^ k * 2 ^ k = r + Suc (e - 1) * 2 ^ 52" unfolding r(1) by simp
    then have "((e - 1) * 2 ^ 52 + M div 2 ^ k * 2 ^ k) div 2 ^ 52 = Suc (e - 1)" using r(2) by (simp del: mult_Suc)
    ultimately show ?thesis unfolding unat_extract_exp_mag trunc_encoded by simp
  qed
  have nz: "?t AND NOT kSignMask \<noteq> 0"
    using quotient_bounds(1) unfolding is_zero_bits_def [symmetric] is_zero_bits_iff trunc_encoded
    by (metis add_is_0 le_zero_eq mult_is_0 power_not_zero zero_neq_numeral)
  have u: "uint (extract_exp ?t) - kExpBias = int e - 1023" unfolding uint_exp et ..
  have "next_integer_away (trunc_bits x) (extract_sign x) = ?t + push_bit k 1"
    unfolding next_integer_away_def Let_def trunc u unbiased if_not_P [OF nz] s by simp
  moreover have "unat (?t + push_bit k 1) = unat ?t + 2 ^ k"
  proof -
    have k2: "unat (push_bit k 1 :: u64) = 2 ^ k"
    proof -
      have "(2::nat) ^ k < 2 ^ 64" using kb by (intro power_strict_increasing) simp_all
      then show ?thesis by (subst unat_push_bit_lt) simp_all
    qed
    have "(2::nat) ^ k \<le> 2 ^ 52" using kb by (intro power_increasing) simp_all
    moreover have "(e - 1) * 2 ^ 52 \<le> 1073 * 2 ^ 52" using e by (intro mult_right_mono) simp_all
    moreover have "mag64 ?t = (e - 1) * 2 ^ 52 + M div 2 ^ k * 2 ^ k" by (rule trunc_encoded)
    ultimately have "unat ?t + unat (push_bit k 1 :: u64) < 2 ^ 64"
      using lo(2) unfolding unat_split64 [of ?t] k2 by simp
    then show ?thesis using unat_add_lt [of ?t "push_bit k 1"] k2 by simp
  qed
  moreover have "unat (int_enc (sgn64 x) e k (M div 2 ^ k + 1)) = unat ?t + 2 ^ k"
    unfolding unat_split64 [of "int_enc (sgn64 x) e k (M div 2 ^ k + 1)"] unat_split64 [of ?t]
      encoded [OF q1] trunc_encoded by simp
  ultimately show ?thesis by (intro word_eq_unatI) simp
qed

lemma ip_tests:
  assumes ip: "int_point x e M k"
  shows "x AND drop_bit (e - 1023) kFracMask = 0 \<longleftrightarrow> even (M div 2 ^ (k - 1)) \<and> M mod 2 ^ (k - 1) = 0"
    "x AND push_bit (k - 1) 1 \<noteq> 0 \<longleftrightarrow> odd (M div 2 ^ (k - 1))"
    "x AND push_bit (k - 1) 1 - 1 \<noteq> 0 \<longleftrightarrow> M mod 2 ^ (k - 1) \<noteq> 0"
    "(M mod 2 ^ k = 0) \<longleftrightarrow> even (M div 2 ^ (k - 1)) \<and> M mod 2 ^ (k - 1) = 0"
proof -
  note kb = ip_kb [OF ip]
  have m: "M mod 2 ^ k = M mod 2 ^ (k - 1) + 2 ^ (k - 1) * (M div 2 ^ (k - 1) mod 2)"
    using mod_split [of M "k - 1" 1] kb(3) by simp
  then show z: "(M mod 2 ^ k = 0) \<longleftrightarrow> even (M div 2 ^ (k - 1)) \<and> M mod 2 ^ (k - 1) = 0"
    by (auto simp: even_iff_mod_2_eq_zero)
  show "x AND drop_bit (e - 1023) kFracMask = 0 \<longleftrightarrow> even (M div 2 ^ (k - 1)) \<and> M mod 2 ^ (k - 1) = 0"
    unfolding z [symmetric] ip_frac_mask [OF ip]
    using and_mask_neq_0 [of x k] unfolding ip_low_bits [OF ip kb(2)] by (cases "M mod 2 ^ k = 0") simp_all
  show "x AND push_bit (k - 1) 1 \<noteq> 0 \<longleftrightarrow> odd (M div 2 ^ (k - 1))"
    using ip_odd_low [OF ip, of "k - 1"] kb single_bit_test [of x "k - 1"] by simp
  show "x AND push_bit (k - 1) 1 - 1 \<noteq> 0 \<longleftrightarrow> M mod 2 ^ (k - 1) \<noteq> 0"
    unfolding mask_pow and_mask_neq_0 using ip_low_bits [OF ip, of "k - 1"] kb by simp
qed

lemma ip_exact:
  assumes ip: "int_point x e M k" and z: "M mod 2 ^ k = 0"
  shows "x = int_enc (sgn64 x) e k (M div 2 ^ k)"
  using ip_trunc_encoded [OF ip, of "sgn64 x"] ip_kept [OF ip] z
  unfolding f64_eq_iff [of x] ip_mag [OF ip] by simp

lemma ip_last_bit:
  assumes ip: "int_point x e M k"
  shows "(if int k = kFracBits then (1 :: u64) else drop_bit k (int_enc s e k (M div 2 ^ k)) AND 1) = 0
    \<longleftrightarrow> even (M div 2 ^ k)"
proof (cases "k = 52")
  case True
  have "M div 2 ^ 52 = 1" using ip_Mb [OF ip] by (intro div_nat_eqI) simp_all
  then show ?thesis using True by (simp add: kFracBits_def)
next
  case False
  let ?t = "int_enc s e k (M div 2 ^ k)" and ?q = "M div 2 ^ k"
  note kb = ip_kb [OF ip] and t = ip_trunc_encoded [OF ip, of s]
  have "52 = k + (52 - k)" using kb by simp
  then have p: "(2::nat) ^ 52 = 2 ^ k * 2 ^ (52 - k)" by (metis power_add)
  have "63 = k + (63 - k)" using kb by simp
  then have p': "(2::nat) ^ 63 = 2 ^ k * 2 ^ (63 - k)" by (metis power_add)
  have ev: "even ((2::nat) ^ (52 - k))" "even ((2::nat) ^ (63 - k))" using kb False by simp_all
  have "mag64 ?t = 2 ^ k * ((e - 1) * 2 ^ (52 - k) + ?q)" unfolding t(1) p by (simp add: algebra_simps)
  then have "unat ?t = 2 ^ k * ((if s then 2 ^ (63 - k) else 0) + ((e - 1) * 2 ^ (52 - k) + ?q))"
    unfolding unat_split64 [of ?t] t(2) p' by (simp add: algebra_simps)
  then have "unat ?t div 2 ^ k = (if s then 2 ^ (63 - k) else 0) + ((e - 1) * 2 ^ (52 - k) + ?q)" by simp
  then have "odd (unat ?t div 2 ^ k) \<longleftrightarrow> odd ?q" using ev by simp
  then show ?thesis using False and_1_neq_0_iff [of "drop_bit k ?t"] by (simp add: kFracBits_def unat_drop_bit)
qed

lemma ip_rint_r:
  assumes ip: "int_point x e M k"
  shows "sf64_rint_r m x = int_enc (sgn64 x) e k (round_bits m (sgn64 x) (k - 1) M)"
proof -
  define G where "G = odd (M div 2 ^ (k - 1))"
  define T where "T = (M mod 2 ^ (k - 1) \<noteq> 0)"
  define q where "q = M div 2 ^ k"
  have tests: "x AND drop_bit (e - 1023) kFracMask = 0 \<longleftrightarrow> \<not> G \<and> \<not> T" "x AND push_bit (k - 1) 1 \<noteq> 0 \<longleftrightarrow> G"
    "x AND push_bit (k - 1) 1 - 1 \<noteq> 0 \<longleftrightarrow> T" "(M mod 2 ^ k = 0) \<longleftrightarrow> \<not> G \<and> \<not> T"
    using ip_tests [OF ip] unfolding G_def T_def by simp_all
  note u = ip_unbiased [OF ip]
  have rb: "round_bits m (sgn64 x) (k - 1) M = q + of_bool (round_up_dec (sgn64 x) G T (odd q) m)"
    unfolding round_bits_def ip_kb(3) [OF ip] G_def T_def q_def ..
  have frac: "has_fractional_part x \<longleftrightarrow> G \<or> T" unfolding ip_fractional [OF ip] using tests(4) by (cases G; cases T) simp_all
  have trunc: "trunc_bits x = int_enc (sgn64 x) e k q" unfolding q_def by (rule ip_trunc [OF ip])
  have away: "next_integer_away (int_enc (sgn64 x) e k q) (of_bool (sgn64 x)) = int_enc (sgn64 x) e k (q + 1)"
    using ip_away [OF ip] unfolding trunc q_def [symmetric] extract_sign_cases .
  have exact: "\<not> G \<Longrightarrow> \<not> T \<Longrightarrow> int_enc (sgn64 x) e k q = x"
    using ip_exact [OF ip] tests unfolding q_def by simp
  have sg: "extract_sign x = of_bool (sgn64 x)" by (rule extract_sign_cases)
  have fin: "\<not> is_exp_max x" by (rule ip_finite_x [OF ip])
  have h: "nat (int k - 1) = k - 1" by simp
  have nb: "\<not> kFracBits \<le> int e - 1023" using u(3) by (simp add: kFracBits_def)
  have last: "(if int k = kFracBits then (1 :: u64) else drop_bit k (int_enc (sgn64 x) e k q) AND 1) = 0 \<longleftrightarrow> even q"
    unfolding q_def by (rule ip_last_bit [OF ip])
  note reds = sf64_rint_r_def sf64_trunc_def sf64_floor_def sf64_ceil_def sf64_round_def sf64_rint_def Let_def
  have "sf64_rint_r m x = int_enc (sgn64 x) e k (q + of_bool (round_up_dec (sgn64 x) G T (odd q) m))"
  proof (cases m)
    case SF64_RNE
    then show ?thesis
      unfolding reds trunc u if_not_P [OF u(2)] if_not_P [OF nb] tests(1-3) h last
      using fin exact away by (auto simp: round_up_dec_def sg tests)
  next
    case SF64_RNA
    then show ?thesis
      unfolding reds trunc u if_not_P [OF u(2)] if_not_P [OF nb] tests(1-3) h last
      using fin exact away by (auto simp: round_up_dec_def sg tests)
  qed (use fin exact away in \<open>auto simp: reds round_up_dec_def frac trunc sg\<close>)
  then show ?thesis unfolding rb .
qed

lemma mag_val_one: "mag_val 52 (- 1074) (1023 * 2 ^ 52) = 1"
  and mag_val_half: "mag_val 52 (- 1074) (1022 * 2 ^ 52) = 1 / 2"
  by (simp_all add: mag_val_def power_int_def power_divide)

lemma below_one:
  assumes e: "unat (extract_exp x) < 1023"
  shows "\<bar>val64 x\<bar> < 1" "\<bar>val64 x\<bar> < 1 / 2 \<longleftrightarrow> unat (extract_exp x) < 1022"
    "\<bar>val64 x\<bar> = 1 / 2 \<longleftrightarrow> unat (extract_exp x) = 1022 \<and> x AND kFracMask = 0"
proof -
  have m: "mag64 x = unat (extract_exp x) * 2 ^ 52 + unat (extract_frac x)" by (rule mag64_fields)
  note f = extract_frac_less [of x]
  have z: "x AND kFracMask = 0 \<longleftrightarrow> unat (extract_frac x) = 0"
    unfolding extract_frac_def by (rule unat_eq_zero [symmetric])
  have b: "\<bar>val64 x\<bar> < 1 \<longleftrightarrow> mag64 x < 1023 * 2 ^ 52" "\<bar>val64 x\<bar> < 1 / 2 \<longleftrightarrow> mag64 x < 1022 * 2 ^ 52"
    "\<bar>val64 x\<bar> = 1 / 2 \<longleftrightarrow> mag64 x = 1022 * 2 ^ 52"
    unfolding mag_val_half [symmetric] abs_val64 by (simp_all only: mag_val_less_iff mag_val_eq_iff)
      (simp only: mag_val_one [symmetric] mag_val_less_iff)
  show "\<bar>val64 x\<bar> < 1" unfolding b m using e f by simp
  show "\<bar>val64 x\<bar> < 1 / 2 \<longleftrightarrow> unat (extract_exp x) < 1022" unfolding b m using e f by auto
  show "\<bar>val64 x\<bar> = 1 / 2 \<longleftrightarrow> unat (extract_exp x) = 1022 \<and> x AND kFracMask = 0"
    unfolding b m z using e f by (cases "unat (extract_exp x) < 1022"; cases "unat (extract_exp x) = 1022") auto
qed

lemma rnd_int_below_one:
  assumes "0 \<le> y" "y < 1"
  shows "rnd_int m s y = of_bool (case m of SF64_RTZ \<Rightarrow> False | SF64_RUP \<Rightarrow> \<not> s \<and> y \<noteq> 0 | SF64_RDN \<Rightarrow> s \<and> y \<noteq> 0
    | SF64_RNA \<Rightarrow> 1 / 2 \<le> y | SF64_RNE \<Rightarrow> 1 / 2 < y)"
proof -
  have f: "\<lfloor>y\<rfloor> = 0" using assms by linarith
  have c: "\<lceil>y\<rceil> = of_bool (y \<noteq> 0)"
  proof (cases "y = 0")
    case False
    then have "\<lceil>y\<rceil> = 1" using assms by linarith
    then show ?thesis using False by simp
  qed simp
  have a: "\<lfloor>y + 1 / 2\<rfloor> = of_bool (1 / 2 \<le> y)"
  proof (cases "1 / 2 \<le> y")
    case True
    then have "\<lfloor>y + 1 / 2\<rfloor> = 1" using assms by linarith
    then show ?thesis using True by simp
  next
    case False
    then have "\<lfloor>y + 1 / 2\<rfloor> = 0" using assms by linarith
    then show ?thesis using False by simp
  qed
  show ?thesis unfolding rnd_int_def f c a by (cases m) auto
qed

lemma small_rint_r:
  assumes e: "unat (extract_exp x) < 1023"
  shows "sf64_rint_r m x = enc64 (sgn64 x) (nat (rnd_int m (sgn64 x) \<bar>val64 x\<bar>) * (1023 * 2 ^ 52))"
proof -
  define z where "z = (mag64 x = 0)"
  define s where "s = sgn64 x"
  have u: "uint (extract_exp x) - kExpBias = int (unat (extract_exp x)) - 1023" by (rule uint_exp)
  have n: "int (unat (extract_exp x)) - 1023 < 0" using e by linarith
  have nb: "\<not> kFracBits \<le> int (unat (extract_exp x)) - 1023" unfolding kFracBits_def using e by linarith
  have fin: "extract_exp x \<noteq> kExpMax" "\<not> is_exp_max x" using e by (auto simp: is_exp_max_def kExpMax_def)
  have sg: "extract_sign x = of_bool s" unfolding s_def by (rule extract_sign_cases)
  have t: "trunc_bits x = enc64 s 0"
    unfolding trunc_bits_def Let_def u if_P [OF n] sg using fin by (simp add: make_signed_zero_enc64)
  have frac: "has_fractional_part x \<longleftrightarrow> \<not> z"
    unfolding has_fractional_part_def Let_def u if_not_P [OF nb] if_P [OF n] z_def is_zero_bits_iff [symmetric] is_zero_bits_def
    using fin by simp
  have one: "pack (of_bool b) (word_of_int kExpBias) 0 = enc64 b (1023 * 2 ^ 52)" for b
    by (simp add: pack_enc64 kExpBias_def)
  have away: "next_integer_away (enc64 c 0) (of_bool b) = enc64 b (1023 * 2 ^ 52)" for b c
    using is_zero_bits_iff [of "enc64 c 0"] unfolding next_integer_away_def Let_def is_zero_bits_def [symmetric]
    by (simp add: one mag64_enc64)
  have zero: "make_signed_zero (of_bool s) = enc64 s 0" by (simp add: make_signed_zero_enc64)
  have vz: "\<bar>val64 x\<bar> \<noteq> 0 \<longleftrightarrow> \<not> z" unfolding z_def is_zero_bits_iff [symmetric] val64_eq_0_iff [symmetric] by simp
  define E where "E = (unat (extract_exp x) = 1022)"
  define F where "F = (x AND kFracMask = 0)"
  note b1 = below_one [OF e]
  have E: "int (unat (extract_exp x)) - 1023 = - 1 \<longleftrightarrow> E" unfolding E_def by (rule iffI) linarith+
  have v: "1 / 2 \<le> \<bar>val64 x\<bar> \<longleftrightarrow> E" "1 / 2 < \<bar>val64 x\<bar> \<longleftrightarrow> E \<and> \<not> F"
    using b1 e unfolding E_def F_def by auto
  have r: "rnd_int m s \<bar>val64 x\<bar> = of_bool (case m of SF64_RTZ \<Rightarrow> False | SF64_RUP \<Rightarrow> \<not> s \<and> \<not> z | SF64_RDN \<Rightarrow> s \<and> \<not> z
    | SF64_RNA \<Rightarrow> E | SF64_RNE \<Rightarrow> E \<and> \<not> F)"
    using rnd_int_below_one [of "\<bar>val64 x\<bar>" m s] b1(1) unfolding v vz by simp
  note reds = sf64_rint_r_def sf64_trunc_def sf64_floor_def sf64_ceil_def sf64_round_def sf64_rint_def Let_def
  note away1 = away [where b = True, simplified] and away0 = away [where b = False, simplified]
  have "sf64_rint_r m x = enc64 s (nat (rnd_int m s \<bar>val64 x\<bar>) * (1023 * 2 ^ 52))"
    unfolding r reds trunc_bits_def [symmetric] t frac u if_P [OF n] if_not_P [OF fin(2)] sg E F_def [symmetric] one zero
    by (cases m) (auto simp: away1 away0)
  then show ?thesis unfolding s_def .
qed

lemma large_integral:
  assumes e: "1075 \<le> unat (extract_exp x)"
  shows "\<exists>i. \<bar>val64 x\<bar> = real_of_int i"
proof -
  have m: "mag64 x = unat (extract_exp x) * 2 ^ 52 + unat (extract_frac x)" by (rule mag64_fields)
  have "mag64 x div 2 ^ 52 = unat (extract_exp x)" "mag64 x mod 2 ^ 52 = unat (extract_frac x)"
    by (simp_all only: unat_extract_exp_mag unat_extract_frac_mag)
  then have "\<bar>val64 x\<bar> = real (unat (extract_frac x) + 2 ^ 52) * 2 powi (int (unat (extract_exp x)) - 1075)"
    unfolding abs_val64 mag_val_def using e by simp
  moreover obtain n where "unat (extract_exp x) = 1075 + n" using e le_Suc_ex by blast
  ultimately have "\<bar>val64 x\<bar> = real ((unat (extract_frac x) + 2 ^ 52) * 2 ^ n)"
    by (simp only: of_nat_add of_nat_mult of_nat_power of_nat_numeral add_diff_cancel_left' power_int_of_nat)
  then show ?thesis by (metis of_int_of_nat_eq)
qed

lemma large_rint_r:
  assumes e: "1075 \<le> unat (extract_exp x)"
  shows "sf64_rint_r m x = x"
proof -
  have n: "\<not> int (unat (extract_exp x)) - 1023 < 0" "kFracBits \<le> int (unat (extract_exp x)) - 1023"
    unfolding kFracBits_def using e by linarith+
  have "trunc_bits x = x" "\<not> has_fractional_part x"
    unfolding trunc_bits_def has_fractional_part_def Let_def uint_exp if_not_P [OF n(1)] if_P [OF n(2)] by simp_all
  then show ?thesis
    unfolding sf64_rint_r_def sf64_trunc_def sf64_floor_def sf64_ceil_def sf64_round_def sf64_rint_def Let_def
      uint_exp if_not_P [OF n(1)] if_P [OF n(2)] by (cases m) simp_all
qed

lemma rint_r_nonfinite: "\<not> is_finite_bits x \<Longrightarrow> sf64_rint_r m x = x"
proof -
  assume "\<not> is_finite_bits x"
  then have "unat (extract_exp x) = 2047" by (simp add: is_finite_bits_def kExpMax_def)
  then show ?thesis by (intro large_rint_r) simp
qed

lemma rint_r_sound:
  assumes fin: "is_finite_bits x"
  shows "is_finite_bits (sf64_rint_r m x)" "sgn64 (sf64_rint_r m x) = sgn64 x"
    "\<bar>val64 (sf64_rint_r m x)\<bar> = real_of_int (rnd_int m (sgn64 x) \<bar>val64 x\<bar>)"
proof -
  let ?r = "sf64_rint_r m x" and ?s = "sgn64 x"
  consider (small) "unat (extract_exp x) < 1023" | (point) M k where "int_point x (unat (extract_exp x)) M k"
    | (large) "1075 \<le> unat (extract_exp x)"
    unfolding int_point_def by force
  then have "is_finite_bits ?r \<and> sgn64 ?r = ?s \<and> \<bar>val64 ?r\<bar> = real_of_int (rnd_int m ?s \<bar>val64 x\<bar>)"
  proof cases
    case small
    have i: "rnd_int m ?s \<bar>val64 x\<bar> = 0 \<or> rnd_int m ?s \<bar>val64 x\<bar> = 1"
      using rnd_int_below_one [OF _ below_one(1) [OF small], of m ?s] by simp
    show ?thesis unfolding small_rint_r [OF small] using i
      by (elim disjE) (simp_all add: is_finite_bits_iff mag64_enc64 sgn64_enc64 abs_val64 mag_val_one [simplified] inf64_def)
  next
    case point
    let ?e = "unat (extract_exp x)" and ?q = "round_bits m ?s (k - 1) M"
    note kb = ip_kb [OF point] and Mb = ip_Mb [OF point] and e = ip_e [OF point]
    have k: "53 - k + k = 53" "52 - k + k = 52" using kb by simp_all
    have q: "?q \<le> 2 ^ (53 - k)" "2 ^ (52 - k) \<le> ?q"
      using round_bits_le [of M "53 - k" "k - 1" m ?s] round_bits_ge [of "52 - k" "k - 1" M m ?s] Mb
      unfolding kb(3) k by simp_all
    note r = ip_rint_r [OF point, of m] and enc = ip_encoded [OF point q, of ?s]
    have "?q * 2 ^ k \<le> 2 ^ (53 - k) * 2 ^ k" using q(1) by (rule mult_right_mono) simp
    then have "?q * 2 ^ k \<le> 2 ^ 53" unfolding power_add [symmetric] k .
    moreover have "(?e - 1) * 2 ^ 52 \<le> 1073 * 2 ^ 52" using e by (intro mult_right_mono) simp_all
    ultimately have "is_finite_bits ?r" unfolding is_finite_bits_iff r enc inf64_def by simp
    moreover have "\<bar>val64 ?r\<bar> = real_of_int (rnd_int m ?s \<bar>val64 x\<bar>)"
      unfolding r enc ip_abs_value [OF point] rnd_int_round_bits by simp
    ultimately show ?thesis unfolding r enc by simp
  next
    case large
    then obtain i where "\<bar>val64 x\<bar> = real_of_int i" using large_integral by blast
    then show ?thesis unfolding large_rint_r [OF large] using fin by simp
  qed
  then show "is_finite_bits ?r" "sgn64 ?r = ?s" "\<bar>val64 ?r\<bar> = real_of_int (rnd_int m ?s \<bar>val64 x\<bar>)" by simp_all
qed

text \<open>
  C14: Rounding to an integer (\<open>sf64_rint_r\<close>, whose five modes are \<open>sf64_rint\<close>, \<open>sf64_trunc\<close>,
  \<open>sf64_ceil\<close>, \<open>sf64_floor\<close> and \<open>sf64_round\<close>) returns, for every finite input and every mode, a finite
  double of the same sign whose magnitude is the exact value rounded to an integer under that mode;
  infinities come back unchanged, and so does every NaN: a quiet one keeps its sign and payload, and a
  signalling one is not even quieted (these entries do not touch a flag at all), where \<open>soft_f64.h\<close> announces
  the canonical quiet NaN and says that signalling NaNs are quieted and raise INVALID.
\<close>
theorem rint_r_correct:
  "if is_finite_bits x
   then is_finite_bits (sf64_rint_r m x) \<and> sgn64 (sf64_rint_r m x) = sgn64 x
     \<and> \<bar>val64 (sf64_rint_r m x)\<bar> = real_of_int (rnd_int m (sgn64 x) \<bar>val64 x\<bar>)
   else sf64_rint_r m x = x"
  using rint_r_sound [of x m] rint_r_nonfinite [of x m] by simp

lemma integer_parts:
  assumes "is_finite_bits x"
  shows "val64 (sf64_floor x) = \<lfloor>val64 x\<rfloor>" "val64 (sf64_ceil x) = \<lceil>val64 x\<rceil>"
    "val64 (sf64_trunc x) = (if sgn64 x then \<lceil>val64 x\<rceil> else \<lfloor>val64 x\<rfloor>)"
    "val64 (sf64_round x) = (if sgn64 x then \<lceil>val64 x - 1 / 2\<rceil> else \<lfloor>val64 x + 1 / 2\<rfloor>)"
proof -
  have v: "val64 (sf64_rint_r m x) = (if sgn64 x then - rnd_int m (sgn64 x) \<bar>val64 x\<bar> else rnd_int m (sgn64 x) \<bar>val64 x\<bar>)" for m
    by (subst val64_signed) (simp add: rint_r_sound [OF assms])
  have a: "\<bar>val64 x\<bar> = (if sgn64 x then - val64 x else val64 x)" using val64_signed [of x] by auto
  have h: "\<lceil>val64 x - 1 / 2\<rceil> = - \<lfloor>- val64 x + 1 / 2\<rfloor>" unfolding ceiling_def by simp
  show "val64 (sf64_floor x) = \<lfloor>val64 x\<rfloor>" using v [of SF64_RDN] unfolding a by (simp add: sf64_rint_r_def rnd_int_def ceiling_minus split: if_splits)
  show "val64 (sf64_ceil x) = \<lceil>val64 x\<rceil>" using v [of SF64_RUP] unfolding a by (simp add: sf64_rint_r_def rnd_int_def ceiling_def split: if_splits)
  show "val64 (sf64_trunc x) = (if sgn64 x then \<lceil>val64 x\<rceil> else \<lfloor>val64 x\<rfloor>)"
    using v [of SF64_RTZ] unfolding a by (simp add: sf64_rint_r_def rnd_int_def ceiling_def split: if_splits)
  show "val64 (sf64_round x) = (if sgn64 x then \<lceil>val64 x - 1 / 2\<rceil> else \<lfloor>val64 x + 1 / 2\<rfloor>)"
    using v [of SF64_RNA] unfolding a h by (simp add: sf64_rint_r_def rnd_int_def split: if_splits)
qed

end
