(* ===== verification/Sf_Scale.thy ===== *)
theory Sf_Scale
  imports Sf_Rounding
begin

text \<open>
  The properties of the scaling and splitting half of \<open>src/rounding.cpp\<close>: \<open>ldexp\<close> against one
  correctly rounded multiplication, \<open>frexp\<close> and \<open>ilogb\<close> against the binary logarithm, and the exact
  split of \<open>modf\<close> and \<open>fract\<close>.  The definitions are in \<open>Sf_Rounding\<close>.
\<close>

section \<open>Scaling and exponent extraction\<close>

lemma split_exponent_correct:
  assumes "is_finite_bits x" "\<not> is_zero_bits x"
  obtains fr N e where "split_exponent x = (fr, e)" "unat fr = N - 2 ^ 52" "unat (kImplicitBit OR fr) = N"
    "2 ^ 52 \<le> N" "N < 2 ^ 53" "\<bar>val64 x\<bar> = real N * 2 powi (e - 52)" "- 1074 \<le> e" "e \<le> 1023"
proof -
  obtain mnt e where n: "normalise (extract_exp x) (extract_frac x) = (mnt, e)" "2 ^ 52 \<le> unat mnt"
    "unat mnt < 2 ^ 53" "\<bar>val64 x\<bar> = real (unat mnt) * 2 powi (e - 52)" "- 1074 \<le> e" "e \<le> 1023"
    using normalise_correct [OF assms] .
  have low: "unat (mnt AND kFracMask) = unat mnt - 2 ^ 52"
  proof -
    obtain r where r: "unat mnt = 2 ^ 52 + r" using n(2) by (metis le_Suc_ex)
    then have "r < 2 ^ 52" using n(3) by simp
    then show ?thesis unfolding field_masks unat_and_mask r by simp
  qed
  have keep: "(extract_frac x OR kImplicitBit) AND kFracMask = extract_frac x"
  proof (rule word_eq_unatI)
    have "unat (extract_frac x OR kImplicitBit) = 2 ^ 52 + unat (extract_frac x)"
      using unat_or_disjoint [of kImplicitBit 52 "extract_frac x"] extract_frac_less [of x]
      by (simp add: kImplicitBit_def or.commute)
    then show "unat ((extract_frac x OR kImplicitBit) AND kFracMask) = unat (extract_frac x)"
      unfolding field_masks unat_and_mask using extract_frac_less [of x] by simp
  qed
  have se: "split_exponent x = (mnt AND kFracMask, e)"
    using n(1) keep by (auto simp: split_exponent_def normalise_def Let_def split: if_splits)
  have "unat (kImplicitBit OR (mnt AND kFracMask)) = unat mnt"
  proof -
    have "unat (kImplicitBit OR (mnt AND kFracMask)) = unat kImplicitBit + unat (mnt AND kFracMask)"
      by (rule unat_or_disjoint [where n = 52]) (use n(2,3) in \<open>simp_all add: low kImplicitBit_def\<close>)
    then show ?thesis using n(2) by (simp add: low kImplicitBit_def)
  qed
  then show ?thesis using that [OF se low _ n(2-6)] by blast
qed

lemma pack_implicit:
  assumes "2 ^ 52 \<le> N" "N < 2 ^ 53" "unat fr = N - 2 ^ 52" "- 1022 \<le> E" "E \<le> 1023"
  shows "pack (extract_sign x) (word_of_int (E + kExpBias)) fr = enc64 (sgn64 x) (nat (E + 1022) * 2 ^ 52 + N)"
proof -
  have s: "extract_sign x = 0 \<or> extract_sign x = 1" by (simp add: extract_sign_cases)
  have "unat fr mod 2 ^ 52 = N - 2 ^ 52" using assms by simp
  moreover have "nat (E + 1023) = Suc (nat (E + 1022))" using assms by simp
  ultimately show ?thesis
    using pack_nat [OF s, of "E + 1023" fr] assms by (simp add: kExpBias_def extract_sign_cases)
qed

text \<open>The subnormal tail of \<open>ldexp\<close>: shift right with the bits shifted out deciding the rounding.\<close>

definition ldexp_shift :: "u64 \<Rightarrow> nat \<Rightarrow> u64" where
  "ldexp_shift w r =
     (let retained = drop_bit r w; out = w AND (push_bit r 1 - 1);
          rb = drop_bit (r - 1) out AND 1;
          st = (if out AND (if 2 \<le> r then push_bit (r - 1) 1 - 1 else 0) \<noteq> 0 then 1 else 0 :: u64)
      in if rb \<noteq> 0 \<and> (st \<noteq> 0 \<or> retained AND 1 \<noteq> 0) then retained + 1 else retained)"

lemma ldexp_shift_correct:
  assumes w: "unat w = N" "N < 2 ^ 53" and r: "1 \<le> r"
  shows "unat (ldexp_shift w r) = round_bits SF64_RNE s (r - 1) N"
proof -
  have rS: "Suc (r - 1) = r" using r by simp
  define out where "out = w AND (push_bit r 1 - 1)"
  have out: "unat out = N mod 2 ^ r" unfolding out_def mask_pow unat_and_mask w ..
  have rb: "drop_bit (r - 1) out AND 1 \<noteq> 0 \<longleftrightarrow> odd (N div 2 ^ (r - 1))"
  proof -
    have "N mod 2 ^ (r - 1 + 1) div 2 ^ (r - 1) = N div 2 ^ (r - 1) mod 2"
      unfolding mod_split [of N "r - 1" 1] by simp
    then show ?thesis unfolding and_1_neq_0_iff unat_drop_bit out using rS by simp
  qed
  have st: "out AND (if 2 \<le> r then push_bit (r - 1) 1 - 1 else 0) \<noteq> 0 \<longleftrightarrow> N mod 2 ^ (r - 1) \<noteq> 0"
  proof (cases "2 \<le> r")
    case True
    have "N mod 2 ^ r mod 2 ^ (r - 1) = N mod 2 ^ (r - 1)" by (rule mod_mod_cancel) (simp add: le_imp_power_dvd)
    then show ?thesis using True unfolding if_P [OF True] mask_pow and_mask_neq_0 out by simp
  next
    case False
    then have "r = 1" using r by simp
    then show ?thesis by simp
  qed
  have lsb: "drop_bit r w AND 1 \<noteq> 0 \<longleftrightarrow> odd (N div 2 ^ r)" unfolding and_1_neq_0_iff unat_drop_bit w ..
  have inc: "unat (drop_bit r w + 1) = N div 2 ^ r + 1"
  proof -
    have "unat (drop_bit r w) = N div 2 ^ r" by (simp only: unat_drop_bit w)
    moreover have "N div 2 ^ r < 2 ^ 53" using w(2) by (rule order_le_less_trans [rotated]) simp
    ultimately show ?thesis using w by (subst unat_add_lt) simp_all
  qed
  show ?thesis
    unfolding ldexp_shift_def Let_def out_def [symmetric] rb st lsb round_bits_def rS round_up_dec_def
    using inc by (simp add: unat_drop_bit w)
qed

lemma ldexp_scaled:
  assumes N: "2 ^ 52 \<le> N" "N < 2 ^ 53" and y: "y = real N * 2 powi (E - 52)"
  shows "fst (ieee64 SF64_RNE s y fe) =
    (if 1023 < E then enc64 s inf64
     else if - 1022 \<le> E then enc64 s (nat (E + 1022) * 2 ^ 52 + N)
     else enc64 s (round_bits SF64_RNE s (nat (- 1022 - E) - 1) N))"
proof -
  define T where "T = (if 1 \<le> E - 52 + int 52 + 1023 then int 52 - 52 else - 1074 - (E - 52))"
  define S' where "S' = (if 1 \<le> T then N else N * 2 ^ nat (1 - T))"
  define j where "j = nat (T - 1)"
  define d where "d = nat (E - 52 + int 52 + 1022)"
  have N': "N < 2 ^ Suc 52" using N(2) by simp
  note cell = fma_frame_cell [OF N(1) N' same_cell_refl disjI2 y, OF refl, folded T_def, folded S'_def, folded j_def d_def]
  note spec = ieee64_cell [OF cell(1,3,4), of SF64_RNE s fe]
  show ?thesis
  proof (cases "- 1022 \<le> E")
    case True
    have T: "T = 0" and d: "d = nat (E + 1022)" using True by (simp_all add: T_def d_def)
    have S': "S' = N * 2 ^ Suc 0" "j = 0" by (simp_all add: S'_def j_def T)
    have K: "round_bits SF64_RNE s j S' = N" unfolding S' by (subst round_bits_exact) simp_all
    show ?thesis
    proof (cases "1023 < E")
      case True
      then have "2046 \<le> d" by (simp add: d)
      then have "2047 * 2 ^ 52 \<le> d * 2 ^ 52 + N" using N by simp
      then show ?thesis using True unfolding spec K by (simp add: overflow_mag_def rounds_down_def inf64_def)
    next
      case False
      then have "d \<le> 2045" using True by (simp add: d)
      then have "\<not> 2047 * 2 ^ 52 \<le> d * 2 ^ 52 + N" using N by simp
      then show ?thesis using True False unfolding spec K by (simp add: d)
    qed
  next
    case False
    have T: "T = - 1022 - E" and d: "d = 0" using False by (simp_all add: T_def d_def)
    have S': "S' = N" and j: "j = nat (- 1022 - E) - 1" using False by (simp_all add: S'_def j_def T)
    have "N < 2 ^ (52 + Suc j)" using N(2) by (rule order_less_le_trans) (intro power_increasing; simp)
    then have "round_bits SF64_RNE s j N \<le> 2 ^ 52" by (rule round_bits_le)
    then have "\<not> 2047 * 2 ^ 52 \<le> d * 2 ^ 52 + round_bits SF64_RNE s j N" by (simp add: d)
    then show ?thesis using False unfolding spec S' j [symmetric] by (simp add: d)
  qed
qed

lemma round_bits_far: "N < 2 ^ k \<Longrightarrow> round_bits SF64_RNE s k N = 0"
  by (simp add: round_bits_def round_up_dec_def)

lemma ldexp_result:
  assumes "is_finite_bits x" "\<not> is_zero_bits x" "split_exponent x = (fr, e)" "unat (kImplicitBit OR fr) = N"
    and N: "2 ^ 52 \<le> N" "N < 2 ^ 53" "unat fr = N - 2 ^ 52" and n: "- 2100 \<le> n" "n \<le> 2100"
  shows "sf64_ldexp x n =
    (if 1023 < e + n then enc64 (sgn64 x) inf64
     else if - 1022 \<le> e + n then enc64 (sgn64 x) (nat (e + n + 1022) * 2 ^ 52 + N)
     else enc64 (sgn64 x) (round_bits SF64_RNE (sgn64 x) (nat (- 1022 - (e + n)) - 1) N))"
proof -
  let ?E = "e + n" and ?s = "extract_sign x"
  have cls: "\<not> is_nan_bits x" "\<not> (is_inf_bits x \<or> is_zero_bits x)" using assms(1,2) by (auto simp: class_iff)
  have s: "?s = 0 \<or> ?s = 1" "?s \<noteq> 0 \<longleftrightarrow> sgn64 x" "odd (unat ?s) \<longleftrightarrow> sgn64 x" by (simp_all add: extract_sign_cases)
  have c: "\<not> n > 2100" "\<not> n < - 2100" using n by simp_all
  note code = sf64_ldexp_def [of x n, unfolded if_not_P [OF cls(1)] if_not_P [OF cls(2)] Let_def if_not_P [OF c(1)] if_not_P [OF c(2)] assms(3)]
  consider (over) "1023 < ?E" | (normal) "\<not> 1023 < ?E" "- 1022 \<le> ?E" | (far) "\<not> - 1022 \<le> ?E" "64 \<le> - 1022 - ?E"
    | (sub) "\<not> - 1022 \<le> ?E" "\<not> 64 \<le> - 1022 - ?E" by linarith
  then show ?thesis
  proof cases
    case over
    then show ?thesis unfolding code by (simp add: make_signed_inf_enc64 s)
  next
    case normal
    then show ?thesis unfolding code using pack_implicit [OF N, of ?E x] by simp
  next
    case far
    have "N < 2 ^ (nat (- 1022 - ?E) - 1)" using N(2) by (rule order_less_le_trans) (use far in \<open>intro power_increasing; simp\<close>)
    then have "round_bits SF64_RNE (sgn64 x) (nat (- 1022 - ?E) - 1) N = 0" by (rule round_bits_far)
    then show ?thesis using far unfolding code by (simp add: make_signed_zero_enc64 s)
  next
    case sub
    define R where "R = nat (- 1022 - ?E)"
    have R: "- 1022 - ?E = int R" "1 \<le> R" using sub by (simp_all add: R_def)
    have k: "unat (ldexp_shift (kImplicitBit OR fr) R) = round_bits SF64_RNE (sgn64 x) (R - 1) N"
      by (rule ldexp_shift_correct [OF assms(4) N(2) R(2)])
    have "N < 2 ^ (52 + Suc (R - 1))" using N(2) by (rule order_less_le_trans) (intro power_increasing; simp)
    then have kb: "round_bits SF64_RNE (sgn64 x) (R - 1) N \<le> 2 ^ 52" by (rule round_bits_le)
    have m: "pack ?s 0 (w AND kFracMask) = pack ?s 0 w" for w by (simp add: pack_enc64 field_masks unat_and_mask)
    note tail = fma_pack_subnormal [OF s(1) k kb, unfolded m s(2), THEN arg_cong [where f = fst], of "0::nat", unfolded if_distrib [of fst] fst_conv]
    have nz: "int R \<noteq> 0" "0 < int R" "nat (int R) = R" "nat (int R - 1) = R - 1" "2 \<le> int R \<longleftrightarrow> 2 \<le> R" using R(2) by auto
    have shifted: "sf64_ldexp x n = (let r = ldexp_shift (kImplicitBit OR fr) R
       in if r AND kImplicitBit \<noteq> 0 then pack ?s 1 (r AND kFracMask) else pack ?s 0 (r AND kFracMask))"
      using sub unfolding code Let_def prod.case R(1) ldexp_shift_def if_not_P [OF nz(1)] if_P [OF nz(2)] nz(3-5) by simp
    show ?thesis unfolding shifted Let_def m tail R_def [symmetric] using sub by simp
  qed
qed

lemma clamp_irrelevant:
  assumes "- 1074 \<le> e" "e \<le> 1023" "2 ^ 52 \<le> N" "N < (2::nat) ^ 53"
  defines "c \<equiv> \<lambda>n :: int. max (- 2100) (min n 2100)"
  shows "1023 < e + c n \<longleftrightarrow> 1023 < e + n" "- 1022 \<le> e + c n \<longleftrightarrow> - 1022 \<le> e + n"
    "\<not> 1023 < e + n \<Longrightarrow> - 1022 \<le> e + n \<Longrightarrow> c n = n"
    "\<not> - 1022 \<le> e + n \<Longrightarrow> round_bits SF64_RNE s (nat (- 1022 - (e + c n)) - 1) N = round_bits SF64_RNE s (nat (- 1022 - (e + n)) - 1) N"
proof -
  show "1023 < e + c n \<longleftrightarrow> 1023 < e + n" "- 1022 \<le> e + c n \<longleftrightarrow> - 1022 \<le> e + n"
    "\<not> 1023 < e + n \<Longrightarrow> - 1022 \<le> e + n \<Longrightarrow> c n = n"
    using assms(1,2) unfolding c_def by (auto simp: max_def min_def)
  assume low: "\<not> - 1022 \<le> e + n"
  show "round_bits SF64_RNE s (nat (- 1022 - (e + c n)) - 1) N = round_bits SF64_RNE s (nat (- 1022 - (e + n)) - 1) N"
  proof (cases "n < - 2100")
    case True
    have f: "54 \<le> nat (- 1022 - (e + c n))" "54 \<le> nat (- 1022 - (e + n))" using True assms(2) by (simp_all add: c_def)
    have "N < 2 ^ (j - 1)" if "54 \<le> j" for j
      using assms(4) by (rule order_less_le_trans) (use that in \<open>intro power_increasing; simp\<close>)
    then show ?thesis using f by (simp only: round_bits_far)
  next
    case False
    then have "c n = n" using low assms(1) by (simp add: c_def)
    then show ?thesis by simp
  qed
qed

lemma ldexp_clamped: "sf64_ldexp x n = sf64_ldexp x (max (- 2100) (min n 2100))"
proof -
  have c: "(if (if 2100 < k then 2100 else k) < - 2100 then - 2100 else if 2100 < k then 2100 else k) = max (- 2100) (min k 2100)" for k :: int
    by (simp add: max_def min_def)
  have i: "max (- 2100) (min (max (- 2100) (min k 2100)) 2100) = max (- 2100) (min k 2100)" for k :: int by simp
  show ?thesis unfolding sf64_ldexp_def Let_def c i ..
qed

lemma ldexp_sound:
  assumes "is_finite_bits x" "\<not> is_zero_bits x"
  shows "sf64_ldexp x n = fst (round64 SF64_RNE z (val64 x * 2 powi n) fe)"
proof -
  obtain fr N e where x: "split_exponent x = (fr, e)" "unat fr = N - 2 ^ 52" "unat (kImplicitBit OR fr) = N"
    "2 ^ 52 \<le> N" "N < 2 ^ 53" "\<bar>val64 x\<bar> = real N * 2 powi (e - 52)" "- 1074 \<le> e" "e \<le> 1023"
    using split_exponent_correct [OF assms] .
  have m0: "mag64 x \<noteq> 0" using assms(2) by (simp add: is_zero_bits_iff)
  have v0: "val64 x \<noteq> 0" using assms(2) by (simp add: val64_eq_0_iff)
  have y: "\<bar>val64 x\<bar> * 2 powi n = real N * 2 powi (e + n - 52)"
    unfolding x(6) by (simp add: power_int_add [symmetric] algebra_simps)
  have "round64 SF64_RNE z (val64 x * 2 powi n) fe = ieee64 SF64_RNE (sgn64 x) (\<bar>val64 x\<bar> * 2 powi n) fe"
  proof -
    have "\<not> (2::real) powi n < 0" "\<bar>(2::real) powi n\<bar> = 2 powi n" by (simp_all add: not_less)
    then show ?thesis using v0 val64_sgn [OF m0] by (simp add: round64_def abs_mult mult_less_0_iff)
  qed
  then have spec: "fst (round64 SF64_RNE z (val64 x * 2 powi n) fe) = 
    (if 1023 < e + n then enc64 (sgn64 x) inf64
     else if - 1022 \<le> e + n then enc64 (sgn64 x) (nat (e + n + 1022) * 2 ^ 52 + N)
     else enc64 (sgn64 x) (round_bits SF64_RNE (sgn64 x) (nat (- 1022 - (e + n)) - 1) N))"
    using ldexp_scaled [OF x(4,5) y] by simp
  define c where "c = max (- 2100) (min n 2100)"
  note irr = clamp_irrelevant [OF x(7,8,4,5), of n, folded c_def]
  have cb: "- 2100 \<le> c" "c \<le> 2100" by (simp_all add: c_def)
  have "sf64_ldexp x n = sf64_ldexp x c" unfolding c_def by (rule ldexp_clamped)
  also have "\<dots> = (if 1023 < e + n then enc64 (sgn64 x) inf64
     else if - 1022 \<le> e + n then enc64 (sgn64 x) (nat (e + c + 1022) * 2 ^ 52 + N)
     else enc64 (sgn64 x) (round_bits SF64_RNE (sgn64 x) (nat (- 1022 - (e + c)) - 1) N))"
    unfolding ldexp_result [OF assms x(1,3,4,5,2) cb] irr(1,2) ..
  finally show ?thesis unfolding spec using irr(3,4) by simp
qed

text \<open>
  \<open>sf64_ldexp\<close> multiplies by a power of two and rounds once to nearest even, also when the result
  is subnormal, underflows to a signed zero or overflows to a signed infinity, and for every
  exponent, the clamped ones included.
\<close>
theorem ldexp_correct:
  "sf64_ldexp x n =
    (if is_nan_bits x then x OR kQuietNaNBit
     else if is_inf_bits x \<or> is_zero_bits x then x
     else fst (round64 SF64_RNE False (val64 x * 2 powi n) 0))"
proof (cases "is_nan_bits x \<or> is_inf_bits x \<or> is_zero_bits x")
  case True
  then show ?thesis by (auto simp: sf64_ldexp_def)
next
  case False
  then have "is_finite_bits x" by (auto simp: class_iff)
  then show ?thesis using False ldexp_sound by simp
qed

lemma frexp_sound:
  assumes "is_finite_bits x" "\<not> is_zero_bits x" "sf64_frexp x True = (f, Some e)"
  shows "is_finite_bits f" "\<not> is_zero_bits f" "sgn64 f = sgn64 x" "1 / 2 \<le> \<bar>val64 f\<bar>" "\<bar>val64 f\<bar> < 1" "val64 x = val64 f * 2 powi e"
    "- 1073 \<le> e" "e \<le> 1024" "e = \<lfloor>log 2 \<bar>val64 x\<bar>\<rfloor> + 1"
proof -
  obtain fr N d where x: "split_exponent x = (fr, d)" "unat fr = N - 2 ^ 52" "unat (kImplicitBit OR fr) = N"
    "2 ^ 52 \<le> N" "N < 2 ^ 53" "\<bar>val64 x\<bar> = real N * 2 powi (d - 52)" "- 1074 \<le> d" "d \<le> 1023"
    using split_exponent_correct [OF assms(1,2)] .
  have "\<not> is_nan_bits x" "\<not> is_inf_bits x" using assms(1,2) by (auto simp: class_iff)
  then have fe: "f = pack (extract_sign x) (word_of_int (kExpBias - 1)) fr" "e = d + 1"
    using assms(2,3) by (simp_all add: sf64_frexp_def Let_def x(1))
  have f: "f = enc64 (sgn64 x) (1021 * 2 ^ 52 + N)"
    using pack_implicit [OF x(4,5,2), of "- 1" x] unfolding fe by (simp add: kExpBias_def)
  have b: "1021 * 2 ^ 52 + N < 2 ^ 63" using x(5) by simp
  have vf: "\<bar>val64 f\<bar> = real N * 2 powi (- 53)"
    unfolding f abs_val64 mag64_enc64 [OF b] using mag_val_encode [of N 52 1021 "- 1074"] x(4,5) by simp
  show sg: "sgn64 f = sgn64 x" unfolding f by (rule sgn64_enc64 [OF b])
  show "is_finite_bits f" "\<not> is_zero_bits f"
    using x(4,5) unfolding f class_iff mag64_enc64 [OF b] inf64_def by simp_all
  have Nb: "real (2 ^ 52) \<le> real N" "real N < real (2 ^ 53)" using x(4,5) unfolding of_nat_le_iff of_nat_less_iff .
  have p: "(2::real) powi (- 53) = 1 / 2 ^ 53" by (simp add: power_int_def power_divide)
  show "1 / 2 \<le> \<bar>val64 f\<bar>" "\<bar>val64 f\<bar> < 1" unfolding vf p using Nb by simp_all
  have a: "\<bar>val64 x\<bar> = \<bar>val64 f\<bar> * 2 powi e"
    unfolding vf x(6) fe(2) mult.assoc by (subst power_int_add [symmetric]) (simp_all add: algebra_simps)
  show "val64 x = val64 f * 2 powi e" using a val64_signed [of x] val64_signed [of f] sg by auto
  show "- 1073 \<le> e" "e \<le> 1024" using x(7,8) fe(2) by simp_all
  have "\<lfloor>log 2 \<bar>val64 x\<bar>\<rfloor> = d"
    unfolding x(6)
  proof (rule floor_log2_eqI)
    have q: "(2::real) powi d = real (2 ^ 52) * 2 powi (d - 52)" "(2::real) powi (d + 1) = real (2 ^ 53) * 2 powi (d - 52)"
      using powi2_shift [of "d - 52" 52] powi2_shift [of "d - 52" 53] by (simp_all add: algebra_simps)
    show "2 powi d \<le> real N * 2 powi (d - 52)" unfolding q(1) using Nb(1) by (rule mult_right_mono) simp
    show "real N * 2 powi (d - 52) < 2 powi (d + 1)" unfolding q(2) using Nb(2) by (rule mult_strict_right_mono) simp
  qed
  then show "e = \<lfloor>log 2 \<bar>val64 x\<bar>\<rfloor> + 1" using fe(2) by simp
qed

lemma frexp_some: "\<exists>f e. sf64_frexp x True = (f, Some e)"
  by (simp add: sf64_frexp_def Let_def split_beta)

lemma ldexp_frexp:
  assumes "is_finite_bits x" "\<not> is_zero_bits x" "sf64_frexp x True = (f, Some e)"
  shows "sf64_ldexp f e = x"
proof -
  note f = frexp_sound [OF assms]
  have "sf64_ldexp f e = fst (round64 SF64_RNE False (val64 x) 0)"
    unfolding f(6) by (rule ldexp_sound [OF f(1,2)])
  also have "\<dots> = x" unfolding round64_val64 [OF assms(1,2)] by simp
  finally show ?thesis .
qed

text \<open>
  \<open>sf64_frexp\<close> splits every finite nonzero double, subnormals included, into a fraction of the same
  sign in \<open>[1/2, 1)\<close> and the exponent one above its binary logarithm; the two multiply back to the
  exact value, and \<open>sf64_ldexp\<close> returns the very double \<open>sf64_frexp\<close> was given.
\<close>
theorem frexp_ldexp_roundtrip:
  assumes "is_finite_bits x" "\<not> is_zero_bits x"
  shows "\<exists>f e. sf64_frexp x True = (f, Some e) \<and> sf64_ldexp f e = x \<and> val64 x = val64 f * 2 powi e
    \<and> 1 / 2 \<le> \<bar>val64 f\<bar> \<and> \<bar>val64 f\<bar> < 1 \<and> sgn64 f = sgn64 x \<and> e = \<lfloor>log 2 \<bar>val64 x\<bar>\<rfloor> + 1"
proof -
  obtain f e where f: "sf64_frexp x True = (f, Some e)" using frexp_some by blast
  then show ?thesis using frexp_sound [OF assms f] ldexp_frexp [OF assms f] by blast
qed

lemma frexp_ldexp_roundtrip_witness: "\<exists>f e. sf64_frexp 3 True = (f, Some e) \<and> sf64_ldexp f e = 3"
proof -
  have "is_finite_bits 3" "\<not> is_zero_bits 3" by code_simp+
  from frexp_ldexp_roundtrip [OF this] show ?thesis by blast
qed

lemma ilogb_frexp:
  assumes "is_finite_bits x" "\<not> is_zero_bits x" "sf64_frexp x True = (f, Some e)"
  shows "sf64_ilogb x = e - 1"
proof -
  have "\<not> is_nan_bits x" "\<not> is_inf_bits x" using assms(1,2) by (auto simp: class_iff)
  then show ?thesis using assms(2,3)
    by (auto simp: sf64_frexp_def sf64_ilogb_def Let_def split_exponent_def split: if_splits)
qed

lemma ilogb_sound:
  "sf64_ilogb x =
    (if is_zero_bits x then INT_MIN else if is_finite_bits x then \<lfloor>log 2 \<bar>val64 x\<bar>\<rfloor> else INT_MAX)"
proof (cases "is_finite_bits x \<and> \<not> is_zero_bits x")
  case True
  obtain f e where f: "sf64_frexp x True = (f, Some e)" using frexp_some by blast
  then show ?thesis using True frexp_sound(9) [of x f e] ilogb_frexp [of x f e] by simp
next
  case False
  then show ?thesis by (auto simp: sf64_ilogb_def class_iff)
qed

text \<open>
  \<open>sf64_ilogb\<close> is the floor of the binary logarithm of the magnitude, subnormals included;
  zero gives \<open>INT_MIN\<close>, an infinity or a NaN \<open>INT_MAX\<close>.
\<close>
theorem ilogb_correct:
  "sf64_ilogb x =
    (if is_zero_bits x then INT_MIN else if is_finite_bits x then \<lfloor>log 2 \<bar>val64 x\<bar>\<rfloor> else INT_MAX)"
  by (rule ilogb_sound)

section \<open>Integer and fractional part\<close>

lemma entry_no_flags: "entry_default m t (r, 0) w = (r, w)"
  by (cases m) (simp_all add: entry_default_simps put_tls_def)

lemma entry_sub:
  assumes "\<not> is_nan_bits b \<or> is_nan_bits a"
  shows "sf64_sub snan a b m t w = entry_default m t (ieee_sub SF64_RNE a b 0) w"
  using assms by (simp add: sf64_sub_def internal_sub_rne_eq sub_r_impl_sound)

lemma trunc_rint: "trunc_bits x = sf64_rint_r SF64_RTZ x"
  by (simp add: sf64_rint_r_def sf64_trunc_def)

lemma sign_part: "x AND kSignMask = enc64 (sgn64 x) 0"
proof -
  have b: "bit kSignMask i \<longleftrightarrow> i = 63" for i
    using bit_push_bit_iff [of 63 "1 :: u64" i] by (auto simp: kSignMask_def bit_1_iff)
  have "x AND kSignMask = (if bit x 63 then kSignMask else 0)"
    by (rule bit_eqI) (auto simp: bit_and_iff b)
  moreover have "bit x 63 \<longleftrightarrow> sgn64 x" by (simp add: sgn64_bit)
  ultimately show ?thesis by (simp add: kSignMask_enc zero_enc [symmetric])
qed

lemma fraction_representable:
  assumes fin: "is_finite_bits x"
  shows "\<exists>n < inf64. \<bar>val64 x\<bar> - \<bar>val64 (trunc_bits x)\<bar> = mag_val 52 (- 1074) n"
proof -
  note r = rint_r_sound [OF fin, of SF64_RTZ, folded trunc_rint]
  consider (small) "unat (extract_exp x) < 1023" | (point) M k where "int_point x (unat (extract_exp x)) M k"
    | (large) "1075 \<le> unat (extract_exp x)"
    unfolding int_point_def by force
  then show ?thesis
  proof cases
    case small
    then have "\<bar>val64 (trunc_bits x)\<bar> = 0"
      using rnd_int_below_one [OF abs_ge_zero below_one(1) [OF small], of SF64_RTZ "sgn64 x"] unfolding r by simp
    then show ?thesis using fin unfolding abs_val64 is_finite_bits_iff by auto
  next
    case point
    note kb = ip_kb [OF point] and Mb = ip_Mb [OF point]
    have t: "\<bar>val64 (trunc_bits x)\<bar> = real (M div 2 ^ k)"
      unfolding ip_trunc [OF point] by (rule ip_trunc_encoded [OF point])
    have "real M = real (M div 2 ^ k * 2 ^ k + M mod 2 ^ k)" by (simp only: div_mult_mod_eq)
    then have "real M = real (M div 2 ^ k) * 2 ^ k + real (M mod 2 ^ k)"
      by (simp only: of_nat_add of_nat_mult of_nat_power of_nat_numeral)
    then have d: "\<bar>val64 x\<bar> - \<bar>val64 (trunc_bits x)\<bar> = real (M mod 2 ^ k) * 2 powi (- int k)"
      unfolding t ip_abs_value [OF point] kb(3) by (simp add: power_int_minus field_simps)
    show ?thesis
    proof (cases "M mod 2 ^ k = 0")
      case True
      then show ?thesis unfolding d by (intro exI [of _ 0]) (simp add: inf64_def)
    next
      case False
      have "M mod 2 ^ k \<le> M" by simp
      then have "M mod 2 ^ k < 2 ^ 53" using Mb(2) by linarith
      moreover have "0 < M mod 2 ^ k" "- 1074 \<le> - int k" "- int k \<le> 971" using False kb by simp_all
      ultimately show ?thesis unfolding d using representable by metis
    qed
  next
    case large
    then have "trunc_bits x = x" unfolding trunc_rint by (rule large_rint_r)
    then show ?thesis by (intro exI [of _ 0]) (simp add: inf64_def)
  qed
qed

lemma modf_difference:
  assumes fin: "is_finite_bits x"
  obtains f where "ieee_sub SF64_RNE x (trunc_bits x) 0 = (f, 0)" "val64 f = val64 x - val64 (trunc_bits x)"
    "is_finite_bits f" "is_zero_bits f \<or> sgn64 f = sgn64 x"
proof -
  let ?i = "trunc_bits x"
  note r = rint_r_sound [OF fin, of SF64_RTZ, folded trunc_rint]
  have nn: "\<not> is_nan_bits x" "\<not> is_inf_bits x" "\<not> is_nan_bits ?i" "\<not> is_inf_bits ?i"
    using fin r(1) by (auto simp: class_iff)
  obtain n where n: "n < inf64" "\<bar>val64 x\<bar> - \<bar>val64 ?i\<bar> = mag_val 52 (- 1074) n"
    using fraction_representable [OF fin] by blast
  have n63: "n < 2 ^ 63" using n(1) by (simp add: inf64_def)
  define g where "g = enc64 (sgn64 x) n"
  have g: "val64 g = val64 x - val64 ?i" "is_finite_bits g" "sgn64 g = sgn64 x"
    using n val64_signed [of x] val64_signed [of ?i] r(2)
    by (auto simp: g_def val64_enc64 [OF n63] is_finite_bits_iff mag64_enc64 [OF n63] sgn64_enc64 [OF n63])
  show ?thesis
  proof (cases "is_zero_bits g")
    case True
    then have "val64 x - val64 ?i = 0" using g(1) val64_eq_0_iff [of g] by linarith
    then show ?thesis
      using that nn by (auto simp: ieee_sub_def round64_def val64_enc64 is_finite_bits_iff mag64_enc64 inf64_def is_zero_bits_iff)
  next
    case False
    have "ieee_sub SF64_RNE x ?i 0 = (g, 0)"
      unfolding ieee_sub_def g(1) [symmetric] using nn round64_val64 [OF g(2) False] by simp
    then show ?thesis using that g by blast
  qed
qed

text \<open>
  \<open>sf64_modf\<close> is exact: for a finite input it stores the integer part towards zero and returns a
  fraction below one with the sign of the input (a zero fraction too), the two adding up to the
  input, and it raises no flag in any build mode.
\<close>
theorem modf_exact:
  assumes "is_finite_bits x"
  shows "\<exists>f. sf64_modf snan x True m t w = ((f, Some (sf64_trunc x)), w)
    \<and> val64 f + val64 (sf64_trunc x) = val64 x \<and> \<bar>val64 f\<bar> < 1 \<and> sgn64 f = sgn64 x \<and> sgn64 (sf64_trunc x) = sgn64 x"
proof -
  note r = rint_r_sound [OF assms, of SF64_RTZ, folded trunc_rint]
  have nn: "\<not> is_nan_bits x" "\<not> is_inf_bits x" "\<not> is_nan_bits (trunc_bits x)"
    using assms r(1) by (auto simp: class_iff)
  obtain f where f: "ieee_sub SF64_RNE x (trunc_bits x) 0 = (f, 0)" "val64 f = val64 x - val64 (trunc_bits x)"
    "is_finite_bits f" "is_zero_bits f \<or> sgn64 f = sgn64 x"
    using modf_difference [OF assms] .
  have s: "sf64_sub snan x (trunc_bits x) m t w = (f, w)"
    unfolding entry_sub [OF disjI1, OF nn(3)] f(1) by (rule entry_no_flags)
  define g where "g = (if is_zero_bits f then (f AND NOT kSignMask) OR (x AND kSignMask) else f)"
  have code: "sf64_modf snan x True m t w = ((g, Some (trunc_bits x)), w)"
    using nn by (simp add: sf64_modf_def Let_def s g_def is_zero_bits_def)
  have g: "val64 g = val64 f \<and> sgn64 g = sgn64 x"
  proof (cases "is_zero_bits f")
    case True
    then have "g = enc64 (sgn64 x) 0" by (simp add: g_def is_zero_bits_def sign_part)
    then show ?thesis using True val64_eq_0_iff [of f] by (simp add: val64_enc64 sgn64_enc64)
  next
    case False
    then show ?thesis using f(4) by (simp add: g_def)
  qed
  have "\<bar>val64 (trunc_bits x)\<bar> = \<lfloor>\<bar>val64 x\<bar>\<rfloor>" using r(3) by (simp add: rnd_int_def)
  then have "\<bar>val64 f\<bar> < 1"
    unfolding f(2) using val64_signed [of x] val64_signed [of "trunc_bits x"] r(2) floor_correct [of "val64 x"] floor_correct [of "- val64 x"]
    by (cases "sgn64 x") (simp_all, linarith+)
  then show ?thesis unfolding code sf64_trunc_def using g f(2) r(2) by simp
qed

lemma modf_exact_witness:
  "\<forall>t w. \<exists>f. sf64_modf True 0x400C000000000000 True Fenv_Tls t w = ((f, Some (sf64_trunc 0x400C000000000000)), w)"
proof -
  have "is_finite_bits 0x400C000000000000" by code_simp
  from modf_exact [OF this] show ?thesis by blast
qed

lemma val64_inj_sgn: "val64 a = val64 b \<Longrightarrow> sgn64 a = sgn64 b \<Longrightarrow> a = b"
  unfolding f64_eq_iff by (auto simp: val64_def split: if_splits)

lemma ieee64_positive: "0 < x \<Longrightarrow> fst (ieee64 m False x fe) AND NOT kSignMask = 0 \<Longrightarrow> fst (ieee64 m False x fe) = 0"
proof -
  assume x: "0 < x" and z: "fst (ieee64 m False x fe) AND NOT kSignMask = 0"
  have "fst (ieee_round 52 (- 1074) 2047 m False x) \<le> 2047 * 2 ^ 52" by (rule ieee_round_mag_le [OF x])
  then have b: "fst (ieee_round 52 (- 1074) 2047 m False x) < 2 ^ 63" by (rule order_le_less_trans) simp
  show ?thesis using z
    unfolding is_zero_bits_def [symmetric] is_zero_bits_iff ieee64_def fst_conv mag64_enc64 [OF b] by (simp add: zero_enc [symmetric])
qed

text \<open>
  \<open>sf64_fract\<close> of a finite input is the exact distance to the floor, rounded once to nearest even,
  with the flags of that rounding merged; as the rounding may carry, the result can be \<open>1.0\<close>.
\<close>
theorem fract_correct:
  "(if is_nan_bits x then sf64_fract snan x m t w = (x OR kQuietNaNBit, w)
    else if is_inf_bits x then sf64_fract snan x m t w = (kCanonicalNaN, w)
    else sf64_fract snan x m t w = entry_default m t (round64 SF64_RNE False (frac (val64 x)) 0) w)
   \<and> fst (sf64_fract snan 0xBC30000000000000 m t w) = 0x3FF0000000000000"
proof -
  have val: "sf64_fract snan x m t w = entry_default m t (round64 SF64_RNE False (frac (val64 x)) 0) w"
    if "is_finite_bits x" for x
  proof -
    let ?f = "sf64_floor x"
    have "?f = sf64_rint_r SF64_RDN x" by (simp add: sf64_rint_r_def)
    then have r: "is_finite_bits ?f" "sgn64 ?f = sgn64 x" "val64 ?f = \<lfloor>val64 x\<rfloor>"
      using rint_r_sound [OF that, of SF64_RDN] integer_parts(1) [OF that] by simp_all
    have nn: "\<not> is_nan_bits x" "\<not> is_inf_bits x" "\<not> is_nan_bits ?f" "\<not> is_inf_bits ?f"
      using that r(1) by (auto simp: class_iff)
    have d: "val64 x - val64 ?f = frac (val64 x)" unfolding r(3) frac_def ..
    show ?thesis
    proof (cases "?f = x")
      case True
      then have "frac (val64 x) = 0" using d by simp
      then show ?thesis using True nn by (simp add: sf64_fract_def round64_def zero_enc [symmetric] entry_no_flags)
    next
      case False
      then have nz: "frac (val64 x) \<noteq> 0" using val64_inj_sgn [of ?f x] r(2) d by linarith
      define R where "R = round64 SF64_RNE False (frac (val64 x)) 0"
      have "ieee_sub SF64_RNE x ?f 0 = R" unfolding ieee_sub_def d R_def round64_def using nn nz by simp
      then have s: "sf64_sub snan x ?f m t w = entry_default m t R w"
        unfolding entry_sub [OF disjI1, OF nn(3)] by simp
      have p: "0 < frac (val64 x)" using nz frac_ge_0 [of "val64 x"] by linarith
      have "fst R AND NOT kSignMask = 0 \<Longrightarrow> fst R = 0"
        unfolding R_def round64_pos [OF p] by (rule ieee64_positive [OF p])
      then show ?thesis using False nn
        unfolding sf64_fract_def Let_def s R_def [symmetric] by (simp add: entry_default_def)
    qed
  qed
  have one: "fst (sf64_fract snan 0xBC30000000000000 m t w) = 0x3FF0000000000000"
  proof -
    have a: "\<not> is_nan_bits 0xBC30000000000000" "\<not> is_inf_bits 0xBC30000000000000" "sf64_floor 0xBC30000000000000 = 0xBFF0000000000000"
      by code_simp+
    have b: "fst (sf64_internal_sub_rne snan 0xBC30000000000000 0xBFF0000000000000 0) = 0x3FF0000000000000"
      by (cases snan; simp only:; code_simp)
    have c: "(0x3FF0000000000000 :: u64) AND NOT kSignMask \<noteq> 0" by code_simp
    show ?thesis using a b c by (simp add: sf64_fract_def sf64_sub_def entry_default_def)
  qed
  show ?thesis using val [of x] one by (auto simp: sf64_fract_def canonical_nan_def class_iff)
qed

end
