(* ===== verification/Sf_Convert.thy ===== *)
theory Sf_Convert
  imports Sf_Scale
begin

text \<open>
  \<open>src/convert.cpp\<close> and \<open>logb\<close> of \<open>src/rounding.cpp\<close>: conversions between binary64 and binary32 and
  all integer widths.  An integer is the word of its width, a signed one read with \<open>sint\<close>; the
  integer result of a conversion saturates, and a NaN gives zero.
\<close>

section \<open>The code\<close>

text \<open>
  The block every conversion repeats on a shift of at least one: the kept bits, rounded on the bit
  below them, the bits under that one and the last kept bit; and whether anything was lost.
\<close>

definition guarded_shift :: "u64 \<Rightarrow> int \<Rightarrow> u32 \<Rightarrow> sf64_rounding_mode \<Rightarrow> u64 \<times> bool" where
  "guarded_shift v shift sign mode =
     (let round_pos = push_bit (nat (shift - 1)) 1;
          top = drop_bit (nat shift) v;
          round_bit = (v AND round_pos \<noteq> 0);
          sticky = (2 \<le> shift \<and> v AND (round_pos - 1) \<noteq> 0);
          lsb = (top AND 1 \<noteq> 0)
      in (if sf64_internal_should_round_up sign round_bit sticky lsb mode then top + 1 else top, round_bit \<or> sticky))"

definition u64_magnitude_to_fp64_bits :: "u64 \<Rightarrow> u32 \<Rightarrow> sf64_rounding_mode \<Rightarrow> u32 \<Rightarrow> u64 \<times> u32" where
  "u64_magnitude_to_fp64_bits mg sign mode fe =
     (let lz = clz64 mg;
          msb_pos = 63 - lz;
          e = word_of_int (msb_pos + kExpBias) :: u32
      in if msb_pos \<le> kFracBits then
           (let shift = kFracBits - msb_pos
            in (pack sign e (push_bit (nat shift) mg AND kFracMask), fe))
         else
           let shift = msb_pos - kFracBits;
               (rounded, inexact) = guarded_shift mg shift sign mode;
               fe = (if inexact then fe OR SF64_FE_INEXACT else fe)
           in if rounded AND push_bit (nat (kFracBits + 1)) 1 \<noteq> 0
              then (pack sign (e + 1) 0, fe)
              else (pack sign e (rounded AND kFracMask), fe))"

definition i64_to_fp64 :: "64 word \<Rightarrow> sf64_rounding_mode \<Rightarrow> u32 \<Rightarrow> f64 \<times> u32" where
  "i64_to_fp64 x mode fe =
     (if x = 0 then (0, fe)
      else
        let raw = x;
            sign = ucast (drop_bit 63 raw) :: u32;
            mg = (if sign \<noteq> 0 then 0 - raw else raw)
        in u64_magnitude_to_fp64_bits mg sign mode fe)"

definition u64_to_fp64 :: "u64 \<Rightarrow> sf64_rounding_mode \<Rightarrow> u32 \<Rightarrow> f64 \<times> u32" where
  "u64_to_fp64 x mode fe = (if x = 0 then (0, fe) else u64_magnitude_to_fp64_bits x 0 mode fe)"

text \<open>The magnitude with the two output flags \<open>too_large\<close> and \<open>is_nan\<close>.\<close>

definition fp64_to_u64_magnitude ::
  "f64 \<Rightarrow> u32 \<Rightarrow> sf64_rounding_mode \<Rightarrow> u32 \<Rightarrow> (u64 \<times> bool \<times> bool) \<times> u32" where
  "fp64_to_u64_magnitude x sign mode fe =
     (let ex = extract_exp x; fr = extract_frac x
      in if ex = kExpMax then
           (if fr \<noteq> 0 then ((0, False, True), fe OR SF64_FE_INVALID)
            else ((NOT 0, True, False), fe OR SF64_FE_INVALID))
         else
           let e = uint ex - kExpBias
           in if ex = 0 \<or> e < - 1 then
                (if ex = 0 \<and> fr = 0 then ((0, False, False), fe)
                 else
                   let fe = fe OR SF64_FE_INEXACT
                   in if (mode = SF64_RUP \<and> sign = 0) \<or> (mode = SF64_RDN \<and> sign \<noteq> 0)
                      then ((1, False, False), fe) else ((0, False, False), fe))
              else
                let mant = fr OR kImplicitBit
                in if e = - 1 then
                     (let fe = fe OR SF64_FE_INEXACT
                      in if sf64_internal_should_round_up sign True (fr \<noteq> 0) False mode
                         then ((1, False, False), fe) else ((0, False, False), fe))
                   else if 63 < e then ((NOT 0, True, False), fe OR SF64_FE_INVALID)
                   else if kFracBits \<le> e then ((push_bit (nat (e - kFracBits)) mant, False, False), fe)
                   else
                     let shift = kFracBits - e;
                         trunc = drop_bit (nat shift) mant;
                         round_pos = push_bit (nat (shift - 1)) 1;
                         round_bit = (mant AND round_pos \<noteq> 0);
                         sticky = (2 \<le> shift \<and> mant AND (round_pos - 1) \<noteq> 0);
                         lsb = (trunc AND 1 \<noteq> 0);
                         fe = (if round_bit \<or> sticky then fe OR SF64_FE_INEXACT else fe)
                     in if sf64_internal_should_round_up sign round_bit sticky lsb mode then
                          (if trunc + 1 = 0 then ((NOT 0, True, False), fe OR SF64_FE_INVALID)
                           else ((trunc + 1, False, False), fe))
                        else ((trunc, False, False), fe))"

definition INT64_MIN :: "64 word" where "INT64_MIN = push_bit 63 1"

definition fp64_to_signed ::
  "f64 \<Rightarrow> 64 word \<Rightarrow> 64 word \<Rightarrow> sf64_rounding_mode \<Rightarrow> u32 \<Rightarrow> 64 word \<times> u32" where
  "fp64_to_signed x imin imax mode fe =
     (let sign = extract_sign x;
          ((mg, too_large, is_nan), fe) = fp64_to_u64_magnitude x sign mode fe
      in if is_nan then (0, fe)
         else if too_large then (if sign \<noteq> 0 then imin else imax, fe)
         else if sign \<noteq> 0 then
           (let neg_cap = (if imin = INT64_MIN then push_bit 63 1 else - imin)
            in if neg_cap < mg then (imin, fe OR SF64_FE_INVALID)
               else if mg = push_bit 63 1 then (INT64_MIN, fe)
               else (- mg, fe))
         else
           let pos_cap = imax
           in if pos_cap < mg then (imax, fe OR SF64_FE_INVALID) else (mg, fe))"

definition fp64_to_unsigned :: "f64 \<Rightarrow> u64 \<Rightarrow> sf64_rounding_mode \<Rightarrow> u32 \<Rightarrow> u64 \<times> u32" where
  "fp64_to_unsigned x umax mode fe =
     (let sign = extract_sign x;
          ((mg, too_large, is_nan), fe) = fp64_to_u64_magnitude x sign mode fe
      in if is_nan then (0, fe)
         else if sign \<noteq> 0 then (0, if mg \<noteq> 0 then fe OR SF64_FE_INVALID else fe)
         else if too_large then (umax, fe)
         else if umax < mg then (umax, fe OR SF64_FE_INVALID)
         else (mg, fe))"

definition from_f32_impl :: "f32 \<Rightarrow> u32 \<Rightarrow> f64 \<times> u32" where
  "from_f32_impl x fe =
     (let sign = drop_bit 31 x AND 1; exp32 = drop_bit 23 x AND 0xFF; frac32 = x AND 0x7FFFFF
      in if exp32 = 0 then
           (if frac32 = 0 then (push_bit 63 (ucast sign), fe)
            else
              let lz = clz32 frac32;
                  p = 31 - lz;
                  f64_exp = word_of_int (905 - lz);
                  left = 52 - p;
                  f64_frac = push_bit (nat left) (ucast frac32) AND kFracMask
              in (pack sign f64_exp f64_frac, fe))
         else if exp32 = 0xFF then
           (if frac32 = 0 then (pack sign kExpMax 0, fe)
            else
              let fe = (if frac32 AND push_bit 22 1 = 0 then fe OR SF64_FE_INVALID else fe);
                  payload = push_bit 29 (ucast frac32)
              in (pack sign kExpMax (payload OR kQuietNaNBit), fe))
         else (pack sign (exp32 + word_of_int (kExpBias - 127)) (push_bit 29 (ucast frac32)), fe))"

definition f32_overflow_bits :: "u32 \<Rightarrow> sf64_rounding_mode \<Rightarrow> u32" where
  "f32_overflow_bits sign mode =
     (let inf_bits = push_bit 31 sign OR push_bit 23 0xFF
      in case mode of
           SF64_RTZ \<Rightarrow> push_bit 31 sign OR 0x7F7FFFFF
         | SF64_RUP \<Rightarrow> (if sign = 0 then inf_bits else 0x80000000 OR 0x7F7FFFFF)
         | SF64_RDN \<Rightarrow> (if sign \<noteq> 0 then inf_bits else 0x7F7FFFFF)
         | SF64_RNE \<Rightarrow> inf_bits
         | SF64_RNA \<Rightarrow> inf_bits)"

text \<open>A nonzero input below half the smallest subnormal, on either of the two paths that meet it.\<close>

definition f32_tiny :: "u32 \<Rightarrow> sf64_rounding_mode \<Rightarrow> u32 \<Rightarrow> f32 \<times> u32" where
  "f32_tiny sign mode fe =
     (let fe = fe OR (SF64_FE_UNDERFLOW OR SF64_FE_INEXACT)
      in if (mode = SF64_RUP \<and> sign = 0) \<or> (mode = SF64_RDN \<and> sign \<noteq> 0)
         then (push_bit 31 sign OR 1, fe) else (push_bit 31 sign, fe))"

definition to_f32_impl :: "f64 \<Rightarrow> sf64_rounding_mode \<Rightarrow> u32 \<Rightarrow> f32 \<times> u32" where
  "to_f32_impl x mode fe =
     (let sign = extract_sign x; exp64 = extract_exp x; frac64 = extract_frac x
      in if exp64 = kExpMax then
           (if frac64 = 0 then (push_bit 31 sign OR push_bit 23 0xFF, fe)
            else
              let fe = (if is_snan_bits x then fe OR SF64_FE_INVALID else fe);
                  payload = ucast (drop_bit 29 frac64) AND 0x7FFFFF
              in (push_bit 31 sign OR push_bit 23 0xFF OR payload OR 0x400000, fe))
         else if exp64 = 0 then
           (if frac64 = 0 then (push_bit 31 sign, fe) else f32_tiny sign mode fe)
         else
           let unbiased = uint exp64 - kExpBias;
               new_exp = unbiased + 127
           in if 0xFF \<le> new_exp then (f32_overflow_bits sign mode, fe OR (SF64_FE_OVERFLOW OR SF64_FE_INEXACT))
              else
                let mant = frac64 OR kImplicitBit
                in if 0 < new_exp then
                     (let (rounded, inexact) = guarded_shift mant 29 sign mode;
                          exp_out = word_of_int new_exp :: u32
                      in if rounded AND push_bit 24 1 \<noteq> 0 then
                           (let exp_out = exp_out + 1
                            in if 0xFF \<le> exp_out
                               then (f32_overflow_bits sign mode, fe OR (SF64_FE_OVERFLOW OR SF64_FE_INEXACT))
                               else (push_bit 31 sign OR push_bit 23 exp_out OR 0, if inexact then fe OR SF64_FE_INEXACT else fe))
                         else (push_bit 31 sign OR push_bit 23 exp_out OR (ucast rounded AND 0x7FFFFF),
                               if inexact then fe OR SF64_FE_INEXACT else fe))
                   else
                     let shift = 30 - new_exp
                     in if 53 < shift then (if mant = 0 then (push_bit 31 sign, fe) else f32_tiny sign mode fe)
                        else
                          let (rounded, inexact) = guarded_shift mant shift sign mode;
                              fe = (if inexact then fe OR (SF64_FE_UNDERFLOW OR SF64_FE_INEXACT) else fe)
                          in if rounded AND push_bit 23 1 \<noteq> 0
                             then (push_bit 31 sign OR push_bit 23 1, fe)
                             else (push_bit 31 sign OR (ucast rounded AND 0x7FFFFF), fe))"

section \<open>The entries\<close>

definition sf64_from_f32 :: "f32 \<Rightarrow> f64 entry" where
  "sf64_from_f32 x m t = entry_default m t (from_f32_impl x 0)"

definition sf64_from_f32_ex :: "f32 \<Rightarrow> state_ptr \<Rightarrow> f64 entry" where
  "sf64_from_f32_ex x state m t = entry_ex m t state (from_f32_impl x 0)"

definition sf64_to_f32 :: "f64 \<Rightarrow> f32 entry" where
  "sf64_to_f32 x m t = entry_default m t (to_f32_impl x SF64_RNE 0)"

definition sf64_to_f32_r :: "sf64_rounding_mode \<Rightarrow> f64 \<Rightarrow> f32 entry" where
  "sf64_to_f32_r mode x m t = entry_default m t (to_f32_impl x mode 0)"

definition sf64_to_f32_ex :: "f64 \<Rightarrow> state_ptr \<Rightarrow> f32 entry" where
  "sf64_to_f32_ex x state m t = entry_ex m t state (to_f32_impl x SF64_RNE 0)"

definition sf64_to_f32_r_ex :: "sf64_rounding_mode \<Rightarrow> f64 \<Rightarrow> state_ptr \<Rightarrow> f32 entry" where
  "sf64_to_f32_r_ex mode x state m t = entry_ex m t state (to_f32_impl x mode 0)"

definition sf64_from_i8 :: "8 word \<Rightarrow> f64 entry" where
  "sf64_from_i8 x m t = entry_default m t (i64_to_fp64 (scast x) SF64_RNE 0)"

definition sf64_from_i16 :: "16 word \<Rightarrow> f64 entry" where
  "sf64_from_i16 x m t = entry_default m t (i64_to_fp64 (scast x) SF64_RNE 0)"

definition sf64_from_i32 :: "32 word \<Rightarrow> f64 entry" where
  "sf64_from_i32 x m t = entry_default m t (i64_to_fp64 (scast x) SF64_RNE 0)"

definition sf64_from_i64 :: "64 word \<Rightarrow> f64 entry" where
  "sf64_from_i64 x m t = entry_default m t (i64_to_fp64 x SF64_RNE 0)"

definition sf64_from_u8 :: "8 word \<Rightarrow> f64 entry" where
  "sf64_from_u8 x m t = entry_default m t (u64_to_fp64 (ucast x) SF64_RNE 0)"

definition sf64_from_u16 :: "16 word \<Rightarrow> f64 entry" where
  "sf64_from_u16 x m t = entry_default m t (u64_to_fp64 (ucast x) SF64_RNE 0)"

definition sf64_from_u32 :: "32 word \<Rightarrow> f64 entry" where
  "sf64_from_u32 x m t = entry_default m t (u64_to_fp64 (ucast x) SF64_RNE 0)"

definition sf64_from_u64 :: "64 word \<Rightarrow> f64 entry" where
  "sf64_from_u64 x m t = entry_default m t (u64_to_fp64 x SF64_RNE 0)"

definition sf64_from_i8_ex :: "8 word \<Rightarrow> state_ptr \<Rightarrow> f64 entry" where
  "sf64_from_i8_ex x state m t = entry_ex m t state (i64_to_fp64 (scast x) SF64_RNE 0)"

definition sf64_from_i16_ex :: "16 word \<Rightarrow> state_ptr \<Rightarrow> f64 entry" where
  "sf64_from_i16_ex x state m t = entry_ex m t state (i64_to_fp64 (scast x) SF64_RNE 0)"

definition sf64_from_i32_ex :: "32 word \<Rightarrow> state_ptr \<Rightarrow> f64 entry" where
  "sf64_from_i32_ex x state m t = entry_ex m t state (i64_to_fp64 (scast x) SF64_RNE 0)"

definition sf64_from_i64_ex :: "64 word \<Rightarrow> state_ptr \<Rightarrow> f64 entry" where
  "sf64_from_i64_ex x state m t = entry_ex m t state (i64_to_fp64 x SF64_RNE 0)"

definition sf64_from_u8_ex :: "8 word \<Rightarrow> state_ptr \<Rightarrow> f64 entry" where
  "sf64_from_u8_ex x state m t = entry_ex m t state (u64_to_fp64 (ucast x) SF64_RNE 0)"

definition sf64_from_u16_ex :: "16 word \<Rightarrow> state_ptr \<Rightarrow> f64 entry" where
  "sf64_from_u16_ex x state m t = entry_ex m t state (u64_to_fp64 (ucast x) SF64_RNE 0)"

definition sf64_from_u32_ex :: "32 word \<Rightarrow> state_ptr \<Rightarrow> f64 entry" where
  "sf64_from_u32_ex x state m t = entry_ex m t state (u64_to_fp64 (ucast x) SF64_RNE 0)"

definition sf64_from_u64_ex :: "64 word \<Rightarrow> state_ptr \<Rightarrow> f64 entry" where
  "sf64_from_u64_ex x state m t = entry_ex m t state (u64_to_fp64 x SF64_RNE 0)"

definition sf64_to_i8 :: "f64 \<Rightarrow> 8 word entry" where
  "sf64_to_i8 x m t = entry_default m t (map_prod ucast id (fp64_to_signed x (- 0x80) 0x7F SF64_RTZ 0))"

definition sf64_to_i16 :: "f64 \<Rightarrow> 16 word entry" where
  "sf64_to_i16 x m t = entry_default m t (map_prod ucast id (fp64_to_signed x (- 0x8000) 0x7FFF SF64_RTZ 0))"

definition sf64_to_i32 :: "f64 \<Rightarrow> 32 word entry" where
  "sf64_to_i32 x m t = entry_default m t (map_prod ucast id (fp64_to_signed x (- 0x80000000) 0x7FFFFFFF SF64_RTZ 0))"

definition sf64_to_i64 :: "f64 \<Rightarrow> 64 word entry" where
  "sf64_to_i64 x m t = entry_default m t (fp64_to_signed x INT64_MIN 0x7FFFFFFFFFFFFFFF SF64_RTZ 0)"

definition sf64_to_u8 :: "f64 \<Rightarrow> 8 word entry" where
  "sf64_to_u8 x m t = entry_default m t (map_prod ucast id (fp64_to_unsigned x 0xFF SF64_RTZ 0))"

definition sf64_to_u16 :: "f64 \<Rightarrow> 16 word entry" where
  "sf64_to_u16 x m t = entry_default m t (map_prod ucast id (fp64_to_unsigned x 0xFFFF SF64_RTZ 0))"

definition sf64_to_u32 :: "f64 \<Rightarrow> 32 word entry" where
  "sf64_to_u32 x m t = entry_default m t (map_prod ucast id (fp64_to_unsigned x 0xFFFFFFFF SF64_RTZ 0))"

definition sf64_to_u64 :: "f64 \<Rightarrow> 64 word entry" where
  "sf64_to_u64 x m t = entry_default m t (fp64_to_unsigned x 0xFFFFFFFFFFFFFFFF SF64_RTZ 0)"

definition sf64_to_i8_r :: "sf64_rounding_mode \<Rightarrow> f64 \<Rightarrow> 8 word entry" where
  "sf64_to_i8_r mode x m t = entry_default m t (map_prod ucast id (fp64_to_signed x (- 0x80) 0x7F mode 0))"

definition sf64_to_i16_r :: "sf64_rounding_mode \<Rightarrow> f64 \<Rightarrow> 16 word entry" where
  "sf64_to_i16_r mode x m t = entry_default m t (map_prod ucast id (fp64_to_signed x (- 0x8000) 0x7FFF mode 0))"

definition sf64_to_i32_r :: "sf64_rounding_mode \<Rightarrow> f64 \<Rightarrow> 32 word entry" where
  "sf64_to_i32_r mode x m t = entry_default m t (map_prod ucast id (fp64_to_signed x (- 0x80000000) 0x7FFFFFFF mode 0))"

definition sf64_to_i64_r :: "sf64_rounding_mode \<Rightarrow> f64 \<Rightarrow> 64 word entry" where
  "sf64_to_i64_r mode x m t = entry_default m t (fp64_to_signed x INT64_MIN 0x7FFFFFFFFFFFFFFF mode 0)"

definition sf64_to_u8_r :: "sf64_rounding_mode \<Rightarrow> f64 \<Rightarrow> 8 word entry" where
  "sf64_to_u8_r mode x m t = entry_default m t (map_prod ucast id (fp64_to_unsigned x 0xFF mode 0))"

definition sf64_to_u16_r :: "sf64_rounding_mode \<Rightarrow> f64 \<Rightarrow> 16 word entry" where
  "sf64_to_u16_r mode x m t = entry_default m t (map_prod ucast id (fp64_to_unsigned x 0xFFFF mode 0))"

definition sf64_to_u32_r :: "sf64_rounding_mode \<Rightarrow> f64 \<Rightarrow> 32 word entry" where
  "sf64_to_u32_r mode x m t = entry_default m t (map_prod ucast id (fp64_to_unsigned x 0xFFFFFFFF mode 0))"

definition sf64_to_u64_r :: "sf64_rounding_mode \<Rightarrow> f64 \<Rightarrow> 64 word entry" where
  "sf64_to_u64_r mode x m t = entry_default m t (fp64_to_unsigned x 0xFFFFFFFFFFFFFFFF mode 0)"

definition sf64_to_i8_ex :: "f64 \<Rightarrow> state_ptr \<Rightarrow> 8 word entry" where
  "sf64_to_i8_ex x state m t = entry_ex m t state (map_prod ucast id (fp64_to_signed x (- 0x80) 0x7F SF64_RTZ 0))"

definition sf64_to_i16_ex :: "f64 \<Rightarrow> state_ptr \<Rightarrow> 16 word entry" where
  "sf64_to_i16_ex x state m t = entry_ex m t state (map_prod ucast id (fp64_to_signed x (- 0x8000) 0x7FFF SF64_RTZ 0))"

definition sf64_to_i32_ex :: "f64 \<Rightarrow> state_ptr \<Rightarrow> 32 word entry" where
  "sf64_to_i32_ex x state m t = entry_ex m t state (map_prod ucast id (fp64_to_signed x (- 0x80000000) 0x7FFFFFFF SF64_RTZ 0))"

definition sf64_to_i64_ex :: "f64 \<Rightarrow> state_ptr \<Rightarrow> 64 word entry" where
  "sf64_to_i64_ex x state m t = entry_ex m t state (fp64_to_signed x INT64_MIN 0x7FFFFFFFFFFFFFFF SF64_RTZ 0)"

definition sf64_to_u8_ex :: "f64 \<Rightarrow> state_ptr \<Rightarrow> 8 word entry" where
  "sf64_to_u8_ex x state m t = entry_ex m t state (map_prod ucast id (fp64_to_unsigned x 0xFF SF64_RTZ 0))"

definition sf64_to_u16_ex :: "f64 \<Rightarrow> state_ptr \<Rightarrow> 16 word entry" where
  "sf64_to_u16_ex x state m t = entry_ex m t state (map_prod ucast id (fp64_to_unsigned x 0xFFFF SF64_RTZ 0))"

definition sf64_to_u32_ex :: "f64 \<Rightarrow> state_ptr \<Rightarrow> 32 word entry" where
  "sf64_to_u32_ex x state m t = entry_ex m t state (map_prod ucast id (fp64_to_unsigned x 0xFFFFFFFF SF64_RTZ 0))"

definition sf64_to_u64_ex :: "f64 \<Rightarrow> state_ptr \<Rightarrow> 64 word entry" where
  "sf64_to_u64_ex x state m t = entry_ex m t state (fp64_to_unsigned x 0xFFFFFFFFFFFFFFFF SF64_RTZ 0)"

definition sf64_to_i8_r_ex :: "sf64_rounding_mode \<Rightarrow> f64 \<Rightarrow> state_ptr \<Rightarrow> 8 word entry" where
  "sf64_to_i8_r_ex mode x state m t = entry_ex m t state (map_prod ucast id (fp64_to_signed x (- 0x80) 0x7F mode 0))"

definition sf64_to_i16_r_ex :: "sf64_rounding_mode \<Rightarrow> f64 \<Rightarrow> state_ptr \<Rightarrow> 16 word entry" where
  "sf64_to_i16_r_ex mode x state m t = entry_ex m t state (map_prod ucast id (fp64_to_signed x (- 0x8000) 0x7FFF mode 0))"

definition sf64_to_i32_r_ex :: "sf64_rounding_mode \<Rightarrow> f64 \<Rightarrow> state_ptr \<Rightarrow> 32 word entry" where
  "sf64_to_i32_r_ex mode x state m t = entry_ex m t state (map_prod ucast id (fp64_to_signed x (- 0x80000000) 0x7FFFFFFF mode 0))"

definition sf64_to_i64_r_ex :: "sf64_rounding_mode \<Rightarrow> f64 \<Rightarrow> state_ptr \<Rightarrow> 64 word entry" where
  "sf64_to_i64_r_ex mode x state m t = entry_ex m t state (fp64_to_signed x INT64_MIN 0x7FFFFFFFFFFFFFFF mode 0)"

definition sf64_to_u8_r_ex :: "sf64_rounding_mode \<Rightarrow> f64 \<Rightarrow> state_ptr \<Rightarrow> 8 word entry" where
  "sf64_to_u8_r_ex mode x state m t = entry_ex m t state (map_prod ucast id (fp64_to_unsigned x 0xFF mode 0))"

definition sf64_to_u16_r_ex :: "sf64_rounding_mode \<Rightarrow> f64 \<Rightarrow> state_ptr \<Rightarrow> 16 word entry" where
  "sf64_to_u16_r_ex mode x state m t = entry_ex m t state (map_prod ucast id (fp64_to_unsigned x 0xFFFF mode 0))"

definition sf64_to_u32_r_ex :: "sf64_rounding_mode \<Rightarrow> f64 \<Rightarrow> state_ptr \<Rightarrow> 32 word entry" where
  "sf64_to_u32_r_ex mode x state m t = entry_ex m t state (map_prod ucast id (fp64_to_unsigned x 0xFFFFFFFF mode 0))"

definition sf64_to_u64_r_ex :: "sf64_rounding_mode \<Rightarrow> f64 \<Rightarrow> state_ptr \<Rightarrow> 64 word entry" where
  "sf64_to_u64_r_ex mode x state m t = entry_ex m t state (fp64_to_unsigned x 0xFFFFFFFFFFFFFFFF mode 0)"

definition sf64_logb :: "f64 \<Rightarrow> f64 entry" where
  "sf64_logb x m t w =
     (if is_nan_bits x then (x OR kQuietNaNBit, w)
      else if is_zero_bits x then (kNegativeInf, w)
      else if is_inf_bits x then (kPositiveInf, w)
      else sf64_from_i32 (word_of_int (sf64_ilogb x)) m t w)"

section \<open>The shared rounding block\<close>

lemma guarded_shift_correct:
  assumes v: "unat v = N" and r: "1 \<le> r"
  shows "unat (fst (guarded_shift v (int r) s m)) = round_bits m (s \<noteq> 0) (r - 1) N"
    "snd (guarded_shift v (int r) s m) \<longleftrightarrow> N mod 2 ^ r \<noteq> 0"
proof -
  obtain q where rq: "r = Suc q" using r by (cases r) simp_all
  have rb: "v AND push_bit q 1 \<noteq> 0 \<longleftrightarrow> odd (N div 2 ^ q)" unfolding single_bit_test v ..
  have st: "(2 \<le> int r \<and> v AND (push_bit q 1 - 1) \<noteq> 0) \<longleftrightarrow> N mod 2 ^ q \<noteq> 0"
    unfolding mask_pow and_mask_neq_0 v rq by (cases q) simp_all
  have lsb: "drop_bit r v AND 1 \<noteq> 0 \<longleftrightarrow> odd (N div 2 ^ r)" unfolding and_1_neq_0_iff unat_drop_bit v ..
  have q: "nat (int r - 1) = q" "nat (int r) = r" "Suc (r - 1) = r" "r - 1 = q" unfolding rq by simp_all
  have "N < 2 ^ 64" using unat_lt64 [of v] v by simp
  then have "N div 2 < 2 ^ 63" by (simp add: div_less_iff_less_mult)
  moreover have "N div 2 ^ r \<le> N div 2" unfolding rq by (rule div_le_mono2) simp_all
  ultimately have "N div 2 ^ r < 2 ^ 63" by (rule order_le_less_trans [rotated])
  then have inc: "unat (drop_bit r v + 1) = N div 2 ^ r + 1"
    using unat_add_lt [of "drop_bit r v" 1] by (simp add: unat_drop_bit v)
  show "unat (fst (guarded_shift v (int r) s m)) = round_bits m (s \<noteq> 0) (r - 1) N"
    unfolding guarded_shift_def Let_def q rb st lsb should_round_up_eq round_bits_def fst_conv rq [symmetric]
    using inc by (simp add: unat_drop_bit v)
  have "N mod 2 ^ r = N mod 2 ^ q + 2 ^ q * (N div 2 ^ q mod 2)"
    using mod_split [of N q 1] by (simp add: rq)
  then show "snd (guarded_shift v (int r) s m) \<longleftrightarrow> N mod 2 ^ r \<noteq> 0"
    unfolding guarded_shift_def Let_def q rb st snd_conv by (auto simp: odd_iff_mod_2_eq_one)
qed

lemma round_bits_le64: "round_bits m s k N \<le> N div 2 ^ Suc k + 1"
  by (simp add: round_bits_def)

section \<open>Integers to binary64\<close>

lemma pack_carry:
  assumes s: "s = 0 \<or> s = 1" and r: "unat r = K" "2 ^ 52 \<le> K" "K \<le> 2 ^ 53" and e: "0 \<le> e" "e < 2047"
  shows "(if r AND push_bit 53 1 \<noteq> 0 then (pack s (word_of_int e + 1) 0, fe) else (pack s (word_of_int e) (r AND kFracMask), fe))
    = (enc64 (s \<noteq> 0) (nat e * 2 ^ 52 + K - 2 ^ 52), fe)"
proof -
  have b: "r AND push_bit 53 1 \<noteq> 0 \<longleftrightarrow> K = 2 ^ 53"
    unfolding single_bit_test r(1) using r(3) top_bit_iff [of K 53] by auto
  have e1: "word_of_int e + 1 = (word_of_int (e + 1) :: u32)" by simp
  show ?thesis
  proof (cases "K = 2 ^ 53")
    case True
    have "nat (e + 1) = nat e + 1" using e by simp
    then show ?thesis using True b pack_nat [OF s, of "e + 1" 0] e unfolding e1 by simp
  next
    case False
    then have "unat (r AND kFracMask) mod 2 ^ 52 = K - 2 ^ 52"
      using r unfolding field_masks unat_and_mask r(1) by (simp add: mod_if [of K])
    then show ?thesis using False b pack_nat [OF s e(1), of "r AND kFracMask"] e r(2) by simp
  qed
qed

lemma u64_magnitude_correct:
  assumes s: "s = 0 \<or> s = 1" and mg: "mg \<noteq> 0"
  shows "u64_magnitude_to_fp64_bits mg s m fe = ieee64 m (s \<noteq> 0) (real (unat mg)) fe"
proof -
  define N where "N = unat mg"
  define k where "k = nat (63 - clz64 mg)"
  note bin = clz64_binade [OF mg, folded N_def k_def]
  have k: "63 - clz64 mg = int k" "k < 64" using bin(3,4) by (simp_all add: k_def)
  define T where "T = (if 1 \<le> 0 + int k + 1023 then int k - 52 else - 1074 - 0)"
  define S' where "S' = (if 1 \<le> T then N else N * 2 ^ nat (1 - T))"
  define j where "j = nat (T - 1)"
  define d where "d = nat (0 + int k + 1022)"
  have x: "real N = real N * 2 powi 0" by simp
  note cell = fma_frame_cell [OF bin(1,2) same_cell_refl disjI2 x, OF refl, folded T_def, folded S'_def, folded j_def d_def]
  note spec = ieee64_cell [OF cell(1,3,4), of m "s \<noteq> 0" fe]
  have d: "d = k + 1022" by (simp add: d_def)
  have T: "T = int k - 52" by (simp add: T_def)
  have big: "\<not> real N < 2 powi (- 1022)"
  proof -
    have "(1::nat) \<le> 2 ^ k" by simp
    then have "1 \<le> N" using bin(1) by (rule order_trans)
    moreover have "(2::real) powi (- 1022) \<le> 2 powi 0" by (rule powi2_mono) simp
    ultimately show ?thesis by simp
  qed
  have nov: "\<not> 2047 * 2 ^ 52 \<le> d * 2 ^ 52 + K" if "K \<le> 2 ^ 53" for K
  proof -
    have "d * 2 ^ 52 \<le> 1085 * 2 ^ 52" using k(2) unfolding d by (intro mult_right_mono) simp_all
    then show ?thesis using that by simp
  qed
  have e: "0 \<le> int k + 1023" "int k + 1023 < 2047" using k(2) by simp_all
  have de: "nat (int k + 1023) * 2 ^ 52 + K - 2 ^ 52 = d * 2 ^ 52 + K" for K :: nat
  proof -
    have "nat (int k + 1023) = Suc d" by (simp add: d)
    then show ?thesis by simp
  qed
  note code = u64_magnitude_to_fp64_bits_def [of mg s m fe, unfolded Let_def k(1) kExpBias_def kFracBits_def]
  show ?thesis
  proof (cases "k \<le> 52")
    case True
    then have "nat (1 - T) = Suc (52 - k)" by (simp add: T)
    then have S': "S' = N * 2 ^ (52 - k) * 2 ^ Suc 0" and j: "j = 0" using True
      by (simp_all add: S'_def T j_def)
    have K: "round_bits m (s \<noteq> 0) j S' = N * 2 ^ (52 - k)" unfolding S' j by (subst round_bits_exact) simp_all
    have p: "2 ^ k * 2 ^ (52 - k) = (2::nat) ^ 52" "2 ^ Suc k * 2 ^ (52 - k) = (2::nat) ^ 53"
      unfolding power_add [symmetric] using True by simp_all
    have "2 ^ 52 \<le> N * 2 ^ (52 - k)" unfolding p(1) [symmetric] using bin(1) by (rule mult_right_mono) simp
    moreover have "N * 2 ^ (52 - k) < 2 ^ 53" unfolding p(2) [symmetric] using bin(2) by (rule mult_strict_right_mono) simp
    ultimately have Kb: "2 ^ 52 \<le> N * 2 ^ (52 - k)" "N * 2 ^ (52 - k) < 2 ^ 53" .
    have sh: "unat (push_bit (52 - k) mg) = N * 2 ^ (52 - k)"
      using Kb unfolding N_def by (intro unat_push_bit_lt) simp
    have nb: "\<not> push_bit (52 - k) mg AND push_bit 53 1 \<noteq> 0"
      unfolding single_bit_test sh using Kb(2) top_bit_iff [of "N * 2 ^ (52 - k)" 53] by simp
    have n: "nat (52 - int k) = 52 - k" "int k \<le> 52" using True by simp_all
    have ex: "S' mod 2 ^ Suc j = 0" unfolding S' j by simp
    have "u64_magnitude_to_fp64_bits mg s m fe = (pack s (word_of_int (int k + 1023)) (push_bit (52 - k) mg AND kFracMask), fe)"
      unfolding code n(1) if_P [OF n(2)] ..
    also have "\<dots> = (enc64 (s \<noteq> 0) (d * 2 ^ 52 + N * 2 ^ (52 - k)), fe)"
      using pack_carry [OF s sh Kb(1) less_imp_le [OF Kb(2)] e, of fe] unfolding if_not_P [OF nb] de .
    finally show ?thesis
      unfolding N_def [symmetric] spec K if_not_P [OF nov [OF less_imp_le [OF Kb(2)]]] if_P [OF ex] by simp
  next
    case False
    then have n: "int k - 52 = int (k - 52)" "\<not> int k \<le> 52" "1 \<le> k - 52" by simp_all
    have S': "S' = N" and j: "j = k - 52 - 1" using False by (simp_all add: S'_def T j_def)
    have js: "Suc j = k - 52" using n(3) unfolding j by simp
    define R where "R = guarded_shift mg (int (k - 52)) s m"
    note R = guarded_shift_correct [OF N_def [symmetric] n(3), of s m, folded R_def j]
    have "k = 52 + Suc j" using False by (simp add: js)
    then have Kb: "2 ^ 52 \<le> round_bits m (s \<noteq> 0) j N" "round_bits m (s \<noteq> 0) j N \<le> 2 ^ 53"
      using round_bits_ge [of 52 j N m "s \<noteq> 0"] round_bits_le [of N 53 j m "s \<noteq> 0"] bin(1,2) by simp_all
    have c: "u64_magnitude_to_fp64_bits mg s m fe =
      (if fst R AND push_bit 53 1 \<noteq> 0 then (pack s (word_of_int (int k + 1023) + 1) 0, if snd R then fe OR SF64_FE_INEXACT else fe)
       else (pack s (word_of_int (int k + 1023)) (fst R AND kFracMask), if snd R then fe OR SF64_FE_INEXACT else fe))"
      unfolding code n(1) if_not_P [OF n(2)] R_def [symmetric] by (simp add: split_beta)
    show ?thesis
      unfolding c pack_carry [OF s R(1) Kb e] de R(2) N_def [symmetric] spec S' js if_not_P [OF nov [OF Kb(2)]] using big by simp
  qed
qed

lemma real_unat_pos: "x \<noteq> 0 \<Longrightarrow> 0 < real (unat x)" for x :: "'a::len word"
  by (rule of_nat_0_less_iff [THEN iffD2]) (simp add: unat_gt_0)

lemma u64_to_fp64_sound: "u64_to_fp64 x m fe = round64 m False (real (unat x)) fe"
proof (cases "x = 0")
  case True
  then show ?thesis by (simp add: u64_to_fp64_def round64_def zero_enc [symmetric])
next
  case False
  show ?thesis unfolding round64_pos [OF real_unat_pos [OF False]] u64_to_fp64_def
    using False u64_magnitude_correct [of 0 x m fe] by simp
qed

lemma top_bit_word: "ucast (drop_bit 63 x) = (of_bool (sgn64 x) :: u32)" for x :: u64
proof (rule word_eq_unatI)
  have "unat x div 2 ^ 63 = of_bool (sgn64 x)"
    using mag64_less [of x] unfolding unat_split64 [of x] by simp
  then show "unat (ucast (drop_bit 63 x) :: u32) = unat (of_bool (sgn64 x) :: u32)"
    by (simp add: unat_ucast unat_drop_bit)
qed

lemma sint_negative:
  assumes "sgn64 x" shows "sint x = - int (unat (0 - x))" "0 - x \<noteq> 0"
proof -
  have w: "unat x = 2 ^ 63 + mag64 x" using assms by (simp add: unat_split64 [of x])
  then have nz: "x \<noteq> 0" by auto
  then show "0 - x \<noteq> 0" by simp
  have "0 - x = word_of_nat (2 ^ 64 - unat x)"
    using unat_lt64 [of x] by (subst of_nat_diff) simp_all
  then have "unat (0 - x) = (2 ^ 64 - unat x) mod 2 ^ 64" by (simp only: unat_of_nat word_size len_of_numeral_defs) simp
  then have "unat (0 - x) = 2 ^ 64 - unat x" using w by simp
  then have "unat (0 - x) + mag64 x = 2 ^ 63" using mag64_less [of x] unfolding w by simp
  from arg_cong [OF this, of int] have "int (unat (0 - x)) + int (mag64 x) = 2 ^ 63"
    by (simp only: of_nat_add of_nat_power of_nat_numeral)
  then have "int (mag64 x) - 2 ^ 63 = - int (unat (0 - x))" by linarith
  then show "sint x = - int (unat (0 - x))" unfolding sint64 [of x] if_P [OF assms] .
qed

lemma sint_nonneg: "\<not> sgn64 x \<Longrightarrow> sint x = int (unat x)" for x :: u64
  using sint64 [of x] unat_split64 [of x] by simp

lemma i64_to_fp64_sound: "i64_to_fp64 x m fe = round64 m False (real_of_int (sint x)) fe"
proof (cases "x = 0")
  case True
  then show ?thesis by (simp add: i64_to_fp64_def round64_def zero_enc [symmetric])
next
  case nz: False
  show ?thesis
  proof (cases "sgn64 x")
    case True
    note n = sint_negative [OF True]
    have e: "real_of_int (sint x) = - real (unat (0 - x))" unfolding n(1) by (simp only: of_int_minus of_int_of_nat_eq)
    have "real_of_int (sint x) < 0" using real_unat_pos [OF n(2)] unfolding e by linarith
    then have "round64 m False (real_of_int (sint x)) fe = ieee64 m True (real (unat (0 - x))) fe"
      unfolding round64_neg [OF \<open>real_of_int (sint x) < 0\<close>] unfolding e by (simp only: minus_minus)
    also have "\<dots> = i64_to_fp64 x m fe"
      unfolding i64_to_fp64_def Let_def top_bit_word using True nz u64_magnitude_correct [of 1, OF _ n(2), of m fe] by simp
    finally show ?thesis ..
  next
    case False
    have e: "real_of_int (sint x) = real (unat x)" unfolding sint_nonneg [OF False] by (simp only: of_int_of_nat_eq)
    show ?thesis unfolding e round64_pos [OF real_unat_pos [OF nz]] i64_to_fp64_def Let_def top_bit_word
      using False nz u64_magnitude_correct [of 0, OF _ nz, of m fe] by simp
  qed
qed

section \<open>Binary64 to integers\<close>

lemma magnitude_small:
  assumes fin: "unat (extract_exp x) < 1023"
  shows "fp64_to_u64_magnitude x (extract_sign x) m fe =
    ((of_nat (nat (rnd_int m (sgn64 x) \<bar>val64 x\<bar>)), False, False),
     fe OR (if real_of_int (rnd_int m (sgn64 x) \<bar>val64 x\<bar>) = \<bar>val64 x\<bar> then 0 else SF64_FE_INEXACT))"
    "0 \<le> rnd_int m (sgn64 x) \<bar>val64 x\<bar>" "rnd_int m (sgn64 x) \<bar>val64 x\<bar> \<le> 1"
proof -
  let ?s = "sgn64 x" and ?y = "\<bar>val64 x\<bar>"
  note b = below_one [OF fin]
  have nm: "extract_exp x \<noteq> kExpMax" using fin by (auto simp: kExpMax_def)
  define en where "en = unat (extract_exp x)"
  have u: "uint (extract_exp x) - kExpBias = int en - 1023" unfolding uint_exp en_def ..
  have e0: "extract_exp x = 0 \<longleftrightarrow> en = 0" unfolding en_def by (simp add: unat_eq_zero)
  have sg: "extract_sign x = of_bool ?s" by (rule extract_sign_cases)
  have fr: "extract_frac x = x AND kFracMask" by (simp add: extract_frac_def)
  have z: "?y = 0 \<longleftrightarrow> extract_exp x = 0 \<and> extract_frac x = 0"
    using val64_eq_0_iff [of x] by (simp add: is_zero_bits_iff extract_exp_0_iff extract_frac_0_iff) (metis mod_less mod_0 zero_less_numeral zero_less_power)
  have r: "rnd_int m ?s ?y = of_bool (case m of SF64_RTZ \<Rightarrow> False | SF64_RUP \<Rightarrow> \<not> ?s \<and> ?y \<noteq> 0 | SF64_RDN \<Rightarrow> ?s \<and> ?y \<noteq> 0
    | SF64_RNA \<Rightarrow> 1 / 2 \<le> ?y | SF64_RNE \<Rightarrow> 1 / 2 < ?y)"
    by (rule rnd_int_below_one [OF abs_ge_zero b(1)])
  then show "0 \<le> rnd_int m ?s ?y" "rnd_int m ?s ?y \<le> 1" by simp_all
  have i: "real_of_int (rnd_int m ?s ?y) = ?y \<longleftrightarrow> ?y = 0"
  proof
    assume a: "real_of_int (rnd_int m ?s ?y) = ?y"
    have "rnd_int m ?s ?y = 0 \<or> rnd_int m ?s ?y = 1" unfolding r by simp
    then show "?y = 0" using a b(1) by auto
  next
    assume "?y = 0"
    then show "real_of_int (rnd_int m ?s ?y) = ?y" unfolding r by (cases m) simp_all
  qed
  show "fp64_to_u64_magnitude x (extract_sign x) m fe =
    ((of_nat (nat (rnd_int m ?s ?y)), False, False), fe OR (if real_of_int (rnd_int m ?s ?y) = ?y then 0 else SF64_FE_INEXACT))"
  proof (cases "?y = 0")
    case True
    then have "rnd_int m ?s ?y = 0" unfolding r by (cases m) simp_all
    then show ?thesis unfolding i using True z nm by (simp add: fp64_to_u64_magnitude_def Let_def)
  next
    case nz: False
    then have nz': "\<not> (extract_exp x = 0 \<and> extract_frac x = 0)" using z by simp
    show ?thesis
    proof (cases "en < 1022")
      case True
      have lt: "?y < 1 / 2" using b(2) True unfolding en_def by blast
      have c: "extract_exp x = 0 \<or> int en - 1023 < - 1" using True by auto
      have d: "\<not> 1 / 2 \<le> ?y" "\<not> 1 / 2 < ?y" using lt by linarith+
      show ?thesis
        unfolding fp64_to_u64_magnitude_def Let_def if_not_P [OF nm] u if_P [OF c] if_not_P [OF nz'] i sg unfolding r
        using nz d by (cases m) simp_all
    next
      case False
      then have en: "en = 1022" using fin by (simp add: en_def)
      have c: "\<not> (extract_exp x = 0 \<or> int en - 1023 < - 1)" "int en - 1023 = - 1" using en e0 by simp_all
      have d: "1 / 2 \<le> ?y" using b(2) en unfolding en_def by linarith
      have h: "1 / 2 < ?y \<longleftrightarrow> extract_frac x \<noteq> 0" using b(3) d en unfolding en_def fr by linarith
      show ?thesis
        unfolding fp64_to_u64_magnitude_def Let_def if_not_P [OF nm] u if_not_P [OF c(1)] if_P [OF c(2)] i sg should_round_up_eq
        unfolding r h
        using nz d by (cases m) (simp_all add: round_up_dec_def)
    qed
  qed
qed

lemma unat_significand: "unat (extract_frac x OR kImplicitBit) = 2 ^ 52 + unat (extract_frac x)"
  using unat_or_disjoint [of kImplicitBit 52 "extract_frac x"] extract_frac_less [of x]
  by (simp add: kImplicitBit_def or.commute)

lemma magnitude_point:
  assumes ip: "int_point x e M k"
  shows "fp64_to_u64_magnitude x (extract_sign x) m fe =
    ((of_nat (nat (rnd_int m (sgn64 x) \<bar>val64 x\<bar>)), False, False),
     fe OR (if real_of_int (rnd_int m (sgn64 x) \<bar>val64 x\<bar>) = \<bar>val64 x\<bar> then 0 else SF64_FE_INEXACT))"
    "0 \<le> rnd_int m (sgn64 x) \<bar>val64 x\<bar>" "rnd_int m (sgn64 x) \<bar>val64 x\<bar> \<le> 2 ^ 53"
proof -
  let ?s = "sgn64 x" and ?y = "\<bar>val64 x\<bar>"
  note kb = ip_kb [OF ip] and Mb = ip_Mb [OF ip] and e = ip_e [OF ip] and fin = ip_finite_x [OF ip] and u = ip_unbiased [OF ip]
  define mant where "mant = extract_frac x OR kImplicitBit"
  have mant: "unat mant = M" unfolding mant_def unat_significand ip_M [OF ip] ..
  define G where "G = guarded_shift mant (int k) (extract_sign x) m"
  have sg: "extract_sign x \<noteq> 0 \<longleftrightarrow> ?s" by (simp add: extract_sign_cases)
  note G = guarded_shift_correct [OF mant kb(1), of "extract_sign x" m, folded G_def, unfolded sg]
  have v: "?y = real M / 2 ^ Suc (k - 1)" by (rule ip_abs_value [OF ip])
  have r: "rnd_int m ?s ?y = int (round_bits m ?s (k - 1) M)" unfolding v by (rule rnd_int_round_bits)
  have "M < 2 ^ (53 + Suc (k - 1))" using Mb(2) by (rule order_less_le_trans) (intro power_increasing; simp)
  then have rb: "round_bits m ?s (k - 1) M \<le> 2 ^ 53" by (rule round_bits_le)
  then have "int (round_bits m ?s (k - 1) M) \<le> int (2 ^ 53)" unfolding of_nat_le_iff .
  then show "0 \<le> rnd_int m ?s ?y" "rnd_int m ?s ?y \<le> 2 ^ 53" unfolding r by simp_all
  have ex: "real_of_int (rnd_int m ?s ?y) = ?y \<longleftrightarrow> M mod 2 ^ k = 0"
    unfolding rnd_int_exact_iff v ceiling_nat_div floor_nat_div kb(3) by simp
  have e0: "extract_exp x \<noteq> 0" using e by auto
  have c: "\<not> (extract_exp x = 0 \<or> int e - 1023 < - 1)" "\<not> int e - 1023 = - 1" "\<not> 63 < int e - 1023" "\<not> kFracBits \<le> int e - 1023"
    using e0 e u(3) by (auto simp: kFracBits_def)
  have t1: "drop_bit k mant + 1 \<noteq> 0"
  proof -
    have "unat (drop_bit k mant) = M div 2 ^ k" by (simp only: unat_drop_bit mant)
    moreover have "M div 2 ^ k < 2 ^ 53" using Mb(2) by (rule order_le_less_trans [rotated]) simp
    ultimately have "unat (drop_bit k mant + 1) = M div 2 ^ k + 1" by (subst unat_add_lt) simp_all
    then show ?thesis by (metis add_is_0 one_neq_zero unat_0)
  qed
  have "fp64_to_u64_magnitude x (extract_sign x) m fe =
    ((fst G, False, False), if snd G then fe OR SF64_FE_INEXACT else fe)"
    unfolding fp64_to_u64_magnitude_def Let_def if_not_P [OF fin(1)] u(1) if_not_P [OF c(1)] if_not_P [OF c(2)]
      if_not_P [OF c(3)] if_not_P [OF c(4)] mant_def [symmetric] u(5,6) G_def guarded_shift_def
    using t1 by simp
  moreover have "fst G = of_nat (nat (rnd_int m ?s ?y))"
    by (rule word_eq_unatI) (use rb in \<open>simp add: G r unat_of_nat\<close>)
  ultimately show "fp64_to_u64_magnitude x (extract_sign x) m fe =
    ((of_nat (nat (rnd_int m ?s ?y)), False, False), fe OR (if real_of_int (rnd_int m ?s ?y) = ?y then 0 else SF64_FE_INEXACT))"
    unfolding ex G(2) by simp
qed

lemma magnitude_exact:
  assumes e: "1075 \<le> unat (extract_exp x)" "unat (extract_exp x) \<le> 1086"
  defines "N \<equiv> (2 ^ 52 + unat (extract_frac x)) * 2 ^ (unat (extract_exp x) - 1075)"
  shows "fp64_to_u64_magnitude x (extract_sign x) m fe = ((of_nat N, False, False), fe)"
    "\<bar>val64 x\<bar> = real N" "N < 2 ^ 64"
proof -
  obtain n where n: "unat (extract_exp x) = 1075 + n" "n \<le> 11" using e le_Suc_ex by force
  define M where "M = 2 ^ 52 + unat (extract_frac x)"
  have M: "M < 2 ^ 53" using extract_frac_less [of x] by (simp add: M_def)
  have N: "N = M * 2 ^ n" by (simp add: N_def M_def n(1))
  have "M * 2 ^ n < 2 ^ 53 * 2 ^ n" using M by (rule mult_strict_right_mono) simp
  also have "(2::nat) ^ 53 * 2 ^ n \<le> 2 ^ 64" unfolding power_add [symmetric] using n(2) by (intro power_increasing) simp_all
  finally show N64: "N < 2 ^ 64" unfolding N .
  have m: "mag64 x div 2 ^ 52 = 1075 + n" "mag64 x mod 2 ^ 52 = unat (extract_frac x)"
    by (simp_all only: unat_extract_exp_mag [symmetric] unat_extract_frac_mag [symmetric] n)
  then have "\<bar>val64 x\<bar> = real M * 2 powi (int n)" unfolding abs_val64 mag_val_def M_def by (simp add: add.commute)
  then show "\<bar>val64 x\<bar> = real N" unfolding N by simp
  define en where "en = unat (extract_exp x)"
  have u: "uint (extract_exp x) - kExpBias = int en - 1023" unfolding uint_exp en_def ..
  have e0: "extract_exp x = 0 \<longleftrightarrow> en = 0" unfolding en_def by (simp add: unat_eq_zero)
  have nm: "extract_exp x \<noteq> kExpMax" using e by (auto simp: kExpMax_def)
  have c: "\<not> (extract_exp x = 0 \<or> int en - 1023 < - 1)" "\<not> int en - 1023 = - 1"
    "\<not> 63 < int en - 1023" "kFracBits \<le> int en - 1023"
    using e [folded en_def] by (auto simp: e0 kFracBits_def)
  have sh: "nat (int en - 1023 - kFracBits) = n" by (simp add: en_def n(1) kFracBits_def)
  have "push_bit n (extract_frac x OR kImplicitBit) = of_nat N"
  proof (rule word_eq_unatI)
    have "unat (push_bit n (extract_frac x OR kImplicitBit)) = N"
      using N64 unfolding N M_def by (subst unat_push_bit_lt) (simp_all add: unat_significand)
    then show "unat (push_bit n (extract_frac x OR kImplicitBit)) = unat (of_nat N :: u64)" using N64 by (simp add: unat_of_nat)
  qed
  then show "fp64_to_u64_magnitude x (extract_sign x) m fe = ((of_nat N, False, False), fe)"
    unfolding fp64_to_u64_magnitude_def Let_def if_not_P [OF nm] u if_not_P [OF c(1)] if_not_P [OF c(2)] if_not_P [OF c(3)]
      if_P [OF c(4)] sh by simp
qed

lemma magnitude_large:
  assumes fin: "is_finite_bits x" and e: "1087 \<le> unat (extract_exp x)"
  shows "fp64_to_u64_magnitude x (extract_sign x) m fe = ((NOT 0, True, False), fe OR SF64_FE_INVALID)"
    "2 ^ 64 \<le> \<bar>val64 x\<bar>" "\<exists>i. \<bar>val64 x\<bar> = real_of_int i"
proof -
  define en where "en = unat (extract_exp x)"
  have u: "uint (extract_exp x) - kExpBias = int en - 1023" unfolding uint_exp en_def ..
  have e0: "extract_exp x = 0 \<longleftrightarrow> en = 0" unfolding en_def by (simp add: unat_eq_zero)
  have nm: "extract_exp x \<noteq> kExpMax" using fin by (simp add: is_finite_bits_def)
  have c: "\<not> (extract_exp x = 0 \<or> int en - 1023 < - 1)" "\<not> int en - 1023 = - 1" "63 < int en - 1023"
    using e [folded en_def] by (auto simp: e0)
  show "fp64_to_u64_magnitude x (extract_sign x) m fe = ((NOT 0, True, False), fe OR SF64_FE_INVALID)"
    unfolding fp64_to_u64_magnitude_def Let_def if_not_P [OF nm] u if_not_P [OF c(1)] if_not_P [OF c(2)] if_P [OF c(3)] ..
  show "\<exists>i. \<bar>val64 x\<bar> = real_of_int i" using e by (intro large_integral) simp
  have "mag_val 52 (- 1074) (1087 * 2 ^ 52) = 2 ^ 64"
    by (simp add: mag_val_def power_int_def)
  moreover have "1087 * 2 ^ 52 \<le> mag64 x" unfolding mag64_fields using e by (intro trans_le_add1 mult_right_mono) simp_all
  ultimately show "2 ^ 64 \<le> \<bar>val64 x\<bar>" unfolding abs_val64 using mag_val_le_iff [of 52 "- 1074"] by metis
qed

text \<open>The exact integer a conversion rounds to, and the saturated result with its flags.\<close>

definition round_int :: "sf64_rounding_mode \<Rightarrow> f64 \<Rightarrow> int" where
  "round_int m x = (if sgn64 x then - rnd_int m True \<bar>val64 x\<bar> else rnd_int m False \<bar>val64 x\<bar>)"

definition to_int_spec :: "int \<Rightarrow> int \<Rightarrow> sf64_rounding_mode \<Rightarrow> f64 \<Rightarrow> u32 \<Rightarrow> int \<times> u32" where
  "to_int_spec lo hi m x fe =
     (if is_nan_bits x then (0, fe OR SF64_FE_INVALID)
      else if is_inf_bits x then (if sgn64 x then lo else hi, fe OR SF64_FE_INVALID)
      else let i = round_int m x
           in (max lo (min hi i), fe OR (if real_of_int i = val64 x then 0 else SF64_FE_INEXACT)
                 OR (if lo \<le> i \<and> i \<le> hi then 0 else SF64_FE_INVALID)))"

lemma magnitude_sound:
  assumes fin: "is_finite_bits x"
  obtains (fits) N where "fp64_to_u64_magnitude x (extract_sign x) m fe =
      ((of_nat N, False, False), fe OR (if real_of_int (round_int m x) = val64 x then 0 else SF64_FE_INEXACT))"
      "N < 2 ^ 64" "round_int m x = (if sgn64 x then - int N else int N)"
  | (large) "fp64_to_u64_magnitude x (extract_sign x) m fe = ((NOT 0, True, False), fe OR SF64_FE_INVALID)"
      "real_of_int (round_int m x) = val64 x" "2 ^ 64 \<le> (if sgn64 x then - round_int m x else round_int m x)"
proof -
  let ?R = "rnd_int m (sgn64 x) \<bar>val64 x\<bar>"
  have ri: "round_int m x = (if sgn64 x then - ?R else ?R)" by (simp add: round_int_def)
  have ex: "real_of_int (round_int m x) = val64 x \<longleftrightarrow> real_of_int ?R = \<bar>val64 x\<bar>"
    unfolding ri using val64_signed [of x] by (cases "sgn64 x", simp_all) linarith
  have fitting: thesis if "fp64_to_u64_magnitude x (extract_sign x) m fe =
    ((of_nat (nat ?R), False, False), fe OR (if real_of_int ?R = \<bar>val64 x\<bar> then 0 else SF64_FE_INEXACT))" "0 \<le> ?R" "?R < 2 ^ 64"
    using fits [of "nat ?R", unfolded ex] that by (cases "sgn64 x") (simp_all add: ri nat_less_iff)
  consider (small) "unat (extract_exp x) < 1023" | (point) M k where "int_point x (unat (extract_exp x)) M k"
    | (exact) "1075 \<le> unat (extract_exp x)" "unat (extract_exp x) \<le> 1086" | (big) "1087 \<le> unat (extract_exp x)"
    unfolding int_point_def by force
  then show thesis
  proof cases
    case small
    show thesis using magnitude_small(2,3) [OF small, of m] by (intro fitting [OF magnitude_small(1) [OF small]]) simp_all
  next
    case point
    show thesis using magnitude_point(2,3) [OF point, of m] by (intro fitting [OF magnitude_point(1) [OF point]]) simp_all
  next
    case exact
    define N where "N = (2 ^ 52 + unat (extract_frac x)) * 2 ^ (unat (extract_exp x) - 1075)"
    note m = magnitude_exact [OF exact, folded N_def]
    have R: "rnd_int m (sgn64 x) (real N) = int N" using rnd_int_of_int [of m "sgn64 x" "int N"] by simp
    show thesis using m(3) by (intro fitting; unfold m R) simp_all
  next
    case big
    note l = magnitude_large [OF fin big]
    obtain i where i: "\<bar>val64 x\<bar> = real_of_int i" using l(3) by blast
    have R: "?R = i" unfolding i by simp
    have "real_of_int (2 ^ 64) \<le> real_of_int i" using l(2) unfolding i by simp
    then have "2 ^ 64 \<le> i" by (simp only: of_int_le_iff)
    then have "2 ^ 64 \<le> (if sgn64 x then - round_int m x else round_int m x)" unfolding ri R by simp
    moreover have "real_of_int (round_int m x) = val64 x" unfolding ex unfolding R unfolding i ..
    ultimately show thesis using large [OF l(1)] by blast
  qed
qed

lemma sint_range: "- (2 ^ 63) \<le> sint w" "sint w < 2 ^ 63" for w :: "64 word"
  using sint_ge [of w] sint_lt [of w] by simp_all

lemma sint_of_small: "N < 2 ^ 63 \<Longrightarrow> sint (of_nat N :: 64 word) = int N"
  and sint_minus_small: "N < 2 ^ 63 \<Longrightarrow> sint (- of_nat N :: 64 word) = - int N"
proof -
  assume N: "N < 2 ^ 63"
  have "unat (of_nat N :: 64 word) = N" using N by (simp add: unat_of_nat)
  then have "\<not> sgn64 (of_nat N)" using N by (simp add: sgn64_def)
  then show "sint (of_nat N :: 64 word) = int N" using sint_nonneg [of "of_nat N"] N by (simp add: unat_of_nat)
  then have "- (2 ^ 63) \<le> - sint (of_nat N :: 64 word)" "- sint (of_nat N :: 64 word) < 2 ^ 63" using N by simp_all
  then have "sint (- (of_nat N) :: 64 word) = - sint (of_nat N :: 64 word)"
    by (simp add: sint_word_ariths signed_take_bit_int_eq_self)
  then show "sint (- of_nat N :: 64 word) = - int N" using \<open>sint (of_nat N :: 64 word) = int N\<close> by simp
qed

lemma sint_INT64_MIN: "sint INT64_MIN = - (2 ^ 63)"
  by (simp add: INT64_MIN_def)

lemma unat_top: "unat (push_bit 63 1 :: 64 word) = 2 ^ 63"
  by simp

lemma neg_cap:
  assumes "sint imin \<le> 0"
  shows "int (unat (if imin = INT64_MIN then push_bit 63 1 else - imin)) = - sint imin"
proof (cases "imin = INT64_MIN")
  case True
  then show ?thesis unfolding True if_P [OF refl] unat_top sint_INT64_MIN by simp
next
  case False
  show ?thesis
  proof (cases "sgn64 imin")
    case True
    then show ?thesis using False sint_negative(1) [OF True] by simp
  next
    case pos: False
    then have "unat imin = 0" using assms sint_nonneg [OF pos] by linarith
    then have "imin = 0" by (simp only: unat_eq_zero)
    then show ?thesis using False by simp
  qed
qed

lemma or_again: "(a OR b) OR b = a OR b" for a b :: u32
  by (simp add: or.assoc)

lemma fp64_to_signed_sound:
  assumes lo: "sint imin \<le> 0" and hi: "0 \<le> sint imax"
  shows "map_prod sint id (fp64_to_signed x imin imax m fe) = to_int_spec (sint imin) (sint imax) m x fe"
proof (cases "is_finite_bits x")
  case False
  then have e: "extract_exp x = kExpMax" by (simp add: is_finite_bits_def)
  have n: "is_nan_bits x \<longleftrightarrow> extract_frac x \<noteq> 0" "is_inf_bits x \<longleftrightarrow> extract_frac x = 0"
    using e by (simp_all add: is_nan_bits_def is_inf_bits_def)
  show ?thesis unfolding fp64_to_signed_def fp64_to_u64_magnitude_def to_int_spec_def Let_def if_P [OF e] n
    by (simp add: extract_sign_cases)
next
  case True
  have nn: "\<not> is_nan_bits x" "\<not> is_inf_bits x" using True by (auto simp: class_iff)
  have sg: "extract_sign x \<noteq> 0 \<longleftrightarrow> sgn64 x" by (simp add: extract_sign_cases)
  have pc: "int (unat imax) = sint imax"
  proof -
    have "\<not> sgn64 imax" using hi sint64 [of imax] mag64_less [of imax] by (auto split: if_splits)
    then show ?thesis by (simp add: sint_nonneg)
  qed
  note cap = neg_cap [OF lo]
  show ?thesis
  proof (cases rule: magnitude_sound [OF True, of m fe, case_names fits large])
    case (fits N)
    define fl where "fl = fe OR (if real_of_int (round_int m x) = val64 x then 0 else SF64_FE_INEXACT)"
    have uN: "unat (of_nat N :: 64 word) = N" using fits(2) by (simp add: unat_of_nat)
    define c :: "64 word" where "c = (if imin = INT64_MIN then push_bit 63 1 else - imin)"
    have c: "c < of_nat N \<longleftrightarrow> - sint imin < int N" "imax < of_nat N \<longleftrightarrow> sint imax < int N"
      using cap [folded c_def] pc unfolding word_less_nat_alt uN by linarith+
    have spec: "to_int_spec (sint imin) (sint imax) m x fe =
      (max (sint imin) (min (sint imax) (round_int m x)), fl OR (if sint imin \<le> round_int m x \<and> round_int m x \<le> sint imax then 0 else SF64_FE_INVALID))"
      unfolding to_int_spec_def Let_def fl_def or.assoc using nn by simp
    have code: "fp64_to_signed x imin imax m fe =
      (if sgn64 x then (if c < of_nat N then (imin, fl OR SF64_FE_INVALID) else if of_nat N = (push_bit 63 1 :: 64 word) then (INT64_MIN, fl) else (- of_nat N, fl))
       else if imax < of_nat N then (imax, fl OR SF64_FE_INVALID) else (of_nat N, fl))"
      unfolding fp64_to_signed_def Let_def fits(1) c_def fl_def by (simp add: sg)
    show ?thesis
    proof (cases "sgn64 x")
      case True
      then have i: "round_int m x = - int N" using fits(3) by simp
      have top: "of_nat N = (push_bit 63 1 :: 64 word) \<longleftrightarrow> N = 2 ^ 63"
        using uN unat_top by (metis word_eq_unatI)
      show ?thesis
      proof (cases "- sint imin < int N")
        case True
        then show ?thesis using \<open>sgn64 x\<close> lo hi unfolding code spec i c by simp
      next
        case False
        then have "int N \<le> 2 ^ 63" using sint_range(1) [of imin] by linarith
        then have "int N \<le> int (2 ^ 63)" by simp
        then have "N \<le> 2 ^ 63" unfolding of_nat_le_iff .
        then have "N = 2 ^ 63 \<or> N < 2 ^ 63" by (simp add: le_less disj_commute)
        then have "sint (if N = 2 ^ 63 then INT64_MIN else - of_nat N) = - int N"
          by (auto simp: sint_INT64_MIN sint_minus_small)
        moreover have "max (sint imin) (min (sint imax) (- int N)) = - int N" "sint imin \<le> - int N \<and> - int N \<le> sint imax"
          using False hi by linarith+
        ultimately show ?thesis using \<open>sgn64 x\<close> False unfolding code spec i c top by (simp split: if_splits)
      qed
    next
      case False
      then have i: "round_int m x = int N" using fits(3) by simp
      show ?thesis
      proof (cases "sint imax < int N")
        case True
        then show ?thesis using False lo hi unfolding code spec i c by simp
      next
        case small: False
        then have "int N < 2 ^ 63" using sint_range(2) [of imax] by linarith
        then have "int N < int (2 ^ 63)" by simp
        then have "N < 2 ^ 63" unfolding of_nat_less_iff .
        then have "sint (of_nat N :: 64 word) = int N" by (rule sint_of_small)
        moreover have "max (sint imin) (min (sint imax) (int N)) = int N" "sint imin \<le> int N \<and> int N \<le> sint imax"
          using small lo by linarith+
        ultimately show ?thesis using False small unfolding code spec i c by simp
      qed
    qed
  next
    case large
    have b: "(2::int) ^ 63 < 2 ^ 64" by simp
    have r: "sgn64 x \<Longrightarrow> round_int m x < sint imin" "\<not> sgn64 x \<Longrightarrow> sint imax < round_int m x"
      using large(3) sint_range [of imin] sint_range [of imax] b by (simp_all split: if_splits)
    show ?thesis
      unfolding fp64_to_signed_def Let_def large(1) to_int_spec_def
      using nn r lo hi large(2) by (cases "sgn64 x") (auto simp: sg)
  qed
qed

lemma fp64_to_unsigned_sound:
  "map_prod uint id (fp64_to_unsigned x umax m fe) = to_int_spec 0 (uint umax) m x fe"
proof (cases "is_finite_bits x")
  case False
  then have e: "extract_exp x = kExpMax" by (simp add: is_finite_bits_def)
  have n: "is_nan_bits x \<longleftrightarrow> extract_frac x \<noteq> 0" "is_inf_bits x \<longleftrightarrow> extract_frac x = 0"
    using e by (simp_all add: is_nan_bits_def is_inf_bits_def)
  show ?thesis unfolding fp64_to_unsigned_def fp64_to_u64_magnitude_def to_int_spec_def Let_def if_P [OF e] n
    by (simp add: extract_sign_cases or_again)
next
  case True
  have nn: "\<not> is_nan_bits x" "\<not> is_inf_bits x" using True by (auto simp: class_iff)
  have sg: "extract_sign x \<noteq> 0 \<longleftrightarrow> sgn64 x" by (simp add: extract_sign_cases)
  have um: "0 \<le> uint umax" "uint umax < 2 ^ 64" using uint_lt2p [of umax] by simp_all
  show ?thesis
  proof (cases rule: magnitude_sound [OF True, of m fe, case_names fits large])
    case (fits N)
    have uN: "uint (of_nat N :: 64 word) = int N" using fits(2) by (simp add: unsigned_of_nat take_bit_nat_eq_self)
    have c: "umax < of_nat N \<longleftrightarrow> uint umax < int N" unfolding word_less_def uN ..
    have z: "(of_nat N :: 64 word) \<noteq> 0 \<longleftrightarrow> N \<noteq> 0" using uN by (metis of_nat_eq_0_iff uint_0_iff)
    show ?thesis
      unfolding fp64_to_unsigned_def Let_def fits(1) to_int_spec_def fits(3)
      using nn um uN by (cases "sgn64 x")
        (auto simp: sg c z max_def min_def or.assoc dest: order_trans [OF uint_ge_0])
  next
    case large
    have n0: "NOT (0 :: u64) \<noteq> 0" by simp
    have r: "sgn64 x \<Longrightarrow> round_int m x < 0" "\<not> sgn64 x \<Longrightarrow> uint umax < round_int m x"
      using large(3) um by (simp_all split: if_splits)
    show ?thesis
      unfolding fp64_to_unsigned_def Let_def large(1) to_int_spec_def
      using nn r um n0 large(2) by (cases "sgn64 x") (auto simp: sg or_again)
  qed
qed

section \<open>The integer entries\<close>

lemma from_narrow:
  "i64_to_fp64 (scast (y :: 'a::len word)) m fe = round64 m False (real_of_int (sint y)) fe" if "LENGTH('a) \<le> 64"
  unfolding i64_to_fp64_sound using that by (simp add: sint_up_scast is_up)

lemma from_narrow_unsigned:
  "u64_to_fp64 (ucast (y :: 'a::len word)) m fe = round64 m False (real (unat y)) fe" if "LENGTH('a) \<le> 64"
proof -
  have "unat y < 2 ^ LENGTH('a)" by (rule unsigned_less)
  also have "(2::nat) ^ LENGTH('a) \<le> 2 ^ 64" using that by (intro power_increasing) simp_all
  finally have "unat (ucast y :: u64) = unat y" by (intro unat_ucast_lt) simp
  then show ?thesis unfolding u64_to_fp64_sound by simp
qed

text \<open>
  Every integer-to-double entry, of all eight integer types, returns the integer's value rounded
  once to nearest even and merges exactly the flags of that rounding: only the 64-bit types can
  lose anything.
\<close>
theorem from_int_correct:
  "sf64_from_i8 a m t w = entry_default m t (round64 SF64_RNE False (real_of_int (sint a)) 0) w
   \<and> sf64_from_i16 b m t w = entry_default m t (round64 SF64_RNE False (real_of_int (sint b)) 0) w
   \<and> sf64_from_i32 c m t w = entry_default m t (round64 SF64_RNE False (real_of_int (sint c)) 0) w
   \<and> sf64_from_i64 d m t w = entry_default m t (round64 SF64_RNE False (real_of_int (sint d)) 0) w
   \<and> sf64_from_u8 e m t w = entry_default m t (round64 SF64_RNE False (real (unat e)) 0) w
   \<and> sf64_from_u16 f m t w = entry_default m t (round64 SF64_RNE False (real (unat f)) 0) w
   \<and> sf64_from_u32 g m t w = entry_default m t (round64 SF64_RNE False (real (unat g)) 0) w
   \<and> sf64_from_u64 h m t w = entry_default m t (round64 SF64_RNE False (real (unat h)) 0) w"
proof -
  have l: "LENGTH(8) \<le> 64" "LENGTH(16) \<le> 64" "LENGTH(32) \<le> 64" by simp_all
  show ?thesis
    unfolding sf64_from_i8_def sf64_from_i16_def sf64_from_i32_def sf64_from_i64_def
      sf64_from_u8_def sf64_from_u16_def sf64_from_u32_def sf64_from_u64_def
      from_narrow [OF l(1)] from_narrow [OF l(2)] from_narrow [OF l(3)]
      from_narrow_unsigned [OF l(1)] from_narrow_unsigned [OF l(2)] from_narrow_unsigned [OF l(3)]
    unfolding i64_to_fp64_sound u64_to_fp64_sound
    by (intro conjI refl)
qed

lemma to_int_spec_range:
  "lo \<le> 0 \<Longrightarrow> 0 \<le> hi \<Longrightarrow> lo \<le> fst (to_int_spec lo hi m x fe) \<and> fst (to_int_spec lo hi m x fe) \<le> hi"
  by (simp add: to_int_spec_def Let_def)

lemma sint_narrow:
  fixes r :: "64 word"
  assumes "LENGTH('b::len) \<le> 64" "- (2 ^ (LENGTH('b) - 1)) \<le> sint r" "sint r < 2 ^ (LENGTH('b) - 1)"
  shows "sint (ucast r :: 'b word) = sint r"
proof -
  have "(ucast r :: 'b word) = scast r"
    using assms(1) by (simp add: down_cast_same is_down)
  also have "\<dots> = word_of_int (sint r)" by (rule scast_eq)
  finally have e: "(ucast r :: 'b word) = word_of_int (sint r)" .
  show ?thesis unfolding e sint_sbintrunc' by (rule signed_take_bit_int_eq_self) (use assms in simp_all)
qed

lemma uint_narrow:
  fixes r :: u64
  assumes "uint r < 2 ^ LENGTH('b::len)"
  shows "uint (ucast r :: 'b word) = uint r"
  using assms by (simp add: unsigned_ucast_eq take_bit_int_eq_self)

lemma to_signed_narrow:
  fixes lo hi :: "64 word"
  assumes n: "LENGTH('b::len) \<le> 64" "- (2 ^ (LENGTH('b) - 1)) \<le> sint lo" "sint hi < 2 ^ (LENGTH('b) - 1)"
    and b: "sint lo \<le> 0" "0 \<le> sint hi"
  shows "map_prod sint id (map_prod (ucast :: 64 word \<Rightarrow> 'b word) id (fp64_to_signed x lo hi m fe)) = to_int_spec (sint lo) (sint hi) m x fe"
proof -
  obtain r f where r: "fp64_to_signed x lo hi m fe = (r, f)" by (cases "fp64_to_signed x lo hi m fe")
  have s: "(sint r, f) = to_int_spec (sint lo) (sint hi) m x fe"
    using fp64_to_signed_sound [OF b, of x m fe] r by simp
  then have "sint lo \<le> sint r" "sint r \<le> sint hi" using to_int_spec_range [OF b, of m x fe] by (metis fst_conv)+
  then have "sint (ucast r :: 'b word) = sint r" using n by (intro sint_narrow) linarith+
  then show ?thesis unfolding r using s by simp
qed

lemma to_unsigned_narrow:
  assumes n: "uint hi < 2 ^ LENGTH('b::len)"
  shows "map_prod uint id (map_prod (ucast :: 64 word \<Rightarrow> 'b word) id (fp64_to_unsigned x hi m fe)) = to_int_spec 0 (uint hi) m x fe"
proof -
  obtain r f where r: "fp64_to_unsigned x hi m fe = (r, f)" by (cases "fp64_to_unsigned x hi m fe")
  have s: "(uint r, f) = to_int_spec 0 (uint hi) m x fe"
    using fp64_to_unsigned_sound [of x hi m fe] r by simp
  then have "uint r \<le> uint hi" using to_int_spec_range [of 0 "uint hi" m x fe] by (metis fst_conv order_refl uint_ge_0)
  then have "uint (ucast r :: 'b word) = uint r" using n by (intro uint_narrow) linarith
  then show ?thesis unfolding r using s by simp
qed

lemma map_entry: "map_prod f id (entry_default m t r w) = entry_default m t (map_prod f id r) w"
  by (simp add: entry_default_def)

lemma map_entry_ex: "map_prod f id (entry_ex m t s r w) = entry_ex m t s (map_prod f id r) w"
  by (simp add: entry_ex_def)

text \<open>The kernel between the bounds each entry passes, with its result read back at the entry's width.\<close>

lemma to_int_kernels:
  "map_prod sint id (map_prod (ucast :: 64 word \<Rightarrow> 8 word) id (fp64_to_signed x (- 0x80) 0x7F m 0)) = to_int_spec (- (2 ^ 7)) (2 ^ 7 - 1) m x 0"
  "map_prod sint id (map_prod (ucast :: 64 word \<Rightarrow> 16 word) id (fp64_to_signed x (- 0x8000) 0x7FFF m 0)) = to_int_spec (- (2 ^ 15)) (2 ^ 15 - 1) m x 0"
  "map_prod sint id (map_prod (ucast :: 64 word \<Rightarrow> 32 word) id (fp64_to_signed x (- 0x80000000) 0x7FFFFFFF m 0)) = to_int_spec (- (2 ^ 31)) (2 ^ 31 - 1) m x 0"
  "map_prod sint id (fp64_to_signed x INT64_MIN 0x7FFFFFFFFFFFFFFF m 0) = to_int_spec (- (2 ^ 63)) (2 ^ 63 - 1) m x 0"
  "map_prod uint id (map_prod (ucast :: 64 word \<Rightarrow> 8 word) id (fp64_to_unsigned x 0xFF m 0)) = to_int_spec 0 (2 ^ 8 - 1) m x 0"
  "map_prod uint id (map_prod (ucast :: 64 word \<Rightarrow> 16 word) id (fp64_to_unsigned x 0xFFFF m 0)) = to_int_spec 0 (2 ^ 16 - 1) m x 0"
  "map_prod uint id (map_prod (ucast :: 64 word \<Rightarrow> 32 word) id (fp64_to_unsigned x 0xFFFFFFFF m 0)) = to_int_spec 0 (2 ^ 32 - 1) m x 0"
  "map_prod uint id (fp64_to_unsigned x 0xFFFFFFFFFFFFFFFF m 0) = to_int_spec 0 (2 ^ 64 - 1) m x 0"
  using to_signed_narrow [where ?'b = 8, of "- 0x80" "0x7F" x m 0] to_signed_narrow [where ?'b = 16, of "- 0x8000" "0x7FFF" x m 0]
    to_signed_narrow [where ?'b = 32, of "- 0x80000000" "0x7FFFFFFF" x m 0]
    fp64_to_signed_sound [of INT64_MIN "0x7FFFFFFFFFFFFFFF" x m 0]
    to_unsigned_narrow [where ?'b = 8, of "0xFF" x m 0] to_unsigned_narrow [where ?'b = 16, of "0xFFFF" x m 0]
    to_unsigned_narrow [where ?'b = 32, of "0xFFFFFFFF" x m 0] fp64_to_unsigned_sound [of x "0xFFFFFFFFFFFFFFFF" m 0]
  by (simp_all add: sint_INT64_MIN)

lemma to_int_entries:
  "map_prod sint id (sf64_to_i8_r m x md t w) = entry_default md t (to_int_spec (- (2 ^ 7)) (2 ^ 7 - 1) m x 0) w"
  "map_prod sint id (sf64_to_i16_r m x md t w) = entry_default md t (to_int_spec (- (2 ^ 15)) (2 ^ 15 - 1) m x 0) w"
  "map_prod sint id (sf64_to_i32_r m x md t w) = entry_default md t (to_int_spec (- (2 ^ 31)) (2 ^ 31 - 1) m x 0) w"
  "map_prod sint id (sf64_to_i64_r m x md t w) = entry_default md t (to_int_spec (- (2 ^ 63)) (2 ^ 63 - 1) m x 0) w"
  "map_prod uint id (sf64_to_u8_r m x md t w) = entry_default md t (to_int_spec 0 (2 ^ 8 - 1) m x 0) w"
  "map_prod uint id (sf64_to_u16_r m x md t w) = entry_default md t (to_int_spec 0 (2 ^ 16 - 1) m x 0) w"
  "map_prod uint id (sf64_to_u32_r m x md t w) = entry_default md t (to_int_spec 0 (2 ^ 32 - 1) m x 0) w"
  "map_prod uint id (sf64_to_u64_r m x md t w) = entry_default md t (to_int_spec 0 (2 ^ 64 - 1) m x 0) w"
  unfolding sf64_to_i8_r_def sf64_to_i16_r_def sf64_to_i32_r_def sf64_to_i64_r_def sf64_to_u8_r_def sf64_to_u16_r_def sf64_to_u32_r_def sf64_to_u64_r_def
    map_entry map_entry_ex to_int_kernels
  by (rule refl)+

lemma to_int_entries_rtz:
  "map_prod sint id (sf64_to_i8 x md t w) = entry_default md t (to_int_spec (- (2 ^ 7)) (2 ^ 7 - 1) SF64_RTZ x 0) w"
  "map_prod sint id (sf64_to_i16 x md t w) = entry_default md t (to_int_spec (- (2 ^ 15)) (2 ^ 15 - 1) SF64_RTZ x 0) w"
  "map_prod sint id (sf64_to_i32 x md t w) = entry_default md t (to_int_spec (- (2 ^ 31)) (2 ^ 31 - 1) SF64_RTZ x 0) w"
  "map_prod sint id (sf64_to_i64 x md t w) = entry_default md t (to_int_spec (- (2 ^ 63)) (2 ^ 63 - 1) SF64_RTZ x 0) w"
  "map_prod uint id (sf64_to_u8 x md t w) = entry_default md t (to_int_spec 0 (2 ^ 8 - 1) SF64_RTZ x 0) w"
  "map_prod uint id (sf64_to_u16 x md t w) = entry_default md t (to_int_spec 0 (2 ^ 16 - 1) SF64_RTZ x 0) w"
  "map_prod uint id (sf64_to_u32 x md t w) = entry_default md t (to_int_spec 0 (2 ^ 32 - 1) SF64_RTZ x 0) w"
  "map_prod uint id (sf64_to_u64 x md t w) = entry_default md t (to_int_spec 0 (2 ^ 64 - 1) SF64_RTZ x 0) w"
  unfolding sf64_to_i8_def sf64_to_i16_def sf64_to_i32_def sf64_to_i64_def sf64_to_u8_def sf64_to_u16_def sf64_to_u32_def sf64_to_u64_def
    map_entry map_entry_ex to_int_kernels
  by (rule refl)+

lemma to_int_entries_ex:
  "map_prod sint id (sf64_to_i8_ex x s md t w) = entry_ex md t s (to_int_spec (- (2 ^ 7)) (2 ^ 7 - 1) SF64_RTZ x 0) w"
  "map_prod sint id (sf64_to_i16_ex x s md t w) = entry_ex md t s (to_int_spec (- (2 ^ 15)) (2 ^ 15 - 1) SF64_RTZ x 0) w"
  "map_prod sint id (sf64_to_i32_ex x s md t w) = entry_ex md t s (to_int_spec (- (2 ^ 31)) (2 ^ 31 - 1) SF64_RTZ x 0) w"
  "map_prod sint id (sf64_to_i64_ex x s md t w) = entry_ex md t s (to_int_spec (- (2 ^ 63)) (2 ^ 63 - 1) SF64_RTZ x 0) w"
  "map_prod uint id (sf64_to_u8_ex x s md t w) = entry_ex md t s (to_int_spec 0 (2 ^ 8 - 1) SF64_RTZ x 0) w"
  "map_prod uint id (sf64_to_u16_ex x s md t w) = entry_ex md t s (to_int_spec 0 (2 ^ 16 - 1) SF64_RTZ x 0) w"
  "map_prod uint id (sf64_to_u32_ex x s md t w) = entry_ex md t s (to_int_spec 0 (2 ^ 32 - 1) SF64_RTZ x 0) w"
  "map_prod uint id (sf64_to_u64_ex x s md t w) = entry_ex md t s (to_int_spec 0 (2 ^ 64 - 1) SF64_RTZ x 0) w"
  unfolding sf64_to_i8_ex_def sf64_to_i16_ex_def sf64_to_i32_ex_def sf64_to_i64_ex_def sf64_to_u8_ex_def sf64_to_u16_ex_def sf64_to_u32_ex_def sf64_to_u64_ex_def
    map_entry map_entry_ex to_int_kernels
  by (rule refl)+

lemma to_int_entries_r_ex:
  "map_prod sint id (sf64_to_i8_r_ex m x s md t w) = entry_ex md t s (to_int_spec (- (2 ^ 7)) (2 ^ 7 - 1) m x 0) w"
  "map_prod sint id (sf64_to_i16_r_ex m x s md t w) = entry_ex md t s (to_int_spec (- (2 ^ 15)) (2 ^ 15 - 1) m x 0) w"
  "map_prod sint id (sf64_to_i32_r_ex m x s md t w) = entry_ex md t s (to_int_spec (- (2 ^ 31)) (2 ^ 31 - 1) m x 0) w"
  "map_prod sint id (sf64_to_i64_r_ex m x s md t w) = entry_ex md t s (to_int_spec (- (2 ^ 63)) (2 ^ 63 - 1) m x 0) w"
  "map_prod uint id (sf64_to_u8_r_ex m x s md t w) = entry_ex md t s (to_int_spec 0 (2 ^ 8 - 1) m x 0) w"
  "map_prod uint id (sf64_to_u16_r_ex m x s md t w) = entry_ex md t s (to_int_spec 0 (2 ^ 16 - 1) m x 0) w"
  "map_prod uint id (sf64_to_u32_r_ex m x s md t w) = entry_ex md t s (to_int_spec 0 (2 ^ 32 - 1) m x 0) w"
  "map_prod uint id (sf64_to_u64_r_ex m x s md t w) = entry_ex md t s (to_int_spec 0 (2 ^ 64 - 1) m x 0) w"
  unfolding sf64_to_i8_r_ex_def sf64_to_i16_r_ex_def sf64_to_i32_r_ex_def sf64_to_i64_r_ex_def sf64_to_u8_r_ex_def sf64_to_u16_r_ex_def sf64_to_u32_r_ex_def sf64_to_u64_r_ex_def
    map_entry map_entry_ex to_int_kernels
  by (rule refl)+

text \<open>
  C13: Every double-to-integer entry, for the eight integer types the default one and the ones that take a
  mode, a caller's state or both, rounds the exact value to an integer (towards zero where no mode is
  given) and saturates it to the target type, a NaN giving zero; the flags merged, into the thread's
  bag or the caller's state alone, are INEXACT when the value was not an integer, and INVALID for a
  NaN, an infinity, or a rounded value outside the type (then together with INEXACT if both apply).
\<close>
theorem to_int_correct:
  "map_prod sint id (sf64_to_i8 x md t w) = entry_default md t (to_int_spec (- (2 ^ 7)) (2 ^ 7 - 1) SF64_RTZ x 0) w
   \<and> map_prod sint id (sf64_to_i16 x md t w) = entry_default md t (to_int_spec (- (2 ^ 15)) (2 ^ 15 - 1) SF64_RTZ x 0) w
   \<and> map_prod sint id (sf64_to_i32 x md t w) = entry_default md t (to_int_spec (- (2 ^ 31)) (2 ^ 31 - 1) SF64_RTZ x 0) w
   \<and> map_prod sint id (sf64_to_i64 x md t w) = entry_default md t (to_int_spec (- (2 ^ 63)) (2 ^ 63 - 1) SF64_RTZ x 0) w
   \<and> map_prod uint id (sf64_to_u8 x md t w) = entry_default md t (to_int_spec 0 (2 ^ 8 - 1) SF64_RTZ x 0) w
   \<and> map_prod uint id (sf64_to_u16 x md t w) = entry_default md t (to_int_spec 0 (2 ^ 16 - 1) SF64_RTZ x 0) w
   \<and> map_prod uint id (sf64_to_u32 x md t w) = entry_default md t (to_int_spec 0 (2 ^ 32 - 1) SF64_RTZ x 0) w
   \<and> map_prod uint id (sf64_to_u64 x md t w) = entry_default md t (to_int_spec 0 (2 ^ 64 - 1) SF64_RTZ x 0) w
   \<and> map_prod sint id (sf64_to_i8_r m x md t w) = entry_default md t (to_int_spec (- (2 ^ 7)) (2 ^ 7 - 1) m x 0) w
   \<and> map_prod sint id (sf64_to_i16_r m x md t w) = entry_default md t (to_int_spec (- (2 ^ 15)) (2 ^ 15 - 1) m x 0) w
   \<and> map_prod sint id (sf64_to_i32_r m x md t w) = entry_default md t (to_int_spec (- (2 ^ 31)) (2 ^ 31 - 1) m x 0) w
   \<and> map_prod sint id (sf64_to_i64_r m x md t w) = entry_default md t (to_int_spec (- (2 ^ 63)) (2 ^ 63 - 1) m x 0) w
   \<and> map_prod uint id (sf64_to_u8_r m x md t w) = entry_default md t (to_int_spec 0 (2 ^ 8 - 1) m x 0) w
   \<and> map_prod uint id (sf64_to_u16_r m x md t w) = entry_default md t (to_int_spec 0 (2 ^ 16 - 1) m x 0) w
   \<and> map_prod uint id (sf64_to_u32_r m x md t w) = entry_default md t (to_int_spec 0 (2 ^ 32 - 1) m x 0) w
   \<and> map_prod uint id (sf64_to_u64_r m x md t w) = entry_default md t (to_int_spec 0 (2 ^ 64 - 1) m x 0) w
   \<and> map_prod sint id (sf64_to_i8_ex x s md t w) = entry_ex md t s (to_int_spec (- (2 ^ 7)) (2 ^ 7 - 1) SF64_RTZ x 0) w
   \<and> map_prod sint id (sf64_to_i16_ex x s md t w) = entry_ex md t s (to_int_spec (- (2 ^ 15)) (2 ^ 15 - 1) SF64_RTZ x 0) w
   \<and> map_prod sint id (sf64_to_i32_ex x s md t w) = entry_ex md t s (to_int_spec (- (2 ^ 31)) (2 ^ 31 - 1) SF64_RTZ x 0) w
   \<and> map_prod sint id (sf64_to_i64_ex x s md t w) = entry_ex md t s (to_int_spec (- (2 ^ 63)) (2 ^ 63 - 1) SF64_RTZ x 0) w
   \<and> map_prod uint id (sf64_to_u8_ex x s md t w) = entry_ex md t s (to_int_spec 0 (2 ^ 8 - 1) SF64_RTZ x 0) w
   \<and> map_prod uint id (sf64_to_u16_ex x s md t w) = entry_ex md t s (to_int_spec 0 (2 ^ 16 - 1) SF64_RTZ x 0) w
   \<and> map_prod uint id (sf64_to_u32_ex x s md t w) = entry_ex md t s (to_int_spec 0 (2 ^ 32 - 1) SF64_RTZ x 0) w
   \<and> map_prod uint id (sf64_to_u64_ex x s md t w) = entry_ex md t s (to_int_spec 0 (2 ^ 64 - 1) SF64_RTZ x 0) w
   \<and> map_prod sint id (sf64_to_i8_r_ex m x s md t w) = entry_ex md t s (to_int_spec (- (2 ^ 7)) (2 ^ 7 - 1) m x 0) w
   \<and> map_prod sint id (sf64_to_i16_r_ex m x s md t w) = entry_ex md t s (to_int_spec (- (2 ^ 15)) (2 ^ 15 - 1) m x 0) w
   \<and> map_prod sint id (sf64_to_i32_r_ex m x s md t w) = entry_ex md t s (to_int_spec (- (2 ^ 31)) (2 ^ 31 - 1) m x 0) w
   \<and> map_prod sint id (sf64_to_i64_r_ex m x s md t w) = entry_ex md t s (to_int_spec (- (2 ^ 63)) (2 ^ 63 - 1) m x 0) w
   \<and> map_prod uint id (sf64_to_u8_r_ex m x s md t w) = entry_ex md t s (to_int_spec 0 (2 ^ 8 - 1) m x 0) w
   \<and> map_prod uint id (sf64_to_u16_r_ex m x s md t w) = entry_ex md t s (to_int_spec 0 (2 ^ 16 - 1) m x 0) w
   \<and> map_prod uint id (sf64_to_u32_r_ex m x s md t w) = entry_ex md t s (to_int_spec 0 (2 ^ 32 - 1) m x 0) w
   \<and> map_prod uint id (sf64_to_u64_r_ex m x s md t w) = entry_ex md t s (to_int_spec 0 (2 ^ 64 - 1) m x 0) w"
  by (intro conjI to_int_entries to_int_entries_rtz to_int_entries_ex to_int_entries_r_ex)

end
