(* ===== verification/Sf_Single.thy ===== *)
theory Sf_Single
  imports Sf_Convert
begin

text \<open>
  Binary32: its encodings and values, the correctly rounded narrowing of \<open>to_f32_impl\<close>, the exact
  widening of \<open>from_f32_impl\<close> and the round trip of the two, and \<open>logb\<close>, which returns an
  integer converted to a double.  The definitions are in \<open>Sf_Convert\<close>.
\<close>

section \<open>Binary32\<close>

definition enc32 :: "bool \<Rightarrow> nat \<Rightarrow> f32" where
  "enc32 s n = of_nat ((if s then 2 ^ 31 else 0) + n)"

definition sgn32 :: "f32 \<Rightarrow> bool" where "sgn32 b \<longleftrightarrow> 2 ^ 31 \<le> unat b"
definition mag32 :: "f32 \<Rightarrow> nat" where "mag32 b = unat b mod 2 ^ 31"
definition inf32 :: nat where "inf32 = 255 * 2 ^ 23"

definition val32 :: "f32 \<Rightarrow> real" where
  "val32 b = (if sgn32 b then - mag_val 23 (- 149) (mag32 b) else mag_val 23 (- 149) (mag32 b))"

definition ieee32 :: "sf64_rounding_mode \<Rightarrow> bool \<Rightarrow> real \<Rightarrow> u32 \<Rightarrow> f32 \<times> u32" where
  "ieee32 m s x fe = (enc32 s (fst (ieee_round 23 (- 149) 255 m s x)), fe OR snd (ieee_round 23 (- 149) 255 m s x))"

lemma unat_enc32: "n < 2 ^ 31 \<Longrightarrow> unat (enc32 s n) = (if s then 2 ^ 31 else 0) + n"
  unfolding enc32_def unat_of_nat by simp

lemma f32_word:
  assumes s: "sg = of_bool s" and e: "unat e < 2 ^ 8" and f: "unat f < 2 ^ 23"
  shows "push_bit 31 sg OR push_bit 23 e OR f = enc32 s (unat e * 2 ^ 23 + unat f)"
proof (rule word_eq_unatI)
  have "unat e * 2 ^ 23 \<le> 255 * 2 ^ 23" using e by (intro mult_right_mono) simp_all
  then have b: "unat e * 2 ^ 23 + unat f < 2 ^ 31" using f by simp
  have pe: "unat (push_bit 23 e) = unat e * 2 ^ 23" using e by (subst unat_push_bit_lt) simp_all
  have ps: "unat (push_bit 31 sg) = (if s then 2 ^ 31 else 0)" unfolding s by (subst unat_push_bit_lt) simp_all
  have ef: "unat (push_bit 23 e OR f) = unat e * 2 ^ 23 + unat f"
    using f by (subst unat_or_disjoint [where n = 23]) (simp_all add: pe)
  have "unat (push_bit 31 sg OR (push_bit 23 e OR f)) = (if s then 2 ^ 31 else 0) + (unat e * 2 ^ 23 + unat f)"
    using b by (subst unat_or_disjoint [where n = 31]) (simp_all add: ps ef)
  then show "unat (push_bit 31 sg OR push_bit 23 e OR f) = unat (enc32 s (unat e * 2 ^ 23 + unat f))"
    unfolding unat_enc32 [OF b] .
qed

lemma f32_word_low:
  assumes s: "sg = of_bool s" and f: "unat f < 2 ^ 23"
  shows "push_bit 31 sg OR f = enc32 s (unat f)" "push_bit 31 sg = enc32 s 0"
  using f32_word [OF s, of 0 f] f32_word [OF s, of 0 0] f by simp_all

lemma ieee32_tiny:
  assumes x: "0 < x" "x < 2 powi (- 150)"
  shows "ieee32 m s x fe = (enc32 s (of_bool (rounds_up m s)), fe OR (SF64_FE_UNDERFLOW OR SF64_FE_INEXACT))"
proof -
  have "x < 2 powi (- 126)" using x(2) powi2_mono [of "- 150" "- 126"] by linarith
  then have lg: "\<lfloor>log 2 x\<rfloor> < - 126" using floor_log2_less_iff [OF x(1)] by blast
  have q: "quantum 23 (- 149) x = - 149" unfolding quantum_def using lg by (intro max_absorb2) linarith
  define y where "y = x / 2 powi (- 149)"
  have p: "(2::real) powi (- 149) = 2 * 2 powi (- 150)" using powi2_shift [of "- 150" 1] by simp
  have y: "0 < y" "y < 1 / 2" unfolding y_def p using x by (simp_all add: field_simps)
  have r: "rnd_int m s y = of_bool (rounds_up m s)"
    using rnd_int_below_one [of y m s] y unfolding rounds_up_def by (cases m) simp_all
  have n: "round_mag 23 (- 149) m s x = of_bool (rounds_up m s)"
    unfolding round_mag_def Let_def q y_def [symmetric] r by simp
  have mv: "mag_val 23 (- 149) (of_bool b) \<noteq> x" for b
  proof (cases b)
    case True
    have "mag_val 23 (- 149) 1 = 2 powi (- 149)" by (simp add: mag_val_def)
    then show ?thesis using True x p by simp
  qed (use x in simp)
  have z: "\<not> 255 * 2 ^ 23 \<le> (of_bool b :: nat)" for b by (cases b) simp_all
  have t: "x < 2 powi (- 149 + int 23)" using \<open>x < 2 powi (- 126)\<close> by simp
  show ?thesis unfolding ieee32_def ieee_round_def Let_def n if_not_P [OF z] if_not_P [OF mv] if_P [OF t] by simp
qed

lemma f32_tiny_correct:
  assumes s: "sg = of_bool s" and x: "0 < x" "x < 2 powi (- 150)"
  shows "f32_tiny sg m fe = ieee32 m s x fe"
proof -
  have "(m = SF64_RUP \<and> sg = 0) \<or> (m = SF64_RDN \<and> sg \<noteq> 0) \<longleftrightarrow> rounds_up m s"
    unfolding s rounds_up_def by simp
  then show ?thesis
    using f32_word_low [OF s, of 1] unfolding ieee32_tiny [OF x] f32_tiny_def Let_def by simp
qed

lemma f32_overflow_correct:
  assumes s: "sg = of_bool s"
  shows "f32_overflow_bits sg m = enc32 s (overflow_mag 23 255 m s)"
  unfolding s by (cases m; cases s) (simp_all add: enc32_def f32_overflow_bits_def overflow_mag_def rounds_down_def)

lemma scaled_log:
  assumes N: "2 ^ 52 \<le> N" "N < (2::nat) ^ 53" and x: "x = real N * 2 powi (e - 52)"
  shows "0 < x" "\<lfloor>log 2 x\<rfloor> = e"
proof -
  have Nb: "real (2 ^ 52) \<le> real N" "real N < real (2 ^ 53)" using N unfolding of_nat_le_iff of_nat_less_iff .
  have "(0::real) < real (2 ^ 52)" by simp
  then have "0 < real N" using Nb(1) by (rule order_less_le_trans)
  then show "0 < x" unfolding x by simp
  have p: "(2::real) powi e = real (2 ^ 52) * 2 powi (e - 52)" "(2::real) powi (e + 1) = real (2 ^ 53) * 2 powi (e - 52)"
    using powi2_shift [of "e - 52" 52] powi2_shift [of "e - 52" 53] by (simp_all add: algebra_simps)
  show "\<lfloor>log 2 x\<rfloor> = e"
    using Nb by (intro floor_log2_eqI; unfold p x) (intro mult_right_mono mult_strict_right_mono; simp)+
qed

lemma ieee32_scaled:
  assumes N: "2 ^ 52 \<le> N" "N < (2::nat) ^ 53" and x: "x = real N * 2 powi (e - 52)" and d: "d = nat (e + 126)" and r: "int r = (if e < - 126 then - 97 - e else 29)"
  shows "ieee32 m s x fe =
    (let n = d * 2 ^ 23 + round_bits m s (r - 1) N
     in if 255 * 2 ^ 23 \<le> n then (enc32 s (overflow_mag 23 255 m s), fe OR (SF64_FE_OVERFLOW OR SF64_FE_INEXACT))
        else (enc32 s n, fe OR (if N mod 2 ^ r = 0 then 0
                 else if e < - 126 then SF64_FE_UNDERFLOW OR SF64_FE_INEXACT else SF64_FE_INEXACT)))"
proof -
  note lg = scaled_log [OF N x]
  have q: "quantum 23 (- 149) x = - 149 + int d" unfolding quantum_def lg(2) d by simp
  have r1: "1 \<le> r" "Suc (r - 1) = r" using r by (auto split: if_splits)
  have ed: "- 149 + int d = e - 52 + int r" using r d by (auto split: if_splits)
  have "(2::real) powi (- 149 + int d) = 2 ^ r * 2 powi (e - 52)" unfolding ed by (metis powi2_shift mult.commute)
  then have "x / 2 powi (- 149 + int d) * 2 ^ Suc (r - 1) = real N" unfolding x r1(2) by simp
  then have c: "same_cell (r - 1) (real N) (x / 2 powi (- 149 + int d) * 2 ^ Suc (r - 1))" by simp
  have t: "x < 2 powi (- 149 + int 23) \<longleftrightarrow> e < - 126"
    using floor_log2_less_iff [OF lg(1), of "- 126"] unfolding lg(2) by simp
  show ?thesis unfolding ieee32_def ieee_round_cell [OF lg(1) q c] t r1(2) Let_def by (simp split: if_splits)
qed

lemma normal_value:
  assumes "extract_exp x \<noteq> 0"
  shows "\<bar>val64 x\<bar> = real (2 ^ 52 + unat (extract_frac x)) * 2 powi (int (unat (extract_exp x)) - 1023 - 52)"
proof -
  have m: "mag64 x div 2 ^ 52 = unat (extract_exp x)" "mag64 x mod 2 ^ 52 = unat (extract_frac x)"
    by (simp_all only: unat_extract_exp_mag unat_extract_frac_mag)
  have "unat (extract_exp x) \<noteq> 0" using assms by (simp add: unat_eq_zero)
  then show ?thesis unfolding abs_val64 mag_val_def m by (simp add: algebra_simps)
qed

lemma to_f32_normal:
  assumes fin: "is_finite_bits x" and nz: "extract_exp x \<noteq> 0"
  shows "to_f32_impl x m fe = ieee32 m (sgn64 x) \<bar>val64 x\<bar> fe"
proof -
  define s where "s = sgn64 x"
  define N where "N = 2 ^ 52 + unat (extract_frac x)"
  define mant where "mant = extract_frac x OR kImplicitBit"
  define e where "e = int (unat (extract_exp x)) - 1023"
  have N: "2 ^ 52 \<le> N" "N < 2 ^ 53" using extract_frac_less [of x] by (simp_all add: N_def)
  have mant: "unat mant = N" unfolding mant_def N_def by (rule unat_significand)
  have nm: "extract_exp x \<noteq> kExpMax" using fin by (simp add: is_finite_bits_def)
  have sg: "extract_sign x = of_bool s" "extract_sign x \<noteq> 0 \<longleftrightarrow> s" by (simp_all add: extract_sign_cases s_def)
  have v: "\<bar>val64 x\<bar> = real N * 2 powi (e - 52)" unfolding normal_value [OF nz] N_def e_def ..
  have u: "uint (extract_exp x) - kExpBias = e" unfolding uint_exp e_def ..
  note spec = ieee32_scaled [OF N v refl, of _ m s fe]
  note code = to_f32_impl_def [of x m fe, unfolded Let_def if_not_P [OF nm] if_not_P [OF nz] u mant_def [symmetric]]
  consider (over) "128 \<le> e" | (normal) "e < 128" "- 126 \<le> e" | (sub) "e < - 126" "- 150 \<le> e" | (tiny) "e < - 150" by linarith
  then show ?thesis
  proof cases
    case over
    have n: "0xFF \<le> e + 127" "int 29 = (if e < - 126 then - 97 - e else 29)" using over by simp_all
    have "2 ^ 23 \<le> round_bits m s 28 N" using N(1) by (intro round_bits_ge) simp
    moreover have "254 \<le> nat (e + 126)" using over by simp
    ultimately have "255 * 2 ^ 23 \<le> nat (e + 126) * 2 ^ 23 + round_bits m s 28 N" by simp
    then show ?thesis unfolding code if_P [OF n(1)] s_def [symmetric] spec [OF n(2)] Let_def
      by (simp add: f32_overflow_correct [OF sg(1)])
  next
    case normal
    define K where "K = round_bits m s (29 - 1) N"
    define R where "R = guarded_shift mant 29 (extract_sign x) m"
    have n: "\<not> 0xFF \<le> e + 127" "0 < e + 127" "int 29 = (if e < - 126 then - 97 - e else 29)" using normal by simp_all
    have R: "unat (fst R) = K" "snd R \<longleftrightarrow> N mod 2 ^ 29 \<noteq> 0"
      using guarded_shift_correct [OF mant, of 29 "extract_sign x" m] unfolding R_def K_def sg(2) by simp_all
    have Kb: "2 ^ 23 \<le> K" "K \<le> 2 ^ 24"
      using round_bits_ge [of 23 28 N m s] round_bits_le [of N 24 28 m s] N unfolding K_def by simp_all
    have top: "fst R AND push_bit 24 1 \<noteq> 0 \<longleftrightarrow> K = 2 ^ 24"
      unfolding single_bit_test R(1) using Kb(2) top_bit_iff [of K 24] by auto
    define ne where "ne = (word_of_int (e + 127) :: u32)"
    have ne: "unat ne = nat (e + 127)" unfolding ne_def using normal by (subst unat_word_of_int) simp_all
    have ne1: "unat (ne + 1) = nat (e + 127) + 1" using ne normal by (subst unat_add_lt) simp_all
    have ov: "0xFF \<le> ne + 1 \<longleftrightarrow> e = 127" unfolding word_le_nat_alt ne1 using normal by auto
    have dn: "nat (e + 127) = Suc (nat (e + 126))" using normal by simp
    have c: "to_f32_impl x m fe =
      (if fst R AND push_bit 24 1 \<noteq> 0
       then (if 0xFF \<le> ne + 1 then (f32_overflow_bits (extract_sign x) m, fe OR (SF64_FE_OVERFLOW OR SF64_FE_INEXACT))
             else (push_bit 31 (extract_sign x) OR push_bit 23 (ne + 1) OR 0, if snd R then fe OR SF64_FE_INEXACT else fe))
       else (push_bit 31 (extract_sign x) OR push_bit 23 ne OR (ucast (fst R) AND 0x7FFFFF), if snd R then fe OR SF64_FE_INEXACT else fe))"
      unfolding code if_not_P [OF n(1)] if_P [OF n(2)] R_def [symmetric] ne_def [symmetric] by (simp add: split_beta)
    show ?thesis
    proof (cases "K = 2 ^ 24")
      case True
      show ?thesis
      proof (cases "e = 127")
        case ov': True
        have "255 * 2 ^ 23 \<le> nat (e + 126) * 2 ^ 23 + round_bits m s (29 - 1) N" unfolding K_def [symmetric] True ov' by simp
        then show ?thesis unfolding c top ov s_def [symmetric] spec [OF n(3)] Let_def using True ov'
          by (simp add: f32_overflow_correct [OF sg(1)])
      next
        case False
        then have e8: "unat (ne + 1) < 2 ^ 8" unfolding ne1 using normal by simp
        have "unat (ne + 1) * 2 ^ 23 + unat (0 :: u32) = nat (e + 126) * 2 ^ 23 + 2 ^ 24" unfolding ne1 dn by simp
        then have "push_bit 31 (extract_sign x) OR push_bit 23 (ne + 1) OR 0 = enc32 s (nat (e + 126) * 2 ^ 23 + 2 ^ 24)"
          using f32_word [OF sg(1) e8, of 0] by simp
        moreover have "\<not> 255 * 2 ^ 23 \<le> nat (e + 126) * 2 ^ 23 + round_bits m s (29 - 1) N"
          unfolding K_def [symmetric] True using False normal by (simp add: not_le nat_less_iff)
        ultimately show ?thesis unfolding c top ov s_def [symmetric] spec [OF n(3)] Let_def K_def [symmetric]
          using True False R(2) normal by simp
      qed
    next
      case False
      then have K2: "K < 2 ^ 24" using Kb(2) by simp
      have m23: "(0x7FFFFF :: u32) = mask 23" by (simp add: mask_eq_exp_minus_1)
      have f: "unat (ucast (fst R) AND 0x7FFFFF :: u32) = K - 2 ^ 23"
      proof -
        have "unat (ucast (fst R) :: u32) = K" using K2 R(1) by (subst unat_ucast_lt) simp_all
        then have "unat (ucast (fst R) AND mask 23 :: u32) = K mod 2 ^ 23" unfolding unat_and_mask by simp
        also have "\<dots> = K - 2 ^ 23" using Kb(1) K2 by (simp add: mod_if [of K])
        finally show ?thesis unfolding m23 .
      qed
      have e8: "unat ne < 2 ^ 8" unfolding ne using normal by simp
      have "push_bit 31 (extract_sign x) OR push_bit 23 ne OR (ucast (fst R) AND 0x7FFFFF) = enc32 s (unat ne * 2 ^ 23 + (K - 2 ^ 23))"
        using f32_word [OF sg(1) e8, of "ucast (fst R) AND 0x7FFFFF"] K2 unfolding f by simp
      moreover have "unat ne * 2 ^ 23 + (K - 2 ^ 23) = nat (e + 126) * 2 ^ 23 + K" unfolding ne dn using Kb(1) by simp
      moreover have "\<not> 255 * 2 ^ 23 \<le> nat (e + 126) * 2 ^ 23 + round_bits m s (29 - 1) N"
      proof -
        have "nat (e + 126) \<le> 253" using normal by simp
        then show ?thesis unfolding K_def [symmetric] using K2 by simp
      qed
      ultimately show ?thesis unfolding c top s_def [symmetric] spec [OF n(3)] Let_def K_def [symmetric]
        using False R(2) normal by simp
    qed
  next
    case sub
    define r where "r = nat (- 97 - e)"
    define K where "K = round_bits m s (r - 1) N"
    define R where "R = guarded_shift mant (int r) (extract_sign x) m"
    have r: "int r = (if e < - 126 then - 97 - e else 29)" "30 - (e + 127) = int r" "1 \<le> r" "30 \<le> r" "\<not> 53 < int r"
      using sub by (simp_all add: r_def)
    have n: "\<not> 0xFF \<le> e + 127" "\<not> 0 < e + 127" using sub by simp_all
    have R: "unat (fst R) = K" "snd R \<longleftrightarrow> N mod 2 ^ r \<noteq> 0"
      using guarded_shift_correct [OF mant r(3), of "extract_sign x" m] unfolding R_def K_def sg(2) by simp_all
    have "N < 2 ^ (23 + Suc (r - 1))" using N(2) by (rule order_less_le_trans) (use r(4) in \<open>intro power_increasing; simp\<close>)
    then have Kb: "K \<le> 2 ^ 23" unfolding K_def by (rule round_bits_le)
    have top: "fst R AND push_bit 23 1 \<noteq> 0 \<longleftrightarrow> K = 2 ^ 23"
      unfolding single_bit_test R(1) using Kb top_bit_iff [of K 23] by auto
    have d0: "nat (e + 126) = 0" using sub by simp
    have c: "to_f32_impl x m fe =
      (if fst R AND push_bit 23 1 \<noteq> 0 then (push_bit 31 (extract_sign x) OR push_bit 23 1, if snd R then fe OR (SF64_FE_UNDERFLOW OR SF64_FE_INEXACT) else fe)
       else (push_bit 31 (extract_sign x) OR (ucast (fst R) AND 0x7FFFFF), if snd R then fe OR (SF64_FE_UNDERFLOW OR SF64_FE_INEXACT) else fe))"
      unfolding code if_not_P [OF n(1)] if_not_P [OF n(2)] r(2) if_not_P [OF r(5)] R_def [symmetric] by (simp add: split_beta)
    show ?thesis
    proof (cases "K = 2 ^ 23")
      case True
      have "push_bit 31 (extract_sign x) OR push_bit 23 1 = enc32 s K"
        unfolding True using f32_word [OF sg(1), of 1 0] by simp
      then show ?thesis unfolding c top s_def [symmetric] spec [OF r(1)] Let_def d0 K_def [symmetric]
        using True R(2) sub by simp
    next
      case False
      then have K2: "K < 2 ^ 23" using Kb by simp
      have m23: "(0x7FFFFF :: u32) = mask 23" by (simp add: mask_eq_exp_minus_1)
      have "unat (ucast (fst R) :: u32) = K" using K2 R(1) by (subst unat_ucast_lt) simp_all
      then have f: "unat (ucast (fst R) AND 0x7FFFFF :: u32) = K" unfolding m23 unat_and_mask using K2 by simp
      have "push_bit 31 (extract_sign x) OR (ucast (fst R) AND 0x7FFFFF) = enc32 s K"
        using f32_word_low(1) [OF sg(1), of "ucast (fst R) AND 0x7FFFFF"] K2 unfolding f by simp
      then show ?thesis unfolding c top s_def [symmetric] spec [OF r(1)] Let_def d0 K_def [symmetric]
        using False R(2) sub K2 by simp
    qed
  next
    case tiny
    have n: "\<not> 0xFF \<le> e + 127" "\<not> 0 < e + 127" "53 < 30 - (e + 127)" "mant \<noteq> 0"
      using tiny mant N by (auto simp: unat_eq_zero [symmetric])
    note lg = scaled_log [OF N v]
    have "\<bar>val64 x\<bar> < 2 powi (- 150)" using floor_log2_less_iff [OF lg(1), of "- 150"] tiny unfolding lg(2) by blast
    then show ?thesis
      unfolding code if_not_P [OF n(1)] if_not_P [OF n(2)] if_P [OF n(3)] if_not_P [OF n(4)] s_def [symmetric]
      by (rule f32_tiny_correct [OF sg(1) lg(1)])
  qed
qed

text \<open>
  The converted NaN: quiet, with the sign and the leading payload bits of the operand.
\<close>

definition nan32_of :: "f64 \<Rightarrow> f32" where
  "nan32_of x = enc32 (sgn64 x) (inf32 + (unat (extract_frac x) div 2 ^ 29 OR 2 ^ 22))"

lemma to_f32_sound:
  "to_f32_impl x m fe =
    (if is_nan_bits x then (nan32_of x, if is_snan_bits x then fe OR SF64_FE_INVALID else fe)
     else if is_inf_bits x then (enc32 (sgn64 x) inf32, fe)
     else if is_zero_bits x then (enc32 (sgn64 x) 0, fe)
     else ieee32 m (sgn64 x) \<bar>val64 x\<bar> fe)"
proof -
  have sg: "extract_sign x = of_bool (sgn64 x)" by (rule extract_sign_cases)
  consider (nan) "is_nan_bits x" | (inf) "is_inf_bits x" | (zero) "is_zero_bits x" | (sub) "is_subnormal_bits x"
    | (normal) "is_finite_bits x" "extract_exp x \<noteq> 0"
    unfolding is_subnormal_bits_def is_nan_bits_def is_inf_bits_def is_finite_bits_def
    by (metis extract_exp_0_iff extract_frac_0_iff is_zero_bits_iff mod_less)
  then show ?thesis
  proof cases
    case nan
    define f where "f = unat (extract_frac x) div 2 ^ 29"
    have f23: "f < 2 ^ 23" using extract_frac_less [of x] by (simp add: f_def div_less_iff_less_mult)
    have m23: "(0x7FFFFF :: u32) = mask 23" by (simp add: mask_eq_exp_minus_1)
    have "unat (ucast (drop_bit 29 (extract_frac x)) :: u32) = f"
      using f23 by (subst unat_ucast_lt) (simp_all add: unat_drop_bit f_def)
    then have p: "unat (ucast (drop_bit 29 (extract_frac x)) AND 0x7FFFFF :: u32) = f"
      unfolding m23 unat_and_mask using f23 by simp
    have o: "unat (ucast (drop_bit 29 (extract_frac x)) AND 0x7FFFFF OR 0x400000 :: u32) = f OR 2 ^ 22"
      unfolding unsigned_or_eq p by simp
    have "int (f OR 2 ^ 22) < 2 ^ 23" unfolding of_nat_or_eq using OR_upper [of "int f" 23 "2 ^ 22"] f23 by simp
    then have "f OR 2 ^ 22 < 2 ^ 23" by simp
    then have "push_bit 31 (extract_sign x) OR push_bit 23 0xFF OR (ucast (drop_bit 29 (extract_frac x)) AND 0x7FFFFF OR 0x400000)
      = enc32 (sgn64 x) (unat (0xFF :: u32) * 2 ^ 23 + (f OR 2 ^ 22))"
      using f32_word [OF sg, of "0xFF" "ucast (drop_bit 29 (extract_frac x)) AND 0x7FFFFF OR 0x400000"] unfolding o by simp
    then show ?thesis using nan
      by (simp add: to_f32_impl_def is_nan_bits_def nan32_of_def inf32_def f_def or.assoc)
  next
    case inf
    then have "\<not> is_nan_bits x" by (simp add: class_iff)
    then show ?thesis using inf f32_word [OF sg, of "0xFF" 0] by (simp add: to_f32_impl_def is_inf_bits_def inf32_def)
  next
    case zero
    then have "\<not> is_nan_bits x" "\<not> is_inf_bits x" "extract_exp x = 0" "extract_frac x = 0"
      by (simp_all add: class_iff inf64_def extract_exp_0_iff extract_frac_0_iff)
    then show ?thesis using zero f32_word_low(2) [OF sg, of 0] by (simp add: to_f32_impl_def kExpMax_def)
  next
    case sub
    then have c: "\<not> is_nan_bits x" "\<not> is_inf_bits x" "\<not> is_zero_bits x" "extract_exp x = 0" "extract_frac x \<noteq> 0"
      by (auto simp: class_iff inf64_def is_subnormal_bits_def extract_exp_0_iff extract_frac_0_iff)
    have "0 < mag64 x" "mag64 x < 2 ^ 52" using sub by (simp_all add: is_subnormal_bits_iff)
    then have "0 < \<bar>val64 x\<bar>" "\<bar>val64 x\<bar> < mag_val 52 (- 1074) (2 ^ 52)" unfolding abs_val64 by simp_all
    moreover have "mag_val 52 (- 1074) (2 ^ 52) = 2 powi (- 1022)"
      using powi2_shift [of "- 1074" 52] by (simp add: mag_val_def)
    moreover have "(2::real) powi (- 1022) \<le> 2 powi (- 150)" by (rule powi2_mono) simp
    ultimately have x: "0 < \<bar>val64 x\<bar>" "\<bar>val64 x\<bar> < 2 powi (- 150)" by linarith+
    show ?thesis using c f32_tiny_correct [OF sg x] by (simp add: to_f32_impl_def kExpMax_def)
  next
    case normal
    then have "\<not> is_nan_bits x" "\<not> is_inf_bits x" "\<not> is_zero_bits x"
      by (auto simp: class_iff extract_exp_0_iff)
    then show ?thesis using to_f32_normal [OF normal] by simp
  qed
qed

lemma mag32_less: "mag32 b < 2 ^ 31" by (simp add: mag32_def)

lemma unat_split32: "unat b = (if sgn32 b then 2 ^ 31 else 0) + mag32 b"
proof (cases "sgn32 b")
  case True
  then obtain r where "unat b = 2 ^ 31 + r" by (metis le_Suc_ex sgn32_def)
  then show ?thesis using True unat_lt32 [of b] by (simp add: mag32_def)
qed (simp add: sgn32_def mag32_def)

lemma enc32_sgn_mag: "enc32 (sgn32 b) (mag32 b) = b"
  by (rule word_eq_unatI) (simp only: unat_enc32 [OF mag32_less] unat_split32 [of b])

lemma fields32:
  shows "drop_bit 31 b AND 1 = of_bool (sgn32 b)" "unat (drop_bit 23 b AND 0xFF) = mag32 b div 2 ^ 23"
    "unat (b AND 0x7FFFFF) = mag32 b mod 2 ^ 23"
proof -
  have m: "(0xFF :: u32) = mask 8" "(0x7FFFFF :: u32) = mask 23" by (simp_all add: mask_eq_exp_minus_1)
  have "unat b div 2 ^ 31 mod 2 = of_bool (sgn32 b)" using mag32_less [of b] unfolding unat_split32 [of b] by simp
  then show "drop_bit 31 b AND 1 = of_bool (sgn32 b)" by (intro word_eq_unatI) (simp add: unat_and_1 unat_drop_bit)
  have "mag32 b div 2 ^ 23 = unat b div 2 ^ 23 mod 2 ^ 8"
    unfolding mag32_def using mod_split [of "unat b" 23 8] by simp
  then show "unat (drop_bit 23 b AND 0xFF) = mag32 b div 2 ^ 23" unfolding m unat_and_mask unat_drop_bit by simp
  have "mag32 b mod 2 ^ 23 = unat b mod 2 ^ 23" unfolding mag32_def by (rule mod_mod_cancel) (simp add: le_imp_power_dvd)
  then show "unat (b AND 0x7FFFFF) = mag32 b mod 2 ^ 23" unfolding m unat_and_mask by simp
qed

text \<open>The magnitude bits of the double that carries the binary32 magnitude \<open>n\<close>.\<close>

definition widen :: "nat \<Rightarrow> nat" where
  "widen n =
     (if n div 2 ^ 23 = 0
      then (let p = \<lfloor>log 2 (real n)\<rfloor> in (873 + nat p) * 2 ^ 52 + n * 2 ^ (52 - nat p))
      else (n div 2 ^ 23 + 896) * 2 ^ 52 + n mod 2 ^ 23 * 2 ^ 29)"

lemma widen_subnormal:
  assumes n: "0 < n" "n < 2 ^ 23" and p: "2 ^ p \<le> n" "n < 2 ^ Suc p"
  shows "widen n = (873 + p) * 2 ^ 52 + n * 2 ^ (52 - p)" "2 ^ 52 \<le> n * 2 ^ (52 - p)" "n * 2 ^ (52 - p) < 2 ^ 53"
    "mag_val 52 (- 1074) (widen n) = mag_val 23 (- 149) n" "p \<le> 22"
proof -
  have "(2::nat) ^ p < 2 ^ 23" using p(1) n(2) by (rule order_le_less_trans)
  then have "p < 23" by (rule power_less_imp_less_exp [rotated]) simp
  then show p22: "p \<le> 22" by simp
  have pr: "real (2 ^ p) \<le> real n" "real n < real (2 ^ Suc p)" using p unfolding of_nat_le_iff of_nat_less_iff .
  have "\<lfloor>log 2 (real n)\<rfloor> = int p"
    by (rule floor_log2_eqI) (use pr in \<open>simp_all add: power_int_of_nat powi2_add\<close>)
  then show w: "widen n = (873 + p) * 2 ^ 52 + n * 2 ^ (52 - p)" using n by (simp add: widen_def)
  have q: "2 ^ p * 2 ^ (52 - p) = (2::nat) ^ 52" "2 ^ Suc p * 2 ^ (52 - p) = (2::nat) ^ 53"
    unfolding power_add [symmetric] using p22 by simp_all
  show k1: "2 ^ 52 \<le> n * 2 ^ (52 - p)" unfolding q(1) [symmetric] using p(1) by (rule mult_right_mono) simp
  show k2: "n * 2 ^ (52 - p) < 2 ^ 53" unfolding q(2) [symmetric] using p(2) by (rule mult_strict_right_mono) simp
  have "mag_val 52 (- 1074) (widen n) = real (n * 2 ^ (52 - p)) * 2 powi (- 1074 + int (873 + p))"
    unfolding w using k1 k2 by (intro mag_val_encode) simp_all
  also have "\<dots> = real n * (2 powi (- 1074 + int (873 + p)) * 2 ^ (52 - p))" by simp
  also have "(2::real) powi (- 1074 + int (873 + p)) * 2 ^ (52 - p) = 2 powi (- 149)"
    unfolding powi2_shift using p22 by (simp add: of_nat_diff)
  finally show "mag_val 52 (- 1074) (widen n) = mag_val 23 (- 149) n" using n by (simp add: mag_val_def)
qed

lemma widen_normal:
  assumes n: "2 ^ 23 \<le> n" "n < inf32"
  shows "widen n = (n div 2 ^ 23 + 896) * 2 ^ 52 + n mod 2 ^ 23 * 2 ^ 29" "n div 2 ^ 23 < 255" "n mod 2 ^ 23 * 2 ^ 29 < 2 ^ 52"
    "mag_val 52 (- 1074) (widen n) = mag_val 23 (- 149) n"
proof -
  have e: "n div 2 ^ 23 \<noteq> 0" using n(1) by (simp add: div_eq_0_iff)
  show e2: "n div 2 ^ 23 < 255" using n(2) by (simp add: inf32_def div_less_iff_less_mult)
  show w: "widen n = (n div 2 ^ 23 + 896) * 2 ^ 52 + n mod 2 ^ 23 * 2 ^ 29" using e by (simp add: widen_def)
  show f: "n mod 2 ^ 23 * 2 ^ 29 < 2 ^ 52" by simp
  have d: "widen n div 2 ^ 52 = n div 2 ^ 23 + 896" "widen n mod 2 ^ 52 = n mod 2 ^ 23 * 2 ^ 29"
    unfolding w mod_mult_self3 using f by simp_all
  have "mag_val 52 (- 1074) (widen n) = real (n mod 2 ^ 23 * 2 ^ 29 + 2 ^ 52) * 2 powi (- 1074 + int (n div 2 ^ 23 + 896) - 1)"
    unfolding mag_val_def d by simp
  also have "\<dots> = real (n mod 2 ^ 23 + 2 ^ 23) * (2 powi (- 1074 + int (n div 2 ^ 23 + 896) - 1) * 2 ^ 29)" by simp
  also have "(2::real) powi (- 1074 + int (n div 2 ^ 23 + 896) - 1) * 2 ^ 29 = 2 powi (- 149 + int (n div 2 ^ 23) - 1)"
    unfolding powi2_shift by (simp add: algebra_simps)
  finally show "mag_val 52 (- 1074) (widen n) = mag_val 23 (- 149) n" using e by (simp add: mag_val_def)
qed

lemma widen_less: "0 < n \<Longrightarrow> n < inf32 \<Longrightarrow> widen n < inf64 \<and> mag_val 52 (- 1074) (widen n) = mag_val 23 (- 149) n"
proof (cases "n < 2 ^ 23")
  case True
  assume n: "0 < n"
  obtain p where p: "2 ^ p \<le> n" "n < 2 ^ Suc p" using ex_power_ivl1 [of 2 n] n by auto
  note w = widen_subnormal [OF n True p]
  have "(873 + p) * 2 ^ 52 \<le> 895 * 2 ^ 52" using w(5) by (intro mult_right_mono) simp_all
  then show ?thesis using w(1,3,4) by (simp add: inf64_def)
next
  case False
  assume n: "n < inf32"
  note w = widen_normal [OF _ n]
  have "(n div 2 ^ 23 + 896) * 2 ^ 52 \<le> 1150 * 2 ^ 52" using w(2) False by (intro mult_right_mono) simp_all
  then show ?thesis using w False by (simp add: inf64_def)
qed

lemma tests32:
  "drop_bit 23 b AND 0xFF = 0 \<longleftrightarrow> mag32 b < 2 ^ 23" "b AND 0x7FFFFF = 0 \<longleftrightarrow> mag32 b mod 2 ^ 23 = 0"
  "drop_bit 23 b AND 0xFF = 0xFF \<longleftrightarrow> inf32 \<le> mag32 b"
proof -
  have "mag32 b div 2 ^ 23 < 2 ^ 8" using mag32_less [of b] by (simp add: div_less_iff_less_mult)
  then have "mag32 b div 2 ^ 23 = 255 \<longleftrightarrow> 255 \<le> mag32 b div 2 ^ 23" by auto
  then have e: "mag32 b div 2 ^ 23 = 255 \<longleftrightarrow> inf32 \<le> mag32 b" by (simp add: inf32_def less_eq_div_iff_mult_less_eq)
  have u: "unat (0xFF :: u32) = 255" "unat (0 :: u32) = 0" by simp_all
  show "drop_bit 23 b AND 0xFF = 0 \<longleftrightarrow> mag32 b < 2 ^ 23"
    unfolding word_unat_eq_iff fields32(2) u by (simp add: div_eq_0_iff)
  show "b AND 0x7FFFFF = 0 \<longleftrightarrow> mag32 b mod 2 ^ 23 = 0"
    unfolding word_unat_eq_iff fields32(3) u ..
  show "drop_bit 23 b AND 0xFF = 0xFF \<longleftrightarrow> inf32 \<le> mag32 b"
    unfolding word_unat_eq_iff fields32(2) u by (rule e)
qed

lemma sign32: "(of_bool s :: u32) = 0 \<or> (of_bool s :: u32) = 1" "(of_bool s :: u32) \<noteq> 0 \<longleftrightarrow> s" "odd (unat (of_bool s :: u32)) \<longleftrightarrow> s"
  by simp_all

lemma from_f32_zero: "mag32 b = 0 \<Longrightarrow> from_f32_impl b fe = (enc64 (sgn32 b) 0, fe)"
proof -
  assume z: "mag32 b = 0"
  have t: "mag32 b < 2 ^ 23" "mag32 b mod 2 ^ 23 = 0" by (simp_all add: z)
  have "push_bit 63 (ucast (of_bool (sgn32 b) :: u32)) = enc64 (sgn32 b) 0" by (simp add: enc64_def)
  then show ?thesis unfolding from_f32_impl_def Let_def tests32 if_P [OF t(1)] if_P [OF t(2)] fields32(1) by simp
qed

lemma from_f32_subnormal:
  assumes n: "0 < mag32 b" "mag32 b < 2 ^ 23"
  shows "from_f32_impl b fe = (enc64 (sgn32 b) (widen (mag32 b)), fe)"
proof -
  let ?n = "mag32 b"
  define fr where "fr = b AND 0x7FFFFF"
  have fr: "unat fr = ?n" unfolding fr_def fields32(3) using n(2) by (rule mod_less)
  have f0: "fr \<noteq> 0" using fr n(1) by auto
  define p where "p = nat (31 - clz32 fr)"
  define j where "j = nat (clz32 fr)"
  note c = clz32_bounds [OF f0]
  have j: "clz32 fr = int j" "31 = p + j" using c(1,2) by (auto simp: j_def p_def)
  have q: "(2::nat) ^ 31 = 2 ^ p * 2 ^ j" "(2::nat) ^ 32 = 2 ^ Suc p * 2 ^ j"
    unfolding power_add [symmetric] using j(2) by simp_all
  have "2 ^ p * 2 ^ j \<le> ?n * 2 ^ j" using c(3) unfolding j_def [symmetric] fr q(1) .
  moreover have "?n * 2 ^ j < 2 ^ Suc p * 2 ^ j" using c(4) unfolding j_def [symmetric] fr q(2) .
  ultimately have p: "2 ^ p \<le> ?n" "?n < 2 ^ Suc p" by simp_all
  note w = widen_subnormal [OF n p]
  have e: "31 - clz32 fr = int p" "905 - clz32 fr = 874 + int p" "nat (52 - int p) = 52 - p" using j w(5) by simp_all
  have uf: "unat (ucast fr :: u64) = ?n" using n(2) fr by (subst unat_ucast_lt) simp_all
  have "unat (push_bit (52 - p) (ucast fr) :: u64) = ?n * 2 ^ (52 - p)"
    using w(3) by (subst unat_push_bit_lt) (simp_all add: uf)
  then have um: "unat (push_bit (52 - p) (ucast fr) AND kFracMask) = ?n * 2 ^ (52 - p) - 2 ^ 52"
    unfolding field_masks unat_and_mask using w(2,3) by (simp add: mod_if [of "?n * 2 ^ (52 - p)"])
  have m: "(?n * 2 ^ (52 - p) - 2 ^ 52) mod 2 ^ 52 = ?n * 2 ^ (52 - p) - 2 ^ 52" using w(3) by simp
  have d: "nat (874 + int p) * 2 ^ 52 + (?n * 2 ^ (52 - p) - 2 ^ 52) = widen ?n"
  proof -
    have "nat (874 + int p) = Suc (873 + p)" by simp
    then show ?thesis unfolding w(1) using w(2) by simp
  qed
  have eb: "0 \<le> 874 + int p" "874 + int p < 2048" using w(5) by simp_all
  have pk: "pack (of_bool (sgn32 b)) (word_of_int (874 + int p)) (push_bit (52 - p) (ucast fr) AND kFracMask) = enc64 (sgn32 b) (widen ?n)"
    unfolding pack_nat [OF sign32(1) eb] um m d sign32(2) ..
  have nz: "\<not> ?n mod 2 ^ 23 = 0" using n by simp
  show ?thesis
    unfolding from_f32_impl_def Let_def tests32 if_P [OF n(2)] if_not_P [OF nz] fields32(1)
    unfolding fr_def [symmetric] e pk ..
qed

lemma from_f32_normal:
  assumes n: "2 ^ 23 \<le> mag32 b" "mag32 b < inf32"
  shows "from_f32_impl b fe = (enc64 (sgn32 b) (widen (mag32 b)), fe)"
proof -
  let ?n = "mag32 b"
  define ex fr where d: "ex = drop_bit 23 b AND 0xFF" "fr = b AND 0x7FFFFF"
  have ex: "unat ex = ?n div 2 ^ 23" and fr: "unat fr = ?n mod 2 ^ 23" unfolding d by (rule fields32)+
  note w = widen_normal [OF n]
  have "unat fr < 2 ^ 23" unfolding fr by simp
  then have "unat (ucast fr :: u64) = unat fr" by (intro unat_ucast_lt) simp
  then have uf: "unat (push_bit 29 (ucast fr) :: u64) = ?n mod 2 ^ 23 * 2 ^ 29"
    using w(3) fr by (subst unat_push_bit_lt) simp_all
  have u896: "unat (word_of_int (kExpBias - 127) :: u32) = 896" by (simp add: kExpBias_def)
  have ue: "unat (ex + word_of_int (kExpBias - 127)) = ?n div 2 ^ 23 + 896"
    using w(2) ex u896 by (subst unat_add_lt) simp_all
  have m: "(?n div 2 ^ 23 + 896) mod 2 ^ 11 = ?n div 2 ^ 23 + 896" "(?n mod 2 ^ 23 * 2 ^ 29) mod 2 ^ 52 = ?n mod 2 ^ 23 * 2 ^ 29"
    using w(2) by (intro mod_less; simp)+
  have pk: "pack (of_bool (sgn32 b)) (ex + word_of_int (kExpBias - 127)) (push_bit 29 (ucast fr)) = enc64 (sgn32 b) (widen ?n)"
    unfolding pack_enc64 sign32(3) ue uf m w(1) ..
  have t: "\<not> ?n < 2 ^ 23" "\<not> inf32 \<le> ?n" using n by simp_all
  show ?thesis
    unfolding from_f32_impl_def Let_def tests32 if_not_P [OF t(1)] if_not_P [OF t(2)] fields32(1)
    unfolding d [symmetric] pk ..
qed

lemma from_f32_inf: "mag32 b = inf32 \<Longrightarrow> from_f32_impl b fe = (enc64 (sgn32 b) inf64, fe)"
proof -
  assume n: "mag32 b = inf32"
  have t: "\<not> mag32 b < 2 ^ 23" "inf32 \<le> mag32 b" "mag32 b mod 2 ^ 23 = 0" by (simp_all add: n inf32_def)
  have "pack (of_bool (sgn32 b)) kExpMax 0 = enc64 (sgn32 b) inf64" by (simp add: pack_enc64 kExpMax_def inf64_def)
  then show ?thesis unfolding from_f32_impl_def Let_def tests32 if_not_P [OF t(1)] if_P [OF t(2)] if_P [OF t(3)] fields32(1) by simp
qed

lemma from_f32_nan:
  assumes n: "inf32 < mag32 b"
  shows "from_f32_impl b fe =
    (enc64 (sgn32 b) (inf64 + (mag32 b mod 2 ^ 23 * 2 ^ 29 OR 2 ^ 51)), if mag32 b mod 2 ^ 23 < 2 ^ 22 then fe OR SF64_FE_INVALID else fe)"
proof -
  let ?n = "mag32 b"
  define fr where "fr = b AND 0x7FFFFF"
  have fr: "unat fr = ?n mod 2 ^ 23" unfolding fr_def by (rule fields32)
  have n31: "?n < 256 * 2 ^ 23" using mag32_less [of b] by simp
  obtain r where r: "?n = 255 * 2 ^ 23 + r" "0 < r" using n unfolding inf32_def by (metis less_imp_add_positive)
  then have "r < 2 ^ 23" using n31 by simp
  then have rm: "?n mod 2 ^ 23 = r" unfolding r(1) mod_mult_self3 by (rule mod_less)
  have "\<not> ?n < 2 ^ 23" "inf32 \<le> ?n" using n by (simp_all add: inf32_def)
  moreover have "\<not> ?n mod 2 ^ 23 = 0" unfolding rm using r(2) by simp
  ultimately have t: "\<not> ?n < 2 ^ 23" "inf32 \<le> ?n" "\<not> ?n mod 2 ^ 23 = 0" .
  have q: "fr AND push_bit 22 1 = 0 \<longleftrightarrow> ?n mod 2 ^ 23 < 2 ^ 22"
  proof -
    have "fr AND push_bit 22 1 \<noteq> 0 \<longleftrightarrow> 2 ^ 22 \<le> ?n mod 2 ^ 23"
      unfolding single_bit_test fr by (rule top_bit_iff) simp
    then show ?thesis using not_le by blast
  qed
  have "unat fr < 2 ^ 23" unfolding fr by simp
  then have "unat (ucast fr :: u64) = unat fr" by (intro unat_ucast_lt) simp
  then have uf: "unat (push_bit 29 (ucast fr) :: u64) = r * 2 ^ 29"
    using \<open>r < 2 ^ 23\<close> fr rm by (subst unat_push_bit_lt) simp_all
  have q51: "unat kQuietNaNBit = 2 ^ 51" by (simp add: kQuietNaNBit_def)
  have "int (r * 2 ^ 29 OR 2 ^ 51) < 2 ^ 52"
    unfolding of_nat_or_eq using OR_upper [of "int (r * 2 ^ 29)" 52 "2 ^ 51"] \<open>r < 2 ^ 23\<close> by simp
  then have "r * 2 ^ 29 OR 2 ^ 51 < 2 ^ 52" by simp
  then have m: "(r * 2 ^ 29 OR 2 ^ 51) mod 2 ^ 52 = r * 2 ^ 29 OR 2 ^ 51" by (rule mod_less)
  have "pack (of_bool (sgn32 b)) kExpMax (push_bit 29 (ucast fr) OR kQuietNaNBit) = enc64 (sgn32 b) (inf64 + (r * 2 ^ 29 OR 2 ^ 51))"
    unfolding pack_enc64 sign32(3) unsigned_or_eq uf q51 m by (simp add: kExpMax_def inf64_def)
  then show ?thesis
    unfolding from_f32_impl_def Let_def tests32 if_not_P [OF t(1)] if_P [OF t(2)] if_not_P [OF t(3)] fields32(1)
    unfolding fr_def [symmetric] q rm by simp
qed

lemma from_f32_finite:
  assumes "mag32 b < inf32"
  shows "is_finite_bits (fst (from_f32_impl b fe))" "sgn64 (fst (from_f32_impl b fe)) = sgn32 b"
    "val64 (fst (from_f32_impl b fe)) = val32 b" "snd (from_f32_impl b fe) = fe"
    "is_zero_bits (fst (from_f32_impl b fe)) \<longleftrightarrow> mag32 b = 0"
proof -
  define n where "n = (if mag32 b = 0 then 0 else widen (mag32 b))"
  have r: "from_f32_impl b fe = (enc64 (sgn32 b) n, fe)"
    using assms from_f32_zero [of b fe] from_f32_subnormal [of b fe] from_f32_normal [of b fe]
    unfolding n_def by (cases "mag32 b = 0"; cases "mag32 b < 2 ^ 23") (simp_all add: not_less)
  have n: "n < inf64" "mag_val 52 (- 1074) n = mag_val 23 (- 149) (mag32 b)"
    using widen_less [of "mag32 b"] assms unfolding n_def by (simp_all add: inf64_def)
  then have b: "n < 2 ^ 63" by (simp add: inf64_def)
  show "is_finite_bits (fst (from_f32_impl b fe))" "sgn64 (fst (from_f32_impl b fe)) = sgn32 b" "snd (from_f32_impl b fe) = fe"
    using n(1) by (simp_all add: r is_finite_bits_iff mag64_enc64 [OF b] sgn64_enc64 [OF b])
  show "val64 (fst (from_f32_impl b fe)) = val32 b" by (simp add: r val64_enc64 [OF b] n(2) val32_def)
  have "n = 0 \<longleftrightarrow> mag32 b = 0"
    using n(2) mag_val_eq_iff [of 52 "- 1074" n 0] mag_val_eq_iff [of 23 "- 149" "mag32 b" 0] by simp
  then show "is_zero_bits (fst (from_f32_impl b fe)) \<longleftrightarrow> mag32 b = 0" by (simp add: r is_zero_bits_iff mag64_enc64 [OF b])
qed

lemma ieee32_exact:
  assumes "0 < n" "n < inf32" shows "ieee32 m s (mag_val 23 (- 149) n) fe = (enc32 s n, fe)"
  using assms by (simp add: ieee32_def ieee_round_def round_mag_mag_val Let_def inf32_def)

lemma f32_roundtrip:
  assumes "mag32 b \<le> inf32" shows "to_f32_impl (fst (from_f32_impl b fe)) m fe' = (b, fe')"
proof (cases "mag32 b = inf32")
  case True
  have "is_inf_bits (enc64 (sgn32 b) inf64)" "sgn64 (enc64 (sgn32 b) inf64) = sgn32 b"
    by (simp_all add: is_inf_bits_iff mag64_enc64 sgn64_enc64 inf64_def)
  moreover have "\<not> is_nan_bits (enc64 (sgn32 b) inf64)" using calculation(1) by (simp add: class_iff)
  ultimately show ?thesis
    using enc32_sgn_mag [of b] unfolding from_f32_inf [OF True] fst_conv to_f32_sound True by simp
next
  case False
  then have f: "mag32 b < inf32" using assms by simp
  note r = from_f32_finite [OF f, of fe]
  let ?r = "fst (from_f32_impl b fe)"
  have c: "\<not> is_nan_bits ?r" "\<not> is_inf_bits ?r" using r(1) by (auto simp: class_iff)
  have v: "\<bar>val64 ?r\<bar> = mag_val 23 (- 149) (mag32 b)" unfolding r(3) by (simp add: val32_def)
  show ?thesis
  proof (cases "mag32 b = 0")
    case True
    then show ?thesis using c r(2,5) enc32_sgn_mag [of b] unfolding to_f32_sound by simp
  next
    case False
    then show ?thesis using c r(2,5) enc32_sgn_mag [of b] ieee32_exact [OF _ f] unfolding to_f32_sound v by simp
  qed
qed

text \<open>
  C12: Narrowing to binary32 is the correctly rounded binary32 value in every mode with exact flags:
  subnormal results, underflow to zero or to the smallest subnormal, and overflow to infinity or
  to the largest finite value by mode; infinities and zeros keep their sign, and a NaN becomes the
  quiet NaN with the leading payload bits, raising INVALID only when it was signaling.
\<close>
theorem to_f32_correct:
  "sf64_to_f32_r m x md t w = entry_default md t
    (if is_nan_bits x then (nan32_of x, if is_snan_bits x then SF64_FE_INVALID else 0)
     else if is_inf_bits x then (enc32 (sgn64 x) inf32, 0)
     else if is_zero_bits x then (enc32 (sgn64 x) 0, 0)
     else ieee32 m (sgn64 x) \<bar>val64 x\<bar> 0) w"
  unfolding sf64_to_f32_r_def to_f32_sound by simp

text \<open>
  Widening a binary32 and narrowing the result, in any mode, gives back the very same bits and
  raises nothing, for every zero, subnormal, normal number and infinity of binary32; the widened
  double has exactly the binary32 value, so nothing was rounded on the way.
\<close>
theorem f32_roundtrip_exact:
  assumes "mag32 b \<le> inf32"
  shows "\<exists>d. sf64_from_f32 b md t w = (d, w) \<and> sf64_to_f32_r m d md t w = (b, w)
    \<and> (mag32 b = inf32 \<or> is_finite_bits d \<and> val64 d = val32 b)"
proof -
  have s: "snd (from_f32_impl b 0) = 0"
    using assms from_f32_finite(4) [of b 0] from_f32_inf [of b 0] by (cases "mag32 b = inf32") simp_all
  have "sf64_from_f32 b md t w = (fst (from_f32_impl b 0), w)"
    using s entry_no_flags [of md t "fst (from_f32_impl b 0)" w] unfolding sf64_from_f32_def by (metis prod.collapse)
  moreover have "sf64_to_f32_r m (fst (from_f32_impl b 0)) md t w = (b, w)"
    unfolding sf64_to_f32_r_def f32_roundtrip [OF assms] by (rule entry_no_flags)
  moreover have "mag32 b = inf32 \<or> is_finite_bits (fst (from_f32_impl b 0)) \<and> val64 (fst (from_f32_impl b 0)) = val32 b"
    using assms from_f32_finite(1,3) [of b 0] by (cases "mag32 b = inf32") simp_all
  ultimately show ?thesis by blast
qed

lemma f32_roundtrip_exact_witness:
  "\<forall>t w. \<exists>d. sf64_from_f32 1 Fenv_Tls t w = (d, w) \<and> sf64_to_f32_r SF64_RTZ d Fenv_Tls t w = (1, w)"
proof -
  have "mag32 1 \<le> inf32" by (simp add: mag32_def inf32_def)
  from f32_roundtrip_exact [OF this] show ?thesis by blast
qed

text \<open>
  \<open>sf64_logb\<close> of a nonzero finite double is the floor of its binary logarithm, exactly, without a
  flag; a zero of either sign gives minus infinity and an infinity plus infinity, also without one.
\<close>
theorem logb_correct:
  "if is_nan_bits x then sf64_logb x md t w = (x OR kQuietNaNBit, w)
   else if is_zero_bits x then sf64_logb x md t w = (kNegativeInf, w)
   else if is_inf_bits x then sf64_logb x md t w = (kPositiveInf, w)
   else \<exists>d. sf64_logb x md t w = (d, w) \<and> val64 d = real_of_int \<lfloor>log 2 \<bar>val64 x\<bar>\<rfloor>"
proof -
  have main: "\<exists>d. sf64_logb x md t w = (d, w) \<and> val64 d = real_of_int \<lfloor>log 2 \<bar>val64 x\<bar>\<rfloor>"
    if c: "\<not> is_nan_bits x" "\<not> is_zero_bits x" "\<not> is_inf_bits x"
  proof -
    have fin: "is_finite_bits x" using c by (simp add: class_iff)
    obtain f e where fe: "sf64_frexp x True = (f, Some e)" using frexp_some by blast
    note fr = frexp_sound [OF fin c(2) fe]
    define i where "i = \<lfloor>log 2 \<bar>val64 x\<bar>\<rfloor>"
    have i: "sf64_ilogb x = i" "- 1074 \<le> i" "i \<le> 1023" using ilogb_frexp [OF fin c(2) fe] fr(7,8,9) unfolding i_def by linarith+
    have si: "sint (word_of_int i :: 32 word) = i"
      unfolding sint_sbintrunc' by (rule signed_take_bit_int_eq_self) (use i in simp_all)
    have "LENGTH(32) \<le> 64" by simp
    then have l: "sf64_logb x md t w = entry_default md t (round64 SF64_RNE False (real_of_int i) 0) w"
      using c unfolding sf64_logb_def sf64_from_i32_def i(1) by (simp add: from_narrow [OF \<open>LENGTH(32) \<le> 64\<close>] si)
    obtain d where d: "round64 SF64_RNE False (real_of_int i) 0 = (d, 0)" "val64 d = real_of_int i"
    proof (cases "i = 0")
      case True
      then show ?thesis using that [of "enc64 False 0"] by (simp add: round64_def val64_enc64)
    next
      case False
      have "0 < nat \<bar>i\<bar>" "nat \<bar>i\<bar> < 2 ^ 53" using i False by simp_all
      then obtain n where n: "0 < n" "n < inf64" "mag_val 52 (- 1074) n = real (nat \<bar>i\<bar>) * 2 powi 0"
        using representable [of "nat \<bar>i\<bar>" 0] by auto
      then have b: "n < 2 ^ 63" by (simp add: inf64_def)
      define d where "d = enc64 (i < 0) n"
      have v: "val64 d = real_of_int i" using n(3) by (simp add: d_def val64_enc64 [OF b])
      have "is_finite_bits d" "\<not> is_zero_bits d" using n(1,2) by (simp_all add: d_def class_iff mag64_enc64 [OF b])
      then show ?thesis using that [of d] round64_val64 [of d SF64_RNE False 0] v by simp
    qed
    show ?thesis unfolding l d(1) entry_no_flags using d(2) by (simp add: i_def)
  qed
  then show ?thesis by (simp add: sf64_logb_def)
qed

end
