(* ===== verification/Sf_BigUint.thy ===== *)
theory Sf_BigUint
  imports Sf_Spec Sf_Internal
begin

text \<open>
  \<open>src/fp256/big_uint.h\<close>: fixed-size little-endian arrays of 64-bit limbs.  The template
  parameter \<open>N\<close> is the length of the list; \<open>bval\<close> is the natural number an array stands for, and
  every operation is shown to compute the corresponding operation on natural numbers.
\<close>

section \<open>The code\<close>

type_synonym big = "u64 list"

definition big_none :: "nat \<Rightarrow> big" where "big_none n = replicate n 0"

definition big_zero :: "big \<Rightarrow> bool" where "big_zero a \<longleftrightarrow> list_all (\<lambda>x. x = 0) a"

text \<open>The loop from the most significant limb, on the reversed arrays.\<close>

fun compare_from_top :: "u64 list \<Rightarrow> u64 list \<Rightarrow> int" where
  "compare_from_top (x # xs) (y # ys) = (if x < y then - 1 else if y < x then 1 else compare_from_top xs ys)"
| "compare_from_top _ _ = 0"

definition big_compare :: "big \<Rightarrow> big \<Rightarrow> int" where
  "big_compare a b = compare_from_top (rev a) (rev b)"

definition big_bit :: "big \<Rightarrow> nat \<Rightarrow> bool" where
  "big_bit a index \<longleftrightarrow> index < length a * 64 \<and> drop_bit (index mod 64) (a ! (index div 64)) AND 1 \<noteq> 0"

definition big_set_bit :: "big \<Rightarrow> nat \<Rightarrow> big" where
  "big_set_bit a index =
     (if index < length a * 64 then a [index div 64 := a ! (index div 64) OR push_bit (index mod 64) 1] else a)"

text \<open>The inner \<open>while (word >>= 1) ++position\<close> of \<open>highest\<close>.\<close>

function msb_position :: "u64 \<Rightarrow> nat \<Rightarrow> nat" where
  "msb_position word position =
     (let word = drop_bit 1 word in if word \<noteq> 0 then msb_position word (position + 1) else position)"
  by pat_completeness auto

termination
proof (relation "measure (\<lambda>(word, position). unat word)")
  fix word :: u64 and w :: u64 and position :: nat
  assume w: "w = drop_bit 1 word" "w \<noteq> 0"
  have "unat w = unat word div 2" using unat_drop_bit [of 1 word] by (simp add: w(1))
  moreover have "0 < unat w" using w(2) by (simp add: unat_gt_0)
  ultimately have "unat w < unat word" by linarith
  then show "((w, position + 1), (word, position)) \<in> measure (\<lambda>(word, position). unat word)" by simp
qed simp

declare msb_position.simps [simp del]

fun highest_from_top :: "u64 list \<Rightarrow> int" where
  "highest_from_top [] = - 1"
| "highest_from_top (x # xs) =
     (if x \<noteq> 0 then int (length xs * 64 + msb_position x 0) else highest_from_top xs)"

definition big_highest :: "big \<Rightarrow> int" where "big_highest a = highest_from_top (rev a)"

fun add_limbs :: "u64 \<Rightarrow> u64 list \<Rightarrow> u64 list \<Rightarrow> u64 list" where
  "add_limbs carry (a # as) (b # bs) =
     (let x = a + carry;
          c1 = (if x < a then 1 else 0);
          r = x + b
      in r # add_limbs (c1 OR (if r < x then 1 else 0)) as bs)"
| "add_limbs _ _ _ = []"

definition big_add :: "big \<Rightarrow> big \<Rightarrow> big" where "big_add a b = add_limbs 0 a b"

fun sub_limbs :: "u64 \<Rightarrow> u64 list \<Rightarrow> u64 list \<Rightarrow> u64 list" where
  "sub_limbs borrow (a # as) (b # bs) =
     (let x = a - borrow;
          b1 = (if a < borrow then 1 else 0);
          r = x - b
      in r # sub_limbs (b1 OR (if x < b then 1 else 0)) as bs)"
| "sub_limbs _ _ _ = []"

definition big_sub :: "big \<Rightarrow> big \<Rightarrow> big" where "big_sub a b = sub_limbs 0 a b"

definition big_shl :: "big \<Rightarrow> nat \<Rightarrow> big" where
  "big_shl a shift =
     (if length a * 64 \<le> shift then big_none (length a)
      else
        let words = shift div 64; bits = shift mod 64
        in map (\<lambda>i. if words \<le> i then
                       (let r = push_bit bits (a ! (i - words))
                        in if bits \<noteq> 0 \<and> words < i then r OR drop_bit (64 - bits) (a ! (i - words - 1)) else r)
                     else 0) [0..<length a])"

definition big_shr :: "big \<Rightarrow> nat \<Rightarrow> big" where
  "big_shr a shift =
     (if length a * 64 \<le> shift then big_none (length a)
      else
        let words = shift div 64; bits = shift mod 64
        in map (\<lambda>i. if i + words < length a then
                       (let r = drop_bit bits (a ! (i + words))
                        in if bits \<noteq> 0 \<and> i + words + 1 < length a then r OR push_bit (64 - bits) (a ! (i + words + 1)) else r)
                     else 0) [0..<length a])"

definition big_any_low :: "big \<Rightarrow> nat \<Rightarrow> bool" where
  "big_any_low a count =
     (if length a * 64 \<le> count then \<not> big_zero a
      else
        let words = count div 64; bits = count mod 64
        in list_ex (\<lambda>x. x \<noteq> 0) (take words a) \<or> (bits \<noteq> 0 \<and> a ! words AND (push_bit bits 1 - 1) \<noteq> 0))"

definition big_shr_jam :: "big \<Rightarrow> nat \<Rightarrow> big" where
  "big_shr_jam a shift =
     (if shift = 0 then a
      else let r = big_shr a shift in if big_any_low a shift then r [0 := r ! 0 OR 1] else r)"

definition big_widen :: "nat \<Rightarrow> big \<Rightarrow> big" where
  "big_widen to a = map (\<lambda>i. if i < length a then a ! i else 0) [0..<to]"

text \<open>The schoolbook product on 32-bit digits: split, one row, carry propagation, all rows, join.\<close>

definition big_digits :: "big \<Rightarrow> u32 list" where
  "big_digits a = concat (map (\<lambda>x. [ucast x, ucast (drop_bit 32 x)]) a)"

fun mul_row :: "u32 \<Rightarrow> u32 list \<Rightarrow> nat \<Rightarrow> u64 \<Rightarrow> u32 list \<Rightarrow> u32 list \<times> u64" where
  "mul_row d [] k carry out = (out, carry)"
| "mul_row d (b # bs) k carry out =
     (let current = ucast d * ucast b + ucast (out ! k) + carry
      in mul_row d bs (k + 1) (drop_bit 32 current) (out [k := ucast current]))"

function mul_carry :: "nat \<Rightarrow> u64 \<Rightarrow> u32 list \<Rightarrow> u32 list" where
  "mul_carry k carry out =
     (if carry \<noteq> 0 \<and> k < length out
      then (let current = ucast (out ! k) + carry
            in mul_carry (k + 1) (drop_bit 32 current) (out [k := ucast current]))
      else out)"
  by pat_completeness auto
termination by (relation "measure (\<lambda>(k, carry, out). length out - k)") auto

declare mul_carry.simps [simp del]

fun mul_rows :: "u32 list \<Rightarrow> nat \<Rightarrow> u32 list \<Rightarrow> u32 list \<Rightarrow> u32 list" where
  "mul_rows [] i bd out = out"
| "mul_rows (d # ds) i bd out =
     (let (out, carry) = mul_row d bd i 0 out
      in mul_rows ds (i + 1) bd (mul_carry (i + length bd) carry out))"

definition big_multiply :: "big \<Rightarrow> big \<Rightarrow> big" where
  "big_multiply a b =
     (let ad = big_digits a; bd = big_digits b;
          out = mul_rows ad 0 bd (replicate ((length a + length b) * 2) 0)
      in map (\<lambda>i. ucast (out ! (2 * i)) OR push_bit 32 (ucast (out ! (2 * i + 1)))) [0..<length a + length b])"

section \<open>The number an array stands for\<close>

fun bval :: "'a::len word list \<Rightarrow> nat" where
  "bval [] = 0"
| "bval ((x :: 'a word) # xs) = unat x + 2 ^ LENGTH('a) * bval xs"

lemma bval_less: "bval (a :: 'a::len word list) < 2 ^ (LENGTH('a) * length a)"
proof (induction a)
  case (Cons x xs)
  have "unat x < 2 ^ LENGTH('a)" by (rule unsigned_less)
  then have "unat x + 2 ^ LENGTH('a) * bval xs < 2 ^ LENGTH('a) * (bval xs + 1)" by simp
  also have "\<dots> \<le> 2 ^ LENGTH('a) * 2 ^ (LENGTH('a) * length xs)" using Cons by (intro mult_left_mono) simp_all
  finally show ?case by (simp add: power_add)
qed simp

lemma bval_append: "bval (xs @ ys) = bval xs + 2 ^ (LENGTH('a) * length xs) * bval ys" for xs ys :: "'a::len word list"
  by (induction xs) (simp_all add: power_add algebra_simps)

lemma bval_replicate_0 [simp]: "bval (replicate n (0 :: 'a::len word)) = 0"
  by (induction n) simp_all

lemma bval_none [simp]: "bval (big_none n) = 0" "length (big_none n) = n"
  by (simp_all add: big_none_def)

lemma bval_snoc: "bval (xs @ [x]) = bval xs + 2 ^ (LENGTH('a) * length xs) * unat x" for xs :: "'a::len word list"
  by (simp add: bval_append)

lemma bval_update:
  "k < length xs \<Longrightarrow> bval (xs [k := v]) + 2 ^ (LENGTH('a) * k) * unat (xs ! k) = bval xs + 2 ^ (LENGTH('a) * k) * unat v"
  for xs :: "'a::len word list"
proof (induction xs arbitrary: k)
  case (Cons x xs)
  show ?case
  proof (cases k)
    case (Suc j)
    then have "bval (xs [j := v]) + 2 ^ (LENGTH('a) * j) * unat (xs ! j) = bval xs + 2 ^ (LENGTH('a) * j) * unat v"
      using Cons by simp
    then have "2 ^ LENGTH('a) * (bval (xs [j := v]) + 2 ^ (LENGTH('a) * j) * unat (xs ! j)) =
        2 ^ LENGTH('a) * (bval xs + 2 ^ (LENGTH('a) * j) * unat v)" by simp
    then show ?thesis by (simp add: Suc power_add distrib_left mult.assoc)
  qed simp
qed simp

text \<open>The bits of the number are the bits of the limbs.\<close>

lemma bit_bval: "bit (bval a) i \<longleftrightarrow> i < LENGTH('a) * length a \<and> bit (a ! (i div LENGTH('a))) (i mod LENGTH('a))"
  for a :: "'a::len word list"
proof (induction a arbitrary: i)
  case (Cons x xs)
  have l: "unat x < 2 ^ LENGTH('a)" by (rule unsigned_less)
  have s: "bval (x # xs) = bval xs * 2 ^ LENGTH('a) + unat x" by simp
  show ?case
  proof (cases "i < LENGTH('a)")
    case True
    then show ?thesis unfolding s limb_bit [OF l] by (simp add: bit_unsigned_iff)
  next
    case False
    then have "i div LENGTH('a) = Suc ((i - LENGTH('a)) div LENGTH('a))" "i mod LENGTH('a) = (i - LENGTH('a)) mod LENGTH('a)"
      by (simp_all add: le_div_geq le_mod_geq)
    then show ?thesis using False unfolding s limb_bit [OF l] by (auto simp: Cons)
  qed
qed simp

lemma bval_inj: "length a = length b \<Longrightarrow> bval a = bval b \<Longrightarrow> a = b" for a b :: "'a::len word list"
proof (induction a b rule: list_induct2)
  case (Cons x xs y ys)
  have l: "unat x < 2 ^ LENGTH('a)" "unat y < 2 ^ LENGTH('a)" by (rule unsigned_less)+
  have "unat x = bval (x # xs) mod 2 ^ LENGTH('a)" using l by simp
  also have "\<dots> = unat y" using l unfolding Cons.prems by simp
  finally have "x = y" by (rule word_eq_unatI)
  then show ?case using Cons by simp
qed simp

lemma bval_eq_0_iff: "bval a = 0 \<longleftrightarrow> list_all (\<lambda>x. x = 0) a" for a :: "'a::len word list"
  by (induction a) (auto simp: unsigned_eq_0_iff)

lemma big_zero_sound: "big_zero a \<longleftrightarrow> bval a = 0"
  by (simp add: big_zero_def bval_eq_0_iff)

lemma bval64_snoc: "bval (xs @ [x]) = unat x * 2 ^ (64 * length xs) + bval xs" for xs :: big
  by (simp add: bval_append)

lemma compare_from_top_sound:
  "length a = length b \<Longrightarrow>
   compare_from_top (rev a) (rev b) = (if bval a < bval b then - 1 else if bval b < bval a then 1 else 0)"
proof (induction a b rule: rev_induct2)
  case (4 x xs y ys)
  have len: "length xs = length ys" using "4.prems" by simp
  have l: "bval xs < 2 ^ (64 * length xs)" "bval ys < 2 ^ (64 * length xs)"
    using bval_less [of xs] bval_less [of ys] by (simp_all add: len)
  define n where "n = 64 * length xs"
  have lt: "bval (xs @ [x]) < bval (ys @ [y]) \<longleftrightarrow> unat x < unat y \<or> unat x = unat y \<and> bval xs < bval ys"
    using limb_less_iff [of "bval xs" "2 ^ n" "bval ys" "unat x" "unat y"] l by (simp only: bval64_snoc len n_def)
  have gt: "bval (ys @ [y]) < bval (xs @ [x]) \<longleftrightarrow> unat y < unat x \<or> unat x = unat y \<and> bval ys < bval xs"
    using limb_less_iff [of "bval ys" "2 ^ n" "bval xs" "unat y" "unat x"] l by (simp only: bval64_snoc len n_def) auto
  show ?case unfolding lt gt using "4.IH" len
    by (auto simp: word_less_nat_alt)
qed simp_all

lemma big_compare_sound:
  "length a = length b \<Longrightarrow>
   big_compare a b = (if bval a < bval b then - 1 else if bval b < bval a then 1 else 0)"
  by (simp add: big_compare_def compare_from_top_sound)

lemma big_bit_sound: "big_bit a i \<longleftrightarrow> bit (bval a) i"
proof -
  have "drop_bit m w AND 1 \<noteq> 0 \<longleftrightarrow> bit w m" for w :: u64 and m
    unfolding and_1_neq_0_iff unat_drop_bit by (simp add: bit_unsigned_iff flip: bit_iff_odd)
  then show ?thesis by (simp add: big_bit_def bit_bval mult.commute)
qed

lemma add_carry: "unat (x + y) + 18446744073709551616 * of_bool (x + y < x) = unat x + unat y" for x y :: u64
proof -
  have u: "unat (x + y) = (unat x + unat y) mod 18446744073709551616" using unat_word_ariths(1) [of x y] by simp
  show ?thesis unfolding word_less_nat_alt u using unat_lt64 [of x] unat_lt64 [of y] by (auto simp: mod_if)
qed

lemma sub_borrow: "unat (x - y) + unat y = unat x + 18446744073709551616 * of_bool (x < y)" for x y :: u64
proof -
  have "unat (x - y) = (if unat y \<le> unat x then unat x - unat y else unat x + 18446744073709551616 - unat y)"
    using unat_lt64 [of x] unat_lt64 [of y] by (simp add: unat_sub_if_size size_word_def)
  then show ?thesis using unat_lt64 [of y] by (auto simp: word_less_nat_alt)
qed

lemma or_of_bool: "unat ((if P then 1 else 0) OR (if Q then 1 else 0) :: u64) = of_bool (P \<or> Q)"
  by simp

lemma add_limbs_sound:
  "length a = length b \<Longrightarrow> unat carry \<le> 1 \<Longrightarrow>
   bval (add_limbs carry a b) = (bval a + bval b + unat carry) mod 2 ^ (64 * length a) \<and> length (add_limbs carry a b) = length a"
proof (induction carry a b rule: add_limbs.induct)
  case (1 carry a as b bs)
  define x where "x = a + carry"
  define r where "r = x + b"
  define c :: u64 where "c = (if x < a then 1 else 0) OR (if r < x then 1 else 0)"
  have x: "unat x + 18446744073709551616 * of_bool (x < a) = unat a + unat carry" unfolding x_def by (rule add_carry)
  have r: "unat r + 18446744073709551616 * of_bool (r < x) = unat x + unat b" unfolding r_def by (rule add_carry)
  have c: "unat c = of_bool (x < a \<or> r < x)" unfolding c_def by (rule or_of_bool)
  have "\<not> (x < a \<and> r < x)"
    using x r "1.prems"(2) unat_lt64 [of a] unat_lt64 [of b] by auto
  then have sum: "unat r + 18446744073709551616 * unat c = unat a + unat b + unat carry" using x r unfolding c by auto
  have s: "add_limbs carry (a # as) (b # bs) = r # add_limbs c as bs"
    by (simp add: Let_def x_def c_def r_def)
  have l: "length as = length bs" using 1(2) by simp
  have IH: "bval (add_limbs c as bs) = (bval as + bval bs + unat c) mod 2 ^ (64 * length as) \<and> length (add_limbs c as bs) = length as"
    unfolding c_def by (rule "1.IH" [OF x_def refl r_def l]) (simp only: or_of_bool, simp)
  have "bval (a # as) + bval (b # bs) + unat carry = (bval as + bval bs + unat c) * 18446744073709551616 + unat r"
    using sum by simp
  then have "(bval (a # as) + bval (b # bs) + unat carry) mod (18446744073709551616 * 2 ^ (64 * length as)) =
      ((bval as + bval bs + unat c) mod 2 ^ (64 * length as)) * 18446744073709551616 + unat r"
    by (simp only: limb_mod [OF unat_lt64])
  moreover have "2 ^ (64 * length (a # as)) = (18446744073709551616 :: nat) * 2 ^ (64 * length as)" by (simp add: power_add)
  ultimately show ?case unfolding s using IH by simp
qed simp_all

lemma big_add_sound:
  "length a = length b \<Longrightarrow> bval (big_add a b) = (bval a + bval b) mod 2 ^ (64 * length a)"
  "length a = length b \<Longrightarrow> length (big_add a b) = length a"
  using add_limbs_sound [of a b 0] by (simp_all add: big_add_def)

lemma sub_limbs_sound:
  "length a = length b \<Longrightarrow> unat borrow \<le> 1 \<Longrightarrow>
   (\<exists>k. int (bval (sub_limbs borrow a b)) = int (bval a) - int (bval b) - int (unat borrow) + k * 2 ^ (64 * length a)) \<and>
   length (sub_limbs borrow a b) = length a"
proof (induction borrow a b rule: sub_limbs.induct)
  case (1 borrow a as b bs)
  define x where "x = a - borrow"
  define r where "r = x - b"
  define c :: u64 where "c = (if a < borrow then 1 else 0) OR (if x < b then 1 else 0)"
  have x: "unat x + unat borrow = unat a + 18446744073709551616 * of_bool (a < borrow)" unfolding x_def by (rule sub_borrow)
  have r: "unat r + unat b = unat x + 18446744073709551616 * of_bool (x < b)" unfolding r_def by (rule sub_borrow)
  have c: "unat c = of_bool (a < borrow \<or> x < b)" unfolding c_def by (rule or_of_bool)
  have "\<not> (a < borrow \<and> x < b)"
  proof
    assume lt: "a < borrow \<and> x < b"
    then have "unat x + unat borrow = unat a + 18446744073709551616" "unat x < unat b" using x by (simp_all add: word_less_nat_alt)
    then show False using "1.prems"(2) unat_lt64 [of b] by linarith
  qed
  then consider "\<not> a < borrow" "\<not> x < b" | "a < borrow" "\<not> x < b" | "\<not> a < borrow" "x < b" by blast
  then have sum: "unat r + unat b + unat borrow = unat a + 18446744073709551616 * unat c"
    using x r c by cases simp_all
  have s: "sub_limbs borrow (a # as) (b # bs) = r # sub_limbs c as bs"
    by (simp add: Let_def x_def c_def r_def)
  have l: "length as = length bs" using 1(2) by simp
  obtain k where IH: "int (bval (sub_limbs c as bs)) = int (bval as) - int (bval bs) - int (unat c) + k * 2 ^ (64 * length as)"
      "length (sub_limbs c as bs) = length as"
  proof -
    have "unat c \<le> 1" unfolding c by simp
    then have "(\<exists>k. int (bval (sub_limbs c as bs)) = int (bval as) - int (bval bs) - int (unat c) + k * 2 ^ (64 * length as)) \<and>
        length (sub_limbs c as bs) = length as"
      unfolding c_def by (rule "1.IH" [OF x_def refl r_def l])
    then show thesis by (elim conjE exE) (rule that)
  qed
  have p: "2 ^ (64 * length (a # as)) = (18446744073709551616 :: int) * 2 ^ (64 * length as)" by (simp add: power_add)
  have v: "int (bval (sub_limbs borrow (a # as) (b # bs))) =
      int (unat r) + 18446744073709551616 * (int (bval as) - int (bval bs) - int (unat c) + k * 2 ^ (64 * length as))"
    unfolding s IH(1) [symmetric] by simp
  have "int (unat r) = int (unat a) - int (unat b) - int (unat borrow) + 18446744073709551616 * int (unat c)"
    using sum by linarith
  moreover have "int (bval (a # as)) = int (unat a) + 18446744073709551616 * int (bval as)"
    "int (bval (b # bs)) = int (unat b) + 18446744073709551616 * int (bval bs)" by simp_all
  ultimately have "int (bval (sub_limbs borrow (a # as) (b # bs))) =
      int (bval (a # as)) - int (bval (b # bs)) - int (unat borrow) + k * 2 ^ (64 * length (a # as))"
    unfolding v p by (simp only: distrib_left right_diff_distrib mult.left_commute [of k])
  moreover have "length (sub_limbs borrow (a # as) (b # bs)) = length (a # as)" using IH(2) unfolding s by simp
  ultimately show ?case by (intro conjI exI [of _ k])
qed simp_all

lemma big_sub_sound:
  "length a = length b \<Longrightarrow> int (bval (big_sub a b)) = (int (bval a) - int (bval b)) mod 2 ^ (64 * length a)"
  "length a = length b \<Longrightarrow> length (big_sub a b) = length a"
proof -
  assume l: "length a = length b"
  obtain k where k: "int (bval (big_sub a b)) = int (bval a) - int (bval b) + k * 2 ^ (64 * length a)" "length (big_sub a b) = length a"
    using sub_limbs_sound [OF l, of 0] by (auto simp: big_sub_def)
  have "int (bval (big_sub a b)) < 2 ^ (64 * length a)"
    using bval_less [of "big_sub a b"] k(2) by simp
  then have "int (bval (big_sub a b)) = int (bval (big_sub a b)) mod 2 ^ (64 * length a)" by simp
  also have "\<dots> = (int (bval a) - int (bval b)) mod 2 ^ (64 * length a)" unfolding k(1) by simp
  finally show "int (bval (big_sub a b)) = (int (bval a) - int (bval b)) mod 2 ^ (64 * length a)" .
qed (use sub_limbs_sound [of a b 0] in \<open>simp add: big_sub_def\<close>)

lemma big_sub_le: "length a = length b \<Longrightarrow> bval b \<le> bval a \<Longrightarrow> bval (big_sub a b) = bval a - bval b"
proof -
  assume l: "length a = length b" and le: "bval b \<le> bval a"
  have "int (bval a) < 2 ^ (64 * length a)"
    using bval_less [of a] by simp
  then have "(int (bval a) - int (bval b)) mod 2 ^ (64 * length a) = int (bval a) - int (bval b)"
    using le by (intro mod_pos_pos_trivial) linarith+
  then have "int (bval (big_sub a b)) = int (bval a) - int (bval b)" by (simp add: big_sub_sound [OF l])
  then show ?thesis using le by linarith
qed

lemma nth_bit_or_shift:
  fixes x y :: u64
  assumes "b < 64" "m < 64"
  shows "bit (push_bit b x OR drop_bit (64 - b) y) m \<longleftrightarrow> (if b \<le> m then bit x (m - b) else bit y (64 + m - b))"
    "bit (drop_bit b x OR push_bit (64 - b) y) m \<longleftrightarrow> (if m + b < 64 then bit x (m + b) else bit y (m + b - 64))"
proof -
  have u: "bit w n \<Longrightarrow> n < 64" for w :: u64 and n using bit_imp_le_length [of w n] by simp
  show "bit (push_bit b x OR drop_bit (64 - b) y) m \<longleftrightarrow> (if b \<le> m then bit x (m - b) else bit y (64 + m - b))"
    using assms u [of y "64 + m - b"] by (auto simp: bit_or_iff bit_push_bit_iff bit_drop_bit_eq)
  have "m + b - 64 = m - (64 - b)" "64 - b \<le> m \<longleftrightarrow> \<not> m + b < 64" using assms by linarith+
  then show "bit (drop_bit b x OR push_bit (64 - b) y) m \<longleftrightarrow> (if m + b < 64 then bit x (m + b) else bit y (m + b - 64))"
    using assms u [of x "m + b"] by (auto simp: bit_or_iff bit_push_bit_iff bit_drop_bit_eq add.commute)
qed

lemma bit_bval64: "m < 64 \<Longrightarrow> bit (bval a) (64 * q + m) \<longleftrightarrow> q < length a \<and> bit (a ! q) m" for a :: big
  by (auto simp: bit_bval)

lemma big_shl_sound: "bval (big_shl a s) = bval a * 2 ^ s mod 2 ^ (64 * length a)"
  "length (big_shl a s) = length a"
proof -
  show len: "length (big_shl a s) = length a" by (simp add: big_shl_def Let_def)
  have "bval (big_shl a s) = take_bit (64 * length a) (push_bit s (bval a))"
  proof (rule bit_eqI)
    fix i
    define q m w b :: nat where d: "q = i div 64" "m = i mod 64" "w = s div 64" "b = s mod 64"
    have i: "i = 64 * q + m" "m < 64" "s = 64 * w + b" "b < 64" by (simp_all add: d)
    show "bit (bval (big_shl a s)) i \<longleftrightarrow> bit (take_bit (64 * length a) (push_bit s (bval a))) i"
    proof (cases "64 * length a \<le> s \<or> length a \<le> q")
      case True
      then show ?thesis
      proof
        assume "64 * length a \<le> s"
        then show ?thesis by (auto simp: big_shl_def mult.commute bit_take_bit_iff bit_push_bit_iff)
      next
        assume "length a \<le> q"
        then show ?thesis using i bit_bval64 [OF i(2), of "big_shl a s" q] len by (auto simp: bit_take_bit_iff)
      qed
    next
      case False
      then have q: "q < length a" "s < 64 * length a" by simp_all
      have L: "bit (bval (big_shl a s)) i \<longleftrightarrow> w \<le> q \<and> bit (push_bit b (a ! (q - w)) OR (if b \<noteq> 0 \<and> w < q then drop_bit (64 - b) (a ! (q - w - 1)) else 0)) m"
        unfolding i(1) bit_bval64 [OF i(2)] len using q by (simp add: big_shl_def Let_def mult.commute flip: d)
      have R: "bit (take_bit (64 * length a) (push_bit s (bval a))) i \<longleftrightarrow> s \<le> i \<and> bit (bval a) (i - s)"
        using q i by (auto simp: bit_take_bit_iff bit_push_bit_iff)
      show ?thesis
      proof (cases "b \<le> m")
        case True
        then have si: "s \<le> i \<longleftrightarrow> w \<le> q" and "w \<le> q \<Longrightarrow> i - s = 64 * (q - w) + (m - b)" using i by auto
        then have "s \<le> i \<and> bit (bval a) (i - s) \<longleftrightarrow> w \<le> q \<and> bit (a ! (q - w)) (m - b)"
          using bit_bval64 [of "m - b" a "q - w"] q(1) i(2) by auto
        then show ?thesis unfolding L R
          using True i nth_bit_or_shift(1) [OF i(4) i(2), of "a ! (q - w)" "a ! (q - w - 1)"]
          by (auto simp: bit_or_iff bit_push_bit_iff)
      next
        case False
        then have si: "s \<le> i \<longleftrightarrow> w < q" and "w < q \<Longrightarrow> i - s = 64 * (q - w - 1) + (64 + m - b)" using i by auto
        then have "s \<le> i \<and> bit (bval a) (i - s) \<longleftrightarrow> w < q \<and> bit (a ! (q - w - 1)) (64 + m - b)"
          using bit_bval64 [of "64 + m - b" a "q - w - 1"] q(1) i(2) False by auto
        then show ?thesis unfolding L R
          using False i nth_bit_or_shift(1) [OF i(4) i(2), of "a ! (q - w)" "a ! (q - w - 1)"]
          by (auto simp: bit_or_iff bit_push_bit_iff)
      qed
    qed
  qed
  then show "bval (big_shl a s) = bval a * 2 ^ s mod 2 ^ (64 * length a)" by (simp add: take_bit_eq_mod push_bit_eq_mult)
qed

lemma big_shr_sound: "bval (big_shr a s) = bval a div 2 ^ s"
  "length (big_shr a s) = length a"
proof -
  show len: "length (big_shr a s) = length a" by (simp add: big_shr_def Let_def)
  have "bval (big_shr a s) = drop_bit s (bval a)"
  proof (rule bit_eqI)
    fix i
    define q m w b :: nat where d: "q = i div 64" "m = i mod 64" "w = s div 64" "b = s mod 64"
    have i: "i = 64 * q + m" "m < 64" "s = 64 * w + b" "b < 64" by (simp_all add: d)
    have far: "64 * length a \<le> j \<Longrightarrow> \<not> bit (bval a) j" for j by (auto simp: bit_bval)
    have R: "bit (drop_bit s (bval a)) i \<longleftrightarrow> bit (bval a) (s + i)" by (simp add: bit_drop_bit_eq)
    show "bit (bval (big_shr a s)) i \<longleftrightarrow> bit (drop_bit s (bval a)) i"
    proof (cases "64 * length a \<le> s \<or> length a \<le> q")
      case True
      then have "64 * length a \<le> s + i" using i by auto
      moreover have "\<not> bit (bval (big_shr a s)) i" using True
        by (auto simp: i(1) bit_bval64 [OF i(2)] len) (simp add: big_shr_def big_none_def mult.commute)
      ultimately show ?thesis using far unfolding R by simp
    next
      case False
      then have q: "q < length a" "s < 64 * length a" by simp_all
      have L: "bit (bval (big_shr a s)) i \<longleftrightarrow> q + w < length a \<and>
          bit (drop_bit b (a ! (q + w)) OR (if b \<noteq> 0 \<and> q + w + 1 < length a then push_bit (64 - b) (a ! (q + w + 1)) else 0)) m"
        unfolding i(1) bit_bval64 [OF i(2)] len using q by (simp add: big_shr_def Let_def mult.commute flip: d)
      show ?thesis
      proof (cases "m + b < 64")
        case True
        then have "s + i = 64 * (q + w) + (m + b)" using i by simp
        then have "bit (bval a) (s + i) \<longleftrightarrow> q + w < length a \<and> bit (a ! (q + w)) (m + b)"
          using bit_bval64 [of "m + b" a "q + w"] True by simp
        then show ?thesis unfolding L R
          using True i nth_bit_or_shift(2) [OF i(4) i(2), of "a ! (q + w)" "a ! (q + w + 1)"]
          by (auto simp: bit_or_iff bit_drop_bit_eq add.commute)
      next
        case False
        then have e: "s + i = 64 * (q + w + 1) + (m + b - 64)" using i by simp
        have "bit (bval a) (s + i) \<longleftrightarrow> q + w + 1 < length a \<and> bit (a ! (q + w + 1)) (m + b - 64)"
          unfolding e using bit_bval64 [of "m + b - 64" a "q + w + 1"] i by simp
        moreover have "\<not> bit (a ! (q + w)) (b + m)" using False bit_imp_le_length [of "a ! (q + w)" "b + m"] by auto
        ultimately show ?thesis unfolding L R
          using False i nth_bit_or_shift(2) [OF i(4) i(2), of "a ! (q + w)" "a ! (q + w + 1)"]
          by (auto simp: bit_or_iff bit_drop_bit_eq)
      qed
    qed
  qed
  then show "bval (big_shr a s) = bval a div 2 ^ s" by (simp add: drop_bit_eq_div)
qed

lemma big_any_low_sound: "big_any_low a count \<longleftrightarrow> bval a mod 2 ^ count \<noteq> 0"
proof (cases "length a * 64 \<le> count")
  case True
  have "bval a < 2 ^ (64 * length a)" using bval_less [of a] by simp
  also have "\<dots> \<le> 2 ^ count" using True by (intro power_increasing) (simp_all add: mult.commute)
  finally show ?thesis using True by (simp add: big_any_low_def big_zero_sound)
next
  case False
  define w b where d: "w = count div 64" "b = count mod 64"
  have c: "count = 64 * w + b" "b < 64" by (simp_all add: d)
  have w: "w < length a" using False c by simp
  have "a = take w a @ a ! w # drop (Suc w) a" using w by (rule id_take_nth_drop)
  then have "bval a = bval (take w a @ a ! w # drop (Suc w) a)" by (rule arg_cong)
  then have v: "bval a = bval (take w a) + 2 ^ (64 * w) * (unat (a ! w) + 2 ^ 64 * bval (drop (Suc w) a))"
    using w by (simp add: bval_append)
  have lt: "bval (take w a) < 2 ^ (64 * w)" using bval_less [of "take w a"] w by simp
  have "(2::nat) ^ 64 = 2 ^ b * 2 ^ (64 - b)" using c(2) by (simp flip: power_add)
  then have m: "(unat (a ! w) + 2 ^ 64 * bval (drop (Suc w) a)) mod 2 ^ b = unat (a ! w) mod 2 ^ b" by (simp only: mult.assoc mod_mult_self2)
  have "bval a mod 2 ^ count = bval (take w a) + 2 ^ (64 * w) * (unat (a ! w) mod 2 ^ b)"
    unfolding c(1) mod_split v using lt by (simp add: m [simplified])
  moreover have "a ! w AND (push_bit b 1 - 1) \<noteq> 0 \<longleftrightarrow> unat (a ! w) mod 2 ^ b \<noteq> 0"
    by (simp add: word_neq_0_unat unat_and_mask flip: mask_eq_exp_minus_1)
  moreover have "list_ex (\<lambda>x. x \<noteq> 0) (take w a) \<longleftrightarrow> bval (take w a) \<noteq> 0"
    by (simp add: bval_eq_0_iff list_ex_iff list_all_iff)
  moreover have "0 < b" if "unat (a ! w) mod 2 ^ b \<noteq> 0" using that by (cases b) simp_all
  ultimately show ?thesis using False by (simp only: big_any_low_def Let_def if_False flip: d) auto
qed

lemma big_shr_jam_sound:
  assumes "a \<noteq> []"
  shows "bval (big_shr_jam a s) = jam (bval a) s" "length (big_shr_jam a s) = length a"
proof -
  obtain x xs where r: "big_shr a s = x # xs" using big_shr_sound(2) [of a s] assms by (cases "big_shr a s") auto
  have v: "bval a div 2 ^ s = unat x + 18446744073709551616 * bval xs" using big_shr_sound(1) [of a s] by (simp add: r)
  have "bval ((x # xs) [0 := x OR 1]) = (bval a div 2 ^ s) OR 1"
    unfolding v nat_or_1 by (simp add: unat_or_1)
  then show "bval (big_shr_jam a s) = jam (bval a) s"
    using big_any_low_sound [of a s] big_shr_sound(1) [of a s] r
    by (auto simp: big_shr_jam_def jam_def Let_def)
  show "length (big_shr_jam a s) = length a" by (simp add: big_shr_jam_def Let_def big_shr_sound(2))
qed

lemma big_set_bit_sound:
  assumes "i < 64 * length a"
  shows "bval (big_set_bit a i) = (bval a OR 2 ^ i)" "length (big_set_bit a i) = length a"
proof -
  show len: "length (big_set_bit a i) = length a" by (simp add: big_set_bit_def)
  show "bval (big_set_bit a i) = (bval a OR 2 ^ i)"
  proof (rule bit_eqI)
    fix j
    define q m :: nat where d: "q = j div 64" "m = j mod 64"
    have j: "j = 64 * q + m" "m < 64" by (simp_all add: d)
    have e: "i = j \<longleftrightarrow> i div 64 = q \<and> i mod 64 = m" unfolding d by (metis div_mult_mod_eq)
    show "bit (bval (big_set_bit a i)) j \<longleftrightarrow> bit (bval a OR 2 ^ i) j"
      using assms e unfolding j(1) bit_or_iff bit_bval64 [OF j(2)] len
      by (auto simp: big_set_bit_def bit_exp_iff bit_or_iff bit_push_bit_iff nth_list_update bit_1_iff j(2) split: if_splits)
  qed
qed

lemma big_widen_sound: "length (big_widen n a) = n" "length a \<le> n \<Longrightarrow> bval (big_widen n a) = bval a"
proof -
  show "length (big_widen n a) = n" by (simp add: big_widen_def)
  assume l: "length a \<le> n"
  have "big_widen n a = a @ replicate (n - length a) 0"
    using l by (intro nth_equalityI) (simp_all add: big_widen_def nth_append)
  then show "bval (big_widen n a) = bval a" by (simp add: bval_append)
qed

text \<open>Narrowing drops the high limbs.\<close>

lemma big_narrow_sound: "n \<le> length a \<Longrightarrow> bval (big_widen n a) = bval a mod 2 ^ (64 * n)"
proof -
  assume l: "n \<le> length a"
  have w: "big_widen n a = take n a" using l by (intro nth_equalityI) (simp_all add: big_widen_def)
  have "bval a = bval (take n a @ drop n a)" by simp
  also have "\<dots> = bval (take n a) + 2 ^ (64 * n) * bval (drop n a)" unfolding bval_append using l by simp
  finally have v: "bval a = bval (take n a) + 2 ^ (64 * n) * bval (drop n a)" .
  have "bval (take n a) < 2 ^ (64 * n)" using bval_less [of "take n a"] l by simp
  then show ?thesis unfolding w v by simp
qed

lemma msb_position_sound: "word \<noteq> 0 \<Longrightarrow> \<exists>h. msb_position word position = position + h \<and> 2 ^ h \<le> unat word \<and> unat word < 2 ^ Suc h"
proof (induction word position rule: msb_position.induct)
  case (1 word position)
  define w where "w = drop_bit 1 word"
  have w: "unat w = unat word div 2" unfolding w_def unat_drop_bit by simp
  have s: "msb_position word position = (if w \<noteq> 0 then msb_position w (position + 1) else position)"
    by (subst msb_position.simps) (simp only: Let_def w_def)
  have pos: "0 < unat word" using "1.prems" by (simp add: unat_gt_0)
  show ?case
  proof (cases "w = 0")
    case True
    then have "unat word div 2 = 0" using w by simp
    then show ?thesis using True pos s by (intro exI [of _ 0]) auto
  next
    case False
    then obtain h where "msb_position w (position + 1) = position + 1 + h" "2 ^ h \<le> unat w" "unat w < 2 ^ Suc h"
      using "1.IH" [OF w_def False] by auto
    then show ?thesis using False unfolding s by (intro exI [of _ "Suc h"]) (auto simp: w)
  qed
qed

lemma big_highest_sound:
  "bval a = 0 \<Longrightarrow> big_highest a = - 1"
  "0 < bval a \<Longrightarrow> \<exists>h. big_highest a = int h \<and> 2 ^ h \<le> bval a \<and> bval a < 2 ^ Suc h \<and> h < 64 * length a"
proof -
  have "if bval a = 0 then big_highest a = - 1
    else \<exists>h. big_highest a = int h \<and> 2 ^ h \<le> bval a \<and> bval a < 2 ^ Suc h"
    unfolding big_highest_def
  proof (induction a rule: rev_induct)
    case (snoc x xs)
    have v: "bval (xs @ [x]) = unat x * 2 ^ (64 * length xs) + bval xs" by (rule bval64_snoc)
    have l: "bval xs < 2 ^ (64 * length xs)" using bval_less [of xs] by simp
    show ?case
    proof (cases "x = 0")
      case True
      then show ?thesis using snoc unfolding v by (auto split: if_splits)
    next
      case False
      then obtain h where h: "msb_position x 0 = h" "2 ^ h \<le> unat x" "unat x < 2 ^ Suc h"
        using msb_position_sound [of x 0] by auto
      have "2 ^ h * 2 ^ (64 * length xs) \<le> unat x * 2 ^ (64 * length xs)" using h(2) by (rule mult_right_mono) simp
      moreover have "(unat x + 1) * 2 ^ (64 * length xs) \<le> 2 ^ Suc h * 2 ^ (64 * length xs)"
        using h(3) by (intro mult_right_mono) simp_all
      ultimately have "2 ^ (h + 64 * length xs) \<le> bval (xs @ [x])" "bval (xs @ [x]) < 2 ^ Suc (h + 64 * length xs)"
        unfolding v using l by (simp_all only: power_Suc power_add add_mult_distrib mult.assoc mult_1)
      moreover have "highest_from_top (rev (xs @ [x])) = int (h + 64 * length xs)" using False h(1) by simp
      moreover have "bval (xs @ [x]) \<noteq> 0" using calculation(1) by (metis not_numeral_le_zero power_not_zero le_zero_eq zero_neq_numeral)
      ultimately show ?thesis by (simp only: if_False) blast
    qed
  qed simp
  then show "bval a = 0 \<Longrightarrow> big_highest a = - 1"
    and "0 < bval a \<Longrightarrow> \<exists>h. big_highest a = int h \<and> 2 ^ h \<le> bval a \<and> bval a < 2 ^ Suc h \<and> h < 64 * length a"
    using bval_less [of a] by (auto split: if_splits) (metis le_less_trans nat_power_less_imp_less zero_less_numeral)
qed

lemma big_digits_sound: "bval (big_digits a) = bval a" "length (big_digits a) = 2 * length a"
proof -
  have "bval (big_digits (x # xs)) = unat x + 2 ^ 64 * bval (big_digits xs)" for x :: u64 and xs
  proof -
    have "unat x div 4294967296 < 4294967296" using unat_lt64 [of x] by (simp add: less_mult_imp_div_less)
    then show ?thesis by (simp add: big_digits_def unat_ucast unat_drop_bit)
  qed
  then show "bval (big_digits a) = bval a" by (induction a) (simp_all, simp add: big_digits_def)
  show "length (big_digits a) = 2 * length a" by (induction a) (simp_all add: big_digits_def)
qed

lemma digit_step:
  fixes d b o' :: u32 and carry :: u64
  assumes "unat carry < 2 ^ 32"
  defines "current \<equiv> ucast d * ucast b + ucast o' + carry"
  shows "unat (ucast current :: u32) + 2 ^ 32 * unat (drop_bit 32 current) = unat d * unat b + unat o' + unat carry"
    "unat (drop_bit 32 current) < 2 ^ 32"
proof -
  define D B U C where d: "D = unat d" "B = unat b" "U = unat o'" "C = unat carry"
  have l: "D \<le> 4294967295" "B \<le> 4294967295" "U \<le> 4294967295" "C \<le> 4294967295"
    using unat_lt32 [of d] unat_lt32 [of b] unat_lt32 [of o'] assms(1) unfolding d by simp_all
  have "D * B \<le> 4294967295 * 4294967295" using l(1,2) by (rule mult_le_mono)
  then have lt: "D * B + U + C < 2 ^ 64" using l by simp
  have u: "unat (ucast x :: u64) = unat x" for x :: u32 using unat_lt32 [of x] by (intro unat_ucast_lt) simp
  have m: "unat (ucast d * ucast b :: u64) = D * B" using lt by (subst unat_mult_lt) (simp_all add: u d)
  have a: "unat (ucast d * ucast b + ucast o' :: u64) = D * B + U" using lt by (subst unat_add_lt) (simp_all add: m u d)
  have c: "unat current = D * B + U + C" unfolding current_def using lt by (subst unat_add_lt) (simp_all add: a d)
  show "unat (ucast current :: u32) + 2 ^ 32 * unat (drop_bit 32 current) = unat d * unat b + unat o' + unat carry"
    unfolding unat_ucast unat_drop_bit c d [symmetric] by simp
  show "unat (drop_bit 32 current) < 2 ^ 32"
    unfolding unat_drop_bit using unat_lt64 [of current] by (simp add: less_mult_imp_div_less)
qed

lemma digit_carry:
  fixes o' :: u32 and carry :: u64
  assumes "unat carry < 2 ^ 32"
  defines "current \<equiv> ucast o' + carry"
  shows "unat (ucast current :: u32) + 2 ^ 32 * unat (drop_bit 32 current) = unat o' + unat carry"
    "unat (drop_bit 32 current) < 2 ^ 32"
  using digit_step [OF assms(1), of 0 0 o'] unfolding current_def by simp_all

lemma mul_row_sound:
  "unat carry < 2 ^ 32 \<Longrightarrow> k + length bs \<le> length out \<Longrightarrow> mul_row d bs k carry out = (out', carry') \<Longrightarrow>
   bval out' + 2 ^ (32 * (k + length bs)) * unat carry' = bval out + 2 ^ (32 * k) * (unat d * bval bs + unat carry) \<and>
   length out' = length out \<and> unat carry' < 2 ^ 32"
proof (induction d bs k carry out rule: mul_row.induct)
  case (2 d b bs k carry out)
  define current where "current = ucast d * ucast b + ucast (out ! k) + carry"
  note st = digit_step [OF "2.prems"(1), of d b "out ! k", folded current_def]
  have k: "k < length out" using "2.prems"(2) by simp
  have up: "bval (out [k := ucast current]) + 2 ^ (32 * k) * unat (out ! k) = bval out + 2 ^ (32 * k) * unat (ucast current :: u32)"
    using bval_update [OF k, of "ucast current"] by simp
  have IH: "bval out' + 2 ^ (32 * (k + 1 + length bs)) * unat carry' =
      bval (out [k := ucast current]) + 2 ^ (32 * (k + 1)) * (unat d * bval bs + unat (drop_bit 32 current))"
    "length out' = length out" "unat carry' < 2 ^ 32"
    using "2.IH" [OF current_def st(2)] "2.prems"(2,3) by (simp_all add: Let_def flip: current_def)
  have "2 ^ (32 * (k + 1)) * (unat d * bval bs + unat (drop_bit 32 current)) =
      2 ^ (32 * k) * (2 ^ 32 * unat d * bval bs + 2 ^ 32 * unat (drop_bit 32 current))"
    by (simp add: power_add distrib_left)
  moreover have "2 ^ (32 * k) * (unat (ucast current :: u32) + 2 ^ 32 * unat (drop_bit 32 current)) =
      2 ^ (32 * k) * (unat d * unat b + unat (out ! k) + unat carry)" using st(1) by (rule arg_cong)
  moreover have "unat d * bval (b # bs) = unat d * unat b + 2 ^ 32 * unat d * bval bs" by (simp add: distrib_left)
  ultimately have "bval out' + 2 ^ (32 * (k + 1 + length bs)) * unat carry' + 2 ^ (32 * k) * unat (out ! k) =
      bval out + 2 ^ (32 * k) * (unat d * bval (b # bs) + unat carry) + 2 ^ (32 * k) * unat (out ! k)"
    unfolding IH(1) using up by (simp only: distrib_left)
  then show ?case using IH(2,3) by simp
qed simp

lemma mul_carry_sound:
  "unat carry < 2 ^ 32 \<Longrightarrow> k \<le> length out \<Longrightarrow>
   bval (mul_carry k carry out) = (bval out + 2 ^ (32 * k) * unat carry) mod 2 ^ (32 * length out) \<and>
   length (mul_carry k carry out) = length out"
proof (induction k carry out rule: mul_carry.induct)
  case (1 k carry out)
  have l: "bval out < 2 ^ (32 * length out)" using bval_less [of out] by simp
  show ?case
  proof (cases "carry \<noteq> 0 \<and> k < length out")
    case True
    define current where "current = ucast (out ! k) + carry"
    note st = digit_carry [OF "1.prems"(1), of "out ! k", folded current_def]
    have s: "mul_carry k carry out = mul_carry (k + 1) (drop_bit 32 current) (out [k := ucast current])"
      using True by (subst mul_carry.simps) (simp only: Let_def current_def simp_thms if_True)
    have up: "bval (out [k := ucast current]) + 2 ^ (32 * k) * unat (out ! k) = bval out + 2 ^ (32 * k) * unat (ucast current :: u32)"
      using bval_update [of k out "ucast current"] True by simp
    have IH: "bval (mul_carry (k + 1) (drop_bit 32 current) (out [k := ucast current])) =
        (bval (out [k := ucast current]) + 2 ^ (32 * (k + 1)) * unat (drop_bit 32 current)) mod 2 ^ (32 * length out)"
      "length (mul_carry (k + 1) (drop_bit 32 current) (out [k := ucast current])) = length out"
      using "1.IH" [OF True current_def st(2)] True by simp_all
    have "2 ^ (32 * (k + 1)) * unat (drop_bit 32 current) = 2 ^ (32 * k) * (2 ^ 32 * unat (drop_bit 32 current))"
      by (simp add: power_add)
    moreover have "2 ^ (32 * k) * (unat (ucast current :: u32) + 2 ^ 32 * unat (drop_bit 32 current)) =
        2 ^ (32 * k) * (unat (out ! k) + unat carry)" using st(1) by (rule arg_cong)
    ultimately have "bval (out [k := ucast current]) + 2 ^ (32 * (k + 1)) * unat (drop_bit 32 current) =
        bval out + 2 ^ (32 * k) * unat carry"
      using up by (simp only: distrib_left)
    then show ?thesis unfolding s using IH by simp
  next
    case False
    then have s: "mul_carry k carry out = out" by (subst mul_carry.simps) (simp only: if_False)
    have "unat carry = 0 \<or> k = length out" using False "1.prems"(2) by auto
    then show ?thesis unfolding s using l by auto
  qed
qed

lemma mul_rows_sound:
  "i + length ds + length bd \<le> length out \<Longrightarrow>
   bval (mul_rows ds i bd out) = (bval out + 2 ^ (32 * i) * (bval ds * bval bd)) mod 2 ^ (32 * length out) \<and>
   length (mul_rows ds i bd out) = length out"
proof (induction ds i bd out rule: mul_rows.induct)
  case (1 i bd out)
  then show ?case using bval_less [of out] by simp
next
  case (2 d ds i bd out)
  obtain out' carry where row: "mul_row d bd i 0 out = (out', carry)" by (cases "mul_row d bd i 0 out") auto
  define M :: nat where "M = 2 ^ (32 * length out)"
  have k: "i + length bd \<le> length out" using "2.prems" by simp
  have r: "bval out' + 2 ^ (32 * (i + length bd)) * unat carry = bval out + 2 ^ (32 * i) * (unat d * bval bd)"
    "length out' = length out" "unat carry < 2 ^ 32"
    using mul_row_sound [OF _ k row] by simp_all
  define out'' where "out'' = mul_carry (i + length bd) carry out'"
  have c: "bval out'' = (bval out + 2 ^ (32 * i) * (unat d * bval bd)) mod M" "length out'' = length out"
    using mul_carry_sound [OF r(3), of "i + length bd" out'] k r(1,2) unfolding out''_def M_def by simp_all
  have IH: "bval (mul_rows ds (i + 1) bd out'') = (bval out'' + 2 ^ (32 * (i + 1)) * (bval ds * bval bd)) mod M"
    "length (mul_rows ds (i + 1) bd out'') = length out"
    using "2.IH" [OF row [symmetric] refl] "2.prems" c(2) unfolding out''_def M_def by simp_all
  have s: "mul_rows (d # ds) i bd out = mul_rows ds (i + 1) bd out''" by (simp add: row out''_def)
  have "2 ^ (32 * i) * (bval (d # ds) * bval bd) = 2 ^ (32 * i) * (unat d * bval bd) + 2 ^ (32 * (i + 1)) * (bval ds * bval bd)"
    by (simp add: power_add distrib_left distrib_right)
  then have "(bval out'' + 2 ^ (32 * (i + 1)) * (bval ds * bval bd)) mod M = (bval out + 2 ^ (32 * i) * (bval (d # ds) * bval bd)) mod M"
    unfolding c(1) by (simp add: mod_add_left_eq add.assoc)
  then show ?case unfolding s using IH by (simp add: M_def)
qed

lemma join_digits:
  "length out = 2 * n \<Longrightarrow>
   bval (map (\<lambda>i. ucast (out ! (2 * i)) OR push_bit 32 (ucast (out ! (2 * i + 1)))) [0..<n] :: big) = bval out" for out :: "u32 list"
proof (induction n arbitrary: out)
  case (Suc n)
  then obtain x y rest where o': "out = x # y # rest" "length rest = 2 * n"
    by (metis (no_types, lifting) Suc_length_conv add_2_eq_Suc mult_Suc_right)
  have u: "unat (ucast x :: u64) = unat x" for x :: u32 using unat_lt32 [of x] by (intro unat_ucast_lt) simp
  have p: "unat (push_bit 32 (ucast y) :: u64) = unat y * 2 ^ 32"
    using unat_lt32 [of y] by (subst unat_push_bit_lt) (simp_all add: u)
  have "unat (ucast x OR push_bit 32 (ucast y) :: u64) = unat x + unat y * 2 ^ 32"
    using unat_or_disjoint [of "push_bit 32 (ucast y) :: u64" 32 "ucast x"] unat_lt32 [of x] u p
    by (simp add: or.commute)
  then show ?case using Suc.IH [OF o'(2)] unfolding o'(1) by (simp add: map_upt_Suc del: upt_Suc)
qed simp

lemma big_multiply_sound: "bval (big_multiply a b) = bval a * bval b" "length (big_multiply a b) = length a + length b"
proof -
  show "length (big_multiply a b) = length a + length b" by (simp add: big_multiply_def Let_def)
  define out where "out = mul_rows (big_digits a) 0 (big_digits b) (replicate ((length a + length b) * 2) 0)"
  have "bval a * bval b < 2 ^ (64 * length a) * 2 ^ (64 * length b)"
    using bval_less [of a] bval_less [of b] by (intro mult_strict_mono) simp_all
  then have lt: "bval a * bval b < 2 ^ (32 * ((length a + length b) * 2))"
    by (simp add: distrib_left mult.commute flip: power_add)
  have "bval out = bval a * bval b" "length out = (length a + length b) * 2"
    using mul_rows_sound [of 0 "big_digits a" "big_digits b" "replicate ((length a + length b) * 2) 0"] lt
    unfolding out_def by (simp_all add: big_digits_sound)
  then show "bval (big_multiply a b) = bval a * bval b"
    using join_digits [of out "length a + length b"] by (simp only: big_multiply_def Let_def mult_2 flip: out_def) (simp add: mult_2)
qed

section \<open>Conditional subtraction\<close>

text \<open>
  What the digit loops of division, square root and remainder rely on: numbers with a comparison, a
  subtraction and a doubling that is exact while the double fits.
\<close>

locale limb_arith =
  fixes val :: "'a \<Rightarrow> nat" and ok :: "'a \<Rightarrow> bool" and width :: nat
    and ge :: "'a \<Rightarrow> 'a \<Rightarrow> bool" and minus :: "'a \<Rightarrow> 'a \<Rightarrow> 'a" and double :: "'a \<Rightarrow> 'a"
  assumes ge: "ok a \<Longrightarrow> ok b \<Longrightarrow> ge a b \<longleftrightarrow> val b \<le> val a"
    and minus: "ok a \<Longrightarrow> ok b \<Longrightarrow> val b \<le> val a \<Longrightarrow> val (minus a b) = val a - val b \<and> ok (minus a b)"
    and double: "ok a \<Longrightarrow> 2 * val a < 2 ^ width \<Longrightarrow> val (double a) = 2 * val a \<and> ok (double a)"
begin

lemma trial:
  assumes "ok r" "ok d"
  shows "val (if ge r d then minus r d else r) = (if val d \<le> val r then val r - val d else val r)"
    "ok (if ge r d then minus r d else r)"
  using assms minus [OF assms] by (simp_all add: ge)

text \<open>One quotient digit: below twice the divisor, one subtraction leaves the remainder.\<close>

lemma digit:
  assumes "ok r" "ok d" "val r < 2 * val d"
  shows "val (if ge r d then minus r d else r) = val r mod val d" "of_bool (ge r d) = val r div val d"
proof -
  have "0 < val d" using assms(3) by simp
  moreover have "val r div val d = of_bool (val d \<le> val r)"
  proof (cases "val d \<le> val r")
    case True
    then have "val r div val d = Suc ((val r - val d) div val d)" using \<open>0 < val d\<close> by (rule le_div_geq [rotated])
    then show ?thesis using True assms(3) by simp
  qed (simp add: div_less)
  ultimately show "val (if ge r d then minus r d else r) = val r mod val d" "of_bool (ge r d) = val r div val d"
    using assms minus [OF assms(1,2)] by (simp_all add: ge le_mod_geq)
qed

lemma next_dividend:
  assumes "ok r" "ok d" "val r < 2 * val d" "2 * val d \<le> 2 ^ width"
  shows "val (double (if ge r d then minus r d else r)) = 2 * (val r mod val d)"
    "ok (double (if ge r d then minus r d else r))" "2 * (val r mod val d) < 2 * val d"
proof -
  have "0 < val d" using assms(3) by simp
  then show lt: "2 * (val r mod val d) < 2 * val d" by simp
  then show "val (double (if ge r d then minus r d else r)) = 2 * (val r mod val d)"
    "ok (double (if ge r d then minus r d else r))"
    using double [of "if ge r d then minus r d else r"] digit [OF assms(1-3)] trial(2) [OF assms(1,2)] assms(4) by auto
qed

end

interpretation big8: limb_arith bval "\<lambda>a. length a = 8" 512 "\<lambda>a b. 0 \<le> big_compare a b" big_sub "\<lambda>a. big_shl a 1"
  by unfold_locales (auto simp: big_compare_sound big_sub_le big_sub_sound(2) big_shl_sound)

interpretation u64_arith: limb_arith unat "\<lambda>_. True" 64 "\<lambda>a b. b \<le> a" "(-)" "push_bit 1 :: u64 \<Rightarrow> u64"
proof unfold_locales
  fix a :: u64
  assume "2 * unat a < 2 ^ 64"
  then have "unat (push_bit 1 a) = unat a * 2 ^ 1" by (intro unat_push_bit_lt) simp
  then show "unat (push_bit 1 a) = 2 * unat a \<and> True" by (simp only: power_one_right mult.commute simp_thms)
qed (auto simp: word_le_nat_alt unat_sub_le)

end
