(* ===== verification/Sf_F256.thy ===== *)
theory Sf_F256
  imports Sf_BigUint Sf_Arith
begin

text \<open>
  \<open>src/fp256/soft_f256.cpp\<close>, the binary256 core (1 sign, 19 exponent, 236 fraction bits): its data,
  every operation and every entry point of the C ABI of \<open>soft_fp256.h\<close>.  An operation writes its
  flags while it runs, through \<open>raise_flags\<close>: into the caller's state object or into the
  thread's bag.
\<close>

section \<open>Constants, values and flags\<close>

definition kFrac :: nat where "kFrac = 236"
definition kBias :: int where "kBias = 262143"
definition kEmin :: int where "kEmin = 1 - kBias"
definition f256_kExpMax :: u32 where "f256_kExpMax = push_bit 19 1 - 1"
definition kTopFracMask :: u64 where "kTopFracMask = push_bit 44 1 - 1"

text \<open>The array \<open>limb[4]\<close>, least significant limb first.\<close>

record sf256 =
  limb0 :: u64
  limb1 :: u64
  limb2 :: u64
  limb3 :: u64

definition limbs :: "sf256 \<Rightarrow> big" where "limbs x = [limb0 x, limb1 x, limb2 x, limb3 x]"

definition of_limbs :: "big \<Rightarrow> sf256" where
  "of_limbs a = \<lparr>limb0 = a ! 0, limb1 = a ! 1, limb2 = a ! 2, limb3 = a ! 3\<rparr>"

record Decoded =
  d_sign :: bool
  d_field :: u32
  d_exponent :: int
  d_sig :: big
  d_zero :: bool
  d_inf :: bool
  d_nan :: bool
  d_snan :: bool

text \<open>
  Where an operation's flags go: the build mode and the calling thread, and the two parameters
  \<open>state\<close> and \<open>explicit_state\<close> every operation takes.
\<close>

record flag_target =
  ft_mode :: fenv_mode
  ft_tid :: tid
  ft_state :: state_ptr
  ft_explicit :: bool

definition raise_flags :: "flag_target \<Rightarrow> u32 \<Rightarrow> fenv_world \<Rightarrow> fenv_world" where
  "raise_flags tg flags w =
     (if flags = 0 then w
      else if ft_explicit tg then
        (case ft_state tg of
           Some p \<Rightarrow> put_state p (state_flags w p OR flags) w
         | None \<Rightarrow> w)
      else sf64_fe_raise (ft_mode tg) (ft_tid tg) flags w)"

section \<open>Decoding and encoding\<close>

definition decode :: "sf256 \<Rightarrow> Decoded" where
  "decode x =
     (let sign = drop_bit 63 (limb3 x) \<noteq> 0;
          field = ucast (drop_bit 44 (limb3 x) AND ucast f256_kExpMax);
          sig = limbs x @ big_none 4;
          sig = sig [3 := sig ! 3 AND kTopFracMask];
          fraction_zero = big_zero sig;
          is_zero = (field = 0 \<and> fraction_zero);
          is_inf = (field = f256_kExpMax \<and> fraction_zero);
          is_nan = (field = f256_kExpMax \<and> \<not> fraction_zero);
          is_snan = (is_nan \<and> \<not> big_bit sig (kFrac - 1));
          (sig, exponent) =
            (if \<not> is_zero \<and> \<not> is_inf \<and> \<not> is_nan then
               (if field = 0 then
                  (let shift = int kFrac - big_highest sig in (big_shl sig (nat shift), kEmin - shift))
                else (big_set_bit sig kFrac, uint field - kBias))
             else (sig, 0))
      in \<lparr>d_sign = sign, d_field = field, d_exponent = exponent, d_sig = sig, d_zero = is_zero,
          d_inf = is_inf, d_nan = is_nan, d_snan = is_snan\<rparr>)"

definition raw :: "bool \<Rightarrow> u32 \<Rightarrow> big \<Rightarrow> sf256" where
  "raw sign exponent fraction =
     (let out = of_limbs fraction;
          out = out\<lparr>limb3 := limb3 out AND kTopFracMask\<rparr>;
          out = out\<lparr>limb3 := limb3 out OR push_bit 44 (ucast exponent)\<rparr>
      in out\<lparr>limb3 := limb3 out OR push_bit 63 (if sign then 1 else 0)\<rparr>)"

definition zero_value :: "bool \<Rightarrow> sf256" where "zero_value sign = raw sign 0 (big_none 8)"

definition inf_value :: "bool \<Rightarrow> sf256" where "inf_value sign = raw sign f256_kExpMax (big_none 8)"

definition default_nan :: sf256 where
  "default_nan = raw False f256_kExpMax (big_set_bit (big_none 8) (kFrac - 1))"

definition quiet_nan :: "sf256 \<Rightarrow> sf256" where
  "quiet_nan x = x\<lparr>limb3 := limb3 x OR push_bit 43 1\<rparr>"

fun increment_limbs :: "u64 list \<Rightarrow> u64 list \<times> bool" where
  "increment_limbs [] = ([], True)"
| "increment_limbs (x # xs) =
     (let x = x + 1
      in if x \<noteq> 0 then (x # xs, False)
         else (let (ys, carry) = increment_limbs xs in (x # ys, carry)))"

fun decrement_limbs :: "u64 list \<Rightarrow> u64 list" where
  "decrement_limbs [] = []"
| "decrement_limbs (x # xs) =
     (let old = x; x = x - 1 in if old \<noteq> 0 then x # xs else x # decrement_limbs xs)"

definition adjacent :: "sf256 \<Rightarrow> bool \<Rightarrow> sf256" where
  "adjacent x toward_positive =
     (let sign = drop_bit 63 (limb3 x) \<noteq> 0;
          increment_bits = (toward_positive \<noteq> sign)
      in if increment_bits then of_limbs (fst (increment_limbs (limbs x)))
         else of_limbs (decrement_limbs (limbs x)))"

definition f256_propagate_nan :: "sf256 \<Rightarrow> sf256 \<Rightarrow> flag_target \<Rightarrow> fenv_world \<Rightarrow> sf256 \<times> fenv_world" where
  "f256_propagate_nan a b tg w =
     (let da = decode a; db = decode b;
          w = (if d_snan da \<or> d_snan db then raise_flags tg SF64_FE_INVALID w else w)
      in if d_nan da then (quiet_nan a, w)
         else if d_nan db then (quiet_nan b, w)
         else (default_nan, w))"

definition increment :: "big \<Rightarrow> big \<times> bool" where "increment a = increment_limbs a"

definition round_up :: "bool \<Rightarrow> bool \<Rightarrow> bool \<Rightarrow> bool \<Rightarrow> sf64_rounding_mode \<Rightarrow> bool" where
  "round_up sign guard_bit sticky is_odd mode =
     (if \<not> guard_bit \<and> \<not> sticky then False
      else case mode of
        SF64_RTZ \<Rightarrow> False
      | SF64_RUP \<Rightarrow> \<not> sign
      | SF64_RDN \<Rightarrow> sign
      | SF64_RNA \<Rightarrow> guard_bit
      | SF64_RNE \<Rightarrow> guard_bit \<and> (sticky \<or> is_odd))"

definition pack_extended ::
  "bool \<Rightarrow> big \<Rightarrow> int \<Rightarrow> sf64_rounding_mode \<Rightarrow> flag_target \<Rightarrow> fenv_world \<Rightarrow> sf256 \<times> fenv_world" where
  "pack_extended sign ext exponent mode tg w =
     (if big_zero ext then (zero_value sign, w)
      else
        let (ext, exponent) =
              (if exponent < kEmin then (big_shr_jam ext (nat (kEmin - exponent)), kEmin) else (ext, exponent));
            guard_bit = big_bit ext 2;
            sticky = (big_bit ext 1 \<or> big_bit ext 0);
            sig = big_shr ext 3;
            inexact = (guard_bit \<or> sticky);
            sig = (if round_up sign guard_bit sticky (big_bit sig 0) mode then fst (increment sig) else sig);
            (sig, exponent) = (if big_bit sig (kFrac + 1) then (big_shr sig 1, exponent + 1) else (sig, exponent))
        in if exponent > kBias then
             (let w = raise_flags tg (SF64_FE_OVERFLOW OR SF64_FE_INEXACT) w;
                  to_inf = (mode = SF64_RNE \<or> mode = SF64_RNA \<or> mode = SF64_RUP \<and> \<not> sign \<or> mode = SF64_RDN \<and> sign)
              in if to_inf then (inf_value sign, w)
                 else
                   let max = (big_none 8) [0 := NOT 0, 1 := NOT 0, 2 := NOT 0];
                       max = max [3 := kTopFracMask]
                   in (raw sign (f256_kExpMax - 1) max, w))
           else
             let w = (if inexact then
                        (let flags = SF64_FE_INEXACT;
                             flags = (if exponent = kEmin \<and> \<not> big_bit sig kFrac then flags OR SF64_FE_UNDERFLOW else flags)
                         in raise_flags tg flags w)
                      else w)
             in if exponent = kEmin \<and> \<not> big_bit sig kFrac then (raw sign 0 sig, w)
                else
                  let sig = sig [kFrac div 64 := sig ! (kFrac div 64) AND NOT (push_bit (kFrac mod 64) 1)]
                  in (raw sign (word_of_int (exponent + kBias)) sig, w))"

definition pack_scaled ::
  "bool \<Rightarrow> big \<Rightarrow> int \<Rightarrow> sf64_rounding_mode \<Rightarrow> flag_target \<Rightarrow> fenv_world \<Rightarrow> sf256 \<times> fenv_world" where
  "pack_scaled sign mag scale mode tg w =
     (let msb = big_highest mag
      in if msb < 0 then (zero_value sign, w)
         else
           let target = int kFrac + 3;
               ext = (if msb > target then big_shr_jam mag (nat (msb - target)) else big_shl mag (nat (target - msb)))
           in pack_extended sign ext (scale + msb) mode tg w)"

definition frame :: "big \<Rightarrow> int \<Rightarrow> int \<Rightarrow> big" where
  "frame value scale common_scale =
     (if big_zero value then big_none 8
      else
        let shift = scale - common_scale
        in if shift \<ge> 0 then big_shl value (nat shift) else big_shr_jam value (nat (- shift)))"

section \<open>Arithmetic\<close>

definition f256_add_impl ::
  "sf64_rounding_mode \<Rightarrow> sf256 \<Rightarrow> sf256 \<Rightarrow> flag_target \<Rightarrow> fenv_world \<Rightarrow> sf256 \<times> fenv_world" where
  "f256_add_impl mode a b tg w =
     (let da = decode a; db = decode b
      in if d_nan da \<or> d_nan db then f256_propagate_nan a b tg w
         else if d_inf da \<or> d_inf db then
           (if d_inf da \<and> d_inf db \<and> d_sign da \<noteq> d_sign db then (default_nan, raise_flags tg SF64_FE_INVALID w)
            else (if d_inf da then a else b, w))
         else if d_zero da \<and> d_zero db then
           (zero_value (if d_sign da = d_sign db then d_sign da else mode = SF64_RDN), w)
         else if d_zero da then (b, w)
         else if d_zero db then (a, w)
         else
           let difference = (if d_exponent da > d_exponent db then d_exponent da - d_exponent db
                             else d_exponent db - d_exponent da)
           in if difference \<le> 274 then
                (let common = (if d_exponent da < d_exponent db then d_exponent da else d_exponent db);
                     ea = big_shl (d_sig da) (nat (d_exponent da - common));
                     eb = big_shl (d_sig db) (nat (d_exponent db - common))
                 in if d_sign da = d_sign db then
                      pack_scaled (d_sign da) (big_add ea eb) (common - int kFrac) mode tg w
                    else
                      let cmp = big_compare ea eb
                      in if cmp = 0 then (zero_value (mode = SF64_RDN), w)
                         else if cmp > 0 then pack_scaled (d_sign da) (big_sub ea eb) (common - int kFrac) mode tg w
                         else pack_scaled (d_sign db) (big_sub eb ea) (common - int kFrac) mode tg w)
              else
                let a_dominates = d_exponent da > d_exponent db;
                    dominant = (if a_dominates then a else b);
                    dominant_sign = (if a_dominates then d_sign da else d_sign db);
                    delta_sign = (if a_dominates then d_sign db else d_sign da);
                    (step, toward_positive) =
                      (if mode = SF64_RUP then (\<not> delta_sign, \<not> delta_sign)
                       else if mode = SF64_RDN then (delta_sign, \<not> delta_sign)
                       else if mode = SF64_RTZ then (dominant_sign \<noteq> delta_sign, dominant_sign)
                       else (False, \<not> delta_sign));
                    w = raise_flags tg SF64_FE_INEXACT w
                in (if step then adjacent dominant toward_positive else dominant, w))"

definition f256_mul_impl ::
  "sf64_rounding_mode \<Rightarrow> sf256 \<Rightarrow> sf256 \<Rightarrow> flag_target \<Rightarrow> fenv_world \<Rightarrow> sf256 \<times> fenv_world" where
  "f256_mul_impl mode a b tg w =
     (let da = decode a; db = decode b; sign = (d_sign da \<noteq> d_sign db)
      in if d_nan da \<or> d_nan db then f256_propagate_nan a b tg w
         else if d_inf da \<and> d_zero db \<or> d_inf db \<and> d_zero da then (default_nan, raise_flags tg SF64_FE_INVALID w)
         else if d_inf da \<or> d_inf db then (inf_value sign, w)
         else if d_zero da \<or> d_zero db then (zero_value sign, w)
         else
           let product = big_multiply (big_widen 4 (d_sig da)) (big_widen 4 (d_sig db))
           in pack_scaled sign product (d_exponent da + d_exponent db - 2 * int kFrac) mode tg w)"

text \<open>The restoring division from \<open>pos\<close> down to 0: one quotient bit per turn.\<close>

fun div_loop :: "nat \<Rightarrow> big \<Rightarrow> big \<Rightarrow> big \<Rightarrow> big \<times> big" where
  "div_loop pos d rm q =
     (let (rm, q) = (if big_compare rm d \<ge> 0 then (big_sub rm d, big_set_bit q pos) else (rm, q))
      in case pos of
           0 \<Rightarrow> (rm, q)
         | Suc pos' \<Rightarrow> div_loop pos' d (big_shl rm 1) q)"

declare div_loop.simps [simp del]

definition f256_div_impl ::
  "sf64_rounding_mode \<Rightarrow> sf256 \<Rightarrow> sf256 \<Rightarrow> flag_target \<Rightarrow> fenv_world \<Rightarrow> sf256 \<times> fenv_world" where
  "f256_div_impl mode a b tg w =
     (let da = decode a; db = decode b; sign = (d_sign da \<noteq> d_sign db)
      in if d_nan da \<or> d_nan db then f256_propagate_nan a b tg w
         else if d_inf da \<and> d_inf db \<or> d_zero da \<and> d_zero db then (default_nan, raise_flags tg SF64_FE_INVALID w)
         else if d_inf da then (inf_value sign, w)
         else if d_inf db then (zero_value sign, w)
         else if d_zero db then (inf_value sign, raise_flags tg SF64_FE_DIVBYZERO w)
         else if d_zero da then (zero_value sign, w)
         else
           let exponent = d_exponent da - d_exponent db;
               rm = d_sig da;
               (rm, exponent) = (if big_compare rm (d_sig db) < 0 then (big_shl rm 1, exponent - 1) else (rm, exponent));
               (rm, q) = div_loop (kFrac + 3) (d_sig db) rm (big_none 8);
               q = (if \<not> big_zero rm then q [0 := q ! 0 OR 1] else q)
           in pack_scaled sign q (exponent - int kFrac - 3) mode tg w)"

definition sqrt_step :: "big \<Rightarrow> nat \<Rightarrow> big \<times> big \<Rightarrow> big \<times> big" where
  "sqrt_step rad i = (\<lambda>(rm, root).
     let rm = big_shl rm 2;
         rm = (if big_bit rad (i * 2 + 1) then rm [0 := rm ! 0 OR 2] else rm);
         rm = (if big_bit rad (i * 2) then rm [0 := rm ! 0 OR 1] else rm);
         trial = big_shl root 2;
         trial = trial [0 := trial ! 0 OR 1]
     in if big_compare rm trial \<ge> 0 then
          (let rm = big_sub rm trial; root = big_shl root 1 in (rm, root [0 := root ! 0 OR 1]))
        else (rm, big_shl root 1))"

text \<open>\<open>sqrt_loop n\<close>: the turns \<open>i = n - 1, \<dots>, 0\<close>.\<close>

fun sqrt_loop :: "big \<Rightarrow> nat \<Rightarrow> big \<times> big \<Rightarrow> big \<times> big" where
  "sqrt_loop rad 0 st = st"
| "sqrt_loop rad (Suc i) st = sqrt_loop rad i (sqrt_step rad i st)"

definition f256_sqrt_impl ::
  "sf64_rounding_mode \<Rightarrow> sf256 \<Rightarrow> flag_target \<Rightarrow> fenv_world \<Rightarrow> sf256 \<times> fenv_world" where
  "f256_sqrt_impl mode x tg w =
     (let d = decode x
      in if d_nan d then f256_propagate_nan x x tg w
         else if d_sign d \<and> \<not> d_zero d then (default_nan, raise_flags tg SF64_FE_INVALID w)
         else if d_inf d \<or> d_zero d then (x, w)
         else
           let (sig, exponent) = (if odd (d_exponent d) then (big_shl (d_sig d) 1, d_exponent d - 1) else (d_sig d, d_exponent d));
               rad = big_shl sig (kFrac + 6);
               (rm, root) = sqrt_loop rad (kFrac + 4) (big_none 8, big_none 8);
               root = (if \<not> big_zero rm then root [0 := root ! 0 OR 1] else root)
           in pack_scaled False root (exponent div 2 - int kFrac - 3) mode tg w)"

definition f256_fma_impl ::
  "sf64_rounding_mode \<Rightarrow> sf256 \<Rightarrow> sf256 \<Rightarrow> sf256 \<Rightarrow> flag_target \<Rightarrow> fenv_world \<Rightarrow> sf256 \<times> fenv_world" where
  "f256_fma_impl mode a b c tg w =
     (let da = decode a; db = decode b; dc = decode c
      in if d_nan da \<or> d_nan db \<or> d_nan dc then
           (let (ab, w) = f256_propagate_nan a b tg w
            in if d_nan da \<or> d_nan db then (ab, w) else f256_propagate_nan c c tg w)
         else if d_inf da \<and> d_zero db \<or> d_inf db \<and> d_zero da then (default_nan, raise_flags tg SF64_FE_INVALID w)
         else
           let product_sign = (d_sign da \<noteq> d_sign db)
           in if d_inf da \<or> d_inf db then
                (if d_inf dc \<and> d_sign dc \<noteq> product_sign then (default_nan, raise_flags tg SF64_FE_INVALID w)
                 else (inf_value product_sign, w))
              else if d_inf dc then (c, w)
              else if d_zero da \<or> d_zero db then f256_add_impl mode (zero_value product_sign) c tg w
              else
                let product = big_multiply (big_widen 4 (d_sig da)) (big_widen 4 (d_sig db));
                    ps = d_exponent da + d_exponent db - 2 * int kFrac
                in if d_zero dc then pack_scaled product_sign product ps mode tg w
                   else
                     let cs = d_exponent dc - int kFrac;
                         top = (if ps + big_highest product > cs + big_highest (d_sig dc)
                                then ps + big_highest product else cs + big_highest (d_sig dc));
                         common = top - 509;
                         pf = frame product ps common;
                         cf = frame (d_sig dc) cs common
                     in if product_sign = d_sign dc then pack_scaled product_sign (big_add pf cf) common mode tg w
                        else
                          let cmp = big_compare pf cf
                          in if cmp = 0 then (zero_value (mode = SF64_RDN), w)
                             else if cmp > 0 then pack_scaled product_sign (big_sub pf cf) common mode tg w
                             else pack_scaled (d_sign dc) (big_sub cf pf) common mode tg w)"

section \<open>Conversions, rounding to integers, remainder\<close>

definition f256_to_f64_impl ::
  "sf64_rounding_mode \<Rightarrow> sf256 \<Rightarrow> flag_target \<Rightarrow> fenv_world \<Rightarrow> f64 \<times> fenv_world" where
  "f256_to_f64_impl mode x tg w =
     (let d = decode x; s = push_bit 63 (if d_sign d then 1 else 0)
      in if d_nan d then
           (let w = (if d_snan d then raise_flags tg SF64_FE_INVALID w else w);
                payload = drop_bit 32 (d_sig d ! 3) AND 0x0007FFFFFFFFFFFF
            in (s OR 0x7FF8000000000000 OR payload, w))
         else if d_inf d then (s OR 0x7FF0000000000000, w)
         else if d_zero d then (s, w)
         else
           let exponent = d_exponent d;
               ext = big_shr_jam (d_sig d) (kFrac - 55);
               (ext, exponent) =
                 (if exponent < - 1022 then (big_shr_jam ext (nat (- 1022 - exponent)), - 1022) else (ext, exponent));
               guard_bit = big_bit ext 2;
               sticky = (big_bit ext 1 \<or> big_bit ext 0);
               sig = big_shr ext 3;
               inexact = (guard_bit \<or> sticky);
               sig = (if round_up (d_sign d) guard_bit sticky (big_bit sig 0) mode then fst (increment sig) else sig);
               (sig, exponent) = (if big_bit sig 53 then (big_shr sig 1, exponent + 1) else (sig, exponent))
           in if exponent > 1023 then
                (let w = raise_flags tg (SF64_FE_OVERFLOW OR SF64_FE_INEXACT) w;
                     to_inf = (mode = SF64_RNE \<or> mode = SF64_RNA \<or> mode = SF64_RUP \<and> \<not> d_sign d \<or> mode = SF64_RDN \<and> d_sign d)
                 in (s OR (if to_inf then 0x7FF0000000000000 else 0x7FEFFFFFFFFFFFFF), w))
              else
                let w = (if inexact then
                           (let tiny_after_rounding = (exponent = - 1022 \<and> \<not> big_bit sig 52)
                            in raise_flags tg (SF64_FE_INEXACT OR (if tiny_after_rounding then SF64_FE_UNDERFLOW else 0)) w)
                         else w);
                    field = (if exponent = - 1022 \<and> \<not> big_bit sig 52 then 0 else word_of_int (exponent + 1023))
                in (s OR push_bit 52 field OR (sig ! 0 AND 0x000FFFFFFFFFFFFF), w))"

text \<open>The magnitude and the \<open>inexact\<close> out-parameter (\<open>False\<close> on entry at every call).\<close>

definition rounded_integer :: "Decoded \<Rightarrow> sf64_rounding_mode \<Rightarrow> big \<times> bool" where
  "rounded_integer d mode =
     (if d_exponent d \<ge> int kFrac then (big_shl (d_sig d) (nat (d_exponent d - int kFrac)), False)
      else
        let shift = nat (int kFrac - d_exponent d);
            mag = big_shr (d_sig d) shift;
            guard_bit = (shift > 0 \<and> big_bit (d_sig d) (shift - 1));
            sticky = (shift > 1 \<and> big_any_low (d_sig d) (shift - 1));
            inexact = (guard_bit \<or> sticky)
        in (if round_up (d_sign d) guard_bit sticky (big_bit mag 0) mode then fst (increment mag) else mag, inexact))"

definition f256_rint_impl ::
  "sf64_rounding_mode \<Rightarrow> sf256 \<Rightarrow> flag_target \<Rightarrow> fenv_world \<Rightarrow> sf256 \<times> fenv_world" where
  "f256_rint_impl mode x tg w =
     (let d = decode x
      in if d_nan d then (quiet_nan x, if d_snan d then raise_flags tg SF64_FE_INVALID w else w)
         else if d_inf d \<or> d_zero d \<or> d_exponent d \<ge> int kFrac then (x, w)
         else
           let (mag, inexact) = rounded_integer d mode;
               w = (if inexact then raise_flags tg SF64_FE_INEXACT w else w)
           in pack_scaled (d_sign d) mag 0 SF64_RNE tg w)"

text \<open>The turns \<open>i, \<dots>, 0\<close> of the remainder loop; the state is \<open>(rem, quotient_odd)\<close>.\<close>

fun f256_rem_loop :: "nat \<Rightarrow> big \<Rightarrow> big \<Rightarrow> big \<times> bool" where
  "f256_rem_loop i d rm =
     (let quotient_odd = (big_compare rm d \<ge> 0);
          rm = (if quotient_odd then big_sub rm d else rm)
      in case i of
           0 \<Rightarrow> (rm, quotient_odd)
         | Suc i' \<Rightarrow> f256_rem_loop i' d (big_shl rm 1))"

declare f256_rem_loop.simps [simp del]

definition f256_remainder_impl :: "sf256 \<Rightarrow> sf256 \<Rightarrow> flag_target \<Rightarrow> fenv_world \<Rightarrow> sf256 \<times> fenv_world" where
  "f256_remainder_impl a b tg w =
     (let da = decode a; db = decode b
      in if d_nan da \<or> d_nan db then f256_propagate_nan a b tg w
         else if d_inf da \<or> d_zero db then (default_nan, raise_flags tg SF64_FE_INVALID w)
         else if d_zero da \<or> d_inf db then (a, w)
         else
           let difference = d_exponent da - d_exponent db
           in if difference < - 1 then (a, w)
              else
                let (rm, complement) =
                      (if difference \<ge> 0 then
                         (let (rm, quotient_odd) = f256_rem_loop (nat difference) (d_sig db) (d_sig da);
                              half = big_compare (big_shl rm 1) (d_sig db)
                          in (rm, half > 0 \<or> half = 0 \<and> quotient_odd))
                       else
                         (let half = big_compare (d_sig da) (d_sig db) in (d_sig da, half > 0)));
                    sign = d_sign da;
                    scale = (if difference = - 1 then d_exponent da - int kFrac else d_exponent db - int kFrac);
                    (rm, sign) =
                      (if complement then
                         (if difference = - 1 then big_sub (big_shl (d_sig db) 1) rm else big_sub (d_sig db) rm, \<not> sign)
                       else (rm, sign))
                in pack_scaled sign rm scale SF64_RNE tg w)"

definition f256_to_u64_impl ::
  "sf64_rounding_mode \<Rightarrow> sf256 \<Rightarrow> flag_target \<Rightarrow> fenv_world \<Rightarrow> u64 \<times> fenv_world" where
  "f256_to_u64_impl mode x tg w =
     (let d = decode x
      in if d_nan d then (0, raise_flags tg SF64_FE_INVALID w)
         else if d_inf d \<or> d_sign d then (if d_sign d then 0 else 0xFFFFFFFFFFFFFFFF, raise_flags tg SF64_FE_INVALID w)
         else if d_zero d then (0, w)
         else if d_exponent d > 63 then (0xFFFFFFFFFFFFFFFF, raise_flags tg SF64_FE_INVALID w)
         else
           let (mag, inexact) = rounded_integer d mode
           in if big_highest mag > 63 then (0xFFFFFFFFFFFFFFFF, raise_flags tg SF64_FE_INVALID w)
              else (mag ! 0, if inexact then raise_flags tg SF64_FE_INEXACT w else w))"

text \<open>The result is the two's complement pattern of the \<open>int64_t\<close>.\<close>

definition f256_to_i64_impl ::
  "sf64_rounding_mode \<Rightarrow> sf256 \<Rightarrow> flag_target \<Rightarrow> fenv_world \<Rightarrow> u64 \<times> fenv_world" where
  "f256_to_i64_impl mode x tg w =
     (let d = decode x; lim = (if d_sign d then 0x8000000000000000 else 0x7FFFFFFFFFFFFFFF)
      in if d_nan d then (0, raise_flags tg SF64_FE_INVALID w)
         else if d_inf d then (lim, raise_flags tg SF64_FE_INVALID w)
         else if d_zero d then (0, w)
         else if d_exponent d > 63 then (lim, raise_flags tg SF64_FE_INVALID w)
         else
           let (mag, inexact) = rounded_integer d mode
           in if big_highest mag > 63 \<or> \<not> d_sign d \<and> big_bit mag 63
                 \<or> d_sign d \<and> big_bit mag 63 \<and> mag ! 0 \<noteq> 0x8000000000000000
              then (lim, raise_flags tg SF64_FE_INVALID w)
              else
                let w = (if inexact then raise_flags tg SF64_FE_INEXACT w else w)
                in if d_sign d then
                     (if mag ! 0 = 0x8000000000000000 then 0x8000000000000000 else - (mag ! 0), w)
                   else (mag ! 0, w))"

section \<open>The C ABI\<close>

text \<open>The two targets an entry passes: \<open>s, true\<close> and \<open>nullptr, false\<close>.\<close>

definition ex_target :: "fenv_mode \<Rightarrow> tid \<Rightarrow> state_ptr \<Rightarrow> flag_target" where
  "ex_target m t s = \<lparr>ft_mode = m, ft_tid = t, ft_state = s, ft_explicit = True\<rparr>"

definition bag_target :: "fenv_mode \<Rightarrow> tid \<Rightarrow> flag_target" where
  "bag_target m t = \<lparr>ft_mode = m, ft_tid = t, ft_state = None, ft_explicit = False\<rparr>"

definition sf256_from_bits :: "u64 \<Rightarrow> u64 \<Rightarrow> u64 \<Rightarrow> u64 \<Rightarrow> sf256" where
  "sf256_from_bits w3 w2 w1 w0 = \<lparr>limb0 = w0, limb1 = w1, limb2 = w2, limb3 = w3\<rparr>"

definition sf256_bits :: "sf256 \<Rightarrow> nat \<Rightarrow> u64" where
  "sf256_bits x word = (if word < 4 then limbs x ! word else 0)"

definition sf256_from_u64 :: "u64 \<Rightarrow> sf256 entry" where
  "sf256_from_u64 x m t w = pack_scaled False ((big_none 8) [0 := x]) 0 SF64_RNE (bag_target m t) w"

definition sf256_from_i64 :: "u64 \<Rightarrow> sf256 entry" where
  "sf256_from_i64 x m t w =
     (let s = (sint x < 0); mg = (if s then 0 - x else x)
      in pack_scaled s ((big_none 8) [0 := mg]) 0 SF64_RNE (bag_target m t) w)"

definition sf256_from_f64 :: "f64 \<Rightarrow> sf256 entry" where
  "sf256_from_f64 x m t w =
     (let b = x;
          s = (drop_bit 63 b \<noteq> 0);
          e = (ucast (drop_bit 52 b AND 0x7FF) :: u32);
          f = b AND 0xFFFFFFFFFFFFF
      in if e = 0x7FF then
           (if f = 0 then (inf_value s, w)
            else
              let p = (big_none 8) [0 := f];
                  p = big_shl p (kFrac - 52);
                  p = big_set_bit p (kFrac - 1)
              in (raw s f256_kExpMax p, w))
         else if e = 0 \<and> f = 0 then (zero_value s, w)
         else
           let mg = (big_none 8) [0 := f];
               (mg, ex) =
                 (if e \<noteq> 0 then (mg [0 := mg ! 0 OR push_bit 52 1], uint e - 1023)
                  else (let sh = 52 - big_highest mg in (big_shl mg (nat sh), - 1022 - sh)))
           in pack_scaled s mg (ex - 52) SF64_RNE (bag_target m t) w)"

definition sf256_to_f64_r_ex :: "sf64_rounding_mode \<Rightarrow> sf256 \<Rightarrow> state_ptr \<Rightarrow> f64 entry" where
  "sf256_to_f64_r_ex md x s m t = f256_to_f64_impl md x (ex_target m t s)"

definition sf256_to_f64_r :: "sf64_rounding_mode \<Rightarrow> sf256 \<Rightarrow> f64 entry" where
  "sf256_to_f64_r md x m t = f256_to_f64_impl md x (bag_target m t)"

definition sf256_to_f64 :: "sf256 \<Rightarrow> f64 entry" where
  "sf256_to_f64 x m t = f256_to_f64_impl SF64_RNE x (bag_target m t)"

definition sf256_to_u64_r_ex :: "sf64_rounding_mode \<Rightarrow> sf256 \<Rightarrow> state_ptr \<Rightarrow> u64 entry" where
  "sf256_to_u64_r_ex md x s m t = f256_to_u64_impl md x (ex_target m t s)"

definition sf256_to_u64_r :: "sf64_rounding_mode \<Rightarrow> sf256 \<Rightarrow> u64 entry" where
  "sf256_to_u64_r md x m t = f256_to_u64_impl md x (bag_target m t)"

definition sf256_to_u64 :: "sf256 \<Rightarrow> u64 entry" where
  "sf256_to_u64 x m t = f256_to_u64_impl SF64_RTZ x (bag_target m t)"

definition sf256_to_i64_r_ex :: "sf64_rounding_mode \<Rightarrow> sf256 \<Rightarrow> state_ptr \<Rightarrow> u64 entry" where
  "sf256_to_i64_r_ex md x s m t = f256_to_i64_impl md x (ex_target m t s)"

definition sf256_to_i64_r :: "sf64_rounding_mode \<Rightarrow> sf256 \<Rightarrow> u64 entry" where
  "sf256_to_i64_r md x m t = f256_to_i64_impl md x (bag_target m t)"

definition sf256_to_i64 :: "sf256 \<Rightarrow> u64 entry" where
  "sf256_to_i64 x m t = f256_to_i64_impl SF64_RTZ x (bag_target m t)"

definition sf256_to_u32 :: "sf256 \<Rightarrow> u32 entry" where
  "sf256_to_u32 x m t w =
     (let (v, w) = sf256_to_u64 x m t w
      in if v > 0xFFFFFFFF then (0xFFFFFFFF, sf64_fe_raise m t SF64_FE_INVALID w)
         else (ucast v, w))"

definition sf256_to_i32 :: "sf256 \<Rightarrow> u32 entry" where
  "sf256_to_i32 x m t w =
     (let (v, w) = sf256_to_i64 x m t w
      in if sint v > 0x7FFFFFFF then (0x7FFFFFFF, sf64_fe_raise m t SF64_FE_INVALID w)
         else if sint v < - 0x80000000 then (0x80000000, sf64_fe_raise m t SF64_FE_INVALID w)
         else (ucast v, w))"

text \<open>The macro \<open>BIN\<close>: the three entries of a binary operation.\<close>

type_synonym f256_binary = "sf64_rounding_mode \<Rightarrow> sf256 \<Rightarrow> sf256 \<Rightarrow> flag_target \<Rightarrow> fenv_world \<Rightarrow> sf256 \<times> fenv_world"

definition BIN_r_ex :: "f256_binary \<Rightarrow> sf64_rounding_mode \<Rightarrow> sf256 \<Rightarrow> sf256 \<Rightarrow> state_ptr \<Rightarrow> sf256 entry" where
  "BIN_r_ex impl md a b s m t = impl md a b (ex_target m t s)"

definition BIN_r :: "f256_binary \<Rightarrow> sf64_rounding_mode \<Rightarrow> sf256 \<Rightarrow> sf256 \<Rightarrow> sf256 entry" where
  "BIN_r impl md a b m t = impl md a b (bag_target m t)"

definition BIN :: "f256_binary \<Rightarrow> sf256 \<Rightarrow> sf256 \<Rightarrow> sf256 entry" where
  "BIN impl a b m t = impl SF64_RNE a b (bag_target m t)"

definition flip_sign :: "sf256 \<Rightarrow> sf256" where
  "flip_sign b = b\<lparr>limb3 := limb3 b XOR push_bit 63 1\<rparr>"

definition sf256_sub_r_ex :: "sf64_rounding_mode \<Rightarrow> sf256 \<Rightarrow> sf256 \<Rightarrow> state_ptr \<Rightarrow> sf256 entry" where
  "sf256_sub_r_ex md a b s m t = f256_add_impl md a (flip_sign b) (ex_target m t s)"

definition sf256_sub_r :: "sf64_rounding_mode \<Rightarrow> sf256 \<Rightarrow> sf256 \<Rightarrow> sf256 entry" where
  "sf256_sub_r md a b m t = f256_add_impl md a (flip_sign b) (bag_target m t)"

definition sf256_sub :: "sf256 \<Rightarrow> sf256 \<Rightarrow> sf256 entry" where
  "sf256_sub a b m t = sf256_sub_r SF64_RNE a b m t"

definition sf256_sqrt_r_ex :: "sf64_rounding_mode \<Rightarrow> sf256 \<Rightarrow> state_ptr \<Rightarrow> sf256 entry" where
  "sf256_sqrt_r_ex md x s m t = f256_sqrt_impl md x (ex_target m t s)"

definition sf256_sqrt_r :: "sf64_rounding_mode \<Rightarrow> sf256 \<Rightarrow> sf256 entry" where
  "sf256_sqrt_r md x m t = f256_sqrt_impl md x (bag_target m t)"

definition sf256_sqrt :: "sf256 \<Rightarrow> sf256 entry" where
  "sf256_sqrt x m t = f256_sqrt_impl SF64_RNE x (bag_target m t)"

definition sf256_fma_r_ex :: "sf64_rounding_mode \<Rightarrow> sf256 \<Rightarrow> sf256 \<Rightarrow> sf256 \<Rightarrow> state_ptr \<Rightarrow> sf256 entry" where
  "sf256_fma_r_ex md a b c s m t = f256_fma_impl md a b c (ex_target m t s)"

definition sf256_fma_r :: "sf64_rounding_mode \<Rightarrow> sf256 \<Rightarrow> sf256 \<Rightarrow> sf256 \<Rightarrow> sf256 entry" where
  "sf256_fma_r md a b c m t = f256_fma_impl md a b c (bag_target m t)"

definition sf256_fma :: "sf256 \<Rightarrow> sf256 \<Rightarrow> sf256 \<Rightarrow> sf256 entry" where
  "sf256_fma a b c m t = f256_fma_impl SF64_RNE a b c (bag_target m t)"

definition sf256_remainder_ex :: "sf256 \<Rightarrow> sf256 \<Rightarrow> state_ptr \<Rightarrow> sf256 entry" where
  "sf256_remainder_ex a b s m t = f256_remainder_impl a b (ex_target m t s)"

definition sf256_remainder :: "sf256 \<Rightarrow> sf256 \<Rightarrow> sf256 entry" where
  "sf256_remainder a b m t = f256_remainder_impl a b (bag_target m t)"

definition sf256_rint_r_ex :: "sf64_rounding_mode \<Rightarrow> sf256 \<Rightarrow> state_ptr \<Rightarrow> sf256 entry" where
  "sf256_rint_r_ex md x s m t = f256_rint_impl md x (ex_target m t s)"

definition sf256_rint_r :: "sf64_rounding_mode \<Rightarrow> sf256 \<Rightarrow> sf256 entry" where
  "sf256_rint_r md x m t = f256_rint_impl md x (bag_target m t)"

definition sf256_rint :: "sf256 \<Rightarrow> sf256 entry" where
  "sf256_rint x m t = f256_rint_impl SF64_RNE x (bag_target m t)"

definition sf256_isnan :: "sf256 \<Rightarrow> bool" where "sf256_isnan x = d_nan (decode x)"

definition sf256_isinf :: "sf256 \<Rightarrow> bool" where "sf256_isinf x = d_inf (decode x)"

definition sf256_isfinite :: "sf256 \<Rightarrow> bool" where
  "sf256_isfinite x = (let d = decode x in \<not> d_inf d \<and> \<not> d_nan d)"

definition sf256_isnormal :: "sf256 \<Rightarrow> bool" where
  "sf256_isnormal x = (let e = d_field (decode x) in e \<noteq> 0 \<and> e \<noteq> f256_kExpMax)"

definition sf256_signbit :: "sf256 \<Rightarrow> bool" where "sf256_signbit x = (drop_bit 63 (limb3 x) \<noteq> 0)"

definition sf256_eq :: "sf256 \<Rightarrow> sf256 \<Rightarrow> bool" where
  "sf256_eq a b =
     (let da = decode a; db = decode b
      in if d_nan da \<or> d_nan db then False
         else if d_zero da \<and> d_zero db then True
         else limbs a = limbs b)"

definition sf256_lt :: "sf256 \<Rightarrow> sf256 \<Rightarrow> bool" where
  "sf256_lt a b =
     (let da = decode a; db = decode b
      in if d_nan da \<or> d_nan db then False
         else if d_zero da \<and> d_zero db then False
         else if d_sign da \<noteq> d_sign db then d_sign da
         else
           let drop_sign = (\<lambda>x. (limbs x) [3 := limb3 x AND NOT (push_bit 63 1)]);
               cmp = compare_from_top (rev (drop_sign a)) (rev (drop_sign b))
           in if d_sign da then cmp > 0 else cmp < 0)"

definition sf256_le :: "sf256 \<Rightarrow> sf256 \<Rightarrow> bool" where
  "sf256_le a b =
     (let da = decode a; db = decode b
      in (\<not> d_nan da \<and> \<not> d_nan db) \<and> (sf256_lt a b \<or> sf256_eq a b))"

end
