(* ===== verification/Sf_F256_Round.thy ===== *)
theory Sf_F256_Round
  imports Sf_F256 Sf_Round
begin

text \<open>
  What a binary256 datum means, that \<open>decode\<close> reads it and \<open>raw\<close> writes it, and that
  \<open>pack_extended\<close> and \<open>pack_scaled\<close> round a multiple-limb integer with its exponent to the format.
\<close>

lemma low_mod: "l < 2 ^ a \<Longrightarrow> (l + 2 ^ a * h) mod 2 ^ (a + b) = l + 2 ^ a * (h mod 2 ^ b)" for l h :: nat
  using limb_mod [of l "2 ^ a" h "2 ^ b"] by (simp add: power_add mult.commute add.commute)

lemma limb_eq_iff: "f < B \<Longrightarrow> e * B + f = E * B \<longleftrightarrow> e = E \<and> f = 0" for e f E B :: nat
proof -
  assume f: "f < B"
  show ?thesis
  proof
    assume h: "e * B + f = E * B"
    have "(e * B + f) div B = e" "(E * B) div B = E" using f by simp_all
    then show "e = E \<and> f = 0" using h by simp
  qed simp
qed

lemma take_bit_bit: "i < n \<Longrightarrow> bit (m mod 2 ^ n) i \<longleftrightarrow> bit m i" for m :: nat
  by (simp add: bit_take_bit_iff flip: take_bit_eq_mod)

section \<open>The format\<close>

definition qmin256 :: int where "qmin256 = - 262378"
definition einf256 :: nat where "einf256 = 524287"

definition bits256 :: "sf256 \<Rightarrow> nat" where "bits256 x = bval (limbs x)"

definition sgn256 :: "sf256 \<Rightarrow> bool" where "sgn256 x \<longleftrightarrow> 2 ^ 255 \<le> bits256 x"
definition mag256 :: "sf256 \<Rightarrow> nat" where "mag256 x = bits256 x mod 2 ^ 255"

definition enc256 :: "bool \<Rightarrow> nat \<Rightarrow> sf256" where
  "enc256 s n = of_limbs (map (\<lambda>i. word_of_nat ((n + of_bool s * 2 ^ 255) div 2 ^ (64 * i))) [0..<4])"

definition fval256 :: "nat \<Rightarrow> real" where "fval256 n = mag_val 236 qmin256 n"

definition val256 :: "sf256 \<Rightarrow> real" where
  "val256 x = (if sgn256 x then - 1 else 1) * fval256 (mag256 x)"

lemma bits256_top: "bits256 x = bval [limb0 x, limb1 x, limb2 x] + 2 ^ 192 * unat (limb3 x)"
  by (simp add: bits256_def limbs_def)

lemma low_limbs_less: "bval [a, b, c :: u64] < 2 ^ 192"
  using bval_less [of "[a, b, c]"] by simp

lemma bits256_less: "bits256 x < 2 ^ 256"
  using bval_less [of "limbs x"] by (simp add: bits256_def limbs_def)

lemma sf256_eqI: "bits256 x = bits256 y \<Longrightarrow> x = y"
  using bval_inj [of "limbs x" "limbs y"] by (simp add: bits256_def limbs_def)

lemma bits256_split: "bits256 x = mag256 x + of_bool (sgn256 x) * 2 ^ 255"
  using bits256_less [of x] by (auto simp: mag256_def sgn256_def mod_if le_mod_geq)

lemma mag256_less: "mag256 x < 2 ^ 255"
  by (simp add: mag256_def)

lemma bits256_of_limbs: "length a = 4 \<Longrightarrow> bits256 (of_limbs a) = bval a"
proof -
  assume "length a = 4"
  then obtain b c d e where "a = [b, c, d, e]" by (auto simp: length_Suc_conv eval_nat_numeral)
  then show ?thesis by (simp add: bits256_def limbs_def of_limbs_def)
qed

lemma bval_digits_of: "bval (map (\<lambda>i. word_of_nat (n div 2 ^ (64 * i)) :: u64) [0..<k]) = n mod 2 ^ (64 * k)"
proof (induction k)
  case (Suc k)
  have s: "64 * Suc k = 64 * k + 64" by simp
  have "unat (word_of_nat (n div 2 ^ (64 * k)) :: u64) = n div 2 ^ (64 * k) mod 2 ^ 64" by (simp add: unat_of_nat)
  then show ?case using Suc unfolding s mod_split [of n "64 * k" 64] by (simp add: bval64_snoc mult.commute)
qed simp

lemma bits256_enc: "n < 2 ^ 255 \<Longrightarrow> bits256 (enc256 s n) = n + of_bool s * 2 ^ 255"
  unfolding enc256_def by (subst bits256_of_limbs) (simp_all add: bval_digits_of)

lemma enc256_fields [simp]: "n < 2 ^ 255 \<Longrightarrow> sgn256 (enc256 s n) = s" "n < 2 ^ 255 \<Longrightarrow> mag256 (enc256 s n) = n"
  using bits256_enc [of n s] by (auto simp: sgn256_def mag256_def)

lemma enc256_self: "enc256 (sgn256 x) (mag256 x) = x"
  by (rule sf256_eqI) (simp only: bits256_enc [OF mag256_less] bits256_split [of x])

lemma sf256_fields_eqI: "sgn256 x = sgn256 y \<Longrightarrow> mag256 x = mag256 y \<Longrightarrow> x = y"
  by (rule sf256_eqI) (simp only: bits256_split)

lemma sgn256_top: "sgn256 x \<longleftrightarrow> drop_bit 63 (limb3 x) \<noteq> 0"
proof -
  have "drop_bit 63 (limb3 x) \<noteq> 0 \<longleftrightarrow> 2 ^ 63 \<le> unat (limb3 x)"
    unfolding word_neq_0_unat unat_drop_bit by (simp add: div_eq_0_iff not_less)
  moreover have "2 ^ 255 \<le> bits256 x \<longleftrightarrow> 2 ^ 63 \<le> unat (limb3 x)"
    using low_limbs_less [of "limb0 x" "limb1 x" "limb2 x"] unfolding bits256_top by auto
  ultimately show ?thesis by (simp add: sgn256_def)
qed

section \<open>Writing a datum\<close>

lemma kTopFracMask_mask: "kTopFracMask = mask 44"
  by (simp add: kTopFracMask_def mask_eq_exp_minus_1)

lemma unat_kExpMax [simp]: "unat f256_kExpMax = 524287"
  by (simp add: f256_kExpMax_def)

lemma raw_bits:
  assumes e: "unat e < 2 ^ 19" and f: "4 \<le> length f"
  shows "bits256 (raw s e f) = bval f mod 2 ^ 236 + unat e * 2 ^ 236 + of_bool s * 2 ^ 255"
proof -
  define l where "l = unat (f ! 3)"
  have u1: "unat (f ! 3 AND kTopFracMask) = l mod 2 ^ 44" by (simp add: kTopFracMask_mask unat_and_mask l_def)
  have u2: "unat (push_bit 44 (ucast e :: u64)) = unat e * 2 ^ 44"
    using e unat_lt32 [of e] by (subst unat_push_bit_lt) (simp_all add: unat_ucast)
  have u3: "unat (push_bit 63 (if s then 1 else 0 :: u64)) = of_bool s * 2 ^ 63" by simp
  have v1: "unat (f ! 3 AND kTopFracMask OR push_bit 44 (ucast e)) = l mod 2 ^ 44 + unat e * 2 ^ 44"
    using unat_or_disjoint [of "push_bit 44 (ucast e :: u64)" 44 "f ! 3 AND kTopFracMask"] u1 u2
    by (simp add: or.commute)
  have "l mod 2 ^ 44 + unat e * 2 ^ 44 < 2 ^ 63" using e mod_less_divisor [of "2 ^ 44" l] by simp
  moreover define P :: u64 where "P = push_bit 63 (if s then 1 else 0)"
  moreover define Q where "Q = (f ! 3 AND kTopFracMask OR push_bit 44 (ucast e))"
  ultimately have "unat (P OR Q) = of_bool s * 2 ^ 63 + (l mod 2 ^ 44 + unat e * 2 ^ 44)"
    using unat_or_disjoint [of P 63 Q] u3 v1 by (simp only: P_def Q_def) simp
  then have v2: "unat ((f ! 3 AND kTopFracMask OR push_bit 44 (ucast e)) OR push_bit 63 (if s then 1 else 0)) =
      l mod 2 ^ 44 + unat e * 2 ^ 44 + of_bool s * 2 ^ 63"
    unfolding Q_def [symmetric] P_def [symmetric] by (simp only: or.commute [of Q P] add.commute [of "of_bool s * 2 ^ 63"])
  obtain a b c d r where fl: "f = a # b # c # d # r"
    using f by (auto simp: Suc_le_length_iff eval_nat_numeral)
  have low: "bval [a, b, c] < 2 ^ 192" by (rule low_limbs_less)
  have "bval f = bval [a, b, c] + 2 ^ 192 * (l + 2 ^ 64 * bval r)"
    unfolding l_def by (simp add: fl)
  then have "bval f mod 2 ^ (192 + 44) = bval [a, b, c] + 2 ^ 192 * ((l + 2 ^ 64 * bval r) mod 2 ^ 44)"
    by (simp only: low_mod [OF low])
  also have "(l + 2 ^ 64 * bval r) mod 2 ^ 44 = l mod 2 ^ 44"
    using mod_mult_self2 [of l "2 ^ 44" "2 ^ 20 * bval r"] by (simp add: mult.assoc)
  finally have m: "bval f mod 2 ^ 236 = bval [a, b, c] + 2 ^ 192 * (l mod 2 ^ 44)" by simp
  have "bits256 (raw s e f) = bval [a, b, c] + 2 ^ 192 * (l mod 2 ^ 44 + unat e * 2 ^ 44 + of_bool s * 2 ^ 63)"
    unfolding bits256_top v2 [symmetric] by (simp add: raw_def Let_def of_limbs_def fl)
  then show ?thesis unfolding m by (simp add: distrib_left)
qed

lemma raw_enc:
  assumes e: "unat e < 2 ^ 19" and f: "4 \<le> length f"
  shows "raw s e f = enc256 s (unat e * 2 ^ 236 + bval f mod 2 ^ 236)"
proof -
  have "bval f mod 2 ^ 236 < 2 ^ 236" by simp
  then have "unat e * 2 ^ 236 + bval f mod 2 ^ 236 < 2 ^ 255" using e by simp
  then show ?thesis by (intro sf256_eqI) (simp only: raw_bits [OF e f] bits256_enc add.commute)
qed

lemma zero_value_enc: "zero_value s = enc256 s 0"
  unfolding zero_value_def by (subst raw_enc) simp_all

lemma inf_value_enc: "inf_value s = enc256 s (einf256 * 2 ^ 236)"
  unfolding inf_value_def by (subst raw_enc) (simp_all add: einf256_def)

lemma default_nan_enc: "default_nan = enc256 False (einf256 * 2 ^ 236 + 2 ^ 235)"
  unfolding default_nan_def
  by (subst raw_enc) (simp_all add: einf256_def big_set_bit_sound kFrac_def)

lemma quiet_nan_bits: "bits256 (quiet_nan x) = bits256 x OR 2 ^ 235"
proof -
  have l: "limbs (quiet_nan x) = big_set_bit (limbs x) 235"
    by (simp add: quiet_nan_def limbs_def big_set_bit_def numeral_3_eq_3)
  show ?thesis unfolding bits256_def l by (subst big_set_bit_sound) (simp_all add: limbs_def)
qed

section \<open>Reading a datum\<close>

definition frac_limbs :: "sf256 \<Rightarrow> big" where
  "frac_limbs x = (limbs x @ big_none 4) [3 := (limbs x @ big_none 4) ! 3 AND kTopFracMask]"

lemma frac_limbs_sound: "bval (frac_limbs x) = mag256 x mod 2 ^ 236" "length (frac_limbs x) = 8"
proof -
  have u: "unat (limb3 x AND kTopFracMask) = unat (limb3 x) mod 2 ^ 44" by (simp add: kTopFracMask_mask unat_and_mask)
  have l: "bval [limb0 x, limb1 x, limb2 x] < 2 ^ 192" by (rule low_limbs_less)
  have "frac_limbs x = [limb0 x, limb1 x, limb2 x] @ (limb3 x AND kTopFracMask) # big_none 4"
    by (simp add: frac_limbs_def limbs_def numeral_3_eq_3)
  then have "bval (frac_limbs x) = bval [limb0 x, limb1 x, limb2 x] + 2 ^ 192 * (unat (limb3 x) mod 2 ^ 44)"
    by (simp only: bval_append) (simp add: u)
  also have "\<dots> = bits256 x mod 2 ^ (192 + 44)"
    by (simp only: bits256_top low_mod [OF l])
  also have "\<dots> = mag256 x mod 2 ^ 236" by (simp add: mag256_def mod_mod_cancel)
  finally show "bval (frac_limbs x) = mag256 x mod 2 ^ 236" .
  show "length (frac_limbs x) = 8" by (simp add: frac_limbs_def limbs_def)
qed

lemma field_sound: "unat (ucast (drop_bit 44 (limb3 x) AND ucast f256_kExpMax) :: u32) = mag256 x div 2 ^ 236"
proof -
  have m: "(ucast f256_kExpMax :: u64) = mask 19" by (simp add: f256_kExpMax_def mask_eq_exp_minus_1)
  have "unat (drop_bit 44 (limb3 x) AND mask 19) = unat (limb3 x) div 2 ^ 44 mod 2 ^ 19"
    by (simp add: unat_and_mask unat_drop_bit)
  moreover have "(n::nat) mod 2 ^ 19 < 2 ^ 32" for n using mod_less_divisor [of "2 ^ 19" n] by simp
  ultimately have u: "unat (ucast (drop_bit 44 (limb3 x) AND ucast f256_kExpMax) :: u32) = unat (limb3 x) div 2 ^ 44 mod 2 ^ 19"
    unfolding m unat_ucast by simp
  have l: "bval [limb0 x, limb1 x, limb2 x] < 2 ^ 192" by (rule low_limbs_less)
  have "mag256 x div 2 ^ 236 = bits256 x div 2 ^ 236 mod 2 ^ 19"
  proof -
    have "bits256 x = 2 ^ 236 * (bits256 x div 2 ^ 236) + bits256 x mod 2 ^ 236" by simp
    then have "bits256 x mod 2 ^ (236 + 19) = bits256 x mod 2 ^ 236 + 2 ^ 236 * (bits256 x div 2 ^ 236 mod 2 ^ 19)"
      by (simp only: mod_split)
    then show ?thesis unfolding mag256_def by simp
  qed
  also have "bits256 x div 2 ^ 236 = bits256 x div 2 ^ 192 div 2 ^ 44" by (simp add: div_mult2_eq [symmetric])
  also have "bits256 x div 2 ^ 192 = unat (limb3 x)" unfolding bits256_top using l by simp
  finally show ?thesis using u by simp
qed

definition normalised :: "big \<Rightarrow> bool" where
  "normalised a \<longleftrightarrow> length a = 8 \<and> 2 ^ 236 \<le> bval a \<and> bval a < 2 ^ 237"

lemma decode_class:
  "d_sign (decode x) = sgn256 x"
  "d_zero (decode x) \<longleftrightarrow> mag256 x = 0"
  "d_inf (decode x) \<longleftrightarrow> mag256 x = einf256 * 2 ^ 236"
  "d_nan (decode x) \<longleftrightarrow> einf256 * 2 ^ 236 < mag256 x"
  "d_snan (decode x) \<longleftrightarrow> einf256 * 2 ^ 236 < mag256 x \<and> \<not> bit (mag256 x) 235"
  "unat (d_field (decode x)) = mag256 x div 2 ^ 236"
proof -
  define f where "f = mag256 x mod 2 ^ 236"
  define e where "e = mag256 x div 2 ^ 236"
  have m: "mag256 x = e * 2 ^ 236 + f" unfolding e_def f_def by simp
  have f: "f < 2 ^ 236" unfolding f_def by simp
  have e: "e < 2 ^ 19" using mag256_less [of x] unfolding e_def by (simp add: less_mult_imp_div_less)
  have s: "bval (frac_limbs x) = f" by (simp add: frac_limbs_sound f_def)
  have fe: "unat (ucast (drop_bit 44 (limb3 x) AND ucast f256_kExpMax) :: u32) = e" by (simp add: field_sound e_def)
  have f0: "(ucast (drop_bit 44 (limb3 x) AND ucast f256_kExpMax) :: u32) = 0 \<longleftrightarrow> e = 0"
    unfolding fe [symmetric] by (simp only: unat_eq_zero)
  have fm: "(ucast (drop_bit 44 (limb3 x) AND ucast f256_kExpMax) :: u32) = f256_kExpMax \<longleftrightarrow> e = 524287"
    unfolding word_unat_eq_iff fe unat_kExpMax ..
  have b: "big_bit (frac_limbs x) 235 \<longleftrightarrow> bit (mag256 x) 235"
    unfolding big_bit_sound s f_def by (rule take_bit_bit) simp
  show "d_sign (decode x) = sgn256 x" by (simp add: decode_def Let_def split_beta sgn256_top)
  show "d_zero (decode x) \<longleftrightarrow> mag256 x = 0"
    by (simp add: decode_def Let_def split_beta f0 big_zero_sound s m flip: frac_limbs_def)
  show "d_inf (decode x) \<longleftrightarrow> mag256 x = einf256 * 2 ^ 236"
    unfolding m limb_eq_iff [OF f] by (simp add: decode_def Let_def split_beta fm big_zero_sound s einf256_def flip: frac_limbs_def)
  show n: "d_nan (decode x) \<longleftrightarrow> einf256 * 2 ^ 236 < mag256 x"
    using f e by (simp add: decode_def Let_def split_beta fm big_zero_sound s m einf256_def flip: frac_limbs_def) auto
  have "d_snan (decode x) \<longleftrightarrow> d_nan (decode x) \<and> \<not> big_bit (frac_limbs x) 235"
    by (simp add: decode_def Let_def split_beta kFrac_def flip: frac_limbs_def)
  then show "d_snan (decode x) \<longleftrightarrow> einf256 * 2 ^ 236 < mag256 x \<and> \<not> bit (mag256 x) 235" unfolding n b .
  show "unat (d_field (decode x)) = mag256 x div 2 ^ 236"
    by (simp add: decode_def Let_def split_beta fe e_def)
qed

lemma decode_normal:
  assumes "2 ^ 236 \<le> mag256 x" "mag256 x < einf256 * 2 ^ 236"
  shows "d_sig (decode x) = big_set_bit (frac_limbs x) 236"
    "d_exponent (decode x) = int (mag256 x div 2 ^ 236) - 262143"
proof -
  have "mag256 x div 2 ^ 236 \<noteq> 0" "mag256 x div 2 ^ 236 < 524287"
    using assms by (simp_all add: div_eq_0_iff less_mult_imp_div_less einf256_def)
  then have fl: "unat (d_field (decode x)) \<noteq> 0" and n: "\<not> d_zero (decode x)" "\<not> d_inf (decode x)" "\<not> d_nan (decode x)"
    using assms by (simp_all add: decode_class)
  then show "d_sig (decode x) = big_set_bit (frac_limbs x) 236"
    by (simp add: decode_def Let_def split_beta kFrac_def unsigned_eq_0_iff split: if_splits flip: frac_limbs_def)
  have "d_exponent (decode x) = uint (d_field (decode x)) - 262143" using fl n
    by (simp add: decode_def Let_def split_beta kBias_def unsigned_eq_0_iff split: if_splits flip: frac_limbs_def)
  then show "d_exponent (decode x) = int (mag256 x div 2 ^ 236) - 262143"
    by (simp only: uint_nat decode_class(6))
qed

lemma decode_subnormal:
  assumes "0 < mag256 x" "mag256 x < 2 ^ 236"
  defines "shift \<equiv> 236 - big_highest (frac_limbs x)"
  shows "d_sig (decode x) = big_shl (frac_limbs x) (nat shift)" "d_exponent (decode x) = - 262142 - shift"
proof -
  have "unat (d_field (decode x)) = 0" and n: "\<not> d_zero (decode x)" "\<not> d_inf (decode x)" "\<not> d_nan (decode x)"
    using assms by (simp_all add: decode_class einf256_def)
  then have fl: "d_field (decode x) = 0" by (simp add: unsigned_eq_0_iff)
  show "d_sig (decode x) = big_shl (frac_limbs x) (nat shift)" "d_exponent (decode x) = - 262142 - shift" using fl n
    by (simp_all add: decode_def Let_def split_beta kFrac_def kEmin_def kBias_def shift_def split: if_splits flip: frac_limbs_def)
qed

lemma decode_finite:
  assumes "0 < mag256 x" "mag256 x < einf256 * 2 ^ 236"
  defines "d \<equiv> decode x"
  shows "normalised (d_sig d)"
    "fval256 (mag256 x) = real (bval (d_sig d)) * 2 powi (d_exponent d - 236)"
    "- 262378 \<le> d_exponent d" "d_exponent d \<le> 262143"
    "- 262142 \<le> d_exponent d \<Longrightarrow> mag256 x = nat (d_exponent d + 262142) * 2 ^ 236 + bval (d_sig d)"
    "d_exponent d < - 262142 \<Longrightarrow> bval (d_sig d) = mag256 x * 2 ^ nat (- 262142 - d_exponent d)"
proof -
  have "normalised (d_sig d) \<and>
    fval256 (mag256 x) = real (bval (d_sig d)) * 2 powi (d_exponent d - 236) \<and>
    - 262378 \<le> d_exponent d \<and> d_exponent d \<le> 262143 \<and>
    (- 262142 \<le> d_exponent d \<longrightarrow> mag256 x = nat (d_exponent d + 262142) * 2 ^ 236 + bval (d_sig d)) \<and>
    (d_exponent d < - 262142 \<longrightarrow> bval (d_sig d) = mag256 x * 2 ^ nat (- 262142 - d_exponent d))"
  proof (cases "2 ^ 236 \<le> mag256 x")
    case True
    define f where "f = mag256 x mod 2 ^ 236"
    define e where "e = mag256 x div 2 ^ 236"
    have m: "mag256 x = e * 2 ^ 236 + f" unfolding e_def f_def by simp
    have f: "f < 2 ^ 236" unfolding f_def by simp
    have "0 < e" "e < 524287" using True assms(2) unfolding e_def
      by (simp_all add: div_greater_zero_iff less_mult_imp_div_less einf256_def)
    then obtain j where j: "e = Suc j" "j < 524286" by (cases e) auto
    note s = decode_normal [OF True assms(2), folded d_def e_def]
    have "2 ^ 236 OR f = 2 ^ 236 + f" using f by (intro nat_or_disjoint [of _ 236]) simp_all
    then have "f OR 2 ^ 236 = f + 2 ^ 236" by (simp add: or.commute)
    then have v: "bval (d_sig d) = f + 2 ^ 236" "length (d_sig d) = 8"
      unfolding s(1) using big_set_bit_sound [of 236 "frac_limbs x"] by (simp_all add: frac_limbs_sound f_def)
    have mk: "mag256 x = j * 2 ^ 236 + bval (d_sig d)" unfolding v m j by simp
    have q: "qmin256 + int j = d_exponent d - 236" unfolding s(2) j by (simp add: qmin256_def)
    have "fval256 (mag256 x) = real (bval (d_sig d)) * 2 powi (d_exponent d - 236)"
      unfolding mk fval256_def q [symmetric] using v f by (intro mag_val_encode) simp_all
    moreover have "nat (d_exponent d + 262142) = j" unfolding s(2) j by simp
    moreover have "normalised (d_sig d)" unfolding normalised_def v using f by simp
    ultimately show ?thesis using mk s(2) j by simp
  next
    case False
    then have lt: "mag256 x < 2 ^ 236" by simp
    note s = decode_subnormal [OF assms(1) lt, folded d_def]
    have fv: "bval (frac_limbs x) = mag256 x" using lt by (simp add: frac_limbs_sound)
    obtain h where h: "big_highest (frac_limbs x) = int h" "2 ^ h \<le> mag256 x" "mag256 x < 2 ^ Suc h"
      using big_highest_sound(2) [of "frac_limbs x"] assms(1) unfolding fv by auto
    have "(2::nat) ^ h < 2 ^ 236" using h(2) lt by simp
    then have h236: "h < 236" by (rule power_less_imp_less_exp [rotated]) simp
    define c where "c = 236 - h"
    have c: "0 < c" "c \<le> 236" "h + c = 236" using h236 by (auto simp: c_def)
    have sh: "236 - big_highest (frac_limbs x) = int c" using h(1) c by simp
    have "2 ^ h * 2 ^ c \<le> mag256 x * 2 ^ c" "mag256 x * 2 ^ c < 2 ^ Suc h * 2 ^ c"
      using h(2,3) by (intro mult_right_mono mult_strict_right_mono; simp)+
    then have b: "2 ^ 236 \<le> mag256 x * 2 ^ c" "mag256 x * 2 ^ c < 2 ^ 237" 
      unfolding power_add [symmetric] using c(3) by simp_all
    have v: "bval (d_sig d) = mag256 x * 2 ^ c" "length (d_sig d) = 8"
      unfolding s(1) sh using b by (simp_all add: big_shl_sound frac_limbs_sound(2) fv)
    have ex: "d_exponent d = - 262142 - int c" unfolding s(2) sh by simp
    have "fval256 (mag256 x) = real (mag256 x) * 2 powi qmin256"
      using mag_val_encode [of "mag256 x" 236 0 qmin256] lt by (simp add: fval256_def)
    also have "\<dots> = real (mag256 x * 2 ^ c) * 2 powi (qmin256 - int c)" by (simp add: powi2_diff powi2_nat)
    also have "qmin256 - int c = d_exponent d - 236" unfolding ex by (simp add: qmin256_def)
    finally show ?thesis using v b ex c by (simp add: normalised_def)
  qed
  then show "normalised (d_sig d)"
    "fval256 (mag256 x) = real (bval (d_sig d)) * 2 powi (d_exponent d - 236)"
    "- 262378 \<le> d_exponent d" "d_exponent d \<le> 262143"
    "- 262142 \<le> d_exponent d \<Longrightarrow> mag256 x = nat (d_exponent d + 262142) * 2 ^ 236 + bval (d_sig d)"
    "d_exponent d < - 262142 \<Longrightarrow> bval (d_sig d) = mag256 x * 2 ^ nat (- 262142 - d_exponent d)"
    by blast+
qed

section \<open>Rounding\<close>

text \<open>
  The format rounding with the underflow test of this file: the flag is raised when the delivered
  result is subnormal and inexact (\<open>ieee_round\<close> tests the exact value instead).
\<close>

definition ieee_round_late :: "nat \<Rightarrow> int \<Rightarrow> nat \<Rightarrow> sf64_rounding_mode \<Rightarrow> bool \<Rightarrow> real \<Rightarrow> nat \<times> u32" where
  "ieee_round_late p qmin einf m s x =
     (let n = round_mag p qmin m s x
      in if einf * 2 ^ p \<le> n then (overflow_mag p einf m s, SF64_FE_OVERFLOW OR SF64_FE_INEXACT)
         else (n, if mag_val p qmin n = x then 0
                  else if n < 2 ^ p then SF64_FE_INEXACT OR SF64_FE_UNDERFLOW
                  else SF64_FE_INEXACT))"

lemma ieee_round_late_cell:
  assumes x: "0 < x" and q: "quantum p qmin x = qmin + int d"
    and c: "same_cell k (real S) (x / 2 powi (qmin + int d) * 2 ^ Suc k)"
  shows "ieee_round_late p qmin einf m s x =
    (let n = d * 2 ^ p + round_bits m s k S
     in if einf * 2 ^ p \<le> n then (overflow_mag p einf m s, SF64_FE_OVERFLOW OR SF64_FE_INEXACT)
        else (n, if S mod 2 ^ Suc k = 0 then 0
                 else if n < 2 ^ p then SF64_FE_INEXACT OR SF64_FE_UNDERFLOW
                 else SF64_FE_INEXACT))"
proof -
  let ?y = "x / 2 powi (qmin + int d)"
  have y: "?y * 2 ^ Suc k / 2 ^ Suc k = ?y" by simp
  have r: "rnd_int m s ?y = int (round_bits m s k S)"
    using rnd_int_same_cell(1) [OF c, of m s] unfolding y rnd_int_round_bits by simp
  have n: "round_mag p qmin m s x = d * 2 ^ p + round_bits m s k S"
    by (simp add: round_mag_def q r)
  have "\<lceil>?y\<rceil> = \<lfloor>?y\<rfloor> \<longleftrightarrow> S mod 2 ^ Suc k = 0"
    using rnd_int_same_cell(2) [OF c] unfolding y ceiling_nat_div floor_nat_div by auto
  then have e: "mag_val p qmin (d * 2 ^ p + round_bits m s k S) = x \<longleftrightarrow> S mod 2 ^ Suc k = 0"
    using round_mag_exact_iff [OF x, of p qmin m s] by (simp add: n q)
  show ?thesis unfolding ieee_round_late_def n Let_def e ..
qed

definition deliver256 :: "flag_target \<Rightarrow> bool \<Rightarrow> nat \<times> u32 \<Rightarrow> fenv_world \<Rightarrow> sf256 \<times> fenv_world" where
  "deliver256 tg s r w = (enc256 s (fst r), raise_flags tg (snd r) w)"

definition round256 :: "sf64_rounding_mode \<Rightarrow> bool \<Rightarrow> real \<Rightarrow> nat \<times> u32" where
  "round256 m s x = ieee_round_late 236 qmin256 einf256 m s x"

lemma raise_flags_0 [simp]: "raise_flags tg 0 w = w"
  by (simp add: raise_flags_def)

lemma round_up_eq: "round_up s g st lsb m = round_up_dec s g st lsb m"
  by (cases m) (auto simp: round_up_def round_up_dec_def)

lemma increment_limbs_sound:
  "bval (fst (increment_limbs a)) = (bval a + 1) mod 2 ^ (64 * length a) \<and> length (fst (increment_limbs a)) = length a"
proof (induction a)
  case (Cons x xs)
  show ?case
  proof (cases "x + 1 = 0")
    case True
    then have "unat x + 1 = 2 ^ 64"
      using add_carry [of x 1] by (cases "unat x = 0") (simp_all add: word_less_nat_alt)
    then have "bval (x # xs) + 1 = (bval xs + 1) * 2 ^ 64 + 0" by simp
    then have "(bval (x # xs) + 1) mod (2 ^ 64 * 2 ^ (64 * length xs)) = ((bval xs + 1) mod 2 ^ (64 * length xs)) * 2 ^ 64 + 0"
      by (simp only:) (rule limb_mod, simp)
    then show ?thesis using Cons True by (simp add: Let_def split_beta power_add)
  next
    case False
    then have "unat (x + 1) = unat x + 1"
      by (metis Suc_eq_plus1 unatSuc word_neq_0_unat add.commute unsigned_0)
    then have u: "bval (x # xs) + 1 = bval ((x + 1) # xs)" by simp
    have "bval ((x + 1) # xs) < 2 ^ (64 * length (x # xs))" using bval_less [of "(x + 1) # xs"] by simp
    then show ?thesis using False u by (simp add: Let_def)
  qed
qed simp

lemma increment_sound: "length a = 8 \<Longrightarrow> bval (fst (increment a)) = (bval a + 1) mod 2 ^ 512"
  "length (fst (increment a)) = length a"
  using increment_limbs_sound [of a] by (simp_all add: increment_def)

lemma raw_clear_implicit: "4 \<le> length sig \<Longrightarrow> raw s e (sig [3 := sig ! 3 AND NOT (push_bit 44 1)]) = raw s e sig"
proof -
  assume l: "4 \<le> length sig"
  obtain P :: u64 where P: "P = push_bit 44 1" by blast
  have np: "n < 44 \<Longrightarrow> \<not> bit P n" for n unfolding P bit_push_bit_iff by simp
  have "(sig ! 3 AND NOT P) AND kTopFracMask = sig ! 3 AND kTopFracMask"
    unfolding kTopFracMask_mask
    by (rule bit_word_eqI) (auto simp: bit_and_iff bit_not_iff bit_mask_iff np)
  then show ?thesis using l unfolding P [symmetric] by (simp add: raw_def Let_def of_limbs_def)
qed

lemma low_bits_sticky: "bit n 1 \<or> bit n 0 \<longleftrightarrow> n mod 2 ^ 2 \<noteq> 0" for n :: nat
proof -
  have "n mod 4 = n mod 2 + 2 * (n div 2 mod 2)" using mod_split [of n 1 1] by simp
  then show ?thesis by (auto simp: bit_iff_odd odd_iff_mod_2_eq_one)
qed

lemma bit_top: "n < 2 ^ Suc k \<Longrightarrow> bit n k \<longleftrightarrow> 2 ^ k \<le> n" for n :: nat
  unfolding bit_iff_odd by (rule top_bit_iff)

lemma max_finite_enc: "raw s (f256_kExpMax - 1) ((big_none 8) [0 := NOT 0, 1 := NOT 0, 2 := NOT 0, 3 := kTopFracMask])
    = enc256 s (einf256 * 2 ^ 236 - 1)"
proof -
  define M where "M = (big_none 8) [0 := NOT 0, 1 := NOT 0, 2 := NOT 0, 3 := kTopFracMask]"
  have M: "M = [NOT 0, NOT 0, NOT 0, kTopFracMask] @ big_none 4"
    by (simp add: M_def big_none_def eval_nat_numeral)
  have n: "unat (- 1 :: u64) = 18446744073709551615" by (simp add: unsigned_minus_1_eq_mask mask_eq_exp_minus_1)
  have k: "unat kTopFracMask = 17592186044415" by (simp add: kTopFracMask_def)
  have v: "bval M = 2 ^ 236 - 1" unfolding M bval_append by (simp add: n k)
  have e: "unat (f256_kExpMax - 1) = 524286" by (simp add: f256_kExpMax_def)
  have l: "length M = 8" by (simp add: M_def)
  show ?thesis unfolding M_def [symmetric] by (subst raw_enc) (simp_all add: e v l einf256_def)
qed

text \<open>
  \<open>S\<close> carries three extra bits below a 237-bit significand whose leading bit has weight
  \<open>2 powi exponent\<close>, and stands for the exact positive \<open>x\<close>.
\<close>

definition stands_for :: "nat \<Rightarrow> int \<Rightarrow> real \<Rightarrow> bool" where
  "stands_for S exponent x \<longleftrightarrow>
     2 ^ 239 \<le> S \<and> S < 2 ^ 240 \<and> same_cell 2 (real S) (x / 2 powi (exponent - 239))"

lemma stands_for_bounds:
  assumes "stands_for S e x"
  shows "0 < x" "2 powi e \<le> x" "x < 2 powi (e + 1)" "\<lfloor>log 2 x\<rfloor> = e"
proof -
  let ?y = "x / 2 powi (e - 239)"
  have c: "same_cell 2 (real S) ?y" and S: "2 ^ 239 \<le> S" "S < 2 ^ 240" using assms by (simp_all add: stands_for_def)
  have p: "real_of_int (2 ^ 237) * 2 ^ 2 = real (2 ^ 239)" "real_of_int (2 ^ 238) * 2 ^ 2 = real (2 ^ 240)" by simp_all
  have "real (2 ^ 239) \<le> ?y"
    using same_cell_le_iff [OF c, of "2 ^ 237"] S(1) unfolding p of_nat_le_iff by (rule iffD1)
  moreover have "?y < real (2 ^ 240)"
    using same_cell_less_iff [OF c, of "2 ^ 238"] S(2) unfolding p of_nat_less_iff by (rule iffD1)
  ultimately have b: "2 ^ 239 * 2 powi (e - 239) \<le> x" "x < 2 ^ 240 * 2 powi (e - 239)"
    by (simp_all only: pos_le_divide_eq [OF powi2_pos] pos_divide_less_eq [OF powi2_pos] of_nat_power of_nat_numeral)
  have "2 ^ 239 * 2 powi (e - 239) = (2::real) powi e" "2 ^ 240 * 2 powi (e - 239) = (2::real) powi (e + 1)"
    using powi2_add [of 239 "e - 239"] powi2_add [of 240 "e - 239"]
    by (simp_all add: powi2_nat add.commute [of 1])
  then show le: "2 powi e \<le> x" and lt: "x < 2 powi (e + 1)" using b by simp_all
  show "0 < x" using le powi2_pos [of e] by linarith
  show "\<lfloor>log 2 x\<rfloor> = e" using le lt by (rule floor_log2_eqI)
qed

lemma if_split_pair:
  "(if O' then (if M then (A, V) else (B, V)) else (if E then (C, Z) else (D, Z)))
   = (if O' then (if M then A else B, V) else (if E then C else D, Z))"
  by simp

lemma pack_extended_sound:
  assumes ext: "length ext = 8" and S: "stands_for (bval ext) exponent x"
  shows "pack_extended s ext exponent mode tg w = deliver256 tg s (round256 mode s x) w"
proof -
  define e where "e = max exponent kEmin"
  define d where "d = nat (e - kEmin)"
  define c where "c = nat (kEmin - exponent)"
  define ext' where "ext' = (if exponent < kEmin then big_shr_jam ext c else ext)"
  define S' where "S' = jam (bval ext) c"
  define R where "R = round_bits mode s 2 S'"
  define n where "n = d * 2 ^ 236 + R"
  note b = stands_for_bounds [OF S]
  have Sb: "2 ^ 239 \<le> bval ext" "bval ext < 2 ^ 240" and cell: "same_cell 2 (real (bval ext)) (x / 2 powi (exponent - 239))"
    using S by (simp_all add: stands_for_def)
  have ne: "ext \<noteq> []" using ext by auto
  have ext'v: "bval ext' = S'" "length ext' = 8"
    using ext big_shr_jam_sound [OF ne, of c] by (auto simp: ext'_def S'_def c_def)
  have ed: "e = kEmin + int d" by (simp add: e_def d_def)
  have qd: "qmin256 + int d = e - 236" unfolding ed by (simp add: qmin256_def kEmin_def kBias_def)
  have q: "quantum 236 qmin256 x = qmin256 + int d"
    unfolding quantum_def b(4) qd e_def by (simp add: qmin256_def kEmin_def kBias_def)
  have ce: "exponent - 239 + int c = e - 239" by (simp add: c_def e_def)
  have "x / 2 powi (exponent - 239) / 2 ^ c = x / (2 powi (exponent - 239) * 2 powi int c)"
    by (simp add: powi2_nat)
  also have "\<dots> = x / 2 powi (e - 239)" unfolding powi2_add [symmetric] ce ..
  also have "\<dots> = x / 2 powi (qmin256 + int d) * 2 ^ Suc 2"
  proof -
    have "e - 239 = qmin256 + int d - 3" unfolding qd by simp
    then show ?thesis by (simp add: powi2_diff powi2_nat)
  qed
  finally have cs: "x / 2 powi (exponent - 239) / 2 ^ c = x / 2 powi (qmin256 + int d) * 2 ^ Suc 2" .
  have cell': "same_cell 2 (real S') (x / 2 powi (qmin256 + int d) * 2 ^ Suc 2)"
    unfolding S'_def cs [symmetric] 
    by (rule jam_same_cell [OF same_cell_mono [OF cell]]) simp_all
  have S'le: "S' < 2 ^ (237 + Suc 2)"
  proof (cases "c = 0")
    case True
    then show ?thesis using Sb(2) by (simp add: S'_def)
  next
    case False
    then have "bval ext div 2 ^ c \<le> bval ext div 2 ^ 1" by (intro div_le_mono2) (simp_all, cases c, simp_all)
    moreover have "bval ext div 2 ^ 1 < 2 ^ 239" using Sb(2) by (simp add: less_mult_imp_div_less)
    ultimately show ?thesis using jam_le [of "bval ext" c] by (simp add: S'_def)
  qed
  have Rle: "R \<le> 2 ^ 237" unfolding R_def by (rule round_bits_le [OF S'le])
  have Rge: "2 ^ 236 \<le> R" if "kEmin \<le> exponent"
  proof -
    have "c = 0" using that by (simp add: c_def)
    then have "2 ^ (236 + Suc 2) \<le> S'" using Sb(1) by (simp add: S'_def)
    then show ?thesis unfolding R_def by (rule round_bits_ge)
  qed
  define sig0 where "sig0 = big_shr ext' 3"
  define guard_bit where "guard_bit = big_bit ext' 2"
  define sticky where "sticky \<longleftrightarrow> big_bit ext' 1 \<or> big_bit ext' 0"
  define sig1 where "sig1 = (if round_up s guard_bit sticky (big_bit sig0 0) mode then fst (increment sig0) else sig0)"
  have g: "guard_bit \<longleftrightarrow> odd (S' div 2 ^ 2)" unfolding guard_bit_def big_bit_sound ext'v by (simp add: bit_iff_odd)
  have st: "sticky \<longleftrightarrow> S' mod 2 ^ 2 \<noteq> 0" unfolding sticky_def big_bit_sound ext'v by (rule low_bits_sticky)
  have s0: "bval sig0 = S' div 2 ^ 3" "length sig0 = 8" unfolding sig0_def by (simp_all add: big_shr_sound ext'v)
  have lsb: "big_bit sig0 0 \<longleftrightarrow> odd (S' div 2 ^ Suc 2)" unfolding big_bit_sound s0 by (simp add: bit_0)
  have "S' div 2 ^ 3 < 2 ^ 237" using S'le by (simp add: less_mult_imp_div_less)
  then have s1: "bval sig1 = R" "length sig1 = 8"
    unfolding sig1_def round_up_eq R_def round_bits_def g st lsb
    using s0 increment_sound(1) [OF s0(2)] increment_sound(2) [of sig0] by simp_all
  have inex: "guard_bit \<or> sticky \<longleftrightarrow> S' mod 2 ^ Suc 2 \<noteq> 0"
    unfolding g st using mod_split [of S' 2 1] by (auto simp: odd_iff_mod_2_eq_one)
  define carry where "carry \<longleftrightarrow> R = 2 ^ 237"
  define sig2 where "sig2 = (if carry then big_shr sig1 1 else sig1)"
  define e2 where "e2 = (if carry then e + 1 else e)"
  have "big_bit sig1 (kFrac + 1) \<longleftrightarrow> bit R 237" by (simp add: big_bit_sound s1 kFrac_def)
  also have "\<dots> \<longleftrightarrow> carry" using bit_top [of R 237] Rle by (auto simp: carry_def)
  finally have cy: "big_bit sig1 (kFrac + 1) \<longleftrightarrow> carry" .
  have s2: "bval sig2 = (if carry then 2 ^ 236 else R)" "length sig2 = 8"
    by (simp_all add: sig2_def big_shr_sound s1 carry_def)
  have s2lt: "bval sig2 < 2 ^ 237" using Rle by (simp add: s2(1) carry_def)
  have top: "big_bit sig2 kFrac \<longleftrightarrow> 2 ^ 236 \<le> bval sig2"
    using bit_top [of "bval sig2" 236] s2lt by (simp add: big_bit_sound kFrac_def)
  have nz: "\<not> big_zero ext" using Sb(1) by (simp add: big_zero_sound)
  have code: "pack_extended s ext exponent mode tg w =
     (if e2 > kBias then
        (if mode = SF64_RNE \<or> mode = SF64_RNA \<or> mode = SF64_RUP \<and> \<not> s \<or> mode = SF64_RDN \<and> s then inf_value s
         else enc256 s (einf256 * 2 ^ 236 - 1), raise_flags tg (SF64_FE_OVERFLOW OR SF64_FE_INEXACT) w)
      else
        (if e2 = kEmin \<and> \<not> big_bit sig2 kFrac then raw s 0 sig2 else raw s (word_of_int (e2 + kBias)) sig2,
         if guard_bit \<or> sticky then
           raise_flags tg (if e2 = kEmin \<and> \<not> big_bit sig2 kFrac then SF64_FE_INEXACT OR SF64_FE_UNDERFLOW else SF64_FE_INEXACT) w
         else w))"
  proof -
    have p1: "(if exponent < kEmin then (big_shr_jam ext (nat (kEmin - exponent)), kEmin) else (ext, exponent)) = (ext', e)"
      by (simp add: ext'_def e_def c_def)
    have p2: "(if big_bit sig1 (kFrac + 1) then (big_shr sig1 1, e + 1) else (sig1, e)) = (sig2, e2)"
      unfolding cy sig2_def e2_def by simp
    have p3: "raw s f (sig2 [kFrac div 64 := sig2 ! (kFrac div 64) AND NOT (push_bit (kFrac mod 64) 1)]) = raw s f sig2" for f
    proof -
      have k: "kFrac div 64 = 3" "kFrac mod 64 = 44" by (simp_all add: kFrac_def)
      show ?thesis unfolding k by (rule raw_clear_implicit) (simp add: s2)
    qed
    have p4: "raw s (f256_kExpMax - 1) ((big_none 8) [0 := NOT 0, 1 := NOT 0, 2 := NOT 0, 3 := kTopFracMask]) = enc256 s (einf256 * 2 ^ 236 - 1)"
      by (rule max_finite_enc)
    show ?thesis
      unfolding pack_extended_def if_not_P [OF nz]
      by (simp only: Let_def p1 split_conv sig0_def [symmetric] guard_bit_def [symmetric] sticky_def [symmetric]
          sig1_def [symmetric] p2 p3 p4)
        (rule if_split_pair)
  qed
  have kb: "kEmin = - 262142" "kBias = 262143" by (simp_all add: kEmin_def kBias_def)
  have Rd: "2 ^ 236 \<le> R" if "0 < d" using that Rge by (simp add: d_def e_def max_def split: if_splits)
  have over: "e2 > kBias \<longleftrightarrow> einf256 * 2 ^ 236 \<le> n"
  proof -
    have "einf256 * 2 ^ 236 \<le> n \<longleftrightarrow> (if carry then 524285 \<le> d else 524286 \<le> d)"
      using Rle Rd unfolding n_def carry_def einf256_def by (cases "d = 0") auto
    then show ?thesis unfolding e2_def ed kb by auto
  qed
  define M where "M \<longleftrightarrow> mode = SF64_RNE \<or> mode = SF64_RNA \<or> mode = SF64_RUP \<and> \<not> s \<or> mode = SF64_RDN \<and> s"
  have spec: "round256 mode s x =
    (if einf256 * 2 ^ 236 \<le> n then (overflow_mag 236 einf256 mode s, SF64_FE_OVERFLOW OR SF64_FE_INEXACT)
     else (n, if \<not> (guard_bit \<or> sticky) then 0
              else if n < 2 ^ 236 then SF64_FE_INEXACT OR SF64_FE_UNDERFLOW else SF64_FE_INEXACT))"
    unfolding round256_def ieee_round_late_cell [OF b(1) q cell'] R_def [symmetric] n_def [symmetric] Let_def inex not_not ..
  have ov: "enc256 s (overflow_mag 236 einf256 mode s) = (if M then inf_value s else enc256 s (einf256 * 2 ^ 236 - 1))"
    unfolding inf_value_enc overflow_mag_def rounds_down_def M_def by (cases mode; cases s; simp)
  have sub: "e2 = kEmin \<and> \<not> big_bit sig2 kFrac \<longleftrightarrow> n < 2 ^ 236"
  proof -
    show ?thesis using Rd unfolding top s2(1) e2_def ed n_def carry_def by (cases d) auto
  qed
  have enc: "(if n < 2 ^ 236 then raw s 0 sig2 else raw s (word_of_int (e2 + kBias)) sig2) = enc256 s n" if "n < einf256 * 2 ^ 236"
  proof (cases "n < 2 ^ 236")
    case True
    then have "d = 0" "\<not> carry" "R = n" unfolding n_def carry_def by (cases d; simp)+
    then show ?thesis using True s2 by (simp add: raw_enc)
  next
    case False
    have k: "e2 + kBias = int (if carry then d + 2 else d + 1)" unfolding e2_def ed kb by simp
    have R: "\<not> carry \<Longrightarrow> 2 ^ 236 \<le> R \<and> R < 2 ^ 237"
      using False Rle Rd unfolding n_def carry_def by (cases "d = 0") auto
    have nk: "n = (if carry then (d + 2) * 2 ^ 236 + 0 else (d + 1) * 2 ^ 236 + (R - 2 ^ 236))"
      using R unfolding n_def by (auto simp: carry_def)
    have lt: "(if carry then d + 2 else d + 1) < 2 ^ 19" using that R unfolding nk einf256_def by (auto split: if_splits)
    have u: "unat (word_of_int (e2 + kBias) :: u32) = (if carry then d + 2 else d + 1)"
      unfolding k using lt by (simp add: unat_of_nat)
    have "bval sig2 mod 2 ^ 236 = (if carry then 0 else R - 2 ^ 236)"
      using R unfolding s2(1) by (auto simp: le_mod_geq)
    then show ?thesis using False lt s2(2) raw_enc [of "word_of_int (e2 + kBias)" sig2 s] unfolding u nk by (simp split: if_splits)
  qed
  show ?thesis
    unfolding code M_def [symmetric] over sub deliver256_def spec using enc ov by auto
qed

text \<open>\<open>pack_scaled\<close>: any multiple-limb integer whose cell the exact value lies in.\<close>

lemma pack_scaled_sound:
  assumes mg: "length mg = 8" "2 ^ k \<le> bval mg" "bval mg < 2 ^ Suc k"
    and y: "same_cell 1 (real (bval mg)) y" "239 \<le> k \<or> real (bval mg) = y"
    and x: "x = y * 2 powi scale"
  shows "pack_scaled s mg scale mode tg w = deliver256 tg s (round256 mode s x) w"
proof -
  have ne: "mg \<noteq> []" using mg(1) by auto
  have "0 < bval mg" using mg(2) by (metis less_le_trans zero_less_numeral zero_less_power)
  then obtain h where h: "big_highest mg = int h" "2 ^ h \<le> bval mg" "bval mg < 2 ^ Suc h"
    using big_highest_sound(2) [of mg] by auto
  have "(2::nat) ^ h < 2 ^ Suc k" "(2::nat) ^ k < 2 ^ Suc h" using h(2,3) mg(2,3) by linarith+
  then have hk: "h = k" using power_less_imp_less_exp [of "2::nat"] by (metis less_Suc_eq_le nat_less_le one_less_numeral_iff order_antisym semiring_norm(76))
  define ext where "ext = (if k > 239 then big_shr_jam mg (k - 239) else big_shl mg (239 - k))"
  have sx: "x / 2 powi (scale + int k - 239) = y / 2 powi (int k - 239)"
    unfolding x by (simp add: powi2_diff powi2_add)
  have "stands_for (bval ext) (scale + int k) x \<and> length ext = 8"
  proof (cases "k > 239")
    case True
    define c where "c = k - 239"
    have c: "k = 239 + c" "0 < c" using True by (simp_all add: c_def)
    have e: "bval ext = jam (bval mg) c" "length ext = 8"
      using True big_shr_jam_sound [OF ne, of c] mg(1) by (simp_all add: ext_def c_def)
    have "2 ^ 239 * 2 ^ c \<le> bval mg" using mg(2) unfolding c power_add .
    then have "2 ^ 239 \<le> bval mg div 2 ^ c" by (simp add: less_eq_div_iff_mult_less_eq)
    then have lo: "2 ^ 239 \<le> jam (bval mg) c" using jam_ge [of "bval mg" c] by linarith
    have hi: "jam (bval mg) c < 2 ^ Suc 239" 
      using mg(3) unfolding c by (intro jam_less [of _ "Suc 239"]) (simp_all add: add.commute)
    have "same_cell (2 + c) (real (bval mg)) y" by (rule same_cell_mono [OF y(1)]) simp
    then have "same_cell 2 (real (jam (bval mg) c)) (y / 2 ^ c)" by (rule jam_same_cell) simp
    moreover have "int k - 239 = int c" using c by simp
    then have sc: "y / 2 powi (int k - 239) = y / 2 ^ c" by (simp add: powi2_nat)
    ultimately show ?thesis using lo hi e unfolding stands_for_def sx sc by simp
  next
    case False
    define c where "c = 239 - k"
    have c: "k + c = 239" using False by (simp add: c_def)
    have "2 ^ k * 2 ^ c \<le> bval mg * 2 ^ c" "bval mg * 2 ^ c < 2 ^ Suc k * 2 ^ c"
      using mg(2,3) by (intro mult_right_mono mult_strict_right_mono; simp)+
    then have b: "2 ^ 239 \<le> bval mg * 2 ^ c" "bval mg * 2 ^ c < 2 ^ 240"
      unfolding power_add [symmetric] using c by simp_all
    have e: "bval ext = bval mg * 2 ^ c" "length ext = 8"
      using False b by (simp_all add: ext_def big_shl_sound mg(1) c_def)
    have "int k - 239 = - int c" using c by simp
    then have sc: "y / 2 powi (int k - 239) = y * 2 ^ c" by (simp add: power_int_minus divide_inverse)
    have "same_cell 2 (real (bval mg * 2 ^ c)) (y * 2 ^ c)"
    proof (cases "real (bval mg) = y")
      case True
      then have "real (bval mg * 2 ^ c) = y * 2 ^ c" by simp
      then show ?thesis by (metis same_cell_refl)
    next
      case False
      then have "c = 0" using y(2) c by simp
      then show ?thesis using same_cell_mono [OF y(1), of 2] by simp
    qed
    then show ?thesis using b e unfolding stands_for_def sx sc by simp
  qed
  then have "pack_extended s ext (scale + int k) mode tg w = deliver256 tg s (round256 mode s x) w"
    using pack_extended_sound by blast
  moreover have "pack_scaled s mg scale mode tg w = pack_extended s ext (scale + int k) mode tg w"
  proof -
    have n: "nat (int k - 239) = k - 239" "nat (239 - int k) = 239 - k" by linarith+
    show ?thesis by (cases "239 < k") (simp_all add: pack_scaled_def Let_def h(1) hk kFrac_def ext_def n)
  qed
  ultimately show ?thesis by simp
qed

lemma pack_scaled_zero: "bval mg = 0 \<Longrightarrow> pack_scaled s mg scale mode tg w = (zero_value s, w)"
  using big_highest_sound(1) [of mg] by (simp add: pack_scaled_def)

end
