(* ===== verification/Sf_F256_Arith.thy ===== *)
theory Sf_F256_Arith
  imports Sf_F256_Round
begin

text \<open>
  The arithmetic of \<open>src/fp256/soft_f256.cpp\<close> against the IEEE 754 operations on real numbers:
  addition, multiplication, division, square root, fused multiply-add.
\<close>

section \<open>The operations on real numbers\<close>

definition is_nan256 :: "sf256 \<Rightarrow> bool" where "is_nan256 x \<longleftrightarrow> einf256 * 2 ^ 236 < mag256 x"
definition is_inf256 :: "sf256 \<Rightarrow> bool" where "is_inf256 x \<longleftrightarrow> mag256 x = einf256 * 2 ^ 236"
definition is_zero256 :: "sf256 \<Rightarrow> bool" where "is_zero256 x \<longleftrightarrow> mag256 x = 0"
definition is_snan256 :: "sf256 \<Rightarrow> bool" where "is_snan256 x \<longleftrightarrow> is_nan256 x \<and> \<not> bit (mag256 x) 235"

definition quiet256 :: "sf256 \<Rightarrow> sf256" where "quiet256 x = enc256 (sgn256 x) (mag256 x OR 2 ^ 235)"
definition nan256 :: sf256 where "nan256 = enc256 False (einf256 * 2 ^ 236 + 2 ^ 235)"
definition inf256 :: "bool \<Rightarrow> sf256" where "inf256 s = enc256 s (einf256 * 2 ^ 236)"

definition nan256_of :: "sf256 \<Rightarrow> sf256 \<Rightarrow> sf256 \<times> u32" where
  "nan256_of a b =
     (if is_nan256 a then quiet256 a else if is_nan256 b then quiet256 b else nan256,
      if is_snan256 a \<or> is_snan256 b then SF64_FE_INVALID else 0)"

text \<open>One rounding of the real \<open>v\<close>; an exact zero gets the sign \<open>z\<close>.\<close>

definition round_real256 :: "sf64_rounding_mode \<Rightarrow> bool \<Rightarrow> real \<Rightarrow> sf256 \<times> u32" where
  "round_real256 m z v =
     (if v = 0 then (enc256 z 0, 0)
      else let r = round256 m (v < 0) \<bar>v\<bar> in (enc256 (v < 0) (fst r), snd r))"

definition ieee_add256 :: "sf64_rounding_mode \<Rightarrow> sf256 \<Rightarrow> sf256 \<Rightarrow> sf256 \<times> u32" where
  "ieee_add256 m a b =
     (if is_nan256 a \<or> is_nan256 b then nan256_of a b
      else if is_inf256 a \<and> is_inf256 b \<and> sgn256 a \<noteq> sgn256 b then (nan256, SF64_FE_INVALID)
      else if is_inf256 a then (a, 0)
      else if is_inf256 b then (b, 0)
      else round_real256 m (if is_zero256 a \<and> is_zero256 b \<and> (sgn256 a \<longleftrightarrow> sgn256 b) then sgn256 a else m = SF64_RDN)
             (val256 a + val256 b))"

definition ieee_mul256 :: "sf64_rounding_mode \<Rightarrow> sf256 \<Rightarrow> sf256 \<Rightarrow> sf256 \<times> u32" where
  "ieee_mul256 m a b =
     (let s = (sgn256 a \<noteq> sgn256 b)
      in if is_nan256 a \<or> is_nan256 b then nan256_of a b
         else if is_inf256 a \<and> is_zero256 b \<or> is_zero256 a \<and> is_inf256 b then (nan256, SF64_FE_INVALID)
         else if is_inf256 a \<or> is_inf256 b then (inf256 s, 0)
         else round_real256 m s (val256 a * val256 b))"

definition ieee_div256 :: "sf64_rounding_mode \<Rightarrow> sf256 \<Rightarrow> sf256 \<Rightarrow> sf256 \<times> u32" where
  "ieee_div256 m a b =
     (let s = (sgn256 a \<noteq> sgn256 b)
      in if is_nan256 a \<or> is_nan256 b then nan256_of a b
         else if is_inf256 a \<and> is_inf256 b \<or> is_zero256 a \<and> is_zero256 b then (nan256, SF64_FE_INVALID)
         else if is_inf256 a then (inf256 s, 0)
         else if is_inf256 b then (enc256 s 0, 0)
         else if is_zero256 b then (inf256 s, SF64_FE_DIVBYZERO)
         else round_real256 m s (val256 a / val256 b))"

definition ieee_sqrt256 :: "sf64_rounding_mode \<Rightarrow> sf256 \<Rightarrow> sf256 \<times> u32" where
  "ieee_sqrt256 m x =
     (if is_nan256 x then nan256_of x x
      else if is_zero256 x then (x, 0)
      else if sgn256 x then (nan256, SF64_FE_INVALID)
      else if is_inf256 x then (x, 0)
      else round_real256 m False (sqrt (val256 x)))"

text \<open>How an operation hands over a result with its flags.\<close>

definition hand_over :: "flag_target \<Rightarrow> 'r \<times> u32 \<Rightarrow> fenv_world \<Rightarrow> 'r \<times> fenv_world" where
  "hand_over tg r w = (fst r, raise_flags tg (snd r) w)"

section \<open>Shared lemmas\<close>

lemmas class256 = is_nan256_def is_inf256_def is_zero256_def is_snan256_def

lemma decode_simps [simp]:
  "d_sign (decode x) = sgn256 x" "d_zero (decode x) = is_zero256 x" "d_inf (decode x) = is_inf256 x"
  "d_nan (decode x) = is_nan256 x" "d_snan (decode x) = is_snan256 x"
  by (simp_all add: decode_class class256)

lemma special_values [simp]: "default_nan = nan256" "inf_value s = inf256 s" "zero_value s = enc256 s 0"
  by (simp_all add: default_nan_enc nan256_def inf_value_enc inf256_def zero_value_enc)

lemma or_pow2_less: "m < 2 ^ 255 \<Longrightarrow> m OR 2 ^ 235 < (2::nat) ^ 255"
proof -
  assume m: "m < 2 ^ 255"
  have "take_bit 255 (m OR 2 ^ 235) = take_bit 255 m OR take_bit 255 (2 ^ 235)" by (rule take_bit_or)
  also have "\<dots> = m OR 2 ^ 235" using m by (simp add: take_bit_nat_eq_self del: take_bit_of_exp)
  finally show ?thesis by (metis take_bit_nat_less_exp)
qed

lemma quiet_nan_enc: "quiet_nan x = quiet256 x"
proof (rule sf256_eqI)
  have m: "mag256 x OR 2 ^ 235 < 2 ^ 255" by (rule or_pow2_less [OF mag256_less])
  have "bits256 x OR 2 ^ 235 = (mag256 x OR 2 ^ 235) + of_bool (sgn256 x) * 2 ^ 255"
  proof (cases "sgn256 x")
    case True
    have "mag256 x + 2 ^ 255 = 2 ^ 255 OR mag256 x"
      using nat_or_disjoint [of "2 ^ 255" 255 "mag256 x"] mag256_less [of x] by simp
    moreover have "(2 ^ 255 OR mag256 x) OR 2 ^ 235 = 2 ^ 255 OR (mag256 x OR 2 ^ 235)" by (simp only: or.assoc)
    moreover have "2 ^ 255 OR (mag256 x OR 2 ^ 235) = 2 ^ 255 + (mag256 x OR 2 ^ 235)"
      using m by (intro nat_or_disjoint [of _ 255]) simp_all
    ultimately show ?thesis unfolding bits256_split [of x] using True by simp
  qed (simp add: bits256_split [of x])
  then show "bits256 (quiet_nan x) = bits256 (quiet256 x)"
    unfolding quiet_nan_bits quiet256_def bits256_enc [OF m] .
qed

lemma propagate_nan_sound: "f256_propagate_nan a b tg w = hand_over tg (nan256_of a b) w"
  by (simp add: f256_propagate_nan_def Let_def hand_over_def nan256_of_def quiet_nan_enc)

definition finite256 :: "sf256 \<Rightarrow> bool" where "finite256 x \<longleftrightarrow> \<not> is_nan256 x \<and> \<not> is_inf256 x \<and> \<not> is_zero256 x"

lemma finite256_D:
  assumes "finite256 x"
  shows "normalised (d_sig (decode x))"
    "fval256 (mag256 x) = real (bval (d_sig (decode x))) * 2 powi (d_exponent (decode x) - 236)"
    "- 262378 \<le> d_exponent (decode x)" "d_exponent (decode x) \<le> 262143"
    "- 262142 \<le> d_exponent (decode x) \<Longrightarrow> mag256 x = nat (d_exponent (decode x) + 262142) * 2 ^ 236 + bval (d_sig (decode x))"
    "d_exponent (decode x) < - 262142 \<Longrightarrow> bval (d_sig (decode x)) = mag256 x * 2 ^ nat (- 262142 - d_exponent (decode x))"
proof -
  have "0 < mag256 x" "mag256 x < einf256 * 2 ^ 236" using assms by (auto simp: finite256_def class256)
  note d = decode_finite [OF this]
  show "normalised (d_sig (decode x))"
    "fval256 (mag256 x) = real (bval (d_sig (decode x))) * 2 powi (d_exponent (decode x) - 236)"
    "- 262378 \<le> d_exponent (decode x)" "d_exponent (decode x) \<le> 262143"
    "- 262142 \<le> d_exponent (decode x) \<Longrightarrow> mag256 x = nat (d_exponent (decode x) + 262142) * 2 ^ 236 + bval (d_sig (decode x))"
    "d_exponent (decode x) < - 262142 \<Longrightarrow> bval (d_sig (decode x)) = mag256 x * 2 ^ nat (- 262142 - d_exponent (decode x))"
    using d by blast+
qed

lemma normalisedD: "normalised a \<Longrightarrow> length a = 8" "normalised a \<Longrightarrow> 2 ^ 236 \<le> bval a" "normalised a \<Longrightarrow> bval a < 2 ^ 237"
  "normalised a \<Longrightarrow> 0 < bval a"
  by (simp_all add: normalised_def)

lemma zero_val256: "is_zero256 x \<Longrightarrow> val256 x = 0"
  by (simp add: is_zero256_def val256_def fval256_def)

lemma fval256_pos: "0 < fval256 n \<longleftrightarrow> 0 < n" "fval256 n = 0 \<longleftrightarrow> n = 0" "0 \<le> fval256 n"
  using mag_val_eq_iff [of 236 qmin256 n 0] by (simp_all add: fval256_def)

lemma round_real256_0 [simp]: "round_real256 m z 0 = (enc256 z 0, 0)"
  by (simp add: round_real256_def)

lemma round_real256_signed:
  "0 < x \<Longrightarrow> round_real256 m z ((if s then - 1 else 1) * x) = (enc256 s (fst (round256 m s x)), snd (round256 m s x))"
  by (simp add: round_real256_def Let_def)

lemma pow2_interval: "0 < n \<Longrightarrow> \<exists>k. 2 ^ k \<le> n \<and> n < 2 ^ Suc k" for n :: nat
  using ex_power_ivl1 [of 2 n] by auto

text \<open>Packing an exact integer, and packing the cell of an inexact one.\<close>

lemma pack_exact:
  assumes "length mg = 8" and v: "v = (if s then - 1 else 1) * (real (bval mg) * 2 powi scale)"
    and z: "bval mg = 0 \<Longrightarrow> z = s"
  shows "pack_scaled s mg scale m tg w = hand_over tg (round_real256 m z v) w"
proof (cases "bval mg = 0")
  case True
  then show ?thesis using z by (simp add: v hand_over_def pack_scaled_zero)
next
  case False
  then obtain k where k: "2 ^ k \<le> bval mg" "bval mg < 2 ^ Suc k" using pow2_interval by blast
  have "0 < real (bval mg) * 2 powi scale" using False by simp
  then show ?thesis
    using pack_scaled_sound [OF assms(1) k, of "real (bval mg)" _ scale s m tg w]
    by (simp add: v round_real256_signed hand_over_def deliver256_def)
qed

lemma pack_inexact:
  assumes "length mg = 8" "2 ^ 239 \<le> bval mg" and y: "same_cell 1 (real (bval mg)) y" "0 < y"
    and v: "v = (if s then - 1 else 1) * (y * 2 powi scale)"
  shows "pack_scaled s mg scale m tg w = hand_over tg (round_real256 m z v) w"
proof -
  have "0 < bval mg" using assms(2) by (metis less_le_trans zero_less_numeral zero_less_power)
  then obtain k where k: "2 ^ k \<le> bval mg" "bval mg < 2 ^ Suc k" using pow2_interval by blast
  have "(2::nat) ^ 239 < 2 ^ Suc k" using assms(2) k by linarith
  then have "239 \<le> k" by (metis less_Suc_eq_le one_less_numeral_iff power_less_imp_less_exp semiring_norm(76))
  moreover have "0 < y * 2 powi scale" using y(2) by simp
  ultimately show ?thesis
    using pack_scaled_sound [OF assms(1) k y(1) _ refl, where s = s and scale = scale and mode = m and tg = tg and w = w]
    by (simp add: v round_real256_signed hand_over_def deliver256_def)
qed

section \<open>Addition\<close>

text \<open>
  The far path: the smaller operand is a perturbation \<open>t\<close> below the rounding grain of the larger.
\<close>

definition away :: "sf64_rounding_mode \<Rightarrow> bool \<Rightarrow> bool" where
  "away m s \<longleftrightarrow> m = SF64_RUP \<and> \<not> s \<or> m = SF64_RDN \<and> s"

definition inward :: "sf64_rounding_mode \<Rightarrow> bool \<Rightarrow> bool" where
  "inward m s \<longleftrightarrow> m = SF64_RTZ \<or> m = SF64_RUP \<and> s \<or> m = SF64_RDN \<and> \<not> s"

lemma round_bits_above: "round_bits m s 2 (8 * g + 1) = g + of_bool (away m s)"
proof -
  have "(8 * g + 1) div 8 = g" "even ((8 * g + 1) div 4)" "(8 * g + 1) mod 4 = Suc 0" by (simp, presburger, presburger)
  then show ?thesis unfolding round_bits_def by (cases m) (auto simp: round_up_dec_def away_def)
qed

lemma round_bits_below: "0 < g \<Longrightarrow> round_bits m s 2 (8 * g - 1) = g - of_bool (inward m s)"
proof -
  assume "0 < g"
  then obtain j where g: "g = Suc j" by (cases g) auto
  have e: "8 * g - 1 = 7 + 8 * j" by (simp add: g)
  have "(7 + 8 * j) div 8 = j" "odd ((7 + 8 * j) div 4)" "(7 + 8 * j) mod 4 = 3" "\<not> 4 dvd 7 + 8 * j"
    by (presburger, presburger, presburger, presburger)
  then show ?thesis unfolding round_bits_def e g by (cases m) (auto simp: round_up_dec_def inward_def)
qed

lemma round256_cell:
  fixes m :: sf64_rounding_mode and s :: bool
  assumes x: "0 < x" "2 powi e \<le> x" "x < 2 powi (e + 1)" and e: "- 262142 \<le> e"
    and c: "same_cell 2 (real S) (x / 2 powi (e - 236) * 8)" and S: "S mod 8 \<noteq> 0"
  defines "n \<equiv> nat (e + 262142) * 2 ^ 236 + round_bits m s 2 S"
  assumes n: "2 ^ 236 \<le> n"
  shows "round256 m s x =
    (if einf256 * 2 ^ 236 \<le> n then (overflow_mag 236 einf256 m s, SF64_FE_OVERFLOW OR SF64_FE_INEXACT) else (n, SF64_FE_INEXACT))"
proof -
  have l: "\<lfloor>log 2 x\<rfloor> = e" using x(2,3) by (rule floor_log2_eqI)
  have q: "qmin256 + int (nat (e + 262142)) = e - 236" using e by (simp add: qmin256_def)
  have qu: "quantum 236 qmin256 x = qmin256 + int (nat (e + 262142))"
    unfolding quantum_def l q using e by (simp add: qmin256_def)
  have c': "same_cell 2 (real S) (x / 2 powi (qmin256 + int (nat (e + 262142))) * 2 ^ Suc 2)" unfolding q using c by simp
  have "S mod 2 ^ Suc 2 \<noteq> 0" using S by simp
  then show ?thesis
    unfolding round256_def ieee_round_late_cell [OF x(1) qu c'] n_def [symmetric] Let_def using n by simp
qed

lemma round256_above:
  assumes sig: "2 ^ 236 \<le> sig" "sig < 2 ^ 237" and e: "- 262142 < e"
    and t: "0 < t" "t < 2 powi (e - 274)"
  defines "n \<equiv> nat (e + 262142) * 2 ^ 236 + sig"
  assumes n: "n < einf256 * 2 ^ 236"
  shows "round256 m s (real sig * 2 powi (e - 236) + t) =
    (n + of_bool (away m s), if einf256 * 2 ^ 236 \<le> n + of_bool (away m s) then SF64_FE_OVERFLOW OR SF64_FE_INEXACT else SF64_FE_INEXACT)"
proof -
  define u :: real where "u = 2 powi (e - 236)"
  define f where "f = t / u * 8"
  have u: "0 < u" by (simp add: u_def)
  have p: "2 powi e = 2 ^ 236 * u" "2 powi (e + 1) = 2 ^ 237 * u" "2 powi (e - 274) = u / 2 ^ 38"
    using powi2_add [of 236 "e - 236"] powi2_add [of 237 "e - 236"] powi2_diff [of "e - 236" 38]
    by (simp_all add: u_def powi2_nat algebra_simps)
  have t': "t * 2 ^ 38 < u" using t(2) unfolding p by (simp add: pos_less_divide_eq)
  have tu: "t < u" using t' t(1) by simp
  have f: "0 < f" "f < 1" using t(1) t' u by (simp_all add: f_def field_simps)
  have y: "(real sig * u + t) / u * 8 = real (8 * sig) + f" using u by (simp add: f_def field_simps)
  have odd1: "8 * sig OR 1 = 8 * sig + 1" unfolding nat_or_1 by simp
  have "same_cell 1 (real (8 * sig OR 1)) (real (8 * sig) + f)" using f by (rule frac_cell_one)
  then have c: "same_cell 2 (real (8 * sig + 1)) ((real sig * u + t) / u * 8)"
    unfolding y odd1 by (rule same_cell_mono) simp
  have "real (2 ^ 236) \<le> real sig" "real (sig + 1) \<le> real (2 ^ 237)" unfolding of_nat_le_iff using sig by simp_all
  then have s1: "2 ^ 236 \<le> real sig" "real sig + 1 \<le> 2 ^ 237" by (simp_all only: of_nat_power of_nat_numeral of_nat_add of_nat_1)
  have "2 ^ 236 * u \<le> real sig * u" "(real sig + 1) * u \<le> 2 ^ 237 * u" 
    by (rule mult_right_mono [OF s1(1) less_imp_le [OF u]], rule mult_right_mono [OF s1(2) less_imp_le [OF u]])
  then have lo: "2 powi e \<le> real sig * u + t" and hi: "real sig * u + t < 2 powi (e + 1)"
    unfolding p distrib_right mult_1 using t(1) tu u by linarith+
  have pos: "0 < real sig * u + t" using t(1) u by (simp add: add_nonneg_pos)
  have d: "nat (e + 262142) * 2 ^ 236 + round_bits m s 2 (8 * sig + 1) = n + of_bool (away m s)"
    unfolding round_bits_above n_def by simp
  have big: "2 ^ 236 \<le> nat (e + 262142) * 2 ^ 236 + round_bits m s 2 (8 * sig + 1)"
    unfolding d n_def using sig(1) by simp
  have r: "round256 m s (real sig * u + t) =
     (if einf256 * 2 ^ 236 \<le> n + of_bool (away m s) then (overflow_mag 236 einf256 m s, SF64_FE_OVERFLOW OR SF64_FE_INEXACT)
      else (n + of_bool (away m s), SF64_FE_INEXACT))"
    using round256_cell [OF pos lo hi, of "8 * sig + 1" m s] e c [unfolded u_def] big unfolding d
    by (simp add: u_def mod_Suc)
  moreover have "overflow_mag 236 einf256 m s = n + of_bool (away m s)" if "einf256 * 2 ^ 236 \<le> n + of_bool (away m s)"
    using that n by (auto simp: overflow_mag_def rounds_down_def away_def einf256_def split: if_splits)
  ultimately show ?thesis unfolding u_def [symmetric] by simp
qed

lemma round256_below:
  assumes sig: "2 ^ 236 \<le> sig" "sig < 2 ^ 237" and e: "- 262141 < e"
    and t: "0 < t" "t < 2 powi (e - 274)"
  defines "n \<equiv> nat (e + 262142) * 2 ^ 236 + sig"
  assumes n: "n < einf256 * 2 ^ 236"
  shows "round256 m s (real sig * 2 powi (e - 236) - t) = (n - of_bool (inward m s), SF64_FE_INEXACT)"
proof -
  have n1: "\<not> einf256 * 2 ^ 236 \<le> n - of_bool (inward m s)" using n by simp
  show ?thesis
  proof (cases "sig = 2 ^ 236")
    case True
    define u :: real where "u = 2 powi (e - 237)"
    define f where "f = t / u * 8"
    have u: "0 < u" by (simp add: u_def)
    have p: "2 powi (e - 236) = 2 * u" "2 powi (e - 1) = 2 ^ 236 * u" "2 powi (e - 1 + 1) = 2 ^ 237 * u" "2 powi (e - 274) = u / 2 ^ 37"
      using powi2_add [of 1 "e - 237"] powi2_add [of 236 "e - 237"] powi2_add [of 237 "e - 237"] powi2_diff [of "e - 237" 37]
      by (simp_all add: u_def powi2_nat algebra_simps)
    have t': "t * 2 ^ 37 < u" using t(2) unfolding p by (simp add: pos_less_divide_eq)
    have f: "0 < 1 - f" "1 - f < 1" using t(1) t' u by (simp_all add: f_def field_simps)
    have x: "real sig * 2 powi (e - 236) - t = 2 ^ 237 * u - t" unfolding p True by simp
    have y: "(2 ^ 237 * u - t) / u * 8 = real (2 ^ 240 - 1) + (1 - f)" using u by (simp add: f_def field_simps)
    have odd1: "(2 ^ 240 - 1) OR 1 = (2 ^ 240 - 1 :: nat)" unfolding nat_or_1 by simp
    have "same_cell 1 (real ((2 ^ 240 - 1) OR 1)) (real (2 ^ 240 - 1) + (1 - f))" using f by (rule frac_cell_one)
    then have c: "same_cell 2 (real (2 ^ 240 - 1)) ((2 ^ 237 * u - t) / u * 8)"
      unfolding y odd1 by (rule same_cell_mono) simp
    have lo: "2 powi (e - 1) \<le> 2 ^ 237 * u - t" and hi: "2 ^ 237 * u - t < 2 powi (e - 1 + 1)"
      unfolding p using t(1) t' u by simp_all
    have pos: "0 < 2 ^ 237 * u - t" using lo powi2_pos [of "e - 1"] by linarith
    have k: "nat (e + 262142) = Suc (nat (e - 1 + 262142))" using e by simp
    have rb: "round_bits m s 2 (2 ^ 240 - 1) = 2 ^ 237 - of_bool (inward m s)"
      using round_bits_below [of "2 ^ 237" m s] by simp
    have d: "nat (e - 1 + 262142) * 2 ^ 236 + round_bits m s 2 (2 ^ 240 - 1) = n - of_bool (inward m s)"
      unfolding rb n_def k True by simp
    have big: "2 ^ 236 \<le> nat (e - 1 + 262142) * 2 ^ 236 + round_bits m s 2 (2 ^ 240 - 1)" unfolding rb by simp
    have e1: "- 262142 \<le> e - 1" "e - 1 - 236 = e - 237" using e by simp_all
    have S: "(2 ^ 240 - 1 :: nat) mod 8 \<noteq> 0" by simp
    show ?thesis
      unfolding x using round256_cell [OF pos lo hi e1(1) _ S, unfolded e1(2), folded u_def, OF c big] n1 unfolding d by simp
  next
    case False
    then have sg: "2 ^ 236 + 1 \<le> sig" using sig(1) by simp
    define u :: real where "u = 2 powi (e - 236)"
    define f where "f = t / u * 8"
    have u: "0 < u" by (simp add: u_def)
    have p: "2 powi e = 2 ^ 236 * u" "2 powi (e + 1) = 2 ^ 237 * u" "2 powi (e - 274) = u / 2 ^ 38"
      using powi2_add [of 236 "e - 236"] powi2_add [of 237 "e - 236"] powi2_diff [of "e - 236" 38]
      by (simp_all add: u_def powi2_nat algebra_simps)
    have t': "t * 2 ^ 38 < u" using t(2) unfolding p by (simp add: pos_less_divide_eq)
    have tu: "t < u" using t' t(1) by simp
    have f: "0 < 1 - f" "1 - f < 1" using t(1) t' u by (simp_all add: f_def field_simps)
    have r1: "real (8 * sig - 1) = 8 * real sig - 1" using sg by (simp add: of_nat_diff)
    have y: "(real sig * u - t) / u * 8 = real (8 * sig - 1) + (1 - f)" unfolding r1 using u by (simp add: f_def field_simps)
    have odd1: "(8 * sig - 1) OR 1 = 8 * sig - 1" unfolding nat_or_1 using sg by simp
    have "same_cell 1 (real ((8 * sig - 1) OR 1)) (real (8 * sig - 1) + (1 - f))" using f by (rule frac_cell_one)
    then have c: "same_cell 2 (real (8 * sig - 1)) ((real sig * u - t) / u * 8)"
      unfolding y odd1 by (rule same_cell_mono) simp
    have "real (2 ^ 236 + 1) \<le> real sig" "real sig \<le> real (2 ^ 237)" unfolding of_nat_le_iff using sg sig(2) by simp_all
    then have s1: "2 ^ 236 + 1 \<le> real sig" "real sig \<le> 2 ^ 237" by (simp_all only: of_nat_power of_nat_numeral of_nat_add of_nat_1)
    have "(2 ^ 236 + 1) * u \<le> real sig * u" "real sig * u \<le> 2 ^ 237 * u" 
    by (rule mult_right_mono [OF s1(1) less_imp_le [OF u]], rule mult_right_mono [OF s1(2) less_imp_le [OF u]])
    then have lo: "2 powi e \<le> real sig * u - t" and hi: "real sig * u - t < 2 powi (e + 1)"
      unfolding p distrib_right mult_1 using t(1) tu u by linarith+
    have pos: "0 < real sig * u - t" using lo powi2_pos [of e] by linarith
    have d: "nat (e + 262142) * 2 ^ 236 + round_bits m s 2 (8 * sig - 1) = n - of_bool (inward m s)"
      using round_bits_below [of sig m s] sg unfolding n_def by simp
    have big: "2 ^ 236 \<le> nat (e + 262142) * 2 ^ 236 + round_bits m s 2 (8 * sig - 1)"
    proof -
      have "2 ^ 236 + 1 \<le> n" using sg unfolding n_def by (rule trans_le_add2)
      then show ?thesis unfolding d by (cases "inward m s") simp_all
    qed
    have e1: "- 262142 \<le> e" using e by simp
    obtain j where "sig = Suc j" using sg by (cases sig) auto
    then have "8 * sig - 1 = 8 * j + 7" by simp
    then have S: "(8 * sig - 1) mod 8 \<noteq> 0" by presburger
    show ?thesis
      unfolding u_def [symmetric]
      using round256_cell [OF pos lo hi e1 _ S, folded u_def, OF c big] n1 unfolding d by simp
  qed
qed

lemma decrement_limbs_sound:
  "0 < bval a \<Longrightarrow> bval (decrement_limbs a) + 1 = bval a" "length (decrement_limbs a) = length a"
proof -
  show "0 < bval a \<Longrightarrow> bval (decrement_limbs a) + 1 = bval a"
  proof (induction a)
    case (Cons x xs)
    show ?case
    proof (cases "x = 0")
      case True
      have "unat (- 1 :: u64) = 18446744073709551615" by (simp add: unsigned_minus_1_eq_mask mask_eq_exp_minus_1)
      moreover have "bval (decrement_limbs xs) + 1 = bval xs" using Cons True by simp
      ultimately show ?thesis using True by (simp add: Let_def flip: \<open>bval (decrement_limbs xs) + 1 = bval xs\<close>)
    next
      case False
      then have "0 < unat x" by (simp add: unat_gt_0)
      then have "unat (x - 1) + 1 = unat x" by (simp add: unat_sub_le)
      then show ?thesis using False by (simp add: Let_def)
    qed
  qed simp
  show "length (decrement_limbs a) = length a" by (induction a) (simp_all add: Let_def)
qed

lemma adjacent_sound:
  assumes "0 < mag256 x" "mag256 x + 1 < 2 ^ 255"
  shows "adjacent x tp = enc256 (sgn256 x) (if tp \<noteq> sgn256 x then mag256 x + 1 else mag256 x - 1)"
proof (rule sf256_eqI)
  have lt: "(if tp \<noteq> sgn256 x then mag256 x + 1 else mag256 x - 1) < 2 ^ 255"
    using assms(2) less_imp_diff_less [OF mag256_less, of x 1] by (cases "tp = sgn256 x") simp_all
  have l4: "length (limbs x) = 4" by (simp add: limbs_def)
  have s: "bval (limbs x) = mag256 x + of_bool (sgn256 x) * 2 ^ 255" using bits256_split [of x] by (simp add: bits256_def)
  have inc: "bval (fst (increment_limbs (limbs x))) = bval (limbs x) + 1" "length (fst (increment_limbs (limbs x))) = 4"
    using increment_limbs_sound [of "limbs x"] assms(2) by (simp_all add: l4 s)
  have dec: "bval (decrement_limbs (limbs x)) = bval (limbs x) - 1" "length (decrement_limbs (limbs x)) = 4"
    using decrement_limbs_sound [of "limbs x"] assms(1) by (simp_all add: l4 s)
  show "bits256 (adjacent x tp) = bits256 (enc256 (sgn256 x) (if tp \<noteq> sgn256 x then mag256 x + 1 else mag256 x - 1))"
    unfolding bits256_enc [OF lt] using assms(1)
    by (simp add: adjacent_def Let_def sgn256_top [symmetric] bits256_of_limbs inc dec s)
qed

text \<open>The magnitudes of the two operands in the near path, on a common exponent.\<close>

lemma shift_common:
  assumes "normalised a" "0 \<le> d" "d \<le> 274"
  shows "bval (big_shl a (nat d)) = bval a * 2 ^ nat d" "length (big_shl a (nat d)) = 8" "bval a * 2 ^ nat d < 2 ^ 511"
proof -
  have "nat d \<le> 274" using assms by simp
  then have "(2::nat) ^ nat d \<le> 2 ^ 274" by (rule power_increasing) simp
  then have "bval a * 2 ^ nat d < 2 ^ 237 * 2 ^ 274"
    using normalisedD(3) [OF assms(1)] by (intro mult_less_le_imp_less) simp_all
  then show lt: "bval a * 2 ^ nat d < 2 ^ 511" by (simp flip: power_add)
  then show "bval (big_shl a (nat d)) = bval a * 2 ^ nat d" "length (big_shl a (nat d)) = 8"
    using normalisedD(1) [OF assms(1)] by (simp_all add: big_shl_sound)
qed

text \<open>The signed sum of two integers on a common scale, as addition and the fused operation form it.\<close>

definition signed_sum ::
  "bool \<Rightarrow> big \<Rightarrow> bool \<Rightarrow> big \<Rightarrow> int \<Rightarrow> sf64_rounding_mode \<Rightarrow> flag_target \<Rightarrow> fenv_world \<Rightarrow> sf256 \<times> fenv_world" where
  "signed_sum sa fa sb fb scale m tg w =
     (if sa = sb then pack_scaled sa (big_add fa fb) scale m tg w
      else let cmp = big_compare fa fb
           in if cmp = 0 then (enc256 (m = SF64_RDN) 0, w)
              else if cmp > 0 then pack_scaled sa (big_sub fa fb) scale m tg w
              else pack_scaled sb (big_sub fb fa) scale m tg w)"

lemma signed_sum_exact:
  assumes len: "length fa = 8" "length fb = 8" and lt: "bval fa < 2 ^ 511" "bval fb < 2 ^ 511" and pos: "0 < bval fa"
    and v: "v = (if sa then - 1 else 1) * (real (bval fa) * 2 powi scale) + (if sb then - 1 else 1) * (real (bval fb) * 2 powi scale)"
  shows "signed_sum sa fa sb fb scale m tg w = hand_over tg (round_real256 m (m = SF64_RDN) v) w"
proof -
  define A B where "A = bval fa" and "B = bval fb"
  note ab = lt [folded A_def B_def] pos [folded A_def] v [folded A_def B_def]
  have lab: "length fa = length fb" using len by simp
  show ?thesis
  proof (cases "sa = sb")
    case True
    have s: "bval (big_add fa fb) = A + B" "length (big_add fa fb) = 8"
      using big_add_sound [OF lab] ab(1,2) len by (simp_all add: A_def B_def)
    have "pack_scaled sa (big_add fa fb) scale m tg w = hand_over tg (round_real256 m (m = SF64_RDN) v) w"
      by (rule pack_exact) (use s ab True in \<open>simp_all add: algebra_simps\<close>)
    then show ?thesis using True by (simp add: signed_sum_def)
  next
    case False
    note cmp = big_compare_sound [OF lab, folded A_def B_def]
    consider (lt) "A < B" | (eq) "A = B" | (gt) "B < A" by linarith
    then show ?thesis
    proof cases
      case lt
      have s: "bval (big_sub fb fa) = B - A" "length (big_sub fb fa) = 8"
        using big_sub_le [of fb fa] big_sub_sound(2) [of fb fa] lt len by (simp_all add: A_def B_def)
      have "pack_scaled sb (big_sub fb fa) scale m tg w = hand_over tg (round_real256 m (m = SF64_RDN) v) w"
        by (rule pack_exact) (use s ab False lt in \<open>simp_all add: algebra_simps of_nat_diff\<close>)
      then show ?thesis using False lt by (simp add: signed_sum_def cmp)
    next
      case eq
      then have "v = 0" using ab False by auto
      then show ?thesis using False eq by (simp add: signed_sum_def cmp hand_over_def)
    next
      case gt
      have s: "bval (big_sub fa fb) = A - B" "length (big_sub fa fb) = 8"
        using big_sub_le [of fa fb] big_sub_sound(2) [of fa fb] gt len by (simp_all add: A_def B_def)
      have "pack_scaled sa (big_sub fa fb) scale m tg w = hand_over tg (round_real256 m (m = SF64_RDN) v) w"
        by (rule pack_exact) (use s ab False gt in \<open>simp_all add: algebra_simps of_nat_diff\<close>)
      then show ?thesis using False gt by (simp add: signed_sum_def cmp)
    qed
  qed
qed

lemma near_add:
  fixes sa sb :: bool
  assumes a: "normalised a" and b: "normalised b" and d: "\<bar>ea - eb\<bar> \<le> 274"
  defines "common \<equiv> (if ea < eb then ea else eb)"
  shows "signed_sum sa (big_shl a (nat (ea - common))) sb (big_shl b (nat (eb - common))) (common - 236) m tg w =
    hand_over tg (round_real256 m (m = SF64_RDN)
      ((if sa then - 1 else 1) * (real (bval a) * 2 powi (ea - 236)) + (if sb then - 1 else 1) * (real (bval b) * 2 powi (eb - 236)))) w"
proof -
  have ca: "0 \<le> ea - common" "ea - common \<le> 274" and cb: "0 \<le> eb - common" "eb - common \<le> 274"
    using d by (auto simp: common_def)
  note fa = shift_common [OF a ca] and fb = shift_common [OF b cb]
  have p: "real (bval c) * 2 powi (ec - 236) = real (bval c * 2 ^ nat (ec - common)) * 2 powi (common - 236)"
    if "0 \<le> ec - common" for c :: big and ec
    using powi2_add [of "ec - common" "common - 236"] that by (simp add: powi2_nat)
  show ?thesis
    using fa fb normalisedD(4) [OF a] by (intro signed_sum_exact) (simp_all only: p [OF ca(1)] p [OF cb(1)], simp_all)
qed

text \<open>The far path.\<close>

lemma far_add:
  assumes D: "finite256 D" and t: "finite256 T" and far: "d_exponent (decode D) - d_exponent (decode T) > 274"
    and mode: "(step, toward_positive) =
      (if m = SF64_RUP then (\<not> sgn256 T, \<not> sgn256 T)
       else if m = SF64_RDN then (sgn256 T, \<not> sgn256 T)
       else if m = SF64_RTZ then (sgn256 D \<noteq> sgn256 T, sgn256 D)
       else (False, \<not> sgn256 T))"
  defines "lost \<equiv> sgn256 D = sgn256 T \<and> away m (sgn256 D) \<and> mag256 D = einf256 * 2 ^ 236 - 1"
  shows "(if step then adjacent D toward_positive else D) = fst (round_real256 m z (val256 D + val256 T))"
    "snd (round_real256 m z (val256 D + val256 T)) = (if lost then SF64_FE_OVERFLOW OR SF64_FE_INEXACT else SF64_FE_INEXACT)"
proof -
  define e where "e = d_exponent (decode D)"
  define sig where "sig = bval (d_sig (decode D))"
  define n where "n = nat (e + 262142) * 2 ^ 236 + sig"
  define s where "s = sgn256 D"
  define t where "t = fval256 (mag256 T)"
  note d = finite256_D [OF D, folded e_def sig_def] and dt = finite256_D [OF assms(2)]
  have e: "- 262103 \<le> e" using far dt(3) unfolding e_def by linarith
  have sig: "2 ^ 236 \<le> sig" "sig < 2 ^ 237" using normalisedD [OF d(1)] by (simp_all add: sig_def)
  have m: "mag256 D = n" using d(5) e unfolding n_def by simp
  have nlt: "n < einf256 * 2 ^ 236" "0 < n" using D m unfolding finite256_def class256 by auto
  have X: "fval256 (mag256 D) = real sig * 2 powi (e - 236)" by (rule d(2))
  have tp: "0 < t" using assms(2) by (simp add: t_def fval256_pos finite256_def is_zero256_def)
  have "t < 2 ^ 237 * 2 powi (d_exponent (decode T) - 236)"
  proof -
    have "real (bval (d_sig (decode T))) < real (2 ^ 237)" unfolding of_nat_less_iff by (rule normalisedD(3) [OF dt(1)])
    then have "real (bval (d_sig (decode T))) * 2 powi (d_exponent (decode T) - 236) < 2 ^ 237 * 2 powi (d_exponent (decode T) - 236)"
      by (intro mult_strict_right_mono) (simp_all only: powi2_pos of_nat_power of_nat_numeral)
    then show ?thesis unfolding t_def dt(2) .
  qed
  also have "2 ^ 237 * 2 powi (d_exponent (decode T) - 236) = (2::real) powi (d_exponent (decode T) + 1)"
    using powi2_add [of 237 "d_exponent (decode T) - 236"] by (simp add: powi2_nat add.commute [of 1])
  also have "\<dots> \<le> 2 powi (e - 274)" using far unfolding e_def by simp
  finally have tl: "t < 2 powi (e - 274)" .
  have nl: "n + 1 < 2 ^ 255" using nlt(1) by (simp add: einf256_def)
  have adj: "adjacent D tp = enc256 s (if tp \<noteq> s then n + 1 else n - 1)" for tp
    using adjacent_sound [of D tp] nlt nl unfolding m s_def by simp
  have D': "D = enc256 s n" unfolding s_def m [symmetric] by (simp add: enc256_self)
  have tX: "t < real sig * 2 powi (e - 236)"
  proof -
    have "2 powi (e - 274) \<le> (2::real) powi (e - 236)" by simp
    also have "\<dots> \<le> real sig * 2 powi (e - 236)" using sig(1) by (simp add: Suc_le_eq)
    finally show ?thesis using tl by linarith
  qed
  have "(if step then adjacent D toward_positive else D) = fst (round_real256 m z (val256 D + val256 T)) \<and>
    snd (round_real256 m z (val256 D + val256 T)) = (if lost then SF64_FE_OVERFLOW OR SF64_FE_INEXACT else SF64_FE_INEXACT)"
  proof (cases "sgn256 T = s")
    case True
    have v: "val256 D + val256 T = (if s then - 1 else 1) * (real sig * 2 powi (e - 236) + t)"
      using True unfolding val256_def s_def [symmetric] X t_def by simp
    have pos: "0 < real sig * 2 powi (e - 236) + t" using tp tX by linarith
    have e1: "- 262142 < e" using e by simp
    have r: "round256 m s (real sig * 2 powi (e - 236) + t) =
       (n + of_bool (away m s), if einf256 * 2 ^ 236 \<le> n + of_bool (away m s) then SF64_FE_OVERFLOW OR SF64_FE_INEXACT else SF64_FE_INEXACT)"
      unfolding n_def by (rule round256_above [OF sig e1 tp tl]) (use nlt n_def in simp)
    have st: "step \<longleftrightarrow> away m s" "step \<Longrightarrow> toward_positive \<noteq> s"
      using mode True unfolding s_def [symmetric] by (cases m; simp add: away_def)+
    have "(if step then adjacent D toward_positive else D) = enc256 s (n + of_bool (away m s))"
      using st by (cases step) (simp_all add: adj, simp add: D')
    moreover have "einf256 * 2 ^ 236 \<le> n + of_bool (away m s) \<longleftrightarrow> lost"
      using nlt True unfolding lost_def m s_def by auto
    ultimately show ?thesis unfolding v round_real256_signed [OF pos] r by simp
  next
    case False
    have v: "val256 D + val256 T = (if s then - 1 else 1) * (real sig * 2 powi (e - 236) - t)"
      using False unfolding val256_def s_def [symmetric] X t_def by simp
    have pos: "0 < real sig * 2 powi (e - 236) - t" using tX by linarith
    have e1: "- 262141 < e" using e by simp
    have r: "round256 m s (real sig * 2 powi (e - 236) - t) = (n - of_bool (inward m s), SF64_FE_INEXACT)"
      unfolding n_def by (rule round256_below [OF sig e1 tp tl]) (use nlt n_def in simp)
    have st: "step \<longleftrightarrow> inward m s" "step \<Longrightarrow> toward_positive = s"
      using mode False unfolding s_def [symmetric] by (cases m; auto simp add: inward_def)+
    have "(if step then adjacent D toward_positive else D) = enc256 s (n - of_bool (inward m s))"
      using st by (cases step) (simp_all add: adj, simp add: D')
    moreover have "\<not> lost" using False unfolding lost_def s_def by simp
    ultimately show ?thesis unfolding v round_real256_signed [OF pos] r by simp
  qed
  then show "(if step then adjacent D toward_positive else D) = fst (round_real256 m z (val256 D + val256 T))"
    "snd (round_real256 m z (val256 D + val256 T)) = (if lost then SF64_FE_OVERFLOW OR SF64_FE_INEXACT else SF64_FE_INEXACT)" by blast+
qed

lemma exponent_field: "finite256 x \<Longrightarrow> 0 < k \<Longrightarrow> mag256 x < k * 2 ^ 236 \<longleftrightarrow> d_exponent (decode x) < int k - 262143"
proof -
  assume x: "finite256 x" and k: "0 < k"
  note d = finite256_D [OF x]
  define e where "e = d_exponent (decode x)"
  define g where "g = bval (d_sig (decode x))"
  have g: "2 ^ 236 \<le> g" "g < 2 ^ 237" using normalisedD [OF d(1)] by (simp_all add: g_def)
  show ?thesis
  proof (cases "- 262142 \<le> e")
    case True
    then have m: "mag256 x = nat (e + 262142) * 2 ^ 236 + g" using d(5) by (simp add: e_def g_def)
    have "mag256 x < k * 2 ^ 236 \<longleftrightarrow> nat (e + 262142) + 1 < k"
      unfolding m using g by auto
    then show ?thesis using True unfolding e_def by linarith
  next
    case False
    then obtain j where j: "nat (- 262142 - e) = Suc j" by (cases "nat (- 262142 - e)") auto
    have "mag256 x * 2 ^ Suc j < 2 ^ 237" using d(6) False g j by (simp add: e_def g_def)
    moreover have "mag256 x * 2 ^ 1 \<le> mag256 x * 2 ^ Suc j" by (intro mult_le_mono2 power_increasing) simp_all
    ultimately have "mag256 x * 2 ^ 1 < 2 ^ 237" by linarith
    then have "mag256 x < 2 ^ 236" by simp
    moreover have "(2::nat) ^ 236 \<le> k * 2 ^ 236" using k by simp
    ultimately have "mag256 x < k * 2 ^ 236" by linarith
    then show ?thesis using False k unfolding e_def by linarith
  qed
qed

text \<open>
  The one deviation: the largest finite value plus a far smaller operand of the same sign, rounded
  away from zero.  The result is infinite, as it should be, but overflow is not signalled.
\<close>

definition lost_overflow :: "sf64_rounding_mode \<Rightarrow> sf256 \<Rightarrow> sf256 \<Rightarrow> bool" where
  "lost_overflow m a b \<longleftrightarrow> (sgn256 a \<longleftrightarrow> sgn256 b) \<and> away m (sgn256 a) \<and>
     (mag256 a = einf256 * 2 ^ 236 - 1 \<and> 0 < mag256 b \<and> mag256 b < 524012 * 2 ^ 236 \<or>
      mag256 b = einf256 * 2 ^ 236 - 1 \<and> 0 < mag256 a \<and> mag256 a < 524012 * 2 ^ 236)"

lemma lost_overflow_far:
  assumes D: "finite256 D" and T: "finite256 T" and far: "d_exponent (decode D) - d_exponent (decode T) > 274"
  shows "lost_overflow m D T \<longleftrightarrow> sgn256 D = sgn256 T \<and> away m (sgn256 D) \<and> mag256 D = einf256 * 2 ^ 236 - 1"
proof -
  note dD = finite256_D(4) [OF D] and dT = finite256_D(4) [OF T]
  have "0 < mag256 T" using T by (simp add: finite256_def is_zero256_def)
  moreover have "mag256 T < 524012 * 2 ^ 236" using exponent_field [OF T, of 524012] far dD by simp
  moreover have "mag256 T \<noteq> einf256 * 2 ^ 236 - 1" using calculation(2) by (simp add: einf256_def)
  ultimately show ?thesis by (auto simp: lost_overflow_def)
qed

lemma lost_overflow_commute: "lost_overflow m a b \<longleftrightarrow> lost_overflow m b a"
  by (auto simp: lost_overflow_def)

lemma lost_overflow_near:
  assumes a: "finite256 a" and b: "finite256 b" and d: "\<bar>d_exponent (decode a) - d_exponent (decode b)\<bar> \<le> 274"
  shows "\<not> lost_overflow m a b"
proof -
  have e: "d_exponent (decode x) \<ge> 262143" if "mag256 x = einf256 * 2 ^ 236 - 1" "finite256 x" for x
    using exponent_field [OF that(2), of 524286] that(1) by (simp add: einf256_def)
  show ?thesis
    using d e [of a] e [of b] a b exponent_field [OF a, of 524012] exponent_field [OF b, of 524012]
    unfolding lost_overflow_def by auto
qed

lemma lost_overflow_finite: "lost_overflow m a b \<Longrightarrow> finite256 a \<and> finite256 b"
  by (auto simp: lost_overflow_def finite256_def class256 einf256_def)

lemma round_real256_self:
  assumes "\<not> is_nan256 x" "\<not> is_inf256 x" "\<not> is_zero256 x"
  shows "round_real256 q z (val256 x) = (x, 0)"
proof -
  have m: "0 < mag256 x" "mag256 x < einf256 * 2 ^ 236" using assms by (auto simp: class256)
  then have p: "0 < fval256 (mag256 x)" by (simp add: fval256_pos)
  have "round_mag 236 qmin256 q (sgn256 x) (fval256 (mag256 x)) = mag256 x"
    unfolding fval256_def by (rule round_mag_mag_val) fact
  then have "round256 q (sgn256 x) (fval256 (mag256 x)) = (mag256 x, 0)"
    using m(2) by (simp add: round256_def ieee_round_late_def fval256_def)
  then show ?thesis using round_real256_signed [OF p, of q z "sgn256 x"] by (simp add: val256_def enc256_self)
qed

lemma zero256_enc: "is_zero256 x \<Longrightarrow> enc256 (sgn256 x) 0 = x"
  using enc256_self [of x] by (simp add: is_zero256_def)

lemma zero_not_special: "is_zero256 x \<Longrightarrow> \<not> is_nan256 x" "is_zero256 x \<Longrightarrow> \<not> is_inf256 x" "is_inf256 x \<Longrightarrow> \<not> is_nan256 x"
  by (auto simp: class256 einf256_def)

lemma f256_add_special:
  assumes "\<not> finite256 a \<or> \<not> finite256 b"
  shows "f256_add_impl m a b tg w = hand_over tg (ieee_add256 m a b) w"
proof -
  consider (nan) "is_nan256 a \<or> is_nan256 b" | (inf) "\<not> (is_nan256 a \<or> is_nan256 b)" "is_inf256 a \<or> is_inf256 b"
    | (zero) "\<not> (is_nan256 a \<or> is_nan256 b)" "\<not> (is_inf256 a \<or> is_inf256 b)" "is_zero256 a \<or> is_zero256 b"
    using assms by (auto simp: finite256_def)
  then show ?thesis
  proof cases
    case nan
    then show ?thesis by (simp only: f256_add_impl_def ieee_add256_def Let_def decode_simps if_True propagate_nan_sound)
  next
    case inf
    then show ?thesis
      by (cases "is_inf256 a"; cases "is_inf256 b"; cases "sgn256 a = sgn256 b")
         (simp_all only: f256_add_impl_def ieee_add256_def Let_def decode_simps if_True if_False simp_thms special_values
           hand_over_def raise_flags_0 fst_conv snd_conv)
  next
    case zero
    then have "round_real256 m z (val256 a + val256 b) = (if is_zero256 a \<and> is_zero256 b then (enc256 z 0, 0) else if is_zero256 a then (b, 0) else (a, 0))" for z
      using round_real256_self [of a m z] round_real256_self [of b m z] by (auto simp: zero_val256)
    then show ?thesis using zero
      by (cases "is_zero256 a"; cases "is_zero256 b")
         (simp_all only: f256_add_impl_def ieee_add256_def Let_def decode_simps if_True if_False simp_thms special_values
           hand_over_def raise_flags_0 fst_conv snd_conv de_Morgan_disj)
  qed
qed

lemma f256_add_finite:
  assumes fa: "finite256 a" and fb: "finite256 b"
  shows "f256_add_impl m a b tg w =
     (let r = ieee_add256 m a b in hand_over tg (fst r, if lost_overflow m a b then SF64_FE_INEXACT else snd r) w)"
proof -
  have cl: "\<not> is_nan256 a" "\<not> is_inf256 a" "\<not> is_zero256 a" "\<not> is_nan256 b" "\<not> is_inf256 b" "\<not> is_zero256 b"
    using assms by (simp_all add: finite256_def)
  note da = finite256_D [OF fa] and db = finite256_D [OF fb]
  define ea eb where "ea = d_exponent (decode a)" and "eb = d_exponent (decode b)"
  have sp: "ieee_add256 m a b = round_real256 m (m = SF64_RDN) (val256 a + val256 b)"
    using cl by (simp add: ieee_add256_def)
  define diff where "diff = (if ea > eb then ea - eb else eb - ea)"
  show ?thesis
  proof (cases "diff \<le> 274")
    case True
    then have d: "\<bar>ea - eb\<bar> \<le> 274" by (auto simp: diff_def split: if_splits)
    have v: "val256 a = (if sgn256 a then - 1 else 1) * (real (bval (d_sig (decode a))) * 2 powi (ea - 236))"
      "val256 b = (if sgn256 b then - 1 else 1) * (real (bval (d_sig (decode b))) * 2 powi (eb - 236))"
      unfolding val256_def da(2) db(2) ea_def eb_def by simp_all
    have k: "int kFrac = 236" by (simp add: kFrac_def)
    have "f256_add_impl m a b tg w = hand_over tg (round_real256 m (m = SF64_RDN) (val256 a + val256 b)) w"
      unfolding v using near_add [OF da(1) db(1) d, of "sgn256 a" "sgn256 b" m tg w] True
      by (simp add: f256_add_impl_def signed_sum_def cl Let_def diff_def ea_def eb_def k cong: if_cong)
    then show ?thesis using lost_overflow_near [OF fa fb] d unfolding sp by (simp add: ea_def eb_def)
  next
    case False
    note far = False
    define D T where "D = (if ea > eb then a else b)" and "T = (if ea > eb then b else a)"
    have DT: "finite256 D" "finite256 T" "d_exponent (decode D) - d_exponent (decode T) > 274"
      using far fa fb by (auto simp: D_def T_def diff_def ea_def eb_def split: if_splits)
    have sum: "val256 a + val256 b = val256 D + val256 T" by (simp add: D_def T_def)
    have lost: "lost_overflow m a b = lost_overflow m D T" using lost_overflow_commute by (simp add: D_def T_def)
    obtain step tp where st: "(step, tp) = (if m = SF64_RUP then (\<not> sgn256 T, \<not> sgn256 T)
       else if m = SF64_RDN then (sgn256 T, \<not> sgn256 T)
       else if m = SF64_RTZ then (sgn256 D \<noteq> sgn256 T, sgn256 D)
       else (False, \<not> sgn256 T))" by (metis surj_pair)
    note r = far_add [OF DT st, of "m = SF64_RDN"]
    have dom: "(if ea > eb then a else b) = D" "(if ea > eb then sgn256 a else sgn256 b) = sgn256 D"
      "(if ea > eb then sgn256 b else sgn256 a) = sgn256 T" by (simp_all add: D_def T_def)
    have c: "\<not> (is_nan256 a \<or> is_nan256 b)" "\<not> (is_inf256 a \<or> is_inf256 b)" "\<not> (is_zero256 a \<and> is_zero256 b)"
      "\<not> is_zero256 a" "\<not> is_zero256 b" "\<not> diff \<le> 274" using cl far by simp_all
    have "f256_add_impl m a b tg w = (if step then adjacent D tp else D, raise_flags tg SF64_FE_INEXACT w)"
      unfolding f256_add_impl_def Let_def decode_simps ea_def [symmetric] eb_def [symmetric] diff_def [symmetric] dom
      unfolding c [THEN if_not_P] st [symmetric] split_conv ..
    then show ?thesis
      unfolding sp sum lost using r(1) r(2) [folded lost_overflow_far [OF DT]]
      by (cases "lost_overflow m D T") (simp_all add: hand_over_def Let_def)
  qed
qed

lemma f256_add_sound:
  "f256_add_impl m a b tg w =
     (let r = ieee_add256 m a b in hand_over tg (fst r, if lost_overflow m a b then SF64_FE_INEXACT else snd r) w)"
proof (cases "finite256 a \<and> finite256 b")
  case False
  then have "\<not> lost_overflow m a b" using lost_overflow_finite by blast
  then show ?thesis using False f256_add_special [of a b m tg w] by simp
qed (simp add: f256_add_finite)

section \<open>Multiplication\<close>

lemma narrow_product:
  assumes a: "normalised a" and b: "normalised b"
  shows "bval (big_multiply (big_widen 4 a) (big_widen 4 b)) = bval a * bval b"
    "length (big_multiply (big_widen 4 a) (big_widen 4 b)) = 8"
proof -
  have "bval (big_widen 4 c) = bval c" if "normalised c" for c
    using normalisedD [OF that] by (simp add: big_narrow_sound)
  then show "bval (big_multiply (big_widen 4 a) (big_widen 4 b)) = bval a * bval b"
    using a b by (simp add: big_multiply_sound)
  show "length (big_multiply (big_widen 4 a) (big_widen 4 b)) = 8" by (simp add: big_multiply_sound big_widen_sound)
qed

lemma sign_product: "(if s then - 1 else 1 :: real) * x * ((if t then - 1 else 1) * y) = (if s \<noteq> t then - 1 else 1) * (x * y)"
  by simp

lemma sign_quotient: "(if s then - 1 else 1 :: real) * x / ((if t then - 1 else 1) * y) = (if s \<noteq> t then - 1 else 1) * (x / y)"
  by simp

lemma special_cases:
  assumes "\<not> finite256 a \<or> \<not> finite256 b"
  shows "is_nan256 a \<or> is_nan256 b \<or> \<not> (is_nan256 a \<or> is_nan256 b) \<and> (is_inf256 a \<or> is_inf256 b) \<or>
    \<not> (is_nan256 a \<or> is_nan256 b) \<and> \<not> is_inf256 a \<and> \<not> is_inf256 b \<and> (is_zero256 a \<or> is_zero256 b)"
  using assms by (auto simp: finite256_def)

lemma f256_mul_sound: "f256_mul_impl m a b tg w = hand_over tg (ieee_mul256 m a b) w"
proof (cases "finite256 a \<and> finite256 b")
  case False
  then consider (nan) "is_nan256 a \<or> is_nan256 b" | (inf) "\<not> is_nan256 a" "\<not> is_nan256 b" "is_inf256 a \<or> is_inf256 b"
    | (zero) "\<not> is_nan256 a" "\<not> is_nan256 b" "\<not> is_inf256 a" "\<not> is_inf256 b" "is_zero256 a \<or> is_zero256 b"
    using special_cases by blast
  then show ?thesis
  proof cases
    case nan
    then show ?thesis by (simp only: f256_mul_impl_def ieee_mul256_def Let_def decode_simps if_True propagate_nan_sound)
  next
    case inf
    then show ?thesis using zero_not_special
      by (cases "is_inf256 a"; cases "is_inf256 b"; cases "is_zero256 a"; cases "is_zero256 b")
         (simp_all add: f256_mul_impl_def ieee_mul256_def Let_def hand_over_def)
  next
    case zero
    then show ?thesis
      by (cases "is_zero256 a"; cases "is_zero256 b")
         (simp_all add: f256_mul_impl_def ieee_mul256_def Let_def hand_over_def zero_val256)
  qed
next
  case True
  then have fa: "finite256 a" and fb: "finite256 b" by simp_all
  have cl: "\<not> is_nan256 a" "\<not> is_inf256 a" "\<not> is_zero256 a" "\<not> is_nan256 b" "\<not> is_inf256 b" "\<not> is_zero256 b"
    using True by (simp_all add: finite256_def)
  note da = finite256_D [OF fa] and db = finite256_D [OF fb]
  define ea eb where "ea = d_exponent (decode a)" and "eb = d_exponent (decode b)"
  define P where "P = big_multiply (big_widen 4 (d_sig (decode a))) (big_widen 4 (d_sig (decode b)))"
  note p = narrow_product [OF da(1) db(1), folded P_def]
  have e: "2 powi (ea - 236) * 2 powi (eb - 236) = (2::real) powi (ea + eb - 472)"
    unfolding powi2_add [symmetric] by simp
  have "val256 a * val256 b = (if sgn256 a \<noteq> sgn256 b then - 1 else 1) *
      (real (bval (d_sig (decode a))) * 2 powi (ea - 236) * (real (bval (d_sig (decode b))) * 2 powi (eb - 236)))"
    unfolding val256_def da(2) db(2) ea_def eb_def by (rule sign_product)
  also have "real (bval (d_sig (decode a))) * 2 powi (ea - 236) * (real (bval (d_sig (decode b))) * 2 powi (eb - 236)) =
      real (bval P) * 2 powi (ea + eb - 472)"
    unfolding p of_nat_mult e [symmetric] by simp
  finally have v: "val256 a * val256 b = (if sgn256 a \<noteq> sgn256 b then - 1 else 1) * (real (bval P) * 2 powi (ea + eb - 472))" .
  have nz: "bval P \<noteq> 0" using normalisedD(4) [OF da(1)] normalisedD(4) [OF db(1)] by (simp add: p)
  have k: "2 * int kFrac = 472" by (simp add: kFrac_def)
  have "pack_scaled (sgn256 a \<noteq> sgn256 b) P (ea + eb - 472) m tg w =
      hand_over tg (round_real256 m (sgn256 a \<noteq> sgn256 b) (val256 a * val256 b)) w"
    by (rule pack_exact [OF p(2) v]) (use nz in simp)
  then show ?thesis
    unfolding f256_mul_impl_def ieee_mul256_def Let_def decode_simps k P_def [symmetric] ea_def [symmetric] eb_def [symmetric]
    using cl by simp
qed

section \<open>Division\<close>

lemma set_low_digit:
  fixes a :: big
  assumes "a \<noteq> []" "v < 2 ^ LENGTH(64)"
  shows "bval (a [0 := a ! 0 OR word_of_nat v]) = (bval a OR v)"
proof -
  obtain x xs where a: "a = x # xs" using assms(1) by (cases a) auto
  have u: "unat (word_of_nat v :: u64) = v" using assms(2) by (simp add: unat_of_nat)
  have "bval a OR v = bval xs * 2 ^ 64 + (unat x OR v)"
  proof (rule bit_eqI)
    fix i
    have l: "unat x < 2 ^ 64" "unat x OR v < 2 ^ 64"
      using unat_lt64 [of "x OR word_of_nat v"] unat_lt64 [of x] by (simp_all add: unsigned_or_eq u)
    have b: "bval a = bval xs * 2 ^ 64 + unat x" by (simp add: a)
    have "take_bit 64 v = v" using assms(2) by (simp add: take_bit_nat_eq_self)
    then have "bit v i \<Longrightarrow> i < 64" by (metis bit_take_bit_iff)
    then show "bit (bval a OR v) i \<longleftrightarrow> bit (bval xs * 2 ^ 64 + (unat x OR v)) i"
      unfolding b limb_bit [OF l(1)] limb_bit [OF l(2)] bit_or_iff by auto
  qed
  then show ?thesis by (simp add: a unsigned_or_eq u)
qed

lemma sticky_limb: "a \<noteq> [] \<Longrightarrow> bval (a [0 := a ! 0 OR 1]) = (bval a OR 1)" for a :: big
  using set_low_digit [of a 1] by simp

lemma div_loop_sound:
  assumes "length d = 8" "length rm = 8" "bval rm < 2 * bval d" "2 * bval d \<le> 2 ^ 512"
    and "length q = 8" "bval q mod 2 ^ Suc pos = 0" "pos < 512"
    and "div_loop pos d rm q = (rm', q')"
  shows "bval q' = bval q + bval rm * 2 ^ pos div bval d \<and> bval rm' = bval rm * 2 ^ pos mod bval d \<and>
    length q' = 8 \<and> length rm' = 8"
  using assms
proof (induction pos arbitrary: rm q)
  case (0 rm q)
  have q: "bval (big_set_bit q 0) = bval q + 1" "length (big_set_bit q 0) = 8"
    using nat_or_disjoint [of "bval q" 1 1] 0 by (simp_all add: big_set_bit_sound)
  note g = big8.digit [OF "0.prems"(2,1,3)] and tr = big8.trial(2) [OF "0.prems"(2,1)]
  show ?case using "0.prems"(8) g tr q "0.prems"(5) by (auto simp: div_loop.simps [of 0] split: if_splits)
next
  case (Suc pos rm q)
  define r1 where "r1 = (if 0 \<le> big_compare rm d then big_sub rm d else rm)"
  define q1 where "q1 = (if 0 \<le> big_compare rm d then big_set_bit q (Suc pos) else q)"
  note g = big8.digit [OF Suc.prems(2,1,3), folded r1_def] and nx = big8.next_dividend [OF Suc.prems(2,1,3,4), folded r1_def]
  have l: "div_loop pos d (big_shl r1 1) q1 = (rm', q')"
    using Suc.prems(8) by (subst (asm) div_loop.simps) (simp add: r1_def q1_def split: if_splits)
  have q1: "bval q1 = bval q + (bval rm div bval d) * 2 ^ Suc pos" "length q1 = 8"
  proof -
    have "(2::nat) ^ Suc pos < 2 ^ Suc (Suc pos)" by simp
    then have "bval q OR 2 ^ Suc pos = bval q + 2 ^ Suc pos" using Suc.prems(6) by (intro nat_or_disjoint [of _ "Suc (Suc pos)"])
    then show "bval q1 = bval q + (bval rm div bval d) * 2 ^ Suc pos" "length q1 = 8"
      using g(2) Suc.prems(5,7) by (auto simp: q1_def big_set_bit_sound)
  qed
  have "(2::nat) ^ Suc (Suc pos) = 2 ^ Suc pos * 2" by simp
  then have "bval q mod 2 ^ Suc pos = 0" using Suc.prems(6) by (metis mod_0 mod_mod_cancel dvd_triv_left)
  then have qm: "bval q1 mod 2 ^ Suc pos = 0" unfolding q1(1) by simp
  have "bval q' = bval q1 + bval (big_shl r1 1) * 2 ^ pos div bval d \<and> bval rm' = bval (big_shl r1 1) * 2 ^ pos mod bval d \<and>
    length q' = 8 \<and> length rm' = 8"
    using nx Suc.prems(7) by (intro Suc.IH [OF Suc.prems(1) _ _ Suc.prems(4) q1(2) qm _ l]) auto
  moreover have "bval rm * 2 ^ Suc pos = (bval rm div bval d * 2 ^ Suc pos) * bval d + bval (big_shl r1 1) * 2 ^ pos"
  proof -
    obtain A R where AR: "A = bval rm div bval d" "R = bval rm mod bval d" by blast
    have "bval rm = A * bval d + R" unfolding AR by simp
    then have "bval rm * 2 ^ Suc pos = (A * bval d + R) * 2 ^ Suc pos" by (rule arg_cong)
    also have "\<dots> = A * 2 ^ Suc pos * bval d + 2 * R * 2 ^ pos" by (simp add: algebra_simps)
    finally show ?thesis unfolding nx(1) AR [symmetric] .
  qed
  moreover have "0 < bval d" using Suc.prems(3) by linarith
  ultimately show ?case unfolding q1(1) by (simp add: div_mult_self3)
qed

text \<open>A quotient with its sticky bit lies in the cell of the exact quotient.\<close>

lemma quotient_cell256:
  assumes "0 < d"
  shows "same_cell 1 (real (if n mod d \<noteq> 0 then (n div d) OR 1 else n div d)) (real n / real d)"
proof (cases "n mod d = 0")
  case True
  then have "real n / real d = real (n div d)" by (metis real_of_nat_div mod_0_imp_dvd)
  then show ?thesis using True by simp
next
  case False
  have "n = n div d * d + n mod d" by simp
  then have "real n = real (n div d) * real d + real (n mod d)" by (metis of_nat_add of_nat_mult)
  then have e: "real n / real d = real (n div d) + real (n mod d) / real d" using assms by (simp add: field_simps)
  have "0 < real (n mod d) / real d" "real (n mod d) / real d < 1" using False assms by simp_all
  then show ?thesis using False frac_cell_one unfolding e by simp
qed

lemma f256_div_finite:
  assumes fa: "finite256 a" and fb: "finite256 b"
  shows "f256_div_impl m a b tg w = hand_over tg (ieee_div256 m a b) w"
proof -
  have cl: "\<not> is_nan256 a" "\<not> is_inf256 a" "\<not> is_zero256 a" "\<not> is_nan256 b" "\<not> is_inf256 b" "\<not> is_zero256 b"
    using assms by (simp_all add: finite256_def)
  note da = finite256_D [OF fa] and db = finite256_D [OF fb]
  define ea eb where "ea = d_exponent (decode a)" and "eb = d_exponent (decode b)"
  define n d where "n = d_sig (decode a)" and "d = d_sig (decode b)"
  note na = normalisedD [OF da(1), folded n_def] and nb = normalisedD [OF db(1), folded d_def]
  define below where "below \<longleftrightarrow> bval n < bval d"
  define rm e where "rm = (if below then big_shl n 1 else n)" and "e = (if below then ea - eb - 1 else ea - eb)"
  have len: "length n = length d" using na nb by simp
  have cmp: "big_compare n d < 0 \<longleftrightarrow> below" by (simp add: big_compare_sound [OF len] below_def)
  have rv: "bval rm = (if below then 2 * bval n else bval n)" "length rm = 8"
    using na by (simp_all add: rm_def big_shl_sound)
  have rb: "bval d \<le> bval rm" "bval rm < 2 * bval d" using na nb by (auto simp: rv below_def)
  have p1: "(if big_compare n d < 0 then (big_shl n 1, ea - eb - 1) else (n, ea - eb)) = (rm, e)"
    unfolding cmp by (simp add: rm_def e_def)
  obtain rm' q where l: "div_loop 239 d rm (big_none 8) = (rm', q)" by (metis surj_pair)
  define N where "N = bval rm * 2 ^ 239"
  have q: "bval q = N div bval d" "bval rm' = N mod bval d" "length q = 8"
    using div_loop_sound [OF nb(1) rv(2) rb(2) _ _ _ _ l] nb(3) by (simp_all add: N_def)
  define Q where "Q = (if \<not> big_zero rm' then q [0 := q ! 0 OR 1] else q)"
  have ne: "q \<noteq> []" using q(3) by auto
  have Q: "bval Q = (if N mod bval d \<noteq> 0 then (N div bval d) OR 1 else N div bval d)" "length Q = 8"
    using sticky_limb [OF ne] by (simp_all add: Q_def big_zero_sound q)
  have cell: "same_cell 1 (real (bval Q)) (real N / real (bval d))" unfolding Q(1) by (rule quotient_cell256) (rule nb(4))
  have "bval d * 2 ^ 239 \<le> N" unfolding N_def using rb(1) by (rule mult_right_mono) simp
  then have "2 ^ 239 \<le> N div bval d" using nb(4) by (simp add: less_eq_div_iff_mult_less_eq mult.commute)
  then have Qb: "2 ^ 239 \<le> bval Q" unfolding Q(1) nat_or_1 by simp
  have Np: "0 < real N / real (bval d)" using rb(1) nb(4) by (simp add: N_def)
  have x: "real (bval n) * 2 powi (ea - 236) / (real (bval d) * 2 powi (eb - 236)) = real N / real (bval d) * 2 powi (e - 239)"
  proof -
    have "real N * 2 powi (e - 239) = real (bval n) * 2 powi (ea - eb)"
      using powi2_add [of 240 "ea - eb - 240"] powi2_add [of 239 "ea - eb - 239"]
      unfolding N_def rv(1) e_def by (cases below) (simp_all add: powi2_nat)
    moreover have "2 powi (ea - 236) / 2 powi (eb - 236) = (2::real) powi (ea - eb)" using powi2_diff [of "ea - 236" "eb - 236"] by simp
    ultimately show ?thesis by (simp add: field_simps)
  qed
  have v: "val256 a / val256 b = (if sgn256 a \<noteq> sgn256 b then - 1 else 1) * (real N / real (bval d) * 2 powi (e - 239))"
    unfolding val256_def da(2) db(2) sign_quotient ea_def [symmetric] eb_def [symmetric] n_def [symmetric] d_def [symmetric] x ..
  have k: "kFrac + 3 = 239" "e - int kFrac - 3 = e - 239" by (simp_all add: kFrac_def)
  have "pack_scaled (sgn256 a \<noteq> sgn256 b) Q (e - 239) m tg w =
      hand_over tg (round_real256 m (sgn256 a \<noteq> sgn256 b) (val256 a / val256 b)) w"
    by (rule pack_inexact [OF Q(2) Qb cell Np v])
  moreover have "f256_div_impl m a b tg w = pack_scaled (sgn256 a \<noteq> sgn256 b) Q (e - 239) m tg w"
    unfolding f256_div_impl_def Let_def decode_simps ea_def [symmetric] eb_def [symmetric] n_def [symmetric] d_def [symmetric] p1
      split_conv k l Q_def [symmetric] using cl by simp
  moreover have "ieee_div256 m a b = round_real256 m (sgn256 a \<noteq> sgn256 b) (val256 a / val256 b)"
    using cl by (simp add: ieee_div256_def)
  ultimately show ?thesis by simp
qed

lemma f256_div_sound: "f256_div_impl m a b tg w = hand_over tg (ieee_div256 m a b) w"
proof (cases "finite256 a \<and> finite256 b")
  case False
  then consider (nan) "is_nan256 a \<or> is_nan256 b" | (inf) "\<not> is_nan256 a" "\<not> is_nan256 b" "is_inf256 a \<or> is_inf256 b"
    | (zero) "\<not> is_nan256 a" "\<not> is_nan256 b" "\<not> is_inf256 a" "\<not> is_inf256 b" "is_zero256 a \<or> is_zero256 b"
    using special_cases by blast
  then show ?thesis
  proof cases
    case nan
    then show ?thesis by (simp only: f256_div_impl_def ieee_div256_def Let_def decode_simps if_True propagate_nan_sound)
  next
    case inf
    then show ?thesis using zero_not_special
      by (cases "is_inf256 a"; cases "is_inf256 b"; cases "is_zero256 a"; cases "is_zero256 b")
         (simp_all add: f256_div_impl_def ieee_div256_def Let_def hand_over_def)
  next
    case zero
    then show ?thesis
      by (cases "is_zero256 a"; cases "is_zero256 b")
         (simp_all add: f256_div_impl_def ieee_div256_def Let_def hand_over_def zero_val256)
  qed
qed (simp add: f256_div_finite)

section \<open>Square root\<close>

text \<open>
  After the turns down to \<open>n\<close> on the radicand \<open>R\<close>: the root and the remainder are those of the
  consumed prefix \<open>R div 4 ^ n\<close>.
\<close>

definition sqrt_inv :: "nat \<Rightarrow> nat \<Rightarrow> big \<times> big \<Rightarrow> bool" where
  "sqrt_inv R n = (\<lambda>(rm, root).
     length rm = 8 \<and> length root = 8 \<and> bval rm + bval root * bval root = R div 4 ^ n \<and> bval rm \<le> 2 * bval root)"

lemma bit_pair: "R div 4 ^ i mod 4 = 2 * of_bool (bit R (i * 2 + 1)) + of_bool (bit R (i * 2))" for R :: nat
proof -
  have p: "(4::nat) ^ i = 2 ^ (i * 2)" by (simp add: power_mult power2_eq_square flip: power_mult_distrib)
  have "R div 2 ^ (i * 2) mod 4 = R div 2 ^ (i * 2) mod 2 + 2 * (R div 2 ^ (i * 2) div 2 mod 2)"
    using mod_split [of "R div 2 ^ (i * 2)" 1 1] by simp
  moreover have "R div 2 ^ (i * 2) div 2 = R div 2 ^ (i * 2 + 1)" by (simp only: power_add div_mult2_eq power_one_right)
  ultimately show ?thesis unfolding p bit_iff_odd by (simp add: odd_iff_mod_2_eq_one mod2_eq_if)
qed

lemma sqrt_step_inv:
  assumes I: "sqrt_inv (bval rad) (Suc i) st" and lt: "bval rad < 2 ^ 480"
  shows "sqrt_inv (bval rad) i (sqrt_step rad i st)"
proof -
  obtain rm root where st: "st = (rm, root)" by (cases st)
  define R m r where "R = bval rad" and "m = bval rm" and "r = bval root"
  have len: "length rm = 8" "length root = 8" and sq: "m + r * r = R div 4 ^ Suc i" and mle: "m \<le> 2 * r"
    using I by (simp_all add: sqrt_inv_def st R_def m_def r_def)
  have "r * r < 2 ^ 480"
  proof -
    have "r * r \<le> R div 4 ^ Suc i" using sq by linarith
    also have "\<dots> \<le> R" by simp
    finally show ?thesis using lt by (simp add: R_def)
  qed
  then have rlt: "r < 2 ^ 240"
    using mult_le_mono [of "2 ^ 240" r "2 ^ 240" r] by (cases "r < 2 ^ 240") simp_all
  define b1 b0 where "b1 = bit R (i * 2 + 1)" and "b0 = bit R (i * 2)"
  define c where "c = R div 4 ^ i mod 4"
  have c: "c = 2 * of_bool b1 + of_bool b0" unfolding c_def b1_def b0_def by (rule bit_pair)
  have T: "R div 4 ^ i = 4 * (m + r * r) + c"
    unfolding sq c_def by (simp add: div_mult2_eq mult.commute [of 4])
  define rm0 where "rm0 = big_shl rm 2"
  define rm1 where "rm1 = (if big_bit rad (i * 2 + 1) then rm0 [0 := rm0 ! 0 OR 2] else rm0)"
  define rm2 where "rm2 = (if big_bit rad (i * 2) then rm1 [0 := rm1 ! 0 OR 1] else rm1)"
  define t0 where "t0 = big_shl root 2"
  define trial where "trial = t0 [0 := t0 ! 0 OR 1]"
  define root0 where "root0 = big_shl root 1"
  have v0: "bval rm0 = 4 * m" "length rm0 = 8" using mle rlt len by (simp_all add: rm0_def big_shl_sound m_def)
  have l0: "rm0 \<noteq> []" using v0(2) by auto
  have or2: "4 * m OR 2 = 4 * m + 2" using nat_or_disjoint [of "4 * m" 2 2] by simp
  have v1: "bval rm1 = 4 * m + 2 * of_bool b1" "length rm1 = 8"
    using set_low_digit [OF l0, of 2] v0 or2 by (auto simp: rm1_def b1_def big_bit_sound R_def)
  have l1: "rm1 \<noteq> []" using v1(2) by auto
  have v2: "bval rm2 = 4 * m + c" "length rm2 = 8"
    using sticky_limb [OF l1, unfolded nat_or_1 v1(1)] v1 unfolding c rm2_def b0_def big_bit_sound R_def by auto
  have tv: "bval t0 = 4 * r" "length t0 = 8" using rlt len by (simp_all add: t0_def big_shl_sound r_def)
  have lt0: "t0 \<noteq> []" using tv(2) by auto
  have trv: "bval trial = 4 * r + 1" "length trial = 8"
    using sticky_limb [OF lt0, unfolded nat_or_1 tv(1)] tv(2) by (simp_all add: trial_def)
  have r0: "bval root0 = 2 * r" "length root0 = 8" using rlt len by (simp_all add: root0_def big_shl_sound r_def)
  have lr0: "root0 \<noteq> []" using r0(2) by auto
  have r1: "bval (root0 [0 := root0 ! 0 OR 1]) = 2 * r + 1" using sticky_limb [OF lr0, unfolded nat_or_1 r0(1)] by simp
  have c3: "c \<le> 3" unfolding c by simp
  have step: "sqrt_step rad i st = (if 0 \<le> big_compare rm2 trial then (big_sub rm2 trial, root0 [0 := root0 ! 0 OR 1]) else (rm2, root0))"
    unfolding sqrt_step_def st split_conv Let_def rm0_def [symmetric] rm1_def [symmetric] rm2_def [symmetric]
      t0_def [symmetric] trial_def [symmetric] root0_def [symmetric] ..
  have ge: "0 \<le> big_compare rm2 trial \<longleftrightarrow> 4 * r + 1 \<le> 4 * m + c"
    using big8.ge [of rm2 trial] v2 trv by simp
  show ?thesis
  proof (cases "4 * r + 1 \<le> 4 * m + c")
    case True
    then obtain k where k: "4 * m + c = 4 * r + 1 + k" using le_Suc_ex by blast
    then have s: "bval (big_sub rm2 trial) = k" "length (big_sub rm2 trial) = 8"
      using big8.minus [of rm2 trial] v2 trv by simp_all
    have "k + (2 * r + 1) * (2 * r + 1) = 4 * (m + r * r) + c"
      using k by (simp add: distrib_left distrib_right)
    moreover have "k \<le> 2 * (2 * r + 1)"
    proof -
      have "4 * r + 1 + k \<le> 4 * (2 * r) + 3" unfolding k [symmetric] using mle c3 by (intro add_le_mono mult_le_mono2)
      then show ?thesis by simp
    qed
    ultimately show ?thesis unfolding step using True ge s r0 r1 T by (simp only: if_True sqrt_inv_def split_conv R_def length_list_update simp_thms)
  next
    case False
    then show ?thesis unfolding step using ge v2 r0 T by (simp add: sqrt_inv_def R_def algebra_simps)
  qed
qed

lemma sqrt_loop_inv: "sqrt_inv (bval rad) n st \<Longrightarrow> bval rad < 2 ^ 480 \<Longrightarrow> sqrt_inv (bval rad) 0 (sqrt_loop rad n st)"
proof (induction n arbitrary: st)
  case (Suc n)
  then show ?case using sqrt_step_inv by simp
qed simp

lemma root_cell:
  assumes "m + r * r = R" "m \<le> 2 * r"
  shows "same_cell 1 (real (if m \<noteq> 0 then r OR 1 else r)) (sqrt (real R))"
proof (cases "m = 0")
  case True
  then have "sqrt (real R) = real r" using assms(1) by (metis add_0 of_nat_0_le_iff of_nat_mult real_sqrt_abs2 abs_of_nonneg)
  then show ?thesis using True by simp
next
  case False
  have "real r * real r < real R" "real R < (real r + 1) * (real r + 1)"
    using assms False by (simp_all add: algebra_simps flip: assms(1))
  then have "real r < sqrt (real R)" "sqrt (real R) < real r + 1"
    by (simp_all add: real_less_rsqrt power2_eq_square real_less_lsqrt)
  then show ?thesis using False frac_cell_one [of "sqrt (real R) - real r" r] by simp
qed

lemma f256_sqrt_finite:
  assumes fx: "finite256 x" and pos: "\<not> sgn256 x"
  shows "f256_sqrt_impl m x tg w = hand_over tg (ieee_sqrt256 m x) w"
proof -
  have cl: "\<not> is_nan256 x" "\<not> is_inf256 x" "\<not> is_zero256 x" using fx by (simp_all add: finite256_def)
  note d = finite256_D [OF fx]
  define ex where "ex = d_exponent (decode x)"
  define g where "g = d_sig (decode x)"
  note n = normalisedD [OF d(1), folded g_def]
  define sig e where "sig = (if odd ex then big_shl g 1 else g)" and "e = (if odd ex then ex - 1 else ex)"
  have sv: "bval sig = (if odd ex then 2 * bval g else bval g)" "length sig = 8" using n by (simp_all add: sig_def big_shl_sound)
  have sb: "2 ^ 236 \<le> bval sig" "bval sig < 2 ^ 238" using n by (auto simp: sv)
  have ev: "even e" by (simp add: e_def)
  then obtain h where h: "e = 2 * h" by blast
  define rad where "rad = big_shl sig 242"
  have "bval sig * 2 ^ 242 < 2 ^ 238 * 2 ^ 242" using sb(2) by (intro mult_strict_right_mono) simp_all
  then have rl: "bval sig * 2 ^ 242 < 2 ^ 480" by (simp flip: power_add)
  then have R: "bval rad = bval sig * 2 ^ 242" by (simp add: rad_def big_shl_sound sv(2))
  obtain rm root where l: "sqrt_loop rad 240 (big_none 8, big_none 8) = (rm, root)" by (metis surj_pair)
  have "sqrt_inv (bval rad) 240 (big_none 8, big_none 8)"
  proof -
    have "(4::nat) ^ 240 = 2 ^ 480" by simp
    then show ?thesis using rl unfolding R sqrt_inv_def by simp
  qed
  then have "sqrt_inv (bval rad) 0 (rm, root)" unfolding l [symmetric] by (rule sqrt_loop_inv) (use rl R in simp)
  then have I: "length rm = 8" "length root = 8" "bval rm + bval root * bval root = bval rad" "bval rm \<le> 2 * bval root"
    by (simp_all add: sqrt_inv_def)
  define Q where "Q = (if \<not> big_zero rm then root [0 := root ! 0 OR 1] else root)"
  have ne: "root \<noteq> []" using I(2) by auto
  have Q: "bval Q = (if bval rm \<noteq> 0 then bval root OR 1 else bval root)" "length Q = 8"
    using sticky_limb [OF ne] I(2) by (simp_all add: Q_def big_zero_sound)
  have cell: "same_cell 1 (real (bval Q)) (sqrt (real (bval rad)))" unfolding Q(1) by (rule root_cell [OF I(3,4)])
  have "2 ^ 236 * 2 ^ 242 \<le> bval rad" unfolding R using sb(1) by (rule mult_right_mono) simp
  then have Rge: "2 ^ 239 * 2 ^ 239 \<le> bval rad" by simp
  have "2 ^ 239 \<le> bval root"
  proof (rule ccontr)
    assume "\<not> 2 ^ 239 \<le> bval root"
    then have le: "bval root + 1 \<le> 2 ^ 239" by simp
    have "(bval root + 1) * (bval root + 1) \<le> 2 ^ 239 * 2 ^ 239" by (rule mult_le_mono [OF le le])
    then have "bval rm + bval root * bval root < 2 ^ 239 * 2 ^ 239" using I(4) by (simp add: algebra_simps)
    then show False using Rge unfolding I(3) by simp
  qed
  then have Qb: "2 ^ 239 \<le> bval Q" unfolding Q(1) nat_or_1 by simp
  have Rp: "0 < sqrt (real (bval rad))" using Rge by (simp add: Suc_le_eq)
  have "val256 x = real (bval g) * 2 powi (ex - 236)" using pos unfolding val256_def d(2) g_def ex_def by simp
  also have "\<dots> = real (bval sig) * 2 powi (e - 236)"
    using powi2_add [of 1 "ex - 237"] unfolding sv(1) e_def by (cases "odd ex") (simp_all add: algebra_simps)
  also have "\<dots> = real (bval rad) * 2 powi (e - 478)"
    using powi2_add [of 242 "e - 478"] unfolding R by (simp add: powi2_nat)
  also have "e - 478 = (h - 239) + (h - 239)" unfolding h by simp
  finally have vx: "val256 x = real (bval rad) * (2 powi (h - 239) * 2 powi (h - 239))" unfolding powi2_add .
  have v: "sqrt (val256 x) = (if False then - 1 else 1) * (sqrt (real (bval rad)) * 2 powi (h - 239))"
    unfolding vx by (simp add: real_sqrt_mult)
  have k: "kFrac + 6 = 242" "kFrac + 4 = 240" "e div 2 - int kFrac - 3 = h - 239" by (simp_all add: kFrac_def h)
  have p1: "(if odd ex then (big_shl g 1, ex - 1) else (g, ex)) = (sig, e)" by (simp add: sig_def e_def)
  have "pack_scaled False Q (h - 239) m tg w = hand_over tg (round_real256 m False (sqrt (val256 x))) w"
    by (rule pack_inexact [OF Q(2) Qb cell Rp v])
  moreover have "f256_sqrt_impl m x tg w = pack_scaled False Q (h - 239) m tg w"
    unfolding f256_sqrt_impl_def Let_def decode_simps ex_def [symmetric] g_def [symmetric] p1 split_conv k
      rad_def [symmetric] l Q_def [symmetric] using cl pos by simp
  moreover have "ieee_sqrt256 m x = round_real256 m False (sqrt (val256 x))" using cl pos by (simp add: ieee_sqrt256_def)
  ultimately show ?thesis by simp
qed

lemma f256_sqrt_sound: "f256_sqrt_impl m x tg w = hand_over tg (ieee_sqrt256 m x) w"
proof (cases "finite256 x \<and> \<not> sgn256 x")
  case False
  then consider "is_nan256 x" | "\<not> is_nan256 x" "is_zero256 x" | "\<not> is_nan256 x" "\<not> is_zero256 x" "sgn256 x"
    | "\<not> is_nan256 x" "\<not> is_zero256 x" "\<not> sgn256 x" "is_inf256 x"
    by (auto simp: finite256_def)
  then show ?thesis
    by cases (simp_all add: f256_sqrt_impl_def ieee_sqrt256_def Let_def hand_over_def propagate_nan_sound)
qed (simp add: f256_sqrt_finite)

section \<open>Fused multiply-add\<close>

lemma signed_sum_commute:
  assumes "length fa = 8" "length fb = 8" "bval fa < 2 ^ 511" "bval fb < 2 ^ 511"
  shows "signed_sum sa fa sb fb scale m tg w = signed_sum sb fb sa fa scale m tg w"
proof -
  have "big_add fa fb = big_add fb fa"
    using assms by (intro bval_inj) (simp_all add: big_add_sound add.commute)
  then show ?thesis using assms by (auto simp: signed_sum_def big_compare_sound)
qed

text \<open>
  One operand is the exact \<open>D\<close>, even and at least \<open>2 ^ 509\<close>; the other is the far smaller \<open>J\<close>, shifted
  right with jamming from the exact \<open>y\<close>.
\<close>

lemma signed_sum_cell:
  assumes len: "length D = 8" "length J = 8" and Db: "2 ^ 509 \<le> bval D" "bval D < 2 ^ 510" "even (bval D)"
    and J: "bval J < 2 ^ 475" and c: "same_cell 1 (real (bval J)) y" "0 < y"
    and v: "v = (if sd then - 1 else 1) * (real (bval D) * 2 powi scale) + (if sj then - 1 else 1) * (y * 2 powi scale)"
  shows "signed_sum sd D sj J scale m tg w = hand_over tg (round_real256 m (m = SF64_RDN) v) w"
proof -
  have l: "length D = length J" using len by simp
  obtain h where h: "bval D = h * 2" using Db(3) by (metis evenE mult.commute)
  then have dh: "real (bval D) = real_of_int (int h) * 2 ^ 1" by simp
  have yb: "y < 2 ^ 475"
    using same_cell_less_iff [OF c(1), of "2 ^ 474"] J by (simp add: of_nat_less_numeral_iff)
  show ?thesis
  proof (cases "sd = sj")
    case True
    have s: "bval (big_add D J) = bval D + bval J" "length (big_add D J) = 8"
      using big_add_sound [OF l] Db(2) J len by simp_all
    have "same_cell 1 (real (bval D) + real (bval J)) (real (bval D) + y)" unfolding dh by (rule same_cell_add [OF c(1)])
    then have cell: "same_cell 1 (real (bval (big_add D J))) (real (bval D) + y)" unfolding s(1) by simp
    have "pack_scaled sd (big_add D J) scale m tg w = hand_over tg (round_real256 m (m = SF64_RDN) v) w"
      by (rule pack_inexact [OF s(2) _ cell]) (use s Db c(2) v True in \<open>simp_all add: algebra_simps\<close>)
    then show ?thesis using True by (simp add: signed_sum_def)
  next
    case False
    have gt: "bval J < bval D" using J Db(1) by simp
    have s: "bval (big_sub D J) = bval D - bval J" "length (big_sub D J) = 8"
      using big_sub_le [OF l] big_sub_sound(2) [OF l] gt len by simp_all
    have "same_cell 1 (real (bval D) + - real (bval J)) (real (bval D) + - y)"
      unfolding dh by (rule same_cell_add [OF same_cell_minus [OF c(1)]])
    then have cell: "same_cell 1 (real (bval (big_sub D J))) (real (bval D) - y)" unfolding s(1) using gt by (simp add: of_nat_diff)
    have lo: "2 ^ 239 \<le> bval (big_sub D J)" unfolding s(1) using Db(1) J by simp
    have "real (2 ^ 509) \<le> real (bval D)" unfolding of_nat_le_iff by (rule Db(1))
    then have "(2::real) ^ 509 \<le> real (bval D)" by (simp only: of_nat_power of_nat_numeral)
    then have pos: "0 < real (bval D) - y" using yb by simp
    have "pack_scaled sd (big_sub D J) scale m tg w = hand_over tg (round_real256 m (m = SF64_RDN) v) w"
      by (rule pack_inexact [OF s(2) lo cell pos]) (use v False in \<open>simp add: algebra_simps\<close>)
    then show ?thesis using False gt by (simp add: signed_sum_def big_compare_sound [OF l])
  qed
qed

text \<open>Framing at \<open>common\<close>: exact above it, jammed below.\<close>

lemma frame_up:
  assumes "length a = 8" "0 < bval a" "common \<le> sc" "bval a * 2 ^ nat (sc - common) < 2 ^ 512"
  shows "bval (frame a sc common) = bval a * 2 ^ nat (sc - common)" "length (frame a sc common) = 8"
    "real (bval (frame a sc common)) * 2 powi common = real (bval a) * 2 powi sc"
proof -
  show v: "bval (frame a sc common) = bval a * 2 ^ nat (sc - common)" "length (frame a sc common) = 8"
    using assms by (simp_all add: frame_def Let_def big_zero_sound big_shl_sound)
  show "real (bval (frame a sc common)) * 2 powi common = real (bval a) * 2 powi sc"
    unfolding v using powi2_add [of "sc - common" common] assms(3) by (simp add: powi2_nat)
qed

lemma frame_down:
  assumes "length a = 8" "0 < bval a" "sc < common"
  shows "bval (frame a sc common) = jam (bval a) (nat (common - sc))" "length (frame a sc common) = 8"
    "real (bval a) / 2 ^ nat (common - sc) * 2 powi common = real (bval a) * 2 powi sc"
proof -
  have ne: "a \<noteq> []" using assms(1) by auto
  show "bval (frame a sc common) = jam (bval a) (nat (common - sc))" "length (frame a sc common) = 8"
    using assms big_shr_jam_sound [OF ne] by (simp_all add: frame_def Let_def big_zero_sound)
  show "real (bval a) / 2 ^ nat (common - sc) * 2 powi common = real (bval a) * 2 powi sc"
    using powi2_add [of "common - sc" sc] assms(3) by (simp add: powi2_nat)
qed

text \<open>\<open>D\<close> has the higher leading bit, which the frame puts at bit 509.\<close>

lemma frames_sum:
  assumes D: "length D = 8" "2 ^ kd \<le> bval D" "bval D < 2 ^ Suc kd" "kd \<le> 473"
    and T: "length T = 8" "2 ^ kt \<le> bval T" "bval T < 2 ^ Suc kt" "kt \<le> 473"
    and top: "tc + int kt \<le> dc + int kd"
  defines "common \<equiv> dc + int kd - 509"
  shows "signed_sum sd (frame D dc common) st (frame T tc common) common m tg w =
    hand_over tg (round_real256 m (m = SF64_RDN)
      ((if sd then - 1 else 1) * (real (bval D) * 2 powi dc) + (if st then - 1 else 1) * (real (bval T) * 2 powi tc))) w"
    "length (frame D dc common) = 8" "length (frame T tc common) = 8"
    "bval (frame D dc common) < 2 ^ 511" "bval (frame T tc common) < 2 ^ 511"
proof -
  have pD: "0 < bval D" and pT: "0 < bval T"
    using D(2) T(2) by (metis less_le_trans zero_less_numeral zero_less_power)+
  have cd: "common \<le> dc" "nat (dc - common) = 509 - kd" using D(4) by (simp_all add: common_def)
  have "2 ^ kd * 2 ^ (509 - kd) \<le> bval D * 2 ^ (509 - kd)" "bval D * 2 ^ (509 - kd) < 2 ^ Suc kd * 2 ^ (509 - kd)"
    using D(2,3) by (intro mult_right_mono mult_strict_right_mono; simp)+
  then have db: "2 ^ 509 \<le> bval D * 2 ^ nat (dc - common)" "bval D * 2 ^ nat (dc - common) < 2 ^ 510"
    unfolding cd(2) power_add [symmetric] using D(4) by simp_all
  note fD = frame_up [OF D(1) pD cd(1) less_trans [OF db(2)], simplified]
  have ev: "even (bval (frame D dc common))" unfolding fD(1) cd(2) using D(4) by simp
  have lenD: "length (frame D dc common) = 8" and ltD: "bval (frame D dc common) < 2 ^ 511"
    using fD db(2) by simp_all
  have "signed_sum sd (frame D dc common) st (frame T tc common) common m tg w =
    hand_over tg (round_real256 m (m = SF64_RDN)
      ((if sd then - 1 else 1) * (real (bval D) * 2 powi dc) + (if st then - 1 else 1) * (real (bval T) * 2 powi tc))) w
    \<and> length (frame T tc common) = 8 \<and> bval (frame T tc common) < 2 ^ 511"
  proof (cases "common \<le> tc")
    case True
    have k: "nat (tc - common) \<le> 509 - kt" using top T(4) by (simp add: common_def)
    have "bval T * 2 ^ nat (tc - common) < 2 ^ Suc kt * 2 ^ (509 - kt)"
      using T(3) k by (intro mult_less_le_imp_less power_increasing) simp_all
    then have tb: "bval T * 2 ^ nat (tc - common) < 2 ^ 510"
      unfolding power_add [symmetric] using T(4) by simp
    note fT = frame_up [OF T(1) pT True less_trans [OF tb], simplified]
    have ltT: "bval (frame T tc common) < 2 ^ 511" using fT tb by simp
    have "0 < bval (frame D dc common)" unfolding fD(1) using pD by simp
    then show ?thesis using signed_sum_exact [OF lenD fT(2) ltD ltT _ refl, where sa = sd and scale = common and sb = st and m = m and tg = tg and w = w] fT ltT
      unfolding fD(3) fT(3) by simp
  next
    case False
    then have lt: "tc < common" by simp
    note fT = frame_down [OF T(1) pT lt]
    define c where "c = nat (common - tc)"
    have "bval T < 2 ^ (474 + c)"
    proof -
      have "(2::nat) ^ Suc kt \<le> 2 ^ (474 + c)" using T(4) by (intro power_increasing) simp_all
      then show ?thesis using T(3) by linarith
    qed
    then have J: "bval (frame T tc common) < 2 ^ 474" unfolding fT(1) c_def [symmetric] by (intro jam_less) simp_all
    have cell: "same_cell 1 (real (bval (frame T tc common))) (real (bval T) / 2 ^ c)" unfolding fT(1) c_def by (rule jam_cell) simp
    have pos: "0 < real (bval T) / 2 ^ c" using pT by simp
    have "signed_sum sd (frame D dc common) st (frame T tc common) common m tg w =
      hand_over tg (round_real256 m (m = SF64_RDN)
        ((if sd then - 1 else 1) * (real (bval D) * 2 powi dc) + (if st then - 1 else 1) * (real (bval T) * 2 powi tc))) w"
    proof (rule signed_sum_cell [OF lenD fT(2) _ _ ev _ cell pos])
      show "2 ^ 509 \<le> bval (frame D dc common)" "bval (frame D dc common) < 2 ^ 510" unfolding fD(1) by (rule db)+
      show "bval (frame T tc common) < 2 ^ 475" using J by simp
      show "(if sd then - 1 else 1) * (real (bval D) * 2 powi dc) + (if st then - 1 else 1) * (real (bval T) * 2 powi tc) =
          (if sd then - 1 else 1) * (real (bval (frame D dc common)) * 2 powi common) +
          (if st then - 1 else 1) * (real (bval T) / 2 ^ c * 2 powi common)"
        unfolding fD(3) c_def fT(3) ..
    qed
    then show ?thesis using fT(2) J by simp
  qed
  then show "signed_sum sd (frame D dc common) st (frame T tc common) common m tg w =
    hand_over tg (round_real256 m (m = SF64_RDN)
      ((if sd then - 1 else 1) * (real (bval D) * 2 powi dc) + (if st then - 1 else 1) * (real (bval T) * 2 powi tc))) w"
    "length (frame D dc common) = 8" "length (frame T tc common) = 8"
    "bval (frame D dc common) < 2 ^ 511" "bval (frame T tc common) < 2 ^ 511" using lenD ltD by blast+
qed

definition ieee_fma256 :: "sf64_rounding_mode \<Rightarrow> sf256 \<Rightarrow> sf256 \<Rightarrow> sf256 \<Rightarrow> sf256 \<times> u32" where
  "ieee_fma256 m a b c =
     (let s = (sgn256 a \<noteq> sgn256 b)
      in if is_nan256 a \<or> is_nan256 b then nan256_of a b
         else if is_nan256 c then nan256_of c c
         else if is_inf256 a \<and> is_zero256 b \<or> is_zero256 a \<and> is_inf256 b then (nan256, SF64_FE_INVALID)
         else if is_inf256 a \<or> is_inf256 b then
           (if is_inf256 c \<and> (sgn256 c \<longleftrightarrow> \<not> s) then (nan256, SF64_FE_INVALID) else (inf256 s, 0))
         else if is_inf256 c then (c, 0)
         else round_real256 m
                (if (is_zero256 a \<or> is_zero256 b) \<and> is_zero256 c \<and> (s \<longleftrightarrow> sgn256 c) then s else m = SF64_RDN)
                (val256 a * val256 b + val256 c))"

lemma f256_fma_finite:
  assumes fa: "finite256 a" and fb: "finite256 b" and fc: "finite256 c"
  shows "f256_fma_impl m a b c tg w = hand_over tg (round_real256 m (m = SF64_RDN) (val256 a * val256 b + val256 c)) w"
proof -
  have cl: "\<not> is_nan256 a" "\<not> is_inf256 a" "\<not> is_zero256 a" "\<not> is_nan256 b" "\<not> is_inf256 b" "\<not> is_zero256 b"
    "\<not> is_nan256 c" "\<not> is_inf256 c" "\<not> is_zero256 c"
    using assms by (simp_all add: finite256_def)
  note da = finite256_D [OF fa] and db = finite256_D [OF fb] and dc = finite256_D [OF fc]
  define ps where "ps = d_exponent (decode a) + d_exponent (decode b) - 2 * int kFrac"
  define cs where "cs = d_exponent (decode c) - int kFrac"
  define s where "s \<longleftrightarrow> sgn256 a \<noteq> sgn256 b"
  define P where "P = big_multiply (big_widen 4 (d_sig (decode a))) (big_widen 4 (d_sig (decode b)))"
  define C where "C = d_sig (decode c)"
  note p = narrow_product [OF da(1) db(1), folded P_def]
  note na = normalisedD [OF da(1)] and nb = normalisedD [OF db(1)] and nc = normalisedD [OF dc(1), folded C_def]
  have pP: "0 < bval P" using na(4) nb(4) by (simp add: p)
  have "bval P < 2 ^ 237 * 2 ^ 237" unfolding p using na(3) nb(3) by (intro mult_strict_mono) simp_all
  then have Pl: "bval P < 2 ^ 474" by (simp flip: power_add)
  obtain hp where hp: "big_highest P = int hp" "2 ^ hp \<le> bval P" "bval P < 2 ^ Suc hp"
    using big_highest_sound(2) [OF pP] by auto
  obtain hc where hc: "big_highest C = int hc" "2 ^ hc \<le> bval C" "bval C < 2 ^ Suc hc"
    using big_highest_sound(2) [OF nc(4)] by auto
  have "(2::nat) ^ hp < 2 ^ 474" "(2::nat) ^ hc < 2 ^ 237" using hp hc Pl nc(3) by linarith+
  then have hl: "hp \<le> 473" "hc \<le> 473" 
    using power_less_imp_less_exp [of "2::nat" hp 474] power_less_imp_less_exp [of "2::nat" hc 237] by simp_all
  have vp: "val256 a * val256 b = (if s then - 1 else 1) * (real (bval P) * 2 powi ps)"
  proof -
    have e: "2 powi (d_exponent (decode a) - 236) * 2 powi (d_exponent (decode b) - 236) = (2::real) powi ps"
      unfolding powi2_add [symmetric] ps_def by (simp add: kFrac_def)
    have "real (bval (d_sig (decode a))) * 2 powi (d_exponent (decode a) - 236) *
        (real (bval (d_sig (decode b))) * 2 powi (d_exponent (decode b) - 236)) = real (bval P) * 2 powi ps"
      unfolding p of_nat_mult e [symmetric] by simp
    then show ?thesis unfolding val256_def da(2) db(2) sign_product s_def by simp
  qed
  have vc: "val256 c = (if sgn256 c then - 1 else 1) * (real (bval C) * 2 powi cs)"
    unfolding val256_def dc(2) C_def cs_def by (simp add: kFrac_def)
  define top where "top = (if ps + big_highest P > cs + big_highest C then ps + big_highest P else cs + big_highest C)"
  define common where "common = top - 509"
  define pf cf where "pf = frame P ps common" and "cf = frame C cs common"
  have c: "\<not> (is_nan256 a \<or> is_nan256 b \<or> is_nan256 c)" "\<not> (is_inf256 a \<and> is_zero256 b \<or> is_inf256 b \<and> is_zero256 a)"
    "\<not> (is_inf256 a \<or> is_inf256 b)" "\<not> is_inf256 c" "\<not> (is_zero256 a \<or> is_zero256 b)" "\<not> is_zero256 c"
    using cl by simp_all
  have code: "f256_fma_impl m a b c tg w = signed_sum s pf (sgn256 c) cf common m tg w"
    unfolding f256_fma_impl_def Let_def decode_simps c [THEN if_not_P] ps_def [symmetric] cs_def [symmetric] s_def [symmetric]
      P_def [symmetric] C_def [symmetric] top_def [symmetric] common_def [symmetric] pf_def [symmetric] cf_def [symmetric]
      signed_sum_def special_values ..
  have "signed_sum s pf (sgn256 c) cf common m tg w =
      hand_over tg (round_real256 m (m = SF64_RDN) (val256 a * val256 b + val256 c)) w"
  proof (cases "ps + int hp > cs + int hc")
    case True
    have cm: "common = ps + int hp - 509" using True by (simp add: common_def top_def hp hc)
    have "cs + int hc \<le> ps + int hp" using True by simp
    note fs = frames_sum [OF p(2) hp(2,3) hl(1) nc(1) hc(2,3) hl(2) this]
    show ?thesis using fs(1) [of s "sgn256 c" m tg w] unfolding vp vc pf_def cf_def cm .
  next
    case False
    have cm: "common = cs + int hc - 509" using False by (simp add: common_def top_def hp hc)
    have "ps + int hp \<le> cs + int hc" using False by simp
    note fs = frames_sum [OF nc(1) hc(2,3) hl(2) p(2) hp(2,3) hl(1) this]
    have "signed_sum s pf (sgn256 c) cf common m tg w = signed_sum (sgn256 c) cf s pf common m tg w"
      unfolding pf_def cf_def cm by (rule signed_sum_commute) (rule fs)+
    then show ?thesis using fs(1) [of "sgn256 c" s m tg w] unfolding vp vc pf_def cf_def cm by (simp only: add.commute)
  qed
  then show ?thesis unfolding code .
qed

lemma enc_zero256 [simp]: "is_zero256 (enc256 s 0)" "sgn256 (enc256 s 0) = s" "val256 (enc256 s 0) = 0"
  "\<not> is_nan256 (enc256 s 0)" "\<not> is_inf256 (enc256 s 0)"
  by (simp_all add: class256 val256_def fval256_def einf256_def)

lemma add_zero256:
  assumes "\<not> is_nan256 c" "\<not> is_inf256 c"
  shows "f256_add_impl m (enc256 s 0) c tg w =
    hand_over tg (round_real256 m (if is_zero256 c \<and> (s \<longleftrightarrow> sgn256 c) then s else m = SF64_RDN) (val256 c)) w"
proof -
  have "\<not> finite256 (enc256 s 0) \<or> \<not> finite256 c" by (simp add: finite256_def)
  then have "f256_add_impl m (enc256 s 0) c tg w = hand_over tg (ieee_add256 m (enc256 s 0) c) w" by (rule f256_add_special)
  then show ?thesis using assms by (simp add: ieee_add256_def)
qed

lemma f256_fma_sound: "f256_fma_impl m a b c tg w = hand_over tg (ieee_fma256 m a b c) w"
proof -
  define s where "s \<longleftrightarrow> sgn256 a \<noteq> sgn256 b"
  consider (nan) "is_nan256 a \<or> is_nan256 b" | (nanc) "\<not> is_nan256 a" "\<not> is_nan256 b" "is_nan256 c"
    | (inf) "\<not> is_nan256 a" "\<not> is_nan256 b" "\<not> is_nan256 c" "is_inf256 a \<or> is_inf256 b"
    | (infc) "\<not> is_nan256 a" "\<not> is_nan256 b" "\<not> is_nan256 c" "\<not> is_inf256 a" "\<not> is_inf256 b" "is_inf256 c"
    | (zero) "\<not> is_nan256 a" "\<not> is_nan256 b" "\<not> is_nan256 c" "\<not> is_inf256 a" "\<not> is_inf256 b" "\<not> is_inf256 c" "is_zero256 a \<or> is_zero256 b"
    | (zeroc) "finite256 a" "finite256 b" "is_zero256 c"
    | (fin) "finite256 a" "finite256 b" "finite256 c"
    using zero_not_special by (auto simp: finite256_def)
  then show ?thesis
  proof cases
    case nan
    then show ?thesis
      by (auto simp: f256_fma_impl_def ieee_fma256_def Let_def propagate_nan_sound hand_over_def split_beta)
  next
    case nanc
    then show ?thesis
      by (simp add: f256_fma_impl_def ieee_fma256_def Let_def propagate_nan_sound hand_over_def nan256_of_def is_snan256_def)
  next
    case inf
    have z: "is_inf256 a \<Longrightarrow> \<not> is_zero256 a" "is_inf256 b \<Longrightarrow> \<not> is_zero256 b" using zero_not_special by blast+
    show ?thesis using inf z
      by (cases "is_inf256 a \<and> is_zero256 b \<or> is_inf256 b \<and> is_zero256 a"; cases "is_inf256 c \<and> sgn256 c \<noteq> s")
         (auto simp: f256_fma_impl_def ieee_fma256_def Let_def hand_over_def s_def)
  next
    case infc
    then show ?thesis by (simp add: f256_fma_impl_def ieee_fma256_def Let_def hand_over_def)
  next
    case zero
    have "val256 a * val256 b = 0" using zero(7) zero_val256 by auto
    then have v: "val256 a * val256 b + val256 c = val256 c" by simp
    have "f256_fma_impl m a b c tg w = f256_add_impl m (enc256 s 0) c tg w"
      using zero by (simp add: f256_fma_impl_def Let_def s_def)
    also have "\<dots> = hand_over tg (round_real256 m (if is_zero256 c \<and> (s \<longleftrightarrow> sgn256 c) then s else m = SF64_RDN) (val256 c)) w"
      using zero by (intro add_zero256)
    finally show ?thesis using zero unfolding ieee_fma256_def Let_def v s_def [symmetric] by simp
  next
    case zeroc
    note da = finite256_D [OF zeroc(1)] and db = finite256_D [OF zeroc(2)]
    have cl: "\<not> is_nan256 a" "\<not> is_inf256 a" "\<not> is_zero256 a" "\<not> is_nan256 b" "\<not> is_inf256 b" "\<not> is_zero256 b"
      "\<not> is_nan256 c" "\<not> is_inf256 c" using zeroc zero_not_special by (simp_all add: finite256_def)
    have nz: "0 < bval (d_sig (decode a)) * bval (d_sig (decode b))" using normalisedD(4) [OF da(1)] normalisedD(4) [OF db(1)] by simp
    then have "\<And>z z'. round_real256 m z (val256 a * val256 b) = round_real256 m z' (val256 a * val256 b)"
      using cl by (simp add: round_real256_def val256_def fval256_pos is_zero256_def)
    moreover have "f256_fma_impl m a b c tg w = f256_mul_impl m a b tg w"
      using cl zeroc(3) by (simp add: f256_fma_impl_def f256_mul_impl_def Let_def)
    ultimately show ?thesis
      using cl zeroc(3) unfolding f256_mul_sound by (simp add: ieee_fma256_def ieee_mul256_def Let_def zero_val256)
        (metis (no_types))
  next
    case fin
    then show ?thesis unfolding f256_fma_finite [OF fin] by (simp add: ieee_fma256_def Let_def finite256_def)
  qed
qed

end
