(* ===== verification/Sf_F256_Conv.thy ===== *)
theory Sf_F256_Conv
  imports Sf_F256_Arith Sf_Convert
begin

text \<open>
  Rounding to integers, remainder, conversions and comparisons of \<open>src/fp256/soft_f256.cpp\<close>.
\<close>

section \<open>Exact results\<close>

lemma representable256:
  assumes N: "0 < N" "N < 2 ^ 237" and q: "qmin256 \<le> q"
  shows "\<exists>n. fval256 n = real N * 2 powi q"
proof -
  obtain h where h: "2 ^ h \<le> N" "N < 2 ^ Suc h" using pow2_interval [OF N(1)] by blast
  have "(2::nat) ^ h < 2 ^ 237" using h(1) N(2) by linarith
  then have h236: "h \<le> 236" using power_less_imp_less_exp [of "2::nat" h 237] by simp
  define j where "j = nat (q - qmin256)"
  define c where "c = min j (236 - h)"
  have c: "c \<le> j" "c \<le> 236 - h" by (simp_all add: c_def)
  have qj: "q = qmin256 + int j" using q by (simp add: j_def)
  have "N * 2 ^ c < 2 ^ Suc h * 2 ^ c" using h(2) by (intro mult_strict_right_mono) simp_all
  also have "\<dots> \<le> 2 ^ 237" unfolding power_add [symmetric] using c(2) h236 by (intro power_increasing) simp_all
  finally have lt: "N * 2 ^ c < 2 ^ 237" .
  have ge: "2 ^ 236 \<le> N * 2 ^ c" if "0 < j - c"
  proof -
    have "c = 236 - h" using that unfolding c_def by (simp add: min_def split: if_splits)
    then have "2 ^ 236 = 2 ^ h * (2::nat) ^ c" using h236 by (simp flip: power_add)
    then show ?thesis using mult_le_mono1 [OF h(1), of "2 ^ c"] by simp
  qed
  have "fval256 ((j - c) * 2 ^ 236 + N * 2 ^ c) = real (N * 2 ^ c) * 2 powi (qmin256 + int (j - c))"
    unfolding fval256_def using lt ge by (intro mag_val_encode) simp_all
  also have "qmin256 + int (j - c) = q - int c" unfolding qj using c(1) by simp
  also have "real (N * 2 ^ c) * 2 powi (q - int c) = real N * 2 powi q" by (simp add: powi2_diff powi2_nat)
  finally show ?thesis by blast
qed

lemma round256_exact:
  assumes "fval256 n = x" "0 < n" "n < einf256 * 2 ^ 236"
  shows "round256 m s x = (n, 0)"
proof -
  have "round_mag 236 qmin256 m s x = n" unfolding assms(1) [symmetric] fval256_def using assms(2) by (rule round_mag_mag_val)
  then show ?thesis using assms by (simp add: round256_def ieee_round_late_def fval256_def)
qed

lemma fval256_less_iff [simp]: "fval256 m < fval256 n \<longleftrightarrow> m < n"
  by (simp add: fval256_def)

lemma fval256_grid: "\<exists>K. fval256 n = real K * 2 powi qmin256"
proof -
  obtain d k where n: "n = d * 2 ^ 236 + k" "k < 2 ^ Suc 236" "0 < d \<Longrightarrow> 2 ^ 236 \<le> k"
    using mag_decompose [of n 236] by metis
  have "fval256 n = real k * 2 powi (qmin256 + int d)"
    unfolding fval256_def n(1) using n(2,3) by (intro mag_val_encode) simp_all
  also have "\<dots> = real (k * 2 ^ d) * 2 powi qmin256" by (simp add: powi2_add powi2_nat)
  finally show ?thesis by blast
qed

text \<open>A value of at most 237 bits on the format's grid, below a finite one, is a datum.\<close>

lemma exact_datum:
  assumes x: "x = real N * 2 powi q" "N < 2 ^ 237" and grid: "x = real K * 2 powi qmin256"
    and bound: "x \<le> fval256 b" "b < einf256 * 2 ^ 236" and pos: "0 < x"
  obtains n where "fval256 n = x" "0 < n" "n < einf256 * 2 ^ 236"
proof -
  have Np: "0 < N" using x(1) pos by (auto simp: zero_less_mult_iff)
  have Kp: "0 < K" using grid pos by (auto simp: zero_less_mult_iff)
  have "\<exists>n. fval256 n = x"
  proof (cases "qmin256 \<le> q")
    case True
    then show ?thesis using representable256 [OF Np x(2)] x(1) by simp
  next
    case False
    then have "2 powi q \<le> (2::real) powi qmin256" by simp
    then have "real K * 2 powi q \<le> real K * 2 powi qmin256" by (rule mult_left_mono) simp
    then have "real K * 2 powi q \<le> real N * 2 powi q" using x(1) grid by simp
    then have "K \<le> N" by simp
    then show ?thesis using representable256 [OF Kp, of qmin256] x(2) grid by simp
  qed
  then obtain n where n: "fval256 n = x" by blast
  have "0 < n" using n pos by (simp add: fval256_pos(1) [symmetric])
  moreover have "n < einf256 * 2 ^ 236"
  proof -
    have "\<not> fval256 b < fval256 n" using bound(1) n by simp
    then show ?thesis using bound(2) by simp
  qed
  ultimately show thesis using n that by blast
qed

section \<open>Rounding to an integer\<close>

definition abs256 :: "sf256 \<Rightarrow> real" where "abs256 x = fval256 (mag256 x)"

lemma abs_val256: "\<bar>val256 x\<bar> = abs256 x"
  by (simp add: val256_def abs256_def fval256_pos)

lemma rounded_integer_sound:
  fixes m :: sf64_rounding_mode
  assumes x: "finite256 x" and e: "d_exponent (decode x) < 236"
  defines "r \<equiv> rounded_integer (decode x) m"
  shows "int (bval (fst r)) = rnd_int m (sgn256 x) (abs256 x)" "length (fst r) = 8"
    "snd r \<longleftrightarrow> real_of_int (rnd_int m (sgn256 x) (abs256 x)) \<noteq> abs256 x"
    "bval (fst r) \<le> 2 ^ 236"
proof -
  note d = finite256_D [OF x]
  define sig where "sig = d_sig (decode x)"
  define k where "k = nat (235 - d_exponent (decode x))"
  define n where "n = bval sig"
  note g = normalisedD [OF d(1), folded sig_def]
  have sh: "nat (int kFrac - d_exponent (decode x)) = Suc k" using e by (simp add: kFrac_def k_def)
  have ex: "d_exponent (decode x) - 236 = - int (Suc k)" using e by (simp add: k_def)
  have v: "abs256 x = real n / 2 ^ Suc k"
  proof -
    have "(2::real) powi (- int (Suc k)) = 1 / 2 powi int (Suc k)" using powi2_diff [of 0 "int (Suc k)"] by simp
    also have "\<dots> = 1 / 2 ^ Suc k" by (simp only: powi2_nat of_nat_0_le_iff nat_int)
    finally show ?thesis unfolding abs256_def d(2) ex n_def sig_def by simp
  qed
  define gb st where "gb = big_bit sig k" and "st \<longleftrightarrow> 1 < Suc k \<and> big_any_low sig k"
  define mg where "mg = big_shr sig (Suc k)"
  have gv: "gb \<longleftrightarrow> odd (n div 2 ^ k)" by (simp add: gb_def big_bit_sound n_def bit_iff_odd)
  have sv: "st \<longleftrightarrow> n mod 2 ^ k \<noteq> 0" by (cases k) (simp_all add: st_def big_any_low_sound n_def)
  have mv: "bval mg = n div 2 ^ Suc k" "length mg = 8" using g(1) by (simp_all add: mg_def big_shr_sound n_def)
  have lsb: "big_bit mg 0 \<longleftrightarrow> odd (n div 2 ^ Suc k)" by (simp add: big_bit_sound mv bit_0)
  have code: "r = (if round_up (sgn256 x) gb st (big_bit mg 0) m then fst (increment mg) else mg, gb \<or> st)"
    using e unfolding r_def rounded_integer_def Let_def sh by (simp add: kFrac_def gb_def st_def mg_def sig_def)
  have "n div 2 ^ Suc k \<le> n div 2 ^ 1" by (intro div_le_mono2) simp_all
  also have "\<dots> < 2 ^ 236" using g(3) by (simp add: n_def less_mult_imp_div_less)
  finally have lt: "n div 2 ^ Suc k < 2 ^ 236" .
  have fst: "bval (fst r) = n div 2 ^ Suc k + of_bool (round_up_dec (sgn256 x) (odd (n div 2 ^ k)) (n mod 2 ^ k \<noteq> 0) (odd (n div 2 ^ Suc k)) m)"
    "length (fst r) = 8"
    unfolding code round_up_eq gv sv lsb fst_conv using mv lt increment_sound(1) [OF mv(2)] increment_sound(2) [of mg] by simp_all
  then show "int (bval (fst r)) = rnd_int m (sgn256 x) (abs256 x)" "length (fst r) = 8"
    unfolding v rnd_int_nat by simp_all
  show "bval (fst r) \<le> 2 ^ 236" unfolding fst(1) using lt by simp
  have "n mod 2 ^ Suc k = n mod 2 ^ k + 2 ^ k * (n div 2 ^ k mod 2)" using mod_split [of n k 1] by simp
  then have "n mod 2 ^ Suc k \<noteq> 0 \<longleftrightarrow> gb \<or> st" unfolding gv sv by (auto simp: odd_iff_mod_2_eq_one)
  then show "snd r \<longleftrightarrow> real_of_int (rnd_int m (sgn256 x) (abs256 x)) \<noteq> abs256 x"
    unfolding rnd_int_exact_iff v ceiling_nat_div floor_nat_div code snd_conv by simp
qed

lemma int_datum:
  assumes "0 < N" "N \<le> 2 ^ 236"
  obtains n where "fval256 n = real N" "0 < n" "n < einf256 * 2 ^ 236" "\<And>m s. round256 m s (real N) = (n, 0)"
proof -
  have q: "qmin256 \<le> 0" by (simp add: qmin256_def)
  obtain n where n: "fval256 n = real N" using representable256 [OF assms(1) _ q] assms(2) by auto
  have pos: "0 < n" using n assms(1) by (simp add: fval256_pos(1) [symmetric])
  have "fval256 (262378 * 2 ^ 236 + 2 ^ 237) = real ((2::nat) ^ 237) * 2 powi (qmin256 + int 262378)"
    unfolding fval256_def by (intro mag_val_encode) simp_all
  also have "\<dots> = 2 ^ 237" by (simp add: qmin256_def)
  finally have "fval256 (262378 * 2 ^ 236 + 2 ^ 237) = 2 ^ 237" .
  moreover have "real N < 2 ^ 237"
  proof -
    have "real N \<le> real (2 ^ 236)" unfolding of_nat_le_iff by (rule assms(2))
    then show ?thesis by simp
  qed
  ultimately have "fval256 n < fval256 (262378 * 2 ^ 236 + 2 ^ 237)" using n by simp
  then have "n < 262378 * 2 ^ 236 + 2 ^ 237" by (simp only: fval256_less_iff)
  then have lt: "n < einf256 * 2 ^ 236" by (simp add: einf256_def)
  show thesis using that [OF n pos lt round256_exact [OF n pos lt]] .
qed

definition ieee_rint256 :: "sf64_rounding_mode \<Rightarrow> sf256 \<Rightarrow> sf256 \<times> u32" where
  "ieee_rint256 m x =
     (if is_nan256 x then nan256_of x x
      else if is_inf256 x then (x, 0)
      else let i = rnd_int m (sgn256 x) \<bar>val256 x\<bar>
           in (fst (round_real256 SF64_RNE (sgn256 x) ((if sgn256 x then - 1 else 1) * real_of_int i)),
               if real_of_int i = \<bar>val256 x\<bar> then 0 else SF64_FE_INEXACT))"

text \<open>Above \<open>2 powi 236\<close> every finite value is an integer.\<close>

lemma large_integral256:
  assumes "finite256 x" "236 \<le> d_exponent (decode x)"
  shows "abs256 x = real_of_int (rnd_int m s (abs256 x))"
proof -
  have "abs256 x = real (bval (d_sig (decode x)) * 2 ^ nat (d_exponent (decode x) - 236))"
    unfolding abs256_def finite256_D(2) [OF assms(1)] using assms(2) by (simp add: powi2_nat)
  then show ?thesis by (metis of_int_of_nat_eq rnd_int_of_int)
qed

lemma f256_rint_sound: "f256_rint_impl m x tg w = hand_over tg (ieee_rint256 m x) w"
proof -
  consider (nan) "is_nan256 x" | (inf) "\<not> is_nan256 x" "is_inf256 x" | (zero) "is_zero256 x"
    | (large) "finite256 x" "236 \<le> d_exponent (decode x)" | (small) "finite256 x" "d_exponent (decode x) < 236"
    using not_le [of 236 "d_exponent (decode x)"] unfolding finite256_def by blast
  then show ?thesis
  proof cases
    case nan
    then show ?thesis by (simp add: f256_rint_impl_def ieee_rint256_def Let_def hand_over_def nan256_of_def quiet_nan_enc)
  next
    case inf
    then show ?thesis by (simp add: f256_rint_impl_def ieee_rint256_def Let_def hand_over_def)
  next
    case zero
    then have "rnd_int m (sgn256 x) \<bar>val256 x\<bar> = 0" using rnd_int_of_int [of m "sgn256 x" 0] by (simp add: zero_val256)
    then show ?thesis using zero zero_not_special zero256_enc [OF zero]
      by (simp add: f256_rint_impl_def ieee_rint256_def Let_def hand_over_def zero_val256)
  next
    case large
    have "real_of_int (rnd_int m (sgn256 x) (abs256 x)) = abs256 x" using large_integral256 [OF large] by simp
    moreover have "(if sgn256 x then - 1 else 1) * abs256 x = val256 x" by (simp add: val256_def abs256_def)
    moreover have "round_real256 SF64_RNE (sgn256 x) (val256 x) = (x, 0)"
      using large(1) by (intro round_real256_self) (simp_all add: finite256_def)
    ultimately show ?thesis using large
      by (simp add: f256_rint_impl_def ieee_rint256_def Let_def hand_over_def abs_val256 finite256_def kFrac_def)
  next
    case small
    obtain mg ix where r: "rounded_integer (decode x) m = (mg, ix)" by (metis surj_pair)
    note s = rounded_integer_sound [OF small, of m, unfolded r fst_conv snd_conv]
    define i where "i = rnd_int m (sgn256 x) (abs256 x)"
    have v: "(if sgn256 x then - 1 else 1) * real_of_int i = (if sgn256 x then - 1 else 1) * (real (bval mg) * 2 powi 0)"
      using s(1) unfolding i_def by (simp flip: s(1))
    have "pack_scaled (sgn256 x) mg 0 SF64_RNE tg v = hand_over tg (round_real256 SF64_RNE (sgn256 x) ((if sgn256 x then - 1 else 1) * real_of_int i)) v" for v
      by (rule pack_exact [OF s(2) v]) simp
    moreover have "snd (round_real256 SF64_RNE (sgn256 x) ((if sgn256 x then - 1 else 1) * real_of_int i)) = 0"
    proof (cases "bval mg = 0")
      case False
      then have "0 < bval mg" by simp
      then obtain n where "round256 SF64_RNE (sgn256 x) (real (bval mg)) = (n, 0)" using int_datum [OF _ s(4)] by metis
      then show ?thesis unfolding v using False by (simp add: round_real256_signed)
    qed (simp add: v)
    moreover have "ix \<longleftrightarrow> real_of_int i \<noteq> abs256 x" unfolding i_def by (rule s(3))
    ultimately show ?thesis
      using small by (auto simp: f256_rint_impl_def ieee_rint256_def Let_def hand_over_def abs_val256 finite256_def kFrac_def r
          simp flip: i_def)
  qed
qed

section \<open>Remainder\<close>

lemma rne_quotient:
  assumes "0 < D"
  shows "rnd_int SF64_RNE s (real N / real D) =
    int (N div D + of_bool (D < 2 * (N mod D) \<or> 2 * (N mod D) = D \<and> odd (N div D)))"
proof -
  have f: "\<lfloor>real N / real D\<rfloor> = int (N div D)" by (rule floor_divide_of_nat_eq)
  have "N = N div D * D + N mod D" by simp
  then have "real N = real (N div D) * real D + real (N mod D)" by (metis of_nat_add of_nat_mult)
  then have fr: "real N / real D - real_of_int (int (N div D)) = real (N mod D) / real D" using assms by (simp add: add_divide_distrib)
  define R where "R = N mod D"
  have D: "0 < real D" using assms by simp
  have two: "2 * real R = real (2 * R)" by simp
  have lt: "real R / real D < 1 / 2 \<longleftrightarrow> 2 * R < D"
  proof -
    have "real R / real D < 1 / 2 \<longleftrightarrow> 2 * real R < real D" unfolding pos_divide_less_eq [OF D] by linarith
    then show ?thesis unfolding two of_nat_less_iff .
  qed
  have eq: "real R / real D = 1 / 2 \<longleftrightarrow> 2 * R = D"
  proof -
    have "real R / real D = 1 / 2 \<longleftrightarrow> 2 * real R = real D" using D by (simp add: divide_eq_eq) linarith
    then show ?thesis unfolding two of_nat_eq_iff .
  qed
  show ?thesis unfolding rnd_int_def f fr R_def [symmetric] lt eq by auto
qed

lemma rem_loop_sound:
  assumes "length d = 8" "length rm = 8" "bval rm < 2 * bval d" "2 * bval d \<le> 2 ^ 512" "f256_rem_loop i d rm = (rm', o')"
  shows "bval rm' = bval rm * 2 ^ i mod bval d \<and> o' = odd (bval rm * 2 ^ i div bval d) \<and> length rm' = 8"
  using assms
proof (induction i arbitrary: rm)
  case (0 rm)
  note g = big8.digit [OF "0.prems"(2,1,3)] and tr = big8.trial(2) [OF "0.prems"(2,1)]
  show ?case using "0.prems"(5) g tr by (auto simp: f256_rem_loop.simps [of 0] Let_def split: if_splits)
next
  case (Suc i rm)
  define r1 where "r1 = (if 0 \<le> big_compare rm d then big_sub rm d else rm)"
  note nx = big8.next_dividend [OF Suc.prems(2,1,3,4), folded r1_def]
  have l: "f256_rem_loop i d (big_shl r1 1) = (rm', o')"
    using Suc.prems(5) by (subst (asm) f256_rem_loop.simps) (simp add: r1_def Let_def)
  have IH: "bval rm' = bval (big_shl r1 1) * 2 ^ i mod bval d \<and> o' = odd (bval (big_shl r1 1) * 2 ^ i div bval d) \<and> length rm' = 8"
    using nx by (intro Suc.IH [OF Suc.prems(1) _ _ Suc.prems(4) l]) auto
  obtain A R where AR: "A = bval rm div bval d" "R = bval rm mod bval d" by blast
  have "bval rm = A * bval d + R" unfolding AR by simp
  then have "bval rm * 2 ^ Suc i = (A * bval d + R) * 2 ^ Suc i" by (rule arg_cong)
  also have "\<dots> = (A * 2 ^ Suc i) * bval d + 2 * R * 2 ^ i" by (simp add: algebra_simps)
  finally have e: "bval rm * 2 ^ Suc i = (A * 2 ^ Suc i) * bval d + bval (big_shl r1 1) * 2 ^ i" unfolding nx(1) AR [symmetric] .
  have "0 < bval d" using Suc.prems(3) by linarith
  then have "bval rm * 2 ^ Suc i div bval d = A * 2 ^ Suc i + bval (big_shl r1 1) * 2 ^ i div bval d"
    "bval rm * 2 ^ Suc i mod bval d = bval (big_shl r1 1) * 2 ^ i mod bval d"
    unfolding e by (simp_all add: div_mult_self3)
  then show ?case using IH by simp
qed

definition ieee_remainder256 :: "sf256 \<Rightarrow> sf256 \<Rightarrow> sf256 \<times> u32" where
  "ieee_remainder256 a b =
     (if is_nan256 a \<or> is_nan256 b then nan256_of a b
      else if is_inf256 a \<or> is_zero256 b then (nan256, SF64_FE_INVALID)
      else if is_inf256 b then (a, 0)
      else let n = rnd_int SF64_RNE False (val256 a / val256 b)
           in (fst (round_real256 SF64_RNE (sgn256 a) (val256 a - real_of_int n * val256 b)), 0))"

text \<open>The remainder in terms of the magnitudes.\<close>

lemma remainder_signs:
  fixes A B :: real
  assumes "B \<noteq> 0"
  shows "(if s then - 1 else 1) * A - real_of_int (rnd_int SF64_RNE z ((if s then - 1 else 1) * A / ((if t then - 1 else 1) * B))) * ((if t then - 1 else 1) * B)
    = (if s then - 1 else 1) * (A - real_of_int (rnd_int SF64_RNE z (A / B)) * B)"
  using rne_minus [of z "A / B"] by (cases s; cases t) (simp_all add: algebra_simps)

text \<open>A remainder packs exactly.\<close>

lemma pack_remainder:
  assumes len: "length mg = 8" and lt: "bval mg < 2 ^ 237" and v: "v = (if s then - 1 else 1) * (real (bval mg) * 2 powi scale)"
    and zs: "bval mg = 0 \<Longrightarrow> z = s" and grid: "real (bval mg) * 2 powi scale = real K * 2 powi qmin256"
    and bound: "real (bval mg) * 2 powi scale \<le> fval256 b" "b < einf256 * 2 ^ 236"
  shows "pack_scaled s mg scale SF64_RNE tg w = (fst (round_real256 SF64_RNE z v), w)"
    "\<bar>val256 (fst (round_real256 SF64_RNE z v))\<bar> = \<bar>v\<bar>"
proof -
  have p: "pack_scaled s mg scale SF64_RNE tg w = hand_over tg (round_real256 SF64_RNE z v) w"
    using len v zs by (rule pack_exact)
  have "snd (round_real256 SF64_RNE z v) = 0 \<and> \<bar>val256 (fst (round_real256 SF64_RNE z v))\<bar> = \<bar>v\<bar>"
  proof (cases "bval mg = 0")
    case True
    then show ?thesis by (simp add: v)
  next
    case False
    then have pos: "0 < real (bval mg) * 2 powi scale" by simp
    obtain n where n: "fval256 n = real (bval mg) * 2 powi scale" "0 < n" "n < einf256 * 2 ^ 236"
      using exact_datum [OF refl lt grid bound pos] by metis
    have "n < 2 ^ 255" using n(3) by (simp add: einf256_def)
    then show ?thesis
      unfolding v round_real256_signed [OF pos] round256_exact [OF n] using n(1) pos by (simp add: val256_def)
  qed
  then show "pack_scaled s mg scale SF64_RNE tg w = (fst (round_real256 SF64_RNE z v), w)"
    "\<bar>val256 (fst (round_real256 SF64_RNE z v))\<bar> = \<bar>v\<bar>" unfolding p by (simp_all add: hand_over_def)
qed

lemma remainder_grid:
  "\<exists>K. \<bar>abs256 a - real_of_int n * abs256 b\<bar> = real K * 2 powi qmin256"
proof -
  obtain Ka where a: "abs256 a = real Ka * 2 powi qmin256" using fval256_grid [of "mag256 a"] by (auto simp: abs256_def)
  obtain Kb where b: "abs256 b = real Kb * 2 powi qmin256" using fval256_grid [of "mag256 b"] by (auto simp: abs256_def)
  have "abs256 a - real_of_int n * abs256 b = real_of_int (int Ka - n * int Kb) * 2 powi qmin256"
    unfolding a b by (simp add: left_diff_distrib)
  then have "\<bar>abs256 a - real_of_int n * abs256 b\<bar> = \<bar>real_of_int (int Ka - n * int Kb)\<bar> * 2 powi qmin256"
    by (simp only: abs_mult abs_of_pos [OF powi2_pos])
  also have "\<bar>real_of_int (int Ka - n * int Kb)\<bar> = real (nat \<bar>int Ka - n * int Kb\<bar>)"
    by simp
  finally show ?thesis by blast
qed

text \<open>The part after the loop, for both branches of the code.\<close>

lemma remainder_tail:
  fixes n :: int
  assumes len: "length mg = 8" and lt: "bval mg < 2 ^ 237"
    and r: "abs256 a - real_of_int n * abs256 b = (if flip then - 1 else 1) * (real (bval mg) * 2 powi scale)"
    and nz: "flip \<Longrightarrow> bval mg \<noteq> 0" and bound: "real (bval mg) * 2 powi scale \<le> fval256 c" "c < einf256 * 2 ^ 236"
  defines "v \<equiv> (if sgn256 a then - 1 else 1) * (abs256 a - real_of_int n * abs256 b)"
  shows "pack_scaled (if flip then \<not> sgn256 a else sgn256 a) mg scale SF64_RNE tg w = (fst (round_real256 SF64_RNE (sgn256 a) v), w)"
    "\<bar>val256 (fst (round_real256 SF64_RNE (sgn256 a) v))\<bar> = \<bar>v\<bar>"
proof -
  obtain K where "\<bar>abs256 a - real_of_int n * abs256 b\<bar> = real K * 2 powi qmin256" using remainder_grid by blast
  then have grid: "real (bval mg) * 2 powi scale = real K * 2 powi qmin256" unfolding r by (cases flip) (simp_all add: abs_mult)
  have v: "v = (if (if flip then \<not> sgn256 a else sgn256 a) then - 1 else 1) * (real (bval mg) * 2 powi scale)"
    unfolding v_def r by simp
  have z: "bval mg = 0 \<Longrightarrow> sgn256 a = (if flip then \<not> sgn256 a else sgn256 a)" using nz by auto
  show "pack_scaled (if flip then \<not> sgn256 a else sgn256 a) mg scale SF64_RNE tg w = (fst (round_real256 SF64_RNE (sgn256 a) v), w)"
    "\<bar>val256 (fst (round_real256 SF64_RNE (sgn256 a) v))\<bar> = \<bar>v\<bar>"
    using pack_remainder [OF len lt v z grid bound] by blast+
qed

lemma f256_remainder_finite:
  fixes n :: int and v :: real
  assumes fa: "finite256 a" and fb: "finite256 b"
  defines "n \<equiv> rnd_int SF64_RNE False (abs256 a / abs256 b)"
  defines "v \<equiv> (if sgn256 a then - 1 else 1) * (abs256 a - real_of_int n * abs256 b)"
  shows "f256_remainder_impl a b tg w = (fst (round_real256 SF64_RNE (sgn256 a) v), w)"
    "\<bar>val256 (fst (round_real256 SF64_RNE (sgn256 a) v))\<bar> = \<bar>v\<bar>"
proof -
  have cl: "\<not> (is_nan256 a \<or> is_nan256 b)" "\<not> (is_inf256 a \<or> is_zero256 b)" "\<not> (is_zero256 a \<or> is_inf256 b)"
    using fa fb by (simp_all add: finite256_def)
  note da = finite256_D [OF fa] and db = finite256_D [OF fb]
  define ea eb where "ea = d_exponent (decode a)" and "eb = d_exponent (decode b)"
  define A B where "A = d_sig (decode a)" and "B = d_sig (decode b)"
  note na = normalisedD [OF da(1), folded A_def] and nb = normalisedD [OF db(1), folded B_def]
  have va: "abs256 a = real (bval A) * 2 powi (ea - 236)" and vb: "abs256 b = real (bval B) * 2 powi (eb - 236)"
    unfolding abs256_def da(2) db(2) A_def B_def ea_def eb_def by simp_all
  have max: "mag256 a < einf256 * 2 ^ 236" "mag256 b < einf256 * 2 ^ 236"
    using fa fb by (auto simp: finite256_def class256)
  define diff where "diff = ea - eb"
  have k: "int kFrac = 236" by (simp add: kFrac_def)
  note code = f256_remainder_impl_def [unfolded Let_def, of a b tg w, unfolded decode_simps cl [THEN if_not_P]
      ea_def [symmetric] eb_def [symmetric] A_def [symmetric] B_def [symmetric] diff_def [symmetric] k]
  have len: "length A = length B" using na nb by simp
  have "f256_remainder_impl a b tg w = (fst (round_real256 SF64_RNE (sgn256 a) v), w) \<and>
    \<bar>val256 (fst (round_real256 SF64_RNE (sgn256 a) v))\<bar> = \<bar>v\<bar>"
  proof -
    consider (far) "diff < - 1" | (minus) "diff = - 1" | (nonneg) "0 \<le> diff" by linarith
    then show ?thesis
    proof cases
      case far
      have "abs256 a < 2 powi (ea + 1)"
      proof -
        have "real (bval A) < real (2 ^ 237)" unfolding of_nat_less_iff by (rule na(3))
        then have "real (bval A) * 2 powi (ea - 236) < 2 ^ 237 * 2 powi (ea - 236)"
          by (intro mult_strict_right_mono) (simp_all only: powi2_pos of_nat_power of_nat_numeral)
        also have "\<dots> = 2 powi (ea + 1)" using powi2_add [of 237 "ea - 236"] by (simp add: powi2_nat add.commute [of 1])
        finally show ?thesis unfolding va .
      qed
      moreover have "2 powi eb \<le> abs256 b"
      proof -
        have "real (2 ^ 236) \<le> real (bval B)" unfolding of_nat_le_iff by (rule nb(2))
        then have "2 ^ 236 * 2 powi (eb - 236) \<le> real (bval B) * 2 powi (eb - 236)"
          by (intro mult_right_mono) (simp_all only: less_imp_le [OF powi2_pos] of_nat_power of_nat_numeral)
        moreover have "2 ^ 236 * 2 powi (eb - 236) = (2::real) powi eb" using powi2_add [of 236 "eb - 236"] by (simp add: powi2_nat)
        ultimately show ?thesis unfolding vb by linarith
      qed
      moreover have "(2::real) powi (ea + 1) * 2 \<le> 2 powi eb"
      proof -
        have "(2::real) powi (ea + 1) * 2 = 2 powi (ea + 2)" using powi2_add [of "ea + 1" 1] by (simp add: add.commute [of 2])
        also have "\<dots> \<le> 2 powi eb" using far by (simp add: diff_def)
        finally show ?thesis .
      qed
      ultimately have lt: "abs256 a * 2 < abs256 b" by linarith
      have "0 \<le> abs256 a" by (simp add: abs256_def fval256_pos)
      then have q: "0 \<le> abs256 a / abs256 b" "abs256 a / abs256 b < 1 / 2" using lt by (simp_all add: pos_divide_less_eq)
      then have "\<lfloor>abs256 a / abs256 b\<rfloor> = 0" unfolding floor_eq_iff by linarith
      then have "n = 0" unfolding n_def rnd_int_def using q by simp
      then have v: "v = val256 a" by (simp add: v_def val256_def abs256_def)
      have s: "round_real256 SF64_RNE (sgn256 a) (val256 a) = (a, 0)"
        using fa by (intro round_real256_self) (simp_all add: finite256_def)
      show ?thesis unfolding code using far by (simp add: v s)
    next
      case minus
      define flip where "flip \<longleftrightarrow> bval B < bval A"
      have step: "2 powi (eb - 236) = 2 * (2::real) powi (ea - 236)"
      proof -
        have "eb - 236 = 1 + (ea - 236)" using minus by (simp add: diff_def)
        then show ?thesis using powi2_add [of 1 "ea - 236"] by simp
      qed
      have q: "abs256 a / abs256 b = real (bval A) / real (2 * bval B)"
      proof -
        show ?thesis unfolding va vb step by simp
      qed
      have dm: "bval A div (2 * bval B) = 0" "bval A mod (2 * bval B) = bval A" using na nb by simp_all
      have nv: "n = of_bool flip" unfolding n_def q using nb(4) by (subst rne_quotient) (simp_all add: dm flip_def)
      define mg where "mg = (if flip then big_sub (big_shl B 1) A else A)"
      have sh: "bval (big_shl B 1) = 2 * bval B" "length (big_shl B 1) = 8" using nb by (simp_all add: big_shl_sound)
      have ls: "length (big_shl B 1) = length A" using sh na by simp
      have mv: "bval mg = (if flip then 2 * bval B - bval A else bval A)" "length mg = 8"
        using big_sub_le [OF ls] big_sub_sound(2) [OF ls] sh na nb by (simp_all add: mg_def)
      have mle: "bval mg \<le> bval A" unfolding mv flip_def by auto
      have r: "abs256 a - real_of_int n * abs256 b = (if flip then - 1 else 1) * (real (bval mg) * 2 powi (ea - 236))"
      proof -
        have "bval A \<le> 2 * bval B" using na nb by simp
        then show ?thesis unfolding nv va vb mv step by (cases flip) (simp_all add: of_nat_diff algebra_simps)
      qed
      have bound: "real (bval mg) * 2 powi (ea - 236) \<le> fval256 (mag256 a)"
        using mle unfolding va [unfolded abs256_def] by (intro mult_right_mono) simp_all
      have lt: "bval mg < 2 ^ 237" using mle na(3) by linarith
      have nz: "flip \<Longrightarrow> bval mg \<noteq> 0" unfolding mv using na nb by simp
      have t: "pack_scaled (if flip then \<not> sgn256 a else sgn256 a) mg (ea - 236) SF64_RNE tg w = (fst (round_real256 SF64_RNE (sgn256 a) v), w)"
        "\<bar>val256 (fst (round_real256 SF64_RNE (sgn256 a) v))\<bar> = \<bar>v\<bar>"
        unfolding v_def using remainder_tail [OF mv(2) lt r nz bound max(1)] by blast+
      have "0 < big_compare A B \<longleftrightarrow> flip" by (simp add: big_compare_sound [OF len] flip_def)
      then have "f256_remainder_impl a b tg w = pack_scaled (if flip then \<not> sgn256 a else sgn256 a) mg (ea - 236) SF64_RNE tg w"
        unfolding code using minus by (cases flip) (simp_all add: mg_def)
      then show ?thesis using t by simp
    next
      case nonneg
      define N where "N = bval A * 2 ^ nat diff"
      obtain rm od where l: "f256_rem_loop (nat diff) B A = (rm, od)" by (metis surj_pair)
      have rl: "bval rm = N mod bval B" "od = odd (N div bval B)" "length rm = 8"
        using rem_loop_sound [OF nb(1) na(1) _ _ l] na nb by (simp_all add: N_def)
      have rlt: "bval rm < bval B" unfolding rl using nb(4) by simp
      define half where "half = big_compare (big_shl rm 1) B"
      define flip where "flip \<longleftrightarrow> half > 0 \<or> half = 0 \<and> od"
      have sh: "bval (big_shl rm 1) = 2 * bval rm" "length (big_shl rm 1) = length B" using rlt nb rl(3) by (simp_all add: big_shl_sound)
      have flip: "flip \<longleftrightarrow> bval B < 2 * (N mod bval B) \<or> 2 * (N mod bval B) = bval B \<and> odd (N div bval B)"
        unfolding flip_def half_def big_compare_sound [OF sh(2)] sh(1) rl(2) unfolding rl(1) by auto
      have vN: "abs256 a = real N * 2 powi (eb - 236)"
        using powi2_add [of diff "eb - 236"] nonneg unfolding va N_def by (simp add: powi2_nat diff_def)
      have q: "abs256 a / abs256 b = real N / real (bval B)" unfolding vN vb by simp
      have nv: "n = int (N div bval B + of_bool flip)" unfolding n_def q rne_quotient [OF nb(4)] flip ..
      define mg where "mg = (if flip then big_sub B rm else rm)"
      have lb: "length B = length rm" using nb rl by simp
      have mv: "bval mg = (if flip then bval B - bval rm else bval rm)" "length mg = 8"
        using big_sub_le [OF lb] big_sub_sound(2) [OF lb] rlt rl nb by (simp_all add: mg_def)
      have mle: "bval mg \<le> bval B" unfolding mv using rlt by auto
      have r: "abs256 a - real_of_int n * abs256 b = (if flip then - 1 else 1) * (real (bval mg) * 2 powi (eb - 236))"
      proof -
        have "N = N div bval B * bval B + bval rm" unfolding rl by simp
        then have Ne: "real N = real (N div bval B) * real (bval B) + real (bval rm)" by (metis of_nat_add of_nat_mult)
        define u :: real where "u = 2 powi (eb - 236)"
        have "abs256 a - real_of_int n * abs256 b = (real N - (real (N div bval B) + of_bool flip) * real (bval B)) * u"
          unfolding vN vb nv u_def by (simp add: algebra_simps)
        also have "\<dots> = (if flip then - 1 else 1) * (real (bval mg) * u)"
          unfolding Ne mv using rlt by (cases flip) (simp_all add: of_nat_diff algebra_simps)
        finally show ?thesis unfolding u_def .
      qed
      have bound: "real (bval mg) * 2 powi (eb - 236) \<le> fval256 (mag256 b)"
        using mle unfolding vb [unfolded abs256_def] by (intro mult_right_mono) simp_all
      have lt: "bval mg < 2 ^ 237" using mle nb(3) by linarith
      have nz: "flip \<Longrightarrow> bval mg \<noteq> 0" unfolding mv using rlt by simp
      have t: "pack_scaled (if flip then \<not> sgn256 a else sgn256 a) mg (eb - 236) SF64_RNE tg w = (fst (round_real256 SF64_RNE (sgn256 a) v), w)"
        "\<bar>val256 (fst (round_real256 SF64_RNE (sgn256 a) v))\<bar> = \<bar>v\<bar>"
        unfolding v_def using remainder_tail [OF mv(2) lt r nz bound max(2)] by blast+
      have "f256_remainder_impl a b tg w = pack_scaled (if flip then \<not> sgn256 a else sgn256 a) mg (eb - 236) SF64_RNE tg w"
        unfolding code l split_conv half_def [symmetric] flip_def [symmetric]
        using nonneg by (cases flip) (auto simp: l mg_def flip_def half_def)
      then show ?thesis using t by simp
    qed
  qed
  then show "f256_remainder_impl a b tg w = (fst (round_real256 SF64_RNE (sgn256 a) v), w)"
    "\<bar>val256 (fst (round_real256 SF64_RNE (sgn256 a) v))\<bar> = \<bar>v\<bar>" by blast+
qed

text \<open>The whole operation, with the exactness of its finite results.\<close>

lemma abs256_nonzero: "finite256 b \<Longrightarrow> abs256 b \<noteq> 0"
  using fval256_pos(1) [of "mag256 b"] by (simp add: finite256_def abs256_def class256)

lemma f256_remainder_sound:
  "f256_remainder_impl a b tg w = hand_over tg (ieee_remainder256 a b) w"
proof -
  consider (nan) "is_nan256 a \<or> is_nan256 b" | (bad) "\<not> (is_nan256 a \<or> is_nan256 b)" "is_inf256 a \<or> is_zero256 b"
    | (self) "\<not> (is_nan256 a \<or> is_nan256 b)" "\<not> (is_inf256 a \<or> is_zero256 b)" "is_inf256 b"
    | (zero) "is_zero256 a" "finite256 b" | (fin) "finite256 a" "finite256 b"
    unfolding finite256_def by blast
  then show ?thesis
  proof cases
    case nan
    then show ?thesis by (simp add: f256_remainder_impl_def ieee_remainder256_def Let_def propagate_nan_sound hand_over_def)
  next
    case bad
    then show ?thesis by (simp add: f256_remainder_impl_def ieee_remainder256_def Let_def hand_over_def)
  next
    case self
    then show ?thesis by (simp add: f256_remainder_impl_def ieee_remainder256_def Let_def hand_over_def)
  next
    case zero
    then show ?thesis using rnd_int_of_int [of SF64_RNE False 0]
      by (simp add: f256_remainder_impl_def ieee_remainder256_def Let_def hand_over_def finite256_def zero_not_special zero_val256 zero256_enc)
  next
    case fin
    have b0: "abs256 b \<noteq> 0" using fin(2) by (rule abs256_nonzero)
    have "val256 a - real_of_int (rnd_int SF64_RNE False (val256 a / val256 b)) * val256 b
      = (if sgn256 a then - 1 else 1) * (abs256 a - real_of_int (rnd_int SF64_RNE False (abs256 a / abs256 b)) * abs256 b)"
      using remainder_signs [OF b0, of "sgn256 a" "abs256 a" False "sgn256 b"] by (simp add: val256_def abs256_def)
    then show ?thesis using fin f256_remainder_finite(1) [OF fin, of tg w]
      by (simp add: ieee_remainder256_def hand_over_def finite256_def)
  qed
qed

lemma ieee_remainder256_exact:
  assumes "finite256 a" "finite256 b"
  shows "\<bar>val256 (fst (ieee_remainder256 a b))\<bar> = \<bar>val256 a - real_of_int (rnd_int SF64_RNE False (val256 a / val256 b)) * val256 b\<bar>"
proof -
  have b0: "abs256 b \<noteq> 0" using assms(2) by (rule abs256_nonzero)
  have "val256 a - real_of_int (rnd_int SF64_RNE False (val256 a / val256 b)) * val256 b
    = (if sgn256 a then - 1 else 1) * (abs256 a - real_of_int (rnd_int SF64_RNE False (abs256 a / abs256 b)) * abs256 b)"
    using remainder_signs [OF b0, of "sgn256 a" "abs256 a" False "sgn256 b"] by (simp add: val256_def abs256_def)
  then show ?thesis using assms f256_remainder_finite(2) [OF assms]
    by (simp add: ieee_remainder256_def finite256_def)
qed

section \<open>Conversion to binary64\<close>

lemma sign_or: "unat c < 2 ^ 63 \<Longrightarrow> push_bit 63 (if s then 1 else 0) OR c = enc64 s (unat c)"
proof (rule word_eq_unatI)
  assume c: "unat c < 2 ^ 63"
  have "unat (push_bit 63 (if s then 1 else 0 :: u64)) = (if s then 2 ^ 63 else 0)" by simp
  then show "unat (push_bit 63 (if s then 1 else 0) OR c) = unat (enc64 s (unat c))"
    unfolding unat_enc64 [OF c] using unat_or_disjoint [of "push_bit 63 (if s then 1 else 0)" 63 c] c by (cases s) simp_all
qed

lemma low_limb: "a \<noteq> [] \<Longrightarrow> unat (a ! 0) = bval a mod 2 ^ 64" for a :: big
  using unsigned_less [where 'a = nat, of "a ! 0"] by (cases a) simp_all

lemma fields_or:
  assumes "unat fld < 2047"
  shows "push_bit 63 (if s then 1 else 0) OR push_bit 52 fld OR (v AND 0x000FFFFFFFFFFFFF) = enc64 s (unat fld * 2 ^ 52 + unat v mod 2 ^ 52)"
proof -
  have f: "unat (v AND 0x000FFFFFFFFFFFFF) = unat v mod 2 ^ 52"
  proof -
    have m: "(0x000FFFFFFFFFFFFF :: u64) = mask 52" by (simp add: mask_eq_exp_minus_1)
    show ?thesis unfolding m by (simp only: unat_and_mask)
  qed
  have lt: "unat fld * 2 ^ 52 < 2047 * 2 ^ 52" using assms by (intro mult_strict_right_mono) simp_all
  then have p: "unat (push_bit 52 fld) = unat fld * 2 ^ 52" by (simp add: to_nat)
  have u: "unat (push_bit 52 fld OR (v AND 0x000FFFFFFFFFFFFF)) = unat fld * 2 ^ 52 + unat v mod 2 ^ 52"
    using unat_or_disjoint [of "push_bit 52 fld" 52 "v AND 0x000FFFFFFFFFFFFF"] unfolding p f by simp
  have "unat v mod 2 ^ 52 < 2 ^ 52" by simp
  then have "unat (push_bit 52 fld OR (v AND 0x000FFFFFFFFFFFFF)) < 2 ^ 63" unfolding u using lt by simp
  then show ?thesis using sign_or u by metis
qed

definition ieee_to_f64 :: "sf64_rounding_mode \<Rightarrow> sf256 \<Rightarrow> f64 \<times> u32" where
  "ieee_to_f64 m x =
     (let s = sgn256 x
      in if is_nan256 x then (enc64 s (inf64 + (2 ^ 51 OR mag256 x mod 2 ^ 236 div 2 ^ 224)), if is_snan256 x then SF64_FE_INVALID else 0)
         else if is_inf256 x then (enc64 s inf64, 0)
         else if is_zero256 x then (enc64 s 0, 0)
         else let r = ieee_round_late 52 (- 1074) 2047 m s (abs256 x) in (enc64 s (fst r), snd r))"

lemma f256_to_f64_finite:
  assumes x: "finite256 x"
  shows "f256_to_f64_impl mode x tg w = hand_over tg (ieee_to_f64 mode x) w"
proof -
  note dx = finite256_D [OF x]
  define s where "s = sgn256 x"
  define ex where "ex = d_exponent (decode x)"
  define sig where "sig = d_sig (decode x)"
  note g = normalisedD [OF dx(1), folded sig_def]
  have v: "abs256 x = real (bval sig) * 2 powi (ex - 236)" unfolding abs256_def dx(2) sig_def ex_def ..
  define e where "e = max ex (- 1022)"
  define d where "d = nat (e + 1022)"
  define c where "c = nat (- 1022 - ex)"
  define ext where "ext = big_shr_jam sig (kFrac - 55)"
  define ext' where "ext' = (if ex < - 1022 then big_shr_jam ext c else ext)"
  define S where "S = jam (bval sig) 181"
  define S' where "S' = jam S c"
  define R where "R = round_bits mode s 2 S'"
  define n where "n = d * 2 ^ 52 + R"
  have ne: "sig \<noteq> []" using g by auto
  have extv: "bval ext = S" "length ext = 8"
    using big_shr_jam_sound [OF ne, of 181] g by (simp_all add: ext_def S_def kFrac_def)
  then have ene: "ext \<noteq> []" by auto
  have ext'v: "bval ext' = S'" "length ext' = 8"
    using extv big_shr_jam_sound [OF ene, of c] by (auto simp: ext'_def S'_def c_def)
  have "2 ^ 55 * 2 ^ 181 \<le> bval sig" using g(2) by simp
  then have "2 ^ 55 \<le> bval sig div 2 ^ 181" by (simp add: less_eq_div_iff_mult_less_eq)
  then have Sb: "2 ^ 55 \<le> S" using jam_ge [of "bval sig" 181] by (simp add: S_def)
  have Sl: "S < 2 ^ Suc 55" unfolding S_def using g(3) by (intro jam_less [of _ "Suc 55"]) simp_all
  have pos: "0 < abs256 x" unfolding v using g(4) by simp
  have b: "2 powi ex \<le> abs256 x" "abs256 x < 2 powi (ex + 1)"
  proof -
    have "real (2 ^ 236) \<le> real (bval sig)" "real (bval sig) < real (2 ^ 237)" unfolding of_nat_le_iff of_nat_less_iff by (rule g)+
    then have "2 ^ 236 * 2 powi (ex - 236) \<le> abs256 x" "abs256 x < 2 ^ 237 * 2 powi (ex - 236)"
      unfolding v by (intro mult_right_mono mult_strict_right_mono; simp only: powi2_pos less_imp_le [OF powi2_pos] of_nat_power of_nat_numeral)+
    moreover have "2 ^ 236 * 2 powi (ex - 236) = (2::real) powi ex" "2 ^ 237 * 2 powi (ex - 236) = (2::real) powi (ex + 1)"
      using powi2_add [of 236 "ex - 236"] powi2_add [of 237 "ex - 236"] by (simp_all add: powi2_nat add.commute [of 1])
    ultimately show "2 powi ex \<le> abs256 x" "abs256 x < 2 powi (ex + 1)" by linarith+
  qed
  have lg: "\<lfloor>log 2 (abs256 x)\<rfloor> = ex" using b by (rule floor_log2_eqI)
  have ed: "e = int d - 1022" unfolding e_def d_def by linarith
  have q: "quantum 52 (- 1074) (abs256 x) = - 1074 + int d"
    unfolding quantum_def lg d_def e_def by linarith
  have cell: "same_cell 2 (real S') (abs256 x / 2 powi (- 1074 + int d) * 2 ^ Suc 2)"
  proof -
    have "same_cell (2 + c + 181) (real (bval sig)) (real (bval sig))" by simp
    then have "same_cell (2 + c) (real S) (real (bval sig) / 2 ^ 181)" unfolding S_def by (rule jam_same_cell) simp
    then have "same_cell 2 (real S') (real (bval sig) / 2 ^ 181 / 2 ^ c)" unfolding S'_def by (rule jam_same_cell) simp
    moreover have "real (bval sig) / 2 ^ 181 / 2 ^ c = abs256 x / 2 powi (- 1074 + int d) * 2 ^ Suc 2"
    proof -
      have "ex + int c = e" by (simp add: c_def e_def)
      then have i: "ex - 236 - (- 1074 + int d) + 3 = - int (181 + c)" unfolding ed by simp
      have "abs256 x / 2 powi (- 1074 + int d) * 2 ^ Suc 2 = real (bval sig) * 2 powi (ex - 236 - (- 1074 + int d) + 3)"
        unfolding v powi2_add powi2_diff by (simp add: powi2_nat)
      also have "\<dots> = real (bval sig) / 2 ^ (181 + c)" unfolding i power_int_minus powi2_nat [OF of_nat_0_le_iff] nat_int divide_inverse ..
      finally show ?thesis by (simp add: power_add)
    qed
    ultimately show ?thesis by simp
  qed
  have S'le: "S' < 2 ^ (53 + Suc 2)"
  proof (cases "c = 0")
    case True
    then show ?thesis using Sl by (simp add: S'_def)
  next
    case False
    then have "S div 2 ^ c \<le> S div 2 ^ 1" by (intro div_le_mono2) (simp_all, cases c, simp_all)
    moreover have "S div 2 ^ 1 < 2 ^ 55" using Sl by (simp add: less_mult_imp_div_less)
    ultimately show ?thesis using jam_le [of S c] by (simp add: S'_def)
  qed
  have Rle: "R \<le> 2 ^ 53" unfolding R_def by (rule round_bits_le [OF S'le])
  have Rd: "2 ^ 52 \<le> R" if "0 < d"
  proof -
    have "c = 0" using that by (simp add: c_def d_def e_def max_def split: if_splits)
    then have "2 ^ (52 + Suc 2) \<le> S'" using Sb by (simp add: S'_def)
    then show ?thesis unfolding R_def by (rule round_bits_ge)
  qed
  define sig0 where "sig0 = big_shr ext' 3"
  define guard_bit where "guard_bit = big_bit ext' 2"
  define sticky where "sticky \<longleftrightarrow> big_bit ext' 1 \<or> big_bit ext' 0"
  define sig1 where "sig1 = (if round_up s guard_bit sticky (big_bit sig0 0) mode then fst (increment sig0) else sig0)"
  have gb: "guard_bit \<longleftrightarrow> odd (S' div 2 ^ 2)" unfolding guard_bit_def big_bit_sound ext'v by (simp add: bit_iff_odd)
  have st: "sticky \<longleftrightarrow> S' mod 2 ^ 2 \<noteq> 0" unfolding sticky_def big_bit_sound ext'v by (rule low_bits_sticky)
  have s0: "bval sig0 = S' div 2 ^ 3" "length sig0 = 8" unfolding sig0_def by (simp_all add: big_shr_sound ext'v)
  have lsb: "big_bit sig0 0 \<longleftrightarrow> odd (S' div 2 ^ Suc 2)" unfolding big_bit_sound s0 by (simp add: bit_0)
  have "S' div 2 ^ 3 < 2 ^ 53" using S'le by (simp add: less_mult_imp_div_less)
  then have s1: "bval sig1 = R" "length sig1 = 8"
    unfolding sig1_def round_up_eq R_def round_bits_def gb st lsb
    using s0 increment_sound(1) [OF s0(2)] increment_sound(2) [of sig0] by simp_all
  have inex: "guard_bit \<or> sticky \<longleftrightarrow> S' mod 2 ^ Suc 2 \<noteq> 0"
    unfolding gb st using mod_split [of S' 2 1] by (auto simp: odd_iff_mod_2_eq_one)
  define carry where "carry \<longleftrightarrow> R = 2 ^ 53"
  define sig2 where "sig2 = (if carry then big_shr sig1 1 else sig1)"
  define e2 where "e2 = (if carry then e + 1 else e)"
  have cy: "big_bit sig1 53 \<longleftrightarrow> carry"
    unfolding big_bit_sound s1 using bit_top [of R 53] Rle by (auto simp: carry_def)
  have s2: "bval sig2 = (if carry then 2 ^ 52 else R)" "length sig2 = 8"
    by (simp_all add: sig2_def big_shr_sound s1 carry_def)
  have s2lt: "bval sig2 < 2 ^ 53" using Rle by (simp add: s2(1) carry_def)
  have top: "big_bit sig2 52 \<longleftrightarrow> 2 ^ 52 \<le> bval sig2"
    using bit_top [of "bval sig2" 52] s2lt by (simp add: big_bit_sound)
  define M where "M \<longleftrightarrow> mode = SF64_RNE \<or> mode = SF64_RNA \<or> mode = SF64_RUP \<and> \<not> s \<or> mode = SF64_RDN \<and> s"
  define sb :: u64 where "sb = push_bit 63 (if s then 1 else 0)"
  have cl: "\<not> is_nan256 x" "\<not> is_inf256 x" "\<not> is_zero256 x" using x by (simp_all add: finite256_def)
  have code: "f256_to_f64_impl mode x tg w =
     (if e2 > 1023 then
        (sb OR (if M then 0x7FF0000000000000 else 0x7FEFFFFFFFFFFFFF), raise_flags tg (SF64_FE_OVERFLOW OR SF64_FE_INEXACT) w)
      else
        (sb OR push_bit 52 (if e2 = - 1022 \<and> \<not> big_bit sig2 52 then 0 else word_of_int (e2 + 1023)) OR (sig2 ! 0 AND 0x000FFFFFFFFFFFFF),
         if guard_bit \<or> sticky then
           raise_flags tg (SF64_FE_INEXACT OR (if e2 = - 1022 \<and> \<not> big_bit sig2 52 then SF64_FE_UNDERFLOW else 0)) w
         else w))"
  proof -
    have p1: "(if ex < - 1022 then (big_shr_jam ext (nat (- 1022 - ex)), - 1022) else (ext, ex)) = (ext', e)"
      by (simp add: ext'_def e_def c_def)
    have p2: "(if big_bit sig1 53 then (big_shr sig1 1, e + 1) else (sig1, e)) = (sig2, e2)"
      unfolding cy sig2_def e2_def by simp
    show ?thesis
      unfolding f256_to_f64_impl_def decode_simps Let_def cl [THEN if_not_P]
      by (simp only: ex_def [symmetric] sig_def [symmetric] ext_def [symmetric] p1 split_conv sig0_def [symmetric]
          guard_bit_def [symmetric] sticky_def [symmetric] s_def [symmetric]
          sig1_def [symmetric] p2 M_def [symmetric] sb_def [symmetric])
  qed
  have over: "e2 > 1023 \<longleftrightarrow> 2047 * 2 ^ 52 \<le> n"
  proof -
    have "2047 * 2 ^ 52 \<le> n \<longleftrightarrow> (if carry then 2045 \<le> d else 2046 \<le> d)"
      using Rle Rd unfolding n_def carry_def by (cases "d = 0") auto
    then show ?thesis unfolding e2_def ed by auto
  qed
  have spec: "ieee_round_late 52 (- 1074) 2047 mode s (abs256 x) =
    (if 2047 * 2 ^ 52 \<le> n then (overflow_mag 52 2047 mode s, SF64_FE_OVERFLOW OR SF64_FE_INEXACT)
     else (n, if \<not> (guard_bit \<or> sticky) then 0
              else if n < 2 ^ 52 then SF64_FE_INEXACT OR SF64_FE_UNDERFLOW else SF64_FE_INEXACT))"
    unfolding ieee_round_late_cell [OF pos q cell] R_def [symmetric] n_def [symmetric] Let_def inex not_not ..
  have ov: "sb OR (if M then 0x7FF0000000000000 else 0x7FEFFFFFFFFFFFFF) = enc64 s (overflow_mag 52 2047 mode s)"
    unfolding sb_def overflow_mag_def rounds_down_def M_def by (subst sign_or) (cases mode; cases s; simp)+
  have sub: "e2 = - 1022 \<and> \<not> big_bit sig2 52 \<longleftrightarrow> n < 2 ^ 52"
    using Rd unfolding top s2(1) e2_def ed n_def carry_def by (cases d) auto
  have enc: "sb OR push_bit 52 (if n < 2 ^ 52 then 0 else word_of_int (e2 + 1023)) OR (sig2 ! 0 AND 0x000FFFFFFFFFFFFF) = enc64 s n"
    if "n < 2047 * 2 ^ 52"
  proof -
    have "sig2 \<noteq> []" using s2 by auto
    moreover have "bval sig2 < 2 ^ 64" using s2lt by simp
    ultimately have l: "unat (sig2 ! 0) = bval sig2" by (simp add: low_limb)
    show ?thesis
    proof (cases "n < 2 ^ 52")
      case True
      then have "d = 0" "\<not> carry" "R = n" unfolding n_def carry_def by (cases d; simp)+
      then show ?thesis using True fields_or [of 0 s "sig2 ! 0"] s2 by (simp add: sb_def l)
    next
      case False
      have k: "e2 + 1023 = int (if carry then d + 2 else d + 1)" unfolding e2_def ed by simp
      have R: "\<not> carry \<Longrightarrow> 2 ^ 52 \<le> R \<and> R < 2 ^ 53"
        using False Rle Rd unfolding n_def carry_def by (cases "d = 0") auto
      have nk: "n = (if carry then (d + 2) * 2 ^ 52 + 0 else (d + 1) * 2 ^ 52 + (R - 2 ^ 52))"
        using R unfolding n_def by (auto simp: carry_def)
      have lt: "(if carry then d + 2 else d + 1) < 2047" using that R unfolding nk by (auto split: if_splits)
      have u: "unat (word_of_int (e2 + 1023) :: u64) = (if carry then d + 2 else d + 1)"
        unfolding k using lt by (simp add: unat_of_nat)
      have "bval sig2 mod 2 ^ 52 = (if carry then 0 else R - 2 ^ 52)"
        using R unfolding s2(1) by (auto simp: le_mod_geq)
      then show ?thesis using False lt fields_or [of "word_of_int (e2 + 1023)" s "sig2 ! 0"] unfolding u nk l sb_def by (simp split: if_splits)
    qed
  qed
  show ?thesis
    unfolding code over sub hand_over_def ieee_to_f64_def Let_def s_def [symmetric] cl [THEN if_not_P] spec using enc ov by auto
qed

lemma nth_bval: "i < length a \<Longrightarrow> unat (a ! i) = bval a div 2 ^ (64 * i) mod 2 ^ 64" for a :: big
proof -
  assume i: "i < length a"
  then have "a = take i a @ a ! i # drop (Suc i) a" by (rule id_take_nth_drop)
  then have "bval a = bval (take i a @ a ! i # drop (Suc i) a)" by (rule arg_cong)
  then have v: "bval a = bval (take i a) + 2 ^ (64 * i) * (unat (a ! i) + 2 ^ 64 * bval (drop (Suc i) a))"
    using i by (simp add: bval_append)
  have "bval (take i a) < 2 ^ (64 * i)" using bval_less [of "take i a"] i by simp
  then show ?thesis unfolding v using unsigned_less [where 'a = nat, of "a ! i"] by simp
qed

lemma f256_to_f64_sound: "f256_to_f64_impl mode x tg w = hand_over tg (ieee_to_f64 mode x) w"
proof -
  consider (nan) "is_nan256 x" | (inf) "\<not> is_nan256 x" "is_inf256 x" | (zero) "is_zero256 x" | (fin) "finite256 x"
    unfolding finite256_def by blast
  then show ?thesis
  proof cases
    case nan
    define f where "f = mag256 x mod 2 ^ 236"
    have "d_sig (decode x) = frac_limbs x"
      using nan unfolding decode_simps(4) [symmetric] by (simp add: decode_def Let_def split_beta flip: frac_limbs_def)
    then have sg: "bval (d_sig (decode x)) = f" "length (d_sig (decode x)) = 8" by (simp_all add: frac_limbs_sound f_def)
    have "unat (d_sig (decode x) ! 3) = f div 2 ^ 192"
    proof -
      have "unat (d_sig (decode x) ! 3) = bval (d_sig (decode x)) div 2 ^ (64 * 3) mod 2 ^ 64"
        by (rule nth_bval) (simp add: sg)
      moreover have "f div 2 ^ 192 < 2 ^ 64"
      proof -
        have "f < 2 ^ 236" by (simp add: f_def)
        then show ?thesis by (simp add: less_mult_imp_div_less)
      qed
      ultimately show ?thesis by (simp add: sg)
    qed
    then have "unat (drop_bit 32 (d_sig (decode x) ! 3)) = f div 2 ^ 192 div 2 ^ 32" by (simp only: unat_drop_bit)
    then have u: "unat (drop_bit 32 (d_sig (decode x) ! 3)) = f div 2 ^ 224" by (simp add: div_mult2_eq [symmetric])
    have lt: "f div 2 ^ 224 < 2 ^ 12" unfolding f_def by (simp add: less_mult_imp_div_less)
    have m: "(0x0007FFFFFFFFFFFF :: u64) = mask 51" by (simp add: mask_eq_exp_minus_1)
    have p: "unat (drop_bit 32 (d_sig (decode x) ! 3) AND 0x0007FFFFFFFFFFFF) = f div 2 ^ 224"
      unfolding m unat_and_mask u using lt by simp
    have q: "2 ^ 51 OR f div 2 ^ 224 = 2 ^ 51 + f div 2 ^ 224"
      using lt by (intro nat_or_disjoint [of _ 51]) simp_all
    have "unat (0x7FF8000000000000 OR (drop_bit 32 (d_sig (decode x) ! 3) AND 0x0007FFFFFFFFFFFF) :: u64) = inf64 + (2 ^ 51 OR f div 2 ^ 224)"
      using unat_or_disjoint [of "0x7FF8000000000000 :: u64" 51 "drop_bit 32 (d_sig (decode x) ! 3) AND 0x0007FFFFFFFFFFFF"] lt
      unfolding p q by (simp add: inf64_def)
    moreover have "inf64 + (2 ^ 51 OR f div 2 ^ 224) < 2 ^ 63" unfolding q using lt by (simp add: inf64_def)
    ultimately show ?thesis using nan sign_or [of "0x7FF8000000000000 OR (drop_bit 32 (d_sig (decode x) ! 3) AND 0x0007FFFFFFFFFFFF)" "sgn256 x"]
      by (simp add: f256_to_f64_impl_def ieee_to_f64_def Let_def hand_over_def f_def)
  next
    case inf
    then show ?thesis using sign_or [of "0x7FF0000000000000" "sgn256 x"]
      by (simp add: f256_to_f64_impl_def ieee_to_f64_def Let_def hand_over_def inf64_def)
  next
    case zero
    then show ?thesis using sign_or [of 0 "sgn256 x"]
      by (simp add: f256_to_f64_impl_def ieee_to_f64_def Let_def hand_over_def zero_not_special)
  next
    case fin
    then show ?thesis by (rule f256_to_f64_finite)
  qed
qed

section \<open>Conversion from binary64\<close>

text \<open>Exact; a NaN keeps its sign and payload and becomes quiet, without a flag.\<close>

definition ieee_from_f64 :: "f64 \<Rightarrow> sf256" where
  "ieee_from_f64 b =
     (let s = sgn64 b
      in if is_nan_bits b then enc256 s (einf256 * 2 ^ 236 + (mag64 b mod 2 ^ 52 * 2 ^ 184 OR 2 ^ 235))
         else if is_inf_bits b then inf256 s
         else fst (round_real256 SF64_RNE s (val64 b)))"

lemma f64_representable:
  assumes "0 < m" "m < inf64"
  obtains n where "fval256 n = mag_val 52 (- 1074) m" "0 < n" "n < einf256 * 2 ^ 236"
proof -
  obtain d k where m: "m = d * 2 ^ 52 + k" "k < 2 ^ Suc 52" "0 < d \<Longrightarrow> 2 ^ 52 \<le> k"
    using mag_decompose [of m 52] by metis
  have v: "mag_val 52 (- 1074) m = real k * 2 powi (- 1074 + int d)"
    unfolding m(1) using m(2,3) by (intro mag_val_encode) simp_all
  have "0 < k" using m assms(1) by (cases d) auto
  moreover have "k < 2 ^ 237" using m(2) by simp
  moreover have "qmin256 \<le> - 1074 + int d" by (simp add: qmin256_def)
  ultimately obtain n where n: "fval256 n = mag_val 52 (- 1074) m" unfolding v using representable256 by metis
  have pos: "0 < n" using assms(1) n by (metis fval256_pos(1) mag_val_pos_iff)
  have "mag_val 52 (- 1074) m < mag_val 52 (- 1074) (2046 * 2 ^ 52 + 2 ^ 52)" using assms(2) by (simp add: inf64_def)
  also have "\<dots> = 2 ^ 1024" by (subst mag_val_encode) (simp_all add: powi2_nat)
  also have "(2::real) ^ 1024 = 2 ^ 236 * 2 ^ 788" by (simp flip: power_add)
  also have "\<dots> = real ((2::nat) ^ 236) * 2 powi (qmin256 + int 263166)" by (simp add: qmin256_def powi2_nat)
  also have "\<dots> = fval256 (263166 * 2 ^ 236 + 2 ^ 236)" unfolding fval256_def by (rule mag_val_encode [symmetric]) simp_all
  finally have "n < 263166 * 2 ^ 236 + 2 ^ 236" unfolding n [symmetric] by (simp only: fval256_less_iff)
  then show thesis using that [OF n pos] by (simp add: einf256_def)
qed

lemma sgn64_drop: "drop_bit 63 b \<noteq> 0 \<longleftrightarrow> sgn64 b"
proof -
  have "drop_bit 63 b \<noteq> 0 \<longleftrightarrow> unat b div 2 ^ 63 \<noteq> 0" unfolding unat_drop_bit [symmetric] unsigned_eq_0_iff ..
  then show ?thesis by (simp add: sgn64_def div_eq_0_iff not_less)
qed

lemma from_f64_fields: "(ucast (drop_bit 52 b AND 0x7FF) :: u32) = extract_exp b" "b AND 0xFFFFFFFFFFFFF = extract_frac b"
  by (simp_all add: extract_exp_def extract_frac_def kFracMask_def)

lemma one_limb: "bval ((big_none 8) [0 := f]) = unat f" "length ((big_none 8) [0 := f]) = 8"
  using bval_update [of 0 "big_none 8 :: big" f] by (simp_all add: big_none_def)

lemma sf256_from_f64_sound:
  "sf256_from_f64 b m t w = (ieee_from_f64 b, w)"
  "\<not> is_nan_bits b \<Longrightarrow> \<not> is_inf_bits b \<Longrightarrow> val256 (ieee_from_f64 b) = val64 b \<and> mag256 (ieee_from_f64 b) < einf256 * 2 ^ 236"
proof -
  define s where "s = sgn64 b"
  define f where "f = extract_frac b"
  define e where "e = extract_exp b"
  have fl: "unat f < 2 ^ 52" unfolding f_def by (rule extract_frac_less)
  have m64: "mag64 b = unat e * 2 ^ 52 + unat f" unfolding e_def f_def by (rule mag64_fields)
  have el: "unat e < 2 ^ 11" unfolding e_def by (rule extract_exp_less)
  have f0: "f = 0 \<longleftrightarrow> unat f = 0" by (simp add: unsigned_eq_0_iff)
  have eM: "e = 0x7FF \<longleftrightarrow> unat e = 2047" by (simp add: word_unat_eq_iff)
  have e0: "e = 0 \<longleftrightarrow> unat e = 0" by (simp add: unsigned_eq_0_iff)
  have cls: "is_nan_bits b \<longleftrightarrow> e = 0x7FF \<and> f \<noteq> 0" "is_inf_bits b \<longleftrightarrow> e = 0x7FF \<and> f = 0"
    unfolding class_iff m64 f0 eM inf64_def limb_eq_iff [OF fl] using fl el by auto
  note code = sf256_from_f64_def [unfolded Let_def from_f64_fields, of b m t w, folded e_def f_def, unfolded sgn64_drop, folded s_def]
  have fin: "sf256_from_f64 b m t w = (ieee_from_f64 b, w) \<and> val256 (ieee_from_f64 b) = val64 b \<and> mag256 (ieee_from_f64 b) < einf256 * 2 ^ 236"
    if ne: "e \<noteq> 0x7FF"
  proof (cases "mag64 b = 0")
    case True
    then have "e = 0" "f = 0" "val64 b = 0" unfolding m64 e0 f0 by (simp_all add: val64_eq_0_iff class_iff m64)
    then show ?thesis unfolding code using cls by (simp add: ieee_from_f64_def s_def einf256_def)
  next
    case False
    define mg where "mg = (if e \<noteq> 0 then (big_none 8) [0 := f OR push_bit 52 1] else big_shl ((big_none 8) [0 := f]) (nat (52 - big_highest ((big_none 8) [0 := f]))))"
    define ex where "ex = (if e \<noteq> 0 then uint e - 1023 else - 1022 - (52 - big_highest ((big_none 8) [0 := f])))"
    have c: "sf256_from_f64 b m t w = pack_scaled s mg (ex - 52) SF64_RNE (bag_target m t) w"
      using ne False unfolding code m64 by (auto simp: mg_def ex_def e0 f0)
    have v: "length mg = 8 \<and> real (bval mg) * 2 powi (ex - 52) = mag_val 52 (- 1074) (mag64 b)"
    proof (cases "e = 0")
      case True
      then have f: "0 < unat f" "mag64 b = 0 * 2 ^ 52 + unat f" using False unfolding m64 by simp_all
      then obtain h where h: "big_highest ((big_none 8) [0 := f]) = int h" "2 ^ h \<le> unat f" "unat f < 2 ^ Suc h"
        using big_highest_sound(2) [of "(big_none 8) [0 := f]"] by (auto simp: one_limb)
      have "(2::nat) ^ h < 2 ^ 52" using h(2) fl by linarith
      then have h52: "h < 52" using power_less_imp_less_exp [of "2::nat" h 52] by simp
      have n: "nat (52 - int h) = 52 - h" by simp
      have "unat f * 2 ^ (52 - h) < 2 ^ Suc h * 2 ^ (52 - h)" using h(3) by (intro mult_strict_right_mono) simp_all
      also have "\<dots> = 2 ^ 53" unfolding power_add [symmetric] using h52 by simp
      finally have "unat f * 2 ^ (52 - h) < 2 ^ 512" by simp
      then have mv: "bval mg = unat f * 2 ^ (52 - h)" "length mg = 8"
        using True by (simp_all add: mg_def big_shl_sound one_limb h(1) n)
      have x: "ex - 52 = - 1074 - int (52 - h)" using True h52 by (simp add: ex_def h(1))
      have "real (bval mg) * 2 powi (ex - 52) = real (unat f) * 2 powi (- 1074)"
        unfolding mv x powi2_diff powi2_nat [OF of_nat_0_le_iff] nat_int by simp
      also have "\<dots> = mag_val 52 (- 1074) (mag64 b)" unfolding f(2) using fl by (subst mag_val_encode) simp_all
      finally show ?thesis using mv by simp
    next
      case False
      then obtain d where d: "unat e = Suc d" unfolding e0 by (cases "unat e") auto
      have p: "(push_bit 52 1 :: u64) = 0x10000000000000" by simp
      have "unat (push_bit 52 1 OR f) = 2 ^ 52 + unat f" unfolding p
        using unat_or_disjoint [of "0x10000000000000 :: u64" 52 f] fl by simp
      then have "unat (f OR push_bit 52 1) = unat f + 2 ^ 52" by (simp only: or.commute add.commute)
      then have mv: "bval mg = unat f + 2 ^ 52" "length mg = 8" using False by (simp_all add: mg_def one_limb)
      have "uint e = int (Suc d)" using d by (metis uint_nat)
      then have x: "ex - 52 = - 1074 + int d" using False by (simp add: ex_def)
      have "mag64 b = d * 2 ^ 52 + (unat f + 2 ^ 52)" unfolding m64 d by simp
      then have "mag_val 52 (- 1074) (mag64 b) = real (unat f + 2 ^ 52) * 2 powi (- 1074 + int d)"
        using fl by (simp only:) (intro mag_val_encode; simp)
      then show ?thesis unfolding mv x by simp
    qed
    have pos: "0 < mag_val 52 (- 1074) (mag64 b)" using False by (simp add: mag_val_pos_iff)
    have lt: "mag64 b < inf64" using ne el fl unfolding m64 eM inf64_def by auto
    obtain n where n: "fval256 n = mag_val 52 (- 1074) (mag64 b)" "0 < n" "n < einf256 * 2 ^ 236"
      using f64_representable [of "mag64 b"] False lt by auto
    have sv: "val64 b = (if s then - 1 else 1) * mag_val 52 (- 1074) (mag64 b)" by (simp add: val64_def s_def)
    have r: "round_real256 SF64_RNE s (val64 b) = (enc256 s n, 0)"
      unfolding sv round_real256_signed [OF pos] round256_exact [OF n] by simp
    have "sf256_from_f64 b m t w = hand_over (bag_target m t) (round_real256 SF64_RNE s (val64 b)) w"
      unfolding c using v by (intro pack_exact) (simp_all add: sv)
    moreover have "n < 2 ^ 255" using n(3) by (simp add: einf256_def)
    ultimately show ?thesis using cls ne r n sv by (simp add: ieee_from_f64_def hand_over_def val256_def flip: s_def)
  qed
  show "sf256_from_f64 b m t w = (ieee_from_f64 b, w)"
  proof (cases "e = 0x7FF")
    case True
    define p where "p = big_set_bit (big_shl ((big_none 8) [0 := f]) (kFrac - 52)) (kFrac - 1)"
    have "unat f * 2 ^ 184 < 2 ^ 52 * 2 ^ 184" using fl by (intro mult_strict_right_mono) simp_all
    then have l: "unat f * 2 ^ 184 < 2 ^ 236" by simp
    then have p: "bval p = (unat f * 2 ^ 184 OR 2 ^ 235)" "length p = 8"
      unfolding p_def by (simp_all add: big_set_bit_sound big_shl_sound one_limb kFrac_def)
    have "unat f * 2 ^ 184 OR 2 ^ 235 < (2::nat) ^ 236"
    proof -
      have "take_bit 236 (unat f * 2 ^ 184 OR 2 ^ 235) = take_bit 236 (unat f * 2 ^ 184) OR take_bit 236 (2 ^ 235)" by (rule take_bit_or)
      also have "\<dots> = unat f * 2 ^ 184 OR 2 ^ 235" using l by (simp add: take_bit_nat_eq_self del: take_bit_of_exp)
      finally show ?thesis by (metis take_bit_nat_less_exp)
    qed
    then have "raw s f256_kExpMax p = enc256 s (einf256 * 2 ^ 236 + (unat f * 2 ^ 184 OR 2 ^ 235))"
      using p by (simp add: raw_enc einf256_def)
    moreover have "mag64 b mod 2 ^ 52 = unat f" unfolding m64 using fl by simp
    ultimately show ?thesis using True cls unfolding code by (simp add: ieee_from_f64_def p_def s_def)
  next
    case False
    then show ?thesis using fin by blast
  qed
  show "val256 (ieee_from_f64 b) = val64 b \<and> mag256 (ieee_from_f64 b) < einf256 * 2 ^ 236" if "\<not> is_nan_bits b" "\<not> is_inf_bits b"
    using fin that cls by blast
qed

section \<open>There and back\<close>

lemma f64_through_f256:
  assumes "\<not> is_nan_bits b"
  shows "ieee_to_f64 m (ieee_from_f64 b) = (b, 0)"
proof (cases "is_inf_bits b")
  case True
  have "einf256 * 2 ^ 236 < 2 ^ 255" by (simp add: einf256_def)
  then have "is_inf256 (inf256 s)" "\<not> is_nan256 (inf256 s)" "sgn256 (inf256 s) = s" for s
    by (simp_all add: class256 inf256_def)
  then show ?thesis using True assms is_inf_enc64 [OF True] by (simp add: ieee_to_f64_def ieee_from_f64_def Let_def)
next
  case inf: False
  note fr = sf256_from_f64_sound(2) [OF assms inf]
  show ?thesis
  proof (cases "mag64 b = 0")
    case True
    then have v: "val64 b = 0" by (simp add: val64_eq_0_iff class_iff)
    have "b = enc64 (sgn64 b) 0" using enc64_sgn_mag [of b] True by simp
    then show ?thesis using assms inf v by (simp add: ieee_to_f64_def ieee_from_f64_def Let_def zero_not_special)
  next
    case False
    define x where "x = ieee_from_f64 b"
    have mb: "mag64 b < inf64" using assms inf by (simp add: class_iff)
    have pos: "0 < mag_val 52 (- 1074) (mag64 b)" using False by (simp add: mag_val_pos_iff)
    have vx: "val256 x = val64 b" "mag256 x < einf256 * 2 ^ 236" using fr by (simp_all add: x_def)
    have ab: "abs256 x = mag_val 52 (- 1074) (mag64 b)" using vx(1) pos unfolding abs_val256 [symmetric] by (simp add: val64_def)
    have sx: "sgn256 x = sgn64 b"
    proof -
      have sg: "0 < u \<Longrightarrow> (if p then - 1 else 1) * u < 0 \<longleftrightarrow> p" "0 < u \<Longrightarrow> (if p then - u else u) < 0 \<longleftrightarrow> p" for p and u :: real by simp_all
      have "val256 x < 0 \<longleftrightarrow> sgn256 x" unfolding val256_def abs256_def [symmetric] ab by (rule sg(1) [OF pos])
      moreover have "val64 b < 0 \<longleftrightarrow> sgn64 b" unfolding val64_def by (rule sg(2) [OF pos])
      ultimately show ?thesis using vx by simp
    qed
    have "0 < mag256 x" using ab pos unfolding abs256_def by (metis fval256_pos(1))
    then have "\<not> is_nan256 x" "\<not> is_inf256 x" "\<not> is_zero256 x" using vx(2) by (simp_all add: class256)
    moreover have "ieee_round_late 52 (- 1074) 2047 m s (mag_val 52 (- 1074) (mag64 b)) = (mag64 b, 0)" for s
      using False mb by (simp add: ieee_round_late_def round_mag_mag_val inf64_def)
    ultimately show ?thesis by (simp add: ieee_to_f64_def Let_def sx ab flip: x_def)
  qed
qed

lemma f64_nan_through_f256:
  assumes "is_nan_bits b"
  shows "is_nan_bits (fst (ieee_to_f64 m (ieee_from_f64 b)))" "sgn64 (fst (ieee_to_f64 m (ieee_from_f64 b))) = sgn64 b"
    "snd (ieee_to_f64 m (ieee_from_f64 b)) = 0"
    "mag64 (fst (ieee_to_f64 m (ieee_from_f64 b))) = inf64 + (2 ^ 51 + (mag64 b mod 2 ^ 52 div 2 ^ 40 OR 2 ^ 11))"
proof -
  define f where "f = mag64 b mod 2 ^ 52"
  define P where "P = (f * 2 ^ 184 OR 2 ^ 235)"
  have fl: "f < 2 ^ 52" by (simp add: f_def)
  then have "f * 2 ^ 184 < 2 ^ 52 * 2 ^ 184" by (intro mult_strict_right_mono) simp_all
  then have l: "f * 2 ^ 184 < 2 ^ 236" by simp
  have Pl: "P < 2 ^ 236"
  proof -
    have "take_bit 236 P = take_bit 236 (f * 2 ^ 184) OR take_bit 236 (2 ^ 235)" unfolding P_def by (rule take_bit_or)
    also have "\<dots> = P" unfolding P_def using l by (simp add: take_bit_nat_eq_self del: take_bit_of_exp)
    finally show ?thesis by (metis take_bit_nat_less_exp)
  qed
  have b235: "bit P 235" unfolding P_def bit_or_iff bit_exp_iff by simp
  have P0: "0 < P" using b235 by (metis bit_0_eq bot_apply bot_bool_def gr0I)
  have Pd: "P div 2 ^ 224 = (f div 2 ^ 40 OR 2 ^ 11)"
  proof -
    have "P = push_bit 184 f OR push_bit 235 1" unfolding P_def push_bit_eq_mult by simp
    then have "P div 2 ^ 224 = drop_bit 224 (push_bit 184 f OR push_bit 235 1)" by (simp only: drop_bit_eq_div)
    also have "\<dots> = drop_bit 224 (push_bit 184 f) OR drop_bit 224 (push_bit 235 1)" by (rule drop_bit_or)
    also have "drop_bit 224 (push_bit 184 f) = f div 2 ^ 40"
    proof -
      have "f * 2 ^ 184 div 2 ^ 224 = f * 2 ^ 184 div (2 ^ 40 * 2 ^ 184)" by simp
      also have "\<dots> = f div 2 ^ 40" by (rule div_mult_mult2) simp
      finally show ?thesis by (simp add: drop_bit_eq_div push_bit_eq_mult)
    qed
    also have "drop_bit 224 (push_bit 235 1) = (2 ^ 11 :: nat)" by (simp add: drop_bit_eq_div push_bit_eq_mult)
    finally show ?thesis .
  qed
  have Pq: "f div 2 ^ 40 OR 2 ^ 11 < 2 ^ 12" unfolding Pd [symmetric] using Pl by (simp add: less_mult_imp_div_less)
  define x where "x = ieee_from_f64 b"
  have x: "x = enc256 (sgn64 b) (einf256 * 2 ^ 236 + P)" using assms by (simp add: x_def ieee_from_f64_def f_def P_def)
  have lt: "einf256 * 2 ^ 236 + P < 2 ^ 255" using Pl by (simp add: einf256_def)
  have mx: "mag256 x = einf256 * 2 ^ 236 + P" "sgn256 x = sgn64 b" unfolding x using lt by simp_all
  have bx: "bit (mag256 x) 235"
  proof -
    have "bit (mag256 x mod 2 ^ 236) 235" unfolding mx using Pl b235 by simp
    moreover have "bit (mag256 x mod 2 ^ 236) 235 \<longleftrightarrow> bit (mag256 x) 235" by (rule take_bit_bit) simp
    ultimately show ?thesis by blast
  qed
  have nx: "is_nan256 x" "\<not> is_snan256 x" using P0 bx by (simp_all add: class256 mx(1))
  have pm: "mag256 x mod 2 ^ 236 div 2 ^ 224 = (f div 2 ^ 40 OR 2 ^ 11)" unfolding mx Pd [symmetric] using Pl by simp
  have or51: "2 ^ 51 OR (f div 2 ^ 40 OR 2 ^ 11) = 2 ^ 51 + (f div 2 ^ 40 OR 2 ^ 11)"
    using Pq by (intro nat_or_disjoint [of _ 51]) simp_all
  have r: "ieee_to_f64 m x = (enc64 (sgn64 b) (inf64 + (2 ^ 51 + (f div 2 ^ 40 OR 2 ^ 11))), 0)"
    using nx by (simp only: ieee_to_f64_def Let_def mx(2) pm or51 if_True if_False)
  have lm: "inf64 + (2 ^ 51 + (f div 2 ^ 40 OR 2 ^ 11)) < 2 ^ 63" using Pq by (simp add: inf64_def)
  show "is_nan_bits (fst (ieee_to_f64 m (ieee_from_f64 b)))" "sgn64 (fst (ieee_to_f64 m (ieee_from_f64 b))) = sgn64 b"
    "snd (ieee_to_f64 m (ieee_from_f64 b)) = 0"
    "mag64 (fst (ieee_to_f64 m (ieee_from_f64 b))) = inf64 + (2 ^ 51 + (mag64 b mod 2 ^ 52 div 2 ^ 40 OR 2 ^ 11))"
    unfolding x_def [symmetric] r f_def [symmetric] fst_conv snd_conv class_iff mag64_enc64 [OF lm] sgn64_enc64 [OF lm]
    by (simp_all add: inf64_def)
qed

section \<open>Conversion to 64-bit integers\<close>

text \<open>
  A value with the sign bit set, a negative zero included, is invalid for the unsigned conversion;
  every other value is rounded and saturates.
\<close>

definition ieee_to_u64 :: "sf64_rounding_mode \<Rightarrow> sf256 \<Rightarrow> u64 \<times> u32" where
  "ieee_to_u64 m x =
     (if is_nan256 x then (0, SF64_FE_INVALID)
      else if sgn256 x then (0, SF64_FE_INVALID)
      else let i = rnd_int m False (abs256 x)
           in if is_inf256 x \<or> 2 ^ 64 \<le> i then (0xFFFFFFFFFFFFFFFF, SF64_FE_INVALID)
              else (word_of_int i, if real_of_int i = abs256 x then 0 else SF64_FE_INEXACT))"

definition ieee_to_i64 :: "sf64_rounding_mode \<Rightarrow> sf256 \<Rightarrow> u64 \<times> u32" where
  "ieee_to_i64 m x =
     (let s = sgn256 x; i = rnd_int m s (abs256 x); v = (if s then - i else i)
      in if is_nan256 x then (0, SF64_FE_INVALID)
         else if is_inf256 x \<or> \<not> (- (2 ^ 63) \<le> v \<and> v < 2 ^ 63)
              then (if s then 0x8000000000000000 else 0x7FFFFFFFFFFFFFFF, SF64_FE_INVALID)
         else (word_of_int v, if real_of_int i = abs256 x then 0 else SF64_FE_INEXACT))"

lemma big_exponent:
  assumes x: "finite256 x" and e: "63 < d_exponent (decode x)"
  shows "2 ^ 64 \<le> rnd_int m s (abs256 x)"
proof -
  define ex where "ex = d_exponent (decode x)"
  note d = finite256_D [OF x, folded ex_def]
  have "real (2 ^ 236) \<le> real (bval (d_sig (decode x)))" unfolding of_nat_le_iff by (rule normalisedD(2) [OF d(1)])
  then have "2 ^ 236 * 2 powi (ex - 236) \<le> abs256 x"
    unfolding abs256_def d(2) by (intro mult_right_mono) (simp_all only: less_imp_le [OF powi2_pos] of_nat_power of_nat_numeral)
  moreover have "2 ^ 236 * 2 powi (ex - 236) = (2::real) powi ex" using powi2_add [of 236 "ex - 236"] by (simp add: powi2_nat)
  moreover have "(2::real) powi 64 \<le> 2 powi ex" using e by (intro power_int_increasing) (simp_all add: ex_def)
  moreover have "(2::real) powi 64 = 2 ^ 64" using powi2_nat [of 64] by simp
  ultimately have "real_of_int (2 ^ 64) \<le> abs256 x" by simp
  then have "2 ^ 64 \<le> \<lfloor>abs256 x\<rfloor>" by (simp only: le_floor_iff)
  then show ?thesis using rnd_int_bounds(1) [of "abs256 x" m s] by linarith
qed

lemma one_limb_value: "length a = 8 \<Longrightarrow> bval a < 2 ^ 64 \<Longrightarrow> unat (a ! 0) = bval a" for a :: big
  by (subst low_limb) auto

lemma big_highest_le:
  assumes "bval a < 2 ^ 512"
  shows "big_highest a > 63 \<longleftrightarrow> 2 ^ 64 \<le> bval a"
proof (cases "bval a = 0")
  case True
  then show ?thesis using big_highest_sound(1) [of a] by simp
next
  case False
  then obtain h where h: "big_highest a = int h" "2 ^ h \<le> bval a" "bval a < 2 ^ Suc h"
    using big_highest_sound(2) [of a] by auto
  show ?thesis
  proof (cases "63 < h")
    case True
    then have "(2::nat) ^ 64 \<le> 2 ^ h" by (intro power_increasing) simp_all
    then show ?thesis using True h by linarith
  next
    case False
    then have "(2::nat) ^ Suc h \<le> 2 ^ 64" by (intro power_increasing) simp_all
    then show ?thesis using False h by linarith
  qed
qed

lemma f256_to_u64_sound: "f256_to_u64_impl m x tg w = hand_over tg (ieee_to_u64 m x) w"
proof -
  consider (nan) "is_nan256 x" | (sign) "\<not> is_nan256 x" "sgn256 x" | (inf) "\<not> is_nan256 x" "\<not> sgn256 x" "is_inf256 x"
    | (zero) "is_zero256 x" "\<not> sgn256 x" | (big) "finite256 x" "\<not> sgn256 x" "63 < d_exponent (decode x)"
    | (fin) "finite256 x" "\<not> sgn256 x" "d_exponent (decode x) \<le> 63"
    unfolding finite256_def by (metis not_less)
  then show ?thesis
  proof cases
    case zero
    then have "abs256 x = 0" by (simp add: abs256_def fval256_pos class256)
    then show ?thesis using zero rnd_int_of_int [of m False 0]
      by (simp add: f256_to_u64_impl_def ieee_to_u64_def Let_def hand_over_def zero_not_special)
  next
    case big
    then show ?thesis using big_exponent [OF big(1,3), of m False]
      by (simp add: f256_to_u64_impl_def ieee_to_u64_def Let_def hand_over_def finite256_def)
  next
    case fin
    obtain mg ix where r: "rounded_integer (decode x) m = (mg, ix)" by (metis surj_pair)
    have e: "d_exponent (decode x) < 236" using fin(3) by linarith
    note s = rounded_integer_sound [OF fin(1) e, of m, unfolded r fst_conv snd_conv]
    define i where "i = rnd_int m False (abs256 x)"
    have si: "int (bval mg) = i" "ix \<longleftrightarrow> real_of_int i \<noteq> abs256 x" using s(1,3) fin(2) by (simp_all add: i_def)
    have "bval mg < 2 ^ 512" using s(4) by simp
    have iv: "2 ^ 64 \<le> bval mg \<longleftrightarrow> 2 ^ 64 \<le> i" unfolding si(1) [symmetric] by simp
    have hi: "63 < big_highest mg \<longleftrightarrow> 2 ^ 64 \<le> i" unfolding big_highest_le [OF \<open>bval mg < 2 ^ 512\<close>] by (rule iv)
    have low: "mg ! 0 = word_of_int i" if "\<not> 2 ^ 64 \<le> i"
      using one_limb_value [OF s(2)] that iv unfolding si(1) [symmetric]
      by (intro word_eq_unatI) (simp add: unat_of_nat)
    have "f256_to_u64_impl m x tg w = (if 2 ^ 64 \<le> i then (0xFFFFFFFFFFFFFFFF, raise_flags tg SF64_FE_INVALID w)
      else (mg ! 0, if ix then raise_flags tg SF64_FE_INEXACT w else w))"
      using fin by (simp add: f256_to_u64_impl_def Let_def finite256_def r hi)
    moreover have "ieee_to_u64 m x = (if 2 ^ 64 \<le> i then (0xFFFFFFFFFFFFFFFF, SF64_FE_INVALID)
      else (word_of_int i, if ix then SF64_FE_INEXACT else 0))"
      using fin by (simp add: ieee_to_u64_def Let_def finite256_def si(2) flip: i_def)
    ultimately show ?thesis using low by (simp add: hand_over_def)
  qed (simp_all add: f256_to_u64_impl_def ieee_to_u64_def Let_def hand_over_def)
qed

lemma f256_to_i64_sound: "f256_to_i64_impl m x tg w = hand_over tg (ieee_to_i64 m x) w"
proof -
  define v where "v = (if sgn256 x then - rnd_int m (sgn256 x) (abs256 x) else rnd_int m (sgn256 x) (abs256 x))"
  consider (nan) "is_nan256 x" | (inf) "\<not> is_nan256 x" "is_inf256 x" | (zero) "is_zero256 x"
    | (big) "finite256 x" "63 < d_exponent (decode x)" | (fin) "finite256 x" "d_exponent (decode x) \<le> 63"
    unfolding finite256_def by (metis not_less)
  then show ?thesis
  proof cases
    case zero
    then have "abs256 x = 0" by (simp add: abs256_def fval256_pos class256)
    then show ?thesis using zero rnd_int_of_int [of m _ 0]
      by (simp add: f256_to_i64_impl_def ieee_to_i64_def Let_def hand_over_def zero_not_special)
  next
    case big
    have "\<not> (- (2 ^ 63) \<le> v \<and> v < 2 ^ 63)" using big_exponent [OF big, of m "sgn256 x"] unfolding v_def by (cases "sgn256 x") simp_all
    then show ?thesis using big
      by (simp add: f256_to_i64_impl_def ieee_to_i64_def Let_def hand_over_def finite256_def flip: v_def)
  next
    case fin
    obtain mg ix where r: "rounded_integer (decode x) m = (mg, ix)" by (metis surj_pair)
    have e: "d_exponent (decode x) < 236" using fin(2) by linarith
    note s = rounded_integer_sound [OF fin(1) e, of m, unfolded r fst_conv snd_conv]
    define i where "i = rnd_int m (sgn256 x) (abs256 x)"
    have si: "int (bval mg) = i" "ix \<longleftrightarrow> real_of_int i \<noteq> abs256 x" using s(1,3) by (simp_all add: i_def)
    have "bval mg < 2 ^ 512" using s(4) by simp
    have iv: "2 ^ 64 \<le> bval mg \<longleftrightarrow> 2 ^ 64 \<le> i" unfolding si(1) [symmetric] by simp
    have hi: "63 < big_highest mg \<longleftrightarrow> 2 ^ 64 \<le> i" unfolding big_highest_le [OF \<open>bval mg < 2 ^ 512\<close>] by (rule iv)
    have low: "unat (mg ! 0) = bval mg" "mg ! 0 = word_of_int i" if "\<not> 2 ^ 64 \<le> i"
    proof -
      show u: "unat (mg ! 0) = bval mg" using one_limb_value [OF s(2)] that iv by simp
      then show "mg ! 0 = word_of_int i" using that iv unfolding si(1) [symmetric]
        by (intro word_eq_unatI) (simp add: unat_of_nat)
    qed
    define C where "C \<longleftrightarrow> big_highest mg > 63 \<or> \<not> sgn256 x \<and> big_bit mg 63 \<or> sgn256 x \<and> big_bit mg 63 \<and> mg ! 0 \<noteq> 0x8000000000000000"
    have C: "C \<longleftrightarrow> \<not> (- (2 ^ 63) \<le> v \<and> v < 2 ^ 63)"
    proof (cases "2 ^ 64 \<le> i")
      case True
      then show ?thesis unfolding C_def hi v_def i_def [symmetric] by (cases "sgn256 x") simp_all
    next
      case False
      have "bval mg < 2 ^ Suc 63" using False iv by simp
      then have b: "big_bit mg 63 \<longleftrightarrow> 2 ^ 63 \<le> i" unfolding big_bit_sound si(1) [symmetric] by (simp add: bit_top)
      have m: "mg ! 0 = 0x8000000000000000 \<longleftrightarrow> i = 2 ^ 63" unfolding word_unat_eq_iff low(1) [OF False] si(1) [symmetric] by simp
      have "0 \<le> i" unfolding si(1) [symmetric] by simp
      then show ?thesis using False unfolding C_def hi v_def i_def [symmetric] b m by (cases "sgn256 x") auto
    qed
    have "f256_to_i64_impl m x tg w = (if C then (if sgn256 x then 0x8000000000000000 else 0x7FFFFFFFFFFFFFFF, raise_flags tg SF64_FE_INVALID w)
      else (if sgn256 x then - (mg ! 0) else mg ! 0, if ix then raise_flags tg SF64_FE_INEXACT w else w))"
      using fin by (simp add: f256_to_i64_impl_def Let_def finite256_def r flip: C_def)
    moreover have "ieee_to_i64 m x = (if C then (if sgn256 x then 0x8000000000000000 else 0x7FFFFFFFFFFFFFFF, SF64_FE_INVALID)
      else (word_of_int v, if ix then SF64_FE_INEXACT else 0))"
      unfolding C using fin by (simp add: ieee_to_i64_def Let_def finite256_def si(2) flip: i_def v_def)
    moreover have "(if sgn256 x then - (mg ! 0) else mg ! 0) = word_of_int v" if "\<not> C"
    proof -
      have "\<not> 2 ^ 64 \<le> i" using that unfolding C_def hi by blast
      then show ?thesis using low(2) unfolding v_def i_def [symmetric] by simp
    qed
    ultimately show ?thesis by (simp add: hand_over_def)
  qed (simp_all add: f256_to_i64_impl_def ieee_to_i64_def Let_def hand_over_def)
qed

section \<open>Comparison\<close>

lemma val256_less_iff:
  "val256 a < val256 b \<longleftrightarrow>
    (if sgn256 a then (if sgn256 b then mag256 b < mag256 a else mag256 a \<noteq> 0 \<or> mag256 b \<noteq> 0)
     else \<not> sgn256 b \<and> mag256 a < mag256 b)"
proof -
  have p: "0 \<le> fval256 n" "0 < fval256 n \<longleftrightarrow> 0 < n" for n by (rule fval256_pos)+
  have "- fval256 m < fval256 n \<longleftrightarrow> m \<noteq> 0 \<or> n \<noteq> 0" for m n using p(1) [of m] p(1) [of n] p(2) [of m] p(2) [of n] by linarith
  moreover have "\<not> fval256 m < - fval256 n" for m n using p(1) [of m] p(1) [of n] by linarith
  ultimately show ?thesis by (simp add: val256_def)
qed

lemma val256_eq_iff: "val256 a = val256 b \<longleftrightarrow> a = b \<or> mag256 a = 0 \<and> mag256 b = 0"
proof -
  have "val256 a = val256 b \<longleftrightarrow> \<not> val256 a < val256 b \<and> \<not> val256 b < val256 a" by linarith
  also have "\<dots> \<longleftrightarrow> sgn256 a = sgn256 b \<and> mag256 a = mag256 b \<or> mag256 a = 0 \<and> mag256 b = 0"
    unfolding val256_less_iff by auto
  also have "sgn256 a = sgn256 b \<and> mag256 a = mag256 b \<longleftrightarrow> a = b" using sf256_fields_eqI by blast
  finally show ?thesis .
qed

lemma limbs_inj: "limbs a = limbs b \<longleftrightarrow> a = b"
  using sf256_eqI [of a b] by (auto simp: bits256_def)

lemma drop_sign_sound: "bval ((limbs x) [3 := limb3 x AND NOT (push_bit 63 1)]) = mag256 x"
proof -
  have "(NOT (push_bit 63 1) :: u64) = mask 63" by (simp add: mask_eq_exp_minus_1)
  then have u: "unat (limb3 x AND NOT (push_bit 63 1)) = unat (limb3 x) mod 2 ^ 63" by (metis unat_and_mask)
  have "bval ((limbs x) [3 := limb3 x AND NOT (push_bit 63 1)]) = bval [limb0 x, limb1 x, limb2 x] + 2 ^ 192 * (unat (limb3 x) mod 2 ^ 63)"
    by (simp only: limbs_def u [symmetric]) simp
  also have "\<dots> = bits256 x mod 2 ^ (192 + 63)" unfolding bits256_top by (rule low_mod [OF low_limbs_less, symmetric])
  finally show ?thesis by (simp add: mag256_def)
qed

lemma sf256_compare_sound:
  "sf256_eq a b \<longleftrightarrow> \<not> is_nan256 a \<and> \<not> is_nan256 b \<and> val256 a = val256 b"
  "sf256_lt a b \<longleftrightarrow> \<not> is_nan256 a \<and> \<not> is_nan256 b \<and> val256 a < val256 b"
  "sf256_le a b \<longleftrightarrow> \<not> is_nan256 a \<and> \<not> is_nan256 b \<and> val256 a \<le> val256 b"
proof -
  show eq: "sf256_eq a b \<longleftrightarrow> \<not> is_nan256 a \<and> \<not> is_nan256 b \<and> val256 a = val256 b"
    unfolding val256_eq_iff by (auto simp: sf256_eq_def Let_def limbs_inj is_zero256_def)
  have c: "compare_from_top (rev ((limbs a) [3 := limb3 a AND NOT (push_bit 63 1)])) (rev ((limbs b) [3 := limb3 b AND NOT (push_bit 63 1)]))
    = (if mag256 a < mag256 b then - 1 else if mag256 b < mag256 a then 1 else 0)"
    by (subst compare_from_top_sound) (simp_all only: drop_sign_sound, simp add: limbs_def)
  show lt: "sf256_lt a b \<longleftrightarrow> \<not> is_nan256 a \<and> \<not> is_nan256 b \<and> val256 a < val256 b"
    unfolding sf256_lt_def Let_def c val256_less_iff decode_simps is_zero256_def by auto
  show "sf256_le a b \<longleftrightarrow> \<not> is_nan256 a \<and> \<not> is_nan256 b \<and> val256 a \<le> val256 b"
    unfolding sf256_le_def Let_def eq lt decode_simps by auto
qed

section \<open>Conversion from integers, negation\<close>

lemma pack_integer:
  assumes "unat mg < 2 ^ 64"
  shows "pack_scaled s ((big_none 8) [0 := mg]) 0 SF64_RNE tg w = (fst (round_real256 SF64_RNE s ((if s then - 1 else 1) * real (unat mg))), w)"
    "val256 (fst (round_real256 SF64_RNE s ((if s then - 1 else 1) * real (unat mg)))) = (if s then - 1 else 1) * real (unat mg)"
proof -
  have p: "pack_scaled s ((big_none 8) [0 := mg]) 0 SF64_RNE tg w = hand_over tg (round_real256 SF64_RNE s ((if s then - 1 else 1) * real (unat mg))) w"
    by (rule pack_exact) (simp_all add: one_limb)
  have "snd (round_real256 SF64_RNE s ((if s then - 1 else 1) * real (unat mg))) = 0
    \<and> val256 (fst (round_real256 SF64_RNE s ((if s then - 1 else 1) * real (unat mg)))) = (if s then - 1 else 1) * real (unat mg)"
  proof (cases "unat mg = 0")
    case False
    then have pos: "0 < unat mg" by simp
    have "unat mg \<le> 2 ^ 236" using assms by simp
    then obtain n where n: "fval256 n = real (unat mg)" "n < einf256 * 2 ^ 236" "round256 SF64_RNE s (real (unat mg)) = (n, 0)"
      using int_datum [OF pos] by metis
    have "0 < real (unat mg)" using pos by (simp only: of_nat_0_less_iff)
    moreover have "n < 2 ^ 255" using n(2) by (simp add: einf256_def)
    ultimately show ?thesis unfolding round_real256_signed [OF \<open>0 < real (unat mg)\<close>] using n(1,3) by (simp add: val256_def)
  qed simp
  then show "pack_scaled s ((big_none 8) [0 := mg]) 0 SF64_RNE tg w = (fst (round_real256 SF64_RNE s ((if s then - 1 else 1) * real (unat mg))), w)"
    "val256 (fst (round_real256 SF64_RNE s ((if s then - 1 else 1) * real (unat mg)))) = (if s then - 1 else 1) * real (unat mg)"
    unfolding p by (simp_all add: hand_over_def)
qed

lemma sf256_from_u64_sound: "val256 (fst (sf256_from_u64 x m t w)) = real (unat x)" "snd (sf256_from_u64 x m t w) = w"
proof -
  have "unat x < 2 ^ 64" using unsigned_less [where 'a = nat, of x] by simp
  note p = pack_integer [OF this, of False, unfolded if_False mult_1]
  show "val256 (fst (sf256_from_u64 x m t w)) = real (unat x)" "snd (sf256_from_u64 x m t w) = w"
    using p by (simp_all add: sf256_from_u64_def)
qed

lemma sf256_from_i64_sound: "val256 (fst (sf256_from_i64 x m t w)) = real_of_int (sint x)" "snd (sf256_from_i64 x m t w) = w"
proof -
  define mg where "mg = (if sint x < 0 then 0 - x else x)"
  have lt: "unat mg < 2 ^ 64" using unsigned_less [where 'a = nat, of mg] by simp
  have v: "(if sint x < 0 then - 1 else 1) * real (unat mg) = real_of_int (sint x)"
  proof -
    have neg: "sint x < 0 \<longleftrightarrow> sgn64 x"
    proof (cases "sgn64 x")
      case True
      then show ?thesis using sint_negative [OF True] True unsigned_eq_0_iff [where 'a = nat, of "0 - x"] by linarith
    qed (simp add: sint_nonneg)
    have "int (unat mg) = \<bar>sint x\<bar>"
      unfolding mg_def neg using sint_negative(1) [of x] sint_nonneg [of x] by (cases "sgn64 x") simp_all
    then have "real (unat mg) = \<bar>real_of_int (sint x)\<bar>" by (metis of_int_abs of_int_of_nat_eq)
    moreover have "(if i < 0 then - 1 else 1) * \<bar>real_of_int i\<bar> = real_of_int i" for i :: int by simp
    ultimately show ?thesis by (simp only:)
  qed
  note p = pack_integer [OF lt, of "sint x < 0", unfolded v]
  show "val256 (fst (sf256_from_i64 x m t w)) = real_of_int (sint x)" "snd (sf256_from_i64 x m t w) = w"
    using p by (simp_all add: sf256_from_i64_def Let_def flip: mg_def)
qed

lemma flip_sign_sound: "mag256 (flip_sign b) = mag256 b" "sgn256 (flip_sign b) \<longleftrightarrow> \<not> sgn256 b" "val256 (flip_sign b) = - val256 b"
proof -
  have top: "(push_bit 63 1 :: u64) = kSignMask" by (simp add: kSignMask_def)
  have s: "sgn256 x \<longleftrightarrow> sgn64 (limb3 x)" for x unfolding sgn256_top sgn64_drop ..
  have m: "mag256 x = bval [limb0 x, limb1 x, limb2 x] + 2 ^ 192 * mag64 (limb3 x)" for x
  proof -
    have "mag256 x = bits256 x mod 2 ^ (192 + 63)" by (simp add: mag256_def)
    also have "\<dots> = bval [limb0 x, limb1 x, limb2 x] + 2 ^ 192 * (unat (limb3 x) mod 2 ^ 63)"
      unfolding bits256_top by (rule low_mod [OF low_limbs_less])
    finally show ?thesis by (simp add: mag64_def)
  qed
  show f: "mag256 (flip_sign b) = mag256 b" "sgn256 (flip_sign b) \<longleftrightarrow> \<not> sgn256 b"
    unfolding m s flip_sign_def top by (simp_all flip: sf64_neg_def)
  show "val256 (flip_sign b) = - val256 b" unfolding val256_def f by simp
qed

end
