(* ===== verification/Sf_F256_Props.thy ===== *)
theory Sf_F256_Props
  imports Sf_F256_Conv
begin

text \<open>
  What \<open>src/fp256/big_uint.h\<close> and \<open>src/fp256/soft_f256.cpp\<close> promise.  An operation is stated with
  the store its flags go to: \<open>hand_over tg r w\<close> is the result \<open>fst r\<close> with the flags \<open>snd r\<close> raised
  at the target \<open>tg\<close>, which is the caller's state object or the thread's bag.
\<close>

text \<open>
  C31: the multiple-limb integers refine the natural numbers.  Read as the number its limbs denote,
  an operation on equal-sized integers is addition and subtraction modulo the width, multiplication
  with both widths, shifts by division and multiplication, the jamming shift, the test of one bit
  and of the low bits, the three-way comparison and the position of the highest bit.
\<close>

theorem big_uint_refines_nat:
  assumes "length a = length b" "a \<noteq> []"
  shows "bval (big_add a b) = (bval a + bval b) mod 2 ^ (64 * length a)
    \<and> int (bval (big_sub a b)) = (int (bval a) - int (bval b)) mod 2 ^ (64 * length a)
    \<and> bval (big_multiply a b) = bval a * bval b
    \<and> bval (big_shl a s) = bval a * 2 ^ s mod 2 ^ (64 * length a)
    \<and> bval (big_shr a s) = bval a div 2 ^ s
    \<and> bval (big_shr_jam a s) = jam (bval a) s
    \<and> (big_bit a i \<longleftrightarrow> odd (bval a div 2 ^ i))
    \<and> (big_any_low a s \<longleftrightarrow> \<not> 2 ^ s dvd bval a)
    \<and> big_compare a b = sgn (int (bval a) - int (bval b))
    \<and> big_highest a = (if bval a = 0 then - 1 else \<lfloor>log 2 (real (bval a))\<rfloor>)"
proof -
  have "big_highest a = (if bval a = 0 then - 1 else \<lfloor>log 2 (real (bval a))\<rfloor>)"
  proof (cases "bval a = 0")
    case False
    then obtain h where h: "big_highest a = int h" "2 ^ h \<le> bval a" "bval a < 2 ^ Suc h"
      using big_highest_sound(2) [of a] by auto
    have "real (2 ^ h) \<le> real (bval a)" "real (bval a) < real (2 ^ Suc h)" unfolding of_nat_le_iff of_nat_less_iff by (rule h)+
    then have "2 powi int h \<le> real (bval a)" "real (bval a) < 2 powi (int h + 1)"
      by (simp_all add: powi2_nat powi2_add)
    then have "\<lfloor>log 2 (real (bval a))\<rfloor> = int h" by (rule floor_log2_eqI)
    then show ?thesis using False h(1) by simp
  qed (simp add: big_highest_sound)
  moreover have "big_compare a b = sgn (int (bval a) - int (bval b))"
    unfolding big_compare_sound [OF assms(1)] by (simp add: sgn_if)
  ultimately show ?thesis
    using assms by (simp add: big_add_sound big_sub_sound big_multiply_sound big_shl_sound big_shr_sound big_shr_jam_sound
        big_bit_sound bit_iff_odd big_any_low_sound dvd_eq_mod_eq_0)
qed

lemma big_uint_refines_nat_witness:
  "bval (big_add [2 ^ 63, 1] [2 ^ 63, 5 :: u64]) = (bval [2 ^ 63, 1 :: u64] + bval [2 ^ 63, 5 :: u64]) mod 2 ^ 128"
  using big_uint_refines_nat [of "[2 ^ 63, 1]" "[2 ^ 63, 5]" 0 0] by simp

text \<open>
  Decoding is faithful.  Every datum is exactly one of NaN, infinity, zero and finite nonzero;
  a finite nonzero one decodes to a significand of exactly 237 bits and an exponent in range which
  together denote its value, subnormal numbers included.
\<close>

theorem f256_decode_correct:
  "(let d = decode x
    in d_sign d = sgn256 x
       \<and> of_bool (d_nan d) + of_bool (d_inf d) + of_bool (d_zero d) + of_bool (finite256 x) = (1 :: nat)
       \<and> (if finite256 x then
            val256 x = (if d_sign d then - 1 else 1) * (real (bval (d_sig d)) * 2 powi (d_exponent d - 236))
            \<and> 2 ^ 236 \<le> bval (d_sig d) \<and> bval (d_sig d) < 2 ^ 237
            \<and> - 262378 \<le> d_exponent d \<and> d_exponent d \<le> 262143
          else d_zero d = (x = enc256 (sgn256 x) 0) \<and> d_inf d = (x = inf256 (sgn256 x))))"
proof (cases "finite256 x")
  case True
  note d = finite256_D [OF True]
  have c: "\<not> is_nan256 x" "\<not> is_inf256 x" "\<not> is_zero256 x" using True by (simp_all add: finite256_def)
  show ?thesis unfolding Let_def decode_simps val256_def d(2) if_P [OF True]
    by (intro conjI normalisedD(2,3) [OF d(1)] d(3,4) refl) (simp add: c True)
next
  case False
  have i: "is_inf256 x \<longleftrightarrow> x = inf256 (sgn256 x)"
  proof
    assume "is_inf256 x"
    then show "x = inf256 (sgn256 x)" using enc256_self [of x] by (simp add: is_inf256_def inf256_def)
  next
    assume x: "x = inf256 (sgn256 x)"
    have "einf256 * 2 ^ 236 < 2 ^ 255" by (simp add: einf256_def)
    then have "mag256 (inf256 (sgn256 x)) = einf256 * 2 ^ 236" unfolding inf256_def by (rule enc256_fields(2))
    then show "is_inf256 x" unfolding is_inf256_def using x by metis
  qed
  have z: "is_zero256 x \<longleftrightarrow> x = enc256 (sgn256 x) 0" using zero256_enc [of x] by (metis enc_zero256(1))
  have c: "of_bool (is_nan256 x) + of_bool (is_inf256 x) + of_bool (is_zero256 x) = (1 :: nat)"
    using False zero_not_special [of x] unfolding finite256_def
    by (cases "is_nan256 x"; cases "is_inf256 x"; cases "is_zero256 x") simp_all
  show ?thesis unfolding Let_def decode_simps if_not_P [OF False] using c False i z by (simp only: of_bool_eq add_0_right simp_thms)
qed

text \<open>
  C7: addition and subtraction give the correctly rounded sum and difference in every mode for all
  inputs, NaNs, infinities and signed zeros included, with exactly the flags of the operation.  The
  one deviation is \<open>lost_overflow\<close>: a sum that leaves the format because a far smaller operand pushes
  the largest finite number over, in a mode rounding away from zero, raises INEXACT only.
\<close>

theorem f256_add_correct:
  "f256_add_impl m a b tg w =
     (let r = ieee_add256 m a b in hand_over tg (fst r, if lost_overflow m a b then SF64_FE_INEXACT else snd r) w)
   \<and> sf256_sub_r_ex m a b s fm t w =
     (let r = ieee_add256 m a (flip_sign b)
      in hand_over (ex_target fm t s) (fst r, if lost_overflow m a (flip_sign b) then SF64_FE_INEXACT else snd r) w)
   \<and> val256 (flip_sign b) = - val256 b"
  unfolding sf256_sub_r_ex_def by (intro conjI f256_add_sound flip_sign_sound)

text \<open>C8: multiplication and division are correctly rounded with exact flags, in every mode, for every input.\<close>

theorem f256_mul_div_correct:
  "f256_mul_impl m a b tg w = hand_over tg (ieee_mul256 m a b) w
   \<and> f256_div_impl m a b tg w = hand_over tg (ieee_div256 m a b) w"
  by (intro conjI f256_mul_sound f256_div_sound)

text \<open>C10: the square root is correctly rounded with exact flags, in every mode, for every input.\<close>

theorem f256_sqrt_correct: "f256_sqrt_impl m x tg w = hand_over tg (ieee_sqrt256 m x) w"
  by (rule f256_sqrt_sound)

text \<open>
  C9: the fused multiply-add rounds the exact \<open>a * b + c\<close> once, with exact flags, in every mode, for
  every input; a NaN among the factors is handed on before \<open>c\<close> is looked at.
\<close>

theorem f256_fma_correct: "f256_fma_impl m a b c tg w = hand_over tg (ieee_fma256 m a b c) w"
  by (rule f256_fma_sound)

text \<open>
  C11: the remainder is the IEEE one: \<open>a - n * b\<close> with \<open>n\<close> the integer nearest to the quotient, ties to
  even, delivered exactly (its magnitude is the exact one) and without a rounding flag.
\<close>

theorem f256_remainder_correct:
  "f256_remainder_impl a b tg w = hand_over tg (ieee_remainder256 a b) w
   \<and> (if finite256 a \<and> finite256 b
      then \<bar>val256 (fst (f256_remainder_impl a b tg w))\<bar> =
             \<bar>val256 a - real_of_int (rnd_int SF64_RNE False (val256 a / val256 b)) * val256 b\<bar>
      else True)"
  using ieee_remainder256_exact [of a b] by (simp add: f256_remainder_sound hand_over_def)

text \<open>
  Rounding to an integer rounds the exact magnitude in the given mode and keeps the sign; INEXACT
  is raised exactly when the value was not integral.
\<close>

theorem f256_rint_correct: "f256_rint_impl m x tg w = hand_over tg (ieee_rint256 m x) w"
  by (rule f256_rint_sound)

text \<open>
  Narrowing to binary64 is correctly rounded in every mode, subnormal and overflowing results
  included, and raises exactly the flags of that rounding.
\<close>

theorem f256_to_f64_correct: "f256_to_f64_impl m x tg w = hand_over tg (ieee_to_f64 m x) w"
  by (rule f256_to_f64_sound)

text \<open>
  C40: widening a binary64 is exact and raises nothing, and narrowing it again in any mode gives back
  the same bits.  A NaN comes back quiet with its sign, but only the top twelve bits of its payload
  survive, and they move to the low end of the field.
\<close>

theorem f256_f64_roundtrip:
  "(let (x, w') = sf256_from_f64 b fm t w
    in w' = w
       \<and> f256_to_f64_impl m x tg v =
           (if is_nan_bits b then enc64 (sgn64 b) (inf64 + (2 ^ 51 + (mag64 b mod 2 ^ 52 div 2 ^ 40 OR 2 ^ 11))) else b, v)
       \<and> (if is_finite_bits b then val256 x = val64 b else True))"
proof (cases "is_nan_bits b")
  case True
  then have "\<not> is_finite_bits b" by (simp add: class_iff)
  moreover have "ieee_to_f64 m (ieee_from_f64 b) = (enc64 (sgn64 b) (inf64 + (2 ^ 51 + (mag64 b mod 2 ^ 52 div 2 ^ 40 OR 2 ^ 11))), 0)"
    using f64_nan_through_f256 [OF True, of m] enc64_sgn_mag [of "fst (ieee_to_f64 m (ieee_from_f64 b))"] by (simp add: prod_eq_iff)
  ultimately show ?thesis using True by (simp add: sf256_from_f64_sound(1) f256_to_f64_sound hand_over_def)
next
  case False
  moreover have "is_finite_bits b \<Longrightarrow> \<not> is_inf_bits b" by (simp add: class_iff)
  ultimately show ?thesis using f64_through_f256 [OF False, of m] sf256_from_f64_sound(2) [OF False]
    by (simp add: sf256_from_f64_sound(1) f256_to_f64_sound hand_over_def)
qed

text \<open>
  The conversions to 64-bit integers round by mode, saturate at both ends and raise INVALID
  exactly for NaN, infinity and out-of-range values; a set sign bit makes the unsigned conversion
  invalid whatever the magnitude.  The conversions from 64-bit integers are exact.
\<close>

theorem f256_int_conversions_correct:
  "f256_to_u64_impl m x tg w = hand_over tg (ieee_to_u64 m x) w
   \<and> f256_to_i64_impl m x tg w = hand_over tg (ieee_to_i64 m x) w
   \<and> val256 (fst (sf256_from_u64 n fm t w)) = real (unat n) \<and> snd (sf256_from_u64 n fm t w) = w
   \<and> val256 (fst (sf256_from_i64 n fm t w)) = real_of_int (sint n) \<and> snd (sf256_from_i64 n fm t w) = w"
  by (intro conjI f256_to_u64_sound f256_to_i64_sound sf256_from_u64_sound sf256_from_i64_sound)

text \<open>
  The three comparisons are those of the values, quiet and false on NaNs; zeros of either sign are
  equal and an infinity is beyond every finite value.
\<close>

theorem f256_compare_correct:
  "(sf256_eq a b \<longleftrightarrow> \<not> is_nan256 a \<and> \<not> is_nan256 b \<and> val256 a = val256 b)
   \<and> (sf256_lt a b \<longleftrightarrow> \<not> is_nan256 a \<and> \<not> is_nan256 b \<and> val256 a < val256 b)
   \<and> (sf256_le a b \<longleftrightarrow> \<not> is_nan256 a \<and> \<not> is_nan256 b \<and> val256 a \<le> val256 b)"
  using sf256_compare_sound by blast

end
