(* ===== verification/Sf_F128.thy ===== *)
theory Sf_F128
  imports Sf_F256_Round
begin

text \<open>
  \<open>src/fp128/soft_f128.cpp\<close>: the binary128 surface over the vendored Berkeley SoftFloat.  The backend
  is a parameter: the record \<open>softfloat\<close> holds the functions the code calls, each a state
  passing function on the two thread-local variables it reads and writes, its rounding mode and its
  exception flags.  Everything the file itself does is here: the guard object that sets and restores
  those variables, the translation of modes and flags, the byte-order shuffles, the saturation of
  integer results and the classification by bits.
\<close>

section \<open>Data and the backend\<close>

record sf128 =
  lo :: u64
  hi :: u64

text \<open>\<open>float128_t\<close>: the array \<open>v[2]\<close>, in the byte order of the host.\<close>

record float128 =
  v0 :: u64
  v1 :: u64

record backend_state =
  bs_round :: u8
  bs_flags :: u8

type_synonym 'r backend_call = "backend_state \<Rightarrow> 'r \<times> backend_state"

record softfloat =
  f128_add :: "float128 \<Rightarrow> float128 \<Rightarrow> float128 backend_call"
  f128_sub :: "float128 \<Rightarrow> float128 \<Rightarrow> float128 backend_call"
  f128_mul :: "float128 \<Rightarrow> float128 \<Rightarrow> float128 backend_call"
  f128_div :: "float128 \<Rightarrow> float128 \<Rightarrow> float128 backend_call"
  f128_rem :: "float128 \<Rightarrow> float128 \<Rightarrow> float128 backend_call"
  f128_sqrt :: "float128 \<Rightarrow> float128 backend_call"
  f128_mulAdd :: "float128 \<Rightarrow> float128 \<Rightarrow> float128 \<Rightarrow> float128 backend_call"
  f128_roundToInt :: "float128 \<Rightarrow> u8 \<Rightarrow> bool \<Rightarrow> float128 backend_call"
  i32_to_f128 :: "u32 \<Rightarrow> float128 backend_call"
  i64_to_f128 :: "u64 \<Rightarrow> float128 backend_call"
  ui32_to_f128 :: "u32 \<Rightarrow> float128 backend_call"
  ui64_to_f128 :: "u64 \<Rightarrow> float128 backend_call"
  f64_to_f128 :: "u64 \<Rightarrow> float128 backend_call"
  f128_to_f64 :: "float128 \<Rightarrow> u64 backend_call"
  f128_to_i32 :: "float128 \<Rightarrow> u8 \<Rightarrow> bool \<Rightarrow> u32 backend_call"
  f128_to_i64 :: "float128 \<Rightarrow> u8 \<Rightarrow> bool \<Rightarrow> u64 backend_call"
  f128_to_ui32 :: "float128 \<Rightarrow> u8 \<Rightarrow> bool \<Rightarrow> u32 backend_call"
  f128_to_ui64 :: "float128 \<Rightarrow> u8 \<Rightarrow> bool \<Rightarrow> u64 backend_call"
  f128_eq :: "float128 \<Rightarrow> float128 \<Rightarrow> bool backend_call"
  f128_lt :: "float128 \<Rightarrow> float128 \<Rightarrow> bool backend_call"
  f128_le :: "float128 \<Rightarrow> float128 \<Rightarrow> bool backend_call"

text \<open>The world an entry runs in: the flag stores and the backend variables of every thread.\<close>

record f128_world =
  fw_env :: fenv_world
  fw_backend :: "tid \<Rightarrow> backend_state"

definition sf128_backend_get_rounding :: "tid \<Rightarrow> f128_world \<Rightarrow> u8" where
  "sf128_backend_get_rounding t w = bs_round (fw_backend w t)"

definition sf128_backend_set_rounding :: "tid \<Rightarrow> u8 \<Rightarrow> f128_world \<Rightarrow> f128_world" where
  "sf128_backend_set_rounding t v w = w\<lparr>fw_backend := (fw_backend w)(t := (fw_backend w t)\<lparr>bs_round := v\<rparr>)\<rparr>"

definition sf128_backend_get_flags :: "tid \<Rightarrow> f128_world \<Rightarrow> u8" where
  "sf128_backend_get_flags t w = bs_flags (fw_backend w t)"

definition sf128_backend_set_flags :: "tid \<Rightarrow> u8 \<Rightarrow> f128_world \<Rightarrow> f128_world" where
  "sf128_backend_set_flags t v w = w\<lparr>fw_backend := (fw_backend w)(t := (fw_backend w t)\<lparr>bs_flags := v\<rparr>)\<rparr>"

section \<open>Translations\<close>

text \<open>\<open>le\<close> is the preprocessor's answer on the byte order of the host.\<close>

definition backend :: "bool \<Rightarrow> sf128 \<Rightarrow> float128" where
  "backend le x = (if le then \<lparr>v0 = lo x, v1 = hi x\<rparr> else \<lparr>v0 = hi x, v1 = lo x\<rparr>)"

definition external :: "bool \<Rightarrow> float128 \<Rightarrow> sf128" where
  "external le x = (if le then \<lparr>lo = v0 x, hi = v1 x\<rparr> else \<lparr>lo = v1 x, hi = v0 x\<rparr>)"

definition softfloat_round_near_even :: u8 where "softfloat_round_near_even = 0"
definition softfloat_round_minMag :: u8 where "softfloat_round_minMag = 1"
definition softfloat_round_min :: u8 where "softfloat_round_min = 2"
definition softfloat_round_max :: u8 where "softfloat_round_max = 3"
definition softfloat_round_near_maxMag :: u8 where "softfloat_round_near_maxMag = 4"
definition softfloat_flag_inexact :: u8 where "softfloat_flag_inexact = 1"
definition softfloat_flag_underflow :: u8 where "softfloat_flag_underflow = 2"
definition softfloat_flag_overflow :: u8 where "softfloat_flag_overflow = 4"
definition softfloat_flag_infinite :: u8 where "softfloat_flag_infinite = 8"
definition softfloat_flag_invalid :: u8 where "softfloat_flag_invalid = 16"

definition backend_round :: "sf64_rounding_mode \<Rightarrow> u8" where
  "backend_round mode = (case mode of
      SF64_RTZ \<Rightarrow> softfloat_round_minMag
    | SF64_RUP \<Rightarrow> softfloat_round_max
    | SF64_RDN \<Rightarrow> softfloat_round_min
    | SF64_RNA \<Rightarrow> softfloat_round_near_maxMag
    | SF64_RNE \<Rightarrow> softfloat_round_near_even)"

definition public_flags :: "u8 \<Rightarrow> u32" where
  "public_flags flags =
     (let out = 0;
          out = (if flags AND softfloat_flag_invalid \<noteq> 0 then out OR SF64_FE_INVALID else out);
          out = (if flags AND softfloat_flag_infinite \<noteq> 0 then out OR SF64_FE_DIVBYZERO else out);
          out = (if flags AND softfloat_flag_overflow \<noteq> 0 then out OR SF64_FE_OVERFLOW else out);
          out = (if flags AND softfloat_flag_underflow \<noteq> 0 then out OR SF64_FE_UNDERFLOW else out)
      in if flags AND softfloat_flag_inexact \<noteq> 0 then out OR SF64_FE_INEXACT else out)"

section \<open>The guard object\<close>

record BackendContext =
  old_round :: u8
  old_flags :: u8
  ctx_state :: state_ptr
  ctx_explicit :: bool

definition context_ctor :: "sf64_rounding_mode \<Rightarrow> state_ptr \<Rightarrow> bool \<Rightarrow> tid \<Rightarrow> f128_world \<Rightarrow> BackendContext \<times> f128_world" where
  "context_ctor mode state ex t w =
     (let c = \<lparr>old_round = sf128_backend_get_rounding t w, old_flags = sf128_backend_get_flags t w,
               ctx_state = state, ctx_explicit = ex\<rparr>;
          w = sf128_backend_set_rounding t (backend_round mode) w
      in (c, sf128_backend_set_flags t 0 w))"

definition context_dtor :: "fenv_mode \<Rightarrow> tid \<Rightarrow> BackendContext \<Rightarrow> f128_world \<Rightarrow> f128_world" where
  "context_dtor m t c w =
     (let flags = public_flags (sf128_backend_get_flags t w);
          w = sf128_backend_set_rounding t (old_round c) w;
          w = sf128_backend_set_flags t (old_flags c) w
      in if ctx_explicit c then
           (case ctx_state c of
              Some p \<Rightarrow> w\<lparr>fw_env := put_state p (state_flags (fw_env w) p OR flags) (fw_env w)\<rparr>
            | None \<Rightarrow> w)
         else if flags \<noteq> 0 then w\<lparr>fw_env := sf64_fe_raise m t flags (fw_env w)\<rparr>
         else w)"

text \<open>A call of the backend by thread \<open>t\<close>.\<close>

definition call_backend :: "tid \<Rightarrow> 'r backend_call \<Rightarrow> f128_world \<Rightarrow> 'r \<times> f128_world" where
  "call_backend t f w = (let (r, b) = f (fw_backend w t) in (r, w\<lparr>fw_backend := (fw_backend w)(t := b)\<rparr>))"

text \<open>The scope of a guard object: constructed, the body, destroyed after the result is computed.\<close>

definition with_context ::
  "sf64_rounding_mode \<Rightarrow> state_ptr \<Rightarrow> bool \<Rightarrow> fenv_mode \<Rightarrow> tid \<Rightarrow> (f128_world \<Rightarrow> 'r \<times> f128_world) \<Rightarrow> f128_world \<Rightarrow> 'r \<times> f128_world" where
  "with_context mode state ex m t body w =
     (let (c, w) = context_ctor mode state ex t w; (r, w) = body w
      in (r, context_dtor m t c w))"

type_synonym 'r f128_entry = "fenv_mode \<Rightarrow> tid \<Rightarrow> f128_world \<Rightarrow> 'r \<times> f128_world"

text \<open>The result of a backend call read back into the public layout.\<close>

definition external_result :: "bool \<Rightarrow> float128 \<times> f128_world \<Rightarrow> sf128 \<times> f128_world" where
  "external_result le r = (external le (fst r), snd r)"

definition f128_binary ::
  "bool \<Rightarrow> sf64_rounding_mode \<Rightarrow> sf128 \<Rightarrow> sf128 \<Rightarrow> state_ptr \<Rightarrow> bool \<Rightarrow> (float128 \<Rightarrow> float128 \<Rightarrow> float128 backend_call) \<Rightarrow> sf128 f128_entry" where
  "f128_binary le mode a b state ex op m t =
     with_context mode state ex m t (\<lambda>w. external_result le (call_backend t (op (backend le a) (backend le b)) w))"

definition f128_unary ::
  "bool \<Rightarrow> sf64_rounding_mode \<Rightarrow> sf128 \<Rightarrow> state_ptr \<Rightarrow> bool \<Rightarrow> (float128 \<Rightarrow> float128 backend_call) \<Rightarrow> sf128 f128_entry" where
  "f128_unary le mode x state ex op m t =
     with_context mode state ex m t (\<lambda>w. external_result le (call_backend t (op (backend le x)) w))"

section \<open>Bits, integers and binary64\<close>

definition sf128_from_bits :: "u64 \<Rightarrow> u64 \<Rightarrow> sf128" where "sf128_from_bits h l = \<lparr>lo = l, hi = h\<rparr>"
definition sf128_bits_hi :: "sf128 \<Rightarrow> u64" where "sf128_bits_hi x = hi x"
definition sf128_bits_lo :: "sf128 \<Rightarrow> u64" where "sf128_bits_lo x = lo x"

definition sf128_from_i32 :: "softfloat \<Rightarrow> bool \<Rightarrow> u32 \<Rightarrow> sf128 f128_entry" where
  "sf128_from_i32 B le x m t =
     with_context SF64_RNE None False m t (\<lambda>w. external_result le (call_backend t (i32_to_f128 B x) w))"

definition sf128_from_i64 :: "softfloat \<Rightarrow> bool \<Rightarrow> u64 \<Rightarrow> sf128 f128_entry" where
  "sf128_from_i64 B le x m t =
     with_context SF64_RNE None False m t (\<lambda>w. external_result le (call_backend t (i64_to_f128 B x) w))"

definition sf128_from_u32 :: "softfloat \<Rightarrow> bool \<Rightarrow> u32 \<Rightarrow> sf128 f128_entry" where
  "sf128_from_u32 B le x m t =
     with_context SF64_RNE None False m t (\<lambda>w. external_result le (call_backend t (ui32_to_f128 B x) w))"

definition sf128_from_u64 :: "softfloat \<Rightarrow> bool \<Rightarrow> u64 \<Rightarrow> sf128 f128_entry" where
  "sf128_from_u64 B le x m t =
     with_context SF64_RNE None False m t (\<lambda>w. external_result le (call_backend t (ui64_to_f128 B x) w))"

definition sf128_from_f64 :: "softfloat \<Rightarrow> bool \<Rightarrow> f64 \<Rightarrow> sf128 f128_entry" where
  "sf128_from_f64 B le x m t =
     with_context SF64_RNE None False m t (\<lambda>w. external_result le (call_backend t (f64_to_f128 B x) w))"

definition sf128_to_f64_r_ex :: "softfloat \<Rightarrow> bool \<Rightarrow> sf64_rounding_mode \<Rightarrow> sf128 \<Rightarrow> state_ptr \<Rightarrow> f64 f128_entry" where
  "sf128_to_f64_r_ex B le md x s m t = with_context md s True m t (call_backend t (f128_to_f64 B (backend le x)))"

definition sf128_to_f64_r :: "softfloat \<Rightarrow> bool \<Rightarrow> sf64_rounding_mode \<Rightarrow> sf128 \<Rightarrow> f64 f128_entry" where
  "sf128_to_f64_r B le md x m t = with_context md None False m t (call_backend t (f128_to_f64 B (backend le x)))"

definition sf128_to_f64 :: "softfloat \<Rightarrow> bool \<Rightarrow> sf128 \<Rightarrow> f64 f128_entry" where
  "sf128_to_f64 B le x = sf128_to_f64_r B le SF64_RNE x"

text \<open>The macro \<open>SF128_TO_INT\<close>: the body every integer conversion instantiates, and its instances.\<close>

definition sf128_to_int_impl ::
  "bool \<Rightarrow> (float128 \<Rightarrow> u8 \<Rightarrow> bool \<Rightarrow> ('w::len) word backend_call) \<Rightarrow> 'w word \<Rightarrow> 'w word \<Rightarrow>
   sf64_rounding_mode \<Rightarrow> sf128 \<Rightarrow> state_ptr \<Rightarrow> bool \<Rightarrow> 'w word f128_entry" where
  "sf128_to_int_impl le conv low high md x s ex m t =
     with_context md s ex m t
       (\<lambda>w. let (out, w) = call_backend t (conv (backend le x) (backend_round md) True) w
            in (if sf128_backend_get_flags t w AND softfloat_flag_invalid \<noteq> 0 then
                  (if drop_bit 48 (hi x) AND 0x7FFF = 0x7FFF \<and> (hi x AND 0x0000FFFFFFFFFFFF \<noteq> 0 \<or> lo x \<noteq> 0) then 0
                   else if drop_bit 63 (hi x) \<noteq> 0 then low else high)
                else out, w))"

definition sf128_to_int_r_ex where
  "sf128_to_int_r_ex le conv low high md x s = sf128_to_int_impl le conv low high md x s True"

definition sf128_to_int_r where
  "sf128_to_int_r le conv low high md x = sf128_to_int_impl le conv low high md x None False"

definition sf128_to_int where
  "sf128_to_int le conv low high x = sf128_to_int_r le conv low high SF64_RTZ x"

definition sf128_to_i32 :: "softfloat \<Rightarrow> bool \<Rightarrow> sf128 \<Rightarrow> u32 f128_entry" where
  "sf128_to_i32 B le = sf128_to_int le (f128_to_i32 B) 0x80000000 0x7FFFFFFF"

definition sf128_to_i64 :: "softfloat \<Rightarrow> bool \<Rightarrow> sf128 \<Rightarrow> u64 f128_entry" where
  "sf128_to_i64 B le = sf128_to_int le (f128_to_i64 B) 0x8000000000000000 0x7FFFFFFFFFFFFFFF"

definition sf128_to_u32 :: "softfloat \<Rightarrow> bool \<Rightarrow> sf128 \<Rightarrow> u32 f128_entry" where
  "sf128_to_u32 B le = sf128_to_int le (f128_to_ui32 B) 0 0xFFFFFFFF"

definition sf128_to_u64 :: "softfloat \<Rightarrow> bool \<Rightarrow> sf128 \<Rightarrow> u64 f128_entry" where
  "sf128_to_u64 B le = sf128_to_int le (f128_to_ui64 B) 0 0xFFFFFFFFFFFFFFFF"

text \<open>The mode-taking and caller-state entries the macro generates beside each.\<close>

definition sf128_to_i32_r :: "softfloat \<Rightarrow> bool \<Rightarrow> sf64_rounding_mode \<Rightarrow> sf128 \<Rightarrow> u32 f128_entry" where
  "sf128_to_i32_r B le = sf128_to_int_r le (f128_to_i32 B) 0x80000000 0x7FFFFFFF"

definition sf128_to_i32_r_ex :: "softfloat \<Rightarrow> bool \<Rightarrow> sf64_rounding_mode \<Rightarrow> sf128 \<Rightarrow> state_ptr \<Rightarrow> u32 f128_entry" where
  "sf128_to_i32_r_ex B le = sf128_to_int_r_ex le (f128_to_i32 B) 0x80000000 0x7FFFFFFF"

definition sf128_to_i64_r :: "softfloat \<Rightarrow> bool \<Rightarrow> sf64_rounding_mode \<Rightarrow> sf128 \<Rightarrow> u64 f128_entry" where
  "sf128_to_i64_r B le = sf128_to_int_r le (f128_to_i64 B) 0x8000000000000000 0x7FFFFFFFFFFFFFFF"

definition sf128_to_i64_r_ex :: "softfloat \<Rightarrow> bool \<Rightarrow> sf64_rounding_mode \<Rightarrow> sf128 \<Rightarrow> state_ptr \<Rightarrow> u64 f128_entry" where
  "sf128_to_i64_r_ex B le = sf128_to_int_r_ex le (f128_to_i64 B) 0x8000000000000000 0x7FFFFFFFFFFFFFFF"

definition sf128_to_u32_r :: "softfloat \<Rightarrow> bool \<Rightarrow> sf64_rounding_mode \<Rightarrow> sf128 \<Rightarrow> u32 f128_entry" where
  "sf128_to_u32_r B le = sf128_to_int_r le (f128_to_ui32 B) 0 0xFFFFFFFF"

definition sf128_to_u32_r_ex :: "softfloat \<Rightarrow> bool \<Rightarrow> sf64_rounding_mode \<Rightarrow> sf128 \<Rightarrow> state_ptr \<Rightarrow> u32 f128_entry" where
  "sf128_to_u32_r_ex B le = sf128_to_int_r_ex le (f128_to_ui32 B) 0 0xFFFFFFFF"

definition sf128_to_u64_r :: "softfloat \<Rightarrow> bool \<Rightarrow> sf64_rounding_mode \<Rightarrow> sf128 \<Rightarrow> u64 f128_entry" where
  "sf128_to_u64_r B le = sf128_to_int_r le (f128_to_ui64 B) 0 0xFFFFFFFFFFFFFFFF"

definition sf128_to_u64_r_ex :: "softfloat \<Rightarrow> bool \<Rightarrow> sf64_rounding_mode \<Rightarrow> sf128 \<Rightarrow> state_ptr \<Rightarrow> u64 f128_entry" where
  "sf128_to_u64_r_ex B le = sf128_to_int_r_ex le (f128_to_ui64 B) 0 0xFFFFFFFFFFFFFFFF"

section \<open>Arithmetic\<close>

text \<open>The macro \<open>SF128_BINARY\<close>: the three entries of \<open>add\<close>, \<open>sub\<close>, \<open>mul\<close> and \<open>div\<close>.\<close>

definition SF128_BINARY_r_ex where
  "SF128_BINARY_r_ex le op md a b s = f128_binary le md a b s True op"

definition SF128_BINARY_r where
  "SF128_BINARY_r le op md a b = f128_binary le md a b None False op"

definition SF128_BINARY where
  "SF128_BINARY le op a b = SF128_BINARY_r le op SF64_RNE a b"

definition sf128_add_r_ex :: "softfloat \<Rightarrow> bool \<Rightarrow> sf64_rounding_mode \<Rightarrow> sf128 \<Rightarrow> sf128 \<Rightarrow> state_ptr \<Rightarrow> sf128 f128_entry" where
  "sf128_add_r_ex B le = SF128_BINARY_r_ex le (f128_add B)"

definition sf128_add_r :: "softfloat \<Rightarrow> bool \<Rightarrow> sf64_rounding_mode \<Rightarrow> sf128 \<Rightarrow> sf128 \<Rightarrow> sf128 f128_entry" where
  "sf128_add_r B le = SF128_BINARY_r le (f128_add B)"

definition sf128_add :: "softfloat \<Rightarrow> bool \<Rightarrow> sf128 \<Rightarrow> sf128 \<Rightarrow> sf128 f128_entry" where
  "sf128_add B le = SF128_BINARY le (f128_add B)"

definition sf128_sub_r_ex :: "softfloat \<Rightarrow> bool \<Rightarrow> sf64_rounding_mode \<Rightarrow> sf128 \<Rightarrow> sf128 \<Rightarrow> state_ptr \<Rightarrow> sf128 f128_entry" where
  "sf128_sub_r_ex B le = SF128_BINARY_r_ex le (f128_sub B)"

definition sf128_sub_r :: "softfloat \<Rightarrow> bool \<Rightarrow> sf64_rounding_mode \<Rightarrow> sf128 \<Rightarrow> sf128 \<Rightarrow> sf128 f128_entry" where
  "sf128_sub_r B le = SF128_BINARY_r le (f128_sub B)"

definition sf128_sub :: "softfloat \<Rightarrow> bool \<Rightarrow> sf128 \<Rightarrow> sf128 \<Rightarrow> sf128 f128_entry" where
  "sf128_sub B le = SF128_BINARY le (f128_sub B)"

definition sf128_mul_r_ex :: "softfloat \<Rightarrow> bool \<Rightarrow> sf64_rounding_mode \<Rightarrow> sf128 \<Rightarrow> sf128 \<Rightarrow> state_ptr \<Rightarrow> sf128 f128_entry" where
  "sf128_mul_r_ex B le = SF128_BINARY_r_ex le (f128_mul B)"

definition sf128_mul_r :: "softfloat \<Rightarrow> bool \<Rightarrow> sf64_rounding_mode \<Rightarrow> sf128 \<Rightarrow> sf128 \<Rightarrow> sf128 f128_entry" where
  "sf128_mul_r B le = SF128_BINARY_r le (f128_mul B)"

definition sf128_mul :: "softfloat \<Rightarrow> bool \<Rightarrow> sf128 \<Rightarrow> sf128 \<Rightarrow> sf128 f128_entry" where
  "sf128_mul B le = SF128_BINARY le (f128_mul B)"

definition sf128_div_r_ex :: "softfloat \<Rightarrow> bool \<Rightarrow> sf64_rounding_mode \<Rightarrow> sf128 \<Rightarrow> sf128 \<Rightarrow> state_ptr \<Rightarrow> sf128 f128_entry" where
  "sf128_div_r_ex B le = SF128_BINARY_r_ex le (f128_div B)"

definition sf128_div_r :: "softfloat \<Rightarrow> bool \<Rightarrow> sf64_rounding_mode \<Rightarrow> sf128 \<Rightarrow> sf128 \<Rightarrow> sf128 f128_entry" where
  "sf128_div_r B le = SF128_BINARY_r le (f128_div B)"

definition sf128_div :: "softfloat \<Rightarrow> bool \<Rightarrow> sf128 \<Rightarrow> sf128 \<Rightarrow> sf128 f128_entry" where
  "sf128_div B le = SF128_BINARY le (f128_div B)"

definition sf128_remainder_ex :: "softfloat \<Rightarrow> bool \<Rightarrow> sf128 \<Rightarrow> sf128 \<Rightarrow> state_ptr \<Rightarrow> sf128 f128_entry" where
  "sf128_remainder_ex B le a b s = f128_binary le SF64_RNE a b s True (f128_rem B)"

definition sf128_remainder :: "softfloat \<Rightarrow> bool \<Rightarrow> sf128 \<Rightarrow> sf128 \<Rightarrow> sf128 f128_entry" where
  "sf128_remainder B le a b = f128_binary le SF64_RNE a b None False (f128_rem B)"

definition sf128_sqrt_r_ex :: "softfloat \<Rightarrow> bool \<Rightarrow> sf64_rounding_mode \<Rightarrow> sf128 \<Rightarrow> state_ptr \<Rightarrow> sf128 f128_entry" where
  "sf128_sqrt_r_ex B le md x s = f128_unary le md x s True (f128_sqrt B)"

definition sf128_sqrt_r :: "softfloat \<Rightarrow> bool \<Rightarrow> sf64_rounding_mode \<Rightarrow> sf128 \<Rightarrow> sf128 f128_entry" where
  "sf128_sqrt_r B le md x = f128_unary le md x None False (f128_sqrt B)"

definition sf128_sqrt :: "softfloat \<Rightarrow> bool \<Rightarrow> sf128 \<Rightarrow> sf128 f128_entry" where
  "sf128_sqrt B le x = sf128_sqrt_r B le SF64_RNE x"

definition sf128_rint_r_ex :: "softfloat \<Rightarrow> bool \<Rightarrow> sf64_rounding_mode \<Rightarrow> sf128 \<Rightarrow> state_ptr \<Rightarrow> sf128 f128_entry" where
  "sf128_rint_r_ex B le md x s m t =
     with_context md s True m t
       (\<lambda>w. external_result le (call_backend t (f128_roundToInt B (backend le x) (backend_round md) True) w))"

definition sf128_rint_r :: "softfloat \<Rightarrow> bool \<Rightarrow> sf64_rounding_mode \<Rightarrow> sf128 \<Rightarrow> sf128 f128_entry" where
  "sf128_rint_r B le md x m t =
     with_context md None False m t
       (\<lambda>w. external_result le (call_backend t (f128_roundToInt B (backend le x) (backend_round md) True) w))"

definition sf128_rint :: "softfloat \<Rightarrow> bool \<Rightarrow> sf128 \<Rightarrow> sf128 f128_entry" where
  "sf128_rint B le x = sf128_rint_r B le SF64_RNE x"

definition sf128_fma_r_ex ::
  "softfloat \<Rightarrow> bool \<Rightarrow> sf64_rounding_mode \<Rightarrow> sf128 \<Rightarrow> sf128 \<Rightarrow> sf128 \<Rightarrow> state_ptr \<Rightarrow> sf128 f128_entry" where
  "sf128_fma_r_ex B le md a b c s m t =
     with_context md s True m t
       (\<lambda>w. external_result le (call_backend t (f128_mulAdd B (backend le a) (backend le b) (backend le c)) w))"

definition sf128_fma_r :: "softfloat \<Rightarrow> bool \<Rightarrow> sf64_rounding_mode \<Rightarrow> sf128 \<Rightarrow> sf128 \<Rightarrow> sf128 \<Rightarrow> sf128 f128_entry" where
  "sf128_fma_r B le md a b c m t =
     with_context md None False m t
       (\<lambda>w. external_result le (call_backend t (f128_mulAdd B (backend le a) (backend le b) (backend le c)) w))"

definition sf128_fma :: "softfloat \<Rightarrow> bool \<Rightarrow> sf128 \<Rightarrow> sf128 \<Rightarrow> sf128 \<Rightarrow> sf128 f128_entry" where
  "sf128_fma B le a b c = sf128_fma_r B le SF64_RNE a b c"

section \<open>Classification and comparison\<close>

definition sf128_isnan :: "sf128 \<Rightarrow> bool" where
  "sf128_isnan x \<longleftrightarrow> drop_bit 48 (hi x) AND 0x7FFF = 0x7FFF \<and> (hi x AND 0x0000FFFFFFFFFFFF \<noteq> 0 \<or> lo x \<noteq> 0)"

definition sf128_isinf :: "sf128 \<Rightarrow> bool" where
  "sf128_isinf x \<longleftrightarrow> drop_bit 48 (hi x) AND 0x7FFF = 0x7FFF \<and> hi x AND 0x0000FFFFFFFFFFFF = 0 \<and> lo x = 0"

definition sf128_isfinite :: "sf128 \<Rightarrow> bool" where
  "sf128_isfinite x \<longleftrightarrow> drop_bit 48 (hi x) AND 0x7FFF \<noteq> 0x7FFF"

definition sf128_isnormal :: "sf128 \<Rightarrow> bool" where
  "sf128_isnormal x = (let e = drop_bit 48 (hi x) AND 0x7FFF in e \<noteq> 0 \<and> e \<noteq> 0x7FFF)"

definition sf128_signbit :: "sf128 \<Rightarrow> u64" where "sf128_signbit x = drop_bit 63 (hi x)"

definition sf128_eq :: "softfloat \<Rightarrow> bool \<Rightarrow> sf128 \<Rightarrow> sf128 \<Rightarrow> bool f128_entry" where
  "sf128_eq B le a b m t = with_context SF64_RNE None False m t (call_backend t (f128_eq B (backend le a) (backend le b)))"

definition sf128_lt :: "softfloat \<Rightarrow> bool \<Rightarrow> sf128 \<Rightarrow> sf128 \<Rightarrow> bool f128_entry" where
  "sf128_lt B le a b m t = with_context SF64_RNE None False m t (call_backend t (f128_lt B (backend le a) (backend le b)))"

definition sf128_le :: "softfloat \<Rightarrow> bool \<Rightarrow> sf128 \<Rightarrow> sf128 \<Rightarrow> bool f128_entry" where
  "sf128_le B le a b m t = with_context SF64_RNE None False m t (call_backend t (f128_le B (backend le a) (backend le b)))"

section \<open>What the guard object guarantees\<close>

text \<open>
  What the backend documents of its two variables: the numbers of its rounding modes, and the positions of
  its flag bits from inexact (bit 0) to invalid (bit 4).
\<close>

fun softfloat_mode :: "sf64_rounding_mode \<Rightarrow> u8" where
  "softfloat_mode SF64_RNE = 0"
| "softfloat_mode SF64_RTZ = 1"
| "softfloat_mode SF64_RDN = 2"
| "softfloat_mode SF64_RUP = 3"
| "softfloat_mode SF64_RNA = 4"

definition softfloat_exceptions :: "u8 \<Rightarrow> u32" where
  "softfloat_exceptions f =
     (if bit f 4 then SF64_FE_INVALID else 0) OR (if bit f 3 then SF64_FE_DIVBYZERO else 0) OR (if bit f 2 then SF64_FE_OVERFLOW else 0)
     OR (if bit f 1 then SF64_FE_UNDERFLOW else 0) OR (if bit f 0 then SF64_FE_INEXACT else 0)"

text \<open>The number a 128-bit encoding is, and the one the host reads in the array of the backend.\<close>

definition num128 :: "sf128 \<Rightarrow> nat" where "num128 x = unat (hi x) * 2 ^ 64 + unat (lo x)"

definition host128 :: "bool \<Rightarrow> float128 \<Rightarrow> nat" where
  "host128 little y = (if little then unat (v1 y) * 2 ^ 64 + unat (v0 y) else unat (v0 y) * 2 ^ 64 + unat (v1 y))"

text \<open>
  The effect of one guarded backend call: the call starts from the number of the requested mode and clean
  flags, the exceptions it leaves go to the target, and the backend variables are what they were.
\<close>

definition f128_run :: "sf64_rounding_mode \<Rightarrow> flag_target \<Rightarrow> 'r backend_call \<Rightarrow> f128_world \<Rightarrow> 'r \<times> f128_world" where
  "f128_run md tg f w =
     (let (r, b) = f \<lparr>bs_round = softfloat_mode md, bs_flags = 0\<rparr>
      in (r, w\<lparr>fw_env := raise_flags tg (softfloat_exceptions (bs_flags b)) (fw_env w)\<rparr>))"

lemma backend_round_mode: "backend_round md = softfloat_mode md"
  by (cases md) (simp_all add: backend_round_def softfloat_round_near_even_def softfloat_round_minMag_def
      softfloat_round_min_def softfloat_round_max_def softfloat_round_near_maxMag_def)

lemma softfloat_flag_bits:
  "f AND softfloat_flag_invalid \<noteq> 0 \<longleftrightarrow> bit f 4" "f AND softfloat_flag_infinite \<noteq> 0 \<longleftrightarrow> bit f 3"
  "f AND softfloat_flag_overflow \<noteq> 0 \<longleftrightarrow> bit f 2" "f AND softfloat_flag_underflow \<noteq> 0 \<longleftrightarrow> bit f 1"
  "f AND softfloat_flag_inexact \<noteq> 0 \<longleftrightarrow> bit f 0"
  using and_exp_eq_0_iff_not_bit [of f 4] and_exp_eq_0_iff_not_bit [of f 3] and_exp_eq_0_iff_not_bit [of f 2]
    and_exp_eq_0_iff_not_bit [of f 1] and_exp_eq_0_iff_not_bit [of f 0]
  by (simp_all add: softfloat_flag_inexact_def softfloat_flag_underflow_def softfloat_flag_overflow_def
      softfloat_flag_infinite_def softfloat_flag_invalid_def)

lemma public_flags_exceptions: "public_flags f = softfloat_exceptions f"
  by (simp add: public_flags_def softfloat_exceptions_def Let_def softfloat_flag_bits or.assoc)

lemma backend_state_full [simp]: "b\<lparr>bs_round := q, bs_flags := f\<rparr> = \<lparr>bs_round = q, bs_flags = f\<rparr>" for b :: backend_state
  by (cases b) simp

lemma context_dtor_eq:
  "context_dtor m t c w = w\<lparr>fw_backend := (fw_backend w)(t := \<lparr>bs_round = old_round c, bs_flags = old_flags c\<rparr>),
     fw_env := raise_flags \<lparr>ft_mode = m, ft_tid = t, ft_state = ctx_state c, ft_explicit = ctx_explicit c\<rparr>
       (public_flags (bs_flags (fw_backend w t))) (fw_env w)\<rparr>"
  by (cases w; cases "ctx_state c") (simp_all add: context_dtor_def Let_def raise_flags_def sf128_backend_set_rounding_def
      sf128_backend_set_flags_def sf128_backend_get_flags_def)

lemma with_context_run:
  assumes body: "\<And>w. body w = (let (r, b) = f (fw_backend w t) in (r, w\<lparr>fw_backend := (fw_backend w)(t := b)\<rparr>))"
  shows "with_context md s ex m t body w = f128_run md \<lparr>ft_mode = m, ft_tid = t, ft_state = s, ft_explicit = ex\<rparr> f w"
proof -
  obtain r b where f: "f \<lparr>bs_round = softfloat_mode md, bs_flags = 0\<rparr> = (r, b)" by (metis surj_pair)
  have id: "(fw_backend w)(t := \<lparr>bs_round = bs_round (fw_backend w t), bs_flags = bs_flags (fw_backend w t)\<rparr>) = fw_backend w"
    by (rule ext) simp
  show ?thesis
    unfolding with_context_def context_ctor_def Let_def split_conv body f128_run_def
    by (simp add: f context_dtor_eq id backend_round_mode public_flags_exceptions sf128_backend_set_rounding_def sf128_backend_set_flags_def
        sf128_backend_get_flags_def sf128_backend_get_rounding_def)
qed

lemma with_context_call:
  "with_context md s ex m t (call_backend t f) w = f128_run md \<lparr>ft_mode = m, ft_tid = t, ft_state = s, ft_explicit = ex\<rparr> f w"
  by (rule with_context_run) (simp add: call_backend_def)

definition read_back :: "bool \<Rightarrow> float128 backend_call \<Rightarrow> sf128 backend_call" where
  "read_back le f b = (let (r, b) = f b in (external le r, b))"

lemma with_context_external:
  "with_context md s ex m t (\<lambda>w. external_result le (call_backend t f w)) w =
   f128_run md \<lparr>ft_mode = m, ft_tid = t, ft_state = s, ft_explicit = ex\<rparr> (read_back le f) w"
  by (rule with_context_run) (simp add: call_backend_def external_result_def read_back_def split_beta Let_def)

lemma f128_run_backend [simp]: "fw_backend (snd (f128_run md tg f w)) = fw_backend w"
  by (simp add: f128_run_def Let_def split_beta)

section \<open>Translations and classes\<close>

lemma byte_order_roundtrip: "external le (backend le x) = x" "backend le (external le y) = y"
  by (simp_all add: external_def backend_def)

lemma layout_num128: "host128 le (backend le x) = num128 x" "num128 (external le y) = host128 le y"
  by (simp_all add: external_def backend_def num128_def host128_def)

text \<open>An encoding as sign and 127-bit magnitude; \<open>inf128\<close> is the magnitude of infinity.\<close>

definition mag128 :: "sf128 \<Rightarrow> nat" where "mag128 x = unat (hi x) mod 2 ^ 63 * 2 ^ 64 + unat (lo x)"
definition sgn128 :: "sf128 \<Rightarrow> bool" where "sgn128 x \<longleftrightarrow> 2 ^ 63 \<le> unat (hi x)"
definition inf128 :: nat where "inf128 = 32767 * 2 ^ 112"

lemma mag128_fields:
  obtains G where "mag128 x = unat (drop_bit 48 (hi x) AND 0x7FFF) * 2 ^ 112 + G" "G < 2 ^ 112"
    "G = 0 \<longleftrightarrow> hi x AND 0x0000FFFFFFFFFFFF = 0 \<and> lo x = 0" "unat (drop_bit 48 (hi x) AND 0x7FFF) < 2 ^ 15"
proof -
  define E where "E = unat (hi x) div 2 ^ 48 mod 2 ^ 15"
  define F where "F = unat (hi x) mod 2 ^ 48"
  have m: "(0x7FFF :: u64) = mask 15" "(0x0000FFFFFFFFFFFF :: u64) = mask 48" by (simp_all add: mask_eq_exp_minus_1)
  have e: "unat (drop_bit 48 (hi x) AND 0x7FFF) = E" unfolding m E_def by (simp only: unat_and_mask unat_drop_bit)
  have f: "unat (hi x AND 0x0000FFFFFFFFFFFF) = F" unfolding m F_def by (simp only: unat_and_mask)
  have l: "unat (lo x) < 2 ^ 64" using unsigned_less [where 'a = nat, of "lo x"] by simp
  have hm: "unat (hi x) mod 2 ^ 63 = F + 2 ^ 48 * E" using mod_split [of "unat (hi x)" 48 15] by (simp add: E_def F_def)
  have "F < 2 ^ 48" by (simp add: F_def)
  then have lt: "F * 2 ^ 64 + unat (lo x) < 2 ^ 112" using l by simp
  have mg: "mag128 x = E * 2 ^ 112 + (F * 2 ^ 64 + unat (lo x))" unfolding mag128_def hm by simp
  have "F = 0 \<longleftrightarrow> hi x AND 0x0000FFFFFFFFFFFF = 0" unfolding f [symmetric] by (rule unsigned_eq_0_iff)
  moreover have "unat (lo x) = 0 \<longleftrightarrow> lo x = 0" by (rule unsigned_eq_0_iff)
  ultimately have z: "F * 2 ^ 64 + unat (lo x) = 0 \<longleftrightarrow> hi x AND 0x0000FFFFFFFFFFFF = 0 \<and> lo x = 0"
    unfolding add_is_0 by (simp only: mult_is_0) simp
  have "E < 2 ^ 15" by (simp add: E_def)
  then show thesis by (rule that [OF mg [folded e] lt z, unfolded e])
qed

lemma f128_class:
  "sf128_isnan x \<longleftrightarrow> inf128 < mag128 x"
  "sf128_isinf x \<longleftrightarrow> mag128 x = inf128"
  "sf128_isfinite x \<longleftrightarrow> mag128 x < inf128"
  "sf128_isnormal x \<longleftrightarrow> 2 ^ 112 \<le> mag128 x \<and> mag128 x < inf128"
  "sf128_signbit x = (if sgn128 x then 1 else 0)"
proof -
  obtain G where G: "mag128 x = unat (drop_bit 48 (hi x) AND 0x7FFF) * 2 ^ 112 + G" "G < 2 ^ 112"
    "G = 0 \<longleftrightarrow> hi x AND 0x0000FFFFFFFFFFFF = 0 \<and> lo x = 0" "unat (drop_bit 48 (hi x) AND 0x7FFF) < 2 ^ 15"
    by (rule mag128_fields)
  define E where "E = unat (drop_bit 48 (hi x) AND 0x7FFF)"
  have e: "drop_bit 48 (hi x) AND 0x7FFF = 0x7FFF \<longleftrightarrow> E = 32767" "drop_bit 48 (hi x) AND 0x7FFF = 0 \<longleftrightarrow> E = 0"
    unfolding E_def word_unat_eq_iff by simp_all
  have b: "mag128 x = E * 2 ^ 112 + G" "G < 2 ^ 112" "E \<le> 32767" using G(1,2,4) by (simp_all add: E_def)
  have c: "inf128 < mag128 x \<longleftrightarrow> E = 32767 \<and> G \<noteq> 0" "mag128 x = inf128 \<longleftrightarrow> E = 32767 \<and> G = 0" "mag128 x < inf128 \<longleftrightarrow> E \<noteq> 32767"
    "2 ^ 112 \<le> mag128 x \<longleftrightarrow> E \<noteq> 0"
    unfolding b(1) inf128_def limb_eq_iff [OF b(2)] using b(2,3) by auto
  show "sf128_isnan x \<longleftrightarrow> inf128 < mag128 x" unfolding sf128_isnan_def e c using G(3) by blast
  show "sf128_isinf x \<longleftrightarrow> mag128 x = inf128" unfolding sf128_isinf_def e c using G(3) by blast
  show "sf128_isfinite x \<longleftrightarrow> mag128 x < inf128" unfolding sf128_isfinite_def e c ..
  show "sf128_isnormal x \<longleftrightarrow> 2 ^ 112 \<le> mag128 x \<and> mag128 x < inf128" unfolding sf128_isnormal_def Let_def e c ..
  show "sf128_signbit x = (if sgn128 x then 1 else 0)"
  proof (rule word_eq_unatI)
    have "unat (hi x) < 2 ^ 64" using unsigned_less [where 'a = nat, of "hi x"] by simp
    then have "unat (hi x) div 2 ^ 63 = (if 2 ^ 63 \<le> unat (hi x) then 1 else 0)"
      by (auto simp: div_eq_0_iff not_le intro: div_nat_eqI)
    then show "unat (sf128_signbit x) = unat (if sgn128 x then 1 else 0 :: u64)"
      by (simp add: sf128_signbit_def unat_drop_bit sgn128_def)
  qed
qed

section \<open>Integer conversions\<close>

text \<open>
  The specification of a conversion to an integer type with bounds \<open>least\<close> and \<open>greatest\<close>: the integer
  of the backend unless that signalled invalid, then 0 for a NaN and the bound on the side of the sign.
\<close>

definition f128_int ::
  "bool \<Rightarrow> (float128 \<Rightarrow> u8 \<Rightarrow> bool \<Rightarrow> ('w::len) word backend_call) \<Rightarrow> int \<Rightarrow> int \<Rightarrow> sf64_rounding_mode \<Rightarrow> sf128 \<Rightarrow> 'w word backend_call" where
  "f128_int le conv least greatest md x b =
     (let (out, b) = conv (backend le x) (softfloat_mode md) True b
      in (if \<not> bit (bs_flags b) 4 then out
          else if inf128 < mag128 x then 0
          else word_of_int (if sgn128 x then least else greatest), b))"

lemma to_int_impl_run:
  assumes "low = word_of_int least" "high = word_of_int greatest"
  shows "sf128_to_int_impl le conv low high md x s ex m t w =
    f128_run md \<lparr>ft_mode = m, ft_tid = t, ft_state = s, ft_explicit = ex\<rparr> (f128_int le conv least greatest md x) w"
proof -
  have sg: "drop_bit 63 (hi x) \<noteq> 0 \<longleftrightarrow> sgn128 x" using f128_class(5) [of x] by (simp add: sf128_signbit_def split: if_splits)
  show ?thesis
    unfolding sf128_to_int_impl_def sg sf128_isnan_def [of x, symmetric] f128_class(1) softfloat_flag_bits backend_round_mode assms
    by (rule with_context_run)
      (simp add: call_backend_def Let_def split_beta sf128_backend_get_flags_def softfloat_flag_bits f128_int_def)
qed

lemma int_bounds:
  "(0x80000000 :: u32) = word_of_int (- (2 ^ 31))" "(0x7FFFFFFF :: u32) = word_of_int (2 ^ 31 - 1)"
  "(0x8000000000000000 :: u64) = word_of_int (- (2 ^ 63))" "(0x7FFFFFFFFFFFFFFF :: u64) = word_of_int (2 ^ 63 - 1)"
  "(0 :: u32) = word_of_int 0" "(0xFFFFFFFF :: u32) = word_of_int (2 ^ 32 - 1)"
  "(0 :: u64) = word_of_int 0" "(0xFFFFFFFFFFFFFFFF :: u64) = word_of_int (2 ^ 64 - 1)"
  by simp_all

lemmas f128_entry_runs = with_context_external with_context_call f128_binary_def f128_unary_def
  ex_target_def bag_target_def backend_round_mode

section \<open>Properties\<close>

text \<open>
  C26: Every binary128 entry is isolated from the ambient state of the backend.  Whatever rounding mode and
  flags the thread's backend variables hold, the backend runs with the number it gives the requested mode
  (to nearest even where none is given, towards zero in a conversion to an integer) and from clean flags;
  the exceptions it leaves, bit for bit in the public encoding, go to the caller's state for an entry that
  takes one and to the thread's bag otherwise, and nowhere else; and the backend variables of every thread
  are afterwards what they were.  Operands reach the backend, and results come back, as the same 128-bit
  number in the byte order of the host.  A conversion to an integer that the backend rejects delivers 0 for
  a NaN and the bound of its type on the side of the sign.
\<close>

theorem f128_entries_isolated:
  "sf128_add B le a b m t w = f128_run SF64_RNE (bag_target m t) (read_back le (f128_add B (backend le a) (backend le b))) w
   \<and> sf128_add_r B le md a b m t w = f128_run md (bag_target m t) (read_back le (f128_add B (backend le a) (backend le b))) w
   \<and> sf128_add_r_ex B le md a b s m t w = f128_run md (ex_target m t s) (read_back le (f128_add B (backend le a) (backend le b))) w
   \<and> sf128_sub B le a b m t w = f128_run SF64_RNE (bag_target m t) (read_back le (f128_sub B (backend le a) (backend le b))) w
   \<and> sf128_sub_r B le md a b m t w = f128_run md (bag_target m t) (read_back le (f128_sub B (backend le a) (backend le b))) w
   \<and> sf128_sub_r_ex B le md a b s m t w = f128_run md (ex_target m t s) (read_back le (f128_sub B (backend le a) (backend le b))) w
   \<and> sf128_mul B le a b m t w = f128_run SF64_RNE (bag_target m t) (read_back le (f128_mul B (backend le a) (backend le b))) w
   \<and> sf128_mul_r B le md a b m t w = f128_run md (bag_target m t) (read_back le (f128_mul B (backend le a) (backend le b))) w
   \<and> sf128_mul_r_ex B le md a b s m t w = f128_run md (ex_target m t s) (read_back le (f128_mul B (backend le a) (backend le b))) w
   \<and> sf128_div B le a b m t w = f128_run SF64_RNE (bag_target m t) (read_back le (f128_div B (backend le a) (backend le b))) w
   \<and> sf128_div_r B le md a b m t w = f128_run md (bag_target m t) (read_back le (f128_div B (backend le a) (backend le b))) w
   \<and> sf128_div_r_ex B le md a b s m t w = f128_run md (ex_target m t s) (read_back le (f128_div B (backend le a) (backend le b))) w
   \<and> sf128_remainder B le a b m t w = f128_run SF64_RNE (bag_target m t) (read_back le (f128_rem B (backend le a) (backend le b))) w
   \<and> sf128_remainder_ex B le a b s m t w = f128_run SF64_RNE (ex_target m t s) (read_back le (f128_rem B (backend le a) (backend le b))) w
   \<and> sf128_sqrt B le a m t w = f128_run SF64_RNE (bag_target m t) (read_back le (f128_sqrt B (backend le a))) w
   \<and> sf128_sqrt_r B le md a m t w = f128_run md (bag_target m t) (read_back le (f128_sqrt B (backend le a))) w
   \<and> sf128_sqrt_r_ex B le md a s m t w = f128_run md (ex_target m t s) (read_back le (f128_sqrt B (backend le a))) w
   \<and> sf128_fma B le a b c m t w = f128_run SF64_RNE (bag_target m t) (read_back le (f128_mulAdd B (backend le a) (backend le b) (backend le c))) w
   \<and> sf128_fma_r B le md a b c m t w = f128_run md (bag_target m t) (read_back le (f128_mulAdd B (backend le a) (backend le b) (backend le c))) w
   \<and> sf128_fma_r_ex B le md a b c s m t w = f128_run md (ex_target m t s) (read_back le (f128_mulAdd B (backend le a) (backend le b) (backend le c))) w
   \<and> sf128_rint B le a m t w = f128_run SF64_RNE (bag_target m t) (read_back le (f128_roundToInt B (backend le a) (softfloat_mode SF64_RNE) True)) w
   \<and> sf128_rint_r B le md a m t w = f128_run md (bag_target m t) (read_back le (f128_roundToInt B (backend le a) (softfloat_mode md) True)) w
   \<and> sf128_rint_r_ex B le md a s m t w = f128_run md (ex_target m t s) (read_back le (f128_roundToInt B (backend le a) (softfloat_mode md) True)) w
   \<and> sf128_from_i32 B le i m t w = f128_run SF64_RNE (bag_target m t) (read_back le (i32_to_f128 B i)) w
   \<and> sf128_from_i64 B le j m t w = f128_run SF64_RNE (bag_target m t) (read_back le (i64_to_f128 B j)) w
   \<and> sf128_from_u32 B le k m t w = f128_run SF64_RNE (bag_target m t) (read_back le (ui32_to_f128 B k)) w
   \<and> sf128_from_u64 B le l m t w = f128_run SF64_RNE (bag_target m t) (read_back le (ui64_to_f128 B l)) w
   \<and> sf128_from_f64 B le x m t w = f128_run SF64_RNE (bag_target m t) (read_back le (f64_to_f128 B x)) w
   \<and> sf128_to_f64 B le a m t w = f128_run SF64_RNE (bag_target m t) (f128_to_f64 B (backend le a)) w
   \<and> sf128_to_f64_r B le md a m t w = f128_run md (bag_target m t) (f128_to_f64 B (backend le a)) w
   \<and> sf128_to_f64_r_ex B le md a s m t w = f128_run md (ex_target m t s) (f128_to_f64 B (backend le a)) w
   \<and> sf128_eq B le a b m t w = f128_run SF64_RNE (bag_target m t) (f128_eq B (backend le a) (backend le b)) w
   \<and> sf128_lt B le a b m t w = f128_run SF64_RNE (bag_target m t) (f128_lt B (backend le a) (backend le b)) w
   \<and> sf128_le B le a b m t w = f128_run SF64_RNE (bag_target m t) (f128_le B (backend le a) (backend le b)) w
   \<and> sf128_to_i32 B le a m t w = f128_run SF64_RTZ (bag_target m t) (f128_int le (f128_to_i32 B) (- (2 ^ 31)) (2 ^ 31 - 1) SF64_RTZ a) w
   \<and> sf128_to_i32_r B le md a m t w = f128_run md (bag_target m t) (f128_int le (f128_to_i32 B) (- (2 ^ 31)) (2 ^ 31 - 1) md a) w
   \<and> sf128_to_i32_r_ex B le md a s m t w = f128_run md (ex_target m t s) (f128_int le (f128_to_i32 B) (- (2 ^ 31)) (2 ^ 31 - 1) md a) w
   \<and> sf128_to_i64 B le a m t w = f128_run SF64_RTZ (bag_target m t) (f128_int le (f128_to_i64 B) (- (2 ^ 63)) (2 ^ 63 - 1) SF64_RTZ a) w
   \<and> sf128_to_i64_r B le md a m t w = f128_run md (bag_target m t) (f128_int le (f128_to_i64 B) (- (2 ^ 63)) (2 ^ 63 - 1) md a) w
   \<and> sf128_to_i64_r_ex B le md a s m t w = f128_run md (ex_target m t s) (f128_int le (f128_to_i64 B) (- (2 ^ 63)) (2 ^ 63 - 1) md a) w
   \<and> sf128_to_u32 B le a m t w = f128_run SF64_RTZ (bag_target m t) (f128_int le (f128_to_ui32 B) (0) (2 ^ 32 - 1) SF64_RTZ a) w
   \<and> sf128_to_u32_r B le md a m t w = f128_run md (bag_target m t) (f128_int le (f128_to_ui32 B) (0) (2 ^ 32 - 1) md a) w
   \<and> sf128_to_u32_r_ex B le md a s m t w = f128_run md (ex_target m t s) (f128_int le (f128_to_ui32 B) (0) (2 ^ 32 - 1) md a) w
   \<and> sf128_to_u64 B le a m t w = f128_run SF64_RTZ (bag_target m t) (f128_int le (f128_to_ui64 B) (0) (2 ^ 64 - 1) SF64_RTZ a) w
   \<and> sf128_to_u64_r B le md a m t w = f128_run md (bag_target m t) (f128_int le (f128_to_ui64 B) (0) (2 ^ 64 - 1) md a) w
   \<and> sf128_to_u64_r_ex B le md a s m t w = f128_run md (ex_target m t s) (f128_int le (f128_to_ui64 B) (0) (2 ^ 64 - 1) md a) w
   \<and> fw_backend (snd (f128_run md tg f w)) = fw_backend w
   \<and> host128 le (backend le a) = num128 a \<and> num128 (external le y) = host128 le y"
  by (intro conjI layout_num128 f128_run_backend;
      simp add: sf128_add_def sf128_add_r_def sf128_add_r_ex_def sf128_sub_def sf128_sub_r_def sf128_sub_r_ex_def
        sf128_mul_def sf128_mul_r_def sf128_mul_r_ex_def sf128_div_def sf128_div_r_def sf128_div_r_ex_def
        sf128_remainder_def sf128_remainder_ex_def sf128_sqrt_def sf128_sqrt_r_def sf128_sqrt_r_ex_def sf128_fma_def
        sf128_fma_r_def sf128_fma_r_ex_def sf128_rint_def sf128_rint_r_def sf128_rint_r_ex_def sf128_from_i32_def
        sf128_from_i64_def sf128_from_u32_def sf128_from_u64_def sf128_from_f64_def sf128_to_f64_def sf128_to_f64_r_def
        sf128_to_f64_r_ex_def sf128_eq_def sf128_lt_def sf128_le_def sf128_to_i32_def sf128_to_i32_r_def
        sf128_to_i32_r_ex_def sf128_to_i64_def sf128_to_i64_r_def sf128_to_i64_r_ex_def sf128_to_u32_def sf128_to_u32_r_def
        sf128_to_u32_r_ex_def sf128_to_u64_def sf128_to_u64_r_def sf128_to_u64_r_ex_def
        SF128_BINARY_def SF128_BINARY_r_def SF128_BINARY_r_ex_def sf128_to_int_def sf128_to_int_r_def sf128_to_int_r_ex_def
        f128_entry_runs to_int_impl_run [OF int_bounds(1,2)] to_int_impl_run [OF int_bounds(3,4)]
        to_int_impl_run [OF int_bounds(5,6)] to_int_impl_run [OF int_bounds(7,8)])

end
