(* ===== verification/Sf_Sleef.thy ===== *)
theory Sf_Sleef
  imports Sf_Fma Sf_Classify Sf_Convert "HOL-Library.State_Monad"
begin

text \<open>
  \<open>src/sleef/sleef_common.h\<close> and the shared part of \<open>sleef_internal.h\<close>: the vocabulary the elementary
  functions are written in.  A routine that takes the accumulator \<open>fe\<close> by reference is a state
  passing computation over \<open>sleef\<close>: the build configuration, the calling thread, the accumulator
  of the entry that runs, and the world the public entries it calls write their flags to.
  The macros of \<open>sleef_fe_macros.h\<close> only redirect calls: \<open>sf64_add(a, b)\<close> in a file that includes
  them is \<open>sl_add\<close> here.  A \<open>double\<close> literal is the word of its binary64 encoding.
\<close>

section \<open>The computations\<close>

record sleef =
  sl_snan :: bool
  sl_mode :: fenv_mode
  sl_tid :: tid
  sl_acc :: fe_acc
  sl_world :: fenv_world

type_synonym 'r sl = "(sleef, 'r) state"

abbreviation return :: "'r \<Rightarrow> 'r sl" where "return \<equiv> State_Monad.return"

text \<open>A body of the core library that takes \<open>fe\<close>; it only ever adds bits.\<close>

definition with_fe :: "(u32 \<Rightarrow> 'r \<times> u32) \<Rightarrow> 'r sl" where
  "with_fe body = State (\<lambda>s. let (r, b) = body 0 in (r, s\<lparr>sl_acc := acc_raise (sl_mode s) b (sl_acc s)\<rparr>))"

text \<open>A call of a public entry, which flushes an accumulator of its own.\<close>

definition call_entry :: "'r entry \<Rightarrow> 'r sl" where
  "call_entry f = State (\<lambda>s. let (r, w) = f (sl_mode s) (sl_tid s) (sl_world s) in (r, s\<lparr>sl_world := w\<rparr>))"

definition fe_raise :: "u32 \<Rightarrow> unit sl" where "fe_raise bits = with_fe (\<lambda>_. ((), bits))"

definition fe_flush :: "unit sl" where
  "fe_flush = State (\<lambda>s. ((), s\<lparr>sl_world := acc_flush (sl_mode s) (sl_tid s) (sl_acc s) (sl_world s)\<rparr>))"

text \<open>The two ways an entry declares its accumulator.\<close>

definition run_entry :: "bool \<Rightarrow> fe_acc \<Rightarrow> 'r sl \<Rightarrow> 'r entry" where
  "run_entry snan a f m t w =
     (let (r, s) = run_state f \<lparr>sl_snan = snan, sl_mode = m, sl_tid = t, sl_acc = a, sl_world = w\<rparr>
      in (r, sl_world s))"

definition snan_propagate :: "bool sl" where "snan_propagate = State (\<lambda>s. (sl_snan s, s))"

section \<open>Bit helpers\<close>

definition sl_isnan :: "f64 \<Rightarrow> bool" where
  "sl_isnan b \<longleftrightarrow> drop_bit 52 b AND 0x7FF = 0x7FF \<and> b AND 0x000FFFFFFFFFFFFF \<noteq> 0"

definition sl_is_snan :: "f64 \<Rightarrow> bool" where
  "sl_is_snan b \<longleftrightarrow> drop_bit 52 b AND 0x7FF = 0x7FF \<and> b AND 0x000FFFFFFFFFFFFF \<noteq> 0 \<and> b AND 0x0008000000000000 = 0"

definition sl_isinf :: "f64 \<Rightarrow> bool" where
  "sl_isinf b \<longleftrightarrow> drop_bit 52 b AND 0x7FF = 0x7FF \<and> b AND 0x000FFFFFFFFFFFFF = 0"

definition sl_signbit :: "f64 \<Rightarrow> bool" where "sl_signbit b \<longleftrightarrow> drop_bit 63 b \<noteq> 0"

definition is_neg_zero :: "f64 \<Rightarrow> bool" where "is_neg_zero b \<longleftrightarrow> b = 0x8000000000000000"

definition sl_neg :: "f64 \<Rightarrow> f64" where "sl_neg x = sf64_internal_neg x"
definition sl_abs :: "f64 \<Rightarrow> f64" where "sl_abs x = sf64_internal_fabs x"

definition sl_lt :: "f64 \<Rightarrow> f64 \<Rightarrow> bool" where "sl_lt a b \<longleftrightarrow> sf64_internal_fcmp a b 4 \<noteq> 0"
definition sl_le :: "f64 \<Rightarrow> f64 \<Rightarrow> bool" where "sl_le a b \<longleftrightarrow> sf64_internal_fcmp a b 5 \<noteq> 0"
definition sl_gt :: "f64 \<Rightarrow> f64 \<Rightarrow> bool" where "sl_gt a b \<longleftrightarrow> sf64_internal_fcmp a b 2 \<noteq> 0"
definition sl_ge :: "f64 \<Rightarrow> f64 \<Rightarrow> bool" where "sl_ge a b \<longleftrightarrow> sf64_internal_fcmp a b 3 \<noteq> 0"
definition sl_eq :: "f64 \<Rightarrow> f64 \<Rightarrow> bool" where "sl_eq a b \<longleftrightarrow> sf64_internal_fcmp a b 1 \<noteq> 0"
definition sl_ne :: "f64 \<Rightarrow> f64 \<Rightarrow> bool" where "sl_ne a b \<longleftrightarrow> sf64_internal_fcmp a b 14 \<noteq> 0"

section \<open>Rounded arithmetic\<close>

definition sl_add :: "f64 \<Rightarrow> f64 \<Rightarrow> f64 sl" where "sl_add a b = with_fe (sf64_internal_add_rne a b)"

definition sl_sub :: "f64 \<Rightarrow> f64 \<Rightarrow> f64 sl" where
  "sl_sub a b = do { p \<leftarrow> snan_propagate; with_fe (sf64_internal_sub_rne p a b) }"

definition sl_mul :: "f64 \<Rightarrow> f64 \<Rightarrow> f64 sl" where "sl_mul a b = with_fe (sf64_internal_mul_rne a b)"
definition sl_div :: "f64 \<Rightarrow> f64 \<Rightarrow> f64 sl" where "sl_div a b = with_fe (sf64_internal_div_rne a b)"
definition sl_fma :: "f64 \<Rightarrow> f64 \<Rightarrow> f64 \<Rightarrow> f64 sl" where "sl_fma a b c = with_fe (sf64_internal_fma_rne a b c)"
definition sl_sqrt :: "f64 \<Rightarrow> f64 sl" where "sl_sqrt x = with_fe (sf64_internal_sqrt_rne x)"

definition pow2i :: "int \<Rightarrow> f64" where "pow2i q = sf64_internal_ldexp 0x3FF0000000000000 q"
definition sl_upper :: "f64 \<Rightarrow> f64" where "sl_upper d = d AND 0xFFFFFFFFF8000000"
definition mla :: "f64 \<Rightarrow> f64 \<Rightarrow> f64 \<Rightarrow> f64 sl" where "mla x y z = sl_fma x y z"
definition mlapn :: "f64 \<Rightarrow> f64 \<Rightarrow> f64 \<Rightarrow> f64 sl" where "mlapn x y z = sl_fma x y (sl_neg z)"
definition sl_rint :: "f64 \<Rightarrow> f64" where "sl_rint x = sf64_rint x"
definition sl_trunc :: "f64 \<Rightarrow> f64" where "sl_trunc x = sf64_internal_trunc x"

section \<open>Polynomials\<close>

definition poly2 :: "f64 \<Rightarrow> f64 \<Rightarrow> f64 \<Rightarrow> f64 sl" where "poly2 x c1 c0 = mla x c1 c0"

definition poly3 :: "f64 \<Rightarrow> f64 \<Rightarrow> f64 \<Rightarrow> f64 \<Rightarrow> f64 sl" where
  "poly3 x c2 c1 c0 = do { u \<leftarrow> mla x c2 c1; mla x u c0 }"

definition poly4 :: "f64 \<Rightarrow> f64 \<Rightarrow> f64 \<Rightarrow> f64 \<Rightarrow> f64 \<Rightarrow> f64 sl" where
  "poly4 x c3 c2 c1 c0 = do { u \<leftarrow> mla x c3 c2; v \<leftarrow> mla x u c1; mla x v c0 }"

text \<open>The loop of \<open>poly_array\<close> over the coefficients after the first.\<close>

fun poly_loop :: "f64 \<Rightarrow> f64 \<Rightarrow> f64 list \<Rightarrow> f64 sl" where
  "poly_loop x a [] = return a"
| "poly_loop x a (c # cs) = do { a \<leftarrow> mla x a c; poly_loop x a cs }"

definition poly_array :: "f64 \<Rightarrow> f64 list \<Rightarrow> f64 sl" where
  "poly_array x coeffs = poly_loop x (hd coeffs) (tl coeffs)"

section \<open>Double-double numbers\<close>

record DD =
  dd_hi :: f64
  dd_lo :: f64

definition dd :: "f64 \<Rightarrow> f64 \<Rightarrow> DD" where "dd h l = \<lparr>dd_hi = h, dd_lo = l\<rparr>"

text \<open>Knuth's two-sum, the part every \<open>ddadd2\<close> repeats: the rounded sum and its error.\<close>

definition two_sum :: "f64 \<Rightarrow> f64 \<Rightarrow> (f64 \<times> f64) sl" where
  "two_sum a b = do {
     s \<leftarrow> sl_add a b;
     bb \<leftarrow> sl_sub s a;
     x \<leftarrow> sl_sub s bb;
     y \<leftarrow> sl_sub a x;
     z \<leftarrow> sl_sub b bb;
     err \<leftarrow> sl_add y z;
     return (s, err) }"

definition ddadd2_dd_dd :: "DD \<Rightarrow> DD \<Rightarrow> DD sl" where
  "ddadd2_dd_dd a b = do {
     (s, err) \<leftarrow> two_sum (dd_hi a) (dd_hi b);
     l \<leftarrow> sl_add (dd_lo a) (dd_lo b);
     l \<leftarrow> sl_add err l;
     return (dd s l) }"

definition ddadd2_dd_d_d :: "f64 \<Rightarrow> f64 \<Rightarrow> DD sl" where
  "ddadd2_dd_d_d a b = do { (s, err) \<leftarrow> two_sum a b; return (dd s err) }"

definition ddadd2_dd_dd_d :: "DD \<Rightarrow> f64 \<Rightarrow> DD sl" where
  "ddadd2_dd_dd_d a b = do {
     (s, err) \<leftarrow> two_sum (dd_hi a) b;
     l \<leftarrow> sl_add err (dd_lo a);
     return (dd s l) }"

definition ddadd2_dd_d_dd :: "f64 \<Rightarrow> DD \<Rightarrow> DD sl" where
  "ddadd2_dd_d_dd a b = do {
     (s, err) \<leftarrow> two_sum a (dd_hi b);
     l \<leftarrow> sl_add err (dd_lo b);
     return (dd s l) }"

text \<open>The product and its error by one fused multiply-add.\<close>

definition two_prod :: "f64 \<Rightarrow> f64 \<Rightarrow> (f64 \<times> f64) sl" where
  "two_prod a b = do { h \<leftarrow> sl_mul a b; l \<leftarrow> sl_fma a b (sl_neg h); return (h, l) }"

definition ddmul_dd_d_d :: "f64 \<Rightarrow> f64 \<Rightarrow> DD sl" where
  "ddmul_dd_d_d a b = do { (h, l) \<leftarrow> two_prod a b; return (dd h l) }"

definition ddmul_dd_dd_d :: "DD \<Rightarrow> f64 \<Rightarrow> DD sl" where
  "ddmul_dd_dd_d a b = do {
     (h, l) \<leftarrow> two_prod (dd_hi a) b;
     l \<leftarrow> sl_fma (dd_lo a) b l;
     return (dd h l) }"

definition ddmul_dd_dd_dd :: "DD \<Rightarrow> DD \<Rightarrow> DD sl" where
  "ddmul_dd_dd_dd a b = do {
     (h, l) \<leftarrow> two_prod (dd_hi a) (dd_hi b);
     l \<leftarrow> sl_fma (dd_lo a) (dd_hi b) l;
     l \<leftarrow> sl_fma (dd_hi a) (dd_lo b) l;
     return (dd h l) }"

definition ddsqu_dd_dd :: "DD \<Rightarrow> DD sl" where
  "ddsqu_dd_dd a = do {
     (h, l) \<leftarrow> two_prod (dd_hi a) (dd_hi a);
     twolo \<leftarrow> sl_add (dd_lo a) (dd_lo a);
     l \<leftarrow> sl_fma (dd_hi a) twolo l;
     return (dd h l) }"

definition ddrec_dd_d :: "f64 \<Rightarrow> DD sl" where
  "ddrec_dd_d b = do {
     t \<leftarrow> sl_div 0x3FF0000000000000 b;
     u \<leftarrow> sl_fma (sl_neg t) b 0x3FF0000000000000;
     l \<leftarrow> sl_mul t u;
     return (dd t l) }"

definition ddrec_dd_dd :: "DD \<Rightarrow> DD sl" where
  "ddrec_dd_dd b = do {
     t \<leftarrow> sl_div 0x3FF0000000000000 (dd_hi b);
     u \<leftarrow> sl_fma (sl_neg t) (dd_hi b) 0x3FF0000000000000;
     u \<leftarrow> sl_fma (sl_neg t) (dd_lo b) u;
     l \<leftarrow> sl_mul t u;
     return (dd t l) }"

definition dddiv_dd_dd_dd :: "DD \<Rightarrow> DD \<Rightarrow> DD sl" where
  "dddiv_dd_dd_dd n d = do { r \<leftarrow> ddrec_dd_dd d; ddmul_dd_dd_dd n r }"

definition ddnormalize_dd_dd :: "DD \<Rightarrow> DD sl" where
  "ddnormalize_dd_dd a = do {
     s \<leftarrow> sl_add (dd_hi a) (dd_lo a);
     v \<leftarrow> sl_sub (dd_hi a) s;
     e \<leftarrow> sl_add v (dd_lo a);
     return (dd s e) }"

definition dd_to_d :: "DD \<Rightarrow> f64 sl" where "dd_to_d a = sl_add (dd_hi a) (dd_lo a)"

definition ddscale_dd_dd_d :: "DD \<Rightarrow> f64 \<Rightarrow> DD sl" where
  "ddscale_dd_dd_d d s = do { h \<leftarrow> sl_mul (dd_hi d) s; l \<leftarrow> sl_mul (dd_lo d) s; return (dd h l) }"

definition ddneg_dd_dd :: "DD \<Rightarrow> DD" where "ddneg_dd_dd a = dd (sl_neg (dd_hi a)) (sl_neg (dd_lo a))"

definition ddabs_dd_dd :: "DD \<Rightarrow> DD" where
  "ddabs_dd_dd a = (if sl_signbit (dd_hi a) then dd (sl_neg (dd_hi a)) (sl_neg (dd_lo a)) else a)"

definition ddsub_dd_dd_dd :: "DD \<Rightarrow> DD \<Rightarrow> DD sl" where
  "ddsub_dd_dd_dd a b = ddadd2_dd_dd a (ddneg_dd_dd b)"

text \<open>The fast two-sum, for a first operand that dominates.\<close>

definition ddadd_dd_d_d :: "f64 \<Rightarrow> f64 \<Rightarrow> DD sl" where
  "ddadd_dd_d_d a b = do {
     s \<leftarrow> sl_add a b;
     v \<leftarrow> sl_sub s a;
     e \<leftarrow> sl_sub b v;
     return (dd s e) }"

definition ddadd_dd_dd_d :: "DD \<Rightarrow> f64 \<Rightarrow> DD sl" where
  "ddadd_dd_dd_d a b = do {
     s \<leftarrow> sl_add (dd_hi a) b;
     v \<leftarrow> sl_sub s (dd_hi a);
     e \<leftarrow> sl_sub b v;
     e \<leftarrow> sl_add e (dd_lo a);
     return (dd s e) }"

definition ddadd_dd_d_dd :: "f64 \<Rightarrow> DD \<Rightarrow> DD sl" where
  "ddadd_dd_d_dd a b = do {
     s \<leftarrow> sl_add a (dd_hi b);
     v \<leftarrow> sl_sub s a;
     e \<leftarrow> sl_sub (dd_hi b) v;
     e \<leftarrow> sl_add e (dd_lo b);
     return (dd s e) }"

definition ddadd_dd_dd_dd :: "DD \<Rightarrow> DD \<Rightarrow> DD sl" where
  "ddadd_dd_dd_dd a b = do {
     s \<leftarrow> sl_add (dd_hi a) (dd_hi b);
     v \<leftarrow> sl_sub s (dd_hi a);
     e \<leftarrow> sl_sub (dd_hi b) v;
     l \<leftarrow> sl_add (dd_lo a) (dd_lo b);
     e \<leftarrow> sl_add e l;
     return (dd s e) }"

definition ddmul_d_dd_dd :: "DD \<Rightarrow> DD \<Rightarrow> f64 sl" where
  "ddmul_d_dd_dd x y = do {
     let xh = sl_upper (dd_hi x);
     xl \<leftarrow> sl_sub (dd_hi x) xh;
     let yh = sl_upper (dd_hi y);
     yl \<leftarrow> sl_sub (dd_hi y) yh;
     a \<leftarrow> sl_mul (dd_lo x) yh;
     a \<leftarrow> sl_fma xh (dd_lo y) a;
     a \<leftarrow> sl_fma xl yl a;
     a \<leftarrow> sl_fma xh yl a;
     a \<leftarrow> sl_fma xl yh a;
     sl_fma xh yh a }"

section \<open>Shared constants and predicates of \<open>sleef_internal.h\<close>\<close>

definition kPI :: f64 where "kPI = 0x400921FB54442D18"
definition kPI_2 :: f64 where "kPI_2 = 0x3FF921FB54442D18"
definition kPI_4 :: f64 where "kPI_4 = 0x3FE921FB54442D18"
definition k2_PI :: f64 where "k2_PI = 0x3FE45F306DC9C883"
definition kM_2_PI_H :: f64 where "kM_2_PI_H = 0x3FE45F306DC9C883"
definition kPI_A :: f64 where "kPI_A = 0x400921FB50000000"
definition kPI_B :: f64 where "kPI_B = 0x3E6110B460000000"
definition kPI_C :: f64 where "kPI_C = 0x3CA1A62630000000"
definition kPI_D :: f64 where "kPI_D = 0x3AF8A2E03707344A"
definition kPI_A2 :: f64 where "kPI_A2 = 0x400921FB54442D18"
definition kPI_B2 :: f64 where "kPI_B2 = 0x3CA1A62633145C07"
definition kTRIGRANGEMAX :: f64 where "kTRIGRANGEMAX = 0x42D6BCC41E900000"
definition kTRIGRANGEMAX2 :: f64 where "kTRIGRANGEMAX2 = 0x402E000000000000"
definition kL2U :: f64 where "kL2U = 0x3FE62E42FEFA3000"
definition kL2L :: f64 where "kL2L = 0x3D53DE6AF278ECE6"
definition kR_LN2 :: f64 where "kR_LN2 = 0x3FF71547652B82FE"

definition positive_infinity :: f64 where "positive_infinity = kPositiveInf"
definition qNaN :: f64 where "qNaN = 0x7FF8000000000000"

definition propagate_nan_xy :: "f64 \<Rightarrow> f64 \<Rightarrow> f64 sl" where
  "propagate_nan_xy x y = do {
     p \<leftarrow> snan_propagate;
     return (if p then (if is_nan_bits x then x OR 0x0008000000000000 else y OR 0x0008000000000000) else qNaN) }"

definition is_int :: "f64 \<Rightarrow> bool sl" where
  "is_int x = do { d \<leftarrow> sl_sub x (sf64_internal_trunc x); return (sl_eq d 0) }"

definition is_odd_int :: "f64 \<Rightarrow> bool sl" where
  "is_odd_int x = do {
     i \<leftarrow> is_int x;
     if \<not> i then return False
     else do {
       half \<leftarrow> sl_mul x 0x3FE0000000000000;
       d \<leftarrow> sl_sub half (sf64_internal_trunc half);
       return (sl_ne d 0) } }"

end
