(* ===== verification/Sf_Sleef_Exact.thy ===== *)
theory Sf_Sleef_Exact
  imports Sf_Sleef
begin

text \<open>
  What the rounded operations of the elementary functions deliver when the exact result is a double,
  and the reals that are doubles: scaled integers, differences of close doubles, multiples of a unit.
\<close>

section \<open>Results of computations\<close>

text \<open>
  \<open>f\<close> delivers \<open>v\<close> in a build that propagates signalling NaNs iff \<open>p\<close>, raises \<open>fl\<close> in the accumulator
  of the running entry and touches nothing else.
\<close>

definition gives :: "bool \<Rightarrow> 'r sl \<Rightarrow> 'r \<Rightarrow> u32 \<Rightarrow> bool" where
  "gives p f v fl \<longleftrightarrow>
     (\<forall>s. sl_snan s = p \<longrightarrow> run_state f s = (v, s\<lparr>sl_acc := acc_raise (sl_mode s) fl (sl_acc s)\<rparr>))"

lemma gives_return: "gives p (return v) v 0"
  by (simp add: gives_def)

lemma gives_bind: "gives p f v b \<Longrightarrow> gives p (g v) u c \<Longrightarrow> gives p (f \<bind> g) u (b OR c)"
  by (simp add: gives_def acc_raise_raise)

lemma gives_exact_bind: "gives p f v 0 \<Longrightarrow> gives p (g v) u 0 \<Longrightarrow> gives p (f \<bind> g) u 0"
  using gives_bind [of p f v 0 g u 0] by simp

lemma gives_with_fe: "body 0 = (v, fl) \<Longrightarrow> gives p (with_fe body) v fl"
  by (simp add: gives_def with_fe_def)

lemma gives_snan: "gives p (snan_propagate \<bind> f) v fl \<longleftrightarrow> gives p (f p) v fl"
  by (simp add: gives_def snan_propagate_def)

lemma gives_add: "add_r_impl a b SF64_RNE 0 = (v, fl) \<Longrightarrow> gives p (sl_add a b) v fl"
  unfolding sl_add_def by (rule gives_with_fe) (simp only: internal_add_rne_eq)

lemma gives_sub: "sub_r_impl p a b SF64_RNE 0 = (v, fl) \<Longrightarrow> gives p (sl_sub a b) v fl"
  unfolding sl_sub_def gives_snan by (rule gives_with_fe) (simp only: internal_sub_rne_eq)

lemma gives_mul: "mul_r_impl a b SF64_RNE 0 = (v, fl) \<Longrightarrow> gives p (sl_mul a b) v fl"
  unfolding sl_mul_def by (rule gives_with_fe) (simp only: internal_mul_rne_eq)

lemma gives_div: "div_r_impl a b SF64_RNE 0 = (v, fl) \<Longrightarrow> gives p (sl_div a b) v fl"
  unfolding sl_div_def by (rule gives_with_fe) (simp only: internal_div_rne_eq)

lemma gives_fma: "fma_r_impl a b c SF64_RNE 0 = (v, fl) \<Longrightarrow> gives p (sl_fma a b c) v fl"
  unfolding sl_fma_def by (rule gives_with_fe) (simp only: internal_fma_rne_eq)

text \<open>Every operation gives something.\<close>

lemma sub_gives: "\<exists>v fl. gives p (sl_sub a b) v fl \<and> sub_r_impl p a b SF64_RNE 0 = (v, fl)"
  using gives_sub by (metis surj_pair)

section \<open>Postconditions of a value\<close>

text \<open>What the value of a computation satisfies whatever state it starts from.\<close>

definition yields :: "('r \<Rightarrow> bool) \<Rightarrow> 'r sl \<Rightarrow> bool" where
  "yields Q f \<longleftrightarrow> (\<forall>s. Q (fst (run_state f s)))"

lemma yields_bind: "(\<And>v. yields Q (g v)) \<Longrightarrow> yields Q (f \<bind> g)"
  by (simp add: yields_def split: prod.split)

lemma yields_return: "Q v \<Longrightarrow> yields Q (return v)"
  by (simp add: yields_def)

lemma yields_gives: "(\<And>p. gives p f v fl) \<Longrightarrow> yields Q (g v) \<Longrightarrow> yields Q (f \<bind> g)"
  by (simp add: yields_def gives_def)

lemma yields_run: "yields Q f \<Longrightarrow> Q (fst (run_entry p a f m t w))"
  by (simp add: yields_def run_entry_def split_beta)

section \<open>Reals that are doubles\<close>

definition rep64 :: "real \<Rightarrow> bool" where "rep64 x \<longleftrightarrow> (\<exists>b. is_finite_bits b \<and> val64 b = x)"

lemma rep64_val: "is_finite_bits b \<Longrightarrow> rep64 (val64 b)"
  by (auto simp: rep64_def)

lemma enc64_finite: "n < inf64 \<Longrightarrow> is_finite_bits (enc64 s n)"
  by (simp add: is_finite_bits_iff mag64_enc64 inf64_def)

lemma rep64_mag: "n < inf64 \<Longrightarrow> rep64 (mag_val 52 (- 1074) n)"
  unfolding rep64_def by (rule exI [of _ "enc64 False n"]) (simp add: enc64_finite val64_enc64 inf64_def)

lemma rep64_minus: "rep64 (- x) \<longleftrightarrow> rep64 x"
proof -
  have "rep64 x \<Longrightarrow> rep64 (- x)" for x
  proof -
    assume "rep64 x"
    then obtain b where b: "is_finite_bits b" "val64 b = x" by (auto simp: rep64_def)
    then show "rep64 (- x)"
      unfolding rep64_def by (intro exI [of _ "sf64_neg b"]) (auto simp: val64_def)
  qed
  from this [of x] this [of "- x"] show ?thesis by auto
qed

lemma rep64_abs: "rep64 \<bar>x\<bar> \<longleftrightarrow> rep64 x"
  by (cases "x < 0") (simp_all add: rep64_minus)

lemma rep64_scaled:
  assumes "\<bar>K\<bar> < 2 ^ 53" "- 1074 \<le> q" "q \<le> 971"
  shows "rep64 (real_of_int K * 2 powi q)"
proof (cases "K = 0")
  case True
  have "rep64 0" using rep64_mag [of 0] by (simp add: inf64_def)
  then show ?thesis using True by simp
next
  case False
  then have "0 < nat \<bar>K\<bar>" "nat \<bar>K\<bar> < 2 ^ 53" using assms(1) by (simp_all add: nat_less_iff)
  then obtain n where "n < inf64" "mag_val 52 (- 1074) n = real (nat \<bar>K\<bar>) * 2 powi q"
    using representable [of "nat \<bar>K\<bar>" q] assms(2,3) by metis
  then have "rep64 (real (nat \<bar>K\<bar>) * 2 powi q)" using rep64_mag by metis
  moreover have "real (nat \<bar>K\<bar>) * 2 powi q = \<bar>real_of_int K * 2 powi q\<bar>" by (simp add: abs_mult)
  ultimately show ?thesis by (simp add: rep64_abs)
qed

text \<open>The significand and the exponent of a double, and the grid every larger double is on.\<close>

lemma finite_grid:
  assumes "is_finite_bits b"
  obtains K q where "\<bar>val64 b\<bar> = real K * 2 powi q" "K < 2 ^ 53" "- 1074 \<le> q" "q \<le> 971"
    "\<And>a. is_finite_bits a \<Longrightarrow> \<bar>val64 b\<bar> \<le> \<bar>val64 a\<bar> \<Longrightarrow> \<exists>J. \<bar>val64 a\<bar> = real J * 2 powi q"
    "mag_val 52 (- 1074) (Suc (mag64 b)) = real (Suc K) * 2 powi q"
proof -
  obtain d k where n: "mag64 b = d * 2 ^ 52 + k" "k < 2 ^ Suc 52" "0 < d \<Longrightarrow> 2 ^ 52 \<le> k"
    using mag_decompose [of "mag64 b" 52] by blast
  have q: "d \<le> 2045"
  proof (cases "0 < d")
    case True
    have "d * 2 ^ 52 + 2 ^ 52 < inf64" using assms n(1) n(3) [OF True] by (simp add: is_finite_bits_iff)
    then show ?thesis by (simp add: inf64_def)
  qed simp
  show ?thesis
  proof (rule that [of k "- 1074 + int d"])
    show "\<bar>val64 b\<bar> = real k * 2 powi (- 1074 + int d)"
      unfolding abs_val64 n(1) using n mag_val_encode [of k 52 d "- 1074"] by simp
    show "k < 2 ^ 53" using n(2) by simp
    show "- 1074 \<le> - 1074 + int d" by simp
    show "- 1074 + int d \<le> 971" using q by simp
    show "mag_val 52 (- 1074) (Suc (mag64 b)) = real (Suc k) * 2 powi (- 1074 + int d)"
      unfolding n(1) add_Suc_right [symmetric] using n(2,3) by (intro mag_val_encode) (simp_all add: le_SucI)
    fix a assume "is_finite_bits a" and le: "\<bar>val64 b\<bar> \<le> \<bar>val64 a\<bar>"
    obtain e j where m: "mag64 a = e * 2 ^ 52 + j" "j < 2 ^ Suc 52" "0 < e \<Longrightarrow> 2 ^ 52 \<le> j"
      using mag_decompose [of "mag64 a" 52] by blast
    have ba: "d * 2 ^ 52 + k \<le> e * 2 ^ 52 + j" using le unfolding abs_val64 n(1) m(1) by simp
    have "d \<le> e"
    proof (rule ccontr)
      assume "\<not> d \<le> e"
      then have "e + 1 \<le> d" "0 < d" by simp_all
      then have "(e + 1) * 2 ^ 52 \<le> d * 2 ^ 52" "2 ^ 52 \<le> k" using n(3) by simp_all
      then show False using ba m(2) by simp
    qed
    have "\<bar>val64 a\<bar> = real j * 2 powi (- 1074 + int e)"
      unfolding abs_val64 m(1) using m mag_val_encode [of j 52 e "- 1074"] by simp
    also have "\<dots> = real (j * 2 ^ (e - d)) * 2 powi (- 1074 + int d)"
      using \<open>d \<le> e\<close> powi2_shift [of "- 1074 + int d" "e - d"] by (simp add: of_nat_diff mult_ac)
    finally show "\<exists>J. \<bar>val64 a\<bar> = real J * 2 powi (- 1074 + int d)" by blast
  qed
qed

text \<open>Sterbenz: the difference of two doubles within a factor of two of each other is a double.\<close>

lemma sterbenz:
  assumes a: "is_finite_bits a" and b: "is_finite_bits b" and ab: "\<bar>val64 b\<bar> \<le> \<bar>val64 a\<bar>" "\<bar>val64 a\<bar> \<le> 2 * \<bar>val64 b\<bar>"
  shows "rep64 (\<bar>val64 a\<bar> - \<bar>val64 b\<bar>)"
proof -
  obtain K q where K: "\<bar>val64 b\<bar> = real K * 2 powi q" "K < 2 ^ 53" "- 1074 \<le> q" "q \<le> 971"
    "\<And>a. is_finite_bits a \<Longrightarrow> \<bar>val64 b\<bar> \<le> \<bar>val64 a\<bar> \<Longrightarrow> \<exists>J. \<bar>val64 a\<bar> = real J * 2 powi q"
    using finite_grid [OF b] by metis
  obtain J where J: "\<bar>val64 a\<bar> = real J * 2 powi q" using K(5) [OF a ab(1)] by blast
  have "real K \<le> real J" "real J \<le> real (2 * K)" using ab unfolding J K(1) by (simp_all add: mult.assoc [symmetric])
  then have "K \<le> J" "J \<le> 2 * K" by (simp_all only: of_nat_le_iff)
  moreover have "int K < 2 ^ 53" using K(2) by simp
  ultimately have "\<bar>int J - int K\<bar> < 2 ^ 53" by linarith
  from rep64_scaled [OF this K(3,4)] show ?thesis unfolding J K(1) by (simp add: left_diff_distrib)
qed

text \<open>The value of a literal.\<close>

lemma val64_literal:
  assumes "unat w = d * 2 ^ 52 + k" "k < 2 ^ 53" "0 < d \<Longrightarrow> 2 ^ 52 \<le> k" "d < 2046"
  shows "is_finite_bits w" "\<not> sgn64 w" "val64 w = real k * 2 powi (- 1074 + int d)" "mag64 w = d * 2 ^ 52 + k"
proof -
  have "d * 2 ^ 52 \<le> 2045 * 2 ^ 52" using assms(4) by (intro mult_right_mono) simp_all
  then have i: "unat w < inf64" using assms(1,2) by (simp add: inf64_def)
  then have u: "unat w < 2 ^ 63" by (simp add: inf64_def)
  then show m: "mag64 w = d * 2 ^ 52 + k" unfolding mag64_def assms(1) [symmetric] by simp
  show "is_finite_bits w" unfolding is_finite_bits_iff m assms(1) [symmetric] by (rule i)
  show s: "\<not> sgn64 w" using u by (simp add: sgn64_def)
  show "val64 w = real k * 2 powi (- 1074 + int d)" unfolding val64_def m if_not_P [OF s] using assms(2,3) by (intro mag_val_encode) simp_all
qed

lemma one_val [simp]: "val64 0x3FF0000000000000 = 1" "is_finite_bits 0x3FF0000000000000" "\<not> sgn64 0x3FF0000000000000"
  and half_val [simp]: "val64 0x3FE0000000000000 = 1 / 2" "is_finite_bits 0x3FE0000000000000" "\<not> sgn64 0x3FE0000000000000"
  using val64_literal [of "0x3FF0000000000000" 1022 "2 ^ 52"] val64_literal [of "0x3FE0000000000000" 1021 "2 ^ 52"]
  by (simp_all add: power_int_minus)

text \<open>An operation whose exact result is a nonzero double delivers it and raises nothing.\<close>

lemma round64_rep:
  assumes "rep64 x" "x \<noteq> 0"
  obtains v where "round64 m z x fe = (v, fe)" "is_finite_bits v" "val64 v = x" "sgn64 v \<longleftrightarrow> x < 0" "\<not> is_zero_bits v"
proof -
  obtain v where v: "is_finite_bits v" "val64 v = x" using assms(1) by (auto simp: rep64_def)
  have "\<not> is_zero_bits v" using v(2) assms(2) by (simp flip: val64_eq_0_iff)
  moreover from this have "sgn64 v \<longleftrightarrow> x < 0" using val64_sgn [of v] v(2) by (simp add: is_zero_bits_iff)
  ultimately show ?thesis using that v round64_val64 [OF v(1), of m z fe] by simp
qed

lemma round64_exact:
  assumes "rep64 x"
  obtains v where "round64 m z x fe = (v, fe)" "is_finite_bits v" "val64 v = x" "sgn64 v \<longleftrightarrow> (if x = 0 then z else x < 0)"
proof (cases "x = 0")
  case True
  then show ?thesis using that [of "enc64 z 0"]
    by (simp add: round64_def enc64_finite inf64_def val64_enc64 sgn64_enc64)
next
  case False
  then show ?thesis using that round64_rep [OF assms] by metis
qed

lemma zero_bits [simp]: "val64 0 = 0" "\<not> is_nan_bits 0" "is_finite_bits 0" "\<not> is_inf_bits 0" "is_zero_bits 0"
  by (simp_all add: class_iff val64_def sgn64_def mag64_def inf64_def)

section \<open>Exact operations\<close>

lemma sub_exact:
  assumes "is_finite_bits a" "is_finite_bits b" "rep64 (val64 a - val64 b)"
  obtains v where "gives p (sl_sub a b) v 0" "is_finite_bits v" "val64 v = val64 a - val64 b"
    "\<not> is_zero_bits b \<Longrightarrow> sgn64 v \<longleftrightarrow> val64 a < val64 b"
proof -
  define z where "z = (if is_zero_bits a \<and> is_zero_bits b \<and> sgn64 a \<noteq> sgn64 b then sgn64 a else SF64_RNE = SF64_RDN)"
  obtain v where v: "round64 SF64_RNE z (val64 a - val64 b) 0 = (v, 0)" "is_finite_bits v" "val64 v = val64 a - val64 b"
    "sgn64 v \<longleftrightarrow> (if val64 a - val64 b = 0 then z else val64 a - val64 b < 0)"
    using round64_exact [OF assms(3)] .
  have "sub_r_impl p a b SF64_RNE 0 = (v, 0)" unfolding sub_r_impl_finite [OF assms(1,2)] z_def [symmetric] by (rule v(1))
  from that [OF gives_sub [OF this] v(2,3)] show thesis using v(4) by (auto simp: z_def)
qed

lemma add_exact:
  assumes "is_finite_bits a" "is_finite_bits b" "rep64 (val64 a + val64 b)"
  obtains v where "gives p (sl_add a b) v 0" "is_finite_bits v" "val64 v = val64 a + val64 b"
    "\<not> is_zero_bits b \<Longrightarrow> sgn64 v \<longleftrightarrow> val64 a + val64 b < 0"
proof -
  define z where "z = (if is_zero_bits a \<and> is_zero_bits b \<and> (sgn64 a \<longleftrightarrow> sgn64 b) then sgn64 a else SF64_RNE = SF64_RDN)"
  obtain v where v: "round64 SF64_RNE z (val64 a + val64 b) 0 = (v, 0)" "is_finite_bits v" "val64 v = val64 a + val64 b"
    "sgn64 v \<longleftrightarrow> (if val64 a + val64 b = 0 then z else val64 a + val64 b < 0)"
    using round64_exact [OF assms(3)] .
  have "add_r_impl a b SF64_RNE 0 = (v, 0)" unfolding add_r_impl_finite [OF assms(1,2)] z_def [symmetric] by (rule v(1))
  from that [OF gives_add [OF this] v(2,3)] show thesis using v(4) by (auto simp: z_def)
qed

lemma mul_exact:
  assumes "is_finite_bits a" "is_finite_bits b" "rep64 (val64 a * val64 b)"
  obtains v where "gives p (sl_mul a b) v 0" "is_finite_bits v" "val64 v = val64 a * val64 b"
proof -
  obtain v where v: "round64 SF64_RNE (sgn64 a \<noteq> sgn64 b) (val64 a * val64 b) 0 = (v, 0)" "is_finite_bits v" "val64 v = val64 a * val64 b"
    using round64_exact [OF assms(3)] by metis
  have "mul_r_impl a b SF64_RNE 0 = (v, 0)" using mul_r_impl_finite [OF assms(1,2), of SF64_RNE 0] v(1) by simp
  from that [OF gives_mul [OF this] v(2,3)] show thesis .
qed

lemma div_exact:
  assumes "is_finite_bits a" "is_finite_bits b" "\<not> is_zero_bits b" "rep64 (val64 a / val64 b)"
  obtains v where "gives p (sl_div a b) v 0" "is_finite_bits v" "val64 v = val64 a / val64 b"
proof -
  obtain v where v: "round64 SF64_RNE (sgn64 a \<noteq> sgn64 b) (val64 a / val64 b) 0 = (v, 0)" "is_finite_bits v" "val64 v = val64 a / val64 b"
    using round64_exact [OF assms(4)] by metis
  have "div_r_impl a b SF64_RNE 0 = (v, 0)" using div_r_impl_finite [OF assms(1-3), of SF64_RNE 0] v(1) by simp
  from that [OF gives_div [OF this] v(2,3)] show thesis .
qed

lemma rep64_small:
  assumes "K < 2 ^ 53" "- 1074 \<le> q" "real K * 2 powi q < 2 powi 1024"
  shows "rep64 (real K * 2 powi q)"
proof (cases "q \<le> 971 \<or> K = 0")
  case True
  then show ?thesis
    using rep64_scaled [of "int K" q] rep64_scaled [of 0 0] assms by (cases "K = 0") auto
next
  case False
  define j where "j = nat (q - 971)"
  have q: "q = 971 + int j" using False by (simp add: j_def)
  have e: "real K * 2 powi q = real (K * 2 ^ j) * 2 powi 971" unfolding q by (simp add: powi2_shift mult_ac flip: powi2_shift)
  have "real (K * 2 ^ j) * 2 powi 971 < 2 ^ 53 * 2 powi 971" using assms(3) unfolding e by (simp add: powi2_shift [of 971 53, symmetric] mult.commute)
  then have "real (K * 2 ^ j) < 2 ^ 53" by (simp only: mult_less_cancel_right_pos powi2_pos)
  then have "K * 2 ^ j < 2 ^ 53" by (metis of_nat_less_iff of_nat_numeral of_nat_power)
  then have "\<bar>int (K * 2 ^ j)\<bar> < 2 ^ 53" by (metis abs_of_nat of_nat_less_iff of_nat_numeral of_nat_power)
  from rep64_scaled [OF this, of 971] show ?thesis unfolding e by simp
qed

lemma finite_bound: "is_finite_bits b \<Longrightarrow> \<bar>val64 b\<bar> < 2 powi 1024"
proof -
  assume "is_finite_bits b"
  then have "\<bar>val64 b\<bar> < mag_val 52 (- 1074) inf64" unfolding abs_val64 by (simp add: is_finite_bits_iff)
  also have "\<dots> = 2 powi 1024"
    using mag_val_encode [of "2 ^ 52" 52 2046 "- 1074"] powi2_shift [of 972 52] by (simp add: inf64_def mult.commute)
  finally show ?thesis .
qed

lemma ldexp_exact:
  assumes "is_finite_bits x" "\<not> is_zero_bits x" "rep64 (val64 x * 2 powi n)"
  shows "is_finite_bits (sf64_ldexp x n)" "val64 (sf64_ldexp x n) = val64 x * 2 powi n" "\<not> is_zero_bits (sf64_ldexp x n)"
proof -
  have "val64 x * 2 powi n \<noteq> 0" using assms(2) val64_eq_0_iff [of x] by simp
  then obtain v where "round64 SF64_RNE False (val64 x * 2 powi n) 0 = (v, 0)" "is_finite_bits v" "val64 v = val64 x * 2 powi n" "\<not> is_zero_bits v"
    using round64_rep [OF assms(3)] by metis
  then show "is_finite_bits (sf64_ldexp x n)" "val64 (sf64_ldexp x n) = val64 x * 2 powi n" "\<not> is_zero_bits (sf64_ldexp x n)"
    using ldexp_sound [OF assms(1,2), of n False 0] by simp_all
qed

section \<open>Predicates\<close>

lemma exp_field_iff: "drop_bit 52 b AND 0x7FF = 0x7FF \<longleftrightarrow> extract_exp b = kExpMax" for b :: u64
proof -
  have m: "(0x7FF :: u64) = mask 11" by (simp add: mask_eq_exp_minus_1)
  have "unat (drop_bit 52 b AND 0x7FF) = unat (extract_exp b)"
    unfolding m unat_extract_exp by (simp only: unat_and_mask unat_drop_bit)
  then show ?thesis unfolding word_unat_eq_iff by (simp add: kExpMax_def)
qed

lemma sl_class: "sl_isnan = is_nan_bits" "sl_is_snan = is_snan_bits" "sl_isinf = is_inf_bits"
  "sl_signbit = sgn64" "sl_neg = sf64_neg"
proof -
  show n: "sl_isnan = is_nan_bits"
    by (rule ext) (simp add: sl_isnan_def is_nan_bits_def exp_field_iff extract_frac_def kFracMask_def)
  show "sl_is_snan = is_snan_bits"
    by (rule ext) (simp add: sl_is_snan_def is_snan_bits_def kQuietNaNBit_def sl_isnan_def n [symmetric])
  show "sl_isinf = is_inf_bits"
    by (rule ext) (simp add: sl_isinf_def is_inf_bits_def exp_field_iff extract_frac_def kFracMask_def)
  show "sl_signbit = sgn64"
  proof
    fix b :: f64
    have "drop_bit 63 b \<noteq> 0 \<longleftrightarrow> unat b div 2 ^ 63 \<noteq> 0"
      unfolding unat_drop_bit [symmetric] by (simp only: unsigned_eq_0_iff)
    then show "sl_signbit b = sgn64 b" by (simp add: sl_signbit_def sgn64_def div_eq_0_iff not_less)
  qed
  show "sl_neg = sf64_neg" by (rule ext) (simp add: sl_neg_def sf64_internal_neg_def sf64_neg_def)
qed

lemma sl_compare:
  "sl_lt a b \<longleftrightarrow> \<not> is_nan_bits a \<and> \<not> is_nan_bits b \<and> val64 a < val64 b"
  "sl_le a b \<longleftrightarrow> \<not> is_nan_bits a \<and> \<not> is_nan_bits b \<and> val64 a \<le> val64 b"
  "sl_gt a b \<longleftrightarrow> \<not> is_nan_bits a \<and> \<not> is_nan_bits b \<and> val64 b < val64 a"
  "sl_ge a b \<longleftrightarrow> \<not> is_nan_bits a \<and> \<not> is_nan_bits b \<and> val64 b \<le> val64 a"
  "sl_eq a b \<longleftrightarrow> \<not> is_nan_bits a \<and> \<not> is_nan_bits b \<and> val64 a = val64 b"
  "sl_ne a b \<longleftrightarrow> is_nan_bits a \<or> is_nan_bits b \<or> val64 a \<noteq> val64 b"
  by (auto simp: sl_lt_def sl_le_def sl_gt_def sl_ge_def sl_eq_def sl_ne_def internal_fcmp_eq fcmp_impl_sound
      fcmp_holds_def bit_int_def)

lemma internal_fabs_eq: "sf64_internal_fabs = sf64_fabs"
  by (rule ext) (simp add: sf64_internal_fabs_def sf64_fabs_def)

lemma fabs_val: "val64 (sf64_fabs x) = \<bar>val64 x\<bar>" "is_finite_bits (sf64_fabs x) = is_finite_bits x"
  "is_zero_bits (sf64_fabs x) = is_zero_bits x" "is_nan_bits (sf64_fabs x) = is_nan_bits x" "is_inf_bits (sf64_fabs x) = is_inf_bits x"
  by (simp_all add: class_iff abs_val64) (simp add: val64_def)

text \<open>A run without a flush leaves the world alone.\<close>

lemma run_entry_gives: "gives p f v fl \<Longrightarrow> run_entry p a f m t w = (v, w)"
  by (simp add: gives_def run_entry_def)

lemma same_finite: "sgn64 a = sgn64 b \<Longrightarrow> val64 a = val64 b \<Longrightarrow> a = b"
proof -
  assume s: "sgn64 a = sgn64 b" and v: "val64 a = val64 b"
  then have "mag64 a = mag64 b" by (simp add: val64_def split: if_splits)
  then have "enc64 (sgn64 a) (mag64 a) = enc64 (sgn64 b) (mag64 b)" using s by (simp only:)
  then show "a = b" unfolding enc64_sgn_mag .
qed

lemma gives_call:
  assumes "\<And>m t w. f m t w = (v, w)"
  shows "gives p (call_entry f) v 0"
  by (simp add: gives_def call_entry_def assms)

text \<open>The integer parity test .\<close>

lemma is_odd_int_correct:
  assumes q: "is_finite_bits q" and n: "val64 q = real_of_int n" "\<bar>n\<bar> < 2 ^ 52"
  shows "gives p (is_odd_int q) (odd n) 0"
proof -
  have rep: "rep64 (real_of_int i)" "rep64 (real_of_int i / 2)" if "\<bar>i\<bar> < 2 ^ 53" for i
    using rep64_scaled [of i 0] rep64_scaled [of i "- 1"] that by (simp_all add: power_int_minus field_simps)
  have fin: "is_finite_bits (sf64_trunc b)" if "is_finite_bits b" for b
    using rint_r_sound(1) [OF that, of SF64_RTZ] by (simp add: sf64_rint_r_def)
  have tq: "val64 (sf64_trunc q) = real_of_int n" using integer_parts(3) [OF q] n(1) by simp
  obtain d where d: "gives p (sl_sub q (sf64_trunc q)) d 0" "is_finite_bits d" "val64 d = 0"
    using sub_exact [OF q fin [OF q]] rep(1) [of 0] tq n(1) by (metis abs_zero diff_self of_int_0 zero_less_numeral zero_less_power)
  have i: "gives p (is_int q) True 0"
    unfolding is_int_def internal_trunc_eq using d finite_not_special [OF d(2)] 
    by (intro gives_exact_bind [OF d(1)]) (simp add: sl_compare gives_return)
  have n53: "\<bar>n\<bar> < 2 ^ 53" using n(2) by simp
  obtain h where h: "gives p (sl_mul q 0x3FE0000000000000) h 0" "is_finite_bits h" "val64 h = real_of_int n / 2"
    using mul_exact [OF q half_val(2), of p] rep(2) [OF n53] n(1) by (metis half_val(1) times_divide_eq_right mult.right_neutral)
  define m where "m = (if sgn64 h then \<lceil>real_of_int n / 2\<rceil> else \<lfloor>real_of_int n / 2\<rfloor>)"
  have th: "val64 (sf64_trunc h) = real_of_int m" unfolding integer_parts(3) [OF h(2)] h(3) m_def by simp
  have dm: "real_of_int n / 2 - real_of_int m = real_of_int (n - 2 * m) / 2" by simp
  have "\<lfloor>real_of_int n / 2\<rfloor> = n div 2" "\<lfloor>- (real_of_int n / 2)\<rfloor> = (- n) div 2"
    using floor_divide_of_int_eq [of n 2] floor_divide_of_int_eq [of "- n" 2] by simp_all
  then have "m = n div 2 \<or> m = - ((- n) div 2)" by (simp add: m_def ceiling_def)
  then have c: "2 * m = n \<or> 2 * m = n - 1 \<or> 2 * m = n + 1" by presburger
  then have par: "n - 2 * m = 0 \<longleftrightarrow> even n" "\<bar>n - 2 * m\<bar> < 2 ^ 53" by presburger (use c in auto)
  obtain d' where d': "gives p (sl_sub h (sf64_trunc h)) d' 0" "is_finite_bits d'" "val64 d' = real_of_int (n - 2 * m) / 2"
    using sub_exact [OF h(2) fin [OF h(2)], of p] rep(2) [OF par(2)] th h(3) dm by metis
  have "val64 d' = 0 \<longleftrightarrow> even n" unfolding d'(3) par(1) [symmetric] by (simp del: of_int_diff)
  then have "sl_ne d' 0 = odd n" using finite_not_special [OF d'(2)] by (simp add: sl_compare)
  then have e: "gives p (return (sl_ne d' 0)) (odd n) 0" by (simp add: gives_return)
  show ?thesis
    unfolding is_odd_int_def internal_trunc_eq
    by (rule gives_exact_bind [OF i], simp only: not_True_eq_False if_False, rule gives_exact_bind [OF h(1)],
        rule gives_exact_bind [OF d'(1)], rule e)
qed

section \<open>Runs of the special cases\<close>

text \<open>What an entry that only raises \<open>fl\<close> does to the world of its thread.\<close>

definition delivered :: "fenv_mode \<Rightarrow> tid \<Rightarrow> fe_acc \<Rightarrow> u32 \<Rightarrow> fenv_world \<Rightarrow> fenv_world" where
  "delivered m t acc fl w = acc_flush m t (acc_raise m fl acc) w"

definition sleef_nan :: "bool \<Rightarrow> f64 \<Rightarrow> f64 \<Rightarrow> f64" where
  "sleef_nan p x y = (if p then quiet (if is_nan_bits x then x else y) else kCanonicalNaN)"

lemma propagate_nan_gives: "gives p (propagate_nan_xy x y) (sleef_nan p x y) 0"
  by (simp add: propagate_nan_xy_def gives_snan sleef_nan_def quiet_def kQuietNaNBit_def qNaN_def kCanonicalNaN_def gives_return
      split: if_split)

lemma run_raise:
  "run_entry p a (fe_raise fl \<bind> (\<lambda>_. fe_flush \<bind> (\<lambda>_. return v))) m t w = (v, delivered m t a fl w)"
  by (simp add: run_entry_def fe_raise_def with_fe_def fe_flush_def delivered_def)

lemma run_nan:
  "run_entry p a ((if sn then fe_raise SF64_FE_INVALID \<bind> (\<lambda>_. fe_flush) else return ()) \<bind> (\<lambda>_. propagate_nan_xy x y)) m t w =
   (sleef_nan p x y, if sn then delivered m t a SF64_FE_INVALID w else w)"
  using propagate_nan_gives [of p x y]
  by (simp add: run_entry_def fe_raise_def with_fe_def fe_flush_def delivered_def gives_def)

lemma sl_eq_zero: "sl_eq y 0 \<longleftrightarrow> is_zero_bits y"
  by (simp add: sl_compare val64_eq_0_iff) (auto simp: class_iff)

end
