(* ===== verification/Sf_Sleef_Rem.thy ===== *)
theory Sf_Sleef_Rem
  imports Sf_Sleef_Exact
begin

text \<open>
  \<open>sf64_fmod\<close> and \<open>sf64_remainder\<close> of \<open>src/sleef/sleef_inv_hyp_pow.cpp\<close>: the long division by
  scaled subtraction and the nearest-even correction on top of it.  Every step is shown exact, so the
  results are the real remainders.
\<close>

section \<open>The code\<close>

text \<open>The loop, \<open>k\<close> being \<open>diff + 1\<close>.\<close>

fun fmod_loop :: "nat \<Rightarrow> f64 \<Rightarrow> f64 \<Rightarrow> f64 sl" where
  "fmod_loop 0 absy r = return r"
| "fmod_loop (Suc k) absy r = do {
     let s = sf64_internal_ldexp absy (int k);
     r \<leftarrow> (if sl_ge r s then sl_sub r s else return r);
     fmod_loop k absy r }"

definition fmod_impl :: "f64 \<Rightarrow> f64 \<Rightarrow> f64 sl" where
  "fmod_impl x y =
     (if sl_isnan x \<or> sl_isnan y then do {
        (if sl_is_snan x \<or> sl_is_snan y then do { fe_raise SF64_FE_INVALID; fe_flush } else return ());
        propagate_nan_xy x y }
      else if sl_isinf x \<or> sl_eq y 0 then do { fe_raise SF64_FE_INVALID; fe_flush; return qNaN }
      else if sl_isinf y then return x
      else if sl_lt (sf64_internal_fabs x) (sf64_internal_fabs y) then return x
      else
        let absx = sf64_internal_fabs x; absy = sf64_internal_fabs y;
            ex = the (snd (sf64_internal_frexp absx True));
            ey = the (snd (sf64_internal_frexp absy True));
            diff = ex - ey
        in do {
          r \<leftarrow> fmod_loop (nat (diff + 1)) absy absx;
          return (if sl_signbit x then sl_neg r else r) })"

definition sf64_fmod :: "bool \<Rightarrow> f64 \<Rightarrow> f64 \<Rightarrow> f64 entry" where
  "sf64_fmod snan x y = run_entry snan acc_default (fmod_impl x y)"

definition sf64_fmod_ex :: "bool \<Rightarrow> f64 \<Rightarrow> f64 \<Rightarrow> state_ptr \<Rightarrow> f64 entry" where
  "sf64_fmod_ex snan x y state = run_entry snan (acc_of_state state) (fmod_impl x y)"

definition remainder_impl :: "f64 \<Rightarrow> f64 \<Rightarrow> f64 sl" where
  "remainder_impl x y =
     (if sl_isnan x \<or> sl_isnan y then do {
        (if sl_is_snan x \<or> sl_is_snan y then do { fe_raise SF64_FE_INVALID; fe_flush } else return ());
        propagate_nan_xy x y }
      else if sl_isinf x \<or> sl_eq y 0 then do { fe_raise SF64_FE_INVALID; fe_flush; return qNaN }
      else if sl_isinf y then return x
      else do {
        let absy = sf64_internal_fabs y;
        p \<leftarrow> snan_propagate;
        r \<leftarrow> call_entry (sf64_fmod p x y);
        let absr = sf64_internal_fabs r;
        d \<leftarrow> sl_sub absy absr;
        if sl_gt absr d then (if sl_signbit r then sl_add r absy else sl_sub r absy)
        else if sl_eq absr d then do {
          n \<leftarrow> sl_sub x r;
          q \<leftarrow> sl_div n y;
          odd_q \<leftarrow> is_odd_int q;
          if odd_q then (if sl_signbit r then sl_add r absy else sl_sub r absy) else return r }
        else return r })"

definition sf64_remainder :: "bool \<Rightarrow> f64 \<Rightarrow> f64 \<Rightarrow> f64 entry" where
  "sf64_remainder snan x y = run_entry snan acc_default (remainder_impl x y)"

definition sf64_remainder_ex :: "bool \<Rightarrow> f64 \<Rightarrow> f64 \<Rightarrow> state_ptr \<Rightarrow> f64 entry" where
  "sf64_remainder_ex snan x y state = run_entry snan (acc_of_state state) (remainder_impl x y)"

section \<open>The long division is exact\<close>

lemma floor_shift: "0 < Y \<Longrightarrow> (r - Y * 2 ^ k) - Y * real_of_int \<lfloor>(r - Y * 2 ^ k) / Y\<rfloor> = r - Y * real_of_int \<lfloor>r / Y\<rfloor>" for Y r :: real
proof -
  assume "0 < Y"
  then have "(r - Y * 2 ^ k) / Y = r / Y - of_int (2 ^ k)" by (simp add: field_simps)
  then have "\<lfloor>(r - Y * 2 ^ k) / Y\<rfloor> = \<lfloor>r / Y\<rfloor> - 2 ^ k" by (simp only: floor_diff_of_int)
  then show ?thesis by (simp only:) (simp add: right_diff_distrib)
qed

lemma fmod_loop_correct:
  assumes "is_finite_bits y" "0 < val64 y" "\<And>j. j < k \<Longrightarrow> rep64 (val64 y * 2 powi int j)"
    "is_finite_bits r" "\<not> sgn64 r" "val64 r < val64 y * 2 ^ k"
  shows "\<exists>v. gives p (fmod_loop k y r) v 0 \<and> is_finite_bits v \<and> \<not> sgn64 v
    \<and> val64 v = val64 r - val64 y * real_of_int \<lfloor>val64 r / val64 y\<rfloor>"
  using assms(3-)
proof (induction k arbitrary: r)
  case 0
  have "0 \<le> val64 r" using 0 by (simp add: val64_def)
  then have "\<lfloor>val64 r / val64 y\<rfloor> = 0" using 0 assms(2) by (simp add: floor_eq_iff)
  then show ?case using 0 by (intro exI [of _ r]) (simp add: gives_return)
next
  case (Suc k)
  have y0: "\<not> is_zero_bits y" using assms(2) by (simp flip: val64_eq_0_iff)
  have r0: "0 \<le> val64 r" using Suc.prems by (simp add: val64_def)
  let ?s = "sf64_ldexp y (int k)"
  note s = ldexp_exact [OF assms(1) y0 Suc.prems(1) [OF lessI]]
  have sv: "val64 ?s = val64 y * 2 ^ k" using s(2) by simp
  have nn: "\<not> is_nan_bits r" "\<not> is_nan_bits ?s" using Suc.prems(2) s(1) finite_not_special by blast+
  have rep: "rep64 (val64 y * 2 powi int j)" if "j < k" for j using Suc.prems(1) that by simp
  show ?case
  proof (cases "val64 ?s \<le> val64 r")
    case False
    then have "\<exists>v. gives p (fmod_loop k y r) v 0 \<and> is_finite_bits v \<and> \<not> sgn64 v
      \<and> val64 v = val64 r - val64 y * real_of_int \<lfloor>val64 r / val64 y\<rfloor>"
      using sv by (intro Suc.IH rep Suc.prems) simp_all
    then show ?thesis using False nn by (auto simp: internal_ldexp_eq sl_compare)
  next
    case True
    have "0 \<le> val64 ?s" using sv assms(2) by simp
    moreover have "rep64 (val64 r - val64 ?s)"
      using sterbenz [OF Suc.prems(2) s(1)] True r0 \<open>0 \<le> val64 ?s\<close> Suc.prems(4) sv by simp
    ultimately obtain v where v: "gives p (sl_sub r ?s) v 0" "is_finite_bits v" "val64 v = val64 r - val64 ?s"
      "sgn64 v \<longleftrightarrow> val64 r < val64 ?s"
      using sub_exact [OF Suc.prems(2) s(1)] s(3) by metis
    have "\<exists>u. gives p (fmod_loop k y v) u 0 \<and> is_finite_bits u \<and> \<not> sgn64 u
      \<and> val64 u = val64 v - val64 y * real_of_int \<lfloor>val64 v / val64 y\<rfloor>"
      using v True sv Suc.prems(4) by (intro Suc.IH rep v(2)) simp_all
    then obtain u where "gives p (fmod_loop k y v) u 0" "is_finite_bits u" "\<not> sgn64 u"
      "val64 u = val64 v - val64 y * real_of_int \<lfloor>val64 v / val64 y\<rfloor>" by blast
    moreover from this(1) have "gives p (fmod_loop (Suc k) y r) u 0"
      using v(1) True nn by (simp add: internal_ldexp_eq sl_compare Let_def gives_exact_bind)
    ultimately show ?thesis using floor_shift [OF assms(2), of "val64 r" k] v(3) sv by auto
  qed
qed

lemma frexp_exp:
  assumes "is_finite_bits x" "\<not> is_zero_bits x"
  shows "the (snd (sf64_frexp x True)) = \<lfloor>log 2 \<bar>val64 x\<bar>\<rfloor> + 1"
proof -
  obtain f e where "sf64_frexp x True = (f, Some e)"
    using assms finite_not_special [OF assms(1)]
    by (cases "split_exponent x") (auto simp: sf64_frexp_def Let_def class_iff)
  with frexp_sound(9) [OF assms this] show ?thesis by simp
qed

lemma fmod_impl_finite:
  assumes x: "is_finite_bits x" and y: "is_finite_bits y" "\<not> is_zero_bits y"
  shows "\<exists>v. gives p (fmod_impl x y) v 0 \<and> is_finite_bits v \<and> (sgn64 v \<longleftrightarrow> sgn64 x) \<and> val64 v = fmod_real (val64 x) (val64 y)"
proof -
  have nan: "\<not> is_nan_bits x" "\<not> is_nan_bits y" "\<not> is_inf_bits x" "\<not> is_inf_bits y" "val64 y \<noteq> 0"
    using x y by (auto simp: class_iff val64_eq_0_iff)
  let ?X = "\<bar>val64 x\<bar>" and ?Y = "\<bar>val64 y\<bar>"
  have pre: "fmod_impl x y = (if ?X < ?Y then return x else do {
      r \<leftarrow> fmod_loop (nat (the (snd (sf64_frexp (sf64_fabs x) True)) - the (snd (sf64_frexp (sf64_fabs y) True)) + 1)) (sf64_fabs y) (sf64_fabs x);
      return (if sgn64 x then sf64_neg r else r) })"
    unfolding fmod_impl_def sl_class using nan by (simp add: sl_compare internal_fabs_eq internal_frexp_eq fabs_val Let_def
        val64_eq_0_iff [of 0, THEN iffD2] is_zero_bits_def)
  have fm: "fmod_real (val64 x) (val64 y) = (if val64 x < 0 then - (?X - ?Y * \<lfloor>?X / ?Y\<rfloor>) else ?X - ?Y * \<lfloor>?X / ?Y\<rfloor>)"
    by (rule fmod_real_abs) (rule nan)
  show ?thesis
  proof (cases "?X < ?Y")
    case True
    then have fl: "\<lfloor>?X / ?Y\<rfloor> = 0" using nan(5) by (simp add: floor_eq_iff)
    have "fmod_real (val64 x) (val64 y) = val64 x" unfolding fm fl by simp
    then show ?thesis using True x by (intro exI [of _ x]) (simp add: pre gives_return)
  next
    case False
    have Y: "0 < ?Y" using nan(5) by simp
    then have X: "0 < ?X" using False by linarith
    then have x0: "\<not> is_zero_bits x" by (simp flip: val64_eq_0_iff)
    define ex where "ex = \<lfloor>log 2 ?X\<rfloor> + 1"
    define ey where "ey = \<lfloor>log 2 ?Y\<rfloor> + 1"
    have e: "the (snd (sf64_frexp (sf64_fabs x) True)) = ex" "the (snd (sf64_frexp (sf64_fabs y) True)) = ey"
      using frexp_exp [of "sf64_fabs x"] frexp_exp [of "sf64_fabs y"] x y x0 by (simp_all add: fabs_val ex_def ey_def)
    have bx: "2 powi (ex - 1) \<le> ?X" "?X < 2 powi ex" and by': "2 powi (ey - 1) \<le> ?Y" "?Y < 2 powi ey"
      using floor_log2_bounds [OF X] floor_log2_bounds [OF Y] by (simp_all add: ex_def ey_def)
    have "(2::real) powi (ey - 1) < 2 powi ex" using by'(1) bx(2) False by linarith
    then have d: "ey \<le> ex" by simp
    have k: "nat (ex - ey + 1) = Suc (nat (ex - ey))" using d by simp
    obtain K q where K: "?Y = real K * 2 powi q" "K < 2 ^ 53" "- 1074 \<le> q"
      using finite_grid [OF y(1)] by metis
    have rep: "rep64 (val64 (sf64_fabs y) * 2 powi int j)" if "j < nat (ex - ey + 1)" for j
    proof -
      have "?Y * 2 powi int j < 2 powi ey * 2 powi int j" using by'(2) by (intro mult_strict_right_mono) simp_all
      also have "\<dots> \<le> 2 powi ex" unfolding powi2_add [symmetric] using that by simp
      also have "ex \<le> 1024"
      proof -
        have "(2::real) powi (ex - 1) < 2 powi 1024" using bx(1) finite_bound [OF x] by linarith
        then show ?thesis unfolding powi2_less_iff by simp
      qed
      then have "(2::real) powi ex \<le> 2 powi 1024" by (rule powi2_mono)
      finally have "real K * 2 powi (q + int j) < 2 powi 1024" unfolding K(1) by (simp add: powi2_add mult.assoc)
      then have "rep64 (real K * 2 powi (q + int j))" using K by (intro rep64_small) simp_all
      then show ?thesis unfolding fabs_val K(1) by (simp add: powi2_add mult.assoc)
    qed
    have "(2::real) powi ex = 2 powi (ey - 1) * 2 powi int (nat (ex - ey + 1))" unfolding powi2_add [symmetric] using d by simp
    also have "\<dots> \<le> ?Y * 2 powi int (nat (ex - ey + 1))" using by'(1) by (intro mult_right_mono) simp_all
    finally have "val64 (sf64_fabs x) < val64 (sf64_fabs y) * 2 ^ nat (ex - ey + 1)"
      using bx(2) unfolding fabs_val power_int_of_nat by linarith
    then obtain v where v: "gives p (fmod_loop (nat (ex - ey + 1)) (sf64_fabs y) (sf64_fabs x)) v 0" "is_finite_bits v" "\<not> sgn64 v"
      "val64 v = ?X - ?Y * \<lfloor>?X / ?Y\<rfloor>"
      using fmod_loop_correct [of "sf64_fabs y" "nat (ex - ey + 1)" "sf64_fabs x" p] rep x y(1) Y by (auto simp: fabs_val)
    have "gives p (fmod_impl x y) (if sgn64 x then sf64_neg v else v) 0"
      unfolding pre e using False by (simp add: gives_exact_bind [OF v(1)] gives_return)
    moreover have "sgn64 x \<longleftrightarrow> val64 x < 0" using val64_sgn [of x] x0 by (simp add: is_zero_bits_iff)
    moreover have "val64 (sf64_neg v) = - val64 v" by (simp add: val64_def)
    ultimately show ?thesis
      using v by (intro exI [of _ "if sgn64 x then sf64_neg v else v"]) (simp add: fm)
  qed
qed

lemma fmod_finite_rem:
  assumes "is_finite_bits x" "is_finite_bits y" "\<not> is_zero_bits y"
  shows "gives p (fmod_impl x y) (fst (rem_impl x y fe)) 0"
proof -
  note F = fmod_impl_finite [OF assms, of p]
  note R = rem_impl_finite [OF assms, of fe]
  from F obtain v where v: "gives p (fmod_impl x y) v 0 \<and> is_finite_bits v \<and> (sgn64 v \<longleftrightarrow> sgn64 x) \<and> val64 v = fmod_real (val64 x) (val64 y)"
    ..
  from R obtain r where r: "rem_impl x y fe = (r, fe) \<and> is_finite_bits r \<and> (sgn64 r \<longleftrightarrow> sgn64 x)
    \<and> val64 r = fmod_real (val64 x) (val64 y)" ..
  have "v = r"
  proof (rule same_finite)
    show "sgn64 v = sgn64 r" using v r by blast
    show "val64 v = val64 r" using v r by argo
  qed
  show ?thesis using v r unfolding \<open>v = r\<close> by simp
qed

section \<open>The nearest-even correction\<close>

text \<open>Comparing \<open>|r|\<close> with the rounded difference \<open>|y| - |r|\<close> decides \<open>2 |r|\<close> against \<open>|y|\<close>.\<close>

lemma half_compare:
  assumes a: "is_finite_bits a" and y: "is_finite_bits y" and ay: "0 \<le> val64 a" "val64 a < val64 y"
  obtains d fl where "gives p (sl_sub y a) d fl" "\<not> is_nan_bits d"
    "val64 d < val64 a \<longleftrightarrow> val64 y < 2 * val64 a" "val64 a = val64 d \<longleftrightarrow> val64 y = 2 * val64 a"
proof (cases "val64 y \<le> 2 * val64 a")
  case True
  have "rep64 (val64 y - val64 a)" using sterbenz [OF y a] True ay by simp
  then obtain d where "gives p (sl_sub y a) d 0" "is_finite_bits d" "val64 d = val64 y - val64 a"
    using sub_exact [OF y a] by metis
  then show ?thesis using that [of d 0] finite_not_special by force
next
  case False
  obtain K q where K: "\<bar>val64 a\<bar> = real K * 2 powi q"
    "\<And>b. is_finite_bits b \<Longrightarrow> \<bar>val64 a\<bar> \<le> \<bar>val64 b\<bar> \<Longrightarrow> \<exists>J. \<bar>val64 b\<bar> = real J * 2 powi q"
    "mag_val 52 (- 1074) (Suc (mag64 a)) = real (Suc K) * 2 powi q"
    using finite_grid [OF a] by metis
  obtain J where J: "\<bar>val64 y\<bar> = real J * 2 powi q" using K(2) [OF y] ay by auto
  define x where "x = val64 y - val64 a"
  have x0: "0 < x" using ay by (simp add: x_def)
  have "real (2 * K) * 2 powi q < real J * 2 powi q" using False ay K(1) J by simp
  then have "2 * K < J" by (simp only: mult_less_cancel_right_pos powi2_pos of_nat_less_iff)
  then have "real (Suc K) \<le> real J - real K" by linarith
  then have "real (Suc K) * 2 powi q \<le> (real J - real K) * 2 powi q" by (intro mult_right_mono) simp_all
  then have le: "mag_val 52 (- 1074) (Suc (mag64 a)) \<le> x" using K(1,3) J ay by (simp add: x_def left_diff_distrib)
  define n where "n = fst (ieee_round 52 (- 1074) 2047 SF64_RNE False x)"
  have "Suc (mag64 a) \<le> trunc_mag 52 (- 1074) x" using le trunc_mag_le_iff [OF x0] by simp
  moreover have "trunc_mag 52 (- 1074) x \<le> round_mag 52 (- 1074) SF64_RNE False x"
    using x0 by (rule round_mag_cases [of x 52 "- 1074" SF64_RNE False]) simp_all
  moreover have "overflow_mag 52 2047 SF64_RNE False = inf64" by (simp add: overflow_mag_def rounds_down_def inf64_def)
  moreover have "Suc (mag64 a) \<le> inf64" using a by (simp add: is_finite_bits_iff)
  ultimately have n: "Suc (mag64 a) \<le> n" "n \<le> inf64" by (auto simp: n_def ieee_round_def Let_def inf64_def)
  have r: "sub_r_impl p y a SF64_RNE 0 = (enc64 False n, snd (ieee_round 52 (- 1074) 2047 SF64_RNE False x))"
    unfolding sub_r_impl_finite [OF y a] x_def [symmetric] round64_pos [OF x0] ieee64_def n_def by simp
  have v: "val64 (enc64 False n) = mag_val 52 (- 1074) n" "mag64 (enc64 False n) = n"
    using n(2) by (simp_all add: val64_enc64 mag64_enc64 inf64_def)
  have "val64 a = mag_val 52 (- 1074) (mag64 a)" using ay(1) abs_val64 [of a] by simp
  then have "val64 a < val64 (enc64 False n)" unfolding v using n(1) by simp
  moreover have "\<not> is_nan_bits (enc64 False n)" using n(2) by (simp add: is_nan_bits_iff v)
  ultimately show ?thesis using that [OF gives_sub [OF r]] False by simp
qed

text \<open>The real remainder by magnitudes.\<close>

lemma remainder_real:
  fixes x y :: real
  assumes "y \<noteq> 0"
  defines "N \<equiv> \<lfloor>\<bar>x\<bar> / \<bar>y\<bar>\<rfloor>"
  defines "a \<equiv> \<bar>x\<bar> - \<bar>y\<bar> * real_of_int N"
  shows "x - real_of_int (rnd_int SF64_RNE False (x / y)) * y =
    (let c = (if \<bar>y\<bar> < 2 * a \<or> \<bar>y\<bar> = 2 * a \<and> odd N then a - \<bar>y\<bar> else a) in if x < 0 then - c else c)"
    and "0 \<le> a" "a < \<bar>y\<bar>"
proof -
  define t where "t = \<bar>x\<bar> / \<bar>y\<bar>"
  have y: "0 < \<bar>y\<bar>" using assms(1) by simp
  have x: "\<bar>x\<bar> = t * \<bar>y\<bar>" using y by (simp add: t_def)
  have a: "a = (t - N) * \<bar>y\<bar>" unfolding a_def x by (simp add: algebra_simps)
  have N: "real_of_int N \<le> t" "t < real_of_int N + 1" unfolding N_def t_def [symmetric] by linarith+
  show "0 \<le> a" "a < \<bar>y\<bar>" unfolding a using N y by simp_all
  have c: "\<bar>y\<bar> < 2 * a \<longleftrightarrow> 1 / 2 < t - N" "\<bar>y\<bar> = 2 * a \<longleftrightarrow> 1 / 2 = t - N"
  proof -
    have e: "2 * a = (2 * (t - N)) * \<bar>y\<bar>" "\<bar>y\<bar> = 1 * \<bar>y\<bar>" by (simp_all add: a)
    have "\<bar>y\<bar> < 2 * a \<longleftrightarrow> 1 < 2 * (t - N)" unfolding e(1) using y mult_less_cancel_right_pos [OF y, of 1 "2 * (t - N)"] by simp
    moreover have "\<bar>y\<bar> = 2 * a \<longleftrightarrow> 1 = 2 * (t - N)" unfolding e(1) using y mult_cancel_right [of 1 "\<bar>y\<bar>" "2 * (t - N)"] by auto
    ultimately show "\<bar>y\<bar> < 2 * a \<longleftrightarrow> 1 / 2 < t - N" "\<bar>y\<bar> = 2 * a \<longleftrightarrow> 1 / 2 = t - N" by auto
  qed
  have R: "rnd_int SF64_RNE False t = (if 1 / 2 < t - N \<or> 1 / 2 = t - N \<and> odd N then N + 1 else N)"
    by (auto simp: rnd_int_def N_def t_def [symmetric])
  have "x - real_of_int (rnd_int SF64_RNE False (x / y)) * y = (if x < 0 then - 1 else 1) * (\<bar>x\<bar> - rnd_int SF64_RNE False t * \<bar>y\<bar>)"
  proof (cases "(x < 0) = (y < 0)")
    case True
    then have "x / y = t" by (auto simp: t_def)
    then show ?thesis using True by (auto simp: abs_if)
  next
    case False
    then have "x / y = - t" by (auto simp: t_def)
    then show ?thesis using False by (auto simp: abs_if rne_minus)
  qed
  also have "\<bar>x\<bar> - rnd_int SF64_RNE False t * \<bar>y\<bar> = (if \<bar>y\<bar> < 2 * a \<or> \<bar>y\<bar> = 2 * a \<and> odd N then a - \<bar>y\<bar> else a)"
    unfolding R c by (auto simp: a_def algebra_simps)
  finally show "x - real_of_int (rnd_int SF64_RNE False (x / y)) * y =
    (let c = (if \<bar>y\<bar> < 2 * a \<or> \<bar>y\<bar> = 2 * a \<and> odd N then a - \<bar>y\<bar> else a) in if x < 0 then - c else c)"
    by (simp add: Let_def)
qed

lemma odd_part:
  fixes k :: nat
  assumes "0 < k"
  obtains u j where "odd u" "k = u * 2 ^ j"
  using assms
proof (induction k arbitrary: thesis rule: less_induct)
  case (less k)
  show ?case
  proof (cases "odd k")
    case True
    then show ?thesis using less.prems(1) [of k 0] by simp
  next
    case False
    then obtain h where h: "k = 2 * h" by blast
    then have "h < k" "0 < h" using less.prems(2) by simp_all
    then obtain u j where "odd u" "h = u * 2 ^ j" using less.IH by metis
    then show ?thesis using less.prems(1) [of u "Suc j"] h by simp
  qed
qed

text \<open>In a tie \<open>2 a = |y|\<close> the truncated multiple of \<open>y\<close> below \<open>x\<close> is a double and the quotient is short.\<close>

lemma tie_multiple:
  assumes a: "is_finite_bits a" "0 < \<bar>val64 a\<bar>" and x: "is_finite_bits x" "\<bar>val64 x\<bar> = \<bar>val64 a\<bar> * (2 * real N + 1)"
  shows "rep64 (2 * \<bar>val64 a\<bar> * real N)" "N < 2 ^ 52"
proof -
  obtain K q where K: "\<bar>val64 a\<bar> = real K * 2 powi q" "- 1074 \<le> q" using finite_grid [OF a(1)] by metis
  have "0 < K" using a(2) K(1) by (cases K) auto
  then obtain u j where u: "odd u" "K = u * 2 ^ j" by (rule odd_part)
  define f where "f = q + int j"
  have av: "\<bar>val64 a\<bar> = real u * 2 powi f" unfolding K(1) u(2) f_def by (simp add: powi2_shift mult_ac flip: powi2_shift)
  obtain M e where M: "\<bar>val64 x\<bar> = real M * 2 powi e" "M < 2 ^ 53" using finite_grid [OF x(1)] by metis
  have eq: "real (u * (2 * N + 1)) * 2 powi f = real M * 2 powi e"
    using x(2) unfolding av M(1) by (simp add: algebra_simps)
  have "e \<le> f"
  proof (rule ccontr)
    assume "\<not> e \<le> f"
    then obtain i where i: "e = f + int (Suc i)" by (metis add.commute not_le zless_iff_Suc_zadd)
    have "real (u * (2 * N + 1)) * 2 powi f = real (M * 2 ^ Suc i) * 2 powi f"
      unfolding eq i powi2_shift [symmetric] by simp
    then have "u * (2 * N + 1) = M * 2 ^ Suc i" by (simp only: mult_cancel_right of_nat_eq_iff) simp
    moreover have "odd (u * (2 * N + 1))" using u(1) by simp
    ultimately show False by simp
  qed
  then obtain i where i: "f = e + int i" by (metis zle_iff_zadd)
  have "real (u * (2 * N + 1) * 2 ^ i) * 2 powi e = real M * 2 powi e"
    unfolding eq [symmetric] i powi2_shift [symmetric] by simp
  then have "u * (2 * N + 1) * 2 ^ i = M" by (simp only: mult_cancel_right of_nat_eq_iff) simp
  moreover have "u * (2 * N + 1) * 1 \<le> u * (2 * N + 1) * 2 ^ i" by (intro mult_le_mono) simp_all
  ultimately have s: "u * (2 * N + 1) < 2 ^ 53" using M(2) by linarith
  have "1 \<le> u" using u(1) by (cases u) auto
  then have "1 * (2 * N + 1) \<le> u * (2 * N + 1)" by (intro mult_le_mono) simp_all
  then show "N < 2 ^ 52" using s by simp
  have "u * N \<le> u * (2 * N + 1)" by (intro mult_le_mono) simp_all
  then have "u * N < 2 ^ 53" using s by linarith
  moreover have "- 1074 \<le> f + 1" using K(2) by (simp add: f_def)
  moreover have e2: "2 * \<bar>val64 a\<bar> * real N = real (u * N) * 2 powi (f + 1)" unfolding av by (simp add: powi2_add)
  moreover have "2 * \<bar>val64 a\<bar> * real N \<le> \<bar>val64 x\<bar>" unfolding x(2) by (simp add: algebra_simps)
  then have "2 * \<bar>val64 a\<bar> * real N < 2 powi 1024" using finite_bound [OF x(1)] by linarith
  ultimately show "rep64 (2 * \<bar>val64 a\<bar> * real N)" using rep64_small [of "u * N" "f + 1"] by (simp only:)
qed

text \<open>The correction step towards the nearest multiple.\<close>

lemma correction:
  assumes r: "is_finite_bits r" and y: "is_finite_bits y" "val64 r \<noteq> 0" and a: "\<bar>val64 r\<bar> < \<bar>val64 y\<bar>" "\<bar>val64 y\<bar> \<le> 2 * \<bar>val64 r\<bar>"
  obtains v where "gives p (if sgn64 r then sl_add r (sf64_fabs y) else sl_sub r (sf64_fabs y)) v 0"
    "is_finite_bits v" "val64 v = (if sgn64 r then \<bar>val64 y\<bar> - \<bar>val64 r\<bar> else \<bar>val64 r\<bar> - \<bar>val64 y\<bar>)"
proof -
  have fy: "is_finite_bits (sf64_fabs y)" using y by (simp add: fabs_val)
  have rep: "rep64 (\<bar>val64 y\<bar> - \<bar>val64 r\<bar>)" using sterbenz [OF y(1) r] a by simp
  then have rep': "rep64 (\<bar>val64 r\<bar> - \<bar>val64 y\<bar>)" using rep64_minus [of "\<bar>val64 y\<bar> - \<bar>val64 r\<bar>"] by simp
  show thesis
  proof (cases "sgn64 r")
    case True
    then have v: "val64 r = - \<bar>val64 r\<bar>" by (simp add: val64_def)
    then have "val64 r + val64 (sf64_fabs y) = \<bar>val64 y\<bar> - \<bar>val64 r\<bar>" unfolding fabs_val by linarith
    then show thesis using add_exact [OF r fy, of p] rep that True by metis
  next
    case False
    then have v: "val64 r = \<bar>val64 r\<bar>" by (simp add: val64_def)
    then have "val64 r - val64 (sf64_fabs y) = \<bar>val64 r\<bar> - \<bar>val64 y\<bar>" unfolding fabs_val by linarith
    then show thesis using sub_exact [OF r fy, of p] rep' that False by metis
  qed
qed

text \<open>The quotient the tie is broken by.\<close>

lemma same_sign_diff: "\<bar>x\<bar> = \<bar>r\<bar> + Z \<Longrightarrow> (x < 0) = (r < 0) \<Longrightarrow> 0 \<le> Z \<Longrightarrow> x - r = (if x < 0 then - Z else Z)" for x r Z :: real
  by (auto simp: abs_if split: if_splits)

lemma tie_parity:
  assumes x: "is_finite_bits x" and y: "is_finite_bits y" and r: "is_finite_bits r" "val64 r \<noteq> 0" "\<bar>val64 y\<bar> = 2 * \<bar>val64 r\<bar>"
    and xr: "\<bar>val64 x\<bar> = \<bar>val64 r\<bar> + \<bar>val64 y\<bar> * real N" "(val64 x < 0) = (val64 r < 0)"
  shows "gives p (sl_sub x r \<bind> (\<lambda>n. sl_div n y \<bind> (\<lambda>q. is_odd_int q))) (odd N) 0"
proof -
  have X: "\<bar>val64 x\<bar> = \<bar>val64 r\<bar> * (2 * real N + 1)" unfolding xr(1) r(3) by (simp add: algebra_simps)
  have T: "rep64 (2 * \<bar>val64 r\<bar> * real N)" "N < 2 ^ 52" using tie_multiple [OF r(1) _ x X] r(2) by simp_all
  define g where "g = (if (val64 x < 0) = (val64 y < 0) then int N else - int N)"
  have nn: "0 \<le> \<bar>val64 y\<bar> * real N" by simp
  note xmr = same_sign_diff [OF xr nn]
  then have "\<bar>val64 x - val64 r\<bar> = \<bar>val64 y\<bar> * real N" using nn by simp
  moreover have "val64 x - val64 r = real_of_int g * val64 y" unfolding xmr by (auto simp: g_def)
  ultimately have diff: "\<bar>val64 x - val64 r\<bar> = 2 * \<bar>val64 r\<bar> * real N" "val64 x - val64 r = real_of_int g * val64 y"
    unfolding r(3) by simp_all
  obtain n where n: "gives p (sl_sub x r) n 0" "is_finite_bits n" "val64 n = val64 x - val64 r"
    using sub_exact [OF x r(1), of p] T(1) diff(1) rep64_abs by metis
  have y0: "\<not> is_zero_bits y" "val64 y \<noteq> 0" using r(2,3) val64_eq_0_iff [of y] by auto
  then have ng: "val64 n / val64 y = real_of_int g" unfolding n(3) diff(2) by simp
  have g: "\<bar>g\<bar> < 2 ^ 52" using T(2) by (simp add: g_def)
  then have "rep64 (real_of_int g)" using rep64_scaled [of g 0] by simp
  then obtain q where q: "gives p (sl_div n y) q 0" "is_finite_bits q" "val64 q = real_of_int g"
    using div_exact [OF n(2) y y0(1), of p] ng by metis
  have "gives p (is_odd_int q) (odd g) 0" by (rule is_odd_int_correct [OF q(2,3) g])
  moreover have "odd g = odd N" by (simp add: g_def)
  ultimately have "gives p (is_odd_int q) (odd N) 0" by simp
  then show ?thesis by (intro gives_exact_bind [OF n(1)] gives_exact_bind [OF q(1)])
qed

lemma remainder_impl_finite:
  assumes x: "is_finite_bits x" and y: "is_finite_bits y" "\<not> is_zero_bits y"
  shows "\<exists>v fl. gives p (remainder_impl x y) v fl \<and> is_finite_bits v
    \<and> val64 v = val64 x - real_of_int (rnd_int SF64_RNE False (val64 x / val64 y)) * val64 y
    \<and> (val64 v = 0 \<longrightarrow> sgn64 v = sgn64 x)"
proof -
  have nan: "\<not> is_nan_bits x" "\<not> is_nan_bits y" "\<not> is_inf_bits x" "\<not> is_inf_bits y" "val64 y \<noteq> 0"
    using x y by (auto simp: class_iff val64_eq_0_iff)
  obtain r where r: "gives p (fmod_impl x y) r 0" "is_finite_bits r" "sgn64 r = sgn64 x" "val64 r = fmod_real (val64 x) (val64 y)"
    using fmod_impl_finite [OF assms, of p] by (elim exE conjE) (rule that)
  define N where "N = nat \<lfloor>\<bar>val64 x\<bar> / \<bar>val64 y\<bar>\<rfloor>"
  define a where "a = \<bar>val64 x\<bar> - \<bar>val64 y\<bar> * real N"
  have N: "\<lfloor>\<bar>val64 x\<bar> / \<bar>val64 y\<bar>\<rfloor> = int N" by (simp add: N_def)
  note R = remainder_real [OF nan(5), of "val64 x", unfolded N of_int_of_nat_eq, folded a_def]
  have rv: "val64 r = (if val64 x < 0 then - a else a)" unfolding r(4) fmod_real_abs [OF nan(5)] N by (simp add: a_def)
  have ra: "\<bar>val64 r\<bar> = a" using R(2) by (simp add: rv)
  have y0: "\<not> sl_eq y 0" using nan by (simp add: sl_compare)
  have nr: "\<not> is_nan_bits r" using finite_not_special [OF r(2)] by blast
  have pre: "remainder_impl x y = do {
        p \<leftarrow> snan_propagate;
        r \<leftarrow> call_entry (sf64_fmod p x y);
        d \<leftarrow> sl_sub (sf64_fabs y) (sf64_fabs r);
        if sl_gt (sf64_fabs r) d then (if sgn64 r then sl_add r (sf64_fabs y) else sl_sub r (sf64_fabs y))
        else if sl_eq (sf64_fabs r) d then sl_sub x r \<bind> (\<lambda>n. sl_div n y \<bind> (\<lambda>q. is_odd_int q)) \<bind>
          (\<lambda>odd_q. if odd_q then (if sgn64 r then sl_add r (sf64_fabs y) else sl_sub r (sf64_fabs y)) else return r)
        else return r }"
    unfolding remainder_impl_def sl_class State_Monad.bind_assoc using nan y0 by (simp add: internal_fabs_eq Let_def)
  have call: "gives p (call_entry (sf64_fmod p x y)) r 0"
    by (rule gives_call) (unfold sf64_fmod_def, rule run_entry_gives [OF r(1)])
  obtain d fl where d: "gives p (sl_sub (sf64_fabs y) (sf64_fabs r)) d fl" "\<not> is_nan_bits d"
    "val64 d < a \<longleftrightarrow> \<bar>val64 y\<bar> < 2 * a" "a = val64 d \<longleftrightarrow> \<bar>val64 y\<bar> = 2 * a"
    using half_compare [of "sf64_fabs r" "sf64_fabs y" p, unfolded fabs_val ra, OF r(2) y(1) R(2,3)] by metis
  have cmp: "sl_gt (sf64_fabs r) d \<longleftrightarrow> \<bar>val64 y\<bar> < 2 * a" "sl_eq (sf64_fabs r) d \<longleftrightarrow> \<bar>val64 y\<bar> = 2 * a"
    using d(2-4) nr by (simp_all add: sl_compare fabs_val ra)
  define tail where "tail = (if sl_gt (sf64_fabs r) d then (if sgn64 r then sl_add r (sf64_fabs y) else sl_sub r (sf64_fabs y))
        else if sl_eq (sf64_fabs r) d then sl_sub x r \<bind> (\<lambda>n. sl_div n y \<bind> (\<lambda>q. is_odd_int q)) \<bind>
          (\<lambda>odd_q. if odd_q then (if sgn64 r then sl_add r (sf64_fabs y) else sl_sub r (sf64_fabs y)) else return r)
        else return r)"
  have run: "gives p tail v 0 \<Longrightarrow> gives p (remainder_impl x y) v (0 OR (fl OR 0))" for v
    unfolding pre gives_snan tail_def by (rule gives_bind [OF call], rule gives_bind [OF d(1)])
  show ?thesis
  proof (cases "\<bar>val64 y\<bar> < 2 * a \<or> \<bar>val64 y\<bar> = 2 * a \<and> odd N")
    case True
    then have a2: "\<bar>val64 y\<bar> \<le> 2 * \<bar>val64 r\<bar>" "val64 r \<noteq> 0" using R(3) ra by auto
    obtain v where v: "gives p (if sgn64 r then sl_add r (sf64_fabs y) else sl_sub r (sf64_fabs y)) v 0"
      "is_finite_bits v" "val64 v = (if sgn64 r then \<bar>val64 y\<bar> - a else a - \<bar>val64 y\<bar>)"
      using correction [OF r(2) y(1) a2(2) _ a2(1), of p] R(3) unfolding ra by metis
    have "gives p tail v 0"
    proof (cases "\<bar>val64 y\<bar> < 2 * a")
      case True then show ?thesis unfolding tail_def cmp using v(1) by (simp only: if_True)
    next
      case False
      then have t: "\<bar>val64 y\<bar> = 2 * a" "odd N" using True by simp_all
      have "gives p (sl_sub x r \<bind> (\<lambda>n. sl_div n y \<bind> (\<lambda>q. is_odd_int q))) (odd N) 0"
        using a2(2) t(1) R(2,3) by (intro tie_parity [OF x y(1) r(2)]) (auto simp: ra a_def rv)
      then show ?thesis
        unfolding tail_def cmp if_not_P [OF False] if_P [OF t(1)] by (rule gives_exact_bind) (simp only: t(2) if_True not_False_eq_True v(1))
    qed
    moreover have "mag64 r \<noteq> 0" using a2(2) val64_eq_0_iff [of r] by (simp add: is_zero_bits_iff)
    then have "sgn64 r \<longleftrightarrow> val64 r < 0" by (simp add: val64_sgn)
    then have "sgn64 r \<longleftrightarrow> val64 x < 0" using a2(2) rv R(2) by (auto split: if_splits)
    ultimately show ?thesis
      using run [of v] v(2,3) R(1,3) True by (intro exI [of _ v] exI [of _ "0 OR (fl OR 0)"]) (auto simp: Let_def)
  next
    case False
    have "gives p tail r 0"
    proof (cases "\<bar>val64 y\<bar> = 2 * a")
      case True
      then have t: "\<not> \<bar>val64 y\<bar> < 2 * a" "\<not> odd N" using False by simp_all
      have "gives p (sl_sub x r \<bind> (\<lambda>n. sl_div n y \<bind> (\<lambda>q. is_odd_int q))) (odd N) 0"
        using nan(5) True R(2,3) by (intro tie_parity [OF x y(1) r(2)]) (auto simp: ra a_def rv)
      then show ?thesis
        unfolding tail_def cmp if_not_P [OF t(1)] if_P [OF True] by (rule gives_exact_bind) (simp only: t(2) if_False gives_return)
    next
      case F: False
      then show ?thesis using False unfolding tail_def cmp by (simp add: gives_return)
    qed
    then show ?thesis
      using run [of r] r(2,3) rv R(1) False by (intro exI [of _ r] exI [of _ "0 OR (fl OR 0)"]) (auto simp: Let_def)
  qed
qed

section \<open>Every input\<close>

lemma run_fmod_special:
  "is_nan_bits x \<or> is_nan_bits y \<Longrightarrow> run_entry p a (fmod_impl x y) m t w =
     (sleef_nan p x y, if is_snan_bits x \<or> is_snan_bits y then delivered m t a SF64_FE_INVALID w else w)"
  "\<not> (is_nan_bits x \<or> is_nan_bits y) \<Longrightarrow> is_inf_bits x \<or> is_zero_bits y \<Longrightarrow> run_entry p a (fmod_impl x y) m t w =
     (kCanonicalNaN, delivered m t a SF64_FE_INVALID w)"
  "\<not> (is_nan_bits x \<or> is_nan_bits y) \<Longrightarrow> \<not> (is_inf_bits x \<or> is_zero_bits y) \<Longrightarrow> is_inf_bits y \<Longrightarrow>
     run_entry p a (fmod_impl x y) m t w = (x, w)"
  unfolding fmod_impl_def sl_class sl_eq_zero
  using run_nan [of p a "is_snan_bits x \<or> is_snan_bits y" x y m t w] run_raise [of p a SF64_FE_INVALID qNaN m t w]
  by (auto simp: qNaN_def kCanonicalNaN_def run_entry_def)

lemma run_fmod:
  "run_entry p a (fmod_impl x y) m t w =
     (if is_nan_bits x \<or> is_nan_bits y
      then (sleef_nan p x y, if is_snan_bits x \<or> is_snan_bits y then delivered m t a SF64_FE_INVALID w else w)
      else if is_inf_bits x \<or> is_zero_bits y then (kCanonicalNaN, delivered m t a SF64_FE_INVALID w)
      else (fst (rem_impl x y 0), w))"
proof (cases "is_nan_bits x \<or> is_nan_bits y \<or> is_inf_bits x \<or> is_zero_bits y \<or> is_inf_bits y")
  case True
  have "fst (rem_impl x y 0) = x" if "\<not> (is_nan_bits x \<or> is_nan_bits y)" "\<not> (is_inf_bits x \<or> is_zero_bits y)" "is_inf_bits y"
    using that unfolding rem_impl_def by (simp add: class_iff Let_def)
  then show ?thesis using True run_fmod_special [of x y p a m t w] by auto
next
  case False
  then have "is_finite_bits x" "is_finite_bits y" "\<not> is_zero_bits y" by (auto simp: class_iff)
  then show ?thesis using False run_entry_gives [OF fmod_finite_rem [of x y p 0]] by auto
qed

lemma run_remainder_special:
  "is_nan_bits x \<or> is_nan_bits y \<Longrightarrow> run_entry p a (remainder_impl x y) m t w =
     (sleef_nan p x y, if is_snan_bits x \<or> is_snan_bits y then delivered m t a SF64_FE_INVALID w else w)"
  "\<not> (is_nan_bits x \<or> is_nan_bits y) \<Longrightarrow> is_inf_bits x \<or> is_zero_bits y \<Longrightarrow> run_entry p a (remainder_impl x y) m t w =
     (kCanonicalNaN, delivered m t a SF64_FE_INVALID w)"
  "\<not> (is_nan_bits x \<or> is_nan_bits y) \<Longrightarrow> \<not> (is_inf_bits x \<or> is_zero_bits y) \<Longrightarrow> is_inf_bits y \<Longrightarrow>
     run_entry p a (remainder_impl x y) m t w = (x, w)"
  unfolding remainder_impl_def sl_class sl_eq_zero
  using run_nan [of p a "is_snan_bits x \<or> is_snan_bits y" x y m t w] run_raise [of p a SF64_FE_INVALID qNaN m t w]
  by (auto simp: qNaN_def kCanonicalNaN_def run_entry_def)

text \<open>
  C17: \<open>sf64_fmod\<close> is \<open>sf64_rem\<close> on numbers: the two independent algorithms (scaled subtraction of
  doubles, long division of significands) agree bit for bit.  For finite operands and a nonzero
  divisor the result is the real \<open>x - y * trunc (x / y)\<close> with the sign of \<open>x\<close>, and the world is
  left alone: no flag of the many inner operations escapes.  An infinite dividend or a zero divisor is
  invalid, an infinite divisor returns the dividend; a NaN is handed on in a build that propagates
  them and replaced by the canonical one otherwise, INVALID being raised when one was signalling.
\<close>

theorem fmod_correct:
  "sf64_fmod p x y m t w =
     (if is_nan_bits x \<or> is_nan_bits y
      then (sleef_nan p x y, if is_snan_bits x \<or> is_snan_bits y then delivered m t acc_default SF64_FE_INVALID w else w)
      else if is_inf_bits x \<or> is_zero_bits y then (kCanonicalNaN, delivered m t acc_default SF64_FE_INVALID w)
      else (fst (rem_impl x y 0), w))
   \<and> (if is_finite_bits x \<and> is_finite_bits y \<and> \<not> is_zero_bits y
      then val64 (fst (sf64_fmod p x y m t w)) = fmod_real (val64 x) (val64 y)
        \<and> sgn64 (fst (sf64_fmod p x y m t w)) = sgn64 x
      else True)"
proof -
  have "\<not> is_nan_bits x \<and> \<not> is_nan_bits y \<and> \<not> is_inf_bits x" if "is_finite_bits x" "is_finite_bits y"
    using that by (auto simp: class_iff)
  then show ?thesis using rem_impl_finite [of x y 0] by (auto simp: sf64_fmod_def run_fmod)
qed

text \<open>
  C18: \<open>sf64_remainder\<close> is the IEEE remainder.  For finite operands and a nonzero divisor the result is
  exactly \<open>x - n * y\<close> with \<open>n\<close> the integer nearest to the real quotient, ties to even; a zero result
  has the sign of \<open>x\<close>; no flag is raised.  The rounded comparison of \<open>|r|\<close> with \<open>|y| - |r|\<close> and
  the rounded division that settles a tie never mislead the code.  The entry with a caller's state
  gives the same double.
\<close>

theorem remainder_correct:
  "if is_nan_bits x \<or> is_nan_bits y
   then sf64_remainder p x y m t w = (sleef_nan p x y, if is_snan_bits x \<or> is_snan_bits y then delivered m t acc_default SF64_FE_INVALID w else w)
   else if is_inf_bits x \<or> is_zero_bits y then sf64_remainder p x y m t w = (kCanonicalNaN, delivered m t acc_default SF64_FE_INVALID w)
   else if is_inf_bits y then sf64_remainder p x y m t w = (x, w)
   else \<exists>v. sf64_remainder p x y m t w = (v, w) \<and> sf64_remainder_ex p x y s m t w = (v, w) \<and> is_finite_bits v
     \<and> val64 v = val64 x - real_of_int (rnd_int SF64_RNE False (val64 x / val64 y)) * val64 y
     \<and> (if val64 v = 0 then sgn64 v = sgn64 x else True)"
proof (cases "is_nan_bits x \<or> is_nan_bits y \<or> is_inf_bits x \<or> is_zero_bits y \<or> is_inf_bits y")
  case True
  then show ?thesis using run_remainder_special [of x y p acc_default m t w] by (auto simp: sf64_remainder_def)
next
  case False
  then have fin: "is_finite_bits x" "is_finite_bits y" "\<not> is_zero_bits y" by (auto simp: class_iff)
  obtain v fl where v: "gives p (remainder_impl x y) v fl" "is_finite_bits v"
    "val64 v = val64 x - real_of_int (rnd_int SF64_RNE False (val64 x / val64 y)) * val64 y" "val64 v = 0 \<longrightarrow> sgn64 v = sgn64 x"
    using remainder_impl_finite [OF fin, of p] by (elim exE conjE) (rule that)
  then show ?thesis using False
    by (simp add: sf64_remainder_def sf64_remainder_ex_def run_entry_gives [OF v(1)])
qed

end
