(* ===== verification/Sf_Sleef_Exp.thy ===== *)
theory Sf_Sleef_Exp
  imports Sf_Sleef
begin

text \<open>
  \<open>src/sleef/sleef_exp_log.cpp\<close>: the exponentials and logarithms, and the two cores the other files
  call.  \<open>sf64_from_i32\<close> and \<open>sf64_to_i32\<close> are the public entries.
\<close>

section \<open>Helpers and coefficients\<close>

definition ilogb2k_bits :: "f64 \<Rightarrow> int" where
  "ilogb2k_bits b = uint (drop_bit 52 b AND 0x7FF) - 0x3FF"

definition ldexp2k_f :: "f64 \<Rightarrow> int \<Rightarrow> f64" where "ldexp2k_f d q = sf64_internal_ldexp d q"
definition ldexp3k_f :: "f64 \<Rightarrow> int \<Rightarrow> f64" where "ldexp3k_f d q = sf64_internal_ldexp d q"

definition kExpPoly :: "f64 list" where
  "kExpPoly =
    [0x3E21F0E4C4ECD775, 0x3E5AF68A28CC800A, 0x3E927E52E0FCD573,
     0x3EC71DDF1629E6CE, 0x3EFA01A01780879E, 0x3F2A01A01B3603F5,
     0x3F56C16C16C20BA0, 0x3F8111111110EB39, 0x3FA555555555553E,
     0x3FC555555555555C]"

definition kExp2Poly :: "f64 list" where
  "kExp2Poly =
    [0x3DFE7901CA95E150, 0x3E3E6106D72C1C17, 0x3E7B5266946BF979,
     0x3EB62BFCDABCBB81, 0x3EEFFCBFBC12CC80, 0x3F24309130CB34EC,
     0x3F55D87FE78C5960, 0x3F83B2AB6FBA08F0, 0x3FAC6B08D704A01F,
     0x3FCEBFBDFF82C5A1]"

definition kExp10Poly :: "f64 list" where
  "kExp10Poly =
    [0x3F2F9B875F46726F, 0x3F52F6DBB8E3072A, 0x3F748988CFF14706,
     0x3F9411663B046154, 0x3FB16E4DF78FCA37, 0x3FCA7ED709F2107E,
     0x3FE1429FFD1EB6E2, 0x3FF2BD7609FD573B, 0x4000470591DE2C43,
     0x40053524C73CEA78]"

definition kLogPoly :: "f64 list" where
  "kLogPoly =
    [0x3FC39C4F5407567E, 0x3FC3872E67FE8E84, 0x3FC747353A506035,
     0x3FCC71C0A65ECD8E, 0x3FD249249A68A245, 0x3FD99999998F92EA,
     0x3FE55555555557AE]"

definition kLog2Poly :: "f64 list" where
  "kLog2Poly =
    [0x3FCC501739F17BA9, 0x3FCC2B7A962850E9, 0x3FD0CAAEEB877481,
     0x3FD484AC6A7CB2DD, 0x3FDA617636C2C254, 0x3FE2776C50E7EDE9,
     0x3FEEC709DC3A07B2]"

definition kLog10Poly :: "f64 list" where
  "kLog10Poly =
    [0x3FB10895F3EA9496, 0x3FB0F63BD2A55192, 0x3FB4381A2BF55D48,
     0x3FB8B4D992891F74, 0x3FBFC3FA6F6D7821, 0x3FC63C6277499B88,
     0x3FD287A7636F4570]"

definition kL10U :: f64 where "kL10U = 0x3FD34413509F7000"
definition kL10L :: f64 where "kL10L = 0x3D43FDE623E2566B"
definition kLog10_2 :: f64 where "kLog10_2 = 0x400A934F0979A371"
definition kLN2 :: f64 where "kLN2 = 0x3FE62E42FEFA39EF"
definition kLN2_LO :: f64 where "kLN2_LO = 0x3C7ABC9E3B39803F"

text \<open>The unrolled Horner steps of \<open>poly10_horner\<close> and \<open>poly7_horner\<close>.\<close>

fun horner :: "f64 \<Rightarrow> f64 \<Rightarrow> f64 list \<Rightarrow> f64 sl" where
  "horner x u [] = return u"
| "horner x u (c # cs) = do { u \<leftarrow> mla u x c; horner x u cs }"

definition poly10_horner :: "f64 \<Rightarrow> f64 list \<Rightarrow> f64 sl" where
  "poly10_horner x c = horner x (c ! 0) [c ! 1, c ! 2, c ! 3, c ! 4, c ! 5, c ! 6, c ! 7, c ! 8, c ! 9]"

definition poly7_horner :: "f64 \<Rightarrow> f64 list \<Rightarrow> f64 sl" where
  "poly7_horner x c = horner x (c ! 0) [c ! 1, c ! 2, c ! 3, c ! 4, c ! 5, c ! 6]"

text \<open>The public conversions, the \<open>int\<close> of the code read as an integer.\<close>

definition to_i32 :: "f64 \<Rightarrow> int sl" where
  "to_i32 x = do { q \<leftarrow> call_entry (sf64_to_i32 x); return (sint q) }"

definition from_i32 :: "int \<Rightarrow> f64 sl" where "from_i32 n = call_entry (sf64_from_i32 (word_of_int n))"

definition expk2 :: "DD \<Rightarrow> DD sl" where
  "expk2 d = do {
     sum \<leftarrow> sl_add (dd_hi d) (dd_lo d);
     y \<leftarrow> sl_mul sum kR_LN2;
     let qf = sl_rint y;
     q \<leftarrow> to_i32 qf;
     y \<leftarrow> sl_mul qf (sl_neg kL2U);
     s \<leftarrow> ddadd2_dd_dd_d d y;
     y \<leftarrow> sl_mul qf (sl_neg kL2L);
     s \<leftarrow> ddadd2_dd_dd_d s y;
     u \<leftarrow> horner (dd_hi s) 0x3DE60632A887194C
       [0x3E21F8EAF54829DC, 0x3E5AE652E8103AB6, 0x3E927E4C95A9765C,
        0x3EC71DE3A11D7656, 0x3EFA01A01AF6F0B7, 0x3F2A01A01A02D002,
        0x3F56C16C16C145CC, 0x3F81111111111119, 0x3FA555555555555A];
     t \<leftarrow> ddmul_dd_dd_d s u;
     t \<leftarrow> ddadd2_dd_dd_d t 0x3FC5555555555555;
     t \<leftarrow> ddmul_dd_dd_dd s t;
     t \<leftarrow> ddadd2_dd_dd_d t 0x3FE0000000000000;
     s2 \<leftarrow> ddsqu_dd_dd s;
     t \<leftarrow> ddmul_dd_dd_dd s2 t;
     t \<leftarrow> ddadd2_dd_dd s t;
     t \<leftarrow> ddadd2_dd_d_dd 0x3FF0000000000000 t;
     let t = dd (ldexp2k_f (dd_hi t) q) (ldexp2k_f (dd_lo t) q);
     return (if sl_lt (dd_hi d) 0xC08F400000000000 then dd 0 0 else t) }"

section \<open>The cores\<close>

definition sf64_internal_exp_core :: "f64 \<Rightarrow> f64 sl" where
  "sf64_internal_exp_core d =
     (if sl_isnan d then return qNaN
      else if sl_gt d 0x40862E42FEFA39EF then return positive_infinity
      else if sl_lt d 0xC08F400000000000 then return 0
      else do {
        y \<leftarrow> sl_mul d kR_LN2;
        let qf = sl_rint y;
        q \<leftarrow> to_i32 qf;
        s \<leftarrow> sl_fma qf (sl_neg kL2U) d;
        s \<leftarrow> sl_fma qf (sl_neg kL2L) s;
        u \<leftarrow> poly10_horner s kExpPoly;
        u \<leftarrow> mla u s 0x3FE0000000000000;
        ss \<leftarrow> sl_mul s s;
        s1 \<leftarrow> sl_add s 0x3FF0000000000000;
        u \<leftarrow> sl_fma ss u s1;
        let r = sf64_internal_ldexp u q;
        return (if sl_gt d 0x4086280000000000 \<and> (sl_isinf r \<or> sl_gt r 0x7FEFFFFFFFFFFFFF)
                then positive_infinity else r) })"

text \<open>The reduction every logarithm starts with: the argument lifted out of the subnormal range.\<close>

definition bump :: "f64 \<Rightarrow> (f64 \<times> bool) sl" where
  "bump d =
     (if sl_lt d 0x0010000000000000 then do {
        d \<leftarrow> sl_mul d 0x43F0000000000000;
        return (d, True) }
      else return (d, False))"

definition log_reduce :: "f64 \<Rightarrow> (int \<times> f64) sl" where
  "log_reduce d = do {
     (d, sub) \<leftarrow> bump d;
     y \<leftarrow> sl_mul d 0x3FF5555555555555;
     let e = ilogb2k_bits y;
     let m = ldexp3k_f d (- e);
     return (if sub then e - 64 else e, m) }"

definition log_quotient :: "f64 \<Rightarrow> DD sl" where
  "log_quotient m = do {
     xnum \<leftarrow> ddadd2_dd_d_d 0xBFF0000000000000 m;
     xden \<leftarrow> ddadd2_dd_d_d 0x3FF0000000000000 m;
     dddiv_dd_dd_dd xnum xden }"

definition sf64_internal_log_core :: "f64 \<Rightarrow> f64 sl" where
  "sf64_internal_log_core d =
     (if sl_isnan d \<or> sl_lt d 0 then return qNaN
      else if sl_eq d 0 then return (sl_neg positive_infinity)
      else if sl_isinf d then return positive_infinity
      else do {
        (e, m) \<leftarrow> log_reduce d;
        x \<leftarrow> log_quotient m;
        x2 \<leftarrow> sl_mul (dd_hi x) (dd_hi x);
        t \<leftarrow> poly7_horner x2 kLogPoly;
        ef \<leftarrow> from_i32 e;
        s \<leftarrow> ddmul_dd_dd_d (dd kLN2 kLN2_LO) ef;
        xx \<leftarrow> ddscale_dd_dd_d x 0x4000000000000000;
        s \<leftarrow> ddadd2_dd_dd s xx;
        y \<leftarrow> sl_mul x2 (dd_hi x);
        y \<leftarrow> sl_mul y t;
        s \<leftarrow> ddadd2_dd_dd_d s y;
        dd_to_d s })"

section \<open>The entries\<close>

text \<open>The accumulator of an entry is flushed on the paths that reach the end of the body.\<close>

definition flushed :: "'r sl \<Rightarrow> 'r sl" where
  "flushed f = do { r \<leftarrow> f; fe_flush; return r }"

abbreviation entry :: "bool \<Rightarrow> 'r sl \<Rightarrow> 'r entry" where "entry snan f \<equiv> run_entry snan acc_default f"

definition sf64_exp :: "bool \<Rightarrow> f64 \<Rightarrow> f64 entry" where
  "sf64_exp snan x = entry snan (flushed (sf64_internal_exp_core x))"

definition sf64_exp2 :: "bool \<Rightarrow> f64 \<Rightarrow> f64 entry" where
  "sf64_exp2 snan x = entry snan
     (if sl_isnan x then return qNaN
      else if sl_ge x 0x4090000000000000 then return positive_infinity
      else if sl_le x 0xC09F400000000000 then return 0
      else flushed (do {
        let qf = sl_rint x;
        q \<leftarrow> to_i32 qf;
        s \<leftarrow> sl_sub x qf;
        u \<leftarrow> poly10_horner s kExp2Poly;
        u \<leftarrow> mla u s 0x3FE62E42FEFA39EF;
        t \<leftarrow> ddmul_dd_d_d u s;
        t \<leftarrow> ddadd2_dd_d_dd 0x3FF0000000000000 t;
        r \<leftarrow> ddnormalize_dd_dd t;
        return (sf64_internal_ldexp (dd_hi r) q) }))"

definition sf64_exp10 :: "bool \<Rightarrow> f64 \<Rightarrow> f64 entry" where
  "sf64_exp10 snan x = entry snan
     (if sl_isnan x then return qNaN
      else if sl_gt x 0x40734413509F79FE then return positive_infinity
      else if sl_lt x 0xC075E00000000000 then return 0
      else flushed (do {
        y \<leftarrow> sl_mul x kLog10_2;
        let qf = sl_rint y;
        q \<leftarrow> to_i32 qf;
        s \<leftarrow> sl_fma qf (sl_neg kL10U) x;
        s \<leftarrow> sl_fma qf (sl_neg kL10L) s;
        u \<leftarrow> poly10_horner s kExp10Poly;
        u \<leftarrow> mla u s 0x40026BB1BBB55516;
        t \<leftarrow> ddmul_dd_d_d u s;
        t \<leftarrow> ddadd2_dd_d_dd 0x3FF0000000000000 t;
        r \<leftarrow> ddnormalize_dd_dd t;
        return (sf64_internal_ldexp (dd_hi r) q) }))"

definition sf64_expm1 :: "bool \<Rightarrow> f64 \<Rightarrow> f64 entry" where
  "sf64_expm1 snan x = entry snan
     (if sl_isnan x then return qNaN
      else if sl_gt x 0x40862E42FEFA39EF then return positive_infinity
      else if sl_lt x 0xC0425E4F7B2737FA then return 0xBFF0000000000000
      else flushed (do {
        d \<leftarrow> expk2 (dd x 0);
        d \<leftarrow> ddadd2_dd_dd_d d 0xBFF0000000000000;
        r \<leftarrow> dd_to_d d;
        return (if x = 0x8000000000000000 then 0x8000000000000000 else r) }))"

definition sf64_log :: "bool \<Rightarrow> f64 \<Rightarrow> f64 entry" where
  "sf64_log snan x = entry snan (flushed (sf64_internal_log_core x))"

definition sf64_log2 :: "bool \<Rightarrow> f64 \<Rightarrow> f64 entry" where
  "sf64_log2 snan x = entry snan
     (if sl_isnan x \<or> sl_lt x 0 then return qNaN
      else if sl_eq x 0 then return (sl_neg positive_infinity)
      else if sl_isinf x then return positive_infinity
      else flushed (do {
        (e, m) \<leftarrow> log_reduce x;
        xdd \<leftarrow> log_quotient m;
        x2 \<leftarrow> sl_mul (dd_hi xdd) (dd_hi xdd);
        t \<leftarrow> poly7_horner x2 kLog2Poly;
        ef \<leftarrow> from_i32 e;
        y \<leftarrow> ddmul_dd_dd_dd xdd (dd 0x40071547652B82FE 0x3C5BEDDA32EBBCB1);
        s \<leftarrow> ddadd2_dd_d_dd ef y;
        y \<leftarrow> sl_mul x2 (dd_hi xdd);
        y \<leftarrow> sl_mul y t;
        s \<leftarrow> ddadd2_dd_dd_d s y;
        dd_to_d s }))"

definition sf64_log10 :: "bool \<Rightarrow> f64 \<Rightarrow> f64 entry" where
  "sf64_log10 snan x = entry snan
     (if sl_isnan x \<or> sl_lt x 0 then return qNaN
      else if sl_eq x 0 then return (sl_neg positive_infinity)
      else if sl_isinf x then return positive_infinity
      else flushed (do {
        (e, m) \<leftarrow> log_reduce x;
        xdd \<leftarrow> log_quotient m;
        x2 \<leftarrow> sl_mul (dd_hi xdd) (dd_hi xdd);
        t \<leftarrow> poly7_horner x2 kLog10Poly;
        ef \<leftarrow> from_i32 e;
        s \<leftarrow> ddmul_dd_dd_d (dd 0x3FD34413509F79FF 0xBC49DC1DA994FD21) ef;
        y \<leftarrow> ddmul_dd_dd_dd xdd (dd 0x3FEBCB7B1526E50E 0x3C6A5B1DC915F38F);
        s \<leftarrow> ddadd2_dd_dd s y;
        y \<leftarrow> sl_mul x2 (dd_hi xdd);
        y \<leftarrow> sl_mul y t;
        s \<leftarrow> ddadd2_dd_dd_d s y;
        dd_to_d s }))"

definition sf64_log1p :: "bool \<Rightarrow> f64 \<Rightarrow> f64 entry" where
  "sf64_log1p snan x = entry snan
     (if sl_isnan x \<or> sl_lt x 0xBFF0000000000000 then return qNaN
      else if sl_eq x 0xBFF0000000000000 then return (sl_neg positive_infinity)
      else if sl_isinf x \<and> sl_gt x 0 then return positive_infinity
      else flushed (do {
        dp1 \<leftarrow> sl_add x 0x3FF0000000000000;
        (dp1s, sub) \<leftarrow> bump dp1;
        y \<leftarrow> sl_mul dp1s 0x3FF5555555555555;
        let e = ilogb2k_bits y;
        let t = ldexp3k_f 0x3FF0000000000000 (- e);
        t1 \<leftarrow> sl_sub t 0x3FF0000000000000;
        m \<leftarrow> sl_fma x t t1;
        let e = (if sub then e - 64 else e);
        den \<leftarrow> ddadd2_dd_d_d 0x4000000000000000 m;
        xdd \<leftarrow> dddiv_dd_dd_dd (dd m 0) den;
        x2 \<leftarrow> sl_mul (dd_hi xdd) (dd_hi xdd);
        tp \<leftarrow> poly7_horner x2 kLogPoly;
        ef \<leftarrow> from_i32 e;
        s \<leftarrow> ddmul_dd_dd_d (dd kLN2 kLN2_LO) ef;
        xx \<leftarrow> ddscale_dd_dd_d xdd 0x4000000000000000;
        s \<leftarrow> ddadd2_dd_dd s xx;
        y \<leftarrow> sl_mul x2 (dd_hi xdd);
        y \<leftarrow> sl_mul y tp;
        s \<leftarrow> ddadd2_dd_dd_d s y;
        r \<leftarrow> dd_to_d s;
        return (if x = 0x8000000000000000 then 0x8000000000000000 else r) }))"

end
