(* ===== verification/Sf_Sleef_Pow.thy ===== *)
theory Sf_Sleef_Pow
  imports Sf_Sleef_Exp
begin

text \<open>
  \<open>src/sleef/sleef_inv_hyp_pow.cpp\<close> after \<open>remainder\<close>: the double-double kernels of exponential and
  logarithm, the inverse trigonometric functions, the power family, the cube root, the hyperbolic
  functions and their inverses.
\<close>

section \<open>Constants and the arc tangent kernel\<close>

definition kPI_HI :: f64 where "kPI_HI = 0x400921FB54442D18"
definition kPI_LO :: f64 where "kPI_LO = 0x3CA1A62633145C07"
definition kPI_2_HI :: f64 where "kPI_2_HI = 0x3FF921FB54442D18"
definition kPI_2_LO :: f64 where "kPI_2_LO = 0x3C91A62633145C07"

definition kAtanMinimax :: "f64 list" where
  "kAtanMinimax =
    [0xBEF3CBF44A88555F, 0x3F2B81666EB938AF, 0xBF521F657F3915DA,
     0x3F6E5005F4C78C20, 0xBF82399E74A75E56, 0x3F90FF6A2A0D2286,
     0xBF9A1006DE22CDAC, 0x3FA14C4D24651F2E, 0xBFA4DEE09915F638,
     0x3FA7E4B31D8A55AE, 0xBFAACFE938E04FCA, 0x3FAE16A933B73622,
     0xBFB11074E45F93E0, 0x3FB3B1283C0CA0B1, 0xBFB745CFD878FEE8,
     0x3FBC71C704FB4F9F, 0xBFC2492491E100BB, 0x3FC999999997B9DD,
     0xBFD55555555553C5]"

definition kAsinMinimax :: "f64 list" where
  "kAsinMinimax =
    [0x3FA02FF4C7428A47, 0xBF9032E75CCD4AE8, 0x3F93C0E0817E9742,
     0x3F7B0EF96B727E7E, 0x3F88E3FD48D0FB6F, 0x3F8C70DDF81249FC,
     0x3F91C6B5042EC6B2, 0x3F96E89F8578B64E, 0x3F9F1C72C5FD95BA,
     0x3FA6DB6DB407C2B3, 0x3FB3333333375CD0, 0x3FC55555555552F4]"

definition atan2k_core_poly :: "f64 \<Rightarrow> f64 sl" where
  "atan2k_core_poly s = poly_array s kAtanMinimax"

definition atan2k_u1_dd :: "DD \<Rightarrow> DD \<Rightarrow> DD sl" where
  "atan2k_u1_dd y x = do {
     let (x, q) = (if sl_lt (dd_hi x) 0 then (dd (sl_neg (dd_hi x)) (sl_neg (dd_lo x)), 0xC000000000000000) else (x, 0));
     (y, x, q) \<leftarrow> (if sl_lt (dd_hi x) (dd_hi y) then do {
          q \<leftarrow> sl_add q 0x3FF0000000000000;
          return (dd (sl_neg (dd_hi x)) (sl_neg (dd_lo x)), y, q) }
        else return (y, x, q));
     s \<leftarrow> dddiv_dd_dd_dd y x;
     t \<leftarrow> ddsqu_dd_dd s;
     t \<leftarrow> ddnormalize_dd_dd t;
     u \<leftarrow> atan2k_core_poly (dd_hi t);
     st \<leftarrow> ddmul_dd_dd_dd s t;
     stu \<leftarrow> ddmul_dd_dd_d st u;
     r \<leftarrow> ddadd2_dd_dd s stu;
     if sl_ne q 0 then do {
       qpi2 \<leftarrow> ddmul_dd_d_d q kPI_2_HI;
       l \<leftarrow> sl_fma q kPI_2_LO (dd_lo qpi2);
       ddadd2_dd_dd (dd (dd_hi qpi2) l) r }
     else return r }"

definition dd_of :: "f64 \<Rightarrow> DD" where "dd_of x = dd x 0"

section \<open>Double-double logarithm and exponential\<close>

definition from_i64 :: "int \<Rightarrow> f64 sl" where "from_i64 n = call_entry (sf64_from_i64 (word_of_int n))"

text \<open>The loop of \<open>sf64_internal_logk_dd\<close> over the coefficients after the first.\<close>

fun logk_loop :: "DD \<Rightarrow> DD \<Rightarrow> f64 list \<Rightarrow> DD sl" where
  "logk_loop x2 t [] = return t"
| "logk_loop x2 t (c # cs) = do {
     t \<leftarrow> ddmul_dd_dd_dd t x2;
     t \<leftarrow> ddadd2_dd_dd_d t c;
     logk_loop x2 t cs }"

definition sf64_internal_logk_dd :: "f64 \<Rightarrow> DD sl" where
  "sf64_internal_logk_dd d = do {
     let m = fst (sf64_internal_frexp d True);
     let e = the (snd (sf64_internal_frexp d True));
     (m, e) \<leftarrow> (if sl_lt m 0x3FE6A09E667F3BCD then do { m \<leftarrow> sl_mul m 0x4000000000000000; return (m, e - 1) }
                 else return (m, e));
     let mdd = dd_of m;
     num \<leftarrow> ddadd2_dd_dd_d mdd 0xBFF0000000000000;
     den \<leftarrow> ddadd2_dd_dd_d mdd 0x3FF0000000000000;
     x \<leftarrow> dddiv_dd_dd_dd num den;
     x2 \<leftarrow> ddsqu_dd_dd x;
     t \<leftarrow> logk_loop x2 (dd 0x3FC3A5791D95DB39 0)
       [0x3FC385C5CBC3F50D, 0x3FC7474BA672B05F, 0x3FCC71BFEED5D419,
        0x3FD249249BFBE987, 0x3FD99999998C136E, 0x3FE555555555593F];
     ef \<leftarrow> from_i64 e;
     s \<leftarrow> ddmul_dd_d_d kL2U ef;
     ef \<leftarrow> from_i64 e;
     l \<leftarrow> sl_fma kL2L ef (dd_lo s);
     xx \<leftarrow> ddscale_dd_dd_d x 0x4000000000000000;
     s \<leftarrow> ddadd2_dd_dd (dd (dd_hi s) l) xx;
     xx2 \<leftarrow> ddmul_dd_dd_dd x x2;
     y \<leftarrow> ddmul_dd_dd_dd xx2 t;
     ddadd2_dd_dd s y }"

text \<open>The reconstruction \<open>1 + (s + s\<^sup>2 (1/2 + s (1/6 + s u)))\<close> both exponentials end with.\<close>

definition expk_reconstruct :: "DD \<Rightarrow> f64 \<Rightarrow> DD sl" where
  "expk_reconstruct s u = do {
     t \<leftarrow> ddmul_dd_dd_d s u;
     t \<leftarrow> ddadd2_dd_dd_d t 0x3FC5555555555555;
     t \<leftarrow> ddmul_dd_dd_dd s t;
     t \<leftarrow> ddadd2_dd_dd_d t 0x3FE0000000000000;
     s2 \<leftarrow> ddsqu_dd_dd s;
     t \<leftarrow> ddmul_dd_dd_dd s2 t;
     t \<leftarrow> ddadd2_dd_dd s t;
     ddadd2_dd_d_dd 0x3FF0000000000000 t }"

definition sf64_internal_expk_dd :: "DD \<Rightarrow> f64 sl" where
  "sf64_internal_expk_dd d = do {
     d_collapsed \<leftarrow> sl_add (dd_hi d) (dd_lo d);
     if sl_gt d_collapsed 0x40862E42FEFA39EF then return positive_infinity
     else if sl_lt d_collapsed 0xC08F400000000000 then return 0
     else do {
       y \<leftarrow> sl_mul d_collapsed kR_LN2;
       let qf = sf64_rint y;
       q \<leftarrow> to_i32 qf;
       y \<leftarrow> sl_mul qf (sl_neg kL2U);
       s \<leftarrow> ddadd2_dd_dd_d d y;
       y \<leftarrow> sl_mul qf (sl_neg kL2L);
       s \<leftarrow> ddadd2_dd_dd_d s y;
       s \<leftarrow> ddnormalize_dd_dd s;
       u \<leftarrow> poly_array (dd_hi s)
         [0x3E5AF559D51456B9, 0x3E928A8F696DB5AD, 0x3EC71DDFD27D265E,
          0x3EFA0199EC6C491B, 0x3F2A01A01AE0C33D, 0x3F56C16C1828EC7B,
          0x3F8111111110FB68, 0x3FA5555555550E90];
       t \<leftarrow> expk_reconstruct s u;
       yy \<leftarrow> sl_add (dd_hi t) (dd_lo t);
       return (sf64_internal_ldexp yy q) } }"

definition sf64_internal_expk2_dd :: "DD \<Rightarrow> DD sl" where
  "sf64_internal_expk2_dd d = do {
     d_collapsed \<leftarrow> sl_add (dd_hi d) (dd_lo d);
     y \<leftarrow> sl_mul d_collapsed kR_LN2;
     let qf = sf64_rint y;
     q \<leftarrow> to_i32 qf;
     y \<leftarrow> sl_mul qf (sl_neg kL2U);
     s \<leftarrow> ddadd2_dd_dd_d d y;
     y \<leftarrow> sl_mul qf (sl_neg kL2L);
     s \<leftarrow> ddadd2_dd_dd_d s y;
     u \<leftarrow> sl_fma 0x3DE60632A887194C (dd_hi s) 0x3E21F8EAF54829DC;
     u \<leftarrow> sl_fma u (dd_hi s) 0x3E5AE652E8103AB6;
     u \<leftarrow> sl_fma u (dd_hi s) 0x3E927E4C95A9765C;
     u \<leftarrow> sl_fma u (dd_hi s) 0x3EC71DE3A11D7656;
     u \<leftarrow> sl_fma u (dd_hi s) 0x3EFA01A01AF6F0B7;
     u \<leftarrow> sl_fma u (dd_hi s) 0x3F2A01A01A02D002;
     u \<leftarrow> sl_fma u (dd_hi s) 0x3F56C16C16C145CC;
     u \<leftarrow> sl_fma u (dd_hi s) 0x3F81111111111119;
     u \<leftarrow> sl_fma u (dd_hi s) 0x3FA555555555555A;
     t \<leftarrow> expk_reconstruct s u;
     let t = dd (sf64_internal_ldexp (dd_hi t) q) (sf64_internal_ldexp (dd_lo t) q);
     return (if sl_lt (dd_hi d) 0xC08F400000000000 then dd 0 0 else t) }"

fun logk2_loop :: "f64 \<Rightarrow> f64 \<Rightarrow> f64 list \<Rightarrow> f64 sl" where
  "logk2_loop x2h t [] = return t"
| "logk2_loop x2h t (c # cs) = do { t \<leftarrow> sl_fma t x2h c; logk2_loop x2h t cs }"

definition sf64_internal_logk2_dd :: "DD \<Rightarrow> DD sl" where
  "sf64_internal_logk2_dd d = do {
     y \<leftarrow> sl_mul (dd_hi d) 0x3FF5555555555555;
     let e = the (snd (sf64_internal_frexp y True)) - 1;
     let m = dd (sf64_internal_ldexp (dd_hi d) (- e)) (sf64_internal_ldexp (dd_lo d) (- e));
     num \<leftarrow> ddadd2_dd_dd_d m 0xBFF0000000000000;
     den \<leftarrow> ddadd2_dd_dd_d m 0x3FF0000000000000;
     x \<leftarrow> dddiv_dd_dd_dd num den;
     x2 \<leftarrow> ddsqu_dd_dd x;
     t \<leftarrow> logk2_loop (dd_hi x2) 0x3FC1BDC9AD06D760
       [0x3FC0DB8A525B4A6B, 0x3FC3B3759FB81971, 0x3FC745C38C19C82A,
        0x3FCC71C750354F90, 0x3FD2492492114D0C, 0x3FD999999999D9EB];
     t \<leftarrow> sl_fma t (dd_hi x2) 0x3FE5555555555545;
     ef \<leftarrow> from_i32 e;
     s \<leftarrow> ddmul_dd_dd_d (dd 0x3FE62E42FEFA39EF 0x3C7ABC9E3B39803F) ef;
     xx \<leftarrow> ddscale_dd_dd_d x 0x4000000000000000;
     s \<leftarrow> ddadd_dd_dd_dd s xx;
     y \<leftarrow> ddmul_dd_dd_dd x2 x;
     y \<leftarrow> ddmul_dd_dd_d y t;
     ddadd_dd_dd_dd s y }"

section \<open>Inverse trigonometric functions\<close>

text \<open>What \<open>asin\<close> and \<open>acos\<close> share: the half-angle reduction and the kernel.\<close>

definition asin_kernel :: "bool \<Rightarrow> f64 \<Rightarrow> DD sl" where
  "asin_kernel big a = do {
     (x2, x) \<leftarrow> (if big then do {
          y \<leftarrow> sl_sub 0x3FF0000000000000 a;
          x2 \<leftarrow> sl_mul y 0x3FE0000000000000;
          x \<leftarrow> sl_sqrt x2;
          return (x2, x) }
        else do { x2 \<leftarrow> sl_mul a a; return (x2, a) });
     p \<leftarrow> poly_array x2 kAsinMinimax;
     inner \<leftarrow> sl_mul x2 p;
     xip \<leftarrow> sl_mul x inner;
     ddadd2_dd_d_d x xip }"

definition sf64_asin :: "bool \<Rightarrow> f64 \<Rightarrow> f64 entry" where
  "sf64_asin snan d = entry snan
     (if sl_isnan d then return qNaN
      else
        let a = sf64_internal_fabs d
        in if sl_gt a 0x3FF0000000000000 then return qNaN
           else
             let big = sl_gt a 0x3FE0000000000000
             in do {
               u_dd \<leftarrow> asin_kernel big a;
               if \<not> big then do {
                 r \<leftarrow> sl_add (dd_hi u_dd) (dd_lo u_dd);
                 fe_flush;
                 return (if sl_signbit d then sl_neg r else r) }
               else do {
                 two_u \<leftarrow> ddscale_dd_dd_d u_dd 0x4000000000000000;
                 r \<leftarrow> ddadd2_dd_dd (dd kPI_2_HI kPI_2_LO) (ddneg_dd_dd two_u);
                 rr \<leftarrow> sl_add (dd_hi r) (dd_lo r);
                 fe_flush;
                 return (if sl_signbit d then sl_neg rr else rr) } })"

definition sf64_acos :: "bool \<Rightarrow> f64 \<Rightarrow> f64 entry" where
  "sf64_acos snan d = entry snan
     (if sl_isnan d then return qNaN
      else
        let a = sf64_internal_fabs d
        in if sl_gt a 0x3FF0000000000000 then return qNaN
           else
             let big = sl_gt a 0x3FE0000000000000
             in do {
               u_dd \<leftarrow> asin_kernel big a;
               if \<not> big then flushed (do {
                 r \<leftarrow> (if sl_signbit d then ddadd2_dd_dd (dd kPI_2_HI kPI_2_LO) u_dd
                        else ddadd2_dd_dd (dd kPI_2_HI kPI_2_LO) (ddneg_dd_dd u_dd));
                 sl_add (dd_hi r) (dd_lo r) })
               else flushed (do {
                 two_u \<leftarrow> ddscale_dd_dd_d u_dd 0x4000000000000000;
                 if \<not> sl_signbit d then sl_add (dd_hi two_u) (dd_lo two_u)
                 else do {
                   r \<leftarrow> ddadd2_dd_dd (dd kPI_HI kPI_LO) (ddneg_dd_dd two_u);
                   sl_add (dd_hi r) (dd_lo r) } }) })"

definition sf64_atan :: "bool \<Rightarrow> f64 \<Rightarrow> f64 entry" where
  "sf64_atan snan d = entry snan
     (if sl_isnan d then return qNaN
      else if sl_isinf d then return (if sl_signbit d then sl_neg kPI_2 else kPI_2)
      else if sl_eq d 0 then return d
      else do {
        r \<leftarrow> atan2k_u1_dd (dd_of (sf64_internal_fabs d)) (dd_of 0x3FF0000000000000);
        rr \<leftarrow> sl_add (dd_hi r) (dd_lo r);
        fe_flush;
        return (if sl_signbit d then sl_neg rr else rr) })"

definition sf64_atan2 :: "bool \<Rightarrow> f64 \<Rightarrow> f64 \<Rightarrow> f64 entry" where
  "sf64_atan2 snan y x = entry snan
     (if sl_isnan x \<or> sl_isnan y then return qNaN
      else if sl_eq x 0 \<and> sl_eq y 0 then
        return (if sl_signbit x then (if sl_signbit y then sl_neg kPI else kPI)
                else (if sl_signbit y then sl_neg 0 else 0))
      else if sl_eq y 0 then
        return (if sl_signbit x then (if sl_signbit y then sl_neg kPI else kPI)
                else (if sl_signbit y then sl_neg 0 else 0))
      else if sl_eq x 0 then return (if sl_signbit y then sl_neg kPI_2 else kPI_2)
      else if sl_isinf x \<and> sl_isinf y then do {
        v \<leftarrow> (if sl_signbit x then sl_mul kPI 0x3FE8000000000000 else sl_mul kPI 0x3FD0000000000000);
        return (if sl_signbit y then sl_neg v else v) }
      else if sl_isinf x then
        return (if sl_signbit x then (if sl_signbit y then sl_neg kPI else kPI)
                else (if sl_signbit y then sl_neg 0 else 0))
      else if sl_isinf y then return (if sl_signbit y then sl_neg kPI_2 else kPI_2)
      else do {
        r \<leftarrow> atan2k_u1_dd (dd_of (sf64_internal_fabs y)) (dd_of (sf64_internal_fabs x));
        rr \<leftarrow> sl_add (dd_hi r) (dd_lo r);
        rr \<leftarrow> (if sl_signbit x then sl_sub kPI rr else return rr);
        fe_flush;
        return (if sl_signbit y then sl_neg rr else rr) })"

section \<open>Powers and roots\<close>

definition sf64_pow :: "bool \<Rightarrow> f64 \<Rightarrow> f64 \<Rightarrow> f64 entry" where
  "sf64_pow snan x y = entry snan
     (if sl_eq y 0 then return 0x3FF0000000000000
      else if sl_eq x 0x3FF0000000000000 then return 0x3FF0000000000000
      else if sl_isnan x \<or> sl_isnan y then return qNaN
      else do {
        y_is_int \<leftarrow> is_int y;
        y_is_odd \<leftarrow> (if y_is_int then is_odd_int y else return False);
        if sl_eq x 0 then
          return (if sl_lt y 0 then
                    (if sl_signbit x \<and> y_is_odd then sl_neg positive_infinity else positive_infinity)
                  else (if sl_signbit x \<and> y_is_odd then sl_neg 0 else 0))
        else if sl_lt x 0 \<and> \<not> y_is_int then return qNaN
        else if sl_isinf x then
          return (if sl_gt x 0 then (if sl_gt y 0 then positive_infinity else 0)
                  else
                    let r = (if sl_gt y 0 then positive_infinity else 0)
                    in if y_is_odd then sl_neg r else r)
        else if sl_isinf y then
          return (if sl_eq (sf64_internal_fabs x) 0x3FF0000000000000 then 0x3FF0000000000000
                  else if sl_lt (sf64_internal_fabs x) 0x3FF0000000000000 = sl_lt y 0 then positive_infinity else 0)
        else do {
          l \<leftarrow> sf64_internal_logk_dd (sf64_internal_fabs x);
          yl \<leftarrow> ddmul_dd_dd_d l y;
          r \<leftarrow> sf64_internal_expk_dd yl;
          let r = (if sl_lt x 0 \<and> y_is_odd then sl_neg r else r);
          fe_flush;
          return r } })"

definition sf64_powr :: "bool \<Rightarrow> f64 \<Rightarrow> f64 \<Rightarrow> f64 entry" where
  "sf64_powr snan x y m t w =
     (if sl_isnan x \<or> sl_isnan y then (qNaN, w)
      else if sl_lt x 0 then (qNaN, fe_raise_direct m t SF64_FE_INVALID w)
      else
        let x_zero = sl_eq x 0; x_one = sl_eq x 0x3FF0000000000000; x_inf = sl_isinf x;
            y_zero = sl_eq y 0; y_inf = sl_isinf y
        in if (x_zero \<or> x_inf) \<and> y_zero then (qNaN, fe_raise_direct m t SF64_FE_INVALID w)
           else if x_one \<and> y_inf then (qNaN, fe_raise_direct m t SF64_FE_INVALID w)
           else if x_zero \<and> sl_lt y 0 then (0x7FF0000000000000, fe_raise_direct m t SF64_FE_DIVBYZERO w)
           else if x_zero then (0, w)
           else sf64_pow snan x y m t w)"

definition sf64_pown :: "bool \<Rightarrow> f64 \<Rightarrow> int \<Rightarrow> f64 entry" where
  "sf64_pown snan x n m t w = (let (y, w) = sf64_from_i32 (word_of_int n) m t w in sf64_pow snan x y m t w)"

definition sf64_cbrt :: "bool \<Rightarrow> f64 \<Rightarrow> f64 entry" where
  "sf64_cbrt snan x = entry snan
     (if sl_isnan x then return qNaN
      else if sl_eq x 0 \<or> sl_isinf x then return x
      else do {
        let a = sf64_internal_fabs x;
        let mant = fst (sf64_internal_frexp a True);
        let e = the (snd (sf64_internal_frexp a True));
        let rem = e - 3 * (if 0 \<le> e then e div 3 else - (- e div 3));
        let rem = (if rem < 0 then rem + 3 else rem);
        let q = (e - rem) div 3;
        let z = sf64_internal_ldexp mant rem;
        y \<leftarrow> sf64_internal_log_core z;
        y \<leftarrow> sl_div y 0x4008000000000000;
        r \<leftarrow> sf64_internal_exp_core y;
        r2 \<leftarrow> sl_mul r r;
        q2 \<leftarrow> sl_div z r2;
        diff \<leftarrow> sl_sub r q2;
        d3 \<leftarrow> sl_div diff 0x4008000000000000;
        r \<leftarrow> sl_sub r d3;
        let rdd = dd_of r;
        rsq \<leftarrow> ddsqu_dd_dd rdd;
        r3 \<leftarrow> ddmul_dd_dd_d rsq r;
        adr3 \<leftarrow> dddiv_dd_dd_dd (dd_of z) r3;
        tp \<leftarrow> ddadd2_dd_dd_d adr3 0x4000000000000000;
        rtp \<leftarrow> ddmul_dd_dd_dd rdd tp;
        res \<leftarrow> ddmul_dd_dd_dd rtp (dd 0x3FD5555555555555 0x3C75555555555555);
        r \<leftarrow> sl_add (dd_hi res) (dd_lo res);
        let out = sf64_internal_ldexp r q;
        fe_flush;
        return (if sl_signbit x then sl_neg out else out) })"

section \<open>Hyperbolic functions\<close>

definition sf64_sinh :: "bool \<Rightarrow> f64 \<Rightarrow> f64 entry" where
  "sf64_sinh snan x = entry snan
     (if sl_isnan x then return qNaN
      else if sl_isinf x then return x
      else
        let a = sf64_internal_fabs x
        in if sl_lt a 0x3FF0000000000000 then flushed (do {
             x2 \<leftarrow> sl_mul x x;
             p \<leftarrow> poly_array x2
               [0x3CE952C77030AD4A, 0x3D6AE7F3E733B81F, 0x3DE6124613A86D09, 0x3E5AE64567F544E4,
                0x3EC71DE3A556C734, 0x3F2A01A01A01A01A, 0x3F81111111111111, 0x3FC5555555555555];
             y \<leftarrow> sl_mul x x2;
             sl_fma y p x })
           else if sl_lt a 0x4032000000000000 then flushed (do {
             e \<leftarrow> sf64_internal_exp_core x;
             en \<leftarrow> sf64_internal_exp_core (sl_neg x);
             y \<leftarrow> sl_sub e en;
             sl_mul y 0x3FE0000000000000 })
           else if sl_gt a 0x408633CE8FB9F87D then
             return (if sl_signbit x then sl_neg positive_infinity else positive_infinity)
           else if sl_gt a 0x40862E3D70A3D70A then do {
             r \<leftarrow> ddadd2_dd_d_d a (sl_neg kL2U);
             r \<leftarrow> ddadd2_dd_dd_d r (sl_neg kL2L);
             big \<leftarrow> sf64_internal_expk_dd r;
             fe_flush;
             return (if sl_signbit x then sl_neg big else big) }
           else do {
             e \<leftarrow> sf64_internal_exp_core a;
             half \<leftarrow> sl_mul e 0x3FE0000000000000;
             fe_flush;
             return (if sl_signbit x then sl_neg half else half) })"

definition sf64_cosh :: "bool \<Rightarrow> f64 \<Rightarrow> f64 entry" where
  "sf64_cosh snan x = entry snan
     (if sl_isnan x then return qNaN
      else if sl_isinf x then return positive_infinity
      else
        let a = sf64_internal_fabs x
        in if sl_lt a 0x3FD0000000000000 then flushed (do {
             x2 \<leftarrow> sl_mul x x;
             p \<leftarrow> poly_array x2
               [0x3DA93974A8C07C9D, 0x3E21EED8EFF8D898, 0x3E927E4FB7789F5C, 0x3EFA01A01A01A01A,
                0x3F56C16C16C16C17, 0x3FA5555555555555, 0x3FE0000000000000];
             sl_fma x2 p 0x3FF0000000000000 })
           else if sl_gt a 0x40862E3D70A3D70A then return positive_infinity
           else flushed (do {
             e1 \<leftarrow> sf64_internal_exp_core x;
             e2 \<leftarrow> sf64_internal_exp_core (sl_neg x);
             y \<leftarrow> sl_add e1 e2;
             sl_mul y 0x3FE0000000000000 }))"

definition sf64_tanh :: "bool \<Rightarrow> f64 \<Rightarrow> f64 entry" where
  "sf64_tanh snan x = entry snan
     (if sl_isnan x then return qNaN
      else if sl_isinf x then return (if sl_signbit x then 0xBFF0000000000000 else 0x3FF0000000000000)
      else
        let a = sf64_internal_fabs x
        in if sl_lt a 0x3FE0000000000000 then flushed (do {
             x2 \<leftarrow> sl_mul x x;
             ps \<leftarrow> poly_array x2
               [0x3DE6124613A86D09, 0x3E5AE64567F544E4, 0x3EC71DE3A556C734,
                0x3F2A01A01A01A01A, 0x3F81111111111111, 0x3FC5555555555555];
             pc \<leftarrow> poly_array x2
               [0x3DA93974A8C07C9D, 0x3E21EED8EFF8D898, 0x3E927E4FB7789F5C, 0x3EFA01A01A01A01A,
                0x3F56C16C16C16C17, 0x3FA5555555555555, 0x3FE0000000000000];
             y \<leftarrow> sl_mul x x2;
             sh \<leftarrow> sl_fma y ps x;
             ch \<leftarrow> sl_fma x2 pc 0x3FF0000000000000;
             sl_div sh ch })
           else if sl_gt a 0x4034000000000000 then return (if sl_signbit x then 0xBFF0000000000000 else 0x3FF0000000000000)
           else flushed (do {
             y \<leftarrow> sl_mul x 0x4000000000000000;
             e \<leftarrow> sf64_internal_exp_core y;
             n \<leftarrow> sl_sub e 0x3FF0000000000000;
             d \<leftarrow> sl_add e 0x3FF0000000000000;
             sl_div n d }))"

section \<open>Inverse hyperbolic functions\<close>

text \<open>\<open>sf64_log1p\<close> is called as the public entry: it keeps an accumulator of its own.\<close>

definition call_log1p :: "f64 \<Rightarrow> f64 sl" where
  "call_log1p x = do { p \<leftarrow> snan_propagate; call_entry (sf64_log1p p x) }"

definition sf64_asinh :: "bool \<Rightarrow> f64 \<Rightarrow> f64 entry" where
  "sf64_asinh snan x = entry snan
     (if sl_isnan x then return qNaN
      else if sl_isinf x then return x
      else
        let a = sf64_internal_fabs x
        in if sl_le a 0x3FF0000000000000 then flushed (do {
             x2 \<leftarrow> ddmul_dd_d_d x x;
             x2p1 \<leftarrow> ddadd2_dd_dd_d x2 0x3FF0000000000000;
             y \<leftarrow> sl_add (dd_hi x2p1) (dd_lo x2p1);
             sroot \<leftarrow> sl_sqrt y;
             denom \<leftarrow> sl_add sroot 0x3FF0000000000000;
             y \<leftarrow> sl_div 0x3FF0000000000000 denom;
             t_dd \<leftarrow> ddmul_dd_dd_d x2 y;
             arg \<leftarrow> ddadd2_dd_dd_d t_dd x;
             y \<leftarrow> sl_add (dd_hi arg) (dd_lo arg);
             call_log1p y })
           else do {
             x2 \<leftarrow> ddmul_dd_d_d a a;
             x2p1 \<leftarrow> ddadd2_dd_dd_d x2 0x3FF0000000000000;
             y \<leftarrow> sl_add (dd_hi x2p1) (dd_lo x2p1);
             sroot \<leftarrow> sl_sqrt y;
             arg \<leftarrow> ddadd2_dd_d_d a sroot;
             y \<leftarrow> sl_add (dd_hi arg) (dd_lo arg);
             r \<leftarrow> sf64_internal_log_core y;
             fe_flush;
             return (if sl_signbit x then sl_neg r else r) })"

definition sf64_acosh :: "bool \<Rightarrow> f64 \<Rightarrow> f64 entry" where
  "sf64_acosh snan x = entry snan
     (if sl_isnan x then return qNaN
      else if sl_lt x 0x3FF0000000000000 then return qNaN
      else if sl_isinf x then return positive_infinity
      else if sl_eq x 0x3FF0000000000000 then return 0
      else if sl_lt x 0x4000000000000000 then flushed (do {
        xm1 \<leftarrow> sl_sub x 0x3FF0000000000000;
        xp1 \<leftarrow> sl_add x 0x3FF0000000000000;
        y \<leftarrow> sl_mul xm1 xp1;
        s \<leftarrow> sl_sqrt y;
        y \<leftarrow> sl_add xm1 s;
        call_log1p y })
      else flushed (do {
        x2 \<leftarrow> ddmul_dd_d_d x x;
        x2m1 \<leftarrow> ddadd2_dd_dd_d x2 0xBFF0000000000000;
        y \<leftarrow> sl_add (dd_hi x2m1) (dd_lo x2m1);
        sroot \<leftarrow> sl_sqrt y;
        arg \<leftarrow> ddadd2_dd_d_d x sroot;
        y \<leftarrow> sl_add (dd_hi arg) (dd_lo arg);
        sf64_internal_log_core y }))"

definition sf64_atanh :: "bool \<Rightarrow> f64 \<Rightarrow> f64 entry" where
  "sf64_atanh snan x = entry snan
     (if sl_isnan x then return qNaN
      else
        let a = sf64_internal_fabs x
        in if sl_gt a 0x3FF0000000000000 then return qNaN
           else if sl_eq a 0x3FF0000000000000 then
             return (if sl_signbit x then sl_neg positive_infinity else positive_infinity)
           else if sl_lt a 0x3FE0000000000000 then flushed (do {
             n \<leftarrow> sl_mul x 0x4000000000000000;
             d \<leftarrow> sl_sub 0x3FF0000000000000 x;
             t \<leftarrow> sl_div n d;
             y \<leftarrow> call_log1p t;
             sl_mul y 0x3FE0000000000000 })
           else flushed (do {
             numer \<leftarrow> ddadd2_dd_d_d 0x3FF0000000000000 x;
             denom \<leftarrow> ddadd2_dd_d_d 0x3FF0000000000000 (sl_neg x);
             q \<leftarrow> dddiv_dd_dd_dd numer denom;
             y \<leftarrow> sl_add (dd_hi q) (dd_lo q);
             lq \<leftarrow> sf64_internal_log_core y;
             sl_mul lq 0x3FE0000000000000 }))"

end
