(* ===== verification/Sf_Sleef_Rempi.thy ===== *)
theory Sf_Sleef_Rempi
  imports Sf_Internal
begin

text \<open>
  The table of \<open>src/sleef/sleef_trig.cpp\<close> that the Payne-Hanek reduction reads: 969 rows of four doubles,
  row \<open>e\<close> holding \<open>1 / (2 pi)\<close> without the bits that contribute whole turns at binary exponent \<open>e + 55\<close>.
  It is cut into pieces of 130 source lines.
\<close>

definition kRempiTab_0 :: "u64 list" where
  "kRempiTab_0 =
    [0x3FC45F306DC9C882, 0x3C74A7F09D5F47D4, 0x392A6EE06DB14ACC, 0x35D3C439041FE516, 0x3FA17CC1B727220A,
     0x3C529FC2757D1F52, 0x3914DDC0DB629598, 0x35D3C439041FE516, 0x3FA17CC1B727220A, 0x3C529FC2757D1F52,
     0x3914DDC0DB629598, 0x35D3C439041FE516, 0x3F67CC1B727220A8, 0x3C24FE13ABE8FA9A, 0x38CBB81B6C52B328,
     0xB56DE37DF00D74E3, 0x3F67CC1B727220A8, 0x3C24FE13ABE8FA9A, 0x38CBB81B6C52B328, 0xB56DE37DF00D74E3,
     0x3F67CC1B727220A8, 0x3C24FE13ABE8FA9A, 0x38CBB81B6C52B328, 0xB56DE37DF00D74E3, 0x3F67CC1B727220A8,
     0x3C24FE13ABE8FA9A, 0x38CBB81B6C52B328, 0xB56DE37DF00D74E3, 0x3F4F306DC9C882A4, 0x3C03F84EAFA3EA6A,
     0xB8A11F924EB53362, 0x3530E4107F9458EB, 0x3F4F306DC9C882A4, 0x3C03F84EAFA3EA6A, 0xB8A11F924EB53362,
     0x3530E4107F9458EB, 0x3F3E60DB9391054A, 0x3BDFC2757D1F534E, 0xB861F924EB53361E, 0x34EC820FF28B1D5F,
     0x3F2CC1B727220A94, 0x3BDFC2757D1F534E, 0xB861F924EB53361E, 0x34EC820FF28B1D5F, 0x3F19836E4E44152A,
     0xBB6EC54170565912, 0x37CB6C52B3278872, 0x34307F9458EAF7AF, 0x3F0306DC9C882A54, 0xBB6EC54170565912,
     0x37CB6C52B3278872, 0x34307F9458EAF7AF, 0x3ED836E4E44152A0, 0xBB6EC54170565912, 0x37CB6C52B3278872,
     0x34307F9458EAF7AF, 0x3ED836E4E44152A0, 0xBB6EC54170565912, 0x37CB6C52B3278872, 0x34307F9458EAF7AF,
     0x3ED836E4E44152A0, 0xBB6EC54170565912, 0x37CB6C52B3278872, 0x34307F9458EAF7AF, 0x3EC06DC9C882A540,
     0xBB6EC54170565912, 0x37CB6C52B3278872, 0x34307F9458EAF7AF, 0x3E6B727220A94FE0, 0x3B23ABE8FA9A6EE0,
     0x37CB6C52B3278872, 0x34307F9458EAF7AF, 0x3E6B727220A94FE0, 0x3B23ABE8FA9A6EE0, 0x37CB6C52B3278872,
     0x34307F9458EAF7AF, 0x3E6B727220A94FE0, 0x3B23ABE8FA9A6EE0, 0x37CB6C52B3278872, 0x34307F9458EAF7AF,
     0x3E6B727220A94FE0, 0x3B23ABE8FA9A6EE0, 0x37CB6C52B3278872, 0x34307F9458EAF7AF, 0x3E6B727220A94FE0,
     0x3B23ABE8FA9A6EE0, 0x37CB6C52B3278872, 0x34307F9458EAF7AF, 0x3E6B727220A94FE0, 0x3B23ABE8FA9A6EE0,
     0x37CB6C52B3278872, 0x34307F9458EAF7AF, 0x3E56E4E441529FC2, 0x3AFD5F47D4D37702, 0x37B6D8A5664F10E4,
     0x34307F9458EAF7AF, 0x3E3B9391054A7F0A, 0xBAC505C1596447E4, 0xB77275A99B0EF1BE, 0xB42F00D74E2A10A2,
     0x3E3B9391054A7F0A, 0xBAC505C1596447E4, 0xB77275A99B0EF1BE, 0xB42F00D74E2A10A2, 0x3E2727220A94FE14,
     0xBAC505C1596447E4, 0xB77275A99B0EF1BE, 0xB42F00D74E2A10A2, 0x3E0C9C882A53F84E, 0x3AB5F47D4D377036,
     0x376B14ACC9E21C82, 0x33DFE5163ABDEBBC, 0x3E0C9C882A53F84E, 0x3AB5F47D4D377036, 0x376B14ACC9E21C82,
     0x33DFE5163ABDEBBC, 0x3DF9391054A7F09C, 0x3AB5F47D4D377036, 0x376B14ACC9E21C82, 0x33DFE5163ABDEBBC,
     0x3DE27220A94FE13A, 0x3A97D1F534DDC0DA, 0x3756295993C43904, 0x33DFE5163ABDEBBC, 0x3DB391054A7F09D6,
     0xBA270565911F924E, 0xB6D6A66C3BC6FBE0, 0xB35AE9C5421443AA, 0x3DB391054A7F09D6, 0xBA270565911F924E,
     0xB6D6A66C3BC6FBE0, 0xB35AE9C5421443AA, 0x3DB391054A7F09D6, 0xBA270565911F924E, 0xB6D6A66C3BC6FBE0,
     0xB35AE9C5421443AA, 0x3D8C882A53F84EB0, 0xBA270565911F924E, 0xB6D6A66C3BC6FBE0, 0xB35AE9C5421443AA,
     0x3D8C882A53F84EB0, 0xBA270565911F924E, 0xB6D6A66C3BC6FBE0, 0xB35AE9C5421443AA, 0x3D8C882A53F84EB0,
     0xBA270565911F924E, 0xB6D6A66C3BC6FBE0, 0xB35AE9C5421443AA, 0x3D791054A7F09D5E, 0x3A347D4D377036D8,
     0x36E4ACC9E21C8210, 0xB35AE9C5421443AA, 0x3D6220A94FE13ABE, 0x3A11F534DDC0DB62, 0x36C2B32788720840,
     0xB35AE9C5421443AA, 0x3D31054A7F09D5F4, 0x39DF534DDC0DB628, 0x3695993C439041FE, 0x333458EAF7AEF158,
     0x3D31054A7F09D5F4, 0x39DF534DDC0DB628, 0x3695993C439041FE, 0x333458EAF7AEF158, 0x3D31054A7F09D5F4,
     0x39DF534DDC0DB628, 0x3695993C439041FE, 0x333458EAF7AEF158, 0x3CF054A7F09D5F48, 0xB98596447E493AD4,
     0xB639B0EF1BEF806C, 0x32D63ABDEBBC561B, 0x3CF054A7F09D5F48, 0xB98596447E493AD4, 0xB639B0EF1BEF806C,
     0x32D63ABDEBBC561B, 0x3CF054A7F09D5F48, 0xB98596447E493AD4, 0xB639B0EF1BEF806C, 0x32D63ABDEBBC561B,
     0x3CF054A7F09D5F48, 0xB98596447E493AD4, 0xB639B0EF1BEF806C, 0x32D63ABDEBBC561B, 0x3C9529FC2757D1F4,
     0x39534DDC0DB6295A, 0xB5FB0EF1BEF806BA, 0xB29C5421443A9E49, 0x3C9529FC2757D1F4, 0x39534DDC0DB6295A,
     0xB5FB0EF1BEF806BA, 0xB29C5421443A9E49, 0x3C9529FC2757D1F4, 0x39534DDC0DB6295A, 0xB5FB0EF1BEF806BA,
     0xB29C5421443A9E49, 0x3C9529FC2757D1F4, 0x39534DDC0DB6295A, 0xB5FB0EF1BEF806BA, 0xB29C5421443A9E49,
     0x3C9529FC2757D1F4, 0x39534DDC0DB6295A, 0xB5FB0EF1BEF806BA, 0xB29C5421443A9E49, 0x3C9529FC2757D1F4,
     0x39534DDC0DB6295A, 0xB5FB0EF1BEF806BA, 0xB29C5421443A9E49, 0x3C74A7F09D5F47D4, 0x392A6EE06DB14ACC,
     0x35D3C439041FE516, 0x326D5EF5DE2B0DB9, 0x3C74A7F09D5F47D4, 0x392A6EE06DB14ACC, 0x35D3C439041FE516,
     0x326D5EF5DE2B0DB9, 0x3C529FC2757D1F52, 0x3914DDC0DB629598, 0x35D3C439041FE516, 0x326D5EF5DE2B0DB9,
     0x3C529FC2757D1F52, 0x3914DDC0DB629598, 0x35D3C439041FE516, 0x326D5EF5DE2B0DB9, 0x3C24FE13ABE8FA9A,
     0x38CBB81B6C52B328, 0xB56DE37DF00D74E2, 0xB21421443A9E48DC, 0x3C24FE13ABE8FA9A, 0x38CBB81B6C52B328,
     0xB56DE37DF00D74E2, 0xB21421443A9E48DC, 0x3C24FE13ABE8FA9A, 0x38CBB81B6C52B328, 0xB56DE37DF00D74E2,
     0xB21421443A9E48DC, 0x3C03F84EAFA3EA6A, 0xB8A11F924EB53362, 0x3530E4107F9458EA, 0x31EEF5DE2B0DB923,
     0x3C03F84EAFA3EA6A, 0xB8A11F924EB53362, 0x3530E4107F9458EA, 0x31EEF5DE2B0DB923, 0x3BDFC2757D1F534E,
     0xB861F924EB53361E, 0x34EC820FF28B1D5E, 0x319EBBC561B7246E, 0x3BDFC2757D1F534E, 0xB861F924EB53361E,
     0x34EC820FF28B1D5E, 0x319EBBC561B7246E, 0x3BDFC2757D1F534E, 0xB861F924EB53361E, 0x34EC820FF28B1D5E,
     0x319EBBC561B7246E, 0x3BCF84EAFA3EA69C, 0xB861F924EB53361E, 0x34EC820FF28B1D5E, 0x319EBBC561B7246E,
     0x3BBF09D5F47D4D36, 0x3877036D8A5664F0, 0x3530E4107F9458EA, 0x31EEF5DE2B0DB923, 0x3BAE13ABE8FA9A6E,
     0x385C0DB6295993C4, 0x34EC820FF28B1D5E, 0x319EBBC561B7246E, 0x3B9C2757D1F534DE, 0xB82F924EB53361DE,
     0xB4BBEF806BA71508, 0xB15443A9E48DB91C, 0x3B884EAFA3EA69BC, 0xB82F924EB53361DE, 0xB4BBEF806BA71508,
     0xB15443A9E48DB91C, 0x3B709D5F47D4D376, 0x383036D8A5664F10, 0x34EC820FF28B1D5E, 0x319EBBC561B7246E,
     0x3B23ABE8FA9A6EE0, 0x37CB6C52B3278872, 0x34307F9458EAF7AE, 0x30EE2B0DB92371D2, 0x3B23ABE8FA9A6EE0,
     0x37CB6C52B3278872, 0x34307F9458EAF7AE, 0x30EE2B0DB92371D2, 0x3B23ABE8FA9A6EE0, 0x37CB6C52B3278872,
     0x34307F9458EAF7AE, 0x30EE2B0DB92371D2, 0x3B23ABE8FA9A6EE0, 0x37CB6C52B3278872, 0x34307F9458EAF7AE,
     0x30EE2B0DB92371D2, 0x3B23ABE8FA9A6EE0, 0x37CB6C52B3278872, 0x34307F9458EAF7AE, 0x30EE2B0DB92371D2,
     0x3AFD5F47D4D37702, 0x37B6D8A5664F10E4, 0x34307F9458EAF7AE, 0x30EE2B0DB92371D2, 0x3AFD5F47D4D37702,
     0x37B6D8A5664F10E4, 0x34307F9458EAF7AE, 0x30EE2B0DB92371D2, 0x3AFD5F47D4D37702, 0x37B6D8A5664F10E4,
     0x34307F9458EAF7AE, 0x30EE2B0DB92371D2, 0x3AEABE8FA9A6EE06, 0x379B6295993C4390, 0x34307F9458EAF7AE,
     0x30EE2B0DB92371D2, 0x3AD57D1F534DDC0E, 0xB77275A99B0EF1BE, 0xB42F00D74E2A10A2, 0xB0AD4F246DC8E2DF,
     0x3AB5F47D4D377036, 0x376B14ACC9E21C82, 0x33DFE5163ABDEBBC, 0x307586DC91B8E909, 0x3AB5F47D4D377036,
     0x376B14ACC9E21C82, 0x33DFE5163ABDEBBC, 0x307586DC91B8E909, 0x3A97D1F534DDC0DA, 0x3756295993C43904,
     0x33DFE5163ABDEBBC, 0x307586DC91B8E909, 0x3A97D1F534DDC0DA, 0x3756295993C43904, 0x33DFE5163ABDEBBC,
     0x307586DC91B8E909, 0x3A7F47D4D377036E, 0xB71D6A66C3BC6FBE, 0xB35AE9C5421443AA, 0x2FDB7246E3A424DD,
     0x3A7F47D4D377036E, 0xB71D6A66C3BC6FBE, 0xB35AE9C5421443AA, 0x2FDB7246E3A424DD, 0x3A6E8FA9A6EE06DA,
     0x37214ACC9E21C820, 0x33DFE5163ABDEBBC, 0x307586DC91B8E909, 0x3A5D1F534DDC0DB6, 0x36E4ACC9E21C8210,
     0xB35AE9C5421443AA, 0x2FDB7246E3A424DD, 0x3A4A3EA69BB81B6C, 0x36E4ACC9E21C8210, 0xB35AE9C5421443AA,
     0x2FDB7246E3A424DD, 0x3A347D4D377036D8, 0x36E4ACC9E21C8210, 0xB35AE9C5421443AA, 0x2FDB7246E3A424DD,
     0x3A11F534DDC0DB62, 0x36C2B32788720840, 0xB35AE9C5421443AA, 0x2FDB7246E3A424DD, 0x3A11F534DDC0DB62,
     0x36C2B32788720840, 0xB35AE9C5421443AA, 0x2FDB7246E3A424DD, 0x39DF534DDC0DB628, 0x3695993C439041FE,
     0x333458EAF7AEF158, 0x2FDB7246E3A424DD, 0x39DF534DDC0DB628, 0x3695993C439041FE, 0x333458EAF7AEF158,
     0x2FDB7246E3A424DD, 0x39DF534DDC0DB628, 0x3695993C439041FE, 0x333458EAF7AEF158, 0x2FDB7246E3A424DD,
     0x39DF534DDC0DB628, 0x3695993C439041FE, 0x333458EAF7AEF158, 0x2FDB7246E3A424DD, 0x39CEA69BB81B6C52,
     0x367664F10E4107F8, 0x333458EAF7AEF158, 0x2FDB7246E3A424DD, 0x39BD4D377036D8A4, 0x367664F10E4107F8]"

definition kRempiTab_1 :: "u64 list" where
  "kRempiTab_1 =
    [0x333458EAF7AEF158, 0x2FDB7246E3A424DD, 0x39AA9A6EE06DB14A, 0x365993C439041FE4, 0x331163ABDEBBC562,
     0xAFB236E4716F6C8B, 0x399534DDC0DB6296, 0xB639B0EF1BEF806C, 0x32D63ABDEBBC561A, 0x2F97246E3A424DD3,
     0x3974D377036D8A56, 0x36193C439041FE50, 0x32D63ABDEBBC561A, 0x2F97246E3A424DD3, 0x3974D377036D8A56,
     0x36193C439041FE50, 0x32D63ABDEBBC561A, 0x2F97246E3A424DD3, 0x39534DDC0DB6295A, 0xB5FB0EF1BEF806BA,
     0xB29C5421443A9E48, 0xAF4B7238B7B645A4, 0x39534DDC0DB6295A, 0xB5FB0EF1BEF806BA, 0xB29C5421443A9E48,
     0xAF4B7238B7B645A4, 0x392A6EE06DB14ACC, 0x35D3C439041FE516, 0x326D5EF5DE2B0DB8, 0x2F22371D2126E970,
     0x392A6EE06DB14ACC, 0x35D3C439041FE516, 0x326D5EF5DE2B0DB8, 0x2F22371D2126E970, 0x392A6EE06DB14ACC,
     0x35D3C439041FE516, 0x326D5EF5DE2B0DB8, 0x2F22371D2126E970, 0x3914DDC0DB629598, 0x35D3C439041FE516,
     0x326D5EF5DE2B0DB8, 0x2F22371D2126E970, 0x38F377036D8A5664, 0x35AE21C820FF28B2, 0xB23508510EA79236,
     0xAEEC8E2DED916900, 0x38F377036D8A5664, 0x35AE21C820FF28B2, 0xB23508510EA79236, 0xAEEC8E2DED916900,
     0x38CBB81B6C52B328, 0xB56DE37DF00D74E2, 0xB21421443A9E48DC, 0x2EBB8E909374B802, 0x38CBB81B6C52B328,
     0xB56DE37DF00D74E2, 0xB21421443A9E48DC, 0x2EBB8E909374B802, 0x38CBB81B6C52B328, 0xB56DE37DF00D74E2,
     0xB21421443A9E48DC, 0x2EBB8E909374B802, 0x38B77036D8A5664E, 0x35710E4107F9458E, 0x3225EF5DE2B0DB92,
     0x2EBB8E909374B802, 0x389DC0DB6295993C, 0x3530E4107F9458EA, 0x31EEF5DE2B0DB922, 0x2EA71D2126E97003,
     0x389DC0DB6295993C, 0x3530E4107F9458EA, 0x31EEF5DE2B0DB922, 0x2EA71D2126E97003, 0x388B81B6C52B3278,
     0x3530E4107F9458EA, 0x31EEF5DE2B0DB922, 0x2EA71D2126E97003, 0x3877036D8A5664F0, 0x3530E4107F9458EA,
     0x31EEF5DE2B0DB922, 0x2EA71D2126E97003, 0x385C0DB6295993C4, 0x34EC820FF28B1D5E, 0x319EBBC561B7246E,
     0x2E2D2126E9700325, 0x385C0DB6295993C4, 0x34EC820FF28B1D5E, 0x319EBBC561B7246E, 0x2E2D2126E9700325,
     0x38481B6C52B32788, 0x34EC820FF28B1D5E, 0x319EBBC561B7246E, 0x2E2D2126E9700325, 0x383036D8A5664F10,
     0x34EC820FF28B1D5E, 0x319EBBC561B7246E, 0x2E2D2126E9700325, 0x37CB6C52B3278872, 0x34307F9458EAF7AE,
     0x30EE2B0DB92371D2, 0x2D626E9700324977, 0x37CB6C52B3278872, 0x34307F9458EAF7AE, 0x30EE2B0DB92371D2,
     0x2D626E9700324977, 0x37CB6C52B3278872, 0x34307F9458EAF7AE, 0x30EE2B0DB92371D2, 0x2D626E9700324977,
     0x37CB6C52B3278872, 0x34307F9458EAF7AE, 0x30EE2B0DB92371D2, 0x2D626E9700324977, 0x37CB6C52B3278872,
     0x34307F9458EAF7AE, 0x30EE2B0DB92371D2, 0x2D626E9700324977, 0x37CB6C52B3278872, 0x34307F9458EAF7AE,
     0x30EE2B0DB92371D2, 0x2D626E9700324977, 0x37CB6C52B3278872, 0x34307F9458EAF7AE, 0x30EE2B0DB92371D2,
     0x2D626E9700324977, 0x37B6D8A5664F10E4, 0x34307F9458EAF7AE, 0x30EE2B0DB92371D2, 0x2D626E9700324977,
     0x379B6295993C4390, 0x34307F9458EAF7AE, 0x30EE2B0DB92371D2, 0x2D626E9700324977, 0x379B6295993C4390,
     0x34307F9458EAF7AE, 0x30EE2B0DB92371D2, 0x2D626E9700324977, 0x3786C52B32788720, 0x34307F9458EAF7AE,
     0x30EE2B0DB92371D2, 0x2D626E9700324977, 0x376B14ACC9E21C82, 0x33DFE5163ABDEBBC, 0x307586DC91B8E908,
     0x2D3374B801924BBB, 0x376B14ACC9E21C82, 0x33DFE5163ABDEBBC, 0x307586DC91B8E908, 0x2D3374B801924BBB,
     0x3756295993C43904, 0x33DFE5163ABDEBBC, 0x307586DC91B8E908, 0x2D3374B801924BBB, 0x3738A5664F10E410,
     0x33DFE5163ABDEBBC, 0x307586DC91B8E908, 0x2D3374B801924BBB, 0x3738A5664F10E410, 0x33DFE5163ABDEBBC,
     0x307586DC91B8E908, 0x2D3374B801924BBB, 0x37214ACC9E21C820, 0x33DFE5163ABDEBBC, 0x307586DC91B8E908,
     0x2D3374B801924BBB, 0x36E4ACC9E21C8210, 0xB35AE9C5421443AA, 0x2FDB7246E3A424DC, 0x2C92E006492EEA0A,
     0x36E4ACC9E21C8210, 0xB35AE9C5421443AA, 0x2FDB7246E3A424DC, 0x2C92E006492EEA0A, 0x36E4ACC9E21C8210,
     0xB35AE9C5421443AA, 0x2FDB7246E3A424DC, 0x2C92E006492EEA0A, 0x36E4ACC9E21C8210, 0xB35AE9C5421443AA,
     0x2FDB7246E3A424DC, 0x2C92E006492EEA0A, 0x36C2B32788720840, 0xB35AE9C5421443AA, 0x2FDB7246E3A424DC,
     0x2C92E006492EEA0A, 0x36C2B32788720840, 0xB35AE9C5421443AA, 0x2FDB7246E3A424DC, 0x2C92E006492EEA0A,
     0x3695993C439041FE, 0x333458EAF7AEF158, 0x2FDB7246E3A424DC, 0x2C92E006492EEA0A, 0x3695993C439041FE,
     0x333458EAF7AEF158, 0x2FDB7246E3A424DC, 0x2C92E006492EEA0A, 0x3695993C439041FE, 0x333458EAF7AEF158,
     0x2FDB7246E3A424DC, 0x2C92E006492EEA0A, 0x367664F10E4107F8, 0x333458EAF7AEF158, 0x2FDB7246E3A424DC,
     0x2C92E006492EEA0A, 0x367664F10E4107F8, 0x333458EAF7AEF158, 0x2FDB7246E3A424DC, 0x2C92E006492EEA0A,
     0x365993C439041FE4, 0x331163ABDEBBC562, 0xAFB236E4716F6C8A, 0xAC747FE6DB4457D9, 0x365993C439041FE4,
     0x331163ABDEBBC562, 0xAFB236E4716F6C8A, 0xAC747FE6DB4457D9, 0x3643278872083FCA, 0x32D63ABDEBBC561A,
     0x2F97246E3A424DD2, 0x2C4C00C925DD413A, 0x36193C439041FE50, 0x32D63ABDEBBC561A, 0x2F97246E3A424DD2,
     0x2C4C00C925DD413A, 0x36193C439041FE50, 0x32D63ABDEBBC561A, 0x2F97246E3A424DD2, 0x2C4C00C925DD413A,
     0x36193C439041FE50, 0x32D63ABDEBBC561A, 0x2F97246E3A424DD2, 0x2C4C00C925DD413A, 0x360278872083FCA2,
     0x32B8EAF7AEF1586E, 0xAF4B7238B7B645A4, 0x2B7924BBA8274648, 0x35D3C439041FE516, 0x326D5EF5DE2B0DB8,
     0x2F22371D2126E970, 0x2B7924BBA8274648, 0x35D3C439041FE516, 0x326D5EF5DE2B0DB8, 0x2F22371D2126E970,
     0x2B7924BBA8274648, 0x35D3C439041FE516, 0x326D5EF5DE2B0DB8, 0x2F22371D2126E970, 0x2B7924BBA8274648,
     0x35AE21C820FF28B2, 0xB23508510EA79236, 0xAEEC8E2DED916900, 0x2B7924BBA8274648, 0x35AE21C820FF28B2,
     0xB23508510EA79236, 0xAEEC8E2DED916900, 0x2B7924BBA8274648, 0x35AE21C820FF28B2, 0xB23508510EA79236,
     0xAEEC8E2DED916900, 0x2B7924BBA8274648, 0x359C439041FE5164, 0xB23508510EA79236, 0xAEEC8E2DED916900,
     0x2B7924BBA8274648, 0x3588872083FCA2C6, 0x32457BD778AC36E4, 0x2EF1B8E909374B80, 0x2B7924BBA8274648,
     0x35710E4107F9458E, 0x3225EF5DE2B0DB92, 0x2EBB8E909374B802, 0xAB5B6D115F62E6DE, 0x3530E4107F9458EA,
     0x31EEF5DE2B0DB922, 0x2EA71D2126E97002, 0x2B624977504E8C91, 0x3530E4107F9458EA, 0x31EEF5DE2B0DB922,
     0x2EA71D2126E97002, 0x2B624977504E8C91, 0x3530E4107F9458EA, 0x31EEF5DE2B0DB922, 0x2EA71D2126E97002,
     0x2B624977504E8C91, 0x3530E4107F9458EA, 0x31EEF5DE2B0DB922, 0x2EA71D2126E97002, 0x2B624977504E8C91,
     0x34EC820FF28B1D5E, 0x319EBBC561B7246E, 0x2E2D2126E9700324, 0x2AD2EEA09D1921D0, 0x34EC820FF28B1D5E,
     0x319EBBC561B7246E, 0x2E2D2126E9700324, 0x2AD2EEA09D1921D0, 0x34EC820FF28B1D5E, 0x319EBBC561B7246E,
     0x2E2D2126E9700324, 0x2AD2EEA09D1921D0, 0x34EC820FF28B1D5E, 0x319EBBC561B7246E, 0x2E2D2126E9700324,
     0x2AD2EEA09D1921D0, 0x34EC820FF28B1D5E, 0x319EBBC561B7246E, 0x2E2D2126E9700324, 0x2AD2EEA09D1921D0,
     0x34D9041FE5163ABE, 0xB15443A9E48DB91C, 0xADF6F6C8B47FE6DA, 0xAAB4457D8B9B78C0, 0x34C2083FCA2C757C,
     0xB15443A9E48DB91C, 0xADF6F6C8B47FE6DA, 0xAAB4457D8B9B78C0, 0x349041FE5163ABDE, 0x314778AC36E48DC6,
     0x2E04849BA5C00C92, 0x2AA77504E8C90E7F, 0x349041FE5163ABDE, 0x314778AC36E48DC6, 0x2E04849BA5C00C92,
     0x2AA77504E8C90E7F, 0x349041FE5163ABDE, 0x314778AC36E48DC6, 0x2E04849BA5C00C92, 0x2AA77504E8C90E7F,
     0x34307F9458EAF7AE, 0x30EE2B0DB92371D2, 0x2D626E9700324976, 0x2A2504E8C90E7F0F, 0x34307F9458EAF7AE,
     0x30EE2B0DB92371D2, 0x2D626E9700324976, 0x2A2504E8C90E7F0F, 0x34307F9458EAF7AE, 0x30EE2B0DB92371D2,
     0x2D626E9700324976, 0x2A2504E8C90E7F0F, 0x34307F9458EAF7AE, 0x30EE2B0DB92371D2, 0x2D626E9700324976,
     0x2A2504E8C90E7F0F, 0x34307F9458EAF7AE, 0x30EE2B0DB92371D2, 0x2D626E9700324976, 0x2A2504E8C90E7F0F,
     0x34307F9458EAF7AE, 0x30EE2B0DB92371D2, 0x2D626E9700324976, 0x2A2504E8C90E7F0F, 0x33DFE5163ABDEBBC,
     0x307586DC91B8E908, 0x2D3374B801924BBA, 0x29E04E8C90E7F0EF, 0x33DFE5163ABDEBBC, 0x307586DC91B8E908,
     0x2D3374B801924BBA, 0x29E04E8C90E7F0EF, 0x33DFE5163ABDEBBC, 0x307586DC91B8E908, 0x2D3374B801924BBA,
     0x29E04E8C90E7F0EF, 0x33DFE5163ABDEBBC, 0x307586DC91B8E908, 0x2D3374B801924BBA, 0x29E04E8C90E7F0EF,
     0x33DFE5163ABDEBBC, 0x307586DC91B8E908, 0x2D3374B801924BBA, 0x29E04E8C90E7F0EF, 0x33DFE5163ABDEBBC,
     0x307586DC91B8E908, 0x2D3374B801924BBA, 0x29E04E8C90E7F0EF, 0x33CFCA2C757BD778, 0x307586DC91B8E908,
     0x2D3374B801924BBA, 0x29E04E8C90E7F0EF, 0x33BF9458EAF7AEF0, 0x307586DC91B8E908, 0x2D3374B801924BBA,
     0x29E04E8C90E7F0EF, 0x33AF28B1D5EF5DE2, 0x30561B7246E3A424, 0x2D0BA5C00C925DD4, 0x2983A32439FC3BD6]"

definition kRempiTab_2 :: "u64 list" where
  "kRempiTab_2 =
    [0x339E5163ABDEBBC4, 0x30561B7246E3A424, 0x2D0BA5C00C925DD4, 0x2983A32439FC3BD6, 0x338CA2C757BD778A,
     0x30386DC91B8E9092, 0x2CF74B801924BBA8, 0x2983A32439FC3BD6, 0x3379458EAF7AEF16, 0xB01E48DB91C5BDB2,
     0xACA68FFCDB688AFA, 0xA961736F180F10A7, 0x33628B1D5EF5DE2A, 0x3020DB92371D2126, 0x2CDD2E006492EEA0,
     0x2983A32439FC3BD6, 0x333458EAF7AEF158, 0x2FDB7246E3A424DC, 0x2C92E006492EEA0A, 0xA92736F180F10A72,
     0x333458EAF7AEF158, 0x2FDB7246E3A424DC, 0x2C92E006492EEA0A, 0xA92736F180F10A72, 0x333458EAF7AEF158,
     0x2FDB7246E3A424DC, 0x2C92E006492EEA0A, 0xA92736F180F10A72, 0x331163ABDEBBC562, 0xAFB236E4716F6C8A,
     0xAC747FE6DB4457D8, 0xA92736F180F10A72, 0x331163ABDEBBC562, 0xAFB236E4716F6C8A, 0xAC747FE6DB4457D8,
     0xA92736F180F10A72, 0x32D63ABDEBBC561A, 0x2F97246E3A424DD2, 0x2C4C00C925DD413A, 0x28D921CFE1DEB1CB,
     0x32D63ABDEBBC561A, 0x2F97246E3A424DD2, 0x2C4C00C925DD413A, 0x28D921CFE1DEB1CB, 0x32D63ABDEBBC561A,
     0x2F97246E3A424DD2, 0x2C4C00C925DD413A, 0x28D921CFE1DEB1CB, 0x32D63ABDEBBC561A, 0x2F97246E3A424DD2,
     0x2C4C00C925DD413A, 0x28D921CFE1DEB1CB, 0x32B8EAF7AEF1586E, 0xAF4B7238B7B645A4, 0x2B7924BBA8274648,
     0x281CFE1DEB1CB12A, 0x32B8EAF7AEF1586E, 0xAF4B7238B7B645A4, 0x2B7924BBA8274648, 0x281CFE1DEB1CB12A,
     0x32A1D5EF5DE2B0DC, 0xAF4B7238B7B645A4, 0x2B7924BBA8274648, 0x281CFE1DEB1CB12A, 0x326D5EF5DE2B0DB8,
     0x2F22371D2126E970, 0x2B7924BBA8274648, 0x281CFE1DEB1CB12A, 0x326D5EF5DE2B0DB8, 0x2F22371D2126E970,
     0x2B7924BBA8274648, 0x281CFE1DEB1CB12A, 0x326D5EF5DE2B0DB8, 0x2F22371D2126E970, 0x2B7924BBA8274648,
     0x281CFE1DEB1CB12A, 0x326D5EF5DE2B0DB8, 0x2F22371D2126E970, 0x2B7924BBA8274648, 0x281CFE1DEB1CB12A,
     0x325ABDEBBC561B72, 0x2EF1B8E909374B80, 0x2B7924BBA8274648, 0x281CFE1DEB1CB12A, 0x32457BD778AC36E4,
     0x2EF1B8E909374B80, 0x2B7924BBA8274648, 0x281CFE1DEB1CB12A, 0x3225EF5DE2B0DB92, 0x2EBB8E909374B802,
     0xAB5B6D115F62E6DE, 0xA7E80F10A71A76B3, 0x3225EF5DE2B0DB92, 0x2EBB8E909374B802, 0xAB5B6D115F62E6DE,
     0xA7E80F10A71A76B3, 0x3207BD778AC36E48, 0x2EBB8E909374B802, 0xAB5B6D115F62E6DE, 0xA7E80F10A71A76B3,
     0x3207BD778AC36E48, 0x2EBB8E909374B802, 0xAB5B6D115F62E6DE, 0xA7E80F10A71A76B3, 0x31EEF5DE2B0DB922,
     0x2EA71D2126E97002, 0x2B624977504E8C90, 0x281CFE1DEB1CB12A, 0x31EEF5DE2B0DB922, 0x2EA71D2126E97002,
     0x2B624977504E8C90, 0x281CFE1DEB1CB12A, 0x31DDEBBC561B7246, 0x2E8C74849BA5C00C, 0x2B324BBA82746486,
     0x27F3F877AC72C4A7, 0x31CBD778AC36E48E, 0xAE5C5BDB22D1FF9A, 0xAB16D115F62E6DE2, 0xA7D01E214E34ED66,
     0x31B7AEF1586DC91C, 0xAE5C5BDB22D1FF9A, 0xAB16D115F62E6DE2, 0xA7D01E214E34ED66, 0x319EBBC561B7246E,
     0x2E2D2126E9700324, 0x2AD2EEA09D1921D0, 0xA75E214E34ED658C, 0x319EBBC561B7246E, 0x2E2D2126E9700324,
     0x2AD2EEA09D1921D0, 0xA75E214E34ED658C, 0x318D778AC36E48DC, 0x2E2D2126E9700324, 0x2AD2EEA09D1921D0,
     0xA75E214E34ED658C, 0x317AEF1586DC91B8, 0x2E2D2126E9700324, 0x2AD2EEA09D1921D0, 0xA75E214E34ED658C,
     0x3165DE2B0DB92372, 0xADF6F6C8B47FE6DA, 0xAAB4457D8B9B78C0, 0xA75E214E34ED658C, 0x314778AC36E48DC6,
     0x2E04849BA5C00C92, 0x2AA77504E8C90E7E, 0x2760EF58E5894D3A, 0x314778AC36E48DC6, 0x2E04849BA5C00C92,
     0x2AA77504E8C90E7E, 0x2760EF58E5894D3A, 0x312DE2B0DB92371C, 0x2DE2126E97003248, 0x2AA77504E8C90E7E,
     0x2760EF58E5894D3A, 0x312DE2B0DB92371C, 0x2DE2126E97003248, 0x2AA77504E8C90E7E, 0x2760EF58E5894D3A,
     0x311BC561B7246E3A, 0x2DB09374B801924C, 0xAA515F62E6DE301E, 0xA6E0A71A76B2C609, 0x31078AC36E48DC74,
     0x2DB09374B801924C, 0xAA515F62E6DE301E, 0xA6E0A71A76B2C609, 0x30EE2B0DB92371D2, 0x2D626E9700324976,
     0x2A2504E8C90E7F0E, 0x26DEB1CB129A73EF, 0x30EE2B0DB92371D2, 0x2D626E9700324976, 0x2A2504E8C90E7F0E,
     0x26DEB1CB129A73EF, 0x30DC561B7246E3A4, 0x2D626E9700324976, 0x2A2504E8C90E7F0E, 0x26DEB1CB129A73EF,
     0x30C8AC36E48DC748, 0x2D626E9700324976, 0x2A2504E8C90E7F0E, 0x26DEB1CB129A73EF, 0x30B1586DC91B8E90,
     0x2D626E9700324976, 0x2A2504E8C90E7F0E, 0x26DEB1CB129A73EF, 0x307586DC91B8E908, 0x2D3374B801924BBA,
     0x29E04E8C90E7F0EE, 0x26A58E5894D39F74, 0x307586DC91B8E908, 0x2D3374B801924BBA, 0x29E04E8C90E7F0EE,
     0x26A58E5894D39F74, 0x307586DC91B8E908, 0x2D3374B801924BBA, 0x29E04E8C90E7F0EE, 0x26A58E5894D39F74,
     0x307586DC91B8E908, 0x2D3374B801924BBA, 0x29E04E8C90E7F0EE, 0x26A58E5894D39F74, 0x30561B7246E3A424,
     0x2D0BA5C00C925DD4, 0x2983A32439FC3BD6, 0x261CB129A73EE882, 0x30561B7246E3A424, 0x2D0BA5C00C925DD4,
     0x2983A32439FC3BD6, 0x261CB129A73EE882, 0x30386DC91B8E9092, 0x2CF74B801924BBA8, 0x2983A32439FC3BD6,
     0x261CB129A73EE882, 0x30386DC91B8E9092, 0x2CF74B801924BBA8, 0x2983A32439FC3BD6, 0x261CB129A73EE882,
     0x3020DB92371D2126, 0x2CDD2E006492EEA0, 0x2983A32439FC3BD6, 0x261CB129A73EE882, 0x2FDB7246E3A424DC,
     0x2C92E006492EEA0A, 0xA92736F180F10A72, 0x25C62534E7DD1047, 0x2FDB7246E3A424DC, 0x2C92E006492EEA0A,
     0xA92736F180F10A72, 0x25C62534E7DD1047, 0x2FDB7246E3A424DC, 0x2C92E006492EEA0A, 0xA92736F180F10A72,
     0x25C62534E7DD1047, 0x2FDB7246E3A424DC, 0x2C92E006492EEA0A, 0xA92736F180F10A72, 0x25C62534E7DD1047,
     0x2FDB7246E3A424DC, 0x2C92E006492EEA0A, 0xA92736F180F10A72, 0x25C62534E7DD1047, 0x2FC6E48DC74849BA,
     0x2C6700324977504E, 0x2911921CFE1DEB1C, 0x25C62534E7DD1047, 0x2FAB92371D2126E8, 0x2C6700324977504E,
     0x2911921CFE1DEB1C, 0x25C62534E7DD1047, 0x2FAB92371D2126E8, 0x2C6700324977504E, 0x2911921CFE1DEB1C,
     0x25C62534E7DD1047, 0x2F97246E3A424DD2, 0x2C4C00C925DD413A, 0x28D921CFE1DEB1CA, 0x259129A73EE88236,
     0x2F7C91B8E909374C, 0xAC1FF9B6D115F62E, 0xA8BB78C0788538D4, 0x25529A73EE88235F, 0x2F7C91B8E909374C,
     0xAC1FF9B6D115F62E, 0xA8BB78C0788538D4, 0x25529A73EE88235F, 0x2F692371D2126E96, 0x2C200324977504E8,
     0x28D921CFE1DEB1CA, 0x259129A73EE88236, 0x2F5246E3A424DD2E, 0x2B7924BBA8274648, 0x281CFE1DEB1CB12A,
     0xA4B63045DF7282B4, 0x2F22371D2126E970, 0x2B7924BBA8274648, 0x281CFE1DEB1CB12A, 0xA4B63045DF7282B4,
     0x2F22371D2126E970, 0x2B7924BBA8274648, 0x281CFE1DEB1CB12A, 0xA4B63045DF7282B4, 0x2F22371D2126E970,
     0x2B7924BBA8274648, 0x281CFE1DEB1CB12A, 0xA4B63045DF7282B4, 0x2EF1B8E909374B80, 0x2B7924BBA8274648,
     0x281CFE1DEB1CB12A, 0xA4B63045DF7282B4, 0x2EF1B8E909374B80, 0x2B7924BBA8274648, 0x281CFE1DEB1CB12A,
     0xA4B63045DF7282B4, 0x2EF1B8E909374B80, 0x2B7924BBA8274648, 0x281CFE1DEB1CB12A, 0xA4B63045DF7282B4,
     0x2EBB8E909374B802, 0xAB5B6D115F62E6DE, 0xA7E80F10A71A76B2, 0xA498C1177DCA0AD1, 0x2EBB8E909374B802,
     0xAB5B6D115F62E6DE, 0xA7E80F10A71A76B2, 0xA498C1177DCA0AD1, 0x2EBB8E909374B802, 0xAB5B6D115F62E6DE,
     0xA7E80F10A71A76B2, 0xA498C1177DCA0AD1, 0x2EBB8E909374B802, 0xAB5B6D115F62E6DE, 0xA7E80F10A71A76B2,
     0xA498C1177DCA0AD1, 0x2EA71D2126E97002, 0x2B624977504E8C90, 0x281CFE1DEB1CB12A, 0xA4B63045DF7282B4,
     0x2E8C74849BA5C00C, 0x2B324BBA82746486, 0x27F3F877AC72C4A6, 0x24A39F74411AFA97, 0x2E8C74849BA5C00C,
     0x2B324BBA82746486, 0x27F3F877AC72C4A6, 0x24A39F74411AFA97, 0x2E78E909374B8018, 0x2B324BBA82746486,
     0x27F3F877AC72C4A6, 0x24A39F74411AFA97, 0x2E61D2126E970032, 0x2B025DD413A3243A, 0xA75E214E34ED658C,
     0xA3D177DCA0AD144C, 0x2E2D2126E9700324, 0x2AD2EEA09D1921D0, 0xA75E214E34ED658C, 0xA3D177DCA0AD144C,
     0x2E2D2126E9700324, 0x2AD2EEA09D1921D0, 0xA75E214E34ED658C, 0xA3D177DCA0AD144C, 0x2E2D2126E9700324,
     0x2AD2EEA09D1921D0, 0xA75E214E34ED658C, 0xA3D177DCA0AD144C, 0x2E2D2126E9700324, 0x2AD2EEA09D1921D0,
     0xA75E214E34ED658C, 0xA3D177DCA0AD144C, 0x2E1A424DD2E00648, 0x2AD2EEA09D1921D0, 0xA75E214E34ED658C,
     0xA3D177DCA0AD144C, 0x2E04849BA5C00C92, 0x2AA77504E8C90E7E, 0x2760EF58E5894D3A, 0xA3D177DCA0AD144C,
     0x2DE2126E97003248, 0x2AA77504E8C90E7E, 0x2760EF58E5894D3A, 0xA3D177DCA0AD144C, 0x2DE2126E97003248,
     0x2AA77504E8C90E7E, 0x2760EF58E5894D3A, 0xA3D177DCA0AD144C, 0x2DB09374B801924C, 0xAA515F62E6DE301E,
     0xA6E0A71A76B2C608, 0xA3977DCA0AD144BB, 0x2DB09374B801924C, 0xAA515F62E6DE301E, 0xA6E0A71A76B2C608,
     0xA3977DCA0AD144BB, 0x2DB09374B801924C, 0xAA515F62E6DE301E, 0xA6E0A71A76B2C608, 0xA3977DCA0AD144BB,
     0x2D626E9700324976, 0x2A2504E8C90E7F0E, 0x26DEB1CB129A73EE, 0x2381046BEA5D7689, 0x2D626E9700324976,
     0x2A2504E8C90E7F0E, 0x26DEB1CB129A73EE, 0x2381046BEA5D7689, 0x2D626E9700324976, 0x2A2504E8C90E7F0E]"

definition kRempiTab_3 :: "u64 list" where
  "kRempiTab_3 =
    [0x26DEB1CB129A73EE, 0x2381046BEA5D7689, 0x2D626E9700324976, 0x2A2504E8C90E7F0E, 0x26DEB1CB129A73EE,
     0x2381046BEA5D7689, 0x2D626E9700324976, 0x2A2504E8C90E7F0E, 0x26DEB1CB129A73EE, 0x2381046BEA5D7689,
     0x2D3374B801924BBA, 0x29E04E8C90E7F0EE, 0x26A58E5894D39F74, 0x234046BEA5D76891, 0x2D3374B801924BBA,
     0x29E04E8C90E7F0EE, 0x26A58E5894D39F74, 0x234046BEA5D76891, 0x2D3374B801924BBA, 0x29E04E8C90E7F0EE,
     0x26A58E5894D39F74, 0x234046BEA5D76891, 0x2D0BA5C00C925DD4, 0x2983A32439FC3BD6, 0x261CB129A73EE882,
     0x22AAFA975DA24275, 0x2D0BA5C00C925DD4, 0x2983A32439FC3BD6, 0x261CB129A73EE882, 0x22AAFA975DA24275,
     0x2D0BA5C00C925DD4, 0x2983A32439FC3BD6, 0x261CB129A73EE882, 0x22AAFA975DA24275, 0x2CF74B801924BBA8,
     0x2983A32439FC3BD6, 0x261CB129A73EE882, 0x22AAFA975DA24275, 0x2CDD2E006492EEA0, 0x2983A32439FC3BD6,
     0x261CB129A73EE882, 0x22AAFA975DA24275, 0x2CDD2E006492EEA0, 0x2983A32439FC3BD6, 0x261CB129A73EE882,
     0x22AAFA975DA24275, 0x2CCA5C00C925DD40, 0x2983A32439FC3BD6, 0x261CB129A73EE882, 0x22AAFA975DA24275,
     0x2CB4B801924BBA82, 0x295D1921CFE1DEB2, 0xA5EA76B2C608BBEE, 0xA28415A28976F62D, 0x2C92E006492EEA0A,
     0xA92736F180F10A72, 0x25C62534E7DD1046, 0x2277D4BAED1213A6, 0x2C92E006492EEA0A, 0xA92736F180F10A72,
     0x25C62534E7DD1046, 0x2277D4BAED1213A6, 0x2C6700324977504E, 0x2911921CFE1DEB1C, 0x25C62534E7DD1046,
     0x2277D4BAED1213A6, 0x2C6700324977504E, 0x2911921CFE1DEB1C, 0x25C62534E7DD1046, 0x2277D4BAED1213A6,
     0x2C6700324977504E, 0x2911921CFE1DEB1C, 0x25C62534E7DD1046, 0x2277D4BAED1213A6, 0x2C4C00C925DD413A,
     0x28D921CFE1DEB1CA, 0x259129A73EE88236, 0xA205A28976F62CC7, 0x2C4C00C925DD413A, 0x28D921CFE1DEB1CA,
     0x259129A73EE88236, 0xA205A28976F62CC7, 0x2C3801924BBA8274, 0x28D921CFE1DEB1CA, 0x259129A73EE88236,
     0xA205A28976F62CC7, 0x2C200324977504E8, 0x28D921CFE1DEB1CA, 0x259129A73EE88236, 0xA205A28976F62CC7,
     0x2B7924BBA8274648, 0x281CFE1DEB1CB12A, 0xA4B63045DF7282B4, 0xA1544BB7B16638FE, 0x2B7924BBA8274648,
     0x281CFE1DEB1CB12A, 0xA4B63045DF7282B4, 0xA1544BB7B16638FE, 0x2B7924BBA8274648, 0x281CFE1DEB1CB12A,
     0xA4B63045DF7282B4, 0xA1544BB7B16638FE, 0x2B7924BBA8274648, 0x281CFE1DEB1CB12A, 0xA4B63045DF7282B4,
     0xA1544BB7B16638FE, 0x2B7924BBA8274648, 0x281CFE1DEB1CB12A, 0xA4B63045DF7282B4, 0xA1544BB7B16638FE,
     0x2B7924BBA8274648, 0x281CFE1DEB1CB12A, 0xA4B63045DF7282B4, 0xA1544BB7B16638FE, 0x2B7924BBA8274648,
     0x281CFE1DEB1CB12A, 0xA4B63045DF7282B4, 0xA1544BB7B16638FE, 0x2B7924BBA8274648, 0x281CFE1DEB1CB12A,
     0xA4B63045DF7282B4, 0xA1544BB7B16638FE, 0x2B7924BBA8274648, 0x281CFE1DEB1CB12A, 0xA4B63045DF7282B4,
     0xA1544BB7B16638FE, 0x2B7924BBA8274648, 0x281CFE1DEB1CB12A, 0xA4B63045DF7282B4, 0xA1544BB7B16638FE,
     0x2B7924BBA8274648, 0x281CFE1DEB1CB12A, 0xA4B63045DF7282B4, 0xA1544BB7B16638FE, 0x2B624977504E8C90,
     0x281CFE1DEB1CB12A, 0xA4B63045DF7282B4, 0xA1544BB7B16638FE, 0x2B324BBA82746486, 0x27F3F877AC72C4A6,
     0x24A39F74411AFA96, 0x2165DA24274CE381, 0x2B324BBA82746486, 0x27F3F877AC72C4A6, 0x24A39F74411AFA96,
     0x2165DA24274CE381, 0x2B324BBA82746486, 0x27F3F877AC72C4A6, 0x24A39F74411AFA96, 0x2165DA24274CE381,
     0x2B025DD413A3243A, 0xA75E214E34ED658C, 0xA3D177DCA0AD144C, 0x207213A671C09AD1, 0x2B025DD413A3243A,
     0xA75E214E34ED658C, 0xA3D177DCA0AD144C, 0x207213A671C09AD1, 0x2B025DD413A3243A, 0xA75E214E34ED658C,
     0xA3D177DCA0AD144C, 0x207213A671C09AD1, 0x2AD2EEA09D1921D0, 0xA75E214E34ED658C, 0xA3D177DCA0AD144C,
     0x207213A671C09AD1, 0x2AD2EEA09D1921D0, 0xA75E214E34ED658C, 0xA3D177DCA0AD144C, 0x207213A671C09AD1,
     0x2AD2EEA09D1921D0, 0xA75E214E34ED658C, 0xA3D177DCA0AD144C, 0x207213A671C09AD1, 0x2AA77504E8C90E7E,
     0x2760EF58E5894D3A, 0xA3D177DCA0AD144C, 0x207213A671C09AD1, 0x2AA77504E8C90E7E, 0x2760EF58E5894D3A,
     0xA3D177DCA0AD144C, 0x207213A671C09AD1, 0x2AA77504E8C90E7E, 0x2760EF58E5894D3A, 0xA3D177DCA0AD144C,
     0x207213A671C09AD1, 0x2A8DD413A32439FC, 0x271DEB1CB129A73E, 0x23CD1046BEA5D768, 0x207213A671C09AD1,
     0x2A8DD413A32439FC, 0x271DEB1CB129A73E, 0x23CD1046BEA5D768, 0x207213A671C09AD1, 0x2A7BA827464873F8,
     0x271DEB1CB129A73E, 0x23CD1046BEA5D768, 0x207213A671C09AD1, 0x2A67504E8C90E7F0, 0x271DEB1CB129A73E,
     0x23CD1046BEA5D768, 0x207213A671C09AD1, 0x2A4D413A32439FC4, 0xA6E0A71A76B2C608, 0xA3977DCA0AD144BA,
     0xA057B16638FD94BA, 0x2A4D413A32439FC4, 0xA6E0A71A76B2C608, 0xA3977DCA0AD144BA, 0xA057B16638FD94BA,
     0x2A3A827464873F86, 0x26F7AC72C4A69CFC, 0xA3977DCA0AD144BA, 0xA057B16638FD94BA, 0x2A2504E8C90E7F0E,
     0x26DEB1CB129A73EE, 0x2381046BEA5D7688, 0x20409D338E04D68C, 0x2A0413A32439FC3C, 0xA694E34ED658C116,
     0xA357DCA0AD144BB8, 0x1FF3A671C09AD17E, 0x2A0413A32439FC3C, 0xA694E34ED658C116, 0xA357DCA0AD144BB8,
     0x1FF3A671C09AD17E, 0x29E04E8C90E7F0EE, 0x26A58E5894D39F74, 0x234046BEA5D76890, 0x1FF3A671C09AD17E,
     0x29E04E8C90E7F0EE, 0x26A58E5894D39F74, 0x234046BEA5D76890, 0x1FF3A671C09AD17E, 0x2983A32439FC3BD6,
     0x261CB129A73EE882, 0x22AAFA975DA24274, 0x1F59C7026B45F7E4, 0x2983A32439FC3BD6, 0x261CB129A73EE882,
     0x22AAFA975DA24274, 0x1F59C7026B45F7E4, 0x2983A32439FC3BD6, 0x261CB129A73EE882, 0x22AAFA975DA24274,
     0x1F59C7026B45F7E4, 0x2983A32439FC3BD6, 0x261CB129A73EE882, 0x22AAFA975DA24274, 0x1F59C7026B45F7E4,
     0x2983A32439FC3BD6, 0x261CB129A73EE882, 0x22AAFA975DA24274, 0x1F59C7026B45F7E4, 0x2983A32439FC3BD6,
     0x261CB129A73EE882, 0x22AAFA975DA24274, 0x1F59C7026B45F7E4, 0x295D1921CFE1DEB2, 0xA5EA76B2C608BBEE,
     0xA28415A28976F62C, 0x9F38E3F652E82070, 0x295D1921CFE1DEB2, 0xA5EA76B2C608BBEE, 0xA28415A28976F62C,
     0x9F38E3F652E82070, 0x295D1921CFE1DEB2, 0xA5EA76B2C608BBEE, 0xA28415A28976F62C, 0x9F38E3F652E82070,
     0x294A32439FC3BD64, 0xA5EA76B2C608BBEE, 0xA28415A28976F62C, 0x9F38E3F652E82070, 0x293464873F877AC6,
     0x25F2C4A69CFBA208, 0x22AAFA975DA24274, 0x1F59C7026B45F7E4, 0x2911921CFE1DEB1C, 0x25C62534E7DD1046,
     0x2277D4BAED1213A6, 0x1F1C7026B45F7E41, 0x2911921CFE1DEB1C, 0x25C62534E7DD1046, 0x2277D4BAED1213A6,
     0x1F1C7026B45F7E41, 0x28D921CFE1DEB1CA, 0x259129A73EE88236, 0xA205A28976F62CC6, 0x9EC1FB29741037D9,
     0x28D921CFE1DEB1CA, 0x259129A73EE88236, 0xA205A28976F62CC6, 0x9EC1FB29741037D9, 0x28D921CFE1DEB1CA,
     0x259129A73EE88236, 0xA205A28976F62CC6, 0x9EC1FB29741037D9, 0x28D921CFE1DEB1CA, 0x259129A73EE88236,
     0xA205A28976F62CC6, 0x9EC1FB29741037D9, 0x28C2439FC3BD6396, 0x25529A73EE88235E, 0x22152EBB4484E99C,
     0x1EBC09AD17DF904E, 0x28921CFE1DEB1CB0, 0x25529A73EE88235E, 0x22152EBB4484E99C, 0x1EBC09AD17DF904E,
     0x28921CFE1DEB1CB0, 0x25529A73EE88235E, 0x22152EBB4484E99C, 0x1EBC09AD17DF904E, 0x28921CFE1DEB1CB0,
     0x25529A73EE88235E, 0x22152EBB4484E99C, 0x1EBC09AD17DF904E, 0x2860E7F0EF58E588, 0x2524D39F74411AFA,
     0x21D2EBB4484E99C6, 0x1E9026B45F7E413A, 0x2860E7F0EF58E588, 0x2524D39F74411AFA, 0x21D2EBB4484E99C6,
     0x1E9026B45F7E413A, 0x2860E7F0EF58E588, 0x2524D39F74411AFA, 0x21D2EBB4484E99C6, 0x1E9026B45F7E413A,
     0x281CFE1DEB1CB12A, 0xA4B63045DF7282B4, 0xA1544BB7B16638FE, 0x1DFAD17DF904E647, 0x281CFE1DEB1CB12A,
     0xA4B63045DF7282B4, 0xA1544BB7B16638FE, 0x1DFAD17DF904E647, 0x281CFE1DEB1CB12A, 0xA4B63045DF7282B4,
     0xA1544BB7B16638FE, 0x1DFAD17DF904E647, 0x281CFE1DEB1CB12A, 0xA4B63045DF7282B4, 0xA1544BB7B16638FE,
     0x1DFAD17DF904E647, 0x281CFE1DEB1CB12A, 0xA4B63045DF7282B4, 0xA1544BB7B16638FE, 0x1DFAD17DF904E647,
     0x2809FC3BD6396252, 0x24C4E7DD1046BEA6, 0xA1544BB7B16638FE, 0x1DFAD17DF904E647, 0x27F3F877AC72C4A6,
     0x24A39F74411AFA96, 0x2165DA24274CE380, 0x1E235A2FBF209CC9, 0x27CFC3BD63962534, 0x247CFBA208D7D4BA,
     0x212DA24274CE3812, 0x1DE5A2FBF209CC8F, 0x27CFC3BD63962534, 0x247CFBA208D7D4BA, 0x212DA24274CE3812,
     0x1DE5A2FBF209CC8F, 0x27CFC3BD63962534, 0x247CFBA208D7D4BA, 0x212DA24274CE3812, 0x1DE5A2FBF209CC8F,
     0x27BF877AC72C4A6A, 0xA44822EFB9415A28, 0xA0F2EDEC598E3F64, 0x9DB2E8206FB19B8A, 0x27AF0EF58E5894D4,
     0xA44822EFB9415A28, 0xA0F2EDEC598E3F64, 0x9DB2E8206FB19B8A, 0x279E1DEB1CB129A6, 0x2453EE88235F52EC,
     0xA0F2EDEC598E3F64, 0x9DB2E8206FB19B8A, 0x278C3BD63962534E, 0x242F74411AFA975E, 0xA0C76F62CC71FB28,
     0x9D8741037D8CDC54, 0x277877AC72C4A69C, 0x242F74411AFA975E, 0xA0C76F62CC71FB28, 0x9D8741037D8CDC54]"

definition kRempiTab_4 :: "u64 list" where
  "kRempiTab_4 =
    [0x2760EF58E5894D3A, 0xA3D177DCA0AD144C, 0x207213A671C09AD0, 0x1D37DF904E64758E, 0x271DEB1CB129A73E,
     0x23CD1046BEA5D768, 0x207213A671C09AD0, 0x1D37DF904E64758E, 0x271DEB1CB129A73E, 0x23CD1046BEA5D768,
     0x207213A671C09AD0, 0x1D37DF904E64758E, 0x271DEB1CB129A73E, 0x23CD1046BEA5D768, 0x207213A671C09AD0,
     0x1D37DF904E64758E, 0x271DEB1CB129A73E, 0x23CD1046BEA5D768, 0x207213A671C09AD0, 0x1D37DF904E64758E,
     0x271DEB1CB129A73E, 0x23CD1046BEA5D768, 0x207213A671C09AD0, 0x1D37DF904E64758E, 0x270BD63962534E7E,
     0xA3977DCA0AD144BA, 0xA057B16638FD94BA, 0x9CC037D8CDC538D0, 0x26F7AC72C4A69CFC, 0xA3977DCA0AD144BA,
     0xA057B16638FD94BA, 0x9CC037D8CDC538D0, 0x26DEB1CB129A73EE, 0x2381046BEA5D7688, 0x20409D338E04D68C,
     0x9CC037D8CDC538D0, 0x26DEB1CB129A73EE, 0x2381046BEA5D7688, 0x20409D338E04D68C, 0x9CC037D8CDC538D0,
     0x26CD63962534E7DC, 0x2381046BEA5D7688, 0x20409D338E04D68C, 0x9CC037D8CDC538D0, 0x26BAC72C4A69CFBA,
     0x234046BEA5D76890, 0x1FF3A671C09AD17E, 0x9C5BEC66E29C67CB, 0x26A58E5894D39F74, 0x234046BEA5D76890,
     0x1FF3A671C09AD17E, 0x9C5BEC66E29C67CB, 0x26863962534E7DD0, 0x234046BEA5D76890, 0x1FF3A671C09AD17E,
     0x9C5BEC66E29C67CB, 0x26863962534E7DD0, 0x234046BEA5D76890, 0x1FF3A671C09AD17E, 0x9C5BEC66E29C67CB,
     0x2668E5894D39F744, 0x22E1AFA975DA2426, 0x1FA4CE38135A2FBE, 0x1C6209CC8EB1CC1B, 0x2668E5894D39F744,
     0x22E1AFA975DA2426, 0x1FA4CE38135A2FBE, 0x1C6209CC8EB1CC1B, 0x2651CB129A73EE88, 0x22E1AFA975DA2426,
     0x1FA4CE38135A2FBE, 0x1C6209CC8EB1CC1B, 0x261CB129A73EE882, 0x22AAFA975DA24274, 0x1F59C7026B45F7E4,
     0x1BD3991D63983534, 0x261CB129A73EE882, 0x22AAFA975DA24274, 0x1F59C7026B45F7E4, 0x1BD3991D63983534,
     0x261CB129A73EE882, 0x22AAFA975DA24274, 0x1F59C7026B45F7E4, 0x1BD3991D63983534, 0x261CB129A73EE882,
     0x22AAFA975DA24274, 0x1F59C7026B45F7E4, 0x1BD3991D63983534, 0x260962534E7DD104, 0x22AAFA975DA24274,
     0x1F59C7026B45F7E4, 0x1BD3991D63983534, 0x25F2C4A69CFBA208, 0x22AAFA975DA24274, 0x1F59C7026B45F7E4,
     0x1BD3991D63983534, 0x25C62534E7DD1046, 0x2277D4BAED1213A6, 0x1F1C7026B45F7E40, 0x1BD3991D63983534,
     0x25C62534E7DD1046, 0x2277D4BAED1213A6, 0x1F1C7026B45F7E40, 0x1BD3991D63983534, 0x25C62534E7DD1046,
     0x2277D4BAED1213A6, 0x1F1C7026B45F7E40, 0x1BD3991D63983534, 0x25A894D39F74411A, 0x225F52EBB4484E9A,
     0x9EEC7ECA5D040DF6, 0x9B79B8A719F2B318, 0x25A894D39F74411A, 0x225F52EBB4484E9A, 0x9EEC7ECA5D040DF6,
     0x9B79B8A719F2B318, 0x259129A73EE88236, 0xA205A28976F62CC6, 0x9EC1FB29741037D8, 0x9B79B8A719F2B318,
     0x25529A73EE88235E, 0x22152EBB4484E99C, 0x1EBC09AD17DF904E, 0x1B591D639835339F, 0x25529A73EE88235E,
     0x22152EBB4484E99C, 0x1EBC09AD17DF904E, 0x1B591D639835339F, 0x25529A73EE88235E, 0x22152EBB4484E99C,
     0x1EBC09AD17DF904E, 0x1B591D639835339F, 0x25529A73EE88235E, 0x22152EBB4484E99C, 0x1EBC09AD17DF904E,
     0x1B591D639835339F, 0x2524D39F74411AFA, 0x21D2EBB4484E99C6, 0x1E9026B45F7E413A, 0x9B3B8A719F2B3183,
     0x2524D39F74411AFA, 0x21D2EBB4484E99C6, 0x1E9026B45F7E413A, 0x9B3B8A719F2B3183, 0x2524D39F74411AFA,
     0x21D2EBB4484E99C6, 0x1E9026B45F7E413A, 0x9B3B8A719F2B3183, 0x25034E7DD1046BEA, 0x21A75DA24274CE38,
     0x1E235A2FBF209CC8, 0x1ADD639835339F4A, 0x25034E7DD1046BEA, 0x21A75DA24274CE38, 0x1E235A2FBF209CC8,
     0x1ADD639835339F4A, 0x24DA73EE88235F52, 0x218D768909D338E0, 0x1E235A2FBF209CC8, 0x1ADD639835339F4A,
     0x24DA73EE88235F52, 0x218D768909D338E0, 0x1E235A2FBF209CC8, 0x1ADD639835339F4A, 0x24DA73EE88235F52,
     0x218D768909D338E0, 0x1E235A2FBF209CC8, 0x1ADD639835339F4A, 0x24C4E7DD1046BEA6, 0xA1544BB7B16638FE,
     0x1DFAD17DF904E646, 0x1AB58E60D4CE7D27, 0x24A39F74411AFA96, 0x2165DA24274CE380, 0x1E235A2FBF209CC8,
     0x1ADD639835339F4A, 0x24A39F74411AFA96, 0x2165DA24274CE380, 0x1E235A2FBF209CC8, 0x1ADD639835339F4A,
     0x247CFBA208D7D4BA, 0x212DA24274CE3812, 0x1DE5A2FBF209CC8E, 0x1A9639835339F49D, 0x247CFBA208D7D4BA,
     0x212DA24274CE3812, 0x1DE5A2FBF209CC8E, 0x1A9639835339F49D, 0x247CFBA208D7D4BA, 0x212DA24274CE3812,
     0x1DE5A2FBF209CC8E, 0x1A9639835339F49D, 0x2469F74411AFA976, 0xA0F2EDEC598E3F64, 0x9DB2E8206FB19B8A,
     0x9A5C67CACC60B638, 0x2453EE88235F52EC, 0xA0F2EDEC598E3F64, 0x9DB2E8206FB19B8A, 0x9A5C67CACC60B638,
     0x242F74411AFA975E, 0xA0C76F62CC71FB28, 0x9D8741037D8CDC54, 0x1A2CC1A99CFA4E42, 0x242F74411AFA975E,
     0xA0C76F62CC71FB28, 0x9D8741037D8CDC54, 0x1A2CC1A99CFA4E42, 0x242F74411AFA975E, 0xA0C76F62CC71FB28,
     0x9D8741037D8CDC54, 0x1A2CC1A99CFA4E42, 0x241EE88235F52EBA, 0x20D4484E99C7026A, 0x1D945F7E413991D6,
     0x1A2CC1A99CFA4E42, 0x240DD1046BEA5D76, 0x20B1213A671C09AC, 0x1D717DF904E64758, 0x1A2CC1A99CFA4E42,
     0x23FBA208D7D4BAEC, 0x20B1213A671C09AC, 0x1D717DF904E64758, 0x1A2CC1A99CFA4E42, 0x23E74411AFA975DA,
     0x207213A671C09AD0, 0x1D37DF904E64758E, 0x19D835339F49C846, 0x23CD1046BEA5D768, 0x207213A671C09AD0,
     0x1D37DF904E64758E, 0x19D835339F49C846, 0x23CD1046BEA5D768, 0x207213A671C09AD0, 0x1D37DF904E64758E,
     0x19D835339F49C846, 0x23BA208D7D4BAED0, 0x207213A671C09AD0, 0x1D37DF904E64758E, 0x19D835339F49C846,
     0x23A4411AFA975DA2, 0x20409D338E04D68C, 0x9CC037D8CDC538D0, 0x196A99CFA4E422FC, 0x2381046BEA5D7688,
     0x20409D338E04D68C, 0x9CC037D8CDC538D0, 0x196A99CFA4E422FC, 0x2381046BEA5D7688, 0x20409D338E04D68C,
     0x9CC037D8CDC538D0, 0x196A99CFA4E422FC, 0x234046BEA5D76890, 0x1FF3A671C09AD17E, 0x9C5BEC66E29C67CA,
     0x99098C16C6F740E9, 0x234046BEA5D76890, 0x1FF3A671C09AD17E, 0x9C5BEC66E29C67CA, 0x99098C16C6F740E9,
     0x234046BEA5D76890, 0x1FF3A671C09AD17E, 0x9C5BEC66E29C67CA, 0x99098C16C6F740E9, 0x234046BEA5D76890,
     0x1FF3A671C09AD17E, 0x9C5BEC66E29C67CA, 0x99098C16C6F740E9, 0x22E1AFA975DA2426, 0x1FA4CE38135A2FBE,
     0x1C6209CC8EB1CC1A, 0x191339F49C845F8C, 0x22E1AFA975DA2426, 0x1FA4CE38135A2FBE, 0x1C6209CC8EB1CC1A,
     0x191339F49C845F8C, 0x22E1AFA975DA2426, 0x1FA4CE38135A2FBE, 0x1C6209CC8EB1CC1A, 0x191339F49C845F8C,
     0x22E1AFA975DA2426, 0x1FA4CE38135A2FBE, 0x1C6209CC8EB1CC1A, 0x191339F49C845F8C, 0x22E1AFA975DA2426,
     0x1FA4CE38135A2FBE, 0x1C6209CC8EB1CC1A, 0x191339F49C845F8C, 0x22E1AFA975DA2426, 0x1FA4CE38135A2FBE,
     0x1C6209CC8EB1CC1A, 0x191339F49C845F8C, 0x22AAFA975DA24274, 0x1F59C7026B45F7E4, 0x1BD3991D63983534,
     0x98782D8DEE81D108, 0x22AAFA975DA24274, 0x1F59C7026B45F7E4, 0x1BD3991D63983534, 0x98782D8DEE81D108,
     0x22AAFA975DA24274, 0x1F59C7026B45F7E4, 0x1BD3991D63983534, 0x98782D8DEE81D108, 0x22AAFA975DA24274,
     0x1F59C7026B45F7E4, 0x1BD3991D63983534, 0x98782D8DEE81D108, 0x2295F52EBB4484EA, 0x9F38E3F652E82070,
     0x1BD3991D63983534, 0x98782D8DEE81D108, 0x2277D4BAED1213A6, 0x1F1C7026B45F7E40, 0x1BD3991D63983534,
     0x98782D8DEE81D108, 0x2277D4BAED1213A6, 0x1F1C7026B45F7E40, 0x1BD3991D63983534, 0x98782D8DEE81D108,
     0x225F52EBB4484E9A, 0x9EEC7ECA5D040DF6, 0x9B79B8A719F2B318, 0x9806C6F740E8840E, 0x225F52EBB4484E9A,
     0x9EEC7ECA5D040DF6, 0x9B79B8A719F2B318, 0x9806C6F740E8840E, 0x224EA5D768909D34, 0x9EEC7ECA5D040DF6,
     0x9B79B8A719F2B318, 0x9806C6F740E8840E, 0x223D4BAED1213A66, 0x1EF1C09AD17DF904, 0x1BACC8EB1CC1A99C,
     0x185F49C845F8BBE0, 0x222A975DA24274CE, 0x1EBC09AD17DF904E, 0x1B591D639835339E, 0x18149C845F8BBDF9,
     0x22152EBB4484E99C, 0x1EBC09AD17DF904E, 0x1B591D639835339E, 0x18149C845F8BBDF9, 0x21F4BAED1213A672,
     0x9E8FB29741037D8C, 0x9B3B8A719F2B3182, 0x97EB1BDD03A21037, 0x21F4BAED1213A672, 0x9E8FB29741037D8C,
     0x9B3B8A719F2B3182, 0x97EB1BDD03A21037, 0x21D2EBB4484E99C6, 0x1E9026B45F7E413A, 0x9B3B8A719F2B3182,
     0x97EB1BDD03A21037, 0x21D2EBB4484E99C6, 0x1E9026B45F7E413A, 0x9B3B8A719F2B3182, 0x97EB1BDD03A21037,
     0x21A75DA24274CE38, 0x1E235A2FBF209CC8, 0x1ADD639835339F4A, 0x976BDD03A21036BE, 0x21A75DA24274CE38,
     0x1E235A2FBF209CC8, 0x1ADD639835339F4A, 0x976BDD03A21036BE, 0x21A75DA24274CE38, 0x1E235A2FBF209CC8,
     0x1ADD639835339F4A, 0x976BDD03A21036BE, 0x218D768909D338E0, 0x1E235A2FBF209CC8, 0x1ADD639835339F4A,
     0x976BDD03A21036BE, 0x218D768909D338E0, 0x1E235A2FBF209CC8, 0x1ADD639835339F4A, 0x976BDD03A21036BE,
     0x217AED1213A671C0, 0x1E235A2FBF209CC8, 0x1ADD639835339F4A, 0x976BDD03A21036BE, 0x2165DA24274CE380,
     0x1E235A2FBF209CC8, 0x1ADD639835339F4A, 0x976BDD03A21036BE, 0x214768909D338E04, 0x1DFAD17DF904E646]"

definition kRempiTab_5 :: "u64 list" where
  "kRempiTab_5 =
    [0x1AB58E60D4CE7D26, 0x1772117E2EF7E4A1, 0x214768909D338E04, 0x1DFAD17DF904E646, 0x1AB58E60D4CE7D26,
     0x1772117E2EF7E4A1, 0x212DA24274CE3812, 0x1DE5A2FBF209CC8E, 0x1A9639835339F49C, 0x17408BF177BF2507,
     0x212DA24274CE3812, 0x1DE5A2FBF209CC8E, 0x1A9639835339F49C, 0x17408BF177BF2507, 0x211B4484E99C7026,
     0x1DC68BEFC827323A, 0x1A78E60D4CE7D272, 0x16F17E2EF7E4A0EC, 0x21068909D338E04C, 0x1DC68BEFC827323A,
     0x1A78E60D4CE7D272, 0x16F17E2EF7E4A0EC, 0x20EA24274CE38136, 0x9D8741037D8CDC54, 0x1A2CC1A99CFA4E42,
     0x16B7E2EF7E4A0EC8, 0x20EA24274CE38136, 0x9D8741037D8CDC54, 0x1A2CC1A99CFA4E42, 0x16B7E2EF7E4A0EC8,
     0x20D4484E99C7026A, 0x1D945F7E413991D6, 0x1A2CC1A99CFA4E42, 0x16B7E2EF7E4A0EC8, 0x20B1213A671C09AC,
     0x1D717DF904E64758, 0x1A2CC1A99CFA4E42, 0x16B7E2EF7E4A0EC8, 0x20B1213A671C09AC, 0x1D717DF904E64758,
     0x1A2CC1A99CFA4E42, 0x16B7E2EF7E4A0EC8, 0x207213A671C09AD0, 0x1D37DF904E64758E, 0x19D835339F49C846,
     0x963D1081B5F13802, 0x207213A671C09AD0, 0x1D37DF904E64758E, 0x19D835339F49C846, 0x963D1081B5F13802,
     0x207213A671C09AD0, 0x1D37DF904E64758E, 0x19D835339F49C846, 0x963D1081B5F13802, 0x207213A671C09AD0,
     0x1D37DF904E64758E, 0x19D835339F49C846, 0x963D1081B5F13802, 0x20409D338E04D68C, 0x9CC037D8CDC538D0,
     0x196A99CFA4E422FC, 0x16077BF250763FF1, 0x20409D338E04D68C, 0x9CC037D8CDC538D0, 0x196A99CFA4E422FC,
     0x16077BF250763FF1, 0x20409D338E04D68C, 0x9CC037D8CDC538D0, 0x196A99CFA4E422FC, 0x16077BF250763FF1,
     0x1FF3A671C09AD17E, 0x9C5BEC66E29C67CA, 0x99098C16C6F740E8, 0x95B081B5F13801DA, 0x1FF3A671C09AD17E,
     0x9C5BEC66E29C67CA, 0x99098C16C6F740E8, 0x95B081B5F13801DA, 0x1FF3A671C09AD17E, 0x9C5BEC66E29C67CA,
     0x99098C16C6F740E8, 0x95B081B5F13801DA, 0x1FF3A671C09AD17E, 0x9C5BEC66E29C67CA, 0x99098C16C6F740E8,
     0x95B081B5F13801DA, 0x1FF3A671C09AD17E, 0x9C5BEC66E29C67CA, 0x99098C16C6F740E8, 0x95B081B5F13801DA,
     0x1FCD338E04D68BF0, 0x9C5BEC66E29C67CA, 0x99098C16C6F740E8, 0x95B081B5F13801DA, 0x1FCD338E04D68BF0,
     0x9C5BEC66E29C67CA, 0x99098C16C6F740E8, 0x95B081B5F13801DA, 0x1FCD338E04D68BF0, 0x9C5BEC66E29C67CA,
     0x99098C16C6F740E8, 0x95B081B5F13801DA, 0x1FBA671C09AD17E0, 0x9C5BEC66E29C67CA, 0x99098C16C6F740E8,
     0x95B081B5F13801DA, 0x1FA4CE38135A2FBE, 0x1C6209CC8EB1CC1A, 0x191339F49C845F8C, 0x95B081B5F13801DA,
     0x1F8338E04D68BEFC, 0x1C304E64758E60D4, 0x18E9CFA4E422FC5E, 0x956036BE27003B40, 0x1F8338E04D68BEFC,
     0x1C304E64758E60D4, 0x18E9CFA4E422FC5E, 0x956036BE27003B40, 0x1F59C7026B45F7E4, 0x1BD3991D63983534,
     0x98782D8DEE81D108, 0x94FB5F13801DA001, 0x1F59C7026B45F7E4, 0x1BD3991D63983534, 0x98782D8DEE81D108,
     0x94FB5F13801DA001, 0x1F59C7026B45F7E4, 0x1BD3991D63983534, 0x98782D8DEE81D108, 0x94FB5F13801DA001,
     0x1F438E04D68BEFC8, 0x1BD3991D63983534, 0x98782D8DEE81D108, 0x94FB5F13801DA001, 0x1F1C7026B45F7E40,
     0x1BD3991D63983534, 0x98782D8DEE81D108, 0x94FB5F13801DA001, 0x1F1C7026B45F7E40, 0x1BD3991D63983534,
     0x98782D8DEE81D108, 0x94FB5F13801DA001, 0x1F1C7026B45F7E40, 0x1BD3991D63983534, 0x98782D8DEE81D108,
     0x94FB5F13801DA001, 0x1F08E04D68BEFC82, 0x1BACC8EB1CC1A99C, 0x185F49C845F8BBE0, 0x94FB5F13801DA001,
     0x1EF1C09AD17DF904, 0x1BACC8EB1CC1A99C, 0x185F49C845F8BBE0, 0x94FB5F13801DA001, 0x1EBC09AD17DF904E,
     0x1B591D639835339E, 0x18149C845F8BBDF8, 0x14D283B1FF897FFE, 0x1EBC09AD17DF904E, 0x1B591D639835339E,
     0x18149C845F8BBDF8, 0x14D283B1FF897FFE, 0x1EBC09AD17DF904E, 0x1B591D639835339E, 0x18149C845F8BBDF8,
     0x14D283B1FF897FFE, 0x1EBC09AD17DF904E, 0x1B591D639835339E, 0x18149C845F8BBDF8, 0x14D283B1FF897FFE,
     0x1EA8135A2FBF209C, 0x1B591D639835339E, 0x18149C845F8BBDF8, 0x14D283B1FF897FFE, 0x1E9026B45F7E413A,
     0x9B3B8A719F2B3182, 0x97EB1BDD03A21036, 0x9497C4E007680022, 0x1E235A2FBF209CC8, 0x1ADD639835339F4A,
     0x976BDD03A21036BE, 0x93F3801DA00087EA, 0x1E235A2FBF209CC8, 0x1ADD639835339F4A, 0x976BDD03A21036BE,
     0x93F3801DA00087EA, 0x1E235A2FBF209CC8, 0x1ADD639835339F4A, 0x976BDD03A21036BE, 0x93F3801DA00087EA,
     0x1E235A2FBF209CC8, 0x1ADD639835339F4A, 0x976BDD03A21036BE, 0x93F3801DA00087EA, 0x1E235A2FBF209CC8,
     0x1ADD639835339F4A, 0x976BDD03A21036BE, 0x93F3801DA00087EA, 0x1E235A2FBF209CC8, 0x1ADD639835339F4A,
     0x976BDD03A21036BE, 0x93F3801DA00087EA, 0x1E235A2FBF209CC8, 0x1ADD639835339F4A, 0x976BDD03A21036BE,
     0x93F3801DA00087EA, 0x1DFAD17DF904E646, 0x1AB58E60D4CE7D26, 0x1772117E2EF7E4A0, 0x142D8FFC4BFFEF03,
     0x1DFAD17DF904E646, 0x1AB58E60D4CE7D26, 0x1772117E2EF7E4A0, 0x142D8FFC4BFFEF03, 0x1DFAD17DF904E646,
     0x1AB58E60D4CE7D26, 0x1772117E2EF7E4A0, 0x142D8FFC4BFFEF03, 0x1DE5A2FBF209CC8E, 0x1A9639835339F49C,
     0x17408BF177BF2506, 0x14063FF12FFFBC0B, 0x1DC68BEFC827323A, 0x1A78E60D4CE7D272, 0x16F17E2EF7E4A0EC,
     0x139FF897FFDE0598, 0x1DC68BEFC827323A, 0x1A78E60D4CE7D272, 0x16F17E2EF7E4A0EC, 0x139FF897FFDE0598,
     0x1DAA2FBF209CC8EA, 0x1A61CC1A99CFA4E4, 0x16F17E2EF7E4A0EC, 0x139FF897FFDE0598, 0x1DAA2FBF209CC8EA,
     0x1A61CC1A99CFA4E4, 0x16F17E2EF7E4A0EC, 0x139FF897FFDE0598, 0x1D945F7E413991D6, 0x1A2CC1A99CFA4E42,
     0x16B7E2EF7E4A0EC8, 0x92FDA00087E99FC0, 0x1D717DF904E64758, 0x1A2CC1A99CFA4E42, 0x16B7E2EF7E4A0EC8,
     0x92FDA00087E99FC0, 0x1D717DF904E64758, 0x1A2CC1A99CFA4E42, 0x16B7E2EF7E4A0EC8, 0x92FDA00087E99FC0,
     0x1D37DF904E64758E, 0x19D835339F49C846, 0x963D1081B5F13802, 0x12C2FFFBC0B301FE, 0x1D37DF904E64758E,
     0x19D835339F49C846, 0x963D1081B5F13802, 0x12C2FFFBC0B301FE, 0x1D37DF904E64758E, 0x19D835339F49C846,
     0x963D1081B5F13802, 0x12C2FFFBC0B301FE, 0x1D37DF904E64758E, 0x19D835339F49C846, 0x963D1081B5F13802,
     0x12C2FFFBC0B301FE, 0x1D1F7E413991D63A, 0x99BF2B3182D8DEE8, 0x963D1081B5F13802, 0x12C2FFFBC0B301FE,
     0x1D1F7E413991D63A, 0x99BF2B3182D8DEE8, 0x963D1081B5F13802, 0x12C2FFFBC0B301FE, 0x1D0EFC827323AC72,
     0x19C06A673E93908C, 0x963D1081B5F13802, 0x12C2FFFBC0B301FE, 0x1CFDF904E64758E6, 0x196A99CFA4E422FC,
     0x16077BF250763FF0, 0x12C2FFFBC0B301FE, 0x1CEBF209CC8EB1CC, 0x196A99CFA4E422FC, 0x16077BF250763FF0,
     0x12C2FFFBC0B301FE, 0x1CD7E413991D6398, 0x196A99CFA4E422FC, 0x16077BF250763FF0, 0x12C2FFFBC0B301FE,
     0x1CBF904E64758E60, 0x196A99CFA4E422FC, 0x16077BF250763FF0, 0x12C2FFFBC0B301FE, 0x1CBF904E64758E60,
     0x196A99CFA4E422FC, 0x16077BF250763FF0, 0x12C2FFFBC0B301FE, 0x1CAF209CC8EB1CC2, 0x994598C16C6F740E,
     0x95F1081B5F13801E, 0x1297FFDE05980FEF, 0x1C9E413991D63982, 0x1955339F49C845F8, 0x16077BF250763FF0,
     0x12C2FFFBC0B301FE, 0x1C8C827323AC7306, 0x1934CE7D272117E2, 0x15EDEFC941D8FFC4, 0x1297FFDE05980FEF,
     0x1C7904E64758E60C, 0x1934CE7D272117E2, 0x15EDEFC941D8FFC4, 0x1297FFDE05980FEF, 0x1C6209CC8EB1CC1A,
     0x191339F49C845F8C, 0x95B081B5F13801DA, 0x91A0FD33F8086877, 0x1C304E64758E60D4, 0x18E9CFA4E422FC5E,
     0x956036BE27003B40, 0x91A0FD33F8086877, 0x1C304E64758E60D4, 0x18E9CFA4E422FC5E, 0x956036BE27003B40,
     0x91A0FD33F8086877, 0x1C304E64758E60D4, 0x18E9CFA4E422FC5E, 0x956036BE27003B40, 0x91A0FD33F8086877,
     0x1BD3991D63983534, 0x98782D8DEE81D108, 0x94FB5F13801DA000, 0x91A0FD33F8086877, 0x1BD3991D63983534,
     0x98782D8DEE81D108, 0x94FB5F13801DA000, 0x91A0FD33F8086877, 0x1BD3991D63983534, 0x98782D8DEE81D108,
     0x94FB5F13801DA000, 0x91A0FD33F8086877, 0x1BD3991D63983534, 0x98782D8DEE81D108, 0x94FB5F13801DA000,
     0x91A0FD33F8086877, 0x1BD3991D63983534, 0x98782D8DEE81D108, 0x94FB5F13801DA000, 0x91A0FD33F8086877,
     0x1BD3991D63983534, 0x98782D8DEE81D108, 0x94FB5F13801DA000, 0x91A0FD33F8086877, 0x1BACC8EB1CC1A99C,
     0x185F49C845F8BBE0, 0x94FB5F13801DA000, 0x91A0FD33F8086877, 0x1BACC8EB1CC1A99C, 0x185F49C845F8BBE0,
     0x94FB5F13801DA000, 0x91A0FD33F8086877, 0x1BACC8EB1CC1A99C, 0x185F49C845F8BBE0, 0x94FB5F13801DA000,
     0x91A0FD33F8086877, 0x1B9991D63983533A, 0x9806C6F740E8840E, 0x14A41D8FFC4BFFEE, 0x11602CC07F79788C,
     0x1B8323AC7306A674, 0x9806C6F740E8840E, 0x14A41D8FFC4BFFEE, 0x11602CC07F79788C, 0x1B591D639835339E,
     0x18149C845F8BBDF8, 0x14D283B1FF897FFE, 0x915FA67F010D0EE7, 0x1B591D639835339E, 0x18149C845F8BBDF8,
     0x14D283B1FF897FFE, 0x915FA67F010D0EE7, 0x1B591D639835339E, 0x18149C845F8BBDF8, 0x14D283B1FF897FFE,
     0x915FA67F010D0EE7, 0x1B423AC7306A673E, 0x17F272117E2EF7E4, 0x14A41D8FFC4BFFEE, 0x11602CC07F79788C]"

definition kRempiTab_6 :: "u64 list" where
  "kRempiTab_6 =
    [0x1B11D639835339F4, 0x17C3908BF177BF24, 0x1480763FF12FFFBC, 0x10F6603FBCBC462D, 0x1B11D639835339F4,
     0x17C3908BF177BF24, 0x1480763FF12FFFBC, 0x10F6603FBCBC462D, 0x1B11D639835339F4, 0x17C3908BF177BF24,
     0x1480763FF12FFFBC, 0x10F6603FBCBC462D, 0x1ADD639835339F4A, 0x976BDD03A21036BE, 0x93F3801DA00087EA,
     0x10980FEF2F118B5A, 0x1ADD639835339F4A, 0x976BDD03A21036BE, 0x93F3801DA00087EA, 0x10980FEF2F118B5A,
     0x1ADD639835339F4A, 0x976BDD03A21036BE, 0x93F3801DA00087EA, 0x10980FEF2F118B5A, 0x1ADD639835339F4A,
     0x976BDD03A21036BE, 0x93F3801DA00087EA, 0x10980FEF2F118B5A, 0x1ACAC7306A673E94, 0x976BDD03A21036BE,
     0x93F3801DA00087EA, 0x10980FEF2F118B5A, 0x1AB58E60D4CE7D26, 0x1772117E2EF7E4A0, 0x142D8FFC4BFFEF02,
     0x10D980FEF2F118B6, 0x1A9639835339F49C, 0x17408BF177BF2506, 0x14063FF12FFFBC0A, 0x10C301FDE5E2316B,
     0x1A9639835339F49C, 0x17408BF177BF2506, 0x14063FF12FFFBC0A, 0x10C301FDE5E2316B, 0x1A78E60D4CE7D272,
     0x16F17E2EF7E4A0EC, 0x139FF897FFDE0598, 0x100FDE5E2316B415, 0x1A78E60D4CE7D272, 0x16F17E2EF7E4A0EC,
     0x139FF897FFDE0598, 0x100FDE5E2316B415, 0x1A61CC1A99CFA4E4, 0x16F17E2EF7E4A0EC, 0x139FF897FFDE0598,
     0x100FDE5E2316B415, 0x1A2CC1A99CFA4E42, 0x16B7E2EF7E4A0EC8, 0x92FDA00087E99FC0, 0x8F90D0EE74A5F593,
     0x1A2CC1A99CFA4E42, 0x16B7E2EF7E4A0EC8, 0x92FDA00087E99FC0, 0x8F90D0EE74A5F593, 0x1A2CC1A99CFA4E42,
     0x16B7E2EF7E4A0EC8, 0x92FDA00087E99FC0, 0x8F90D0EE74A5F593, 0x1A2CC1A99CFA4E42, 0x16B7E2EF7E4A0EC8,
     0x92FDA00087E99FC0, 0x8F90D0EE74A5F593, 0x1A19835339F49C84, 0x16B7E2EF7E4A0EC8, 0x92FDA00087E99FC0,
     0x8F90D0EE74A5F593, 0x1A0306A673E93908, 0x16B7E2EF7E4A0EC8, 0x92FDA00087E99FC0, 0x8F90D0EE74A5F593,
     0x19D835339F49C846, 0x963D1081B5F13802, 0x12C2FFFBC0B301FE, 0x8F4A1DCE94BEB25C, 0x19D835339F49C846,
     0x963D1081B5F13802, 0x12C2FFFBC0B301FE, 0x8F4A1DCE94BEB25C, 0x19D835339F49C846, 0x963D1081B5F13802,
     0x12C2FFFBC0B301FE, 0x8F4A1DCE94BEB25C, 0x19C06A673E93908C, 0x963D1081B5F13802, 0x12C2FFFBC0B301FE,
     0x8F4A1DCE94BEB25C, 0x196A99CFA4E422FC, 0x16077BF250763FF0, 0x12C2FFFBC0B301FE, 0x8F4A1DCE94BEB25C,
     0x196A99CFA4E422FC, 0x16077BF250763FF0, 0x12C2FFFBC0B301FE, 0x8F4A1DCE94BEB25C, 0x196A99CFA4E422FC,
     0x16077BF250763FF0, 0x12C2FFFBC0B301FE, 0x8F4A1DCE94BEB25C, 0x196A99CFA4E422FC, 0x16077BF250763FF0,
     0x12C2FFFBC0B301FE, 0x8F4A1DCE94BEB25C, 0x196A99CFA4E422FC, 0x16077BF250763FF0, 0x12C2FFFBC0B301FE,
     0x8F4A1DCE94BEB25C, 0x196A99CFA4E422FC, 0x16077BF250763FF0, 0x12C2FFFBC0B301FE, 0x8F4A1DCE94BEB25C,
     0x1955339F49C845F8, 0x16077BF250763FF0, 0x12C2FFFBC0B301FE, 0x8F4A1DCE94BEB25C, 0x1934CE7D272117E2,
     0x15EDEFC941D8FFC4, 0x1297FFDE05980FEE, 0x0F52F118B5A0A6D2, 0x1934CE7D272117E2, 0x15EDEFC941D8FFC4,
     0x1297FFDE05980FEE, 0x0F52F118B5A0A6D2, 0x191339F49C845F8C, 0x95B081B5F13801DA, 0x91A0FD33F8086876,
     0x8E63A52FAC970496, 0x191339F49C845F8C, 0x95B081B5F13801DA, 0x91A0FD33F8086876, 0x8E63A52FAC970496,
     0x18E9CFA4E422FC5E, 0x956036BE27003B40, 0x91A0FD33F8086876, 0x8E63A52FAC970496, 0x18E9CFA4E422FC5E,
     0x956036BE27003B40, 0x91A0FD33F8086876, 0x8E63A52FAC970496, 0x18E9CFA4E422FC5E, 0x956036BE27003B40,
     0x91A0FD33F8086876, 0x8E63A52FAC970496, 0x18D39F49C845F8BC, 0x956036BE27003B40, 0x91A0FD33F8086876,
     0x8E63A52FAC970496, 0x18ACFA4E422FC5DE, 0x155F9283B1FF8980, 0x91A0FD33F8086876, 0x8E63A52FAC970496,
     0x18ACFA4E422FC5DE, 0x155F9283B1FF8980, 0x91A0FD33F8086876, 0x8E63A52FAC970496, 0x18ACFA4E422FC5DE,
     0x155F9283B1FF8980, 0x91A0FD33F8086876, 0x8E63A52FAC970496, 0x1899F49C845F8BBE, 0x94FB5F13801DA000,
     0x91A0FD33F8086876, 0x8E63A52FAC970496, 0x1883E93908BF177C, 0x94FB5F13801DA000, 0x91A0FD33F8086876,
     0x8E63A52FAC970496, 0x185F49C845F8BBE0, 0x94FB5F13801DA000, 0x91A0FD33F8086876, 0x8E63A52FAC970496,
     0x185F49C845F8BBE0, 0x94FB5F13801DA000, 0x91A0FD33F8086876, 0x8E63A52FAC970496, 0x185F49C845F8BBE0,
     0x94FB5F13801DA000, 0x91A0FD33F8086876, 0x8E63A52FAC970496, 0x184E93908BF177BE, 0x150250763FF13000,
     0x91A0FD33F8086876, 0x8E63A52FAC970496, 0x183D272117E2EF7E, 0x14D283B1FF897FFE, 0x915FA67F010D0EE6,
     0x8E14A5F592E092CA, 0x182A4E422FC5DEFC, 0x14D283B1FF897FFE, 0x915FA67F010D0EE6, 0x8E14A5F592E092CA,
     0x18149C845F8BBDF8, 0x14D283B1FF897FFE, 0x915FA67F010D0EE6, 0x8E14A5F592E092CA, 0x17F272117E2EF7E4,
     0x14A41D8FFC4BFFEE, 0x11602CC07F79788C, 0x0E06B414DA3EDA6D, 0x17F272117E2EF7E4, 0x14A41D8FFC4BFFEE,
     0x11602CC07F79788C, 0x0E06B414DA3EDA6D, 0x17C3908BF177BF24, 0x1480763FF12FFFBC, 0x10F6603FBCBC462C,
     0x0DB6829B47DB4DA0, 0x17C3908BF177BF24, 0x1480763FF12FFFBC, 0x10F6603FBCBC462C, 0x0DB6829B47DB4DA0,
     0x17C3908BF177BF24, 0x1480763FF12FFFBC, 0x10F6603FBCBC462C, 0x0DB6829B47DB4DA0, 0x179C845F8BBDF928,
     0x142D8FFC4BFFEF02, 0x10D980FEF2F118B6, 0x8D77D64B824B2605, 0x179C845F8BBDF928, 0x142D8FFC4BFFEF02,
     0x10D980FEF2F118B6, 0x8D77D64B824B2605, 0x179C845F8BBDF928, 0x142D8FFC4BFFEF02, 0x10D980FEF2F118B6,
     0x8D77D64B824B2605, 0x178908BF177BF250, 0x142D8FFC4BFFEF02, 0x10D980FEF2F118B6, 0x8D77D64B824B2605,
     0x1772117E2EF7E4A0, 0x142D8FFC4BFFEF02, 0x10D980FEF2F118B6, 0x8D77D64B824B2605, 0x1B408BF177BF2506,
     0x18063FF12FFFBC0A, 0x14C301FDE5E2316A, 0x118414DA3EDA6CFE, 0x1B408BF177BF2506, 0x18063FF12FFFBC0A,
     0x14C301FDE5E2316A, 0x118414DA3EDA6CFE, 0x1B408BF177BF2506, 0x18063FF12FFFBC0A, 0x14C301FDE5E2316A,
     0x118414DA3EDA6CFE, 0x1AF17E2EF7E4A0EC, 0x179FF897FFDE0598, 0x140FDE5E2316B414, 0x10BB47DB4D9FB3CA,
     0x1AF17E2EF7E4A0EC, 0x179FF897FFDE0598, 0x140FDE5E2316B414, 0x10BB47DB4D9FB3CA, 0x1AF17E2EF7E4A0EC,
     0x179FF897FFDE0598, 0x140FDE5E2316B414, 0x10BB47DB4D9FB3CA, 0x1AF17E2EF7E4A0EC, 0x179FF897FFDE0598,
     0x140FDE5E2316B414, 0x10BB47DB4D9FB3CA, 0x1AF17E2EF7E4A0EC, 0x179FF897FFDE0598, 0x140FDE5E2316B414,
     0x10BB47DB4D9FB3CA, 0x1AB7E2EF7E4A0EC8, 0x96FDA00087E99FC0, 0x9390D0EE74A5F592, 0x904C125930261B07,
     0x1AB7E2EF7E4A0EC8, 0x96FDA00087E99FC0, 0x9390D0EE74A5F592, 0x904C125930261B07, 0x1AB7E2EF7E4A0EC8,
     0x96FDA00087E99FC0, 0x9390D0EE74A5F592, 0x904C125930261B07, 0x1AB7E2EF7E4A0EC8, 0x96FDA00087E99FC0,
     0x9390D0EE74A5F592, 0x904C125930261B07, 0x1A9F8BBDF9283B20, 0x96FDA00087E99FC0, 0x9390D0EE74A5F592,
     0x904C125930261B07, 0x1A9F8BBDF9283B20, 0x96FDA00087E99FC0, 0x9390D0EE74A5F592, 0x904C125930261B07,
     0x1A8F177BF2507640, 0x96FDA00087E99FC0, 0x9390D0EE74A5F592, 0x904C125930261B07, 0x1A7E2EF7E4A0EC80,
     0x96FDA00087E99FC0, 0x9390D0EE74A5F592, 0x904C125930261B07, 0x1A6C5DEFC941D900, 0x96FDA00087E99FC0,
     0x9390D0EE74A5F592, 0x904C125930261B07, 0x1A58BBDF9283B200, 0x96FDA00087E99FC0, 0x9390D0EE74A5F592,
     0x904C125930261B07, 0x1A4177BF250763FE, 0x17012FFFBC0B3020, 0x9390D0EE74A5F592, 0x904C125930261B07,
     0x1A077BF250763FF0, 0x16C2FFFBC0B301FE, 0x934A1DCE94BEB25C, 0x8FC25930261B069F, 0x1A077BF250763FF0,
     0x16C2FFFBC0B301FE, 0x934A1DCE94BEB25C, 0x8FC25930261B069F, 0x1A077BF250763FF0, 0x16C2FFFBC0B301FE,
     0x934A1DCE94BEB25C, 0x8FC25930261B069F, 0x1A077BF250763FF0, 0x16C2FFFBC0B301FE, 0x934A1DCE94BEB25C,
     0x8FC25930261B069F, 0x19EDEFC941D8FFC4, 0x1697FFDE05980FEE, 0x1352F118B5A0A6D2, 0x8FC25930261B069F,
     0x19EDEFC941D8FFC4, 0x1697FFDE05980FEE, 0x1352F118B5A0A6D2, 0x8FC25930261B069F, 0x19DBDF9283B1FF88,
     0x1697FFDE05980FEE, 0x1352F118B5A0A6D2, 0x8FC25930261B069F, 0x19C7BF250763FF12, 0x167FFF7816603FBC,
     0x132788C5AD053690, 0x8FC25930261B069F, 0x19AEFC941D8FFC4C, 0x95A0FD33F8086876, 0x9263A52FAC970496,
     0x8F030261B069EC91, 0x19AEFC941D8FFC4C, 0x95A0FD33F8086876, 0x9263A52FAC970496, 0x8F030261B069EC91,
     0x199DF9283B1FF898, 0x95A0FD33F8086876, 0x9263A52FAC970496, 0x8F030261B069EC91, 0x198BF250763FF130,
     0x95A0FD33F8086876, 0x9263A52FAC970496, 0x8F030261B069EC91, 0x1977E4A0EC7FE260, 0x95A0FD33F8086876,
     0x9263A52FAC970496, 0x8F030261B069EC91, 0x195F9283B1FF8980, 0x95A0FD33F8086876, 0x9263A52FAC970496,
     0x8F030261B069EC91, 0x195F9283B1FF8980, 0x95A0FD33F8086876, 0x9263A52FAC970496, 0x8F030261B069EC91,
     0x194F250763FF1300, 0x95A0FD33F8086876, 0x9263A52FAC970496, 0x8F030261B069EC91, 0x193E4A0EC7FE2600,
     0x95A0FD33F8086876, 0x9263A52FAC970496, 0x8F030261B069EC91, 0x192C941D8FFC4C00, 0x95A0FD33F8086876]"

definition kRempiTab_7 :: "u64 list" where
  "kRempiTab_7 =
    [0x9263A52FAC970496, 0x8F030261B069EC91, 0x1919283B1FF89800, 0x95A0FD33F8086876, 0x9263A52FAC970496,
     0x8F030261B069EC91, 0x190250763FF13000, 0x95A0FD33F8086876, 0x9263A52FAC970496, 0x8F030261B069EC91,
     0x18D283B1FF897FFE, 0x955FA67F010D0EE6, 0x9214A5F592E092CA, 0x0EBFB3C9F2C26DD4, 0x18D283B1FF897FFE,
     0x955FA67F010D0EE6, 0x9214A5F592E092CA, 0x0EBFB3C9F2C26DD4, 0x18D283B1FF897FFE, 0x955FA67F010D0EE6,
     0x9214A5F592E092CA, 0x0EBFB3C9F2C26DD4, 0x18A41D8FFC4BFFEE, 0x15602CC07F79788C, 0x1206B414DA3EDA6C,
     0x0EBFB3C9F2C26DD4, 0x18A41D8FFC4BFFEE, 0x15602CC07F79788C, 0x1206B414DA3EDA6C, 0x0EBFB3C9F2C26DD4,
     0x18A41D8FFC4BFFEE, 0x15602CC07F79788C, 0x1206B414DA3EDA6C, 0x0EBFB3C9F2C26DD4, 0x1880763FF12FFFBC,
     0x14F6603FBCBC462C, 0x11B6829B47DB4DA0, 0x8E530D834F648B0C, 0x1880763FF12FFFBC, 0x14F6603FBCBC462C,
     0x11B6829B47DB4DA0, 0x8E530D834F648B0C, 0x182D8FFC4BFFEF02, 0x14D980FEF2F118B6, 0x9177D64B824B2604,
     0x8E286C1A7B24585D, 0x182D8FFC4BFFEF02, 0x14D980FEF2F118B6, 0x9177D64B824B2604, 0x8E286C1A7B24585D,
     0x182D8FFC4BFFEF02, 0x14D980FEF2F118B6, 0x9177D64B824B2604, 0x8E286C1A7B24585D, 0x182D8FFC4BFFEF02,
     0x14D980FEF2F118B6, 0x9177D64B824B2604, 0x8E286C1A7B24585D, 0x182D8FFC4BFFEF02, 0x14D980FEF2F118B6,
     0x9177D64B824B2604, 0x8E286C1A7B24585D, 0x182D8FFC4BFFEF02, 0x14D980FEF2F118B6, 0x9177D64B824B2604,
     0x8E286C1A7B24585D, 0x181B1FF897FFDE06, 0x94B9FC04343B9D28, 0x9177D64B824B2604, 0x8E286C1A7B24585D,
     0x18063FF12FFFBC0A, 0x14C301FDE5E2316A, 0x118414DA3EDA6CFE, 0x8E286C1A7B24585D, 0x17E8FFC4BFFEF02C,
     0x14980FEF2F118B5A, 0x1104DA3EDA6CFD9E, 0x0DA3E584DBA7A320, 0x17E8FFC4BFFEF02C, 0x14980FEF2F118B5A,
     0x1104DA3EDA6CFD9E, 0x0DA3E584DBA7A320, 0x17D1FF897FFDE05A, 0x947FC04343B9D298, 0x1104DA3EDA6CFD9E,
     0x0DA3E584DBA7A320, 0x179FF897FFDE0598, 0x140FDE5E2316B414, 0x10BB47DB4D9FB3CA, 0x8D2A7B24585CE04D,
     0x179FF897FFDE0598, 0x140FDE5E2316B414, 0x10BB47DB4D9FB3CA, 0x8D2A7B24585CE04D, 0x179FF897FFDE0598,
     0x140FDE5E2316B414, 0x10BB47DB4D9FB3CA, 0x8D2A7B24585CE04D, 0x179FF897FFDE0598, 0x140FDE5E2316B414,
     0x10BB47DB4D9FB3CA, 0x8D2A7B24585CE04D, 0x178FF12FFFBC0B30, 0x140FDE5E2316B414, 0x10BB47DB4D9FB3CA,
     0x8D2A7B24585CE04D, 0x177FE25FFF781660, 0x140FDE5E2316B414, 0x10BB47DB4D9FB3CA, 0x8D2A7B24585CE04D,
     0x176FC4BFFEF02CC0, 0x140FDE5E2316B414, 0x10BB47DB4D9FB3CA, 0x8D2A7B24585CE04D, 0x175F897FFDE05980,
     0x140FDE5E2316B414, 0x10BB47DB4D9FB3CA, 0x8D2A7B24585CE04D, 0x174F12FFFBC0B302, 0x9390D0EE74A5F592,
     0x904C125930261B06, 0x8CF3D922C2E70266, 0x173E25FFF7816604, 0x9390D0EE74A5F592, 0x904C125930261B06,
     0x8CF3D922C2E70266, 0x172C4BFFEF02CC08, 0x9390D0EE74A5F592, 0x904C125930261B06, 0x8CF3D922C2E70266,
     0x171897FFDE059810, 0x9390D0EE74A5F592, 0x904C125930261B06, 0x8CF3D922C2E70266, 0x17012FFFBC0B3020,
     0x9390D0EE74A5F592, 0x904C125930261B06, 0x8CF3D922C2E70266, 0x16C2FFFBC0B301FE, 0x934A1DCE94BEB25C,
     0x8FC25930261B069E, 0x8C7922C2E7026587, 0x16C2FFFBC0B301FE, 0x934A1DCE94BEB25C, 0x8FC25930261B069E,
     0x8C7922C2E7026587, 0x16C2FFFBC0B301FE, 0x934A1DCE94BEB25C, 0x8FC25930261B069E, 0x8C7922C2E7026587,
     0x16C2FFFBC0B301FE, 0x934A1DCE94BEB25C, 0x8FC25930261B069E, 0x8C7922C2E7026587, 0x1697FFDE05980FEE,
     0x1352F118B5A0A6D2, 0x8FC25930261B069E, 0x8C7922C2E7026587, 0x1697FFDE05980FEE, 0x1352F118B5A0A6D2,
     0x8FC25930261B069E, 0x8C7922C2E7026587, 0x1697FFDE05980FEE, 0x1352F118B5A0A6D2, 0x8FC25930261B069E,
     0x8C7922C2E7026587, 0x167FFF7816603FBC, 0x132788C5AD053690, 0x8FC25930261B069E, 0x8C7922C2E7026587,
     0x167FFF7816603FBC, 0x132788C5AD053690, 0x8FC25930261B069E, 0x8C7922C2E7026587, 0x166FFEF02CC07F78,
     0x132788C5AD053690, 0x8FC25930261B069E, 0x8C7922C2E7026587, 0x165FFDE05980FEF2, 0x130E2316B414DA3E,
     0x0FBB4D9FB3C9F2C2, 0x0C5B74F463F669E6, 0x164FFBC0B301FDE6, 0x92CDCE94BEB25C12, 0x8F664C0986C1A7B2,
     0x8C0161738132C340, 0x163FF7816603FBCC, 0x92CDCE94BEB25C12, 0x8F664C0986C1A7B2, 0x8C0161738132C340,
     0x162FEF02CC07F798, 0x92CDCE94BEB25C12, 0x8F664C0986C1A7B2, 0x8C0161738132C340, 0x161FDE05980FEF2E,
     0x12D118B5A0A6D1F6, 0x0F8A6CFD9E4F9612, 0x0C46E9E8C7ECD3CC, 0x160FBC0B301FDE5E, 0x12918B5A0A6D1F6C,
     0x0F5367ECF27CB09A, 0x0C174F463F669E60, 0x15FF7816603FBCBC, 0x12918B5A0A6D1F6C, 0x0F5367ECF27CB09A,
     0x0C174F463F669E60, 0x15EEF02CC07F7978, 0x12918B5A0A6D1F6C, 0x0F5367ECF27CB09A, 0x0C174F463F669E60,
     0x15DDE05980FEF2F0, 0x12918B5A0A6D1F6C, 0x0F5367ECF27CB09A, 0x0C174F463F669E60, 0x15CBC0B301FDE5E2,
     0x1258B5A0A6D1F6D2, 0x0F167ECF27CB09B6, 0x0BD4F463F669E5FF, 0x15B7816603FBCBC4, 0x1258B5A0A6D1F6D2,
     0x0F167ECF27CB09B6, 0x0BD4F463F669E5FF, 0x159E05980FEF2F12, 0x923D297D64B824B2, 0x8ED8130D834F648A,
     0x8B90B9C09961A016, 0x159E05980FEF2F12, 0x923D297D64B824B2, 0x8ED8130D834F648A, 0x8B90B9C09961A016,
     0x158C0B301FDE5E22, 0x12416B414DA3EDA6, 0x0EF9FB3C9F2C26DC, 0x0BB3D18FD9A797FB, 0x157816603FBCBC46,
     0x1206B414DA3EDA6C, 0x0EBFB3C9F2C26DD4, 0x8B4738132C3402BA, 0x15602CC07F79788C, 0x1206B414DA3EDA6C,
     0x0EBFB3C9F2C26DD4, 0x8B4738132C3402BA, 0x14F6603FBCBC462C, 0x11B6829B47DB4DA0, 0x8E530D834F648B0C,
     0x0AF8FD9A797FA8B6, 0x14F6603FBCBC462C, 0x11B6829B47DB4DA0, 0x8E530D834F648B0C, 0x0AF8FD9A797FA8B6,
     0x14F6603FBCBC462C, 0x11B6829B47DB4DA0, 0x8E530D834F648B0C, 0x0AF8FD9A797FA8B6, 0x14F6603FBCBC462C,
     0x11B6829B47DB4DA0, 0x8E530D834F648B0C, 0x0AF8FD9A797FA8B6, 0x14F6603FBCBC462C, 0x11B6829B47DB4DA0,
     0x8E530D834F648B0C, 0x0AF8FD9A797FA8B6, 0x14F6603FBCBC462C, 0x11B6829B47DB4DA0, 0x8E530D834F648B0C,
     0x0AF8FD9A797FA8B6, 0x14F6603FBCBC462C, 0x11B6829B47DB4DA0, 0x8E530D834F648B0C, 0x0AF8FD9A797FA8B6,
     0x14D980FEF2F118B6, 0x9177D64B824B2604, 0x8E286C1A7B24585C, 0x8ADC09961A015D29, 0x14D980FEF2F118B6,
     0x9177D64B824B2604, 0x8E286C1A7B24585C, 0x8ADC09961A015D29, 0x14C301FDE5E2316A, 0x118414DA3EDA6CFE,
     0x8E286C1A7B24585C, 0x8ADC09961A015D29, 0x14980FEF2F118B5A, 0x1104DA3EDA6CFD9E, 0x0DA3E584DBA7A320,
     0x8A432C3402BA515B, 0x14980FEF2F118B5A, 0x1104DA3EDA6CFD9E, 0x0DA3E584DBA7A320, 0x8A432C3402BA515B,
     0x14980FEF2F118B5A, 0x1104DA3EDA6CFD9E, 0x0DA3E584DBA7A320, 0x8A432C3402BA515B, 0x14801FDE5E2316B4,
     0x1104DA3EDA6CFD9E, 0x0DA3E584DBA7A320, 0x8A432C3402BA515B, 0x140FDE5E2316B414, 0x10BB47DB4D9FB3CA,
     0x8D2A7B24585CE04C, 0x89D61A015D28AD84, 0x140FDE5E2316B414, 0x10BB47DB4D9FB3CA, 0x8D2A7B24585CE04C,
     0x89D61A015D28AD84, 0x140FDE5E2316B414, 0x10BB47DB4D9FB3CA, 0x8D2A7B24585CE04C, 0x89D61A015D28AD84,
     0x140FDE5E2316B414, 0x10BB47DB4D9FB3CA, 0x8D2A7B24585CE04C, 0x89D61A015D28AD84, 0x140FDE5E2316B414,
     0x10BB47DB4D9FB3CA, 0x8D2A7B24585CE04C, 0x89D61A015D28AD84, 0x140FDE5E2316B414, 0x10BB47DB4D9FB3CA,
     0x8D2A7B24585CE04C, 0x89D61A015D28AD84, 0x140FDE5E2316B414, 0x10BB47DB4D9FB3CA, 0x8D2A7B24585CE04C,
     0x89D61A015D28AD84, 0x140FDE5E2316B414, 0x10BB47DB4D9FB3CA, 0x8D2A7B24585CE04C, 0x89D61A015D28AD84,
     0x13FFBCBC462D682A, 0x9092E092C98130D8, 0x8D2A7B24585CE04C, 0x89D61A015D28AD84, 0x13EF79788C5AD052,
     0x10A68FB69B3F6794, 0x8D2A7B24585CE04C, 0x89D61A015D28AD84, 0x13DEF2F118B5A0A6, 0x108A3EDA6CFD9E50,
     0x8D2A7B24585CE04C, 0x89D61A015D28AD84, 0x13CDE5E2316B414E, 0x906704964C0986C2, 0x0D06136E9E8C7ECC,
     0x09C3CBFD45AEA4F7, 0x13BBCBC462D6829A, 0x10747DB4D9FB3C9E, 0x0D32C26DD3D18FDA, 0x89D61A015D28AD84,
     0x13A79788C5AD0536, 0x1051F6D367ECF27C, 0x0D06136E9E8C7ECC, 0x09C3CBFD45AEA4F7, 0x138E5E2316B414DA,
     0x101F6D367ECF27CA, 0x0CD09B74F463F66A, 0x895A015D28AD8454, 0x138E5E2316B414DA, 0x101F6D367ECF27CA,
     0x0CD09B74F463F66A, 0x895A015D28AD8454, 0x137CBC462D6829B4, 0x101F6D367ECF27CA, 0x0CD09B74F463F66A,
     0x895A015D28AD8454, 0x1369788C5AD05368, 0x101F6D367ECF27CA, 0x0CD09B74F463F66A, 0x895A015D28AD8454,
     0x1352F118B5A0A6D2, 0x8FC25930261B069E, 0x8C7922C2E7026586, 0x89200AE9456C229C, 0x132788C5AD053690,
     0x8FC25930261B069E, 0x8C7922C2E7026586, 0x89200AE9456C229C, 0x132788C5AD053690, 0x8FC25930261B069E,
     0x8C7922C2E7026586, 0x89200AE9456C229C, 0x132788C5AD053690, 0x8FC25930261B069E, 0x8C7922C2E7026586,
     0x89200AE9456C229C, 0x130E2316B414DA3E, 0x0FBB4D9FB3C9F2C2, 0x0C5B74F463F669E6, 0x8895D28AD8453814]"

definition kRempiTab_8 :: "u64 list" where
  "kRempiTab_8 =
    [0x130E2316B414DA3E, 0x0FBB4D9FB3C9F2C2, 0x0C5B74F463F669E6, 0x8895D28AD8453814, 0x12FC462D6829B47E,
     0x8F92C98130D834F6, 0x8C322C2E70265868, 0x8895D28AD8453814, 0x12E88C5AD05368FA, 0x0FA69B3F6793E584,
     0x0C5B74F463F669E6, 0x8895D28AD8453814, 0x12D118B5A0A6D1F6, 0x0F8A6CFD9E4F9612, 0x0C46E9E8C7ECD3CC,
     0x8895D28AD8453814, 0x12918B5A0A6D1F6C, 0x0F5367ECF27CB09A, 0x0C174F463F669E60, 0x8895D28AD8453814,
     0x12918B5A0A6D1F6C, 0x0F5367ECF27CB09A, 0x0C174F463F669E60, 0x8895D28AD8453814, 0x12918B5A0A6D1F6C,
     0x0F5367ECF27CB09A, 0x0C174F463F669E60, 0x8895D28AD8453814, 0x12918B5A0A6D1F6C, 0x0F5367ECF27CB09A,
     0x0C174F463F669E60, 0x8895D28AD8453814, 0x1258B5A0A6D1F6D2, 0x0F167ECF27CB09B6, 0x0BD4F463F669E5FE,
     0x08845AEA4F758FD8, 0x1258B5A0A6D1F6D2, 0x0F167ECF27CB09B6, 0x0BD4F463F669E5FE, 0x08845AEA4F758FD8,
     0x1258B5A0A6D1F6D2, 0x0F167ECF27CB09B6, 0x0BD4F463F669E5FE, 0x08845AEA4F758FD8, 0x1258B5A0A6D1F6D2,
     0x0F167ECF27CB09B6, 0x0BD4F463F669E5FE, 0x08845AEA4F758FD8, 0x12416B414DA3EDA6, 0x0EF9FB3C9F2C26DC,
     0x0BB3D18FD9A797FA, 0x08616BA93DD63F5F, 0x1206B414DA3EDA6C, 0x0EBFB3C9F2C26DD4, 0x8B4738132C3402BA,
     0x87E456C229C0A0D0, 0x1206B414DA3EDA6C, 0x0EBFB3C9F2C26DD4, 0x8B4738132C3402BA, 0x87E456C229C0A0D0,
     0x1206B414DA3EDA6C, 0x0EBFB3C9F2C26DD4, 0x8B4738132C3402BA, 0x87E456C229C0A0D0, 0x1206B414DA3EDA6C,
     0x0EBFB3C9F2C26DD4, 0x8B4738132C3402BA, 0x87E456C229C0A0D0, 0x11EAD05368FB69B4, 0x8E530D834F648B0C,
     0x0AF8FD9A797FA8B6, 0x8785B08A7028341D, 0x11EAD05368FB69B4, 0x8E530D834F648B0C, 0x0AF8FD9A797FA8B6,
     0x8785B08A7028341D, 0x11D5A0A6D1F6D368, 0x8E530D834F648B0C, 0x0AF8FD9A797FA8B6, 0x8785B08A7028341D,
     0x11B6829B47DB4DA0, 0x8E530D834F648B0C, 0x0AF8FD9A797FA8B6, 0x8785B08A7028341D, 0x11B6829B47DB4DA0,
     0x8E530D834F648B0C, 0x0AF8FD9A797FA8B6, 0x8785B08A7028341D, 0x119A0A6D1F6D367E, 0x0E49E4F96136E9E8,
     0x0AF8FD9A797FA8B6, 0x8785B08A7028341D, 0x119A0A6D1F6D367E, 0x0E49E4F96136E9E8, 0x0AF8FD9A797FA8B6,
     0x8785B08A7028341D, 0x118414DA3EDA6CFE, 0x8E286C1A7B24585C, 0x8ADC09961A015D28, 0x8785B08A7028341D,
     0x11605368FB69B3F6, 0x0E0E4F96136E9E8C, 0x0AAFB34F2FF516BA, 0x07527BAC7EBE5F18, 0x11605368FB69B3F6,
     0x0E0E4F96136E9E8C, 0x0AAFB34F2FF516BA, 0x07527BAC7EBE5F18, 0x1104DA3EDA6CFD9E, 0x0DA3E584DBA7A320,
     0x8A432C3402BA515A, 0x87008A7028341D0A, 0x1104DA3EDA6CFD9E, 0x0DA3E584DBA7A320, 0x8A432C3402BA515A,
     0x87008A7028341D0A, 0x1104DA3EDA6CFD9E, 0x0DA3E584DBA7A320, 0x8A432C3402BA515A, 0x87008A7028341D0A,
     0x1104DA3EDA6CFD9E, 0x0DA3E584DBA7A320, 0x8A432C3402BA515A, 0x87008A7028341D0A, 0x1104DA3EDA6CFD9E,
     0x0DA3E584DBA7A320, 0x8A432C3402BA515A, 0x87008A7028341D0A, 0x1104DA3EDA6CFD9E, 0x0DA3E584DBA7A320,
     0x8A432C3402BA515A, 0x87008A7028341D0A, 0x10E368FB69B3F678, 0x0DA3E584DBA7A320, 0x8A432C3402BA515A,
     0x87008A7028341D0A, 0x10E368FB69B3F678, 0x0DA3E584DBA7A320, 0x8A432C3402BA515A, 0x87008A7028341D0A,
     0x10BB47DB4D9FB3CA, 0x8D2A7B24585CE04C, 0x89D61A015D28AD84, 0x8674E050683A130C, 0x10BB47DB4D9FB3CA,
     0x8D2A7B24585CE04C, 0x89D61A015D28AD84, 0x8674E050683A130C, 0x10BB47DB4D9FB3CA, 0x8D2A7B24585CE04C,
     0x89D61A015D28AD84, 0x8674E050683A130C, 0x10A68FB69B3F6794, 0x8D2A7B24585CE04C, 0x89D61A015D28AD84,
     0x8674E050683A130C, 0x108A3EDA6CFD9E50, 0x8D2A7B24585CE04C, 0x89D61A015D28AD84, 0x8674E050683A130C,
     0x108A3EDA6CFD9E50, 0x8D2A7B24585CE04C, 0x89D61A015D28AD84, 0x8674E050683A130C, 0x10747DB4D9FB3C9E,
     0x0D32C26DD3D18FDA, 0x89D61A015D28AD84, 0x8674E050683A130C, 0x1051F6D367ECF27C, 0x0D06136E9E8C7ECC,
     0x09C3CBFD45AEA4F6, 0x06858FD7CBE2F67A, 0x1051F6D367ECF27C, 0x0D06136E9E8C7ECC, 0x09C3CBFD45AEA4F6,
     0x06858FD7CBE2F67A, 0x101F6D367ECF27CA, 0x0CD09B74F463F66A, 0x895A015D28AD8454, 0x05FFAF97C5ECF41D,
     0x101F6D367ECF27CA, 0x0CD09B74F463F66A, 0x895A015D28AD8454, 0x05FFAF97C5ECF41D, 0x101F6D367ECF27CA,
     0x0CD09B74F463F66A, 0x895A015D28AD8454, 0x05FFAF97C5ECF41D, 0x101F6D367ECF27CA, 0x0CD09B74F463F66A,
     0x895A015D28AD8454, 0x05FFAF97C5ECF41D, 0x100EDA6CFD9E4F96, 0x0C836E9E8C7ECD3C, 0x0937FA8B5D49EEB2,
     0x85941A0E84C2F8C6, 0x0FFDB4D9FB3C9F2C, 0x0C836E9E8C7ECD3C, 0x0937FA8B5D49EEB2, 0x85941A0E84C2F8C6,
     0x0FEB69B3F6793E58, 0x0C836E9E8C7ECD3C, 0x0937FA8B5D49EEB2, 0x85941A0E84C2F8C6, 0x0FD6D367ECF27CB0,
     0x0C836E9E8C7ECD3C, 0x0937FA8B5D49EEB2, 0x85941A0E84C2F8C6, 0x0FBB4D9FB3C9F2C2, 0x0C5B74F463F669E6,
     0x8895D28AD8453814, 0x851A0E84C2F8C608, 0x0FBB4D9FB3C9F2C2, 0x0C5B74F463F669E6, 0x8895D28AD8453814,
     0x851A0E84C2F8C608, 0x0FA69B3F6793E584, 0x0C5B74F463F669E6, 0x8895D28AD8453814, 0x851A0E84C2F8C608,
     0x0F8A6CFD9E4F9612, 0x0C46E9E8C7ECD3CC, 0x8895D28AD8453814, 0x851A0E84C2F8C608, 0x0F8A6CFD9E4F9612,
     0x0C46E9E8C7ECD3CC, 0x8895D28AD8453814, 0x851A0E84C2F8C608, 0x0F74D9FB3C9F2C26, 0x0C2BA7A31FB34F30,
     0x8895D28AD8453814, 0x851A0E84C2F8C608, 0x0F5367ECF27CB09A, 0x0C174F463F669E60, 0x8895D28AD8453814,
     0x851A0E84C2F8C608, 0x0F5367ECF27CB09A, 0x0C174F463F669E60, 0x8895D28AD8453814, 0x851A0E84C2F8C608,
     0x0F2B3F6793E584DC, 0x8BC61738132C3402, 0x88774A2B6114E050, 0x851A0E84C2F8C608, 0x0F2B3F6793E584DC,
     0x8BC61738132C3402, 0x88774A2B6114E050, 0x851A0E84C2F8C608, 0x0F2B3F6793E584DC, 0x8BC61738132C3402,
     0x88774A2B6114E050, 0x851A0E84C2F8C608, 0x0F167ECF27CB09B6, 0x0BD4F463F669E5FE, 0x08845AEA4F758FD8,
     0x851A0E84C2F8C608, 0x0EF9FB3C9F2C26DC, 0x0BB3D18FD9A797FA, 0x08616BA93DD63F5E, 0x0522F8BD9E839CFC,
     0x0EF9FB3C9F2C26DC, 0x0BB3D18FD9A797FA, 0x08616BA93DD63F5E, 0x0522F8BD9E839CFC, 0x0EE3F6793E584DBA,
     0x0B8E8C7ECD3CBFD4, 0x0826BA93DD63F5F2, 0x04DF17B3D0739F79, 0x0EBFB3C9F2C26DD4, 0x8B4738132C3402BA,
     0x87E456C229C0A0D0, 0x848D0985F18C10EB, 0x0EBFB3C9F2C26DD4, 0x8B4738132C3402BA, 0x87E456C229C0A0D0,
     0x848D0985F18C10EB, 0x0EBFB3C9F2C26DD4, 0x8B4738132C3402BA, 0x87E456C229C0A0D0, 0x848D0985F18C10EB,
     0x0EAF6793E584DBA8, 0x8B4738132C3402BA, 0x87E456C229C0A0D0, 0x848D0985F18C10EB, 0x0E9ECF27CB09B74E,
     0x0B5463F669E5FEA2, 0x080AEA4F758FD7CC, 0x848D0985F18C10EB, 0x0E8D9E4F96136E9E, 0x0B318FD9A797FA8A,
     0x07F5D49EEB1FAF98, 0x848D0985F18C10EB, 0x0E7B3C9F2C26DD3C, 0x0B318FD9A797FA8A, 0x07F5D49EEB1FAF98,
     0x848D0985F18C10EB, 0x0E66793E584DBA7A, 0x0AF8FD9A797FA8B6, 0x8785B08A7028341C, 0x8440985F18C10EB6,
     0x0E49E4F96136E9E8, 0x0AF8FD9A797FA8B6, 0x8785B08A7028341C, 0x8440985F18C10EB6, 0x0E49E4F96136E9E8,
     0x0AF8FD9A797FA8B6, 0x8785B08A7028341C, 0x8440985F18C10EB6, 0x0E33C9F2C26DD3D2, 0x8ADC09961A015D28,
     0x8785B08A7028341C, 0x8440985F18C10EB6, 0x0E0E4F96136E9E8C, 0x0AAFB34F2FF516BA, 0x07527BAC7EBE5F18,
     0x83F30BE31821D6B6, 0x0E0E4F96136E9E8C, 0x0AAFB34F2FF516BA, 0x07527BAC7EBE5F18, 0x83F30BE31821D6B6,
     0x0E0E4F96136E9E8C, 0x0AAFB34F2FF516BA, 0x07527BAC7EBE5F18, 0x83F30BE31821D6B6, 0x0DFC9F2C26DD3D18,
     0x0AAFB34F2FF516BA, 0x07527BAC7EBE5F18, 0x83F30BE31821D6B6, 0x0DE93E584DBA7A32, 0x8A432C3402BA515A,
     0x87008A7028341D0A, 0x03AE839CFBC52949, 0x0DD27CB09B74F464, 0x8A432C3402BA515A, 0x87008A7028341D0A,
     0x03AE839CFBC52949, 0x0DA3E584DBA7A320, 0x8A432C3402BA515A, 0x87008A7028341D0A, 0x03AE839CFBC52949,
     0x0DA3E584DBA7A320, 0x8A432C3402BA515A, 0x87008A7028341D0A, 0x03AE839CFBC52949, 0x0DA3E584DBA7A320,
     0x8A432C3402BA515A, 0x87008A7028341D0A, 0x03AE839CFBC52949, 0x0D7F2C26DD3D18FE, 0x8A1961A015D28AD8,
     0x86B14E050683A130, 0x8367C63043AD6B69, 0x0D7F2C26DD3D18FE, 0x8A1961A015D28AD8, 0x86B14E050683A130,
     0x8367C63043AD6B69, 0x0D7F2C26DD3D18FE, 0x8A1961A015D28AD8, 0x86B14E050683A130, 0x8367C63043AD6B69,
     0x0D6E584DBA7A31FA, 0x0A234F2FF516BA94, 0x86B14E050683A130, 0x8367C63043AD6B69, 0x0D5CB09B74F463F6,
     0x09FA797FA8B5D49E, 0x06AD63F5F2F8BD9E, 0x0350739F78A5292F, 0x0D496136E9E8C7EC, 0x09FA797FA8B5D49E,
     0x06AD63F5F2F8BD9E, 0x0350739F78A5292F, 0x0D32C26DD3D18FDA, 0x89D61A015D28AD84, 0x8674E050683A130C,
     0x02FCE7DE294A4BAA, 0x0D06136E9E8C7ECC, 0x09C3CBFD45AEA4F6, 0x06858FD7CBE2F67A, 0x02FCE7DE294A4BAA,
     0x0D06136E9E8C7ECC, 0x09C3CBFD45AEA4F6, 0x06858FD7CBE2F67A, 0x02FCE7DE294A4BAA, 0x0D06136E9E8C7ECC,
     0x09C3CBFD45AEA4F6, 0x06858FD7CBE2F67A, 0x02FCE7DE294A4BAA, 0x0CE84DBA7A31FB34, 0x099E5FEA2D7527BA]"

definition kRempiTab_9 :: "u64 list" where
  "kRempiTab_9 =
    [0x0648FD7CBE2F67A0, 0x02FCE7DE294A4BAA, 0x0CE84DBA7A31FB34, 0x099E5FEA2D7527BA, 0x0648FD7CBE2F67A0,
     0x02FCE7DE294A4BAA, 0x0CD09B74F463F66A, 0x895A015D28AD8454, 0x05FFAF97C5ECF41C, 0x02ACFBC529497536,
     0x0C836E9E8C7ECD3C, 0x0937FA8B5D49EEB2, 0x85941A0E84C2F8C6, 0x8200EB5ADA2B2809, 0x0C836E9E8C7ECD3C,
     0x0937FA8B5D49EEB2, 0x85941A0E84C2F8C6, 0x8200EB5ADA2B2809, 0x0C836E9E8C7ECD3C, 0x0937FA8B5D49EEB2,
     0x85941A0E84C2F8C6, 0x8200EB5ADA2B2809, 0x0C836E9E8C7ECD3C, 0x0937FA8B5D49EEB2, 0x85941A0E84C2F8C6,
     0x8200EB5ADA2B2809, 0x0C836E9E8C7ECD3C, 0x0937FA8B5D49EEB2, 0x85941A0E84C2F8C6, 0x8200EB5ADA2B2809,
     0x0C5B74F463F669E6, 0x8895D28AD8453814, 0x851A0E84C2F8C608, 0x81BD6B5B45650128, 0x0C5B74F463F669E6,
     0x8895D28AD8453814, 0x851A0E84C2F8C608, 0x81BD6B5B45650128, 0x0C5B74F463F669E6, 0x8895D28AD8453814,
     0x851A0E84C2F8C608, 0x81BD6B5B45650128, 0x0C46E9E8C7ECD3CC, 0x8895D28AD8453814, 0x851A0E84C2F8C608,
     0x81BD6B5B45650128, 0x0C2BA7A31FB34F30, 0x8895D28AD8453814, 0x851A0E84C2F8C608, 0x81BD6B5B45650128,
     0x0C2BA7A31FB34F30, 0x8895D28AD8453814, 0x851A0E84C2F8C608, 0x81BD6B5B45650128, 0x0C174F463F669E60,
     0x8895D28AD8453814, 0x851A0E84C2F8C608, 0x81BD6B5B45650128, 0x0BFD3D18FD9A7980, 0x8895D28AD8453814,
     0x851A0E84C2F8C608, 0x81BD6B5B45650128, 0x0BFD3D18FD9A7980, 0x8895D28AD8453814, 0x851A0E84C2F8C608,
     0x81BD6B5B45650128, 0x0BEA7A31FB34F2FE, 0x08A516BA93DD63F6, 0x851A0E84C2F8C608, 0x81BD6B5B45650128,
     0x0BD4F463F669E5FE, 0x08845AEA4F758FD8, 0x851A0E84C2F8C608, 0x81BD6B5B45650128, 0x0BB3D18FD9A797FA,
     0x08616BA93DD63F5E, 0x0522F8BD9E839CFC, 0x81BD6B5B45650128, 0x0BB3D18FD9A797FA, 0x08616BA93DD63F5E,
     0x0522F8BD9E839CFC, 0x81BD6B5B45650128, 0x0B8E8C7ECD3CBFD4, 0x0826BA93DD63F5F2, 0x04DF17B3D0739F78,
     0x0184A525D4D7F6BF, 0x0B8E8C7ECD3CBFD4, 0x0826BA93DD63F5F2, 0x04DF17B3D0739F78, 0x0184A525D4D7F6BF,
     0x0B8E8C7ECD3CBFD4, 0x0826BA93DD63F5F2, 0x04DF17B3D0739F78, 0x0184A525D4D7F6BF, 0x0B7D18FD9A797FA8,
     0x0826BA93DD63F5F2, 0x04DF17B3D0739F78, 0x0184A525D4D7F6BF, 0x0B6A31FB34F2FF50, 0x0826BA93DD63F5F2,
     0x04DF17B3D0739F78, 0x0184A525D4D7F6BF, 0x0B5463F669E5FEA2, 0x080AEA4F758FD7CC, 0x848D0985F18C10EA,
     0x8145ADA2B280940A, 0x0B318FD9A797FA8A, 0x07F5D49EEB1FAF98, 0x848D0985F18C10EA, 0x8145ADA2B280940A,
     0x0B318FD9A797FA8A, 0x07F5D49EEB1FAF98, 0x848D0985F18C10EA, 0x8145ADA2B280940A, 0x0AF8FD9A797FA8B6,
     0x8785B08A7028341C, 0x8440985F18C10EB6, 0x00E497535FDAFD89, 0x0AF8FD9A797FA8B6, 0x8785B08A7028341C,
     0x8440985F18C10EB6, 0x00E497535FDAFD89, 0x0AF8FD9A797FA8B6, 0x8785B08A7028341C, 0x8440985F18C10EB6,
     0x00E497535FDAFD89, 0x0AF8FD9A797FA8B6, 0x8785B08A7028341C, 0x8440985F18C10EB6, 0x00E497535FDAFD89,
     0x0AE1FB34F2FF516C, 0x8785B08A7028341C, 0x8440985F18C10EB6, 0x00E497535FDAFD89, 0x0AAFB34F2FF516BA,
     0x07527BAC7EBE5F18, 0x83F30BE31821D6B6, 0x0092EA6BFB5FB120, 0x0AAFB34F2FF516BA, 0x07527BAC7EBE5F18,
     0x83F30BE31821D6B6, 0x0092EA6BFB5FB120, 0x0AAFB34F2FF516BA, 0x07527BAC7EBE5F18, 0x83F30BE31821D6B6,
     0x0092EA6BFB5FB120, 0x0AAFB34F2FF516BA, 0x07527BAC7EBE5F18, 0x83F30BE31821D6B6, 0x0092EA6BFB5FB120,
     0x0A9F669E5FEA2D74, 0x07527BAC7EBE5F18, 0x83F30BE31821D6B6, 0x0092EA6BFB5FB120, 0x0A8ECD3CBFD45AEA,
     0x0723DD63F5F2F8BE, 0x83C85F18C10EB5AE, 0x0067535FDAFD88FC, 0x0A7D9A797FA8B5D4, 0x0723DD63F5F2F8BE,
     0x83C85F18C10EB5AE, 0x0067535FDAFD88FC, 0x0A6B34F2FF516BA8, 0x0723DD63F5F2F8BE, 0x83C85F18C10EB5AE,
     0x0067535FDAFD88FC, 0x0A5669E5FEA2D752, 0x06FEEB1FAF97C5EC, 0x03AE839CFBC52948, 0x0067535FDAFD88FC,
     0x0A39A797FA8B5D4A, 0x86B14E050683A130, 0x8367C63043AD6B68, 0x80159404A04EE073, 0x0A39A797FA8B5D4A,
     0x86B14E050683A130, 0x8367C63043AD6B68, 0x80159404A04EE073, 0x0A234F2FF516BA94, 0x86B14E050683A130,
     0x8367C63043AD6B68, 0x80159404A04EE073, 0x09FA797FA8B5D49E, 0x06AD63F5F2F8BD9E, 0x0350739F78A5292E,
     0x000A6BFB5FB11F8D, 0x09FA797FA8B5D49E, 0x06AD63F5F2F8BD9E, 0x0350739F78A5292E, 0x000A6BFB5FB11F8D,
     0x09FA797FA8B5D49E, 0x06AD63F5F2F8BD9E, 0x0350739F78A5292E, 0x000A6BFB5FB11F8D, 0x09E4F2FF516BA93E,
     0x8674E050683A130C, 0x02FCE7DE294A4BAA, 0x80001404A04EE073, 0x09C3CBFD45AEA4F6, 0x06858FD7CBE2F67A,
     0x02FCE7DE294A4BAA, 0x80001404A04EE073, 0x09C3CBFD45AEA4F6, 0x06858FD7CBE2F67A, 0x02FCE7DE294A4BAA,
     0x80001404A04EE073, 0x099E5FEA2D7527BA, 0x0648FD7CBE2F67A0, 0x02FCE7DE294A4BAA, 0x80001404A04EE073,
     0x099E5FEA2D7527BA, 0x0648FD7CBE2F67A0, 0x02FCE7DE294A4BAA, 0x80001404A04EE073, 0x099E5FEA2D7527BA,
     0x0648FD7CBE2F67A0, 0x02FCE7DE294A4BAA, 0x80001404A04EE073, 0x098CBFD45AEA4F76, 0x862C0A0D0742617C,
     0x82C8C10EB5ADA2B2, 0x80000404A04EE073, 0x09797FA8B5D49EEA, 0x0631FAF97C5ECF42, 0x82C8C10EB5ADA2B2,
     0x80000404A04EE073, 0x0962FF516BA93DD6, 0x05FFAF97C5ECF41C, 0x02ACFBC529497536, 0x80000004A04EE073,
     0x0937FA8B5D49EEB2, 0x85941A0E84C2F8C6, 0x8200EB5ADA2B2808, 0x80000000A04EE073, 0x0937FA8B5D49EEB2,
     0x85941A0E84C2F8C6, 0x8200EB5ADA2B2808, 0x80000000A04EE073, 0x0937FA8B5D49EEB2, 0x85941A0E84C2F8C6,
     0x8200EB5ADA2B2808, 0x80000000A04EE073, 0x091FEA2D7527BAC8, 0x85941A0E84C2F8C6, 0x8200EB5ADA2B2808,
     0x80000000A04EE073, 0x091FEA2D7527BAC8, 0x85941A0E84C2F8C6, 0x8200EB5ADA2B2808, 0x80000000A04EE073,
     0x090FD45AEA4F7590, 0x85941A0E84C2F8C6, 0x8200EB5ADA2B2808, 0x80000000A04EE073, 0x08FFA8B5D49EEB20,
     0x85941A0E84C2F8C6, 0x8200EB5ADA2B2808, 0x80000000A04EE073, 0x08EF516BA93DD63E, 0x05A5F2F8BD9E839C,
     0x025F78A5292EA6C0, 0x80000004A04EE073, 0x08DEA2D7527BAC7E, 0x0587CBE2F67A0E74, 0x8200EB5ADA2B2808,
     0x80000000A04EE073, 0x08CD45AEA4F758FC, 0x0587CBE2F67A0E74, 0x8200EB5ADA2B2808, 0x80000000A04EE073,
     0x08BA8B5D49EEB1FA, 0x056F2F8BD9E839D0, 0x8200EB5ADA2B2808, 0x80000000A04EE073, 0x08A516BA93DD63F6,
     0x851A0E84C2F8C608, 0x81BD6B5B45650128, 0x80000000004EE073, 0x08845AEA4F758FD8, 0x851A0E84C2F8C608,
     0x81BD6B5B45650128, 0x80000000004EE073, 0x08845AEA4F758FD8, 0x851A0E84C2F8C608, 0x81BD6B5B45650128,
     0x80000000004EE073, 0x08616BA93DD63F5E, 0x0522F8BD9E839CFC, 0x81BD6B5B45650128, 0x80000000004EE073,
     0x08616BA93DD63F5E, 0x0522F8BD9E839CFC, 0x81BD6B5B45650128, 0x80000000004EE073, 0x0826BA93DD63F5F2,
     0x04DF17B3D0739F78, 0x0184A525D4D7F6BE, 0x0000000000B11F8D, 0x0826BA93DD63F5F2, 0x04DF17B3D0739F78,
     0x0184A525D4D7F6BE, 0x0000000000B11F8D, 0x0826BA93DD63F5F2, 0x04DF17B3D0739F78, 0x0184A525D4D7F6BE,
     0x0000000000B11F8D, 0x0826BA93DD63F5F2, 0x04DF17B3D0739F78, 0x0184A525D4D7F6BE, 0x0000000000B11F8D,
     0x080AEA4F758FD7CC, 0x848D0985F18C10EA, 0x8145ADA2B280940A, 0x0000000000011F8D, 0x080AEA4F758FD7CC,
     0x848D0985F18C10EA, 0x8145ADA2B280940A, 0x0000000000011F8D, 0x07F5D49EEB1FAF98, 0x848D0985F18C10EA,
     0x8145ADA2B280940A, 0x0000000000011F8D, 0x07D7527BAC7EBE5E, 0x04917B3D0739F78A, 0x0134A4BA9AFED7EC,
     0x0000000000011F8D, 0x07D7527BAC7EBE5E, 0x04917B3D0739F78A, 0x0134A4BA9AFED7EC, 0x0000000000011F8D,
     0x07BD49EEB1FAF97C, 0x0457B3D0739F78A4, 0x011292EA6BFB5FB0, 0x0000000000011F8D, 0x07BD49EEB1FAF97C,
     0x0457B3D0739F78A4, 0x011292EA6BFB5FB0, 0x0000000000011F8D, 0x07AA93DD63F5F2F8, 0x0457B3D0739F78A4,
     0x011292EA6BFB5FB0, 0x0000000000011F8D, 0x079527BAC7EBE5F0, 0x0457B3D0739F78A4, 0x011292EA6BFB5FB0,
     0x0000000000011F8D, 0x07749EEB1FAF97C6, 0x83F30BE31821D6B6, 0x0092EA6BFB5FB120, 0x8000000000000073,
     0x07749EEB1FAF97C6, 0x83F30BE31821D6B6, 0x0092EA6BFB5FB120, 0x8000000000000073, 0x07527BAC7EBE5F18,
     0x83F30BE31821D6B6, 0x0092EA6BFB5FB120, 0x8000000000000073, 0x07527BAC7EBE5F18, 0x83F30BE31821D6B6,
     0x0092EA6BFB5FB120, 0x8000000000000073, 0x0723DD63F5F2F8BE, 0x83C85F18C10EB5AE, 0x0067535FDAFD88FC,
     0x000000000000000D]"

definition kRempiTab :: "u64 list" where
  "kRempiTab = concat [kRempiTab_0, kRempiTab_1, kRempiTab_2, kRempiTab_3, kRempiTab_4, kRempiTab_5, kRempiTab_6, kRempiTab_7, kRempiTab_8, kRempiTab_9]"

end
