(* ===== verification/Sf_Sleef_Trig.thy ===== *)
theory Sf_Sleef_Trig
  imports Sf_Sleef_Pow Sf_Sleef_Rempi
begin

text \<open>
  \<open>src/sleef/sleef_trig.cpp\<close>: sine, cosine, tangent and their pi-scaled variants, with the three
  argument reductions (two Cody-Waite ranges, Payne-Hanek beyond \<open>1e14\<close> over the table of
  \<open>Sf_Sleef_Rempi\<close>).
\<close>

section \<open>Constants and bit helpers\<close>

definition kPI_A_H :: f64 where "kPI_A_H = 0x3FF921FB50000000"
definition kPI_B_H :: f64 where "kPI_B_H = 0x3E5110B460000000"
definition kPI_C_H :: f64 where "kPI_C_H = 0x3C91A62630000000"
definition kPI_D_H :: f64 where "kPI_D_H = 0x3AE8A2E03707344A"
definition kPI_A2_H :: f64 where "kPI_A2_H = 0x3FF921FB54442D18"
definition kPI_B2_H :: f64 where "kPI_B2_H = 0x3C91A62633145C07"
definition kTAU_H :: f64 where "kTAU_H = 0x401921FB54442D18"
definition kTAU_L :: f64 where "kTAU_L = 0x3CB1A62633145C07"

definition mulsign :: "f64 \<Rightarrow> f64 \<Rightarrow> f64" where "mulsign x y = x XOR (y AND 0x8000000000000000)"
definition orsign :: "f64 \<Rightarrow> f64 \<Rightarrow> f64" where "orsign x y = x OR (y AND 0x8000000000000000)"
definition ilogb2k :: "f64 \<Rightarrow> int" where "ilogb2k d = uint (drop_bit 52 d AND 0x7FF) - 0x3FF"
definition ldexp3k :: "f64 \<Rightarrow> int \<Rightarrow> f64" where "ldexp3k d e = d + push_bit 52 (word_of_int e)"

section \<open>Payne-Hanek reduction\<close>

record RempiSub =
  rs_d :: f64
  rs_i :: int

definition rempisub :: "f64 \<Rightarrow> RempiSub sl" where
  "rempisub x = do {
     fourx \<leftarrow> sl_mul 0x4010000000000000 x;
     let absfx = sf64_internal_fabs fourx;
     let absx = sf64_internal_fabs x;
     let c = mulsign 0x4330000000000000 x;
     rint4x \<leftarrow> (if sl_gt absfx 0x4330000000000000 then return fourx
                else do { y \<leftarrow> sl_fma 0x4010000000000000 x c; y \<leftarrow> sl_sub y c; return (orsign y x) });
     rintx \<leftarrow> (if sl_gt absx 0x4330000000000000 then return x
               else do { y \<leftarrow> sl_add x c; y \<leftarrow> sl_sub y c; return (orsign y x) });
     d \<leftarrow> sl_fma 0xBFD0000000000000 rint4x x;
     ii \<leftarrow> sl_fma 0xC010000000000000 rintx rint4x;
     i \<leftarrow> to_i32 ii;
     return \<lparr>rs_d = d, rs_i = i\<rparr> }"

record RempiResult =
  rr_dd :: DD
  rr_q :: int

text \<open>The row of the table an argument of exponent \<open>ilogb2k a\<close> reads.\<close>

definition rempi_index :: "f64 \<Rightarrow> nat" where
  "rempi_index absa = (let ex = ilogb2k absa - 55; ex = (if ex < 0 then 0 else ex) in nat (ex * 4))"

definition rempi :: "f64 \<Rightarrow> RempiResult sl" where
  "rempi a_in = do {
     let absa = sf64_internal_fabs a_in;
     let qshift = (if ilogb2k absa - 55 > 700 - 55 then - 64 else 0);
     let a = ldexp3k a_in qshift;
     let idx = rempi_index absa;
     x \<leftarrow> ddmul_dd_d_d a (kRempiTab ! idx);
     di \<leftarrow> rempisub (dd_hi x);
     let q = rs_i di;
     x \<leftarrow> ddnormalize_dd_dd (dd (rs_d di) (dd_lo x));
     y \<leftarrow> ddmul_dd_d_d a (kRempiTab ! (idx + 1));
     x \<leftarrow> ddadd2_dd_dd x y;
     di \<leftarrow> rempisub (dd_hi x);
     let q = q + rs_i di;
     x \<leftarrow> ddnormalize_dd_dd (dd (rs_d di) (dd_lo x));
     y \<leftarrow> ddmul_dd_dd_d (dd (kRempiTab ! (idx + 2)) (kRempiTab ! (idx + 3))) a;
     x \<leftarrow> ddadd2_dd_dd x y;
     x \<leftarrow> ddnormalize_dd_dd x;
     x \<leftarrow> ddmul_dd_dd_dd x (dd kTAU_H kTAU_L);
     return \<lparr>rr_dd = (if sl_lt (sf64_internal_fabs a_in) 0x3FE6666666666666 then dd a_in 0 else x), rr_q = q\<rparr> }"

section \<open>Polynomial cores\<close>

definition kSinU1Poly6 :: "f64 list" where
  "kSinU1Poly6 =
    [0x3CE8811A03B2B11D, 0xBD6AE422BC319350, 0x3DE6123C74705F67,
     0xBE5AE6454BAA2959, 0x3EC71DE3A525FBED, 0xBF2A01A01A014225]"

definition kSinU1Tail :: f64 where "kSinU1Tail = 0x3F811111111110B9"
definition kSinU1NegSixth :: f64 where "kSinU1NegSixth = 0xBFC5555555555555"

text \<open>The part \<open>sinpi_core\<close> and \<open>cospi_core\<close> have in common once \<open>t\<close> and \<open>o\<close> are known.\<close>

definition pik_kernel :: "bool \<Rightarrow> f64 \<Rightarrow> DD sl" where
  "pik_kernel odd_half t = do {
     s \<leftarrow> sl_mul t t;
     s2 \<leftarrow> ddmul_dd_d_d t t;
     up \<leftarrow> (if odd_half then do {
          up \<leftarrow> sl_fma 0x3CD1EA3B366CF50B s 0xBD5B6DF1CE46F480;
          up \<leftarrow> sl_fma up s 0x3DDF9D387B282B12;
          up \<leftarrow> sl_fma up s 0xBE5A6D1F2A0E516D;
          up \<leftarrow> sl_fma up s 0x3ECE1F506891B1AB;
          sl_fma up s 0xBF355D3C7E3CBFF8 }
        else do {
          up \<leftarrow> sl_fma 0xBD16CB8B645A2115 s 0x3D9E8EFF936BEB38;
          up \<leftarrow> sl_fma up s 0xBE1E3074CBC7E020;
          up \<leftarrow> sl_fma up s 0x3E950783486A74C8;
          up \<leftarrow> sl_fma up s 0xBF032D2CCE62B479;
          sl_fma up s 0x3F6466BC6775AADE });
     y \<leftarrow> sl_mul up s;
     x \<leftarrow> (if odd_half then ddadd2_dd_d_dd y (dd 0x3F903C1F081B5AC4 0xBC33500000000000)
           else ddadd2_dd_d_dd y (dd 0xBFB4ABBCE625BE53 0x3C50B00000000000));
     y \<leftarrow> ddmul_dd_dd_dd s2 x;
     x \<leftarrow> (if odd_half then ddadd2_dd_dd y (dd 0xBFD3BD3CC9BE45DE 0xBC76900000000000)
           else ddadd2_dd_dd y (dd 0x3FE921FB54442D18 0x3C81A80000000000));
     x \<leftarrow> (if odd_half then ddmul_dd_dd_dd x s2 else ddmul_dd_dd_dd x (dd t 0));
     if odd_half then ddadd2_dd_dd_d x 0x3FF0000000000000 else return x }"

text \<open>The quadrant \<open>q\<close> (an even number of eighths of a turn) and the offset from it.\<close>

definition pik_reduce :: "f64 \<Rightarrow> (int \<times> f64) sl" where
  "pik_reduce d = do {
     u4 \<leftarrow> sl_mul d 0x4010000000000000;
     let cu = sf64_ceil u4;
     cu_i \<leftarrow> to_i32 cu;
     let q = cu_i AND NOT 1;
     qf \<leftarrow> from_i64 q;
     t \<leftarrow> sl_sub u4 qf;
     return (q, t) }"

definition sinpi_core :: "f64 \<Rightarrow> DD sl" where
  "sinpi_core d = do {
     (q, t) \<leftarrow> pik_reduce d;
     x \<leftarrow> pik_kernel (q AND 2 \<noteq> 0) t;
     return (if q AND 4 \<noteq> 0 then ddneg_dd_dd x else x) }"

definition cospi_core :: "f64 \<Rightarrow> DD sl" where
  "cospi_core d = do {
     (q, t) \<leftarrow> pik_reduce d;
     x \<leftarrow> pik_kernel (q AND 2 = 0) t;
     return (if (q + 2) AND 4 \<noteq> 0 then ddneg_dd_dd x else x) }"

definition sf64_internal_sinpik_dd :: "f64 \<Rightarrow> DD sl" where "sf64_internal_sinpik_dd d = sinpi_core d"

section \<open>Sine and cosine\<close>

text \<open>The correction of an odd (for the cosine: even) quadrant after Payne-Hanek.\<close>

definition quarter_adjust :: "DD \<Rightarrow> DD sl" where
  "quarter_adjust s = do {
     let sgn = (if sl_gt (dd_hi s) 0 then 0x3FF0000000000000 else 0xBFF0000000000000);
     adj_h \<leftarrow> sl_mul 0xBFF921FB54442D18 sgn;
     adj_l \<leftarrow> sl_mul 0xBC91A62633145C07 sgn;
     ddadd2_dd_dd s (dd adj_h adj_l) }"

definition sin_reduce :: "f64 \<Rightarrow> (DD \<times> int) sl" where
  "sin_reduce d =
     (let absd = sf64_internal_fabs d
      in if sl_lt absd kTRIGRANGEMAX2 then do {
           y \<leftarrow> sl_mul d 0x3FD45F306DC9C883;
           let qf = sl_rint y;
           ql \<leftarrow> to_i32 qf;
           u \<leftarrow> sl_fma qf (sl_neg kPI_A2) d;
           y \<leftarrow> sl_mul qf (sl_neg kPI_B2);
           s \<leftarrow> ddadd_dd_d_d u y;
           return (s, ql) }
         else if sl_lt absd kTRIGRANGEMAX then do {
           y \<leftarrow> sl_mul 0x3FD45F306DC9C883 0x3E70000000000000;
           y \<leftarrow> sl_mul d y;
           dqh \<leftarrow> sl_mul (sl_trunc y) 0x4170000000000000;
           y \<leftarrow> sl_fma d 0x3FD45F306DC9C883 (sl_neg dqh);
           let qf = sl_rint y;
           ql \<leftarrow> to_i32 qf;
           u \<leftarrow> sl_fma dqh (sl_neg kPI_A) d;
           y \<leftarrow> sl_mul qf (sl_neg kPI_A);
           s \<leftarrow> ddadd_dd_d_d u y;
           y \<leftarrow> sl_mul dqh (sl_neg kPI_B);
           s \<leftarrow> ddadd2_dd_dd_d s y;
           y \<leftarrow> sl_mul qf (sl_neg kPI_B);
           s \<leftarrow> ddadd2_dd_dd_d s y;
           y \<leftarrow> sl_mul dqh (sl_neg kPI_C);
           s \<leftarrow> ddadd2_dd_dd_d s y;
           y \<leftarrow> sl_mul qf (sl_neg kPI_C);
           s \<leftarrow> ddadd2_dd_dd_d s y;
           y \<leftarrow> sl_add dqh qf;
           y \<leftarrow> sl_mul y (sl_neg kPI_D);
           s \<leftarrow> ddadd_dd_dd_d s y;
           return (s, ql) }
         else do {
           rr \<leftarrow> rempi d;
           let signhi = (if sl_gt (dd_hi (rr_dd rr)) 0 then 1 else 0 :: int);
           let ql = drop_bit 2 ((rr_q rr AND 3) * 2 + signhi + 1);
           s \<leftarrow> (if rr_q rr AND 1 \<noteq> 0 then quarter_adjust (rr_dd rr) else return (rr_dd rr));
           s \<leftarrow> ddnormalize_dd_dd s;
           return (s, ql) })"

text \<open>The polynomial core both functions evaluate on the reduced argument.\<close>

definition sin_core :: "DD \<Rightarrow> f64 sl" where
  "sin_core t = do {
     s \<leftarrow> ddsqu_dd_dd t;
     let sx = dd_hi s;
     u \<leftarrow> poly_array sx kSinU1Poly6;
     u \<leftarrow> sl_fma u sx kSinU1Tail;
     y \<leftarrow> sl_mul u sx;
     inner \<leftarrow> ddadd_dd_d_d kSinU1NegSixth y;
     y \<leftarrow> ddmul_dd_dd_dd inner s;
     x \<leftarrow> ddadd_dd_d_dd 0x3FF0000000000000 y;
     ddmul_d_dd_dd t x }"

definition sf64_sin :: "bool \<Rightarrow> f64 \<Rightarrow> f64 entry" where
  "sf64_sin snan d = entry snan
     (if sl_isnan d \<or> sl_isinf d then return qNaN
      else flushed (do {
        (s_dd, ql) \<leftarrow> sin_reduce d;
        r \<leftarrow> sin_core s_dd;
        let r = (if ql AND 1 \<noteq> 0 then sl_neg r else r);
        return (if is_neg_zero d then d else r) }))"

definition cos_reduce :: "f64 \<Rightarrow> (DD \<times> int) sl" where
  "cos_reduce absd =
     (if sl_lt absd kTRIGRANGEMAX2 then do {
        y \<leftarrow> sl_fma absd 0x3FD45F306DC9C883 0xBFE0000000000000;
        i \<leftarrow> to_i32 (sl_rint y);
        let ql = 2 * i + 1;
        qf \<leftarrow> from_i64 ql;
        h \<leftarrow> sl_mul (sl_neg kPI_A2) 0x3FE0000000000000;
        y \<leftarrow> sl_mul qf h;
        s \<leftarrow> ddadd2_dd_d_d absd y;
        qf \<leftarrow> from_i64 ql;
        h \<leftarrow> sl_mul (sl_neg kPI_B2) 0x3FE0000000000000;
        y \<leftarrow> sl_mul qf h;
        s \<leftarrow> ddadd_dd_dd_d s y;
        return (s, ql) }
      else if sl_lt absd kTRIGRANGEMAX then do {
        h \<leftarrow> sl_mul 0x3FD45F306DC9C883 0x3E80000000000000;
        x \<leftarrow> sl_mul absd h;
        h \<leftarrow> sl_mul 0x3FD45F306DC9C883 0x3E80000000000000;
        y \<leftarrow> sl_mul 0x3FE0000000000000 h;
        y \<leftarrow> sl_sub x y;
        let dqh_small = sl_trunc y;
        x \<leftarrow> sl_fma absd 0x3FD45F306DC9C883 0xBFE0000000000000;
        y \<leftarrow> sl_mul dqh_small 0x4160000000000000;
        y \<leftarrow> sl_sub x y;
        i \<leftarrow> to_i32 (sl_rint y);
        let ql = 2 * i + 1;
        dqh \<leftarrow> sl_mul dqh_small 0x4170000000000000;
        h \<leftarrow> sl_mul (sl_neg kPI_A) 0x3FE0000000000000;
        u \<leftarrow> sl_fma dqh h absd;
        qf \<leftarrow> from_i64 ql;
        h \<leftarrow> sl_mul (sl_neg kPI_A) 0x3FE0000000000000;
        y \<leftarrow> sl_mul qf h;
        s \<leftarrow> ddadd2_dd_d_d u y;
        h \<leftarrow> sl_mul (sl_neg kPI_B) 0x3FE0000000000000;
        y \<leftarrow> sl_mul dqh h;
        s \<leftarrow> ddadd2_dd_dd_d s y;
        qf \<leftarrow> from_i64 ql;
        h \<leftarrow> sl_mul (sl_neg kPI_B) 0x3FE0000000000000;
        y \<leftarrow> sl_mul qf h;
        s \<leftarrow> ddadd2_dd_dd_d s y;
        h \<leftarrow> sl_mul (sl_neg kPI_C) 0x3FE0000000000000;
        y \<leftarrow> sl_mul dqh h;
        s \<leftarrow> ddadd2_dd_dd_d s y;
        qf \<leftarrow> from_i64 ql;
        h \<leftarrow> sl_mul (sl_neg kPI_C) 0x3FE0000000000000;
        y \<leftarrow> sl_mul qf h;
        s \<leftarrow> ddadd2_dd_dd_d s y;
        qf \<leftarrow> from_i64 ql;
        x \<leftarrow> sl_add dqh qf;
        h \<leftarrow> sl_mul (sl_neg kPI_D) 0x3FE0000000000000;
        y \<leftarrow> sl_mul x h;
        s \<leftarrow> ddadd_dd_dd_d s y;
        return (s, ql) }
      else do {
        rr \<leftarrow> rempi absd;
        let signhi = (if sl_gt (dd_hi (rr_dd rr)) 0 then 1 else 0 :: int);
        let ql = drop_bit 1 ((rr_q rr AND 3) * 2 + signhi + 7);
        s \<leftarrow> (if rr_q rr AND 1 = 0 then quarter_adjust (rr_dd rr) else return (rr_dd rr));
        s \<leftarrow> ddnormalize_dd_dd s;
        return (s, ql) })"

definition sf64_cos :: "bool \<Rightarrow> f64 \<Rightarrow> f64 entry" where
  "sf64_cos snan d = entry snan
     (if sl_isnan d \<or> sl_isinf d then return qNaN
      else flushed (do {
        (s_dd, ql) \<leftarrow> cos_reduce (sf64_internal_fabs d);
        r \<leftarrow> sin_core s_dd;
        return (if ql AND 2 = 0 then sl_neg r else r) }))"

text \<open>The pointers of \<open>sf64_sincos\<close>: \<open>True\<close> for one that is not null, and the stores made.\<close>

definition sf64_sincos :: "bool \<Rightarrow> f64 \<Rightarrow> bool \<Rightarrow> bool \<Rightarrow> (f64 option \<times> f64 option) entry" where
  "sf64_sincos snan d s_out c_out m t w =
     (let (s, w) = (if s_out then map_prod Some id (sf64_sin snan d m t w) else (None, w));
          (c, w) = (if c_out then map_prod Some id (sf64_cos snan d m t w) else (None, w))
      in ((s, c), w))"

section \<open>Tangent\<close>

definition tan_reduce :: "f64 \<Rightarrow> (DD \<times> int) sl" where
  "tan_reduce d =
     (let absd = sf64_internal_fabs d
      in if sl_lt absd kTRIGRANGEMAX2 then do {
           y \<leftarrow> sl_mul d k2_PI;
           let qf = sl_rint y;
           ql \<leftarrow> to_i32 qf;
           u \<leftarrow> sl_fma qf (sl_neg kPI_A2_H) d;
           y \<leftarrow> sl_mul qf (sl_neg kPI_B2_H);
           s \<leftarrow> ddadd_dd_d_d u y;
           return (s, ql) }
         else if sl_lt absd kTRIGRANGEMAX then do {
           y \<leftarrow> sl_mul k2_PI 0x3E70000000000000;
           y \<leftarrow> sl_mul d y;
           dqh \<leftarrow> sl_mul (sl_trunc y) 0x4170000000000000;
           let sgnhalf = (if sl_lt d 0 then 0xBFE0000000000000 else 0x3FE0000000000000);
           x \<leftarrow> sl_mul k2_PI d;
           y \<leftarrow> sl_sub sgnhalf dqh;
           s_q \<leftarrow> ddadd2_dd_d_d x y;
           y \<leftarrow> sl_add (dd_hi s_q) (dd_lo s_q);
           let qf_d = sl_trunc y;
           ql \<leftarrow> to_i32 qf_d;
           u \<leftarrow> sl_fma dqh (sl_neg kPI_A_H) d;
           y \<leftarrow> sl_mul qf_d (sl_neg kPI_A_H);
           s \<leftarrow> ddadd_dd_d_d u y;
           y \<leftarrow> sl_mul dqh (sl_neg kPI_B_H);
           s \<leftarrow> ddadd2_dd_dd_d s y;
           y \<leftarrow> sl_mul qf_d (sl_neg kPI_B_H);
           s \<leftarrow> ddadd2_dd_dd_d s y;
           y \<leftarrow> sl_mul dqh (sl_neg kPI_C_H);
           s \<leftarrow> ddadd2_dd_dd_d s y;
           y \<leftarrow> sl_mul qf_d (sl_neg kPI_C_H);
           s \<leftarrow> ddadd2_dd_dd_d s y;
           y \<leftarrow> sl_add dqh qf_d;
           y \<leftarrow> sl_mul y (sl_neg kPI_D_H);
           s \<leftarrow> ddadd_dd_dd_d s y;
           return (s, ql) }
         else do {
           rr \<leftarrow> rempi d;
           return (rr_dd rr, rr_q rr) })"

definition sf64_tan :: "bool \<Rightarrow> f64 \<Rightarrow> f64 entry" where
  "sf64_tan snan d = entry snan
     (if sl_isnan d \<or> sl_isinf d then return qNaN
      else flushed (do {
        (s_dd, ql) \<leftarrow> tan_reduce d;
        t \<leftarrow> ddscale_dd_dd_d s_dd 0x3FE0000000000000;
        s \<leftarrow> ddsqu_dd_dd t;
        let sx = dd_hi s;
        u \<leftarrow> sl_fma 0x3F35445F555134ED sx 0x3F4269BE400DE3AF;
        u \<leftarrow> sl_fma u sx 0x3F57EEF631E20B93;
        u \<leftarrow> sl_fma u sx 0x3F6D6C27C371C959;
        u \<leftarrow> sl_fma u sx 0x3F8226E7BFA35090;
        u \<leftarrow> sl_fma u sx 0x3F9664F4729F98E5;
        u \<leftarrow> sl_fma u sx 0x3FABA1BA1BDCEC06;
        u \<leftarrow> sl_fma u sx 0x3FC111111110E933;
        u \<leftarrow> sl_fma u sx 0x3FD5555555555568;
        st \<leftarrow> ddmul_dd_dd_dd s t;
        stu \<leftarrow> ddmul_dd_dd_d st u;
        x \<leftarrow> ddadd_dd_dd_dd t stu;
        xx \<leftarrow> ddsqu_dd_dd x;
        y \<leftarrow> ddadd_dd_d_dd 0xBFF0000000000000 xx;
        x \<leftarrow> ddscale_dd_dd_d x 0xC000000000000000;
        let (x, y) = (if ql AND 1 \<noteq> 0 then (y, ddneg_dd_dd x) else (x, y));
        x \<leftarrow> dddiv_dd_dd_dd x y;
        r \<leftarrow> sl_add (dd_hi x) (dd_lo x);
        return (if is_neg_zero d then d else r) }))"

section \<open>Pi-scaled functions\<close>

definition kSinpiClamp :: f64 where "kSinpiClamp = 0x41ADCD6500000000"

definition sf64_sinpi :: "bool \<Rightarrow> f64 \<Rightarrow> f64 entry" where
  "sf64_sinpi snan x = entry snan
     (if sl_isnan x \<or> sl_isinf x then return qNaN
      else if sl_gt (sf64_internal_fabs x) kSinpiClamp then return (if is_neg_zero x then x else 0)
      else flushed (do {
        r \<leftarrow> sinpi_core x;
        ret \<leftarrow> sl_add (dd_hi r) (dd_lo r);
        return (if is_neg_zero x then 0x8000000000000000 else ret) }))"

definition sf64_cospi :: "bool \<Rightarrow> f64 \<Rightarrow> f64 entry" where
  "sf64_cospi snan x = entry snan
     (if sl_isnan x \<or> sl_isinf x then return qNaN
      else if sl_gt (sf64_internal_fabs x) kSinpiClamp then return 0x3FF0000000000000
      else flushed (do {
        r \<leftarrow> cospi_core x;
        sl_add (dd_hi r) (dd_lo r) }))"

definition sf64_tanpi :: "bool \<Rightarrow> f64 \<Rightarrow> f64 entry" where
  "sf64_tanpi snan x = entry snan
     (if sl_isnan x \<or> sl_isinf x then return qNaN
      else if sl_gt (sf64_internal_fabs x) kSinpiClamp then return 0
      else do {
        s \<leftarrow> sinpi_core x;
        c \<leftarrow> cospi_core x;
        ch \<leftarrow> sl_add (dd_hi c) (dd_lo c);
        if sl_eq ch 0 then do {
          sh \<leftarrow> sl_add (dd_hi s) (dd_lo s);
          fe_flush;
          return (if sl_signbit sh then sl_neg positive_infinity else positive_infinity) }
        else flushed (do {
          r \<leftarrow> dddiv_dd_dd_dd s c;
          sl_add (dd_hi r) (dd_lo r) }) })"

end
