(* ===== verification/Sf_Sleef_Special.thy ===== *)
theory Sf_Sleef_Special
  imports Sf_Sleef_Trig
begin

text \<open>
  \<open>src/sleef/sleef_special.cpp\<close>: the pi-scaled inverse trigonometric functions, the integer roots,
  the error function and its complement, and the gamma functions.  An entry that calls another public
  entry (\<open>sf64_asin\<close>, \<open>sf64_pow\<close>) leaves that one an accumulator of its own.
\<close>

section \<open>Pi-scaled inverse trigonometric functions\<close>

definition kInvPI_hi :: f64 where "kInvPI_hi = 0x3FD45F306DC9C883"
definition kInvPI_lo :: f64 where "kInvPI_lo = 0xBC76B01EC5417056"

definition call_fn :: "(bool \<Rightarrow> f64 entry) \<Rightarrow> f64 sl" where
  "call_fn f = do { p \<leftarrow> snan_propagate; call_entry (f p) }"

text \<open>The multiplication by \<open>1 / pi\<close> the four functions end with.\<close>

definition over_pi :: "f64 \<Rightarrow> f64 sl" where
  "over_pi a = do {
     prod \<leftarrow> ddmul_dd_d_d a kInvPI_hi;
     y \<leftarrow> sl_mul a kInvPI_lo;
     with_lo \<leftarrow> ddadd2_dd_dd_d prod y;
     dd_to_d with_lo }"

definition sf64_asinpi :: "bool \<Rightarrow> f64 \<Rightarrow> f64 entry" where
  "sf64_asinpi snan x = entry snan (do {
     a \<leftarrow> call_fn (\<lambda>p. sf64_asin p x);
     if sl_isnan a \<or> sl_isinf a then return a else flushed (over_pi a) })"

definition sf64_acospi :: "bool \<Rightarrow> f64 \<Rightarrow> f64 entry" where
  "sf64_acospi snan x = entry snan (do {
     a \<leftarrow> call_fn (\<lambda>p. sf64_acos p x);
     if sl_isnan a \<or> sl_isinf a then return a else flushed (over_pi a) })"

definition sf64_atanpi :: "bool \<Rightarrow> f64 \<Rightarrow> f64 entry" where
  "sf64_atanpi snan x = entry snan (do {
     a \<leftarrow> call_fn (\<lambda>p. sf64_atan p x);
     if sl_isnan a then return a
     else if sl_isinf x then return (if sl_signbit x then 0xBFE0000000000000 else 0x3FE0000000000000)
     else flushed (over_pi a) })"

definition sf64_atan2pi :: "bool \<Rightarrow> f64 \<Rightarrow> f64 \<Rightarrow> f64 entry" where
  "sf64_atan2pi snan y x = entry snan (do {
     a \<leftarrow> call_fn (\<lambda>p. sf64_atan2 p y x);
     if sl_isnan a then return a else flushed (over_pi a) })"

section \<open>Integer roots\<close>

definition sf64_rootn :: "bool \<Rightarrow> f64 \<Rightarrow> int \<Rightarrow> f64 entry" where
  "sf64_rootn snan x n = entry snan
     (if sl_isnan x then return qNaN
      else if n = 0 then return qNaN
      else if n = 1 then return x
      else
        let n_odd = (n AND 1 \<noteq> 0)
        in if sl_eq x 0 then
             return (if 0 < n then (if sl_signbit x \<and> n_odd then sl_neg 0 else 0)
                     else (if sl_signbit x \<and> n_odd then sl_neg positive_infinity else positive_infinity))
           else if sl_isinf x then
             return (if 0 < n then
                       (if \<not> sl_signbit x then positive_infinity
                        else if n_odd then sl_neg positive_infinity else qNaN)
                     else (if sl_signbit x \<and> n_odd then sl_neg 0 else 0))
           else if sl_lt x 0 \<and> \<not> n_odd then return qNaN
           else if n = 2 then sl_sqrt x
           else if n = 3 then call_fn (\<lambda>p. sf64_cbrt p x)
           else if n = - 1 then sl_div 0x3FF0000000000000 x
           else if sl_eq (sf64_internal_fabs x) 0x3FF0000000000000 then
             return (if sl_signbit x \<and> n_odd then 0xBFF0000000000000 else 0x3FF0000000000000)
           else do {
             nf \<leftarrow> from_i32 n;
             inv_n \<leftarrow> sl_div 0x3FF0000000000000 nf;
             r \<leftarrow> call_fn (\<lambda>p. sf64_pow p (sf64_internal_fabs x) inv_n);
             let r = (if sl_signbit x \<and> n_odd then sl_neg r else r);
             fe_flush;
             return r })"

section \<open>Error function\<close>

definition kErfU1Mid :: "f64 list" where
  "kErfU1Mid =
    [0xBCE2C3B22506A156, 0x3D34217E87587BF7, 0xBD7472416FFC3234,
     0x3DAA174191B8686F, 0xBDD75D530AA2E1CA, 0x3DFEF9EFF17B4EAD,
     0xBE1F0FDD1AEC5D50, 0x3E3757EF87D51A91, 0xBE4890E0470FD3B7,
     0x3E4A19F70DBB989D, 0x3E51EE20B5C37FF9, 0xBE7A540EBB3D4859,
     0x3E82A491CFBDB8B7, 0x3E93C45AFD7DDBAD, 0xBEBEEB4611F9338C,
     0x3ECCAC12AF48B032, 0x3ED030E5B0A2A872, 0xBF0159CE3CC246F6,
     0x3F1BCF549F8C8A76, 0x3F2E738B43AF4FCE, 0x3F23881CDCAA6066]"

definition kErfU1Tail :: "f64 list" where
  "kErfU1Tail =
    [0xBC1DB12650E7A6A5, 0x3C862D748C3F51DE, 0xBCDF834C18BDE276,
     0x3D2C5071A3CA8E90, 0xBD72092FE0493EAE, 0x3DB14D8F28544CBF,
     0xBDE9E70D8414C7FB, 0x3E1EE46D04A9D2F5, 0xBE4DA6BA50BEF2E9,
     0x3E76E2D20353F5AF, 0xBE9BEB98681A9EA7, 0x3EB974A2EEA3BEF5,
     0xBECC081ACA14C117, 0xBEC518F8BBE41897, 0x3F1124BD46F0EA47,
     0xBF3745B2D88FAAFC, 0x3F53D631FC77E546, 0xBF65584515AA905A,
     0x3F5486B8ABA81134, 0x3F92A385C49ACB1A, 0xBFBA26E0815DE2D5]"

definition poly4dd :: "f64 \<Rightarrow> f64 \<Rightarrow> DD \<Rightarrow> DD \<Rightarrow> DD \<Rightarrow> DD sl" where
  "poly4dd x c3 c2 c1 c0 = do {
     x2 \<leftarrow> sl_mul x x;
     y \<leftarrow> sl_mul c3 x;
     p1 \<leftarrow> ddadd2_dd_d_dd y c2;
     y \<leftarrow> ddmul_dd_dd_d c1 x;
     q1 \<leftarrow> ddadd2_dd_dd y c0;
     y \<leftarrow> ddmul_dd_dd_d p1 x2;
     ddadd2_dd_dd y q1 }"

text \<open>The inner branch: the reciprocal of the sixteenth power of a polynomial.\<close>

definition erf_mid :: "f64 \<Rightarrow> DD sl" where
  "erf_mid xa = do {
     t \<leftarrow> poly_array xa kErfU1Mid;
     r2 \<leftarrow> poly4dd xa t (dd 0x3F83057ADB0D1F3E 0x3C2D407F8E6366F4)
                        (dd 0x3FA5A52374A6650A 0x3C0457E94FAECD28)
                        (dd 0x3FB20DD750429B6D 0x3C31AE3AA24C5EA2);
     y \<leftarrow> ddmul_dd_dd_d r2 xa;
     r2 \<leftarrow> ddadd2_dd_d_dd 0x3FF0000000000000 y;
     r2 \<leftarrow> ddsqu_dd_dd r2;
     r2 \<leftarrow> ddsqu_dd_dd r2;
     r2 \<leftarrow> ddsqu_dd_dd r2;
     r2 \<leftarrow> ddsqu_dd_dd r2;
     ddrec_dd_dd r2 }"

text \<open>The outer branch: an exponential of a polynomial.\<close>

definition erf_tail :: "f64 \<Rightarrow> DD sl" where
  "erf_tail xa = do {
     t \<leftarrow> poly_array xa kErfU1Tail;
     r2 \<leftarrow> poly4dd xa t (dd 0xBFE4619202D843A6 0xBC7BF52EB7E76AAC)
                        (dd 0xBFF20D7C8C3DD086 0xBC9226641212ABC0)
                        (dd 0xBEE9B6BE22840FE1 0xBB84E72934B4BB07);
     e \<leftarrow> sf64_internal_expk_dd r2;
     return (dd e 0) }"

definition sf64_erf :: "bool \<Rightarrow> f64 \<Rightarrow> f64 entry" where
  "sf64_erf snan x = entry snan
     (if sl_isnan x then return qNaN
      else if sl_eq x 0 then return x
      else if sl_isinf x then return (if sl_signbit x then 0xBFF0000000000000 else 0x3FF0000000000000)
      else
        let xa = sf64_internal_fabs x
        in if sl_lt xa 0x3E45798EE2308C3A then do {
             r \<leftarrow> sl_mul 0x3FF20DD750429B6D xa;
             fe_flush;
             return (if sl_signbit x then sl_neg r else r) }
           else if \<not> sl_lt xa 0x4004000000000000 \<and> sl_gt xa 0x4018000000000000 then
             return (if sl_signbit x then 0xBFF0000000000000 else 0x3FF0000000000000)
           else do {
             t2 \<leftarrow> (if sl_lt xa 0x4004000000000000 then erf_mid xa else erf_tail xa);
             t2 \<leftarrow> ddadd2_dd_dd_d t2 0xBFF0000000000000;
             y \<leftarrow> sl_add (dd_hi t2) (dd_lo t2);
             let r = sl_neg y;
             let r = (if sl_signbit x then sl_neg r else r);
             fe_flush;
             return r })"

section \<open>Complementary error function\<close>

definition kErfcCoefO0 :: "f64 list" where
  "kErfcCoefO0 =
    [0x3BC00EFEFABE9897, 0xBC0FE6EC06B043F2, 0x3C55A7F67BDE0C13,
     0xBC9A15164BF4F369, 0x3CDD6F95068FEEA4, 0xBD1F56D9FF51274F,
     0x3D5F683984140301, 0xBD9D8453B9E7FD78, 0x3DD9E6AD5DAB7037,
     0xBE151D7181C08BA0, 0x3E4FCC572062092A, 0xBE85F742EC43E5BC,
     0x3EBB9E6C9DC6519D, 0xBEEF4D25C3E0C2E2, 0x3F1F9A326F9B89C2,
     0xBF4C02DB40040B83, 0x3F7565BCD0E6A53F, 0xBF9B82CE31288B51]"

definition kErfcCoefO1 :: "f64 list" where
  "kErfcCoefO1 =
    [0x3D58315E6C186224, 0xBDAB33CF696F6246, 0x3DED1C000C3FE200,
     0xBE23ACFF2B1B8BEC, 0x3E52C76D37FDB57D, 0xBE7ABA200DE4015C,
     0x3E9D0EE6A4A80D73, 0xBEB8137ED27E2624, 0x3ECD0697CBB9A376,
     0xBED4ECCCA37D22C1, 0xBEB5F5266774B791, 0x3EFD9F88B02EA0EC,
     0xBF10C2E202FB0D80, 0xBEFAE939BE608207, 0x3F4351BFC5997AEF,
     0xBF5BC858BD2C3DEE, 0x3F2B61E95A64E1B4, 0x3F93966FE5D12A2E]"

definition kErfcCoefO2 :: "f64 list" where
  "kErfcCoefO2 =
    [0xC04CCA024E41FBF2, 0x407D2EDD0AE020CC, 0xC09C1151CBEBE895,
     0x40B103E466CE6960, 0xC0BD20424648FD63, 0x40C2A8FD1A1289EB,
     0xC0C27F028C42F7FD, 0x40BCDB58257A0C6D, 0xC0B1CDB68AB7C4E4,
     0x40A13FBBE32520BC, 0xC089AE616A35F399, 0x406C5BB5D950D59F,
     0xC0472AB3D15A1B99, 0x40231D60ED75C166, 0xC007AADCFF61A9EE,
     0x3FC56155F28A44A2, 0x3FE38258FA079AD9, 0x3F515AA8B364E28B]"

definition kErfcCoefO3 :: "f64 list" where
  "kErfcCoefO3 =
    [0x40D6CB9FD3B439A9, 0xC0E6ED9388CD091B, 0x40DEFD81FD565E63,
     0x40A955F72FDA349C, 0xC0D3ACCB8514AB13, 0x40CE5A08EC3F1AF9,
     0xC0B806DFCAF3E8F0, 0x40936030E9797DA0, 0xC054869BB9D7AF08,
     0x4040365402C89D37, 0xC03D3BF3C95EBAA1, 0x3FD620B48EBD7FD2,
     0x4015F57BD26EB8D7, 0x3F598ED6853E65C9, 0xBFF8AAF93486CD89,
     0x3EC7AEAC5A2C6C34, 0x3FE3FFFFD433AA8A, 0x3E1DEC4B817418DD]"

definition sf64_erfc :: "bool \<Rightarrow> f64 \<Rightarrow> f64 entry" where
  "sf64_erfc snan x = entry snan
     (if sl_isnan x then return qNaN
      else if sl_isinf x then return (if sl_signbit x then 0x4000000000000000 else 0)
      else
        let a = sf64_internal_fabs x;
            o0 = sl_lt a 0x3FF0000000000000; o1 = sl_lt a 0x400199999999999A; o2 = sl_lt a 0x4010CCCCCCCCCCCD; o3 = sl_lt a 0x403B4CCCCCCCCCCD
        in do {
          u \<leftarrow> (if o0 then ddmul_dd_d_d a a
                else if o1 then return (dd a 0)
                else dddiv_dd_dd_dd (dd 0x3FF0000000000000 0) (dd a 0));
          t \<leftarrow> poly_array (dd_hi u)
                 (if o0 then kErfcCoefO0 else if o1 then kErfcCoefO1 else if o2 then kErfcCoefO2 else kErfcCoefO3);
          d \<leftarrow> ddmul_dd_dd_d u t;
          d \<leftarrow> ddadd2_dd_dd d (if o0 then dd 0x3FBCE2F21A042BE2 0xBC52871BC5EF8ED7
                              else if o1 then dd 0xBFBA4F4EAB8311A0 0xBC5CBFA8068241AE
                              else if o2 then dd 0xBFE0006CA4753FC8 0x3C7E64BB064EBF0B
                              else dd 0xBFE0000000038D52 0xBC8719E29ACB2723);
          d \<leftarrow> ddmul_dd_dd_dd d u;
          d \<leftarrow> ddadd2_dd_dd d (if o0 then dd 0xBFD812746B0379E7 0x3C6EE12E49CAD52E
                              else if o1 then dd 0xBFE45F306B230D62 0x3C619932A20CE10B
                              else if o2 then dd 0x3EBADCB2F72A1080 0x3B2CF38C548C5245
                              else dd 0x3D50B89397C75A64 0xB9ED96501FDC09B6);
          d \<leftarrow> ddmul_dd_dd_dd d u;
          d \<leftarrow> ddadd2_dd_dd d (if o0 then dd 0x3FF20DD750429B6D 0x3C71AE3A914FED6D
                              else if o1 then dd 0xBFF20DD7505C75E8 0x3C9751223FE9154D
                              else if o2 then dd 0xBFE250D055891FD0 0x3C81B3313996DEA7
                              else dd 0xBFE250D048E7A1C6 0xBC7BA6EE6A6AB496);
          xx \<leftarrow> ddmul_dd_dd_d (if o1 then d else dd (sl_neg a) 0) a;
          xx \<leftarrow> (if \<not> o1 then ddadd2_dd_dd xx d else return xx);
          xx \<leftarrow> (if o0 then ddsub_dd_dd_dd (dd 0x3FF0000000000000 0) xx else sf64_internal_expk2_dd xx);
          xx \<leftarrow> (if \<not> o1 then ddmul_dd_dd_dd xx u else return xx);
          r \<leftarrow> (if o3 then sl_add (dd_hi xx) (dd_lo xx) else return 0);
          r \<leftarrow> (if sl_signbit x then sl_sub 0x4000000000000000 r else return r);
          fe_flush;
          return r })"

section \<open>Gamma functions\<close>

record GammakRet =
  gk_clc :: DD
  gk_div :: DD

text \<open>The three columns of coefficients: \<open>o2\<close>, \<open>o0\<close> and neither.\<close>

definition gamma_coeffs :: "bool \<Rightarrow> bool \<Rightarrow> f64 list" where
  "gamma_coeffs o2 o0 =
    (if o2 then
    [0xC06399A52C414C0D, 0x3FF1EED0A9756022, 0x402ACBC4BFE43E00,
     0xBFBDD5FA0E771B94, 0xBFF644D13921C967, 0x3F8ED5BD48E4F389,
     0x3FC6FB2BA98C8BC4, 0xBF645497F334CD1D, 0xBF9E3C8E8BED86BB,
     0x3F41B33B019B3E6F, 0x3F7A3A699F4A401B, 0xBF254D241144693F,
     0xBF5F5DBCAF756CDE, 0x3F12E31F9B7913EA, 0x3F4B8239C670E690,
     0xBF0B1D75D3346711, 0xBF436773BDB97B48, 0x3F1247604839C038,
     0x3F49B0FF6874F2C4, 0xBF2E13CE465FA859, 0xBF65F7268EDAB4C8,
     0x3F6C71C71C71C71C, 0x3FB5555555555555]
    else if o0 then
    [0x403D7AAABC7A3EA1, 0x406004ABC79048B9, 0x40705C120870277A,
     0x40748B3C8FCAD7FF, 0x40719D088C23DF05, 0x40659BBECDBF523B,
     0x40535F30DE19A3FA, 0x403920E9BAC7B07E, 0x40171131F32ACF74,
     0x3FE743CF466BEB1B, 0x3FB57EDE06D746AF, 0xBFB50586EF5B83AC,
     0x3FB17B57DDB9E32F, 0xBFB3BE73A742EECE, 0x3FB5580F0BB1F8CA,
     0xBFB74879E96382CA, 0x3FB9A0212305C3B9, 0xBFBC80675DF4ED19,
     0x3FC010B3663D08D8, 0xBFC2703A1DD72363, 0x3FC5B40CB1047E2E,
     0xBFCA8B9C17AA3C08, 0x3FD151322AC7D813]
    else
    [0x3E72FDC6CB0D558F, 0x3E9AE7D44E1AB8F6, 0x3EB1734224875A66,
     0x3EB94E4F6E12FEE0, 0x3EB59C884A045AF0, 0x3E9FD66B0AC39DFF,
     0xBE71986F7AC19AC9, 0xBE956718120CF4B7, 0x3E823D16D999C674,
     0xBE9D26D12E073976, 0x3EB050C384661C46, 0xBEC1162DF3C28D5A,
     0x3ED257DCE81F6BB4, 0xBEE3CC0905ECA8BE, 0x3EF580E0E2726AC9,
     0xBF078DE48A7816D9, 0x3F1A127B0D3DBB7D, 0xBF2D3FD4CA9D6B1F,
     0x3F40B36AF85EF785, 0xBF538AC5C2BD10CA, 0x3F67ADD6EADB7260,
     0xBF7E404FC218F817, 0x3F951322AC7D8485])"

text \<open>One step \<open>y = normalize ((x + c) y)\<close> of the rising product.\<close>

definition gamma_raise :: "DD \<Rightarrow> f64 \<Rightarrow> DD \<Rightarrow> DD sl" where
  "gamma_raise x c y = do {
     z \<leftarrow> ddadd2_dd_dd_d x c;
     z \<leftarrow> ddmul_dd_dd_dd z y;
     ddnormalize_dd_dd z }"

text \<open>The logarithm of gamma near its roots, and Stirling's form beyond.\<close>

definition gamma_z_path :: "bool \<Rightarrow> f64 \<Rightarrow> f64 \<Rightarrow> DD sl" where
  "gamma_z_path o0 u t = do {
     z \<leftarrow> ddmul_dd_d_d u t;
     z \<leftarrow> ddadd2_dd_dd_d z (if o0 then 0xBFD9A4D55BEAB2D8 else 0xBFB13E001A557607);
     z \<leftarrow> ddmul_dd_dd_d z t;
     z \<leftarrow> ddadd2_dd_dd_d z (if o0 then 0x3FEA51A6625307D3 else 0x3FD4A34CC4A60FA6);
     z \<leftarrow> ddmul_dd_dd_d z t;
     z \<leftarrow> ddadd2_dd_dd_d z (if o0 then 0xBFE2788CFC6FB619 else 0x3FDB0EE6072093CE);
     ddmul_dd_dd_d z t }"

definition gamma_y_path :: "DD \<Rightarrow> DD sl" where
  "gamma_y_path x = do {
     y \<leftarrow> ddadd2_dd_dd_d x 0xBFE0000000000000;
     l \<leftarrow> sf64_internal_logk2_dd x;
     y \<leftarrow> ddmul_dd_dd_dd y l;
     y \<leftarrow> ddadd2_dd_dd y (ddneg_dd_dd x);
     ddadd2_dd_dd y (dd 0x3FED67F1C864BEB5 0xBC865B5A1B7FF5DF) }"

text \<open>The sine of the reflection formula, its argument reduced by multiples of \<open>2\<^sup>2\<^sup>8\<close>.\<close>

definition gamma_reflect :: "f64 \<Rightarrow> DD \<Rightarrow> DD sl" where
  "gamma_reflect a clld = do {
     y \<leftarrow> sl_mul a 0x3E30000000000000;
     k \<leftarrow> to_i32 (sf64_internal_trunc y);
     kf \<leftarrow> from_i32 k;
     y \<leftarrow> sl_mul kf 0x41B0000000000000;
     red \<leftarrow> sl_sub a y;
     s \<leftarrow> sf64_internal_sinpik_dd red;
     ddmul_dd_dd_dd clld s }"

definition gammak :: "f64 \<Rightarrow> GammakRet sl" where
  "gammak a = do {
     let otiny = sl_lt (sf64_internal_fabs a) 0x0066789E3750F791;
     let oref = sl_lt a 0x3FE0000000000000;
     x \<leftarrow> (if otiny then return (dd 0 0)
           else if oref then ddadd2_dd_d_d 0x3FF0000000000000 (sl_neg a)
           else return (dd a 0));
     let o0 = (sl_ge (dd_hi x) 0x3FE0000000000000 \<and> sl_le (dd_hi x) 0x3FF199999999999A);
     let o2 = sl_gt (dd_hi x) 0x4002666666666666;
     y \<leftarrow> gamma_raise x 0x3FF0000000000000 x;
     y \<leftarrow> gamma_raise x 0x4000000000000000 y;
     y \<leftarrow> gamma_raise x 0x4008000000000000 y;
     y \<leftarrow> gamma_raise x 0x4010000000000000 y;
     let shift_up = (o2 \<and> sl_le (dd_hi x) 0x401C000000000000);
     let clln = (if shift_up then y else dd 0x3FF0000000000000 0);
     x \<leftarrow> (if shift_up then ddadd2_dd_dd_d x 0x4014000000000000 else return x);
     t \<leftarrow> (if o2 then sl_div 0x3FF0000000000000 (dd_hi x)
           else do {
             z \<leftarrow> ddadd2_dd_dd_d x (if o0 then 0xBFF0000000000000 else 0xC000000000000000);
             z \<leftarrow> ddnormalize_dd_dd z;
             return (dd_hi z) });
     u \<leftarrow> horner t (hd (gamma_coeffs o2 o0)) (tl (gamma_coeffs o2 o0));
     y_path \<leftarrow> gamma_y_path x;
     z \<leftarrow> gamma_z_path o0 u t;
     let clc = (if o2 then y_path else z);
     clld \<leftarrow> (if o2 then do { y \<leftarrow> ddmul_dd_d_d u t; ddadd2_dd_dd_d y 0x3FF0000000000000 } else return (dd 0x3FF0000000000000 0));
     let y = clln;
     clc \<leftarrow> (if otiny then return (dd 0x4054CB5ECF0A9650 0x3CF0886A2BC2F41E)
             else if oref then ddadd2_dd_dd (dd 0x3FF250D048E7A1BD 0x3C67ABF2AD8D5088) (ddneg_dd_dd clc)
             else return clc);
     let clln = (if otiny then dd 0x3FF0000000000000 0 else if \<not> oref then clld else clln);
     x \<leftarrow> (if oref then gamma_reflect a clld else return x);
     clld \<leftarrow> (if otiny then do {
                c \<leftarrow> sl_mul 0x43B0000000000000 0x43B0000000000000;
                h \<leftarrow> sl_mul a c;
                return (dd h 0) }
              else if oref then return x
              else return y);
     q \<leftarrow> dddiv_dd_dd_dd clln clld;
     return \<lparr>gk_clc = clc, gk_div = q\<rparr> }"

definition kDblMin :: f64 where "kDblMin = 0x0010000000000000"

definition sf64_tgamma :: "bool \<Rightarrow> f64 \<Rightarrow> f64 entry" where
  "sf64_tgamma snan x = entry snan
     (if sl_isnan x then return qNaN
      else do {
        d \<leftarrow> gammak x;
        e \<leftarrow> sf64_internal_expk2_dd (gk_clc d);
        ye \<leftarrow> ddmul_dd_dd_dd e (gk_div d);
        r \<leftarrow> sl_add (dd_hi ye) (dd_lo ye);
        let xnum = (\<not> sl_isnan x \<and> \<not> sl_isinf x);
        pole \<leftarrow> (if sl_isinf x \<and> sl_signbit x then return True
                 else if sl_lt x 0 then is_int x else return False);
        if pole \<or> (xnum \<and> sl_lt x 0 \<and> sl_isnan r) then do { fe_flush; return qNaN }
        else if (sl_eq x positive_infinity \<or> xnum) \<and> sl_ge x (sl_neg kDblMin) \<and>
                (sl_eq x 0 \<or> sl_gt x 0x4069000000000000 \<or> sl_isnan r) then do {
          fe_flush;
          return (if sl_signbit x then sl_neg positive_infinity else positive_infinity) }
        else do { fe_flush; return r } })"

text \<open>The value of \<open>*sign\<close> after the call is the second component; a null pointer stores nothing.\<close>

definition sf64_lgamma_r :: "bool \<Rightarrow> f64 \<Rightarrow> bool \<Rightarrow> (f64 \<times> int option) entry" where
  "sf64_lgamma_r snan x sign = entry snan (do {
     let store = (\<lambda>k. if sign then Some k else None :: int option);
     if sl_isnan x then return (qNaN, store 0)
     else if sl_isinf x then return (positive_infinity, store 1)
     else do {
       pole \<leftarrow> (if sl_lt x 0 then is_int x else return False);
       if pole then return (positive_infinity, store 0)
       else if sl_eq x 0 then return (positive_infinity, store (if sl_signbit x then - 1 else 1))
       else do {
         d \<leftarrow> gammak x;
         l \<leftarrow> sf64_internal_logk2_dd (ddabs_dd_dd (gk_div d));
         ye \<leftarrow> ddadd2_dd_dd (gk_clc d) l;
         r \<leftarrow> sl_add (dd_hi ye) (dd_lo ye);
         let r = (if sl_isinf x \<or> sl_isnan r then positive_infinity else r);
         let local_sign = (if sl_signbit (dd_hi (gk_div d)) then - 1 else 1);
         fe_flush;
         return (r, store local_sign) } } })"

definition sf64_lgamma :: "bool \<Rightarrow> f64 \<Rightarrow> f64 entry" where
  "sf64_lgamma snan x m t w = (let ((r, s), w) = sf64_lgamma_r snan x True m t w in (r, w))"

end
