(* ===== verification/Sf_Ocl.thy ===== *)
theory Sf_Ocl
  imports Sf_Sleef_Rem Sf_Sleef_Special
begin

text \<open>
  \<open>src/ocl.cpp\<close>: the OpenCL surface.  Every entry flushes its subnormal operands and results when the
  library is built with \<open>SOFT_FP64_FTZ\<close> (the parameter \<open>ftz\<close>) and forwards to the entry of the same
  name; the \<open>native\<close> entries have kernels of their own.  A computation over public entries runs in the
  same monad as the elementary functions and never touches its accumulator.
\<close>

section \<open>Flushing and forwarding\<close>

definition ocl_in :: "bool \<Rightarrow> f64 \<Rightarrow> f64" where
  "ocl_in ftz x = (if ftz \<and> is_subnormal_bits x then x AND kSignMask else x)"

definition ocl_out :: "bool \<Rightarrow> f64 \<Rightarrow> f64" where
  "ocl_out ftz x = ocl_in ftz x"

definition abs_bits :: "f64 \<Rightarrow> u64" where
  "abs_bits x = x AND NOT kSignMask"

definition isnan_bits :: "f64 \<Rightarrow> bool" where
  "isnan_bits x = is_nan_bits x"

definition isinf_bits :: "f64 \<Rightarrow> bool" where
  "isinf_bits x = is_inf_bits x"

definition iszero_bits :: "f64 \<Rightarrow> bool" where
  "iszero_bits x = is_zero_bits x"

definition ocl_qnan :: "f64" where
  "ocl_qnan = kCanonicalNaN"

definition olt :: "f64 \<Rightarrow> f64 \<Rightarrow> bool" where
  "olt a b \<longleftrightarrow> sf64_fcmp a b 4 \<noteq> 0"

definition ogt :: "f64 \<Rightarrow> f64 \<Rightarrow> bool" where
  "ogt a b \<longleftrightarrow> sf64_fcmp a b 2 \<noteq> 0"

definition ole :: "f64 \<Rightarrow> f64 \<Rightarrow> bool" where
  "ole a b \<longleftrightarrow> sf64_fcmp a b 5 \<noteq> 0"

definition ocl_unary :: "bool \<Rightarrow> (f64 \<Rightarrow> f64 entry) \<Rightarrow> f64 \<Rightarrow> f64 entry" where
  "ocl_unary ftz f x m t w = (let (r, w) = f (ocl_in ftz x) m t w in (ocl_out ftz r, w))"

definition ocl_binary :: "bool \<Rightarrow> (f64 \<Rightarrow> f64 \<Rightarrow> f64 entry) \<Rightarrow> f64 \<Rightarrow> f64 \<Rightarrow> f64 entry" where
  "ocl_binary ftz f a b m t w = (let (r, w) = f (ocl_in ftz a) (ocl_in ftz b) m t w in (ocl_out ftz r, w))"

definition ocl_to_int :: "bool \<Rightarrow> (f64 \<Rightarrow> 'r entry) \<Rightarrow> f64 \<Rightarrow> 'r entry" where
  "ocl_to_int ftz f x = f (ocl_in ftz x)"

definition ocl_from_int :: "bool \<Rightarrow> ('r \<Rightarrow> f64 entry) \<Rightarrow> 'r \<Rightarrow> f64 entry" where
  "ocl_from_int ftz f x m t w = (let (r, w) = f x m t w in (ocl_out ftz r, w))"

section \<open>Arithmetic, comparison and conversions\<close>

definition sf64_ocl_add :: "bool \<Rightarrow> f64 \<Rightarrow> f64 \<Rightarrow> f64 entry" where
  "sf64_ocl_add ftz a b = ocl_binary ftz sf64_add a b"

definition sf64_ocl_sub :: "bool \<Rightarrow> bool \<Rightarrow> f64 \<Rightarrow> f64 \<Rightarrow> f64 entry" where
  "sf64_ocl_sub ftz snan a b = ocl_binary ftz (sf64_sub snan) a b"

definition sf64_ocl_mul :: "bool \<Rightarrow> f64 \<Rightarrow> f64 \<Rightarrow> f64 entry" where
  "sf64_ocl_mul ftz a b = ocl_binary ftz sf64_mul a b"

definition sf64_ocl_div :: "bool \<Rightarrow> f64 \<Rightarrow> f64 \<Rightarrow> f64 entry" where
  "sf64_ocl_div ftz a b = ocl_binary ftz sf64_div a b"

definition sf64_ocl_rem :: "bool \<Rightarrow> f64 \<Rightarrow> f64 \<Rightarrow> f64 entry" where
  "sf64_ocl_rem ftz a b = ocl_binary ftz sf64_rem a b"

definition sf64_ocl_neg :: "bool \<Rightarrow> f64 \<Rightarrow> f64" where
  "sf64_ocl_neg ftz x = ocl_out ftz (sf64_neg (ocl_in ftz x))"

definition sf64_ocl_fcmp :: "bool \<Rightarrow> f64 \<Rightarrow> f64 \<Rightarrow> int \<Rightarrow> int" where
  "sf64_ocl_fcmp ftz a b pred = sf64_fcmp (ocl_in ftz a) (ocl_in ftz b) pred"

definition sf64_ocl_fmin_precise :: "bool \<Rightarrow> f64 \<Rightarrow> f64 \<Rightarrow> f64" where
  "sf64_ocl_fmin_precise ftz a b = ocl_out ftz (sf64_fmin_precise (ocl_in ftz a) (ocl_in ftz b))"

definition sf64_ocl_fmax_precise :: "bool \<Rightarrow> f64 \<Rightarrow> f64 \<Rightarrow> f64" where
  "sf64_ocl_fmax_precise ftz a b = ocl_out ftz (sf64_fmax_precise (ocl_in ftz a) (ocl_in ftz b))"

definition sf64_ocl_from_f32 :: "bool \<Rightarrow> f32 \<Rightarrow> f64 entry" where
  "sf64_ocl_from_f32 ftz x = ocl_from_int ftz sf64_from_f32 x"

definition sf64_ocl_to_f32 :: "bool \<Rightarrow> f64 \<Rightarrow> f32 entry" where
  "sf64_ocl_to_f32 ftz x = ocl_to_int ftz sf64_to_f32 x"

definition sf64_ocl_from_i8 :: "bool \<Rightarrow> 8 word \<Rightarrow> f64 entry" where
  "sf64_ocl_from_i8 ftz x = ocl_from_int ftz sf64_from_i8 x"

definition sf64_ocl_from_i16 :: "bool \<Rightarrow> 16 word \<Rightarrow> f64 entry" where
  "sf64_ocl_from_i16 ftz x = ocl_from_int ftz sf64_from_i16 x"

definition sf64_ocl_from_i32 :: "bool \<Rightarrow> 32 word \<Rightarrow> f64 entry" where
  "sf64_ocl_from_i32 ftz x = ocl_from_int ftz sf64_from_i32 x"

definition sf64_ocl_from_i64 :: "bool \<Rightarrow> 64 word \<Rightarrow> f64 entry" where
  "sf64_ocl_from_i64 ftz x = ocl_from_int ftz sf64_from_i64 x"

definition sf64_ocl_from_u8 :: "bool \<Rightarrow> 8 word \<Rightarrow> f64 entry" where
  "sf64_ocl_from_u8 ftz x = ocl_from_int ftz sf64_from_u8 x"

definition sf64_ocl_from_u16 :: "bool \<Rightarrow> 16 word \<Rightarrow> f64 entry" where
  "sf64_ocl_from_u16 ftz x = ocl_from_int ftz sf64_from_u16 x"

definition sf64_ocl_from_u32 :: "bool \<Rightarrow> 32 word \<Rightarrow> f64 entry" where
  "sf64_ocl_from_u32 ftz x = ocl_from_int ftz sf64_from_u32 x"

definition sf64_ocl_from_u64 :: "bool \<Rightarrow> 64 word \<Rightarrow> f64 entry" where
  "sf64_ocl_from_u64 ftz x = ocl_from_int ftz sf64_from_u64 x"

definition sf64_ocl_to_i8 :: "bool \<Rightarrow> f64 \<Rightarrow> 8 word entry" where
  "sf64_ocl_to_i8 ftz x = ocl_to_int ftz sf64_to_i8 x"

definition sf64_ocl_to_i16 :: "bool \<Rightarrow> f64 \<Rightarrow> 16 word entry" where
  "sf64_ocl_to_i16 ftz x = ocl_to_int ftz sf64_to_i16 x"

definition sf64_ocl_to_i32 :: "bool \<Rightarrow> f64 \<Rightarrow> 32 word entry" where
  "sf64_ocl_to_i32 ftz x = ocl_to_int ftz sf64_to_i32 x"

definition sf64_ocl_to_i64 :: "bool \<Rightarrow> f64 \<Rightarrow> 64 word entry" where
  "sf64_ocl_to_i64 ftz x = ocl_to_int ftz sf64_to_i64 x"

definition sf64_ocl_to_u8 :: "bool \<Rightarrow> f64 \<Rightarrow> 8 word entry" where
  "sf64_ocl_to_u8 ftz x = ocl_to_int ftz sf64_to_u8 x"

definition sf64_ocl_to_u16 :: "bool \<Rightarrow> f64 \<Rightarrow> 16 word entry" where
  "sf64_ocl_to_u16 ftz x = ocl_to_int ftz sf64_to_u16 x"

definition sf64_ocl_to_u32 :: "bool \<Rightarrow> f64 \<Rightarrow> 32 word entry" where
  "sf64_ocl_to_u32 ftz x = ocl_to_int ftz sf64_to_u32 x"

definition sf64_ocl_to_u64 :: "bool \<Rightarrow> f64 \<Rightarrow> 64 word entry" where
  "sf64_ocl_to_u64 ftz x = ocl_to_int ftz sf64_to_u64 x"

definition sf64_ocl_sqrt :: "bool \<Rightarrow> f64 \<Rightarrow> f64 entry" where
  "sf64_ocl_sqrt ftz x = ocl_unary ftz sf64_sqrt x"

definition sf64_ocl_rsqrt :: "bool \<Rightarrow> f64 \<Rightarrow> f64 entry" where
  "sf64_ocl_rsqrt ftz x = ocl_unary ftz sf64_rsqrt x"

definition sf64_ocl_fma :: "bool \<Rightarrow> f64 \<Rightarrow> f64 \<Rightarrow> f64 \<Rightarrow> f64 entry" where
  "sf64_ocl_fma ftz a b c m t w =
     (let (r, w) = sf64_fma (ocl_in ftz a) (ocl_in ftz b) (ocl_in ftz c) m t w in (ocl_out ftz r, w))"

definition sf64_ocl_floor :: "bool \<Rightarrow> f64 \<Rightarrow> f64" where
  "sf64_ocl_floor ftz x = ocl_out ftz (sf64_floor (ocl_in ftz x))"

definition sf64_ocl_ceil :: "bool \<Rightarrow> f64 \<Rightarrow> f64" where
  "sf64_ocl_ceil ftz x = ocl_out ftz (sf64_ceil (ocl_in ftz x))"

definition sf64_ocl_trunc :: "bool \<Rightarrow> f64 \<Rightarrow> f64" where
  "sf64_ocl_trunc ftz x = ocl_out ftz (sf64_trunc (ocl_in ftz x))"

definition sf64_ocl_round :: "bool \<Rightarrow> f64 \<Rightarrow> f64" where
  "sf64_ocl_round ftz x = ocl_out ftz (sf64_round (ocl_in ftz x))"

definition sf64_ocl_rint :: "bool \<Rightarrow> f64 \<Rightarrow> f64" where
  "sf64_ocl_rint ftz x = ocl_out ftz (sf64_rint (ocl_in ftz x))"

definition sf64_ocl_fract :: "bool \<Rightarrow> bool \<Rightarrow> f64 \<Rightarrow> f64 entry" where
  "sf64_ocl_fract ftz snan x = ocl_unary ftz (sf64_fract snan) x"

definition sf64_ocl_modf :: "bool \<Rightarrow> bool \<Rightarrow> f64 \<Rightarrow> bool \<Rightarrow> (f64 \<times> f64 option) entry" where
  "sf64_ocl_modf ftz snan x iptr m t w =
     (let ((r, i), w) = sf64_modf snan (ocl_in ftz x) iptr m t w in ((ocl_out ftz r, map_option (ocl_out ftz) i), w))"

definition sf64_ocl_ldexp :: "bool \<Rightarrow> f64 \<Rightarrow> int \<Rightarrow> f64" where
  "sf64_ocl_ldexp ftz x n = ocl_out ftz (sf64_ldexp (ocl_in ftz x) n)"

definition sf64_ocl_frexp :: "bool \<Rightarrow> f64 \<Rightarrow> bool \<Rightarrow> f64 \<times> int option" where
  "sf64_ocl_frexp ftz x ex = map_prod (ocl_out ftz) id (sf64_frexp (ocl_in ftz x) ex)"

definition sf64_ocl_ilogb :: "bool \<Rightarrow> f64 \<Rightarrow> int" where
  "sf64_ocl_ilogb ftz x = sf64_ilogb (ocl_in ftz x)"

definition sf64_ocl_logb :: "bool \<Rightarrow> f64 \<Rightarrow> f64 entry" where
  "sf64_ocl_logb ftz x = ocl_unary ftz sf64_logb x"

section \<open>Classification and selection\<close>

definition sf64_ocl_isnan :: "bool \<Rightarrow> f64 \<Rightarrow> int" where
  "sf64_ocl_isnan ftz x = sf64_isnan (ocl_in ftz x)"

definition sf64_ocl_isinf :: "bool \<Rightarrow> f64 \<Rightarrow> int" where
  "sf64_ocl_isinf ftz x = sf64_isinf (ocl_in ftz x)"

definition sf64_ocl_isfinite :: "bool \<Rightarrow> f64 \<Rightarrow> int" where
  "sf64_ocl_isfinite ftz x = sf64_isfinite (ocl_in ftz x)"

definition sf64_ocl_isnormal :: "bool \<Rightarrow> f64 \<Rightarrow> int" where
  "sf64_ocl_isnormal ftz x = sf64_isnormal (ocl_in ftz x)"

definition sf64_ocl_signbit :: "bool \<Rightarrow> f64 \<Rightarrow> int" where
  "sf64_ocl_signbit ftz x = sf64_signbit (ocl_in ftz x)"

definition sf64_ocl_fabs :: "bool \<Rightarrow> f64 \<Rightarrow> f64" where
  "sf64_ocl_fabs ftz x = ocl_out ftz (sf64_fabs (ocl_in ftz x))"

definition sf64_ocl_copysign :: "bool \<Rightarrow> f64 \<Rightarrow> f64 \<Rightarrow> f64" where
  "sf64_ocl_copysign ftz a b = ocl_out ftz (sf64_copysign (ocl_in ftz a) (ocl_in ftz b))"

definition sf64_ocl_fmin :: "bool \<Rightarrow> f64 \<Rightarrow> f64 \<Rightarrow> f64" where
  "sf64_ocl_fmin ftz a b = ocl_out ftz (sf64_fmin (ocl_in ftz a) (ocl_in ftz b))"

definition sf64_ocl_fmax :: "bool \<Rightarrow> f64 \<Rightarrow> f64 \<Rightarrow> f64" where
  "sf64_ocl_fmax ftz a b = ocl_out ftz (sf64_fmax (ocl_in ftz a) (ocl_in ftz b))"

definition sf64_ocl_fdim :: "bool \<Rightarrow> bool \<Rightarrow> f64 \<Rightarrow> f64 \<Rightarrow> f64 entry" where
  "sf64_ocl_fdim ftz snan a b = ocl_binary ftz (sf64_fdim snan) a b"

definition sf64_ocl_maxmag :: "bool \<Rightarrow> f64 \<Rightarrow> f64 \<Rightarrow> f64" where
  "sf64_ocl_maxmag ftz a b = ocl_out ftz (sf64_maxmag (ocl_in ftz a) (ocl_in ftz b))"

definition sf64_ocl_minmag :: "bool \<Rightarrow> f64 \<Rightarrow> f64 \<Rightarrow> f64" where
  "sf64_ocl_minmag ftz a b = ocl_out ftz (sf64_minmag (ocl_in ftz a) (ocl_in ftz b))"

definition sf64_ocl_nextafter :: "bool \<Rightarrow> f64 \<Rightarrow> f64 \<Rightarrow> f64" where
  "sf64_ocl_nextafter ftz a b = ocl_out ftz (sf64_nextafter (ocl_in ftz a) (ocl_in ftz b))"

definition sf64_ocl_hypot :: "bool \<Rightarrow> f64 \<Rightarrow> f64 \<Rightarrow> f64 entry" where
  "sf64_ocl_hypot ftz a b = ocl_binary ftz sf64_hypot a b"

section \<open>Elementary functions\<close>

definition sf64_ocl_sin :: "bool \<Rightarrow> bool \<Rightarrow> f64 \<Rightarrow> f64 entry" where
  "sf64_ocl_sin ftz snan x = ocl_unary ftz (sf64_sin snan) x"

definition sf64_ocl_cos :: "bool \<Rightarrow> bool \<Rightarrow> f64 \<Rightarrow> f64 entry" where
  "sf64_ocl_cos ftz snan x = ocl_unary ftz (sf64_cos snan) x"

definition sf64_ocl_tan :: "bool \<Rightarrow> bool \<Rightarrow> f64 \<Rightarrow> f64 entry" where
  "sf64_ocl_tan ftz snan x = ocl_unary ftz (sf64_tan snan) x"

definition sf64_ocl_sincos :: "bool \<Rightarrow> bool \<Rightarrow> f64 \<Rightarrow> bool \<Rightarrow> bool \<Rightarrow> (f64 option \<times> f64 option) entry" where
  "sf64_ocl_sincos ftz snan x s_out c_out m t w =
     (let ((s, c), w) = sf64_sincos snan (ocl_in ftz x) s_out c_out m t w
      in ((map_option (ocl_out ftz) s, map_option (ocl_out ftz) c), w))"

definition sf64_ocl_asin :: "bool \<Rightarrow> bool \<Rightarrow> f64 \<Rightarrow> f64 entry" where
  "sf64_ocl_asin ftz snan x = ocl_unary ftz (sf64_asin snan) x"

definition sf64_ocl_acos :: "bool \<Rightarrow> bool \<Rightarrow> f64 \<Rightarrow> f64 entry" where
  "sf64_ocl_acos ftz snan x = ocl_unary ftz (sf64_acos snan) x"

definition sf64_ocl_atan :: "bool \<Rightarrow> bool \<Rightarrow> f64 \<Rightarrow> f64 entry" where
  "sf64_ocl_atan ftz snan x = ocl_unary ftz (sf64_atan snan) x"

definition sf64_ocl_atan2 :: "bool \<Rightarrow> bool \<Rightarrow> f64 \<Rightarrow> f64 \<Rightarrow> f64 entry" where
  "sf64_ocl_atan2 ftz snan a b = ocl_binary ftz (sf64_atan2 snan) a b"

definition sf64_ocl_sinpi :: "bool \<Rightarrow> bool \<Rightarrow> f64 \<Rightarrow> f64 entry" where
  "sf64_ocl_sinpi ftz snan x = ocl_unary ftz (sf64_sinpi snan) x"

definition sf64_ocl_cospi :: "bool \<Rightarrow> bool \<Rightarrow> f64 \<Rightarrow> f64 entry" where
  "sf64_ocl_cospi ftz snan x = ocl_unary ftz (sf64_cospi snan) x"

definition sf64_ocl_tanpi :: "bool \<Rightarrow> bool \<Rightarrow> f64 \<Rightarrow> f64 entry" where
  "sf64_ocl_tanpi ftz snan x = ocl_unary ftz (sf64_tanpi snan) x"

definition sf64_ocl_asinpi :: "bool \<Rightarrow> bool \<Rightarrow> f64 \<Rightarrow> f64 entry" where
  "sf64_ocl_asinpi ftz snan x = ocl_unary ftz (sf64_asinpi snan) x"

definition sf64_ocl_acospi :: "bool \<Rightarrow> bool \<Rightarrow> f64 \<Rightarrow> f64 entry" where
  "sf64_ocl_acospi ftz snan x = ocl_unary ftz (sf64_acospi snan) x"

definition sf64_ocl_atanpi :: "bool \<Rightarrow> bool \<Rightarrow> f64 \<Rightarrow> f64 entry" where
  "sf64_ocl_atanpi ftz snan x = ocl_unary ftz (sf64_atanpi snan) x"

definition sf64_ocl_atan2pi :: "bool \<Rightarrow> bool \<Rightarrow> f64 \<Rightarrow> f64 \<Rightarrow> f64 entry" where
  "sf64_ocl_atan2pi ftz snan a b = ocl_binary ftz (sf64_atan2pi snan) a b"

definition sf64_ocl_sinh :: "bool \<Rightarrow> bool \<Rightarrow> f64 \<Rightarrow> f64 entry" where
  "sf64_ocl_sinh ftz snan x = ocl_unary ftz (sf64_sinh snan) x"

definition sf64_ocl_cosh :: "bool \<Rightarrow> bool \<Rightarrow> f64 \<Rightarrow> f64 entry" where
  "sf64_ocl_cosh ftz snan x = ocl_unary ftz (sf64_cosh snan) x"

definition sf64_ocl_tanh :: "bool \<Rightarrow> bool \<Rightarrow> f64 \<Rightarrow> f64 entry" where
  "sf64_ocl_tanh ftz snan x = ocl_unary ftz (sf64_tanh snan) x"

definition sf64_ocl_asinh :: "bool \<Rightarrow> bool \<Rightarrow> f64 \<Rightarrow> f64 entry" where
  "sf64_ocl_asinh ftz snan x = ocl_unary ftz (sf64_asinh snan) x"

definition sf64_ocl_acosh :: "bool \<Rightarrow> bool \<Rightarrow> f64 \<Rightarrow> f64 entry" where
  "sf64_ocl_acosh ftz snan x = ocl_unary ftz (sf64_acosh snan) x"

definition sf64_ocl_atanh :: "bool \<Rightarrow> bool \<Rightarrow> f64 \<Rightarrow> f64 entry" where
  "sf64_ocl_atanh ftz snan x = ocl_unary ftz (sf64_atanh snan) x"

definition sf64_ocl_exp :: "bool \<Rightarrow> bool \<Rightarrow> f64 \<Rightarrow> f64 entry" where
  "sf64_ocl_exp ftz snan x = ocl_unary ftz (sf64_exp snan) x"

definition sf64_ocl_exp2 :: "bool \<Rightarrow> bool \<Rightarrow> f64 \<Rightarrow> f64 entry" where
  "sf64_ocl_exp2 ftz snan x = ocl_unary ftz (sf64_exp2 snan) x"

definition sf64_ocl_exp10 :: "bool \<Rightarrow> bool \<Rightarrow> f64 \<Rightarrow> f64 entry" where
  "sf64_ocl_exp10 ftz snan x = ocl_unary ftz (sf64_exp10 snan) x"

definition sf64_ocl_expm1 :: "bool \<Rightarrow> bool \<Rightarrow> f64 \<Rightarrow> f64 entry" where
  "sf64_ocl_expm1 ftz snan x = ocl_unary ftz (sf64_expm1 snan) x"

definition sf64_ocl_log :: "bool \<Rightarrow> bool \<Rightarrow> f64 \<Rightarrow> f64 entry" where
  "sf64_ocl_log ftz snan x = ocl_unary ftz (sf64_log snan) x"

definition sf64_ocl_log2 :: "bool \<Rightarrow> bool \<Rightarrow> f64 \<Rightarrow> f64 entry" where
  "sf64_ocl_log2 ftz snan x = ocl_unary ftz (sf64_log2 snan) x"

definition sf64_ocl_log10 :: "bool \<Rightarrow> bool \<Rightarrow> f64 \<Rightarrow> f64 entry" where
  "sf64_ocl_log10 ftz snan x = ocl_unary ftz (sf64_log10 snan) x"

definition sf64_ocl_log1p :: "bool \<Rightarrow> bool \<Rightarrow> f64 \<Rightarrow> f64 entry" where
  "sf64_ocl_log1p ftz snan x = ocl_unary ftz (sf64_log1p snan) x"

definition sf64_ocl_pow :: "bool \<Rightarrow> bool \<Rightarrow> f64 \<Rightarrow> f64 \<Rightarrow> f64 entry" where
  "sf64_ocl_pow ftz snan a b = ocl_binary ftz (sf64_pow snan) a b"

definition sf64_ocl_powr :: "bool \<Rightarrow> bool \<Rightarrow> f64 \<Rightarrow> f64 \<Rightarrow> f64 entry" where
  "sf64_ocl_powr ftz snan a b = ocl_binary ftz (sf64_powr snan) a b"

definition sf64_ocl_pown :: "bool \<Rightarrow> bool \<Rightarrow> f64 \<Rightarrow> int \<Rightarrow> f64 entry" where
  "sf64_ocl_pown ftz snan x n = ocl_unary ftz (\<lambda>x. sf64_pown snan x n) x"

definition sf64_ocl_rootn :: "bool \<Rightarrow> bool \<Rightarrow> f64 \<Rightarrow> int \<Rightarrow> f64 entry" where
  "sf64_ocl_rootn ftz snan x n = ocl_unary ftz (\<lambda>x. sf64_rootn snan x n) x"

definition sf64_ocl_cbrt :: "bool \<Rightarrow> bool \<Rightarrow> f64 \<Rightarrow> f64 entry" where
  "sf64_ocl_cbrt ftz snan x = ocl_unary ftz (sf64_cbrt snan) x"

definition sf64_ocl_erf :: "bool \<Rightarrow> bool \<Rightarrow> f64 \<Rightarrow> f64 entry" where
  "sf64_ocl_erf ftz snan x = ocl_unary ftz (sf64_erf snan) x"

definition sf64_ocl_erfc :: "bool \<Rightarrow> bool \<Rightarrow> f64 \<Rightarrow> f64 entry" where
  "sf64_ocl_erfc ftz snan x = ocl_unary ftz (sf64_erfc snan) x"

definition sf64_ocl_tgamma :: "bool \<Rightarrow> bool \<Rightarrow> f64 \<Rightarrow> f64 entry" where
  "sf64_ocl_tgamma ftz snan x = ocl_unary ftz (sf64_tgamma snan) x"

definition sf64_ocl_lgamma :: "bool \<Rightarrow> bool \<Rightarrow> f64 \<Rightarrow> f64 entry" where
  "sf64_ocl_lgamma ftz snan x = ocl_unary ftz (sf64_lgamma snan) x"

definition sf64_ocl_lgamma_r :: "bool \<Rightarrow> bool \<Rightarrow> f64 \<Rightarrow> bool \<Rightarrow> (f64 \<times> int option) entry" where
  "sf64_ocl_lgamma_r ftz snan x sign m t w =
     (let ((r, s), w) = sf64_lgamma_r snan (ocl_in ftz x) sign m t w in ((ocl_out ftz r, s), w))"

definition sf64_ocl_fmod :: "bool \<Rightarrow> bool \<Rightarrow> f64 \<Rightarrow> f64 \<Rightarrow> f64 entry" where
  "sf64_ocl_fmod ftz snan a b = ocl_binary ftz (sf64_fmod snan) a b"

definition sf64_ocl_remainder :: "bool \<Rightarrow> bool \<Rightarrow> f64 \<Rightarrow> f64 \<Rightarrow> f64 entry" where
  "sf64_ocl_remainder ftz snan a b = ocl_binary ftz (sf64_remainder snan) a b"

section \<open>Conversions in a given rounding mode\<close>

definition sf64_ocl_to_f32_r :: "bool \<Rightarrow> sf64_rounding_mode \<Rightarrow> f64 \<Rightarrow> f32 entry" where
  "sf64_ocl_to_f32_r ftz mode x = ocl_to_int ftz (sf64_to_f32_r mode) x"

definition sf64_ocl_to_i8_r :: "bool \<Rightarrow> sf64_rounding_mode \<Rightarrow> f64 \<Rightarrow> 8 word entry" where
  "sf64_ocl_to_i8_r ftz mode x = ocl_to_int ftz (sf64_to_i8_r mode) x"

definition sf64_ocl_to_i16_r :: "bool \<Rightarrow> sf64_rounding_mode \<Rightarrow> f64 \<Rightarrow> 16 word entry" where
  "sf64_ocl_to_i16_r ftz mode x = ocl_to_int ftz (sf64_to_i16_r mode) x"

definition sf64_ocl_to_i32_r :: "bool \<Rightarrow> sf64_rounding_mode \<Rightarrow> f64 \<Rightarrow> 32 word entry" where
  "sf64_ocl_to_i32_r ftz mode x = ocl_to_int ftz (sf64_to_i32_r mode) x"

definition sf64_ocl_to_i64_r :: "bool \<Rightarrow> sf64_rounding_mode \<Rightarrow> f64 \<Rightarrow> 64 word entry" where
  "sf64_ocl_to_i64_r ftz mode x = ocl_to_int ftz (sf64_to_i64_r mode) x"

definition sf64_ocl_to_u8_r :: "bool \<Rightarrow> sf64_rounding_mode \<Rightarrow> f64 \<Rightarrow> 8 word entry" where
  "sf64_ocl_to_u8_r ftz mode x = ocl_to_int ftz (sf64_to_u8_r mode) x"

definition sf64_ocl_to_u16_r :: "bool \<Rightarrow> sf64_rounding_mode \<Rightarrow> f64 \<Rightarrow> 16 word entry" where
  "sf64_ocl_to_u16_r ftz mode x = ocl_to_int ftz (sf64_to_u16_r mode) x"

definition sf64_ocl_to_u32_r :: "bool \<Rightarrow> sf64_rounding_mode \<Rightarrow> f64 \<Rightarrow> 32 word entry" where
  "sf64_ocl_to_u32_r ftz mode x = ocl_to_int ftz (sf64_to_u32_r mode) x"

definition sf64_ocl_to_u64_r :: "bool \<Rightarrow> sf64_rounding_mode \<Rightarrow> f64 \<Rightarrow> 64 word entry" where
  "sf64_ocl_to_u64_r ftz mode x = ocl_to_int ftz (sf64_to_u64_r mode) x"

section \<open>Native kernels\<close>

definition call_sub :: "f64 \<Rightarrow> f64 \<Rightarrow> f64 sl" where
  "call_sub a b = do { p \<leftarrow> snan_propagate; call_entry (sf64_sub p a b) }"

definition native_sin_kernel :: "f64 \<Rightarrow> f64 sl" where
  "native_sin_kernel r = do {
     r2 \<leftarrow> call_entry (sf64_mul r r);
     p \<leftarrow> call_entry (sf64_fma 0x3EC71DE3A556C734 r2 0xBF2A01A01A01A01A);
     p \<leftarrow> call_entry (sf64_fma p r2 0x3F81111111111111);
     p \<leftarrow> call_entry (sf64_fma p r2 0xBFC5555555555555);
     y \<leftarrow> call_entry (sf64_mul r r2);
     y \<leftarrow> call_entry (sf64_mul y p);
     call_entry (sf64_fma y 0x3FF0000000000000 r) }"

definition native_cos_kernel :: "f64 \<Rightarrow> f64 sl" where
  "native_cos_kernel r = do {
     r2 \<leftarrow> call_entry (sf64_mul r r);
     p \<leftarrow> call_entry (sf64_fma 0x3EFA01A01A01A01A r2 0xBF56C16C16C16C17);
     p \<leftarrow> call_entry (sf64_fma p r2 0x3FA5555555555555);
     p \<leftarrow> call_entry (sf64_fma p r2 0xBFE0000000000000);
     call_entry (sf64_fma r2 p 0x3FF0000000000000) }"

definition native_sin_reduced :: "bool \<Rightarrow> bool \<Rightarrow> f64 \<Rightarrow> f64 sl" where
  "native_sin_reduced ftz snan x =
     (if isnan_bits x \<or> isinf_bits x then return ocl_qnan
      else if 0x4130000000000000 < abs_bits x then call_entry (sf64_ocl_sin ftz snan x)
      else do {
        y \<leftarrow> call_entry (sf64_mul x 0x3FE45F306DC9C883);
        let qf = sf64_rint y;
        q \<leftarrow> to_i32 qf;
        r \<leftarrow> call_entry (sf64_fma (sf64_neg qf) 0x3FF921FB54442D18 x);
        let quadrant = (if 0 \<le> q then q mod 4 else - (- q mod 4));
        let quadrant = (if quadrant < 0 then quadrant + 4 else quadrant);
        if quadrant = 0 then native_sin_kernel r
        else if quadrant = 1 then native_cos_kernel r
        else if quadrant = 2 then do { y \<leftarrow> native_sin_kernel r; return (sf64_neg y) }
        else do { y \<leftarrow> native_cos_kernel r; return (sf64_neg y) } })"

definition native_cos_reduced :: "bool \<Rightarrow> bool \<Rightarrow> f64 \<Rightarrow> f64 sl" where
  "native_cos_reduced ftz snan x =
     (if isnan_bits x \<or> isinf_bits x then return ocl_qnan
      else if 0x4130000000000000 < abs_bits x then call_entry (sf64_ocl_cos ftz snan x)
      else do {
        y \<leftarrow> call_entry (sf64_mul x 0x3FE45F306DC9C883);
        let qf = sf64_rint y;
        q \<leftarrow> to_i32 qf;
        r \<leftarrow> call_entry (sf64_fma (sf64_neg qf) 0x3FF921FB54442D18 x);
        let quadrant = (if 0 \<le> q then q mod 4 else - (- q mod 4));
        let quadrant = (if quadrant < 0 then quadrant + 4 else quadrant);
        if quadrant = 0 then native_cos_kernel r
        else if quadrant = 1 then do { y \<leftarrow> native_sin_kernel r; return (sf64_neg y) }
        else if quadrant = 2 then do { y \<leftarrow> native_cos_kernel r; return (sf64_neg y) }
        else native_sin_kernel r })"

definition native_exp_core :: "bool \<Rightarrow> f64 \<Rightarrow> f64 sl" where
  "native_exp_core ftz x =
     (if isnan_bits x then return ocl_qnan
      else if isinf_bits x then
        (if x AND kSignMask \<noteq> 0 then return 0 else call_entry (sf64_ocl_div ftz 0x3FF0000000000000 0))
      else if ogt x 0x4086280000000000 then call_entry (sf64_ocl_div ftz 0x3FF0000000000000 0)
      else if olt x 0xC087480000000000 then return 0
      else do {
        y \<leftarrow> call_entry (sf64_mul x 0x3FF71547652B82FE);
        let qf = sf64_rint y;
        q \<leftarrow> to_i32 qf;
        r \<leftarrow> call_entry (sf64_fma (sf64_neg qf) 0x3FE62E42FEFA39EF x);
        p \<leftarrow> call_entry (sf64_fma 0x3F56C16C16C16C17 r 0x3F81111111111111);
        p \<leftarrow> call_entry (sf64_fma p r 0x3FA5555555555555);
        p \<leftarrow> call_entry (sf64_fma p r 0x3FC5555555555555);
        p \<leftarrow> call_entry (sf64_fma p r 0x3FE0000000000000);
        p \<leftarrow> call_entry (sf64_fma p r 0x3FF0000000000000);
        p \<leftarrow> call_entry (sf64_fma p r 0x3FF0000000000000);
        return (sf64_ldexp p q) })"

definition native_log_core :: "bool \<Rightarrow> f64 \<Rightarrow> f64 sl" where
  "native_log_core ftz x =
     (if isnan_bits x \<or> olt x 0 then return ocl_qnan
      else if iszero_bits x then do { y \<leftarrow> call_entry (sf64_ocl_div ftz 0x3FF0000000000000 0); return (sf64_neg y) }
      else if isinf_bits x then call_entry (sf64_ocl_div ftz 0x3FF0000000000000 0)
      else do {
        let m = fst (sf64_frexp x True);
        let e = the (snd (sf64_frexp x True));
        (m, e) \<leftarrow> (if olt m 0x3FE6A09E667F3BCD then do { m \<leftarrow> call_entry (sf64_add m m); return (m, e - 1) }
                    else return (m, e));
        n \<leftarrow> call_sub m 0x3FF0000000000000;
        d \<leftarrow> call_entry (sf64_add m 0x3FF0000000000000);
        z \<leftarrow> call_entry (sf64_div n d);
        z2 \<leftarrow> call_entry (sf64_mul z z);
        p \<leftarrow> call_entry (sf64_fma 0x3FB745D1745D1746 z2 0x3FBC71C71C71C71C);
        p \<leftarrow> call_entry (sf64_fma p z2 0x3FC2492492492492);
        p \<leftarrow> call_entry (sf64_fma p z2 0x3FC9999999999999);
        p \<leftarrow> call_entry (sf64_fma p z2 0x3FD5555555555555);
        p \<leftarrow> call_entry (sf64_fma p z2 0x3FF0000000000000);
        zz \<leftarrow> call_entry (sf64_add z z);
        log_m \<leftarrow> call_entry (sf64_mul zz p);
        ef \<leftarrow> from_i32 e;
        call_entry (sf64_fma ef 0x3FE62E42FEFA39EF log_m) })"

section \<open>Native entries\<close>

definition sf64_native_sin :: "bool \<Rightarrow> bool \<Rightarrow> f64 \<Rightarrow> f64 entry" where
  "sf64_native_sin ftz snan x = ocl_unary ftz (\<lambda>x. entry snan (native_sin_reduced ftz snan x)) x"

definition sf64_native_cos :: "bool \<Rightarrow> bool \<Rightarrow> f64 \<Rightarrow> f64 entry" where
  "sf64_native_cos ftz snan x = ocl_unary ftz (\<lambda>x. entry snan (native_cos_reduced ftz snan x)) x"

definition sf64_native_tan :: "bool \<Rightarrow> bool \<Rightarrow> f64 \<Rightarrow> f64 entry" where
  "sf64_native_tan ftz snan x = ocl_unary ftz (\<lambda>x. entry snan (do {
     s \<leftarrow> native_sin_reduced ftz snan x;
     c \<leftarrow> native_cos_reduced ftz snan x;
     call_entry (sf64_div s c) })) x"

definition sf64_native_exp :: "bool \<Rightarrow> bool \<Rightarrow> f64 \<Rightarrow> f64 entry" where
  "sf64_native_exp ftz snan x = ocl_unary ftz (\<lambda>x. entry snan (native_exp_core ftz x)) x"

definition sf64_native_exp2 :: "bool \<Rightarrow> bool \<Rightarrow> f64 \<Rightarrow> f64 entry" where
  "sf64_native_exp2 ftz snan x = ocl_unary ftz (\<lambda>x. entry snan (do {
     y \<leftarrow> call_entry (sf64_mul x 0x3FE62E42FEFA39EF);
     native_exp_core ftz y })) x"

definition sf64_native_exp10 :: "bool \<Rightarrow> bool \<Rightarrow> f64 \<Rightarrow> f64 entry" where
  "sf64_native_exp10 ftz snan x = ocl_unary ftz (\<lambda>x. entry snan (do {
     y \<leftarrow> call_entry (sf64_mul x 0x40026BB1BBB55516);
     native_exp_core ftz y })) x"

definition sf64_native_log :: "bool \<Rightarrow> bool \<Rightarrow> f64 \<Rightarrow> f64 entry" where
  "sf64_native_log ftz snan x = ocl_unary ftz (\<lambda>x. entry snan (native_log_core ftz x)) x"

definition sf64_native_log2 :: "bool \<Rightarrow> bool \<Rightarrow> f64 \<Rightarrow> f64 entry" where
  "sf64_native_log2 ftz snan x = ocl_unary ftz (\<lambda>x. entry snan (do {
     l \<leftarrow> native_log_core ftz x;
     call_entry (sf64_mul l 0x3FF71547652B82FE) })) x"

definition sf64_native_log10 :: "bool \<Rightarrow> bool \<Rightarrow> f64 \<Rightarrow> f64 entry" where
  "sf64_native_log10 ftz snan x = ocl_unary ftz (\<lambda>x. entry snan (do {
     l \<leftarrow> native_log_core ftz x;
     call_entry (sf64_mul l 0x3FDBCB7B1526E50E) })) x"

definition sf64_native_sqrt :: "bool \<Rightarrow> f64 \<Rightarrow> f64 entry" where
  "sf64_native_sqrt ftz x = sf64_ocl_sqrt ftz x"

definition sf64_native_rsqrt :: "bool \<Rightarrow> f64 \<Rightarrow> f64 entry" where
  "sf64_native_rsqrt ftz x = sf64_ocl_rsqrt ftz x"

definition sf64_native_recip :: "bool \<Rightarrow> f64 \<Rightarrow> f64 entry" where
  "sf64_native_recip ftz x = sf64_ocl_div ftz 0x3FF0000000000000 x"

definition sf64_native_divide :: "bool \<Rightarrow> f64 \<Rightarrow> f64 \<Rightarrow> f64 entry" where
  "sf64_native_divide ftz x y = sf64_ocl_div ftz x y"

definition sf64_native_powr :: "bool \<Rightarrow> bool \<Rightarrow> f64 \<Rightarrow> f64 \<Rightarrow> f64 entry" where
  "sf64_native_powr ftz snan x y =
     (let xb = ocl_in ftz x; yb = ocl_in ftz y
      in if isnan_bits xb \<or> isnan_bits yb \<or> ole xb 0 \<or> isinf_bits xb \<or> isinf_bits yb
         then sf64_ocl_powr ftz snan x y
         else entry snan (do {
           l \<leftarrow> native_log_core ftz xb;
           z \<leftarrow> call_entry (sf64_mul yb l);
           r \<leftarrow> native_exp_core ftz z;
           return (ocl_out ftz r) }))"

end
