(* ===== verification/Sf_Ocl_Props.thy ===== *)
theory Sf_Ocl_Props
  imports Sf_Ocl
begin

text \<open>
  What the build option \<open>SOFT_FP64_FTZ\<close> changes when it is on: every subnormal operand acts as the zero of
  its sign, and no subnormal double is ever returned.
\<close>

section \<open>The flush\<close>

text \<open>The flush as the option is documented: a subnormal becomes the zero of its sign, nothing else changes.\<close>

definition ftz64 :: "f64 \<Rightarrow> f64" where
  "ftz64 x = (if is_subnormal_bits x then enc64 (sgn64 x) 0 else x)"

lemma flush_mag: "mag64 (x AND kSignMask) = 0" "sgn64 (x AND kSignMask) = sgn64 x"
proof -
  have "is_zero_bits (x AND kSignMask)" "x AND kSignMask AND kSignMask = x AND kSignMask"
    by (simp_all add: is_zero_bits_def and.assoc)
  then show "mag64 (x AND kSignMask) = 0" "sgn64 (x AND kSignMask) = sgn64 x"
    using sign_test [of "x AND kSignMask"] sign_test [of x] is_zero_bits_iff [of "x AND kSignMask"] by simp_all
qed

lemma ocl_flush: "ocl_in True = ftz64" "ocl_out True = ftz64"
proof -
  have "x AND kSignMask = enc64 (sgn64 x) 0" for x
    using is_zero_enc64 [of "x AND kSignMask"] by (simp add: flush_mag is_zero_bits_iff)
  then show "ocl_in True = ftz64" "ocl_out True = ftz64"
    by (auto simp: fun_eq_iff ocl_in_def ocl_out_def ftz64_def)
qed

lemma ftz64_not_subnormal [simp]: "\<not> is_subnormal_bits (ftz64 x)"
  by (simp add: ftz64_def is_subnormal_bits_iff mag64_enc64)

lemma ftz64_idem [simp]: "ftz64 (ftz64 x) = ftz64 x"
  using ftz64_not_subnormal [of x] unfolding ftz64_def [of "ftz64 x"] by simp

lemma ocl_forward:
  "ocl_unary True f x m t w = map_prod ftz64 id (f (ftz64 x) m t w)"
  "ocl_binary True g x y m t w = map_prod ftz64 id (g (ftz64 x) (ftz64 y) m t w)"
  "ocl_from_int True k i m t w = map_prod ftz64 id (k i m t w)"
  "ocl_to_int True h x m t w = h (ftz64 x) m t w"
  by (simp_all add: ocl_unary_def ocl_binary_def ocl_from_int_def ocl_to_int_def ocl_flush map_prod_def split: prod.split)

lemma native_powr_flush:
  "\<not> is_subnormal_bits (fst (sf64_native_powr True p x y m t w))"
  "sf64_native_powr True p x y m t w = sf64_native_powr True p (ftz64 x) (ftz64 y) m t w"
proof -
  have "yields (\<lambda>r. \<not> is_subnormal_bits r) (f \<bind> (\<lambda>l. g l \<bind> (\<lambda>z. h z \<bind> (\<lambda>r. return (ftz64 r)))))" for f :: "f64 sl" and g h :: "f64 \<Rightarrow> f64 sl"
    by (intro yields_bind yields_return) simp
  from yields_run [OF this] show "\<not> is_subnormal_bits (fst (sf64_native_powr True p x y m t w))"
    by (simp add: sf64_native_powr_def sf64_ocl_powr_def ocl_forward ocl_flush Let_def)
  show "sf64_native_powr True p x y m t w = sf64_native_powr True p (ftz64 x) (ftz64 y) m t w"
    by (simp add: sf64_native_powr_def sf64_ocl_powr_def ocl_forward ocl_flush Let_def fun_eq_iff)
qed

lemmas ocl_entries =
  sf64_ocl_add_def sf64_ocl_sub_def sf64_ocl_mul_def sf64_ocl_div_def sf64_ocl_rem_def sf64_ocl_neg_def
  sf64_ocl_fcmp_def sf64_ocl_fmin_precise_def sf64_ocl_fmax_precise_def sf64_ocl_from_f32_def sf64_ocl_to_f32_def sf64_ocl_from_i8_def
  sf64_ocl_from_i16_def sf64_ocl_from_i32_def sf64_ocl_from_i64_def sf64_ocl_from_u8_def sf64_ocl_from_u16_def sf64_ocl_from_u32_def
  sf64_ocl_from_u64_def sf64_ocl_to_i8_def sf64_ocl_to_i16_def sf64_ocl_to_i32_def sf64_ocl_to_i64_def sf64_ocl_to_u8_def
  sf64_ocl_to_u16_def sf64_ocl_to_u32_def sf64_ocl_to_u64_def sf64_ocl_sqrt_def sf64_ocl_rsqrt_def sf64_ocl_fma_def
  sf64_ocl_floor_def sf64_ocl_ceil_def sf64_ocl_trunc_def sf64_ocl_round_def sf64_ocl_rint_def sf64_ocl_fract_def
  sf64_ocl_modf_def sf64_ocl_ldexp_def sf64_ocl_frexp_def sf64_ocl_ilogb_def sf64_ocl_logb_def sf64_ocl_isnan_def
  sf64_ocl_isinf_def sf64_ocl_isfinite_def sf64_ocl_isnormal_def sf64_ocl_signbit_def sf64_ocl_fabs_def sf64_ocl_copysign_def
  sf64_ocl_fmin_def sf64_ocl_fmax_def sf64_ocl_fdim_def sf64_ocl_maxmag_def sf64_ocl_minmag_def sf64_ocl_nextafter_def
  sf64_ocl_hypot_def sf64_ocl_sin_def sf64_ocl_cos_def sf64_ocl_tan_def sf64_ocl_sincos_def sf64_ocl_asin_def
  sf64_ocl_acos_def sf64_ocl_atan_def sf64_ocl_atan2_def sf64_ocl_sinpi_def sf64_ocl_cospi_def sf64_ocl_tanpi_def
  sf64_ocl_asinpi_def sf64_ocl_acospi_def sf64_ocl_atanpi_def sf64_ocl_atan2pi_def sf64_ocl_sinh_def sf64_ocl_cosh_def
  sf64_ocl_tanh_def sf64_ocl_asinh_def sf64_ocl_acosh_def sf64_ocl_atanh_def sf64_ocl_exp_def sf64_ocl_exp2_def
  sf64_ocl_exp10_def sf64_ocl_expm1_def sf64_ocl_log_def sf64_ocl_log2_def sf64_ocl_log10_def sf64_ocl_log1p_def
  sf64_ocl_pow_def sf64_ocl_powr_def sf64_ocl_pown_def sf64_ocl_rootn_def sf64_ocl_cbrt_def sf64_ocl_erf_def
  sf64_ocl_erfc_def sf64_ocl_tgamma_def sf64_ocl_lgamma_def sf64_ocl_lgamma_r_def sf64_ocl_fmod_def sf64_ocl_remainder_def
  sf64_ocl_to_f32_r_def sf64_ocl_to_i8_r_def sf64_ocl_to_i16_r_def sf64_ocl_to_i32_r_def sf64_ocl_to_i64_r_def sf64_ocl_to_u8_r_def
  sf64_ocl_to_u16_r_def sf64_ocl_to_u32_r_def sf64_ocl_to_u64_r_def sf64_native_sin_def sf64_native_cos_def sf64_native_tan_def
  sf64_native_exp_def sf64_native_exp2_def sf64_native_exp10_def sf64_native_log_def sf64_native_log2_def sf64_native_log10_def
  sf64_native_sqrt_def sf64_native_rsqrt_def sf64_native_recip_def sf64_native_divide_def

lemma option_flush: "pred_option (\<lambda>v. \<not> is_subnormal_bits v) (map_option ftz64 r)"
  by (cases r) simp_all

lemma narrowed_subnormal: "fst (sf64_ocl_to_f32 True 0x36A0000000000000 m t w) = 1"
proof -
  have "fst (to_f32_impl 0x36A0000000000000 SF64_RNE 0) = 1" "ftz64 0x36A0000000000000 = 0x36A0000000000000" by code_simp+
  then show ?thesis by (simp add: sf64_ocl_to_f32_def ocl_forward sf64_to_f32_def entry_default_def)
qed

section \<open>Properties\<close>

text \<open>
  C28: With \<open>SOFT_FP64_FTZ\<close> the OpenCL surface flushes subnormal doubles at both ends.  Every entry, of
  whatever result type, gives for every operand the result and the flags it gives for the operand with a
  subnormal replaced by the zero of its sign (\<open>ftz64\<close>); no entry returns a subnormal double, through the
  result or a pointer (\<open>modf\<close>, \<open>sincos\<close>); and the forwarding helpers do nothing else to operands or
  results.  The option is about doubles: a binary32 result of \<open>to_f32\<close> can be a subnormal float.
\<close>

theorem ocl_ftz_no_subnormals:
  "ocl_unary True h x m t w = map_prod ftz64 id (h (ftz64 x) m t w)
   \<and> ocl_binary True g x y m t w = map_prod ftz64 id (g (ftz64 x) (ftz64 y) m t w)
   \<and> ocl_from_int True k j m t w = map_prod ftz64 id (k j m t w)
   \<and> sf64_ocl_add True x y m t w = sf64_ocl_add True (ftz64 x) (ftz64 y) m t w
   \<and> sf64_ocl_sub True p x y m t w = sf64_ocl_sub True p (ftz64 x) (ftz64 y) m t w
   \<and> sf64_ocl_mul True x y m t w = sf64_ocl_mul True (ftz64 x) (ftz64 y) m t w
   \<and> sf64_ocl_div True x y m t w = sf64_ocl_div True (ftz64 x) (ftz64 y) m t w
   \<and> sf64_ocl_rem True x y m t w = sf64_ocl_rem True (ftz64 x) (ftz64 y) m t w
   \<and> sf64_ocl_neg True x = sf64_ocl_neg True (ftz64 x)
   \<and> sf64_ocl_fcmp True x y n = sf64_ocl_fcmp True (ftz64 x) (ftz64 y) n
   \<and> sf64_ocl_fmin_precise True x y = sf64_ocl_fmin_precise True (ftz64 x) (ftz64 y)
   \<and> sf64_ocl_fmax_precise True x y = sf64_ocl_fmax_precise True (ftz64 x) (ftz64 y)
   \<and> sf64_ocl_to_f32 True x m t w = sf64_ocl_to_f32 True (ftz64 x) m t w
   \<and> sf64_ocl_to_i8 True x m t w = sf64_ocl_to_i8 True (ftz64 x) m t w
   \<and> sf64_ocl_to_i16 True x m t w = sf64_ocl_to_i16 True (ftz64 x) m t w
   \<and> sf64_ocl_to_i32 True x m t w = sf64_ocl_to_i32 True (ftz64 x) m t w
   \<and> sf64_ocl_to_i64 True x m t w = sf64_ocl_to_i64 True (ftz64 x) m t w
   \<and> sf64_ocl_to_u8 True x m t w = sf64_ocl_to_u8 True (ftz64 x) m t w
   \<and> sf64_ocl_to_u16 True x m t w = sf64_ocl_to_u16 True (ftz64 x) m t w
   \<and> sf64_ocl_to_u32 True x m t w = sf64_ocl_to_u32 True (ftz64 x) m t w
   \<and> sf64_ocl_to_u64 True x m t w = sf64_ocl_to_u64 True (ftz64 x) m t w
   \<and> sf64_ocl_sqrt True x m t w = sf64_ocl_sqrt True (ftz64 x) m t w
   \<and> sf64_ocl_rsqrt True x m t w = sf64_ocl_rsqrt True (ftz64 x) m t w
   \<and> sf64_ocl_fma True x y z m t w = sf64_ocl_fma True (ftz64 x) (ftz64 y) (ftz64 z) m t w
   \<and> sf64_ocl_floor True x = sf64_ocl_floor True (ftz64 x)
   \<and> sf64_ocl_ceil True x = sf64_ocl_ceil True (ftz64 x)
   \<and> sf64_ocl_trunc True x = sf64_ocl_trunc True (ftz64 x)
   \<and> sf64_ocl_round True x = sf64_ocl_round True (ftz64 x)
   \<and> sf64_ocl_rint True x = sf64_ocl_rint True (ftz64 x)
   \<and> sf64_ocl_fract True p x m t w = sf64_ocl_fract True p (ftz64 x) m t w
   \<and> sf64_ocl_modf True p x b m t w = sf64_ocl_modf True p (ftz64 x) b m t w
   \<and> sf64_ocl_ldexp True x n = sf64_ocl_ldexp True (ftz64 x) n
   \<and> sf64_ocl_frexp True x b = sf64_ocl_frexp True (ftz64 x) b
   \<and> sf64_ocl_ilogb True x = sf64_ocl_ilogb True (ftz64 x)
   \<and> sf64_ocl_logb True x m t w = sf64_ocl_logb True (ftz64 x) m t w
   \<and> sf64_ocl_isnan True x = sf64_ocl_isnan True (ftz64 x)
   \<and> sf64_ocl_isinf True x = sf64_ocl_isinf True (ftz64 x)
   \<and> sf64_ocl_isfinite True x = sf64_ocl_isfinite True (ftz64 x)
   \<and> sf64_ocl_isnormal True x = sf64_ocl_isnormal True (ftz64 x)
   \<and> sf64_ocl_signbit True x = sf64_ocl_signbit True (ftz64 x)
   \<and> sf64_ocl_fabs True x = sf64_ocl_fabs True (ftz64 x)
   \<and> sf64_ocl_copysign True x y = sf64_ocl_copysign True (ftz64 x) (ftz64 y)
   \<and> sf64_ocl_fmin True x y = sf64_ocl_fmin True (ftz64 x) (ftz64 y)
   \<and> sf64_ocl_fmax True x y = sf64_ocl_fmax True (ftz64 x) (ftz64 y)
   \<and> sf64_ocl_fdim True p x y m t w = sf64_ocl_fdim True p (ftz64 x) (ftz64 y) m t w
   \<and> sf64_ocl_maxmag True x y = sf64_ocl_maxmag True (ftz64 x) (ftz64 y)
   \<and> sf64_ocl_minmag True x y = sf64_ocl_minmag True (ftz64 x) (ftz64 y)
   \<and> sf64_ocl_nextafter True x y = sf64_ocl_nextafter True (ftz64 x) (ftz64 y)
   \<and> sf64_ocl_hypot True x y m t w = sf64_ocl_hypot True (ftz64 x) (ftz64 y) m t w
   \<and> sf64_ocl_sin True p x m t w = sf64_ocl_sin True p (ftz64 x) m t w
   \<and> sf64_ocl_cos True p x m t w = sf64_ocl_cos True p (ftz64 x) m t w
   \<and> sf64_ocl_tan True p x m t w = sf64_ocl_tan True p (ftz64 x) m t w
   \<and> sf64_ocl_sincos True p x b c m t w = sf64_ocl_sincos True p (ftz64 x) b c m t w
   \<and> sf64_ocl_asin True p x m t w = sf64_ocl_asin True p (ftz64 x) m t w
   \<and> sf64_ocl_acos True p x m t w = sf64_ocl_acos True p (ftz64 x) m t w
   \<and> sf64_ocl_atan True p x m t w = sf64_ocl_atan True p (ftz64 x) m t w
   \<and> sf64_ocl_atan2 True p x y m t w = sf64_ocl_atan2 True p (ftz64 x) (ftz64 y) m t w
   \<and> sf64_ocl_sinpi True p x m t w = sf64_ocl_sinpi True p (ftz64 x) m t w
   \<and> sf64_ocl_cospi True p x m t w = sf64_ocl_cospi True p (ftz64 x) m t w
   \<and> sf64_ocl_tanpi True p x m t w = sf64_ocl_tanpi True p (ftz64 x) m t w
   \<and> sf64_ocl_asinpi True p x m t w = sf64_ocl_asinpi True p (ftz64 x) m t w
   \<and> sf64_ocl_acospi True p x m t w = sf64_ocl_acospi True p (ftz64 x) m t w
   \<and> sf64_ocl_atanpi True p x m t w = sf64_ocl_atanpi True p (ftz64 x) m t w
   \<and> sf64_ocl_atan2pi True p x y m t w = sf64_ocl_atan2pi True p (ftz64 x) (ftz64 y) m t w
   \<and> sf64_ocl_sinh True p x m t w = sf64_ocl_sinh True p (ftz64 x) m t w
   \<and> sf64_ocl_cosh True p x m t w = sf64_ocl_cosh True p (ftz64 x) m t w
   \<and> sf64_ocl_tanh True p x m t w = sf64_ocl_tanh True p (ftz64 x) m t w
   \<and> sf64_ocl_asinh True p x m t w = sf64_ocl_asinh True p (ftz64 x) m t w
   \<and> sf64_ocl_acosh True p x m t w = sf64_ocl_acosh True p (ftz64 x) m t w
   \<and> sf64_ocl_atanh True p x m t w = sf64_ocl_atanh True p (ftz64 x) m t w
   \<and> sf64_ocl_exp True p x m t w = sf64_ocl_exp True p (ftz64 x) m t w
   \<and> sf64_ocl_exp2 True p x m t w = sf64_ocl_exp2 True p (ftz64 x) m t w
   \<and> sf64_ocl_exp10 True p x m t w = sf64_ocl_exp10 True p (ftz64 x) m t w
   \<and> sf64_ocl_expm1 True p x m t w = sf64_ocl_expm1 True p (ftz64 x) m t w
   \<and> sf64_ocl_log True p x m t w = sf64_ocl_log True p (ftz64 x) m t w
   \<and> sf64_ocl_log2 True p x m t w = sf64_ocl_log2 True p (ftz64 x) m t w
   \<and> sf64_ocl_log10 True p x m t w = sf64_ocl_log10 True p (ftz64 x) m t w
   \<and> sf64_ocl_log1p True p x m t w = sf64_ocl_log1p True p (ftz64 x) m t w
   \<and> sf64_ocl_pow True p x y m t w = sf64_ocl_pow True p (ftz64 x) (ftz64 y) m t w
   \<and> sf64_ocl_powr True p x y m t w = sf64_ocl_powr True p (ftz64 x) (ftz64 y) m t w
   \<and> sf64_ocl_pown True p x n m t w = sf64_ocl_pown True p (ftz64 x) n m t w
   \<and> sf64_ocl_rootn True p x n m t w = sf64_ocl_rootn True p (ftz64 x) n m t w
   \<and> sf64_ocl_cbrt True p x m t w = sf64_ocl_cbrt True p (ftz64 x) m t w
   \<and> sf64_ocl_erf True p x m t w = sf64_ocl_erf True p (ftz64 x) m t w
   \<and> sf64_ocl_erfc True p x m t w = sf64_ocl_erfc True p (ftz64 x) m t w
   \<and> sf64_ocl_tgamma True p x m t w = sf64_ocl_tgamma True p (ftz64 x) m t w
   \<and> sf64_ocl_lgamma True p x m t w = sf64_ocl_lgamma True p (ftz64 x) m t w
   \<and> sf64_ocl_lgamma_r True p x b m t w = sf64_ocl_lgamma_r True p (ftz64 x) b m t w
   \<and> sf64_ocl_fmod True p x y m t w = sf64_ocl_fmod True p (ftz64 x) (ftz64 y) m t w
   \<and> sf64_ocl_remainder True p x y m t w = sf64_ocl_remainder True p (ftz64 x) (ftz64 y) m t w
   \<and> sf64_ocl_to_f32_r True mode x m t w = sf64_ocl_to_f32_r True mode (ftz64 x) m t w
   \<and> sf64_ocl_to_i8_r True mode x m t w = sf64_ocl_to_i8_r True mode (ftz64 x) m t w
   \<and> sf64_ocl_to_i16_r True mode x m t w = sf64_ocl_to_i16_r True mode (ftz64 x) m t w
   \<and> sf64_ocl_to_i32_r True mode x m t w = sf64_ocl_to_i32_r True mode (ftz64 x) m t w
   \<and> sf64_ocl_to_i64_r True mode x m t w = sf64_ocl_to_i64_r True mode (ftz64 x) m t w
   \<and> sf64_ocl_to_u8_r True mode x m t w = sf64_ocl_to_u8_r True mode (ftz64 x) m t w
   \<and> sf64_ocl_to_u16_r True mode x m t w = sf64_ocl_to_u16_r True mode (ftz64 x) m t w
   \<and> sf64_ocl_to_u32_r True mode x m t w = sf64_ocl_to_u32_r True mode (ftz64 x) m t w
   \<and> sf64_ocl_to_u64_r True mode x m t w = sf64_ocl_to_u64_r True mode (ftz64 x) m t w
   \<and> sf64_native_sin True p x m t w = sf64_native_sin True p (ftz64 x) m t w
   \<and> sf64_native_cos True p x m t w = sf64_native_cos True p (ftz64 x) m t w
   \<and> sf64_native_tan True p x m t w = sf64_native_tan True p (ftz64 x) m t w
   \<and> sf64_native_exp True p x m t w = sf64_native_exp True p (ftz64 x) m t w
   \<and> sf64_native_exp2 True p x m t w = sf64_native_exp2 True p (ftz64 x) m t w
   \<and> sf64_native_exp10 True p x m t w = sf64_native_exp10 True p (ftz64 x) m t w
   \<and> sf64_native_log True p x m t w = sf64_native_log True p (ftz64 x) m t w
   \<and> sf64_native_log2 True p x m t w = sf64_native_log2 True p (ftz64 x) m t w
   \<and> sf64_native_log10 True p x m t w = sf64_native_log10 True p (ftz64 x) m t w
   \<and> sf64_native_sqrt True x m t w = sf64_native_sqrt True (ftz64 x) m t w
   \<and> sf64_native_rsqrt True x m t w = sf64_native_rsqrt True (ftz64 x) m t w
   \<and> sf64_native_recip True x m t w = sf64_native_recip True (ftz64 x) m t w
   \<and> sf64_native_divide True x y m t w = sf64_native_divide True (ftz64 x) (ftz64 y) m t w
   \<and> sf64_native_powr True p x y m t w = sf64_native_powr True p (ftz64 x) (ftz64 y) m t w
   \<and> \<not> is_subnormal_bits (fst (sf64_ocl_add True x y m t w))
   \<and> \<not> is_subnormal_bits (fst (sf64_ocl_sub True p x y m t w))
   \<and> \<not> is_subnormal_bits (fst (sf64_ocl_mul True x y m t w))
   \<and> \<not> is_subnormal_bits (fst (sf64_ocl_div True x y m t w))
   \<and> \<not> is_subnormal_bits (fst (sf64_ocl_rem True x y m t w))
   \<and> \<not> is_subnormal_bits (sf64_ocl_neg True x)
   \<and> \<not> is_subnormal_bits (sf64_ocl_fmin_precise True x y)
   \<and> \<not> is_subnormal_bits (sf64_ocl_fmax_precise True x y)
   \<and> \<not> is_subnormal_bits (fst (sf64_ocl_from_f32 True f m t w))
   \<and> \<not> is_subnormal_bits (fst (sf64_ocl_from_i8 True i8 m t w))
   \<and> \<not> is_subnormal_bits (fst (sf64_ocl_from_i16 True i16 m t w))
   \<and> \<not> is_subnormal_bits (fst (sf64_ocl_from_i32 True i32 m t w))
   \<and> \<not> is_subnormal_bits (fst (sf64_ocl_from_i64 True i64 m t w))
   \<and> \<not> is_subnormal_bits (fst (sf64_ocl_from_u8 True i8 m t w))
   \<and> \<not> is_subnormal_bits (fst (sf64_ocl_from_u16 True i16 m t w))
   \<and> \<not> is_subnormal_bits (fst (sf64_ocl_from_u32 True i32 m t w))
   \<and> \<not> is_subnormal_bits (fst (sf64_ocl_from_u64 True i64 m t w))
   \<and> \<not> is_subnormal_bits (fst (sf64_ocl_sqrt True x m t w))
   \<and> \<not> is_subnormal_bits (fst (sf64_ocl_rsqrt True x m t w))
   \<and> \<not> is_subnormal_bits (fst (sf64_ocl_fma True x y z m t w))
   \<and> \<not> is_subnormal_bits (sf64_ocl_floor True x)
   \<and> \<not> is_subnormal_bits (sf64_ocl_ceil True x)
   \<and> \<not> is_subnormal_bits (sf64_ocl_trunc True x)
   \<and> \<not> is_subnormal_bits (sf64_ocl_round True x)
   \<and> \<not> is_subnormal_bits (sf64_ocl_rint True x)
   \<and> \<not> is_subnormal_bits (fst (sf64_ocl_fract True p x m t w))
   \<and> \<not> is_subnormal_bits (sf64_ocl_ldexp True x n)
   \<and> \<not> is_subnormal_bits (fst (sf64_ocl_logb True x m t w))
   \<and> \<not> is_subnormal_bits (sf64_ocl_fabs True x)
   \<and> \<not> is_subnormal_bits (sf64_ocl_copysign True x y)
   \<and> \<not> is_subnormal_bits (sf64_ocl_fmin True x y)
   \<and> \<not> is_subnormal_bits (sf64_ocl_fmax True x y)
   \<and> \<not> is_subnormal_bits (fst (sf64_ocl_fdim True p x y m t w))
   \<and> \<not> is_subnormal_bits (sf64_ocl_maxmag True x y)
   \<and> \<not> is_subnormal_bits (sf64_ocl_minmag True x y)
   \<and> \<not> is_subnormal_bits (sf64_ocl_nextafter True x y)
   \<and> \<not> is_subnormal_bits (fst (sf64_ocl_hypot True x y m t w))
   \<and> \<not> is_subnormal_bits (fst (sf64_ocl_sin True p x m t w))
   \<and> \<not> is_subnormal_bits (fst (sf64_ocl_cos True p x m t w))
   \<and> \<not> is_subnormal_bits (fst (sf64_ocl_tan True p x m t w))
   \<and> \<not> is_subnormal_bits (fst (sf64_ocl_asin True p x m t w))
   \<and> \<not> is_subnormal_bits (fst (sf64_ocl_acos True p x m t w))
   \<and> \<not> is_subnormal_bits (fst (sf64_ocl_atan True p x m t w))
   \<and> \<not> is_subnormal_bits (fst (sf64_ocl_atan2 True p x y m t w))
   \<and> \<not> is_subnormal_bits (fst (sf64_ocl_sinpi True p x m t w))
   \<and> \<not> is_subnormal_bits (fst (sf64_ocl_cospi True p x m t w))
   \<and> \<not> is_subnormal_bits (fst (sf64_ocl_tanpi True p x m t w))
   \<and> \<not> is_subnormal_bits (fst (sf64_ocl_asinpi True p x m t w))
   \<and> \<not> is_subnormal_bits (fst (sf64_ocl_acospi True p x m t w))
   \<and> \<not> is_subnormal_bits (fst (sf64_ocl_atanpi True p x m t w))
   \<and> \<not> is_subnormal_bits (fst (sf64_ocl_atan2pi True p x y m t w))
   \<and> \<not> is_subnormal_bits (fst (sf64_ocl_sinh True p x m t w))
   \<and> \<not> is_subnormal_bits (fst (sf64_ocl_cosh True p x m t w))
   \<and> \<not> is_subnormal_bits (fst (sf64_ocl_tanh True p x m t w))
   \<and> \<not> is_subnormal_bits (fst (sf64_ocl_asinh True p x m t w))
   \<and> \<not> is_subnormal_bits (fst (sf64_ocl_acosh True p x m t w))
   \<and> \<not> is_subnormal_bits (fst (sf64_ocl_atanh True p x m t w))
   \<and> \<not> is_subnormal_bits (fst (sf64_ocl_exp True p x m t w))
   \<and> \<not> is_subnormal_bits (fst (sf64_ocl_exp2 True p x m t w))
   \<and> \<not> is_subnormal_bits (fst (sf64_ocl_exp10 True p x m t w))
   \<and> \<not> is_subnormal_bits (fst (sf64_ocl_expm1 True p x m t w))
   \<and> \<not> is_subnormal_bits (fst (sf64_ocl_log True p x m t w))
   \<and> \<not> is_subnormal_bits (fst (sf64_ocl_log2 True p x m t w))
   \<and> \<not> is_subnormal_bits (fst (sf64_ocl_log10 True p x m t w))
   \<and> \<not> is_subnormal_bits (fst (sf64_ocl_log1p True p x m t w))
   \<and> \<not> is_subnormal_bits (fst (sf64_ocl_pow True p x y m t w))
   \<and> \<not> is_subnormal_bits (fst (sf64_ocl_powr True p x y m t w))
   \<and> \<not> is_subnormal_bits (fst (sf64_ocl_pown True p x n m t w))
   \<and> \<not> is_subnormal_bits (fst (sf64_ocl_rootn True p x n m t w))
   \<and> \<not> is_subnormal_bits (fst (sf64_ocl_cbrt True p x m t w))
   \<and> \<not> is_subnormal_bits (fst (sf64_ocl_erf True p x m t w))
   \<and> \<not> is_subnormal_bits (fst (sf64_ocl_erfc True p x m t w))
   \<and> \<not> is_subnormal_bits (fst (sf64_ocl_tgamma True p x m t w))
   \<and> \<not> is_subnormal_bits (fst (sf64_ocl_lgamma True p x m t w))
   \<and> \<not> is_subnormal_bits (fst (sf64_ocl_fmod True p x y m t w))
   \<and> \<not> is_subnormal_bits (fst (sf64_ocl_remainder True p x y m t w))
   \<and> \<not> is_subnormal_bits (fst (sf64_native_sin True p x m t w))
   \<and> \<not> is_subnormal_bits (fst (sf64_native_cos True p x m t w))
   \<and> \<not> is_subnormal_bits (fst (sf64_native_tan True p x m t w))
   \<and> \<not> is_subnormal_bits (fst (sf64_native_exp True p x m t w))
   \<and> \<not> is_subnormal_bits (fst (sf64_native_exp2 True p x m t w))
   \<and> \<not> is_subnormal_bits (fst (sf64_native_exp10 True p x m t w))
   \<and> \<not> is_subnormal_bits (fst (sf64_native_log True p x m t w))
   \<and> \<not> is_subnormal_bits (fst (sf64_native_log2 True p x m t w))
   \<and> \<not> is_subnormal_bits (fst (sf64_native_log10 True p x m t w))
   \<and> \<not> is_subnormal_bits (fst (sf64_native_sqrt True x m t w))
   \<and> \<not> is_subnormal_bits (fst (sf64_native_rsqrt True x m t w))
   \<and> \<not> is_subnormal_bits (fst (sf64_native_recip True x m t w))
   \<and> \<not> is_subnormal_bits (fst (sf64_native_divide True x y m t w))
   \<and> \<not> is_subnormal_bits (fst (sf64_native_powr True p x y m t w))
   \<and> \<not> is_subnormal_bits (fst (fst (sf64_ocl_modf True p x b m t w)))
   \<and> pred_option (\<lambda>v. \<not> is_subnormal_bits v) (snd (fst (sf64_ocl_modf True p x b m t w)))
   \<and> \<not> is_subnormal_bits (fst (sf64_ocl_frexp True x b))
   \<and> \<not> is_subnormal_bits (fst (fst (sf64_ocl_lgamma_r True p x b m t w)))
   \<and> pred_option (\<lambda>v. \<not> is_subnormal_bits v) (fst (fst (sf64_ocl_sincos True p x b c m t w)))
   \<and> pred_option (\<lambda>v. \<not> is_subnormal_bits v) (snd (fst (sf64_ocl_sincos True p x b c m t w)))
   \<and> fst (sf64_ocl_to_f32 True 0x36A0000000000000 m t w) = 1"
  by (intro conjI; (rule narrowed_subnormal native_powr_flush)?;
      simp add: ocl_entries ocl_forward ocl_flush option_flush split_beta)

end
