(* ===== verification/Sf_Sleef_Pure.thy ===== *)
theory Sf_Sleef_Pure
  imports Sf_Ocl
begin

text \<open>
  Every entry of the elementary functions and of the OpenCL surface is pure but for one raise of the
  flags of its own thread: its value and the bits it raises do not depend on the build mode, on the
  thread, or on the flags that were set before.  The rules of the collection \<open>pure_intros\<close> take a
  program apart construct by construct.
\<close>

section \<open>Pure entries and computations\<close>

definition pure_entry :: "'r entry \<Rightarrow> bool" where
  "pure_entry f \<longleftrightarrow> (\<exists>v fl. \<forall>m t w. f m t w = (v, sf64_fe_raise m t fl w))"

abbreviation running :: "bool \<Rightarrow> u32 \<Rightarrow> fenv_mode \<Rightarrow> tid \<Rightarrow> fenv_world \<Rightarrow> sleef" where
  "running p a m t w \<equiv>
     \<lparr>sl_snan = p, sl_mode = m, sl_tid = t, sl_acc = acc_raise m a acc_default, sl_world = w\<rparr>"

text \<open>The accumulator of an entry with its own store holds the bits \<open>a\<close> before and \<open>b\<close> after.\<close>

definition pure_sl :: "'r sl \<Rightarrow> bool" where
  "pure_sl f \<longleftrightarrow> (\<forall>p a. \<exists>v b c. \<forall>m t w. run_state f (running p a m t w) = (v, (running p b m t (sf64_fe_raise m t c w))))"

named_theorems pure_intros

lemma raise_0 [simp]: "sf64_fe_raise m t 0 w = w"
  by (cases w) (simp add: sf64_fe_raise_def put_tls_def)

lemma raise_raise [simp]: "sf64_fe_raise m t c (sf64_fe_raise m t b w) = sf64_fe_raise m t (b OR c) w"
  by (simp add: sf64_fe_raise_def put_tls_def or.assoc)

lemma flush_default: "acc_flush m t (acc_raise m a acc_default) w = sf64_fe_raise m t a w"
  by (cases m; cases w) (simp_all add: fe_acc_simps sf64_fe_raise_def put_tls_def)

lemma pure_slI:
  assumes "\<And>p a. \<exists>v b c. \<forall>m t w. run_state f (running p a m t w) = (v, (running p b m t (sf64_fe_raise m t c w)))"
  shows "pure_sl f"
  using assms unfolding pure_sl_def by blast

lemma pure_return [pure_intros]: "pure_sl (return v)"
  by (rule pure_slI) (intro exI [of _ v] exI [of _ "_ :: u32"] exI [of _ 0] allI, simp)

lemma pure_bind [pure_intros]:
  assumes f: "pure_sl f" and g: "\<And>v. pure_sl (g v)"
  shows "pure_sl (f \<bind> g)"
proof (rule pure_slI)
  fix p a
  obtain v b c where 1: "\<And>m t w. run_state f (running p a m t w) = (v, (running p b m t (sf64_fe_raise m t c w)))"
    using f unfolding pure_sl_def by meson
  obtain v' b' c' where 2: "\<And>m t w. run_state (g v) (running p b m t w) = (v', (running p b' m t (sf64_fe_raise m t c' w)))"
    using g [of v] unfolding pure_sl_def by meson
  show "\<exists>v b c. \<forall>m t w. run_state (f \<bind> g) (running p a m t w) = (v, (running p b m t (sf64_fe_raise m t c w)))"
    by (intro exI [of _ v'] exI [of _ b'] exI [of _ "c OR c'"]) (simp add: 1 2)
qed

lemma pure_with_fe [pure_intros]: "pure_sl (with_fe body)"
proof (rule pure_slI)
  fix p a
  show "\<exists>v b c. \<forall>m t w. run_state (with_fe body) (running p a m t w) = (v, (running p b m t (sf64_fe_raise m t c w)))"
    by (intro exI [of _ "fst (body 0)"] exI [of _ "a OR snd (body 0)"] exI [of _ 0])
      (simp add: with_fe_def acc_raise_raise split: prod.split)
qed

lemma pure_call [pure_intros]:
  assumes "pure_entry f"
  shows "pure_sl (call_entry f)"
proof (rule pure_slI)
  fix p a
  obtain v fl where "\<And>m t w. f m t w = (v, sf64_fe_raise m t fl w)" using assms unfolding pure_entry_def by blast
  then show "\<exists>v b c. \<forall>m t w. run_state (call_entry f) (running p a m t w) = (v, (running p b m t (sf64_fe_raise m t c w)))"
    by (intro exI [of _ v] exI [of _ a] exI [of _ fl]) (simp add: call_entry_def)
qed

lemma pure_flush [pure_intros]: "pure_sl fe_flush"
proof (rule pure_slI)
  fix p a
  show "\<exists>v b c. \<forall>m t w. run_state fe_flush (running p a m t w) = (v, (running p b m t (sf64_fe_raise m t c w)))"
    by (intro exI [of _ "()"] exI [of _ a] exI [of _ a]) (simp add: fe_flush_def flush_default)
qed

lemma pure_snan [pure_intros]: "pure_sl snan_propagate"
proof (rule pure_slI)
  fix p a
  show "\<exists>v b c. \<forall>m t w. run_state snan_propagate (running p a m t w) = (v, (running p b m t (sf64_fe_raise m t c w)))"
    by (intro exI [of _ p] exI [of _ a] exI [of _ 0]) (simp add: snan_propagate_def)
qed

lemma pure_fe_raise [pure_intros]: "pure_sl (fe_raise fl)"
  unfolding fe_raise_def by (rule pure_with_fe)

lemma pure_if [pure_intros]: "pure_sl f \<Longrightarrow> pure_sl g \<Longrightarrow> pure_sl (if c then f else g)"
  by simp

lemma pure_let [pure_intros]: "(\<And>x. pure_sl (f x)) \<Longrightarrow> pure_sl (let x = v in f x)"
  by simp

lemma pure_case_prod [pure_intros]: "(\<And>x y. pure_sl (f x y)) \<Longrightarrow> pure_sl (case q of (x, y) \<Rightarrow> f x y)"
  by (simp split: prod.split)

lemma pure_run [pure_intros]: "pure_sl f \<Longrightarrow> pure_entry (run_entry snan acc_default f)"
proof -
  assume "pure_sl f"
  then obtain v b c where "\<And>m t w. run_state f (running snan 0 m t w) = (v, (running snan b m t (sf64_fe_raise m t c w)))"
    unfolding pure_sl_def by meson
  then show ?thesis unfolding pure_entry_def by (intro exI [of _ v] exI [of _ c]) (simp add: run_entry_def)
qed

lemma pure_entry_default [pure_intros]: "pure_entry (\<lambda>m t. entry_default m t r)"
  unfolding pure_entry_def
  by (intro exI [of _ "fst r"] exI [of _ "snd r"]) (simp add: entry_default_def flush_default)

lemma pure_entry_map:
  assumes "pure_entry f"
  shows "pure_entry (\<lambda>m t w. let (r, w) = f m t w in (g r, w))"
proof -
  obtain v fl where "\<And>m t w. f m t w = (v, sf64_fe_raise m t fl w)" using assms unfolding pure_entry_def by blast
  then show ?thesis unfolding pure_entry_def by (intro exI [of _ "g v"] exI [of _ fl]) simp
qed

lemma pure_entry_const [pure_intros]: "pure_entry (\<lambda>m t w. (v, w))"
  unfolding pure_entry_def by (intro exI [of _ v] exI [of _ 0]) simp

lemma pure_entry_direct [pure_intros]: "pure_entry (\<lambda>m t w. (v, fe_raise_direct m t fl w))"
  unfolding pure_entry_def
  by (intro exI [of _ v] exI [of _ fl]) (simp add: fe_raise_direct_def sf64_fe_raise_def split: fenv_mode.split)

lemma pure_entry_if [pure_intros]: "pure_entry f \<Longrightarrow> pure_entry g \<Longrightarrow> pure_entry (\<lambda>m t w. if c then f m t w else g m t w)"
  by (cases c) simp_all

lemma pure_entry_let [pure_intros]: "(\<And>x. pure_entry (f x)) \<Longrightarrow> pure_entry (\<lambda>m t w. let x = v in f x m t w)"
  by simp

lemma pure_entry_seq:
  assumes "pure_entry f" "\<And>r. pure_entry (g r)"
  shows "pure_entry (\<lambda>m t w. let (r, w) = f m t w in g r m t w)"
proof -
  obtain v fl where 1: "\<And>m t w. f m t w = (v, sf64_fe_raise m t fl w)" using assms(1) unfolding pure_entry_def by blast
  obtain v' fl' where 2: "\<And>m t w. g v m t w = (v', sf64_fe_raise m t fl' w)" using assms(2) [of v] unfolding pure_entry_def by blast
  show ?thesis unfolding pure_entry_def by (intro exI [of _ v'] exI [of _ "fl OR fl'"]) (simp add: 1 2)
qed

section \<open>The vocabulary\<close>

lemma pure_ops [pure_intros]:
  "pure_sl (sl_add a b)" "pure_sl (sl_sub a b)" "pure_sl (sl_mul a b)" "pure_sl (sl_div a b)"
  "pure_sl (sl_fma a b c)" "pure_sl (sl_sqrt a)" "pure_sl (mla a b c)" "pure_sl (is_int a)"
  by (simp_all add: sl_add_def sl_sub_def sl_mul_def sl_div_def sl_fma_def sl_sqrt_def mla_def is_int_def pure_intros)

lemma pure_is_odd_int [pure_intros]: "pure_sl (is_odd_int x)" "pure_sl (propagate_nan_xy x y)"
  unfolding is_odd_int_def propagate_nan_xy_def by (intro pure_intros)+

lemma pure_loops [pure_intros]: "pure_sl (poly_loop x a cs)" "pure_sl (horner x a cs)" "pure_sl (logk2_loop x a cs)"
  by (induction cs arbitrary: a) (simp_all add: pure_intros)

lemma pure_entry_defaultI: "(\<And>m t. f m t = entry_default m t r) \<Longrightarrow> pure_entry f"
  using pure_entry_default [of r] by (simp add: pure_entry_def)

lemmas pure_conversions [pure_intros] =
  pure_entry_defaultI [OF sf64_to_i32_def] pure_entry_defaultI [OF sf64_from_i32_def]
  pure_entry_defaultI [OF sf64_from_i64_def]

lemma pure_dd1 [pure_intros]:
  "pure_sl (two_sum a0 b0)" "pure_sl (two_prod a1 b1)" "pure_sl (ddrec_dd_d a2)"
  "pure_sl (ddrec_dd_dd a3)" "pure_sl (ddnormalize_dd_dd a4)" "pure_sl (dd_to_d a5)"
  "pure_sl (ddscale_dd_dd_d a6 b6)" "pure_sl (ddadd_dd_d_d a7 b7)" "pure_sl (ddadd_dd_dd_d a8 b8)"
  "pure_sl (ddadd_dd_d_dd a9 b9)" "pure_sl (ddadd_dd_dd_dd a10 b10)" "pure_sl (ddmul_d_dd_dd a11 b11)"
  "pure_sl (poly_array a12 b12)" "pure_sl (poly10_horner a13 b13)" "pure_sl (poly7_horner a14 b14)"
  "pure_sl (to_i32 a15)" "pure_sl (from_i32 a16)" "pure_sl (from_i64 a17)"
  unfolding two_sum_def two_prod_def ddrec_dd_d_def ddrec_dd_dd_def
    ddnormalize_dd_dd_def dd_to_d_def ddscale_dd_dd_d_def ddadd_dd_d_d_def
    ddadd_dd_dd_d_def ddadd_dd_d_dd_def ddadd_dd_dd_dd_def ddmul_d_dd_dd_def
    poly_array_def poly10_horner_def poly7_horner_def to_i32_def
    from_i32_def from_i64_def
  by (intro pure_intros)+

lemma pure_dd2 [pure_intros]:
  "pure_sl (ddadd2_dd_dd a0 b0)" "pure_sl (ddadd2_dd_d_d a1 b1)" "pure_sl (ddadd2_dd_dd_d a2 b2)"
  "pure_sl (ddadd2_dd_d_dd a3 b3)" "pure_sl (ddmul_dd_d_d a4 b4)" "pure_sl (ddmul_dd_dd_d a5 b5)"
  "pure_sl (ddmul_dd_dd_dd a6 b6)" "pure_sl (ddsqu_dd_dd a7)"
  unfolding ddadd2_dd_dd_def ddadd2_dd_d_d_def ddadd2_dd_dd_d_def ddadd2_dd_d_dd_def
    ddmul_dd_d_d_def ddmul_dd_dd_d_def ddmul_dd_dd_dd_def ddsqu_dd_dd_def
  by (intro pure_intros)+

lemma pure_logk_loop [pure_intros]: "pure_sl (logk_loop x2 t cs)"
  by (induction cs arbitrary: t) (simp_all add: pure_intros)

lemma pure_dd3 [pure_intros]:
  "pure_sl (dddiv_dd_dd_dd a0 b0)" "pure_sl (ddsub_dd_dd_dd a1 b1)" "pure_sl (bump a2)"
  "pure_sl (atan2k_core_poly a3)"
  unfolding dddiv_dd_dd_dd_def ddsub_dd_dd_dd_def bump_def atan2k_core_poly_def
  by (intro pure_intros)+

lemma pure_flushed [pure_intros]: "pure_sl f \<Longrightarrow> pure_sl (flushed f)"
  unfolding flushed_def by (intro pure_intros)

lemma pure_kernels [pure_intros]:
  "pure_sl (expk2 a0)" "pure_sl (log_reduce a1)" "pure_sl (log_quotient a2)"
  "pure_sl (sf64_internal_exp_core a3)" "pure_sl (atan2k_u1_dd a4 b4)" "pure_sl (sf64_internal_logk_dd a5)"
  "pure_sl (expk_reconstruct a6 b6)" "pure_sl (sf64_internal_logk2_dd a7)" "pure_sl (asin_kernel a8 b8)"
  "pure_sl (rempisub a9)" "pure_sl (pik_kernel a10 b10)" "pure_sl (pik_reduce a11)"
  "pure_sl (quarter_adjust a12)" "pure_sl (sin_core a13)" "pure_sl (over_pi a14)"
  "pure_sl (poly4dd a15 b15 c15 d15 e15)" "pure_sl (gamma_raise a16 b16 c16)" "pure_sl (gamma_z_path a17 b17 c17)"
  unfolding expk2_def log_reduce_def log_quotient_def sf64_internal_exp_core_def
    atan2k_u1_dd_def sf64_internal_logk_dd_def expk_reconstruct_def sf64_internal_logk2_dd_def
    asin_kernel_def rempisub_def pik_kernel_def pik_reduce_def
    quarter_adjust_def sin_core_def over_pi_def poly4dd_def
    gamma_raise_def gamma_z_path_def
  by (intro pure_intros)+

lemma pure_cores [pure_intros]:
  "pure_sl (sf64_internal_log_core a0)" "pure_sl (sf64_internal_expk_dd a1)" "pure_sl (sf64_internal_expk2_dd a2)"
  "pure_sl (rempi a3)" "pure_sl (sinpi_core a4)" "pure_sl (cospi_core a5)"
  "pure_sl (erf_mid a6)"
  unfolding sf64_internal_log_core_def sf64_internal_expk_dd_def sf64_internal_expk2_dd_def rempi_def
    sinpi_core_def cospi_core_def erf_mid_def
  by (intro pure_intros)+

lemma pure_cores2 [pure_intros]:
  "pure_sl (sf64_internal_sinpik_dd a0)" "pure_sl (sin_reduce a1)" "pure_sl (cos_reduce a2)"
  "pure_sl (tan_reduce a3)" "pure_sl (erf_tail a4)" "pure_sl (gamma_y_path a5)"
  unfolding sf64_internal_sinpik_dd_def sin_reduce_def cos_reduce_def tan_reduce_def
    erf_tail_def gamma_y_path_def
  by (intro pure_intros)+

lemma pure_cores3 [pure_intros]:
  "pure_sl (gamma_reflect a0 b0)"
  unfolding gamma_reflect_def
  by (intro pure_intros)+

lemma pure_cores4 [pure_intros]:
  "pure_sl (gammak a0)"
  unfolding gammak_def
  by (intro pure_intros)+

lemma pure_call_fn [pure_intros]: "(\<And>p. pure_entry (f p)) \<Longrightarrow> pure_sl (call_fn f)"
  unfolding call_fn_def by (intro pure_intros)

lemma pure_fmod_loop [pure_intros]: "pure_sl (fmod_loop k absy r)"
  by (induction k arbitrary: r) (simp_all add: pure_intros)

lemma pure_fmod_impl [pure_intros]: "pure_sl (fmod_impl x y)"
  unfolding fmod_impl_def by (intro pure_intros)

section \<open>The entries\<close>

lemma pure_exp_log [pure_intros]:
  "pure_entry (sf64_exp p x)" "pure_entry (sf64_exp2 p x)" "pure_entry (sf64_exp10 p x)"
  "pure_entry (sf64_expm1 p x)" "pure_entry (sf64_log p x)" "pure_entry (sf64_log2 p x)"
  "pure_entry (sf64_log10 p x)" "pure_entry (sf64_log1p p x)"
  unfolding sf64_exp_def sf64_exp2_def sf64_exp10_def sf64_expm1_def
    sf64_log_def sf64_log2_def sf64_log10_def sf64_log1p_def
  by (intro pure_intros)+

lemma pure_call_log1p [pure_intros]: "pure_sl (call_log1p x)"
  unfolding call_log1p_def by (intro pure_intros)

lemma pure_inverse_hyperbolic [pure_intros]:
  "pure_entry (sf64_asin p x)" "pure_entry (sf64_acos p x)" "pure_entry (sf64_atan p x)"
  "pure_entry (sf64_cbrt p x)" "pure_entry (sf64_sinh p x)" "pure_entry (sf64_cosh p x)"
  "pure_entry (sf64_tanh p x)" "pure_entry (sf64_asinh p x)" "pure_entry (sf64_acosh p x)"
  "pure_entry (sf64_atanh p x)" "pure_entry (sf64_atan2 p x y)" "pure_entry (sf64_pow p x y)"
  "pure_entry (sf64_fmod p x y)"
  unfolding sf64_asin_def sf64_acos_def sf64_atan_def sf64_cbrt_def
    sf64_sinh_def sf64_cosh_def sf64_tanh_def sf64_asinh_def
    sf64_acosh_def sf64_atanh_def sf64_atan2_def sf64_pow_def
    sf64_fmod_def
  by (intro pure_intros)+

lemma pure_remainder [pure_intros]: "pure_entry (sf64_remainder p x y)"
  unfolding sf64_remainder_def remainder_impl_def by (intro pure_intros)

lemma pure_trig [pure_intros]:
  "pure_entry (sf64_sin p x)" "pure_entry (sf64_cos p x)" "pure_entry (sf64_tan p x)"
  "pure_entry (sf64_sinpi p x)" "pure_entry (sf64_cospi p x)" "pure_entry (sf64_tanpi p x)"
  unfolding sf64_sin_def sf64_cos_def sf64_tan_def sf64_sinpi_def
    sf64_cospi_def sf64_tanpi_def
  by (intro pure_intros)+

lemma pure_special [pure_intros]:
  "pure_entry (sf64_asinpi p x)" "pure_entry (sf64_acospi p x)" "pure_entry (sf64_atanpi p x)"
  "pure_entry (sf64_erf p x)" "pure_entry (sf64_erfc p x)" "pure_entry (sf64_tgamma p x)"
  "pure_entry (sf64_atan2pi p x y)" "pure_entry (sf64_rootn p x n)"
  unfolding sf64_asinpi_def sf64_acospi_def sf64_atanpi_def sf64_erf_def
    sf64_erfc_def sf64_tgamma_def sf64_atan2pi_def sf64_rootn_def
  by (intro pure_intros)+

lemma pure_lgamma_r [pure_intros]: "pure_entry (sf64_lgamma_r p x sign)"
  unfolding sf64_lgamma_r_def by (intro pure_intros)

lemma pure_derived [pure_intros]:
  "pure_entry (sf64_powr p x y)" "pure_entry (sf64_pown p x n)" "pure_entry (sf64_lgamma p x)"
  "pure_entry (sf64_sincos p x s c)"
proof -
  show "pure_entry (sf64_powr p x y)"
    unfolding sf64_powr_def [abs_def] by (intro pure_intros)
  show "pure_entry (sf64_pown p x n)"
    unfolding sf64_pown_def [abs_def] by (intro pure_entry_seq pure_intros)
  show "pure_entry (sf64_lgamma p x)"
    using pure_entry_map [OF pure_lgamma_r [of p x True], of fst] unfolding sf64_lgamma_def [abs_def] by (simp add: case_prod_unfold)
  obtain a b where 1: "\<And>m t w. sf64_sin p x m t w = (a, sf64_fe_raise m t b w)"
    using pure_trig(1) [of p x] by (auto simp: pure_entry_def)
  obtain d e where 2: "\<And>m t w. sf64_cos p x m t w = (d, sf64_fe_raise m t e w)"
    using pure_trig(2) [of p x] by (auto simp: pure_entry_def)
  show "pure_entry (sf64_sincos p x s c)"
    unfolding pure_entry_def
    by (intro exI [of _ "(if s then Some a else None, if c then Some d else None)"]
        exI [of _ "(if s then b else 0) OR (if c then e else 0)"]) (simp add: sf64_sincos_def 1 2)
qed

text \<open>
  C22: Every elementary function is a function: the double it returns and the exception bits it raises
  depend on its operands alone, not on the build mode, the calling thread or the flags set before, and
  the only thing it does to the world is to raise those bits in the bag of its own thread, as one call
  of \<open>sf64_fe_raise\<close> would (so it never clears a flag, never touches another thread or a caller's
  state, and in the builds without a bag it touches nothing).
\<close>

theorem elementary_entries_pure:
  "pure_entry (sf64_sin p x) \<and> pure_entry (sf64_cos p x) \<and> pure_entry (sf64_tan p x)
   \<and> pure_entry (sf64_asin p x) \<and> pure_entry (sf64_acos p x) \<and> pure_entry (sf64_atan p x)
   \<and> pure_entry (sf64_sinpi p x) \<and> pure_entry (sf64_cospi p x) \<and> pure_entry (sf64_tanpi p x)
   \<and> pure_entry (sf64_asinpi p x) \<and> pure_entry (sf64_acospi p x) \<and> pure_entry (sf64_atanpi p x)
   \<and> pure_entry (sf64_sinh p x) \<and> pure_entry (sf64_cosh p x) \<and> pure_entry (sf64_tanh p x)
   \<and> pure_entry (sf64_asinh p x) \<and> pure_entry (sf64_acosh p x) \<and> pure_entry (sf64_atanh p x)
   \<and> pure_entry (sf64_exp p x) \<and> pure_entry (sf64_exp2 p x) \<and> pure_entry (sf64_exp10 p x)
   \<and> pure_entry (sf64_expm1 p x) \<and> pure_entry (sf64_log p x) \<and> pure_entry (sf64_log2 p x)
   \<and> pure_entry (sf64_log10 p x) \<and> pure_entry (sf64_log1p p x) \<and> pure_entry (sf64_cbrt p x)
   \<and> pure_entry (sf64_erf p x) \<and> pure_entry (sf64_erfc p x) \<and> pure_entry (sf64_tgamma p x)
   \<and> pure_entry (sf64_lgamma p x) \<and> pure_entry (sf64_atan2 p x y) \<and> pure_entry (sf64_atan2pi p x y)
   \<and> pure_entry (sf64_pow p x y) \<and> pure_entry (sf64_powr p x y) \<and> pure_entry (sf64_fmod p x y)
   \<and> pure_entry (sf64_remainder p x y) \<and> pure_entry (sf64_pown p x n) \<and> pure_entry (sf64_rootn p x n)
   \<and> pure_entry (sf64_lgamma_r p x b) \<and> pure_entry (sf64_sincos p x b c)"
  by (intro conjI pure_intros)

end
