(* ===== verification/Sf_Sleef_Power.thy ===== *)
theory Sf_Sleef_Power
  imports Sf_Sleef_Rem Sf_Sleef_Special
begin

text \<open>
  The special cases of \<open>sf64_pow\<close> and \<open>sf64_powr\<close>, values and flags, against the tables of IEEE 754;
  on the way, \<open>is_int\<close> and \<open>is_odd_int\<close> decide integrality and parity of every finite double exactly.
\<close>

section \<open>Integrality and parity of any double\<close>

lemma trunc_finite: "is_finite_bits x \<Longrightarrow> is_finite_bits (sf64_trunc x)"
  using rint_r_sound(1) [of x SF64_RTZ] by (simp add: sf64_rint_r_def)

lemma rep64_trunc_diff: "is_finite_bits x \<Longrightarrow> rep64 (val64 x - val64 (sf64_trunc x))"
proof -
  assume f: "is_finite_bits x"
  have e: "sf64_trunc x = trunc_bits x" by (simp add: trunc_rint sf64_rint_r_def)
  show ?thesis using modf_difference [OF f] rep64_val unfolding e by metis
qed

lemma trunc_fixed: "is_finite_bits x \<Longrightarrow> val64 x = val64 (sf64_trunc x) \<longleftrightarrow> val64 x \<in> \<int>"
proof -
  assume f: "is_finite_bits x"
  show ?thesis unfolding integer_parts(3) [OF f]
    by (auto simp: Ints_def)
qed

lemma is_int_finite:
  assumes "is_finite_bits x"
  shows "gives p (is_int x) (val64 x \<in> \<int>) 0"
proof -
  obtain d where d: "gives p (sl_sub x (sf64_trunc x)) d 0" "is_finite_bits d" "val64 d = val64 x - val64 (sf64_trunc x)"
    using sub_exact [OF assms trunc_finite [OF assms] rep64_trunc_diff [OF assms]] by metis
  have "sl_eq d 0 \<longleftrightarrow> val64 x \<in> \<int>"
    using finite_not_special [OF d(2)] d(3) trunc_fixed [OF assms] by (simp add: sl_compare)
  then show ?thesis unfolding is_int_def internal_trunc_eq
    by (intro gives_exact_bind [OF d(1)]) (simp add: gives_return)
qed

definition odd_real :: "real \<Rightarrow> bool" where "odd_real x \<longleftrightarrow> (\<exists>n :: int. odd n \<and> x = of_int n)"

lemma odd_real_int [simp]: "odd_real (of_int n) \<longleftrightarrow> odd n"
  by (auto simp: odd_real_def)

lemma half_rep: "is_finite_bits x \<Longrightarrow> val64 x \<in> \<int> \<Longrightarrow> rep64 (val64 x * (1 / 2))"
proof -
  assume f: "is_finite_bits x" and i: "val64 x \<in> \<int>"
  obtain K q where K: "\<bar>val64 x\<bar> = real K * 2 powi q" "K < 2 ^ 53" "- 1074 \<le> q" "q \<le> 971" using finite_grid [OF f] by metis
  have "rep64 \<bar>val64 x * (1 / 2)\<bar>"
  proof (cases "q = - 1074")
    case True
    have "real K * 2 powi q < 2 ^ 53 * 2 powi (- 1074)" using K(2) unfolding True by (intro mult_strict_right_mono) simp_all
    also have "\<dots> = 2 powi (- 1021)" using powi2_shift [of "- 1074" 53] by (simp add: mult.commute)
    also have "\<dots> < 1" using powi2_less_iff [of "- 1021" 0] by simp
    finally have "\<bar>val64 x\<bar> < 1" unfolding K(1) .
    then have "val64 x = 0" using i by (auto elim!: Ints_cases)
    then show ?thesis using rep64_scaled [of 0 0] by simp
  next
    case False
    have "\<bar>val64 x * (1 / 2)\<bar> = real_of_int (int K) * 2 powi (q - 1)"
      by (simp add: abs_mult K(1) power_int_diff)
    moreover have "rep64 (real_of_int (int K) * 2 powi (q - 1))" using K False by (intro rep64_scaled) simp_all
    ultimately show ?thesis by simp
  qed
  then show ?thesis unfolding rep64_abs .
qed

lemma is_odd_finite:
  assumes "is_finite_bits x"
  shows "gives p (is_odd_int x) (odd_real (val64 x)) 0"
proof (cases "val64 x \<in> \<int>")
  case False
  then have "\<not> odd_real (val64 x)" by (auto simp: odd_real_def)
  then show ?thesis using False is_int_finite [OF assms, of p] unfolding is_odd_int_def
    by (intro gives_exact_bind [where v = False]) (simp_all add: gives_return)
next
  case True
  then obtain n where n: "val64 x = of_int n" by (auto elim: Ints_cases)
  obtain h where h: "gives p (sl_mul x 0x3FE0000000000000) h 0" "is_finite_bits h" "val64 h = val64 x * (1 / 2)"
    using mul_exact [OF assms half_val(2), of p] half_rep [OF assms True] by (metis half_val(1))
  obtain d where d: "gives p (sl_sub h (sf64_trunc h)) d 0" "is_finite_bits d" "val64 d = val64 h - val64 (sf64_trunc h)"
    using sub_exact [OF h(2) trunc_finite [OF h(2)] rep64_trunc_diff [OF h(2)]] by metis
  have "val64 h \<in> \<int> \<longleftrightarrow> even n"
  proof
    assume "val64 h \<in> \<int>"
    then obtain k where "val64 h = of_int k" by (auto elim: Ints_cases)
    then have "real_of_int n = of_int (2 * k)" using h(3) n by simp
    then have "n = 2 * k" by (simp only: of_int_eq_iff)
    then show "even n" by simp
  qed (auto simp: h(3) n elim!: evenE)
  then have ne: "sl_ne d 0 \<longleftrightarrow> odd_real (val64 x)"
    using finite_not_special [OF d(2)] d(3) trunc_fixed [OF h(2)] n by (auto simp: sl_compare)
  show ?thesis
    unfolding is_odd_int_def internal_trunc_eq
    using is_int_finite [OF assms, of p] True
    apply (intro gives_exact_bind [where v = True])
     apply simp
    apply (simp only: not_True_eq_False if_False)
    apply (rule gives_exact_bind [OF h(1)])
    apply (rule gives_exact_bind [OF d(1)])
    by (simp add: ne gives_return)
qed

lemma inf_val: "is_inf_bits x \<Longrightarrow> val64 x = (if sgn64 x then - (2 powi 1024) else 2 powi 1024)"
proof -
  assume "is_inf_bits x"
  then have "mag64 x = inf64" by (simp add: is_inf_bits_iff)
  moreover have "mag_val 52 (- 1074) inf64 = 2 powi 1024"
    using mag_val_encode [of "2 ^ 52" 52 2046 "- 1074"] powi2_shift [of 972 52] by (simp add: inf64_def mult.commute)
  ultimately show ?thesis by (simp add: val64_def)
qed

lemma inf_large: "is_inf_bits x \<Longrightarrow> 1 < \<bar>val64 x\<bar>"
  using inf_val [of x] powi2_less_iff [of 0 1024] by simp

lemma is_int_inf: "is_inf_bits x \<Longrightarrow> \<exists>fl. gives p (is_int x) False fl"
proof -
  assume i: "is_inf_bits x"
  have t: "sf64_trunc x = x"
    using i by (simp add: sf64_trunc_def trunc_bits_def is_inf_bits_def)
  have n: "\<not> is_nan_bits x" using i by (simp add: class_iff)
  have s: "sub_r_impl p x x SF64_RNE 0 = (kCanonicalNaN, SF64_FE_INVALID)"
    using i n by (subst sub_r_impl_sound) (simp_all add: ieee_sub_def)
  have "\<not> sl_eq kCanonicalNaN 0" by code_simp
  then have "gives p (is_int x) False (SF64_FE_INVALID OR 0)"
    unfolding is_int_def internal_trunc_eq t by (intro gives_bind [OF gives_sub [OF s]]) (simp add: gives_return)
  then show ?thesis by blast
qed

text \<open>Whether a double is an integer, or an odd one; an infinity is neither for the code.\<close>

definition int_bits :: "f64 \<Rightarrow> bool" where "int_bits y \<longleftrightarrow> is_finite_bits y \<and> val64 y \<in> \<int>"
definition odd_bits :: "f64 \<Rightarrow> bool" where "odd_bits y \<longleftrightarrow> is_finite_bits y \<and> odd_real (val64 y)"

lemma parity:
  assumes "\<not> is_nan_bits y"
  shows "\<exists>fl. gives p (is_int y) (int_bits y) fl" "\<exists>fl. gives p (if int_bits y then is_odd_int y else return False) (odd_bits y) fl"
proof -
  have c: "is_finite_bits y \<or> is_inf_bits y \<and> \<not> is_finite_bits y" using assms by (auto simp: class_iff)
  show "\<exists>fl. gives p (is_int y) (int_bits y) fl"
    using c is_int_finite [of y p] is_int_inf [of y p] by (auto simp: int_bits_def)
  show "\<exists>fl. gives p (if int_bits y then is_odd_int y else return False) (odd_bits y) fl"
  proof (cases "int_bits y")
    case True
    then show ?thesis using is_odd_finite [of y p] by (auto simp: int_bits_def odd_bits_def)
  next
    case False
    then have "\<not> odd_bits y" by (auto simp: int_bits_def odd_bits_def odd_real_def)
    then show ?thesis using False gives_return [of p False] by auto
  qed
qed

section \<open>The power functions\<close>

definition signed_inf :: "bool \<Rightarrow> f64" where "signed_inf s = enc64 s inf64"
definition signed_zero :: "bool \<Rightarrow> f64" where "signed_zero s = enc64 s 0"

text \<open>
  The table of IEEE 754-2008, section 9.2.1, for the operands it lists, with the exception it signals:
  division by zero for a zero base and a finite negative exponent, invalid for a signalling NaN and for
  a finite negative base with a finite non-integer exponent.  \<open>None\<close> where the power is to be computed.
\<close>

definition ieee_pow_table :: "f64 \<Rightarrow> f64 \<Rightarrow> (f64 \<times> u32) option" where
  "ieee_pow_table x y =
     (if is_snan_bits x \<or> is_snan_bits y then Some (kCanonicalNaN, SF64_FE_INVALID)
      else if is_zero_bits y \<or> x = 0x3FF0000000000000 then Some (0x3FF0000000000000, 0)
      else if is_nan_bits x \<or> is_nan_bits y then Some (kCanonicalNaN, 0)
      else if is_zero_bits x then
        Some (if sgn64 y then (signed_inf (sgn64 x \<and> odd_bits y), if is_inf_bits y then 0 else SF64_FE_DIVBYZERO)
              else (signed_zero (sgn64 x \<and> odd_bits y), 0))
      else if is_inf_bits y then
        Some (if \<bar>val64 x\<bar> = 1 then 0x3FF0000000000000
              else if \<bar>val64 x\<bar> < 1 \<longleftrightarrow> sgn64 y then signed_inf False else signed_zero False, 0)
      else if is_inf_bits x then
        Some (if sgn64 y then signed_zero (sgn64 x \<and> odd_bits y) else signed_inf (sgn64 x \<and> odd_bits y), 0)
      else if sgn64 x \<and> \<not> int_bits y then Some (kCanonicalNaN, SF64_FE_INVALID)
      else None)"

text \<open>
  The values alone in the order the code decides them: a zero exponent and a base of one come before any
  NaN, a signalling one too.
\<close>

definition pow_values :: "f64 \<Rightarrow> f64 \<Rightarrow> f64 option" where
  "pow_values x y =
     (if is_zero_bits y \<or> x = 0x3FF0000000000000 then Some 0x3FF0000000000000
      else if is_nan_bits x \<or> is_nan_bits y then Some kCanonicalNaN
      else if is_zero_bits x then
        Some (if sgn64 y then signed_inf (sgn64 x \<and> odd_bits y) else signed_zero (sgn64 x \<and> odd_bits y))
      else if is_inf_bits y then
        Some (if \<bar>val64 x\<bar> = 1 then 0x3FF0000000000000
              else if \<bar>val64 x\<bar> < 1 \<longleftrightarrow> sgn64 y then signed_inf False else signed_zero False)
      else if is_inf_bits x then
        Some (if sgn64 y then signed_zero (sgn64 x \<and> odd_bits y) else signed_inf (sgn64 x \<and> odd_bits y))
      else if sgn64 x \<and> \<not> int_bits y then Some kCanonicalNaN
      else None)"

text \<open>
  Where the code leaves the table in the value: a negative base whose exponent \<open>is_int\<close> rejects, and a
  signalling NaN beside a zero exponent or a base of one.  Where it delivers the value of the table and
  leaves out the exception: \<open>pow_unsignalled\<close>.
\<close>

definition pow_rejects :: "f64 \<Rightarrow> f64 \<Rightarrow> bool" where
  "pow_rejects x y \<longleftrightarrow> sgn64 x \<and> \<not> is_zero_bits x \<and> \<not> is_zero_bits y \<and> \<not> is_nan_bits x \<and> \<not> is_nan_bits y \<and> \<not> int_bits y"

definition pow_ignores_snan :: "f64 \<Rightarrow> f64 \<Rightarrow> bool" where
  "pow_ignores_snan x y \<longleftrightarrow> (is_snan_bits x \<or> is_snan_bits y) \<and> (is_zero_bits y \<or> x = 0x3FF0000000000000)"

definition pow_unsignalled :: "f64 \<Rightarrow> f64 \<Rightarrow> bool" where
  "pow_unsignalled x y \<longleftrightarrow> is_snan_bits x \<or> is_snan_bits y
     \<or> is_zero_bits x \<and> is_finite_bits y \<and> val64 y < 0
     \<or> is_finite_bits x \<and> val64 x < 0 \<and> is_finite_bits y \<and> val64 y \<notin> \<int>"

lemma sign_val: "val64 x < 0 \<longleftrightarrow> sgn64 x \<and> \<not> is_zero_bits x"
  "0 < val64 x \<longleftrightarrow> \<not> sgn64 x \<and> \<not> is_zero_bits x"
  using val64_sgn [of x] val64_eq_0_iff [of x] val64_signed [of x] by (auto simp: is_zero_bits_iff split: if_splits)

lemma one_iff: "val64 x = 1 \<longleftrightarrow> x = 0x3FF0000000000000"
proof
  assume v: "val64 x = 1"
  then have "\<not> sgn64 x" using val64_signed [of x] by (auto split: if_splits)
  then show "x = 0x3FF0000000000000" using v by (intro same_finite) simp_all
qed simp

lemma special_words:
  "positive_infinity = signed_inf False" "sl_neg (signed_inf False) = signed_inf True"
  "sl_neg 0 = signed_zero True" "sf64_neg (signed_inf False) = signed_inf True" "sf64_neg 0 = signed_zero True" "qNaN = kCanonicalNaN" "signed_zero False = 0"
  by (simp_all add: positive_infinity_def kPositiveInf_def signed_inf_def signed_zero_def enc64_def inf64_def sl_class sf64_neg_def
      kSignMask_def qNaN_def kCanonicalNaN_def)

lemma zero_class: "is_zero_bits x \<Longrightarrow> \<not> is_nan_bits x \<and> \<not> is_inf_bits x \<and> is_finite_bits x"
  "is_inf_bits x \<Longrightarrow> \<not> is_nan_bits x \<and> \<not> is_zero_bits x \<and> \<not> is_finite_bits x"
  by (auto simp: class_iff inf64_def)

lemma gives_if: "gives p f v fl \<Longrightarrow> c \<Longrightarrow> gives p (if c then f else g) v fl" "gives p g v fl \<Longrightarrow> \<not> c \<Longrightarrow> gives p (if c then f else g) v fl"
  by simp_all

lemmas value_simps = sl_class sl_compare sl_eq_zero internal_fabs_eq fabs_val

lemma abs_less_one: "\<bar>val64 x\<bar> < 1 \<or> \<bar>val64 x\<bar> = 1 \<or> 1 < \<bar>val64 x\<bar>"
  by linarith

lemma parity_run:
  assumes "\<not> is_nan_bits y" "gives p (K (int_bits y) (odd_bits y)) v fl"
  shows "run_entry p a (is_int y \<bind> (\<lambda>i. (if i then is_odd_int y else return False) \<bind> K i)) m t w = (v, w)"
proof -
  obtain b c where "gives p (is_int y) (int_bits y) b" "gives p (if int_bits y then is_odd_int y else return False) (odd_bits y) c"
    using parity [OF assms(1), of p] by blast
  then have "gives p (is_int y \<bind> (\<lambda>i. (if i then is_odd_int y else return False) \<bind> K i)) v (b OR (c OR fl))"
    by - (rule gives_bind, assumption, rule gives_bind, assumption, rule assms(2))
  then show ?thesis by (rule run_entry_gives)
qed

lemma sl_one: "sl_eq x 0x3FF0000000000000 \<longleftrightarrow> x = 0x3FF0000000000000"
  using one_iff [of x] by (auto simp: sl_compare class_iff mag64_def inf64_def)

lemma one_not_nan: "\<not> is_nan_bits 0x3FF0000000000000"
  using finite_not_special [OF one_val(2)] by simp

lemma pow_special:
  "case pow_values x y of
     None \<Rightarrow> is_finite_bits x \<and> is_finite_bits y \<and> \<not> is_zero_bits x \<and> \<not> is_zero_bits y
   | Some v \<Rightarrow> sf64_pow p x y m t w = (if pow_rejects x y then kCanonicalNaN else v, w)"
proof -
  have ret: "run_entry p acc_default (return v) m t w = (v, w)" for v :: f64
    by (rule run_entry_gives [OF gives_return])
  consider (one) "is_zero_bits y \<or> x = 0x3FF0000000000000"
    | (nan) "\<not> (is_zero_bits y \<or> x = 0x3FF0000000000000)" "is_nan_bits x \<or> is_nan_bits y"
    | (other) "\<not> is_zero_bits y" "x \<noteq> 0x3FF0000000000000" "\<not> is_nan_bits x" "\<not> is_nan_bits y"
    by blast
  then show ?thesis
  proof cases
    case one
    then have "\<not> pow_rejects x y" by (auto simp: pow_rejects_def)
    then show ?thesis using one by (auto simp: pow_values_def sf64_pow_def sl_eq_zero sl_one ret)
  next
    case nan
    then have "\<not> pow_rejects x y" by (auto simp: pow_rejects_def)
    then show ?thesis using nan by (auto simp: pow_values_def sf64_pow_def sl_eq_zero sl_one ret sl_class special_words)
  next
    case other
    show ?thesis
    proof (cases "pow_values x y")
      case (Some v)
      let ?i = "int_bits y" and ?o = "odd_bits y"
      have num: "is_inf_bits y \<Longrightarrow> \<not> ?i" "is_inf_bits y \<Longrightarrow> \<not> ?o" "?o \<Longrightarrow> ?i"
        by (auto simp: int_bits_def odd_bits_def odd_real_def dest: zero_class)
      have "sf64_pow p x y m t w = (if pow_rejects x y then kCanonicalNaN else v, w)"
        unfolding sf64_pow_def sl_eq_zero sl_one sl_class
        using other apply (simp only: if_False HOL.simp_thms)
        apply (rule parity_run [OF other(4), where fl = 0])
        apply (cases "is_zero_bits x")
        subgoal using Some by (auto simp: pow_values_def pow_rejects_def sl_compare sign_val special_words sl_class gives_return)
        apply (cases "sgn64 x \<and> \<not> ?i")
        subgoal using Some by (auto simp: pow_values_def pow_rejects_def sl_compare sign_val special_words gives_return)
        apply (cases "is_inf_bits y"; cases "is_inf_bits x")
        subgoal using Some num zero_class [of x] zero_class [of y] inf_large [of x]
          by (auto simp: pow_values_def pow_rejects_def value_simps sign_val special_words gives_return Let_def)
        subgoal using Some num zero_class [of x] zero_class [of y]
          by (auto simp: pow_values_def pow_rejects_def value_simps sign_val special_words gives_return Let_def
              one_iff [of "sf64_fabs x", symmetric] one_not_nan)
        subgoal using Some num zero_class [of x] zero_class [of y]
          by (auto simp: pow_values_def pow_rejects_def value_simps sign_val special_words gives_return Let_def)
        subgoal using Some by (auto simp: pow_values_def)
        done
      then show ?thesis using Some by simp
    next
      case None
      then show ?thesis using other by (auto simp: pow_values_def class_iff split: if_splits)
    qed
  qed
qed

lemma snan_class: "is_snan_bits x \<Longrightarrow> is_nan_bits x"
  by (simp add: is_snan_bits_def)

lemma pow_table_values:
  "map_option fst (ieee_pow_table x y)
     = (if pow_ignores_snan x y then Some kCanonicalNaN else pow_values x y)"
  by (auto simp: ieee_pow_table_def pow_values_def pow_ignores_snan_def dest: snan_class)

lemma pow_table_exceptions:
  "ieee_pow_table x y = Some (v, fl) \<Longrightarrow> fl \<noteq> 0 \<longleftrightarrow> pow_unsignalled x y"
proof -
  assume a: "ieee_pow_table x y = Some (v, fl)"
  have one: "\<not> is_zero_bits (0x3FF0000000000000 :: f64)" "\<not> sgn64 (0x3FF0000000000000 :: f64)" using sign_val(2) [of "0x3FF0000000000000"] by simp_all
  have zero: "is_zero_bits y \<Longrightarrow> val64 y = 0 \<and> val64 y \<in> \<int>" using val64_eq_0_iff [of y] by (auto simp: is_zero_bits_iff)
  have fin: "is_finite_bits z \<longleftrightarrow> \<not> is_nan_bits z \<and> \<not> is_inf_bits z" for z by (auto simp: class_iff)
  show ?thesis using a zero one
    by (auto simp: ieee_pow_table_def pow_unsignalled_def sign_val int_bits_def fin SF64_FE_INVALID_def SF64_FE_DIVBYZERO_def split: if_splits dest: snan_class zero_class)
qed

text \<open>
  C20: \<open>pow\<close> returns the value of the table of IEEE 754-2008, section 9.2.1, for every pair of operands
  the table lists (NaNs, zeros, infinities, a base of one, a negative base with a non-integer exponent),
  with the parity of the exponent decided correctly for every double, up to two deviations: a negative
  base with an infinite exponent, or minus infinity with a non-integer exponent, gives NaN, and a
  signalling NaN beside a zero exponent or a base of one gives one.  It never signals: the exceptions of
  the table, which are exactly those of the operands \<open>pow_unsignalled\<close> lists (division by zero for a zero
  base and a finite negative exponent, invalid for a finite negative base with a finite non-integer
  exponent and for signalling NaNs), are all left out.
\<close>

theorem pow_special_cases:
  "case ieee_pow_table x y of
     None \<Rightarrow> is_finite_bits x \<and> is_finite_bits y \<and> \<not> is_zero_bits x \<and> \<not> is_zero_bits y
   | Some (v, fl) \<Rightarrow>
       sf64_pow p x y m t w = (if pow_rejects x y then kCanonicalNaN
                               else if pow_ignores_snan x y then 0x3FF0000000000000 else v, w)
       \<and> (fl \<noteq> 0 \<longleftrightarrow> pow_unsignalled x y)"
proof (cases "ieee_pow_table x y")
  case None
  then have "pow_values x y = None" using pow_table_values [of x y] by (simp split: if_splits)
  then show ?thesis using None pow_special [of x y p m t w] by simp
next
  case (Some r)
  obtain v fl where r: "r = (v, fl)" by (cases r)
  have one: "sf64_pow p x y m t w = (0x3FF0000000000000, w)" "\<not> pow_rejects x y" if "pow_ignores_snan x y"
    using that pow_special [of x y p m t w] by (auto simp: pow_ignores_snan_def pow_values_def pow_rejects_def dest: snan_class)
  show ?thesis
  proof (cases "pow_ignores_snan x y")
    case True
    then show ?thesis using one pow_table_exceptions [OF Some [unfolded r]] Some r by simp
  next
    case False
    then have "pow_values x y = Some v" using pow_table_values [of x y] Some r by simp
    then show ?thesis using False pow_table_exceptions [OF Some [unfolded r]] pow_special [of x y p m t w] Some r by simp
  qed
qed

text \<open>The table of \<open>powr\<close>, IEEE 754-2019, section 9.2.1, with the exceptions it signals.\<close>

definition ieee_powr_table :: "f64 \<Rightarrow> f64 \<Rightarrow> (f64 \<times> u32) option" where
  "ieee_powr_table x y =
     (if is_nan_bits x \<or> is_nan_bits y then Some (kCanonicalNaN, 0)
      else if sgn64 x \<and> \<not> is_zero_bits x then Some (kCanonicalNaN, SF64_FE_INVALID)
      else if is_zero_bits x then
        Some (if is_zero_bits y then (kCanonicalNaN, SF64_FE_INVALID)
              else if sgn64 y then (signed_inf False, SF64_FE_DIVBYZERO) else (signed_zero False, 0))
      else if is_inf_bits x then
        Some (if is_zero_bits y then (kCanonicalNaN, SF64_FE_INVALID)
              else if sgn64 y then (signed_zero False, 0) else (signed_inf False, 0))
      else if is_inf_bits y then
        Some (if x = 0x3FF0000000000000 then (kCanonicalNaN, SF64_FE_INVALID)
              else if val64 x < 1 \<longleftrightarrow> sgn64 y then (signed_inf False, 0) else (signed_zero False, 0))
      else if is_zero_bits y \<or> x = 0x3FF0000000000000 then Some (0x3FF0000000000000, 0)
      else None)"

lemma direct_raise: "fe_raise_direct m t fl w = sf64_fe_raise m t fl w"
  by (cases m) (simp_all add: fe_raise_direct_def sf64_fe_raise_def)

lemma powr_decide:
  "sf64_powr p x y m t w =
     (if is_nan_bits x \<or> is_nan_bits y then (kCanonicalNaN, w)
      else if sgn64 x \<and> \<not> is_zero_bits x then (kCanonicalNaN, sf64_fe_raise m t SF64_FE_INVALID w)
      else if (is_zero_bits x \<or> is_inf_bits x) \<and> is_zero_bits y then (kCanonicalNaN, sf64_fe_raise m t SF64_FE_INVALID w)
      else if x = 0x3FF0000000000000 \<and> is_inf_bits y then (kCanonicalNaN, sf64_fe_raise m t SF64_FE_INVALID w)
      else if is_zero_bits x \<and> sgn64 y then (signed_inf False, sf64_fe_raise m t SF64_FE_DIVBYZERO w)
      else if is_zero_bits x then (signed_zero False, w)
      else sf64_pow p x y m t w)"
  by (simp add: sf64_powr_def sl_eq_zero sl_one sl_class sl_compare(1) sign_val val64_eq_0_iff Let_def direct_raise special_words
      signed_inf_def enc64_def inf64_def)

lemma raise_nothing: "sf64_fe_raise m t 0 w = w"
  by (cases w) (simp add: sf64_fe_raise_def put_tls_def)

text \<open>
  C21: \<open>powr\<close> is the positive-base power of IEEE 754-2019, section 9.2.1: for every operand pair the
  standard lists (NaNs, a negative base, zero or infinite bases and exponents, a base of one) it returns
  the value and signals exactly the exception (invalid, division by zero, or none) of the table; all
  other operands, positive finite ones, are handed to \<open>pow\<close>.
\<close>

theorem powr_special_cases:
  "case ieee_powr_table x y of
     None \<Rightarrow> is_finite_bits x \<and> 0 < val64 x \<and> is_finite_bits y \<and> sf64_powr p x y m t w = sf64_pow p x y m t w
   | Some (v, fl) \<Rightarrow> sf64_powr p x y m t w = (v, sf64_fe_raise m t fl w)"
proof (cases "is_nan_bits x \<or> is_nan_bits y \<or> sgn64 x \<or> is_zero_bits x \<or> is_zero_bits y \<or> is_inf_bits x \<or> is_inf_bits y \<or> x = 0x3FF0000000000000")
  case False
  then show ?thesis
    by (simp add: ieee_powr_table_def powr_decide sign_val) (simp add: class_iff)
next
  case True
  have one: "\<not> is_inf_bits (0x3FF0000000000000 :: f64)" "\<not> is_zero_bits (0x3FF0000000000000 :: f64)"
    using one_val(2) zero_class [of "0x3FF0000000000000"] val64_eq_0_iff [of "0x3FF0000000000000"] by auto
  note pow = pow_special [of x y p m t w, unfolded pow_values_def pow_rejects_def]
  show ?thesis
  proof (cases "is_nan_bits x \<or> is_nan_bits y \<or> sgn64 x \<or> is_zero_bits x \<or> is_inf_bits x \<and> is_zero_bits y \<or> x = 0x3FF0000000000000 \<and> is_inf_bits y")
    case True
    then show ?thesis unfolding ieee_powr_table_def powr_decide
      using zero_class [of x] zero_class [of y] one one_not_nan by (auto simp: raise_nothing split: if_splits)
  next
    case plain: False
    have w: "sf64_powr p x y m t w = sf64_pow p x y m t w" using plain by (auto simp: powr_decide)
    have a: "\<bar>val64 x\<bar> = val64 x" using plain val64_signed [of x] by simp
    have n: "\<not> is_nan_bits x" "\<not> is_nan_bits y" "\<not> sgn64 x" "\<not> is_zero_bits x" using plain by auto
    show ?thesis
    proof (cases "is_zero_bits y \<or> x = 0x3FF0000000000000")
      case yz: True
      then have "\<not> is_inf_bits x" "\<not> is_inf_bits y" using plain one zero_class [of y] by auto
      then show ?thesis using yz pow w n by (simp add: ieee_powr_table_def raise_nothing)
    next
      case False
      then have x: "is_inf_bits x \<or> is_inf_bits y" "val64 x \<noteq> 1" using True n one_iff [of x] by auto
      show ?thesis
      proof (cases "is_inf_bits x")
        case True
        then have "1 < val64 x" using inf_large [of x] a by simp
        then show ?thesis using True False pow w n a x(2) by (auto simp: ieee_powr_table_def raise_nothing split: if_splits)
      next
        case xf: False
        then show ?thesis using x False pow w n a by (simp add: ieee_powr_table_def raise_nothing)
      qed
    qed
  qed
qed

end
