(* ===== verification/Sf_Sleef_Values.thy ===== *)
theory Sf_Sleef_Values
  imports Sf_Sleef_Power
begin

text \<open>
  The special cases of the other elementary functions: NaNs, infinities, zeros, arguments outside the
  domain, for \<open>atan2\<close> and \<open>rootn\<close> decided as whole tables.
\<close>

section \<open>Runs that end early\<close>

lemma run_return [simp]: "run_entry p a (return v) m t w = (v, w)"
  by (rule run_entry_gives [OF gives_return])

lemma run_flushed_return [simp]: "run_entry p acc_default (flushed (return v)) m t w = (v, w)"
  by (simp add: run_entry_def flushed_def fe_flush_def acc_flush_def acc_default_def split: fenv_mode.split)

lemma gives_sqrt: "gives p (sl_sqrt x) (fst (ieee_sqrt SF64_RNE x 0)) (snd (ieee_sqrt SF64_RNE x 0))"
  unfolding sl_sqrt_def by (rule gives_with_fe) (simp add: sqrt_rne_eq sqrt_r_impl_sound)

lemma neg_val [simp]: "val64 (sf64_neg x) = - val64 x"
  by (simp add: val64_def)

lemma minus_one: "(0xBFF0000000000000 :: f64) = sf64_neg 0x3FF0000000000000"
  by code_simp

lemma minus_one_iff: "val64 x = - 1 \<longleftrightarrow> x = 0xBFF0000000000000"
proof
  assume v: "val64 x = - 1"
  then have "sgn64 x" using val64_signed [of x] by (auto split: if_splits)
  then show "x = 0xBFF0000000000000" using v unfolding minus_one by (intro same_finite) simp_all
qed (simp add: minus_one)

section \<open>Two-argument arc tangent\<close>

definition with_sign :: "f64 \<Rightarrow> f64 \<Rightarrow> f64" where
  "with_sign y c = (if sgn64 y then sf64_neg c else c)"

text \<open>The doubles of \<open>\<pi>\<close>, \<open>\<pi> / 2\<close>, \<open>\<pi> / 4\<close> and \<open>3 \<pi> / 4\<close>.\<close>

definition atan2_table :: "f64 \<Rightarrow> f64 \<Rightarrow> f64 option" where
  "atan2_table y x =
     (if is_nan_bits x \<or> is_nan_bits y then Some kCanonicalNaN
      else if is_zero_bits y then Some (with_sign y (if sgn64 x then 0x400921FB54442D18 else 0))
      else if is_zero_bits x then Some (with_sign y 0x3FF921FB54442D18)
      else if is_inf_bits x \<and> is_inf_bits y then Some (with_sign y (if sgn64 x then 0x4002D97C7F3321D2 else 0x3FE921FB54442D18))
      else if is_inf_bits x then Some (with_sign y (if sgn64 x then 0x400921FB54442D18 else 0))
      else if is_inf_bits y then Some (with_sign y 0x3FF921FB54442D18)
      else None)"

lemma pi_multiples:
  "gives p (sl_mul kPI 0x3FE8000000000000) 0x4002D97C7F3321D2 0"
  "gives p (sl_mul kPI 0x3FD0000000000000) 0x3FE921FB54442D18 0"
  unfolding sl_mul_def by (rule gives_with_fe, code_simp)+

text \<open>
  C34: \<open>atan2\<close> follows the special-case table of IEEE 754 for every pair of operands with a NaN, a zero or
  an infinity, in all four quadrants and with both signs of zero, and raises no flag there.
\<close>

theorem atan2_special_cases:
  "case atan2_table y x of
     None \<Rightarrow> is_finite_bits x \<and> is_finite_bits y \<and> \<not> is_zero_bits x \<and> \<not> is_zero_bits y
   | Some v \<Rightarrow> sf64_atan2 p y x m t w = (v, w)"
proof (cases "is_nan_bits x \<or> is_nan_bits y \<or> is_zero_bits y \<or> is_zero_bits x \<or> \<not> (is_inf_bits x \<and> is_inf_bits y)")
  case True
  then show ?thesis
    using zero_class [of x] zero_class [of y]
    by (auto simp: atan2_table_def sf64_atan2_def sl_class sl_eq_zero with_sign_def special_words kPI_def kPI_2_def class_iff)
next
  case False
  have "gives p (sl_mul kPI c \<bind> (\<lambda>v. return (if sgn64 y then sl_neg v else v))) (with_sign y v) 0" if "gives p (sl_mul kPI c) v 0" for c v
    by (rule gives_exact_bind [OF that]) (simp add: with_sign_def gives_return sl_class)
  note this [OF pi_multiples(1)] this [OF pi_multiples(2)]
  from this [THEN run_entry_gives] show ?thesis
    using False zero_class [of x] zero_class [of y]
    by (auto simp: atan2_table_def sf64_atan2_def sl_class(1-4) sl_eq_zero)
qed

section \<open>Integer roots\<close>

text \<open>
  What \<open>rootn\<close> returns without taking a logarithm.  The square root and the reciprocal are the correctly
  rounded ones, but the entry leaves without flushing, so their flags are lost.
\<close>

definition rootn_table :: "f64 \<Rightarrow> int \<Rightarrow> f64 option" where
  "rootn_table x n =
     (if is_nan_bits x \<or> n = 0 then Some kCanonicalNaN
      else if n = 1 then Some x
      else if is_zero_bits x then
        Some (if 0 < n then signed_zero (sgn64 x \<and> odd n) else signed_inf (sgn64 x \<and> odd n))
      else if sgn64 x \<and> even n \<and> \<not> (is_inf_bits x \<and> n < 0) then Some kCanonicalNaN
      else if is_inf_bits x then
        Some (if 0 < n then signed_inf (sgn64 x) else signed_zero (sgn64 x \<and> odd n))
      else if n = 2 then Some (fst (ieee_sqrt SF64_RNE x 0))
      else if n = - 1 then Some (fst (ieee_div SF64_RNE 0x3FF0000000000000 x 0))
      else if n \<noteq> 3 \<and> \<bar>val64 x\<bar> = 1 then Some x
      else None)"

lemma run_if: "run_entry p a (if c then f else g) m t w = (if c then run_entry p a f m t w else run_entry p a g m t w)"
  by simp

lemma magnitude_one: "sl_eq (sf64_fabs x) 0x3FF0000000000000 \<longleftrightarrow> \<bar>val64 x\<bar> = 1"
  unfolding sl_one one_iff [symmetric] fabs_val by (rule refl)

lemma odd_bit: "n AND 1 \<noteq> 0 \<longleftrightarrow> odd n" for n :: int
  by (simp add: and_one_eq even_iff_mod_2_eq_zero)

lemma run_sqrt_div:
  "run_entry p acc_default (sl_sqrt x) m t w = (fst (ieee_sqrt SF64_RNE x 0), w)"
  "run_entry p acc_default (sl_div y x) m t w = (fst (ieee_div SF64_RNE y x 0), w)"
  using run_entry_gives [OF gives_sqrt] run_entry_gives [OF gives_div] div_r_impl_sound by (simp_all add: prod_eq_iff)

lemma rootn_decide:
  "\<exists>r3 r. sf64_rootn p x n m t w =
     (if is_nan_bits x then (kCanonicalNaN, w)
      else if n = 0 then (kCanonicalNaN, w)
      else if n = 1 then (x, w)
      else if is_zero_bits x then
        (if 0 < n then (if sgn64 x \<and> odd n then signed_zero True else 0)
         else if sgn64 x \<and> odd n then signed_inf True else signed_inf False, w)
      else if is_inf_bits x then
        (if 0 < n then (if \<not> sgn64 x then signed_inf False else if odd n then signed_inf True else kCanonicalNaN)
         else if sgn64 x \<and> odd n then signed_zero True else 0, w)
      else if sl_lt x 0 \<and> \<not> odd n then (kCanonicalNaN, w)
      else if n = 2 then (fst (ieee_sqrt SF64_RNE x 0), w)
      else if n = 3 then r3
      else if n = - 1 then (fst (ieee_div SF64_RNE 0x3FF0000000000000 x 0), w)
      else if \<bar>val64 x\<bar> = 1 then (if sgn64 x \<and> odd n then 0xBFF0000000000000 else 0x3FF0000000000000, w)
      else r)"
  unfolding sf64_rootn_def Let_def sl_class(1-4) sl_eq_zero internal_fabs_eq magnitude_one odd_bit special_words run_if run_return run_sqrt_div
  by (intro exI) (rule refl)

text \<open>
  C35: \<open>rootn\<close> on every operand it decides directly: NaN for a NaN, for the zeroth root and for an even
  root of a negative number, the signed zeros and infinities of IEEE 754 at zero and infinity for
  either sign and parity of the exponent (except an even negative root of minus infinity, which gives
  \<open>+0\<close>), the correctly rounded square root and reciprocal, and the exact roots of one.  No path raises
  a flag, not even the inexact ones.
\<close>

theorem rootn_special_cases:
  "case rootn_table x n of
     None \<Rightarrow> is_finite_bits x \<and> \<not> is_zero_bits x
   | Some v \<Rightarrow> sf64_rootn p x n m t w = (v, w)"
proof -
  obtain r3 r where d: "sf64_rootn p x n m t w = (if is_nan_bits x then (kCanonicalNaN, w)
      else if n = 0 then (kCanonicalNaN, w)
      else if n = 1 then (x, w)
      else if is_zero_bits x then
        (if 0 < n then (if sgn64 x \<and> odd n then signed_zero True else 0)
         else if sgn64 x \<and> odd n then signed_inf True else signed_inf False, w)
      else if is_inf_bits x then
        (if 0 < n then (if \<not> sgn64 x then signed_inf False else if odd n then signed_inf True else kCanonicalNaN)
         else if sgn64 x \<and> odd n then signed_zero True else 0, w)
      else if sl_lt x 0 \<and> \<not> odd n then (kCanonicalNaN, w)
      else if n = 2 then (fst (ieee_sqrt SF64_RNE x 0), w)
      else if n = 3 then r3
      else if n = - 1 then (fst (ieee_div SF64_RNE 0x3FF0000000000000 x 0), w)
      else if \<bar>val64 x\<bar> = 1 then (if sgn64 x \<and> odd n then 0xBFF0000000000000 else 0x3FF0000000000000, w)
      else r)"
    using rootn_decide [of p x n m t w] by (elim exE) (rule that)
  have one: "x = (if sgn64 x then 0xBFF0000000000000 else 0x3FF0000000000000)" if "\<bar>val64 x\<bar> = 1"
    using that val64_signed [of x] one_iff [of x] minus_one_iff [of x] by auto
  have lt: "\<not> is_nan_bits x \<Longrightarrow> \<not> is_zero_bits x \<Longrightarrow> sl_lt x 0 \<longleftrightarrow> sgn64 x" by (simp add: sl_compare sign_val)
  show ?thesis
  proof (cases "is_nan_bits x \<or> n = 0 \<or> n = 1 \<or> is_zero_bits x \<or> is_inf_bits x")
    case True
    then show ?thesis unfolding d rootn_table_def using zero_class [of x]
      by (auto simp: special_words)
  next
    case False
    then have f: "is_finite_bits x" "sl_lt x 0 \<longleftrightarrow> sgn64 x" by (auto simp: class_iff lt)
    show ?thesis unfolding d f(2) rootn_table_def using False one by (simp add: f(1)) (auto split: if_splits)
  qed
qed

end
