(* ===== verification/Sf_Sleef_Limits.thy ===== *)
theory Sf_Sleef_Limits
  imports Sf_Sleef_Values
begin

text \<open>
  NaN operands, domain errors and limits of the functions of one argument, decided for the whole list of
  entries at once.
\<close>

section \<open>NaNs and domain errors\<close>

lemma run_call_fn:
  "(\<And>m t w. f p m t w = (v, w)) \<Longrightarrow> run_entry p a (call_fn f \<bind> g) m t w = run_entry p a (g v) m t w"
  by (simp add: run_entry_def call_fn_def snan_propagate_def call_entry_def)

lemma sl_nan: "sl_isnan x \<longleftrightarrow> is_nan_bits x" "sl_isinf x \<longleftrightarrow> is_inf_bits x" "is_nan_bits kCanonicalNaN"
  by (simp_all add: sl_class) code_simp

lemma nan_arcs:
  assumes "is_nan_bits x"
  shows "sf64_asin p x m t w = (kCanonicalNaN, w)" "sf64_acos p x m t w = (kCanonicalNaN, w)"
    "sf64_atan p x m t w = (kCanonicalNaN, w)"
  using assms by (simp_all add: sf64_asin_def sf64_acos_def sf64_atan_def sl_nan special_words)

lemma nan_lgamma_r: "is_nan_bits x \<Longrightarrow> sf64_lgamma_r p x sign m t w = ((kCanonicalNaN, if sign then Some 0 else None), w)"
  by (simp add: sf64_lgamma_r_def sl_nan special_words)

lemma nan_in_nan_out:
  assumes "is_nan_bits x"
  shows "(\<forall>f \<in> {sf64_sin, sf64_cos, sf64_tan, sf64_asin, sf64_acos, sf64_atan, sf64_sinpi, sf64_cospi, sf64_tanpi,
        sf64_asinpi, sf64_acospi, sf64_atanpi, sf64_sinh, sf64_cosh, sf64_tanh, sf64_asinh, sf64_acosh, sf64_atanh,
        sf64_exp, sf64_exp2, sf64_exp10, sf64_expm1, sf64_log, sf64_log2, sf64_log10, sf64_log1p, sf64_cbrt,
        sf64_erf, sf64_erfc, sf64_tgamma, sf64_lgamma}. f p x m t w = (kCanonicalNaN, w))
    \<and> sf64_lgamma_r p x b m t w = ((kCanonicalNaN, if b then Some 0 else None), w)"
  using assms nan_arcs [OF assms] nan_lgamma_r [OF assms]
  by (simp add: sf64_sin_def sf64_cos_def sf64_tan_def sf64_sinpi_def sf64_cospi_def sf64_tanpi_def sf64_asinpi_def
      sf64_acospi_def sf64_atanpi_def sf64_sinh_def sf64_cosh_def sf64_tanh_def sf64_asinh_def sf64_acosh_def sf64_atanh_def
      sf64_exp_def sf64_exp2_def sf64_exp10_def sf64_expm1_def sf64_log_def sf64_log2_def sf64_log10_def sf64_log1p_def
      sf64_cbrt_def sf64_erf_def sf64_erfc_def sf64_tgamma_def sf64_lgamma_def sf64_internal_exp_core_def
      sf64_internal_log_core_def sl_nan special_words run_call_fn)

lemma domain_errors:
  "(val64 x < 0 \<longrightarrow> (\<forall>f \<in> {sf64_log, sf64_log2, sf64_log10}. f p x m t w = (kCanonicalNaN, w)))
   \<and> (val64 x < - 1 \<longrightarrow> sf64_log1p p x m t w = (kCanonicalNaN, w))
   \<and> (val64 x < 1 \<longrightarrow> sf64_acosh p x m t w = (kCanonicalNaN, w))
   \<and> (1 < \<bar>val64 x\<bar> \<longrightarrow> (\<forall>f \<in> {sf64_asin, sf64_acos, sf64_asinpi, sf64_acospi, sf64_atanh}. f p x m t w = (kCanonicalNaN, w)))
   \<and> (is_inf_bits x \<longrightarrow> (\<forall>f \<in> {sf64_sin, sf64_cos, sf64_tan, sf64_sinpi, sf64_cospi, sf64_tanpi}. f p x m t w = (kCanonicalNaN, w)))"
proof -
  have m1: "\<not> is_nan_bits (0xBFF0000000000000 :: f64)" "val64 (0xBFF0000000000000 :: f64) = - 1"
    using one_not_nan minus_one_iff by (simp_all add: minus_one)
  have arc: "sf64_asin p x m t w = (kCanonicalNaN, w)" "sf64_acos p x m t w = (kCanonicalNaN, w)"
    if "1 < \<bar>val64 x\<bar>" for p m t w
    using that one_not_nan by (simp_all add: sf64_asin_def sf64_acos_def sl_nan special_words internal_fabs_eq sl_compare fabs_val Let_def)
  show ?thesis using arc one_not_nan m1
    by (simp add: sf64_sin_def sf64_cos_def sf64_tan_def sf64_sinpi_def sf64_cospi_def sf64_tanpi_def sf64_asinpi_def
      sf64_acospi_def sf64_acosh_def sf64_atanh_def sf64_log_def sf64_log2_def sf64_log10_def sf64_log1p_def
      sf64_internal_log_core_def sl_nan special_words run_call_fn sl_compare internal_fabs_eq fabs_val Let_def)
qed

lemma sincos_invalid:
  "sf64_sin p x m t w = (kCanonicalNaN, w) \<Longrightarrow> sf64_cos p x m t w = (kCanonicalNaN, w) \<Longrightarrow>
   sf64_sincos p x b c m t w = ((if b then Some kCanonicalNaN else None, if c then Some kCanonicalNaN else None), w)"
  by (simp add: sf64_sincos_def)

lemma tgamma_poles:
  assumes "is_finite_bits x \<and> val64 x < 0 \<and> val64 x \<in> \<int> \<or> is_inf_bits x \<and> sgn64 x"
  shows "fst (sf64_tgamma p x m t w) = kCanonicalNaN"
proof -
  let ?pole = "if sl_isinf x \<and> sl_signbit x then return True else if sl_lt x 0 then is_int x else return False"
  have n: "\<not> is_nan_bits x" using assms by (auto simp: class_iff)
  have pole: "gives q ?pole True 0" for q
  proof (cases "is_inf_bits x")
    case True
    then show ?thesis using assms zero_class(2) [of x] by (auto simp: sl_class gives_return)
  next
    case False
    then have f: "is_finite_bits x" "val64 x < 0" "val64 x \<in> \<int>" using assms by auto
    then show ?thesis using is_int_finite [of x q] False n zero_class(1) [of 0]
      by (simp add: sl_class sl_compare)
  qed
  have tail: "yields (\<lambda>r. r = kCanonicalNaN) (?pole \<bind> (\<lambda>b. if b \<or> c b then fe_flush \<bind> (\<lambda>_. return qNaN) else g b))" for c g
    by (rule yields_gives [OF pole]) (simp add: yields_bind yields_return special_words)
  have "yields (\<lambda>r. r = kCanonicalNaN) (gammak x \<bind> (\<lambda>d. sf64_internal_expk2_dd (gk_clc d) \<bind> (\<lambda>e.
      ddmul_dd_dd_dd e (gk_div d) \<bind> (\<lambda>ye. sl_add (dd_hi ye) (dd_lo ye) \<bind> (\<lambda>r.
        ?pole \<bind> (\<lambda>b. if b \<or> c r b then fe_flush \<bind> (\<lambda>_. return qNaN) else g r b))))))" for c g
    by (intro yields_bind tail)
  from yields_run [OF this] show ?thesis
    using n unfolding sf64_tgamma_def Let_def sl_nan(1) by simp
qed

lemma nan_entries:
  assumes "is_nan_bits x"
  shows "(\<forall>f \<in> {sf64_sin, sf64_cos, sf64_tan, sf64_asin, sf64_acos, sf64_atan, sf64_sinpi, sf64_cospi, sf64_tanpi,
        sf64_asinpi, sf64_acospi, sf64_atanpi, sf64_sinh, sf64_cosh, sf64_tanh, sf64_asinh, sf64_acosh, sf64_atanh,
        sf64_exp, sf64_exp2, sf64_exp10, sf64_expm1, sf64_log, sf64_log2, sf64_log10, sf64_log1p, sf64_cbrt,
        sf64_erf, sf64_erfc, sf64_tgamma, sf64_lgamma}. f p x m t w = (kCanonicalNaN, w))
     \<and> sf64_lgamma_r p x b m t w = ((kCanonicalNaN, if b then Some 0 else None), w)
     \<and> sf64_sincos p x b c m t w = ((if b then Some kCanonicalNaN else None, if c then Some kCanonicalNaN else None), w)"
proof -
  have s: "sf64_sin p x m t w = (kCanonicalNaN, w)" "sf64_cos p x m t w = (kCanonicalNaN, w)" for m t w
    using assms by (simp_all add: sf64_sin_def sf64_cos_def sl_nan special_words)
  show ?thesis using nan_in_nan_out [OF assms] sincos_invalid [OF s] by blast
qed

lemma domain_entries:
  "(val64 x < 0 \<longrightarrow> (\<forall>f \<in> {sf64_log, sf64_log2, sf64_log10}. f p x m t w = (kCanonicalNaN, w)))
   \<and> (val64 x < - 1 \<longrightarrow> sf64_log1p p x m t w = (kCanonicalNaN, w))
   \<and> (val64 x < 1 \<longrightarrow> sf64_acosh p x m t w = (kCanonicalNaN, w))
   \<and> (1 < \<bar>val64 x\<bar> \<longrightarrow> (\<forall>f \<in> {sf64_asin, sf64_acos, sf64_asinpi, sf64_acospi, sf64_atanh}. f p x m t w = (kCanonicalNaN, w)))
   \<and> (is_inf_bits x \<longrightarrow> (\<forall>f \<in> {sf64_sin, sf64_cos, sf64_tan, sf64_sinpi, sf64_cospi, sf64_tanpi}. f p x m t w = (kCanonicalNaN, w))
     \<and> sf64_sincos p x b c m t w = ((if b then Some kCanonicalNaN else None, if c then Some kCanonicalNaN else None), w))
   \<and> (is_finite_bits x \<and> val64 x < 0 \<and> val64 x \<in> \<int> \<or> is_inf_bits x \<and> sgn64 x \<longrightarrow> fst (sf64_tgamma p x m t w) = kCanonicalNaN)"
proof -
  have "sf64_sincos p x b c m t w = ((if b then Some kCanonicalNaN else None, if c then Some kCanonicalNaN else None), w)" if "is_inf_bits x"
    using that by (intro sincos_invalid) (simp_all add: sf64_sin_def sf64_cos_def sl_nan special_words)
  then show ?thesis using domain_errors [of x p m t w] tgamma_poles [of x p m t w] by blast
qed

text \<open>
  C36: Invalid arguments.  Every elementary function of one argument returns the canonical quiet NaN for a
  NaN, and outside its domain: a logarithm of a negative number, \<open>log1p\<close> below minus one, \<open>acosh\<close> below
  one, an inverse sine or cosine (plain or divided by pi) or \<open>atanh\<close> beyond one in magnitude, a sine,
  cosine or tangent (plain or scaled by pi) of an infinity, \<open>tgamma\<close> of a negative integer and of minus
  infinity.  No flag is raised, for a signalling NaN neither, although \<open>soft_f64.h\<close> says that a signalling
  NaN raises INVALID; only \<open>tgamma\<close>, which looks for its poles last, may merge flags its kernel collected
  on the way.  \<open>lgamma_r\<close> stores the sign 0 with a NaN, and \<open>sincos\<close> stores the NaN through each pointer
  it is given.
\<close>

theorem invalid_arguments:
  "(is_nan_bits x \<longrightarrow>
     (\<forall>f \<in> {sf64_sin, sf64_cos, sf64_tan, sf64_asin, sf64_acos, sf64_atan, sf64_sinpi, sf64_cospi, sf64_tanpi,
        sf64_asinpi, sf64_acospi, sf64_atanpi, sf64_sinh, sf64_cosh, sf64_tanh, sf64_asinh, sf64_acosh, sf64_atanh,
        sf64_exp, sf64_exp2, sf64_exp10, sf64_expm1, sf64_log, sf64_log2, sf64_log10, sf64_log1p, sf64_cbrt,
        sf64_erf, sf64_erfc, sf64_tgamma, sf64_lgamma}. f p x m t w = (kCanonicalNaN, w))
     \<and> sf64_lgamma_r p x b m t w = ((kCanonicalNaN, if b then Some 0 else None), w)
     \<and> sf64_sincos p x b c m t w = ((if b then Some kCanonicalNaN else None, if c then Some kCanonicalNaN else None), w))
   \<and> (val64 x < 0 \<longrightarrow> (\<forall>f \<in> {sf64_log, sf64_log2, sf64_log10}. f p x m t w = (kCanonicalNaN, w)))
   \<and> (val64 x < - 1 \<longrightarrow> sf64_log1p p x m t w = (kCanonicalNaN, w))
   \<and> (val64 x < 1 \<longrightarrow> sf64_acosh p x m t w = (kCanonicalNaN, w))
   \<and> (1 < \<bar>val64 x\<bar> \<longrightarrow> (\<forall>f \<in> {sf64_asin, sf64_acos, sf64_asinpi, sf64_acospi, sf64_atanh}. f p x m t w = (kCanonicalNaN, w)))
   \<and> (is_inf_bits x \<longrightarrow> (\<forall>f \<in> {sf64_sin, sf64_cos, sf64_tan, sf64_sinpi, sf64_cospi, sf64_tanpi}. f p x m t w = (kCanonicalNaN, w))
     \<and> sf64_sincos p x b c m t w = ((if b then Some kCanonicalNaN else None, if c then Some kCanonicalNaN else None), w))
   \<and> (is_finite_bits x \<and> val64 x < 0 \<and> val64 x \<in> \<int> \<or> is_inf_bits x \<and> sgn64 x \<longrightarrow> fst (sf64_tgamma p x m t w) = kCanonicalNaN)"
  by (rule conjI, rule impI, rule nan_entries, assumption, rule domain_entries)

lemma invalid_arguments_witness:
  "\<forall>m t w. sf64_sin True 0x7FF0000000000001 m t w = (kCanonicalNaN, w) \<and> sf64_log2 True 0xFFF0000000000000 m t w = (kCanonicalNaN, w)
     \<and> sf64_acosh True 0xFFF0000000000000 m t w = (kCanonicalNaN, w) \<and> sf64_cos True 0xFFF0000000000000 m t w = (kCanonicalNaN, w)
     \<and> fst (sf64_tgamma True 0xFFF0000000000000 m t w) = kCanonicalNaN"
proof (intro allI)
  fix m t w
  have nan: "is_nan_bits 0x7FF0000000000001" by code_simp
  have inf: "is_inf_bits 0xFFF0000000000000" by code_simp
  have nonzero: "\<not> is_zero_bits 0xFFF0000000000000" by code_simp
  have sign: "sgn64 0xFFF0000000000000" unfolding sgn64_def by simp
  have neg: "val64 0xFFF0000000000000 < 0" using sign nonzero sign_val(1) by blast
  then have neg1: "val64 0xFFF0000000000000 < 1" by linarith
  note n = invalid_arguments [of "0x7FF0000000000001" True m t w True True, THEN conjunct1, THEN mp, OF nan, THEN conjunct1]
  note i = invalid_arguments [of "0xFFF0000000000000" True m t w True True, THEN conjunct2]
  note l = i [THEN conjunct1, THEN mp, OF neg] and a = i [THEN conjunct2, THEN conjunct2, THEN conjunct1, THEN mp, OF neg1]
    and c = i [THEN conjunct2, THEN conjunct2, THEN conjunct2, THEN conjunct2, THEN conjunct1, THEN mp, OF inf, THEN conjunct1]
    and g = i [THEN conjunct2, THEN conjunct2, THEN conjunct2, THEN conjunct2, THEN conjunct2, THEN mp, OF disjI2, OF conjI, OF inf sign]
  have "sf64_sin True 0x7FF0000000000001 m t w = (kCanonicalNaN, w)" by (rule bspec [where x = sf64_sin, OF n insertI1])
  moreover have "sf64_log2 True 0xFFF0000000000000 m t w = (kCanonicalNaN, w)"
    by (rule bspec [where x = sf64_log2, OF l insertI2, OF insertI1])
  moreover have "sf64_cos True 0xFFF0000000000000 m t w = (kCanonicalNaN, w)"
    by (rule bspec [where x = sf64_cos, OF c insertI2, OF insertI1])
  ultimately show "sf64_sin True 0x7FF0000000000001 m t w = (kCanonicalNaN, w) \<and> sf64_log2 True 0xFFF0000000000000 m t w = (kCanonicalNaN, w)
     \<and> sf64_acosh True 0xFFF0000000000000 m t w = (kCanonicalNaN, w) \<and> sf64_cos True 0xFFF0000000000000 m t w = (kCanonicalNaN, w)
     \<and> fst (sf64_tgamma True 0xFFF0000000000000 m t w) = kCanonicalNaN"
    using a g by (intro conjI)
qed

section \<open>Infinities and zeros\<close>

lemma limit_tests:
  "sf64_internal_fabs 0 = 0"
  "sf64_internal_fabs 0x3FF0000000000000 = 0x3FF0000000000000"
  "sf64_internal_fabs 0x7FF0000000000000 = 0x7FF0000000000000"
  "sf64_internal_fabs 0x8000000000000000 = 0"
  "sf64_internal_fabs 0xBFF0000000000000 = 0x3FF0000000000000"
  "sf64_internal_fabs 0xFFF0000000000000 = 0x7FF0000000000000"
  "sl_eq 0 0 = True"
  "sl_eq 0x3FF0000000000000 0x3FF0000000000000 = True"
  "sl_eq 0x7FF0000000000000 0 = False"
  "sl_eq 0x7FF0000000000000 0xBFF0000000000000 = False"
  "sl_eq 0x8000000000000000 0 = True"
  "sl_eq 0xBFF0000000000000 0xBFF0000000000000 = True"
  "sl_eq 0xFFF0000000000000 0 = False"
  "sl_ge 0x7FF0000000000000 0x4090000000000000 = True"
  "sl_ge 0xFFF0000000000000 0x4090000000000000 = False"
  "sl_gt 0x3FF0000000000000 0x3FF0000000000000 = False"
  "sl_gt 0x7FF0000000000000 0 = True"
  "sl_gt 0x7FF0000000000000 0x40734413509F79FE = True"
  "sl_gt 0x7FF0000000000000 0x4086280000000000 = True"
  "sl_gt 0x7FF0000000000000 0x40862E42FEFA39EF = True"
  "sl_gt 0xFFF0000000000000 0x40734413509F79FE = False"
  "sl_gt 0xFFF0000000000000 0x4086280000000000 = False"
  "sl_gt 0xFFF0000000000000 0x40862E42FEFA39EF = False"
  "sl_isinf 0 = False"
  "sl_isinf 0x3FF0000000000000 = False"
  "sl_isinf 0x7FF0000000000000 = True"
  "sl_isinf 0x8000000000000000 = False"
  "sl_isinf 0xBFF0000000000000 = False"
  "sl_isinf 0xFFF0000000000000 = True"
  "sl_isnan 0 = False"
  "sl_isnan 0x3FF0000000000000 = False"
  "sl_isnan 0x7FF0000000000000 = False"
  "sl_isnan 0x8000000000000000 = False"
  "sl_isnan 0xBFF0000000000000 = False"
  "sl_isnan 0xFFF0000000000000 = False"
  "sl_le 0xFFF0000000000000 0xC09F400000000000 = True"
  "sl_lt 0 0 = False"
  "sl_lt 0x3FF0000000000000 0x3FF0000000000000 = False"
  "sl_lt 0x7FF0000000000000 0 = False"
  "sl_lt 0x7FF0000000000000 0x3FF0000000000000 = False"
  "sl_lt 0x7FF0000000000000 0xBFF0000000000000 = False"
  "sl_lt 0x8000000000000000 0 = False"
  "sl_lt 0xBFF0000000000000 0xBFF0000000000000 = False"
  "sl_lt 0xFFF0000000000000 0xC0425E4F7B2737FA = True"
  "sl_lt 0xFFF0000000000000 0xC075E00000000000 = True"
  "sl_lt 0xFFF0000000000000 0xC08F400000000000 = True"
  "sl_neg 0x3FF0000000000000 = 0xBFF0000000000000"
  "sl_neg 0x7FF0000000000000 = 0xFFF0000000000000"
  "sl_neg 0xBFF0000000000000 = 0x3FF0000000000000"
  "sl_neg 0xFFF0000000000000 = 0x7FF0000000000000"
  "sl_signbit 0 = False"
  "sl_signbit 0x3FF0000000000000 = False"
  "sl_signbit 0x7FF0000000000000 = False"
  "sl_signbit 0x8000000000000000 = True"
  "sl_signbit 0xBFF0000000000000 = True"
  "sl_signbit 0xFFF0000000000000 = True"
  by code_simp+

lemma limit_words: "signed_inf False = 0x7FF0000000000000" "signed_inf True = 0xFFF0000000000000" "signed_zero True = 0x8000000000000000"
  "kPI_2 = 0x3FF921FB54442D18" "sl_neg 0x3FF921FB54442D18 = 0xBFF921FB54442D18" "sl_isnan 0x3FF921FB54442D18 = False"
  "sl_isnan 0xBFF921FB54442D18 = False"
  by (simp_all add: signed_inf_def signed_zero_def enc64_def inf64_def kPI_2_def) code_simp+

lemma atan_limits:
  "sf64_atan p 0x7FF0000000000000 m t w = (0x3FF921FB54442D18, w)" "sf64_atan p 0xFFF0000000000000 m t w = (0xBFF921FB54442D18, w)"
  "sf64_atan p 0 m t w = (0, w)" "sf64_atan p 0x8000000000000000 m t w = (0x8000000000000000, w)"
  unfolding sf64_atan_def by (simp_all only: limit_tests limit_words if_True if_False simp_thms special_words run_return run_flushed_return Let_def)

lemma atanpi_limits:
  "sf64_atanpi p 0x7FF0000000000000 m t w = (0x3FE0000000000000, w)" "sf64_atanpi p 0xFFF0000000000000 m t w = (0xBFE0000000000000, w)"
  unfolding sf64_atanpi_def
  by (simp_all only: run_call_fn [OF atan_limits(1)] run_call_fn [OF atan_limits(2)] limit_tests limit_words if_True if_False simp_thms run_return Let_def)

text \<open>
  Limits: at the infinities, at the zeros and at the ends of the domain the functions of one argument
  return exactly the limits documented in \<open>soft_f64.h\<close>, signs of zeros included, and raise no flag.
\<close>

theorem documented_limits:
  "sf64_exp p 0x7FF0000000000000 m t w = (0x7FF0000000000000, w)
   \<and> sf64_exp p 0xFFF0000000000000 m t w = (0, w)
   \<and> sf64_exp2 p 0x7FF0000000000000 m t w = (0x7FF0000000000000, w)
   \<and> sf64_exp2 p 0xFFF0000000000000 m t w = (0, w)
   \<and> sf64_exp10 p 0x7FF0000000000000 m t w = (0x7FF0000000000000, w)
   \<and> sf64_exp10 p 0xFFF0000000000000 m t w = (0, w)
   \<and> sf64_expm1 p 0x7FF0000000000000 m t w = (0x7FF0000000000000, w)
   \<and> sf64_expm1 p 0xFFF0000000000000 m t w = (0xBFF0000000000000, w)
   \<and> sf64_log p 0 m t w = (0xFFF0000000000000, w)
   \<and> sf64_log p 0x8000000000000000 m t w = (0xFFF0000000000000, w)
   \<and> sf64_log p 0x7FF0000000000000 m t w = (0x7FF0000000000000, w)
   \<and> sf64_log2 p 0 m t w = (0xFFF0000000000000, w)
   \<and> sf64_log2 p 0x8000000000000000 m t w = (0xFFF0000000000000, w)
   \<and> sf64_log2 p 0x7FF0000000000000 m t w = (0x7FF0000000000000, w)
   \<and> sf64_log10 p 0 m t w = (0xFFF0000000000000, w)
   \<and> sf64_log10 p 0x8000000000000000 m t w = (0xFFF0000000000000, w)
   \<and> sf64_log10 p 0x7FF0000000000000 m t w = (0x7FF0000000000000, w)
   \<and> sf64_log1p p 0xBFF0000000000000 m t w = (0xFFF0000000000000, w)
   \<and> sf64_log1p p 0x7FF0000000000000 m t w = (0x7FF0000000000000, w)
   \<and> sf64_sinh p 0x7FF0000000000000 m t w = (0x7FF0000000000000, w)
   \<and> sf64_sinh p 0xFFF0000000000000 m t w = (0xFFF0000000000000, w)
   \<and> sf64_tanh p 0x7FF0000000000000 m t w = (0x3FF0000000000000, w)
   \<and> sf64_tanh p 0xFFF0000000000000 m t w = (0xBFF0000000000000, w)
   \<and> sf64_asinh p 0x7FF0000000000000 m t w = (0x7FF0000000000000, w)
   \<and> sf64_asinh p 0xFFF0000000000000 m t w = (0xFFF0000000000000, w)
   \<and> sf64_atan p 0x7FF0000000000000 m t w = (0x3FF921FB54442D18, w)
   \<and> sf64_atan p 0xFFF0000000000000 m t w = (0xBFF921FB54442D18, w)
   \<and> sf64_atanpi p 0x7FF0000000000000 m t w = (0x3FE0000000000000, w)
   \<and> sf64_atanpi p 0xFFF0000000000000 m t w = (0xBFE0000000000000, w)
   \<and> sf64_cbrt p 0x7FF0000000000000 m t w = (0x7FF0000000000000, w)
   \<and> sf64_cbrt p 0xFFF0000000000000 m t w = (0xFFF0000000000000, w)
   \<and> sf64_erf p 0x7FF0000000000000 m t w = (0x3FF0000000000000, w)
   \<and> sf64_erf p 0xFFF0000000000000 m t w = (0xBFF0000000000000, w)
   \<and> sf64_atan p 0 m t w = (0, w)
   \<and> sf64_atan p 0x8000000000000000 m t w = (0x8000000000000000, w)
   \<and> sf64_cbrt p 0 m t w = (0, w)
   \<and> sf64_cbrt p 0x8000000000000000 m t w = (0x8000000000000000, w)
   \<and> sf64_erf p 0 m t w = (0, w)
   \<and> sf64_erf p 0x8000000000000000 m t w = (0x8000000000000000, w)
   \<and> sf64_cosh p 0x7FF0000000000000 m t w = (0x7FF0000000000000, w)
   \<and> sf64_cosh p 0xFFF0000000000000 m t w = (0x7FF0000000000000, w)
   \<and> sf64_acosh p 0x7FF0000000000000 m t w = (0x7FF0000000000000, w)
   \<and> sf64_acosh p 0x3FF0000000000000 m t w = (0, w)
   \<and> sf64_atanh p 0x3FF0000000000000 m t w = (0x7FF0000000000000, w)
   \<and> sf64_atanh p 0xBFF0000000000000 m t w = (0xFFF0000000000000, w)
   \<and> sf64_erfc p 0x7FF0000000000000 m t w = (0, w)
   \<and> sf64_erfc p 0xFFF0000000000000 m t w = (0x4000000000000000, w)"
  unfolding sf64_acosh_def sf64_asinh_def sf64_atanh_def sf64_cbrt_def sf64_cosh_def sf64_erf_def sf64_erfc_def sf64_exp10_def sf64_exp2_def sf64_exp_def sf64_expm1_def sf64_log10_def sf64_log1p_def sf64_log2_def sf64_log_def sf64_sinh_def sf64_tanh_def
    sf64_internal_exp_core_def sf64_internal_log_core_def
  by (intro conjI; (rule atan_limits atanpi_limits)?;
      simp only: limit_tests limit_words if_True if_False simp_thms special_words run_return run_flushed_return Let_def)

end
