(* ===== verification/Sf_Sleef_Ranges.thy ===== *)
theory Sf_Sleef_Ranges
  imports Sf_Sleef_Values
begin

text \<open>
  The ranges of the trigonometric functions: the table accesses and the protective shift of the reduction
  by Payne and Hanek, and the arguments beyond which the pi-scaled functions are constants.
\<close>

section \<open>The table of the reduction\<close>

lemma rempi_table_length: "length kRempiTab = 3876"
  unfolding kRempiTab_def kRempiTab_0_def kRempiTab_1_def kRempiTab_2_def kRempiTab_3_def kRempiTab_4_def kRempiTab_5_def
    kRempiTab_6_def kRempiTab_7_def kRempiTab_8_def kRempiTab_9_def
  by (simp only: concat.simps length_append list.size One_nat_def)

lemma ilogb2k_exp: "ilogb2k x = int (unat (extract_exp x)) - 1023"
proof -
  have m: "(0x7FF :: u64) = mask 11" by (simp add: mask_eq_exp_minus_1)
  have "unat (drop_bit 52 x AND 0x7FF) = unat (extract_exp x)"
    unfolding m unat_extract_exp by (simp only: unat_and_mask unat_drop_bit)
  then show ?thesis unfolding ilogb2k_def uint_nat by simp
qed

lemma mag_val_scaled: "0 < n div 2 ^ 52 \<Longrightarrow> mag_val 52 (- 1074) (n + k * 2 ^ 52) = mag_val 52 (- 1074) n * 2 powi (int k)"
proof -
  assume n: "0 < n div 2 ^ 52"
  have d: "(n + k * 2 ^ 52) div 2 ^ 52 = n div 2 ^ 52 + k" "(n + k * 2 ^ 52) mod 2 ^ 52 = n mod 2 ^ 52" by simp_all
  have "(2 :: real) powi (- 1074 + int (n div 2 ^ 52 + k) - 1) = 2 powi (- 1074 + int (n div 2 ^ 52) - 1) * 2 powi (int k)"
    by (subst power_int_add [symmetric]) (simp_all add: algebra_simps)
  then show ?thesis unfolding mag_val_def d using n by simp
qed

lemma rempi_shift:
  assumes "is_finite_bits x" "645 < ilogb2k x - 55"
  shows "is_finite_bits (ldexp3k x (- 64))" "val64 (ldexp3k x (- 64)) = val64 x * 2 powi (- 64)"
    "sgn64 (ldexp3k x (- 64)) = sgn64 x"
proof -
  define n where "n = mag64 x - 64 * 2 ^ 52"
  have e: "700 < mag64 x div 2 ^ 52 - 1023" using assms(2) unfolding ilogb2k_exp unat_extract_exp_mag by linarith
  then have "1724 * 2 ^ 52 \<le> mag64 x" using less_eq_div_iff_mult_less_eq [of "2 ^ 52" 1724 "mag64 x"] by linarith
  then have m: "mag64 x = n + 64 * 2 ^ 52" "2 ^ 52 \<le> n" unfolding n_def by simp_all
  have n63: "n < 2 ^ 63" using mag64_less [of x] m(1) by linarith
  have "enc64 (sgn64 x) n + 64 * 2 ^ 52 = x"
    using enc64_sgn_mag [of x] unfolding m(1) enc64_def by (simp add: algebra_simps)
  then have x: "ldexp3k x (- 64) = enc64 (sgn64 x) n"
    unfolding ldexp3k_def by (simp add: push_bit_eq_mult) (simp only: eq_diff_eq [symmetric])
  have "n < inf64" using assms(1) m(1) unfolding is_finite_bits_iff by linarith
  then show "is_finite_bits (ldexp3k x (- 64))" unfolding x is_finite_bits_iff mag64_enc64 [OF n63] .
  have "mag_val 52 (- 1074) (mag64 x) = mag_val 52 (- 1074) n * 2 powi (int 64)"
    unfolding m(1) using m(2) by (intro mag_val_scaled) (simp add: div_greater_zero_iff)
  then show "val64 (ldexp3k x (- 64)) = val64 x * 2 powi (- 64)" unfolding x val64_enc64 [OF n63] val64_def [of x]
    by (simp add: power_int_minus)
  show "sgn64 (ldexp3k x (- 64)) = sgn64 x" unfolding x by (rule sgn64_enc64 [OF n63])
qed

lemma rempi_index_bound: "is_finite_bits x \<Longrightarrow> rempi_index x + 3 < length kRempiTab"
proof -
  assume "is_finite_bits x"
  then have "mag64 x div 2 ^ 52 < 2047" unfolding is_finite_bits_iff inf64_def by (simp add: div_less_iff_less_mult)
  then have "ilogb2k x \<le> 1023" unfolding ilogb2k_exp unat_extract_exp_mag by linarith
  then show ?thesis unfolding rempi_table_length rempi_index_def Let_def by auto
qed

text \<open>
  C33: The reduction by Payne and Hanek stays inside its table: for every finite argument the four entries it
  reads exist, and the shift that protects the products from overflow is exact, so the scaled argument is
  a finite double with the sign of the argument and \<open>2 ^ - 64\<close> times its value.
\<close>

theorem rempi_reads_inside_table:
  "is_finite_bits x \<longrightarrow>
     rempi_index (sf64_internal_fabs x) + 3 < length kRempiTab
     \<and> (if 700 - 55 < ilogb2k (sf64_internal_fabs x) - 55
        then is_finite_bits (ldexp3k x (- 64)) \<and> val64 (ldexp3k x (- 64)) = val64 x * 2 powi (- 64)
          \<and> sgn64 (ldexp3k x (- 64)) = sgn64 x
        else ldexp3k x 0 = x)"
proof (intro impI conjI)
  assume fin: "is_finite_bits x"
  show "rempi_index (sf64_internal_fabs x) + 3 < length kRempiTab"
    by (rule rempi_index_bound) (simp add: internal_fabs_eq fabs_val fin)
  have l: "ilogb2k (sf64_internal_fabs x) = ilogb2k x"
    unfolding ilogb2k_exp internal_fabs_eq unat_extract_exp_mag by simp
  show "if 700 - 55 < ilogb2k (sf64_internal_fabs x) - 55
        then is_finite_bits (ldexp3k x (- 64)) \<and> val64 (ldexp3k x (- 64)) = val64 x * 2 powi (- 64)
          \<and> sgn64 (ldexp3k x (- 64)) = sgn64 x
        else ldexp3k x 0 = x"
    unfolding l using rempi_shift [OF fin] by (simp add: ldexp3k_def)
qed

lemma rempi_reads_inside_table_witness:
  "rempi_index (sf64_internal_fabs 0x7FEFFFFFFFFFFFFF) + 3 < length kRempiTab"
proof -
  have "is_finite_bits 0x7FEFFFFFFFFFFFFF" by code_simp
  then show ?thesis using rempi_reads_inside_table [of "0x7FEFFFFFFFFFFFFF"] by blast
qed

section \<open>The clamp of the pi-scaled functions\<close>

lemma clamp_words:
  "is_finite_bits kSinpiClamp" "val64 kSinpiClamp = 250000000"
  "is_finite_bits 0x41ADCD6501000000" "val64 0x41ADCD6501000000 = 500000001 / 2"
  "is_finite_bits 0x41ADCD6502000000" "val64 0x41ADCD6502000000 = 250000001"
  using val64_literal [of kSinpiClamp 1049 "0x1DCD6500000000"] val64_literal [of "0x41ADCD6501000000" 1049 "0x1DCD6501000000"]
    val64_literal [of "0x41ADCD6502000000" 1049 "0x1DCD6502000000"]
  by (simp_all add: kSinpiClamp_def power_int_minus)

lemma clamped:
  assumes "is_finite_bits x" "250000000 < \<bar>val64 x\<bar>"
  shows "sf64_sinpi p x m t w = (0, w)" "sf64_cospi p x m t w = (0x3FF0000000000000, w)" "sf64_tanpi p x m t w = (0, w)"
proof -
  have c: "\<not> is_nan_bits x" "\<not> is_inf_bits x" using assms(1) by (auto simp: class_iff)
  have k: "\<not> is_nan_bits kSinpiClamp" using clamp_words(1) by (auto simp: class_iff)
  have z: "\<not> is_neg_zero x"
  proof
    assume "is_neg_zero x"
    then have "is_zero_bits x" unfolding is_neg_zero_def by (simp only:) code_simp
    then show False using assms(2) by (simp flip: val64_eq_0_iff)
  qed
  show "sf64_sinpi p x m t w = (0, w)" "sf64_cospi p x m t w = (0x3FF0000000000000, w)" "sf64_tanpi p x m t w = (0, w)"
    unfolding sf64_sinpi_def sf64_cospi_def sf64_tanpi_def
    using c k z assms(2) by (simp_all add: sl_class sl_compare internal_fabs_eq fabs_val clamp_words(2) run_return)
qed

lemma clamp_sine: "sin (pi * (500000001 / 2)) = 1" "cos (pi * 250000001) = - 1"
proof -
  have "pi * (500000001 / 2) = 2 * pi * real_of_int 125000000 + pi / 2" "pi * 250000001 = 2 * pi * real_of_int 125000000 + pi"
    by (simp_all add: algebra_simps)
  then show "sin (pi * (500000001 / 2)) = 1" "cos (pi * 250000001) = - 1"
    by (simp_all only: sin_add cos_add sin_int_2pin cos_int_2pin) simp_all
qed

text \<open>
  C38: Beyond \<open>kSinpiClamp\<close> the pi-scaled functions are constants: for every finite argument of magnitude
  above 250000000, \<open>sinpi\<close> and \<open>tanpi\<close> return \<open>+0\<close> and \<open>cospi\<close> returns 1, without a flag, also where
  doubles still resolve fractions of a turn: the sine of \<open>250000000.5\<close> half turns is 1, and the
  cosine of \<open>250000001\<close> is \<open>- 1\<close>.
\<close>

theorem pi_functions_clamped:
  "(is_finite_bits x \<and> 250000000 < \<bar>val64 x\<bar> \<longrightarrow>
      sf64_sinpi p x m t w = (0, w) \<and> sf64_cospi p x m t w = (0x3FF0000000000000, w) \<and> sf64_tanpi p x m t w = (0, w))
    \<and> sf64_sinpi p 0x41ADCD6501000000 m t w = (0, w) \<and> sin (pi * val64 0x41ADCD6501000000) = 1
    \<and> sf64_cospi p 0x41ADCD6502000000 m t w = (0x3FF0000000000000, w) \<and> cos (pi * val64 0x41ADCD6502000000) = - 1"
  using clamped [of x p m t w] clamped(1) [of "0x41ADCD6501000000" p m t w] clamped(2) [of "0x41ADCD6502000000" p m t w]
    clamp_sine by (simp add: clamp_words)

lemma pi_functions_clamped_witness: "\<forall>m t w. sf64_tanpi True 0x41ADCD6501000000 m t w = (0, w)"
  using pi_functions_clamped [of "0x41ADCD6501000000" True] by (simp add: clamp_words)

end
