(* ===== verification/Sf_Sleef_Symmetry.thy ===== *)
theory Sf_Sleef_Symmetry
  imports Sf_Sleef_Values
begin

text \<open>
  Even and odd elementary functions: a small calculus of computations that deliver negated results, and
  the symmetries of the entries.
\<close>

section \<open>Symmetry\<close>

text \<open>Two computations of which one delivers the negated result of the other, with the same effects.\<close>

definition negates :: "f64 sl \<Rightarrow> f64 sl \<Rightarrow> bool" where
  "negates f g \<longleftrightarrow> (\<forall>s. run_state g s = map_prod sf64_neg id (run_state f s))"

lemma negates_return: "negates (return v) (return (sf64_neg v))" "negates (return (sf64_neg v)) (return v)"
  "negates (return 0) (return (sf64_neg 0))"
  by (simp_all add: negates_def)

lemma negates_bind: "(\<And>v. negates (f v) (g v)) \<Longrightarrow> negates (x \<bind> f) (x \<bind> g)"
  by (simp add: negates_def split_beta)

lemma negates_if: "negates f f' \<Longrightarrow> negates g g' \<Longrightarrow> negates (if c then f else g) (if c then f' else g')"
  "negates f f' \<Longrightarrow> negates g g' \<Longrightarrow> negates (if c then f else g) (if \<not> c then g' else f')"
  by simp_all

lemma negates_sign: "negates (return (if s then sf64_neg v else v)) (return (if \<not> s then sf64_neg v else v))"
  by (simp add: negates_def)

lemma negates_quadrant:
  "negates (return (if d then if s then sf64_neg v else v else if s then sf64_neg u else u))
     (return (if d then if \<not> s then sf64_neg v else v else if \<not> s then sf64_neg u else u))"
  by (simp add: negates_def)

lemma negates_run: "negates f g \<Longrightarrow> run_entry p a g m t w = map_prod sf64_neg id (run_entry p a f m t w)"
  by (simp add: negates_def run_entry_def split_beta)

lemma fabs_neg: "sf64_fabs (sf64_neg x) = sf64_fabs x"
  by (rule same_finite) (simp_all add: fabs_val)

lemmas symmetric_simps = sl_class sl_eq_zero internal_fabs_eq fabs_neg sf64_neg_class sf64_neg_fields(1)

lemma asin_odd:
  assumes "\<not> is_nan_bits x" "\<bar>val64 x\<bar> \<le> 1"
  shows "sf64_asin p (sf64_neg x) m t w = map_prod sf64_neg id (sf64_asin p x m t w)"
proof -
  have "\<not> sl_gt (sf64_fabs x) 0x3FF0000000000000" using assms(2) by (simp add: sl_compare fabs_val)
  then show ?thesis unfolding sf64_asin_def Let_def symmetric_simps if_not_P [OF assms(1)]
    by (simp only: if_False) (intro negates_run negates_bind negates_if negates_sign)
qed

lemma atan_odd:
  assumes "\<not> is_nan_bits x"
  shows "sf64_atan p (sf64_neg x) m t w = map_prod sf64_neg id (sf64_atan p x m t w)"
  unfolding sf64_atan_def Let_def symmetric_simps if_not_P [OF assms]
  by (intro negates_run negates_bind negates_if negates_sign negates_return)

lemma cbrt_odd:
  assumes "\<not> is_nan_bits x"
  shows "sf64_cbrt p (sf64_neg x) m t w = map_prod sf64_neg id (sf64_cbrt p x m t w)"
  unfolding sf64_cbrt_def Let_def symmetric_simps if_not_P [OF assms]
  by (intro negates_run negates_bind negates_if negates_sign negates_return)

lemma erf_odd:
  assumes "\<not> is_nan_bits x"
  shows "sf64_erf p (sf64_neg x) m t w = map_prod sf64_neg id (sf64_erf p x m t w)"
  unfolding sf64_erf_def Let_def symmetric_simps if_not_P [OF assms] minus_one
  by (intro negates_run negates_bind negates_if negates_sign negates_return)

lemma atan2_odd:
  assumes "\<not> is_nan_bits x" "\<not> is_nan_bits y"
  shows "sf64_atan2 p (sf64_neg y) x m t w = map_prod sf64_neg id (sf64_atan2 p y x m t w)"
proof -
  have c: "\<not> (is_nan_bits x \<or> is_nan_bits y)" using assms by simp
  show ?thesis unfolding sf64_atan2_def Let_def symmetric_simps if_not_P [OF c]
    by (intro negates_run negates_bind negates_if negates_quadrant negates_sign negates_return)
qed

text \<open>
  C37: Symmetry, bit for bit and with the same flags.  \<open>cos\<close> is even on all doubles; \<open>atan\<close>, \<open>cbrt\<close> and
  \<open>erf\<close> are odd on everything but NaNs, \<open>asin\<close> on its domain, and \<open>atan2\<close> in its first operand; the
  zeros change sign like every other result.
\<close>

theorem elementary_symmetry:
  "sf64_cos p (sf64_neg x) m t w = sf64_cos p x m t w
   \<and> (\<not> is_nan_bits x \<longrightarrow>
        sf64_atan p (sf64_neg x) m t w = map_prod sf64_neg id (sf64_atan p x m t w)
        \<and> sf64_cbrt p (sf64_neg x) m t w = map_prod sf64_neg id (sf64_cbrt p x m t w)
        \<and> sf64_erf p (sf64_neg x) m t w = map_prod sf64_neg id (sf64_erf p x m t w))
   \<and> (\<not> is_nan_bits x \<and> \<bar>val64 x\<bar> \<le> 1 \<longrightarrow> sf64_asin p (sf64_neg x) m t w = map_prod sf64_neg id (sf64_asin p x m t w))
   \<and> (\<not> is_nan_bits x \<and> \<not> is_nan_bits y \<longrightarrow> sf64_atan2 p (sf64_neg y) x m t w = map_prod sf64_neg id (sf64_atan2 p y x m t w))"
proof -
  have "sf64_cos p (sf64_neg x) m t w = sf64_cos p x m t w" unfolding sf64_cos_def symmetric_simps by (rule refl)
  then show ?thesis using atan_odd cbrt_odd erf_odd asin_odd atan2_odd by simp
qed

lemma elementary_symmetry_witness:
  "\<forall>m t w. sf64_atan2 True (sf64_neg 0x3FF0000000000000) 0x3FE0000000000000 m t w =
     map_prod sf64_neg id (sf64_atan2 True 0x3FF0000000000000 0x3FE0000000000000 m t w)"
proof -
  have n: "\<not> is_nan_bits 0x3FE0000000000000" "\<not> is_nan_bits 0x3FF0000000000000"
    using finite_not_special [OF half_val(2)] one_not_nan by simp_all
  show ?thesis using n elementary_symmetry [of True "0x3FE0000000000000" _ _ _ "0x3FF0000000000000"] by blast
qed

end
