(* ===== verification/Sf_Sleef_Exp2.thy ===== *)
theory Sf_Sleef_Exp2
  imports Sf_Sleef_Values
begin

text \<open>
  The exponential to base two on integers: the whole kernel (rounding, conversion, polynomial, double-double
  product, renormalisation, scaling) is followed step by step on the exact argument.
\<close>

section \<open>Steps on exact arguments\<close>

lemma signed_eq: "sgn64 a = sgn64 b \<Longrightarrow> \<bar>val64 a\<bar> = \<bar>val64 b\<bar> \<Longrightarrow> a = b"
  unfolding abs_val64 by (rule same_finite) (simp_all add: val64_def)

lemma rint_integer:
  assumes "is_finite_bits x" "val64 x = real_of_int n"
  shows "sl_rint x = x"
proof -
  have a: "\<bar>val64 x\<bar> = real_of_int \<bar>n\<bar>" using assms(2) by simp
  have r: "sl_rint x = sf64_rint_r SF64_RNE x" by (simp add: sl_rint_def sf64_rint_r_def)
  show ?thesis unfolding r
    by (rule signed_eq) (simp_all only: rint_r_sound [OF assms(1)] a rnd_int_of_int)
qed

lemma to_i32_integer:
  assumes "is_finite_bits x" "val64 x = real_of_int n" "\<bar>n\<bar> < 2 ^ 31"
  shows "gives p (to_i32 x) n 0"
proof -
  have a: "\<bar>val64 x\<bar> = real_of_int \<bar>n\<bar>" using assms(2) by simp
  have "round_int SF64_RTZ x = (if sgn64 x then - \<bar>n\<bar> else \<bar>n\<bar>)" unfolding round_int_def a rnd_int_of_int ..
  moreover have "real_of_int (if sgn64 x then - \<bar>n\<bar> else \<bar>n\<bar>) = val64 x"
    using a by (subst val64_signed) simp
  ultimately have i: "round_int SF64_RTZ x = n" unfolding assms(2) by simp
  have c: "\<not> is_nan_bits x" "\<not> is_inf_bits x" using assms(1) by (auto simp: class_iff)
  have b: "- (2 ^ 31) \<le> n" "n \<le> 2 ^ 31 - 1" using assms(3) by linarith+
  have s: "to_int_spec (- (2 ^ 31)) (2 ^ 31 - 1) SF64_RTZ x 0 = (n, 0)"
    unfolding to_int_spec_def if_not_P [OF c(1)] if_not_P [OF c(2)] Let_def i assms(2) using b by simp
  have "sf64_to_i32 x = sf64_to_i32_r SF64_RTZ x"
    by (intro ext) (simp add: sf64_to_i32_def sf64_to_i32_r_def)
  then have e: "map_prod sint id (sf64_to_i32 x m t w) = (n, w)" for m t w
    using to_int_entries(3) [of SF64_RTZ x m t w] unfolding s
    by (cases m) (simp_all add: entry_default_def acc_default_def acc_raise_def acc_flush_def)
  have c: "sf64_to_i32 x m t w = (word_of_int n, w)" for m t w
  proof (cases "sf64_to_i32 x m t w")
    case (Pair q w')
    have "sint q = n" "w' = w" using e [of m t w] unfolding Pair by simp_all
    moreover have "word_of_int (sint q) = q" by simp
    ultimately show ?thesis unfolding Pair by simp
  qed
  have w: "sint (word_of_int n :: 32 word) = n"
    using b unfolding sint_sbintrunc' by (intro signed_take_bit_int_eq_self) simp_all
  have "gives p (call_entry (sf64_to_i32 x)) (word_of_int n) 0" by (rule gives_call) (rule c)
  then show ?thesis unfolding to_i32_def by (rule gives_exact_bind) (simp add: w gives_return)
qed

lemma sub_self: "is_finite_bits x \<Longrightarrow> gives p (sl_sub x x) 0 0"
proof -
  assume x: "is_finite_bits x"
  have "enc64 False 0 = 0" by (simp add: enc64_def)
  then show ?thesis using sub_r_impl_finite [OF x x, of p SF64_RNE 0]
    by (intro gives_sub) (simp add: round64_def)
qed

lemma mla_zero: "is_finite_bits u \<Longrightarrow> is_finite_bits c \<Longrightarrow> \<not> is_zero_bits c \<Longrightarrow> gives p (mla u 0 c) c 0"
  unfolding mla_def
  using finite_not_special
  by (intro gives_fma) (auto simp: fma_r_impl_finite ieee_fma_def round64_val64 dest: zero_class)

lemma horner_zero:
  "\<forall>c \<in> set (u # cs). is_finite_bits c \<and> \<not> is_zero_bits c \<Longrightarrow> gives p (horner 0 u cs) (last (u # cs)) 0"
proof (induction cs arbitrary: u)
  case Nil
  then show ?case by (simp add: gives_return)
next
  case (Cons c cs)
  then have "gives p (mla u 0 c) c 0" "gives p (horner 0 c cs) (last (c # cs)) 0" by (simp_all add: mla_zero)
  then have "gives p (mla u 0 c \<bind> (\<lambda>u. horner 0 u cs)) (last (c # cs)) 0" by (rule gives_exact_bind)
  then show ?case by simp
qed


section \<open>Powers of two with integer exponents\<close>

lemma exp2_words:
  "\<forall>c \<in> set kExp2Poly. is_finite_bits c \<and> \<not> is_zero_bits c" "is_finite_bits 0x3FE62E42FEFA39EF" "\<not> is_zero_bits 0x3FE62E42FEFA39EF"
  "length kExp2Poly = 10"
  by code_simp+

lemma unit_sums:
  "gives p (sl_add 0x3FF0000000000000 0) 0x3FF0000000000000 0" "gives p (sl_add 0 0) 0 0"
  "gives p (sl_sub 0x3FF0000000000000 0x3FF0000000000000) 0 0" "gives p (sl_sub 0x3FF0000000000000 0) 0x3FF0000000000000 0"
  "gives p (sl_sub 0 0) 0 0" "gives p (sl_mul 0x3FE62E42FEFA39EF 0) 0 0" "gives p (sl_fma 0x3FE62E42FEFA39EF 0 (sl_neg 0)) 0 0"
proof -
  show "gives p (sl_sub 0x3FF0000000000000 0x3FF0000000000000) 0 0" "gives p (sl_sub 0 0) 0 0" by (rule sub_self; simp)+
  show "gives p (sl_add 0x3FF0000000000000 0) 0x3FF0000000000000 0" "gives p (sl_add 0 0) 0 0" by (rule gives_add; code_simp)+
  show "gives p (sl_mul 0x3FE62E42FEFA39EF 0) 0 0" by (rule gives_mul; code_simp)
  show "gives p (sl_fma 0x3FE62E42FEFA39EF 0 (sl_neg 0)) 0 0" by (rule gives_fma; code_simp)
  show "gives p (sl_sub 0x3FF0000000000000 0) 0x3FF0000000000000 0"
    unfolding sl_sub_def gives_snan by (rule gives_with_fe; cases p; simp only:; code_simp)
qed

lemma exp2_kernel:
  "gives p (do {
     t \<leftarrow> ddmul_dd_d_d 0x3FE62E42FEFA39EF 0;
     t \<leftarrow> ddadd2_dd_d_dd 0x3FF0000000000000 t;
     r \<leftarrow> ddnormalize_dd_dd t;
     return (sf64_internal_ldexp (dd_hi r) n) }) (sf64_internal_ldexp 0x3FF0000000000000 n) 0"
proof -
  have p: "gives p (ddmul_dd_d_d 0x3FE62E42FEFA39EF 0) (dd 0 0) 0"
    unfolding ddmul_dd_d_d_def two_prod_def
    by (rule gives_exact_bind gives_return unit_sums | simp only: prod.case)+
  have s: "gives p (ddadd2_dd_d_dd 0x3FF0000000000000 (dd 0 0)) (dd 0x3FF0000000000000 0) 0"
    unfolding ddadd2_dd_d_dd_def two_sum_def dd_def DD.select_convs
    by (rule gives_exact_bind gives_return unit_sums | simp only: prod.case)+
  have n: "gives p (ddnormalize_dd_dd (dd 0x3FF0000000000000 0)) (dd 0x3FF0000000000000 0) 0"
    unfolding ddnormalize_dd_dd_def dd_def DD.select_convs
    by (rule gives_exact_bind gives_return unit_sums | simp only: prod.case)+
  show ?thesis
    by (rule gives_exact_bind [OF p], rule gives_exact_bind [OF s], rule gives_exact_bind [OF n])
      (simp add: dd_def gives_return)
qed

lemma run_flushed_exact: "gives p f v 0 \<Longrightarrow> run_entry p acc_default (flushed f) m t w = (v, w)"
  unfolding run_entry_def flushed_def gives_def
  by (cases m) (simp_all add: fe_flush_def acc_flush_def acc_default_def acc_raise_def)

lemma exp2_bounds:
  "is_finite_bits 0x4090000000000000" "val64 0x4090000000000000 = 1024" "is_finite_bits 0xC09F400000000000" "val64 0xC09F400000000000 = - 2000"
proof -
  have w: "0xC09F400000000000 = sf64_neg (0x409F400000000000 :: f64)" by code_simp
  show "is_finite_bits 0x4090000000000000" "val64 0x4090000000000000 = 1024"
    using val64_literal [of "0x4090000000000000" 1032 "2 ^ 52"] by (simp_all add: power_int_minus)
  show "is_finite_bits 0xC09F400000000000" "val64 0xC09F400000000000 = - 2000"
    unfolding w using val64_literal [of "0x409F400000000000" 1032 "0x1F400000000000"] by (simp_all add: power_int_minus)
qed

lemma exp2_integer:
  assumes x: "is_finite_bits x" "val64 x = real_of_int n"
  shows "sf64_exp2 p x m t w =
    (if 1024 \<le> n then 0x7FF0000000000000 else if n \<le> - 2000 then 0 else fst (round64 SF64_RNE False (2 powi n) 0), w)"
proof -
  have nan: "\<not> is_nan_bits x" "\<not> is_nan_bits 0x4090000000000000" "\<not> is_nan_bits 0xC09F400000000000"
    using finite_not_special x(1) exp2_bounds by blast+
  have ge: "sl_ge x 0x4090000000000000 \<longleftrightarrow> 1024 \<le> n" and le: "sl_le x 0xC09F400000000000 \<longleftrightarrow> n \<le> - 2000"
    using nan of_int_le_iff [where ?'a = real, of n "- 2000"] by (simp_all add: sl_compare exp2_bounds x(2))
  have inf: "positive_infinity = 0x7FF0000000000000" by (simp add: special_words(1) signed_inf_def enc64_def inf64_def)
  consider "1024 \<le> n" | "n \<le> - 2000" | "\<not> 1024 \<le> n" "\<not> n \<le> - 2000" by blast
  then show ?thesis
  proof cases
    case 3
    then have n: "\<bar>n\<bar> < 2 ^ 31" by simp
    have o: "\<not> is_zero_bits 0x3FF0000000000000" by (simp flip: val64_eq_0_iff)
    have l: "sf64_internal_ldexp 0x3FF0000000000000 n = fst (round64 SF64_RNE False (2 powi n) 0)"
      unfolding internal_ldexp_eq using ldexp_sound [OF one_val(2) o, of n False 0] by simp
    have h: "gives p (poly10_horner 0 kExp2Poly) (kExp2Poly ! 9) 0"
    proof -
      have k: "is_finite_bits (kExp2Poly ! i) \<and> \<not> is_zero_bits (kExp2Poly ! i)" if "i < 10" for i
        using exp2_words(1) nth_mem [of i kExp2Poly] that by (simp add: exp2_words(4))
      have "gives p (horner 0 (kExp2Poly ! 0) [kExp2Poly ! 1, kExp2Poly ! 2, kExp2Poly ! 3, kExp2Poly ! 4, kExp2Poly ! 5,
          kExp2Poly ! 6, kExp2Poly ! 7, kExp2Poly ! 8, kExp2Poly ! 9]) (last (kExp2Poly ! 0 # [kExp2Poly ! 1, kExp2Poly ! 2,
          kExp2Poly ! 3, kExp2Poly ! 4, kExp2Poly ! 5, kExp2Poly ! 6, kExp2Poly ! 7, kExp2Poly ! 8, kExp2Poly ! 9])) 0"
        by (rule horner_zero) (simp add: k)
      then show ?thesis by (simp add: poly10_horner_def)
    qed
    have k: "gives p (mla (kExp2Poly ! 9) 0 0x3FE62E42FEFA39EF) 0x3FE62E42FEFA39EF 0"
      using exp2_words(1) nth_mem [of 9 kExp2Poly] by (intro mla_zero exp2_words(2,3)) (simp add: exp2_words(4))
    show ?thesis
      unfolding sf64_exp2_def sl_class ge le rint_integer [OF x] Let_def if_not_P [OF nan(1)]
        if_not_P [OF 3(1)] if_not_P [OF 3(2)] l [symmetric]
      by (rule run_flushed_exact, rule gives_exact_bind [OF to_i32_integer [OF x n]], rule gives_exact_bind [OF sub_self [OF x(1)]],
          rule gives_exact_bind [OF h], rule gives_exact_bind [OF k], rule exp2_kernel)
  qed (simp_all add: sf64_exp2_def sl_class nan ge le inf run_return)
qed

lemma rep64_power: "- 1074 \<le> n \<Longrightarrow> n \<le> 1023 \<Longrightarrow> rep64 (2 powi n)"
proof (cases "n \<le> 971")
  case False
  assume n: "- 1074 \<le> n" "n \<le> 1023"
  have "(2 :: real) powi n = real_of_int (2 ^ 52) * 2 powi (n - 52)"
    using power_int_add [of "2 :: real" 52 "n - 52"] by simp
  then show ?thesis using rep64_scaled [of "2 ^ 52" "n - 52"] n False by simp
qed (use rep64_scaled [of 1 n] in simp)

text \<open>
  C19: \<open>exp2\<close> of an integer raises no flag and is the power of two rounded to nearest: exact from
  \<open>2 ^ - 1074\<close>, the least subnormal, to \<open>2 ^ 1023\<close>, and infinity from 1024 on (zero from \<open>- 2000\<close> down).  The
  polynomial, the double-double product and the renormalisation all run, on the argument zero.
\<close>

theorem exp2_integer_exact:
  "is_finite_bits x \<and> val64 x = real_of_int n \<longrightarrow>
     sf64_exp2 p x m t w =
       (if 1024 \<le> n then 0x7FF0000000000000 else if n \<le> - 2000 then 0 else fst (round64 SF64_RNE False (2 powi n) 0), w)
     \<and> (if - 1074 \<le> n \<and> n \<le> 1023 then val64 (fst (sf64_exp2 p x m t w)) = 2 powi n else True)"
proof (rule impI, elim conjE)
  assume x: "is_finite_bits x" "val64 x = real_of_int n"
  have "val64 (fst (round64 SF64_RNE False (2 powi n) 0)) = 2 powi n" if "- 1074 \<le> n" "n \<le> 1023"
    using round64_exact [OF rep64_power [OF that], of SF64_RNE False 0] by (metis fst_conv)
  then show "sf64_exp2 p x m t w =
       (if 1024 \<le> n then 0x7FF0000000000000 else if n \<le> - 2000 then 0 else fst (round64 SF64_RNE False (2 powi n) 0), w)
     \<and> (if - 1074 \<le> n \<and> n \<le> 1023 then val64 (fst (sf64_exp2 p x m t w)) = 2 powi n else True)"
    unfolding exp2_integer [OF x] by simp
qed

lemma exp2_integer_exact_witness: "\<forall>m t w. val64 (fst (sf64_exp2 True 0x4008000000000000 m t w)) = 8"
proof -
  have x: "is_finite_bits 0x4008000000000000 \<and> val64 0x4008000000000000 = real_of_int 3"
    using val64_literal [of "0x4008000000000000" 1023 "0x18000000000000"] by (simp_all add: power_int_minus)
  show ?thesis using exp2_integer_exact [of "0x4008000000000000" 3 True, THEN mp, OF x, THEN conjunct2] by simp
qed

end
