(* ===== verification/Sf_Sleef_DD.thy ===== *)
theory Sf_Sleef_DD
  imports Sf_Sleef_Values Sf_Arith_Props
begin

text \<open>
  Error-free transformations: the rounding errors of a product and of a sum are doubles, and the kernels of
  the double-double arithmetic deliver them exactly.
\<close>

section \<open>Rounding to nearest and units\<close>

lemma rep64_int:
  assumes "\<bar>M\<bar> < 2 ^ 53" "- 1074 \<le> q" "\<bar>real_of_int M * 2 powi q\<bar> < 2 powi 1024"
  shows "rep64 (real_of_int M * 2 powi q)"
proof -
  have "rep64 (real (nat \<bar>M\<bar>) * 2 powi q)"
    using assms by (intro rep64_small) (simp_all add: abs_mult)
  then show ?thesis using rep64_abs [of "real_of_int M * 2 powi q"] by (simp add: abs_mult)
qed

lemma nearest_finite:
  assumes "h = fst (round64 SF64_RNE z x fe)" "is_finite_bits h"
  shows "rep64 c \<Longrightarrow> \<bar>val64 h - x\<bar> \<le> \<bar>c - x\<bar>" "\<bar>x\<bar> < 2 powi 1024"
proof -
  have n: "\<bar>val64 h - x\<bar> \<le> \<bar>val64 c - x\<bar>" for c
    using round64_nearest [of SF64_RNE z x fe c] assms by (simp add: rounds_nearest_def)
  then show "rep64 c \<Longrightarrow> \<bar>val64 h - x\<bar> \<le> \<bar>c - x\<bar>" by (auto simp: rep64_def)
  have i: "val64 (enc64 s inf64) = (if s then - (2 powi 1024) else 2 powi 1024)" for s
    using mag_val_encode [of "2 ^ 52" 52 2046 "- 1074"] by (simp add: val64_enc64 inf64_def)
  show "\<bar>x\<bar> < 2 powi 1024"
    using n [of "enc64 True inf64"] n [of "enc64 False inf64"] finite_bound [OF assms(2)] unfolding i by auto
qed

lemma multiple_of_unit:
  assumes g: "is_finite_bits g" "val64 g = 2 ^ 53 * 2 powi q" and h: "is_finite_bits h" "val64 g \<le> \<bar>val64 h\<bar>"
  obtains N where "val64 h = real_of_int N * 2 powi q"
proof -
  have ag: "\<bar>val64 g\<bar> = val64 g" unfolding g(2) by simp
  obtain K q' where K: "\<bar>val64 g\<bar> = real K * 2 powi q'" "K < 2 ^ 53"
    "\<And>a. is_finite_bits a \<Longrightarrow> \<bar>val64 g\<bar> \<le> \<bar>val64 a\<bar> \<Longrightarrow> \<exists>J. \<bar>val64 a\<bar> = real J * 2 powi q'"
    using finite_grid [OF g(1)] by metis
  have "q \<le> q'"
  proof (rule ccontr)
    assume "\<not> q \<le> q'"
    then have "(2 :: real) powi q' \<le> 2 powi q" by (intro power_int_increasing) simp_all
    then have "real K * 2 powi q' \<le> real K * 2 powi q" by (intro mult_left_mono) simp_all
    moreover have "real K * 2 powi q < 2 ^ 53 * 2 powi q" using K(2) by (intro mult_strict_right_mono) simp_all
    ultimately show False using K(1) unfolding ag g(2) by linarith
  qed
  then have p: "(2 :: real) powi q' = 2 ^ nat (q' - q) * 2 powi q"
    using power_int_add [of "2 :: real" "q' - q" q] by (simp add: power_int_def)
  have "\<bar>val64 g\<bar> \<le> \<bar>val64 h\<bar>" unfolding ag by (rule h(2))
  then obtain J where J: "\<bar>val64 h\<bar> = real J * 2 powi q'" using K(3) [OF h(1)] by blast
  then have a: "\<bar>val64 h\<bar> = real_of_int (int J * 2 ^ nat (q' - q)) * 2 powi q" unfolding p by simp
  show ?thesis
  proof (cases "val64 h < 0")
    case True
    then show ?thesis using a that [of "- (int J * 2 ^ nat (q' - q))"] by simp
  next
    case False
    then show ?thesis using a that [of "int J * 2 ^ nat (q' - q)"] by simp
  qed
qed

text \<open>A double within \<open>2 ^ 53\<close> units of a multiple of the unit, from below.\<close>

lemma truncated_multiple:
  assumes M: "0 \<le> M" "M < 2 ^ 106" and q: "- 1074 \<le> q" "real_of_int M * 2 powi q < 2 powi 1024"
  obtains c where "rep64 c" "c \<le> real_of_int M * 2 powi q" "real_of_int M * 2 powi q < c + 2 ^ 53 * 2 powi q"
proof -
  define k where "k = M div 2 ^ 53"
  have k: "0 \<le> k" "k < 2 ^ 53" unfolding k_def using M by (simp_all add: pos_imp_zdiv_nonneg_iff)
  have c: "k * 2 ^ 53 \<le> M" "M < k * 2 ^ 53 + 2 ^ 53" unfolding k_def by simp_all
  have p: "(2 :: real) powi (q + 53) = 2 ^ 53 * 2 powi q" by (simp add: power_int_add)
  have e: "real_of_int k * 2 powi (q + 53) = real_of_int (k * 2 ^ 53) * 2 powi q" unfolding p by simp
  have le: "real_of_int k * 2 powi (q + 53) \<le> real_of_int M * 2 powi q"
    unfolding e using c(1) by (intro mult_right_mono) (simp_all only: of_int_le_iff, simp)
  have "real_of_int M * 2 powi q < real_of_int (k * 2 ^ 53 + 2 ^ 53) * 2 powi q"
    using c(2) by (intro mult_strict_right_mono) (simp_all only: of_int_less_iff, simp)
  also have "\<dots> = real_of_int k * 2 powi (q + 53) + 2 ^ 53 * 2 powi q" unfolding p by (simp add: algebra_simps)
  finally have lt: "real_of_int M * 2 powi q < real_of_int k * 2 powi (q + 53) + 2 ^ 53 * 2 powi q" .
  have pos: "0 \<le> real_of_int k * 2 powi (q + 53)" using k(1) by simp
  have "rep64 (real_of_int k * 2 powi (q + 53))"
    using k q(1) by (intro rep64_int) (simp, simp, use pos le q(2) in linarith)
  then show ?thesis using that le lt by blast
qed

lemma nearest_magnitude:
  assumes "h = fst (round64 SF64_RNE z x fe)" "is_finite_bits h" "rep64 c"
  shows "\<bar>val64 h - x\<bar> \<le> \<bar>c - \<bar>x\<bar>\<bar>"
proof (cases "x < 0")
  case True
  have "rep64 (- c)" using assms(3) by (simp add: rep64_minus)
  then have "\<bar>val64 h - x\<bar> \<le> \<bar>- c - x\<bar>" by (rule nearest_finite(1) [OF assms(1,2)])
  then show ?thesis using True by simp
next
  case False
  then show ?thesis using nearest_finite(1) [OF assms] by simp
qed

lemma nearest_not_below:
  assumes h: "h = fst (round64 SF64_RNE z x fe)" "is_finite_bits h" and g: "rep64 g" "0 < g" "g \<le> \<bar>x\<bar>"
  shows "g \<le> \<bar>val64 h\<bar>"
  using nearest_magnitude [OF h g(1)] g(2,3) by linarith

lemma nearest_not_above:
  assumes h: "h = fst (round64 SF64_RNE z x fe)" "is_finite_bits h" and g: "rep64 g" "\<bar>x\<bar> \<le> g"
  shows "\<bar>val64 h\<bar> \<le> g"
  using nearest_magnitude [OF h g(1)] g(2) by linarith

lemma rounded_multiple:
  assumes P: "P = real_of_int M * 2 powi q" "2 ^ 53 \<le> \<bar>M\<bar>" "- 1074 \<le> q"
    and h: "h = fst (round64 SF64_RNE z P fe)" "is_finite_bits h"
  obtains N where "val64 h = real_of_int N * 2 powi q" "2 ^ 53 * 2 powi q \<le> \<bar>P\<bar>"
proof -
  define G where "G = 2 ^ 53 * (2 :: real) powi q"
  have absP: "\<bar>P\<bar> = real_of_int \<bar>M\<bar> * 2 powi q" unfolding P(1) by (simp add: abs_mult)
  have "real_of_int (2 ^ 53) \<le> real_of_int \<bar>M\<bar>" using P(2) by (simp only: of_int_le_iff)
  then have big: "G \<le> \<bar>P\<bar>" unfolding absP G_def by (intro mult_right_mono) simp_all
  have G: "0 < G" "G = real_of_int 1 * 2 powi (q + 53)" unfolding G_def by (simp_all add: power_int_add)
  have rG: "rep64 G" unfolding G(2) using P(3) big nearest_finite(2) [OF h] G by (intro rep64_int) simp_all
  then obtain g where g: "is_finite_bits g" "val64 g = G" by (auto simp: rep64_def)
  have "val64 g \<le> \<bar>val64 h\<bar>" unfolding g(2) by (rule nearest_not_below [OF h rG G(1) big])
  then obtain N where "val64 h = real_of_int N * 2 powi q"
    using multiple_of_unit [OF g(1) _ h(2)] unfolding g(2) G_def by metis
  then show ?thesis using that big unfolding G_def by blast
qed

text \<open>The error of a rounding to nearest is a double, when the exact value is a multiple of the least subnormal.\<close>

lemma round_error_rep:
  assumes P: "P = real_of_int M * 2 powi q" "\<bar>M\<bar> < 2 ^ 106" "- 1074 \<le> q"
    and h: "h = fst (round64 SF64_RNE z P fe)" "is_finite_bits h"
  shows "rep64 (P - val64 h)"
proof (cases "\<bar>M\<bar> < 2 ^ 53")
  case True
  have "rep64 P" unfolding P(1) by (rule rep64_int [OF True P(3)]) (use nearest_finite(2) [OF h] P(1) in simp)
  then have "val64 h = P" using nearest_finite(1) [OF h, of P] by simp
  then show ?thesis using rep64_val [OF zero_bits(3)] by simp
next
  case False
  define U where "U = (2 :: real) powi q"
  have U: "0 < U" unfolding U_def by simp
  have absP: "\<bar>P\<bar> = real_of_int \<bar>M\<bar> * U" unfolding P(1) U_def [symmetric] using U by (simp add: abs_mult)
  have P1024: "\<bar>P\<bar> < 2 powi 1024" by (rule nearest_finite(2) [OF h])
  obtain N where N: "val64 h = real_of_int N * U" and big: "2 ^ 53 * U \<le> \<bar>P\<bar>"
    using rounded_multiple [OF P(1) _ P(3) h] False unfolding U_def by force
  obtain c where c: "rep64 c" "c \<le> \<bar>P\<bar>" "\<bar>P\<bar> < c + 2 ^ 53 * U"
    using truncated_multiple [of "\<bar>M\<bar>" q] P(2,3) P1024 unfolding absP U_def by auto
  have e: "\<bar>P - val64 h\<bar> < 2 ^ 53 * U" using nearest_magnitude [OF h c(1)] c(2,3) by linarith
  have v: "P - val64 h = real_of_int (M - N) * U" unfolding N P(1) U_def by (simp add: algebra_simps)
  have "real_of_int \<bar>M - N\<bar> * U < real_of_int (2 ^ 53) * U" using e unfolding v using U by (simp add: abs_mult)
  then have "\<bar>M - N\<bar> < 2 ^ 53" using U by (simp only: mult_less_cancel_right_pos of_int_less_iff)
  moreover have "\<bar>P - val64 h\<bar> < 2 powi 1024" using e big P1024 by linarith
  ultimately show ?thesis using P(3) unfolding v U_def by (intro rep64_int)
qed

section \<open>The exact product\<close>

lemma finite_scaled:
  assumes "is_finite_bits a"
  obtains K q where "val64 a = real_of_int K * 2 powi q" "\<bar>K\<bar> < 2 ^ 53" "- 1074 \<le> q"
proof -
  obtain k q where k: "\<bar>val64 a\<bar> = real k * 2 powi q" "k < 2 ^ 53" "- 1074 \<le> q"
    using finite_grid [OF assms] by metis
  show ?thesis
  proof (cases "val64 a < 0")
    case True
    then show ?thesis using k that [of "- int k" q] by simp
  next
    case False
    then show ?thesis using k that [of "int k" q] by simp
  qed
qed

lemma product_scaled:
  assumes a: "is_finite_bits a" and b: "is_finite_bits b" and P: "P = val64 a * val64 b" "P = 0 \<or> 2 powi (- 968) \<le> \<bar>P\<bar>"
  obtains M q where "P = real_of_int M * 2 powi q" "\<bar>M\<bar> < 2 ^ 106" "- 1074 \<le> q"
proof (cases "P = 0")
  case True
  then show ?thesis using that [of 0 0] by simp
next
  case False
  obtain K q where K: "val64 a = real_of_int K * 2 powi q" "\<bar>K\<bar> < 2 ^ 53" "- 1074 \<le> q" by (rule finite_scaled [OF a])
  obtain L r where L: "val64 b = real_of_int L * 2 powi r" "\<bar>L\<bar> < 2 ^ 53" "- 1074 \<le> r" by (rule finite_scaled [OF b])
  have e: "P = real_of_int (K * L) * 2 powi (q + r)" unfolding P(1) K(1) L(1) by (simp add: power_int_add)
  have "\<bar>K\<bar> * \<bar>L\<bar> < 2 ^ 53 * 2 ^ 53" using K(2) L(2) by (intro mult_strict_mono') simp_all
  then have m: "\<bar>K * L\<bar> < 2 ^ 106" by (simp add: abs_mult)
  have "- 1074 \<le> q + r"
  proof (rule ccontr)
    assume "\<not> - 1074 \<le> q + r"
    then have u: "(2 :: real) powi (q + r) \<le> 2 powi (- 1075)" by (intro power_int_increasing) simp_all
    have "real_of_int \<bar>K * L\<bar> \<le> real_of_int (2 ^ 106)" using m by (simp only: of_int_le_iff)
    then have "real_of_int \<bar>K * L\<bar> * 2 powi (q + r) \<le> real_of_int (2 ^ 106) * 2 powi (- 1075)"
      using u by (intro mult_mono) simp_all
    also have "\<dots> = (2 :: real) powi (- 969)" using power_int_add [of "2 :: real" 106 "- 1075"] by simp
    also have "\<dots> < 2 powi (- 968)" by (intro power_int_strict_increasing) simp_all
    finally show False using P(2) False unfolding e by (simp add: abs_mult)
  qed
  then show ?thesis using that e m by blast
qed

lemma gives_bind_exact: "gives p f v fl \<Longrightarrow> gives p (g v) u 0 \<Longrightarrow> gives p (f \<bind> g) u fl"
  using gives_bind [of p f v fl g u 0] by simp

lemma fma_exact:
  assumes "is_finite_bits a" "is_finite_bits b" "is_finite_bits c" "rep64 (val64 a * val64 b + val64 c)"
  obtains v where "gives p (sl_fma a b c) v 0" "is_finite_bits v" "val64 v = val64 a * val64 b + val64 c"
proof -
  have ni: "\<not> is_inf_bits a" "\<not> is_inf_bits b" "\<not> is_inf_bits c" using assms by (auto simp: class_iff)
  obtain z where "fma_r_impl a b c SF64_RNE 0 = round64 SF64_RNE z (val64 a * val64 b + val64 c) 0"
    using finite_not_special assms ni unfolding fma_r_impl_finite [OF assms(1-3)] ieee_fma_def by simp
  then obtain v where "fma_r_impl a b c SF64_RNE 0 = (v, 0)" "is_finite_bits v" "val64 v = val64 a * val64 b + val64 c"
    using round64_exact [OF assms(4)] by metis
  then show ?thesis using that gives_fma by blast
qed

lemma ddmul_exact:
  assumes a: "is_finite_bits a" and b: "is_finite_bits b"
    and h: "h = fst (mul_r_impl a b SF64_RNE 0)" "is_finite_bits h"
    and big: "val64 a * val64 b = 0 \<or> 2 powi (- 968) \<le> \<bar>val64 a * val64 b\<bar>"
  obtains l where "gives p (ddmul_dd_d_d a b) (dd h l) (snd (mul_r_impl a b SF64_RNE 0))" "is_finite_bits l"
    "val64 h + val64 l = val64 a * val64 b"
proof -
  obtain M q where M: "val64 a * val64 b = real_of_int M * 2 powi q" "\<bar>M\<bar> < 2 ^ 106" "- 1074 \<le> q"
    using product_scaled [OF a b refl big] by metis
  have "rep64 (val64 a * val64 b - val64 h)"
    using round_error_rep [OF M] h unfolding mul_r_impl_finite [OF a b] by blast
  then have "rep64 (val64 a * val64 b + val64 (sf64_neg h))" by simp
  then obtain l where l: "gives p (sl_fma a b (sf64_neg h)) l 0" "is_finite_bits l" "val64 l = val64 a * val64 b + val64 (sf64_neg h)"
    using fma_exact [OF a b, of "sf64_neg h"] h(2) by (auto simp: sf64_neg_class)
  have m: "gives p (sl_mul a b) h (snd (mul_r_impl a b SF64_RNE 0))"
    by (rule gives_mul) (simp add: h(1))
  have f: "gives p (sl_fma a b (sl_neg h) \<bind> (\<lambda>l. return (h, l))) (h, l) 0"
    unfolding sl_class by (rule gives_exact_bind [OF l(1)]) (rule gives_return)
  have "gives p (two_prod a b) (h, l) (snd (mul_r_impl a b SF64_RNE 0))"
    unfolding two_prod_def by (rule gives_bind_exact [OF m], rule f)
  then have "gives p (ddmul_dd_d_d a b) (dd h l) (snd (mul_r_impl a b SF64_RNE 0))"
    unfolding ddmul_dd_d_d_def by (rule gives_bind_exact) (simp add: gives_return)
  then show ?thesis using that l by simp
qed

text \<open>
  C15: The double-double product of two doubles is exact: when the product neither overflows nor falls below
  \<open>2 ^ - 968\<close>, the high part is the product rounded to nearest, the low part is the whole rounding error,
  the two add up to the real product, and the flags are those of the one rounded multiplication.
\<close>

theorem ddmul_error_free:
  "is_finite_bits a \<and> is_finite_bits b \<and> is_finite_bits (fst (mul_r_impl a b SF64_RNE 0))
     \<and> (val64 a * val64 b = 0 \<or> 2 powi (- 968) \<le> \<bar>val64 a * val64 b\<bar>) \<longrightarrow>
   (\<exists>l. gives p (ddmul_dd_d_d a b) (dd (fst (mul_r_impl a b SF64_RNE 0)) l) (snd (mul_r_impl a b SF64_RNE 0))
      \<and> is_finite_bits l \<and> val64 (fst (mul_r_impl a b SF64_RNE 0)) + val64 l = val64 a * val64 b)"
  using ddmul_exact [OF _ _ refl] by metis

lemma ddmul_error_free_witness:
  "\<exists>l. gives True (ddmul_dd_d_d 0x3FE0000000000000 0x3FF0000000000000) (dd 0x3FE0000000000000 l) 0 \<and> is_finite_bits l
     \<and> 1 / 2 + val64 l = 1 / 2"
proof -
  have m: "mul_r_impl 0x3FE0000000000000 0x3FF0000000000000 SF64_RNE 0 = (0x3FE0000000000000, 0)" by code_simp
  have "(2 :: real) powi (- 968) \<le> 2 powi (- 1)" by (intro power_int_increasing) simp_all
  then show ?thesis
    using ddmul_error_free [of "0x3FE0000000000000" "0x3FF0000000000000" True] unfolding m by (simp add: power_int_minus)
qed

section \<open>The renormalisation of a double-double\<close>

lemma signed_multiple:
  assumes "\<bar>x\<bar> = real k * u"
  obtains K where "x = real_of_int K * u" "\<bar>K\<bar> = int k"
proof (cases "x < 0")
  case True
  then show ?thesis using assms that [of "- int k"] by simp
next
  case False
  then show ?thesis using assms that [of "int k"] by simp
qed

lemma sum_units:
  assumes "is_finite_bits a" "is_finite_bits b" "\<bar>val64 b\<bar> \<le> \<bar>val64 a\<bar>"
  obtains A B q where "val64 a = real_of_int A * 2 powi q" "val64 b = real_of_int B * 2 powi q" "\<bar>B\<bar> < 2 ^ 53" "- 1074 \<le> q"
proof -
  obtain k q where k: "\<bar>val64 b\<bar> = real k * 2 powi q" "k < 2 ^ 53" "- 1074 \<le> q"
    "\<And>a. is_finite_bits a \<Longrightarrow> \<bar>val64 b\<bar> \<le> \<bar>val64 a\<bar> \<Longrightarrow> \<exists>J. \<bar>val64 a\<bar> = real J * 2 powi q"
    using finite_grid [OF assms(2)] by metis
  obtain j where j: "\<bar>val64 a\<bar> = real j * 2 powi q" using k(4) [OF assms(1,3)] by blast
  obtain B where B: "val64 b = real_of_int B * 2 powi q" "\<bar>B\<bar> = int k" by (rule signed_multiple [OF k(1)])
  obtain A where A: "val64 a = real_of_int A * 2 powi q" by (rule signed_multiple [OF j])
  show ?thesis using that A B k(2,3) by simp
qed

lemma bounded_multiple:
  assumes "\<bar>real_of_int M * 2 powi q\<bar> < 2 ^ 53 * 2 powi q" "- 1074 \<le> q" "\<bar>real_of_int M * 2 powi q\<bar> < 2 powi 1024"
  shows "rep64 (real_of_int M * 2 powi q)"
proof (rule rep64_int [OF _ assms(2,3)])
  have "real_of_int \<bar>M\<bar> * 2 powi q < real_of_int (2 ^ 53) * 2 powi q" using assms(1) by (simp add: abs_mult)
  then show "\<bar>M\<bar> < 2 ^ 53" by (simp only: mult_less_cancel_right_pos powi2_pos of_int_less_iff)
qed

lemma sum_error_rep:
  assumes a: "is_finite_bits a" and b: "is_finite_bits b" and ab: "\<bar>val64 b\<bar> \<le> \<bar>val64 a\<bar>"
    and h: "h = fst (round64 SF64_RNE z (val64 a + val64 b) fe)" "is_finite_bits h"
  shows "rep64 (val64 a + val64 b - val64 h)"
proof -
  obtain A B q where u: "val64 a = real_of_int A * 2 powi q" "val64 b = real_of_int B * 2 powi q" "\<bar>B\<bar> < 2 ^ 53" "- 1074 \<le> q"
    by (rule sum_units [OF a b ab])
  have P: "val64 a + val64 b = real_of_int (A + B) * 2 powi q" unfolding u(1,2) by (simp add: algebra_simps)
  have P1024: "\<bar>val64 a + val64 b\<bar> < 2 powi 1024" by (rule nearest_finite(2) [OF h])
  have near: "\<bar>val64 a + val64 b - val64 h\<bar> \<le> \<bar>val64 b\<bar>"
    using nearest_finite(1) [OF h rep64_val [OF a]] by linarith
  show ?thesis
  proof (cases "\<bar>A + B\<bar> < 2 ^ 53")
    case True
    have "rep64 (val64 a + val64 b)" unfolding P by (rule rep64_int [OF True u(4)]) (use P P1024 in simp)
    then have "val64 h = val64 a + val64 b" using nearest_finite(1) [OF h, of "val64 a + val64 b"] by simp
    then show ?thesis using rep64_val [OF zero_bits(3)] by simp
  next
    case False
    obtain N where N: "val64 h = real_of_int N * 2 powi q"
      using rounded_multiple [OF P _ u(4) h] False by force
    have v: "val64 a + val64 b - val64 h = real_of_int (A + B - N) * 2 powi q" unfolding N P by (simp add: algebra_simps)
    have "\<bar>val64 b\<bar> < 2 ^ 53 * 2 powi q"
    proof -
      have "real_of_int \<bar>B\<bar> * 2 powi q < real_of_int (2 ^ 53) * 2 powi q"
        using u(3) by (intro mult_strict_right_mono) (simp_all only: of_int_less_iff powi2_pos)
      then show ?thesis unfolding u(2) by (simp add: abs_mult)
    qed
    then show ?thesis using near finite_bound [OF b] unfolding v by (intro bounded_multiple u(4)) linarith+
  qed
qed

lemma rep64_unit_power:
  assumes "- 1074 \<le> q" "2 ^ 53 * (2 :: real) powi q < 2 powi 1024"
  shows "rep64 (2 ^ 53 * 2 powi q)"
proof -
  have e: "2 ^ 53 * (2 :: real) powi q = real_of_int 1 * 2 powi (q + 53)" by (simp add: power_int_add)
  show ?thesis using assms unfolding e by (intro rep64_int) simp_all
qed

lemma half_truncated:
  assumes M: "\<bar>M\<bar> < 2 ^ 54" and q: "- 1074 \<le> q" "\<bar>real_of_int M * 2 powi q\<bar> < 2 powi 1024"
  obtains c where "rep64 c" "c \<le> \<bar>real_of_int M * 2 powi q\<bar>" "\<bar>real_of_int M * 2 powi q\<bar> \<le> c + 2 powi q"
proof -
  define k where "k = \<bar>M\<bar> div 2"
  have h: "2 * k \<le> \<bar>M\<bar> \<and> \<bar>M\<bar> \<le> 2 * k + 1" unfolding k_def by presburger
  moreover from this have "0 \<le> k" by linarith
  ultimately have k: "0 \<le> k" "k < 2 ^ 53" "2 * k \<le> \<bar>M\<bar>" "\<bar>M\<bar> \<le> 2 * k + 1" using M by simp_all
  have p: "(2 :: real) powi (q + 1) = 2 * 2 powi q" by (simp add: power_int_add)
  have a: "\<bar>real_of_int M * 2 powi q\<bar> = real_of_int \<bar>M\<bar> * 2 powi q" by (simp add: abs_mult)
  have e: "real_of_int k * 2 powi (q + 1) = real_of_int (2 * k) * 2 powi q" unfolding p by simp
  have lo: "real_of_int k * 2 powi (q + 1) \<le> \<bar>real_of_int M * 2 powi q\<bar>"
    unfolding a e using k(3) by (intro mult_right_mono) (simp_all only: of_int_le_iff, simp)
  have "real_of_int \<bar>M\<bar> * 2 powi q \<le> real_of_int (2 * k + 1) * 2 powi q"
    using k(4) by (intro mult_right_mono) (simp_all only: of_int_le_iff, simp)
  then have hi: "\<bar>real_of_int M * 2 powi q\<bar> \<le> real_of_int k * 2 powi (q + 1) + 2 powi q"
    unfolding a e by (simp add: algebra_simps)
  have "0 \<le> real_of_int k * 2 powi (q + 1)" using k(1) by simp
  then have "rep64 (real_of_int k * 2 powi (q + 1))"
    using k(1,2) q lo by (intro rep64_int) (simp, simp, linarith)
  then show ?thesis using that lo hi by blast
qed

lemma sterbenz_same_sign:
  assumes "is_finite_bits a" "is_finite_bits b" "\<bar>val64 a\<bar> \<le> \<bar>val64 b\<bar>" "\<bar>val64 b\<bar> \<le> 2 * \<bar>val64 a\<bar>"
    and "0 \<le> val64 a \<and> 0 \<le> val64 b \<or> val64 a \<le> 0 \<and> val64 b \<le> 0"
  shows "rep64 (val64 a - val64 b)"
proof -
  have r: "rep64 (\<bar>val64 b\<bar> - \<bar>val64 a\<bar>)" by (rule sterbenz [OF assms(2,1,3,4)])
  have "val64 a - val64 b = \<bar>val64 b\<bar> - \<bar>val64 a\<bar> \<or> val64 a - val64 b = - (\<bar>val64 b\<bar> - \<bar>val64 a\<bar>)"
    using assms(5) by linarith
  then show ?thesis using r rep64_minus by metis
qed

lemma rep64_double: "is_finite_bits a \<Longrightarrow> 2 * \<bar>val64 a\<bar> < 2 powi 1024 \<Longrightarrow> rep64 (2 * \<bar>val64 a\<bar>)"
proof -
  assume a: "is_finite_bits a" "2 * \<bar>val64 a\<bar> < 2 powi 1024"
  obtain K q where K: "val64 a = real_of_int K * 2 powi q" "\<bar>K\<bar> < 2 ^ 53" "- 1074 \<le> q" by (rule finite_scaled [OF a(1)])
  have "2 * \<bar>val64 a\<bar> = real_of_int \<bar>K\<bar> * 2 powi (q + 1)" unfolding K(1) by (simp add: abs_mult power_int_add)
  then show ?thesis using K(2,3) a(2) rep64_int [of "\<bar>K\<bar>" "q + 1"] by simp
qed

text \<open>The three ranges of the sum, in units of the last place of the smaller operand.\<close>

lemma difference_small:
  assumes a: "is_finite_bits a" and b: "is_finite_bits b"
    and u: "val64 a = real_of_int A * 2 powi q" "val64 b = real_of_int B * 2 powi q" "\<bar>B\<bar> < 2 ^ 53" "- 1074 \<le> q"
    and M: "2 ^ 53 \<le> \<bar>A + B\<bar>" "\<bar>A + B\<bar> < 2 ^ 54"
    and h: "h = fst (round64 SF64_RNE z (val64 a + val64 b) fe)" "is_finite_bits h"
  shows "rep64 (val64 a - val64 h)"
proof -
  have P: "val64 a + val64 b = real_of_int (A + B) * 2 powi q" unfolding u(1,2) by (simp add: algebra_simps)
  have P1024: "\<bar>val64 a + val64 b\<bar> < 2 powi 1024" by (rule nearest_finite(2) [OF h])
  obtain N where N: "val64 h = real_of_int N * 2 powi q" and big: "2 ^ 53 * 2 powi q \<le> \<bar>val64 a + val64 b\<bar>"
    using rounded_multiple [OF P M(1) u(4) h] by metis
  obtain c where c: "rep64 c" "c \<le> \<bar>val64 a + val64 b\<bar>" "\<bar>val64 a + val64 b\<bar> \<le> c + 2 powi q"
    using half_truncated [OF M(2) u(4)] P1024 unfolding P by metis
  have e: "\<bar>val64 a + val64 b - val64 h\<bar> \<le> 2 powi q" using nearest_magnitude [OF h c(1)] c(2,3) by linarith
  have "real_of_int \<bar>A + B - N\<bar> * 2 powi q \<le> real_of_int 1 * 2 powi q"
    using e unfolding P N by (simp add: abs_mult flip: left_diff_distrib of_int_diff of_int_add)
  then have "\<bar>A + B - N\<bar> \<le> 1" by (simp only: mult_le_cancel_right_pos powi2_pos of_int_le_iff)
  then have D: "\<bar>A - N\<bar> \<le> 2 ^ 53" using u(3) by linarith
  have v: "val64 a - val64 h = real_of_int (A - N) * 2 powi q" unfolding u(1) N by (simp add: algebra_simps)
  show ?thesis
  proof (cases "\<bar>A - N\<bar> = 2 ^ 53")
    case True
    have "rep64 (2 ^ 53 * 2 powi q)" using big P1024 u(4) by (intro rep64_unit_power) linarith+
    moreover have "val64 a - val64 h = 2 ^ 53 * 2 powi q \<or> val64 a - val64 h = - (2 ^ 53 * 2 powi q)"
    proof -
      consider "A - N = 2 ^ 53" | "A - N = - (2 ^ 53)" using True by linarith
      then show ?thesis by cases (simp_all only: v, simp_all)
    qed
    ultimately show ?thesis using rep64_minus by metis
  next
    case False
    then have D: "\<bar>A - N\<bar> < 2 ^ 53" using D by simp
    have "real_of_int \<bar>A - N\<bar> * 2 powi q < real_of_int (2 ^ 53) * 2 powi q"
      using D by (intro mult_strict_right_mono) (simp_all only: of_int_less_iff powi2_pos)
    then have "\<bar>val64 a - val64 h\<bar> < 2 ^ 53 * 2 powi q" unfolding v by (simp add: abs_mult)
    then have "\<bar>val64 a - val64 h\<bar> < 2 powi 1024" using big P1024 by linarith
    then show ?thesis unfolding v by (intro rep64_int D u(4))
  qed
qed

lemma difference_large:
  assumes a: "is_finite_bits a" and b: "is_finite_bits b" and ab: "\<bar>val64 b\<bar> \<le> \<bar>val64 a\<bar>"
    and u: "val64 a = real_of_int A * 2 powi q" "val64 b = real_of_int B * 2 powi q" "\<bar>B\<bar> < 2 ^ 53" "- 1074 \<le> q"
    and M: "2 ^ 54 \<le> \<bar>A + B\<bar>"
    and h: "h = fst (round64 SF64_RNE z (val64 a + val64 b) fe)" "is_finite_bits h"
  shows "rep64 (val64 a - val64 h)"
proof -
  define W where "W = 2 ^ 53 * (2 :: real) powi (q + 1)"
  have W: "W = 2 * (2 ^ 53 * 2 powi q)" "0 < W" unfolding W_def by (simp_all add: power_int_add)
  have P: "val64 a + val64 b = real_of_int (A + B) * 2 powi q" unfolding u(1,2) by (simp add: algebra_simps)
  have P1024: "\<bar>val64 a + val64 b\<bar> < 2 powi 1024" by (rule nearest_finite(2) [OF h])
  have unit: "2 ^ 54 * 2 powi q \<le> \<bar>real_of_int K * 2 powi q\<bar> \<longleftrightarrow> 2 ^ 54 \<le> \<bar>K\<bar>" for K
  proof -
    have "real_of_int (2 ^ 54) * 2 powi q \<le> real_of_int \<bar>K\<bar> * 2 powi q \<longleftrightarrow> 2 ^ 54 \<le> \<bar>K\<bar>"
      by (simp only: mult_le_cancel_right_pos powi2_pos of_int_le_iff)
    then show ?thesis by (simp add: abs_mult)
  qed
  have big: "W \<le> \<bar>val64 a + val64 b\<bar>" using M unit [of "A + B"] unfolding P W(1) by simp
  have bW: "2 * \<bar>val64 b\<bar> < W"
  proof -
    have "real_of_int \<bar>B\<bar> * 2 powi q < real_of_int (2 ^ 53) * 2 powi q"
      using u(3) by (intro mult_strict_right_mono) (simp_all only: of_int_less_iff powi2_pos)
    then show ?thesis unfolding u(2) W(1) by (simp add: abs_mult)
  qed
  have rW: "rep64 W" unfolding W_def using u(4) big P1024 unfolding W_def by (intro rep64_unit_power) simp_all
  then obtain g where g: "is_finite_bits g" "val64 g = W" by (auto simp: rep64_def)
  have hW: "W \<le> \<bar>val64 h\<bar>" by (rule nearest_not_below [OF h rW W(2) big])
  have near: "\<bar>val64 a + val64 b - val64 h\<bar> \<le> \<bar>val64 b\<bar>"
    using nearest_finite(1) [OF h rep64_val [OF a]] by linarith
  show ?thesis
  proof (cases "W \<le> \<bar>val64 a\<bar>")
    case True
    obtain N where N: "val64 h = real_of_int N * 2 powi (q + 1)"
      using multiple_of_unit [OF g(1) _ h(2)] hW unfolding g(2) W_def by metis
    obtain K where K: "val64 a = real_of_int K * 2 powi (q + 1)"
      using multiple_of_unit [OF g(1) _ a] True unfolding g(2) W_def by metis
    have v: "val64 a - val64 h = real_of_int (K - N) * 2 powi (q + 1)" unfolding K N by (simp add: algebra_simps)
    have "\<bar>val64 a - val64 h\<bar> < W" using near bW by linarith
    then show ?thesis using u(4) big P1024 unfolding v W_def by (intro bounded_multiple) linarith+
  next
    case False
    then have same: "0 \<le> val64 a \<and> 0 \<le> val64 h \<or> val64 a \<le> 0 \<and> val64 h \<le> 0" "\<bar>val64 a\<bar> \<le> \<bar>val64 a + val64 b\<bar>" "val64 a \<noteq> 0"
      using near big hW bW ab W(2) by linarith+
    have "\<bar>val64 a\<bar> \<le> \<bar>val64 h\<bar>" using False hW by linarith
    moreover have "\<bar>val64 h\<bar> \<le> 2 * \<bar>val64 a\<bar>"
    proof (cases "2 * \<bar>val64 a\<bar> < 2 powi 1024")
      case True
      show ?thesis by (rule nearest_not_above [OF h rep64_double [OF a True]]) (use ab in linarith)
    next
      case False
      then show ?thesis using finite_bound [OF h(2)] by linarith
    qed
    ultimately show ?thesis by (rule sterbenz_same_sign [OF a h(2) _ _ same(1)])
  qed
qed

lemma difference_rep:
  assumes a: "is_finite_bits a" and b: "is_finite_bits b" and ab: "\<bar>val64 b\<bar> \<le> \<bar>val64 a\<bar>"
    and h: "h = fst (round64 SF64_RNE z (val64 a + val64 b) fe)" "is_finite_bits h"
  shows "rep64 (val64 a - val64 h)"
proof -
  obtain A B q where u: "val64 a = real_of_int A * 2 powi q" "val64 b = real_of_int B * 2 powi q" "\<bar>B\<bar> < 2 ^ 53" "- 1074 \<le> q"
    by (rule sum_units [OF a b ab])
  consider "\<bar>A + B\<bar> < 2 ^ 53" | "2 ^ 53 \<le> \<bar>A + B\<bar>" "\<bar>A + B\<bar> < 2 ^ 54" | "2 ^ 54 \<le> \<bar>A + B\<bar>" by linarith
  then show ?thesis
  proof cases
    case 1
    have P: "val64 a + val64 b = real_of_int (A + B) * 2 powi q" unfolding u(1,2) by (simp add: algebra_simps)
    have "rep64 (val64 a + val64 b)" unfolding P by (rule rep64_int [OF 1 u(4)]) (use P nearest_finite(2) [OF h] in simp)
    then have "val64 h = val64 a + val64 b" using nearest_finite(1) [OF h, of "val64 a + val64 b"] by simp
    then show ?thesis using rep64_val [OF b] rep64_minus [of "val64 b"] by simp
  next
    case 2
    then show ?thesis by (rule difference_small [OF a b u _ _ h])
  next
    case 3
    then show ?thesis by (rule difference_large [OF a b ab u _ h])
  qed
qed

lemma ddnormalize_exact:
  assumes a: "is_finite_bits a" and b: "is_finite_bits b" and ab: "\<bar>val64 b\<bar> \<le> \<bar>val64 a\<bar>"
    and h: "h = fst (add_r_impl a b SF64_RNE 0)" "is_finite_bits h"
  obtains l where "gives p (ddnormalize_dd_dd (dd a b)) (dd h l) (snd (add_r_impl a b SF64_RNE 0))" "is_finite_bits l"
    "val64 h + val64 l = val64 a + val64 b"
proof -
  obtain z where z: "h = fst (round64 SF64_RNE z (val64 a + val64 b) 0)"
    using h(1) unfolding add_r_impl_finite [OF a b] by blast
  have s: "gives p (sl_add a b) h (snd (add_r_impl a b SF64_RNE 0))" by (rule gives_add) (simp add: h(1))
  obtain v where v: "gives p (sl_sub a h) v 0" "is_finite_bits v" "val64 v = val64 a - val64 h"
    using sub_exact [OF a h(2) difference_rep [OF a b ab z h(2)]] by metis
  have "rep64 (val64 v + val64 b)"
    unfolding v(3) using sum_error_rep [OF a b ab z h(2)] by (simp add: algebra_simps)
  then obtain l where l: "gives p (sl_add v b) l 0" "is_finite_bits l" "val64 l = val64 v + val64 b"
    using add_exact [OF v(2) b] by metis
  have "gives p (sl_add v b \<bind> (\<lambda>e. return (dd h e))) (dd h l) 0" by (rule gives_exact_bind [OF l(1)]) (rule gives_return)
  then have "gives p (sl_sub a h \<bind> (\<lambda>v. sl_add v b \<bind> (\<lambda>e. return (dd h e)))) (dd h l) 0" by (rule gives_exact_bind [OF v(1)])
  then have "gives p (sl_add a b \<bind> (\<lambda>s. sl_sub a s \<bind> (\<lambda>v. sl_add v b \<bind> (\<lambda>e. return (dd s e))))) (dd h l) (snd (add_r_impl a b SF64_RNE 0))"
    by (rule gives_bind_exact [OF s])
  then have "gives p (ddnormalize_dd_dd (dd a b)) (dd h l) (snd (add_r_impl a b SF64_RNE 0))"
    by (simp add: ddnormalize_dd_dd_def dd_def)
  then show ?thesis using that l v(3) by simp
qed

text \<open>
  C16: The renormalisation of a double-double loses nothing: for a low part no larger than the high part
  and a finite sum, the new high part is the sum rounded to nearest, the new low part is the whole
  rounding error (both inner operations are exact), and the two parts add up to the same real number.
\<close>

theorem ddnormalize_error_free:
  "is_finite_bits a \<and> is_finite_bits b \<and> \<bar>val64 b\<bar> \<le> \<bar>val64 a\<bar> \<and> is_finite_bits (fst (add_r_impl a b SF64_RNE 0)) \<longrightarrow>
   (\<exists>l. gives p (ddnormalize_dd_dd (dd a b)) (dd (fst (add_r_impl a b SF64_RNE 0)) l) (snd (add_r_impl a b SF64_RNE 0))
      \<and> is_finite_bits l \<and> val64 (fst (add_r_impl a b SF64_RNE 0)) + val64 l = val64 a + val64 b)"
  using ddnormalize_exact [OF _ _ _ refl] by metis

lemma ddnormalize_error_free_witness:
  "\<exists>l. gives True (ddnormalize_dd_dd (dd 0x3FF0000000000000 0x3FE0000000000000)) (dd 0x3FF8000000000000 l) 0 \<and> is_finite_bits l
     \<and> val64 0x3FF8000000000000 + val64 l = 3 / 2"
proof -
  have m: "add_r_impl 0x3FF0000000000000 0x3FE0000000000000 SF64_RNE 0 = (0x3FF8000000000000, 0)" by code_simp
  have f: "is_finite_bits 0x3FF8000000000000" by code_simp
  show ?thesis
    using ddnormalize_error_free [of "0x3FF0000000000000" "0x3FE0000000000000" True] unfolding m by (simp add: f)
qed

end
