(* ===== verification/Spec2Isabelle.thy ===== *)
theory Spec2Isabelle
  imports Sf_Arith_Props Sf_Fma Sf_Classify Sf_Single Sf_F256_Props Sf_F128 Sf_Ocl_Props Sf_Sleef_Pure
    Sf_Sleef_Limits Sf_Sleef_Ranges Sf_Sleef_Symmetry Sf_Sleef_Exp2 Sf_Sleef_DD
begin

text \<open>
  A verification development for soft-fp, a library of IEEE 754 binary64, binary128 and binary256
  arithmetic that uses integer instructions only.

  \<^bold>\<open>The program.\<close>  The binary64 library works on bit patterns: small bodies in \<open>src/internal.h\<close>,
  \<open>src/arithmetic.cpp\<close>, \<open>src/sqrt_fma.cpp\<close>, \<open>src/convert.cpp\<close>, \<open>src/rounding.cpp\<close>, \<open>src/compare.cpp\<close> and
  \<open>src/classify.cpp\<close> compute an encoding and raise exception bits into an accumulator; every public entry
  of \<open>include/soft_fp64/soft_f64.h\<close> creates an accumulator, runs a body and flushes it once
  (\<open>src/internal_fenv.h\<close>, \<open>src/fenv.cpp\<close>).  Depending on the build the flags go to a bag of the calling
  thread, to a state the caller passes, or nowhere.  \<open>src/internal_arith.h\<close> repeats the bodies for the
  mode nearest-even, for the elementary functions under \<open>src/sleef/\<close>, which are double-double
  computations over those copies.  \<open>src/ocl.cpp\<close> is a second surface that flushes subnormals when built
  to do so.  Binary256 (\<open>src/fp256/\<close>) has its own multiple-limb integers and bodies; binary128
  (\<open>src/fp128/\<close>) calls the vendored Berkeley SoftFloat.

  \<^bold>\<open>Reading the model.\<close>  A double is a 64-bit word, a mode is \<open>sf64_rounding_mode\<close>, a body is a function
  from operands and the bits raised so far to a result and the bits raised.  An entry takes the build
  mode, the calling thread and the world (\<open>fenv_world\<close>: the bag of every thread and the states of the
  callers) and returns a result and a world; \<open>snan\<close> or \<open>p\<close> is the build option that propagates NaNs,
  \<open>ftz\<close> the one that flushes subnormals.  An elementary function is a computation in a state monad over
  the accumulator, written statement by statement in \<open>do\<close> notation.  An out parameter is an \<open>option\<close>
  that is \<open>None\<close> when the pointer is null.  Every definition is executable.

  \<^bold>\<open>Theories.\<close>
  \<^item> \<open>Sf_Prelude\<close>: types, modes, words read as numbers.
  \<^item> \<open>Sf_Spec\<close>: rounding of a real to a format, for any precision and exponent range, independent of the
    code; \<open>Sf_Round\<close> instantiates it for binary64 (\<open>round64\<close>) and proves \<open>round_and_pack\<close> against it.
  \<^item> \<open>Sf_Internal\<close>: \<open>src/internal.h\<close>: fields, shifts, two-limb integers, Knuth division; \<open>val64\<close>, the real
    number a word encodes.
  \<^item> \<open>Sf_Fenv\<close>: the flag store.  The locale \<open>flag_sink\<close> states what an accumulator promises and is
    interpreted on the thread bag, on the caller's state and on the build with explicit states; the
    calls of several threads are a labelled step relation with its runs.
  \<^item> \<open>Sf_Arith\<close>, \<open>Sf_Arith_Props\<close>: add, subtract, multiply, divide, remainder, negate; \<open>Sf_Sqrt\<close>, \<open>Sf_Fma\<close>:
    square root, reciprocal root, fused multiply-add; with the nearest-even copies.
  \<^item> \<open>Sf_Compare\<close>, \<open>Sf_Classify\<close>: predicates, minimum and maximum, classification, signs, neighbours.  The
    locale \<open>value_order\<close> is the contract of the comparisons the selections are built on.
  \<^item> \<open>Sf_Rounding\<close>, \<open>Sf_Scale\<close>: integers, scaling, splitting; \<open>Sf_Convert\<close>, \<open>Sf_Single\<close>: conversions.
  \<^item> \<open>Sf_BigUint\<close>, \<open>Sf_F256\<close>, \<open>Sf_F256_Round\<close>, \<open>Sf_F256_Arith\<close>, \<open>Sf_F256_Conv\<close>, \<open>Sf_F256_Props\<close>: binary256.  The
    locale \<open>limb_arith\<close> is what the digit loops need of an integer type; it is interpreted on the limb
    arrays and on the machine word.
  \<^item> \<open>Sf_F128\<close>: the binary128 surface.  The backend is a record of functions, a parameter of the model;
    what is proved, against the mode numbers, flag bits and byte order the backend documents, is the
    translation of modes, flags, limbs and integers and the isolation of its global state, entry by entry.
  \<^item> \<open>Sf_Sleef\<close>: the vocabulary of the elementary functions (\<open>sleef_common.h\<close>, \<open>sleef_internal.h\<close>);
    \<open>Sf_Sleef_Exp\<close>, \<open>Sf_Sleef_Rem\<close>, \<open>Sf_Sleef_Pow\<close>, \<open>Sf_Sleef_Rempi\<close>, \<open>Sf_Sleef_Trig\<close>, \<open>Sf_Sleef_Special\<close>: every
    entry of the four source files, with all coefficients and the table of the reduction by Payne and
    Hanek.
  \<^item> \<open>Sf_Sleef_Exact\<close>, \<open>Sf_Sleef_DD\<close>: when an operation is exact (Sterbenz), and the error-free product and
    renormalisation of the double-double arithmetic.
  \<^item> \<open>Sf_Sleef_Power\<close>, \<open>Sf_Sleef_Values\<close>, \<open>Sf_Sleef_Limits\<close>, \<open>Sf_Sleef_Ranges\<close>, \<open>Sf_Sleef_Symmetry\<close>,
    \<open>Sf_Sleef_Exp2\<close>, \<open>Sf_Sleef_Pure\<close>: special values, domains, table accesses, clamps, symmetry, exact
    results and purity of the elementary functions.
  \<^item> \<open>Sf_Ocl\<close>, \<open>Sf_Ocl_Props\<close>: the OpenCL surface; with flushing, subnormal operands act as
    zeros and no entry returns a subnormal double.

  \<^bold>\<open>What the theorems show.\<close>  Each arithmetic body equals an IEEE 754 operation on reals, on all operands
  and in all modes, flags included (correctly rounded results, special values, NaN payloads, signs of
  zeros); the specification itself is checked by the optimality of the nearest modes and the bracketing
  of the directed ones.  The specialised copies equal the generic bodies.  The accumulator refines
  direct raises; flags are sticky, isolated between threads and untouched by entries with an own state.
  Multiple-limb integers refine the natural numbers, and binary256 is correctly rounded over them.  Of
  the elementary functions: \<open>fmod\<close> and \<open>remainder\<close> are exact, \<open>exp2\<close> is exact on integers, the kernels of
  the double-double arithmetic lose nothing, special operands follow the IEEE tables, the entries are
  pure up to one raise, table reads stay in range.  Deviations are part of the statements and are named
  in the text before each theorem.

  \<^bold>\<open>Where the code and its headers disagree.\<close>  The theorems state what the code does.  \<open>soft_f64.h\<close>
  announces the canonical quiet NaN for a NaN operand of the arithmetic, of the square root and of the
  roundings to an integer; the arithmetic and the root return the operand quieted with its sign and
  payload, the roundings return it unchanged.  The header says that a signalling NaN raises INVALID; the
  elementary functions and the roundings raise nothing.  \<open>pow\<close> delivers the values of the IEEE 754 table it
  cites, up to two deviations, and none of its exceptions.

  \<^bold>\<open>Termination.\<close>  All loops are structural or total functions with a measure: the loop bounds of the code
  become list lengths or natural numbers (\<open>isqrt_loop\<close>, \<open>rem_loop\<close>, \<open>fmod_loop\<close>, \<open>div_loop\<close>, \<open>sqrt_loop\<close> run
  exactly the turns the code runs), the correction loop of the Knuth division and the carry loops
  decrease a word or an index.  No fuel is used.

  \<^bold>\<open>Not modelled.\<close>  The accuracy in ulp of the elementary functions is not stated: the source gives it as
  measured bounds, and a proof needs error analysis of the polynomials against the real functions.  The
  Berkeley SoftFloat code behind binary128 is third-party.  The C++ wrapper types, the headers'
  declarations, attributes, benchmarks, fuzzers and tests contain no arithmetic of their own.  Memory
  is modelled as far as the code uses it: out parameters, caller states and thread-local bags.
\<close>

end
